(* ===== verification/Prelude.thy ===== *)
theory Prelude
  imports Main
begin

text \<open>
  Shared vocabulary of the development: the outcome of a fallible Rust function (value, error or
  panic) and its sequencing, the unsigned machine integers with the checked and saturating
  operations the sources call, the pieces of \<^verbatim>\<open>str\<close> and \<^verbatim>\<open>format!\<close> the sources use, monotonic
  clock readings, and the generic lemmas and theorem collections the component theories rest on.

  Conventions. A Rust string is a \<^typ>\<open>string\<close>: one \<^typ>\<open>char\<close> per Unicode scalar value, restricted
  to the scalar values below 256. The order of such strings is Rust's order of \<^verbatim>\<open>String\<close>, because
  UTF-8 preserves the order of scalar values. \<^verbatim>\<open>usize\<close> and \<^verbatim>\<open>u64\<close> are natural numbers with their
  64-bit bound written out wherever the code checks it; \<^verbatim>\<open>usize\<close> is 64 bits wide, as on every
  platform the crate is released for.
\<close>

named_theorems embedded_defs \<open>definitions of one-line helpers of the embedded runtime\<close>
named_theorems inv_intros \<open>preservation of component invariants, one fact per operation\<close>

section \<open>Outcomes of fallible functions\<close>

datatype ('e, 'a) outcome = Ok 'a | Err 'e | Panic string

text \<open>\<open>and_then m f\<close> is the \<^verbatim>\<open>?\<close> operator followed by the rest of the function \<open>f\<close>.\<close>

fun and_then :: "('e, 'a) outcome \<Rightarrow> ('a \<Rightarrow> ('e, 'b) outcome) \<Rightarrow> ('e, 'b) outcome" where
  "and_then (Ok x) f = f x"
| "and_then (Err e) f = Err e"
| "and_then (Panic p) f = Panic p"

text \<open>\<open>expect p x\<close> is \<^verbatim>\<open>Option::expect\<close>; \<open>ok_or e x\<close> is \<^verbatim>\<open>Option::ok_or\<close>.\<close>

fun expect :: "string \<Rightarrow> 'a option \<Rightarrow> ('e, 'a) outcome" where
  "expect p (Some x) = Ok x"
| "expect p None = Panic p"

fun ok_or :: "'e \<Rightarrow> 'a option \<Rightarrow> ('e, 'a) outcome" where
  "ok_or e (Some x) = Ok x"
| "ok_or e None = Err e"

fun is_ok :: "('e, 'a) outcome \<Rightarrow> bool" where
  "is_ok (Ok x) = True"
| "is_ok (Err e) = False"
| "is_ok (Panic p) = False"

fun is_panic :: "('e, 'a) outcome \<Rightarrow> bool" where
  "is_panic (Ok x) = False"
| "is_panic (Err e) = False"
| "is_panic (Panic p) = True"

text \<open>
  \<open>commit r s f\<close> is a state transaction whose fallible part \<open>r\<close> is decided before the first
  mutation: an error or a panic leaves the state \<open>s\<close> as it was.
\<close>

fun commit :: "('e, 'a) outcome \<Rightarrow> 's \<Rightarrow> ('a \<Rightarrow> 'b \<times> 's) \<Rightarrow> ('e, 'b) outcome \<times> 's" where
  "commit (Ok x) s f = (Ok (fst (f x)), snd (f x))"
| "commit (Err e) s f = (Err e, s)"
| "commit (Panic p) s f = (Panic p, s)"

lemma commit_Ok_iff: "commit r s f = (Ok y, s') \<longleftrightarrow> (\<exists>x. r = Ok x \<and> f x = (y, s'))"
  by (cases r) (auto simp: prod_eq_iff)

lemma snd_commit: "snd (commit r s f) = (case r of Ok x \<Rightarrow> snd (f x) | _ \<Rightarrow> s)"
  by (cases r) auto

lemma is_panic_commit [simp]: "is_panic (fst (commit r s f)) \<longleftrightarrow> is_panic r"
  by (cases r) auto

lemma is_ok_commit [simp]: "is_ok (fst (commit r s f)) \<longleftrightarrow> is_ok r"
  by (cases r) auto

lemma commit_not_ok: "\<not> is_ok r \<Longrightarrow> snd (commit r s f) = s"
  by (cases r) auto

lemma and_then_Ok_iff [simp]:
  "and_then m f = Ok y \<longleftrightarrow> (\<exists>x. m = Ok x \<and> f x = Ok y)"
  by (cases m) auto

lemma and_then_assoc: "and_then (and_then m f) g = and_then m (\<lambda>x. and_then (f x) g)"
  by (cases m) auto

lemma is_panic_and_then [simp]:
  "is_panic (and_then m f) \<longleftrightarrow> is_panic m \<or> (\<exists>x. m = Ok x \<and> is_panic (f x))"
  by (cases m) auto

lemma ok_or_Ok_iff [simp]: "ok_or e x = Ok y \<longleftrightarrow> x = Some y"
  by (cases x) auto

lemma expect_Ok_iff [simp]: "expect p x = Ok y \<longleftrightarrow> x = Some y"
  by (cases x) auto

lemma is_panic_ok_or [simp]: "\<not> is_panic (ok_or e x)"
  by (cases x) auto

lemma is_panic_expect [simp]: "is_panic (expect p x) \<longleftrightarrow> x = None"
  by (cases x) auto

lemma is_ok_iff: "is_ok m \<longleftrightarrow> (\<exists>x. m = Ok x)"
  by (cases m) auto

section \<open>Unsigned machine integers\<close>

type_synonym usize = nat
type_synonym u64 = nat

definition u64_max :: nat where
  "u64_max = 18446744073709551615"

abbreviation usize_max :: nat where
  "usize_max \<equiv> u64_max"

text \<open>\<^verbatim>\<open>checked_add\<close> and \<^verbatim>\<open>checked_sub\<close> of \<^verbatim>\<open>u64\<close> and \<^verbatim>\<open>usize\<close>.\<close>

definition checked_add :: "nat \<Rightarrow> nat \<Rightarrow> nat option" where
  "checked_add a b = (if a + b \<le> u64_max then Some (a + b) else None)"

definition checked_sub :: "nat \<Rightarrow> nat \<Rightarrow> nat option" where
  "checked_sub a b = (if b \<le> a then Some (a - b) else None)"

text \<open>\<^verbatim>\<open>saturating_sub\<close> is the truncating subtraction of the natural numbers.\<close>

definition saturating_sub :: "nat \<Rightarrow> nat \<Rightarrow> nat" where
  "saturating_sub a b = a - b"

definition saturating_add :: "nat \<Rightarrow> nat \<Rightarrow> nat" where
  "saturating_add a b = min u64_max (a + b)"

lemma checked_add_Some_iff [simp]:
  "checked_add a b = Some c \<longleftrightarrow> c = a + b \<and> a + b \<le> u64_max"
  by (auto simp: checked_add_def)

lemma checked_add_None_iff [simp]: "checked_add a b = None \<longleftrightarrow> u64_max < a + b"
  by (auto simp: checked_add_def)

lemma checked_sub_Some_iff [simp]: "checked_sub a b = Some c \<longleftrightarrow> b \<le> a \<and> c = a - b"
  by (auto simp: checked_sub_def)

lemma checked_sub_None_iff [simp]: "checked_sub a b = None \<longleftrightarrow> a < b"
  by (auto simp: checked_sub_def)

section \<open>Strings\<close>

text \<open>\<^verbatim>\<open>char::is_whitespace\<close> on the scalar values below 256.\<close>

definition is_whitespace :: "char \<Rightarrow> bool" where
  "is_whitespace c \<longleftrightarrow> of_char c \<in> {9, 10, 11, 12, 13, 32, 133, 160 :: nat}"

text \<open>\<^verbatim>\<open>s.trim().is_empty()\<close> and \<^verbatim>\<open>s.contains('\0')\<close>.\<close>

definition trim_is_empty :: "string \<Rightarrow> bool" where
  "trim_is_empty s = list_all is_whitespace s"

definition contains_nul :: "string \<Rightarrow> bool" where
  "contains_nul s = list_ex (\<lambda>c. of_char c = (0 :: nat)) s"

text \<open>The test \<^verbatim>\<open>value.trim().is_empty() || value.contains('\0')\<close> the sources repeat for names.\<close>

definition bad_name :: "string \<Rightarrow> bool" where
  "bad_name s = (trim_is_empty s \<or> contains_nul s)"

text \<open>Decimal rendering of an unsigned integer by \<^verbatim>\<open>format!("{n}")\<close>.\<close>

definition digit_char :: "nat \<Rightarrow> char" where
  "digit_char d = char_of (48 + d)"

fun show_nat :: "nat \<Rightarrow> string" where
  "show_nat n = (if n < 10 then [digit_char n] else show_nat (n div 10) @ [digit_char (n mod 10)])"

declare show_nat.simps [simp del]

lemma digit_char_eq_iff: "d < 10 \<Longrightarrow> e < 10 \<Longrightarrow> digit_char d = digit_char e \<longleftrightarrow> d = e"
proof -
  assume "d < 10" "e < 10"
  then have "of_char (digit_char d) = 48 + d" "of_char (digit_char e) = 48 + e"
    by (simp_all add: digit_char_def)
  then show ?thesis
    by (metis add_left_cancel)
qed

lemma show_nat_ne_Nil [simp]: "show_nat n \<noteq> []"
  by (subst show_nat.simps) simp

lemma show_nat_inj: "show_nat m = show_nat n \<Longrightarrow> m = n"
proof (induction m arbitrary: n rule: show_nat.induct)
  case (1 m)
  have digits: "last (show_nat k) = digit_char (k mod 10)"
    "butlast (show_nat k) = (if k < 10 then [] else show_nat (k div 10))" for k
    by (subst show_nat.simps, simp)+
  from "1.prems" have l: "digit_char (m mod 10) = digit_char (n mod 10)"
    and b: "(if m < 10 then [] else show_nat (m div 10)) = (if n < 10 then [] else show_nat (n div 10))"
    by (metis digits(1), metis digits(2))
  from l have units: "m mod 10 = n mod 10"
    by (simp add: digit_char_eq_iff)
  show ?case
  proof (cases "m < 10")
    case True
    with b have "n < 10" by (metis show_nat_ne_Nil)
    with True units show ?thesis by simp
  next
    case False
    with b have "\<not> n < 10" "show_nat (m div 10) = show_nat (n div 10)"
      by (metis show_nat_ne_Nil)+
    with "1.IH" False have "m div 10 = n div 10" by blast
    with units show ?thesis
      by (metis div_mult_mod_eq)
  qed
qed

lemma show_nat_eq_iff [simp]: "show_nat m = show_nat n \<longleftrightarrow> m = n"
  by (blast dest: show_nat_inj)

text \<open>A rendered number consists of digits, so a separator ends it.\<close>

lemma set_show_nat: "c \<in> set (show_nat n) \<Longrightarrow> \<exists>d < 10. c = digit_char d"
proof (induction n rule: show_nat.induct)
  case (1 n)
  then show ?case
    by (subst (asm) (2) show_nat.simps) (auto split: if_splits intro: exI [of _ n] exI [of _ "n mod 10"])
qed

lemma show_nat_separator:
  assumes "show_nat m @ CHR ''-'' # xs = show_nat n @ CHR ''-'' # ys"
  shows "m = n \<and> xs = ys"
proof -
  have minus: "CHR ''-'' \<notin> set (show_nat k)" for k
  proof
    assume "CHR ''-'' \<in> set (show_nat k)"
    then obtain d where "d < 10" "CHR ''-'' = digit_char d" using set_show_nat by blast
    then have "of_char CHR ''-'' = 48 + d" by (simp add: digit_char_def)
    then show False by simp
  qed
  have "takeWhile (\<lambda>c. c \<noteq> CHR ''-'') (show_nat k @ CHR ''-'' # zs) = show_nat k" for k zs
    using minus by (subst takeWhile_append2) auto
  then have "show_nat m = show_nat n" using assms by metis
  then show ?thesis using assms by simp
qed

section \<open>Clock readings\<close>

text \<open>
  A reading of \<^verbatim>\<open>Instant::now()\<close> is a parameter \<open>now\<close> of every operation that takes one, in
  nanoseconds. \<^verbatim>\<open>Instant\<close> is a 64-bit signed count of seconds and a nanosecond part on Unix, so
  the addition of a duration fails beyond \<open>instant_max\<close>.
\<close>

type_synonym instant = nat
type_synonym duration = nat

definition nanos_per_sec :: nat where
  "nanos_per_sec = 1000000000"

definition nanos_per_milli :: nat where
  "nanos_per_milli = 1000000"

definition instant_max :: nat where
  "instant_max = 9223372036854775807 * nanos_per_sec + 999999999"

definition instant_checked_add :: "instant \<Rightarrow> duration \<Rightarrow> instant option" where
  "instant_checked_add t d = (if t + d \<le> instant_max then Some (t + d) else None)"

lemma instant_checked_add_Some_iff [simp]:
  "instant_checked_add t d = Some t' \<longleftrightarrow> t' = t + d \<and> t + d \<le> instant_max"
  by (auto simp: instant_checked_add_def)

section \<open>Lists\<close>

lemma distinct_singletonD:
  assumes "distinct xs" "set xs = {a}"
  shows "xs = [a]"
proof (cases xs)
  case (Cons x ys)
  then have "set ys \<subseteq> {a}" "a \<notin> set ys" "x = a" using assms by auto
  then show ?thesis using Cons by (cases ys) auto
qed (use assms(2) in simp)

section \<open>Sums over lists\<close>

lemma sum_list_map_le_mono:
  fixes f g :: "'a \<Rightarrow> nat"
  assumes "\<And>x. x \<in> set xs \<Longrightarrow> f x \<le> g x"
  shows "sum_list (map f xs) \<le> sum_list (map g xs)"
  using assms by (induction xs) (auto intro: add_mono)

lemma sum_list_map_cong:
  assumes "\<And>x. x \<in> set xs \<Longrightarrow> f x = g x"
  shows "sum_list (map f xs) = sum_list (map g xs)"
  using assms by (induction xs) auto

lemma length_filter_sum:
  "length (filter P xs) = sum_list (map (\<lambda>x. if P x then 1 else 0 :: nat) xs)"
  by (induction xs) auto

lemma sum_list_map_indicator_swap:
  fixes w :: "'a \<Rightarrow> 'b \<Rightarrow> nat"
  shows "sum_list (map (\<lambda>x. sum_list (map (w x) ys)) xs) = sum_list (map (\<lambda>y. sum_list (map (\<lambda>x. w x y) xs)) ys)"
  by (induction xs) (auto simp: sum_list_addf)

lemma sum_list_indicator_distinct:
  assumes "distinct xs"
  shows "sum_list (map (\<lambda>x. if x = a then 1 else 0 :: nat) xs) = (if a \<in> set xs then 1 else 0)"
  using assms by (induction xs) auto

lemma sum_list_indicator_key:
  assumes "distinct (map fst m)" "\<And>e. P e \<longleftrightarrow> fst e = a" "a \<in> fst ` set m"
  shows "sum_list (map (\<lambda>e. if P e then 1 else 0 :: nat) m) = 1"
proof -
  have "(\<lambda>e. if P e then 1 else 0 :: nat) = (\<lambda>x. if x = a then 1 else 0) \<circ> fst"
    using assms(2) by (auto simp: fun_eq_iff)
  then show ?thesis
    using sum_list_indicator_distinct [OF assms(1), of a] assms(3) by (simp add: comp_def)
qed

section \<open>Mutexes\<close>

text \<open>
  \<^verbatim>\<open>std::sync::Mutex\<close> as the sources use it: a critical section is one transaction on the guarded
  state, a panic inside it poisons the lock, and a poisoned lock is either reported as an error
  (\<open>mutex_with\<close>, the \<^verbatim>\<open>lock().map_err(...)?\<close> idiom) or recovered (\<open>mutex_recover\<close>, the
  \<^verbatim>\<open>PoisonError::into_inner\<close> idiom of destructors).
\<close>

record 's mutex =
  guarded :: 's
  poisoned :: bool

definition mutex_new :: "'s \<Rightarrow> 's mutex" where
  "mutex_new s = \<lparr>guarded = s, poisoned = False\<rparr>"

definition mutex_with :: "'e \<Rightarrow> 's mutex \<Rightarrow> ('s \<Rightarrow> ('e, 'a) outcome \<times> 's) \<Rightarrow> ('e, 'a) outcome \<times> 's mutex" where
  "mutex_with e m body =
     (if poisoned m then (Err e, m)
      else (fst (body (guarded m)), \<lparr>guarded = snd (body (guarded m)), poisoned = is_panic (fst (body (guarded m)))\<rparr>))"

definition mutex_recover :: "'s mutex \<Rightarrow> ('s \<Rightarrow> 's) \<Rightarrow> 's mutex" where
  "mutex_recover m f = m\<lparr>guarded := f (guarded m)\<rparr>"

lemma mutex_new_simps [simp]: "guarded (mutex_new s) = s" "\<not> poisoned (mutex_new s)"
  by (simp_all add: mutex_new_def)

lemma mutex_recover_simps [simp]:
  "guarded (mutex_recover m f) = f (guarded m)" "poisoned (mutex_recover m f) = poisoned m"
  by (simp_all add: mutex_recover_def)

lemma mutex_with_commit_Ok:
  "mutex_with e m (\<lambda>s. commit (r s) s (f s)) = (Ok y, m') \<longleftrightarrow>
     \<not> poisoned m \<and> (\<exists>x. r (guarded m) = Ok x \<and> y = fst (f (guarded m) x) \<and> m' = mutex_new (snd (f (guarded m) x)))"
  by (cases "r (guarded m)") (auto simp: mutex_with_def mutex_new_def)

lemma mutex_with_commit_Err:
  assumes "fst (mutex_with e m (\<lambda>s. commit (r s) s (f s))) = Err x"
  shows "snd (mutex_with e m (\<lambda>s. commit (r s) s (f s))) = m"
  using assms by (cases "r (guarded m)"; cases m) (auto simp: mutex_with_def split: if_splits)

lemma mutex_with_commit_cases:
  "guarded (snd (mutex_with e m (\<lambda>s. commit (r s) s (f s)))) =
     (if poisoned m then guarded m
      else case r (guarded m) of Ok x \<Rightarrow> snd (f (guarded m) x) | _ \<Rightarrow> guarded m)"
  by (cases "r (guarded m)") (auto simp: mutex_with_def)

lemma mutex_with_commit_poisoned [simp]:
  "poisoned (snd (mutex_with e m (\<lambda>s. commit (r s) s (f s)))) \<longleftrightarrow> poisoned m \<or> is_panic (r (guarded m))"
  by (auto simp: mutex_with_def)

lemma mutex_with_healthy:
  "\<not> poisoned m \<Longrightarrow> fst (mutex_with e m body) = fst (body (guarded m))"
  by (simp add: mutex_with_def)

section \<open>Simulations\<close>

text \<open>
  Refinement of a component by its specification: the interface a component offers when each call,
  under its precondition, keeps the invariant, answers as the specification does and ends in a state
  that represents the specification's. Every sequence of calls is then indistinguishable from the
  specification.
\<close>

fun run_ops :: "('op \<Rightarrow> 's \<Rightarrow> 'r \<times> 's) \<Rightarrow> 'op list \<Rightarrow> 's \<Rightarrow> 'r list \<times> 's" where
  "run_ops step [] s = ([], s)"
| "run_ops step (x # xs) s = (case step x s of (r, s') \<Rightarrow> (case run_ops step xs s' of (rs, t) \<Rightarrow> (r # rs, t)))"

fun admissible :: "('op \<Rightarrow> 's \<Rightarrow> bool) \<Rightarrow> ('op \<Rightarrow> 's \<Rightarrow> 'r \<times> 's) \<Rightarrow> 'op list \<Rightarrow> 's \<Rightarrow> bool" where
  "admissible pre step [] s = True"
| "admissible pre step (x # xs) s = (pre x s \<and> admissible pre step xs (snd (step x s)))"

locale simulation =
  fixes invar :: "'c \<Rightarrow> bool" and abs :: "'c \<Rightarrow> 'a" and pre :: "'op \<Rightarrow> 'c \<Rightarrow> bool"
    and cstep :: "'op \<Rightarrow> 'c \<Rightarrow> 'r \<times> 'c" and astep :: "'op \<Rightarrow> 'a \<Rightarrow> 'r \<times> 'a"
  assumes keeps_invar: "invar c \<Longrightarrow> pre x c \<Longrightarrow> invar (snd (cstep x c))"
    and simulates: "invar c \<Longrightarrow> pre x c \<Longrightarrow> astep x (abs c) = (fst (cstep x c), abs (snd (cstep x c)))"
begin

lemma run_simulates:
  assumes "invar c" "admissible pre cstep xs c"
  shows "run_ops astep xs (abs c) = (fst (run_ops cstep xs c), abs (snd (run_ops cstep xs c))) \<and> invar (snd (run_ops cstep xs c))"
  using assms
proof (induction xs arbitrary: c)
  case (Cons x xs)
  then have "run_ops astep xs (abs (snd (cstep x c))) =
      (fst (run_ops cstep xs (snd (cstep x c))), abs (snd (run_ops cstep xs (snd (cstep x c))))) \<and>
      invar (snd (run_ops cstep xs (snd (cstep x c))))"
    using keeps_invar [of c x] by simp
  then show ?case using simulates [of c x] Cons.prems by (simp add: case_prod_beta)
qed simp

end

end
