(* ===== verification/Keyed_Store.thy ===== *)
theory Keyed_Store
  imports Prelude "HOL-Library.List_Lexorder" "HOL-Library.Char_ord" "HOL-Library.AList"
begin

text \<open>
  The keyed containers of the sources. \<open>keyed_store\<close> is the contract every component relies on:
  lookup after insertion and removal, distinct keys, and the entries as a list; its derived facts
  say how a sum over the entries changes, which is what every byte, slot and count ledger of the
  embedded runtime needs. Two implementations discharge it: \<^verbatim>\<open>std::collections::BTreeMap\<close> as an
  association list kept in ascending key order (iteration is in that order), and
  \<^verbatim>\<open>std::collections::HashMap\<close> as an association list whose order has no meaning.
\<close>

section \<open>The contract\<close>

locale keyed_store =
  fixes empty :: "'m"
    and get :: "'m \<Rightarrow> 'k \<Rightarrow> 'v option"
    and put :: "'k \<Rightarrow> 'v \<Rightarrow> 'm \<Rightarrow> 'm"
    and del :: "'k \<Rightarrow> 'm \<Rightarrow> 'm"
    and entries :: "'m \<Rightarrow> ('k \<times> 'v) list"
    and invar :: "'m \<Rightarrow> bool"
  assumes entries_empty: "entries empty = []"
    and invar_empty: "invar empty"
    and invar_put: "invar m \<Longrightarrow> invar (put k v m)"
    and invar_del: "invar m \<Longrightarrow> invar (del k m)"
    and get_put: "get (put k v m) = (get m)(k \<mapsto> v)"
    and get_del: "invar m \<Longrightarrow> get (del k m) = (get m)(k := None)"
    and distinct_keys: "invar m \<Longrightarrow> distinct (map fst (entries m))"
    and get_iff: "invar m \<Longrightarrow> get m k = Some v \<longleftrightarrow> (k, v) \<in> set (entries m)"
begin

lemma get_None_iff: "invar m \<Longrightarrow> get m k = None \<longleftrightarrow> k \<notin> fst ` set (entries m)"
  by (metis (no_types, lifting) get_iff imageE image_eqI option.exhaust option.simps(3) prod.collapse fst_conv)

lemma distinct_entries: "invar m \<Longrightarrow> distinct (entries m)"
  using distinct_keys by (simp add: distinct_map)

lemma sum_entries: "invar m \<Longrightarrow> sum_list (map f (entries m)) = (\<Sum>e \<in> set (entries m). f e)"
  for f :: "'k \<times> 'v \<Rightarrow> nat"
  by (simp add: distinct_entries sum_list_distinct_conv_sum_set)

lemma set_entries_del:
  assumes "invar m"
  shows "set (entries (del k m)) = {e \<in> set (entries m). fst e \<noteq> k}"
proof -
  have "(a, b) \<in> set (entries (del k m)) \<longleftrightarrow> (a, b) \<in> set (entries m) \<and> a \<noteq> k" for a b
    using get_iff [OF assms, of a b] get_iff [OF invar_del [OF assms], of k a b]
    by (auto simp: get_del [OF assms] split: if_splits)
  then show ?thesis
    by (auto simp: set_eq_iff)
qed

lemma set_entries_put:
  assumes "invar m"
  shows "set (entries (put k v m)) = insert (k, v) {e \<in> set (entries m). fst e \<noteq> k}"
proof -
  have "(a, b) \<in> set (entries (put k v m)) \<longleftrightarrow> (a, b) = (k, v) \<or> ((a, b) \<in> set (entries m) \<and> a \<noteq> k)" for a b
    using get_iff [OF assms, of a b] get_iff [OF invar_put [OF assms], of k v a b]
    by (auto simp: get_put split: if_splits)
  then show ?thesis
    by (auto simp: set_eq_iff)
qed

lemma entries_key_unique:
  assumes "invar m" "get m k = Some v"
  shows "{e \<in> set (entries m). fst e = k} = {(k, v)}"
  using assms get_iff [OF assms(1)] by (auto simp: set_eq_iff) (metis option.inject)

lemma sum_split_key:
  fixes f :: "'k \<times> 'v \<Rightarrow> nat"
  assumes "invar m"
  shows "sum_list (map f (entries m)) =
    (\<Sum>e \<in> {e \<in> set (entries m). fst e \<noteq> k}. f e) + (case get m k of None \<Rightarrow> 0 | Some v \<Rightarrow> f (k, v))"
proof -
  let ?A = "{e \<in> set (entries m). fst e \<noteq> k}" and ?B = "{e \<in> set (entries m). fst e = k}"
  have u: "?A \<union> ?B = set (entries m)" by auto
  have "sum f (?A \<union> ?B) = sum f ?A + sum f ?B" by (rule sum.union_disjoint) auto
  then have "(\<Sum>e \<in> set (entries m). f e) = (\<Sum>e \<in> ?A. f e) + (\<Sum>e \<in> ?B. f e)" by (simp only: u)
  moreover have "(\<Sum>e \<in> ?B. f e) = (case get m k of None \<Rightarrow> 0 | Some v \<Rightarrow> f (k, v))"
  proof (cases "get m k")
    case None
    then have "?B = {}" using get_None_iff [OF assms, of k] by force
    then show ?thesis using None by (simp only: sum.empty option.case)
  next
    case (Some v)
    then show ?thesis using entries_key_unique [OF assms Some] by simp
  qed
  ultimately show ?thesis by (simp add: sum_entries [OF assms])
qed

text \<open>Two weights that agree off one key differ by their values at that key.\<close>

lemma sum_change_at:
  fixes f g :: "'k \<times> 'v \<Rightarrow> nat"
  assumes "invar m" "get m k = Some v"
    and "\<And>a b. get m a = Some b \<Longrightarrow> a \<noteq> k \<Longrightarrow> f (a, b) = g (a, b)"
  shows "sum_list (map f (entries m)) + g (k, v) = sum_list (map g (entries m)) + f (k, v)"
proof -
  have "(\<Sum>e \<in> {e \<in> set (entries m). fst e \<noteq> k}. f e) = (\<Sum>e \<in> {e \<in> set (entries m). fst e \<noteq> k}. g e)"
    using assms(3) get_iff [OF assms(1)] by (intro sum.cong) auto
  then show ?thesis
    using sum_split_key [OF assms(1), of f k] sum_split_key [OF assms(1), of g k] assms(2) by simp
qed

lemma sum_mono_entries:
  fixes f g :: "'k \<times> 'v \<Rightarrow> nat"
  assumes "invar m" and "\<And>a b. get m a = Some b \<Longrightarrow> f (a, b) \<le> g (a, b)"
  shows "sum_list (map f (entries m)) \<le> sum_list (map g (entries m))"
  using assms(2) get_iff [OF assms(1)] by (intro sum_list_map_le_mono) auto

lemma sum_cong_entries:
  fixes f g :: "'k \<times> 'v \<Rightarrow> nat"
  assumes "invar m" and "\<And>a b. get m a = Some b \<Longrightarrow> f (a, b) = g (a, b)"
  shows "sum_list (map f (entries m)) = sum_list (map g (entries m))"
  using assms(2) get_iff [OF assms(1)] by (intro sum_list_map_cong) auto

lemma sum_put:
  fixes f :: "'k \<times> 'v \<Rightarrow> nat"
  assumes "invar m"
  shows "sum_list (map f (entries (put k v m))) + (case get m k of None \<Rightarrow> 0 | Some u \<Rightarrow> f (k, u)) =
    sum_list (map f (entries m)) + f (k, v)"
proof -
  have "{e \<in> set (entries (put k v m)). fst e \<noteq> k} = {e \<in> set (entries m). fst e \<noteq> k}"
    by (auto simp: set_entries_put [OF assms])
  then show ?thesis
    using sum_split_key [OF invar_put [OF assms], of f k v k] sum_split_key [OF assms, of f k]
    by (simp add: get_put)
qed

lemma sum_put_new:
  fixes f :: "'k \<times> 'v \<Rightarrow> nat"
  assumes "invar m" "get m k = None"
  shows "sum_list (map f (entries (put k v m))) = sum_list (map f (entries m)) + f (k, v)"
  using sum_put [OF assms(1), of f k v] assms(2) by simp

lemma sum_put_old:
  fixes f :: "'k \<times> 'v \<Rightarrow> nat"
  assumes "invar m" "get m k = Some u"
  shows "sum_list (map f (entries (put k v m))) + f (k, u) = sum_list (map f (entries m)) + f (k, v)"
  using sum_put [OF assms(1), of f k v] assms(2) by simp

lemma sum_del:
  fixes f :: "'k \<times> 'v \<Rightarrow> nat"
  assumes "invar m"
  shows "sum_list (map f (entries (del k m))) + (case get m k of None \<Rightarrow> 0 | Some u \<Rightarrow> f (k, u)) =
    sum_list (map f (entries m))"
proof -
  have "{e \<in> set (entries (del k m)). fst e \<noteq> k} = {e \<in> set (entries m). fst e \<noteq> k}"
    by (auto simp: set_entries_del [OF assms])
  then show ?thesis
    using sum_split_key [OF invar_del [OF assms], of f k k] sum_split_key [OF assms, of f k]
    by (simp add: get_del [OF assms])
qed

lemma sum_del_old:
  fixes f :: "'k \<times> 'v \<Rightarrow> nat"
  assumes "invar m" "get m k = Some u"
  shows "sum_list (map f (entries (del k m))) + f (k, u) = sum_list (map f (entries m))"
  using sum_del [OF assms(1), of f k] assms(2) by simp

lemma le_sum_entry:
  fixes f :: "'k \<times> 'v \<Rightarrow> nat"
  assumes "invar m" "get m k = Some v"
  shows "f (k, v) \<le> sum_list (map f (entries m))"
  using sum_split_key [OF assms(1), of f k] assms(2) by simp

lemma length_put:
  assumes "invar m"
  shows "length (entries (put k v m)) = (if get m k = None then Suc (length (entries m)) else length (entries m))"
proof -
  have len: "length xs = sum_list (map (\<lambda>_. 1 :: nat) xs)" for xs :: "('k \<times> 'v) list"
    by (induction xs) auto
  show ?thesis
    using sum_put [OF assms, of "\<lambda>_. 1" k v] by (auto simp: len split: option.splits)
qed

lemma length_del:
  assumes "invar m"
  shows "length (entries (del k m)) = (if get m k = None then length (entries m) else length (entries m) - 1)"
proof -
  have len: "length xs = sum_list (map (\<lambda>_. 1 :: nat) xs)" for xs :: "('k \<times> 'v) list"
    by (induction xs) auto
  show ?thesis
    using sum_del [OF assms, of "\<lambda>_. 1" k] by (auto simp: len split: option.splits)
qed

end

section \<open>BTreeMap\<close>

type_synonym ('k, 'v) btree = "('k \<times> 'v) list"

fun bt_get :: "('k, 'v) btree \<Rightarrow> 'k \<Rightarrow> 'v option" where
  "bt_get [] k = None"
| "bt_get ((a, b) # m) k = (if k = a then Some b else bt_get m k)"

fun bt_insert :: "'k :: linorder \<Rightarrow> 'v \<Rightarrow> ('k, 'v) btree \<Rightarrow> ('k, 'v) btree" where
  "bt_insert k v [] = [(k, v)]"
| "bt_insert k v ((a, b) # m) =
     (if k < a then (k, v) # (a, b) # m else if k = a then (k, v) # m else (a, b) # bt_insert k v m)"

fun bt_remove :: "'k \<Rightarrow> ('k, 'v) btree \<Rightarrow> ('k, 'v) btree" where
  "bt_remove k [] = []"
| "bt_remove k ((a, b) # m) = (if k = a then m else (a, b) # bt_remove k m)"

definition bt_values :: "('k, 'v) btree \<Rightarrow> 'v list" where
  "bt_values m = map snd m"

definition bt_contains :: "('k, 'v) btree \<Rightarrow> 'k \<Rightarrow> bool" where
  "bt_contains m k = (bt_get m k \<noteq> None)"

definition bt_wf :: "('k :: linorder, 'v) btree \<Rightarrow> bool" where
  "bt_wf m = sorted_wrt (<) (map fst m)"

lemma bt_contains_iff [simp]: "bt_contains m k \<longleftrightarrow> (\<exists>v. bt_get m k = Some v)"
  by (simp add: bt_contains_def)

lemma bt_get_eq_map_of: "bt_get m = map_of m"
proof
  show "bt_get m k = map_of m k" for k
    by (induction m) auto
qed

lemma fst_set_bt_insert: "fst ` set (bt_insert k v m) = insert k (fst ` set m)"
  by (induction k v m rule: bt_insert.induct) auto

lemma set_bt_remove: "set (bt_remove k m) \<subseteq> set m"
  by (induction k m rule: bt_remove.induct) auto

lemma bt_wf_Cons: "bt_wf (e # m) \<longleftrightarrow> (\<forall>a \<in> fst ` set m. fst e < a) \<and> bt_wf m"
  by (simp add: bt_wf_def)

lemma bt_wf_insert [simp, intro]: "bt_wf m \<Longrightarrow> bt_wf (bt_insert k v m)"
proof (induction m)
  case Nil
  then show ?case by (simp add: bt_wf_def)
next
  case (Cons e m)
  then show ?case
    by (cases e) (auto simp: bt_wf_Cons fst_set_bt_insert dest: order.strict_trans)
qed

lemma bt_wf_remove [simp, intro]: "bt_wf m \<Longrightarrow> bt_wf (bt_remove k m)"
proof (induction m)
  case Nil
  then show ?case by simp
next
  case (Cons e m)
  then show ?case
    using set_bt_remove [of k m] by (cases e) (auto simp: bt_wf_Cons)
qed

lemma bt_wf_Nil [simp, intro]: "bt_wf []"
  by (simp add: bt_wf_def)

lemma bt_get_insert [simp]: "bt_get (bt_insert k v m) = (bt_get m)(k \<mapsto> v)"
proof
  show "bt_get (bt_insert k v m) j = ((bt_get m)(k \<mapsto> v)) j" for j
    by (induction m) auto
qed

lemma bt_get_notin: "k \<notin> fst ` set m \<Longrightarrow> bt_get m k = None"
  by (induction m) auto

lemma bt_get_remove: "bt_wf m \<Longrightarrow> bt_get (bt_remove k m) = (bt_get m)(k := None)"
proof
  show "bt_wf m \<Longrightarrow> bt_get (bt_remove k m) j = ((bt_get m)(k := None)) j" for j
    by (induction m) (auto simp: bt_wf_Cons, metis bt_get_notin imageE order.irrefl)
qed

lemma bt_insert_insert [simp]: "bt_insert k v (bt_insert k w m) = bt_insert k v m"
  by (induction m) auto

lemma bt_remove_insert [simp]: "bt_wf m \<Longrightarrow> bt_remove k (bt_insert k v m) = bt_remove k m"
proof (induction m)
  case (Cons e m)
  have absent: "k \<notin> fst ` set m \<Longrightarrow> bt_remove k m = m" by (induction m) auto
  have "k \<notin> fst ` set m" if "k < fst e" using that Cons.prems by (auto simp: bt_wf_Cons)
  then show ?case using Cons absent by (cases e) (auto simp: bt_wf_Cons)
qed simp

lemma bt_wf_distinct: "bt_wf m \<Longrightarrow> distinct (map fst m)"
  by (simp add: bt_wf_def strict_sorted_iff)

interpretation bt: keyed_store "[]" bt_get bt_insert bt_remove "\<lambda>m. m" bt_wf
proof unfold_locales
  show "bt_wf m \<Longrightarrow> bt_get m k = Some v \<longleftrightarrow> (k, v) \<in> set m" for m :: "('k :: linorder, 'v) btree" and k v
    by (simp add: bt_get_eq_map_of bt_wf_distinct)
qed (auto simp: bt_get_remove bt_wf_distinct)

lemma bt_get_value: "bt_get m k = Some v \<Longrightarrow> v \<in> set (bt_values m)"
  by (induction m) (auto simp: bt_values_def split: if_splits)

lemma bt_values_iff: "bt_wf m \<Longrightarrow> v \<in> set (bt_values m) \<longleftrightarrow> (\<exists>k. bt_get m k = Some v)"
  by (force simp: bt_values_def bt.get_iff)

lemma sum_bt_values: "sum_list (map f (bt_values m)) = sum_list (map (\<lambda>e. f (snd e)) m)"
  by (simp add: bt_values_def comp_def)

section \<open>HashMap\<close>

type_synonym ('k, 'v) hash_map = "('k \<times> 'v) list"

interpretation hm: keyed_store "[]" map_of AList.update AList.delete "\<lambda>m. m" "\<lambda>m. distinct (map fst m)"
  by unfold_locales
    (auto simp: update_conv' delete_conv' distinct_update distinct_delete)

end
