(* ===== verification/Embedded_Base.thy ===== *)
theory Embedded_Base
  imports Keyed_Store
begin

text \<open>
  Vocabulary of the embedded plugin runtime: its structured errors (\<^verbatim>\<open>runtime/embedded/error.rs\<close>),
  the rendering of runtime-scoped identities (\<^verbatim>\<open>identity.rs\<close>), JSON values, the byte-limited
  JSON size (\<^verbatim>\<open>value_size.rs\<close>) and JSON contracts (\<^verbatim>\<open>schema.rs\<close>).
\<close>

section \<open>Errors\<close>

datatype embedded_error_code =
    InvalidArgument | NotFound | StaleGeneration | CapacityExceeded | Busy | AlreadyCompleted
  | Closed | Cancelled | DeadlineExceeded | PermissionDenied | Unsupported | ExecutionFailed
  | CleanupFailed | Internal

record embedded_error =
  err_code :: embedded_error_code
  err_message :: string

type_synonym 'a embedded_result = "(embedded_error, 'a) outcome"

definition error_new :: "embedded_error_code \<Rightarrow> string \<Rightarrow> embedded_error" where
  [embedded_defs]: "error_new c m = \<lparr>err_code = c, err_message = m\<rparr>"

definition error_invalid :: "string \<Rightarrow> embedded_error" where
  [embedded_defs]: "error_invalid m = error_new InvalidArgument m"

lemma err_code_simps [simp]:
  "err_code (error_new c m) = c" "err_code (error_invalid m) = InvalidArgument"
  by (simp_all add: embedded_defs)

section \<open>Identities\<close>

datatype identity_kind =
  CapacityIdentity | PoolIdentity | SessionIdentity | OperationIdentity | CapabilityIdentity

fun identity_kind_name :: "identity_kind \<Rightarrow> string" where
  "identity_kind_name CapacityIdentity = ''capacity''"
| "identity_kind_name PoolIdentity = ''pool''"
| "identity_kind_name SessionIdentity = ''session''"
| "identity_kind_name OperationIdentity = ''op''"
| "identity_kind_name CapabilityIdentity = ''cap''"

definition identity_render :: "identity_kind \<Rightarrow> string \<Rightarrow> u64 \<Rightarrow> string" where
  "identity_render k runtime_id sequence = runtime_id @ '':'' @ identity_kind_name k @ '':'' @ show_nat sequence"

definition identity_longest :: "identity_kind \<Rightarrow> string \<Rightarrow> string" where
  "identity_longest k runtime_id = identity_render k runtime_id u64_max"

lemma identity_render_inj [simp]:
  "identity_render k r m = identity_render k r n \<longleftrightarrow> m = n"
  by (simp add: identity_render_def)

text \<open>Identities of different kinds of one runtime never coincide.\<close>

lemma identity_render_kind_inj:
  "identity_render j r m = identity_render k r n \<Longrightarrow> j = k \<and> m = n"
  by (cases j; cases k) (auto simp: identity_render_def)

section \<open>JSON values and their byte-limited size\<close>

text \<open>\<^verbatim>\<open>serde_json::Value\<close>; a number is kept by its text, which is all the runtime ever compares.\<close>

datatype json_value =
    VNull | VBool bool | VNumber string | VString string
  | VArray "json_value list" | VObject "(string \<times> json_value) list"

text \<open>
  Serialization itself is the third-party \<^verbatim>\<open>serde_json\<close>. What the runtime relies on is the
  sequence of buffers handed to the writer and whether serialization stops for a reason of its own
  after them; a parameter \<open>to_writer\<close> of each operation gives both for the value at hand.
\<close>

record serialization =
  ser_chunks :: "usize list"
  ser_failed :: bool

record limited_json_counter =
  counter_bytes :: usize
  counter_limit :: usize

text \<open>The \<^verbatim>\<open>Write\<close> implementation: \<open>None\<close> is the I/O error, and the counter is then unchanged.\<close>

definition counter_write :: "usize \<Rightarrow> limited_json_counter \<Rightarrow> limited_json_counter option" where
  "counter_write len c =
     (if saturating_sub (counter_limit c) (counter_bytes c) < len then None
      else Some (c\<lparr>counter_bytes := counter_bytes c + len\<rparr>))"

fun counter_write_all :: "usize list \<Rightarrow> limited_json_counter \<Rightarrow> limited_json_counter option" where
  "counter_write_all [] c = Some c"
| "counter_write_all (n # ns) c =
     (case counter_write n c of None \<Rightarrow> None | Some c' \<Rightarrow> counter_write_all ns c')"

definition json_size :: "serialization \<Rightarrow> usize \<Rightarrow> usize embedded_result" where
  "json_size s limit =
     (case counter_write_all (ser_chunks s) \<lparr>counter_bytes = 0, counter_limit = limit\<rparr> of
        None \<Rightarrow> Err (error_new CapacityExceeded ''JSON value exceeds its configured byte limit'')
      | Some c \<Rightarrow>
          if ser_failed s then Err (error_new InvalidArgument ''JSON serialization failed'')
          else Ok (counter_bytes c))"

text \<open>The number of bytes a serialization writes.\<close>

definition ser_length :: "serialization \<Rightarrow> nat" where
  "ser_length s = sum_list (ser_chunks s)"

lemma counter_write_all_eq:
  "counter_bytes c \<le> counter_limit c \<Longrightarrow>
   counter_write_all ns c =
     (if counter_bytes c + sum_list ns \<le> counter_limit c
      then Some (c\<lparr>counter_bytes := counter_bytes c + sum_list ns\<rparr>) else None)"
proof (induction ns arbitrary: c)
  case Nil
  then show ?case by simp
next
  case (Cons n ns)
  then show ?case
    by (auto simp: counter_write_def saturating_sub_def add.assoc)
qed

lemma json_size_eq:
  "json_size s limit =
     (if limit < ser_length s then Err (error_new CapacityExceeded ''JSON value exceeds its configured byte limit'')
      else if ser_failed s then Err (error_new InvalidArgument ''JSON serialization failed'')
      else Ok (ser_length s))"
  by (auto simp: json_size_def counter_write_all_eq ser_length_def)

lemma json_size_Ok_iff [simp]:
  "json_size s limit = Ok n \<longleftrightarrow> n = ser_length s \<and> ser_length s \<le> limit \<and> \<not> ser_failed s"
  by (auto simp: json_size_eq)

lemma json_size_not_panic [simp]: "\<not> is_panic (json_size s limit)"
  by (simp add: json_size_eq)

section \<open>Contracts\<close>

text \<open>
  Compiled JSON contracts (\<^verbatim>\<open>runtime/embedded/schema.rs\<close>). The validator itself is the third-party
  \<^verbatim>\<open>jsonschema\<close> crate: \<open>schema_library\<close> holds what the runtime asks of it, the schema path at which
  building a validator fails and the instance and schema paths of the first violation. A compiled
  contract is represented by the schema it was built from.
\<close>

record schema_library =
  sl_build :: "json_value \<Rightarrow> string option"
  sl_validate :: "json_value \<Rightarrow> json_value \<Rightarrow> (string \<times> string) option"

type_synonym json_contract = json_value

definition embedded_schema_dialect :: string where
  "embedded_schema_dialect = ''https://json-schema.org/draft/2020-12/schema''"

text \<open>\<^verbatim>\<open>Value::get\<close> with a string key: only objects have members.\<close>

fun value_member :: "json_value \<Rightarrow> string \<Rightarrow> json_value option" where
  "value_member (VObject ms) k = map_of ms k"
| "value_member _ k = None"

definition contract_compile :: "schema_library \<Rightarrow> json_value \<Rightarrow> json_contract embedded_result" where
  "contract_compile js schema =
     (if (case value_member schema ''$schema'' of None \<Rightarrow> False | Some d \<Rightarrow> d \<noteq> VString embedded_schema_dialect)
      then Err (error_invalid ''embedded contracts require JSON Schema Draft 2020-12'')
      else case sl_build js schema of
        Some path \<Rightarrow> Err (error_invalid (''invalid JSON contract at schema path '' @ path))
      | None \<Rightarrow> Ok schema)"

definition contract_validate :: "schema_library \<Rightarrow> json_contract \<Rightarrow> json_value \<Rightarrow> unit embedded_result" where
  "contract_validate js contract v =
     (case sl_validate js contract v of
        None \<Rightarrow> Ok ()
      | Some (instance_path, schema_path) \<Rightarrow>
          Err (error_invalid (''contract violation at instance path '' @ instance_path @
            '' and schema path '' @ schema_path)))"

lemma contract_not_panic [simp]: "\<not> is_panic (contract_compile js s)" "\<not> is_panic (contract_validate js c v)"
  by (auto simp: contract_compile_def contract_validate_def split: option.splits)

end
