(* ===== verification/Embedded_Config.thy ===== *)
theory Embedded_Config
  imports Embedded_Base
begin

text \<open>
  The declarative budgets of the embedded runtime and their validation: the parent configuration
  and the pool policy (\<^verbatim>\<open>runtime/embedded/config.rs\<close>), the capacity shared by several pools
  (\<^verbatim>\<open>capacity.rs\<close>) and the budget of one plugin (\<^verbatim>\<open>plugin_config.rs\<close>). Every limit is checked in the
  order of the sources, and the lemmas say what an accepted configuration guarantees.
\<close>

section \<open>Parent configuration\<close>

record embedded_runtime_config =
  max_registered_plugins :: usize
  max_registered_pools :: usize
  max_sessions :: usize
  max_registered_capabilities :: usize
  max_resident_vms :: usize
  max_running_calls :: usize
  max_queued_calls :: usize
  max_queued_bytes :: usize
  max_operations :: usize
  max_effect_records_per_operation :: usize
  max_effect_bytes_per_operation :: usize
  max_host_requests :: usize
  max_host_request_bytes :: usize
  max_value_bytes :: usize

definition runtime_config_validate :: "embedded_runtime_config \<Rightarrow> unit embedded_result" where
  "runtime_config_validate c =
     (if max_effect_records_per_operation c = 0 \<or> max_effect_bytes_per_operation c = 0
      then Err (error_invalid ''effect retention limits must be positive'')
      else if max_registered_plugins c = 0 \<or> max_registered_pools c = 0
        \<or> max_registered_capabilities c = 0 \<or> max_sessions c = 0
      then Err (error_invalid ''registration limits must be positive'')
      else if max_resident_vms c = 0 \<or> max_running_calls c = 0
      then Err (error_invalid ''resident and running limits must be positive'')
      else if max_running_calls c > max_resident_vms c
      then Err (error_invalid ''running limit exceeds resident VM limit'')
      else if max_queued_calls c = 0 \<or> max_queued_bytes c = 0
      then Err (error_invalid ''queue count and byte limits must be positive'')
      else if max_operations c < max_running_calls c \<or> max_operations c < max_queued_calls c
      then Err (error_invalid ''operation limit must cover running and queue limits individually'')
      else if max_host_requests c = 0 \<or> max_value_bytes c = 0
      then Err (error_invalid ''host request and value limits must be positive'')
      else if max_value_bytes c > max_queued_bytes c
      then Err (error_invalid ''value byte limit exceeds queue byte limit'')
      else if max_value_bytes c > max_host_request_bytes c
      then Err (error_invalid ''value byte limit exceeds host request byte limit'')
      else Ok ())"

section \<open>Capacity and pool policies\<close>

datatype pool_kind = Shared | Dedicated

datatype instance_reuse = SingleCall | Reusable | Session

datatype execution_backend = InProcess | WorkerProcess

record vm_capacity_config =
  cap_kind :: pool_kind
  cap_min_resident_vms :: usize
  cap_max_resident_vms :: usize
  cap_max_running_calls :: usize

definition capacity_config_validate ::
  "vm_capacity_config \<Rightarrow> embedded_runtime_config \<Rightarrow> unit embedded_result" where
  "capacity_config_validate c parent =
     and_then (runtime_config_validate parent) (\<lambda>_.
       if cap_max_resident_vms c = 0 \<or> cap_max_resident_vms c > max_resident_vms parent
       then Err (error_invalid ''group resident limit is outside the parent budget'')
       else if cap_min_resident_vms c > cap_max_resident_vms c
       then Err (error_invalid ''group reservation exceeds its resident limit'')
       else if cap_kind c = Shared \<and> cap_min_resident_vms c \<noteq> 0
       then Err (error_invalid ''shared groups cannot reserve dedicated capacity'')
       else if cap_max_running_calls c = 0 \<or> cap_max_running_calls c > cap_max_resident_vms c
         \<or> cap_max_running_calls c > max_running_calls parent
       then Err (error_invalid ''group running limit is outside the resident or parent budget'')
       else Ok ())"

record plugin_pool_config =
  pool_kind_of :: pool_kind
  pool_min_resident_vms :: usize
  pool_max_resident_vms :: usize
  pool_max_running_calls :: usize
  pool_max_queued_calls :: usize
  pool_reuse :: instance_reuse
  pool_serial :: bool
  pool_backend :: execution_backend
  pool_idle_ttl_ms :: "u64 option"
  pool_max_uses :: "u64 option"

definition pool_capacity :: "plugin_pool_config \<Rightarrow> vm_capacity_config" where
  "pool_capacity p =
     \<lparr>cap_kind = pool_kind_of p, cap_min_resident_vms = pool_min_resident_vms p,
      cap_max_resident_vms = pool_max_resident_vms p, cap_max_running_calls = pool_max_running_calls p\<rparr>"

definition pool_config_validate ::
  "plugin_pool_config \<Rightarrow> embedded_runtime_config \<Rightarrow> unit embedded_result" where
  "pool_config_validate p parent =
     and_then (runtime_config_validate parent) (\<lambda>_.
       if pool_backend p \<noteq> InProcess
       then Err (error_new Unsupported ''worker process backend is not available'')
       else and_then (capacity_config_validate (pool_capacity p) parent) (\<lambda>_.
         if pool_serial p \<and> pool_max_running_calls p \<noteq> 1
         then Err (error_invalid ''serial groups must declare exactly one running call'')
         else if pool_max_queued_calls p = 0 \<or> pool_max_queued_calls p > max_queued_calls parent
         then Err (error_invalid ''group queue limit is outside the parent budget'')
         else if pool_idle_ttl_ms p = Some 0 \<or> pool_max_uses p = Some 0
         then Err (error_invalid ''optional idle and reuse limits must be positive'')
         else Ok ()))"

section \<open>Plugin budgets\<close>

record embedded_plugin_config =
  plg_max_registered_pools :: usize
  plg_max_sessions :: usize
  plg_max_resident_vms :: usize
  plg_max_running_calls :: usize
  plg_max_queued_calls :: usize
  plg_max_queued_bytes :: usize
  plg_max_operations :: usize

fun plugin_limits_check :: "(usize \<times> usize) list \<Rightarrow> unit embedded_result" where
  "plugin_limits_check [] = Ok ()"
| "plugin_limits_check ((v, l) # rest) =
     (if v = 0 \<or> v > l then Err (error_invalid ''plugin budget is outside the parent limit'')
      else plugin_limits_check rest)"

definition plugin_config_validate ::
  "embedded_plugin_config \<Rightarrow> embedded_runtime_config \<Rightarrow> unit embedded_result" where
  "plugin_config_validate c parent =
     and_then (runtime_config_validate parent) (\<lambda>_.
     and_then (plugin_limits_check
       [(plg_max_registered_pools c, max_registered_pools parent),
        (plg_max_sessions c, max_sessions parent),
        (plg_max_resident_vms c, max_resident_vms parent),
        (plg_max_running_calls c, max_running_calls parent),
        (plg_max_queued_calls c, max_queued_calls parent),
        (plg_max_queued_bytes c, max_queued_bytes parent),
        (plg_max_operations c, max_operations parent)]) (\<lambda>_.
       if plg_max_running_calls c > plg_max_resident_vms c
         \<or> plg_max_running_calls c > plg_max_operations c
         \<or> plg_max_queued_calls c > plg_max_operations c
       then Err (error_invalid ''plugin execution and retention budgets are inconsistent'')
       else Ok ()))"

definition plugin_validate_pool ::
  "embedded_plugin_config \<Rightarrow> plugin_pool_config \<Rightarrow> unit embedded_result" where
  "plugin_validate_pool c p =
     (if pool_max_resident_vms p > plg_max_resident_vms c
        \<or> pool_max_running_calls p > plg_max_running_calls c
        \<or> pool_max_queued_calls p > plg_max_queued_calls c
      then Err (error_invalid ''execution domain exceeds its plugin budget'')
      else Ok ())"

section \<open>What an accepted configuration guarantees\<close>

lemma runtime_config_valid_iff:
  "runtime_config_validate c = Ok () \<longleftrightarrow>
     0 < max_effect_records_per_operation c \<and> 0 < max_effect_bytes_per_operation c \<and>
     0 < max_registered_plugins c \<and> 0 < max_registered_pools c \<and>
     0 < max_registered_capabilities c \<and> 0 < max_sessions c \<and>
     0 < max_running_calls c \<and> max_running_calls c \<le> max_resident_vms c \<and>
     0 < max_queued_calls c \<and>
     max_running_calls c \<le> max_operations c \<and> max_queued_calls c \<le> max_operations c \<and>
     0 < max_host_requests c \<and> 0 < max_value_bytes c \<and>
     max_value_bytes c \<le> max_queued_bytes c \<and> max_value_bytes c \<le> max_host_request_bytes c"
  unfolding runtime_config_validate_def by auto

lemma capacity_config_valid_iff:
  "capacity_config_validate c parent = Ok () \<longleftrightarrow>
     runtime_config_validate parent = Ok () \<and>
     cap_min_resident_vms c \<le> cap_max_resident_vms c \<and>
     cap_max_resident_vms c \<le> max_resident_vms parent \<and>
     0 < cap_max_running_calls c \<and> cap_max_running_calls c \<le> cap_max_resident_vms c \<and>
     cap_max_running_calls c \<le> max_running_calls parent \<and>
     (cap_kind c = Shared \<longrightarrow> cap_min_resident_vms c = 0)"
  unfolding capacity_config_validate_def by auto

lemma pool_config_valid_iff:
  "pool_config_validate p parent = Ok () \<longleftrightarrow>
     pool_backend p = InProcess \<and>
     capacity_config_validate (pool_capacity p) parent = Ok () \<and>
     (pool_serial p \<longrightarrow> pool_max_running_calls p = 1) \<and>
     0 < pool_max_queued_calls p \<and> pool_max_queued_calls p \<le> max_queued_calls parent \<and>
     pool_idle_ttl_ms p \<noteq> Some 0 \<and> pool_max_uses p \<noteq> Some 0"
  unfolding pool_config_validate_def by (auto simp: capacity_config_valid_iff)

lemma validate_not_panic [simp]:
  "\<not> is_panic (runtime_config_validate c)"
  "\<not> is_panic (capacity_config_validate cc c)"
  "\<not> is_panic (pool_config_validate p c)"
  by (auto simp: runtime_config_validate_def capacity_config_validate_def pool_config_validate_def)

end
