(* ===== verification/Governor.thy ===== *)
theory Governor
  imports Embedded_Config
begin

text \<open>
  The pool governor (\<^verbatim>\<open>runtime/embedded/governor.rs\<close> and \<^verbatim>\<open>governor/capacity.rs\<close>): the single
  authority that admits resident VMs and running calls against the parent budget, the budget of each
  execution group and the shared budget of a capacity owner. One mutex guards the metadata, so each
  public operation is one atomic step; \<open>with_lock\<close> and \<open>with_lock_recover\<close> model the two ways the
  code takes it, and a panic inside either one poisons it. A \<^verbatim>\<open>VmReservation\<close> is its slot identity,
  an \<^verbatim>\<open>ExecutionPermit\<close> the phase it restores; \<open>governor_step\<close> adds the ownership discipline that
  the Rust types enforce.
\<close>

section \<open>State\<close>

datatype vm_allocation_state = VmCreating | VmIdle | VmRunning | VmRetiring

record pool_usage =
  resident :: usize
  creating :: usize
  idle :: usize
  running :: usize
  retiring :: usize

definition pool_usage_default :: pool_usage where
  "pool_usage_default = \<lparr>resident = 0, creating = 0, idle = 0, running = 0, retiring = 0\<rparr>"

record allocation =
  al_group :: string
  al_phase :: vm_allocation_state

record governor_state =
  groups :: "(string, plugin_pool_config) btree"
  capacities :: "(string, vm_capacity_config) btree"
  memberships :: "(string, string) btree"
  allocations :: "(u64, allocation) btree"
  gov_sequence :: u64

record pool_governor =
  gov_config :: embedded_runtime_config
  gov_state :: governor_state
  gov_poisoned :: bool

record vm_capacity_snapshot =
  snap_config :: vm_capacity_config
  snap_resources :: pool_usage
  snap_committed_resident_vms :: usize
  snap_registered_groups :: usize

definition gov_capacity_error :: "string \<Rightarrow> embedded_error" where
  [embedded_defs]: "gov_capacity_error m = error_new CapacityExceeded m"

definition gov_not_found :: "string \<Rightarrow> embedded_error" where
  [embedded_defs]: "gov_not_found m = error_new NotFound m"

section \<open>The metadata lock\<close>

definition gov_lock :: "pool_governor \<Rightarrow> governor_state embedded_result" where
  "gov_lock g =
     (if gov_poisoned g then Err (error_new Internal ''pool governor lock is poisoned'')
      else Ok (gov_state g))"

definition with_lock ::
  "pool_governor \<Rightarrow> (governor_state \<Rightarrow> 'a embedded_result \<times> governor_state) \<Rightarrow>
   'a embedded_result \<times> pool_governor" where
  "with_lock g body =
     (case gov_lock g of
        Ok st \<Rightarrow>
          (case body st of (r, st') \<Rightarrow>
             (r, g\<lparr>gov_state := st', gov_poisoned := is_panic r\<rparr>))
      | Err e \<Rightarrow> (Err e, g)
      | Panic p \<Rightarrow> (Panic p, g))"

text \<open>Destructors take the lock through \<^verbatim>\<open>PoisonError::into_inner\<close>.\<close>

definition with_lock_recover ::
  "pool_governor \<Rightarrow> (governor_state \<Rightarrow> 'a embedded_result \<times> governor_state) \<Rightarrow>
   'a embedded_result \<times> pool_governor" where
  "with_lock_recover g body =
     (case body (gov_state g) of (r, st') \<Rightarrow>
        (r, g\<lparr>gov_state := st', gov_poisoned := gov_poisoned g \<or> is_panic r\<rparr>))"

section \<open>Counters\<close>

definition count_one :: "pool_usage \<Rightarrow> allocation \<Rightarrow> pool_usage" where
  "count_one u a =
     (let u = u\<lparr>resident := resident u + 1\<rparr> in
      case al_phase a of
        VmCreating \<Rightarrow> u\<lparr>creating := creating u + 1\<rparr>
      | VmIdle \<Rightarrow> u\<lparr>idle := idle u + 1\<rparr>
      | VmRunning \<Rightarrow> u\<lparr>running := running u + 1\<rparr>
      | VmRetiring \<Rightarrow> u\<lparr>retiring := retiring u + 1\<rparr>)"

definition count_allocations :: "allocation list \<Rightarrow> pool_usage" where
  "count_allocations = foldl count_one pool_usage_default"

definition group_usage :: "governor_state \<Rightarrow> string \<Rightarrow> pool_usage" where
  "group_usage st grp = count_allocations (filter (\<lambda>a. al_group a = grp) (bt_values (allocations st)))"

definition owned_by :: "governor_state \<Rightarrow> string \<Rightarrow> allocation \<Rightarrow> bool" where
  "owned_by st ident a = (case bt_get (memberships st) (al_group a) of None \<Rightarrow> False | Some owner \<Rightarrow> owner = ident)"

definition capacity_usage :: "governor_state \<Rightarrow> string \<Rightarrow> pool_usage" where
  "capacity_usage st ident = count_allocations (filter (owned_by st ident) (bt_values (allocations st)))"

section \<open>Committed parent slots\<close>

fun commit_groups ::
  "governor_state \<Rightarrow> string option \<Rightarrow> (string \<times> plugin_pool_config) list \<Rightarrow> usize \<Rightarrow> usize embedded_result" where
  "commit_groups st requesting [] committed = Ok committed"
| "commit_groups st requesting ((grp, policy) # rest) committed =
     (if bt_contains (memberships st) grp then commit_groups st requesting rest committed
      else
        let res = resident (group_usage st grp);
            charge = (if requesting = Some grp then res else max res (pool_min_resident_vms policy))
        in and_then (ok_or (error_invalid ''resident reservation overflow'') (checked_add committed charge))
             (commit_groups st requesting rest))"

fun commit_capacities ::
  "governor_state \<Rightarrow> string option \<Rightarrow> (string \<times> vm_capacity_config) list \<Rightarrow> usize \<Rightarrow> usize embedded_result" where
  "commit_capacities st requesting [] committed = Ok committed"
| "commit_capacities st requesting ((ident, config) # rest) committed =
     (let res = resident (capacity_usage st ident);
          charge = (if requesting = Some ident then res else max res (cap_min_resident_vms config))
      in and_then (ok_or (error_invalid ''resident reservation overflow'') (checked_add committed charge))
           (commit_capacities st requesting rest))"

definition requesting_capacity :: "governor_state \<Rightarrow> string option \<Rightarrow> string option" where
  "requesting_capacity st requesting_group = Option.bind requesting_group (bt_get (memberships st))"

definition commitment :: "governor_state \<Rightarrow> string option \<Rightarrow> usize embedded_result" where
  "commitment st requesting_group =
     and_then (commit_groups st requesting_group (groups st) 0)
       (commit_capacities st (requesting_capacity st requesting_group) (capacities st))"

section \<open>Registration\<close>

definition governor_new :: "embedded_runtime_config \<Rightarrow> pool_governor embedded_result" where
  "governor_new config =
     and_then (runtime_config_validate config) (\<lambda>_.
       Ok \<lparr>gov_config = config,
           gov_state = \<lparr>groups = [], capacities = [], memberships = [], allocations = [], gov_sequence = 0\<rparr>,
           gov_poisoned = False\<rparr>)"

text \<open>Everything \<^verbatim>\<open>register_group_internal\<close> checks under the lock, in its order.\<close>

definition register_group_check ::
  "embedded_runtime_config \<Rightarrow> governor_state \<Rightarrow> string \<Rightarrow> plugin_pool_config \<Rightarrow> string option \<Rightarrow>
   unit embedded_result" where
  "register_group_check config st grp policy capacity_id =
     (if bt_contains (groups st) grp
      then Err (error_new Busy ''execution group is already registered'')
      else if length (groups st) \<ge> max_registered_pools config
      then Err (gov_capacity_error ''registered pool limit reached'')
      else case capacity_id of
        Some ident \<Rightarrow>
          and_then (ok_or (gov_not_found ''capacity identity does not exist'') (bt_get (capacities st) ident)) (\<lambda>cap.
            if pool_kind_of policy \<noteq> cap_kind cap \<or> pool_min_resident_vms policy \<noteq> 0
              \<or> pool_max_resident_vms policy > cap_max_resident_vms cap
              \<or> pool_max_running_calls policy > cap_max_running_calls cap
            then Err (error_invalid ''module policy conflicts with its capacity owner'')
            else Ok ())
      | None \<Rightarrow>
          and_then (commitment st None) (\<lambda>committed.
            if pool_min_resident_vms policy > saturating_sub (max_resident_vms config) committed
            then Err (gov_capacity_error ''dedicated reservations exceed available parent capacity'')
            else Ok ()))"

definition register_group_internal ::
  "pool_governor \<Rightarrow> string \<Rightarrow> plugin_pool_config \<Rightarrow> string option \<Rightarrow> unit embedded_result \<times> pool_governor" where
  "register_group_internal g grp policy capacity_id =
     (if trim_is_empty grp then (Err (error_invalid ''execution group must be nonempty''), g)
      else case pool_config_validate policy (gov_config g) of
        Err e \<Rightarrow> (Err e, g)
      | Panic p \<Rightarrow> (Panic p, g)
      | Ok _ \<Rightarrow>
          with_lock g (\<lambda>st.
            commit (register_group_check (gov_config g) st grp policy capacity_id) st (\<lambda>_.
              ((), st\<lparr>groups := bt_insert grp policy (groups st),
                     memberships := (case capacity_id of None \<Rightarrow> memberships st
                                     | Some ident \<Rightarrow> bt_insert grp ident (memberships st))\<rparr>))))"

definition register_group ::
  "pool_governor \<Rightarrow> string \<Rightarrow> plugin_pool_config \<Rightarrow> unit embedded_result \<times> pool_governor" where
  "register_group g grp policy = register_group_internal g grp policy None"

definition register_group_in_capacity ::
  "pool_governor \<Rightarrow> string \<Rightarrow> plugin_pool_config \<Rightarrow> string \<Rightarrow> unit embedded_result \<times> pool_governor" where
  "register_group_in_capacity g grp policy capacity_id = register_group_internal g grp policy (Some capacity_id)"

definition unregister_group :: "pool_governor \<Rightarrow> string \<Rightarrow> unit embedded_result \<times> pool_governor" where
  "unregister_group g grp =
     with_lock g (\<lambda>st.
       commit
         (if \<not> bt_contains (groups st) grp then Err (gov_not_found ''execution group does not exist'')
          else if resident (group_usage st grp) \<noteq> 0
          then Err (error_new Busy ''execution group still owns resident allocations'')
          else Ok ()) st (\<lambda>_.
         ((), st\<lparr>groups := bt_remove grp (groups st), memberships := bt_remove grp (memberships st)\<rparr>)))"

section \<open>Capacity owners\<close>

definition register_capacity_check ::
  "embedded_runtime_config \<Rightarrow> governor_state \<Rightarrow> string \<Rightarrow> vm_capacity_config \<Rightarrow> unit embedded_result" where
  "register_capacity_check config st ident cap =
     (if bt_contains (capacities st) ident
      then Err (error_new Busy ''capacity identity is already registered'')
      else if length (capacities st) \<ge> max_registered_pools config
      then Err (gov_capacity_error ''registered capacity limit reached'')
      else and_then (commitment st None) (\<lambda>committed.
        if cap_min_resident_vms cap > saturating_sub (max_resident_vms config) committed
        then Err (gov_capacity_error ''dedicated reservations exceed available parent capacity'')
        else Ok ()))"

definition register_capacity ::
  "pool_governor \<Rightarrow> string \<Rightarrow> vm_capacity_config \<Rightarrow> unit embedded_result \<times> pool_governor" where
  "register_capacity g ident cap =
     (if trim_is_empty ident then (Err (error_invalid ''capacity identity must be nonempty''), g)
      else case capacity_config_validate cap (gov_config g) of
        Err e \<Rightarrow> (Err e, g)
      | Panic p \<Rightarrow> (Panic p, g)
      | Ok _ \<Rightarrow>
          with_lock g (\<lambda>st.
            commit (register_capacity_check (gov_config g) st ident cap) st (\<lambda>_.
              ((), st\<lparr>capacities := bt_insert ident cap (capacities st)\<rparr>))))"

definition revise_capacity_check ::
  "embedded_runtime_config \<Rightarrow> governor_state \<Rightarrow> string \<Rightarrow> vm_capacity_config \<Rightarrow> unit embedded_result" where
  "revise_capacity_check config st ident cap =
     and_then (ok_or (gov_not_found ''capacity identity does not exist'') (bt_get (capacities st) ident)) (\<lambda>previous.
     let res = resident (capacity_usage st ident) in
     and_then (commitment st None) (\<lambda>committed.
     and_then (ok_or (error_invalid ''resident reservation overflow'')
       (Option.bind (checked_sub committed (max res (cap_min_resident_vms previous)))
          (\<lambda>other. checked_add other (max res (cap_min_resident_vms cap))))) (\<lambda>committed.
       if committed > max_resident_vms config
       then Err (gov_capacity_error ''revised reservations exceed available parent capacity'')
       else Ok ())))"

definition revise_capacity ::
  "pool_governor \<Rightarrow> string \<Rightarrow> vm_capacity_config \<Rightarrow> unit embedded_result \<times> pool_governor" where
  "revise_capacity g ident cap =
     (case capacity_config_validate cap (gov_config g) of
        Err e \<Rightarrow> (Err e, g)
      | Panic p \<Rightarrow> (Panic p, g)
      | Ok _ \<Rightarrow>
          with_lock g (\<lambda>st.
            commit (revise_capacity_check (gov_config g) st ident cap) st (\<lambda>_.
              ((), st\<lparr>capacities := bt_insert ident cap (capacities st)\<rparr>))))"

definition unregister_capacity :: "pool_governor \<Rightarrow> string \<Rightarrow> unit embedded_result \<times> pool_governor" where
  "unregister_capacity g ident =
     with_lock g (\<lambda>st.
       commit
         (if \<not> bt_contains (capacities st) ident then Err (gov_not_found ''capacity identity does not exist'')
          else if list_ex (\<lambda>owner. owner = ident) (bt_values (memberships st))
          then Err (error_new Busy ''capacity still owns registered module groups'')
          else Ok ()) st (\<lambda>_.
         ((), st\<lparr>capacities := bt_remove ident (capacities st)\<rparr>)))"

section \<open>Observation\<close>

definition governor_usage :: "pool_governor \<Rightarrow> string option \<Rightarrow> pool_usage embedded_result" where
  "governor_usage g grp =
     and_then (gov_lock g) (\<lambda>st.
       case grp of
         Some name \<Rightarrow>
           if \<not> bt_contains (groups st) name then Err (gov_not_found ''execution group does not exist'')
           else Ok (group_usage st name)
       | None \<Rightarrow> Ok (count_allocations (bt_values (allocations st))))"

definition governor_capacity :: "pool_governor \<Rightarrow> string \<Rightarrow> vm_capacity_snapshot embedded_result" where
  "governor_capacity g ident =
     and_then (gov_lock g) (\<lambda>st.
     and_then (ok_or (gov_not_found ''capacity identity does not exist'') (bt_get (capacities st) ident)) (\<lambda>config.
       let resources = capacity_usage st ident in
       Ok \<lparr>snap_config = config, snap_resources = resources,
           snap_committed_resident_vms = max (resident resources) (cap_min_resident_vms config),
           snap_registered_groups = length (filter (\<lambda>owner. owner = ident) (bt_values (memberships st)))\<rparr>))"

section \<open>Reservations and execution permits\<close>

definition reserve_check ::
  "embedded_runtime_config \<Rightarrow> governor_state \<Rightarrow> string \<Rightarrow> u64 embedded_result" where
  "reserve_check config st grp =
     and_then (ok_or (gov_not_found ''execution group does not exist'') (bt_get (groups st) grp)) (\<lambda>policy.
     if resident (group_usage st grp) \<ge> pool_max_resident_vms policy
     then Err (gov_capacity_error ''execution group resident limit reached'')
     else
       and_then
         (case bt_get (memberships st) grp of
            None \<Rightarrow> Ok ()
          | Some ident \<Rightarrow>
              and_then (expect ''capacity remains while members exist'' (bt_get (capacities st) ident)) (\<lambda>cap.
                if resident (capacity_usage st ident) \<ge> cap_max_resident_vms cap
                then Err (gov_capacity_error ''capacity group resident limit reached'')
                else Ok ())) (\<lambda>_.
       and_then (commitment st (Some grp)) (\<lambda>committed.
         if committed \<ge> max_resident_vms config
         then Err (gov_capacity_error ''parent resident capacity is occupied or reserved'')
         else ok_or (error_new Internal ''allocation identity exhausted'') (checked_add (gov_sequence st) 1))))"

definition governor_reserve :: "pool_governor \<Rightarrow> string \<Rightarrow> u64 embedded_result \<times> pool_governor" where
  "governor_reserve g grp =
     with_lock g (\<lambda>st.
       commit (reserve_check (gov_config g) st grp) st (\<lambda>ident.
         (ident, st\<lparr>gov_sequence := ident,
                allocations := bt_insert ident \<lparr>al_group = grp, al_phase = VmCreating\<rparr> (allocations st)\<rparr>)))"

definition set_phase :: "u64 \<Rightarrow> allocation \<Rightarrow> vm_allocation_state \<Rightarrow> governor_state \<Rightarrow> governor_state" where
  "set_phase ident a phase st = st\<lparr>allocations := bt_insert ident (a\<lparr>al_phase := phase\<rparr>) (allocations st)\<rparr>"

definition reservation_transition ::
  "pool_governor \<Rightarrow> u64 \<Rightarrow> vm_allocation_state \<Rightarrow> vm_allocation_state \<Rightarrow> unit embedded_result \<times> pool_governor" where
  "reservation_transition g ident expected next =
     with_lock g (\<lambda>st.
       commit
         (and_then (ok_or (gov_not_found ''VM reservation no longer exists'') (bt_get (allocations st) ident)) (\<lambda>a.
            if al_phase a \<noteq> expected then Err (error_new Busy ''VM lifecycle transition is invalid'')
            else Ok a)) st (\<lambda>a. ((), set_phase ident a next st)))"

definition mark_ready :: "pool_governor \<Rightarrow> u64 \<Rightarrow> unit embedded_result \<times> pool_governor" where
  "mark_ready g ident = reservation_transition g ident VmCreating VmIdle"

definition begin_execution_check ::
  "embedded_runtime_config \<Rightarrow> governor_state \<Rightarrow> u64 \<Rightarrow> allocation embedded_result" where
  "begin_execution_check config st ident =
     and_then (ok_or (gov_not_found ''VM reservation no longer exists'') (bt_get (allocations st) ident)) (\<lambda>a.
     if al_phase a \<notin> {VmCreating, VmIdle} then Err (error_new Busy ''VM is not available for execution'')
     else
       and_then (ok_or (gov_not_found ''execution group does not exist'') (bt_get (groups st) (al_group a))) (\<lambda>policy.
       if running (group_usage st (al_group a)) \<ge> pool_max_running_calls policy
         \<or> running (count_allocations (bt_values (allocations st))) \<ge> max_running_calls config
       then Err (gov_capacity_error ''execution capacity is occupied'')
       else
         and_then
           (case bt_get (memberships st) (al_group a) of
              None \<Rightarrow> Ok ()
            | Some cid \<Rightarrow>
                and_then (expect ''capacity remains while members exist'' (bt_get (capacities st) cid)) (\<lambda>cap.
                  if running (capacity_usage st cid) \<ge> cap_max_running_calls cap
                  then Err (gov_capacity_error ''capacity group execution limit reached'')
                  else Ok ())) (\<lambda>_. Ok a)))"

text \<open>The permit returned on success is the phase to restore.\<close>

definition begin_execution ::
  "pool_governor \<Rightarrow> u64 \<Rightarrow> vm_allocation_state embedded_result \<times> pool_governor" where
  "begin_execution g ident =
     with_lock g (\<lambda>st.
       commit (begin_execution_check (gov_config g) st ident) st (\<lambda>a. (al_phase a, set_phase ident a VmRunning st)))"

definition mark_retiring :: "pool_governor \<Rightarrow> u64 \<Rightarrow> unit embedded_result \<times> pool_governor" where
  "mark_retiring g ident =
     with_lock g (\<lambda>st.
       commit
         (and_then (ok_or (gov_not_found ''VM reservation no longer exists'') (bt_get (allocations st) ident)) (\<lambda>a.
            if al_phase a = VmRunning then Err (error_new Busy ''VM is still running'') else Ok a)) st
         (\<lambda>a. ((), set_phase ident a VmRetiring st)))"

definition drop_reservation :: "pool_governor \<Rightarrow> u64 \<Rightarrow> unit embedded_result \<times> pool_governor" where
  "drop_reservation g ident =
     with_lock_recover g (\<lambda>st. (Ok (), st\<lparr>allocations := bt_remove ident (allocations st)\<rparr>))"

definition drop_permit ::
  "pool_governor \<Rightarrow> u64 \<Rightarrow> vm_allocation_state \<Rightarrow> unit embedded_result \<times> pool_governor" where
  "drop_permit g ident previous =
     with_lock_recover g (\<lambda>st.
       commit
         (expect ''execution permit exclusively borrows its live reservation'' (bt_get (allocations st) ident)) st
         (\<lambda>a. ((), set_phase ident a previous st)))"

section \<open>The governor under Rust's ownership discipline\<close>

text \<open>
  The holders of the affine values: a live reservation is \<open>Unborrowed\<close>, or borrowed by an execution
  permit that carries the phase to restore. A permit borrows its reservation mutably, so no other
  operation on that reservation happens until the permit is dropped.
\<close>

datatype reservation_token = Unborrowed | Permitted vm_allocation_state

record governor_system =
  sys_governor :: pool_governor
  sys_tokens :: "u64 \<rightharpoonup> reservation_token"

inductive governor_step :: "governor_system \<Rightarrow> governor_system \<Rightarrow> bool" where
  step_register_group:
    "governor_step s (s\<lparr>sys_governor := snd (register_group (sys_governor s) grp policy)\<rparr>)"
| step_register_group_in_capacity:
    "governor_step s (s\<lparr>sys_governor := snd (register_group_in_capacity (sys_governor s) grp policy cid)\<rparr>)"
| step_unregister_group:
    "governor_step s (s\<lparr>sys_governor := snd (unregister_group (sys_governor s) grp)\<rparr>)"
| step_register_capacity:
    "governor_step s (s\<lparr>sys_governor := snd (register_capacity (sys_governor s) cid cap)\<rparr>)"
| step_revise_capacity:
    "governor_step s (s\<lparr>sys_governor := snd (revise_capacity (sys_governor s) cid cap)\<rparr>)"
| step_unregister_capacity:
    "governor_step s (s\<lparr>sys_governor := snd (unregister_capacity (sys_governor s) cid)\<rparr>)"
| step_reserve:
    "governor_reserve (sys_governor s) grp = (Ok ident, g) \<Longrightarrow>
     governor_step s (s\<lparr>sys_governor := g, sys_tokens := (sys_tokens s)(ident \<mapsto> Unborrowed)\<rparr>)"
| step_reserve_failed:
    "governor_reserve (sys_governor s) grp = (r, g) \<Longrightarrow> \<not> is_ok r \<Longrightarrow>
     governor_step s (s\<lparr>sys_governor := g\<rparr>)"
| step_mark_ready:
    "sys_tokens s ident = Some Unborrowed \<Longrightarrow>
     governor_step s (s\<lparr>sys_governor := snd (mark_ready (sys_governor s) ident)\<rparr>)"
| step_begin_execution:
    "sys_tokens s ident = Some Unborrowed \<Longrightarrow> begin_execution (sys_governor s) ident = (Ok previous, g) \<Longrightarrow>
     governor_step s (s\<lparr>sys_governor := g, sys_tokens := (sys_tokens s)(ident \<mapsto> Permitted previous)\<rparr>)"
| step_begin_execution_failed:
    "sys_tokens s ident = Some Unborrowed \<Longrightarrow> begin_execution (sys_governor s) ident = (r, g) \<Longrightarrow> \<not> is_ok r \<Longrightarrow>
     governor_step s (s\<lparr>sys_governor := g\<rparr>)"
| step_drop_permit:
    "sys_tokens s ident = Some (Permitted previous) \<Longrightarrow>
     governor_step s (s\<lparr>sys_governor := snd (drop_permit (sys_governor s) ident previous),
                       sys_tokens := (sys_tokens s)(ident \<mapsto> Unborrowed)\<rparr>)"
| step_mark_retiring:
    "sys_tokens s ident = Some Unborrowed \<Longrightarrow>
     governor_step s (s\<lparr>sys_governor := snd (mark_retiring (sys_governor s) ident)\<rparr>)"
| step_drop_reservation:
    "sys_tokens s ident = Some Unborrowed \<Longrightarrow>
     governor_step s (s\<lparr>sys_governor := snd (drop_reservation (sys_governor s) ident),
                       sys_tokens := (sys_tokens s)(ident := None)\<rparr>)"

inductive governor_reachable :: "embedded_runtime_config \<Rightarrow> governor_system \<Rightarrow> bool"
  for config where
  governor_start:
    "governor_new config = Ok g \<Longrightarrow> governor_reachable config \<lparr>sys_governor = g, sys_tokens = Map.empty\<rparr>"
| governor_next:
    "governor_reachable config s \<Longrightarrow> governor_step s t \<Longrightarrow> governor_reachable config t"

end
