(* ===== verification/Governor_Inv.thy ===== *)
theory Governor_Inv
  imports Governor
begin

text \<open>
  The accounting invariant of the pool governor. The counters are lengths of filtered ledgers
  (\<open>alloc_count\<close>), the committed parent slots are a sum of per-owner charges (\<open>total_commitment\<close>, equal
  to what the checked loop of the code computes unless it overflows), and \<open>governor_inv\<close> states that
  registrations, memberships, allocations and live tokens agree and that every budget is respected.
  Each operation preserves it, so it holds in every reachable state.
\<close>

section \<open>Counters as filtered lengths\<close>

definition alloc_count :: "governor_state \<Rightarrow> (allocation \<Rightarrow> bool) \<Rightarrow> nat" where
  "alloc_count st P = length (filter P (bt_values (allocations st)))"

lemma foldl_count_one:
  "resident (foldl count_one u xs) = resident u + length xs \<and>
   creating (foldl count_one u xs) = creating u + length (filter (\<lambda>a. al_phase a = VmCreating) xs) \<and>
   idle (foldl count_one u xs) = idle u + length (filter (\<lambda>a. al_phase a = VmIdle) xs) \<and>
   running (foldl count_one u xs) = running u + length (filter (\<lambda>a. al_phase a = VmRunning) xs) \<and>
   retiring (foldl count_one u xs) = retiring u + length (filter (\<lambda>a. al_phase a = VmRetiring) xs)"
  by (induction xs arbitrary: u) (auto simp: count_one_def Let_def split: vm_allocation_state.splits)

lemma count_allocations_simps [simp]:
  "resident (count_allocations xs) = length xs"
  "creating (count_allocations xs) = length (filter (\<lambda>a. al_phase a = VmCreating) xs)"
  "idle (count_allocations xs) = length (filter (\<lambda>a. al_phase a = VmIdle) xs)"
  "running (count_allocations xs) = length (filter (\<lambda>a. al_phase a = VmRunning) xs)"
  "retiring (count_allocations xs) = length (filter (\<lambda>a. al_phase a = VmRetiring) xs)"
  using foldl_count_one [of pool_usage_default xs]
  by (simp_all add: count_allocations_def pool_usage_default_def)

abbreviation group_resident :: "governor_state \<Rightarrow> string \<Rightarrow> nat" where
  "group_resident st grp \<equiv> alloc_count st (\<lambda>a. al_group a = grp)"

abbreviation group_running :: "governor_state \<Rightarrow> string \<Rightarrow> nat" where
  "group_running st grp \<equiv> alloc_count st (\<lambda>a. al_group a = grp \<and> al_phase a = VmRunning)"

abbreviation capacity_resident :: "governor_state \<Rightarrow> string \<Rightarrow> nat" where
  "capacity_resident st cid \<equiv> alloc_count st (owned_by st cid)"

abbreviation total_running :: "governor_state \<Rightarrow> nat" where
  "total_running st \<equiv> alloc_count st (\<lambda>a. al_phase a = VmRunning)"

abbreviation total_resident :: "governor_state \<Rightarrow> nat" where
  "total_resident st \<equiv> alloc_count st (\<lambda>_. True)"

lemma usage_as_count [simp]:
  "resident (group_usage st grp) = group_resident st grp"
  "running (group_usage st grp) = group_running st grp"
  "resident (capacity_usage st cid) = capacity_resident st cid"
  "running (capacity_usage st cid) = alloc_count st (\<lambda>a. owned_by st cid a \<and> al_phase a = VmRunning)"
  by (auto simp: group_usage_def capacity_usage_def alloc_count_def intro!: arg_cong [where f = length] filter_cong)

lemma running_total_as_count [simp]:
  "length (filter (\<lambda>a. al_phase a = VmRunning) (bt_values (allocations st))) = total_running st"
  by (simp add: alloc_count_def)

lemma alloc_count_sum:
  "alloc_count st P = sum_list (map (\<lambda>e. if P (snd e) then 1 else 0) (allocations st))"
  by (simp add: alloc_count_def length_filter_sum sum_bt_values)

lemma alloc_count_frame [simp]:
  "alloc_count (st\<lparr>groups := x\<rparr>) P = alloc_count st P"
  "alloc_count (st\<lparr>capacities := y\<rparr>) P = alloc_count st P"
  "alloc_count (st\<lparr>memberships := z\<rparr>) P = alloc_count st P"
  "alloc_count (st\<lparr>gov_sequence := n\<rparr>) P = alloc_count st P"
  by (simp_all add: alloc_count_def)

lemma alloc_count_insert_new:
  assumes "bt_wf (allocations st)" "bt_get (allocations st) k = None"
  shows "alloc_count (st\<lparr>allocations := bt_insert k a (allocations st)\<rparr>) P = alloc_count st P + (if P a then 1 else 0)"
  using bt.sum_put_new [OF assms, of "\<lambda>e. if P (snd e) then 1 else 0" a] by (simp add: alloc_count_sum)

lemma alloc_count_update:
  assumes "bt_wf (allocations st)" "bt_get (allocations st) k = Some b"
  shows "alloc_count (st\<lparr>allocations := bt_insert k a (allocations st)\<rparr>) P + (if P b then 1 else 0) =
    alloc_count st P + (if P a then 1 else 0)"
  using bt.sum_put_old [OF assms, of "\<lambda>e. if P (snd e) then 1 else 0" a] by (simp add: alloc_count_sum)

lemma alloc_count_remove_le:
  assumes "bt_wf (allocations st)"
  shows "alloc_count (st\<lparr>allocations := bt_remove k (allocations st)\<rparr>) P \<le> alloc_count st P"
  using bt.sum_del [OF assms, of "\<lambda>e. if P (snd e) then 1 else 0" k] by (simp add: alloc_count_sum split: option.splits)

lemma alloc_count_zero:
  assumes "\<And>k a. bt_get (allocations st) k = Some a \<Longrightarrow> \<not> P a" "bt_wf (allocations st)"
  shows "alloc_count st P = 0"
  using assms by (auto simp: alloc_count_def filter_empty_conv bt_values_iff)

lemma alloc_count_pos:
  assumes "bt_get (allocations st) k = Some a" "P a"
  shows "0 < alloc_count st P"
  using assms bt_get_value by (fastforce simp: alloc_count_def filter_empty_conv)

lemma alloc_count_cong:
  assumes "\<And>k a. bt_get (allocations st) k = Some a \<Longrightarrow> P a = Q a" "bt_wf (allocations st)"
  shows "alloc_count st P = alloc_count st Q"
  using assms by (auto simp: alloc_count_def bt_values_iff intro!: arg_cong [where f = length] filter_cong)

section \<open>Committed slots as a sum of charges\<close>

definition group_charge :: "governor_state \<Rightarrow> string option \<Rightarrow> string \<times> plugin_pool_config \<Rightarrow> nat" where
  "group_charge st req e =
     (if bt_contains (memberships st) (fst e) then 0
      else if req = Some (fst e) then group_resident st (fst e)
      else max (group_resident st (fst e)) (pool_min_resident_vms (snd e)))"

definition capacity_charge :: "governor_state \<Rightarrow> string option \<Rightarrow> string \<times> vm_capacity_config \<Rightarrow> nat" where
  "capacity_charge st req e =
     (if req = Some (fst e) then capacity_resident st (fst e)
      else max (capacity_resident st (fst e)) (cap_min_resident_vms (snd e)))"

definition total_commitment :: "governor_state \<Rightarrow> string option \<Rightarrow> nat" where
  "total_commitment st req =
     sum_list (map (group_charge st req) (groups st)) +
     sum_list (map (capacity_charge st (requesting_capacity st req)) (capacities st))"

lemma commit_groups_eq:
  "commit_groups st req gs acc =
     (if acc + sum_list (map (group_charge st req) gs) \<le> u64_max
      then Ok (acc + sum_list (map (group_charge st req) gs))
      else Err (error_invalid ''resident reservation overflow''))"
  if "acc \<le> u64_max" for acc
  using that
proof (induction gs arbitrary: acc)
  case Nil
  then show ?case by simp
next
  case (Cons e gs)
  obtain grp policy where e: "e = (grp, policy)" by (cases e)
  show ?case
  proof (cases "bt_contains (memberships st) grp")
    case True
    then have "group_charge st req e = 0" by (simp add: group_charge_def e)
    with True Cons show ?thesis by (simp add: e del: bt_contains_iff)
  next
    case False
    let ?c = "group_charge st req e"
    have c: "(if req = Some grp then group_resident st grp
      else max (group_resident st grp) (pool_min_resident_vms policy)) = ?c"
      using False by (simp add: group_charge_def e del: bt_contains_iff)
    show ?thesis
    proof (cases "acc + ?c \<le> u64_max")
      case True
      then show ?thesis
        using Cons.IH [OF True] False c
        by (auto simp: e Let_def add.assoc checked_add_def simp del: bt_contains_iff)
    next
      case over: False
      then show ?thesis
        using False c by (auto simp: e Let_def checked_add_def simp del: bt_contains_iff)
    qed
  qed
qed

lemma commit_capacities_eq:
  "commit_capacities st req cs acc =
     (if acc + sum_list (map (capacity_charge st req) cs) \<le> u64_max
      then Ok (acc + sum_list (map (capacity_charge st req) cs))
      else Err (error_invalid ''resident reservation overflow''))"
  if "acc \<le> u64_max" for acc
  using that
proof (induction cs arbitrary: acc)
  case Nil
  then show ?case by simp
next
  case (Cons e cs)
  obtain cid cap where e: "e = (cid, cap)" by (cases e)
  let ?c = "capacity_charge st req e"
  have c: "(if req = Some cid then capacity_resident st cid
    else max (capacity_resident st cid) (cap_min_resident_vms cap)) = ?c"
    by (simp add: capacity_charge_def e)
  show ?case
  proof (cases "acc + ?c \<le> u64_max")
    case True
    then show ?thesis
      using Cons.IH [OF True] c by (auto simp: e Let_def add.assoc checked_add_def)
  next
    case over: False
    then show ?thesis
      using c by (auto simp: e Let_def checked_add_def)
  qed
qed

lemma commitment_eq:
  "commitment st req =
     (if total_commitment st req \<le> u64_max then Ok (total_commitment st req)
      else Err (error_invalid ''resident reservation overflow''))"
  by (simp add: commitment_def commit_groups_eq commit_capacities_eq total_commitment_def)

lemma owned_by_frame [simp]:
  "owned_by (st\<lparr>groups := x\<rparr>) = owned_by st"
  "owned_by (st\<lparr>capacities := y\<rparr>) = owned_by st"
  "owned_by (st\<lparr>allocations := z\<rparr>) = owned_by st"
  "owned_by (st\<lparr>gov_sequence := n\<rparr>) = owned_by st"
  by (simp_all add: owned_by_def fun_eq_iff)

lemma owned_by_iff: "owned_by st cid a \<longleftrightarrow> bt_get (memberships st) (al_group a) = Some cid"
  by (auto simp: owned_by_def split: option.splits)

lemma requesting_capacity_simps [simp]:
  "requesting_capacity st None = None"
  "requesting_capacity st (Some grp) = bt_get (memberships st) grp"
  by (simp_all add: requesting_capacity_def)

lemma total_commitment_mono:
  assumes "groups st' = groups st" "capacities st' = capacities st" "memberships st' = memberships st"
    and "\<And>grp. group_resident st' grp \<le> group_resident st grp"
    and "\<And>cid. capacity_resident st' cid \<le> capacity_resident st cid"
  shows "total_commitment st' None \<le> total_commitment st None"
  unfolding total_commitment_def assms(1,2)
proof (rule add_mono; rule sum_list_map_le_mono)
  show "group_charge st' None e \<le> group_charge st None e" for e
    using assms(4) [of "fst e"] by (auto simp: group_charge_def assms(3) max_def)
  show "capacity_charge st' (requesting_capacity st' None) e \<le> capacity_charge st (requesting_capacity st None) e" for e
    using assms(5) [of "fst e"] by (auto simp: capacity_charge_def max_def)
qed

section \<open>The invariant\<close>

definition governor_inv :: "embedded_runtime_config \<Rightarrow> governor_state \<Rightarrow> bool" where
  "governor_inv c st \<longleftrightarrow>
     bt_wf (groups st) \<and> bt_wf (capacities st) \<and> bt_wf (memberships st) \<and> bt_wf (allocations st) \<and>
     (\<forall>grp cid. bt_get (memberships st) grp = Some cid \<longrightarrow>
        bt_contains (groups st) grp \<and> bt_contains (capacities st) cid) \<and>
     (\<forall>k a. bt_get (allocations st) k = Some a \<longrightarrow> bt_contains (groups st) (al_group a) \<and> k \<le> gov_sequence st) \<and>
     (\<forall>grp p. bt_get (groups st) grp = Some p \<longrightarrow>
        pool_config_validate p c = Ok () \<and>
        group_resident st grp \<le> pool_max_resident_vms p \<and> group_running st grp \<le> pool_max_running_calls p) \<and>
     (\<forall>cid cap. bt_get (capacities st) cid = Some cap \<longrightarrow> capacity_config_validate cap c = Ok ()) \<and>
     total_running st \<le> max_running_calls c \<and>
     total_commitment st None \<le> max_resident_vms c \<and>
     length (groups st) \<le> max_registered_pools c \<and>
     length (capacities st) \<le> max_registered_pools c \<and>
     gov_sequence st \<le> u64_max"

lemma governor_inv_wf:
  assumes "governor_inv c st"
  shows "bt_wf (groups st)" "bt_wf (capacities st)" "bt_wf (memberships st)" "bt_wf (allocations st)"
  using assms by (simp_all add: governor_inv_def)

lemma governor_inv_links:
  assumes "governor_inv c st"
  shows "bt_get (memberships st) grp = Some cid \<Longrightarrow> bt_contains (groups st) grp \<and> bt_contains (capacities st) cid"
    and "bt_get (allocations st) k = Some a \<Longrightarrow> bt_contains (groups st) (al_group a) \<and> k \<le> gov_sequence st"
  using assms unfolding governor_inv_def by blast+

lemma governor_inv_policy:
  assumes "governor_inv c st"
  shows "bt_get (groups st) grp = Some p \<Longrightarrow> pool_config_validate p c = Ok () \<and>
        group_resident st grp \<le> pool_max_resident_vms p \<and> group_running st grp \<le> pool_max_running_calls p"
    and "bt_get (capacities st) cid = Some cap \<Longrightarrow> capacity_config_validate cap c = Ok ()"
  using assms unfolding governor_inv_def by blast+

lemma governor_inv_bounds:
  assumes "governor_inv c st"
  shows "total_running st \<le> max_running_calls c" "total_commitment st None \<le> max_resident_vms c"
    "length (groups st) \<le> max_registered_pools c" "length (capacities st) \<le> max_registered_pools c"
    "gov_sequence st \<le> u64_max"
  using assms by (simp_all add: governor_inv_def)

lemma governor_inv_unused_group:
  assumes "governor_inv c st" "bt_get (groups st) grp = None"
  shows "group_resident st grp = 0" "group_running st grp = 0" "bt_get (memberships st) grp = None"
    and "\<And>k a. bt_get (allocations st) k = Some a \<Longrightarrow> al_group a \<noteq> grp"
proof -
  show *: "al_group a \<noteq> grp" if "bt_get (allocations st) k = Some a" for k a
    using governor_inv_links(2) [OF assms(1) that] assms(2) by auto
  show "group_resident st grp = 0" "group_running st grp = 0"
    using * governor_inv_wf(4) [OF assms(1)] by (auto intro!: alloc_count_zero)
  show "bt_get (memberships st) grp = None"
    using governor_inv_links(1) [OF assms(1), of grp] assms(2) by (cases "bt_get (memberships st) grp") auto
qed

lemma governor_inv_unused_capacity:
  assumes "governor_inv c st" "bt_get (capacities st) cid = None"
  shows "capacity_resident st cid = 0" "bt_get (memberships st) grp \<noteq> Some cid"
proof -
  show *: "bt_get (memberships st) grp \<noteq> Some cid" for grp
    using governor_inv_links(1) [OF assms(1), of grp cid] assms(2) by auto
  show "capacity_resident st cid = 0"
    using * governor_inv_wf(4) [OF assms(1)] by (auto intro!: alloc_count_zero simp: owned_by_iff)
qed

lemma governor_inv_start:
  assumes "governor_new c = Ok g"
  shows "governor_inv c (gov_state g)" "gov_config g = c" "\<not> gov_poisoned g"
  using assms
  by (auto simp: governor_new_def governor_inv_def alloc_count_def bt_values_def total_commitment_def)

end
