(* ===== verification/Governor_Steps.thy ===== *)
theory Governor_Steps
  imports Governor_Inv
begin

text \<open>
  Preservation of the governor invariant by every operation, and its consequences: the budgets hold in
  every reachable state, an unused dedicated reservation can always be drawn, no panic is reachable.
\<close>

section \<open>Registrations\<close>

lemma registered_commitment_group:
  assumes inv: "governor_inv c st" and new: "bt_get (groups st) grp = None"
  shows "total_commitment (st\<lparr>groups := bt_insert grp p (groups st)\<rparr>) None =
    total_commitment st None + pool_min_resident_vms p"
proof -
  let ?st = "st\<lparr>groups := bt_insert grp p (groups st)\<rparr>"
  have "group_charge ?st None = group_charge st None" "capacity_charge ?st None = capacity_charge st None"
    by (auto simp: group_charge_def capacity_charge_def fun_eq_iff)
  moreover have "group_charge st None (grp, p) = pool_min_resident_vms p"
    using governor_inv_unused_group [OF inv new] by (simp add: group_charge_def)
  ultimately show ?thesis
    using bt.sum_put_new [OF governor_inv_wf(1) [OF inv] new, of "group_charge st None" p]
    by (simp add: total_commitment_def)
qed

lemma registered_commitment_member:
  assumes inv: "governor_inv c st" and new: "bt_get (groups st) grp = None"
  shows "total_commitment (st\<lparr>groups := bt_insert grp p (groups st), memberships := bt_insert grp cid (memberships st)\<rparr>) None =
    total_commitment st None"
    and "\<And>i. capacity_resident (st\<lparr>groups := x, memberships := bt_insert grp cid (memberships st)\<rparr>) i = capacity_resident st i"
proof -
  note unused = governor_inv_unused_group [OF inv new]
  show cap: "capacity_resident (st\<lparr>groups := x, memberships := bt_insert grp cid (memberships st)\<rparr>) i = capacity_resident st i" for i x
    using unused(4) governor_inv_wf(4) [OF inv] by (simp, intro alloc_count_cong) (auto simp: owned_by_iff)
  let ?st = "st\<lparr>groups := bt_insert grp p (groups st), memberships := bt_insert grp cid (memberships st)\<rparr>"
  have caps: "capacity_charge ?st None = capacity_charge st None"
    using cap by (auto simp: capacity_charge_def fun_eq_iff)
  have new_charge: "group_charge ?st None (grp, p) = 0"
    by (simp add: group_charge_def)
  have "sum_list (map (group_charge ?st None) (groups st)) = sum_list (map (group_charge st None) (groups st))"
    using new by (intro bt.sum_cong_entries [OF governor_inv_wf(1) [OF inv]]) (auto simp: group_charge_def)
  then show "total_commitment ?st None = total_commitment st None"
    using bt.sum_put_new [OF governor_inv_wf(1) [OF inv] new, of "group_charge ?st None" p] new_charge caps
    by (simp add: total_commitment_def)
qed

lemma register_group_inv:
  assumes inv: "governor_inv c st" and valid: "pool_config_validate p c = Ok ()"
    and check: "register_group_check c st grp p cid = Ok ()"
  shows "governor_inv c (st\<lparr>groups := bt_insert grp p (groups st),
      memberships := (case cid of None \<Rightarrow> memberships st | Some i \<Rightarrow> bt_insert grp i (memberships st))\<rparr>)"
    (is "governor_inv c ?st")
proof -
  from check have new: "bt_get (groups st) grp = None" and len: "length (groups st) < max_registered_pools c"
    by (auto simp: register_group_check_def split: if_splits)
  have commit: "total_commitment ?st None \<le> max_resident_vms c"
  proof (cases cid)
    case None
    with check have "total_commitment st None \<le> u64_max"
      "pool_min_resident_vms p \<le> max_resident_vms c - total_commitment st None"
      by (auto simp: register_group_check_def commitment_eq saturating_sub_def split: if_splits)
    then show ?thesis
      using None registered_commitment_group [OF inv new, of p] governor_inv_bounds(2) [OF inv] by simp
  next
    case (Some i)
    then show ?thesis
      using registered_commitment_member(1) [OF inv new, where p = p and cid = i] governor_inv_bounds(2) [OF inv] by simp
  qed
  have cap: "bt_contains (capacities st) i" if "cid = Some i" for i
    using check that by (auto simp: register_group_check_def split: if_splits)
  show ?thesis
    unfolding governor_inv_def
    using governor_inv_wf [OF inv] governor_inv_links [OF inv] governor_inv_policy [OF inv]
      governor_inv_bounds [OF inv] governor_inv_unused_group [OF inv new] commit cap len valid new
    by (intro conjI) (auto simp: bt.length_put split: option.splits if_splits)
qed

lemma unregister_group_inv:
  assumes inv: "governor_inv c st" and grp: "bt_get (groups st) grp = Some p" and empty: "group_resident st grp = 0"
  shows "governor_inv c (st\<lparr>groups := bt_remove grp (groups st), memberships := bt_remove grp (memberships st)\<rparr>)"
    (is "governor_inv c ?st")
proof -
  have other: "al_group a \<noteq> grp" if "bt_get (allocations st) k = Some a" for k a
    using alloc_count_pos [OF that, of "\<lambda>a. al_group a = grp"] empty by auto
  note wf = governor_inv_wf [OF inv]
  have cap: "capacity_resident ?st i = capacity_resident st i" for i
    using other wf(4) by (simp, intro alloc_count_cong) (auto simp: owned_by_iff bt_get_remove [OF wf(3)])
  have "total_commitment ?st None \<le> total_commitment st None"
  proof -
    have "sum_list (map (group_charge ?st None) (bt_remove grp (groups st))) =
      sum_list (map (group_charge st None) (bt_remove grp (groups st)))"
      using wf by (intro bt.sum_cong_entries) (auto simp: group_charge_def bt_get_remove split: if_splits)
    moreover have "sum_list (map (group_charge st None) (bt_remove grp (groups st))) \<le> sum_list (map (group_charge st None) (groups st))"
      using bt.sum_del [OF wf(1), of "group_charge st None" grp] by linarith
    moreover have "capacity_charge ?st None = capacity_charge st None"
      using cap by (auto simp: capacity_charge_def fun_eq_iff)
    ultimately show ?thesis by (simp add: total_commitment_def)
  qed
  then show ?thesis
    unfolding governor_inv_def
    using wf governor_inv_links [OF inv] governor_inv_policy [OF inv] governor_inv_bounds [OF inv] other
    by (intro conjI) (auto simp: bt.length_del bt_get_remove split: if_splits)
qed

section \<open>Capacity owners\<close>

lemma capacity_put_inv:
  assumes inv: "governor_inv c st" and valid: "capacity_config_validate cap c = Ok ()"
    and commit: "total_commitment (st\<lparr>capacities := bt_insert cid cap (capacities st)\<rparr>) None \<le> max_resident_vms c"
    and len: "length (bt_insert cid cap (capacities st)) \<le> max_registered_pools c"
  shows "governor_inv c (st\<lparr>capacities := bt_insert cid cap (capacities st)\<rparr>)"
  unfolding governor_inv_def
  using governor_inv_wf [OF inv] governor_inv_links [OF inv] governor_inv_policy [OF inv]
    governor_inv_bounds [OF inv] commit len valid
  by (intro conjI) (auto split: if_splits)

lemma capacity_put_charges:
  "group_charge (st\<lparr>capacities := x\<rparr>) = group_charge st"
  "capacity_charge (st\<lparr>capacities := x\<rparr>) = capacity_charge st"
  by (auto simp: group_charge_def capacity_charge_def fun_eq_iff)

lemma register_capacity_inv:
  assumes inv: "governor_inv c st" and valid: "capacity_config_validate cap c = Ok ()"
    and check: "register_capacity_check c st cid cap = Ok ()"
  shows "governor_inv c (st\<lparr>capacities := bt_insert cid cap (capacities st)\<rparr>)"
proof (rule capacity_put_inv [OF inv valid])
  note wf = governor_inv_wf [OF inv]
  from check have new: "bt_get (capacities st) cid = None" and len: "length (capacities st) < max_registered_pools c"
    and fits: "cap_min_resident_vms cap \<le> max_resident_vms c - total_commitment st None"
    by (auto simp: register_capacity_check_def commitment_eq saturating_sub_def split: if_splits)
  show "length (bt_insert cid cap (capacities st)) \<le> max_registered_pools c"
    using len by (simp add: bt.length_put [OF wf(2)])
  have "capacity_charge st None (cid, cap) = cap_min_resident_vms cap"
    using governor_inv_unused_capacity(1) [OF inv new] by (simp add: capacity_charge_def)
  then show "total_commitment (st\<lparr>capacities := bt_insert cid cap (capacities st)\<rparr>) None \<le> max_resident_vms c"
    using bt.sum_put_new [OF wf(2) new, of "capacity_charge st None" cap] fits governor_inv_bounds(2) [OF inv]
    by (simp add: total_commitment_def capacity_put_charges)
qed

lemma revise_capacity_inv:
  assumes inv: "governor_inv c st" and valid: "capacity_config_validate cap c = Ok ()"
    and check: "revise_capacity_check c st cid cap = Ok ()"
  shows "governor_inv c (st\<lparr>capacities := bt_insert cid cap (capacities st)\<rparr>)"
proof (rule capacity_put_inv [OF inv valid])
  note wf = governor_inv_wf [OF inv]
  from check obtain previous where old: "bt_get (capacities st) cid = Some previous"
    by (auto simp: revise_capacity_check_def)
  let ?r = "capacity_resident st cid"
  have fits: "max ?r (cap_min_resident_vms previous) \<le> total_commitment st None"
    "total_commitment st None - max ?r (cap_min_resident_vms previous) + max ?r (cap_min_resident_vms cap) \<le> max_resident_vms c"
    using check old
    by (auto simp: revise_capacity_check_def commitment_eq Let_def bind_eq_Some_conv split: if_splits)
  show "length (bt_insert cid cap (capacities st)) \<le> max_registered_pools c"
    using old governor_inv_bounds(4) [OF inv] by (simp add: bt.length_put [OF wf(2)])
  have "capacity_charge st None (cid, cap) = max ?r (cap_min_resident_vms cap)"
    "capacity_charge st None (cid, previous) = max ?r (cap_min_resident_vms previous)"
    by (simp_all add: capacity_charge_def)
  then show "total_commitment (st\<lparr>capacities := bt_insert cid cap (capacities st)\<rparr>) None \<le> max_resident_vms c"
    using bt.sum_put_old [OF wf(2) old, of "capacity_charge st None" cap] fits
    by (simp add: total_commitment_def capacity_put_charges)
qed

lemma unregister_capacity_inv:
  assumes inv: "governor_inv c st" and unused: "\<not> list_ex (\<lambda>owner. owner = cid) (bt_values (memberships st))"
  shows "governor_inv c (st\<lparr>capacities := bt_remove cid (capacities st)\<rparr>)"
proof -
  note wf = governor_inv_wf [OF inv]
  have "bt_get (memberships st) grp \<noteq> Some cid" for grp
    using unused bt_get_value [of "memberships st" grp cid] by (auto simp: list_ex_iff)
  moreover have "total_commitment (st\<lparr>capacities := bt_remove cid (capacities st)\<rparr>) None \<le> total_commitment st None"
    using bt.sum_del [OF wf(2), of "capacity_charge st None" cid]
    by (simp add: total_commitment_def capacity_put_charges)
  ultimately show ?thesis
    unfolding governor_inv_def
    using wf governor_inv_links [OF inv] governor_inv_policy [OF inv] governor_inv_bounds [OF inv]
    by (intro conjI) (auto simp: bt.length_del bt_get_remove split: if_splits)
qed

section \<open>Reservations\<close>

text \<open>How the commitment splits at the owner of one group: an independent group charges itself.\<close>

lemma independent_commitment:
  assumes inv: "governor_inv c st" and grp: "bt_get (groups st) grp = Some p"
    and alone: "bt_get (memberships st) grp = None" and wf: "bt_wf (groups st)"
    and same: "groups st' = groups st" "capacities st' = capacities st" "memberships st' = memberships st"
    and res: "\<And>j. group_resident st' j = group_resident st j + (if j = grp then d else 0)"
    and caps: "\<And>i. capacity_resident st' i = capacity_resident st i"
  shows "total_commitment st' None + max (group_resident st grp) (pool_min_resident_vms p) =
    total_commitment st None + max (group_resident st grp + d) (pool_min_resident_vms p)"
    and "total_commitment st (Some grp) + max (group_resident st grp) (pool_min_resident_vms p) =
    total_commitment st None + group_resident st grp"
proof -
  have "capacity_charge st' None = capacity_charge st None"
    using caps by (auto simp: capacity_charge_def fun_eq_iff)
  then show "total_commitment st' None + max (group_resident st grp) (pool_min_resident_vms p) =
    total_commitment st None + max (group_resident st grp + d) (pool_min_resident_vms p)"
    using bt.sum_change_at [OF wf grp, of "group_charge st None" "group_charge st' None"] alone res same
    by (simp add: total_commitment_def group_charge_def)
  show "total_commitment st (Some grp) + max (group_resident st grp) (pool_min_resident_vms p) =
    total_commitment st None + group_resident st grp"
    using bt.sum_change_at [OF wf grp, of "group_charge st None" "group_charge st (Some grp)"] alone
    by (simp add: total_commitment_def group_charge_def)
qed

text \<open>A member charges its capacity owner.\<close>

lemma member_commitment:
  assumes inv: "governor_inv c st" and member: "bt_get (memberships st) grp = Some cid"
    and cap: "bt_get (capacities st) cid = Some cp" and wf: "bt_wf (groups st)" "bt_wf (capacities st)"
    and same: "groups st' = groups st" "capacities st' = capacities st" "memberships st' = memberships st"
    and res: "\<And>j. group_resident st' j = group_resident st j + (if j = grp then d else 0)"
    and caps: "\<And>i. capacity_resident st' i = capacity_resident st i + (if i = cid then d else 0)"
  shows "total_commitment st' None + max (capacity_resident st cid) (cap_min_resident_vms cp) =
    total_commitment st None + max (capacity_resident st cid + d) (cap_min_resident_vms cp)"
    and "total_commitment st (Some grp) + max (capacity_resident st cid) (cap_min_resident_vms cp) =
    total_commitment st None + capacity_resident st cid"
proof -
  have g: "sum_list (map (group_charge st' None) (groups st)) = sum_list (map (group_charge st None) (groups st))"
    using member res same by (intro bt.sum_cong_entries [OF wf(1)]) (auto simp: group_charge_def)
  show "total_commitment st' None + max (capacity_resident st cid) (cap_min_resident_vms cp) =
    total_commitment st None + max (capacity_resident st cid + d) (cap_min_resident_vms cp)"
    using bt.sum_change_at [OF wf(2) cap, of "capacity_charge st None" "capacity_charge st' None"] g caps same
    by (simp add: total_commitment_def capacity_charge_def)
  have g2: "sum_list (map (group_charge st (Some grp)) (groups st)) = sum_list (map (group_charge st None) (groups st))"
    using member by (intro bt.sum_cong_entries [OF wf(1)]) (auto simp: group_charge_def)
  show "total_commitment st (Some grp) + max (capacity_resident st cid) (cap_min_resident_vms cp) =
    total_commitment st None + capacity_resident st cid"
    using bt.sum_change_at [OF wf(2) cap, of "capacity_charge st None" "capacity_charge st (Some cid)"] g2 member
    by (simp add: total_commitment_def capacity_charge_def)
qed

lemma reserve_check_Ok:
  assumes "reserve_check c st grp = Ok k"
  obtains p where "bt_get (groups st) grp = Some p" "group_resident st grp < pool_max_resident_vms p"
    "total_commitment st (Some grp) < max_resident_vms c" "k = gov_sequence st + 1" "k \<le> u64_max"
    "\<And>cid. bt_get (memberships st) grp = Some cid \<Longrightarrow>
       \<exists>cp. bt_get (capacities st) cid = Some cp \<and> capacity_resident st cid < cap_max_resident_vms cp"
  using assms by (auto simp: reserve_check_def commitment_eq split: if_splits option.splits)

abbreviation reserved_state :: "u64 \<Rightarrow> string \<Rightarrow> governor_state \<Rightarrow> governor_state" where
  "reserved_state k grp st \<equiv>
     st\<lparr>gov_sequence := k, allocations := bt_insert k \<lparr>al_group = grp, al_phase = VmCreating\<rparr> (allocations st)\<rparr>"

lemma reserved_count:
  assumes "governor_inv c st" "gov_sequence st < k"
  shows "alloc_count (reserved_state k grp st) P =
    alloc_count st P + (if P \<lparr>al_group = grp, al_phase = VmCreating\<rparr> then 1 else 0)"
proof -
  have "bt_get (allocations st) k = None"
    using governor_inv_links(2) [OF assms(1), of k] assms(2) by (cases "bt_get (allocations st) k") auto
  then show ?thesis
    using alloc_count_insert_new [OF governor_inv_wf(4) [OF assms(1)], of k "\<lparr>al_group = grp, al_phase = VmCreating\<rparr>" P]
    by (simp add: alloc_count_def)
qed

lemma reserve_inv:
  assumes inv: "governor_inv c st" and check: "reserve_check c st grp = Ok k"
  shows "governor_inv c (reserved_state k grp st)"
proof -
  from check obtain p where p: "bt_get (groups st) grp = Some p"
    and room: "group_resident st grp < pool_max_resident_vms p"
    and parent: "total_commitment st (Some grp) < max_resident_vms c"
    and k: "k = gov_sequence st + 1" "k \<le> u64_max"
    and owner: "\<And>cid. bt_get (memberships st) grp = Some cid \<Longrightarrow> \<exists>cp. bt_get (capacities st) cid = Some cp \<and>
       capacity_resident st cid < cap_max_resident_vms cp"
    by (rule reserve_check_Ok) blast
  have count: "alloc_count (reserved_state k grp st) P =
    alloc_count st P + (if P \<lparr>al_group = grp, al_phase = VmCreating\<rparr> then 1 else 0)" for P
    using reserved_count [OF inv] k(1) by simp
  note wf = governor_inv_wf [OF inv]
  have res: "group_resident (reserved_state k grp st) j = group_resident st j + (if j = grp then 1 else 0)" for j
    by (auto simp: count)
  have caps: "capacity_resident (reserved_state k grp st) i =
    capacity_resident st i + (if bt_get (memberships st) grp = Some i then 1 else 0)" for i
    by (auto simp: count owned_by_iff)
  have commit: "total_commitment (reserved_state k grp st) None \<le> max_resident_vms c"
  proof (cases "bt_get (memberships st) grp")
    case None
    have "total_commitment (reserved_state k grp st) None + max (group_resident st grp) (pool_min_resident_vms p) =
        total_commitment st None + max (group_resident st grp + 1) (pool_min_resident_vms p)"
      by (rule independent_commitment(1) [OF inv p None wf(1)]) (use res caps None in simp_all)
    moreover have "total_commitment st (Some grp) + max (group_resident st grp) (pool_min_resident_vms p) =
        total_commitment st None + group_resident st grp"
      by (rule independent_commitment(2) [OF inv p None wf(1), where st' = st and d = 0]) simp_all
    ultimately show ?thesis
      using parent governor_inv_bounds(2) [OF inv] by (simp add: max_def split: if_splits)
  next
    case (Some cid)
    with owner obtain cp where cp: "bt_get (capacities st) cid = Some cp" by blast
    have "total_commitment (reserved_state k grp st) None + max (capacity_resident st cid) (cap_min_resident_vms cp) =
        total_commitment st None + max (capacity_resident st cid + 1) (cap_min_resident_vms cp)"
      by (rule member_commitment(1) [OF inv Some cp wf(1,2)]) (use res caps Some in auto)
    moreover have "total_commitment st (Some grp) + max (capacity_resident st cid) (cap_min_resident_vms cp) =
        total_commitment st None + capacity_resident st cid"
      by (rule member_commitment(2) [OF inv Some cp wf(1,2), where st' = st and d = 0]) simp_all
    ultimately show ?thesis
      using parent governor_inv_bounds(2) [OF inv] by (simp add: max_def split: if_splits)
  qed
  have older: "j \<le> k" if "bt_get (allocations st) j = Some a" for j a
    using governor_inv_links(2) [OF inv that] k(1) by simp
  show ?thesis
    unfolding governor_inv_def
    using wf governor_inv_links [OF inv] governor_inv_policy [OF inv] governor_inv_bounds [OF inv] p room k(2) commit
    by (intro conjI) (auto simp: count intro: older split: if_splits)
qed

section \<open>Phases and release\<close>

lemma set_phase_count:
  assumes "bt_wf (allocations st)" "bt_get (allocations st) k = Some a"
  shows "alloc_count (set_phase k a ph st) P + (if P a then 1 else 0) =
    alloc_count st P + (if P (a\<lparr>al_phase := ph\<rparr>) then 1 else 0)"
  using alloc_count_update [OF assms] by (simp add: set_phase_def)

lemma set_phase_frame [simp]:
  "groups (set_phase k a ph st) = groups st" "capacities (set_phase k a ph st) = capacities st"
  "memberships (set_phase k a ph st) = memberships st" "gov_sequence (set_phase k a ph st) = gov_sequence st"
  "owned_by (set_phase k a ph st) = owned_by st" "bt_wf (allocations st) \<Longrightarrow> bt_wf (allocations (set_phase k a ph st))"
  "bt_get (allocations (set_phase k a ph st)) = (bt_get (allocations st))(k \<mapsto> a\<lparr>al_phase := ph\<rparr>)"
  by (simp_all add: set_phase_def)

lemma set_phase_inv:
  assumes inv: "governor_inv c st" and a: "bt_get (allocations st) k = Some a"
    and room: "ph = VmRunning \<Longrightarrow> total_running st < max_running_calls c \<and>
      (\<forall>p. bt_get (groups st) (al_group a) = Some p \<longrightarrow> group_running st (al_group a) < pool_max_running_calls p)"
  shows "governor_inv c (set_phase k a ph st)"
proof -
  note wf = governor_inv_wf [OF inv]
  have same: "alloc_count (set_phase k a ph st) P = alloc_count st P" if "P (a\<lparr>al_phase := ph\<rparr>) = P a" for P
    using set_phase_count [OF wf(4) a, of ph P] that by simp
  have run: "alloc_count (set_phase k a ph st) P \<le> alloc_count st P + (if P (a\<lparr>al_phase := ph\<rparr>) then 1 else 0)" for P
    using set_phase_count [OF wf(4) a, of ph P] by linarith
  have total: "total_running (set_phase k a ph st) \<le> max_running_calls c"
    using run [of "\<lambda>a. al_phase a = VmRunning"] room governor_inv_bounds(1) [OF inv] by (auto split: if_splits)
  have grp: "group_running (set_phase k a ph st) g \<le> pool_max_running_calls p" if "bt_get (groups st) g = Some p" for g p
    using run [of "\<lambda>x. al_group x = g \<and> al_phase x = VmRunning"] room governor_inv_policy(1) [OF inv that] that
    by (fastforce split: if_splits)
  have "total_commitment (set_phase k a ph st) None \<le> total_commitment st None"
    by (rule total_commitment_mono) (auto simp: same owned_by_iff)
  then show ?thesis
    unfolding governor_inv_def
    using wf governor_inv_links [OF inv] governor_inv_policy [OF inv] governor_inv_bounds [OF inv] total grp a
    by (intro conjI) (auto simp: same split: if_splits)
qed

lemma release_inv:
  assumes inv: "governor_inv c st"
  shows "governor_inv c (st\<lparr>allocations := bt_remove k (allocations st)\<rparr>)"
proof -
  note wf = governor_inv_wf [OF inv]
  let ?st = "st\<lparr>allocations := bt_remove k (allocations st)\<rparr>"
  have le: "alloc_count ?st P \<le> alloc_count st P" for P
    by (rule alloc_count_remove_le [OF wf(4)])
  have "total_commitment ?st None \<le> total_commitment st None"
    using le by (intro total_commitment_mono) auto
  then show ?thesis
    unfolding governor_inv_def
    using wf governor_inv_links [OF inv] governor_inv_policy [OF inv] governor_inv_bounds [OF inv]
    by (intro conjI) (auto simp: bt_get_remove intro: le [THEN order.trans] split: if_splits)
qed

end
