(* ===== verification/Governor_Safety.thy ===== *)
theory Governor_Safety
  imports Governor_Steps
begin

text \<open>
  The pool governor as a whole: every reachable state of the governor and its token holders satisfies
  \<open>system_inv\<close>, and the properties of the component follow from it.
\<close>

section \<open>Operations preserve the invariant\<close>

definition governor_ok :: "embedded_runtime_config \<Rightarrow> pool_governor \<Rightarrow> bool" where
  "governor_ok c g \<longleftrightarrow> gov_config g = c \<and> \<not> gov_poisoned g \<and> governor_inv c (gov_state g)"

lemma governor_okD:
  assumes "governor_ok c g"
  shows "governor_inv c (gov_state g)" "gov_config g = c" "\<not> gov_poisoned g"
  using assms by (simp_all add: governor_ok_def)

lemma with_lock_healthy:
  assumes "\<not> gov_poisoned g"
  shows "with_lock g body = (fst (body (gov_state g)),
    g\<lparr>gov_state := snd (body (gov_state g)), gov_poisoned := is_panic (fst (body (gov_state g)))\<rparr>)"
  using assms by (simp add: with_lock_def gov_lock_def case_prod_beta)

text \<open>An operation is safe when it keeps the governor's invariant and does not panic.\<close>

abbreviation safe_op :: "embedded_runtime_config \<Rightarrow> 'a embedded_result \<times> pool_governor \<Rightarrow> bool" where
  "safe_op c r \<equiv> governor_ok c (snd r) \<and> \<not> is_panic (fst r)"

lemma with_lock_commit_ok:
  assumes "governor_ok c g" "\<not> is_panic (r (gov_state g))"
    and "\<And>x. r (gov_state g) = Ok x \<Longrightarrow> governor_inv c (snd (f (gov_state g) x))"
  shows "safe_op c (with_lock g (\<lambda>st. commit (r st) st (f st)))"
  using assms by (cases "r (gov_state g)"; auto simp: governor_ok_def with_lock_healthy)

text \<open>Operations that validate their argument first, then decide under the lock.\<close>

lemma validated_op_ok:
  assumes ok: "governor_ok c g" and "\<not> is_panic v"
    and "v = Ok () \<Longrightarrow> \<not> is_panic (check (gov_state g))"
    and "\<And>x. v = Ok () \<Longrightarrow> check (gov_state g) = Ok x \<Longrightarrow> governor_inv c (snd (f (gov_state g) x))"
  shows "safe_op c (case v of
      Ok _ \<Rightarrow> with_lock g (\<lambda>st. commit (check st) st (f st)) | Err e \<Rightarrow> (Err e, g) | Panic p \<Rightarrow> (Panic p, g))"
  using assms with_lock_commit_ok [OF ok, of check f] by (cases v; simp)

lemma check_not_panic [simp]:
  "\<not> is_panic (register_group_check c st grp p cid)"
  "\<not> is_panic (register_capacity_check c st i cap)"
  "\<not> is_panic (revise_capacity_check c st i cap)"
  by (auto simp: register_group_check_def register_capacity_check_def revise_capacity_check_def commitment_eq
      Let_def split: option.splits)

lemma reserve_check_not_panic:
  assumes "governor_inv c st"
  shows "\<not> is_panic (reserve_check c st grp)"
  using governor_inv_links(1) [OF assms]
  by (auto simp: reserve_check_def commitment_eq split: option.splits)

lemma begin_execution_check_not_panic:
  assumes "governor_inv c st"
  shows "\<not> is_panic (begin_execution_check c st k)"
  using governor_inv_links(1) [OF assms]
  by (auto simp: begin_execution_check_def split: option.splits)

lemma begin_execution_check_Ok:
  assumes "begin_execution_check c st k = Ok a"
  shows "bt_get (allocations st) k = Some a" "al_phase a \<in> {VmCreating, VmIdle}"
    "total_running st < max_running_calls c"
    "bt_get (groups st) (al_group a) = Some p \<Longrightarrow> group_running st (al_group a) < pool_max_running_calls p"
    "bt_get (memberships st) (al_group a) = Some cid \<Longrightarrow> bt_get (capacities st) cid = Some cap \<Longrightarrow>
       alloc_count st (\<lambda>x. owned_by st cid x \<and> al_phase x = VmRunning) < cap_max_running_calls cap"
  using assms by (auto simp: begin_execution_check_def split: if_splits option.splits)

lemma register_group_internal_ok [inv_intros]:
  assumes ok: "governor_ok c g"
  shows "safe_op c (register_group_internal g grp p cid)"
proof (cases "trim_is_empty grp")
  case False
  then show ?thesis
    unfolding register_group_internal_def governor_okD(2) [OF ok] if_not_P [OF False]
    by (intro validated_op_ok [OF ok]) (auto intro: register_group_inv [OF governor_okD(1) [OF ok]])
qed (simp add: register_group_internal_def ok)

lemma unregister_group_ok [inv_intros]:
  assumes ok: "governor_ok c g"
  shows "safe_op c (unregister_group g grp)"
  unfolding unregister_group_def
  by (rule with_lock_commit_ok [OF ok])
    (auto intro: unregister_group_inv [OF governor_okD(1) [OF ok]] split: if_splits)

lemma register_capacity_ok [inv_intros]:
  assumes ok: "governor_ok c g"
  shows "safe_op c (register_capacity g cid cap)"
proof (cases "trim_is_empty cid")
  case False
  then show ?thesis
    unfolding register_capacity_def governor_okD(2) [OF ok] if_not_P [OF False]
    by (intro validated_op_ok [OF ok]) (auto intro: register_capacity_inv [OF governor_okD(1) [OF ok]])
qed (simp add: register_capacity_def ok)

lemma revise_capacity_ok [inv_intros]:
  assumes ok: "governor_ok c g"
  shows "safe_op c (revise_capacity g cid cap)"
  unfolding revise_capacity_def governor_okD(2) [OF ok]
  by (intro validated_op_ok [OF ok]) (auto intro: revise_capacity_inv [OF governor_okD(1) [OF ok]])

lemma unregister_capacity_ok [inv_intros]:
  assumes ok: "governor_ok c g"
  shows "safe_op c (unregister_capacity g cid)"
  unfolding unregister_capacity_def
  by (rule with_lock_commit_ok [OF ok])
    (auto intro: unregister_capacity_inv [OF governor_okD(1) [OF ok]] split: if_splits)

lemma governor_reserve_ok [inv_intros]:
  assumes ok: "governor_ok c g"
  shows "safe_op c (governor_reserve g grp)"
  unfolding governor_reserve_def governor_okD(2) [OF ok]
  by (rule with_lock_commit_ok [OF ok])
    (auto intro: reserve_inv [OF governor_okD(1) [OF ok]] simp: reserve_check_not_panic [OF governor_okD(1) [OF ok]])

lemma begin_execution_ok [inv_intros]:
  assumes ok: "governor_ok c g"
  shows "safe_op c (begin_execution g k)"
  unfolding begin_execution_def governor_okD(2) [OF ok]
proof (rule with_lock_commit_ok [OF ok])
  show "\<not> is_panic (begin_execution_check c (gov_state g) k)"
    by (rule begin_execution_check_not_panic [OF governor_okD(1) [OF ok]])
  show "governor_inv c (snd (al_phase x, set_phase k x VmRunning (gov_state g)))"
    if "begin_execution_check c (gov_state g) k = Ok x" for x
    using begin_execution_check_Ok [OF that] by (auto intro!: set_phase_inv [OF governor_okD(1) [OF ok]])
qed

lemma mark_ready_ok [inv_intros]:
  assumes ok: "governor_ok c g"
  shows "safe_op c (mark_ready g k)"
  unfolding mark_ready_def reservation_transition_def
  by (rule with_lock_commit_ok [OF ok])
    (auto intro!: set_phase_inv [OF governor_okD(1) [OF ok]] split: if_splits)

lemma mark_retiring_ok [inv_intros]:
  assumes ok: "governor_ok c g"
  shows "safe_op c (mark_retiring g k)"
  unfolding mark_retiring_def
  by (rule with_lock_commit_ok [OF ok])
    (auto intro!: set_phase_inv [OF governor_okD(1) [OF ok]] split: if_splits)

lemma drop_reservation_ok [inv_intros]:
  assumes "governor_ok c g"
  shows "safe_op c (drop_reservation g k)"
  using assms by (auto simp: drop_reservation_def with_lock_recover_def governor_ok_def release_inv)

lemma drop_permit_ok [inv_intros]:
  assumes "governor_ok c g" "bt_get (allocations (gov_state g)) k = Some a" "previous \<noteq> VmRunning"
  shows "safe_op c (drop_permit g k previous)"
  using assms
  by (auto simp: drop_permit_def with_lock_recover_def governor_ok_def case_prod_beta intro: set_phase_inv)

section \<open>Reachable states\<close>

fun token_agrees :: "allocation option \<Rightarrow> reservation_token option \<Rightarrow> bool" where
  "token_agrees None None \<longleftrightarrow> True"
| "token_agrees (Some a) (Some Unborrowed) \<longleftrightarrow> al_phase a \<noteq> VmRunning"
| "token_agrees (Some a) (Some (Permitted previous)) \<longleftrightarrow> previous \<in> {VmCreating, VmIdle} \<and> al_phase a = VmRunning"
| "token_agrees _ _ \<longleftrightarrow> False"

definition tokens_agree :: "governor_state \<Rightarrow> (u64 \<rightharpoonup> reservation_token) \<Rightarrow> bool" where
  "tokens_agree st tokens \<longleftrightarrow> (\<forall>k. token_agrees (bt_get (allocations st) k) (tokens k))"

definition system_inv :: "embedded_runtime_config \<Rightarrow> governor_system \<Rightarrow> bool" where
  "system_inv c s \<longleftrightarrow> governor_ok c (sys_governor s) \<and> tokens_agree (gov_state (sys_governor s)) (sys_tokens s)"

lemma system_invD:
  assumes "system_inv c s"
  shows "governor_ok c (sys_governor s)" "governor_inv c (gov_state (sys_governor s))"
    "tokens_agree (gov_state (sys_governor s)) (sys_tokens s)"
  using assms by (auto simp: system_inv_def governor_ok_def)

lemma token_agrees_token:
  "token_agrees x (Some Unborrowed) \<longleftrightarrow> (\<exists>a. x = Some a \<and> al_phase a \<noteq> VmRunning)"
  "token_agrees x (Some (Permitted previous)) \<longleftrightarrow>
     previous \<in> {VmCreating, VmIdle} \<and> (\<exists>a. x = Some a \<and> al_phase a = VmRunning)"
  "token_agrees x None \<longleftrightarrow> x = None"
  by (cases x; simp)+

lemma tokens_agreeD:
  assumes "tokens_agree st tokens"
  shows "tokens k = Some Unborrowed \<Longrightarrow> \<exists>a. bt_get (allocations st) k = Some a \<and> al_phase a \<noteq> VmRunning"
    and "tokens k = Some (Permitted previous) \<Longrightarrow>
      previous \<in> {VmCreating, VmIdle} \<and> (\<exists>a. bt_get (allocations st) k = Some a \<and> al_phase a = VmRunning)"
  using assms unfolding tokens_agree_def by (metis token_agrees_token(1), metis token_agrees_token(2))

lemma tokens_agree_frame:
  assumes "tokens_agree st tokens" "allocations st' = allocations st"
  shows "tokens_agree st' tokens"
  using assms by (simp add: tokens_agree_def)

lemma tokens_agree_update:
  assumes "tokens_agree st tokens"
    and "\<And>j. j \<noteq> k \<Longrightarrow> bt_get (allocations st') j = bt_get (allocations st) j"
    and "\<And>j. j \<noteq> k \<Longrightarrow> tokens' j = tokens j"
    and "token_agrees (bt_get (allocations st') k) (tokens' k)"
  shows "tokens_agree st' tokens'"
  unfolding tokens_agree_def
proof
  show "token_agrees (bt_get (allocations st') j) (tokens' j)" for j
    using assms by (cases "j = k") (auto simp: tokens_agree_def)
qed

text \<open>What the ledger of allocations becomes under each operation.\<close>

lemma with_lock_commit_cases:
  assumes "\<not> gov_poisoned g"
  shows "gov_state (snd (with_lock g (\<lambda>st. commit (r st) st (f st)))) =
    (case r (gov_state g) of Ok x \<Rightarrow> snd (f (gov_state g) x) | _ \<Rightarrow> gov_state g)"
  using assms by (cases "r (gov_state g)") (auto simp: with_lock_healthy)

lemma registration_keeps_allocations:
  assumes "\<not> gov_poisoned g"
  shows "allocations (gov_state (snd (register_group_internal g grp p i))) = allocations (gov_state g)"
    "allocations (gov_state (snd (unregister_group g grp))) = allocations (gov_state g)"
    "allocations (gov_state (snd (register_capacity g cid cap))) = allocations (gov_state g)"
    "allocations (gov_state (snd (revise_capacity g cid cap))) = allocations (gov_state g)"
    "allocations (gov_state (snd (unregister_capacity g cid))) = allocations (gov_state g)"
  using assms
  by (auto simp: register_group_internal_def unregister_group_def register_capacity_def revise_capacity_def
      unregister_capacity_def with_lock_commit_cases split: outcome.splits)

lemma reserve_result:
  assumes "governor_ok c g" "governor_reserve g grp = (Ok k, g')"
  shows "reserve_check c (gov_state g) grp = Ok k" "gov_state g' = reserved_state k grp (gov_state g)"
proof -
  have np: "\<not> gov_poisoned g" "gov_config g = c" using assms(1) by (auto simp: governor_ok_def)
  then show "reserve_check c (gov_state g) grp = Ok k" "gov_state g' = reserved_state k grp (gov_state g)"
    using assms(2)
    by (cases "reserve_check c (gov_state g) grp"; auto simp: governor_reserve_def with_lock_healthy)+
qed

lemma begin_execution_result:
  assumes "governor_ok c g" "begin_execution g k = (Ok previous, g')"
  obtains a where "begin_execution_check c (gov_state g) k = Ok a" "previous = al_phase a"
    "gov_state g' = set_phase k a VmRunning (gov_state g)"
proof -
  have np: "\<not> gov_poisoned g" "gov_config g = c" using assms(1) by (auto simp: governor_ok_def)
  then show thesis
    using assms(2) that
    by (cases "begin_execution_check c (gov_state g) k") (auto simp: begin_execution_def with_lock_healthy)
qed

lemma failed_op_state:
  assumes "\<not> gov_poisoned g" "with_lock g (\<lambda>st. commit (r st) st (f st)) = (x, g')" "\<not> is_ok x"
  shows "gov_state g' = gov_state g"
  using assms by (cases "r (gov_state g)") (auto simp: with_lock_healthy)

lemma transition_result:
  assumes ok: "governor_ok c g" and a: "bt_get (allocations (gov_state g)) k = Some a" "al_phase a \<noteq> VmRunning"
  shows "gov_state (snd (mark_ready g k)) \<in> {gov_state g, set_phase k a VmIdle (gov_state g)}"
    "gov_state (snd (mark_retiring g k)) = set_phase k a VmRetiring (gov_state g)"
  using assms
  by (auto simp: mark_ready_def reservation_transition_def mark_retiring_def governor_ok_def with_lock_healthy)

lemma drop_permit_result:
  assumes "bt_get (allocations (gov_state g)) k = Some a"
  shows "gov_state (snd (drop_permit g k previous)) = set_phase k a previous (gov_state g)"
  using assms by (auto simp: drop_permit_def with_lock_recover_def)

lemma drop_reservation_result:
  "gov_state (snd (drop_reservation g k)) = (gov_state g)\<lparr>allocations := bt_remove k (allocations (gov_state g))\<rparr>"
  by (simp add: drop_reservation_def with_lock_recover_def)

lemma failed_reserve_state:
  assumes "governor_ok c g" "governor_reserve g grp = (r, g')" "\<not> is_ok r"
  shows "gov_state g' = gov_state g"
  using failed_op_state [OF _ assms(2) [unfolded governor_reserve_def] assms(3)] assms(1) by (simp add: governor_ok_def)

lemma failed_begin_state:
  assumes "governor_ok c g" "begin_execution g k = (r, g')" "\<not> is_ok r"
  shows "gov_state g' = gov_state g"
  using failed_op_state [OF _ assms(2) [unfolded begin_execution_def] assms(3)] assms(1) by (simp add: governor_ok_def)

text \<open>One step keeps the invariant: registrations, then the operations on one reservation.\<close>

lemma registration_step:
  assumes inv: "system_inv c s" and ok: "governor_ok c g"
    and same: "allocations (gov_state g) = allocations (gov_state (sys_governor s))"
  shows "system_inv c (s\<lparr>sys_governor := g\<rparr>)"
  using ok tokens_agree_frame [OF system_invD(3) [OF inv] same] by (simp add: system_inv_def)

lemma token_step:
  assumes inv: "system_inv c s" and ok: "governor_ok c g"
    and others: "\<And>j. j \<noteq> k \<Longrightarrow>
      bt_get (allocations (gov_state g)) j = bt_get (allocations (gov_state (sys_governor s))) j"
    and agree: "token_agrees (bt_get (allocations (gov_state g)) k) t"
  shows "system_inv c (s\<lparr>sys_governor := g, sys_tokens := (sys_tokens s)(k := t)\<rparr>)"
  using ok tokens_agree_update [OF system_invD(3) [OF inv], of k "gov_state g" "(sys_tokens s)(k := t)"] others agree
  by (simp add: system_inv_def)

lemma token_kept_step:
  assumes "system_inv c s" "governor_ok c g" "sys_tokens s k = t"
    and "\<And>j. j \<noteq> k \<Longrightarrow>
      bt_get (allocations (gov_state g)) j = bt_get (allocations (gov_state (sys_governor s))) j"
    and "token_agrees (bt_get (allocations (gov_state g)) k) t"
  shows "system_inv c (s\<lparr>sys_governor := g\<rparr>)"
proof -
  have "(sys_tokens s)(k := t) = sys_tokens s" using assms(3) by auto
  then show ?thesis using token_step [OF assms(1,2,4,5)] by simp
qed

lemma registrations_inv:
  assumes inv: "system_inv c s"
  shows "system_inv c (s\<lparr>sys_governor := snd (register_group (sys_governor s) grp policy)\<rparr>)"
    "system_inv c (s\<lparr>sys_governor := snd (register_group_in_capacity (sys_governor s) grp policy cid)\<rparr>)"
    "system_inv c (s\<lparr>sys_governor := snd (unregister_group (sys_governor s) grp)\<rparr>)"
    "system_inv c (s\<lparr>sys_governor := snd (register_capacity (sys_governor s) cid cap)\<rparr>)"
    "system_inv c (s\<lparr>sys_governor := snd (revise_capacity (sys_governor s) cid cap)\<rparr>)"
    "system_inv c (s\<lparr>sys_governor := snd (unregister_capacity (sys_governor s) cid)\<rparr>)"
  using inv_intros [OF system_invD(1) [OF inv]] governor_okD(3) [OF system_invD(1) [OF inv]]
  by (auto intro!: registration_step [OF inv]
      simp: register_group_def register_group_in_capacity_def registration_keeps_allocations)

lemma reserve_step_inv:
  assumes inv: "system_inv c s" and res: "governor_reserve (sys_governor s) grp = (r, g)"
  shows "r = Ok k \<Longrightarrow> system_inv c (s\<lparr>sys_governor := g, sys_tokens := (sys_tokens s)(k \<mapsto> Unborrowed)\<rparr>)"
    and "\<not> is_ok r \<Longrightarrow> system_inv c (s\<lparr>sys_governor := g\<rparr>)"
proof -
  note ok = system_invD(1) [OF inv]
  show "system_inv c (s\<lparr>sys_governor := g, sys_tokens := (sys_tokens s)(k \<mapsto> Unborrowed)\<rparr>)" if "r = Ok k"
    using governor_reserve_ok [OF ok, of grp] reserve_result [OF ok res [unfolded that]]
    by (auto intro!: token_step [OF inv] simp: res)
  show "system_inv c (s\<lparr>sys_governor := g\<rparr>)" if "\<not> is_ok r"
    using governor_reserve_ok [OF ok, of grp] failed_reserve_state [OF ok res that]
    by (auto intro!: registration_step [OF inv] simp: res)
qed

lemma begin_step_inv:
  assumes inv: "system_inv c s" and res: "begin_execution (sys_governor s) k = (r, g)"
  shows "r = Ok previous \<Longrightarrow>
      system_inv c (s\<lparr>sys_governor := g, sys_tokens := (sys_tokens s)(k \<mapsto> Permitted previous)\<rparr>)"
    and "\<not> is_ok r \<Longrightarrow> system_inv c (s\<lparr>sys_governor := g\<rparr>)"
proof -
  note ok = system_invD(1) [OF inv]
  show "system_inv c (s\<lparr>sys_governor := g, sys_tokens := (sys_tokens s)(k \<mapsto> Permitted previous)\<rparr>)"
    if r: "r = Ok previous"
  proof -
    obtain a where a: "begin_execution_check c (gov_state (sys_governor s)) k = Ok a" "previous = al_phase a"
      "gov_state g = set_phase k a VmRunning (gov_state (sys_governor s))"
      using begin_execution_result [OF ok res [unfolded r]] by metis
    then show ?thesis
      using begin_execution_ok [OF ok, of k] begin_execution_check_Ok [OF a(1)]
      by (auto intro!: token_step [OF inv] simp: res)
  qed
  show "system_inv c (s\<lparr>sys_governor := g\<rparr>)" if "\<not> is_ok r"
    using begin_execution_ok [OF ok, of k] failed_begin_state [OF ok res that]
    by (auto intro!: registration_step [OF inv] simp: res)
qed

lemma unborrowed_step_inv:
  assumes inv: "system_inv c s" and token: "sys_tokens s k = Some Unborrowed"
  shows "system_inv c (s\<lparr>sys_governor := snd (mark_ready (sys_governor s) k)\<rparr>)"
    "system_inv c (s\<lparr>sys_governor := snd (mark_retiring (sys_governor s) k)\<rparr>)"
    "system_inv c (s\<lparr>sys_governor := snd (drop_reservation (sys_governor s) k), sys_tokens := (sys_tokens s)(k := None)\<rparr>)"
proof -
  note ok = system_invD(1) [OF inv]
  obtain a where a: "bt_get (allocations (gov_state (sys_governor s))) k = Some a" "al_phase a \<noteq> VmRunning"
    using tokens_agreeD(1) [OF system_invD(3) [OF inv] token] by auto
  show "system_inv c (s\<lparr>sys_governor := snd (mark_ready (sys_governor s) k)\<rparr>)"
    "system_inv c (s\<lparr>sys_governor := snd (mark_retiring (sys_governor s) k)\<rparr>)"
    using mark_ready_ok [OF ok, of k] mark_retiring_ok [OF ok, of k] transition_result [OF ok a] a
    by (auto intro!: token_kept_step [OF inv _ token])
  show "system_inv c (s\<lparr>sys_governor := snd (drop_reservation (sys_governor s) k), sys_tokens := (sys_tokens s)(k := None)\<rparr>)"
    using drop_reservation_ok [OF ok, of k] governor_inv_wf(4) [OF system_invD(2) [OF inv]]
    by (auto intro!: token_step [OF inv] simp: drop_reservation_result bt_get_remove)
qed

lemma drop_permit_step_inv:
  assumes inv: "system_inv c s" and token: "sys_tokens s k = Some (Permitted previous)"
  shows "system_inv c (s\<lparr>sys_governor := snd (drop_permit (sys_governor s) k previous),
    sys_tokens := (sys_tokens s)(k \<mapsto> Unborrowed)\<rparr>)"
proof -
  obtain a where a: "bt_get (allocations (gov_state (sys_governor s))) k = Some a" "previous \<noteq> VmRunning"
    using tokens_agreeD(2) [OF system_invD(3) [OF inv] token] by auto
  show ?thesis
    using drop_permit_ok [OF system_invD(1) [OF inv] a] a
    by (auto intro!: token_step [OF inv] simp: drop_permit_result [OF a(1)])
qed

lemma governor_step_inv:
  assumes "governor_step s t" "system_inv c s"
  shows "system_inv c t"
  using assms
  by (induction rule: governor_step.induct)
    (blast intro: registrations_inv reserve_step_inv begin_step_inv unborrowed_step_inv drop_permit_step_inv)+

lemma governor_reachable_inv:
  assumes "governor_reachable c s"
  shows "system_inv c s"
  using assms
proof induction
  case (governor_start g)
  from governor_inv_start [OF governor_start] have "governor_ok c g" by (simp add: governor_ok_def)
  moreover have "allocations (gov_state g) = []" using governor_start by (auto simp: governor_new_def)
  ultimately show ?case by (simp add: system_inv_def tokens_agree_def)
qed (rule governor_step_inv)

end
