(* ===== verification/Governor_Props.thy ===== *)
theory Governor_Props
  imports Governor_Safety
begin

text \<open>
  Properties of the pool governor: the budgets hold in every reachable state, a dedicated reservation
  is always honoured, nothing panics, rejected operations change nothing, a permit restores the state
  it borrowed, and the reported counters agree with each other.
\<close>

section \<open>Resident VMs against committed slots\<close>

lemma allocation_group_key:
  assumes "governor_inv c st" "bt_get (allocations st) k = Some a"
  shows "al_group a \<in> fst ` set (groups st)"
  using governor_inv_links(2) [OF assms] bt.get_None_iff [OF governor_inv_wf(1) [OF assms(1)], of "al_group a"] by auto

lemma owner_indicator:
  assumes inv: "governor_inv c st" and a: "bt_get (allocations st) k = Some a"
  shows "sum_list (map (\<lambda>e. if \<not> bt_contains (memberships st) (fst e) \<and> al_group a = fst e then 1 else 0) (groups st)) +
    sum_list (map (\<lambda>e. if owned_by st (fst e) a then 1 else 0) (capacities st)) = (1 :: nat)"
proof (cases "bt_get (memberships st) (al_group a)")
  case None
  then have "\<not> owned_by st cid a" for cid by (simp add: owned_by_iff)
  moreover have "\<not> bt_contains (memberships st) (fst e) \<and> al_group a = fst e \<longleftrightarrow> fst e = al_group a"
    for e :: "string \<times> plugin_pool_config"
    using None by auto
  note sum_list_indicator_key [OF bt_wf_distinct [OF governor_inv_wf(1) [OF inv]] this allocation_group_key [OF inv a]]
  ultimately show ?thesis by simp
next
  case (Some cid)
  then have "(\<not> bt_contains (memberships st) (fst e) \<and> al_group a = fst e) = False" for e :: "string \<times> plugin_pool_config"
    by auto
  moreover have "cid \<in> fst ` set (capacities st)"
    using governor_inv_links(1) [OF inv Some] bt.get_None_iff [OF governor_inv_wf(2) [OF inv], of cid] by auto
  moreover have "owned_by st (fst e) a \<longleftrightarrow> fst e = cid" for e :: "string \<times> vm_capacity_config"
    using Some by (auto simp: owned_by_iff)
  ultimately show ?thesis
    using sum_list_indicator_key [OF bt_wf_distinct [OF governor_inv_wf(2) [OF inv]], of "\<lambda>e. owned_by st (fst e) a" cid]
    by (simp only: if_False sum_list_0 add_0)
qed

lemma resident_split:
  assumes inv: "governor_inv c st"
  shows "total_resident st =
    sum_list (map (\<lambda>e. if bt_contains (memberships st) (fst e) then 0 else group_resident st (fst e)) (groups st)) +
    sum_list (map (\<lambda>e. capacity_resident st (fst e)) (capacities st))"
proof -
  let ?G = "\<lambda>e a. if \<not> bt_contains (memberships st) (fst e) \<and> al_group a = fst e then 1 else 0 :: nat"
  let ?C = "\<lambda>e a. if owned_by st (fst e) a then 1 else 0 :: nat"
  let ?A = "bt_values (allocations st)"
  have "sum_list (map (\<lambda>a. sum_list (map (\<lambda>e. ?G e a) (groups st)) + sum_list (map (\<lambda>e. ?C e a) (capacities st))) ?A) =
      sum_list (map (\<lambda>a. 1) ?A)"
    by (rule sum_list_map_cong) (use owner_indicator [OF inv] governor_inv_wf(4) [OF inv] in \<open>auto simp: bt_values_iff\<close>)
  also have "\<dots> = total_resident st" by (simp add: alloc_count_def sum_list_triv)
  finally have "total_resident st = sum_list (map (\<lambda>e. sum_list (map (?G e) ?A)) (groups st)) +
      sum_list (map (\<lambda>e. sum_list (map (?C e) ?A)) (capacities st))"
    by (simp add: sum_list_addf sum_list_map_indicator_swap [of _ "?A"])
  moreover have "sum_list (map (?G e) ?A) =
      (if bt_contains (memberships st) (fst e) then 0 else group_resident st (fst e))" for e :: "string \<times> plugin_pool_config"
    by (auto simp: alloc_count_def length_filter_sum)
  moreover have "sum_list (map (?C e) ?A) = capacity_resident st (fst e)" for e :: "string \<times> vm_capacity_config"
    by (simp add: alloc_count_def length_filter_sum)
  ultimately show ?thesis by simp
qed

lemma resident_le_commitment:
  assumes inv: "governor_inv c st"
  shows "total_resident st \<le> total_commitment st None"
  unfolding resident_split [OF inv] total_commitment_def
  by (intro add_mono sum_list_map_le_mono) (auto simp: group_charge_def capacity_charge_def)

lemma resident_by_group:
  assumes inv: "governor_inv c st"
  shows "total_resident st = sum_list (map (\<lambda>e. group_resident st (fst e)) (groups st))"
proof -
  let ?A = "bt_values (allocations st)"
  have one: "sum_list (map (\<lambda>e. if al_group a = fst e then 1 else 0) (groups st)) = (1 :: nat)" if "a \<in> set ?A" for a
  proof (rule sum_list_indicator_key [OF bt_wf_distinct [OF governor_inv_wf(1) [OF inv]]])
    show "al_group a \<in> fst ` set (groups st)"
      using that allocation_group_key [OF inv] governor_inv_wf(4) [OF inv] by (auto simp: bt_values_iff)
  qed auto
  have "total_resident st = sum_list (map (\<lambda>a. sum_list (map (\<lambda>e. if al_group a = fst e then 1 else 0) (groups st))) ?A)"
    using sum_list_map_cong [of ?A, OF one] by (simp add: alloc_count_def sum_list_triv)
  then show ?thesis
    by (simp add: sum_list_map_indicator_swap [of _ "groups st"] alloc_count_def length_filter_sum)
qed

section \<open>When a reservation succeeds\<close>

lemma reserve_succeeds:
  assumes ok: "governor_ok c g" and p: "bt_get (groups (gov_state g)) grp = Some p"
    and room: "group_resident (gov_state g) grp < pool_max_resident_vms p"
    and cap: "\<And>cid. bt_get (memberships (gov_state g)) grp = Some cid \<Longrightarrow>
      \<exists>cp. bt_get (capacities (gov_state g)) cid = Some cp \<and> capacity_resident (gov_state g) cid < cap_max_resident_vms cp"
    and parent: "total_commitment (gov_state g) (Some grp) < max_resident_vms c"
    and bounded: "max_resident_vms c \<le> usize_max" "gov_sequence (gov_state g) < u64_max"
  shows "fst (governor_reserve g grp) = Ok (gov_sequence (gov_state g) + 1)"
proof -
  let ?st = "gov_state g"
  have commit: "commitment ?st (Some grp) = Ok (total_commitment ?st (Some grp))"
    using parent bounded by (simp add: commitment_eq)
  have fresh: "checked_add (gov_sequence ?st) 1 = Some (gov_sequence ?st + 1)"
    using bounded(2) by simp
  have "reserve_check c ?st grp = Ok (gov_sequence ?st + 1)"
    using p room cap parent unfolding reserve_check_def commit fresh
    by (cases "bt_get (memberships ?st) grp") (auto simp: not_le)
  then show ?thesis
    using governor_okD(2,3) [OF ok] by (simp add: governor_reserve_def with_lock_healthy)
qed

lemma independent_headroom:
  assumes inv: "governor_inv c st" and p: "bt_get (groups st) grp = Some p"
    and alone: "bt_get (memberships st) grp = None" and unmet: "group_resident st grp < pool_min_resident_vms p"
  shows "total_commitment st (Some grp) < max_resident_vms c"
  using independent_commitment(2) [OF inv p alone governor_inv_wf(1) [OF inv], where st' = st and d = 0]
    unmet governor_inv_bounds(2) [OF inv] by simp

lemma member_headroom:
  assumes inv: "governor_inv c st" and member: "bt_get (memberships st) grp = Some cid"
    and cap: "bt_get (capacities st) cid = Some cp" and unmet: "capacity_resident st cid < cap_min_resident_vms cp"
  shows "total_commitment st (Some grp) < max_resident_vms c"
  using member_commitment(2) [OF inv member cap governor_inv_wf(1,2) [OF inv], where st' = st and d = 0]
    unmet governor_inv_bounds(2) [OF inv] by simp

lemma capacity_min_le_max:
  assumes "governor_inv c st" "bt_get (capacities st) cid = Some cp"
  shows "cap_min_resident_vms cp \<le> cap_max_resident_vms cp"
  using governor_inv_policy(2) [OF assms] by (simp add: capacity_config_valid_iff)

lemma pool_min_le_max:
  assumes "governor_inv c st" "bt_get (groups st) grp = Some p"
  shows "pool_min_resident_vms p \<le> pool_max_resident_vms p"
  using governor_inv_policy(1) [OF assms] by (simp add: pool_config_valid_iff capacity_config_valid_iff pool_capacity_def)

lemma with_lock_commit_Err:
  assumes "fst (with_lock g (\<lambda>st. commit (r st) st (f st))) = Err e"
  shows "snd (with_lock g (\<lambda>st. commit (r st) st (f st))) = g"
  using assms by (cases "gov_poisoned g"; cases "r (gov_state g)") (auto simp: with_lock_def gov_lock_def)

lemma bt_insert_restore:
  assumes "bt_wf m" "bt_get m k = Some v"
  shows "bt_insert k v (bt_insert k w m) = m"
  using assms
proof (induction m)
  case (Cons e m)
  then have "bt_get m k = Some v \<Longrightarrow> fst e < k"
    using bt.get_iff [of m k v] by (fastforce simp: bt_wf_Cons)
  with Cons show ?case by (cases e) (auto simp: bt_wf_Cons split: if_splits)
qed simp

lemma count_partition:
  "resident (count_allocations xs) =
     creating (count_allocations xs) + idle (count_allocations xs) + running (count_allocations xs) + retiring (count_allocations xs)"
proof (induction xs)
  case (Cons a xs)
  then show ?case by (cases "al_phase a") auto
qed simp

section \<open>A run of the governor\<close>

text \<open>
  The concrete system the witnesses use: a capacity owner \<open>o\<close> with one promised slot, its member \<open>m\<close>
  and the dedicated group \<open>d\<close> share three VMs; \<open>d\<close> runs one call.
\<close>

definition demo_config :: embedded_runtime_config where
  "demo_config = \<lparr>max_registered_plugins = 4, max_registered_pools = 4, max_sessions = 4,
     max_registered_capabilities = 4, max_resident_vms = 3, max_running_calls = 2, max_queued_calls = 4,
     max_queued_bytes = 1000, max_operations = 8, max_effect_records_per_operation = 4,
     max_effect_bytes_per_operation = 1000, max_host_requests = 4, max_host_request_bytes = 1000,
     max_value_bytes = 100\<rparr>"

definition demo_policy :: "nat \<Rightarrow> plugin_pool_config" where
  "demo_policy n = \<lparr>pool_kind_of = Dedicated, pool_min_resident_vms = n, pool_max_resident_vms = 2,
     pool_max_running_calls = 1, pool_max_queued_calls = 2, pool_reuse = Reusable, pool_serial = True,
     pool_backend = InProcess, pool_idle_ttl_ms = None, pool_max_uses = None\<rparr>"

definition demo_capacity :: vm_capacity_config where
  "demo_capacity = \<lparr>cap_kind = Dedicated, cap_min_resident_vms = 1, cap_max_resident_vms = 2, cap_max_running_calls = 1\<rparr>"

definition demo_registered :: governor_state where
  "demo_registered = \<lparr>groups = [(''d'', demo_policy 2), (''m'', demo_policy 0)], capacities = [(''o'', demo_capacity)],
     memberships = [(''m'', ''o'')], allocations = [], gov_sequence = 0\<rparr>"

definition demo_reserved :: governor_state where
  "demo_reserved = demo_registered\<lparr>allocations := [(1, \<lparr>al_group = ''d'', al_phase = VmCreating\<rparr>)], gov_sequence := 1\<rparr>"

definition demo_running :: governor_state where
  "demo_running = demo_registered\<lparr>allocations := [(1, \<lparr>al_group = ''d'', al_phase = VmRunning\<rparr>)], gov_sequence := 1\<rparr>"

definition demo_governor :: "governor_state \<Rightarrow> pool_governor" where
  "demo_governor st = \<lparr>gov_config = demo_config, gov_state = st, gov_poisoned = False\<rparr>"

lemmas demo_defs = demo_config_def demo_policy_def demo_capacity_def demo_registered_def demo_reserved_def
  demo_running_def demo_governor_def

lemmas governor_run_simps = demo_defs governor_new_def register_group_def register_group_in_capacity_def
  register_group_internal_def register_group_check_def register_capacity_def register_capacity_check_def
  governor_reserve_def reserve_check_def begin_execution_def begin_execution_check_def set_phase_def
  with_lock_def gov_lock_def pool_config_validate_def capacity_config_validate_def runtime_config_validate_def
  pool_capacity_def commitment_def requesting_capacity_def alloc_count_def owned_by_def bt_values_def
  trim_is_empty_def is_whitespace_def saturating_sub_def checked_add_def u64_max_def Let_def

lemma demo_steps:
  "governor_new demo_config = Ok (demo_governor
     \<lparr>groups = [], capacities = [], memberships = [], allocations = [], gov_sequence = 0\<rparr>)"
  "snd (register_group_in_capacity (snd (register_capacity (snd (register_group (demo_governor
     \<lparr>groups = [], capacities = [], memberships = [], allocations = [], gov_sequence = 0\<rparr>)
     ''d'' (demo_policy 2))) ''o'' demo_capacity)) ''m'' (demo_policy 0) ''o'') = demo_governor demo_registered"
  "governor_reserve (demo_governor demo_registered) ''d'' = (Ok 1, demo_governor demo_reserved)"
  "begin_execution (demo_governor demo_reserved) 1 = (Ok VmCreating, demo_governor demo_running)"
  by (simp_all add: governor_run_simps)

lemma demo_registered_reachable:
  "governor_reachable demo_config \<lparr>sys_governor = demo_governor demo_registered, sys_tokens = Map.empty\<rparr>"
proof -
  note s0 = governor_start [OF demo_steps(1)]
  note s1 = governor_next [OF s0 step_register_group [where grp = "''d''" and policy = "demo_policy 2"]]
  note s2 = governor_next [OF s1 step_register_capacity [where cid = "''o''" and cap = demo_capacity]]
  note s3 = governor_next [OF s2 step_register_group_in_capacity [where grp = "''m''" and policy = "demo_policy 0" and cid = "''o''"]]
  then show ?thesis by (simp add: demo_steps(2))
qed

lemma demo_reserved_reachable:
  "governor_reachable demo_config \<lparr>sys_governor = demo_governor demo_reserved, sys_tokens = [1 \<mapsto> Unborrowed]\<rparr>"
  using governor_next [OF demo_registered_reachable step_reserve [where grp = "''d''"]] demo_steps(3) by simp

lemma demo_running_reachable:
  "governor_reachable demo_config \<lparr>sys_governor = demo_governor demo_running, sys_tokens = [1 \<mapsto> Permitted VmCreating]\<rparr>"
  using governor_next [OF demo_reserved_reachable step_begin_execution [where ident = 1]] demo_steps(4) by simp

section \<open>Properties\<close>

text \<open>
  Property C1. In every reachable state of the governor, however registrations, revisions, reservations,
  executions and releases interleave, the usage it reports stays inside the budgets: the parent's
  resident VMs and running calls, and those of every registered group.
\<close>

theorem governor_budgets:
  assumes "governor_reachable c s"
  shows "\<exists>u. governor_usage (sys_governor s) None = Ok u \<and>
      resident u \<le> max_resident_vms c \<and> running u \<le> max_running_calls c \<and>
      (\<forall>grp p. bt_get (groups (gov_state (sys_governor s))) grp = Some p \<longrightarrow>
        (\<exists>v. governor_usage (sys_governor s) (Some grp) = Ok v \<and>
          resident v \<le> pool_max_resident_vms p \<and> running v \<le> pool_max_running_calls p))"
proof -
  note inv = governor_reachable_inv [OF assms]
  note gi = system_invD(2) [OF inv]
  have lock: "gov_lock (sys_governor s) = Ok (gov_state (sys_governor s))"
    using governor_okD(3) [OF system_invD(1) [OF inv]] by (simp add: gov_lock_def)
  have "length (bt_values (allocations (gov_state (sys_governor s)))) \<le> max_resident_vms c"
    using resident_le_commitment [OF gi] governor_inv_bounds(2) [OF gi] by (simp add: alloc_count_def)
  then show ?thesis
    using governor_inv_bounds(1) [OF gi] governor_inv_policy(1) [OF gi] by (auto simp: governor_usage_def lock)
qed

theorem governor_budgets_witness:
  "\<exists>u. governor_usage (demo_governor demo_running) None = Ok u \<and> resident u \<le> 3 \<and> running u \<le> 2"
  using governor_budgets [OF demo_running_reachable] by (auto simp: demo_config_def)

text \<open>
  Property C33. A dedicated reservation is honoured: while an independent group owns fewer VMs than its
  promised minimum, reserving one succeeds in every reachable state, whatever the other groups and
  capacity owners hold.
\<close>

theorem reserve_guaranteed:
  assumes "governor_reachable c s" "max_resident_vms c \<le> usize_max"
    and "bt_get (groups (gov_state (sys_governor s))) grp = Some p"
    and "bt_get (memberships (gov_state (sys_governor s))) grp = None"
    and "resident (group_usage (gov_state (sys_governor s)) grp) < pool_min_resident_vms p"
    and "gov_sequence (gov_state (sys_governor s)) < u64_max"
  shows "fst (governor_reserve (sys_governor s) grp) = Ok (gov_sequence (gov_state (sys_governor s)) + 1)"
proof -
  note inv = governor_reachable_inv [OF assms(1)]
  show ?thesis
    using assms independent_headroom [OF system_invD(2) [OF inv] assms(3,4)] pool_min_le_max [OF system_invD(2) [OF inv] assms(3)]
    by (intro reserve_succeeds [OF system_invD(1) [OF inv] assms(3)]) auto
qed

theorem reserve_guaranteed_witness:
  "fst (governor_reserve (demo_governor demo_reserved) ''d'') = Ok 2"
  using reserve_guaranteed [OF demo_reserved_reachable, of "''d''" "demo_policy 2"]
  by (simp add: governor_run_simps)

text \<open>
  The minimum promised to a capacity owner is honoured through its members: while the
  owner's members together hold fewer VMs than promised and the member group is below its own limit,
  reserving one for that member succeeds in every reachable state.
\<close>

theorem member_reserve_guaranteed:
  assumes "governor_reachable c s" "max_resident_vms c \<le> usize_max"
    and "bt_get (groups (gov_state (sys_governor s))) grp = Some p"
    and "bt_get (memberships (gov_state (sys_governor s))) grp = Some cid"
    and "bt_get (capacities (gov_state (sys_governor s))) cid = Some cap"
    and "resident (capacity_usage (gov_state (sys_governor s)) cid) < cap_min_resident_vms cap"
    and "resident (group_usage (gov_state (sys_governor s)) grp) < pool_max_resident_vms p"
    and "gov_sequence (gov_state (sys_governor s)) < u64_max"
  shows "fst (governor_reserve (sys_governor s) grp) = Ok (gov_sequence (gov_state (sys_governor s)) + 1)"
proof -
  note inv = governor_reachable_inv [OF assms(1)]
  show ?thesis
    using assms member_headroom [OF system_invD(2) [OF inv] assms(4,5)] capacity_min_le_max [OF system_invD(2) [OF inv] assms(5)]
    by (intro reserve_succeeds [OF system_invD(1) [OF inv] assms(3)]) auto
qed

text \<open>
  No operation of the governor panics in a reachable state, so its lock is never poisoned:
  the two \<^verbatim>\<open>expect\<close> calls on a member's capacity owner and the one on a permit's reservation cannot fail.
\<close>

theorem governor_never_panics:
  assumes "governor_reachable c s"
  shows "\<not> gov_poisoned (sys_governor s) \<and>
      \<not> is_panic (fst (register_group (sys_governor s) grp p)) \<and>
      \<not> is_panic (fst (register_group_in_capacity (sys_governor s) grp p cid)) \<and>
      \<not> is_panic (fst (unregister_group (sys_governor s) grp)) \<and>
      \<not> is_panic (fst (register_capacity (sys_governor s) cid cap)) \<and>
      \<not> is_panic (fst (revise_capacity (sys_governor s) cid cap)) \<and>
      \<not> is_panic (fst (unregister_capacity (sys_governor s) cid)) \<and>
      \<not> is_panic (fst (governor_reserve (sys_governor s) grp)) \<and>
      \<not> is_panic (fst (mark_ready (sys_governor s) k)) \<and>
      \<not> is_panic (fst (begin_execution (sys_governor s) k)) \<and>
      \<not> is_panic (fst (mark_retiring (sys_governor s) k)) \<and>
      \<not> is_panic (fst (drop_reservation (sys_governor s) k)) \<and>
      (sys_tokens s k = Some (Permitted previous) \<longrightarrow> fst (drop_permit (sys_governor s) k previous) = Ok ())"
proof -
  note inv = governor_reachable_inv [OF assms]
  note ok = system_invD(1) [OF inv]
  have "fst (drop_permit (sys_governor s) k previous) = Ok ()" if "sys_tokens s k = Some (Permitted previous)"
    using tokens_agreeD(2) [OF system_invD(3) [OF inv] that] by (auto simp: drop_permit_def with_lock_recover_def)
  then show ?thesis
    using inv_intros [OF ok] governor_okD(3) [OF ok] by (simp add: register_group_def register_group_in_capacity_def)
qed

theorem governor_never_panics_witness:
  "\<not> gov_poisoned (demo_governor demo_running) \<and>
   \<not> is_panic (fst (governor_reserve (demo_governor demo_running) ''m'')) \<and>
   fst (drop_permit (demo_governor demo_running) 1 VmCreating) = Ok ()"
  using governor_never_panics
    [OF demo_running_reachable, of "''m''" "demo_policy 0" "''o''" demo_capacity 1 VmCreating] by simp

text \<open>
  A rejected operation changes nothing: when any operation of the governor returns an
  error, the governor is exactly what it was, for every governor, poisoned or not.
\<close>

theorem rejection_changes_nothing:
  "(fst (register_group g grp p) = Err e \<longrightarrow> snd (register_group g grp p) = g) \<and>
   (fst (register_group_in_capacity g grp p cid) = Err e \<longrightarrow> snd (register_group_in_capacity g grp p cid) = g) \<and>
   (fst (unregister_group g grp) = Err e \<longrightarrow> snd (unregister_group g grp) = g) \<and>
   (fst (register_capacity g cid cap) = Err e \<longrightarrow> snd (register_capacity g cid cap) = g) \<and>
   (fst (revise_capacity g cid cap) = Err e \<longrightarrow> snd (revise_capacity g cid cap) = g) \<and>
   (fst (unregister_capacity g cid) = Err e \<longrightarrow> snd (unregister_capacity g cid) = g) \<and>
   (fst (governor_reserve g grp) = Err e \<longrightarrow> snd (governor_reserve g grp) = g) \<and>
   (fst (mark_ready g k) = Err e \<longrightarrow> snd (mark_ready g k) = g) \<and>
   (fst (begin_execution g k) = Err e \<longrightarrow> snd (begin_execution g k) = g) \<and>
   (fst (mark_retiring g k) = Err e \<longrightarrow> snd (mark_retiring g k) = g)"
  unfolding register_group_def register_group_in_capacity_def register_group_internal_def unregister_group_def
    register_capacity_def revise_capacity_def unregister_capacity_def governor_reserve_def mark_ready_def
    reservation_transition_def begin_execution_def mark_retiring_def
  by (intro conjI impI) (auto dest: with_lock_commit_Err split: if_splits outcome.splits)

theorem rejection_changes_nothing_witness:
  "fst (governor_reserve (demo_governor demo_running) ''x'') = Err (gov_not_found ''execution group does not exist'') \<and>
   snd (governor_reserve (demo_governor demo_running) ''x'') = demo_governor demo_running"
proof -
  have "fst (governor_reserve (demo_governor demo_running) ''x'') = Err (gov_not_found ''execution group does not exist'')"
    by (simp add: governor_run_simps)
  then show ?thesis using rejection_changes_nothing [of "demo_governor demo_running" "''x''"] by blast
qed

text \<open>
  An execution permit is a loan: in a reachable state, beginning an execution and dropping
  the permit it returned brings the governor back to exactly the state before, and while the permit is
  out the group and the parent count one running call more.
\<close>

theorem permit_restores:
  assumes "governor_reachable c s" "begin_execution (sys_governor s) k = (Ok previous, g)"
  shows "drop_permit g k previous = (Ok (), sys_governor s) \<and>
    running (count_allocations (bt_values (allocations (gov_state g)))) =
      running (count_allocations (bt_values (allocations (gov_state (sys_governor s))))) + 1"
proof -
  note inv = governor_reachable_inv [OF assms(1)]
  note ok = system_invD(1) [OF inv] and wf = governor_inv_wf(4) [OF system_invD(2) [OF inv]]
  obtain a where a: "begin_execution_check c (gov_state (sys_governor s)) k = Ok a" "previous = al_phase a"
    "gov_state g = set_phase k a VmRunning (gov_state (sys_governor s))"
    using begin_execution_result [OF ok assms(2)] by metis
  have at: "bt_get (allocations (gov_state (sys_governor s))) k = Some a" "al_phase a \<noteq> VmRunning"
    using begin_execution_check_Ok [OF a(1)] by auto
  have g: "g = (sys_governor s)\<lparr>gov_state := set_phase k a VmRunning (gov_state (sys_governor s))\<rparr>"
    using assms(2) a(1) governor_okD(2,3) [OF ok] by (auto simp: begin_execution_def with_lock_healthy)
  have "drop_permit g k previous = (Ok (), sys_governor s)"
    using bt_insert_restore [OF wf at(1)] governor_okD(3) [OF ok]
    by (simp add: drop_permit_def with_lock_recover_def g a(2) at set_phase_def bt_insert_restore)
  then show ?thesis
    using set_phase_count [OF wf at(1), of VmRunning "\<lambda>a. al_phase a = VmRunning"] at(2) a(3) by simp
qed

text \<open>
  Admission respects the capacity owner: when reserving a VM or beginning an execution for a
  member group succeeds in a reachable state, the owner's members together were strictly below its
  resident limit, respectively its running limit, and are within it afterwards.
\<close>

theorem admission_within_capacity:
  assumes "governor_reachable c s"
    and "bt_get (memberships (gov_state (sys_governor s))) grp = Some cid"
    and "bt_get (capacities (gov_state (sys_governor s))) cid = Some cap"
  shows "(governor_reserve (sys_governor s) grp = (Ok k, g) \<longrightarrow>
      resident (capacity_usage (gov_state g) cid) = resident (capacity_usage (gov_state (sys_governor s)) cid) + 1 \<and>
      resident (capacity_usage (gov_state g) cid) \<le> cap_max_resident_vms cap) \<and>
    (begin_execution (sys_governor s) k = (Ok previous, g) \<and>
       (\<exists>a. bt_get (allocations (gov_state (sys_governor s))) k = Some a \<and> al_group a = grp) \<longrightarrow>
      running (capacity_usage (gov_state g) cid) = running (capacity_usage (gov_state (sys_governor s)) cid) + 1 \<and>
      running (capacity_usage (gov_state g) cid) \<le> cap_max_running_calls cap)"
proof (intro conjI impI)
  note inv = governor_reachable_inv [OF assms(1)]
  note ok = system_invD(1) [OF inv] and gi = system_invD(2) [OF inv]
  let ?st = "gov_state (sys_governor s)"
  { assume res: "governor_reserve (sys_governor s) grp = (Ok k, g)"
    note r = reserve_result [OF ok res]
    have k: "gov_sequence ?st < k" and room: "capacity_resident ?st cid < cap_max_resident_vms cap"
      using r(1) assms(2,3) by (auto simp: reserve_check_def split: if_splits)
    have "owned_by (gov_state g) = owned_by ?st" by (simp add: r(2))
    then show "resident (capacity_usage (gov_state g) cid) = resident (capacity_usage ?st cid) + 1"
      "resident (capacity_usage (gov_state g) cid) \<le> cap_max_resident_vms cap"
      using reserved_count [OF gi k, of grp "owned_by ?st cid"] room assms(2) by (simp_all add: r(2) owned_by_iff)
  }
  { assume begun: "begin_execution (sys_governor s) k = (Ok previous, g) \<and>
       (\<exists>a. bt_get (allocations ?st) k = Some a \<and> al_group a = grp)"
    obtain a where b: "begin_execution_check c ?st k = Ok a" "gov_state g = set_phase k a VmRunning ?st"
      by (rule begin_execution_result [OF ok conjunct1 [OF begun]])
    have a: "bt_get (allocations ?st) k = Some a" "al_group a = grp"
      using begin_execution_check_Ok [OF b(1)] begun by auto
    have room: "running (capacity_usage ?st cid) < cap_max_running_calls cap" "al_phase a \<noteq> VmRunning"
      using b(1) a assms(2,3) by (auto simp: begin_execution_check_def split: if_splits)
    then show "running (capacity_usage (gov_state g) cid) = running (capacity_usage ?st cid) + 1"
      "running (capacity_usage (gov_state g) cid) \<le> cap_max_running_calls cap"
      using set_phase_count [OF governor_inv_wf(4) [OF gi] a(1), of VmRunning "\<lambda>a. owned_by ?st cid a \<and> al_phase a = VmRunning"]
        a(2) assms(2) by (simp_all add: b(2) owned_by_iff)
  }
qed

text \<open>
  The counters agree: in a reachable state every usage snapshot splits the resident VMs into
  creating, idle, running and retiring ones, and the parent's resident count is the sum of the counts of
  the registered groups, so no resident VM escapes the accounting.
\<close>

theorem usage_accounts_for_every_vm:
  assumes "governor_reachable c s" "governor_usage (sys_governor s) sel = Ok u"
  shows "resident u = creating u + idle u + running u + retiring u \<and>
    (sel = None \<longrightarrow> resident u =
      sum_list (map (\<lambda>e. resident (group_usage (gov_state (sys_governor s)) (fst e))) (groups (gov_state (sys_governor s)))))"
proof -
  note gi = system_invD(2) [OF governor_reachable_inv [OF assms(1)]]
  have u: "u = count_allocations (filter (case sel of None \<Rightarrow> (\<lambda>_. True) | Some grp \<Rightarrow> (\<lambda>a. al_group a = grp))
      (bt_values (allocations (gov_state (sys_governor s)))))"
    using assms(2)
    by (auto simp: governor_usage_def gov_lock_def group_usage_def split: if_splits option.splits)
  have "resident u = creating u + idle u + running u + retiring u"
    unfolding u by (rule count_partition)
  then show ?thesis
    using resident_by_group [OF gi] by (auto simp: u alloc_count_def)
qed

end
