(* ===== verification/Capability_Types.thy ===== *)
theory Capability_Types
  imports Embedded_Config
begin

text \<open>
  The declarative side of host capabilities (\<^verbatim>\<open>runtime/embedded/capabilities/types.rs\<close>): the
  descriptor of a capability with its admission checks, the identity of a caller and the live
  permission grants. Parsing of semantic versions (\<^verbatim>\<open>semver\<close>) and compilation of JSON schemas
  (\<^verbatim>\<open>jsonschema\<close>) are third-party code and parameters of \<open>descriptor_compile\<close>.
\<close>

datatype capability_execution = Native | Queued

datatype capability_effects = ReadOnly | Mutating

datatype capability_idempotency = NotIdempotent | HostRequest

datatype capability_scope = Invocation | SessionScope

record capability_descriptor =
  cd_name :: string
  cd_version :: string
  cd_description :: string
  cd_input_schema :: json_value
  cd_output_schema :: json_value
  cd_execution :: capability_execution
  cd_permissions :: "string list"
  cd_scope :: capability_scope
  cd_max_concurrent :: usize
  cd_max_call_ms :: u64
  cd_max_input_bytes :: usize
  cd_max_output_bytes :: usize
  cd_effects :: capability_effects
  cd_idempotency :: capability_idempotency

definition descriptor_compile ::
  "(string \<Rightarrow> bool) \<Rightarrow> (json_value \<Rightarrow> 'contract embedded_result) \<Rightarrow> instant \<Rightarrow>
   embedded_runtime_config \<Rightarrow> capability_descriptor \<Rightarrow> ('contract \<times> 'contract) embedded_result" where
  "descriptor_compile is_semver compile now config d =
     (if bad_name (cd_name d) \<or> trim_is_empty (cd_description d) \<or> list_ex bad_name (cd_permissions d)
      then Err (error_invalid ''capability names, description and permissions must be explicit'')
      else if \<not> is_semver (cd_version d)
      then Err (error_invalid ''capability version must be semantic'')
      else if cd_execution d = Native \<and> cd_idempotency d = HostRequest
      then Err (error_new Unsupported ''host-request idempotency requires queued execution'')
      else if cd_max_concurrent d = 0 \<or> cd_max_concurrent d > max_host_requests config
        \<or> cd_max_call_ms d = 0 \<or> cd_max_input_bytes d = 0 \<or> cd_max_output_bytes d = 0
        \<or> cd_max_input_bytes d > max_value_bytes config \<or> cd_max_output_bytes d > max_value_bytes config
      then Err (error_invalid ''capability budgets are outside the parent limits'')
      else
        and_then (ok_or (error_invalid ''capability deadline cannot be represented'')
          (instant_checked_add now (cd_max_call_ms d * nanos_per_milli))) (\<lambda>_.
        and_then (compile (cd_input_schema d)) (\<lambda>input.
        and_then (compile (cd_output_schema d)) (\<lambda>output. Ok (input, output)))))"

record capability_caller =
  cc_runtime_id :: string
  cc_plugin_id :: string
  cc_package_generation :: string
  cc_execution_revision :: string
  cc_security_partition :: string
  cc_operation_id :: string
  cc_request_id :: "string option"
  cc_session_id :: "string option"
  cc_workspace_root :: "string option"

definition bad_optional_name :: "string option \<Rightarrow> bool" where
  "bad_optional_name v = (case v of None \<Rightarrow> False | Some s \<Rightarrow> bad_name s)"

definition caller_validate :: "capability_caller \<Rightarrow> string \<Rightarrow> unit embedded_result" where
  "caller_validate c runtime_id =
     (if cc_runtime_id c \<noteq> runtime_id
        \<or> list_ex bad_name [cc_plugin_id c, cc_package_generation c, cc_execution_revision c,
             cc_security_partition c, cc_operation_id c]
        \<or> bad_optional_name (cc_session_id c) \<or> bad_optional_name (cc_request_id c)
      then Err (error_invalid ''capability caller identity is invalid'')
      else Ok ())"

section \<open>Live permission grants\<close>

text \<open>A \<^verbatim>\<open>BTreeSet<String>\<close> behind a read-write lock that only \<open>permissions_revoke\<close> writes.\<close>

type_synonym capability_permissions = "string list mutex"

definition permissions_new :: "string list \<Rightarrow> capability_permissions embedded_result" where
  "permissions_new grants =
     (if list_ex bad_name grants then Err (error_invalid ''permission grants must be nonempty names'')
      else Ok (mutex_new grants))"

definition permissions_revoke ::
  "capability_permissions \<Rightarrow> string \<Rightarrow> bool embedded_result \<times> capability_permissions" where
  "permissions_revoke p permission =
     mutex_with (error_new Internal ''permission state is poisoned'') p (\<lambda>grants.
       (Ok (permission \<in> set grants), removeAll permission grants))"

definition permissions_require :: "capability_permissions \<Rightarrow> string list \<Rightarrow> unit embedded_result" where
  "permissions_require p needed =
     (if poisoned p then Err (error_new Internal ''permission state is poisoned'')
      else if \<not> list_all (\<lambda>x. x \<in> set (guarded p)) needed
      then Err (error_new PermissionDenied ''capability permission denied'')
      else Ok ())"

lemma permissions_require_Ok_iff:
  "permissions_require p needed = Ok () \<longleftrightarrow> \<not> poisoned p \<and> set needed \<subseteq> set (guarded p)"
  by (auto simp: permissions_require_def list_all_iff)

lemma permissions_revoke_effect:
  assumes "\<not> poisoned p"
  shows "fst (permissions_revoke p x) = Ok (x \<in> set (guarded p))"
    "set (guarded (snd (permissions_revoke p x))) = set (guarded p) - {x}"
    "\<not> poisoned (snd (permissions_revoke p x))"
  using assms by (auto simp: permissions_revoke_def mutex_with_def)

lemma descriptor_compile_Ok:
  assumes "descriptor_compile is_semver compile now config d = Ok contracts"
  shows "0 < cd_max_concurrent d" "cd_max_concurrent d \<le> max_host_requests config"
    "0 < cd_max_call_ms d" "now + cd_max_call_ms d * nanos_per_milli \<le> instant_max"
    "0 < cd_max_input_bytes d" "cd_max_input_bytes d \<le> max_value_bytes config"
    "0 < cd_max_output_bytes d" "cd_max_output_bytes d \<le> max_value_bytes config"
    "cd_idempotency d = HostRequest \<Longrightarrow> cd_execution d = Queued"
  using assms by (auto simp: descriptor_compile_def split: if_splits, cases "cd_execution d") auto

end
