(* ===== verification/Effect_Ledger.thy ===== *)
theory Effect_Ledger
  imports Capability_Types
begin

text \<open>
  The host effect journal of one operation (\<^verbatim>\<open>runtime/embedded/effects.rs\<close>): attempts are admitted
  against a record and a byte budget, move from prepared over running to completed, and the journal
  is frozen stage by stage. An \<^verbatim>\<open>EffectAttempt\<close> is the sequence number it owns, or \<open>None\<close> when the
  call is untracked; \<open>ledger_step\<close> adds that only a live attempt is used and that dropping it ends it.
  Serialization of a record is third-party code: the parameter \<open>ser\<close> gives what it writes.
\<close>

section \<open>Effect states\<close>

datatype effect_state = NotStarted | NotApplicable | Committed | RolledBack | UnknownEffect

text \<open>
  How much a consumer may still rely on: the order in which \<^verbatim>\<open>merge_effects\<close> lets one observation
  override another.
\<close>

fun effect_rank :: "effect_state \<Rightarrow> nat" where
  "effect_rank NotStarted = 0"
| "effect_rank NotApplicable = 1"
| "effect_rank RolledBack = 2"
| "effect_rank Committed = 3"
| "effect_rank UnknownEffect = 4"

lemma effect_rank_inj: "effect_rank a = effect_rank b \<Longrightarrow> a = b"
  by (cases a; cases b) auto

instantiation effect_state :: linorder
begin

definition less_eq_effect_state :: "effect_state \<Rightarrow> effect_state \<Rightarrow> bool" where
  "less_eq_effect_state a b \<longleftrightarrow> effect_rank a \<le> effect_rank b"

definition less_effect_state :: "effect_state \<Rightarrow> effect_state \<Rightarrow> bool" where
  "less_effect_state a b \<longleftrightarrow> effect_rank a < effect_rank b"

instance
  by standard (auto simp: less_eq_effect_state_def less_effect_state_def dest: effect_rank_inj)

end

section \<open>Records and the ledger\<close>

datatype host_effect_phase = Prepared | HandlerRunning | Completed

record host_effect_record =
  he_caller :: capability_caller
  he_effect_id :: string
  he_registration_id :: string
  he_capability_name :: string
  he_capability_version :: string
  he_request_id :: "string option"
  he_phase :: host_effect_phase
  he_effects :: effect_state

datatype effect_admission_stage = Business | Finalization

record ledger_state =
  led_stage :: effect_admission_stage
  led_sealed :: bool
  led_sequence :: u64
  led_bytes :: usize
  led_records :: "(u64, host_effect_record) btree"

record effect_ledger =
  led_caller :: "capability_caller option"
  led_persistent :: bool
  led_runtime_id :: string
  led_operation_id :: string
  led_max_records :: usize
  led_max_bytes :: usize
  led_state :: "ledger_state mutex"

definition effects_capacity :: embedded_error where
  "effects_capacity = error_new CapacityExceeded ''operation effect retention capacity reached''"

definition effects_poisoned :: embedded_error where
  "effects_poisoned = error_new Internal ''operation effect journal is inconsistent''"

definition ledger_with ::
  "effect_ledger \<Rightarrow> (ledger_state \<Rightarrow> 'a embedded_result \<times> ledger_state) \<Rightarrow> 'a embedded_result \<times> effect_ledger" where
  "ledger_with l body =
     (case mutex_with effects_poisoned (led_state l) body of (r, m) \<Rightarrow> (r, l\<lparr>led_state := m\<rparr>))"

text \<open>The worst encoding of a record: the longest phase and effect names.\<close>

definition worst_record :: "host_effect_record \<Rightarrow> host_effect_record" where
  "worst_record r = r\<lparr>he_phase := Completed, he_effects := NotApplicable\<rparr>"

definition reserved_bytes ::
  "(host_effect_record \<Rightarrow> serialization) \<Rightarrow> host_effect_record \<Rightarrow> usize embedded_result" where
  "reserved_bytes ser r = json_size (ser (worst_record r)) usize_max"

definition merge_effects :: "effect_state \<Rightarrow> host_effect_record list \<Rightarrow> effect_state" where
  "merge_effects base records =
     (if base = UnknownEffect \<or> list_ex (\<lambda>r. he_phase r \<noteq> Completed \<or> he_effects r = UnknownEffect) records
      then UnknownEffect
      else if base = Committed \<or> list_ex (\<lambda>r. he_effects r = Committed) records then Committed
      else if base = RolledBack \<or> list_ex (\<lambda>r. he_effects r = RolledBack) records then RolledBack
      else if base = NotApplicable \<or> list_ex (\<lambda>r. he_effects r = NotApplicable) records then NotApplicable
      else NotStarted)"

section \<open>Ledger operations\<close>

definition ledger_new ::
  "string \<Rightarrow> string \<Rightarrow> usize \<Rightarrow> usize \<Rightarrow> bool \<Rightarrow> capability_caller option \<Rightarrow> usize \<Rightarrow> effect_ledger" where
  "ledger_new runtime_id operation_id max_records max_bytes persistent caller context_bytes =
     \<lparr>led_caller = caller, led_persistent = persistent, led_runtime_id = runtime_id,
      led_operation_id = operation_id, led_max_records = max_records, led_max_bytes = max_bytes,
      led_state = mutex_new \<lparr>led_stage = Business, led_sealed = False, led_sequence = 0,
        led_bytes = context_bytes, led_records = []\<rparr>\<rparr>"

definition any_unfinished :: "ledger_state \<Rightarrow> bool" where
  "any_unfinished s = list_ex (\<lambda>r. he_phase r \<noteq> Completed) (bt_values (led_records s))"

definition begin_finalization :: "effect_ledger \<Rightarrow> usize embedded_result \<times> effect_ledger" where
  "begin_finalization l =
     ledger_with l (\<lambda>s. commit
       (if led_sealed s \<or> led_stage s \<noteq> Business
        then Err (error_new Closed ''operation finalization was already prepared or sealed'')
        else if any_unfinished s
        then Err (error_new Busy ''business host handlers have not finished execution and cleanup'')
        else Ok ()) s (\<lambda>_. (length (led_records s), s\<lparr>led_stage := Finalization\<rparr>)))"

definition ledger_request_id :: "effect_ledger \<Rightarrow> string option" where
  "ledger_request_id l = Option.bind (led_caller l) cc_request_id"

definition effect_id_of :: "string \<Rightarrow> u64 \<Rightarrow> string" where
  "effect_id_of operation_id sequence = operation_id @ '':effect:'' @ show_nat sequence"

text \<open>What \<^verbatim>\<open>prepare\<close> decides under the lock: the new sequence, the record and the new byte total.\<close>

definition prepare_check ::
  "(host_effect_record \<Rightarrow> serialization) \<Rightarrow> effect_ledger \<Rightarrow> ledger_state \<Rightarrow> effect_admission_stage \<Rightarrow>
   capability_caller \<Rightarrow> string \<Rightarrow> string \<Rightarrow> string \<Rightarrow> (u64 \<times> host_effect_record \<times> usize) embedded_result" where
  "prepare_check ser l s stage caller registration_id name version =
     (if led_sealed s \<or> led_stage s \<noteq> stage
      then Err (error_new Closed ''operation effect journal is sealed for this execution stage'')
      else if length (led_records s) \<ge> led_max_records l then Err effects_capacity
      else
        and_then (ok_or effects_capacity (checked_add (led_sequence s) 1)) (\<lambda>sequence.
        let r = \<lparr>he_caller = caller, he_effect_id = effect_id_of (led_operation_id l) sequence,
                 he_registration_id = registration_id, he_capability_name = name,
                 he_capability_version = version, he_request_id = None, he_phase = Prepared,
                 he_effects = NotStarted\<rparr> in
        and_then (reserved_bytes ser r) (\<lambda>bytes.
        and_then (ok_or effects_capacity
          (Option.bind (checked_add (led_bytes s) bytes)
            (\<lambda>total. if total \<le> led_max_bytes l then Some total else None))) (\<lambda>total.
        Ok (sequence, r, total)))))"

text \<open>The attempt returned on success is its sequence number.\<close>

definition ledger_prepare ::
  "(host_effect_record \<Rightarrow> serialization) \<Rightarrow> effect_ledger \<Rightarrow> effect_admission_stage \<Rightarrow> capability_caller \<Rightarrow>
   string \<Rightarrow> string \<Rightarrow> string \<Rightarrow> u64 embedded_result \<times> effect_ledger" where
  "ledger_prepare ser l stage caller registration_id name version =
     (if cc_runtime_id caller \<noteq> led_runtime_id l \<or> cc_operation_id caller \<noteq> led_operation_id l
      then (Err (error_invalid ''capability caller does not match its operation journal''), l)
      else if (case led_caller l of None \<Rightarrow> False | Some bound \<Rightarrow> bound \<noteq> caller)
      then (Err (error_invalid ''capability caller does not match admitted module context''), l)
      else ledger_with l (\<lambda>s. commit
        (prepare_check ser l s stage caller registration_id name version) s
        (\<lambda>(sequence, r, total).
          (sequence, s\<lparr>led_sequence := sequence, led_bytes := total,
                       led_records := bt_insert sequence r (led_records s)\<rparr>))))"

definition ledger_snapshot :: "effect_ledger \<Rightarrow> host_effect_record list embedded_result" where
  "ledger_snapshot l =
     (if poisoned (led_state l) then Err effects_poisoned else Ok (bt_values (led_records (guarded (led_state l)))))"

definition ledger_seal :: "effect_ledger \<Rightarrow> host_effect_record list embedded_result \<times> effect_ledger" where
  "ledger_seal l =
     ledger_with l (\<lambda>s. commit
       (if any_unfinished s then Err (error_new Busy ''host handlers have not finished execution and cleanup'')
        else Ok ()) s (\<lambda>_. (bt_values (led_records s), s\<lparr>led_sealed := True\<rparr>)))"

section \<open>Operations of an attempt\<close>

definition bind_request_check ::
  "(host_effect_record \<Rightarrow> serialization) \<Rightarrow> effect_ledger \<Rightarrow> ledger_state \<Rightarrow> u64 \<Rightarrow> string \<Rightarrow>
   (host_effect_record \<times> usize) embedded_result" where
  "bind_request_check ser l s sequence request_id =
     and_then (ok_or effects_poisoned (bt_get (led_records s) sequence)) (\<lambda>r.
       if he_phase r \<noteq> Prepared \<or> he_request_id r \<noteq> None
       then Err (error_new Busy ''host request identity is already frozen'')
       else
         and_then (reserved_bytes ser r) (\<lambda>old_bytes.
         let updated = r\<lparr>he_request_id := Some request_id\<rparr> in
         and_then (reserved_bytes ser updated) (\<lambda>new_bytes.
         and_then (ok_or effects_capacity
           (Option.bind (Option.bind (checked_sub (led_bytes s) old_bytes) (\<lambda>b. checked_add b new_bytes))
             (\<lambda>total. if total \<le> led_max_bytes l then Some total else None))) (\<lambda>total.
         Ok (updated, total)))))"

definition attempt_bind_request ::
  "(host_effect_record \<Rightarrow> serialization) \<Rightarrow> effect_ledger \<Rightarrow> u64 option \<Rightarrow> string \<Rightarrow>
   unit embedded_result \<times> effect_ledger" where
  "attempt_bind_request ser l attempt request_id =
     (case attempt of
        None \<Rightarrow> (Ok (), l)
      | Some sequence \<Rightarrow>
          ledger_with l (\<lambda>s. commit (bind_request_check ser l s sequence request_id) s
            (\<lambda>(updated, total).
              ((), s\<lparr>led_records := bt_insert sequence updated (led_records s), led_bytes := total\<rparr>))))"

definition attempt_begin :: "effect_ledger \<Rightarrow> u64 option \<Rightarrow> unit embedded_result \<times> effect_ledger" where
  "attempt_begin l attempt =
     (case attempt of
        None \<Rightarrow> (Ok (), l)
      | Some sequence \<Rightarrow>
          ledger_with l (\<lambda>s. commit
            (and_then (ok_or effects_poisoned (bt_get (led_records s) sequence)) (\<lambda>r.
               if he_phase r \<noteq> Prepared then Err (error_new Busy ''host effect was already dispatched'') else Ok r)) s
            (\<lambda>r. ((), s\<lparr>led_records := bt_insert sequence
                    (r\<lparr>he_phase := HandlerRunning, he_effects := UnknownEffect\<rparr>) (led_records s)\<rparr>))))"

definition update_record :: "u64 \<Rightarrow> (host_effect_record \<Rightarrow> host_effect_record) \<Rightarrow> ledger_state \<Rightarrow> ledger_state" where
  "update_record sequence f s =
     (case bt_get (led_records s) sequence of
        None \<Rightarrow> s
      | Some r \<Rightarrow> s\<lparr>led_records := bt_insert sequence (f r) (led_records s)\<rparr>)"

definition attempt_observe :: "effect_ledger \<Rightarrow> u64 option \<Rightarrow> effect_state \<Rightarrow> effect_ledger" where
  "attempt_observe l attempt effects =
     (case attempt of
        None \<Rightarrow> l
      | Some sequence \<Rightarrow>
          l\<lparr>led_state := mutex_recover (led_state l) (update_record sequence (\<lambda>r. r\<lparr>he_effects := effects\<rparr>))\<rparr>)"

definition attempt_drop :: "effect_ledger \<Rightarrow> u64 option \<Rightarrow> effect_ledger" where
  "attempt_drop l attempt =
     (case attempt of
        None \<Rightarrow> l
      | Some sequence \<Rightarrow>
          l\<lparr>led_state := mutex_recover (led_state l) (update_record sequence (\<lambda>r. r\<lparr>he_phase := Completed\<rparr>))\<rparr>)"

section \<open>The ledger under Rust's ownership discipline\<close>

record ledger_system =
  ls_ledger :: effect_ledger
  ls_live :: "u64 set"

inductive ledger_step :: "(host_effect_record \<Rightarrow> serialization) \<Rightarrow> ledger_system \<Rightarrow> ledger_system \<Rightarrow> bool"
  for ser where
  step_prepare:
    "ledger_prepare ser (ls_ledger s) stage caller reg name version = (Ok k, l) \<Longrightarrow>
     ledger_step ser s (s\<lparr>ls_ledger := l, ls_live := insert k (ls_live s)\<rparr>)"
| step_prepare_failed:
    "ledger_prepare ser (ls_ledger s) stage caller reg name version = (Err e, l) \<Longrightarrow>
     ledger_step ser s (s\<lparr>ls_ledger := l\<rparr>)"
| step_bind_request:
    "k \<in> ls_live s \<Longrightarrow>
     ledger_step ser s (s\<lparr>ls_ledger := snd (attempt_bind_request ser (ls_ledger s) (Some k) request_id)\<rparr>)"
| step_begin:
    "k \<in> ls_live s \<Longrightarrow> ledger_step ser s (s\<lparr>ls_ledger := snd (attempt_begin (ls_ledger s) (Some k))\<rparr>)"
| step_observe:
    "k \<in> ls_live s \<Longrightarrow> ledger_step ser s (s\<lparr>ls_ledger := attempt_observe (ls_ledger s) (Some k) effects\<rparr>)"
| step_drop:
    "k \<in> ls_live s \<Longrightarrow>
     ledger_step ser s (s\<lparr>ls_ledger := attempt_drop (ls_ledger s) (Some k), ls_live := ls_live s - {k}\<rparr>)"
| step_begin_finalization:
    "ledger_step ser s (s\<lparr>ls_ledger := snd (begin_finalization (ls_ledger s))\<rparr>)"
| step_seal:
    "ledger_step ser s (s\<lparr>ls_ledger := snd (ledger_seal (ls_ledger s))\<rparr>)"

inductive ledger_reachable :: "(host_effect_record \<Rightarrow> serialization) \<Rightarrow> usize \<Rightarrow> ledger_system \<Rightarrow> bool"
  for ser context_bytes where
  ledger_start:
    "context_bytes \<le> max_bytes \<Longrightarrow> ledger_reachable ser context_bytes
       \<lparr>ls_ledger = ledger_new runtime_id operation_id max_records max_bytes persistent caller context_bytes, ls_live = {}\<rparr>"
| ledger_next:
    "ledger_reachable ser context_bytes s \<Longrightarrow> ledger_step ser s t \<Longrightarrow> ledger_reachable ser context_bytes t"

end
