(* ===== verification/Effect_Ledger_Props.thy ===== *)
theory Effect_Ledger_Props
  imports Effect_Ledger
begin

text \<open>
  The effect journal keeps its budgets, its evidence is append-only stage by stage, and a sealed
  journal never changes.
\<close>

section \<open>Merged effects\<close>

definition observed_effect :: "host_effect_record \<Rightarrow> effect_state" where
  "observed_effect r = (if he_phase r = Completed then he_effects r else UnknownEffect)"

lemma effect_state_bounds [simp]: "NotStarted \<le> e" "e \<le> UnknownEffect"
  by (cases e; simp add: less_eq_effect_state_def)+

lemma merge_effects_Cons:
  "merge_effects base (r # rs) = merge_effects (max base (observed_effect r)) rs"
  by (cases base; cases "he_effects r")
    (simp_all add: merge_effects_def observed_effect_def max_def less_eq_effect_state_def)

lemma merge_effects_eq_Max: "merge_effects base rs = Max (set (base # map observed_effect rs))"
proof (induction rs arbitrary: base)
  case Nil
  then show ?case by (cases base) (simp_all add: merge_effects_def)
next
  case (Cons r rs)
  have "merge_effects base (r # rs) = fold max (map observed_effect rs) (max (observed_effect r) base)"
    unfolding merge_effects_Cons Cons.IH Max.set_eq_fold by (simp add: max.commute)
  then show ?case
    unfolding Max.set_eq_fold by simp
qed

section \<open>The invariant\<close>

definition encoded :: "(host_effect_record \<Rightarrow> serialization) \<Rightarrow> u64 \<times> host_effect_record \<Rightarrow> nat" where
  "encoded ser e = ser_length (ser (worst_record (snd e)))"

definition ledger_inv :: "(host_effect_record \<Rightarrow> serialization) \<Rightarrow> usize \<Rightarrow> ledger_system \<Rightarrow> bool" where
  "ledger_inv ser context_bytes s \<longleftrightarrow>
     (let l = ls_ledger s; st = guarded (led_state l) in
      \<not> poisoned (led_state l) \<and> bt_wf (led_records st) \<and>
      (\<forall>k r. bt_get (led_records st) k = Some r \<longrightarrow> k \<le> led_sequence st) \<and>
      (\<forall>k. k \<in> ls_live s \<longleftrightarrow> (\<exists>r. bt_get (led_records st) k = Some r \<and> he_phase r \<noteq> Completed)) \<and>
      led_bytes st = context_bytes + sum_list (map (encoded ser) (led_records st)) \<and>
      led_bytes st \<le> led_max_bytes l \<and> length (led_records st) \<le> led_max_records l \<and>
      (led_sealed st \<longrightarrow> ls_live s = {}))"

lemma ledger_invD:
  assumes "ledger_inv ser ctx s"
  defines "st \<equiv> guarded (led_state (ls_ledger s))"
  shows "\<not> poisoned (led_state (ls_ledger s))" "bt_wf (led_records st)"
    "\<And>k r. bt_get (led_records st) k = Some r \<Longrightarrow> k \<le> led_sequence st"
    "\<And>k. k \<in> ls_live s \<longleftrightarrow> (\<exists>r. bt_get (led_records st) k = Some r \<and> he_phase r \<noteq> Completed)"
    "led_bytes st = ctx + sum_list (map (encoded ser) (led_records st))"
    "led_bytes st \<le> led_max_bytes (ls_ledger s)" "length (led_records st) \<le> led_max_records (ls_ledger s)"
    "led_sealed st \<Longrightarrow> ls_live s = {}"
  using assms by (simp_all add: ledger_inv_def Let_def)

lemma ledger_with_simps [simp]:
  "led_max_bytes (snd (ledger_with l body)) = led_max_bytes l"
  "led_max_records (snd (ledger_with l body)) = led_max_records l"
  "led_operation_id (snd (ledger_with l body)) = led_operation_id l"
  "led_runtime_id (snd (ledger_with l body)) = led_runtime_id l"
  "led_caller (snd (ledger_with l body)) = led_caller l"
  by (simp_all add: ledger_with_def case_prod_beta)

lemma ledger_with_commit_Ok:
  "ledger_with l (\<lambda>s. commit (r s) s (f s)) = (Ok y, l') \<longleftrightarrow>
     \<not> poisoned (led_state l) \<and> (\<exists>x. r (guarded (led_state l)) = Ok x \<and> y = fst (f (guarded (led_state l)) x) \<and>
       l' = l\<lparr>led_state := mutex_new (snd (f (guarded (led_state l)) x))\<rparr>)"
  by (cases "r (guarded (led_state l))") (auto simp: ledger_with_def mutex_with_def mutex_new_def)

lemma ledger_with_commit_state:
  assumes "\<not> poisoned (led_state l)" "\<not> is_panic (r (guarded (led_state l)))"
  shows "snd (ledger_with l (\<lambda>s. commit (r s) s (f s))) =
    l\<lparr>led_state := mutex_new (case r (guarded (led_state l)) of Ok x \<Rightarrow> snd (f (guarded (led_state l)) x)
      | _ \<Rightarrow> guarded (led_state l))\<rparr>"
  using assms by (cases "r (guarded (led_state l))") (auto simp: ledger_with_def mutex_with_def mutex_new_def)

lemma healthy_mutex: "\<not> poisoned m \<Longrightarrow> mutex_new (guarded m) = m"
  by (cases m) (simp add: mutex_new_def)

lemma any_unfinished_iff:
  assumes "ledger_inv ser ctx s"
  shows "any_unfinished (guarded (led_state (ls_ledger s))) \<longleftrightarrow> ls_live s \<noteq> {}"
  using ledger_invD(4) [OF assms] bt_values_iff [OF ledger_invD(2) [OF assms]]
  by (auto simp: any_unfinished_def list_ex_iff)

lemma reserved_bytes_Ok:
  "reserved_bytes ser r = Ok n \<longleftrightarrow>
     n = ser_length (ser (worst_record r)) \<and> ser_length (ser (worst_record r)) \<le> usize_max \<and> \<not> ser_failed (ser (worst_record r))"
  by (simp add: reserved_bytes_def)

lemma worst_record_simps [simp]:
  "worst_record (r\<lparr>he_phase := p\<rparr>) = worst_record r" "worst_record (r\<lparr>he_effects := e\<rparr>) = worst_record r"
  "worst_record (r\<lparr>he_phase := p, he_effects := e\<rparr>) = worst_record r"
  by (simp_all add: worst_record_def)

text \<open>Changing the record of one live attempt, with its new byte tot.\<close>

lemma change_record_inv:
  assumes inv: "ledger_inv ser ctx s" and r: "bt_get (led_records (guarded (led_state (ls_ledger s)))) k = Some r"
    and bytes: "b + encoded ser (k, r) = led_bytes (guarded (led_state (ls_ledger s))) + encoded ser (k, r')"
      "b \<le> led_max_bytes (ls_ledger s)"
    and live: "live = (if he_phase r' = Completed then ls_live s - {k} else insert k (ls_live s))"
    and unsealed: "led_sealed (guarded (led_state (ls_ledger s))) \<Longrightarrow> he_phase r' = Completed"
  shows "ledger_inv ser ctx (s\<lparr>ls_ledger := (ls_ledger s)\<lparr>led_state := mutex_new
      ((guarded (led_state (ls_ledger s)))\<lparr>led_records := bt_insert k r' (led_records (guarded (led_state (ls_ledger s)))),
        led_bytes := b\<rparr>)\<rparr>, ls_live := live\<rparr>)"
  using ledger_invD [OF inv] bytes unsealed
    bt.sum_put_old [OF ledger_invD(2) [OF inv] r, of "encoded ser" r'] bt.length_put [OF ledger_invD(2) [OF inv], of k r'] r
  by (auto simp: ledger_inv_def Let_def live)

lemma prepare_not_panic [simp]: "\<not> is_panic (prepare_check ser l s stage caller reg name version)"
  by (auto simp: prepare_check_def Let_def reserved_bytes_def)

lemma bind_request_not_panic [simp]: "\<not> is_panic (bind_request_check ser l s k request_id)"
  by (auto simp: bind_request_check_def Let_def reserved_bytes_def)

lemma prepare_check_Ok:
  assumes "prepare_check ser l s stage caller reg name version = Ok (k, r, tot)"
  shows "\<not> led_sealed s" "led_stage s = stage" "length (led_records s) < led_max_records l"
    "k = led_sequence s + 1" "tot = led_bytes s + ser_length (ser (worst_record r))" "tot \<le> led_max_bytes l"
    "he_phase r = Prepared" "he_caller r = caller" "he_effect_id r = effect_id_of (led_operation_id l) k"
  using assms by (auto simp: prepare_check_def Let_def reserved_bytes_Ok Option.bind_eq_Some_conv split: if_splits)

lemma prepared_inv:
  assumes inv: "ledger_inv ser ctx s"
    and ok: "prepare_check ser (ls_ledger s) (guarded (led_state (ls_ledger s))) stage caller reg name version = Ok (k, r, tot)"
  shows "ledger_inv ser ctx (s\<lparr>ls_ledger := (ls_ledger s)\<lparr>led_state := mutex_new
      ((guarded (led_state (ls_ledger s)))\<lparr>led_sequence := k, led_bytes := tot,
        led_records := bt_insert k r (led_records (guarded (led_state (ls_ledger s))))\<rparr>)\<rparr>, ls_live := insert k (ls_live s)\<rparr>)"
proof -
  let ?st = "guarded (led_state (ls_ledger s))"
  note c = prepare_check_Ok [OF ok] and d = ledger_invD [OF inv]
  have new: "bt_get (led_records ?st) k = None"
    using d(3) [of k] c(4) by (cases "bt_get (led_records ?st) k") auto
  show ?thesis
    using d c bt.sum_put_new [OF d(2) new, of "encoded ser" r] bt.length_put [OF d(2), of k r] new
    by (auto simp: ledger_inv_def Let_def encoded_def le_SucI)
qed

lemma prepare_result:
  assumes inv: "ledger_inv ser ctx s" and res: "ledger_prepare ser (ls_ledger s) stage caller reg name version = (x, l)"
  shows "x = Ok k \<Longrightarrow> \<exists>r tot.
      prepare_check ser (ls_ledger s) (guarded (led_state (ls_ledger s))) stage caller reg name version = Ok (k, r, tot) \<and>
      l = (ls_ledger s)\<lparr>led_state := mutex_new ((guarded (led_state (ls_ledger s)))\<lparr>led_sequence := k, led_bytes := tot,
        led_records := bt_insert k r (led_records (guarded (led_state (ls_ledger s))))\<rparr>)\<rparr>"
    and "x = Err e \<Longrightarrow> l = ls_ledger s"
proof -
  show "x = Err e \<Longrightarrow> l = ls_ledger s"
    using res ledger_invD(1) [OF inv]
    by (cases "prepare_check ser (ls_ledger s) (guarded (led_state (ls_ledger s))) stage caller reg name version")
      (auto simp: ledger_prepare_def ledger_with_def mutex_with_def healthy_mutex [unfolded mutex_new_def] split: if_splits)
qed (use res in \<open>auto simp: ledger_prepare_def ledger_with_commit_Ok split: if_splits\<close>)

text \<open>What the operations of a live attempt do to the journal.\<close>

definition with_record :: "ledger_system \<Rightarrow> u64 \<Rightarrow> host_effect_record \<Rightarrow> usize \<Rightarrow> effect_ledger" where
  "with_record s k r b = (ls_ledger s)\<lparr>led_state := mutex_new
     ((guarded (led_state (ls_ledger s)))\<lparr>led_records := bt_insert k r (led_records (guarded (led_state (ls_ledger s)))),
       led_bytes := b\<rparr>)\<rparr>"

lemma live_record:
  assumes "ledger_inv ser ctx s" "k \<in> ls_live s"
  obtains r where "bt_get (led_records (guarded (led_state (ls_ledger s)))) k = Some r" "he_phase r \<noteq> Completed"
    "\<not> led_sealed (guarded (led_state (ls_ledger s)))"
  using ledger_invD(4,8) [OF assms(1)] assms(2) by blast

lemma attempt_results:
  assumes inv: "ledger_inv ser ctx s" and r: "bt_get (led_records (guarded (led_state (ls_ledger s)))) k = Some r"
  shows "attempt_observe (ls_ledger s) (Some k) e =
      with_record s k (r\<lparr>he_effects := e\<rparr>) (led_bytes (guarded (led_state (ls_ledger s))))"
    "attempt_drop (ls_ledger s) (Some k) =
      with_record s k (r\<lparr>he_phase := Completed\<rparr>) (led_bytes (guarded (led_state (ls_ledger s))))"
    "snd (attempt_begin (ls_ledger s) (Some k)) \<in> {ls_ledger s,
      with_record s k (r\<lparr>he_phase := HandlerRunning, he_effects := UnknownEffect\<rparr>) (led_bytes (guarded (led_state (ls_ledger s))))}"
  using ledger_invD(1) [OF inv] r
  by (auto simp: attempt_observe_def attempt_drop_def attempt_begin_def with_record_def update_record_def
      mutex_recover_def mutex_new_def ledger_with_def mutex_with_def split: if_splits intro!: arg_cong [where f = "\<lambda>m. (ls_ledger s)\<lparr>led_state := m\<rparr>"])

lemma bind_request_check_Ok:
  assumes "bind_request_check ser l s k request_id = Ok (r', b)" "bt_get (led_records s) k = Some r"
  shows "r' = r\<lparr>he_request_id := Some request_id\<rparr>" "he_phase r = Prepared" "he_request_id r = None" "b \<le> led_max_bytes l"
    "b + encoded ser (k, r) = led_bytes s + encoded ser (k, r')"
  using assms
  by (auto simp: bind_request_check_def Let_def reserved_bytes_Ok Option.bind_eq_Some_conv encoded_def split: if_splits)

lemma bind_request_result:
  assumes inv: "ledger_inv ser ctx s" and r: "bt_get (led_records (guarded (led_state (ls_ledger s)))) k = Some r"
  shows "snd (attempt_bind_request ser (ls_ledger s) (Some k) request_id) = ls_ledger s \<or>
    (\<exists>b. snd (attempt_bind_request ser (ls_ledger s) (Some k) request_id) = with_record s k (r\<lparr>he_request_id := Some request_id\<rparr>) b \<and>
      he_phase r = Prepared \<and> b \<le> led_max_bytes (ls_ledger s) \<and>
      b + encoded ser (k, r) = led_bytes (guarded (led_state (ls_ledger s))) + encoded ser (k, r\<lparr>he_request_id := Some request_id\<rparr>))"
proof -
  let ?c = "bind_request_check ser (ls_ledger s) (guarded (led_state (ls_ledger s))) k request_id"
  have res: "snd (attempt_bind_request ser (ls_ledger s) (Some k) request_id) =
      (case ?c of Ok (r', b) \<Rightarrow> with_record s k r' b | _ \<Rightarrow> ls_ledger s)"
    using ledger_invD(1) [OF inv]
    by (auto simp: attempt_bind_request_def ledger_with_commit_state with_record_def healthy_mutex split: outcome.splits)
  show ?thesis
  proof (cases ?c)
    case (Ok x)
    then obtain r' b where "?c = Ok (r', b)" by (cases x) auto
    then show ?thesis using bind_request_check_Ok [OF _ r, of ser "ls_ledger s" request_id r' b] res by auto
  qed (simp_all add: res)
qed

lemma with_record_inv:
  assumes inv: "ledger_inv ser ctx s" and r: "bt_get (led_records (guarded (led_state (ls_ledger s)))) k = Some r"
    and bytes: "b + encoded ser (k, r) = led_bytes (guarded (led_state (ls_ledger s))) + encoded ser (k, r')"
      "b \<le> led_max_bytes (ls_ledger s)"
    and phase: "he_phase r \<noteq> Completed"
  shows "he_phase r' \<noteq> Completed \<Longrightarrow> ledger_inv ser ctx (s\<lparr>ls_ledger := with_record s k r' b\<rparr>)"
    and "he_phase r' = Completed \<Longrightarrow> ledger_inv ser ctx (s\<lparr>ls_ledger := with_record s k r' b, ls_live := ls_live s - {k}\<rparr>)"
proof -
  have live: "k \<in> ls_live s" using ledger_invD(4) [OF inv] r phase by blast
  then have unsealed: "\<not> led_sealed (guarded (led_state (ls_ledger s)))" using ledger_invD(8) [OF inv] by blast
  show "ledger_inv ser ctx (s\<lparr>ls_ledger := with_record s k r' b\<rparr>)" if "he_phase r' \<noteq> Completed"
    using change_record_inv [OF inv r bytes, of "ls_live s"] that live unsealed by (simp add: with_record_def insert_absorb)
  show "ledger_inv ser ctx (s\<lparr>ls_ledger := with_record s k r' b, ls_live := ls_live s - {k}\<rparr>)" if "he_phase r' = Completed"
    using change_record_inv [OF inv r bytes, of "ls_live s - {k}"] that by (simp add: with_record_def)
qed

lemma encoded_simps [simp]:
  "encoded ser (k, r\<lparr>he_phase := p\<rparr>) = encoded ser (k, r)" "encoded ser (k, r\<lparr>he_effects := e\<rparr>) = encoded ser (k, r)"
  "encoded ser (k, r\<lparr>he_phase := p, he_effects := e\<rparr>) = encoded ser (k, r)"
  by (simp_all add: encoded_def)

lemma stage_results:
  assumes inv: "ledger_inv ser ctx s"
  shows "snd (begin_finalization (ls_ledger s)) =
      (if is_ok (fst (begin_finalization (ls_ledger s)))
       then (ls_ledger s)\<lparr>led_state := mutex_new ((guarded (led_state (ls_ledger s)))\<lparr>led_stage := Finalization\<rparr>)\<rparr>
       else ls_ledger s)"
    "snd (ledger_seal (ls_ledger s)) =
      (if ls_live s = {} then (ls_ledger s)\<lparr>led_state := mutex_new ((guarded (led_state (ls_ledger s)))\<lparr>led_sealed := True\<rparr>)\<rparr>
       else ls_ledger s)"
  using ledger_invD(1) [OF inv] any_unfinished_iff [OF inv]
  by (auto simp: begin_finalization_def ledger_seal_def ledger_with_def mutex_with_def mutex_new_def
      healthy_mutex [unfolded mutex_new_def])

lemma stage_change_inv:
  assumes "ledger_inv ser ctx s" "led_records st = led_records (guarded (led_state (ls_ledger s)))"
    "led_sequence st = led_sequence (guarded (led_state (ls_ledger s)))"
    "led_bytes st = led_bytes (guarded (led_state (ls_ledger s)))" "led_sealed st \<longrightarrow> ls_live s = {}"
  shows "ledger_inv ser ctx (s\<lparr>ls_ledger := (ls_ledger s)\<lparr>led_state := mutex_new st\<rparr>\<rparr>)"
  using assms by (auto simp: ledger_inv_def Let_def)

lemma same_ledger_inv: "ledger_inv ser ctx s \<Longrightarrow> l = ls_ledger s \<Longrightarrow> ledger_inv ser ctx (s\<lparr>ls_ledger := l\<rparr>)"
  by simp

lemma ledger_step_inv:
  assumes "ledger_step ser s t" "ledger_inv ser ctx s"
  shows "ledger_inv ser ctx t"
  using assms
proof (induction rule: ledger_step.induct)
  case (step_prepare s stage caller reg name version k l)
  then show ?case
    using prepare_result(1) [OF step_prepare(2,1) refl] prepared_inv [OF step_prepare(2)] by auto
next
  case (step_prepare_failed s stage caller reg name version e l)
  then show ?case using prepare_result(2) [OF step_prepare_failed(2,1)] by simp
next
  case (step_bind_request k s request_id)
  from live_record [OF step_bind_request(2,1)] obtain r
    where r: "bt_get (led_records (guarded (led_state (ls_ledger s)))) k = Some r" "he_phase r \<noteq> Completed" by metis
  from bind_request_result [OF step_bind_request(2) r(1), of request_id] show ?case
    using step_bind_request(2) with_record_inv(1) [OF step_bind_request(2) r(1) _ _ r(2)] r(2) by auto
next
  case (step_begin k s)
  from live_record [OF step_begin(2,1)] obtain r
    where r: "bt_get (led_records (guarded (led_state (ls_ledger s)))) k = Some r" "he_phase r \<noteq> Completed" by metis
  from attempt_results(3) [OF step_begin(2) r(1)] show ?case
    using step_begin(2) with_record_inv(1) [OF step_begin(2) r(1) _ ledger_invD(6) [OF step_begin(2)] r(2)] by auto
next
  case (step_observe k s effects)
  from live_record [OF step_observe(2,1)] obtain r
    where r: "bt_get (led_records (guarded (led_state (ls_ledger s)))) k = Some r" "he_phase r \<noteq> Completed" by metis
  show ?case
    using with_record_inv(1) [OF step_observe(2) r(1) _ ledger_invD(6) [OF step_observe(2)] r(2)] r(2)
    by (simp add: attempt_results(1) [OF step_observe(2) r(1)])
next
  case (step_drop k s)
  from live_record [OF step_drop(2,1)] obtain r
    where r: "bt_get (led_records (guarded (led_state (ls_ledger s)))) k = Some r" "he_phase r \<noteq> Completed" by metis
  show ?case
    using with_record_inv(2) [OF step_drop(2) r(1) _ ledger_invD(6) [OF step_drop(2)] r(2)]
    by (simp add: attempt_results(2) [OF step_drop(2) r(1)])
next
  case (step_begin_finalization s)
  then show ?case
    using stage_change_inv [OF step_begin_finalization] ledger_invD(8) [OF step_begin_finalization]
    by (auto simp: stage_results(1) [OF step_begin_finalization])
next
  case (step_seal s)
  then show ?case
    using stage_change_inv [OF step_seal] by (auto simp: stage_results(2) [OF step_seal])
qed

lemma ledger_reachable_inv:
  assumes "ledger_reachable ser ctx s"
  shows "ledger_inv ser ctx s"
  using assms
proof induction
  case (ledger_start max_bytes runtime_id operation_id max_records persistent caller)
  then show ?case by (simp add: ledger_inv_def ledger_new_def Let_def)
qed (rule ledger_step_inv)

section \<open>Evidence only grows\<close>

abbreviation ls_state :: "ledger_system \<Rightarrow> ledger_state" where
  "ls_state s \<equiv> guarded (led_state (ls_ledger s))"

lemma with_record_simps [simp]:
  "guarded (led_state (with_record s k r b)) = (ls_state s)\<lparr>led_records := bt_insert k r (led_records (ls_state s)), led_bytes := b\<rparr>"
  by (simp add: with_record_def)

definition changes_live_record :: "ledger_system \<Rightarrow> ledger_system \<Rightarrow> bool" where
  "changes_live_record s t \<longleftrightarrow>
     (\<exists>k \<in> ls_live s. \<exists>r. led_records (ls_state t) = bt_insert k r (led_records (ls_state s))) \<and>
     led_sequence (ls_state t) = led_sequence (ls_state s) \<and> ls_live t \<subseteq> ls_live s"

definition keeps_records :: "ledger_system \<Rightarrow> ledger_system \<Rightarrow> bool" where
  "keeps_records s t \<longleftrightarrow>
     led_records (ls_state t) = led_records (ls_state s) \<and>
     led_sequence (ls_state t) = led_sequence (ls_state s) \<and> ls_live t = ls_live s"

definition appends_record :: "ledger_system \<Rightarrow> ledger_system \<Rightarrow> bool" where
  "appends_record s t \<longleftrightarrow>
     \<not> led_sealed (ls_state s) \<and> led_sequence (ls_state t) = led_sequence (ls_state s) + 1 \<and>
     (\<exists>r. led_records (ls_state t) = bt_insert (led_sequence (ls_state s) + 1) r (led_records (ls_state s))) \<and>
     ls_live t = insert (led_sequence (ls_state s) + 1) (ls_live s)"

lemmas step_kinds = changes_live_record_def keeps_records_def appends_record_def

lemma with_record_kind [simp]:
  "k \<in> ls_live s \<Longrightarrow> changes_live_record s (s\<lparr>ls_ledger := with_record s k r b\<rparr>)"
  "k \<in> ls_live s \<Longrightarrow> changes_live_record s (s\<lparr>ls_ledger := with_record s k r b, ls_live := ls_live s - {k}\<rparr>)"
  "keeps_records s s"
  by (auto simp: step_kinds)

lemma ledger_step_kind:
  assumes "ledger_step ser s t" "ledger_inv ser ctx s"
  shows "(keeps_records s t \<or> changes_live_record s t \<or> appends_record s t) \<and>
    (led_sealed (ls_state s) \<longrightarrow> led_sealed (ls_state t)) \<and>
    (led_stage (ls_state s) = Finalization \<longrightarrow> led_stage (ls_state t) = Finalization)"
  using assms
proof (induction rule: ledger_step.induct)
  case (step_prepare s stage caller reg name version k l)
  obtain r tot where c: "prepare_check ser (ls_ledger s) (ls_state s) stage caller reg name version = Ok (k, r, tot)"
    and l: "l = (ls_ledger s)\<lparr>led_state := mutex_new ((ls_state s)\<lparr>led_sequence := k, led_bytes := tot,
        led_records := bt_insert k r (led_records (ls_state s))\<rparr>)\<rparr>"
    using prepare_result(1) [OF step_prepare(2,1) refl] by blast
  show ?case using prepare_check_Ok(1,4) [OF c] by (auto simp: step_kinds l)
next
  case (step_prepare_failed s stage caller reg name version e l)
  then show ?case using prepare_result(2) [OF step_prepare_failed(2,1)] by (simp add: step_kinds)
next
  case (step_bind_request k s request_id)
  from live_record [OF step_bind_request(2,1)] obtain r where r: "bt_get (led_records (ls_state s)) k = Some r" by metis
  from bind_request_result [OF step_bind_request(2) r, of request_id] show ?case
    using step_bind_request(1) by auto
next
  case (step_begin k s)
  from live_record [OF step_begin(2,1)] obtain r where r: "bt_get (led_records (ls_state s)) k = Some r" by metis
  from attempt_results(3) [OF step_begin(2) r] show ?case
    using step_begin(1) by auto
next
  case (step_observe k s effects)
  from live_record [OF step_observe(2,1)] obtain r where r: "bt_get (led_records (ls_state s)) k = Some r" by metis
  then show ?case using step_observe(1) by (simp add: attempt_results(1) [OF step_observe(2) r])
next
  case (step_drop k s)
  from live_record [OF step_drop(2,1)] obtain r where r: "bt_get (led_records (ls_state s)) k = Some r" by metis
  then show ?case using step_drop(1) by (simp add: attempt_results(2) [OF step_drop(2) r])
next
  case (step_begin_finalization s)
  then show ?case by (auto simp: step_kinds stage_results(1) [OF step_begin_finalization])
next
  case (step_seal s)
  then show ?case by (auto simp: step_kinds stage_results(2) [OF step_seal])
qed

lemma bt_insert_after:
  "\<forall>e \<in> set xs. fst e < k \<Longrightarrow> bt_insert k v (xs @ ys) = xs @ bt_insert k v ys"
  by (induction xs) auto

definition frozen :: "(u64, host_effect_record) btree \<Rightarrow> ledger_system \<Rightarrow> bool" where
  "frozen old s \<longleftrightarrow> (\<exists>new. led_records (ls_state s) = old @ new) \<and>
     (\<forall>k \<in> ls_live s. \<forall>e \<in> set old. fst e < k)"

lemma frozen_step:
  assumes step: "ledger_step ser s t" and inv: "ledger_inv ser ctx s" and old: "frozen old s"
  shows "frozen old t"
proof -
  from old obtain new where new: "led_records (ls_state s) = old @ new" by (auto simp: frozen_def)
  have below: "fst e < led_sequence (ls_state s) + 1" if "e \<in> set old" for e
    using ledger_invD(3) [OF inv, of "fst e" "snd e"] bt.get_iff [OF ledger_invD(2) [OF inv], of "fst e" "snd e"] that new by simp
  from ledger_step_kind [OF step inv] consider "keeps_records s t" | "changes_live_record s t" | "appends_record s t"
    by blast
  then show ?thesis
  proof cases
    case 2
    then obtain k r where "k \<in> ls_live s" "led_records (ls_state t) = bt_insert k r (led_records (ls_state s))"
      "ls_live t \<subseteq> ls_live s"
      by (auto simp: step_kinds)
    then show ?thesis using old bt_insert_after [of old k] by (auto simp: frozen_def new)
  next
    case 3
    then show ?thesis using old new below bt_insert_after [of old "led_sequence (ls_state s) + 1"]
      by (auto simp: frozen_def step_kinds)
  qed (use old new in \<open>auto simp: frozen_def step_kinds\<close>)
qed

lemma frozen_steps:
  assumes "(ledger_step ser)\<^sup>*\<^sup>* s t" "ledger_inv ser ctx s" "frozen old s"
  shows "frozen old t \<and> ledger_inv ser ctx t"
  using assms by (induction rule: rtranclp_induct) (auto intro: frozen_step ledger_step_inv)

lemma completed_records:
  assumes "ledger_inv ser ctx s" "ls_live s = {}" "r \<in> set (bt_values (led_records (ls_state s)))"
  shows "he_phase r = Completed"
  using ledger_invD(4) [OF assms(1)] bt_values_iff [OF ledger_invD(2) [OF assms(1)]] assms(2,3) by blast

lemma begin_finalization_Ok:
  assumes "ledger_inv ser ctx s" "begin_finalization (ls_ledger s) = (Ok n, l)"
  shows "n = length (led_records (ls_state s))" "ls_live s = {}"
    "led_records (guarded (led_state l)) = led_records (ls_state s)"
  using assms(2) any_unfinished_iff [OF assms(1)]
  by (auto simp: begin_finalization_def ledger_with_commit_Ok split: if_splits)

section \<open>A run of the journal\<close>

text \<open>A serializer that writes the fixed part of a record and the names of its phase and effect.\<close>

definition demo_ser :: "host_effect_record \<Rightarrow> serialization" where
  "demo_ser r = \<lparr>ser_chunks = [100,
     case he_phase r of Prepared \<Rightarrow> 8 | HandlerRunning \<Rightarrow> 7 | Completed \<Rightarrow> 9,
     case he_effects r of NotStarted \<Rightarrow> 11 | NotApplicable \<Rightarrow> 14 | Committed \<Rightarrow> 9 | RolledBack \<Rightarrow> 11 | UnknownEffect \<Rightarrow> 7],
     ser_failed = False\<rparr>"

definition demo_caller :: capability_caller where
  "demo_caller = \<lparr>cc_runtime_id = ''r'', cc_plugin_id = ''p'', cc_package_generation = ''g'',
     cc_execution_revision = ''e'', cc_security_partition = ''s'', cc_operation_id = ''r:op:1'',
     cc_request_id = None, cc_session_id = None, cc_workspace_root = None\<rparr>"

definition demo_ledger :: effect_ledger where
  "demo_ledger = ledger_new ''r'' ''r:op:1'' 4 1000 False None 10"

definition demo_prepared :: effect_ledger where
  "demo_prepared = snd (ledger_prepare demo_ser demo_ledger Business demo_caller ''cap'' ''n'' ''1.0.0'')"

definition demo_finished :: effect_ledger where
  "demo_finished = attempt_drop (attempt_observe (snd (attempt_begin demo_prepared (Some 1))) (Some 1) Committed) (Some 1)"

lemma demo_ser_worst: "ser_length (demo_ser r) \<le> ser_length (demo_ser (worst_record r))"
  by (auto simp: demo_ser_def worst_record_def ser_length_def split: host_effect_phase.splits effect_state.splits)

lemma demo_prepare:
  "ledger_prepare demo_ser demo_ledger Business demo_caller ''cap'' ''n'' ''1.0.0'' = (Ok 1, demo_prepared)"
  by (simp add: demo_prepared_def demo_ledger_def ledger_new_def ledger_prepare_def demo_caller_def ledger_with_def
      mutex_with_def prepare_check_def checked_add_def u64_max_def Let_def reserved_bytes_def json_size_eq ser_length_def
      worst_record_def demo_ser_def)

lemma demo_ledger_reachable:
  "ledger_reachable demo_ser 10 \<lparr>ls_ledger = demo_prepared, ls_live = {1}\<rparr>"
  "ledger_reachable demo_ser 10 \<lparr>ls_ledger = demo_finished, ls_live = {}\<rparr>"
proof -
  have s0: "ledger_reachable demo_ser 10 \<lparr>ls_ledger = demo_ledger, ls_live = {}\<rparr>"
    unfolding demo_ledger_def by (rule ledger_start) simp
  show s1: "ledger_reachable demo_ser 10 \<lparr>ls_ledger = demo_prepared, ls_live = {1}\<rparr>"
    using ledger_next [OF s0 step_prepare] demo_prepare by simp
  note s2 = ledger_next [OF s1 step_begin [where k = 1], simplified]
  note s3 = ledger_next [OF s2 step_observe [where k = 1 and effects = Committed], simplified]
  show "ledger_reachable demo_ser 10 \<lparr>ls_ledger = demo_finished, ls_live = {}\<rparr>"
    using ledger_next [OF s3 step_drop [where k = 1], simplified] by (simp add: demo_finished_def)
qed

lemma demo_finished_state:
  "led_records (guarded (led_state demo_finished)) =
     [(1, \<lparr>he_caller = demo_caller, he_effect_id = ''r:op:1:effect:1'', he_registration_id = ''cap'', he_capability_name = ''n'',
       he_capability_version = ''1.0.0'', he_request_id = None, he_phase = Completed, he_effects = Committed\<rparr>)]"
  "led_sealed (guarded (led_state demo_finished)) = False" "led_stage (guarded (led_state demo_finished)) = Business"
  "led_max_records demo_finished = 4" "led_max_bytes demo_finished = 1000" "poisoned (led_state demo_finished) = False"
  by (simp_all add: demo_finished_def demo_prepared_def demo_ledger_def ledger_new_def ledger_prepare_def demo_caller_def
      ledger_with_def mutex_with_def prepare_check_def checked_add_def u64_max_def Let_def reserved_bytes_def json_size_eq
      ser_length_def worst_record_def demo_ser_def attempt_begin_def attempt_observe_def attempt_drop_def update_record_def
      effect_id_of_def show_nat.simps digit_char_def char_of_def bit_Suc_0_iff mutex_recover_def)

section \<open>Properties\<close>

text \<open>
  Property C37. Merging effects is taking a maximum: the merged state of an operation is the greatest of
  its base state and the observations of its host effects in the order not started, not applicable,
  rolled back, committed, unknown, where an effect whose handler has not completed counts as unknown.
\<close>

theorem merge_effects_is_maximum:
  "merge_effects base rs =
     Max (set (base # map (\<lambda>r. if he_phase r = Completed then he_effects r else UnknownEffect) rs))"
  using merge_effects_eq_Max [of base rs] by (simp add: observed_effect_def [abs_def])

text \<open>
  The journal of an operation stays inside both budgets in every reachable state: at most
  the configured number of records, and the actual encodings of all records, whatever phase and effect
  they have reached, fit together with the operation context into the configured bytes. The hypothesis
  is that the completed, not-applicable encoding the code reserves is the longest one of a record.
\<close>

theorem ledger_within_budget:
  assumes "ledger_reachable ser context_bytes s"
    and "\<And>r. ser_length (ser r) \<le> ser_length (ser (worst_record r))"
  shows "length (led_records (guarded (led_state (ls_ledger s)))) \<le> led_max_records (ls_ledger s) \<and>
    context_bytes + sum_list (map (\<lambda>r. ser_length (ser r)) (bt_values (led_records (guarded (led_state (ls_ledger s)))))) \<le>
      led_max_bytes (ls_ledger s)"
proof -
  note d = ledger_invD [OF ledger_reachable_inv [OF assms(1)]]
  have "sum_list (map (\<lambda>r. ser_length (ser r)) (bt_values (led_records (ls_state s)))) \<le>
      sum_list (map (encoded ser) (led_records (ls_state s)))"
    unfolding sum_bt_values by (rule sum_list_map_le_mono) (simp add: encoded_def assms(2))
  then show ?thesis using d(5,6,7) by linarith
qed

theorem ledger_within_budget_witness:
  "10 + sum_list (map (\<lambda>r. ser_length (demo_ser r)) (bt_values (led_records (guarded (led_state demo_finished))))) \<le> 1000 \<and>
   bt_values (led_records (guarded (led_state demo_finished))) \<noteq> []"
  using ledger_within_budget [OF demo_ledger_reachable(2) demo_ser_worst] by (simp add: demo_finished_state bt_values_def)

text \<open>
  Property C20. Sealed evidence is immutable: once the journal is sealed, no sequence of operations by the
  holders of attempts or by the operation's owner changes a record, admits another one or unseals it,
  and every record in it is completed.
\<close>

theorem sealed_evidence_immutable:
  assumes "ledger_reachable ser context_bytes s" "led_sealed (guarded (led_state (ls_ledger s)))"
    and "(ledger_step ser)\<^sup>*\<^sup>* s t"
  shows "led_records (guarded (led_state (ls_ledger t))) = led_records (guarded (led_state (ls_ledger s))) \<and>
    led_sealed (guarded (led_state (ls_ledger t))) \<and>
    (\<forall>r \<in> set (bt_values (led_records (guarded (led_state (ls_ledger t))))). he_phase r = Completed)"
proof -
  note inv = ledger_reachable_inv [OF assms(1)]
  have "ledger_inv ser context_bytes t \<and> led_sealed (ls_state t) \<and> led_records (ls_state t) = led_records (ls_state s)"
    using assms(3)
  proof (induction rule: rtranclp_induct)
    case base
    then show ?case using inv assms(2) by simp
  next
    case (step t u)
    then have "ledger_inv ser context_bytes u" by (blast intro: ledger_step_inv)
    moreover have "ls_live t = {}" using step.IH ledger_invD(8) by blast
    ultimately show ?case
      using ledger_step_kind [OF step.hyps(2), of context_bytes] step.IH by (auto simp: step_kinds)
  qed
  then show ?thesis using completed_records ledger_invD(8) by blast
qed

theorem sealed_evidence_immutable_witness:
  "led_records (guarded (led_state (snd (ledger_seal (snd (ledger_seal demo_finished)))))) =
   led_records (guarded (led_state demo_finished))"
proof -
  let ?s = "\<lparr>ls_ledger = snd (ledger_seal demo_finished), ls_live = {}\<rparr>"
  have "ledger_reachable demo_ser 10 ?s"
    using ledger_next [OF demo_ledger_reachable(2) step_seal] by simp
  moreover have "led_sealed (guarded (led_state (ls_ledger ?s)))"
    "led_records (guarded (led_state (ls_ledger ?s))) = led_records (guarded (led_state demo_finished))"
    by (simp_all add: ledger_seal_def ledger_with_def mutex_with_def any_unfinished_def demo_finished_state bt_values_def)
  moreover have "(ledger_step demo_ser)\<^sup>*\<^sup>* ?s (?s\<lparr>ls_ledger := snd (ledger_seal (snd (ledger_seal demo_finished)))\<rparr>)"
    using step_seal [of demo_ser ?s] by (simp add: r_into_rtranclp)
  ultimately show ?thesis using sealed_evidence_immutable by fastforce
qed

text \<open>
  Business evidence is frozen by finalization: when finalization begins and returns the count
  of business effects, every later snapshot of the journal starts with exactly those records, unchanged
  and all completed, however the finalization stage continues.
\<close>

theorem business_evidence_frozen:
  assumes "ledger_reachable ser context_bytes s" "begin_finalization (ls_ledger s) = (Ok n, l)"
    and "(ledger_step ser)\<^sup>*\<^sup>* (s\<lparr>ls_ledger := l\<rparr>) t" "ledger_snapshot (ls_ledger t) = Ok records"
  shows "take n records = bt_values (led_records (guarded (led_state (ls_ledger s)))) \<and>
    (\<forall>r \<in> set (take n records). he_phase r = Completed)"
proof -
  note inv = ledger_reachable_inv [OF assms(1)]
  note f = begin_finalization_Ok [OF inv assms(2)]
  let ?s = "s\<lparr>ls_ledger := l\<rparr>"
  have inv': "ledger_inv ser context_bytes ?s"
    using ledger_step_inv [OF step_begin_finalization inv] assms(2) by simp
  have "frozen (led_records (ls_state s)) ?s" using f by (auto simp: frozen_def)
  then have "frozen (led_records (ls_state s)) t" using frozen_steps [OF assms(3) inv'] by blast
  then have "take n records = bt_values (led_records (ls_state s))"
    using assms(4) f(1) by (auto simp: frozen_def ledger_snapshot_def bt_values_def split: if_splits)
  then show ?thesis using completed_records [OF inv f(2)] by auto
qed

theorem business_evidence_frozen_witness:
  "map he_effect_id (take 1 (bt_values (led_records (guarded (led_state (snd (ledger_seal (snd (begin_finalization demo_finished))))))))) =
   [''r:op:1:effect:1'']"
proof -
  let ?s = "\<lparr>ls_ledger = demo_finished, ls_live = {}\<rparr>"
  obtain l where l: "begin_finalization demo_finished = (Ok 1, l)" "poisoned (led_state (snd (ledger_seal l))) = False"
    by (simp add: begin_finalization_def ledger_seal_def ledger_with_def mutex_with_def any_unfinished_def demo_finished_state bt_values_def)
  have "(ledger_step demo_ser)\<^sup>*\<^sup>* (?s\<lparr>ls_ledger := l\<rparr>) (?s\<lparr>ls_ledger := snd (ledger_seal l)\<rparr>)"
    using step_seal [of demo_ser "?s\<lparr>ls_ledger := l\<rparr>"] by (simp add: r_into_rtranclp)
  then show ?thesis
    using business_evidence_frozen [OF demo_ledger_reachable(2), of 1 l] l
    by (fastforce simp: ledger_snapshot_def demo_finished_state bt_values_def)
qed

text \<open>
  Completion waits for every handler: in a reachable state sealing succeeds exactly when no
  attempt is alive, and while one is alive the merged effects of the operation are unknown whatever
  its base state.
\<close>

theorem seal_waits_for_handlers:
  assumes "ledger_reachable ser context_bytes s"
  shows "(is_ok (fst (ledger_seal (ls_ledger s))) \<longleftrightarrow> ls_live s = {}) \<and>
    (ls_live s \<noteq> {} \<longrightarrow>
      merge_effects base (bt_values (led_records (guarded (led_state (ls_ledger s))))) = UnknownEffect)"
proof -
  note inv = ledger_reachable_inv [OF assms]
  have "is_ok (fst (ledger_seal (ls_ledger s))) \<longleftrightarrow> ls_live s = {}"
    using ledger_invD(1) [OF inv] any_unfinished_iff [OF inv]
    by (auto simp: ledger_seal_def ledger_with_def mutex_with_def)
  then show ?thesis
    using any_unfinished_iff [OF inv] by (auto simp: any_unfinished_def merge_effects_def list_ex_iff)
qed

end
