(* ===== verification/Call_Control.thy ===== *)
theory Call_Control
  imports Effect_Ledger_Props
begin

text \<open>
  The control of one call (\<^verbatim>\<open>runtime/embedded/control.rs\<close>): its deadline, its cancellation flag, its
  one-time binding to the effect journal of an operation, and the host-wait counters; and the budget
  of one capability call derived from it (\<^verbatim>\<open>CapabilityBudget\<close> in \<^verbatim>\<open>capabilities/types.rs\<close>). A control
  and an operation share the journal through an \<^verbatim>\<open>Arc\<close>: here both hold its address in a store.
\<close>

section \<open>State\<close>

type_synonym ledger_ref = nat
type_synonym ledger_store = "ledger_ref \<Rightarrow> effect_ledger"

datatype control_evidence = Fresh | Untracked | Registered ledger_ref effect_admission_stage

record call_control =
  ctl_host_wait_enabled :: bool
  ctl_host_wait_ns :: u64
  ctl_host_wait_calls :: u64
  ctl_effects :: "control_evidence mutex"
  ctl_deadline :: instant
  ctl_cancelled :: bool

record host_wait_snapshot =
  hw_elapsed_ns :: u64
  hw_calls :: u64

definition evidence_poisoned :: embedded_error where
  "evidence_poisoned = error_new Internal ''operation evidence binding is poisoned''"

section \<open>Creation, cancellation and deadline\<close>

definition control_new :: "instant \<Rightarrow> duration \<Rightarrow> call_control embedded_result" where
  "control_new now timeout =
     (if timeout = 0 then Err (error_invalid ''execution timeout must be positive'')
      else
        and_then (ok_or (error_invalid ''execution deadline cannot be represented'') (instant_checked_add now timeout)) (\<lambda>deadline.
          Ok \<lparr>ctl_host_wait_enabled = False, ctl_host_wait_ns = 0, ctl_host_wait_calls = 0,
              ctl_effects = mutex_new Fresh, ctl_deadline = deadline, ctl_cancelled = False\<rparr>))"

definition control_cancel :: "call_control \<Rightarrow> bool \<times> call_control" where
  "control_cancel c = (\<not> ctl_cancelled c, c\<lparr>ctl_cancelled := True\<rparr>)"

definition control_check :: "instant \<Rightarrow> call_control \<Rightarrow> unit embedded_result" where
  "control_check now c =
     (if ctl_cancelled c then Err (error_new Cancelled ''operation cancellation requested'')
      else if now \<ge> ctl_deadline c then Err (error_new DeadlineExceeded ''operation deadline exceeded'')
      else Ok ())"

definition control_remaining :: "instant \<Rightarrow> instant \<Rightarrow> call_control \<Rightarrow> duration embedded_result" where
  "control_remaining now later c = and_then (control_check now c) (\<lambda>_. Ok (saturating_sub (ctl_deadline c) later))"

section \<open>Diagnostic host waits\<close>

definition host_wait_since :: "host_wait_snapshot \<Rightarrow> host_wait_snapshot \<Rightarrow> host_wait_snapshot" where
  "host_wait_since self earlier =
     \<lparr>hw_elapsed_ns = saturating_sub (hw_elapsed_ns self) (hw_elapsed_ns earlier),
      hw_calls = saturating_sub (hw_calls self) (hw_calls earlier)\<rparr>"

definition enable_diagnostic_host_wait :: "call_control \<Rightarrow> bool \<Rightarrow> call_control" where
  "enable_diagnostic_host_wait c enabled = c\<lparr>ctl_host_wait_enabled := enabled\<rparr>"

text \<open>A measurement is the instant it started; dropping it at \<open>now\<close> records the wait.\<close>

definition measure_diagnostic_host_wait :: "instant \<Rightarrow> call_control \<Rightarrow> instant option" where
  "measure_diagnostic_host_wait now c = (if ctl_host_wait_enabled c then Some now else None)"

definition drop_host_wait_measurement :: "instant \<Rightarrow> instant \<Rightarrow> call_control \<Rightarrow> call_control" where
  "drop_host_wait_measurement now started c =
     (let elapsed = min (saturating_sub now started) u64_max in
      c\<lparr>ctl_host_wait_ns := saturating_add (ctl_host_wait_ns c) elapsed,
        ctl_host_wait_calls := saturating_add (ctl_host_wait_calls c) 1\<rparr>)"

definition diagnostic_host_wait :: "call_control \<Rightarrow> host_wait_snapshot" where
  "diagnostic_host_wait c = \<lparr>hw_elapsed_ns = ctl_host_wait_ns c, hw_calls = ctl_host_wait_calls c\<rparr>"

section \<open>Binding to an effect journal\<close>

definition control_read :: "call_control \<Rightarrow> (control_evidence \<Rightarrow> 'a) \<Rightarrow> 'a embedded_result" where
  "control_read c f = (if poisoned (ctl_effects c) then Err evidence_poisoned else Ok (f (guarded (ctl_effects c))))"

definition control_is_finalization :: "call_control \<Rightarrow> bool embedded_result" where
  "control_is_finalization c =
     control_read c (\<lambda>e. case e of Registered _ Finalization \<Rightarrow> True | _ \<Rightarrow> False)"

definition control_attach_effects ::
  "call_control \<Rightarrow> ledger_ref \<Rightarrow> effect_admission_stage \<Rightarrow> unit embedded_result \<times> call_control" where
  "control_attach_effects c ledger stage =
     (case mutex_with evidence_poisoned (ctl_effects c) (\<lambda>e. commit
        (if e \<noteq> Fresh then Err (error_new Busy ''operation control is already registered or used'') else Ok ()) e
        (\<lambda>_. ((), Registered ledger stage))) of
      (r, m) \<Rightarrow> (r, c\<lparr>ctl_effects := m\<rparr>))"

definition control_operation_id :: "ledger_store \<Rightarrow> call_control \<Rightarrow> string option embedded_result" where
  "control_operation_id store c =
     control_read c (\<lambda>e. case e of Registered l _ \<Rightarrow> Some (led_operation_id (store l)) | _ \<Rightarrow> None)"

definition control_request_id :: "ledger_store \<Rightarrow> call_control \<Rightarrow> string option embedded_result" where
  "control_request_id store c =
     control_read c (\<lambda>e. case e of Registered l _ \<Rightarrow> ledger_request_id (store l) | _ \<Rightarrow> None)"

definition control_host_effects ::
  "ledger_store \<Rightarrow> call_control \<Rightarrow> host_effect_record list option embedded_result" where
  "control_host_effects store c =
     and_then (control_read c (\<lambda>e. case e of Registered l _ \<Rightarrow> Some l | _ \<Rightarrow> None)) (\<lambda>ledger.
       case ledger of None \<Rightarrow> Ok None | Some l \<Rightarrow> and_then (ledger_snapshot (store l)) (\<lambda>rs. Ok (Some rs)))"

text \<open>
  An attempt is the journal's address and its sequence number, or \<open>None\<close> when untracked. A first use
  before registration consumes the binding.
\<close>

definition control_reserve_effect ::
  "(host_effect_record \<Rightarrow> serialization) \<Rightarrow> ledger_store \<Rightarrow> call_control \<Rightarrow> capability_caller \<Rightarrow>
   string \<Rightarrow> string \<Rightarrow> string \<Rightarrow> (ledger_ref \<times> u64) option embedded_result \<times> ledger_store \<times> call_control" where
  "control_reserve_effect ser store c caller registration_id name version =
     (if poisoned (ctl_effects c) then (Err evidence_poisoned, store, c)
      else case guarded (ctl_effects c) of
        Registered l stage \<Rightarrow>
          (case ledger_prepare ser (store l) stage caller registration_id name version of
             (r, l') \<Rightarrow> (and_then r (\<lambda>k. Ok (Some (l, k))), store(l := l'), c))
      | _ \<Rightarrow> (Ok None, store, c\<lparr>ctl_effects := mutex_new Untracked\<rparr>))"

section \<open>Budget of one capability call\<close>

record capability_budget =
  bud_control :: call_control
  bud_deadline :: instant

definition budget_is_finalization :: "capability_budget \<Rightarrow> bool embedded_result" where
  "budget_is_finalization b = control_is_finalization (bud_control b)"

definition budget_new :: "instant \<Rightarrow> instant \<Rightarrow> call_control \<Rightarrow> u64 \<Rightarrow> capability_budget embedded_result" where
  "budget_new now later c max_call_ms =
     and_then (control_check now c) (\<lambda>_.
     and_then (ok_or (error_invalid ''capability deadline cannot be represented'')
       (instant_checked_add later (max_call_ms * nanos_per_milli))) (\<lambda>deadline.
     Ok \<lparr>bud_control = c, bud_deadline = min deadline (ctl_deadline c)\<rparr>))"

definition budget_check :: "instant \<Rightarrow> instant \<Rightarrow> capability_budget \<Rightarrow> unit embedded_result" where
  "budget_check now later b =
     and_then (control_check now (bud_control b)) (\<lambda>_.
       if later \<ge> bud_deadline b then Err (error_new DeadlineExceeded ''capability deadline exceeded'') else Ok ())"

definition budget_remaining_ms :: "instant \<Rightarrow> capability_budget \<Rightarrow> u64" where
  "budget_remaining_ms now b =
     (let ms = saturating_sub (bud_deadline b) now div nanos_per_milli in if ms \<le> u64_max then ms else u64_max)"

section \<open>Lemmas\<close>

lemma control_check_Ok_iff: "control_check now c = Ok () \<longleftrightarrow> \<not> ctl_cancelled c \<and> now < ctl_deadline c"
  by (auto simp: control_check_def)

lemma attach_result:
  "fst (control_attach_effects c l stage) = Ok () \<longleftrightarrow> \<not> poisoned (ctl_effects c) \<and> guarded (ctl_effects c) = Fresh"
  "guarded (ctl_effects (snd (control_attach_effects c l stage))) =
     (if \<not> poisoned (ctl_effects c) \<and> guarded (ctl_effects c) = Fresh then Registered l stage else guarded (ctl_effects c))"
  "poisoned (ctl_effects (snd (control_attach_effects c l stage))) = poisoned (ctl_effects c)"
  "ctl_deadline (snd (control_attach_effects c l stage)) = ctl_deadline c"
  "ctl_cancelled (snd (control_attach_effects c l stage)) = ctl_cancelled c"
  by (auto simp: control_attach_effects_def mutex_with_def)

section \<open>The control as a state machine\<close>

text \<open>What any holder of the control may do to it.\<close>

inductive control_step :: "(host_effect_record \<Rightarrow> serialization) \<Rightarrow> ledger_store \<times> call_control \<Rightarrow> ledger_store \<times> call_control \<Rightarrow> bool"
  for ser where
  ctl_cancel: "control_step ser (store, c) (store, snd (control_cancel c))"
| ctl_attach: "control_step ser (store, c) (store, snd (control_attach_effects c l stage))"
| ctl_reserve: "control_step ser (store, c) (snd (control_reserve_effect ser store c caller reg name version))"
| ctl_measure: "control_step ser (store, c) (store, drop_host_wait_measurement now started c)"
| ctl_enable: "control_step ser (store, c) (store, enable_diagnostic_host_wait c enabled)"
| ctl_ledger: "control_step ser (store, c) (store', c)"

lemma control_step_frame:
  assumes "control_step ser (store, c) (store', c')"
  shows "ctl_deadline c' = ctl_deadline c" "ctl_cancelled c \<Longrightarrow> ctl_cancelled c'"
    "poisoned (ctl_effects c') = poisoned (ctl_effects c)"
    "guarded (ctl_effects c) \<noteq> Fresh \<Longrightarrow> guarded (ctl_effects c') = guarded (ctl_effects c)"
  using assms
  by (induction "(store, c)" "(store', c')" rule: control_step.induct)
    (auto simp: control_cancel_def attach_result control_reserve_effect_def drop_host_wait_measurement_def
      enable_diagnostic_host_wait_def Let_def split: control_evidence.splits prod.splits if_splits)

lemma control_steps_frame:
  assumes "(control_step ser)\<^sup>*\<^sup>* (store, c) (store', c')"
  shows "ctl_deadline c' = ctl_deadline c \<and> (ctl_cancelled c \<longrightarrow> ctl_cancelled c') \<and>
    poisoned (ctl_effects c') = poisoned (ctl_effects c) \<and>
    (guarded (ctl_effects c) \<noteq> Fresh \<longrightarrow> guarded (ctl_effects c') = guarded (ctl_effects c))"
  using assms
proof (induction "(store', c')" arbitrary: store' c' rule: rtranclp_induct)
  case base
  then show ?case by simp
next
  case (step y)
  obtain s d where y: "y = (s, d)" by (cases y)
  show ?case using step(3) [OF y] control_step_frame [OF step(2) [unfolded y]] by auto
qed

section \<open>Properties\<close>

text \<open>
  The journal binding of a control is decided once: after a control has reserved an effect or
  has been attached to an operation, no further use by any holder changes its binding and every later
  attachment fails. So an operation never adopts a control whose earlier effects escaped its journal,
  and a control never serves two operations.
\<close>

theorem control_binding_is_final:
  assumes "(control_step ser)\<^sup>*\<^sup>* (store, c) (store', c')" "guarded (ctl_effects c) \<noteq> Fresh"
  shows "guarded (ctl_effects c') = guarded (ctl_effects c) \<and>
    \<not> is_ok (fst (control_attach_effects c' l stage)) \<and>
    guarded (ctl_effects (snd (control_attach_effects c' l stage))) = guarded (ctl_effects c)"
  using control_steps_frame [OF assms(1)] assms(2) attach_result(1) [of c' l stage]
  by (auto simp: attach_result is_ok_iff)

theorem control_binding_is_final_witness:
  "\<exists>c store. control_new 5 10 = Ok c \<and>
    \<not> is_ok (fst (control_attach_effects (snd (snd (control_reserve_effect demo_ser store c demo_caller ''cap'' ''n'' ''1.0.0''))) 0 Business))"
proof -
  obtain c where c: "control_new 5 10 = Ok c" "guarded (ctl_effects c) = Fresh" "poisoned (ctl_effects c) = False"
    by (simp add: control_new_def instant_max_def nanos_per_sec_def)
  let ?u = "\<lambda>store. control_reserve_effect demo_ser store c demo_caller ''cap'' ''n'' ''1.0.0''"
  have u: "guarded (ctl_effects (snd (snd (?u store)))) \<noteq> Fresh" for store
    using c by (simp add: control_reserve_effect_def)
  show ?thesis
    using c(1) control_binding_is_final [of demo_ser _ _ _ _ 0 Business, OF rtranclp.rtrancl_refl u] by blast
qed

text \<open>
  A capability budget never outlives the call: a budget created for a call ends no later than
  the call's own deadline and no later than its declared maximum after its creation; while its check
  succeeds the call is neither cancelled nor past either deadline, and once the call is cancelled the
  check fails with the cancellation, whatever any holder does afterwards.
\<close>

theorem budget_within_call:
  assumes "budget_new t0 t1 c ms = Ok b"
  shows "bud_deadline b \<le> ctl_deadline c \<and> bud_deadline b \<le> t1 + ms * nanos_per_milli \<and>
    budget_remaining_ms t1 b \<le> ms \<and>
    (budget_check now later b = Ok () \<longrightarrow> \<not> ctl_cancelled c \<and> now < ctl_deadline c \<and> later < bud_deadline b) \<and>
    ((control_step ser)\<^sup>*\<^sup>* (store, snd (control_cancel c)) (store', c') \<longrightarrow>
      budget_check now later (b\<lparr>bud_control := c'\<rparr>) = Err (error_new Cancelled ''operation cancellation requested''))"
proof -
  have b: "bud_control b = c" "bud_deadline b = min (t1 + ms * nanos_per_milli) (ctl_deadline c)"
    using assms by (auto simp: budget_new_def)
  have "saturating_sub (bud_deadline b) t1 \<le> ms * nanos_per_milli"
    unfolding b saturating_sub_def by auto
  then have "saturating_sub (bud_deadline b) t1 div nanos_per_milli \<le> ms"
    by (metis div_le_mono div_mult_self_is_m nanos_per_milli_def zero_less_numeral)
  then have "budget_remaining_ms t1 b \<le> ms" by (simp add: budget_remaining_ms_def Let_def)
  moreover have "budget_check now later (b\<lparr>bud_control := c'\<rparr>) = Err (error_new Cancelled ''operation cancellation requested'')"
    if "(control_step ser)\<^sup>*\<^sup>* (store, snd (control_cancel c)) (store', c')"
    using control_steps_frame [OF that] by (simp add: control_cancel_def budget_check_def control_check_def)
  ultimately show ?thesis
    using b by (auto simp: budget_check_def control_check_Ok_iff split: if_splits)
qed

end
