(* ===== verification/Operation_Data.thy ===== *)
theory Operation_Data
  imports Call_Control
begin

text \<open>
  The data of operations (\<^verbatim>\<open>runtime/embedded/operations.rs\<close>, \<^verbatim>\<open>operations/context.rs\<close> and the value
  part of \<^verbatim>\<open>operations/finalization.rs\<close>): phases and their legal transitions, the module context, bounded
  outcomes, the finalization evidence of a snapshot and its consistency checks.
\<close>

section \<open>Phases\<close>

datatype operation_phase =
  OpQueued | OpInitializing | OpRunning | OpWaitingForHost | OpCleaning | OpSucceeded | OpFailed | OpCancelled

definition is_terminal :: "operation_phase \<Rightarrow> bool" where
  "is_terminal p \<longleftrightarrow> p \<in> {OpSucceeded, OpFailed, OpCancelled}"

section \<open>Module context\<close>

record module_operation_context =
  mc_prewarm :: bool
  mc_finalization_instance_id :: "string option"
  mc_pool_id :: string
  mc_caller :: capability_caller
  mc_capability_revision :: string
  mc_export :: "string option"

datatype operation_context = Unbound | Module module_operation_context

definition context_validate :: "operation_context \<Rightarrow> string \<Rightarrow> string \<Rightarrow> unit embedded_result" where
  "context_validate ctx runtime_id operation_id =
     (case ctx of
        Unbound \<Rightarrow> Ok ()
      | Module c \<Rightarrow>
          and_then (caller_validate (mc_caller c) runtime_id) (\<lambda>_.
            if cc_operation_id (mc_caller c) \<noteq> operation_id
              \<or> list_ex bad_name [mc_pool_id c, mc_capability_revision c]
              \<or> bad_optional_name (mc_export c)
              \<or> (mc_prewarm c \<and> (mc_export c \<noteq> None \<or> cc_session_id (mc_caller c) \<noteq> None))
              \<or> (\<not> mc_prewarm c \<and> mc_export c = None \<and> cc_session_id (mc_caller c) = None)
              \<or> (case mc_finalization_instance_id c of None \<Rightarrow> False
                 | Some i \<Rightarrow> trim_is_empty i \<or> contains_nul i \<or> mc_export c = None)
            then Err (error_invalid ''operation module context is invalid'')
            else Ok ()))"

definition context_caller :: "operation_context \<Rightarrow> capability_caller option" where
  "context_caller ctx = (case ctx of Unbound \<Rightarrow> None | Module c \<Rightarrow> Some (mc_caller c))"

section \<open>Outcomes\<close>

text \<open>
  \<^verbatim>\<open>EmbeddedResult<Value>\<close> as a value that is stored and compared: a panic is not such a value, so it
  has a type of its own.
\<close>

datatype stored_result = Value json_value | Error embedded_error

datatype operation_outcome = Succeeded json_value | Failed embedded_error

text \<open>\<open>ser_value\<close> and \<open>ser_error\<close> stand for the serializer on a result value and on an error.\<close>

definition outcome_bounded ::
  "(json_value \<Rightarrow> serialization) \<Rightarrow> (embedded_error \<Rightarrow> serialization) \<Rightarrow> stored_result \<Rightarrow> usize \<Rightarrow> operation_outcome" where
  "outcome_bounded ser_value ser_error result maximum =
     (let encoded = (case result of Value v \<Rightarrow> json_size (ser_value v) maximum | Error e \<Rightarrow> json_size (ser_error e) maximum);
          result = (case encoded of
            Err e \<Rightarrow>
              if err_code e = CapacityExceeded
              then Error (error_new CapacityExceeded ''operation result exceeds the configured byte limit'')
              else Error (error_new Internal ''operation result serialization failed'')
          | _ \<Rightarrow> result)
      in case result of Value v \<Rightarrow> Succeeded v | Error e \<Rightarrow> Failed e)"

definition outcome_result :: "operation_outcome \<Rightarrow> stored_result" where
  "outcome_result o' = (case o' of Succeeded v \<Rightarrow> Value v | Failed e \<Rightarrow> Error e)"

record operation_finalization =
  fin_export :: string
  fin_business :: operation_outcome
  fin_business_effect_count :: usize
  fin_outcome :: "operation_outcome option"

section \<open>Snapshots\<close>

record operation_snapshot =
  sn_finalization :: "operation_finalization option"
  sn_context :: operation_context
  sn_host_effects :: "host_effect_record list"
  sn_operation_id :: string
  sn_phase :: operation_phase
  sn_cancellation_requested :: bool
  sn_effects :: effect_state
  sn_value :: "json_value option"
  sn_error :: "embedded_error option"

fun phase_transition :: "operation_phase \<Rightarrow> operation_phase \<Rightarrow> bool" where
  "phase_transition OpQueued p = (p \<in> {OpInitializing, OpRunning, OpCleaning})"
| "phase_transition OpInitializing p = (p \<in> {OpRunning, OpWaitingForHost, OpCleaning})"
| "phase_transition OpRunning p = (p \<in> {OpWaitingForHost, OpCleaning})"
| "phase_transition OpWaitingForHost p = (p \<in> {OpRunning, OpInitializing, OpCleaning})"
| "phase_transition _ p = False"

definition advance_snapshot :: "operation_snapshot \<Rightarrow> operation_phase \<Rightarrow> operation_snapshot embedded_result" where
  "advance_snapshot s p =
     (if \<not> phase_transition (sn_phase s) p then Err (error_new Busy ''operation lifecycle transition is invalid'')
      else if p \<in> {OpInitializing, OpRunning, OpWaitingForHost}
      then Ok (s\<lparr>sn_phase := p, sn_effects := UnknownEffect\<rparr>)
      else Ok (s\<lparr>sn_phase := p\<rparr>))"

definition unfinished_effect :: "host_effect_record \<Rightarrow> bool" where
  "unfinished_effect r \<longleftrightarrow> he_phase r \<noteq> Completed"

definition validate_finalization :: "operation_snapshot \<Rightarrow> unit embedded_result" where
  "validate_finalization s =
     (case sn_finalization s of
        None \<Rightarrow> Ok ()
      | Some f \<Rightarrow>
          if bad_name (fin_export f) \<or> fin_business_effect_count f > length (sn_host_effects s)
            \<or> (\<not> is_terminal (sn_phase s) \<and> sn_phase s \<noteq> OpCleaning)
            \<or> list_ex unfinished_effect (take (fin_business_effect_count f) (sn_host_effects s))
          then Err (error_invalid ''operation finalization evidence is inconsistent'')
          else if fin_outcome f \<noteq> None \<and> list_ex unfinished_effect (sn_host_effects s)
          then Err (error_invalid ''closing outcome precedes actual host completion'')
          else if \<not> is_terminal (sn_phase s)
          then (if sn_value s \<noteq> None \<or> sn_error s \<noteq> None
                then Err (error_invalid ''nonterminal finalization cannot carry a terminal result'')
                else Ok ())
          else
            and_then (ok_or (error_invalid ''terminal finalization has no closing outcome'') (fin_outcome f)) (\<lambda>closing.
            let result = (case outcome_result (fin_business f) of
                  Error e \<Rightarrow> Error e
                | Value v \<Rightarrow> (case outcome_result closing of Error e \<Rightarrow> Error e | Value _ \<Rightarrow> Value v));
                consistent = (case result of
                  Value v \<Rightarrow> sn_phase s = OpSucceeded \<and> sn_value s = Some v \<and> sn_error s = None
                | Error e \<Rightarrow>
                    sn_phase s = (if err_code e = Cancelled then OpCancelled else OpFailed)
                    \<and> sn_value s = None \<and> sn_error s = Some e)
            in if \<not> consistent then Err (error_invalid ''terminal projection contradicts retained stage outcomes'')
               else Ok ()))"

definition validate_finalization_successor :: "operation_snapshot \<Rightarrow> operation_snapshot \<Rightarrow> unit embedded_result" where
  "validate_finalization_successor self previous =
     (case sn_finalization previous of
        None \<Rightarrow> Ok ()
      | Some original \<Rightarrow>
          and_then (ok_or (error_invalid ''operation finalization evidence cannot be removed'') (sn_finalization self)) (\<lambda>later.
            if fin_export original \<noteq> fin_export later \<or> fin_business original \<noteq> fin_business later
              \<or> fin_business_effect_count original \<noteq> fin_business_effect_count later
              \<or> (fin_outcome original \<noteq> None \<and> fin_outcome later \<noteq> fin_outcome original)
            then Err (error_invalid ''operation finalization evidence is immutable'')
            else Ok ()))"

section \<open>Lemmas\<close>

lemma is_terminal_simps [simp]:
  "is_terminal OpSucceeded" "is_terminal OpFailed" "is_terminal OpCancelled" "\<not> is_terminal OpQueued"
  "\<not> is_terminal OpInitializing" "\<not> is_terminal OpRunning" "\<not> is_terminal OpWaitingForHost" "\<not> is_terminal OpCleaning"
  by (simp_all add: is_terminal_def)

lemma phase_transition_not_terminal:
  "phase_transition p q \<Longrightarrow> \<not> is_terminal p \<and> \<not> is_terminal q \<and> p \<noteq> OpCleaning \<and> q \<noteq> OpQueued"
  by (cases p; cases q) auto

lemma advance_snapshot_Ok:
  "advance_snapshot s p = Ok s' \<longleftrightarrow> phase_transition (sn_phase s) p \<and>
     s' = s\<lparr>sn_phase := p, sn_effects := (if p = OpCleaning then sn_effects s else UnknownEffect)\<rparr>"
  by (cases "sn_phase s"; cases p) (auto simp: advance_snapshot_def)

lemma advance_snapshot_not_panic [simp]: "\<not> is_panic (advance_snapshot s p)"
  by (simp add: advance_snapshot_def)

lemma outcome_result_simps [simp]:
  "outcome_result (Succeeded v) = Value v" "outcome_result (Failed e) = Error e"
  by (simp_all add: outcome_result_def)

lemma outcome_result_inj [simp]: "outcome_result a = outcome_result b \<longleftrightarrow> a = b"
  by (cases a; cases b) auto

text \<open>A stored outcome never exceeds the value limit, unless it is the fixed message that says so.\<close>

lemma outcome_bounded_size:
  assumes "outcome_bounded ser_value ser_error result maximum = o'"
  shows "(\<exists>v. o' = Succeeded v \<and> result = Value v \<and> ser_length (ser_value v) \<le> maximum) \<or>
    (\<exists>e. o' = Failed e \<and> (result = Error e \<and> ser_length (ser_error e) \<le> maximum \<or>
      e = error_new CapacityExceeded ''operation result exceeds the configured byte limit'' \<or>
      e = error_new Internal ''operation result serialization failed''))"
  using assms by (auto simp: outcome_bounded_def Let_def json_size_eq split: stored_result.splits if_splits)

end
