(* ===== verification/Action.thy ===== *)
theory Action
  imports Embedded_Base
begin

text \<open>
  Functions that both fail and change state part-way: an action on states \<open>'s\<close> returns an outcome and
  the state reached, also when it stops early. \<open>wp m Q R\<close> is the weakest precondition under which the
  action does not panic, a value comes with \<open>Q\<close> and an error with \<open>R\<close>; its rewrite rules execute a
  definition symbolically.
\<close>

type_synonym ('s, 'a) action = "'s \<Rightarrow> 'a embedded_result \<times> 's"

definition bind_action :: "('s, 'a) action \<Rightarrow> ('a \<Rightarrow> ('s, 'b) action) \<Rightarrow> ('s, 'b) action" where
  "bind_action m f s =
     (case m s of (Ok x, s') \<Rightarrow> f x s' | (Err e, s') \<Rightarrow> (Err e, s') | (Panic p, s') \<Rightarrow> (Panic p, s'))"

definition ret :: "'a \<Rightarrow> ('s, 'a) action" where
  "ret x s = (Ok x, s)"

definition fail :: "embedded_error \<Rightarrow> ('s, 'a) action" where
  "fail e s = (Err e, s)"

text \<open>\<open>require\<close> is the guard \<^verbatim>\<open>if !b { return Err(e) }\<close>.\<close>

definition require :: "bool \<Rightarrow> embedded_error \<Rightarrow> ('s, unit) action" where
  "require b e s = (if b then Ok () else Err e, s)"

definition from_result :: "'a embedded_result \<Rightarrow> ('s, 'a) action" where
  "from_result r s = (r, s)"

definition read_state :: "('s \<Rightarrow> 'a) \<Rightarrow> ('s, 'a) action" where
  "read_state f s = (Ok (f s), s)"

definition try_read :: "('s \<Rightarrow> 'a embedded_result) \<Rightarrow> ('s, 'a) action" where
  "try_read f s = (f s, s)"

definition write_state :: "('s \<Rightarrow> 's) \<Rightarrow> ('s, unit) action" where
  "write_state f s = (Ok (), f s)"

text \<open>A guard on the state, and an action of a component lifted to the state that holds it.\<close>

definition require_state :: "('s \<Rightarrow> bool) \<Rightarrow> embedded_error \<Rightarrow> ('s, unit) action" where
  "require_state b e s = (if b s then Ok () else Err e, s)"

definition lift_action :: "('s \<Rightarrow> 'c) \<Rightarrow> ('c \<Rightarrow> 's \<Rightarrow> 's) \<Rightarrow> ('c, 'a) action \<Rightarrow> ('s, 'a) action" where
  "lift_action get put m s = (case m (get s) of (r, c) \<Rightarrow> (r, put c s))"

section \<open>Weakest preconditions\<close>

definition wp :: "('s, 'a) action \<Rightarrow> ('a \<Rightarrow> 's \<Rightarrow> bool) \<Rightarrow> ('s \<Rightarrow> bool) \<Rightarrow> 's \<Rightarrow> bool" where
  "wp m Q R s \<longleftrightarrow> (case m s of (Ok x, s') \<Rightarrow> Q x s' | (Err e, s') \<Rightarrow> R s' | (Panic p, s') \<Rightarrow> False)"

named_theorems wp_simps \<open>symbolic execution of actions\<close>

lemma wp_bind [wp_simps]: "wp (bind_action m f) Q R = wp m (\<lambda>x. wp (f x) Q R) R"
  by (auto simp: wp_def bind_action_def fun_eq_iff split: prod.splits outcome.splits)

lemma wp_values [wp_simps]:
  "wp (ret x) Q R = Q x"
  "wp (fail e) Q R = R"
  "wp (from_result r) Q R = (\<lambda>s. case r of Ok x \<Rightarrow> Q x s | Err e \<Rightarrow> R s | Panic p \<Rightarrow> False)"
  "wp (try_read g) Q R = (\<lambda>s. case g s of Ok x \<Rightarrow> Q x s | Err e \<Rightarrow> R s | Panic p \<Rightarrow> False)"
  "wp (read_state f) Q R = (\<lambda>s. Q (f s) s)"
  by (auto simp: wp_def fun_eq_iff ret_def fail_def from_result_def try_read_def read_state_def split: outcome.splits)

lemma wp_effects [wp_simps]:
  "wp (require b e) Q R = (\<lambda>s. if b then Q () s else R s)"
  "wp (require_state p e) Q R = (\<lambda>s. if p s then Q () s else R s)"
  "wp (write_state u) Q R = (\<lambda>s. Q () (u s))"
  by (auto simp: wp_def fun_eq_iff require_def require_state_def write_state_def)

lemma wp_lift [wp_simps]:
  "wp (lift_action get put m) Q R = (\<lambda>s. wp m (\<lambda>x c. Q x (put c s)) (\<lambda>c. R (put c s)) (get s))"
  by (auto simp: wp_def fun_eq_iff lift_action_def split: prod.splits outcome.splits)

lemma wp_branches [wp_simps]:
  "wp (if b then m else n) Q R = (if b then wp m Q R else wp n Q R)"
  "wp (case t of None \<Rightarrow> m | Some y \<Rightarrow> f y) Q R = (case t of None \<Rightarrow> wp m Q R | Some y \<Rightarrow> wp (f y) Q R)"
  "wp (case pr of (u, v) \<Rightarrow> h u v) Q R = (case pr of (u, v) \<Rightarrow> wp (h u v) Q R)"
  "wp (let y' = z in f' y') Q R = (let y' = z in wp (f' y') Q R)"
  by (auto split: option.splits prod.splits)

lemma wp_bindI:
  assumes "wp m (\<lambda>x. wp (f x) Q R) R s"
  shows "wp (bind_action m f) Q R s"
  using assms by (simp add: wp_bind)

lemma wp_mono:
  assumes "wp m Q R s" "\<And>x t. Q x t \<Longrightarrow> Q' x t" "\<And>t. R t \<Longrightarrow> R' t"
  shows "wp m Q' R' s"
  using assms by (auto simp: wp_def split: prod.splits outcome.splits)

lemma wp_final:
  assumes "wp m (\<lambda>_. I) I s"
  shows "I (snd (m s))" "\<not> is_panic (fst (m s))"
  using assms by (auto simp: wp_def split: prod.splits outcome.splits)

lemma wp_result:
  assumes "wp m Q R s"
  shows "m s = (Ok x, t) \<Longrightarrow> Q x t" "m s = (Err e, t) \<Longrightarrow> R t" "m s \<noteq> (Panic p, t)"
  using assms by (auto simp: wp_def split: prod.splits outcome.splits)

lemma wp_of_result:
  assumes "\<And>x t. m s = (Ok x, t) \<Longrightarrow> Q x t" "\<And>e t. m s = (Err e, t) \<Longrightarrow> R t" "\<And>p t. m s \<noteq> (Panic p, t)"
  shows "wp m Q R s"
proof -
  obtain r t where "m s = (r, t)" by (cases "m s")
  then show ?thesis using assms by (cases r) (auto simp: wp_def)
qed

lemma wp_conj: "wp m Q E s \<Longrightarrow> wp m Q' E' s \<Longrightarrow> wp m (\<lambda>x t. Q x t \<and> Q' x t) (\<lambda>t. E t \<and> E' t) s"
  by (auto simp: wp_def split: prod.splits outcome.splits)

end
