(* ===== verification/Operation_Owner.thy ===== *)
theory Operation_Owner
  imports Operation_Data Action
begin

text \<open>
  One operation and its owner (\<^verbatim>\<open>runtime/embedded/operations.rs\<close>, \<^verbatim>\<open>operations/finalization.rs\<close>,
  \<^verbatim>\<open>operations/checkpoint.rs\<close>, \<^verbatim>\<open>operations/checkpoint/outcome.rs\<close>). Every function is an action on the
  operation together with its unique owner. The journal behind an operation answers through
  \<open>journal_responses\<close>: what it would reply to this call, for each request. \<open>contended\<close> says that
  another thread holds the transition lock when \<^verbatim>\<open>try_lock\<close> is called.
\<close>

section \<open>State\<close>

datatype history_backend = DirectBackend | QueuedBackend

record operation_history =
  hs_backend :: history_backend
  hs_runtime_id :: string
  hs_revision :: "u64 option mutex"

datatype journal_write_phase = WriteQueued | WriteWriting | WriteCompleted

record journal_write_snapshot =
  jw_phase :: journal_write_phase
  jw_revision :: "u64 option"
  jw_error :: "embedded_error option"

text \<open>A receipt is the revision its request expected.\<close>

type_synonym journal_receipt = "u64 option"

record journal_responses =
  jr_direct :: "string \<Rightarrow> u64 option \<Rightarrow> operation_snapshot \<Rightarrow> embedded_error + u64"
  jr_submit :: "string \<Rightarrow> u64 option \<Rightarrow> operation_snapshot \<Rightarrow> embedded_error + unit"
  jr_wait :: "journal_receipt \<Rightarrow> embedded_error + journal_write_snapshot"
  jr_poll :: "journal_receipt \<Rightarrow> embedded_error + journal_write_snapshot"

datatype checkpoint_attempt =
    Acknowledged | NewAttempt | Submitted journal_receipt | FailedAttempt embedded_error
  | Unobservable journal_receipt embedded_error

datatype checkpoint_effect = StartEffect string | OutcomeEffect string

datatype checkpoint_retry_state = RetryWaiting | RetryRequested | Retrying

record pending_checkpoint =
  pc_effect :: "checkpoint_effect option"
  pc_failure :: "embedded_error option"
  pc_retry :: checkpoint_retry_state
  pc_snapshot :: operation_snapshot
  pc_attempt :: checkpoint_attempt

record operation =
  op_publication_sequence :: u64
  op_transition :: "pending_checkpoint option mutex"
  op_history :: "operation_history option"
  op_ident :: string
  op_effects :: effect_ledger
  op_control :: call_control
  op_snapshot :: "operation_snapshot mutex"
  op_max_value_bytes :: usize

record finalization_ownership =
  fo_timeout :: duration
  fo_control_issued :: bool
  fo_outcome_prepared :: bool

record owned =
  own_operation :: operation
  own_finalization :: "finalization_ownership option"
  own_pending :: "operation_snapshot option"
  own_checkpoint :: "pending_checkpoint option"

definition checkpoint_poisoned :: embedded_error where
  "checkpoint_poisoned = error_new Internal ''operation checkpoint lock is poisoned''"

section \<open>Locks\<close>

definition op_lock :: "operation \<Rightarrow> operation_snapshot embedded_result" where
  "op_lock op =
     (if poisoned (op_snapshot op) then Err (error_new Internal ''operation record lock is poisoned'')
      else Ok (guarded (op_snapshot op)))"

definition read_snapshot :: "(owned, operation_snapshot) action" where
  "read_snapshot = try_read (\<lambda>s. op_lock (own_operation s))"

definition set_snapshot :: "operation_snapshot \<Rightarrow> owned \<Rightarrow> owned" where
  "set_snapshot x s = s\<lparr>own_operation := (own_operation s)\<lparr>op_snapshot := mutex_new x\<rparr>\<rparr>"

definition publish_snapshot :: "operation_snapshot \<Rightarrow> (owned, unit) action" where
  "publish_snapshot x = bind_action read_snapshot (\<lambda>_. write_state (set_snapshot x))"

definition transition_of :: "owned \<Rightarrow> pending_checkpoint option" where
  "transition_of s = guarded (op_transition (own_operation s))"

definition set_transition :: "pending_checkpoint option \<Rightarrow> owned \<Rightarrow> owned" where
  "set_transition t s = s\<lparr>own_operation := (own_operation s)\<lparr>op_transition := (op_transition (own_operation s))\<lparr>guarded := t\<rparr>\<rparr>\<rparr>"

definition poison_transition :: "owned \<Rightarrow> owned" where
  "poison_transition s = s\<lparr>own_operation := (own_operation s)\<lparr>op_transition := (op_transition (own_operation s))\<lparr>poisoned := True\<rparr>\<rparr>\<rparr>"

text \<open>The body runs while the transition lock is held; \<open>e\<close> is the error for a poisoned lock.\<close>

definition hold_transition :: "embedded_error \<Rightarrow> (owned, 'a) action \<Rightarrow> (owned, 'a) action" where
  "hold_transition e body s =
     (if poisoned (op_transition (own_operation s)) then (Err e, s)
      else case body s of (Panic p, s') \<Rightarrow> (Panic p, poison_transition s') | (r, s') \<Rightarrow> (r, s'))"

section \<open>Journal checkpoints\<close>

definition acknowledged :: "journal_write_snapshot \<Rightarrow> embedded_error + u64" where
  "acknowledged s =
     (case (jw_phase s, jw_revision s, jw_error s) of
        (WriteCompleted, Some revision, None) \<Rightarrow> Inr revision
      | (WriteCompleted, None, Some e) \<Rightarrow> Inl e
      | _ \<Rightarrow> Inl (error_new Internal ''journal acknowledgement is inconsistent''))"

definition history_is_queued :: "operation_history \<Rightarrow> bool" where
  "history_is_queued h \<longleftrightarrow> hs_backend h = QueuedBackend"

definition backend_checkpoint ::
  "journal_responses \<Rightarrow> history_backend \<Rightarrow> string \<Rightarrow> u64 option \<Rightarrow> operation_snapshot \<Rightarrow> embedded_error + u64" where
  "backend_checkpoint resp b runtime_id revision snapshot =
     (case b of
        DirectBackend \<Rightarrow> jr_direct resp runtime_id revision snapshot
      | QueuedBackend \<Rightarrow>
          (case jr_submit resp runtime_id revision snapshot of
             Inl e \<Rightarrow> Inl e
           | Inr _ \<Rightarrow> (case jr_wait resp revision of Inl e \<Rightarrow> Inl e | Inr w \<Rightarrow> acknowledged w)))"

definition history_checkpoint ::
  "journal_responses \<Rightarrow> operation_history \<Rightarrow> operation_snapshot \<Rightarrow> unit embedded_result \<times> operation_history" where
  "history_checkpoint resp h snapshot =
     (if poisoned (hs_revision h) then (Err checkpoint_poisoned, h)
      else case backend_checkpoint resp (hs_backend h) (hs_runtime_id h) (guarded (hs_revision h)) snapshot of
        Inl e \<Rightarrow> (Err e, h)
      | Inr revision \<Rightarrow> (Ok (), h\<lparr>hs_revision := mutex_new (Some revision)\<rparr>))"

definition operation_checkpoint :: "journal_responses \<Rightarrow> operation_snapshot \<Rightarrow> (owned, unit) action" where
  "operation_checkpoint resp snapshot s =
     (case op_history (own_operation s) of
        None \<Rightarrow> (Ok (), s)
      | Some h \<Rightarrow>
          (case history_checkpoint resp h snapshot of (r, h') \<Rightarrow>
             (r, s\<lparr>own_operation := (own_operation s)\<lparr>op_history := Some h'\<rparr>\<rparr>)))"

definition history_submit ::
  "journal_responses \<Rightarrow> operation_history \<Rightarrow> operation_snapshot \<Rightarrow> embedded_error + journal_receipt" where
  "history_submit resp h snapshot =
     (if hs_backend h \<noteq> QueuedBackend then Inl (error_invalid ''nonblocking checkpoints require a journal worker'')
      else if poisoned (hs_revision h) then Inl checkpoint_poisoned
      else case jr_submit resp (hs_runtime_id h) (guarded (hs_revision h)) snapshot of
        Inl e \<Rightarrow> Inl e
      | Inr _ \<Rightarrow> Inr (guarded (hs_revision h)))"

definition history_accept ::
  "operation_history \<Rightarrow> u64 option \<Rightarrow> u64 \<Rightarrow> unit embedded_result \<times> operation_history" where
  "history_accept h previous later =
     (if poisoned (hs_revision h) then (Err checkpoint_poisoned, h)
      else if guarded (hs_revision h) \<noteq> previous
      then (Err (error_new Internal ''operation checkpoint acknowledgement is out of order''), h)
      else (Ok (), h\<lparr>hs_revision := mutex_new (Some later)\<rparr>))"

definition checkpoint_new :: "operation_snapshot \<Rightarrow> pending_checkpoint" where
  "checkpoint_new snapshot =
     \<lparr>pc_effect = None, pc_failure = None, pc_retry = RetryWaiting, pc_snapshot = snapshot, pc_attempt = NewAttempt\<rparr>"

definition is_lifecycle_phase :: "pending_checkpoint \<Rightarrow> operation_phase \<Rightarrow> bool" where
  "is_lifecycle_phase pc p \<longleftrightarrow> sn_phase (pc_snapshot pc) = p \<and> pc_effect pc = None"

text \<open>\<^verbatim>\<open>PendingCheckpoint::drive_attempt\<close>: first the attempt to resume, then its observation.\<close>

definition resume_attempt ::
  "journal_responses \<Rightarrow> operation_history \<Rightarrow> operation_snapshot \<Rightarrow> bool \<Rightarrow> checkpoint_attempt \<Rightarrow> checkpoint_attempt" where
  "resume_attempt resp h snapshot retry a =
     (let a = (case a of FailedAttempt _ \<Rightarrow> if retry then NewAttempt else a | _ \<Rightarrow> a)
      in if a = NewAttempt
         then (case history_submit resp h snapshot of Inr receipt \<Rightarrow> Submitted receipt | Inl e \<Rightarrow> FailedAttempt e)
         else a)"

definition drive_attempt ::
  "journal_responses \<Rightarrow> operation_history \<Rightarrow> pending_checkpoint \<Rightarrow> bool \<Rightarrow> bool \<Rightarrow>
   bool embedded_result \<times> operation_history \<times> pending_checkpoint" where
  "drive_attempt resp h pc wait retry =
     (let pc = pc\<lparr>pc_attempt := resume_attempt resp h (pc_snapshot pc) retry (pc_attempt pc)\<rparr>
      in case pc_attempt pc of
           Acknowledged \<Rightarrow> (Ok True, h, pc)
         | FailedAttempt e \<Rightarrow> (Err e, h, pc)
         | Unobservable _ e \<Rightarrow> (Err e, h, pc)
         | NewAttempt \<Rightarrow> (Panic ''initial queue admission resolves its attempt state'', h, pc)
         | Submitted previous \<Rightarrow>
             (case (if wait then jr_wait resp previous else jr_poll resp previous) of
                Inl e \<Rightarrow> (Err e, h, pc\<lparr>pc_attempt := Unobservable previous e\<rparr>)
              | Inr observed \<Rightarrow>
                  if jw_phase observed \<noteq> WriteCompleted then (Ok False, h, pc)
                  else (case acknowledged observed of
                          Inl e \<Rightarrow> (Err e, h, pc\<lparr>pc_attempt := FailedAttempt e\<rparr>)
                        | Inr later \<Rightarrow>
                            (case history_accept h previous later of
                               (Ok _, h') \<Rightarrow> (Ok True, h', pc\<lparr>pc_attempt := Acknowledged\<rparr>)
                             | (Err e, h') \<Rightarrow> (Err e, h', pc)
                             | (Panic p, h') \<Rightarrow> (Panic p, h', pc)))))"

definition drive ::
  "journal_responses \<Rightarrow> operation_history \<Rightarrow> pending_checkpoint \<Rightarrow> bool \<Rightarrow> bool \<Rightarrow>
   bool embedded_result \<times> operation_history \<times> pending_checkpoint" where
  "drive resp h pc wait retry =
     (let retry = (retry \<or> pc_retry pc = RetryRequested);
          pc = (if retry then pc\<lparr>pc_retry := Retrying\<rparr> else pc)
      in case drive_attempt resp h pc wait retry of
           (Ok True, h', pc') \<Rightarrow> (Ok True, h', pc'\<lparr>pc_failure := None\<rparr>)
         | (Ok False, h', pc') \<Rightarrow> (Ok False, h', pc')
         | (Err e, h', pc') \<Rightarrow> (Err e, h', pc'\<lparr>pc_failure := Some e, pc_retry := RetryWaiting\<rparr>)
         | (Panic p, h', pc') \<Rightarrow> (Panic p, h', pc'))"

end
