(* ===== verification/Operation_Lifecycle.thy ===== *)
theory Operation_Lifecycle
  imports Operation_Owner
begin

text \<open>
  The lifecycle of an operation: advancing its phase, completing it, its finalization stage and the
  durable evidence of host effects, for operations without history, with a direct journal and with
  a journal worker.
\<close>

section \<open>Projection\<close>

definition op_project :: "operation \<Rightarrow> operation_snapshot \<Rightarrow> operation_snapshot embedded_result" where
  "op_project op s =
     and_then (ledger_snapshot (op_effects op)) (\<lambda>records.
       let s = s\<lparr>sn_cancellation_requested := ctl_cancelled (op_control op), sn_host_effects := records,
                 sn_effects := merge_effects (sn_effects s) records\<rparr>
       in Ok (if sn_phase s \<in> {OpInitializing, OpRunning} \<and> list_ex unfinished_effect records
              then s\<lparr>sn_phase := OpWaitingForHost\<rparr> else s))"

definition handle_snapshot :: "operation \<Rightarrow> operation_snapshot embedded_result" where
  "handle_snapshot op = and_then (op_lock op) (op_project op)"

definition handle_cancel :: "operation \<Rightarrow> bool embedded_result \<times> operation" where
  "handle_cancel op =
     (case op_lock op of
        Ok s \<Rightarrow>
          if is_terminal (sn_phase s) then (Ok False, op)
          else (case control_cancel (op_control op) of (b, c) \<Rightarrow> (Ok b, op\<lparr>op_control := c\<rparr>))
      | Err e \<Rightarrow> (Err e, op)
      | Panic p \<Rightarrow> (Panic p, op))"

section \<open>Advancing the phase\<close>

definition queued_history :: "owned \<Rightarrow> bool" where
  "queued_history s = (case op_history (own_operation s) of None \<Rightarrow> False | Some h \<Rightarrow> history_is_queued h)"

text \<open>Drive the retained transition checkpoint against the history and store both back.\<close>

definition drive_transition :: "journal_responses \<Rightarrow> bool \<Rightarrow> bool \<Rightarrow> (owned, bool) action" where
  "drive_transition resp wait retry s =
     (case (op_history (own_operation s), transition_of s) of
        (Some h, Some pc) \<Rightarrow>
          (case drive resp h pc wait retry of (r, h', pc') \<Rightarrow>
             (r, set_transition (Some pc') (s\<lparr>own_operation := (own_operation s)\<lparr>op_history := Some h'\<rparr>\<rparr>)))
      | (None, _) \<Rightarrow> (Panic ''queued operation has history'', s)
      | (_, None) \<Rightarrow> (Panic ''phase candidate retained'', s))"

definition advance_candidate :: "operation_phase \<Rightarrow> (owned, operation_snapshot) action" where
  "advance_candidate phase =
     bind_action read_snapshot (\<lambda>snapshot.
     bind_action (from_result (advance_snapshot snapshot phase)) (\<lambda>snapshot.
     bind_action (try_read (\<lambda>s. op_project (own_operation s) snapshot)) (\<lambda>snapshot.
     ret (snapshot\<lparr>sn_phase := phase\<rparr>))))"

text \<open>\<^verbatim>\<open>drive_advance\<close>: retain the candidate, drive it, publish it once acknowledged.\<close>

definition retain_candidate :: "operation_phase \<Rightarrow> (owned, unit) action" where
  "retain_candidate phase =
     bind_action (read_state transition_of) (\<lambda>t. case t of
       Some pc \<Rightarrow> require (sn_phase (pc_snapshot pc) = phase)
         (error_new Busy ''observe or retry the original phase checkpoint before another transition'')
     | None \<Rightarrow> bind_action (advance_candidate phase) (\<lambda>c. write_state (set_transition (Some (checkpoint_new c)))))"

definition publish_acknowledged :: "(owned, bool) action" where
  "publish_acknowledged =
     bind_action (read_state transition_of) (\<lambda>t. case t of
       None \<Rightarrow> from_result (Panic ''phase candidate retained'')
     | Some pc \<Rightarrow>
         (case pc_effect pc of
            None \<Rightarrow>
              bind_action (publish_snapshot (pc_snapshot pc)) (\<lambda>_.
              bind_action (write_state (set_transition None)) (\<lambda>_. ret True))
          | Some e \<Rightarrow>
              (case e of
                 OutcomeEffect _ \<Rightarrow> ret True
               | StartEffect _ \<Rightarrow> bind_action (write_state (set_transition None)) (\<lambda>_. ret True))))"

definition drive_advance :: "journal_responses \<Rightarrow> operation_phase \<Rightarrow> bool \<Rightarrow> bool \<Rightarrow> (owned, bool) action" where
  "drive_advance resp phase wait retry =
     bind_action (retain_candidate phase) (\<lambda>_.
     bind_action (drive_transition resp wait retry) (\<lambda>finished.
       if finished then publish_acknowledged else ret False))"

definition no_pending_completion :: "(owned, unit) action" where
  "no_pending_completion =
     require_state (\<lambda>s. own_pending s = None) (error_new Busy ''operation has a retained terminal checkpoint'')"

definition owner_advance :: "journal_responses \<Rightarrow> operation_phase \<Rightarrow> (owned, unit) action" where
  "owner_advance resp phase =
     bind_action no_pending_completion (\<lambda>_.
     hold_transition checkpoint_poisoned (
       bind_action (read_state (\<lambda>s. (queued_history s, op_history (own_operation s) = None))) (\<lambda>(queued, none).
         if queued then bind_action (drive_advance resp phase True True) (\<lambda>_. ret ())
         else if none
         then bind_action read_snapshot (\<lambda>snapshot.
              bind_action (from_result (advance_snapshot snapshot phase)) (\<lambda>snapshot.
              write_state (set_snapshot snapshot)))
         else bind_action (advance_candidate phase) (\<lambda>snapshot.
              bind_action (operation_checkpoint resp snapshot) (\<lambda>_.
              publish_snapshot snapshot)))))"

definition owner_poll_advance :: "journal_responses \<Rightarrow> bool \<Rightarrow> operation_phase \<Rightarrow> (owned, bool) action" where
  "owner_poll_advance resp contended phase =
     bind_action no_pending_completion (\<lambda>_.
     bind_action (read_state (\<lambda>s. (queued_history s, op_history (own_operation s) = None))) (\<lambda>(queued, none).
     bind_action (require (queued \<or> none) (error_invalid ''nonblocking checkpoints require a journal worker'')) (\<lambda>_.
       if contended then ret False
       else hold_transition checkpoint_poisoned (
         if none
         then bind_action read_snapshot (\<lambda>snapshot.
              bind_action (from_result (advance_snapshot snapshot phase)) (\<lambda>snapshot.
              bind_action (write_state (set_snapshot snapshot)) (\<lambda>_. ret True)))
         else drive_advance resp phase False False))))"

definition owner_retry_advance :: "journal_responses \<Rightarrow> bool \<Rightarrow> (owned, bool) action" where
  "owner_retry_advance resp contended =
     (if contended then ret False
      else hold_transition checkpoint_poisoned (
        bind_action (try_read (\<lambda>s. ok_or (error_new Busy ''operation has no retained phase checkpoint'') (transition_of s))) (\<lambda>pc.
        drive_advance resp (sn_phase (pc_snapshot pc)) False True)))"

section \<open>Completion\<close>

text \<open>The result a completion publishes, given the finalization evidence of the snapshot.\<close>

definition completion_result ::
  "operation_finalization option \<Rightarrow> finalization_ownership option \<Rightarrow> stored_result \<Rightarrow> stored_result embedded_result" where
  "completion_result evidence ownership result =
     (case evidence of
        None \<Rightarrow> Ok result
      | Some f \<Rightarrow>
          if \<not> (case ownership of None \<Rightarrow> False | Some o' \<Rightarrow> fo_outcome_prepared o')
          then Err (error_new Busy ''closing outcome is not acknowledged'')
          else if outcome_result (fin_business f) \<noteq> result
          then Err (error_invalid ''completion cannot replace the original business outcome'')
          else (case (fin_business f, fin_outcome f) of
                  (_, None) \<Rightarrow> Err (error_new Busy ''closing outcome is missing'')
                | (Failed e, _) \<Rightarrow> Ok (Error e)
                | (_, Some (Failed e)) \<Rightarrow> Ok (Error e)
                | (_, Some (Succeeded _)) \<Rightarrow> Ok result))"

definition terminal_projection :: "stored_result \<Rightarrow> operation_snapshot \<Rightarrow> operation_snapshot" where
  "terminal_projection result s =
     (case result of
        Value v \<Rightarrow> s\<lparr>sn_phase := OpSucceeded, sn_value := Some v\<rparr>
      | Error e \<Rightarrow> s\<lparr>sn_phase := (if err_code e = Cancelled then OpCancelled else OpFailed), sn_error := Some e\<rparr>)"

text \<open>An action of the operation's effect journal.\<close>

definition on_effects :: "(effect_ledger, 'a) action \<Rightarrow> (owned, 'a) action" where
  "on_effects = lift_action (\<lambda>s. op_effects (own_operation s))
     (\<lambda>l s. s\<lparr>own_operation := (own_operation s)\<lparr>op_effects := l\<rparr>\<rparr>)"

definition try_transition_error :: "bool \<Rightarrow> string \<Rightarrow> (owned, unit) action" where
  "try_transition_error contended m = require (\<not> contended) (error_new Busy m)"

definition prepare_completion ::
  "(json_value \<Rightarrow> serialization) \<Rightarrow> (embedded_error \<Rightarrow> serialization) \<Rightarrow> bool \<Rightarrow> stored_result \<Rightarrow> effect_state \<Rightarrow>
   (owned, unit) action" where
  "prepare_completion ser_value ser_error contended result effects =
     bind_action (require_state (\<lambda>s. own_pending s = None)
       (error_new Busy ''retry the original retained terminal checkpoint before supplying another outcome'')) (\<lambda>_.
     bind_action (try_transition_error contended ''operation transition is still owned'') (\<lambda>_.
     hold_transition checkpoint_poisoned (
       bind_action (require_state (\<lambda>s. transition_of s = None) (error_new Busy ''operation has a retained phase checkpoint'')) (\<lambda>_.
       bind_action (read_state (\<lambda>s. outcome_result
         (outcome_bounded ser_value ser_error result (op_max_value_bytes (own_operation s))))) (\<lambda>result.
       bind_action read_snapshot (\<lambda>snapshot.
       bind_action (require (sn_phase snapshot = OpCleaning)
         (error_new Busy ''operation completion requires finished execution and cleanup'')) (\<lambda>_.
       bind_action (try_read (\<lambda>s. completion_result (sn_finalization snapshot) (own_finalization s) result)) (\<lambda>result.
       bind_action (on_effects ledger_seal) (\<lambda>records.
       bind_action (read_state (\<lambda>s. ctl_cancelled (op_control (own_operation s)))) (\<lambda>cancelled.
       write_state (\<lambda>s. s\<lparr>own_pending := Some (terminal_projection result
         (snapshot\<lparr>sn_host_effects := records, sn_effects := merge_effects effects records,
            sn_cancellation_requested := cancelled\<rparr>))\<rparr>)))))))))))"

definition completion_ready :: "(owned, operation_snapshot) action" where
  "completion_ready =
     bind_action read_snapshot (\<lambda>snapshot.
     bind_action (require (sn_phase snapshot = OpCleaning)
       (error_new Busy ''operation completion requires finished execution and cleanup'')) (\<lambda>_.
     try_read (\<lambda>s. ok_or (error_new Busy ''operation has no retained terminal checkpoint'') (own_pending s))))"

definition drive_completion_checkpoint :: "journal_responses \<Rightarrow> bool \<Rightarrow> bool \<Rightarrow> (owned, bool) action" where
  "drive_completion_checkpoint resp wait retry =
     bind_action completion_ready (\<lambda>snapshot s.
       case op_history (own_operation s) of
         None \<Rightarrow> (Ok True, s)
       | Some h \<Rightarrow>
           if \<not> history_is_queued h then (Err (error_invalid ''nonblocking checkpoints require a journal worker''), s)
           else
             let pc = (case own_checkpoint s of None \<Rightarrow> checkpoint_new snapshot | Some pc \<Rightarrow> pc)
             in case drive resp h pc wait retry of (r, h', pc') \<Rightarrow>
                  (r, s\<lparr>own_checkpoint := Some pc', own_operation := (own_operation s)\<lparr>op_history := Some h'\<rparr>\<rparr>))"

definition completion_acknowledged :: "owned \<Rightarrow> bool" where
  "completion_acknowledged s =
     (case own_checkpoint s of None \<Rightarrow> False | Some pc \<Rightarrow> pc_attempt pc = Acknowledged)"

definition publish_completion :: "(owned, unit) action" where
  "publish_completion =
     bind_action (require_state (\<lambda>s. op_history (own_operation s) = None \<or> completion_acknowledged s)
       (error_new Busy ''terminal checkpoint is not acknowledged'')) (\<lambda>_.
     bind_action read_snapshot (\<lambda>current.
     bind_action (require_state (\<lambda>s. sn_phase current = OpCleaning \<and> own_pending s \<noteq> None)
       (error_new Busy ''operation has no publishable terminal checkpoint'')) (\<lambda>_.
     bind_action (write_state (\<lambda>s. s\<lparr>own_checkpoint := None\<rparr>)) (\<lambda>_.
     bind_action (try_read (\<lambda>s. expect ''validated original terminal candidate'' (own_pending s))) (\<lambda>pending.
     write_state (\<lambda>s. (set_snapshot pending s)\<lparr>own_pending := None\<rparr>))))))"

definition drive_completion :: "journal_responses \<Rightarrow> bool \<Rightarrow> bool \<Rightarrow> (owned, bool) action" where
  "drive_completion resp wait retry =
     bind_action (drive_completion_checkpoint resp wait retry) (\<lambda>finished.
       if \<not> finished then ret False else bind_action publish_completion (\<lambda>_. ret True))"

text \<open>The blocking completion of an operation without a journal worker.\<close>

definition complete_blocking :: "journal_responses \<Rightarrow> operation_snapshot \<Rightarrow> (owned, unit) action" where
  "complete_blocking resp pending =
     bind_action (write_state (\<lambda>s. s\<lparr>own_pending :=
       Some (pending\<lparr>sn_cancellation_requested := ctl_cancelled (op_control (own_operation s))\<rparr>)\<rparr>)) (\<lambda>_.
     bind_action (try_read (\<lambda>s. expect ''owned completion retained through checkpoint'' (own_pending s))) (\<lambda>pending.
     bind_action (operation_checkpoint resp pending) (\<lambda>_.
     bind_action read_snapshot (\<lambda>_.
     write_state (\<lambda>s. (set_snapshot pending s)\<lparr>own_pending := None\<rparr>)))))"

definition retry_completion :: "journal_responses \<Rightarrow> (owned, unit) action" where
  "retry_completion resp =
     bind_action (read_state queued_history) (\<lambda>queued.
       if queued then bind_action (drive_completion resp True True) (\<lambda>_. ret ())
       else bind_action completion_ready (complete_blocking resp))"

definition owner_complete ::
  "(json_value \<Rightarrow> serialization) \<Rightarrow> (embedded_error \<Rightarrow> serialization) \<Rightarrow> journal_responses \<Rightarrow> bool \<Rightarrow> stored_result \<Rightarrow>
   effect_state \<Rightarrow> (owned, unit) action" where
  "owner_complete ser_value ser_error resp contended result effects =
     bind_action (prepare_completion ser_value ser_error contended result effects) (\<lambda>_. retry_completion resp)"

definition poll_completion :: "journal_responses \<Rightarrow> (owned, bool) action" where
  "poll_completion resp =
     bind_action (read_state (\<lambda>s. op_history (own_operation s) = None)) (\<lambda>none.
       if none then bind_action (retry_completion resp) (\<lambda>_. ret True) else drive_completion resp False False)"

definition retry_completion_nonblocking :: "journal_responses \<Rightarrow> (owned, bool) action" where
  "retry_completion_nonblocking resp =
     bind_action (read_state (\<lambda>s. op_history (own_operation s) = None)) (\<lambda>none.
       if none then bind_action (retry_completion resp) (\<lambda>_. ret True) else drive_completion resp False True)"

section \<open>Finalization stage\<close>

definition retain_finalization_checkpoint :: "operation_snapshot \<Rightarrow> (owned, unit) action" where
  "retain_finalization_checkpoint snapshot =
     bind_action (read_state (\<lambda>s. op_history (own_operation s) = None)) (\<lambda>none.
       if none then publish_snapshot snapshot
       else write_state (set_transition (Some (checkpoint_new snapshot))))"

definition require_pollable_finalization_history :: "(owned, unit) action" where
  "require_pollable_finalization_history =
     require_state (\<lambda>s. op_history (own_operation s) = None \<or> queued_history s)
       (error_invalid ''finalization checkpoints require a journal worker'')"

text \<open>The last part of \<^verbatim>\<open>prepare_finalization\<close>, once the effect journal has entered its finalization stage.\<close>

definition retain_intent ::
  "string \<Rightarrow> operation_outcome \<Rightarrow> duration \<Rightarrow> operation_snapshot \<Rightarrow> usize \<Rightarrow> (owned, unit) action" where
  "retain_intent export outcome timeout snapshot business_effect_count =
     bind_action (write_state (\<lambda>s. s\<lparr>own_finalization := Some
       \<lparr>fo_timeout = timeout, fo_control_issued = False, fo_outcome_prepared = False\<rparr>\<rparr>)) (\<lambda>_.
     bind_action (try_read (\<lambda>s. op_project (own_operation s) snapshot)) (\<lambda>snapshot.
     retain_finalization_checkpoint (snapshot\<lparr>sn_finalization := Some
       \<lparr>fin_export = export, fin_business = outcome, fin_business_effect_count = business_effect_count,
        fin_outcome = None\<rparr>\<rparr>)))"

definition prepare_finalization ::
  "(json_value \<Rightarrow> serialization) \<Rightarrow> (embedded_error \<Rightarrow> serialization) \<Rightarrow> (string \<Rightarrow> serialization) \<Rightarrow> instant \<Rightarrow> bool \<Rightarrow>
   string \<Rightarrow> stored_result \<Rightarrow> duration \<Rightarrow> (owned, unit) action" where
  "prepare_finalization ser_value ser_error ser_string now contended export business timeout =
     bind_action (require_state (\<lambda>s. own_finalization s = None \<and> own_pending s = None)
       (error_new Busy ''operation already owns finalization or terminal completion'')) (\<lambda>_.
     bind_action (require (\<not> bad_name export)
       (error_invalid ''closing export must be nonempty and contain no NUL'')) (\<lambda>_.
     bind_action (from_result (control_new now timeout)) (\<lambda>_.
     bind_action (try_read (\<lambda>s. json_size (ser_string export) (op_max_value_bytes (own_operation s)))) (\<lambda>_.
     bind_action require_pollable_finalization_history (\<lambda>_.
     bind_action (try_transition_error contended ''operation checkpoint is owned'') (\<lambda>_.
     hold_transition checkpoint_poisoned (
       bind_action (require_state (\<lambda>s. transition_of s = None) (error_new Busy ''operation checkpoint is pending'')) (\<lambda>_.
       bind_action read_snapshot (\<lambda>snapshot.
       bind_action (from_result (advance_snapshot snapshot OpCleaning)) (\<lambda>snapshot.
       bind_action (read_state (\<lambda>s. outcome_bounded ser_value ser_error business (op_max_value_bytes (own_operation s)))) (\<lambda>outcome.
       bind_action (on_effects begin_finalization) (retain_intent export outcome timeout snapshot))))))))))))"

definition poll_finalization :: "journal_responses \<Rightarrow> bool \<Rightarrow> (owned, bool) action" where
  "poll_finalization resp contended =
     bind_action (require_state (\<lambda>s. own_finalization s \<noteq> None) (error_new Busy ''operation has no prepared finalization'')) (\<lambda>_.
       if contended then ret False
       else hold_transition checkpoint_poisoned (
         bind_action (read_state transition_of) (\<lambda>t. case t of
           Some pc \<Rightarrow>
             bind_action (require (is_lifecycle_phase pc OpCleaning) (error_new Busy ''another operation checkpoint is pending'')) (\<lambda>_.
             drive_advance resp OpCleaning False False)
         | None \<Rightarrow> bind_action read_snapshot (\<lambda>snapshot. ret (sn_finalization snapshot \<noteq> None)))))"

text \<open>The closing control is bound to the finalization stage of the same journal, at address \<open>journal\<close>.\<close>

definition take_finalization_control :: "instant \<Rightarrow> bool \<Rightarrow> ledger_ref \<Rightarrow> (owned, call_control) action" where
  "take_finalization_control now contended journal =
     bind_action (try_transition_error contended ''operation checkpoint is owned'') (\<lambda>_.
     hold_transition checkpoint_poisoned (
       bind_action (require_state (\<lambda>s. transition_of s = None) (error_new Busy ''finalization intent is not acknowledged'')) (\<lambda>_.
       bind_action read_snapshot (\<lambda>snapshot.
       bind_action (require (sn_phase snapshot = OpCleaning \<and> sn_finalization snapshot \<noteq> None)
         (error_new Busy ''finalization intent is not published'')) (\<lambda>_.
       bind_action (try_read (\<lambda>s. ok_or (error_new Busy ''operation has no prepared finalization'') (own_finalization s))) (\<lambda>ownership.
       bind_action (require (\<not> fo_control_issued ownership) (error_new Closed ''closing control was already issued'')) (\<lambda>_.
       bind_action (write_state (\<lambda>s. s\<lparr>own_finalization := Some (ownership\<lparr>fo_control_issued := True\<rparr>)\<rparr>)) (\<lambda>_.
       bind_action (from_result (control_new now (fo_timeout ownership))) (\<lambda>control.
       case control_attach_effects control journal Finalization of (r, control') \<Rightarrow>
         bind_action (from_result r) (\<lambda>_. ret control'))))))))))"

text \<open>The last part of \<^verbatim>\<open>prepare_finalization_outcome\<close>, once the effect journal is sealed.\<close>

definition retain_outcome ::
  "operation_outcome \<Rightarrow> operation_snapshot \<Rightarrow> host_effect_record list \<Rightarrow> (owned, unit) action" where
  "retain_outcome outcome snapshot records =
     bind_action (read_state (\<lambda>s. ctl_cancelled (op_control (own_operation s)))) (\<lambda>cancelled.
     bind_action (from_result (expect ''owned finalization is published'' (sn_finalization snapshot))) (\<lambda>f.
     bind_action (try_read (\<lambda>s. expect ''owned finalization remains'' (own_finalization s))) (\<lambda>ownership.
     bind_action (write_state (\<lambda>s. s\<lparr>own_finalization := Some (ownership\<lparr>fo_outcome_prepared := True\<rparr>)\<rparr>)) (\<lambda>_.
     retain_finalization_checkpoint (snapshot\<lparr>sn_host_effects := records,
       sn_effects := merge_effects (sn_effects snapshot) records, sn_cancellation_requested := cancelled,
       sn_finalization := Some (f\<lparr>fin_outcome := Some outcome\<rparr>)\<rparr>)))))"

definition prepare_finalization_outcome ::
  "(json_value \<Rightarrow> serialization) \<Rightarrow> (embedded_error \<Rightarrow> serialization) \<Rightarrow> bool \<Rightarrow> stored_result \<Rightarrow> (owned, unit) action" where
  "prepare_finalization_outcome ser_value ser_error contended result =
     bind_action (try_read (\<lambda>s. ok_or (error_new Busy ''operation has no prepared finalization'') (own_finalization s))) (\<lambda>ownership.
     bind_action (require_state (\<lambda>s. fo_control_issued ownership \<and> \<not> fo_outcome_prepared ownership \<and> own_pending s = None)
       (error_new Busy ''closing outcome is unavailable or already retained'')) (\<lambda>_.
     bind_action (try_transition_error contended ''operation checkpoint is owned'') (\<lambda>_.
     hold_transition checkpoint_poisoned (
       bind_action (require_state (\<lambda>s. transition_of s = None) (error_new Busy ''host checkpoint is pending'')) (\<lambda>_.
       bind_action read_snapshot (\<lambda>snapshot.
       bind_action (require (sn_phase snapshot = OpCleaning) (error_new Busy ''operation is outside finalization'')) (\<lambda>_.
       bind_action (read_state (\<lambda>s. outcome_bounded ser_value ser_error result (op_max_value_bytes (own_operation s)))) (\<lambda>outcome.
       bind_action (on_effects ledger_seal) (retain_outcome outcome snapshot)))))))))"

section \<open>Durable evidence of host effects\<close>

definition effect_checkpoint :: "checkpoint_effect \<Rightarrow> operation_snapshot \<Rightarrow> pending_checkpoint" where
  "effect_checkpoint e snapshot = (checkpoint_new snapshot)\<lparr>pc_effect := Some e\<rparr>"

text \<open>The nonterminal snapshot with the current evidence, shared by the two effect checkpoints.\<close>

definition evidence_snapshot :: "(owned, operation_snapshot) action" where
  "evidence_snapshot =
     bind_action read_snapshot (\<lambda>snapshot.
     bind_action (require (\<not> is_terminal (sn_phase snapshot)) (error_new Closed ''operation is terminal'')) (\<lambda>_.
     bind_action (try_read (\<lambda>s. ledger_snapshot (op_effects (own_operation s)))) (\<lambda>records.
     read_state (\<lambda>s. snapshot\<lparr>sn_cancellation_requested := ctl_cancelled (op_control (own_operation s)),
       sn_host_effects := records\<rparr>))))"

fun start_record :: "string \<Rightarrow> host_effect_record list \<Rightarrow> host_effect_record list" where
  "start_record effect_id [] = []"
| "start_record effect_id (r # rs) =
     (if he_effect_id r = effect_id then r\<lparr>he_phase := HandlerRunning, he_effects := UnknownEffect\<rparr> # rs
      else r # start_record effect_id rs)"

definition persistent_history :: "string \<Rightarrow> (owned, unit) action" where
  "persistent_history m =
     bind_action (try_read (\<lambda>s. ok_or checkpoint_poisoned (op_history (own_operation s)))) (\<lambda>h.
     require (history_is_queued h) (error_new Unsupported m))"

text \<open>Settle a checkpoint retained earlier: \<open>Some\<close> result ends the call, \<open>None\<close> lets it go on.\<close>

definition settle_start :: "journal_responses \<Rightarrow> string \<Rightarrow> bool \<Rightarrow> (owned, bool option) action" where
  "settle_start resp effect_id wait =
     bind_action (read_state (\<lambda>s. map_option pc_effect (transition_of s))) (\<lambda>t. case t of
       None \<Rightarrow> ret None
     | Some e \<Rightarrow>
         if (case e of Some (StartEffect _) \<Rightarrow> False | _ \<Rightarrow> True)
         then (if wait then fail (error_new Busy ''operation phase checkpoint is pending'') else ret (Some False))
         else bind_action (drive_transition resp wait False) (\<lambda>finished.
           if \<not> finished then ret (Some False)
           else bind_action (write_state (set_transition None)) (\<lambda>_.
             ret (if e = Some (StartEffect effect_id) then Some True else None))))"

definition retain_start :: "journal_responses \<Rightarrow> string \<Rightarrow> bool \<Rightarrow> (owned, bool) action" where
  "retain_start resp effect_id wait =
     bind_action evidence_snapshot (\<lambda>snapshot.
     bind_action (from_result (ok_or checkpoint_poisoned
       (find (\<lambda>r. he_effect_id r = effect_id) (sn_host_effects snapshot)))) (\<lambda>record.
     bind_action (require (he_phase record = Prepared) (error_new Busy ''host effect was already dispatched'')) (\<lambda>_.
     let records = start_record effect_id (sn_host_effects snapshot);
         snapshot = snapshot\<lparr>sn_host_effects := records, sn_effects := merge_effects (sn_effects snapshot) records\<rparr>
     in bind_action (write_state (set_transition (Some (effect_checkpoint (StartEffect effect_id) snapshot)))) (\<lambda>_.
        bind_action (drive_transition resp wait False) (\<lambda>finished.
          if \<not> finished then ret False
          else bind_action (write_state (set_transition None)) (\<lambda>_. ret True))))))"

definition checkpoint_effect_start ::
  "journal_responses \<Rightarrow> bool \<Rightarrow> string \<Rightarrow> bool \<Rightarrow> (owned, bool) action" where
  "checkpoint_effect_start resp contended effect_id wait =
     bind_action (persistent_history ''persistent host dispatch requires a journal worker'') (\<lambda>_.
       if \<not> wait \<and> contended then ret False
       else hold_transition checkpoint_poisoned (
         bind_action (settle_start resp effect_id wait) (\<lambda>early.
           case early of None \<Rightarrow> retain_start resp effect_id wait | Some result \<Rightarrow> ret result)))"

text \<open>Driving an outcome checkpoint turns every error into a later retry.\<close>

definition drive_quietly :: "journal_responses \<Rightarrow> (owned, bool) action" where
  "drive_quietly resp s =
     (case drive_transition resp False False s of
        (Ok b, s') \<Rightarrow> (Ok b, s') | (Err e, s') \<Rightarrow> (Ok False, s') | (Panic p, s') \<Rightarrow> (Panic p, s'))"

definition settle_outcome :: "journal_responses \<Rightarrow> string \<Rightarrow> (owned, bool option) action" where
  "settle_outcome resp effect_id =
     bind_action (read_state (\<lambda>s. map_option pc_effect (transition_of s))) (\<lambda>t. case t of
       None \<Rightarrow> ret None
     | Some e \<Rightarrow>
         if e \<noteq> Some (OutcomeEffect effect_id) \<and> (case e of Some (StartEffect _) \<Rightarrow> False | _ \<Rightarrow> True)
         then ret (Some False)
         else bind_action (drive_quietly resp) (\<lambda>finished.
           if \<not> finished then ret (Some False)
           else bind_action (write_state (set_transition None)) (\<lambda>_.
             ret (if e = Some (OutcomeEffect effect_id) then Some True else None))))"

definition retain_effect_outcome :: "journal_responses \<Rightarrow> string \<Rightarrow> (owned, bool) action" where
  "retain_effect_outcome resp effect_id =
     bind_action evidence_snapshot (\<lambda>snapshot.
     bind_action (from_result (ok_or checkpoint_poisoned
       (find (\<lambda>r. he_effect_id r = effect_id) (sn_host_effects snapshot)))) (\<lambda>record.
     bind_action (require (he_phase record = HandlerRunning)
       (error_new Busy ''host outcome requires retained handler admission'')) (\<lambda>_.
     let snapshot = snapshot\<lparr>sn_effects := merge_effects (sn_effects snapshot) (sn_host_effects snapshot)\<rparr>
     in bind_action (write_state (set_transition (Some (effect_checkpoint (OutcomeEffect effect_id) snapshot)))) (\<lambda>_.
        bind_action (drive_quietly resp) (\<lambda>finished.
          if \<not> finished then ret False
          else bind_action (write_state (set_transition None)) (\<lambda>_. ret True))))))"

definition poll_effect_outcome :: "journal_responses \<Rightarrow> bool \<Rightarrow> string \<Rightarrow> (owned, bool) action" where
  "poll_effect_outcome resp contended effect_id =
     bind_action (persistent_history ''persistent host completion requires a journal worker'') (\<lambda>_.
       if contended then ret False
       else hold_transition checkpoint_poisoned (
         bind_action (settle_outcome resp effect_id) (\<lambda>early.
           case early of None \<Rightarrow> retain_effect_outcome resp effect_id | Some result \<Rightarrow> ret result)))"

section \<open>Observation and recovery of a retained checkpoint\<close>

definition pending_phase :: "bool \<Rightarrow> (owned, operation_phase option) action" where
  "pending_phase contended =
     bind_action (try_transition_error contended ''operation transition is still owned'') (\<lambda>_.
     hold_transition checkpoint_poisoned (
       bind_action (read_state transition_of) (\<lambda>t. case t of
         None \<Rightarrow> ret None
       | Some pc \<Rightarrow>
           (case pc_effect pc of
              Some (OutcomeEffect _) \<Rightarrow> fail (error_new Busy ''host outcome confirmation is still owned'')
            | _ \<Rightarrow> ret (Some (sn_phase (pc_snapshot pc)))))))"

record operation_persistence_failure =
  pf_operation_id :: string
  pf_phase :: operation_phase
  pf_error :: embedded_error
  pf_retry :: checkpoint_retry_state

definition checkpoint_failure :: "bool \<Rightarrow> (owned, operation_persistence_failure option) action" where
  "checkpoint_failure contended =
     bind_action (read_state (\<lambda>s. op_history (own_operation s) = None)) (\<lambda>none.
       if none then ret None
       else bind_action (try_transition_error contended ''checkpoint observation is busy'') (\<lambda>_.
         hold_transition checkpoint_poisoned (read_state (\<lambda>s.
           Option.bind (transition_of s) (\<lambda>pc. map_option (\<lambda>e.
             \<lparr>pf_operation_id = op_ident (own_operation s), pf_phase = sn_phase (pc_snapshot pc), pf_error = e,
              pf_retry = pc_retry pc\<rparr>) (pc_failure pc))))))"

definition request_checkpoint_retry :: "bool \<Rightarrow> (owned, bool option) action" where
  "request_checkpoint_retry contended =
     bind_action (read_state (\<lambda>s. op_history (own_operation s) = None)) (\<lambda>none.
       if none then ret None
       else bind_action (try_transition_error contended ''checkpoint recovery is busy'') (\<lambda>_.
         hold_transition checkpoint_poisoned (
           bind_action (read_state transition_of) (\<lambda>t. case t of
             None \<Rightarrow> ret None
           | Some pc \<Rightarrow>
               bind_action (require (pc_failure pc \<noteq> None) (error_new Busy ''operation checkpoint has not failed'')) (\<lambda>_.
               bind_action (require (case pc_attempt pc of Unobservable _ _ \<Rightarrow> False | _ \<Rightarrow> True)
                 (error_new Busy ''checkpoint receipt requires reconciliation before retry'')) (\<lambda>_.
                 if pc_retry pc \<noteq> RetryWaiting then ret (Some False)
                 else bind_action (write_state (set_transition (Some (pc\<lparr>pc_retry := RetryRequested\<rparr>)))) (\<lambda>_.
                   ret (Some True))))))))"

end
