(* ===== verification/Operation_Registry.thy ===== *)
theory Operation_Registry
  imports Operation_Lifecycle
begin

text \<open>
  The registry of operations (\<^verbatim>\<open>runtime/embedded/operations.rs\<close>, \<^verbatim>\<open>operations/admission.rs\<close>,
  \<^verbatim>\<open>operations/reservation.rs\<close>, \<^verbatim>\<open>operations/listing.rs\<close>): bounded retention, identities, reservations
  that hold one retention slot for a later admission, and pages of retained operations.
\<close>

section \<open>State\<close>

record operation_registry_state =
  ors_publication_sequence :: u64
  ors_reserved :: usize
  ors_sequence :: u64
  ors_records :: "(string, operation) btree"

text \<open>\<open>reg_address\<close> is the identity of the shared state that \<^verbatim>\<open>Arc::ptr_eq\<close> compares.\<close>

record operation_registry =
  reg_address :: nat
  reg_journal :: "history_backend option"
  reg_max_effect_records :: usize
  reg_max_effect_bytes :: usize
  reg_runtime_id :: string
  reg_max_operations :: usize
  reg_max_value_bytes :: usize
  reg_state :: "operation_registry_state mutex"

record operation_reservation =
  rsv_id :: string
  rsv_context :: operation_context
  rsv_state :: nat
  rsv_active :: bool

definition registry_poisoned :: embedded_error where
  "registry_poisoned = error_new Internal ''operation registry lock is poisoned''"

definition registry_with ::
  "operation_registry \<Rightarrow> (operation_registry_state \<Rightarrow> 'a embedded_result \<times> operation_registry_state) \<Rightarrow>
   'a embedded_result \<times> operation_registry" where
  "registry_with g body =
     (case mutex_with registry_poisoned (reg_state g) body of (r, m) \<Rightarrow> (r, g\<lparr>reg_state := m\<rparr>))"

section \<open>Construction\<close>

definition registry_new ::
  "nat \<Rightarrow> history_backend option \<Rightarrow> string \<Rightarrow> embedded_runtime_config \<Rightarrow> operation_registry embedded_result" where
  "registry_new address journal runtime_id config =
     and_then (runtime_config_validate config) (\<lambda>_.
       if trim_is_empty runtime_id then Err (error_invalid ''runtime identity must be nonempty'')
       else Ok \<lparr>reg_address = address, reg_journal = journal,
                reg_max_effect_records = max_effect_records_per_operation config,
                reg_max_effect_bytes = max_effect_bytes_per_operation config, reg_runtime_id = runtime_id,
                reg_max_operations = max_operations config, reg_max_value_bytes = max_value_bytes config,
                reg_state = mutex_new \<lparr>ors_publication_sequence = 0, ors_reserved = 0, ors_sequence = 0, ors_records = []\<rparr>\<rparr>)"

section \<open>Admission\<close>

definition new_operation ::
  "operation_registry \<Rightarrow> u64 \<Rightarrow> string \<Rightarrow> operation_context \<Rightarrow> usize \<Rightarrow> call_control \<Rightarrow> operation" where
  "new_operation g publication_sequence i ctx context_bytes control =
     \<lparr>op_publication_sequence = publication_sequence, op_transition = mutex_new None,
      op_history = map_option (\<lambda>b. \<lparr>hs_backend = b, hs_runtime_id = reg_runtime_id g, hs_revision = mutex_new None\<rparr>) (reg_journal g),
      op_ident = i,
      op_effects = ledger_new (reg_runtime_id g) i (reg_max_effect_records g) (reg_max_effect_bytes g)
        (reg_journal g \<noteq> None) (context_caller ctx) context_bytes,
      op_control = control,
      op_snapshot = mutex_new \<lparr>sn_finalization = None, sn_context = ctx, sn_host_effects = [], sn_operation_id = i,
        sn_phase = OpQueued, sn_cancellation_requested = False, sn_effects = NotStarted, sn_value = None, sn_error = None\<rparr>,
      op_max_value_bytes = reg_max_value_bytes g\<rparr>"

definition new_owner :: "operation \<Rightarrow> owned" where
  "new_owner op = \<lparr>own_operation = op, own_finalization = None, own_pending = None, own_checkpoint = None\<rparr>"

text \<open>
  \<^verbatim>\<open>max_operations - reserved\<close> is an unchecked subtraction; \<open>None\<close> stands for its overflow panic.
\<close>

definition retention_full :: "operation_registry \<Rightarrow> operation_registry_state \<Rightarrow> bool embedded_result" where
  "retention_full g st =
     and_then (expect ''attempt to subtract with overflow'' (checked_sub (reg_max_operations g) (ors_reserved st))) (\<lambda>free.
       Ok (length (ors_records st) \<ge> free))"

definition retention_error :: embedded_error where
  "retention_error = error_new CapacityExceeded ''operation retention capacity reached''"

text \<open>
  Everything \<^verbatim>\<open>admit_with_reservation\<close> decides under the lock before it attaches the control: the new
  sequence, the identity, the context with its bytes and the publication sequence. \<open>now\<close> is the
  clock reading of the control's check, \<open>ser_context\<close> the serializer on a context.
\<close>

definition admission_identity ::
  "operation_registry \<Rightarrow> operation_registry_state \<Rightarrow> operation_reservation option \<Rightarrow> (u64 \<times> string) embedded_result" where
  "admission_identity g st reservation =
     (case reservation of
        Some owned \<Rightarrow>
          if \<not> rsv_active owned \<or> rsv_state owned \<noteq> reg_address g
          then Err (error_invalid ''operation reservation belongs to another registry or was consumed'')
          else Ok (ors_sequence st, rsv_id owned)
      | None \<Rightarrow>
          and_then (retention_full g st) (\<lambda>full.
            if full then Err retention_error
            else and_then (ok_or (error_new Internal ''operation identity exhausted'') (checked_add (ors_sequence st) 1)) (\<lambda>sequence.
              Ok (sequence, identity_render OperationIdentity (reg_runtime_id g) sequence))))"

definition admission_check ::
  "(operation_context \<Rightarrow> serialization) \<Rightarrow> operation_registry \<Rightarrow> operation_registry_state \<Rightarrow> operation_reservation option \<Rightarrow>
   (string \<Rightarrow> operation_context embedded_result) \<Rightarrow> (u64 \<times> string \<times> operation_context \<times> usize \<times> u64) embedded_result" where
  "admission_check ser_context g st reservation make_context =
     and_then (admission_identity g st reservation) (\<lambda>(sequence, i).
     and_then (case reservation of Some owned \<Rightarrow> Ok (rsv_context owned) | None \<Rightarrow> make_context i) (\<lambda>ctx.
     and_then (context_validate ctx (reg_runtime_id g) i) (\<lambda>_.
     and_then (case ctx of Unbound \<Rightarrow> Ok 0 | Module _ \<Rightarrow> json_size (ser_context ctx) (reg_max_effect_bytes g)) (\<lambda>context_bytes.
     and_then (ok_or (error_new Internal ''operation publication sequence exhausted'')
       (checked_add (ors_publication_sequence st) 1)) (\<lambda>publication_sequence.
     Ok (sequence, i, ctx, context_bytes, publication_sequence))))))"

definition insert_operation ::
  "operation_registry \<Rightarrow> u64 \<Rightarrow> string \<Rightarrow> operation \<Rightarrow> operation_registry_state \<Rightarrow> operation_registry_state" where
  "insert_operation g sequence i op st =
     st\<lparr>ors_sequence := sequence, ors_publication_sequence := op_publication_sequence op,
        ors_records := bt_insert i op (ors_records st)\<rparr>"

text \<open>
  Attaching the control comes last, so a rejected control changes nothing. The attached control and
  the consumed reservation are part of the result.
\<close>

definition admit_locked ::
  "(operation_context \<Rightarrow> serialization) \<Rightarrow> operation_registry \<Rightarrow> call_control \<Rightarrow> operation_reservation option \<Rightarrow>
   (string \<Rightarrow> operation_context embedded_result) \<Rightarrow> operation_registry_state \<Rightarrow>
   (owned \<times> operation_reservation option) embedded_result \<times> operation_registry_state" where
  "admit_locked ser_context g control reservation make_context st =
     (case admission_check ser_context g st reservation make_context of
        Err e \<Rightarrow> (Err e, st)
      | Panic p \<Rightarrow> (Panic p, st)
      | Ok (sequence, i, ctx, context_bytes, publication_sequence) \<Rightarrow>
          (case control_attach_effects control publication_sequence Business of
             (Err e, _) \<Rightarrow> (Err e, st)
           | (Panic p, _) \<Rightarrow> (Panic p, st)
           | (Ok _, control') \<Rightarrow>
               let op = new_operation g publication_sequence i ctx context_bytes control'
               in case reservation of
                    None \<Rightarrow> (Ok (new_owner op, None), insert_operation g sequence i op st)
                  | Some owned \<Rightarrow>
                      (case checked_sub (ors_reserved st) 1 of
                         None \<Rightarrow> (Panic ''attempt to subtract with overflow'', st)
                       | Some reserved \<Rightarrow>
                           (Ok (new_owner op, Some (owned\<lparr>rsv_active := False\<rparr>)),
                            insert_operation g sequence i op (st\<lparr>ors_reserved := reserved\<rparr>)))))"

definition admit_with_reservation ::
  "(operation_context \<Rightarrow> serialization) \<Rightarrow> instant \<Rightarrow> operation_registry \<Rightarrow> call_control \<Rightarrow> operation_reservation option \<Rightarrow>
   (string \<Rightarrow> operation_context embedded_result) \<Rightarrow>
   (owned \<times> operation_reservation option) embedded_result \<times> operation_registry" where
  "admit_with_reservation ser_context now g control reservation make_context =
     (case (if reservation = None then control_check now control else Ok ()) of
        Err e \<Rightarrow> (Err e, g)
      | Panic p \<Rightarrow> (Panic p, g)
      | Ok _ \<Rightarrow> registry_with g (admit_locked ser_context g control reservation make_context))"

definition registry_admit ::
  "(operation_context \<Rightarrow> serialization) \<Rightarrow> instant \<Rightarrow> operation_registry \<Rightarrow> call_control \<Rightarrow>
   (owned \<times> operation_reservation option) embedded_result \<times> operation_registry" where
  "registry_admit ser_context now g control =
     admit_with_reservation ser_context now g control None (\<lambda>_. Ok Unbound)"

text \<open>\<open>pool_context\<close> is \<^verbatim>\<open>ModulePool::operation_context\<close> for the given session, export and request.\<close>

definition registry_admit_prewarm ::
  "(operation_context \<Rightarrow> serialization) \<Rightarrow> instant \<Rightarrow> operation_registry \<Rightarrow> call_control \<Rightarrow>
   (string \<Rightarrow> operation_context embedded_result) \<Rightarrow>
   (owned \<times> operation_reservation option) embedded_result \<times> operation_registry" where
  "registry_admit_prewarm ser_context now g control pool_context =
     admit_with_reservation ser_context now g control None (\<lambda>i.
       and_then (pool_context i) (\<lambda>ctx. case ctx of
         Unbound \<Rightarrow> Err (error_invalid ''prewarm requires a bound module context'')
       | Module c \<Rightarrow> Ok (Module (c\<lparr>mc_prewarm := True\<rparr>))))"

section \<open>Reservations\<close>

definition reserve_context ::
  "(operation_context \<Rightarrow> serialization) \<Rightarrow> operation_registry \<Rightarrow> (string \<Rightarrow> operation_context embedded_result) \<Rightarrow>
   operation_reservation embedded_result \<times> operation_registry" where
  "reserve_context ser_context g make_context =
     registry_with g (\<lambda>st. commit
       (and_then (retention_full g st) (\<lambda>full.
          if full then Err retention_error
          else and_then (ok_or (error_new Internal ''operation identity exhausted'') (checked_add (ors_sequence st) 1)) (\<lambda>sequence.
            let i = identity_render OperationIdentity (reg_runtime_id g) sequence in
            and_then (make_context i) (\<lambda>ctx.
            and_then (context_validate ctx (reg_runtime_id g) i) (\<lambda>_.
            and_then (json_size (ser_context ctx) (reg_max_effect_bytes g)) (\<lambda>_.
            Ok (sequence, i, ctx))))))) st
       (\<lambda>(sequence, i, ctx).
         (\<lparr>rsv_id = i, rsv_context = ctx, rsv_state = reg_address g, rsv_active = True\<rparr>,
          st\<lparr>ors_sequence := sequence, ors_reserved := ors_reserved st + 1\<rparr>)))"

definition reserve_module ::
  "(operation_context \<Rightarrow> serialization) \<Rightarrow> operation_registry \<Rightarrow> (string \<Rightarrow> operation_context embedded_result) \<Rightarrow> string \<Rightarrow>
   operation_reservation embedded_result \<times> operation_registry" where
  "reserve_module ser_context g pool_context instance_id =
     reserve_context ser_context g (\<lambda>i.
       and_then (pool_context i) (\<lambda>ctx. case ctx of
         Unbound \<Rightarrow> Err (error_invalid ''finalization requires module authority'')
       | Module c \<Rightarrow> Ok (Module (c\<lparr>mc_finalization_instance_id := Some instance_id\<rparr>))))"

definition admit_reserved ::
  "(operation_context \<Rightarrow> serialization) \<Rightarrow> instant \<Rightarrow> operation_registry \<Rightarrow> operation_reservation \<Rightarrow> call_control \<Rightarrow>
   (owned \<times> operation_reservation option) embedded_result \<times> operation_registry" where
  "admit_reserved ser_context now g reservation control =
     admit_with_reservation ser_context now g control (Some reservation)
       (\<lambda>_. Err (error_invalid ''reserved admission must use its captured context''))"

text \<open>The destructor of a reservation; the unchecked decrement panics at zero.\<close>

definition drop_operation_reservation :: "operation_registry \<Rightarrow> operation_reservation \<Rightarrow> unit embedded_result \<times> operation_registry" where
  "drop_operation_reservation g reservation =
     (if \<not> rsv_active reservation then (Ok (), g)
      else case checked_sub (ors_reserved (guarded (reg_state g))) 1 of
        None \<Rightarrow> (Panic ''attempt to subtract with overflow'', g\<lparr>reg_state := (reg_state g)\<lparr>poisoned := True\<rparr>\<rparr>)
      | Some reserved \<Rightarrow>
          (Ok (), g\<lparr>reg_state := mutex_recover (reg_state g) (\<lambda>st. st\<lparr>ors_reserved := reserved\<rparr>)\<rparr>))"

section \<open>Lookup and removal\<close>

definition registry_get :: "operation_registry \<Rightarrow> string \<Rightarrow> operation embedded_result" where
  "registry_get g i =
     (if poisoned (reg_state g) then Err registry_poisoned
      else ok_or (error_new NotFound ''operation record is unknown or expired'') (bt_get (ors_records (guarded (reg_state g))) i))"

definition registry_forget :: "operation_registry \<Rightarrow> string \<Rightarrow> unit embedded_result \<times> operation_registry" where
  "registry_forget g i =
     registry_with g (\<lambda>st. commit
       (and_then (ok_or (error_new NotFound ''operation record is unknown or expired'') (bt_get (ors_records st) i)) (\<lambda>op.
        and_then (op_lock op) (\<lambda>snapshot.
          if \<not> is_terminal (sn_phase snapshot)
          then Err (error_new Busy ''operation has not finished execution and cleanup'') else Ok ()))) st
       (\<lambda>_. ((), st\<lparr>ors_records := bt_remove i (ors_records st)\<rparr>)))"

section \<open>Pages of retained operations\<close>

record operation_page =
  pg_operation_ids :: "string list"
  pg_after_operation_id :: "string option"
  pg_has_more :: bool

definition matches_pool :: "operation \<Rightarrow> string option \<Rightarrow> bool embedded_result" where
  "matches_pool op pool_id =
     (case pool_id of
        None \<Rightarrow> Ok True
      | Some p \<Rightarrow>
          and_then (op_lock op) (\<lambda>snapshot.
            Ok (case sn_context snapshot of Module c \<Rightarrow> mc_pool_id c = p | Unbound \<Rightarrow> False)))"

fun collect_page :: "u64 \<Rightarrow> string option \<Rightarrow> operation list \<Rightarrow> operation list embedded_result" where
  "collect_page after pool_id [] = Ok []"
| "collect_page after pool_id (op # ops) =
     (if op_publication_sequence op > after
      then and_then (matches_pool op pool_id) (\<lambda>matching.
           and_then (collect_page after pool_id ops) (\<lambda>rest. Ok (if matching then op # rest else rest)))
      else collect_page after pool_id ops)"

definition page_start :: "operation_registry_state \<Rightarrow> string option \<Rightarrow> string option \<Rightarrow> u64 embedded_result" where
  "page_start st pool_id after_operation_id =
     (case after_operation_id of
        None \<Rightarrow> Ok 0
      | Some i \<Rightarrow>
          and_then (ok_or (error_new NotFound ''operation page cursor is not retained'') (bt_get (ors_records st) i)) (\<lambda>op.
          and_then (matches_pool op pool_id) (\<lambda>matching.
            if \<not> matching then Err (error_invalid ''operation page cursor does not match the pool filter'')
            else Ok (op_publication_sequence op))))"

definition registry_list ::
  "operation_registry \<Rightarrow> string option \<Rightarrow> string option \<Rightarrow> usize \<Rightarrow> operation_page embedded_result" where
  "registry_list g pool_id after_operation_id limit =
     (if limit = 0 \<or> limit > reg_max_operations g
      then Err (error_invalid ''operation page limit exceeds retained operation budget'')
      else if bad_optional_name pool_id then Err (error_invalid ''operation pool filter is invalid'')
      else if poisoned (reg_state g) then Err registry_poisoned
      else
        let st = guarded (reg_state g) in
        and_then (page_start st pool_id after_operation_id) (\<lambda>after.
        and_then (collect_page after pool_id (bt_values (ors_records st))) (\<lambda>found.
          let records = sort_key op_publication_sequence found;
              ids = map op_ident (take limit records)
          in Ok \<lparr>pg_operation_ids = ids,
                 pg_after_operation_id = (if ids = [] then after_operation_id else Some (last ids)),
                 pg_has_more = length records > limit\<rparr>)))"

end
