(* ===== verification/Operation_System.thy ===== *)
theory Operation_System
  imports Operation_Registry
begin

text \<open>
  The registry with everything that acts on it: owners and effect attempts of the retained operations,
  and the holders of reservations. \<open>rs_private\<close> is the part of an owner that only the owner sees,
  together with the live effect attempts of its operation; one step is one call by one holder.
\<close>

record serializers =
  sz_effect :: "host_effect_record \<Rightarrow> serialization"
  sz_value :: "json_value \<Rightarrow> serialization"
  sz_error :: "embedded_error \<Rightarrow> serialization"
  sz_string :: "string \<Rightarrow> serialization"
  sz_context :: "operation_context \<Rightarrow> serialization"

datatype owner_call =
    Advance journal_responses operation_phase
  | PollAdvance journal_responses bool operation_phase
  | RetryAdvance journal_responses bool
  | PrepareCompletion bool stored_result effect_state
  | RetryCompletion journal_responses
  | PollCompletion journal_responses
  | RetryCompletionNonblocking journal_responses
  | PrepareFinalization instant bool string stored_result duration
  | PollFinalization journal_responses bool
  | TakeFinalizationControl instant bool ledger_ref
  | PrepareFinalizationOutcome bool stored_result
  | CheckpointEffectStart journal_responses bool string bool
  | PollEffectOutcome journal_responses bool string
  | RequestCheckpointRetry bool
  | PollCompletionCheckpoint journal_responses bool
  | PublishCompletion

fun run_call :: "serializers \<Rightarrow> owner_call \<Rightarrow> owned \<Rightarrow> owned" where
  "run_call z (Advance resp p) s = snd (owner_advance resp p s)"
| "run_call z (PollAdvance resp b p) s = snd (owner_poll_advance resp b p s)"
| "run_call z (RetryAdvance resp b) s = snd (owner_retry_advance resp b s)"
| "run_call z (PrepareCompletion b r e) s = snd (prepare_completion (sz_value z) (sz_error z) b r e s)"
| "run_call z (RetryCompletion resp) s = snd (retry_completion resp s)"
| "run_call z (PollCompletion resp) s = snd (poll_completion resp s)"
| "run_call z (RetryCompletionNonblocking resp) s = snd (retry_completion_nonblocking resp s)"
| "run_call z (PrepareFinalization now b x r d) s =
     snd (prepare_finalization (sz_value z) (sz_error z) (sz_string z) now b x r d s)"
| "run_call z (PollFinalization resp b) s = snd (poll_finalization resp b s)"
| "run_call z (TakeFinalizationControl now b l) s = snd (take_finalization_control now b l s)"
| "run_call z (PrepareFinalizationOutcome b r) s = snd (prepare_finalization_outcome (sz_value z) (sz_error z) b r s)"
| "run_call z (CheckpointEffectStart resp b i w) s = snd (checkpoint_effect_start resp b i w s)"
| "run_call z (PollEffectOutcome resp b i) s = snd (poll_effect_outcome resp b i s)"
| "run_call z (RequestCheckpointRetry b) s = snd (request_checkpoint_retry b s)"
| "run_call z (PollCompletionCheckpoint resp retry) s = snd (drive_completion_checkpoint resp False retry s)"
| "run_call z PublishCompletion s = snd (publish_completion s)"

text \<open>Whether a call panics.\<close>

fun call_panics :: "serializers \<Rightarrow> owner_call \<Rightarrow> owned \<Rightarrow> bool" where
  "call_panics z (Advance resp p) s = is_panic (fst (owner_advance resp p s))"
| "call_panics z (PollAdvance resp b p) s = is_panic (fst (owner_poll_advance resp b p s))"
| "call_panics z (RetryAdvance resp b) s = is_panic (fst (owner_retry_advance resp b s))"
| "call_panics z (PrepareCompletion b r e) s = is_panic (fst (prepare_completion (sz_value z) (sz_error z) b r e s))"
| "call_panics z (RetryCompletion resp) s = is_panic (fst (retry_completion resp s))"
| "call_panics z (PollCompletion resp) s = is_panic (fst (poll_completion resp s))"
| "call_panics z (RetryCompletionNonblocking resp) s = is_panic (fst (retry_completion_nonblocking resp s))"
| "call_panics z (PrepareFinalization now b x r d) s =
     is_panic (fst (prepare_finalization (sz_value z) (sz_error z) (sz_string z) now b x r d s))"
| "call_panics z (PollFinalization resp b) s = is_panic (fst (poll_finalization resp b s))"
| "call_panics z (TakeFinalizationControl now b l) s = is_panic (fst (take_finalization_control now b l s))"
| "call_panics z (PrepareFinalizationOutcome b r) s =
     is_panic (fst (prepare_finalization_outcome (sz_value z) (sz_error z) b r s))"
| "call_panics z (CheckpointEffectStart resp b i w) s = is_panic (fst (checkpoint_effect_start resp b i w s))"
| "call_panics z (PollEffectOutcome resp b i) s = is_panic (fst (poll_effect_outcome resp b i s))"
| "call_panics z (RequestCheckpointRetry b) s = is_panic (fst (request_checkpoint_retry b s))"
| "call_panics z (PollCompletionCheckpoint resp retry) s = is_panic (fst (drive_completion_checkpoint resp False retry s))"
| "call_panics z PublishCompletion s = is_panic (fst (publish_completion s))"

text \<open>One step of an operation: a call, a cancellation through a handle, or a use of an effect attempt.\<close>

inductive operation_step :: "serializers \<Rightarrow> owned \<times> u64 set \<Rightarrow> owned \<times> u64 set \<Rightarrow> bool" for z where
  op_call: "operation_step z (s, live) (run_call z c s, live)"
| op_cancel: "operation_step z (s, live) (s\<lparr>own_operation := snd (handle_cancel (own_operation s))\<rparr>, live)"
| op_effect:
    "ledger_step (sz_effect z) \<lparr>ls_ledger = op_effects (own_operation s), ls_live = live\<rparr> \<lparr>ls_ledger = l, ls_live = live'\<rparr> \<Longrightarrow>
     operation_step z (s, live) (s\<lparr>own_operation := (own_operation s)\<lparr>op_effects := l\<rparr>\<rparr>, live')"

record owner_part =
  pv_finalization :: "finalization_ownership option"
  pv_pending :: "operation_snapshot option"
  pv_checkpoint :: "pending_checkpoint option"
  pv_live :: "u64 set"

definition private_part :: "owned \<times> u64 set \<Rightarrow> owner_part" where
  "private_part x = \<lparr>pv_finalization = own_finalization (fst x), pv_pending = own_pending (fst x),
     pv_checkpoint = own_checkpoint (fst x), pv_live = snd x\<rparr>"

definition whole_operation :: "operation \<Rightarrow> owner_part \<Rightarrow> owned \<times> u64 set" where
  "whole_operation op v = (\<lparr>own_operation = op, own_finalization = pv_finalization v, own_pending = pv_pending v,
     own_checkpoint = pv_checkpoint v\<rparr>, pv_live v)"

record registry_system =
  rs_registry :: operation_registry
  rs_reservations :: "operation_reservation list"
  rs_private :: "string \<Rightarrow> owner_part"

definition replace_operation :: "operation_registry \<Rightarrow> string \<Rightarrow> operation \<Rightarrow> operation_registry" where
  "replace_operation g i op =
     g\<lparr>reg_state := (reg_state g)\<lparr>guarded := (guarded (reg_state g))\<lparr>ors_records :=
       bt_insert i op (ors_records (guarded (reg_state g)))\<rparr>\<rparr>\<rparr>"

inductive registry_step :: "serializers \<Rightarrow> registry_system \<Rightarrow> registry_system \<Rightarrow> bool" for z where
  rs_admit:
    "admit_with_reservation (sz_context z) now (rs_registry s) control None make_context = (Ok (w, r), g) \<Longrightarrow>
     registry_step z s (s\<lparr>rs_registry := g,
       rs_private := (rs_private s)(op_ident (own_operation w) := private_part (w, {}))\<rparr>)"
| rs_admit_failed:
    "admit_with_reservation (sz_context z) now (rs_registry s) control None make_context = (Err e, g) \<Longrightarrow>
     registry_step z s (s\<lparr>rs_registry := g\<rparr>)"
| rs_reserve:
    "reserve_context (sz_context z) (rs_registry s) make_context = (Ok r, g) \<Longrightarrow>
     registry_step z s (s\<lparr>rs_registry := g, rs_reservations := r # rs_reservations s\<rparr>)"
| rs_reserve_failed:
    "reserve_context (sz_context z) (rs_registry s) make_context = (Err e, g) \<Longrightarrow>
     registry_step z s (s\<lparr>rs_registry := g\<rparr>)"
| rs_admit_reserved:
    "rs_reservations s = xs @ r # ys \<Longrightarrow>
     admit_reserved (sz_context z) now (rs_registry s) r control = (Ok (w, r'), g) \<Longrightarrow>
     registry_step z s (s\<lparr>rs_registry := g, rs_reservations := xs @ ys,
       rs_private := (rs_private s)(op_ident (own_operation w) := private_part (w, {}))\<rparr>)"
| rs_admit_reserved_failed:
    "r \<in> set (rs_reservations s) \<Longrightarrow> admit_reserved (sz_context z) now (rs_registry s) r control = (Err e, g) \<Longrightarrow>
     registry_step z s (s\<lparr>rs_registry := g\<rparr>)"
| rs_drop_reservation:
    "rs_reservations s = xs @ r # ys \<Longrightarrow>
     registry_step z s (s\<lparr>rs_registry := snd (drop_operation_reservation (rs_registry s) r), rs_reservations := xs @ ys\<rparr>)"
| rs_forget:
    "registry_step z s (s\<lparr>rs_registry := snd (registry_forget (rs_registry s) i)\<rparr>)"
| rs_operation:
    "bt_get (ors_records (guarded (reg_state (rs_registry s)))) i = Some op \<Longrightarrow>
     operation_step z (whole_operation op (rs_private s i)) t \<Longrightarrow>
     registry_step z s (s\<lparr>rs_registry := replace_operation (rs_registry s) i (own_operation (fst t)),
       rs_private := (rs_private s)(i := private_part t)\<rparr>)"

inductive registry_reachable :: "serializers \<Rightarrow> registry_system \<Rightarrow> bool" for z where
  registry_start:
    "registry_new address journal runtime_id config = Ok g \<Longrightarrow>
     registry_reachable z \<lparr>rs_registry = g, rs_reservations = [], rs_private = private\<rparr>"
| registry_next: "registry_reachable z s \<Longrightarrow> registry_step z s t \<Longrightarrow> registry_reachable z t"

end
