(* ===== verification/Operation_Inv.thy ===== *)
theory Operation_Inv
  imports Operation_Lifecycle
begin

text \<open>
  The invariant of an operation with its owner: the published snapshot carries consistent evidence, a
  retained checkpoint or terminal candidate is a legal successor of it, and the effect journal is
  sealed before a terminal candidate exists. Every call of the owner, of an attempt or of a handle
  keeps it and moves the published snapshot only to a legal successor.
\<close>

abbreviation cur :: "owned \<Rightarrow> operation_snapshot" where
  "cur s \<equiv> guarded (op_snapshot (own_operation s))"

abbreviation led :: "owned \<Rightarrow> ledger_state" where
  "led s \<equiv> guarded (led_state (op_effects (own_operation s)))"

section \<open>Consistent snapshots\<close>

definition result_shape :: "operation_snapshot \<Rightarrow> bool" where
  "result_shape x \<longleftrightarrow>
     (if sn_phase x = OpSucceeded then sn_value x \<noteq> None \<and> sn_error x = None
      else if is_terminal (sn_phase x)
      then sn_value x = None \<and> (\<exists>e. sn_error x = Some e \<and> (sn_phase x = OpCancelled \<longleftrightarrow> err_code e = Cancelled))
      else sn_value x = None \<and> sn_error x = None)"

definition snapshot_ok :: "operation_snapshot \<Rightarrow> bool" where
  "snapshot_ok x \<longleftrightarrow> validate_finalization x = Ok () \<and> result_shape x"

definition follows :: "operation_snapshot \<Rightarrow> operation_snapshot \<Rightarrow> bool" where
  "follows x y \<longleftrightarrow>
     validate_finalization_successor y x = Ok () \<and> sn_operation_id y = sn_operation_id x \<and> sn_context y = sn_context x \<and>
     (phase_transition (sn_phase x) (sn_phase y) \<or> sn_phase x = OpCleaning \<and> (sn_phase y = OpCleaning \<or> is_terminal (sn_phase y)))"

definition count_ok :: "ledger_state \<Rightarrow> operation_snapshot \<Rightarrow> bool" where
  "count_ok l x \<longleftrightarrow>
     (case sn_finalization x of None \<Rightarrow> True | Some f \<Rightarrow> fin_business_effect_count f \<le> length (led_records l))"

text \<open>Finalization evidence exists only with its owner, and a closing outcome only once it was prepared.\<close>

definition evidence_owned :: "finalization_ownership option \<Rightarrow> operation_snapshot \<Rightarrow> bool" where
  "evidence_owned owner x \<longleftrightarrow>
     (\<forall>f. sn_finalization x = Some f \<longrightarrow> (\<exists>w. owner = Some w \<and> (fin_outcome f \<noteq> None \<longrightarrow> fo_outcome_prepared w)))"

definition candidate_ok :: "owned \<Rightarrow> operation_snapshot \<Rightarrow> bool" where
  "candidate_ok s x \<longleftrightarrow> snapshot_ok x \<and> follows (cur s) x \<and> \<not> is_terminal (sn_phase x) \<and> count_ok (led s) x \<and>
     evidence_owned (own_finalization s) x"

definition terminal_ok :: "owned \<Rightarrow> operation_snapshot \<Rightarrow> bool" where
  "terminal_ok s x \<longleftrightarrow> snapshot_ok x \<and> follows (cur s) x \<and> is_terminal (sn_phase x) \<and> sn_finalization x = sn_finalization (cur s)"

definition op_inv :: "(host_effect_record \<Rightarrow> serialization) \<Rightarrow> usize \<Rightarrow> u64 set \<Rightarrow> owned \<Rightarrow> bool" where
  "op_inv ser ctx live s \<longleftrightarrow>
     \<not> poisoned (op_snapshot (own_operation s)) \<and> \<not> poisoned (op_transition (own_operation s)) \<and>
     ledger_inv ser ctx \<lparr>ls_ledger = op_effects (own_operation s), ls_live = live\<rparr> \<and>
     snapshot_ok (cur s) \<and> count_ok (led s) (cur s) \<and>
     (\<forall>pc. transition_of s = Some pc \<longrightarrow> queued_history s \<and> own_pending s = None \<and>
        (pc_effect pc = None \<longrightarrow> candidate_ok s (pc_snapshot pc))) \<and>
     (\<forall>p. own_pending s = Some p \<longrightarrow> sn_phase (cur s) = OpCleaning \<and> led_sealed (led s) \<and> terminal_ok s p) \<and>
     (\<forall>f. own_finalization s = Some f \<and> fo_control_issued f \<longrightarrow> sn_finalization (cur s) \<noteq> None) \<and>
     (\<forall>pc. own_checkpoint s = Some pc \<longrightarrow> queued_history s \<and> own_pending s = Some (pc_snapshot pc)) \<and>
     evidence_owned (own_finalization s) (cur s) \<and>
     (own_finalization s \<noteq> None \<longrightarrow> op_history (own_operation s) = None \<or> queued_history s)"

lemma op_invD:
  assumes "op_inv ser ctx live s"
  shows "\<not> poisoned (op_snapshot (own_operation s))" "\<not> poisoned (op_transition (own_operation s))"
    "ledger_inv ser ctx \<lparr>ls_ledger = op_effects (own_operation s), ls_live = live\<rparr>"
    "snapshot_ok (cur s)" "count_ok (led s) (cur s)"
    "transition_of s = Some pc \<Longrightarrow> queued_history s \<and> own_pending s = None \<and>
        (pc_effect pc = None \<longrightarrow> candidate_ok s (pc_snapshot pc))"
    "own_pending s = Some p \<Longrightarrow> sn_phase (cur s) = OpCleaning \<and> led_sealed (led s) \<and> terminal_ok s p"
    "own_finalization s = Some f \<Longrightarrow> fo_control_issued f \<Longrightarrow> sn_finalization (cur s) \<noteq> None"
    "own_checkpoint s = Some pc \<Longrightarrow> queued_history s \<and> own_pending s = Some (pc_snapshot pc)"
    "evidence_owned (own_finalization s) (cur s)"
    "own_finalization s \<noteq> None \<Longrightarrow> op_history (own_operation s) = None \<or> queued_history s"
  using assms unfolding op_inv_def by blast+

lemma op_invI:
  assumes "\<not> poisoned (op_snapshot (own_operation s))" "\<not> poisoned (op_transition (own_operation s))"
    "ledger_inv ser ctx \<lparr>ls_ledger = op_effects (own_operation s), ls_live = live\<rparr>"
    "snapshot_ok (cur s)" "count_ok (led s) (cur s)"
    "\<And>pc. transition_of s = Some pc \<Longrightarrow> queued_history s \<and> own_pending s = None \<and>
        (pc_effect pc = None \<longrightarrow> candidate_ok s (pc_snapshot pc))"
    "\<And>p. own_pending s = Some p \<Longrightarrow> sn_phase (cur s) = OpCleaning \<and> led_sealed (led s) \<and> terminal_ok s p"
    "\<And>f. own_finalization s = Some f \<Longrightarrow> fo_control_issued f \<Longrightarrow> sn_finalization (cur s) \<noteq> None"
    "\<And>pc. own_checkpoint s = Some pc \<Longrightarrow> queued_history s \<and> own_pending s = Some (pc_snapshot pc)"
    "evidence_owned (own_finalization s) (cur s)"
    "own_finalization s \<noteq> None \<Longrightarrow> op_history (own_operation s) = None \<or> queued_history s"
  shows "op_inv ser ctx live s"
  using assms unfolding op_inv_def by blast

text \<open>A call is safe from \<open>s\<close>: it keeps the invariant and publishes at most one legal successor.\<close>

definition good :: "(host_effect_record \<Rightarrow> serialization) \<Rightarrow> usize \<Rightarrow> u64 set \<Rightarrow> owned \<Rightarrow> owned \<Rightarrow> bool" where
  "good ser ctx live s t \<longleftrightarrow> op_inv ser ctx live t \<and> (cur t = cur s \<or> follows (cur s) (cur t))"

lemma good_refl [simp, intro]: "op_inv ser ctx live s \<Longrightarrow> good ser ctx live s s"
  by (simp add: good_def)

section \<open>Facts on snapshots\<close>

lemma result_shape_cases:
  "result_shape x \<Longrightarrow> \<not> is_terminal (sn_phase x) \<Longrightarrow> sn_value x = None \<and> sn_error x = None"
  by (auto simp: result_shape_def split: if_splits)

lemma early_phase_no_finalization:
  assumes "snapshot_ok x" "\<not> is_terminal (sn_phase x)" "sn_phase x \<noteq> OpCleaning"
  shows "sn_finalization x = None"
  using assms by (auto simp: snapshot_ok_def validate_finalization_def split: option.splits if_splits)

lemma successor_same_evidence [simp]:
  "sn_finalization y = sn_finalization x \<Longrightarrow> validate_finalization_successor y x = Ok ()"
  by (auto simp: validate_finalization_successor_def split: option.splits)

lemma no_finalization_valid [simp]: "sn_finalization x = None \<Longrightarrow> validate_finalization x = Ok ()"
  by (simp add: validate_finalization_def)

lemma op_project_Ok:
  assumes "op_project op x = Ok y"
  shows "sn_finalization y = sn_finalization x" "sn_value y = sn_value x" "sn_error y = sn_error x"
    "sn_operation_id y = sn_operation_id x" "sn_context y = sn_context x"
    "ledger_snapshot (op_effects op) = Ok (sn_host_effects y)"
    "sn_phase x = OpCleaning \<Longrightarrow> sn_phase y = OpCleaning"
  using assms by (auto simp: op_project_def Let_def split: if_splits)

lemma op_project_not_panic [simp]: "\<not> is_panic (op_project op x)"
  by (auto simp: op_project_def ledger_snapshot_def Let_def)

section \<open>Symbolic execution of the shared steps\<close>

lemma wp_hold_transition [wp_simps]:
  "wp (hold_transition e body) Q R = (\<lambda>s. if poisoned (op_transition (own_operation s)) then R s else wp body Q R s)"
  by (auto simp: wp_def fun_eq_iff hold_transition_def split: prod.splits outcome.splits)

lemma op_lock_healthy [simp]: "\<not> poisoned (op_snapshot op) \<Longrightarrow> op_lock op = Ok (guarded (op_snapshot op))"
  by (simp add: op_lock_def)

lemma wp_read_snapshot:
  "\<not> poisoned (op_snapshot (own_operation s)) \<Longrightarrow> wp read_snapshot Q R s = Q (cur s) s"
  by (simp add: read_snapshot_def wp_simps)

lemma wp_publish_snapshot:
  "\<not> poisoned (op_snapshot (own_operation s)) \<Longrightarrow> wp (publish_snapshot x) Q R s = Q () (set_snapshot x s)"
  by (simp add: publish_snapshot_def wp_simps wp_read_snapshot)

lemma set_snapshot_simps [simp]:
  "cur (set_snapshot x s) = x" "\<not> poisoned (op_snapshot (own_operation (set_snapshot x s)))"
  "op_transition (own_operation (set_snapshot x s)) = op_transition (own_operation s)"
  "transition_of (set_snapshot x s) = transition_of s"
  "op_effects (own_operation (set_snapshot x s)) = op_effects (own_operation s)"
  "op_history (own_operation (set_snapshot x s)) = op_history (own_operation s)"
  "own_pending (set_snapshot x s) = own_pending s" "own_finalization (set_snapshot x s) = own_finalization s"
  "own_checkpoint (set_snapshot x s) = own_checkpoint s" "queued_history (set_snapshot x s) = queued_history s"
  by (simp_all add: set_snapshot_def transition_of_def queued_history_def)

lemma set_transition_simps [simp]:
  "op_snapshot (own_operation (set_transition t s)) = op_snapshot (own_operation s)"
  "poisoned (op_transition (own_operation (set_transition t s))) = poisoned (op_transition (own_operation s))"
  "transition_of (set_transition t s) = t"
  "op_effects (own_operation (set_transition t s)) = op_effects (own_operation s)"
  "op_history (own_operation (set_transition t s)) = op_history (own_operation s)"
  "own_pending (set_transition t s) = own_pending s" "own_finalization (set_transition t s) = own_finalization s"
  "own_checkpoint (set_transition t s) = own_checkpoint s" "queued_history (set_transition t s) = queued_history s"
  "op_control (own_operation (set_transition t s)) = op_control (own_operation s)"
  by (simp_all add: set_transition_def transition_of_def queued_history_def)

section \<open>Driving a checkpoint\<close>

lemma resume_attempt_resolved [simp]: "resume_attempt resp h x retry a \<noteq> NewAttempt"
  by (auto simp: resume_attempt_def Let_def split: checkpoint_attempt.splits sum.splits)

lemma history_accept_cases:
  "(\<exists>e. history_accept h p n = (Err e, h)) \<or>
   history_accept h p n = (Ok (), h\<lparr>hs_revision := mutex_new (Some n)\<rparr>)"
  by (auto simp: history_accept_def)

lemma drive_attempt_keeps:
  assumes "drive_attempt resp h pc wait retry = (r, h', pc')"
  shows "pc_effect pc' = pc_effect pc \<and> pc_snapshot pc' = pc_snapshot pc \<and> hs_backend h' = hs_backend h \<and> \<not> is_panic r \<and>
    (r = Ok True \<longrightarrow> pc_attempt pc' = Acknowledged)"
proof (cases "resume_attempt resp h (pc_snapshot pc) retry (pc_attempt pc)")
  case (Submitted previous)
  let ?o = "if wait then jr_wait resp previous else jr_poll resp previous"
  show ?thesis
  proof (cases ?o)
    case (Inl e)
    then show ?thesis using assms Submitted by (auto simp: drive_attempt_def Let_def)
  next
    case (Inr w)
    then show ?thesis
      using assms Submitted history_accept_cases [of h previous "projr (acknowledged w)"]
      by (cases "acknowledged w") (auto simp: drive_attempt_def Let_def split: if_splits)
  qed
qed (use assms in \<open>auto simp: drive_attempt_def Let_def\<close>)

lemma drive_keeps:
  assumes "drive resp h pc wait retry = (r, h', pc')"
  shows "pc_effect pc' = pc_effect pc \<and> pc_snapshot pc' = pc_snapshot pc \<and> hs_backend h' = hs_backend h \<and> \<not> is_panic r \<and>
    (r = Ok True \<longrightarrow> pc_attempt pc' = Acknowledged)"
proof -
  define again where "again = (retry \<or> pc_retry pc = RetryRequested)"
  define pc0 where "pc0 = (if again then pc\<lparr>pc_retry := Retrying\<rparr> else pc)"
  obtain r0 h0 pc1 where d: "drive_attempt resp h pc0 wait again = (r0, h0, pc1)" by (metis prod_cases3)
  have "pc_effect pc0 = pc_effect pc" "pc_snapshot pc0 = pc_snapshot pc" by (simp_all add: pc0_def)
  then show ?thesis
    using assms drive_attempt_keeps [OF d] d
    by (cases r0) (auto simp: drive_def Let_def pc0_def [symmetric] again_def [symmetric] split: bool.splits)
qed

abbreviation with_history :: "operation_history \<Rightarrow> owned \<Rightarrow> owned" where
  "with_history h s \<equiv> s\<lparr>own_operation := (own_operation s)\<lparr>op_history := Some h\<rparr>\<rparr>"

lemma with_history_simps [simp]:
  "transition_of (with_history h s) = transition_of s"
  "op_history (own_operation s) = Some h0 \<Longrightarrow> hs_backend h = hs_backend h0 \<Longrightarrow> queued_history (with_history h s) = queued_history s"
  by (simp_all add: transition_of_def queued_history_def history_is_queued_def)

lemma frame_inv:
  assumes "op_inv ser ctx live s"
    and "op_snapshot (own_operation t) = op_snapshot (own_operation s)"
    and "op_transition (own_operation t) = op_transition (own_operation s)"
    and "op_effects (own_operation t) = op_effects (own_operation s)" "queued_history t = queued_history s"
    and "(op_history (own_operation t) = None) = (op_history (own_operation s) = None)"
    and "own_pending t = own_pending s" "own_finalization t = own_finalization s" "own_checkpoint t = own_checkpoint s"
  shows "op_inv ser ctx live t"
  using assms(1) unfolding op_inv_def candidate_ok_def terminal_ok_def transition_of_def assms(2-9) .

lemma set_transition_inv:
  assumes inv: "op_inv ser ctx live s"
    and "\<And>pc. t = Some pc \<Longrightarrow> queued_history s \<and> own_pending s = None \<and>
      (pc_effect pc = None \<longrightarrow> candidate_ok s (pc_snapshot pc))"
  shows "op_inv ser ctx live (set_transition t s)"
  using inv assms(2) unfolding op_inv_def candidate_ok_def terminal_ok_def set_transition_simps by blast

lemma wp_drive_transition:
  assumes inv: "op_inv ser ctx live s" and pc: "transition_of s = Some pc"
    and post: "\<And>b t pc'. op_inv ser ctx live t \<Longrightarrow> cur t = cur s \<Longrightarrow> transition_of t = Some pc' \<Longrightarrow>
        pc_effect pc' = pc_effect pc \<Longrightarrow> pc_snapshot pc' = pc_snapshot pc \<Longrightarrow> Q b t"
    and fails: "\<And>t. op_inv ser ctx live t \<Longrightarrow> cur t = cur s \<Longrightarrow> queued_history t \<Longrightarrow> R t"
  shows "wp (drive_transition resp wait retry) Q R s"
proof -
  from op_invD(6) [OF inv pc] obtain h where h: "op_history (own_operation s) = Some h"
    by (auto simp: queued_history_def split: option.splits)
  obtain r h' pc' where d: "drive resp h pc wait retry = (r, h', pc')" by (metis prod_cases3)
  note k = drive_keeps [OF d]
  let ?t = "set_transition (Some pc') (with_history h' s)"
  have "op_inv ser ctx live (with_history h' s)"
    by (rule frame_inv [OF inv]) (use h k in simp_all)
  then have t: "op_inv ser ctx live ?t" "cur ?t = cur s" "transition_of ?t = Some pc'"
    using op_invD(6) [OF inv pc] h k by (auto intro!: set_transition_inv simp: candidate_ok_def)
  then show ?thesis
    using k post [OF t] fails [OF t(1,2)] op_invD(6) [OF t(1,3)] by (cases r) (auto simp: wp_def drive_transition_def h pc d)
qed

section \<open>Publishing\<close>

lemma successor_keeps_finalization:
  "validate_finalization_successor y x = Ok () \<Longrightarrow> sn_finalization x \<noteq> None \<Longrightarrow> sn_finalization y \<noteq> None"
  by (auto simp: validate_finalization_successor_def split: option.splits)

lemma publish_candidate:
  assumes inv: "op_inv ser ctx live s" and c: "candidate_ok s x" and p: "own_pending s = None" and t: "transition_of s = None"
  shows "good ser ctx live s (set_snapshot x s)"
proof -
  have "own_checkpoint s = None" using op_invD(9) [OF inv] p by (cases "own_checkpoint s") auto
  moreover have "sn_finalization (cur s) \<noteq> None \<Longrightarrow> sn_finalization x \<noteq> None"
    using c successor_keeps_finalization by (auto simp: candidate_ok_def follows_def)
  ultimately have "op_inv ser ctx live (set_snapshot x s)"
    using op_invD(1-5,8,11) [OF inv] c p t by (intro op_invI) (auto simp: candidate_ok_def)
  then show ?thesis using c by (simp add: good_def candidate_ok_def)
qed

lemma publish_retained:
  assumes inv: "op_inv ser ctx live s" and pc: "transition_of s = Some pc" "pc_effect pc = None"
  shows "good ser ctx live s (set_transition None (set_snapshot (pc_snapshot pc) s))"
proof -
  have c: "candidate_ok s (pc_snapshot pc)" "own_pending s = None" using op_invD(6) [OF inv pc(1)] pc(2) by auto
  have "op_inv ser ctx live (set_transition None s)" by (rule set_transition_inv [OF inv]) simp
  then have "good ser ctx live (set_transition None s) (set_snapshot (pc_snapshot pc) (set_transition None s))"
    using c by (intro publish_candidate) (auto simp: candidate_ok_def)
  moreover have "set_snapshot (pc_snapshot pc) (set_transition None s) = set_transition None (set_snapshot (pc_snapshot pc) s)"
    by (simp add: set_snapshot_def set_transition_def)
  ultimately show ?thesis by (simp add: good_def)
qed

lemma publish_terminal:
  assumes inv: "op_inv ser ctx live s" and p: "own_pending s = Some p" and x: "terminal_ok s x"
  shows "good ser ctx live s ((set_snapshot x (s\<lparr>own_checkpoint := None\<rparr>))\<lparr>own_pending := None\<rparr>)"
proof -
  have t: "transition_of s = None" using op_invD(6) [OF inv] p by (cases "transition_of s") auto
  have f: "sn_finalization x = sn_finalization (cur s)" using x by (simp add: terminal_ok_def)
  let ?t = "(set_snapshot x (s\<lparr>own_checkpoint := None\<rparr>))\<lparr>own_pending := None\<rparr>"
  have "transition_of ?t = None" using t by (simp add: transition_of_def set_snapshot_def)
  then have "op_inv ser ctx live ?t"
    using op_invD(1-5,8,10,11) [OF inv] x f by (intro op_invI) (auto simp: queued_history_def terminal_ok_def count_ok_def evidence_owned_def)
  then show ?thesis using x by (simp add: good_def terminal_ok_def)
qed

end
