(* ===== verification/Operation_Steps.thy ===== *)
theory Operation_Steps
  imports Operation_Inv
begin

text \<open>
  Every call on an operation is safe: one lemma per function of the lifecycle, by symbolic execution of
  its definition from a state satisfying the invariant.
\<close>

section \<open>Advancing\<close>

lemma advanced_candidate:
  assumes ok: "snapshot_ok (cur s)" and adv: "advance_snapshot (cur s) phase = Ok x"
  shows "sn_finalization x = None" "sn_value x = None" "sn_error x = None" "sn_operation_id x = sn_operation_id (cur s)"
    "sn_context x = sn_context (cur s)" "phase_transition (sn_phase (cur s)) phase" "sn_phase x = phase"
    "\<not> is_terminal phase"
proof -
  from adv have p: "phase_transition (sn_phase (cur s)) phase"
    and x: "x = (cur s)\<lparr>sn_phase := phase, sn_effects := (if phase = OpCleaning then sn_effects (cur s) else UnknownEffect)\<rparr>"
    by (auto simp: advance_snapshot_Ok)
  note n = phase_transition_not_terminal [OF p]
  show "sn_finalization x = None" using early_phase_no_finalization [OF ok] n x by simp
  show "sn_value x = None" "sn_error x = None" using result_shape_cases ok n x by (auto simp: snapshot_ok_def)
  show "sn_operation_id x = sn_operation_id (cur s)" "sn_context x = sn_context (cur s)" "sn_phase x = phase"
    "phase_transition (sn_phase (cur s)) phase" "\<not> is_terminal phase"
    using x p n by simp_all
qed

lemma advanced_ok:
  assumes ok: "snapshot_ok (cur s)" and adv: "advance_snapshot (cur s) phase = Ok x"
    and y: "sn_finalization y = sn_finalization x" "sn_value y = sn_value x" "sn_error y = sn_error x"
      "sn_operation_id y = sn_operation_id x" "sn_context y = sn_context x" "sn_phase y = phase"
  shows "candidate_ok s y"
proof -
  note a = advanced_candidate [OF ok adv]
  have "sn_finalization (cur s) = None"
    using early_phase_no_finalization [OF ok] phase_transition_not_terminal [OF a(6)] by blast
  then have "validate_finalization_successor y (cur s) = Ok ()" by (simp add: validate_finalization_successor_def)
  then show ?thesis
    using a y by (auto simp: candidate_ok_def snapshot_ok_def result_shape_def follows_def count_ok_def evidence_owned_def)
qed

lemma never_panics [simp]:
  "advance_snapshot x p \<noteq> Panic q" "op_project op x \<noteq> Panic q" "control_new now timeout \<noteq> Panic q"
  "completion_result e f r \<noteq> Panic q" "json_size w n \<noteq> Panic q" "ledger_snapshot l \<noteq> Panic q"
  "ok_or err v \<noteq> Panic q"
proof -
  show "op_project op x \<noteq> Panic q" using op_project_not_panic [of op x] by fastforce
  show "completion_result e f r \<noteq> Panic q"
    by (auto simp: completion_result_def split: option.splits operation_outcome.splits)
  show "ok_or err v \<noteq> Panic q" by (cases v) auto
  show "control_new now timeout \<noteq> Panic q"
    by (auto simp: control_new_def instant_checked_add_def)
qed (auto simp: advance_snapshot_def json_size_eq ledger_snapshot_def)

lemma wp_advance_candidate:
  assumes inv: "op_inv ser ctx live s" and post: "\<And>x. candidate_ok s x \<Longrightarrow> sn_phase x = phase \<Longrightarrow> Q x s" and fails: "R s"
  shows "wp (advance_candidate phase) Q R s"
proof -
  have "candidate_ok s (y\<lparr>sn_phase := phase\<rparr>)"
    if "advance_snapshot (cur s) phase = Ok x" "op_project (own_operation s) x = Ok y" for x y
    using advanced_ok [OF op_invD(4) [OF inv] that(1)] op_project_Ok [OF that(2)] by simp
  then show ?thesis
    using post fails op_invD(1) [OF inv]
    by (auto simp: advance_candidate_def wp_simps wp_read_snapshot split: outcome.splits)
qed

lemma good_same: "op_inv ser ctx live t \<Longrightarrow> cur t = cur s \<Longrightarrow> good ser ctx live s t"
  by (simp add: good_def)

lemma good_trans: "cur t = cur s \<Longrightarrow> good ser ctx live t u \<Longrightarrow> good ser ctx live s u"
  by (simp add: good_def)

lemma wp_publish_acknowledged:
  assumes u: "op_inv ser ctx live u" "transition_of u = Some pc" "cur u = cur s"
  shows "wp publish_acknowledged (\<lambda>_. good ser ctx live s) (good ser ctx live s) u"
proof -
  have "good ser ctx live s (set_transition None (set_snapshot (pc_snapshot pc) u))" if "pc_effect pc = None"
    using good_trans [OF u(3) publish_retained [OF u(1,2) that]] .
  moreover have "good ser ctx live s (set_transition None u)"
    using set_transition_inv [OF u(1), of None] u(3) by (simp add: good_same)
  ultimately show ?thesis
    using good_same [OF u(1,3)] u(2) op_invD(1) [OF u(1)]
    by (auto simp: publish_acknowledged_def wp_simps wp_publish_snapshot split: option.splits checkpoint_effect.splits)
qed

lemma wp_retain_candidate:
  assumes inv: "op_inv ser ctx live s" and queued: "queued_history s" and pending: "own_pending s = None"
    and post: "\<And>t pc. op_inv ser ctx live t \<Longrightarrow> transition_of t = Some pc \<Longrightarrow> cur t = cur s \<Longrightarrow> Q () t"
    and fails: "R s"
  shows "wp (retain_candidate phase) Q R s"
proof (cases "transition_of s")
  case None
  have "op_inv ser ctx live (set_transition (Some (checkpoint_new x)) s)" if "candidate_ok s x" for x
    by (rule set_transition_inv [OF inv]) (use that queued pending in \<open>simp add: checkpoint_new_def\<close>)
  then show ?thesis
    using None fails
    by (auto simp: retain_candidate_def wp_simps intro!: wp_advance_candidate [OF inv] post)
next
  case (Some pc)
  then show ?thesis using fails post [OF inv Some] by (simp add: retain_candidate_def wp_simps)
qed

lemma wp_drive_advance:
  assumes inv: "op_inv ser ctx live s" and queued: "queued_history s" and pending: "own_pending s = None"
  shows "wp (drive_advance resp phase wait retry) (\<lambda>_. good ser ctx live s) (good ser ctx live s) s"
  unfolding drive_advance_def
proof (intro wp_bindI wp_retain_candidate [OF inv queued pending])
  fix t pc
  assume t: "op_inv ser ctx live t" "transition_of t = Some pc" "cur t = cur s"
  show "wp (drive_transition resp wait retry)
      (\<lambda>x. wp (if x then publish_acknowledged else ret False) (\<lambda>_. good ser ctx live s) (good ser ctx live s))
      (good ser ctx live s) t"
    by (rule wp_drive_transition [OF t(1,2)])
      (auto simp: wp_simps t(3) intro!: wp_publish_acknowledged good_same)
qed (simp add: inv)

section \<open>Calls that advance\<close>

lemma transition_queued:
  assumes "op_inv ser ctx live s" "\<not> queued_history s"
  shows "transition_of s = None"
  using op_invD(6) [OF assms(1)] assms(2) by (cases "transition_of s") auto

lemma publish_advanced:
  assumes inv: "op_inv ser ctx live s" and "own_pending s = None" "\<not> queued_history s"
    and "advance_snapshot (cur s) phase = Ok x"
  shows "good ser ctx live s (set_snapshot x s)"
  using publish_candidate [OF inv advanced_ok [OF op_invD(4) [OF inv] assms(4)]] assms(2)
    transition_queued [OF inv assms(3)] advanced_candidate(7) [OF op_invD(4) [OF inv] assms(4)] by simp

lemma history_checkpoint_keeps:
  "hs_backend (snd (history_checkpoint resp h x)) = hs_backend h" "\<not> is_panic (fst (history_checkpoint resp h x))"
  by (auto simp: history_checkpoint_def split: sum.splits)

lemma wp_operation_checkpoint:
  assumes inv: "op_inv ser ctx live s"
    and post: "\<And>t. op_inv ser ctx live t \<Longrightarrow> cur t = cur s \<Longrightarrow> own_pending t = own_pending s \<Longrightarrow>
      led t = led s \<Longrightarrow> queued_history t = queued_history s \<Longrightarrow> own_checkpoint t = own_checkpoint s \<Longrightarrow>
      own_finalization t = own_finalization s \<Longrightarrow> Q () t \<and> R t"
  shows "wp (operation_checkpoint resp x) Q R s"
proof (cases "op_history (own_operation s)")
  case None
  then show ?thesis using post [OF inv] by (simp add: wp_def operation_checkpoint_def)
next
  case (Some h)
  obtain r h' where d: "history_checkpoint resp h x = (r, h')" by (cases "history_checkpoint resp h x")
  then have k: "hs_backend h' = hs_backend h" "\<not> is_panic r" using history_checkpoint_keeps [of resp h x] by auto
  have q: "queued_history (with_history h' s) = queued_history s" using Some k by simp
  have "op_inv ser ctx live (with_history h' s)" by (rule frame_inv [OF inv]) (use q Some in simp_all)
  then show ?thesis
    using post [of "with_history h' s"] Some d k q by (cases r) (auto simp: wp_def operation_checkpoint_def)
qed

lemma wp_owner_advance:
  assumes inv: "op_inv ser ctx live s"
  shows "wp (owner_advance resp phase) (\<lambda>_. good ser ctx live s) (good ser ctx live s) s"
proof -
  have direct: "wp (bind_action (advance_candidate phase) (\<lambda>x. bind_action (operation_checkpoint resp x) (\<lambda>_. publish_snapshot x)))
      (\<lambda>_. good ser ctx live s) (good ser ctx live s) s" if "own_pending s = None" "\<not> queued_history s"
  proof (intro wp_bindI wp_advance_candidate [OF inv] wp_operation_checkpoint [OF inv] conjI)
    fix x t
    assume x: "candidate_ok s x" and t: "op_inv ser ctx live t" "cur t = cur s" "own_pending t = own_pending s" "led t = led s"
      "queued_history t = queued_history s" "own_finalization t = own_finalization s"
    have "good ser ctx live t (set_snapshot x t)"
      using publish_candidate [OF t(1)] x t that transition_queued [OF t(1)] by (simp add: candidate_ok_def)
    then show "wp (publish_snapshot x) (\<lambda>_. good ser ctx live s) (good ser ctx live s) t"
      using good_trans [OF t(2)] op_invD(1) [OF t(1)] by (simp add: wp_publish_snapshot)
  qed (auto simp: inv intro: good_same)
  show ?thesis
    using op_invD(1,2) [OF inv] inv direct publish_advanced [OF inv] wp_drive_advance [OF inv]
    by (auto simp: owner_advance_def no_pending_completion_def wp_simps wp_read_snapshot queued_history_def
        simp del: wp_bind intro!: wp_bindI split: outcome.splits option.splits)
qed

end
