(* ===== verification/Operation_Completion.thy ===== *)
theory Operation_Completion
  imports Operation_Steps
begin

text \<open>Completion, finalization and durable effect evidence keep the invariant of an operation.\<close>

section \<open>Changes of the effect journal\<close>

abbreviation with_effects :: "effect_ledger \<Rightarrow> owned \<Rightarrow> owned" where
  "with_effects l s \<equiv> s\<lparr>own_operation := (own_operation s)\<lparr>op_effects := l\<rparr>\<rparr>"

lemma with_effects_simps [simp]:
  "transition_of (with_effects l s) = transition_of s" "queued_history (with_effects l s) = queued_history s"
  "with_effects (op_effects (own_operation s)) s = s"
  by (simp_all add: transition_of_def queued_history_def)

lemma effects_change_inv:
  assumes inv: "op_inv ser ctx live s" and l: "ledger_inv ser ctx \<lparr>ls_ledger = l, ls_live = live'\<rparr>"
    and grows: "length (led_records (led s)) \<le> length (led_records (guarded (led_state l)))"
    and sealed: "led_sealed (led s) \<longrightarrow> led_sealed (guarded (led_state l))"
  shows "op_inv ser ctx live' (with_effects l s)"
proof (rule op_invI)
  have count: "count_ok (led (with_effects l s)) x" if "count_ok (led s) x" for x
    using that grows by (auto simp: count_ok_def split: option.splits)
  show "count_ok (led (with_effects l s)) (cur (with_effects l s))" using count op_invD(5) [OF inv] by simp
  show "queued_history (with_effects l s) \<and> own_pending (with_effects l s) = None \<and>
      (pc_effect pc = None \<longrightarrow> candidate_ok (with_effects l s) (pc_snapshot pc))"
    if "transition_of (with_effects l s) = Some pc" for pc
    using op_invD(6) [OF inv, of pc] that count by (auto simp: candidate_ok_def)
  show "sn_phase (cur (with_effects l s)) = OpCleaning \<and> led_sealed (led (with_effects l s)) \<and> terminal_ok (with_effects l s) p"
    if "own_pending (with_effects l s) = Some p" for p
    using op_invD(7) [OF inv, of p] that sealed by (auto simp: terminal_ok_def)
  show "sn_finalization (cur (with_effects l s)) \<noteq> None" if "own_finalization (with_effects l s) = Some f" "fo_control_issued f" for f
    using op_invD(8) [OF inv, of f] that by simp
  show "queued_history (with_effects l s) \<and> own_pending (with_effects l s) = Some (pc_snapshot pc)"
    if "own_checkpoint (with_effects l s) = Some pc" for pc
    using op_invD(9) [OF inv, of pc] that by simp
qed (use op_invD(1,2,4,10,11) [OF inv] l in simp_all)

definition sealed_journal :: "owned \<Rightarrow> effect_ledger" where
  "sealed_journal s = (op_effects (own_operation s))\<lparr>led_state := mutex_new ((led s)\<lparr>led_sealed := True\<rparr>)\<rparr>"

lemma wp_seal:
  assumes inv: "op_inv ser ctx live s"
    and post: "live = {} \<Longrightarrow> op_inv ser ctx live (with_effects (sealed_journal s) s) \<Longrightarrow>
      Q (bt_values (led_records (led s))) (with_effects (sealed_journal s) s)"
    and fails: "R s"
  shows "wp (on_effects ledger_seal) Q R s"
proof -
  let ?l = "\<lparr>ls_ledger = op_effects (own_operation s), ls_live = live\<rparr>"
  note l = op_invD(3) [OF inv]
  have seal: "ledger_seal (op_effects (own_operation s)) =
      (if live = {} then (Ok (bt_values (led_records (led s))), sealed_journal s)
       else (Err (error_new Busy ''host handlers have not finished execution and cleanup''), op_effects (own_operation s)))"
    using stage_results(2) [OF l] any_unfinished_iff [OF l] ledger_invD(1) [OF l]
    by (auto simp: sealed_journal_def prod_eq_iff ledger_seal_def ledger_with_def mutex_with_def)
  have "op_inv ser ctx live (with_effects (sealed_journal s) s)" if "live = {}"
    using stage_change_inv [OF l, of "(led s)\<lparr>led_sealed := True\<rparr>"] that
    by (intro effects_change_inv [OF inv]) (auto simp: sealed_journal_def)
  then show ?thesis
    using post fails by (auto simp: on_effects_def wp_simps wp_def seal)
qed

lemma journal_completed:
  assumes "op_inv ser ctx {} s"
  shows "list_ex unfinished_effect (bt_values (led_records (led s))) = False"
    "list_ex unfinished_effect (take n (bt_values (led_records (led s)))) = False"
proof -
  have "\<not> unfinished_effect r" if "r \<in> set (bt_values (led_records (led s)))" for r
    using completed_records [OF op_invD(3) [OF assms], of r] that by (simp add: unfinished_effect_def)
  then show "list_ex unfinished_effect (bt_values (led_records (led s))) = False"
    "list_ex unfinished_effect (take n (bt_values (led_records (led s)))) = False"
    by (auto simp: list_ex_iff dest: in_set_takeD)
qed

section \<open>Terminal candidates\<close>

lemma terminal_projection_ok:
  assumes inv: "op_inv ser ctx {} s" and clean: "sn_phase (cur s) = OpCleaning"
    and res: "completion_result (sn_finalization (cur s)) f result = Ok result'"
  shows "terminal_ok s (terminal_projection result'
    ((cur s)\<lparr>sn_host_effects := bt_values (led_records (led s)), sn_effects := e, sn_cancellation_requested := c\<rparr>))"
proof -
  let ?y = "(cur s)\<lparr>sn_host_effects := bt_values (led_records (led s)), sn_effects := e, sn_cancellation_requested := c\<rparr>"
  have ok: "validate_finalization (cur s) = Ok ()" "sn_value (cur s) = None" "sn_error (cur s) = None"
    using op_invD(4) [OF inv] result_shape_cases clean by (auto simp: snapshot_ok_def)
  have "validate_finalization (terminal_projection result' ?y) = Ok ()"
  proof (cases "sn_finalization (cur s)")
    case (Some ev)
    then have "\<not> bad_name (fin_export ev)" "fin_business_effect_count ev \<le> length (bt_values (led_records (led s)))"
      using ok(1) op_invD(5) [OF inv] clean
      by (auto simp: validate_finalization_def count_ok_def bt_values_def split: if_splits)
    moreover obtain closing where "fin_outcome ev = Some closing"
      using res Some by (auto simp: completion_result_def split: if_splits option.splits operation_outcome.splits)
    ultimately show ?thesis
      using Some res ok(2,3) journal_completed [OF inv]
      by (cases "fin_business ev"; cases closing)
        (auto simp: validate_finalization_def terminal_projection_def completion_result_def Let_def split: if_splits)
  qed (cases result'; simp add: terminal_projection_def)
  then show ?thesis
    using ok(2,3) clean
    by (cases result') (auto simp: terminal_ok_def snapshot_ok_def result_shape_def follows_def terminal_projection_def)
qed

section \<open>Completion calls\<close>

lemma set_pending_inv:
  assumes inv: "op_inv ser ctx live s" and clean: "sn_phase (cur s) = OpCleaning" and sealed: "led_sealed (led s)"
    and t: "transition_of s = None" and x: "terminal_ok s x" and c: "own_checkpoint s = None"
  shows "op_inv ser ctx live (s\<lparr>own_pending := Some x\<rparr>)"
proof (rule op_invI)
  show "queued_history (s\<lparr>own_pending := Some x\<rparr>) \<and> own_pending (s\<lparr>own_pending := Some x\<rparr>) = None \<and>
      (pc_effect pc = None \<longrightarrow> candidate_ok (s\<lparr>own_pending := Some x\<rparr>) (pc_snapshot pc))"
    if "transition_of (s\<lparr>own_pending := Some x\<rparr>) = Some pc" for pc
    using that t by (simp add: transition_of_def)
  show "sn_finalization (cur (s\<lparr>own_pending := Some x\<rparr>)) \<noteq> None"
    if "own_finalization (s\<lparr>own_pending := Some x\<rparr>) = Some f" "fo_control_issued f" for f
    using op_invD(8) [OF inv, of f] that by simp
qed (use op_invD(1-5,10,11) [OF inv] clean sealed x c in \<open>simp_all add: terminal_ok_def queued_history_def\<close>)

lemma wp_prepare_completion:
  assumes inv: "op_inv ser ctx live s"
  shows "wp (prepare_completion ser_value ser_error contended result effects) (\<lambda>_. good ser ctx live s) (good ser ctx live s) s"
proof -
  have key: "good ser ctx live s ((with_effects (sealed_journal s) s)\<lparr>own_pending := Some (terminal_projection result'
      ((cur s)\<lparr>sn_host_effects := bt_values (led_records (led s)), sn_effects := e, sn_cancellation_requested := c\<rparr>))\<rparr>)"
    if "own_pending s = None" "transition_of s = None" "sn_phase (cur s) = OpCleaning" "live = {}"
      "completion_result (sn_finalization (cur s)) f r = Ok result'"
      and inv': "op_inv ser ctx live (with_effects (sealed_journal s) s)" for result' e c f r
  proof -
    let ?s = "with_effects (sealed_journal s) s"
    have "own_checkpoint s = None" using op_invD(9) [OF inv] that(1) by (cases "own_checkpoint s") auto
    moreover have "led_sealed (led ?s)" "led_records (led ?s) = led_records (led s)" by (simp_all add: sealed_journal_def)
    ultimately have "op_inv ser ctx live (?s\<lparr>own_pending := Some (terminal_projection result'
      ((cur s)\<lparr>sn_host_effects := bt_values (led_records (led s)), sn_effects := e, sn_cancellation_requested := c\<rparr>))\<rparr>)"
      using terminal_projection_ok [OF inv' [unfolded that(4)], where f = f and result = r and result' = result' and e = e and c = c] that
      by (intro set_pending_inv [OF inv']) auto
    then show ?thesis by (simp add: good_same)
  qed
  show ?thesis
    using op_invD(1,2) [OF inv] inv key
    by (auto simp: prepare_completion_def try_transition_error_def wp_simps wp_read_snapshot
        intro!: wp_seal [OF inv] split: outcome.splits)
qed

lemma wp_completion_ready:
  assumes inv: "op_inv ser ctx live s"
    and post: "\<And>p. own_pending s = Some p \<Longrightarrow> sn_phase (cur s) = OpCleaning \<Longrightarrow> Q p s" and fails: "R s"
  shows "wp completion_ready Q R s"
  using op_invD(1) [OF inv] post fails
  by (cases "own_pending s") (auto simp: completion_ready_def wp_simps wp_read_snapshot)

lemma wp_drive_completion_checkpoint:
  assumes inv: "op_inv ser ctx live s"
    and post: "\<And>b t. op_inv ser ctx live t \<Longrightarrow> cur t = cur s \<Longrightarrow> Q b t \<and> R t"
  shows "wp (drive_completion_checkpoint resp wait retry) Q R s"
proof -
  have step: "wp (\<lambda>s. case op_history (own_operation s) of
         None \<Rightarrow> (Ok True, s)
       | Some h \<Rightarrow>
           if \<not> history_is_queued h then (Err (error_invalid ''nonblocking checkpoints require a journal worker''), s)
           else
             let pc = (case own_checkpoint s of None \<Rightarrow> checkpoint_new p | Some pc \<Rightarrow> pc)
             in case drive resp h pc wait retry of (r, h', pc') \<Rightarrow>
                  (r, s\<lparr>own_checkpoint := Some pc', own_operation := (own_operation s)\<lparr>op_history := Some h'\<rparr>\<rparr>)) Q R s"
    if p: "own_pending s = Some p" for p
  proof (cases "op_history (own_operation s)")
    case (Some h)
    define pc where "pc = (case own_checkpoint s of None \<Rightarrow> checkpoint_new p | Some pc \<Rightarrow> pc)"
    obtain r h' pc' where d: "drive resp h pc wait retry = (r, h', pc')" by (metis prod_cases3)
    note k = drive_keeps [OF d]
    have "pc_snapshot pc = p"
      using p op_invD(9) [OF inv] by (auto simp: pc_def checkpoint_new_def split: option.splits)
    let ?t = "s\<lparr>own_checkpoint := Some pc', own_operation := (own_operation s)\<lparr>op_history := Some h'\<rparr>\<rparr>"
    have "op_inv ser ctx live ?t" if "history_is_queued h"
    proof -
      have q: "queued_history (with_history h' s)" "queued_history s"
        using Some k that by (simp_all add: queued_history_def history_is_queued_def)
      have inv1: "op_inv ser ctx live (with_history h' s)" by (rule frame_inv [OF inv]) (use q Some in simp_all)
      show ?thesis
        using op_invD(1-5,10,11) [OF inv1] op_invD(6) [OF inv1] op_invD(7) [OF inv1, of p] op_invD(8) [OF inv1] p q k \<open>pc_snapshot pc = p\<close>
        by (intro op_invI) (auto simp: transition_of_def terminal_ok_def candidate_ok_def queued_history_def)
    qed
    then show ?thesis
      using post [OF inv] post [of ?t] Some d k by (cases r) (auto simp: wp_def pc_def [symmetric])
  qed (use post [OF inv] in \<open>simp add: wp_def\<close>)
  show ?thesis
    unfolding drive_completion_checkpoint_def
    by (intro wp_bindI wp_completion_ready [OF inv] step) (use post [OF inv] in auto)
qed

lemma wp_publish_completion:
  assumes inv: "op_inv ser ctx live s"
  shows "wp publish_completion (\<lambda>_. good ser ctx live s) (good ser ctx live s) s"
proof -
  have "good ser ctx live s ((set_snapshot p (s\<lparr>own_checkpoint := None\<rparr>))\<lparr>own_pending := None\<rparr>)" if "own_pending s = Some p" for p
    using publish_terminal [OF inv that] op_invD(7) [OF inv that] by blast
  then show ?thesis
    using op_invD(1) [OF inv] inv
    by (auto simp: publish_completion_def wp_simps wp_read_snapshot)
qed

lemma wp_drive_completion:
  assumes inv: "op_inv ser ctx live s"
  shows "wp (drive_completion resp wait retry) (\<lambda>_. good ser ctx live s) (good ser ctx live s) s"
  unfolding drive_completion_def
proof (intro wp_bindI wp_drive_completion_checkpoint [OF inv] conjI)
  fix b t
  assume t: "op_inv ser ctx live t" "cur t = cur s"
  have "wp publish_completion (\<lambda>_. good ser ctx live s) (good ser ctx live s) t"
    by (rule wp_mono [OF wp_publish_completion [OF t(1)]]) (erule good_trans [OF t(2)])+
  then show "wp (if \<not> b then ret False else bind_action publish_completion (\<lambda>_. ret True))
      (\<lambda>_. good ser ctx live s) (good ser ctx live s) t"
    using good_same [OF t] by (simp add: wp_simps)
  show "good ser ctx live s t" by (rule good_same [OF t])
qed

lemma cancellation_flag_valid [simp]:
  "validate_finalization (x\<lparr>sn_cancellation_requested := c\<rparr>) = validate_finalization x"
  by (cases x) (simp only: validate_finalization_def operation_snapshot.simps cong del: if_weak_cong option.case_cong_weak
      stored_result.case_cong_weak)

lemma cancellation_flag_successor [simp]:
  "validate_finalization_successor (x\<lparr>sn_cancellation_requested := c\<rparr>) y = validate_finalization_successor x y"
  by (cases x) (simp only: validate_finalization_successor_def operation_snapshot.simps cong del: if_weak_cong
      option.case_cong_weak)

lemma cancellation_flag_ok: "terminal_ok s (x\<lparr>sn_cancellation_requested := c\<rparr>) = terminal_ok s x"
  by (simp add: terminal_ok_def snapshot_ok_def result_shape_def follows_def)

lemma wp_complete_blocking:
  assumes inv: "op_inv ser ctx live s" and blocking: "\<not> queued_history s" and p: "own_pending s = Some p"
  shows "wp (complete_blocking resp p) (\<lambda>_. good ser ctx live s) (good ser ctx live s) s"
proof -
  define x where "x = p\<lparr>sn_cancellation_requested := ctl_cancelled (op_control (own_operation s))\<rparr>"
  let ?s = "s\<lparr>own_pending := Some x\<rparr>"
  have x: "terminal_ok s x" using op_invD(7) [OF inv p] by (simp add: x_def cancellation_flag_ok)
  have c: "own_checkpoint s = None" using op_invD(9) [OF inv] blocking by (cases "own_checkpoint s") auto
  have inv1: "op_inv ser ctx live ?s"
    using op_invD(7) [OF inv p] transition_queued [OF inv blocking] by (intro set_pending_inv [OF inv _ _ _ x c]) auto
  have "wp (operation_checkpoint resp x) (\<lambda>_. wp (bind_action read_snapshot (\<lambda>_.
       write_state (\<lambda>s. (set_snapshot x s)\<lparr>own_pending := None\<rparr>))) (\<lambda>_. good ser ctx live s) (good ser ctx live s))
       (good ser ctx live s) ?s"
  proof (rule wp_operation_checkpoint [OF inv1])
    fix t
    assume t: "op_inv ser ctx live t" "cur t = cur ?s" "own_pending t = own_pending ?s" "own_checkpoint t = own_checkpoint ?s"
    have "terminal_ok t x" using x t(2) by (simp add: terminal_ok_def)
    then have "good ser ctx live t ((set_snapshot x (t\<lparr>own_checkpoint := None\<rparr>))\<lparr>own_pending := None\<rparr>)"
      using t(3) by (intro publish_terminal [OF t(1)]) auto
    moreover have "t\<lparr>own_checkpoint := None\<rparr> = t" using t(4) c by simp
    ultimately show "wp (bind_action read_snapshot (\<lambda>_. write_state (\<lambda>s. (set_snapshot x s)\<lparr>own_pending := None\<rparr>)))
        (\<lambda>_. good ser ctx live s) (good ser ctx live s) t \<and> good ser ctx live s t"
      using good_same [OF t(1)] good_trans [of t s] t(2) op_invD(1) [OF t(1)] by (simp add: wp_simps wp_read_snapshot)
  qed
  then show ?thesis by (simp add: complete_blocking_def wp_simps x_def)
qed

lemma wp_retry_completion:
  assumes inv: "op_inv ser ctx live s"
  shows "wp (retry_completion resp) (\<lambda>_. good ser ctx live s) (good ser ctx live s) s"
  using wp_drive_completion [OF inv] inv
  by (cases "queued_history s")
    (auto simp: retry_completion_def wp_simps intro!: wp_completion_ready [OF inv] wp_complete_blocking)

lemma wp_completion_calls:
  assumes inv: "op_inv ser ctx live s"
  shows "wp (poll_completion resp) (\<lambda>_. good ser ctx live s) (good ser ctx live s) s"
    "wp (retry_completion_nonblocking resp) (\<lambda>_. good ser ctx live s) (good ser ctx live s) s"
  using wp_drive_completion [OF inv] wp_retry_completion [OF inv]
  by (auto simp: poll_completion_def retry_completion_nonblocking_def wp_simps)

lemma wp_advance_calls:
  assumes inv: "op_inv ser ctx live s"
  shows "wp (owner_poll_advance resp contended phase) (\<lambda>_. good ser ctx live s) (good ser ctx live s) s"
    "wp (owner_retry_advance resp contended) (\<lambda>_. good ser ctx live s) (good ser ctx live s) s"
proof -
  have "queued_history s \<and> own_pending s = None" if "transition_of s = Some pc" for pc
    using op_invD(6) [OF inv that] by simp
  then show "wp (owner_retry_advance resp contended) (\<lambda>_. good ser ctx live s) (good ser ctx live s) s"
    using wp_drive_advance [OF inv] inv
    by (cases "transition_of s") (auto simp: owner_retry_advance_def wp_simps)
  show "wp (owner_poll_advance resp contended phase) (\<lambda>_. good ser ctx live s) (good ser ctx live s) s"
    using op_invD(1) [OF inv] inv publish_advanced [OF inv] wp_drive_advance [OF inv]
    by (auto simp: owner_poll_advance_def no_pending_completion_def wp_simps wp_read_snapshot queued_history_def
        split: outcome.splits option.splits)
qed

end
