(* ===== verification/Operation_Finalization.thy ===== *)
theory Operation_Finalization
  imports Operation_Completion
begin

text \<open>The finalization stage and the durable effect evidence keep the invariant of an operation.\<close>

section \<open>Retaining finalization evidence\<close>

lemma wp_retain_finalization:
  assumes inv: "op_inv ser ctx live t" and x: "candidate_ok t x" and p: "own_pending t = None" and tr: "transition_of t = None"
    and h: "op_history (own_operation t) = None \<or> queued_history t"
  shows "wp (retain_finalization_checkpoint x) (\<lambda>_. good ser ctx live t) (good ser ctx live t) t"
proof -
  have "op_inv ser ctx live (set_transition (Some (checkpoint_new x)) t)" if "queued_history t"
    by (rule set_transition_inv [OF inv]) (use that x p in \<open>simp add: checkpoint_new_def\<close>)
  then show ?thesis
    using publish_candidate [OF inv x p tr] h op_invD(1) [OF inv]
    by (auto simp: retain_finalization_checkpoint_def wp_simps wp_publish_snapshot intro: good_same)
qed

lemma set_finalization_inv:
  assumes inv: "op_inv ser ctx live s" and issued: "fo_control_issued f \<Longrightarrow> sn_finalization (cur s) \<noteq> None"
    and keeps: "\<And>w. own_finalization s = Some w \<Longrightarrow> fo_outcome_prepared w \<Longrightarrow> fo_outcome_prepared f"
    and history: "op_history (own_operation s) = None \<or> queued_history s"
  shows "op_inv ser ctx live (s\<lparr>own_finalization := Some f\<rparr>)"
proof (rule op_invI)
  let ?s = "s\<lparr>own_finalization := Some f\<rparr>"
  have ev: "evidence_owned (Some f) x" if "evidence_owned (own_finalization s) x" for x
    using that keeps by (fastforce simp: evidence_owned_def)
  show "evidence_owned (own_finalization ?s) (cur ?s)" using ev op_invD(10) [OF inv] by simp
  show "queued_history ?s \<and> own_pending ?s = None \<and> (pc_effect pc = None \<longrightarrow> candidate_ok ?s (pc_snapshot pc))"
    if "transition_of ?s = Some pc" for pc
    using op_invD(6) [OF inv, of pc] that ev by (auto simp: transition_of_def queued_history_def candidate_ok_def)
  show "sn_phase (cur ?s) = OpCleaning \<and> led_sealed (led ?s) \<and> terminal_ok ?s p" if "own_pending ?s = Some p" for p
    using op_invD(7) [OF inv, of p] that by (simp add: terminal_ok_def)
  show "queued_history ?s \<and> own_pending ?s = Some (pc_snapshot pc)" if "own_checkpoint ?s = Some pc" for pc
    using op_invD(9) [OF inv, of pc] that by (simp add: queued_history_def)
qed (use op_invD(1-5) [OF inv] issued history in \<open>auto simp: queued_history_def\<close>)

lemma wp_begin_finalization:
  assumes inv: "op_inv ser ctx live s"
    and post: "\<And>l. live = {} \<Longrightarrow> op_inv ser ctx live (with_effects l s) \<Longrightarrow> led_records (guarded (led_state l)) = led_records (led s) \<Longrightarrow>
      Q (length (led_records (led s))) (with_effects l s)"
    and fails: "R s"
  shows "wp (on_effects begin_finalization) Q R s"
proof -
  note l = op_invD(3) [OF inv]
  obtain r l' where d: "begin_finalization (op_effects (own_operation s)) = (r, l')" by (metis prod.exhaust)
  have l': "l' = (if is_ok r then (op_effects (own_operation s))\<lparr>led_state := mutex_new ((led s)\<lparr>led_stage := Finalization\<rparr>)\<rparr>
      else op_effects (own_operation s))"
    using stage_results(1) [OF l] d by simp
  have np: "\<not> is_panic r"
    using d ledger_invD(1) [OF l] by (auto simp: begin_finalization_def ledger_with_def mutex_with_def split: if_splits)
  have "ledger_inv ser ctx \<lparr>ls_ledger = l', ls_live = live\<rparr>"
    using ledger_step_inv [OF step_begin_finalization l] d by simp
  then have inv': "op_inv ser ctx live (with_effects l' s)"
    by (rule effects_change_inv [OF inv]) (auto simp: l')
  show ?thesis
  proof (cases r)
    case (Ok n)
    then have "n = length (led_records (led s))" "live = {}" "led_records (guarded (led_state l')) = led_records (led s)"
      using begin_finalization_Ok [OF l] d by simp_all
    then show ?thesis using post [of l'] inv' Ok d by (simp add: on_effects_def wp_simps wp_def)
  next
    case (Err e)
    then have "l' = op_effects (own_operation s)" using l' by simp
    then show ?thesis using fails Err d by (simp add: on_effects_def wp_simps wp_def)
  qed (use np in simp)
qed

lemma finalization_candidate_ok:
  assumes inv: "op_inv ser ctx {} t" and adv: "advance_snapshot (cur t) OpCleaning = Ok x"
    and pr: "op_project (own_operation t) x = Ok y" and export: "\<not> bad_name export" and f: "own_finalization t = Some w"
  shows "candidate_ok t (y\<lparr>sn_finalization := Some \<lparr>fin_export = export, fin_business = b,
    fin_business_effect_count = length (led_records (led t)), fin_outcome = None\<rparr>\<rparr>)" (is "candidate_ok t ?y")
proof -
  note a = advanced_candidate [OF op_invD(4) [OF inv] adv] and p = op_project_Ok [OF pr]
  have "sn_host_effects y = bt_values (led_records (led t))"
    using p(6) by (simp add: ledger_snapshot_def split: if_splits)
  moreover have "sn_finalization (cur t) = None"
    using early_phase_no_finalization [OF op_invD(4) [OF inv]] phase_transition_not_terminal [OF a(6)] by blast
  ultimately show ?thesis
    using a p export f journal_completed [OF inv]
    by (simp add: candidate_ok_def snapshot_ok_def result_shape_def follows_def count_ok_def evidence_owned_def
        validate_finalization_def validate_finalization_successor_def bt_values_def)
qed

section \<open>Finalization calls\<close>

lemma good_wp:
  assumes "wp m (\<lambda>_. good ser ctx live t) (good ser ctx live t) u" "cur t = cur s"
  shows "wp m (\<lambda>_. good ser ctx live s) (good ser ctx live s) u"
  by (rule wp_mono [OF assms(1)]) (erule good_trans [OF assms(2)])+

lemma wp_retain_intent:
  assumes free: "own_finalization s = None" "own_pending s = None" "transition_of s = None" "\<not> bad_name export"
      "op_history (own_operation s) = None \<or> queued_history s" and adv: "advance_snapshot (cur s) OpCleaning = Ok x"
    and inv: "op_inv ser ctx {} (with_effects l s)" and same: "led_records (guarded (led_state l)) = led_records (led s)"
  shows "wp (retain_intent export outcome timeout x (length (led_records (led s)))) (\<lambda>_. good ser ctx {} s) (good ser ctx {} s)
    (with_effects l s)"
proof -
  define w where "w = \<lparr>fo_timeout = timeout, fo_control_issued = False, fo_outcome_prepared = False\<rparr>"
  let ?t = "(with_effects l s)\<lparr>own_finalization := Some w\<rparr>"
  let ?y = "\<lambda>y. y\<lparr>sn_finalization := Some \<lparr>fin_export = export, fin_business = outcome,
      fin_business_effect_count = length (led_records (led s)), fin_outcome = None\<rparr>\<rparr>"
  have inv2: "op_inv ser ctx {} ?t"
    by (rule set_finalization_inv [OF inv]) (use free in \<open>simp_all add: w_def\<close>)
  have tr: "transition_of ?t = None" "queued_history ?t = queued_history s"
    using free by (simp_all add: transition_of_def queued_history_def)
  have retained: "wp (retain_finalization_checkpoint (?y y)) (\<lambda>_. good ser ctx {} ?t) (good ser ctx {} ?t) ?t"
    if "op_project (own_operation ?t) x = Ok y" for y
    using finalization_candidate_ok [OF inv2, of x y export w outcome] adv that free tr same
    by (intro wp_retain_finalization [OF inv2]) auto
  have "wp (retain_finalization_checkpoint (?y y)) (\<lambda>_. good ser ctx {} s) (good ser ctx {} s) ?t"
    if "op_project (own_operation ?t) x = Ok y" for y
    by (rule good_wp [OF retained [OF that]]) simp
  then show ?thesis
    using good_same [OF inv2, of s]
    by (auto simp: retain_intent_def wp_simps w_def [symmetric] split: outcome.splits)
qed

lemma wp_prepare_finalization:
  assumes inv: "op_inv ser ctx live s"
  shows "wp (prepare_finalization ser_value ser_error ser_string now contended export business timeout)
    (\<lambda>_. good ser ctx live s) (good ser ctx live s) s"
  using op_invD(1,2) [OF inv] inv
  by (auto simp: prepare_finalization_def require_pollable_finalization_history_def try_transition_error_def
      wp_simps wp_read_snapshot intro!: wp_begin_finalization [OF inv] wp_retain_intent split: outcome.splits)

lemma wp_poll_finalization:
  assumes inv: "op_inv ser ctx live s"
  shows "wp (poll_finalization resp contended) (\<lambda>_. good ser ctx live s) (good ser ctx live s) s"
proof -
  have "queued_history s \<and> own_pending s = None" if "transition_of s = Some pc" for pc
    using op_invD(6) [OF inv that] by simp
  then show ?thesis
    using wp_drive_advance [OF inv] inv op_invD(1) [OF inv]
    by (cases "transition_of s") (auto simp: poll_finalization_def wp_simps wp_read_snapshot)
qed

lemma wp_take_finalization_control:
  assumes inv: "op_inv ser ctx live s"
  shows "wp (take_finalization_control now contended journal) (\<lambda>_. good ser ctx live s) (good ser ctx live s) s"
proof -
  have "good ser ctx live s (s\<lparr>own_finalization := Some (w\<lparr>fo_control_issued := True\<rparr>)\<rparr>)"
    if "sn_finalization (cur s) \<noteq> None" "own_finalization s = Some w" for w
    using set_finalization_inv [OF inv, of "w\<lparr>fo_control_issued := True\<rparr>"] that op_invD(11) [OF inv] by (simp add: good_same)
  moreover have "control_attach_effects c journal Finalization \<noteq> (Panic p, c')" for c p c'
    by (auto simp: control_attach_effects_def mutex_with_def)
  ultimately show ?thesis
    using inv op_invD(1) [OF inv]
    by (cases "own_finalization s")
      (auto simp: take_finalization_control_def try_transition_error_def wp_simps wp_read_snapshot
        split: outcome.splits prod.splits)
qed

lemma outcome_candidate_ok:
  assumes inv: "op_inv ser ctx {} t" and clean: "sn_phase (cur t) = OpCleaning" and f: "sn_finalization (cur t) = Some f"
    and w: "own_finalization t = Some w" "fo_outcome_prepared w" and fresh: "fin_outcome f = None"
  shows "candidate_ok t ((cur t)\<lparr>sn_host_effects := bt_values (led_records (led t)), sn_effects := e,
    sn_cancellation_requested := c, sn_finalization := Some (f\<lparr>fin_outcome := Some outcome\<rparr>)\<rparr>)"
proof -
  have ok: "validate_finalization (cur t) = Ok ()" "result_shape (cur t)"
    using op_invD(4) [OF inv] by (simp_all add: snapshot_ok_def)
  have r: "sn_value (cur t) = None" "sn_error (cur t) = None" using result_shape_cases [OF ok(2)] clean by simp_all
  have "\<not> bad_name (fin_export f)" "fin_business_effect_count f \<le> length (bt_values (led_records (led t)))"
    using ok(1) op_invD(5) [OF inv] f clean
    by (auto simp: validate_finalization_def count_ok_def bt_values_def split: if_splits)
  then show ?thesis
    using f w fresh clean r journal_completed [OF inv]
    by (simp add: candidate_ok_def snapshot_ok_def result_shape_def follows_def count_ok_def evidence_owned_def
        validate_finalization_def validate_finalization_successor_def bt_values_def)
qed

lemma wp_retain_outcome:
  assumes inv: "op_inv ser ctx {} t" and clean: "sn_phase (cur t) = OpCleaning" and same: "cur t = cur s"
    and w: "own_finalization t = Some w" "fo_control_issued w" "\<not> fo_outcome_prepared w"
    and free: "own_pending t = None" "transition_of t = None" "op_history (own_operation t) = None \<or> queued_history t"
  shows "wp (retain_outcome outcome (cur s) (bt_values (led_records (led t)))) (\<lambda>_. good ser ctx {} s) (good ser ctx {} s) t"
proof -
  obtain f where f: "sn_finalization (cur t) = Some f" "fin_outcome f = None"
    using op_invD(8) [OF inv w(1,2)] op_invD(10) [OF inv] w by (auto simp: evidence_owned_def)
  let ?u = "t\<lparr>own_finalization := Some (w\<lparr>fo_outcome_prepared := True\<rparr>)\<rparr>"
  have inv2: "op_inv ser ctx {} ?u" by (rule set_finalization_inv [OF inv]) (use f free in simp_all)
  have "wp (retain_finalization_checkpoint ((cur ?u)\<lparr>sn_host_effects := bt_values (led_records (led ?u)),
       sn_effects := merge_effects (sn_effects (cur ?u)) (bt_values (led_records (led ?u))),
       sn_cancellation_requested := ctl_cancelled (op_control (own_operation ?u)),
       sn_finalization := Some (f\<lparr>fin_outcome := Some outcome\<rparr>)\<rparr>)) (\<lambda>_. good ser ctx {} ?u) (good ser ctx {} ?u) ?u"
    by (rule wp_retain_finalization [OF inv2 outcome_candidate_ok [OF inv2, where w = "w\<lparr>fo_outcome_prepared := True\<rparr>"]])
      (use f w clean free in \<open>simp_all add: transition_of_def queued_history_def\<close>)
  note good_wp [OF this, of s]
  then show ?thesis
    using f w(1) same by (simp add: retain_outcome_def wp_simps)
qed

lemma wp_prepare_finalization_outcome:
  assumes inv: "op_inv ser ctx live s"
  shows "wp (prepare_finalization_outcome ser_value ser_error contended result) (\<lambda>_. good ser ctx live s) (good ser ctx live s) s"
proof -
  have "wp (retain_outcome outcome (cur s) (bt_values (led_records (led s)))) (\<lambda>_. good ser ctx live s) (good ser ctx live s)
      (with_effects (sealed_journal s) s)"
    if "live = {}" "op_inv ser ctx live (with_effects (sealed_journal s) s)" "sn_phase (cur s) = OpCleaning"
      "own_finalization s = Some w" "fo_control_issued w" "\<not> fo_outcome_prepared w" "own_pending s = None" "transition_of s = None"
    for w outcome
  proof -
    have "led_records (led (with_effects (sealed_journal s) s)) = led_records (led s)" by (simp add: sealed_journal_def)
    then show ?thesis
      using wp_retain_outcome [of ser ctx "with_effects (sealed_journal s) s" s w outcome] that op_invD(11) [OF inv] by simp
  qed
  then show ?thesis
    using op_invD(1,2) [OF inv] inv
    by (cases "own_finalization s")
      (auto simp: prepare_finalization_outcome_def try_transition_error_def wp_simps wp_read_snapshot intro!: wp_seal [OF inv])
qed

section \<open>Effect evidence calls\<close>

text \<open>An unfinished record means that no terminal candidate exists.\<close>

lemma unfinished_no_pending:
  assumes inv: "op_inv ser ctx live s" and r: "find P (bt_values (led_records (led s))) = Some r" "he_phase r \<noteq> Completed"
  shows "own_pending s = None"
proof (rule ccontr)
  assume "own_pending s \<noteq> None"
  then have "live = {}" using op_invD(7) [OF inv] ledger_invD(8) [OF op_invD(3) [OF inv]] by auto
  moreover have "r \<in> set (bt_values (led_records (led s)))" using r(1) by (auto simp: find_Some_iff)
  ultimately show False using completed_records [OF op_invD(3) [OF inv]] r(2) by auto
qed

lemma wp_evidence_snapshot:
  assumes inv: "op_inv ser ctx live s"
    and post: "\<And>x. sn_host_effects x = bt_values (led_records (led s)) \<Longrightarrow> Q x s" and fails: "R s"
  shows "wp evidence_snapshot Q R s"
  using op_invD(1) [OF inv] ledger_invD(1) [OF op_invD(3) [OF inv]] post fails
  by (auto simp: evidence_snapshot_def wp_simps wp_read_snapshot ledger_snapshot_def)

lemma effect_checkpoint_inv:
  assumes "op_inv ser ctx live s" "queued_history s" "own_pending s = None"
  shows "op_inv ser ctx live (set_transition (Some (effect_checkpoint e x)) s)"
  by (rule set_transition_inv [OF assms(1)]) (simp add: assms effect_checkpoint_def)

lemma wp_drive_quietly [wp_simps]:
  "wp (drive_quietly resp) Q R = wp (drive_transition resp False False) Q (Q False)"
  by (auto simp: wp_def fun_eq_iff drive_quietly_def split: prod.splits outcome.splits)

lemma drop_transition_good:
  assumes "op_inv ser ctx live t" "cur t = cur s"
  shows "good ser ctx live s (set_transition None t)"
  using set_transition_inv [OF assms(1), of None] assms(2) by (simp add: good_same)

lemma wp_settle_start:
  assumes inv: "op_inv ser ctx live s" and queued: "queued_history s"
  shows "wp (settle_start resp effect_id wait) (\<lambda>_ t. op_inv ser ctx live t \<and> cur t = cur s \<and> queued_history t)
    (good ser ctx live s) s"
proof (cases "transition_of s")
  case (Some pc)
  have "wp (drive_transition resp wait False) (\<lambda>b t. (b \<longrightarrow> op_inv ser ctx live (set_transition None t)) \<and>
      op_inv ser ctx live t \<and> cur t = cur s \<and> queued_history t) (good ser ctx live s) s"
    by (rule wp_drive_transition [OF inv Some]) (auto intro: good_same set_transition_inv dest: op_invD(6))
  then show ?thesis
    using Some inv queued by (auto simp: settle_start_def wp_simps elim!: wp_mono)
qed (use inv queued in \<open>simp add: settle_start_def wp_simps\<close>)

lemma wp_settle_outcome:
  assumes inv: "op_inv ser ctx live s" and queued: "queued_history s"
  shows "wp (settle_outcome resp effect_id) (\<lambda>_ t. op_inv ser ctx live t \<and> cur t = cur s \<and> queued_history t)
    (good ser ctx live s) s"
proof (cases "transition_of s")
  case (Some pc)
  have "wp (drive_transition resp False False) (\<lambda>b t. (b \<longrightarrow> op_inv ser ctx live (set_transition None t)) \<and>
      op_inv ser ctx live t \<and> cur t = cur s \<and> queued_history t)
      (\<lambda>t. op_inv ser ctx live t \<and> cur t = cur s \<and> queued_history t) s"
    by (rule wp_drive_transition [OF inv Some]) (auto intro: set_transition_inv dest: op_invD(6))
  then show ?thesis
    using Some inv queued by (auto simp: settle_outcome_def wp_simps elim!: wp_mono)
qed (use inv queued in \<open>simp add: settle_outcome_def wp_simps\<close>)

lemma wp_retain_effect:
  assumes inv: "op_inv ser ctx live s" and queued: "queued_history s"
  shows "wp (retain_start resp effect_id wait) (\<lambda>_. good ser ctx live s) (good ser ctx live s) s"
    "wp (retain_effect_outcome resp effect_id) (\<lambda>_. good ser ctx live s) (good ser ctx live s) s"
proof -
  have drive: "wp (drive_transition resp w False) (\<lambda>b t. (b \<longrightarrow> good ser ctx live s (set_transition None t)) \<and> good ser ctx live s t)
      (good ser ctx live s) (set_transition (Some (effect_checkpoint e x)) s)"
    if "find P (bt_values (led_records (led s))) = Some r" "he_phase r \<noteq> Completed" for w e x P r
  proof (rule wp_drive_transition [OF effect_checkpoint_inv [OF inv queued unfinished_no_pending [OF inv that]]])
    show "transition_of (set_transition (Some (effect_checkpoint e x)) s) = Some (effect_checkpoint e x)" by simp
  qed (auto intro: good_same drop_transition_good)
  show "wp (retain_start resp effect_id wait) (\<lambda>_. good ser ctx live s) (good ser ctx live s) s"
    using inv by (auto simp: retain_start_def wp_simps Let_def
      intro!: wp_evidence_snapshot [OF inv] wp_mono [OF drive] split: outcome.splits)
  show "wp (retain_effect_outcome resp effect_id) (\<lambda>_. good ser ctx live s) (good ser ctx live s) s"
    using inv by (auto simp: retain_effect_outcome_def wp_simps Let_def
      intro!: wp_evidence_snapshot [OF inv] wp_mono [OF drive] split: outcome.splits)
qed

lemma wp_effect_calls:
  assumes inv: "op_inv ser ctx live s"
  shows "wp (checkpoint_effect_start resp contended effect_id wait) (\<lambda>_. good ser ctx live s) (good ser ctx live s) s"
    "wp (poll_effect_outcome resp contended effect_id) (\<lambda>_. good ser ctx live s) (good ser ctx live s) s"
proof -
  have step: "wp (case early of None \<Rightarrow> m | Some result \<Rightarrow> ret result) (\<lambda>_. good ser ctx live s) (good ser ctx live s) t"
    if "op_inv ser ctx live t \<and> cur t = cur s \<and> queued_history t"
      and "wp m (\<lambda>_. good ser ctx live t) (good ser ctx live t) t" for early t and m :: "(owned, bool) action"
    using that good_wp [of m ser ctx live t t s] by (auto simp: wp_simps intro: good_same split: option.splits)
  have queued: "queued_history s" if "op_history (own_operation s) = Some h" "history_is_queued h" for h
    using that by (simp add: queued_history_def)
  have "wp (bind_action (settle_start resp effect_id wait) (\<lambda>early.
           case early of None \<Rightarrow> retain_start resp effect_id wait | Some result \<Rightarrow> ret result))
      (\<lambda>_. good ser ctx live s) (good ser ctx live s) s" if "queued_history s"
    by (intro wp_bindI wp_mono [OF wp_settle_start [OF inv that]]) (auto intro!: step wp_retain_effect)
  then show "wp (checkpoint_effect_start resp contended effect_id wait) (\<lambda>_. good ser ctx live s) (good ser ctx live s) s"
    using inv queued by (cases "op_history (own_operation s)") (auto simp: checkpoint_effect_start_def persistent_history_def wp_simps)
  have "wp (bind_action (settle_outcome resp effect_id) (\<lambda>early.
           case early of None \<Rightarrow> retain_effect_outcome resp effect_id | Some result \<Rightarrow> ret result))
      (\<lambda>_. good ser ctx live s) (good ser ctx live s) s" if "queued_history s"
    by (intro wp_bindI wp_mono [OF wp_settle_outcome [OF inv that]]) (auto intro!: step wp_retain_effect)
  then show "wp (poll_effect_outcome resp contended effect_id) (\<lambda>_. good ser ctx live s) (good ser ctx live s) s"
    using inv queued by (cases "op_history (own_operation s)") (auto simp: poll_effect_outcome_def persistent_history_def wp_simps)
qed

lemma wp_observation_calls:
  assumes inv: "op_inv ser ctx live s"
  shows "wp (pending_phase contended) (\<lambda>_. good ser ctx live s) (good ser ctx live s) s"
    "wp (checkpoint_failure contended) (\<lambda>_. good ser ctx live s) (good ser ctx live s) s"
    "wp (request_checkpoint_retry contended) (\<lambda>_. good ser ctx live s) (good ser ctx live s) s"
proof -
  have "op_inv ser ctx live (set_transition (Some (pc\<lparr>pc_retry := RetryRequested\<rparr>)) s)" if "transition_of s = Some pc" for pc
    by (rule set_transition_inv [OF inv]) (use op_invD(6) [OF inv that] in auto)
  then have "good ser ctx live s (set_transition (Some (pc\<lparr>pc_retry := RetryRequested\<rparr>)) s)" if "transition_of s = Some pc" for pc
    using that by (simp add: good_same)
  then show "wp (request_checkpoint_retry contended) (\<lambda>_. good ser ctx live s) (good ser ctx live s) s"
    using inv by (cases "transition_of s") (auto simp: request_checkpoint_retry_def try_transition_error_def wp_simps)
  show "wp (pending_phase contended) (\<lambda>_. good ser ctx live s) (good ser ctx live s) s"
    using inv by (auto simp: pending_phase_def try_transition_error_def wp_simps split: option.splits checkpoint_effect.splits)
  show "wp (checkpoint_failure contended) (\<lambda>_. good ser ctx live s) (good ser ctx live s) s"
    using inv by (simp add: checkpoint_failure_def try_transition_error_def wp_simps)
qed

end
