(* ===== verification/Operation_Safety.thy ===== *)
theory Operation_Safety
  imports Operation_System Operation_Finalization
begin

text \<open>
  Every step of an operation keeps its invariant, moves its published snapshot only to a legal successor
  and never touches its identity.
\<close>

section \<open>What no action changes\<close>

definition keeps :: "('s \<Rightarrow> 'b) \<Rightarrow> ('s, 'a) action \<Rightarrow> bool" where
  "keeps f m \<longleftrightarrow> (\<forall>s. f (snd (m s)) = f s)"

named_theorems keeps_intros \<open>actions that leave a component alone\<close>

lemma keeps_bind [keeps_intros]: "keeps f m \<Longrightarrow> (\<And>x. keeps f (n x)) \<Longrightarrow> keeps f (bind_action m n)"
  by (auto simp: keeps_def bind_action_def split: prod.splits outcome.splits) (metis snd_conv)+

lemma keeps_primitives [keeps_intros]:
  "keeps f (ret x)" "keeps f (fail e)" "keeps f (from_result r)" "keeps f (try_read g)" "keeps f (read_state h)"
  by (auto simp: keeps_def ret_def fail_def from_result_def try_read_def read_state_def)

lemma keeps_guards [keeps_intros]:
  "keeps f (require b e)" "keeps f (require_state p e)" "(\<And>s. f (u s) = f s) \<Longrightarrow> keeps f (write_state u)"
  by (auto simp: keeps_def require_def require_state_def write_state_def)

lemma keeps_branches [keeps_intros]:
  "keeps f m \<Longrightarrow> keeps f n \<Longrightarrow> keeps f (if b then m else n)"
  "keeps f m \<Longrightarrow> (\<And>y. keeps f (n' y)) \<Longrightarrow> keeps f (case t of None \<Rightarrow> m | Some y \<Rightarrow> n' y)"
  "(\<And>u v. keeps f (h u v)) \<Longrightarrow> keeps f (case pr of (u, v) \<Rightarrow> h u v)"
  "(\<And>y. keeps f (k y)) \<Longrightarrow> keeps f (let y = z in k y)"
  by (auto split: option.splits prod.splits)

abbreviation identity_of :: "owned \<Rightarrow> string \<times> u64" where
  "identity_of s \<equiv> (op_ident (own_operation s), op_publication_sequence (own_operation s))"

lemma keeps_hold [keeps_intros]: "keeps identity_of m \<Longrightarrow> keeps identity_of (hold_transition e m)"
  by (auto simp: keeps_def hold_transition_def poison_transition_def split: prod.splits outcome.splits) (metis snd_conv)+

lemma keeps_steps [keeps_intros]:
  "keeps identity_of read_snapshot" "keeps identity_of (publish_snapshot x)" "keeps identity_of (operation_checkpoint resp x)"
  "keeps identity_of (drive_transition resp w r)" "keeps identity_of (on_effects l)" "keeps identity_of (drive_quietly resp)"
  "keeps identity_of (write_state (set_transition t))"  "keeps identity_of (write_state (set_snapshot x))"
proof -
  show "keeps identity_of read_snapshot" "keeps identity_of (publish_snapshot x)"
    "keeps identity_of (write_state (set_transition t))" "keeps identity_of (write_state (set_snapshot x))"
    by (auto simp: read_snapshot_def publish_snapshot_def set_snapshot_def set_transition_def intro!: keeps_intros)
  show "keeps identity_of (operation_checkpoint resp x)"
    by (auto simp: keeps_def operation_checkpoint_def split: option.splits prod.splits)
  show d: "keeps identity_of (drive_transition resp w r)" for w r
    by (auto simp: keeps_def drive_transition_def set_transition_def split: option.splits prod.splits)
  show "keeps identity_of (on_effects l)"
    by (auto simp: keeps_def on_effects_def lift_action_def split: prod.splits)
  show "keeps identity_of (drive_quietly resp)"
    using d [of False False] by (auto simp: keeps_def drive_quietly_def split: prod.splits outcome.splits) (metis snd_conv)+
qed

lemma keeps_advance [keeps_intros]:
  "keeps identity_of (drive_advance resp p w r)" "keeps identity_of no_pending_completion" "keeps identity_of (advance_candidate p)"
  by (auto simp: drive_advance_def retain_candidate_def publish_acknowledged_def advance_candidate_def no_pending_completion_def
      intro!: keeps_intros split: option.splits checkpoint_effect.splits)

lemma keeps_completion [keeps_intros]:
  "keeps identity_of completion_ready" "keeps identity_of (drive_completion_checkpoint resp w r)"
  "keeps identity_of (drive_completion resp w r)" "keeps identity_of (retry_completion resp)"
  "keeps identity_of (try_transition_error b m)"
proof -
  show c: "keeps identity_of completion_ready" "keeps identity_of (try_transition_error b m)"
    by (auto simp: completion_ready_def try_transition_error_def intro!: keeps_intros)
  have "keeps identity_of (\<lambda>s. case op_history (own_operation s) of
         None \<Rightarrow> (Ok True, s)
       | Some h \<Rightarrow>
           if \<not> history_is_queued h then (Err (error_invalid ''nonblocking checkpoints require a journal worker''), s)
           else
             let pc = (case own_checkpoint s of None \<Rightarrow> checkpoint_new p | Some pc \<Rightarrow> pc)
             in case drive resp h pc w r of (x, h', pc') \<Rightarrow>
                  (x, s\<lparr>own_checkpoint := Some pc', own_operation := (own_operation s)\<lparr>op_history := Some h'\<rparr>\<rparr>))" for p
    by (auto simp: keeps_def Let_def split: option.splits prod.splits)
  then show d: "keeps identity_of (drive_completion_checkpoint resp w r)"
    unfolding drive_completion_checkpoint_def by (intro keeps_bind c(1))
  show "keeps identity_of (drive_completion resp w r)"
    unfolding drive_completion_def publish_completion_def by (intro keeps_intros d) (simp_all add: set_snapshot_def)
  have "keeps identity_of (drive_completion resp w r)" for w r
    unfolding drive_completion_def drive_completion_checkpoint_def publish_completion_def
    by (intro keeps_intros c) (auto simp: keeps_def set_snapshot_def Let_def split: option.splits prod.splits)
  then show "keeps identity_of (retry_completion resp)"
    unfolding retry_completion_def complete_blocking_def by (intro keeps_intros c(1)) (simp_all add: set_snapshot_def)
qed

lemma keeps_publish [keeps_intros]: "keeps identity_of publish_completion"
  unfolding publish_completion_def by (intro keeps_intros) (simp_all add: set_snapshot_def)

lemma keeps_finalization [keeps_intros]:
  "keeps identity_of (prepare_completion ser_value ser_error c r e)"
  "keeps identity_of (retain_finalization_checkpoint x)" "keeps identity_of (retain_intent ex oc d x n)"
  "keeps identity_of (prepare_finalization ser_value ser_error ser_string now c ex r d)"
  "keeps identity_of (poll_finalization resp c)"
  "keeps identity_of (take_finalization_control now c l)"
  "keeps identity_of (retain_outcome oc x rs)"
  "keeps identity_of (prepare_finalization_outcome ser_value ser_error c r)"
proof -
  show a: "keeps identity_of (retain_finalization_checkpoint x)" for x
    unfolding retain_finalization_checkpoint_def by (intro keeps_intros)
  show b: "keeps identity_of (retain_intent ex oc d x n)" for oc x n
    unfolding retain_intent_def by (intro keeps_intros a) simp
  show c: "keeps identity_of (retain_outcome oc x rs)" for oc x rs
    unfolding retain_outcome_def by (intro keeps_intros a) simp
  show "keeps identity_of (prepare_completion ser_value ser_error c r e)"
    unfolding prepare_completion_def by (intro keeps_intros) simp
  show "keeps identity_of (prepare_finalization ser_value ser_error ser_string now c ex r d)"
    unfolding prepare_finalization_def require_pollable_finalization_history_def by (intro keeps_intros b)
  show "keeps identity_of (poll_finalization resp c)"
    unfolding poll_finalization_def by (intro keeps_intros)
  show "keeps identity_of (take_finalization_control now c l)"
    unfolding take_finalization_control_def by (intro keeps_intros) simp
  show "keeps identity_of (prepare_finalization_outcome ser_value ser_error c r)"
    unfolding prepare_finalization_outcome_def by (intro keeps_intros c)
qed

lemma keeps_effect_calls [keeps_intros]:
  "keeps identity_of evidence_snapshot" "keeps identity_of (persistent_history m)"
  "keeps identity_of (checkpoint_effect_start resp c i w)" "keeps identity_of (poll_effect_outcome resp c i)"
  "keeps identity_of (request_checkpoint_retry c)"
proof -
  show e: "keeps identity_of evidence_snapshot" "keeps identity_of (persistent_history m)" for m
    unfolding evidence_snapshot_def persistent_history_def by (intro keeps_intros)+
  show "keeps identity_of (checkpoint_effect_start resp c i w)"
    unfolding checkpoint_effect_start_def settle_start_def retain_start_def by (intro keeps_intros e)
  show "keeps identity_of (poll_effect_outcome resp c i)"
    unfolding poll_effect_outcome_def settle_outcome_def retain_effect_outcome_def by (intro keeps_intros e)
  show "keeps identity_of (request_checkpoint_retry c)"
    unfolding request_checkpoint_retry_def by (intro keeps_intros)
qed

lemma keeps_calls [keeps_intros]:
  "keeps identity_of (owner_advance resp p)" "keeps identity_of (owner_poll_advance resp c p)"
  "keeps identity_of (owner_retry_advance resp c)"
  "keeps identity_of (poll_completion resp)" "keeps identity_of (retry_completion_nonblocking resp)"
  unfolding owner_advance_def owner_poll_advance_def owner_retry_advance_def poll_completion_def retry_completion_nonblocking_def
  by (intro keeps_intros)+

lemma run_call_identity: "identity_of (run_call z c s) = identity_of s"
proof -
  have k: "identity_of (snd (m s)) = identity_of s" if "keeps identity_of m" for m :: "(owned, 'a) action"
    using that by (simp add: keeps_def)
  show ?thesis by (cases c) (simp_all only: run_call.simps, (rule k, intro keeps_intros)+)
qed

section \<open>Every step of an operation\<close>

lemma wp_poll_checkpoint:
  assumes inv: "op_inv ser ctx live s"
  shows "wp (drive_completion_checkpoint resp wait retry) (\<lambda>_. good ser ctx live s) (good ser ctx live s) s"
  by (rule wp_drive_completion_checkpoint [OF inv]) (simp add: good_same)

lemma run_call_good:
  assumes inv: "op_inv (sz_effect z) ctx live s"
  shows "good (sz_effect z) ctx live s (run_call z c s)"
proof (cases c)
qed (use wp_advance_calls [OF inv] wp_owner_advance [OF inv] wp_prepare_completion [OF inv] wp_retry_completion [OF inv]
    wp_completion_calls [OF inv] wp_prepare_finalization [OF inv] wp_poll_finalization [OF inv]
    wp_take_finalization_control [OF inv] wp_prepare_finalization_outcome [OF inv] wp_effect_calls [OF inv]
    wp_observation_calls [OF inv] wp_poll_checkpoint [OF inv] wp_publish_completion [OF inv] in \<open>simp_all add: wp_final(1)\<close>)

lemma call_never_panics:
  assumes inv: "op_inv (sz_effect z) ctx live s"
  shows "\<not> call_panics z c s"
proof (cases c)
qed (simp_all only: call_panics.simps,
    (rule wp_final(2), rule wp_advance_calls [OF inv] wp_owner_advance [OF inv] wp_prepare_completion [OF inv]
      wp_retry_completion [OF inv] wp_completion_calls [OF inv] wp_prepare_finalization [OF inv] wp_poll_finalization [OF inv]
      wp_take_finalization_control [OF inv] wp_prepare_finalization_outcome [OF inv] wp_effect_calls [OF inv]
      wp_observation_calls [OF inv] wp_poll_checkpoint [OF inv] wp_publish_completion [OF inv])+)

lemma handle_cancel_inv:
  assumes inv: "op_inv ser ctx live s"
  shows "op_inv ser ctx live (s\<lparr>own_operation := snd (handle_cancel (own_operation s))\<rparr>)"
    "cur (s\<lparr>own_operation := snd (handle_cancel (own_operation s))\<rparr>) = cur s"
    "identity_of (s\<lparr>own_operation := snd (handle_cancel (own_operation s))\<rparr>) = identity_of s"
proof -
  define op where "op = own_operation s"
  have refl: "\<exists>c. op = op\<lparr>op_control := c\<rparr>" by (rule exI [of _ "op_control op"]) simp
  have "\<exists>c. snd (handle_cancel op) = op\<lparr>op_control := c\<rparr>"
    using refl by (cases "op_lock op"; cases "control_cancel (op_control op)") (auto simp: handle_cancel_def)
  then obtain c where c: "snd (handle_cancel (own_operation s)) = (own_operation s)\<lparr>op_control := c\<rparr>" unfolding op_def by blast
  show "op_inv ser ctx live (s\<lparr>own_operation := snd (handle_cancel (own_operation s))\<rparr>)"
    unfolding c by (rule frame_inv [OF inv]) (simp_all add: queued_history_def)
  show "cur (s\<lparr>own_operation := snd (handle_cancel (own_operation s))\<rparr>) = cur s"
    "identity_of (s\<lparr>own_operation := snd (handle_cancel (own_operation s))\<rparr>) = identity_of s"
    by (simp_all add: c)
qed

lemma effect_step_grows:
  assumes "ledger_step ser \<lparr>ls_ledger = l, ls_live = live\<rparr> \<lparr>ls_ledger = l', ls_live = live'\<rparr>"
    and "ledger_inv ser ctx \<lparr>ls_ledger = l, ls_live = live\<rparr>"
  shows "length (led_records (guarded (led_state l))) \<le> length (led_records (guarded (led_state l')))"
    "led_sealed (guarded (led_state l)) \<longrightarrow> led_sealed (guarded (led_state l'))"
  using ledger_step_kind [OF assms] ledger_invD(2) [OF assms(2)] ledger_invD(2) [OF ledger_step_inv [OF assms]]
  by (auto simp: keeps_records_def changes_live_record_def appends_record_def bt.length_put)

lemma operation_step_inv:
  assumes step: "operation_step z (s, live) (t, live')" and inv: "op_inv (sz_effect z) ctx live s"
  shows "op_inv (sz_effect z) ctx live' t" "cur t = cur s \<or> follows (cur s) (cur t)" "identity_of t = identity_of s"
proof -
  have "op_inv (sz_effect z) ctx live' t \<and> (cur t = cur s \<or> follows (cur s) (cur t)) \<and> identity_of t = identity_of s"
    using step
  proof (cases rule: operation_step.cases)
    case (op_call c)
    then show ?thesis using run_call_good [OF inv, of c] run_call_identity [of z c s] by (simp add: good_def)
  next
    case op_cancel
    then show ?thesis using handle_cancel_inv [OF inv] by simp
  next
    case (op_effect l)
    note l = op_effect(2)
    have "op_inv (sz_effect z) ctx live' (with_effects l s)"
      using effects_change_inv [OF inv ledger_step_inv [OF l op_invD(3) [OF inv]]] effect_step_grows [OF l op_invD(3) [OF inv]] .
    then show ?thesis using op_effect(1) by simp
  qed
  then show "op_inv (sz_effect z) ctx live' t" "cur t = cur s \<or> follows (cur s) (cur t)" "identity_of t = identity_of s"
    by blast+
qed

section \<open>Sequences of steps\<close>

lemma follows_not_terminal: "follows x y \<Longrightarrow> \<not> is_terminal (sn_phase x)"
  using phase_transition_not_terminal by (auto simp: follows_def)

lemma terminal_step:
  assumes "operation_step z (s, live) (t, live')" "op_inv (sz_effect z) ctx live s" "is_terminal (sn_phase (cur s))"
  shows "cur t = cur s"
  using operation_step_inv(2) [OF assms(1,2)] assms(3) follows_not_terminal by blast

end
