(* ===== verification/Operation_Registry_Inv.thy ===== *)
theory Operation_Registry_Inv
  imports Operation_Safety
begin

text \<open>
  The invariant of the operation registry, and that every step of every holder keeps it: retention
  stays within its bound together with the reserved slots, identities and publication sequences are
  never reused, and every retained operation satisfies its own invariant.
\<close>

abbreviation reg_st :: "operation_registry \<Rightarrow> operation_registry_state" where
  "reg_st g \<equiv> guarded (reg_state g)"

definition issued :: "operation_registry \<Rightarrow> string \<Rightarrow> bool" where
  "issued g i \<longleftrightarrow> (\<exists>k \<le> ors_sequence (reg_st g). i = identity_render OperationIdentity (reg_runtime_id g) k)"

definition reservation_ok :: "serializers \<Rightarrow> operation_registry \<Rightarrow> operation_reservation \<Rightarrow> bool" where
  "reservation_ok z g r \<longleftrightarrow>
     rsv_active r \<and> rsv_state r = reg_address g \<and> issued g (rsv_id r) \<and>
     context_validate (rsv_context r) (reg_runtime_id g) (rsv_id r) = Ok () \<and>
     (\<exists>n. json_size (sz_context z (rsv_context r)) (reg_max_effect_bytes g) = Ok n) \<and>
     bt_get (ors_records (reg_st g)) (rsv_id r) = None"

definition healthy :: "serializers \<Rightarrow> operation \<Rightarrow> owner_part \<Rightarrow> bool" where
  "healthy z op v \<longleftrightarrow> (\<exists>ctx. op_inv (sz_effect z) ctx (snd (whole_operation op v)) (fst (whole_operation op v)))"

definition record_ok :: "serializers \<Rightarrow> operation_registry \<Rightarrow> (string \<Rightarrow> owner_part) \<Rightarrow> string \<Rightarrow> operation \<Rightarrow> bool" where
  "record_ok z g private i op \<longleftrightarrow>
     op_ident op = i \<and> issued g i \<and> sn_operation_id (guarded (op_snapshot op)) = i \<and>
     0 < op_publication_sequence op \<and> op_publication_sequence op \<le> ors_publication_sequence (reg_st g) \<and>
     healthy z op (private i)"

definition registry_inv :: "serializers \<Rightarrow> registry_system \<Rightarrow> bool" where
  "registry_inv z s \<longleftrightarrow>
     (let g = rs_registry s; st = reg_st g in
      \<not> poisoned (reg_state g) \<and> bt_wf (ors_records st) \<and>
      ors_reserved st = length (rs_reservations s) \<and>
      length (ors_records st) + ors_reserved st \<le> reg_max_operations g \<and>
      distinct (map rsv_id (rs_reservations s)) \<and>
      (\<forall>r \<in> set (rs_reservations s). reservation_ok z g r) \<and>
      (\<forall>i op. bt_get (ors_records st) i = Some op \<longrightarrow> record_ok z g (rs_private s) i op) \<and>
      (\<forall>i j op op'. bt_get (ors_records st) i = Some op \<longrightarrow> bt_get (ors_records st) j = Some op' \<longrightarrow>
         op_publication_sequence op = op_publication_sequence op' \<longrightarrow> i = j))"

lemma registry_invD:
  assumes "registry_inv z s"
  defines "g \<equiv> rs_registry s"
  shows "\<not> poisoned (reg_state g)" "bt_wf (ors_records (reg_st g))"
    "ors_reserved (reg_st g) = length (rs_reservations s)"
    "length (ors_records (reg_st g)) + ors_reserved (reg_st g) \<le> reg_max_operations g"
    "distinct (map rsv_id (rs_reservations s))"
    "r \<in> set (rs_reservations s) \<Longrightarrow> reservation_ok z g r"
    "bt_get (ors_records (reg_st g)) i = Some op \<Longrightarrow> record_ok z g (rs_private s) i op"
    "bt_get (ors_records (reg_st g)) i = Some op \<Longrightarrow> bt_get (ors_records (reg_st g)) j = Some op' \<Longrightarrow>
       op_publication_sequence op = op_publication_sequence op' \<Longrightarrow> i = j"
  using assms(1) unfolding registry_inv_def Let_def g_def by blast+

lemma registry_invI:
  assumes "\<not> poisoned (reg_state (rs_registry s))" "bt_wf (ors_records (reg_st (rs_registry s)))"
    "ors_reserved (reg_st (rs_registry s)) = length (rs_reservations s)"
    "length (ors_records (reg_st (rs_registry s))) + ors_reserved (reg_st (rs_registry s)) \<le> reg_max_operations (rs_registry s)"
    "distinct (map rsv_id (rs_reservations s))"
    "\<And>r. r \<in> set (rs_reservations s) \<Longrightarrow> reservation_ok z (rs_registry s) r"
    "\<And>i op. bt_get (ors_records (reg_st (rs_registry s))) i = Some op \<Longrightarrow> record_ok z (rs_registry s) (rs_private s) i op"
    "\<And>i j op op'. bt_get (ors_records (reg_st (rs_registry s))) i = Some op \<Longrightarrow>
       bt_get (ors_records (reg_st (rs_registry s))) j = Some op' \<Longrightarrow>
       op_publication_sequence op = op_publication_sequence op' \<Longrightarrow> i = j"
  shows "registry_inv z s"
  using assms unfolding registry_inv_def Let_def by blast

section \<open>A new operation\<close>

lemma new_operation_healthy:
  assumes "context_bytes \<le> reg_max_effect_bytes g"
  shows "healthy z (new_operation g n i ctx context_bytes control) (private_part (new_owner (new_operation g n i ctx context_bytes control), {}))"
proof -
  let ?op = "new_operation g n i ctx context_bytes control"
  have "op_inv (sz_effect z) context_bytes {} (new_owner ?op)"
    by (rule op_invI)
      (use assms in \<open>simp_all add: new_operation_def new_owner_def ledger_inv_def ledger_new_def snapshot_ok_def result_shape_def
        count_ok_def evidence_owned_def transition_of_def\<close>)
  moreover have "whole_operation ?op (private_part (new_owner ?op, {})) = (new_owner ?op, {})"
    by (simp add: whole_operation_def private_part_def new_owner_def)
  ultimately show ?thesis by (auto simp: healthy_def)
qed

lemma new_operation_simps [simp]:
  "op_ident (new_operation g n i ctx b c) = i" "op_publication_sequence (new_operation g n i ctx b c) = n"
  "sn_operation_id (guarded (op_snapshot (new_operation g n i ctx b c))) = i"
  "own_operation (new_owner op) = op"
  by (simp_all add: new_operation_def new_owner_def)

section \<open>Results of the registry's operations\<close>

lemma registry_with_cases:
  assumes "\<not> poisoned (reg_state g)" "registry_with g body = (r, g')" "\<not> is_panic r"
  shows "body (reg_st g) = (r, reg_st g') \<and> g' = g\<lparr>reg_state := mutex_new (reg_st g')\<rparr>"
  using assms by (cases "body (reg_st g)") (auto simp: registry_with_def mutex_with_def mutex_new_def)

lemma registry_with_Err:
  assumes "registry_with g (\<lambda>st. commit (q st) st (f st)) = (Err e, g')"
  shows "g' = g"
proof -
  have "g' = g\<lparr>reg_state := snd (mutex_with registry_poisoned (reg_state g) (\<lambda>st. commit (q st) st (f st)))\<rparr>"
    using assms by (auto simp: registry_with_def split: prod.splits)
  moreover have "fst (mutex_with registry_poisoned (reg_state g) (\<lambda>st. commit (q st) st (f st))) = Err e"
    using assms by (auto simp: registry_with_def split: prod.splits)
  ultimately show ?thesis using mutex_with_commit_Err [of registry_poisoned "reg_state g" q f e] by simp
qed

lemma registry_unchanged [simp]: "\<not> poisoned (reg_state g) \<Longrightarrow> g\<lparr>reg_state := mutex_new (reg_st g)\<rparr> = g"
  by (cases g; cases "reg_state g") (simp add: mutex_new_def)

lemma admission_identity_result:
  assumes "admission_identity g st None = Ok (sequence, i)"
  shows "sequence = ors_sequence st + 1" "i = identity_render OperationIdentity (reg_runtime_id g) sequence"
    "length (ors_records st) + ors_reserved st < reg_max_operations g" "sequence \<le> u64_max"
  using assms by (auto simp: admission_identity_def retention_full_def split: if_splits)

lemma admission_check_result:
  assumes "admission_check ser g st reservation make_context = Ok (sequence, i, ctx, bytes, n)"
  shows "admission_identity g st reservation = Ok (sequence, i)" "n = ors_publication_sequence st + 1"
    "bytes \<le> reg_max_effect_bytes g"
  using assms by (auto simp: admission_check_def split: operation_context.splits)

lemma admit_result:
  assumes "\<not> poisoned (reg_state g)" "admit_with_reservation ser now g control reservation make_context = (Ok (w, r), g')"
  obtains sequence i ctx bytes n control' where
    "admission_check ser g (reg_st g) reservation make_context = Ok (sequence, i, ctx, bytes, n)"
    "control_attach_effects control n Business = (Ok (), control')"
    "w = new_owner (new_operation g n i ctx bytes control')"
    "reservation = None \<Longrightarrow> g' = g\<lparr>reg_state := mutex_new (insert_operation g sequence i (own_operation w) (reg_st g))\<rparr>"
    "\<And>owned. reservation = Some owned \<Longrightarrow> 0 < ors_reserved (reg_st g) \<and> r = Some (owned\<lparr>rsv_active := False\<rparr>) \<and>
       g' = g\<lparr>reg_state := mutex_new (insert_operation g sequence i (own_operation w)
         ((reg_st g)\<lparr>ors_reserved := ors_reserved (reg_st g) - 1\<rparr>))\<rparr>"
proof -
  let ?body = "admit_locked ser g control reservation make_context"
  have w: "registry_with g ?body = (Ok (w, r), g')"
    using assms(2) unfolding admit_with_reservation_def by (auto split: outcome.splits if_splits)
  have b: "?body (reg_st g) = (Ok (w, r), reg_st g')" and g': "g' = g\<lparr>reg_state := mutex_new (reg_st g')\<rparr>"
    using registry_with_cases [OF assms(1) w] by simp_all
  from b obtain sequence i ctx bytes n where c: "admission_check ser g (reg_st g) reservation make_context = Ok (sequence, i, ctx, bytes, n)"
    unfolding admit_locked_def by (auto split: outcome.splits)
  obtain x control' where a: "control_attach_effects control n Business = (x, control')" by (cases "control_attach_effects control n Business")
  have x: "x = Ok ()" using b c a unfolding admit_locked_def by (auto split: outcome.splits)
  show thesis
  proof (rule that [OF c])
    show "control_attach_effects control n Business = (Ok (), control')" using a x by simp
    show "w = new_owner (new_operation g n i ctx bytes control')"
      using b c a x unfolding admit_locked_def by (auto simp: Let_def split: option.splits)
  next
    assume "reservation = None"
    then show "g' = g\<lparr>reg_state := mutex_new (insert_operation g sequence i (own_operation w) (reg_st g))\<rparr>"
      using b c a x g' unfolding admit_locked_def by (auto simp: Let_def)
  next
    fix owned assume "reservation = Some owned"
    then show "0 < ors_reserved (reg_st g) \<and> r = Some (owned\<lparr>rsv_active := False\<rparr>) \<and>
       g' = g\<lparr>reg_state := mutex_new (insert_operation g sequence i (own_operation w)
         ((reg_st g)\<lparr>ors_reserved := ors_reserved (reg_st g) - 1\<rparr>))\<rparr>"
      using b c a x g' unfolding admit_locked_def by (auto simp: Let_def split: option.splits)
  qed
qed

section \<open>Steps\<close>

lemma issued_mono: "issued g i \<Longrightarrow> reg_runtime_id g' = reg_runtime_id g \<Longrightarrow> ors_sequence (reg_st g) \<le> ors_sequence (reg_st g') \<Longrightarrow> issued g' i"
  by (auto simp: issued_def intro: order.trans)

lemma issued_fresh: "\<not> issued g (identity_render OperationIdentity (reg_runtime_id g) (ors_sequence (reg_st g) + 1))"
  by (auto simp: issued_def)

lemma insert_inv:
  assumes inv: "registry_inv z s" and g: "g = rs_registry s"
    and key: "i = identity_render OperationIdentity (reg_runtime_id g) k" "k \<le> sequence" "ors_sequence (reg_st g) \<le> sequence"
    and fresh: "bt_get (ors_records (reg_st g)) i = None"
    and new: "op_ident op = i" "op_publication_sequence op = ors_publication_sequence (reg_st g) + 1"
      "sn_operation_id (guarded (op_snapshot op)) = i" "healthy z op v"
    and rs: "set rs \<subseteq> set (rs_reservations s)" "distinct (map rsv_id rs)" "i \<notin> rsv_id ` set rs"
    and room: "length (ors_records (reg_st g)) + 1 + length rs \<le> reg_max_operations g"
    and g': "g' = g\<lparr>reg_state := mutex_new (insert_operation g sequence i op ((reg_st g)\<lparr>ors_reserved := length rs\<rparr>))\<rparr>"
  shows "registry_inv z (s\<lparr>rs_registry := g', rs_reservations := rs, rs_private := (rs_private s)(i := v)\<rparr>)" (is "registry_inv z ?t")
proof (rule registry_invI)
  note d = registry_invD [OF inv, folded g]
  have get: "bt_get (ors_records (reg_st g')) = (bt_get (ors_records (reg_st g)))(i \<mapsto> op)"
    by (simp add: g' insert_operation_def)
  have seq: "ors_sequence (reg_st g') = sequence" "ors_publication_sequence (reg_st g') = op_publication_sequence op"
    "ors_reserved (reg_st g') = length rs" "reg_max_operations g' = reg_max_operations g" "reg_runtime_id g' = reg_runtime_id g"
    "reg_max_effect_bytes g' = reg_max_effect_bytes g" "reg_address g' = reg_address g"
    by (simp_all add: g' insert_operation_def)
  have iss: "issued g' j" if "issued g j" for j
    by (rule issued_mono [OF that]) (simp_all add: seq key)
  show "\<not> poisoned (reg_state (rs_registry ?t))" by (simp add: g')
  show "bt_wf (ors_records (reg_st (rs_registry ?t)))" using d(2) by (simp add: g' insert_operation_def)
  show "ors_reserved (reg_st (rs_registry ?t)) = length (rs_reservations ?t)" by (simp add: seq)
  have "length (ors_records (reg_st g')) = length (ors_records (reg_st g)) + 1"
    using bt.length_put [OF d(2), of i op] fresh by (simp add: g' insert_operation_def)
  then show "length (ors_records (reg_st (rs_registry ?t))) + ors_reserved (reg_st (rs_registry ?t)) \<le> reg_max_operations (rs_registry ?t)"
    using room by (simp add: seq)
  show "distinct (map rsv_id (rs_reservations ?t))" using rs by simp
  show "reservation_ok z (rs_registry ?t) r" if "r \<in> set (rs_reservations ?t)" for r
  proof -
    have "reservation_ok z g r" using d(6) that rs(1) by auto
    moreover have "rsv_id r \<noteq> i" using rs(3) that by auto
    ultimately show ?thesis using iss by (auto simp: reservation_ok_def seq get)
  qed
  show "record_ok z (rs_registry ?t) (rs_private ?t) j op'" if "bt_get (ors_records (reg_st (rs_registry ?t))) j = Some op'" for j op'
  proof (cases "j = i")
    case True
    then have "op' = op" using that by (simp add: get)
    moreover have "issued g' i" using key by (auto simp: issued_def seq)
    ultimately show ?thesis using True new by (simp add: record_ok_def seq)
  next
    case False
    then have "record_ok z g (rs_private s) j op'" using that d(7) by (simp add: get)
    then show ?thesis using False iss new(2) by (auto simp: record_ok_def seq)
  qed
  show "a = b" if "bt_get (ors_records (reg_st (rs_registry ?t))) a = Some op1" "bt_get (ors_records (reg_st (rs_registry ?t))) b = Some op2"
      "op_publication_sequence op1 = op_publication_sequence op2" for a b op1 op2
  proof -
    have "op_publication_sequence x \<noteq> op_publication_sequence op" if "bt_get (ors_records (reg_st g)) j = Some x" for j x
      using d(7) [OF that] new(2) by (simp add: record_ok_def)
    then show ?thesis using that d(8) [of a op1 b op2] by (auto simp: get split: if_splits)
  qed
qed

lemma admit_step:
  assumes inv: "registry_inv z s"
    and a: "admit_with_reservation (sz_context z) now (rs_registry s) control None make_context = (Ok (w, r), g)"
  shows "registry_inv z (s\<lparr>rs_registry := g, rs_private := (rs_private s)(op_ident (own_operation w) := private_part (w, {}))\<rparr>)"
proof -
  let ?g = "rs_registry s"
  note d = registry_invD [OF inv]
  from admit_result [OF d(1) a] obtain sequence i ctx bytes n control' where
    c: "admission_check (sz_context z) ?g (reg_st ?g) None make_context = Ok (sequence, i, ctx, bytes, n)"
    and w: "w = new_owner (new_operation ?g n i ctx bytes control')"
    and g: "g = ?g\<lparr>reg_state := mutex_new (insert_operation ?g sequence i (own_operation w) (reg_st ?g))\<rparr>" by metis
  note c = admission_check_result [OF c]
  note ai = admission_identity_result [OF c(1)]
  have same: "(reg_st ?g)\<lparr>ors_reserved := length (rs_reservations s)\<rparr> = reg_st ?g" using d(3) by (cases "reg_st ?g") simp
  have new: "\<not> issued ?g i" using issued_fresh ai by simp
  have "bt_get (ors_records (reg_st ?g)) i = None"
    using new d(7) by (cases "bt_get (ors_records (reg_st ?g)) i") (auto simp: record_ok_def)
  moreover have "i \<notin> rsv_id ` set (rs_reservations s)" using new d(6) by (auto simp: reservation_ok_def)
  ultimately have "registry_inv z (s\<lparr>rs_registry := g, rs_reservations := rs_reservations s,
      rs_private := (rs_private s)(i := private_part (w, {}))\<rparr>)"
    using ai c d(3,4,5) new_operation_healthy [OF c(3), of z n i ctx control']
    by (intro insert_inv [OF inv refl ai(2), of sequence "own_operation w"]) (simp_all add: w g same)
  then show ?thesis by (simp add: w)
qed

lemma admit_reserved_step:
  assumes inv: "registry_inv z s" and split: "rs_reservations s = xs @ r # ys"
    and a: "admit_reserved (sz_context z) now (rs_registry s) r control = (Ok (w, r'), g)"
  shows "registry_inv z (s\<lparr>rs_registry := g, rs_reservations := xs @ ys,
    rs_private := (rs_private s)(op_ident (own_operation w) := private_part (w, {}))\<rparr>)"
proof -
  let ?g = "rs_registry s"
  note d = registry_invD [OF inv]
  have r: "reservation_ok z ?g r" using d(6) split by simp
  from admit_result [OF d(1) a [unfolded admit_reserved_def]] obtain sequence i ctx bytes n control' where
    c: "admission_check (sz_context z) ?g (reg_st ?g) (Some r) (\<lambda>_. Err (error_invalid ''reserved admission must use its captured context'')) =
      Ok (sequence, i, ctx, bytes, n)"
    and w: "w = new_owner (new_operation ?g n i ctx bytes control')"
    and g: "g = ?g\<lparr>reg_state := mutex_new (insert_operation ?g sequence i (own_operation w)
         ((reg_st ?g)\<lparr>ors_reserved := ors_reserved (reg_st ?g) - 1\<rparr>))\<rparr>" by metis
  note c = admission_check_result [OF c]
  have i: "i = rsv_id r" "sequence = ors_sequence (reg_st ?g)" using c(1) r by (auto simp: admission_identity_def reservation_ok_def)
  obtain k where k: "i = identity_render OperationIdentity (reg_runtime_id ?g) k" "k \<le> sequence"
    using r by (auto simp: reservation_ok_def issued_def i)
  have "registry_inv z (s\<lparr>rs_registry := g, rs_reservations := xs @ ys, rs_private := (rs_private s)(i := private_part (w, {}))\<rparr>)"
    using c d(3,4,5) r new_operation_healthy [OF c(3), of z n i ctx control'] split
    by (intro insert_inv [OF inv refl k, of "own_operation w"]) (auto simp: w g i reservation_ok_def)
  then show ?thesis by (simp add: w)
qed

lemma reserve_context_result:
  assumes np: "\<not> poisoned (reg_state g)" and r: "reserve_context ser g make_context = (Ok r, g')"
  shows "g' = g\<lparr>reg_state := mutex_new ((reg_st g)\<lparr>ors_sequence := ors_sequence (reg_st g) + 1, ors_reserved := ors_reserved (reg_st g) + 1\<rparr>)\<rparr>"
    "rsv_id r = identity_render OperationIdentity (reg_runtime_id g) (ors_sequence (reg_st g) + 1)" "rsv_active r" "rsv_state r = reg_address g"
    "context_validate (rsv_context r) (reg_runtime_id g) (rsv_id r) = Ok ()"
    "\<exists>n. json_size (ser (rsv_context r)) (reg_max_effect_bytes g) = Ok n"
    "length (ors_records (reg_st g)) + ors_reserved (reg_st g) < reg_max_operations g"
  using registry_with_cases [OF np r [unfolded reserve_context_def]]
  by (auto simp: commit_Ok_iff retention_full_def Let_def split: if_splits)

lemma reserve_step:
  assumes inv: "registry_inv z s" and r: "reserve_context (sz_context z) (rs_registry s) make_context = (Ok r, g)"
  shows "registry_inv z (s\<lparr>rs_registry := g, rs_reservations := r # rs_reservations s\<rparr>)" (is "registry_inv z ?t")
proof (rule registry_invI)
  let ?g = "rs_registry s"
  note d = registry_invD [OF inv]
  note g = reserve_context_result(1) [OF d(1) r] and new = reserve_context_result(2-6) [OF d(1) r] and room = reserve_context_result(7) [OF d(1) r]
  have fresh: "\<not> issued ?g (rsv_id r)" unfolding new(1) by (rule issued_fresh)
  have iss: "issued g j" if "issued ?g j" for j by (rule issued_mono [OF that]) (simp_all add: g)
  have "bt_get (ors_records (reg_st ?g)) (rsv_id r) = None"
    using fresh d(7) by (cases "bt_get (ors_records (reg_st ?g)) (rsv_id r)") (auto simp: record_ok_def)
  moreover have "issued g (rsv_id r)" by (auto simp: issued_def new(1) g)
  ultimately have "reservation_ok z g r" using new(2-5) by (simp add: reservation_ok_def g)
  then show "reservation_ok z (rs_registry ?t) x" if "x \<in> set (rs_reservations ?t)" for x
    using that d(6) [of x] iss by (auto simp: reservation_ok_def g)
  show "record_ok z (rs_registry ?t) (rs_private ?t) i op" if "bt_get (ors_records (reg_st (rs_registry ?t))) i = Some op" for i op
    using that d(7) [of i op] iss by (auto simp: record_ok_def g)
  have "rsv_id r \<notin> rsv_id ` set (rs_reservations s)" using fresh d(6) by (auto simp: reservation_ok_def)
  then show "distinct (map rsv_id (rs_reservations ?t))" using d(5) by simp
  show "a = b" if "bt_get (ors_records (reg_st (rs_registry ?t))) a = Some op1" "bt_get (ors_records (reg_st (rs_registry ?t))) b = Some op2"
      "op_publication_sequence op1 = op_publication_sequence op2" for a b op1 op2
    using that d(8) by (simp add: g)
  show "\<not> poisoned (reg_state (rs_registry ?t))" "bt_wf (ors_records (reg_st (rs_registry ?t)))"
    "ors_reserved (reg_st (rs_registry ?t)) = length (rs_reservations ?t)"
    "length (ors_records (reg_st (rs_registry ?t))) + ors_reserved (reg_st (rs_registry ?t)) \<le> reg_max_operations (rs_registry ?t)"
    using d(2,3) room by (simp_all add: g)
qed

lemma drop_step:
  assumes inv: "registry_inv z s" and split: "rs_reservations s = xs @ r # ys"
  shows "registry_inv z (s\<lparr>rs_registry := snd (drop_operation_reservation (rs_registry s) r), rs_reservations := xs @ ys\<rparr>)"
    "\<not> is_panic (fst (drop_operation_reservation (rs_registry s) r))"
proof -
  let ?g = "rs_registry s"
  note d = registry_invD [OF inv]
  have r: "rsv_active r" "0 < ors_reserved (reg_st ?g)" using d(3) d(6) [of r] split by (auto simp: reservation_ok_def)
  then show "\<not> is_panic (fst (drop_operation_reservation ?g r))"
    by (auto simp: drop_operation_reservation_def split: option.splits)
  have g: "snd (drop_operation_reservation ?g r) =
      ?g\<lparr>reg_state := mutex_new ((reg_st ?g)\<lparr>ors_reserved := ors_reserved (reg_st ?g) - 1\<rparr>)\<rparr>"
    using r d(1) by (auto simp: drop_operation_reservation_def mutex_recover_def mutex_new_def split: option.splits)
  show "registry_inv z (s\<lparr>rs_registry := snd (drop_operation_reservation ?g r), rs_reservations := xs @ ys\<rparr>)"
    unfolding g
    by (rule registry_invI) (use d(2-5,8) split d(6,7) in \<open>auto simp: reservation_ok_def record_ok_def issued_def\<close>)
qed

lemma forget_result:
  assumes np: "\<not> poisoned (reg_state g)"
    and ok: "\<And>op. bt_get (ors_records (reg_st g)) i = Some op \<Longrightarrow> \<not> poisoned (op_snapshot op)"
  shows "registry_forget g i =
     (case bt_get (ors_records (reg_st g)) i of
        None \<Rightarrow> (Err (error_new NotFound ''operation record is unknown or expired''), g)
      | Some op \<Rightarrow>
          if is_terminal (sn_phase (guarded (op_snapshot op)))
          then (Ok (), g\<lparr>reg_state := mutex_new ((reg_st g)\<lparr>ors_records := bt_remove i (ors_records (reg_st g))\<rparr>)\<rparr>)
          else (Err (error_new Busy ''operation has not finished execution and cleanup''), g))"
  using np ok [of "the (bt_get (ors_records (reg_st g)) i)"]
  by (cases "bt_get (ors_records (reg_st g)) i"; cases g; cases "reg_state g")
    (auto simp: registry_forget_def registry_with_def mutex_with_def mutex_new_def)

lemma record_unpoisoned:
  assumes "record_ok z g private i op"
  shows "\<not> poisoned (op_snapshot op)"
  using assms op_invD(1) by (fastforce simp: record_ok_def healthy_def whole_operation_def)

lemma forget_step:
  assumes inv: "registry_inv z s"
  shows "registry_inv z (s\<lparr>rs_registry := snd (registry_forget (rs_registry s) i)\<rparr>)"
proof -
  let ?g = "rs_registry s"
  note d = registry_invD [OF inv]
  let ?g' = "?g\<lparr>reg_state := mutex_new ((reg_st ?g)\<lparr>ors_records := bt_remove i (ors_records (reg_st ?g))\<rparr>)\<rparr>"
  have "registry_inv z (s\<lparr>rs_registry := ?g'\<rparr>)"
  proof (rule registry_invI)
    have "length (bt_remove i (ors_records (reg_st ?g))) \<le> length (ors_records (reg_st ?g))"
      using bt.length_del [OF d(2), of i] by simp
    then show "length (ors_records (reg_st (rs_registry (s\<lparr>rs_registry := ?g'\<rparr>)))) + ors_reserved (reg_st (rs_registry (s\<lparr>rs_registry := ?g'\<rparr>)))
        \<le> reg_max_operations (rs_registry (s\<lparr>rs_registry := ?g'\<rparr>))" using d(4) by simp
    show "reservation_ok z (rs_registry (s\<lparr>rs_registry := ?g'\<rparr>)) r" if "r \<in> set (rs_reservations (s\<lparr>rs_registry := ?g'\<rparr>))" for r
      using d(6) [of r] that d(2) by (auto simp: reservation_ok_def issued_def bt_get_remove)
    show "record_ok z (rs_registry (s\<lparr>rs_registry := ?g'\<rparr>)) (rs_private (s\<lparr>rs_registry := ?g'\<rparr>)) j op"
      if "bt_get (ors_records (reg_st (rs_registry (s\<lparr>rs_registry := ?g'\<rparr>)))) j = Some op" for j op
      using d(7) [of j op] that d(2) by (auto simp: record_ok_def issued_def bt_get_remove split: if_splits)
  qed (use d(2,3,5,8) in \<open>auto simp: bt_get_remove split: if_splits\<close>)
  moreover have "snd (registry_forget ?g i) = ?g \<or> snd (registry_forget ?g i) = ?g'"
    using forget_result [OF d(1), of i] record_unpoisoned [OF d(7)] by (auto split: option.splits)
  ultimately show ?thesis using inv by (auto simp: registry_system.defs)
qed

lemma whole_operation_private [simp]: "whole_operation (own_operation (fst t)) (private_part t) = t"
  by (cases t) (simp add: whole_operation_def private_part_def)

lemma operation_of_whole [simp]: "own_operation (fst (whole_operation op v)) = op"
  by (simp add: whole_operation_def)

text \<open>What a step of a retained operation does to its record.\<close>

lemma record_step:
  assumes r: "record_ok z g private i op" and step: "operation_step z (whole_operation op (private i)) t"
  shows "healthy z (own_operation (fst t)) (private_part t)" "op_ident (own_operation (fst t)) = op_ident op"
    "op_publication_sequence (own_operation (fst t)) = op_publication_sequence op"
    "cur (fst t) = guarded (op_snapshot op) \<or> follows (guarded (op_snapshot op)) (cur (fst t))"
    "sn_operation_id (cur (fst t)) = i"
proof -
  obtain ctx where inv: "op_inv (sz_effect z) ctx (snd (whole_operation op (private i))) (fst (whole_operation op (private i)))"
    using r by (auto simp: record_ok_def healthy_def)
  have "operation_step z (fst (whole_operation op (private i)), snd (whole_operation op (private i))) (fst t, snd t)"
    using step by simp
  note o = operation_step_inv [OF this inv]
  show "healthy z (own_operation (fst t)) (private_part t)" using o(1) by (auto simp: healthy_def)
  show "op_ident (own_operation (fst t)) = op_ident op"
    "op_publication_sequence (own_operation (fst t)) = op_publication_sequence op" using o(3) by simp_all
  show c: "cur (fst t) = guarded (op_snapshot op) \<or> follows (guarded (op_snapshot op)) (cur (fst t))" using o(2) by simp
  show "sn_operation_id (cur (fst t)) = i" using c r by (auto simp: record_ok_def follows_def)
qed

lemma replace_operation_simps [simp]:
  "bt_get (ors_records (reg_st (replace_operation g i op))) = (bt_get (ors_records (reg_st g)))(i \<mapsto> op)"
  "ors_sequence (reg_st (replace_operation g i op)) = ors_sequence (reg_st g)"
  "ors_publication_sequence (reg_st (replace_operation g i op)) = ors_publication_sequence (reg_st g)"
  "ors_reserved (reg_st (replace_operation g i op)) = ors_reserved (reg_st g)"
  "reg_runtime_id (replace_operation g i op) = reg_runtime_id g" "reg_address (replace_operation g i op) = reg_address g"
  "reg_max_effect_bytes (replace_operation g i op) = reg_max_effect_bytes g"
  "reg_max_operations (replace_operation g i op) = reg_max_operations g"
  "poisoned (reg_state (replace_operation g i op)) = poisoned (reg_state g)"
  "bt_wf (ors_records (reg_st g)) \<Longrightarrow> bt_wf (ors_records (reg_st (replace_operation g i op)))"
  by (simp_all add: replace_operation_def)

lemma replace_operation_length:
  assumes "bt_wf (ors_records (reg_st g))" "bt_get (ors_records (reg_st g)) i = Some op"
  shows "length (ors_records (reg_st (replace_operation g i op'))) = length (ors_records (reg_st g))"
  using assms bt.length_put [of "ors_records (reg_st g)" i op'] by (simp add: replace_operation_def)

lemma operation_step_registry:
  assumes inv: "registry_inv z s" and get: "bt_get (ors_records (reg_st (rs_registry s))) i = Some op"
    and step: "operation_step z (whole_operation op (rs_private s i)) t"
  shows "registry_inv z (s\<lparr>rs_registry := replace_operation (rs_registry s) i (own_operation (fst t)),
       rs_private := (rs_private s)(i := private_part t)\<rparr>)" (is "registry_inv z ?t")
proof (rule registry_invI)
  let ?g = "rs_registry s" and ?op = "own_operation (fst t)"
  note d = registry_invD [OF inv] and r = registry_invD(7) [OF inv get]
  note o = record_step [OF r step]
  show "reservation_ok z (rs_registry ?t) x" if "x \<in> set (rs_reservations ?t)" for x
    using d(6) [of x] that get by (auto simp: reservation_ok_def issued_def)
  show "record_ok z (rs_registry ?t) (rs_private ?t) j op'" if "bt_get (ors_records (reg_st (rs_registry ?t))) j = Some op'" for j op'
  proof (cases "j = i")
    case True
    then show ?thesis using that r o by (simp add: record_ok_def issued_def)
  next
    case False
    then show ?thesis using that d(7) [of j op'] by (simp add: record_ok_def issued_def)
  qed
  show "a = b" if "bt_get (ors_records (reg_st (rs_registry ?t))) a = Some op1" "bt_get (ors_records (reg_st (rs_registry ?t))) b = Some op2"
      "op_publication_sequence op1 = op_publication_sequence op2" for a b op1 op2
    using that d(8) get o(3) by (auto split: if_splits)
qed (use registry_invD(1,3-5) [OF inv] registry_invD(2) [OF inv] get replace_operation_length [OF registry_invD(2) [OF inv] get] in simp_all)

text \<open>A rejected call changes nothing.\<close>

lemma admit_failed:
  assumes "admit_with_reservation ser now g control reservation make_context = (Err e, g')"
  shows "g' = g"
proof (cases "poisoned (reg_state g)")
  case True
  then show ?thesis
    using assms by (cases g) (auto simp: admit_with_reservation_def registry_with_def mutex_with_def split: outcome.splits if_splits)
next
  case False
  have "g' = g \<or> registry_with g (admit_locked ser g control reservation make_context) = (Err e, g')"
    using assms by (auto simp: admit_with_reservation_def split: outcome.splits if_splits)
  moreover have "reg_st g' = reg_st g" if "admit_locked ser g control reservation make_context (reg_st g) = (Err e, reg_st g')"
    using that by (auto simp: admit_locked_def Let_def split: outcome.splits prod.splits option.splits)
  ultimately show ?thesis
    using registry_with_cases [OF False, of "admit_locked ser g control reservation make_context" "Err e" g'] registry_unchanged [OF False] by auto
qed

lemma same_registry [simp]: "s\<lparr>rs_registry := rs_registry s\<rparr> = s"
  by (cases s) simp

lemma registry_step_inv:
  assumes "registry_step z s t" "registry_inv z s"
  shows "registry_inv z t"
  using assms
proof (induction rule: registry_step.induct)
  case (rs_admit_failed now s control make_context e g)
  then show ?case by (auto dest!: admit_failed)
next
  case (rs_reserve_failed s make_context e g)
  then show ?case unfolding reserve_context_def by (auto dest!: registry_with_Err)
next
  case (rs_admit_reserved_failed r s now control e g)
  then show ?case unfolding admit_reserved_def by (auto dest!: admit_failed)
qed (simp_all add: admit_step reserve_step admit_reserved_step drop_step forget_step operation_step_registry)

lemma registry_new_inv:
  assumes "registry_new address journal runtime_id config = Ok g"
  shows "registry_inv z \<lparr>rs_registry = g, rs_reservations = [], rs_private = private\<rparr>"
  using assms by (auto simp: registry_new_def registry_inv_def split: if_splits)

lemma registry_reachable_inv: "registry_reachable z s \<Longrightarrow> registry_inv z s"
  by (induction rule: registry_reachable.induct) (auto intro: registry_new_inv registry_step_inv)

end
