(* ===== verification/Operation_History.thy ===== *)
theory Operation_History
  imports Operation_Registry_Inv
begin

text \<open>
  Executions of the registry: what becomes of one identity. An identity that has been issued is held
  by a reservation, retained, or gone for good.
\<close>

definition gone :: "registry_system \<Rightarrow> string \<Rightarrow> bool" where
  "gone s i \<longleftrightarrow> issued (rs_registry s) i \<and> bt_get (ors_records (reg_st (rs_registry s))) i = None \<and>
     i \<notin> rsv_id ` set (rs_reservations s)"

text \<open>What one step does to the record of an identity.\<close>

inductive record_change :: "operation option \<Rightarrow> operation option \<Rightarrow> bool" where
  unchanged: "record_change r r"
| forgotten: "is_terminal (sn_phase (guarded (op_snapshot op))) \<Longrightarrow> record_change (Some op) None"
| advanced: "guarded (op_snapshot op') = guarded (op_snapshot op) \<or> follows (guarded (op_snapshot op)) (guarded (op_snapshot op')) \<Longrightarrow>
    op_publication_sequence op' = op_publication_sequence op \<Longrightarrow> record_change (Some op) (Some op')"

inductive_cases record_changeE: "record_change (Some op) x"
inductive_cases record_change_SomeE: "record_change (Some op) (Some op')"
inductive_cases record_change_NoneE: "record_change None x"

abbreviation record_of :: "registry_system \<Rightarrow> string \<Rightarrow> operation option" where
  "record_of s i \<equiv> bt_get (ors_records (reg_st (rs_registry s))) i"

lemma admitted_key:
  assumes "registry_inv z s" "admit_with_reservation (sz_context z) now (rs_registry s) control None make_context = (Ok (w, r), g)"
  shows "bt_get (ors_records (reg_st g)) = (record_of s)(op_ident (own_operation w) \<mapsto> own_operation w)"
    "\<not> issued (rs_registry s) (op_ident (own_operation w))" "reg_runtime_id g = reg_runtime_id (rs_registry s)"
    "ors_sequence (reg_st g) = ors_sequence (reg_st (rs_registry s)) + 1"
proof -
  obtain sequence i ctx bytes n control' where
    c: "admission_check (sz_context z) (rs_registry s) (reg_st (rs_registry s)) None make_context = Ok (sequence, i, ctx, bytes, n)"
    and w: "w = new_owner (new_operation (rs_registry s) n i ctx bytes control')"
    and g: "g = (rs_registry s)\<lparr>reg_state := mutex_new (insert_operation (rs_registry s) sequence i (own_operation w) (reg_st (rs_registry s)))\<rparr>"
    using admit_result [OF registry_invD(1) [OF assms(1)] assms(2)] by metis
  note ai = admission_identity_result [OF admission_check_result(1) [OF c]]
  show "bt_get (ors_records (reg_st g)) = (record_of s)(op_ident (own_operation w) \<mapsto> own_operation w)"
    "reg_runtime_id g = reg_runtime_id (rs_registry s)" "ors_sequence (reg_st g) = ors_sequence (reg_st (rs_registry s)) + 1"
    using ai(1) by (simp_all add: g w insert_operation_def)
  show "\<not> issued (rs_registry s) (op_ident (own_operation w))" using ai(1,2) issued_fresh [of "rs_registry s"] by (simp add: w)
qed

lemma admitted_reserved_key:
  assumes "registry_inv z s" "r \<in> set (rs_reservations s)"
    "admit_reserved (sz_context z) now (rs_registry s) r control = (Ok (w, r'), g)"
  shows "bt_get (ors_records (reg_st g)) = (record_of s)(rsv_id r \<mapsto> own_operation w)" "op_ident (own_operation w) = rsv_id r"
    "reg_runtime_id g = reg_runtime_id (rs_registry s)" "ors_sequence (reg_st g) = ors_sequence (reg_st (rs_registry s))"
proof -
  obtain sequence i ctx bytes n control' where
    c: "admission_check (sz_context z) (rs_registry s) (reg_st (rs_registry s)) (Some r)
      (\<lambda>_. Err (error_invalid ''reserved admission must use its captured context'')) = Ok (sequence, i, ctx, bytes, n)"
    and w: "w = new_owner (new_operation (rs_registry s) n i ctx bytes control')"
    and g: "g = (rs_registry s)\<lparr>reg_state := mutex_new (insert_operation (rs_registry s) sequence i (own_operation w)
         ((reg_st (rs_registry s))\<lparr>ors_reserved := ors_reserved (reg_st (rs_registry s)) - 1\<rparr>))\<rparr>"
    using admit_result [OF registry_invD(1) [OF assms(1)] assms(3) [unfolded admit_reserved_def]] by metis
  have "sequence = ors_sequence (reg_st (rs_registry s))" "i = rsv_id r"
    using admission_check_result(1) [OF c] registry_invD(6) [OF assms(1,2)] by (simp_all add: admission_identity_def reservation_ok_def)
  then show "bt_get (ors_records (reg_st g)) = (record_of s)(rsv_id r \<mapsto> own_operation w)" "op_ident (own_operation w) = rsv_id r"
    "reg_runtime_id g = reg_runtime_id (rs_registry s)" "ors_sequence (reg_st g) = ors_sequence (reg_st (rs_registry s))"
    by (simp_all add: g w insert_operation_def)
qed

lemma dropped_registry [simp]:
  "ors_records (reg_st (snd (drop_operation_reservation g r))) = ors_records (reg_st g)"
  "ors_sequence (reg_st (snd (drop_operation_reservation g r))) = ors_sequence (reg_st g)"
  "reg_runtime_id (snd (drop_operation_reservation g r)) = reg_runtime_id g"
  by (simp_all add: drop_operation_reservation_def split: option.splits)

lemma forget_keeps:
  assumes "registry_inv z s"
  shows "ors_sequence (reg_st (snd (registry_forget (rs_registry s) j))) = ors_sequence (reg_st (rs_registry s))"
    "reg_runtime_id (snd (registry_forget (rs_registry s) j)) = reg_runtime_id (rs_registry s)"
    "record_change (record_of s i) (bt_get (ors_records (reg_st (snd (registry_forget (rs_registry s) j)))) i)"
  using forget_result [OF registry_invD(1) [OF assms], of j] record_unpoisoned [OF registry_invD(7) [OF assms]] registry_invD(2) [OF assms]
  by (auto simp: bt_get_remove intro: record_change.intros split: option.splits)

text \<open>An identity that is retained changes its record by a legal change, and one that is gone stays gone.\<close>

lemma step_record:
  assumes "registry_step z s t" "registry_inv z s" "record_of s i \<noteq> None \<or> gone s i"
  shows "record_change (record_of s i) (record_of t i) \<and> (record_of t i = None \<longrightarrow> gone t i)"
  using assms
proof (induction rule: registry_step.induct)
  case (rs_admit now s control make_context w r g)
  note k = admitted_key [OF rs_admit(2,1)]
  have "issued (rs_registry s) i" using rs_admit(3) registry_invD(7) [OF rs_admit(2), of i] by (auto simp: gone_def record_ok_def)
  then show ?case using k rs_admit(3) by (auto simp: gone_def issued_def intro: record_change.intros)
next
  case (rs_admit_failed now s control make_context e g)
  then show ?case by (auto dest!: admit_failed intro: record_change.intros)
next
  case (rs_reserve s make_context r g)
  note k = reserve_context_result [OF registry_invD(1) [OF rs_reserve(2)] rs_reserve(1)]
  have "issued (rs_registry s) i" using rs_reserve(3) registry_invD(7) [OF rs_reserve(2), of i] by (auto simp: gone_def record_ok_def)
  then show ?case using k(1,2) rs_reserve(3) by (auto simp: gone_def issued_def intro: record_change.intros)
next
  case (rs_reserve_failed s make_context e g)
  then show ?case unfolding reserve_context_def by (auto dest!: registry_with_Err intro: record_change.intros)
next
  case (rs_admit_reserved s xs r ys now control w r' g)
  have r: "r \<in> set (rs_reservations s)" using rs_admit_reserved(1) by simp
  note k = admitted_reserved_key [OF rs_admit_reserved(3) r rs_admit_reserved(2)]
  have "rsv_id r \<noteq> i" using registry_invD(6) [OF rs_admit_reserved(3) r] rs_admit_reserved(4) r by (auto simp: gone_def reservation_ok_def)
  then show ?case using k rs_admit_reserved(1,4) by (auto simp: gone_def issued_def intro: record_change.intros)
next
  case (rs_admit_reserved_failed r s now control e g)
  then show ?case unfolding admit_reserved_def by (auto dest!: admit_failed intro: record_change.intros)
next
  case (rs_drop_reservation s xs r ys)
  then show ?case by (auto simp: gone_def issued_def intro: record_change.intros)
next
  case (rs_forget s j)
  note k = forget_keeps(1,2) [OF rs_forget(1), of j] forget_keeps(3) [OF rs_forget(1), of i j]
  have "issued (rs_registry s) i" "i \<notin> rsv_id ` set (rs_reservations s)"
    using rs_forget(2) registry_invD(6,7) [OF rs_forget(1)] by (auto simp: gone_def record_ok_def reservation_ok_def)
  then show ?case using k by (auto simp: gone_def issued_def)
next
  case (rs_operation s j op t)
  note k = record_step [OF registry_invD(7) [OF rs_operation(3,1)] rs_operation(2)]
  show ?case using k(3,4) rs_operation(1,4) by (auto simp: gone_def issued_def intro: record_change.intros)
qed

lemma steps_inv:
  assumes "(registry_step z)\<^sup>*\<^sup>* s t" "registry_inv z s"
  shows "registry_inv z t"
  using assms by (induction rule: rtranclp_induct) (auto intro: registry_step_inv)

lemma gone_forever:
  assumes "(registry_step z)\<^sup>*\<^sup>* s t" "registry_inv z s" "gone s i"
  shows "gone t i"
  using assms(1)
proof (induction rule: rtranclp_induct)
  case (step t u)
  have "record_of t i = None" using step.IH by (simp add: gone_def)
  then show ?case
    using step_record [OF step.hyps(2) steps_inv [OF step.hyps(1) assms(2)], of i] step.IH by (auto elim: record_change_NoneE)
qed (fact assms(3))

text \<open>Every fact of a record that legal changes keep holds as long as the record exists.\<close>

lemma retained_or_gone:
  assumes "(registry_step z)\<^sup>*\<^sup>* s t" "registry_inv z s" "record_of s i = Some op" "P op"
    and keep: "\<And>x y. P x \<Longrightarrow> record_change (Some x) (Some y) \<Longrightarrow> P y"
  shows "(\<exists>op'. record_of t i = Some op' \<and> P op') \<or> gone t i"
  using assms(1)
proof (induction rule: rtranclp_induct)
  case base
  then show ?case using assms(3,4) by blast
next
  case (step t u)
  have "record_of t i \<noteq> None \<or> gone t i" using step.IH by auto
  note c = step_record [OF step.hyps(2) steps_inv [OF step.hyps(1) assms(2)] this]
  show ?case
  proof (cases "gone t i")
    case True
    then show ?thesis using c by (auto simp: gone_def elim: record_change_NoneE)
  next
    case False
    then obtain x where "record_of t i = Some x" "P x" using step.IH by blast
    then show ?thesis using c keep [of x] by (cases "record_of u i") auto
  qed
qed

end
