(* ===== verification/Operation_Listing.thy ===== *)
theory Operation_Listing
  imports Operation_Registry_Inv
begin

text \<open>
  Pages of retained operations against their specification: the matching operations in publication
  order, cut into consecutive segments.
\<close>

section \<open>Listings read page by page\<close>

text \<open>
  A page is its items, the cursor that continues after it and whether more follow. The laws fix the
  first page and the page after the cursor of any item; a reader that follows the cursors then sees
  every item once, in order.
\<close>

type_synonym 'i page = "'i list \<times> 'i option \<times> bool"

fun walk :: "('i option \<Rightarrow> 'i page option) \<Rightarrow> nat \<Rightarrow> 'i option \<Rightarrow> 'i list" where
  "walk page 0 cursor = []"
| "walk page (Suc pages) cursor =
     (case page cursor of
        Some (items, after, has_more) \<Rightarrow> items @ (if has_more then walk page pages after else [])
      | None \<Rightarrow> [])"

definition segment :: "nat \<Rightarrow> 'i option \<Rightarrow> 'i list \<Rightarrow> 'i page" where
  "segment limit cursor items =
     (take limit items, if take limit items = [] then cursor else Some (last (take limit items)), limit < length items)"

lemma last_take: "0 < n \<Longrightarrow> n \<le> length xs \<Longrightarrow> last (take n xs) = xs ! (n - 1)"
  by (cases n) (simp_all add: take_Suc_conv_app_nth)

locale paged_listing =
  fixes valid :: "'s \<Rightarrow> nat \<Rightarrow> bool" and items :: "'s \<Rightarrow> 'i list" and page :: "'s \<Rightarrow> nat \<Rightarrow> 'i option \<Rightarrow> 'i page option"
  assumes limit_positive: "valid s limit \<Longrightarrow> 0 < limit"
    and first_page: "valid s limit \<Longrightarrow> page s limit None = Some (segment limit None (items s))"
    and next_page: "valid s limit \<Longrightarrow> k < length (items s) \<Longrightarrow>
      page s limit (Some (items s ! k)) = Some (segment limit (Some (items s ! k)) (drop (Suc k) (items s)))"
begin

lemma walk_from:
  assumes "valid s limit" "page s limit cursor = Some (segment limit cursor (drop n (items s)))"
    and "length (items s) - n \<le> pages" "n \<le> length (items s)" "0 < pages"
  shows "walk (page s limit) pages cursor = drop n (items s)"
  using assms(2-)
proof (induction pages arbitrary: cursor n)
  case (Suc pages)
  note pos = limit_positive [OF assms(1)]
  show ?case
  proof (cases "limit < length (drop n (items s))")
    case False
    then show ?thesis using Suc.prems(1) by (simp add: segment_def)
  next
    case True
    let ?k = "n + limit - 1"
    have last: "last (take limit (drop n (items s))) = items s ! ?k" using True pos by (simp add: last_take)
    have "walk (page s limit) pages (Some (items s ! ?k)) = drop (n + limit) (items s)"
      using next_page [OF assms(1), of ?k] True pos Suc.prems by (intro Suc.IH) auto
    moreover have "take limit (drop n (items s)) @ drop (n + limit) (items s) = drop n (items s)"
      by (metis add.commute append_take_drop_id drop_drop)
    ultimately show ?thesis using Suc.prems(1) True last pos by (auto simp: segment_def)
  qed
qed simp

lemma walk_complete:
  assumes "valid s limit" "length (items s) \<le> pages" "0 < pages"
  shows "walk (page s limit) pages None = items s"
  using walk_from [OF assms(1), of None 0 pages] first_page [OF assms(1)] assms(2,3) by simp

end

section \<open>Specification\<close>

definition in_pool :: "string option \<Rightarrow> operation \<Rightarrow> bool" where
  "in_pool pool_id op =
     (case pool_id of
        None \<Rightarrow> True
      | Some p \<Rightarrow> (case sn_context (guarded (op_snapshot op)) of Module c \<Rightarrow> mc_pool_id c = p | Unbound \<Rightarrow> False))"

definition listed :: "operation_registry \<Rightarrow> string option \<Rightarrow> operation list" where
  "listed g pool_id = sort_key op_publication_sequence (filter (in_pool pool_id) (bt_values (ors_records (guarded (reg_state g)))))"

definition listed_ids :: "operation_registry \<Rightarrow> string option \<Rightarrow> string list" where
  "listed_ids g pool_id = map op_ident (listed g pool_id)"

text \<open>The page of \<open>registry_list\<close> as items, cursor and continuation flag.\<close>

definition page_view :: "operation_registry \<Rightarrow> string option \<Rightarrow> usize \<Rightarrow> string option \<Rightarrow> string page option" where
  "page_view g pool_id limit cursor =
     (case registry_list g pool_id cursor limit of
        Ok p \<Rightarrow> Some (pg_operation_ids p, pg_after_operation_id p, pg_has_more p)
      | _ \<Rightarrow> None)"

section \<open>Segments of a strictly sorted list\<close>

lemma filter_above:
  fixes f :: "'a \<Rightarrow> 'b :: linorder"
  assumes "sorted_wrt (<) (map f xs)" "k < length xs"
  shows "filter (\<lambda>x. f (xs ! k) < f x) xs = drop (Suc k) xs"
proof -
  have "filter (\<lambda>x. f (xs ! k) < f x) (take (Suc k) xs) = []"
  proof -
    have "\<not> f (xs ! k) < f x" if "x \<in> set (take (Suc k) xs)" for x
    proof -
      obtain j where j: "j \<le> k" "x = xs ! j" using \<open>x \<in> _\<close> assms(2) by (auto simp: in_set_conv_nth less_Suc_eq_le)
      have "f (xs ! j) \<le> f (xs ! k)"
        using j assms sorted_wrt_nth_less [OF assms(1), of j k] by (cases "j = k") simp_all
      then show ?thesis using j by simp
    qed
    then show ?thesis by (auto simp: filter_empty_conv)
  qed
  moreover have "filter (\<lambda>x. f (xs ! k) < f x) (drop (Suc k) xs) = drop (Suc k) xs"
  proof -
    have "f (xs ! k) < f x" if "x \<in> set (drop (Suc k) xs)" for x
    proof -
      obtain j where "j < length xs - Suc k" "x = xs ! (Suc k + j)" using \<open>x \<in> _\<close> by (auto simp: in_set_conv_nth)
      then show ?thesis using sorted_wrt_nth_less [OF assms(1), of k "Suc k + j"] by simp
    qed
    then show ?thesis by (auto simp: filter_id_conv)
  qed
  ultimately show ?thesis using filter_append [of "\<lambda>x. f (xs ! k) < f x" "take (Suc k) xs" "drop (Suc k) xs"] by simp
qed

section \<open>Pages\<close>

lemma collect_page_eq:
  assumes "\<And>op. op \<in> set ops \<Longrightarrow> \<not> poisoned (op_snapshot op)"
  shows "collect_page after pool_id ops = Ok (filter (\<lambda>op. after < op_publication_sequence op) (filter (in_pool pool_id) ops))"
  using assms
proof (induction ops)
  case (Cons op ops)
  then show ?case by (auto simp: matches_pool_def in_pool_def split: option.splits)
qed simp

lemma listed_iff:
  assumes inv: "registry_inv z s"
  shows "op \<in> set (listed (rs_registry s) pool_id) \<longleftrightarrow>
    bt_get (ors_records (reg_st (rs_registry s))) (op_ident op) = Some op \<and> in_pool pool_id op"
  using registry_invD(2,7) [OF inv] by (auto simp: listed_def bt_values_iff record_ok_def)

lemma listed_record:
  assumes inv: "registry_inv z s" and "op \<in> set (listed (rs_registry s) pool_id)"
  shows "record_ok z (rs_registry s) (rs_private s) (op_ident op) op"
  using assms(2) registry_invD(7) [OF inv] by (simp add: listed_iff [OF inv])

lemma publication_distinct:
  assumes inv: "registry_inv z s"
  shows "distinct (map op_publication_sequence (bt_values (ors_records (reg_st (rs_registry s)))))"
proof -
  let ?m = "ors_records (reg_st (rs_registry s))"
  have "inj_on (\<lambda>e. op_publication_sequence (snd e)) (set ?m)"
  proof (rule inj_onI)
    fix a b assume "a \<in> set ?m" "b \<in> set ?m" and eq: "op_publication_sequence (snd a) = op_publication_sequence (snd b)"
    then have "bt_get ?m (fst a) = Some (snd a)" "bt_get ?m (fst b) = Some (snd b)"
      using registry_invD(2) [OF inv] by (simp_all add: bt.get_iff)
    then show "a = b" using registry_invD(8) [OF inv _ _ eq] by (metis option.inject prod_eq_iff)
  qed
  then show ?thesis
    using bt.distinct_entries [OF registry_invD(2) [OF inv]] by (simp add: bt_values_def distinct_map comp_def)
qed

lemma listed_strict:
  assumes inv: "registry_inv z s"
  shows "sorted_wrt (<) (map op_publication_sequence (listed (rs_registry s) pool_id))"
proof -
  have "distinct (map op_publication_sequence (listed (rs_registry s) pool_id))"
    using distinct_map_filter [OF publication_distinct [OF inv]] by (simp add: listed_def distinct_map)
  then show ?thesis by (simp add: listed_def strict_sorted_iff)
qed

definition list_ready :: "serializers \<times> registry_system \<times> string option \<Rightarrow> nat \<Rightarrow> bool" where
  "list_ready = (\<lambda>(z, s, pool_id) limit. registry_inv z s \<and> 0 < limit \<and> limit \<le> reg_max_operations (rs_registry s) \<and>
     \<not> bad_optional_name pool_id)"

lemma page_from:
  assumes ready: "list_ready (z, s, pool_id) limit" and start: "page_start (reg_st (rs_registry s)) pool_id cursor = Ok after"
  shows "page_view (rs_registry s) pool_id limit cursor =
    Some (segment limit cursor (map op_ident (filter (\<lambda>op. after < op_publication_sequence op) (listed (rs_registry s) pool_id))))"
proof -
  have inv: "registry_inv z s" using ready by (simp add: list_ready_def)
  have "\<not> poisoned (op_snapshot op)" if "op \<in> set (bt_values (ors_records (reg_st (rs_registry s))))" for op
    using that registry_invD(2) [OF inv] record_unpoisoned [OF registry_invD(7) [OF inv]] by (auto simp: bt_values_iff)
  then show ?thesis
    using ready start registry_invD(1) [OF inv]
    by (simp add: page_view_def registry_list_def list_ready_def Let_def collect_page_eq segment_def listed_def filter_sort take_map)
qed

lemma page_at_start:
  assumes ready: "list_ready (z, s, pool_id) limit"
  shows "page_view (rs_registry s) pool_id limit None = Some (segment limit None (listed_ids (rs_registry s) pool_id))"
proof -
  have "0 < op_publication_sequence op" if "op \<in> set (listed (rs_registry s) pool_id)" for op
    using listed_record [OF _ that] ready by (auto simp: record_ok_def list_ready_def)
  then have "filter (\<lambda>op. 0 < op_publication_sequence op) (listed (rs_registry s) pool_id) = listed (rs_registry s) pool_id"
    by (simp add: filter_id_conv)
  then show ?thesis using page_from [OF ready, of None 0] by (simp add: page_start_def listed_ids_def)
qed

lemma page_at_cursor:
  assumes ready: "list_ready (z, s, pool_id) limit" and k: "k < length (listed_ids (rs_registry s) pool_id)"
  shows "page_view (rs_registry s) pool_id limit (Some (listed_ids (rs_registry s) pool_id ! k)) =
    Some (segment limit (Some (listed_ids (rs_registry s) pool_id ! k)) (drop (Suc k) (listed_ids (rs_registry s) pool_id)))"
proof -
  let ?op = "listed (rs_registry s) pool_id ! k"
  have inv: "registry_inv z s" using ready by (simp add: list_ready_def)
  have k': "k < length (listed (rs_registry s) pool_id)" using k by (simp add: listed_ids_def)
  then have m: "?op \<in> set (listed (rs_registry s) pool_id)" by simp
  then have "page_start (reg_st (rs_registry s)) pool_id (Some (op_ident ?op)) = Ok (op_publication_sequence ?op)"
    using record_unpoisoned [OF listed_record [OF inv m]] unfolding listed_iff [OF inv]
    by (auto simp: page_start_def matches_pool_def in_pool_def split: option.splits)
  then show ?thesis
    using page_from [OF ready, of "Some (op_ident ?op)"] filter_above [OF listed_strict [OF inv] k'] k' by (simp add: listed_ids_def drop_map)
qed

interpretation lst: paged_listing list_ready "\<lambda>(z, s, pool_id). listed_ids (rs_registry s) pool_id"
  "\<lambda>(z, s, pool_id). page_view (rs_registry s) pool_id"
proof unfold_locales
  show "list_ready x limit \<Longrightarrow> 0 < limit" for x limit by (cases x) (simp add: list_ready_def)
qed (auto simp: page_at_start page_at_cursor)

end
