(* ===== verification/Operation_Write_Ahead.thy ===== *)
theory Operation_Write_Ahead
  imports Operation_Registry_Inv
begin

text \<open>
  Write-ahead: with a history, a snapshot becomes visible only after the journal accepted it. The
  answers of the journal to the calls so far are kept as a log, the oldest first; a checkpoint that is
  retained between calls has its submission and its acknowledgement in that log.
\<close>

section \<open>What the journal answered\<close>

text \<open>The worker took the snapshot \<open>x\<close>, to be stored after the revision \<open>p\<close>.\<close>

definition submission_taken :: "journal_responses list \<Rightarrow> string \<Rightarrow> u64 option \<Rightarrow> operation_snapshot \<Rightarrow> bool" where
  "submission_taken log rid p x \<longleftrightarrow> (\<exists>resp \<in> set log. jr_submit resp rid p x = Inr ())"

text \<open>The receipt for the successor of \<open>p\<close> shows that it was stored under the revision \<open>n\<close>.\<close>

definition receipt_shows :: "journal_responses \<Rightarrow> u64 option \<Rightarrow> u64 \<Rightarrow> bool" where
  "receipt_shows resp p n \<longleftrightarrow> (\<exists>w. (jr_wait resp p = Inr w \<or> jr_poll resp p = Inr w) \<and> acknowledged w = Inr n)"

text \<open>The submission of \<open>x\<close> was acknowledged, by the same call or by a later one.\<close>

definition write_confirmed :: "journal_responses list \<Rightarrow> string \<Rightarrow> u64 option \<Rightarrow> operation_snapshot \<Rightarrow> u64 \<Rightarrow> bool" where
  "write_confirmed log rid p x n \<longleftrightarrow>
     (\<exists>before resp after. log = before @ resp # after \<and> submission_taken (before @ [resp]) rid p x \<and> receipt_shows resp p n)"

definition revision_of :: "owned \<Rightarrow> u64 option" where
  "revision_of s = Option.bind (op_history (own_operation s)) (\<lambda>h. guarded (hs_revision h))"

text \<open>
  The journal accepted \<open>x\<close> under the revision \<open>n\<close>: a direct journal in answer to the last call, as the
  successor of \<open>previous\<close>; a worker through a receipt.
\<close>

definition journal_accepted :: "journal_responses list \<Rightarrow> operation_history \<Rightarrow> u64 option \<Rightarrow> operation_snapshot \<Rightarrow> u64 \<Rightarrow> bool" where
  "journal_accepted log h previous x n \<longleftrightarrow>
     (case hs_backend h of
        DirectBackend \<Rightarrow> log \<noteq> [] \<and> jr_direct (last log) (hs_runtime_id h) previous x = Inr n
      | QueuedBackend \<Rightarrow> \<exists>p. write_confirmed log (hs_runtime_id h) p x n)"

text \<open>The snapshot published in \<open>t\<close> was accepted under the revision recorded there.\<close>

definition accepted :: "journal_responses list \<Rightarrow> owned \<Rightarrow> owned \<Rightarrow> bool" where
  "accepted log s t \<longleftrightarrow>
     (\<exists>h n. op_history (own_operation t) = Some h \<and> guarded (hs_revision h) = Some n \<and> journal_accepted log h (revision_of s) (cur t) n)"

section \<open>Retained checkpoints\<close>

definition attempt_logged :: "journal_responses list \<Rightarrow> operation_history \<Rightarrow> pending_checkpoint \<Rightarrow> bool" where
  "attempt_logged log h pc \<longleftrightarrow>
     (\<forall>p. pc_attempt pc = Submitted p \<longrightarrow> submission_taken log (hs_runtime_id h) p (pc_snapshot pc)) \<and>
     (pc_attempt pc = Acknowledged \<longrightarrow> (\<exists>p n. write_confirmed log (hs_runtime_id h) p (pc_snapshot pc) n \<and> guarded (hs_revision h) = Some n))"

definition retained_logged :: "journal_responses list \<Rightarrow> owned \<Rightarrow> bool" where
  "retained_logged log t \<longleftrightarrow>
     (\<forall>h pc. op_history (own_operation t) = Some h \<and> (transition_of t = Some pc \<or> own_checkpoint t = Some pc) \<longrightarrow> attempt_logged log h pc)"

text \<open>Which journal records an operation, and under which runtime.\<close>

abbreviation recorder_of :: "owned \<Rightarrow> (history_backend \<times> string) option" where
  "recorder_of s \<equiv> map_option (\<lambda>h. (hs_backend h, hs_runtime_id h)) (op_history (own_operation s))"

definition write_ahead :: "journal_responses list \<Rightarrow> owned \<Rightarrow> owned \<Rightarrow> bool" where
  "write_ahead log s t \<longleftrightarrow>
     retained_logged log t \<and> recorder_of t = recorder_of s \<and> (op_history (own_operation t) = None \<or> op_snapshot (own_operation t) = op_snapshot (own_operation s) \<or> accepted log s t)"

lemma log_grows:
  "submission_taken log rid p x \<Longrightarrow> submission_taken (log @ more') rid p x"
  "write_confirmed log rid p x n \<Longrightarrow> write_confirmed (log @ more') rid p x n"
  "attempt_logged log h pc \<Longrightarrow> attempt_logged (log @ more') h pc"
  "retained_logged log t \<Longrightarrow> retained_logged (log @ more') t"
proof -
  show a: "submission_taken log rid p x \<Longrightarrow> submission_taken (log @ more') rid p x" for rid p x by (auto simp: submission_taken_def)
  show b: "write_confirmed log rid p x n \<Longrightarrow> write_confirmed (log @ more') rid p x n" for rid p x n by (fastforce simp: write_confirmed_def)
  show c: "attempt_logged log h pc \<Longrightarrow> attempt_logged (log @ more') h pc" for h pc
    using a b unfolding attempt_logged_def by blast
  show "retained_logged log t \<Longrightarrow> retained_logged (log @ more') t" using c by (auto simp: retained_logged_def)
qed

lemma confirmed_now:
  "submission_taken (log @ [resp]) rid p x \<Longrightarrow> receipt_shows resp p n \<Longrightarrow> write_confirmed (log @ [resp]) rid p x n"
  unfolding write_confirmed_def by blast

lemma drive_attempt_logged:
  assumes "drive_attempt resp h pc wait retry = (r, h', pc')" "attempt_logged log h pc"
  shows "attempt_logged (log @ [resp]) h' pc' \<and> hs_runtime_id h' = hs_runtime_id h"
proof (cases "resume_attempt resp h (pc_snapshot pc) retry (pc_attempt pc)")
  case (Submitted previous)
  let ?o = "if wait then jr_wait resp previous else jr_poll resp previous"
  have taken: "submission_taken (log @ [resp]) (hs_runtime_id h) previous (pc_snapshot pc)"
    using Submitted assms(2)
    by (auto simp: resume_attempt_def attempt_logged_def history_submit_def submission_taken_def Let_def
        split: checkpoint_attempt.splits if_splits sum.splits)
  show ?thesis
  proof (cases ?o)
    case (Inl e)
    then show ?thesis using assms(1) Submitted by (auto simp: drive_attempt_def attempt_logged_def Let_def)
  next
    case (Inr w)
    have shown: "receipt_shows resp previous n" if "acknowledged w = Inr n" for n
      using Inr that unfolding receipt_shows_def by (cases wait) auto
    show ?thesis
      using assms(1) Submitted Inr taken confirmed_now [OF taken shown] history_accept_cases [of h previous "projr (acknowledged w)"]
      by (cases "acknowledged w") (auto simp: drive_attempt_def attempt_logged_def Let_def intro!: exI [of _ previous] split: if_splits)
  qed
next
  case Acknowledged
  then have "pc_attempt pc = Acknowledged"
    by (auto simp: resume_attempt_def Let_def split: checkpoint_attempt.splits if_splits sum.splits)
  then show ?thesis using assms(1) Acknowledged log_grows(3) [OF assms(2), of "[resp]"] by (auto simp: drive_attempt_def attempt_logged_def Let_def)
qed (use assms(1) in \<open>auto simp: drive_attempt_def attempt_logged_def Let_def\<close>)

lemma attempt_logged_fields [simp]:
  "attempt_logged log h (pc\<lparr>pc_failure := f\<rparr>) = attempt_logged log h pc" "attempt_logged log h (pc\<lparr>pc_retry := x\<rparr>) = attempt_logged log h pc"
  by (simp_all add: attempt_logged_def)

lemma drive_logged:
  assumes "drive resp h pc wait retry = (r, h', pc')" "attempt_logged log h pc"
  shows "attempt_logged (log @ [resp]) h' pc' \<and> hs_runtime_id h' = hs_runtime_id h"
proof -
  define again where "again = (retry \<or> pc_retry pc = RetryRequested)"
  define pc0 where "pc0 = (if again then pc\<lparr>pc_retry := Retrying\<rparr> else pc)"
  obtain r0 h0 pc1 where d: "drive_attempt resp h pc0 wait again = (r0, h0, pc1)" by (metis prod_cases3)
  have "attempt_logged log h pc0" using assms(2) by (simp add: pc0_def)
  note l = drive_attempt_logged [OF d this]
  show ?thesis
    using assms(1) l d by (cases r0) (auto simp: drive_def Let_def pc0_def [symmetric] again_def [symmetric] split: bool.splits)
qed


section \<open>Driving and publishing\<close>

lemma retained_facts:
  assumes "op_inv ser ctx live s" "transition_of s = Some pc"
  obtains h where "op_history (own_operation s) = Some h" "hs_backend h = QueuedBackend" "own_checkpoint s = None" "own_pending s = None"
proof -
  have q: "queued_history s" "own_pending s = None" using op_invD(6) [OF assms] by auto
  moreover have "own_checkpoint s = None" using op_invD(9) [OF assms(1)] q(2) by (cases "own_checkpoint s") auto
  ultimately show thesis using that by (auto simp: queued_history_def history_is_queued_def split: option.splits)
qed

lemma retained_loggedD:
  "retained_logged log s \<Longrightarrow> op_history (own_operation s) = Some h \<Longrightarrow> transition_of s = Some pc \<Longrightarrow> attempt_logged log h pc"
  "retained_logged log s \<Longrightarrow> op_history (own_operation s) = Some h \<Longrightarrow> own_checkpoint s = Some pc \<Longrightarrow> attempt_logged log h pc"
  by (auto simp: retained_logged_def)

text \<open>A state after a drive: the checkpoint and the history have moved together.\<close>

definition driven :: "journal_responses list \<Rightarrow> owned \<Rightarrow> pending_checkpoint \<Rightarrow> bool \<Rightarrow> owned \<Rightarrow> bool" where
  "driven log s pc b t \<longleftrightarrow>
     (\<exists>h pc'. op_history (own_operation t) = Some h \<and> hs_backend h = QueuedBackend \<and> transition_of t = Some pc' \<and> attempt_logged log h pc' \<and>
        pc_effect pc' = pc_effect pc \<and> pc_snapshot pc' = pc_snapshot pc \<and> (b \<longrightarrow> pc_attempt pc' = Acknowledged)) \<and>
     own_checkpoint t = None \<and> op_snapshot (own_operation t) = op_snapshot (own_operation s) \<and> recorder_of t = recorder_of s"

lemma driven_write_ahead: "driven log s pc b t \<Longrightarrow> write_ahead log s t"
  by (auto simp: driven_def write_ahead_def retained_logged_def)

lemma driven_dropped: "driven log s pc b t \<Longrightarrow> write_ahead log s (set_transition None t)"
  by (auto simp: driven_def write_ahead_def retained_logged_def)

lemma driven_published:
  assumes "driven log s pc True t"
  shows "write_ahead log s (set_transition None (set_snapshot (pc_snapshot pc) t))"
proof -
  have rec: "recorder_of t = recorder_of s" using assms by (simp add: driven_def)
  obtain h pc' where t: "op_history (own_operation t) = Some h" "hs_backend h = QueuedBackend" "attempt_logged log h pc'"
    "pc_snapshot pc' = pc_snapshot pc" "pc_attempt pc' = Acknowledged" "own_checkpoint t = None"
    using assms by (auto simp: driven_def)
  then show ?thesis using rec by (auto simp: write_ahead_def retained_logged_def accepted_def attempt_logged_def journal_accepted_def)
qed

lemma wp_drive_logged:
  assumes h: "op_history (own_operation s) = Some h" "hs_backend h = QueuedBackend" and pc: "transition_of s = Some pc" "attempt_logged log h pc"
    and c: "own_checkpoint s = None"
    and post: "\<And>b t. driven (log @ [resp]) s pc b t \<Longrightarrow> Q b t" and fails: "\<And>t. driven (log @ [resp]) s pc False t \<Longrightarrow> R t"
  shows "wp (drive_transition resp wait retry) Q R s"
proof -
  obtain r h' pc' where d: "drive resp h pc wait retry = (r, h', pc')" by (metis prod_cases3)
  note k = drive_keeps [OF d] and l = drive_logged [OF d pc(2)]
  let ?t = "set_transition (Some pc') (with_history h' s)"
  have dr: "driven (log @ [resp]) s pc b ?t" if "b \<longrightarrow> pc_attempt pc' = Acknowledged" for b
    using k l h c that by (auto simp: driven_def)
  have run: "drive_transition resp wait retry s = (r, ?t)" using h pc d by (simp add: drive_transition_def)
  show ?thesis
  proof (cases r)
    case (Ok b)
    then show ?thesis using run k post [OF dr, of b] by (cases b) (simp_all add: wp_def)
  qed (use run k fails [OF dr] in \<open>simp_all add: wp_def\<close>)
qed

lemma wp_publish_logged:
  assumes "driven log s pc True t" "\<not> poisoned (op_snapshot (own_operation s))"
  shows "wp publish_acknowledged (\<lambda>_. write_ahead log s) (write_ahead log s) t"
proof -
  obtain pc' where t: "transition_of t = Some pc'" "pc_effect pc' = pc_effect pc" "pc_snapshot pc' = pc_snapshot pc"
    "\<not> poisoned (op_snapshot (own_operation t))"
    using assms by (auto simp: driven_def)
  then show ?thesis
    using driven_published [OF assms(1)] driven_dropped [OF assms(1)] driven_write_ahead [OF assms(1)]
    by (auto simp: publish_acknowledged_def wp_simps wp_publish_snapshot split: option.splits checkpoint_effect.splits)
qed

lemma wp_advance_candidate_frame:
  assumes "\<And>x. Q x s" "R s"
  shows "wp (advance_candidate phase) Q R s"
  using assms by (auto simp: advance_candidate_def wp_simps read_snapshot_def op_lock_def split: outcome.splits)

lemma attempt_new [simp]: "attempt_logged log h (checkpoint_new x)" "attempt_logged log h (effect_checkpoint e x)"
  by (simp_all add: attempt_logged_def checkpoint_new_def effect_checkpoint_def)

lemma write_ahead_refl: "retained_logged log s \<Longrightarrow> write_ahead (log @ l) s s"
  by (simp add: write_ahead_def log_grows)

lemma wp_drive_advance_logged:
  assumes inv: "op_inv ser ctx live s" and l: "retained_logged log s" and q: "queued_history s" and p: "own_pending s = None"
  shows "wp (drive_advance resp phase wait retry) (\<lambda>_. write_ahead (log @ [resp]) s) (write_ahead (log @ [resp]) s) s"
proof -
  obtain h where h: "op_history (own_operation s) = Some h" "hs_backend h = QueuedBackend"
    using q by (auto simp: queued_history_def history_is_queued_def split: option.splits)
  have c: "own_checkpoint s = None" using op_invD(9) [OF inv] p by (cases "own_checkpoint s") auto
  have drive: "wp (drive_transition resp wait retry)
      (\<lambda>b. wp (if b then publish_acknowledged else ret False) (\<lambda>_. write_ahead (log @ [resp]) s) (write_ahead (log @ [resp]) s))
      (write_ahead (log @ [resp]) s) t"
    if t: "op_history (own_operation t) = Some h" "transition_of t = Some pc" "attempt_logged log h pc" "own_checkpoint t = None"
      "op_snapshot (own_operation t) = op_snapshot (own_operation s)" for t pc
  proof (rule wp_drive_logged [OF t(1) h(2) t(2,3,4)])
    fix b u
    assume "driven (log @ [resp]) t pc b u"
    then have u: "driven (log @ [resp]) s pc b u" using t(1,5) h(1) by (simp add: driven_def)
    show "wp (if b then publish_acknowledged else ret False) (\<lambda>_. write_ahead (log @ [resp]) s) (write_ahead (log @ [resp]) s) u"
      using wp_publish_logged [of "log @ [resp]" s pc u] u driven_write_ahead [OF u] op_invD(1) [OF inv] by (cases b) (simp_all add: wp_simps)
  next
    fix u
    assume "driven (log @ [resp]) t pc False u"
    then show "write_ahead (log @ [resp]) s u" using driven_write_ahead [of "log @ [resp]" s pc False u] t(1,5) h(1) by (simp add: driven_def)
  qed
  show ?thesis
  proof (cases "transition_of s")
    case None
    then show ?thesis
      using drive h c write_ahead_refl [OF l, of "[resp]"] unfolding drive_advance_def retain_candidate_def
      by (intro wp_bindI) (auto simp: wp_simps simp del: wp_bind intro!: wp_bindI wp_advance_candidate_frame)
  next
    case (Some pc)
    then show ?thesis
      using drive [OF h(1) Some retained_loggedD(1) [OF l h(1) Some] c] write_ahead_refl [OF l, of "[resp]"]
      by (simp add: drive_advance_def retain_candidate_def wp_simps)
  qed
qed

section \<open>A direct history\<close>

definition stored_direct :: "journal_responses list \<Rightarrow> owned \<Rightarrow> operation_snapshot \<Rightarrow> owned \<Rightarrow> bool" where
  "stored_direct log s x t \<longleftrightarrow>
     (\<exists>h n. op_history (own_operation t) = Some h \<and> hs_backend h = DirectBackend \<and> guarded (hs_revision h) = Some n \<and>
        log \<noteq> [] \<and> jr_direct (last log) (hs_runtime_id h) (revision_of s) x = Inr n) \<and>
     transition_of t = None \<and> own_checkpoint t = None \<and> op_snapshot (own_operation t) = op_snapshot (own_operation s) \<and> recorder_of t = recorder_of s"

lemma stored_direct_published:
  assumes "stored_direct log s x t"
  shows "write_ahead log s t" "write_ahead log s (set_snapshot x t)" "write_ahead log s ((set_snapshot x t)\<lparr>own_pending := None\<rparr>)"
proof -
  have k: "transition_of ((set_snapshot x t)\<lparr>own_pending := None\<rparr>) = transition_of t" by (simp add: transition_of_def set_snapshot_def)
  show "write_ahead log s t" "write_ahead log s (set_snapshot x t)" "write_ahead log s ((set_snapshot x t)\<lparr>own_pending := None\<rparr>)"
    using assms k by (auto simp: stored_direct_def write_ahead_def retained_logged_def accepted_def journal_accepted_def)
qed

lemma direct_history:
  assumes "op_inv ser ctx live s" "op_history (own_operation s) = Some h" "\<not> history_is_queued h"
  shows "hs_backend h = DirectBackend" "transition_of s = None" "own_checkpoint s = None"
proof -
  have q: "\<not> queued_history s" using assms(2,3) by (simp add: queued_history_def)
  show "hs_backend h = DirectBackend" using assms(3) by (cases "hs_backend h") (simp_all add: history_is_queued_def)
  show "transition_of s = None" by (rule transition_queued [OF assms(1) q])
  show "own_checkpoint s = None" using op_invD(9) [OF assms(1)] q by (cases "own_checkpoint s") auto
qed

lemma wp_direct_checkpoint:
  assumes h: "op_history (own_operation s) = Some h" "hs_backend h = DirectBackend" and none: "transition_of s = None" "own_checkpoint s = None"
    and same: "op_history (own_operation s0) = Some h" "op_snapshot (own_operation s0) = op_snapshot (own_operation s)"
    and post: "\<And>t. stored_direct (log @ [resp]) s0 x t \<Longrightarrow> Q () t" and fails: "write_ahead (log @ [resp]) s0 s \<Longrightarrow> R s"
  shows "wp (operation_checkpoint resp x) Q R s"
proof -
  have stay: "write_ahead (log @ [resp]) s0 s" using h none same by (simp add: write_ahead_def retained_logged_def)
  have "with_history h s = s" using h(1) by simp
  then have kept: "R (with_history h s)" using fails [OF stay] by (simp only:)
  have "stored_direct (log @ [resp]) s0 x (with_history (h\<lparr>hs_revision := mutex_new (Some n)\<rparr>) s)"
    if "jr_direct resp (hs_runtime_id h) (guarded (hs_revision h)) x = Inr n" for n
    using that h none same by (auto simp: stored_direct_def revision_of_def)
  then show ?thesis
    using h post kept
    by (auto simp: wp_def operation_checkpoint_def history_checkpoint_def backend_checkpoint_def split: sum.splits)
qed

section \<open>Calls that write nothing\<close>

definition maintains :: "('s \<Rightarrow> bool) \<Rightarrow> ('s, 'a) action \<Rightarrow> bool" where
  "maintains P m \<longleftrightarrow> (\<forall>s. P s \<longrightarrow> P (snd (m s)))"

named_theorems maintains_intros \<open>actions that keep a property of the state\<close>

lemma maintains_bind [maintains_intros]: "maintains P m \<Longrightarrow> (\<And>x. maintains P (f x)) \<Longrightarrow> maintains P (bind_action m f)"
  by (auto simp: maintains_def bind_action_def split: prod.splits outcome.splits)

lemma maintains_reads [maintains_intros]:
  "maintains P (ret x)" "maintains P (fail e)" "maintains P (from_result r)" "maintains P (try_read g)" "maintains P (read_state f)"
  "maintains P (require b e)" "maintains P (require_state c e)" "(\<And>s. P s \<Longrightarrow> P (u s)) \<Longrightarrow> maintains P (write_state u)"
  by (auto simp: maintains_def ret_def fail_def from_result_def try_read_def read_state_def require_def require_state_def write_state_def)

lemma maintains_branches [maintains_intros]:
  "maintains P m \<Longrightarrow> maintains P n \<Longrightarrow> maintains P (if b then m else n)"
  "maintains P m \<Longrightarrow> (\<And>y. maintains P (n' y)) \<Longrightarrow> maintains P (case t of None \<Rightarrow> m | Some y \<Rightarrow> n' y)"
  "(\<And>u v. maintains P (g u v)) \<Longrightarrow> maintains P (case pr of (u, v) \<Rightarrow> g u v)"
  by (auto split: option.splits prod.splits)

lemma write_ahead_frame:
  assumes "op_history (own_operation u) = op_history (own_operation t)" "op_snapshot (own_operation u) = op_snapshot (own_operation t)"
    "op_transition (own_operation u) = op_transition (own_operation t)" "own_checkpoint u = own_checkpoint t"
  shows "write_ahead log s u = write_ahead log s t"
  by (simp add: write_ahead_def retained_logged_def accepted_def transition_of_def assms)

lemma write_ahead_updates [simp]:
  "write_ahead log s (poison_transition t) = write_ahead log s t" "write_ahead log s (t\<lparr>own_finalization := f\<rparr>) = write_ahead log s t"
  "write_ahead log s (t\<lparr>own_pending := g\<rparr>) = write_ahead log s t" "write_ahead log s (with_effects l t) = write_ahead log s t"
proof -
  have "transition_of (poison_transition t) = transition_of t" "op_history (own_operation (poison_transition t)) = op_history (own_operation t)"
    "op_snapshot (own_operation (poison_transition t)) = op_snapshot (own_operation t)" "own_checkpoint (poison_transition t) = own_checkpoint t"
    by (simp_all add: transition_of_def poison_transition_def)
  then show "write_ahead log s (poison_transition t) = write_ahead log s t"
    unfolding write_ahead_def retained_logged_def accepted_def by simp
qed (rule write_ahead_frame; simp)+

lemma maintains_hold [maintains_intros]: "maintains (write_ahead log s) m \<Longrightarrow> maintains (write_ahead log s) (hold_transition e m)"
  by (auto simp: maintains_def hold_transition_def split: prod.splits outcome.splits)

lemma maintains_steps [maintains_intros]:
  "maintains (write_ahead log s) read_snapshot" "maintains (write_ahead log s) (on_effects l)"
  "maintains (write_ahead log s) (try_transition_error b m)"
  "maintains (write_ahead log s) (write_state (\<lambda>t. t\<lparr>own_finalization := f t\<rparr>))" "maintains (write_ahead log s) (write_state (\<lambda>t. t\<lparr>own_pending := g t\<rparr>))"
  "maintains (write_ahead log s) (write_state (set_transition (Some (checkpoint_new x))))"
  "maintains (write_ahead log s) (retain_finalization_checkpoint x)"
proof -
  show "maintains (write_ahead log s) read_snapshot" "maintains (write_ahead log s) (try_transition_error b m)"
    by (auto simp: read_snapshot_def try_transition_error_def intro!: maintains_intros)
  show "maintains (write_ahead log s) (on_effects l)"
    by (auto simp: maintains_def on_effects_def lift_action_def split: prod.splits)
  show "maintains (write_ahead log s) (write_state (\<lambda>t. t\<lparr>own_finalization := f t\<rparr>))" "maintains (write_ahead log s) (write_state (\<lambda>t. t\<lparr>own_pending := g t\<rparr>))"
    by (auto simp: maintains_def write_state_def)
  have new: "write_ahead log s (set_transition (Some (checkpoint_new x)) t)" if "write_ahead log s t" for x t
    using that by (auto simp: write_ahead_def retained_logged_def accepted_def)
  then show "maintains (write_ahead log s) (write_state (set_transition (Some (checkpoint_new x))))"
    by (auto simp: maintains_def write_state_def)
  have "write_ahead log s (set_snapshot x t)" if "op_history (own_operation t) = None" "write_ahead log s t" for t
    using that by (simp add: write_ahead_def retained_logged_def)
  then show "maintains (write_ahead log s) (retain_finalization_checkpoint x)"
    using new by (auto simp: maintains_def retain_finalization_checkpoint_def publish_snapshot_def read_snapshot_def bind_action_def
        read_state_def try_read_def write_state_def op_lock_def)
qed

section \<open>Calls that write\<close>

lemma write_ahead_idle:
  "retained_logged log t \<Longrightarrow> op_snapshot (own_operation t) = op_snapshot (own_operation s) \<Longrightarrow> recorder_of t = recorder_of s \<Longrightarrow> write_ahead log s t"
  by (simp add: write_ahead_def)

lemma wp_advances_logged:
  assumes inv: "op_inv ser ctx live s" and l: "retained_logged log s"
  shows "wp (owner_advance resp phase) (\<lambda>_. write_ahead (log @ [resp]) s) (write_ahead (log @ [resp]) s) s"
    "wp (owner_poll_advance resp contended phase) (\<lambda>_. write_ahead (log @ [resp]) s) (write_ahead (log @ [resp]) s) s"
    "wp (owner_retry_advance resp contended) (\<lambda>_. write_ahead (log @ [resp]) s) (write_ahead (log @ [resp]) s) s"
    "wp (poll_finalization resp contended) (\<lambda>_. write_ahead (log @ [resp]) s) (write_ahead (log @ [resp]) s) s"
proof -
  let ?W = "write_ahead (log @ [resp]) s"
  have stay: "?W s" by (rule write_ahead_refl [OF l])
  have none: "?W (set_snapshot x s)" if "op_history (own_operation s) = None" for x
    using that by (simp add: write_ahead_def retained_logged_def)
  note drive = wp_drive_advance_logged [OF inv l]
  note healthy = op_invD(1) [OF inv]
  have direct: "wp (bind_action (advance_candidate phase) (\<lambda>x. bind_action (operation_checkpoint resp x) (\<lambda>_. publish_snapshot x))) (\<lambda>_. ?W) ?W s"
    if h: "op_history (own_operation s) = Some h" "\<not> history_is_queued h" for h
  proof (intro wp_bindI wp_advance_candidate_frame stay)
    fix x
    note d = direct_history [OF inv h]
    show "wp (operation_checkpoint resp x) (\<lambda>_. wp (publish_snapshot x) (\<lambda>_. ?W) ?W) ?W s"
    proof (rule wp_direct_checkpoint [OF h(1) d h(1) refl])
      fix t
      assume t: "stored_direct (log @ [resp]) s x t"
      then have "\<not> poisoned (op_snapshot (own_operation t))" using healthy by (simp add: stored_direct_def)
      then show "wp (publish_snapshot x) (\<lambda>_. ?W) ?W t" using stored_direct_published(2) [OF t] by (simp add: wp_publish_snapshot)
    qed
  qed
  show "wp (owner_advance resp phase) (\<lambda>_. ?W) ?W s"
    using stay none drive direct healthy
    by (auto simp: owner_advance_def no_pending_completion_def wp_simps wp_read_snapshot queued_history_def
        simp del: wp_bind intro!: wp_bindI split: outcome.splits option.splits)
  show "wp (owner_poll_advance resp contended phase) (\<lambda>_. ?W) ?W s"
    using stay none drive healthy
    by (auto simp: owner_poll_advance_def no_pending_completion_def wp_simps wp_read_snapshot split: outcome.splits)
  have retained: "wp (drive_advance resp x False b) (\<lambda>_. ?W) ?W s" if "transition_of s = Some pc" for x b pc
    using drive op_invD(6) [OF inv that] by simp
  then show "wp (owner_retry_advance resp contended) (\<lambda>_. ?W) ?W s"
    using stay by (cases "transition_of s") (auto simp: owner_retry_advance_def wp_simps)
  show "wp (poll_finalization resp contended) (\<lambda>_. ?W) ?W s"
    using stay retained healthy by (cases "transition_of s") (auto simp: poll_finalization_def wp_simps wp_read_snapshot)
qed

lemma wp_publish_completion_logged:
  assumes inv: "op_inv ser ctx live t" and l: "retained_logged log t" and same: "op_snapshot (own_operation t) = op_snapshot (own_operation s)" "recorder_of t = recorder_of s"
  shows "wp publish_completion (\<lambda>_. write_ahead log s) (write_ahead log s) t"
proof -
  let ?u = "\<lambda>p. (set_snapshot p (t\<lparr>own_checkpoint := None\<rparr>))\<lparr>own_pending := None\<rparr>"
  have "write_ahead log s (?u p)" if p: "own_pending t = Some p" and a: "op_history (own_operation t) = None \<or> completion_acknowledged t" for p
  proof -
    have k: "transition_of (?u p) = None" using op_invD(6) [OF inv] p by (cases "transition_of t") (auto simp: transition_of_def set_snapshot_def)
    show ?thesis
    proof (cases "op_history (own_operation t)")
      case (Some h)
      then obtain pc where pc: "own_checkpoint t = Some pc" "pc_attempt pc = Acknowledged"
        using a by (auto simp: completion_acknowledged_def split: option.splits)
      have "hs_backend h = QueuedBackend" "pc_snapshot pc = p"
        using op_invD(9) [OF inv pc(1)] p Some by (auto simp: queued_history_def history_is_queued_def)
      then show ?thesis
        using retained_loggedD(2) [OF l Some pc(1)] pc(2) Some k same(2)
        by (auto simp: write_ahead_def retained_logged_def accepted_def attempt_logged_def journal_accepted_def)
    qed (use same(2) in \<open>simp add: write_ahead_def retained_logged_def\<close>)
  qed
  then show ?thesis
    using write_ahead_idle [OF l same] op_invD(1) [OF inv] by (auto simp: publish_completion_def wp_simps wp_read_snapshot)
qed

lemma wp_completion_checkpoint_logged:
  assumes inv: "op_inv ser ctx live s" and l: "retained_logged log s"
  shows "wp (drive_completion_checkpoint resp wait retry)
    (\<lambda>_ t. retained_logged (log @ [resp]) t \<and> op_snapshot (own_operation t) = op_snapshot (own_operation s) \<and> recorder_of t = recorder_of s)
    (\<lambda>t. retained_logged (log @ [resp]) t \<and> op_snapshot (own_operation t) = op_snapshot (own_operation s) \<and> recorder_of t = recorder_of s) s"
proof -
  let ?P = "\<lambda>t. retained_logged (log @ [resp]) t \<and> op_snapshot (own_operation t) = op_snapshot (own_operation s) \<and> recorder_of t = recorder_of s"
  have stay: "?P s" using log_grows(4) [OF l] by simp
  have step: "wp (\<lambda>s. case op_history (own_operation s) of
         None \<Rightarrow> (Ok True, s)
       | Some h \<Rightarrow>
           if \<not> history_is_queued h then (Err (error_invalid ''nonblocking checkpoints require a journal worker''), s)
           else
             let pc = (case own_checkpoint s of None \<Rightarrow> checkpoint_new p | Some pc \<Rightarrow> pc)
             in case drive resp h pc wait retry of (r, h', pc') \<Rightarrow>
                  (r, s\<lparr>own_checkpoint := Some pc', own_operation := (own_operation s)\<lparr>op_history := Some h'\<rparr>\<rparr>)) (\<lambda>_. ?P) ?P s"
    if p: "own_pending s = Some p" for p
  proof (cases "op_history (own_operation s)")
    case (Some h)
    define pc where "pc = (case own_checkpoint s of None \<Rightarrow> checkpoint_new p | Some pc \<Rightarrow> pc)"
    obtain r h' pc' where d: "drive resp h pc wait retry = (r, h', pc')" by (metis prod_cases3)
    let ?t = "s\<lparr>own_checkpoint := Some pc', own_operation := (own_operation s)\<lparr>op_history := Some h'\<rparr>\<rparr>"
    have "attempt_logged log h pc" using retained_loggedD(2) [OF l Some] by (auto simp: pc_def split: option.splits)
    moreover have "transition_of ?t = None" using op_invD(6) [OF inv] p by (cases "transition_of s") (auto simp: transition_of_def)
    ultimately have "?P ?t" using drive_logged [OF d] drive_keeps [OF d] Some by (auto simp: retained_logged_def)
    then show ?thesis using stay Some d drive_keeps [OF d] by (cases r) (auto simp: wp_def pc_def [symmetric])
  qed (use stay in \<open>simp add: wp_def\<close>)
  show ?thesis
    unfolding drive_completion_checkpoint_def by (intro wp_bindI wp_completion_ready [OF inv] step stay) auto
qed

lemma wp_drive_completion_logged:
  assumes inv: "op_inv ser ctx live s" and l: "retained_logged log s"
  shows "wp (drive_completion resp wait retry) (\<lambda>_. write_ahead (log @ [resp]) s) (write_ahead (log @ [resp]) s) s"
proof -
  have "wp (drive_completion_checkpoint resp wait retry) (\<lambda>_ t. op_inv ser ctx live t) (op_inv ser ctx live) s"
    by (rule wp_drive_completion_checkpoint [OF inv]) simp
  from wp_conj [OF this wp_completion_checkpoint_logged [OF inv l]] show ?thesis
    unfolding drive_completion_def
    by (intro wp_bindI, elim wp_mono) (auto simp: wp_simps intro: wp_publish_completion_logged write_ahead_idle)
qed

lemma wp_retry_completion_logged:
  assumes inv: "op_inv ser ctx live s" and l: "retained_logged log s"
  shows "wp (retry_completion resp) (\<lambda>_. write_ahead (log @ [resp]) s) (write_ahead (log @ [resp]) s) s"
proof -
  let ?W = "write_ahead (log @ [resp]) s"
  have stay: "?W s" by (rule write_ahead_refl [OF l])
  have healthy: "\<not> poisoned (op_snapshot (own_operation s))" by (rule op_invD(1) [OF inv])
  have finish: "wp (operation_checkpoint resp x) (\<lambda>_. wp read_snapshot (\<lambda>_ t. ?W ((set_snapshot x t)\<lparr>own_pending := None\<rparr>)) ?W) ?W
      (s\<lparr>own_pending := Some x\<rparr>)" if q: "\<not> queued_history s" for x
  proof (cases "op_history (own_operation s)")
    case None
    then show ?thesis using healthy by (simp add: wp_def operation_checkpoint_def read_snapshot_def try_read_def write_ahead_def retained_logged_def)
  next
    case (Some h)
    then have d: "\<not> history_is_queued h" using q by (simp add: queued_history_def)
    note direct = direct_history [OF inv Some d]
    have t: "transition_of (s\<lparr>own_pending := Some x\<rparr>) = None" using direct(2) by (simp add: transition_of_def)
    show ?thesis
    proof (rule wp_direct_checkpoint [of "s\<lparr>own_pending := Some x\<rparr>" h s])
      fix u
      assume u: "stored_direct (log @ [resp]) s x u"
      then have "\<not> poisoned (op_snapshot (own_operation u))" using healthy by (simp add: stored_direct_def)
      then show "wp read_snapshot (\<lambda>_ t. ?W ((set_snapshot x t)\<lparr>own_pending := None\<rparr>)) ?W u"
        using stored_direct_published(3) [OF u] by (simp add: wp_read_snapshot)
    qed (use Some direct t in simp_all)
  qed
  have "wp (complete_blocking resp p) (\<lambda>_. ?W) ?W s" if "\<not> queued_history s" for p
    using finish [OF that] by (simp add: complete_blocking_def wp_simps)
  then show ?thesis
    using stay wp_drive_completion_logged [OF inv l]
    by (auto simp: retry_completion_def wp_simps intro!: wp_completion_ready [OF inv])
qed

lemma wp_completions_logged:
  assumes inv: "op_inv ser ctx live s" and l: "retained_logged log s"
  shows "wp (poll_completion resp) (\<lambda>_. write_ahead (log @ [resp]) s) (write_ahead (log @ [resp]) s) s"
    "wp (retry_completion_nonblocking resp) (\<lambda>_. write_ahead (log @ [resp]) s) (write_ahead (log @ [resp]) s) s"
    "wp (drive_completion_checkpoint resp wait retry) (\<lambda>_. write_ahead (log @ [resp]) s) (write_ahead (log @ [resp]) s) s"
proof -
  show "wp (poll_completion resp) (\<lambda>_. write_ahead (log @ [resp]) s) (write_ahead (log @ [resp]) s) s"
    "wp (retry_completion_nonblocking resp) (\<lambda>_. write_ahead (log @ [resp]) s) (write_ahead (log @ [resp]) s) s"
    using wp_retry_completion_logged [OF inv l] wp_drive_completion_logged [OF inv l]
    by (auto simp: poll_completion_def retry_completion_nonblocking_def wp_simps)
  show "wp (drive_completion_checkpoint resp wait retry) (\<lambda>_. write_ahead (log @ [resp]) s) (write_ahead (log @ [resp]) s) s"
    by (rule wp_mono [OF wp_completion_checkpoint_logged [OF inv l]]) (auto intro: write_ahead_idle)
qed

lemma wp_settle_logged:
  assumes inv: "op_inv ser ctx live s" and l: "retained_logged log s"
  shows "wp (settle_start resp effect_id wait) (\<lambda>_ t. retained_logged (log @ [resp]) t \<and> op_snapshot (own_operation t) = op_snapshot (own_operation s) \<and> recorder_of t = recorder_of s)
      (write_ahead (log @ [resp]) s) s"
    "wp (settle_outcome resp effect_id) (\<lambda>_ t. retained_logged (log @ [resp]) t \<and> op_snapshot (own_operation t) = op_snapshot (own_operation s) \<and> recorder_of t = recorder_of s)
      (write_ahead (log @ [resp]) s) s"
proof -
  let ?P = "\<lambda>t. retained_logged (log @ [resp]) t \<and> op_snapshot (own_operation t) = op_snapshot (own_operation s) \<and> recorder_of t = recorder_of s"
  have stay: "?P s" "write_ahead (log @ [resp]) s s" using log_grows(4) [OF l] write_ahead_refl [OF l] by simp_all
  have driven: "?P t \<and> ?P (set_transition None t)" if "driven (log @ [resp]) s pc b t" for pc b t
    using that by (auto simp: driven_def retained_logged_def)
  have drive: "wp (drive_transition resp w False) (\<lambda>b t. ?P t \<and> ?P (set_transition None t)) ?P s" if pc: "transition_of s = Some pc" for pc w
  proof -
    obtain h where h: "op_history (own_operation s) = Some h" "hs_backend h = QueuedBackend" "own_checkpoint s = None" by (rule retained_facts [OF inv pc])
    show ?thesis
      by (rule wp_drive_logged [OF h(1,2) pc retained_loggedD(1) [OF l h(1) pc] h(3)]) (use driven in blast)+
  qed
  show "wp (settle_start resp effect_id wait) (\<lambda>_. ?P) (write_ahead (log @ [resp]) s) s"
  proof (cases "transition_of s")
    case (Some pc)
    from drive [OF Some, of wait] have "wp (drive_transition resp wait False) (\<lambda>b t. ?P t \<and> ?P (set_transition None t)) (write_ahead (log @ [resp]) s) s"
      by (rule wp_mono) (auto intro: write_ahead_idle)
    then show ?thesis using Some stay by (auto simp: settle_start_def wp_simps elim!: wp_mono)
  qed (use stay in \<open>simp add: settle_start_def wp_simps\<close>)
  show "wp (settle_outcome resp effect_id) (\<lambda>_. ?P) (write_ahead (log @ [resp]) s) s"
    using drive [of _ False] stay by (cases "transition_of s") (auto simp: settle_outcome_def wp_simps elim!: wp_mono)
qed

lemma wp_retain_logged:
  assumes inv: "op_inv ser ctx live t" and q: "queued_history t"
    and l: "retained_logged (log @ [resp]) t" and same: "op_snapshot (own_operation t) = op_snapshot (own_operation s)" "recorder_of t = recorder_of s"
  shows "wp (retain_start resp effect_id wait) (\<lambda>_. write_ahead (log @ [resp]) s) (write_ahead (log @ [resp]) s) t"
    "wp (retain_effect_outcome resp effect_id) (\<lambda>_. write_ahead (log @ [resp]) s) (write_ahead (log @ [resp]) s) t"
proof -
  let ?W = "write_ahead (log @ [resp]) s"
  have stay: "?W t" by (rule write_ahead_idle [OF l same])
  obtain h where h: "op_history (own_operation t) = Some h" "hs_backend h = QueuedBackend"
    using q by (auto simp: queued_history_def history_is_queued_def split: option.splits)
  have drive: "wp (drive_transition resp w False) (\<lambda>b u. ?W u \<and> ?W (set_transition None u)) ?W (set_transition (Some (effect_checkpoint e x)) t)"
    if "find P (bt_values (led_records (led t))) = Some r" "he_phase r \<noteq> Completed" for w e x P r
  proof -
    have c: "own_checkpoint t = None" using op_invD(9) [OF inv] unfinished_no_pending [OF inv that] by (cases "own_checkpoint t") auto
    have d: "?W u \<and> ?W (set_transition None u)" if "driven (log @ [resp]) (set_transition (Some (effect_checkpoint e x)) t) pc b u" for pc b u
    proof -
      have "driven (log @ [resp]) s pc b u" using that same by (simp add: driven_def)
      then show ?thesis using driven_write_ahead driven_dropped by blast
    qed
    show ?thesis by (rule wp_drive_logged [of _ h "effect_checkpoint e x" log]) (use h c d in auto)
  qed
  show "wp (retain_start resp effect_id wait) (\<lambda>_. ?W) ?W t"
    using stay by (auto simp: retain_start_def wp_simps Let_def intro!: wp_evidence_snapshot [OF inv] wp_mono [OF drive] split: outcome.splits)
  show "wp (retain_effect_outcome resp effect_id) (\<lambda>_. ?W) ?W t"
    using stay by (auto simp: retain_effect_outcome_def wp_simps Let_def intro!: wp_evidence_snapshot [OF inv] wp_mono [OF drive] split: outcome.splits)
qed

lemma wp_effects_logged:
  assumes inv: "op_inv ser ctx live s" and l: "retained_logged log s"
  shows "wp (checkpoint_effect_start resp contended effect_id wait) (\<lambda>_. write_ahead (log @ [resp]) s) (write_ahead (log @ [resp]) s) s"
    "wp (poll_effect_outcome resp contended effect_id) (\<lambda>_. write_ahead (log @ [resp]) s) (write_ahead (log @ [resp]) s) s"
proof -
  let ?W = "write_ahead (log @ [resp]) s"
  have stay: "?W s" by (rule write_ahead_refl [OF l])
  have step: "wp (case early of None \<Rightarrow> m | Some result \<Rightarrow> ret result) (\<lambda>_. ?W) ?W t"
    if "retained_logged (log @ [resp]) t" "op_snapshot (own_operation t) = op_snapshot (own_operation s)" "recorder_of t = recorder_of s" "wp m (\<lambda>_. ?W) ?W t"
    for early t and m :: "(owned, bool) action"
    using that write_ahead_idle [of "log @ [resp]" t s] by (simp add: wp_simps split: option.split)
  have "wp (bind_action (settle_start resp effect_id wait) (\<lambda>early.
           case early of None \<Rightarrow> retain_start resp effect_id wait | Some result \<Rightarrow> ret result)) (\<lambda>_. ?W) ?W s" if "queued_history s"
    by (rule wp_bindI, rule wp_mono [OF wp_conj [OF wp_settle_start [OF inv that] wp_settle_logged(1) [OF inv l]]]) (auto intro!: step wp_retain_logged)
  then show "wp (checkpoint_effect_start resp contended effect_id wait) (\<lambda>_. ?W) ?W s"
    using stay by (cases "op_history (own_operation s)") (auto simp: checkpoint_effect_start_def persistent_history_def wp_simps queued_history_def)
  have "wp (bind_action (settle_outcome resp effect_id) (\<lambda>early.
           case early of None \<Rightarrow> retain_effect_outcome resp effect_id | Some result \<Rightarrow> ret result)) (\<lambda>_. ?W) ?W s" if "queued_history s"
    by (rule wp_bindI, rule wp_mono [OF wp_conj [OF wp_settle_outcome [OF inv that] wp_settle_logged(2) [OF inv l]]]) (auto intro!: step wp_retain_logged)
  then show "wp (poll_effect_outcome resp contended effect_id) (\<lambda>_. ?W) ?W s"
    using stay by (cases "op_history (own_operation s)") (auto simp: poll_effect_outcome_def persistent_history_def wp_simps queued_history_def)
qed

section \<open>Runs of an operation\<close>

text \<open>The answers of the journal a call is made with.\<close>

fun call_responses :: "owner_call \<Rightarrow> journal_responses list" where
  "call_responses (Advance resp p) = [resp]"
| "call_responses (PollAdvance resp b p) = [resp]"
| "call_responses (RetryAdvance resp b) = [resp]"
| "call_responses (RetryCompletion resp) = [resp]"
| "call_responses (PollCompletion resp) = [resp]"
| "call_responses (RetryCompletionNonblocking resp) = [resp]"
| "call_responses (PollFinalization resp b) = [resp]"
| "call_responses (CheckpointEffectStart resp b i w) = [resp]"
| "call_responses (PollEffectOutcome resp b i) = [resp]"
| "call_responses (PollCompletionCheckpoint resp b) = [resp]"
| "call_responses _ = []"

lemma silent_calls:
  assumes "retained_logged log s"
  shows "write_ahead log s (snd (prepare_completion ser_value ser_error c r e s))"
    "write_ahead log s (snd (prepare_finalization ser_value ser_error ser_string now c ex r d s))"
    "write_ahead log s (snd (take_finalization_control now c j s))"
    "write_ahead log s (snd (prepare_finalization_outcome ser_value ser_error c r s))"
    "write_ahead log s (snd (request_checkpoint_retry c s))"
proof -
  have start: "write_ahead log s s" by (rule write_ahead_idle [OF assms refl refl])
  have use: "write_ahead log s (snd (m s))" if "maintains (write_ahead log s) m" for m :: "(owned, 'a) action"
    using that start by (simp add: maintains_def)
  show "write_ahead log s (snd (prepare_completion ser_value ser_error c r e s))"
    unfolding prepare_completion_def by (intro use maintains_intros)
  show "write_ahead log s (snd (prepare_finalization ser_value ser_error ser_string now c ex r d s))"
    unfolding prepare_finalization_def require_pollable_finalization_history_def retain_intent_def by (intro use maintains_intros)
  show "write_ahead log s (snd (take_finalization_control now c j s))"
    unfolding take_finalization_control_def by (intro use maintains_intros)
  show "write_ahead log s (snd (prepare_finalization_outcome ser_value ser_error c r s))"
    unfolding prepare_finalization_outcome_def retain_outcome_def by (intro use maintains_intros)
  have "write_ahead log s (set_transition (Some (pc\<lparr>pc_retry := x\<rparr>)) s)" if "transition_of s = Some pc" for pc x
    using assms that by (auto simp: write_ahead_def retained_logged_def)
  then show "write_ahead log s (snd (request_checkpoint_retry c s))"
    using start by (cases "transition_of s")
      (auto simp: request_checkpoint_retry_def try_transition_error_def hold_transition_def bind_action_def read_state_def require_def ret_def write_state_def
        split: prod.splits outcome.splits)
qed

lemma run_call_write_ahead:
  assumes inv: "op_inv (sz_effect z) ctx live s" and l: "retained_logged log s"
  shows "write_ahead (log @ call_responses c) s (run_call z c s)"
proof (cases c)
qed (use wp_advances_logged [OF inv l] wp_retry_completion_logged [OF inv l] wp_completions_logged [OF inv l] wp_effects_logged [OF inv l]
    wp_publish_completion_logged [OF inv l refl refl] silent_calls [OF l] in \<open>simp_all add: wp_final(1)\<close>)

text \<open>One step of an operation, as in \<open>operation_step\<close>, with the log of the journal's answers.\<close>

inductive logged_step :: "serializers \<Rightarrow> (owned \<times> u64 set) \<times> journal_responses list \<Rightarrow> (owned \<times> u64 set) \<times> journal_responses list \<Rightarrow> bool" for z where
  logged_call: "logged_step z ((s, live), log) ((run_call z c s, live), log @ call_responses c)"
| logged_cancel: "logged_step z ((s, live), log) ((s\<lparr>own_operation := snd (handle_cancel (own_operation s))\<rparr>, live), log)"
| logged_effect:
    "ledger_step (sz_effect z) \<lparr>ls_ledger = op_effects (own_operation s), ls_live = live\<rparr> \<lparr>ls_ledger = l, ls_live = live'\<rparr> \<Longrightarrow>
     logged_step z ((s, live), log) ((with_effects l s, live'), log)"

lemma logged_operation_step: "logged_step z (a, log) (b, log') \<Longrightarrow> operation_step z a b"
  by (cases rule: logged_step.cases, assumption) (auto intro: operation_step.intros)

lemma handle_cancel_write_ahead:
  "write_ahead log s (t\<lparr>own_operation := snd (handle_cancel (own_operation t))\<rparr>) = write_ahead log s t"
  by (rule write_ahead_frame) (auto simp: handle_cancel_def split: outcome.splits prod.splits)

lemma logged_step_write_ahead:
  assumes "logged_step z ((s, live), log) ((t, live'), log')" "op_inv (sz_effect z) ctx live s" "retained_logged log s"
  shows "write_ahead log' s t"
  using assms(1)
proof (cases rule: logged_step.cases)
  case (logged_call c)
  then show ?thesis using run_call_write_ahead [OF assms(2,3)] by simp
next
  case logged_cancel
  then show ?thesis using write_ahead_idle [OF assms(3) refl refl] by (simp add: handle_cancel_write_ahead)
next
  case (logged_effect l)
  then show ?thesis using write_ahead_idle [OF assms(3) refl refl] by simp
qed

lemma logged_run:
  assumes "(logged_step z)\<^sup>*\<^sup>* ((w, {}), []) x" "op_inv (sz_effect z) ctx {} w" "retained_logged [] w"
  shows "op_inv (sz_effect z) ctx (snd (fst x)) (fst (fst x)) \<and> retained_logged (snd x) (fst (fst x))"
  using assms(1)
proof (induction rule: rtranclp_induct)
  case (step x y)
  obtain s live log t live' log' where x: "x = ((s, live), log)" "y = ((t, live'), log')" by (metis prod.collapse)
  then have s: "op_inv (sz_effect z) ctx live s" "retained_logged log s" "logged_step z ((s, live), log) ((t, live'), log')" using step by simp_all
  then show ?case
    using operation_step_inv(1) [OF logged_operation_step [OF s(3)] s(1)] logged_step_write_ahead [OF s(3,1,2)] x by (simp add: write_ahead_def)
qed (use assms(2,3) in simp)

lemma admitted_owner:
  fixes z :: serializers
  assumes "\<not> poisoned (reg_state g)" "admit_with_reservation ser now g control reservation make_context = (Ok (w, r), g')"
  shows "\<exists>ctx. op_inv (sz_effect z) ctx {} w" "retained_logged log w"
proof -
  obtain sequence i ctx bytes n control' where c: "admission_check ser g (reg_st g) reservation make_context = Ok (sequence, i, ctx, bytes, n)"
    and w: "w = new_owner (new_operation g n i ctx bytes control')"
    using admit_result [OF assms] by metis
  note h = new_operation_healthy [OF admission_check_result(3) [OF c]]
  have "whole_operation (new_operation g n i ctx bytes control') (private_part (w, {})) = (w, {})"
    by (simp add: whole_operation_def private_part_def new_owner_def w)
  then show "\<exists>ctx. op_inv (sz_effect z) ctx {} w" using h [where z = z and n = n and i = i and ctx = ctx and control = control'] by (auto simp: healthy_def w)
  show "retained_logged log w" by (simp add: retained_logged_def w new_owner_def new_operation_def transition_of_def)
qed

text \<open>
  Property C13. Write-ahead: along every run of an admitted operation, over all calls of its owner,
  cancellations and uses of its effects, and whatever the journal answers, a step that changes the
  published snapshot of an operation with a history publishes one the journal has accepted, under the
  revision the history then records. A direct journal stored it in answer to that call as the successor
  of the recorded revision; a journal worker took exactly this snapshot in this call or an earlier one,
  and its receipt has since shown the revision.
\<close>

theorem publication_is_write_ahead:
  assumes "\<not> poisoned (reg_state g)" "admit_with_reservation ser now g control reservation make_context = (Ok (w, r), g')"
    and "(logged_step z)\<^sup>*\<^sup>* ((w, {}), []) ((s, live), log)" "logged_step z ((s, live), log) ((t, live'), log')"
    and "op_history (own_operation t) = Some h"
  shows "cur t = cur s \<or> (\<exists>n. guarded (hs_revision h) = Some n \<and> journal_accepted log' h (revision_of s) (cur t) n)"
proof -
  obtain ctx where "op_inv (sz_effect z) ctx {} w" using admitted_owner(1) [OF assms(1,2)] by blast
  from logged_run [OF assms(3) this admitted_owner(2) [OF assms(1,2)]]
  have "op_inv (sz_effect z) ctx live s" "retained_logged log s" by simp_all
  then have "write_ahead log' s t" by (rule logged_step_write_ahead [OF assms(4)])
  then show ?thesis using assms(5) by (auto simp: write_ahead_def accepted_def)
qed

section \<open>A run\<close>

text \<open>Two polls of a queued history: the first submits, the second finds the receipt complete and publishes.\<close>

definition demo_journal :: journal_responses where
  "demo_journal = \<lparr>jr_direct = \<lambda>_ _ _. Inr 1, jr_submit = \<lambda>_ _ _. Inr (),
     jr_wait = \<lambda>_. Inr \<lparr>jw_phase = WriteCompleted, jw_revision = Some 1, jw_error = None\<rparr>,
     jr_poll = \<lambda>_. Inr \<lparr>jw_phase = WriteCompleted, jw_revision = Some 1, jw_error = None\<rparr>\<rparr>"

definition demo_writing :: journal_responses where
  "demo_writing = demo_journal\<lparr>jr_poll := \<lambda>_. Inr \<lparr>jw_phase = WriteWriting, jw_revision = None, jw_error = None\<rparr>\<rparr>"

definition demo_control :: call_control where
  "demo_control = \<lparr>ctl_host_wait_enabled = False, ctl_host_wait_ns = 0, ctl_host_wait_calls = 0,
     ctl_effects = mutex_new Fresh, ctl_deadline = 100, ctl_cancelled = False\<rparr>"

definition demo_recording :: operation_registry where
  "demo_recording = \<lparr>reg_address = 0, reg_journal = Some QueuedBackend, reg_max_effect_records = 4, reg_max_effect_bytes = 1000,
      reg_runtime_id = ''r'', reg_max_operations = 2, reg_max_value_bytes = 100,
      reg_state = mutex_new \<lparr>ors_publication_sequence = 0, ors_reserved = 0, ors_sequence = 0, ors_records = []\<rparr>\<rparr>"

definition demo_recorded :: owned where
  "demo_recorded = new_owner (new_operation demo_recording 1 (identity_render OperationIdentity ''r'' 1) Unbound 0
     (demo_control\<lparr>ctl_effects := mutex_new (Registered 1 Business)\<rparr>))"

lemma demo_recorded_admitted:
  "\<exists>g. admit_with_reservation ser 0 demo_recording demo_control None (\<lambda>_. Ok Unbound) = (Ok (demo_recorded, None), g)"
  by (simp add: admit_with_reservation_def admit_locked_def admission_check_def admission_identity_def registry_with_def mutex_with_def
      mutex_new_def demo_recording_def demo_recorded_def retention_full_def checked_add_def checked_sub_def
      u64_max_def context_validate_def control_check_def control_attach_effects_def demo_control_def Let_def)

definition demo_encoding :: serializers where
  "demo_encoding = (let one = \<lparr>ser_chunks = [1], ser_failed = False\<rparr> in
     \<lparr>sz_effect = \<lambda>_. one, sz_value = \<lambda>_. one, sz_error = \<lambda>_. one, sz_string = \<lambda>_. one, sz_context = \<lambda>_. one\<rparr>)"

definition demo_submitting :: owned where
  "demo_submitting = run_call demo_encoding (PollAdvance demo_writing False OpRunning) demo_recorded"

definition demo_published :: owned where
  "demo_published = run_call demo_encoding (PollAdvance demo_journal False OpRunning) demo_submitting"

lemma demo_phases: "sn_phase (cur demo_submitting) = OpQueued" "sn_phase (cur demo_published) = OpRunning"
  by code_simp+

theorem publication_is_write_ahead_witness:
  "\<exists>h. op_history (own_operation demo_published) = Some h \<and> guarded (hs_revision h) = Some 1 \<and>
     journal_accepted [demo_writing, demo_journal] h (revision_of demo_submitting) (cur demo_published) 1"
proof -
  obtain g where g: "admit_with_reservation (sz_context demo_encoding) 0 demo_recording demo_control None (\<lambda>_. Ok Unbound) = (Ok (demo_recorded, None), g)"
    using demo_recorded_admitted by blast
  have first: "(logged_step demo_encoding)\<^sup>*\<^sup>* ((demo_recorded, {}), []) ((demo_submitting, {}), [demo_writing])"
    using logged_call [of demo_encoding demo_recorded "{}" "[]" "PollAdvance demo_writing False OpRunning"]
    by (intro r_into_rtranclp) (simp add: demo_submitting_def)
  have second: "logged_step demo_encoding ((demo_submitting, {}), [demo_writing]) ((demo_published, {}), [demo_writing, demo_journal])"
    using logged_call [of demo_encoding demo_submitting "{}" "[demo_writing]" "PollAdvance demo_journal False OpRunning"] by (simp add: demo_published_def)
  have rev: "map_option (\<lambda>h. guarded (hs_revision h)) (op_history (own_operation demo_published)) = Some (Some 1)" by code_simp
  then obtain h where h: "op_history (own_operation demo_published) = Some h" "guarded (hs_revision h) = Some 1" by blast
  have "cur demo_published \<noteq> cur demo_submitting" using demo_phases by (metis operation_phase.distinct(3))
  then show ?thesis
    using publication_is_write_ahead [OF _ g first second h(1)] h by (simp add: demo_recording_def)
qed

end
