(* ===== verification/Operation_Props.thy ===== *)
theory Operation_Props
  imports Operation_History Operation_Listing Operation_Write_Ahead Effect_Ledger_Props
begin

text \<open>
  The properties of the operation registry in every reachable state, for every sequence of calls of
  its clients, owners, effect attempts and reservation holders.
\<close>

section \<open>A short execution\<close>

definition demo_serializers :: serializers where
  "demo_serializers = \<lparr>sz_effect = demo_ser, sz_value = (\<lambda>_. \<lparr>ser_chunks = [4], ser_failed = False\<rparr>),
     sz_error = (\<lambda>_. \<lparr>ser_chunks = [40], ser_failed = False\<rparr>), sz_string = (\<lambda>_. \<lparr>ser_chunks = [4], ser_failed = False\<rparr>),
     sz_context = (\<lambda>_. \<lparr>ser_chunks = [10], ser_failed = False\<rparr>)\<rparr>"

definition demo_runtime :: embedded_runtime_config where
  "demo_runtime = \<lparr>max_registered_plugins = 4, max_registered_pools = 4, max_sessions = 4,
     max_registered_capabilities = 4, max_resident_vms = 3, max_running_calls = 2, max_queued_calls = 2,
     max_queued_bytes = 1000, max_operations = 2, max_effect_records_per_operation = 4,
     max_effect_bytes_per_operation = 1000, max_host_requests = 4, max_host_request_bytes = 1000,
     max_value_bytes = 100\<rparr>"

text \<open>
  An empty registry of two slots; one slot reserved; an operation admitted into the other; the
  operation cleaned up and completed.
\<close>

definition demo_empty :: operation_registry where
  "demo_empty = \<lparr>reg_address = 7, reg_journal = None, reg_max_effect_records = 4, reg_max_effect_bytes = 1000,
     reg_runtime_id = ''r'', reg_max_operations = 2, reg_max_value_bytes = 100,
     reg_state = mutex_new \<lparr>ors_publication_sequence = 0, ors_reserved = 0, ors_sequence = 0, ors_records = []\<rparr>\<rparr>"

definition demo_reservation :: operation_reservation where
  "demo_reservation = \<lparr>rsv_id = ''r:op:1'', rsv_context = Unbound, rsv_state = 7, rsv_active = True\<rparr>"

definition demo_operation :: operation where
  "demo_operation = new_operation demo_empty 1 ''r:op:2'' Unbound 0 (demo_control\<lparr>ctl_effects := mutex_new (Registered 1 Business)\<rparr>)"

definition demo_private :: owner_part where
  "demo_private = private_part (new_owner demo_operation, {})"

definition demo_slot :: registry_system where
  "demo_slot = \<lparr>rs_registry = demo_empty\<lparr>reg_state := mutex_new \<lparr>ors_publication_sequence = 0, ors_reserved = 1, ors_sequence = 1, ors_records = []\<rparr>\<rparr>,
     rs_reservations = [demo_reservation], rs_private = \<lambda>_. demo_private\<rparr>"

definition demo_with :: "operation \<Rightarrow> owner_part \<Rightarrow> registry_system" where
  "demo_with op v = \<lparr>rs_registry = demo_empty\<lparr>reg_state := mutex_new
       \<lparr>ors_publication_sequence = 1, ors_reserved = 1, ors_sequence = 2, ors_records = [(''r:op:2'', op)]\<rparr>\<rparr>,
     rs_reservations = [demo_reservation], rs_private = (\<lambda>_. demo_private)(''r:op:2'' := v)\<rparr>"

definition demo_cleaning :: "owned \<times> u64 set" where
  "demo_cleaning = (run_call demo_serializers (Advance demo_journal OpCleaning) (new_owner demo_operation), {})"

definition demo_candidate :: "owned \<times> u64 set" where
  "demo_candidate = (run_call demo_serializers (PrepareCompletion False (Value VNull) NotStarted) (fst demo_cleaning), {})"

definition demo_completed :: "owned \<times> u64 set" where
  "demo_completed = (run_call demo_serializers (RetryCompletion demo_journal) (fst demo_candidate), {})"

lemma demo_strings: "identity_render OperationIdentity ''r'' 1 = ''r:op:1''" "identity_render OperationIdentity ''r'' 2 = ''r:op:2''"
  by code_simp+

lemma demo_start: "registry_reachable z \<lparr>rs_registry = demo_empty, rs_reservations = [], rs_private = \<lambda>_. demo_private\<rparr>"
proof (rule registry_start)
  show "registry_new 7 None ''r'' demo_runtime = Ok demo_empty"
    by (simp add: registry_new_def demo_runtime_def demo_empty_def runtime_config_validate_def trim_is_empty_def is_whitespace_def)
qed

lemma demo_slot_reachable: "registry_reachable demo_serializers demo_slot"
proof -
  have "reserve_context (sz_context demo_serializers) demo_empty (\<lambda>_. Ok Unbound) =
      (Ok demo_reservation, rs_registry demo_slot)"
    using demo_strings(1)
    by (simp add: reserve_context_def registry_with_def mutex_with_def mutex_new_def demo_empty_def demo_slot_def retention_full_def
        checked_add_def checked_sub_def u64_max_def context_validate_def demo_serializers_def json_size_eq ser_length_def demo_reservation_def Let_def)
  from registry_next [OF demo_start rs_reserve, of demo_serializers, simplified, OF this]
  show ?thesis by (simp add: demo_slot_def)
qed

lemma demo_admitted_reachable: "registry_reachable demo_serializers (demo_with demo_operation demo_private)"
proof -
  have i: "op_ident (own_operation (new_owner demo_operation)) = ''r:op:2''" by (simp add: demo_operation_def)
  have "admit_with_reservation (sz_context demo_serializers) 0 (rs_registry demo_slot) demo_control None (\<lambda>_. Ok Unbound) =
      (Ok (new_owner demo_operation, None), rs_registry (demo_with demo_operation demo_private))"
    using demo_strings(2)
    by (simp add: admit_with_reservation_def admit_locked_def admission_check_def admission_identity_def registry_with_def mutex_with_def
        mutex_new_def demo_empty_def demo_slot_def demo_with_def demo_operation_def retention_full_def checked_add_def checked_sub_def
        u64_max_def context_validate_def control_check_def control_attach_effects_def demo_control_def insert_operation_def
        new_operation_def numeral_2_eq_2 Let_def)
  from registry_next [OF demo_slot_reachable rs_admit [OF this]]
  show ?thesis unfolding i by (simp add: demo_slot_def demo_with_def demo_private_def)
qed

lemma demo_step:
  assumes "registry_reachable demo_serializers (demo_with op v)" "operation_step demo_serializers (whole_operation op v) t"
  shows "registry_reachable demo_serializers (demo_with (own_operation (fst t)) (private_part t))"
proof -
  have "bt_get (ors_records (guarded (reg_state (rs_registry (demo_with op v))))) ''r:op:2'' = Some op" by (simp add: demo_with_def)
  moreover have "rs_private (demo_with op v) ''r:op:2'' = v" by (simp add: demo_with_def)
  ultimately show ?thesis
    using registry_next [OF assms(1) rs_operation [of _ "''r:op:2''" op demo_serializers t]] assms(2)
    by (simp add: demo_with_def replace_operation_def mutex_new_def)
qed

lemma demo_completed_reachable:
  "registry_reachable demo_serializers (demo_with (own_operation (fst demo_completed)) (private_part demo_completed))"
proof -
  have call: "registry_reachable demo_serializers (demo_with (own_operation (fst u)) (private_part u))"
    if "registry_reachable demo_serializers (demo_with (own_operation (fst t)) (private_part t))"
      "u = (run_call demo_serializers c (fst t), {})" "snd t = {}" for t u c
    by (rule demo_step [OF that(1)])
      (use that(2) op_call [of demo_serializers "fst t" "{}" c] in \<open>simp only: whole_operation_private that(3) [symmetric] prod.collapse\<close>)
  have "registry_reachable demo_serializers (demo_with (own_operation (fst demo_cleaning)) (private_part demo_cleaning))"
    by (rule call [of "(new_owner demo_operation, {})"])
      (use demo_admitted_reachable in \<open>simp_all only: demo_cleaning_def demo_private_def fst_conv snd_conv new_operation_simps\<close>)
  then have "registry_reachable demo_serializers (demo_with (own_operation (fst demo_candidate)) (private_part demo_candidate))"
    by (rule call) (simp_all only: demo_candidate_def demo_cleaning_def snd_conv)
  then show ?thesis by (rule call) (simp_all only: demo_completed_def demo_candidate_def snd_conv)
qed

lemma demo_completed_snapshot:
  "sn_phase (guarded (op_snapshot (own_operation (fst demo_completed)))) = OpSucceeded"
  "sn_value (guarded (op_snapshot (own_operation (fst demo_completed)))) = Some VNull"
  by code_simp+

end
