(* ===== verification/Operation_Theorems.thy ===== *)
theory Operation_Theorems
  imports Operation_Props
begin

text \<open>Properties of the operation registry, each with its instance on the short execution.\<close>

section \<open>Retention and reservations\<close>

text \<open>
  Property C23. In every reachable state the retained operations and the reserved slots together stay
  within the configured limit, and an operation or a reservation is accepted only into a free slot.
\<close>

theorem retention_bounded:
  assumes "registry_reachable z s"
  shows "length (ors_records (reg_st (rs_registry s))) + length (rs_reservations s) \<le> reg_max_operations (rs_registry s) \<and>
    (is_ok (fst (admit_with_reservation (sz_context z) now (rs_registry s) control None make_context)) \<or>
     is_ok (fst (reserve_context (sz_context z) (rs_registry s) make_context)) \<longrightarrow>
     length (ors_records (reg_st (rs_registry s))) + length (rs_reservations s) < reg_max_operations (rs_registry s))"
proof (intro conjI impI)
  note d = registry_invD [OF registry_reachable_inv [OF assms]]
  show "length (ors_records (reg_st (rs_registry s))) + length (rs_reservations s) \<le> reg_max_operations (rs_registry s)"
    using d(3,4) by simp
  assume "is_ok (fst (admit_with_reservation (sz_context z) now (rs_registry s) control None make_context)) \<or>
      is_ok (fst (reserve_context (sz_context z) (rs_registry s) make_context))"
  then consider w r g where "admit_with_reservation (sz_context z) now (rs_registry s) control None make_context = (Ok (w, r), g)" |
      r g where "reserve_context (sz_context z) (rs_registry s) make_context = (Ok r, g)"
    by (metis is_ok.elims(2) prod.collapse)
  then show "length (ors_records (reg_st (rs_registry s))) + length (rs_reservations s) < reg_max_operations (rs_registry s)"
  proof cases
    case 1
    then show ?thesis using admit_result [OF d(1) 1] admission_check_result(1) admission_identity_result(3) d(3) by metis
  next
    case 2
    then show ?thesis using reserve_context_result(7) [OF d(1) 2] d(3) by simp
  qed
qed

theorem retention_bounded_witness:
  "length (ors_records (reg_st (rs_registry (demo_with demo_operation demo_private)))) + 1 \<le> 2 \<and>
   \<not> is_ok (fst (admit_with_reservation (sz_context demo_serializers) 0 (rs_registry (demo_with demo_operation demo_private))
       demo_control None (\<lambda>_. Ok Unbound)))"
  using retention_bounded [OF demo_admitted_reachable]
  by (auto simp: demo_with_def demo_empty_def)

text \<open>
  Property C39. A reservation is a promise: whatever other clients have done since, admission through
  a held reservation succeeds with a fresh control, also when retention is full, when the control is
  cancelled or past its deadline, and it retains the operation under the reserved identity.
\<close>

theorem reservation_guarantees_admission:
  assumes "registry_reachable z s" "r \<in> set (rs_reservations s)"
    and "ctl_effects control = mutex_new Fresh" "ors_publication_sequence (reg_st (rs_registry s)) < u64_max"
  shows "\<exists>w r' g. admit_reserved (sz_context z) now (rs_registry s) r control = (Ok (w, Some r'), g) \<and>
    op_ident (own_operation w) = rsv_id r \<and> \<not> rsv_active r' \<and> registry_get g (rsv_id r) = Ok (own_operation w)"
proof -
  let ?g = "rs_registry s"
  note inv = registry_reachable_inv [OF assms(1)]
  note d = registry_invD [OF inv] and r = registry_invD(6) [OF inv assms(2)]
  define n where "n = ors_publication_sequence (reg_st ?g) + 1"
  define bytes where "bytes = (case rsv_context r of Unbound \<Rightarrow> 0 | Module _ \<Rightarrow> ser_length (sz_context z (rsv_context r)))"
  define op where "op = new_operation ?g n (rsv_id r) (rsv_context r) bytes (control\<lparr>ctl_effects := mutex_new (Registered n Business)\<rparr>)"
  have c: "admission_check (sz_context z) ?g (reg_st ?g) (Some r) (\<lambda>_. Err (error_invalid ''reserved admission must use its captured context'')) =
      Ok (ors_sequence (reg_st ?g), rsv_id r, rsv_context r, bytes, n)"
    using r assms(4) unfolding n_def bytes_def
    by (auto simp: admission_check_def admission_identity_def reservation_ok_def split: operation_context.splits)
  have a: "control_attach_effects control n Business = (Ok (), control\<lparr>ctl_effects := mutex_new (Registered n Business)\<rparr>)"
    using assms(3) by (simp add: control_attach_effects_def mutex_with_def mutex_new_def)
  have "0 < ors_reserved (reg_st ?g)" using d(3) assms(2) by (cases "rs_reservations s") auto
  then have k: "checked_sub (ors_reserved (reg_st ?g)) 1 = Some (ors_reserved (reg_st ?g) - 1)" by simp
  have "admit_locked (sz_context z) ?g control (Some r) (\<lambda>_. Err (error_invalid ''reserved admission must use its captured context'')) (reg_st ?g) =
      (Ok (new_owner op, Some (r\<lparr>rsv_active := False\<rparr>)), insert_operation ?g (ors_sequence (reg_st ?g)) (rsv_id r) op
        ((reg_st ?g)\<lparr>ors_reserved := ors_reserved (reg_st ?g) - 1\<rparr>))"
    unfolding admit_locked_def c a k op_def by (simp add: a k Let_def)
  then show ?thesis
    using d(1) by (simp add: admit_reserved_def admit_with_reservation_def registry_with_def mutex_with_def
        registry_get_def insert_operation_def op_def)
qed

theorem reservation_guarantees_admission_witness:
  "is_ok (fst (admit_reserved (sz_context demo_serializers) 1000 (rs_registry (demo_with demo_operation demo_private))
     demo_reservation (demo_control\<lparr>ctl_cancelled := True\<rparr>)))"
  using reservation_guarantees_admission [OF demo_admitted_reachable, of demo_reservation "demo_control\<lparr>ctl_cancelled := True\<rparr>" 1000]
  by (auto simp: demo_with_def demo_control_def u64_max_def)

section \<open>Identities\<close>

text \<open>
  Property C24. The identity of an operation is never reused: once a retained operation has been
  forgotten, no later state of the registry retains anything under its identity.
\<close>

theorem identity_never_reused:
  assumes "registry_reachable z s" "registry_get (rs_registry s) i = Ok op"
    and "(registry_step z)\<^sup>*\<^sup>* s t" "\<not> is_ok (registry_get (rs_registry t) i)" "(registry_step z)\<^sup>*\<^sup>* t u"
  shows "\<not> is_ok (registry_get (rs_registry u) i)"
proof -
  note inv = registry_reachable_inv [OF assms(1)]
  note inv_t = steps_inv [OF assms(3) inv]
  have "record_of s i = Some op" using assms(2) by (simp add: registry_get_def split: if_splits)
  then have "gone t i"
    using retained_or_gone [OF assms(3) inv, of i op "\<lambda>_. True"] assms(4) registry_invD(1) [OF inv_t] by (auto simp: registry_get_def)
  then have "gone u i" by (rule gone_forever [OF assms(5) inv_t])
  then show ?thesis by (simp add: registry_get_def gone_def)
qed

theorem identity_never_reused_witness:
  "\<not> is_ok (registry_get (snd (registry_forget
     (snd (registry_forget (rs_registry (demo_with (own_operation (fst demo_completed)) (private_part demo_completed))) ''r:op:2'')) ''r:op:1'')) ''r:op:2'')"
proof -
  let ?s = "demo_with (own_operation (fst demo_completed)) (private_part demo_completed)"
  let ?t = "?s\<lparr>rs_registry := snd (registry_forget (rs_registry ?s) ''r:op:2'')\<rparr>"
  let ?u = "?t\<lparr>rs_registry := snd (registry_forget (rs_registry ?t) ''r:op:1'')\<rparr>"
  have g: "registry_get (rs_registry ?s) ''r:op:2'' = Ok (own_operation (fst demo_completed))"
    by (simp add: registry_get_def demo_with_def)
  have "\<not> poisoned (op_snapshot (own_operation (fst demo_completed)))" by code_simp
  then have "\<not> is_ok (registry_get (rs_registry ?t) ''r:op:2'')"
    using demo_completed_snapshot(1)
    by (simp add: registry_get_def registry_forget_def registry_with_def mutex_with_def demo_with_def mutex_new_def)
  moreover have "(registry_step demo_serializers)\<^sup>*\<^sup>* ?s ?t" "(registry_step demo_serializers)\<^sup>*\<^sup>* ?t ?u"
    by (rule r_into_rtranclp, rule rs_forget)+
  ultimately show ?thesis using identity_never_reused [OF demo_completed_reachable g, of ?t ?u] by simp
qed

section \<open>Snapshots\<close>

text \<open>
  Property C25. Terminal evidence is final: once an operation has published a terminal snapshot, every
  later state that still retains the operation shows exactly that snapshot.
\<close>

theorem terminal_snapshot_final:
  assumes "registry_reachable z s" "registry_get (rs_registry s) i = Ok op" "is_terminal (sn_phase (guarded (op_snapshot op)))"
    and "(registry_step z)\<^sup>*\<^sup>* s t" "registry_get (rs_registry t) i = Ok op'"
  shows "guarded (op_snapshot op') = guarded (op_snapshot op)"
proof -
  have s: "record_of s i = Some op" and t: "record_of t i = Some op'"
    using assms(2,5) by (simp_all add: registry_get_def split: if_splits)
  have "(\<exists>y. record_of t i = Some y \<and> guarded (op_snapshot y) = guarded (op_snapshot op)) \<or> gone t i"
    by (rule retained_or_gone [OF assms(4) registry_reachable_inv [OF assms(1)] s])
      (use assms(3) in \<open>auto elim!: record_change_SomeE dest!: follows_not_terminal\<close>)
  then show ?thesis using t by (auto simp: gone_def)
qed

theorem terminal_snapshot_final_witness:
  "sn_value (guarded (op_snapshot (own_operation (run_call demo_serializers (Advance demo_journal OpRunning) (fst demo_completed))))) = Some VNull"
proof -
  let ?u = "(run_call demo_serializers (Advance demo_journal OpRunning) (fst demo_completed), {} :: u64 set)"
  let ?s = "demo_with (own_operation (fst demo_completed)) (private_part demo_completed)"
  let ?t = "?s\<lparr>rs_registry := replace_operation (rs_registry ?s) ''r:op:2'' (own_operation (fst ?u)),
       rs_private := (rs_private ?s)(''r:op:2'' := private_part ?u)\<rparr>"
  have "operation_step demo_serializers (fst demo_completed, {}) ?u" by (rule op_call)
  moreover have "(fst demo_completed, {}) = demo_completed" by (simp only: demo_completed_def fst_conv)
  moreover have "rs_private ?s ''r:op:2'' = private_part demo_completed" by (simp add: demo_with_def)
  ultimately have "operation_step demo_serializers (whole_operation (own_operation (fst demo_completed)) (rs_private ?s ''r:op:2'')) ?u"
    by (simp only: whole_operation_private)
  moreover have "bt_get (ors_records (reg_st (rs_registry ?s))) ''r:op:2'' = Some (own_operation (fst demo_completed))"
    by (simp add: demo_with_def)
  ultimately have "(registry_step demo_serializers)\<^sup>*\<^sup>* ?s ?t" by (intro r_into_rtranclp rs_operation)
  moreover have "registry_get (rs_registry ?s) ''r:op:2'' = Ok (own_operation (fst demo_completed))"
    "registry_get (rs_registry ?t) ''r:op:2'' = Ok (own_operation (fst ?u))"
    by (simp_all add: registry_get_def demo_with_def replace_operation_def)
  ultimately show ?thesis
    using terminal_snapshot_final [OF demo_completed_reachable, of "''r:op:2''" "own_operation (fst demo_completed)" ?t] demo_completed_snapshot
    by simp
qed

text \<open>
  Property C4. Published snapshots follow the lifecycle: whatever step any client takes, the snapshot
  of a retained operation stays as it is or moves along a legal phase transition (from cleaning to
  cleaning or a terminal phase), keeps its identity and context, and passes the successor check of
  its finalization evidence; a record disappears only once its phase is terminal.
\<close>

theorem snapshot_follows_lifecycle:
  assumes "registry_reachable z s" "registry_step z s t" "registry_get (rs_registry s) i = Ok op"
  shows "case registry_get (rs_registry t) i of
      Ok op' \<Rightarrow> (let x = guarded (op_snapshot op); y = guarded (op_snapshot op') in
        x = y \<or> (validate_finalization_successor y x = Ok () \<and> sn_operation_id y = sn_operation_id x \<and> sn_context y = sn_context x \<and>
          (phase_transition (sn_phase x) (sn_phase y) \<or> sn_phase x = OpCleaning \<and> (sn_phase y = OpCleaning \<or> is_terminal (sn_phase y)))))
    | _ \<Rightarrow> is_terminal (sn_phase (guarded (op_snapshot op)))"
proof -
  note inv = registry_reachable_inv [OF assms(1)]
  have s: "record_of s i = Some op" using assms(3) by (simp add: registry_get_def split: if_splits)
  have c: "record_change (Some op) (record_of t i)" using step_record [OF assms(2) inv, of i] s by simp
  have t: "registry_get (rs_registry t) i = ok_or (error_new NotFound ''operation record is unknown or expired'') (record_of t i)"
    using registry_invD(1) [OF registry_step_inv [OF assms(2) inv]] by (simp add: registry_get_def)
  from c show ?thesis by (rule record_changeE) (auto simp: t follows_def Let_def)
qed

theorem snapshot_follows_lifecycle_witness:
  "is_ok (registry_get (snd (registry_forget (rs_registry (demo_with demo_operation demo_private)) ''r:op:2'')) ''r:op:2'')"
proof -
  let ?s = "demo_with demo_operation demo_private"
  have "registry_get (rs_registry ?s) ''r:op:2'' = Ok demo_operation" by (simp add: registry_get_def demo_with_def)
  moreover have "\<not> is_terminal (sn_phase (guarded (op_snapshot demo_operation)))" by (simp add: demo_operation_def new_operation_def)
  ultimately show ?thesis
    using snapshot_follows_lifecycle [OF demo_admitted_reachable rs_forget, of "''r:op:2''" demo_operation "''r:op:2''"]
    by (auto split: outcome.splits)
qed

text \<open>
  Property C38. Published evidence is consistent in every reachable state: a snapshot carries a value
  or an error exactly when its phase is terminal, in agreement with that phase, and the closing stage
  never rewrites history: a terminal snapshot with finalization evidence shows the business error if
  there was one, else the closing error, else the business value, and no host effect is unfinished.
\<close>

theorem published_evidence_consistent:
  assumes "registry_reachable z s" "registry_get (rs_registry s) i = Ok op"
  shows "let x = guarded (op_snapshot op) in
    (is_terminal (sn_phase x) \<longleftrightarrow> sn_value x \<noteq> None \<or> sn_error x \<noteq> None) \<and>
    (sn_phase x = OpSucceeded \<longleftrightarrow> sn_value x \<noteq> None) \<and>
    (sn_phase x = OpCancelled \<longleftrightarrow> (\<exists>e. sn_error x = Some e \<and> err_code e = Cancelled)) \<and>
    (is_terminal (sn_phase x) \<longrightarrow> (case sn_finalization x of None \<Rightarrow> True | Some f \<Rightarrow>
       list_all (\<lambda>r. he_phase r = Completed) (sn_host_effects x) \<and>
       (case (fin_business f, fin_outcome f) of
          (Failed e, Some _) \<Rightarrow> sn_error x = Some e
        | (Succeeded v, Some (Failed e)) \<Rightarrow> sn_error x = Some e
        | (Succeeded v, Some (Succeeded _)) \<Rightarrow> sn_value x = Some v
        | (_, None) \<Rightarrow> False)))"
proof -
  let ?x = "guarded (op_snapshot op)"
  have "record_of s i = Some op" using assms(2) by (simp add: registry_get_def split: if_splits)
  then obtain ctx where "op_inv (sz_effect z) ctx (snd (whole_operation op (rs_private s i))) (fst (whole_operation op (rs_private s i)))"
    using registry_invD(7) [OF registry_reachable_inv [OF assms(1)]] by (auto simp: record_ok_def healthy_def)
  from op_invD(4) [OF this] have ok: "validate_finalization ?x = Ok ()" "result_shape ?x" by (simp_all add: snapshot_ok_def)
  have "case sn_finalization ?x of None \<Rightarrow> True | Some f \<Rightarrow>
       list_all (\<lambda>r. he_phase r = Completed) (sn_host_effects ?x) \<and>
       (case (fin_business f, fin_outcome f) of
          (Failed e, Some _) \<Rightarrow> sn_error ?x = Some e
        | (Succeeded v, Some (Failed e)) \<Rightarrow> sn_error ?x = Some e
        | (Succeeded v, Some (Succeeded _)) \<Rightarrow> sn_value ?x = Some v
        | (_, None) \<Rightarrow> False)" if "is_terminal (sn_phase ?x)"
    using ok(1) that
    by (auto simp: validate_finalization_def Let_def unfinished_effect_def list_all_iff list_ex_iff
        split: option.splits operation_outcome.splits if_splits)
  then show ?thesis
    using ok(2) by (auto simp: Let_def result_shape_def split: if_splits)
qed

theorem published_evidence_consistent_witness:
  "sn_phase (guarded (op_snapshot (own_operation (fst demo_completed)))) = OpSucceeded \<and>
   sn_value (guarded (op_snapshot (own_operation (fst demo_completed)))) \<noteq> None"
proof -
  have "registry_get (rs_registry (demo_with (own_operation (fst demo_completed)) (private_part demo_completed))) ''r:op:2'' =
      Ok (own_operation (fst demo_completed))" by (simp add: registry_get_def demo_with_def)
  from published_evidence_consistent [OF demo_completed_reachable this] show ?thesis
    using demo_completed_snapshot(1) by (simp add: Let_def)
qed

section \<open>Failures\<close>

lemma context_validate_not_panic [simp]: "\<not> is_panic (context_validate ctx runtime_id i)"
  by (auto simp: context_validate_def caller_validate_def split: operation_context.splits)

lemma retention_full_not_panic:
  "ors_reserved st \<le> reg_max_operations g \<Longrightarrow> \<not> is_panic (retention_full g st)"
  by (simp add: retention_full_def)

lemma admission_check_not_panic:
  assumes "\<forall>i. \<not> is_panic (make_context i)" "ors_reserved st \<le> reg_max_operations g"
  shows "\<not> is_panic (admission_check ser g st reservation make_context)"
proof -
  have "\<not> is_panic (admission_identity g st reservation)"
    using retention_full_not_panic [OF assms(2)] by (auto simp: admission_identity_def split: option.splits)
  then show ?thesis
    using assms(1) by (auto simp: admission_check_def split: option.splits operation_context.splits prod.splits)
qed

lemma admit_locked_not_panic:
  assumes "\<not> is_panic (admission_check ser g st reservation make_context)" "reservation \<noteq> None \<longrightarrow> 0 < ors_reserved st"
  shows "\<not> is_panic (fst (admit_locked ser g control reservation make_context st))"
proof (cases "admission_check ser g st reservation make_context")
  case (Ok x)
  obtain sequence i ctx bytes n where x: "x = (sequence, i, ctx, bytes, n)" by (metis prod_cases5)
  obtain y control' where y: "control_attach_effects control n Business = (y, control')" by (metis prod.exhaust)
  have "\<not> is_panic y" using y by (auto simp: control_attach_effects_def mutex_with_def split: if_splits)
  then show ?thesis
    using Ok x y assms(2) by (cases y) (auto simp: admit_locked_def Let_def split: option.splits)
qed (use assms(1) in \<open>auto simp: admit_locked_def\<close>)

lemma admit_not_panic:
  assumes "\<not> is_panic (fst (admit_locked ser g control reservation make_context (reg_st g)))"
  shows "\<not> is_panic (fst (admit_with_reservation ser now g control reservation make_context))"
  using assms
  by (auto simp: admit_with_reservation_def registry_with_def mutex_with_def control_check_def split: outcome.splits prod.splits if_splits)

text \<open>
  Property C34. Nothing panics: in every reachable state, given that the context callback of a client
  does not panic, no call on the registry does, no held reservation panics when it is used or
  dropped, and no call of an operation's owner panics or finds a poisoned lock.
\<close>

theorem operations_never_panic:
  assumes "registry_reachable z s" "\<forall>i. \<not> is_panic (make_context i)"
  shows "\<not> is_panic (fst (admit_with_reservation (sz_context z) now (rs_registry s) control None make_context)) \<and>
    \<not> is_panic (fst (reserve_context (sz_context z) (rs_registry s) make_context)) \<and>
    \<not> is_panic (fst (registry_forget (rs_registry s) i)) \<and>
    (\<forall>r \<in> set (rs_reservations s). \<not> is_panic (fst (admit_reserved (sz_context z) now (rs_registry s) r control)) \<and>
       \<not> is_panic (fst (drop_operation_reservation (rs_registry s) r))) \<and>
    (\<forall>op. registry_get (rs_registry s) i = Ok op \<longrightarrow> is_ok (op_lock op) \<and>
       \<not> call_panics z c (fst (whole_operation op (rs_private s i))))"
proof (intro conjI ballI allI impI)
  let ?g = "rs_registry s"
  note inv = registry_reachable_inv [OF assms(1)]
  note d = registry_invD [OF inv]
  have le: "ors_reserved (reg_st ?g) \<le> reg_max_operations ?g" using d(4) by simp
  show "\<not> is_panic (fst (admit_with_reservation (sz_context z) now ?g control None make_context))"
    by (intro admit_not_panic admit_locked_not_panic admission_check_not_panic assms(2) le) simp
  show "\<not> is_panic (fst (reserve_context (sz_context z) ?g make_context))"
    using retention_full_not_panic [OF le] assms(2) d(1)
    by (auto simp: reserve_context_def registry_with_def mutex_with_def Let_def split: prod.splits)
  show "\<not> is_panic (fst (registry_forget ?g i))"
    using forget_result [OF d(1), of i] record_unpoisoned [OF d(7)] by (auto split: option.splits)
  show "\<not> is_panic (fst (admit_reserved (sz_context z) now ?g r control))" if "r \<in> set (rs_reservations s)" for r
    unfolding admit_reserved_def
    by (intro admit_not_panic admit_locked_not_panic admission_check_not_panic le) (use that d(3) in auto)
  show "\<not> is_panic (fst (drop_operation_reservation ?g r))" if "r \<in> set (rs_reservations s)" for r
    using drop_step(2) [OF inv] that by (metis in_set_conv_decomp)
next
  fix op assume "registry_get (rs_registry s) i = Ok op"
  then have r: "record_ok z (rs_registry s) (rs_private s) i op"
    using registry_invD(7) [OF registry_reachable_inv [OF assms(1)]] by (simp add: registry_get_def split: if_splits)
  show "is_ok (op_lock op)" using record_unpoisoned [OF r] by simp
  show "\<not> call_panics z c (fst (whole_operation op (rs_private s i)))"
    using r call_never_panics by (auto simp: record_ok_def healthy_def)
qed

theorem operations_never_panic_witness:
  "\<not> call_panics demo_serializers (RetryCompletion demo_journal) (fst demo_completed) \<and>
   \<not> is_panic (fst (drop_operation_reservation (rs_registry (demo_with (own_operation (fst demo_completed)) (private_part demo_completed)))
       demo_reservation))"
proof -
  let ?s = "demo_with (own_operation (fst demo_completed)) (private_part demo_completed)"
  have "registry_get (rs_registry ?s) ''r:op:2'' = Ok (own_operation (fst demo_completed))" by (simp add: registry_get_def demo_with_def)
  moreover have "rs_private ?s ''r:op:2'' = private_part demo_completed" "rs_reservations ?s = [demo_reservation]"
    by (simp_all add: demo_with_def)
  ultimately show ?thesis
    using operations_never_panic [OF demo_completed_reachable, of "\<lambda>_. Ok Unbound" 0 demo_control "''r:op:2''" "RetryCompletion demo_journal"]
    by simp
qed

section \<open>Pages\<close>

text \<open>
  Property C35. Listing is complete: in every reachable state, a reader that follows the cursors of
  consecutive pages, for any legal page limit and pool filter, obtains the identities of exactly the
  matching retained operations, each once, in the order of their publication.
\<close>

theorem pages_complete:
  assumes "registry_reachable z s" "0 < limit" "limit \<le> reg_max_operations (rs_registry s)" "\<not> bad_optional_name pool_id"
    and "reg_max_operations (rs_registry s) \<le> pages"
  shows "\<exists>ops. walk (page_view (rs_registry s) pool_id limit) pages None = map op_ident ops \<and>
    sorted_wrt (<) (map op_publication_sequence ops) \<and> distinct (map op_ident ops) \<and>
    (\<forall>op. op \<in> set ops \<longleftrightarrow> registry_get (rs_registry s) (op_ident op) = Ok op \<and> in_pool pool_id op)"
proof (intro exI conjI allI)
  let ?g = "rs_registry s" and ?ops = "listed (rs_registry s) pool_id"
  note inv = registry_reachable_inv [OF assms(1)]
  note d = registry_invD [OF inv]
  have "length ?ops \<le> length (ors_records (reg_st ?g))"
    using length_filter_le [of "in_pool pool_id" "bt_values (ors_records (reg_st ?g))"] by (simp add: listed_def bt_values_def)
  then show "walk (page_view ?g pool_id limit) pages None = map op_ident ?ops"
    using lst.walk_complete [of "(z, s, pool_id)" limit pages] inv assms(2-5) d(4) by (simp add: list_ready_def listed_ids_def)
  show strict: "sorted_wrt (<) (map op_publication_sequence ?ops)" by (rule listed_strict [OF inv])
  have "distinct ?ops" using strict by (auto simp: strict_sorted_iff distinct_map)
  moreover have "inj_on op_ident (set ?ops)" by (rule inj_onI) (auto simp: listed_iff [OF inv])
  ultimately show "distinct (map op_ident ?ops)" by (simp add: distinct_map)
  show "op \<in> set ?ops \<longleftrightarrow> registry_get ?g (op_ident op) = Ok op \<and> in_pool pool_id op" for op
    using d(1) by (simp add: listed_iff [OF inv] registry_get_def)
qed

theorem pages_complete_witness:
  "walk (page_view (rs_registry (demo_with demo_operation demo_private)) None 1) 2 None = [''r:op:2'']"
proof -
  let ?g = "rs_registry (demo_with demo_operation demo_private)"
  obtain ops where w: "walk (page_view ?g None 1) 2 None = map op_ident ops" "distinct (map op_ident ops)"
    and m: "\<forall>op. op \<in> set ops \<longleftrightarrow> registry_get ?g (op_ident op) = Ok op \<and> in_pool None op"
    using pages_complete [OF demo_admitted_reachable, of 1 None 2] by (auto simp: demo_with_def demo_empty_def bad_optional_name_def)
  have "registry_get ?g i = (if i = ''r:op:2'' then Ok demo_operation else Err (error_new NotFound ''operation record is unknown or expired''))" for i
    by (simp add: registry_get_def demo_with_def)
  then have "set ops = {demo_operation}" using m by (auto simp: in_pool_def demo_operation_def split: if_splits)
  moreover have "distinct ops" using w(2) by (simp add: distinct_map)
  ultimately have "ops = [demo_operation]" by (metis distinct_singletonD)
  then show ?thesis using w(1) by (simp add: demo_operation_def)
qed

end
