(* ===== verification/Tool_Cache.thy ===== *)
theory Tool_Cache
  imports Embedded_Base "HOL-Library.Word"
begin

text \<open>
  The tool cache (\<^verbatim>\<open>runtime/cache.rs\<close>): a bounded store of JSON values with a time to live, shared by
  all tools, and the process-wide cell that holds it. The store is a hash map in some iteration
  order. Its lock is always recovered after a panic, so it does not appear in the state. The
  counter is an \<^verbatim>\<open>AtomicU64\<close>, a \<^typ>\<open>64 word\<close> whose addition wraps.
\<close>

section \<open>State\<close>

record tool_cache_config =
  tcc_max_entries :: usize
  tcc_default_ttl_secs :: u64
  tcc_max_ttl_secs :: u64

definition default_tool_cache_config :: tool_cache_config where
  "default_tool_cache_config = \<lparr>tcc_max_entries = 1000, tcc_default_ttl_secs = 30 * 60, tcc_max_ttl_secs = 30 * 60\<rparr>"

record tool_cache_entry =
  tce_tool_name :: string
  tce_value :: json_value
  tce_created_seq :: "64 word"
  tce_expires_at :: instant

type_synonym tool_cache_store = "(string, tool_cache_entry) hash_map"

record shared_tool_cache =
  stc_store :: tool_cache_store
  stc_config :: tool_cache_config
  stc_counter :: "64 word"

definition cache_new :: "tool_cache_config \<Rightarrow> shared_tool_cache" where
  "cache_new config = \<lparr>stc_store = [], stc_config = config, stc_counter = 1\<rparr>"

section \<open>Creating a record\<close>

text \<open>
  A reading of \<^verbatim>\<open>SystemTime::now()\<close> is a number of nanoseconds after the Unix epoch, negative before
  it. The last part of the message is the \<^verbatim>\<open>Display\<close> text of \<^verbatim>\<open>SystemTimeError\<close>.
\<close>

definition system_time_to_cache_id_unix_millis :: "int \<Rightarrow> string \<Rightarrow> (string, nat) outcome" where
  "system_time_to_cache_id_unix_millis time context =
     (if time < 0
      then Err (context @ '' is before Unix epoch and cannot be used for a tool cache id: '' @
                ''second time provided was later than self'')
      else Ok (nat time div nanos_per_milli))"

definition resolve_ttl :: "tool_cache_config \<Rightarrow> u64 option \<Rightarrow> duration" where
  "resolve_ttl config ttl_secs =
     (let requested = (case ttl_secs of None \<Rightarrow> tcc_default_ttl_secs config | Some t \<Rightarrow> t)
      in min (max requested 1) (max (tcc_max_ttl_secs config) 1) * nanos_per_sec)"

definition next_cache_id :: "int \<Rightarrow> shared_tool_cache \<Rightarrow> (string, string) outcome \<times> shared_tool_cache" where
  "next_cache_id time c =
     (case system_time_to_cache_id_unix_millis time ''tool cache id timestamp'' of
        Ok unix_ms \<Rightarrow>
          (Ok (''tc-'' @ show_nat unix_ms @ ''-'' @ show_nat (unat (stc_counter c))), c\<lparr>stc_counter := stc_counter c + 1\<rparr>)
      | Err e \<Rightarrow> (Err e, c)
      | Panic p \<Rightarrow> (Panic p, c))"

text \<open>
  The entry of a \<^verbatim>\<open>create\<close> whose identity is drawn: the sequence number is a second \<^verbatim>\<open>fetch_add\<close>, between
  which and the first other threads draw theirs. \<^verbatim>\<open>Instant + Duration\<close> panics when the sum cannot be
  represented, after the sequence number is drawn.
\<close>

definition draw_entry ::
  "instant \<Rightarrow> string \<Rightarrow> string \<Rightarrow> json_value \<Rightarrow> u64 option \<Rightarrow> shared_tool_cache \<Rightarrow>
   (string, string \<times> tool_cache_entry) outcome \<times> shared_tool_cache" where
  "draw_entry now cache_id tool_name v ttl_secs c =
     (case instant_checked_add now (resolve_ttl (stc_config c) ttl_secs) of
        Some expires_at \<Rightarrow>
          (Ok (cache_id, \<lparr>tce_tool_name = tool_name, tce_value = v, tce_created_seq = stc_counter c, tce_expires_at = expires_at\<rparr>),
           c\<lparr>stc_counter := stc_counter c + 1\<rparr>)
      | None \<Rightarrow> (Panic ''overflow when adding duration to instant'', c\<lparr>stc_counter := stc_counter c + 1\<rparr>))"

text \<open>The part of \<^verbatim>\<open>create\<close> before the write lock, when no other thread draws in between.\<close>

definition prepare_entry ::
  "instant \<Rightarrow> int \<Rightarrow> string \<Rightarrow> json_value \<Rightarrow> u64 option \<Rightarrow> shared_tool_cache \<Rightarrow>
   (string, string \<times> tool_cache_entry) outcome \<times> shared_tool_cache" where
  "prepare_entry now time tool_name v ttl_secs c =
     (case next_cache_id time c of
        (Ok cache_id, c) \<Rightarrow> draw_entry now cache_id tool_name v ttl_secs c
      | (Err e, c) \<Rightarrow> (Err e, c)
      | (Panic p, c) \<Rightarrow> (Panic p, c))"

definition cleanup_expired :: "instant \<Rightarrow> tool_cache_store \<Rightarrow> tool_cache_store" where
  "cleanup_expired now m = filter (\<lambda>(_, e). tce_expires_at e > now) m"

text \<open>\<^verbatim>\<open>min_by_key\<close> over the entries: the first one with the least sequence number.\<close>

definition oldest_id :: "tool_cache_store \<Rightarrow> string option" where
  "oldest_id m =
     (case m of
        [] \<Rightarrow> None
      | e # es \<Rightarrow> Some (fst (foldl (\<lambda>b x. if tce_created_seq (snd x) < tce_created_seq (snd b) then x else b) e es)))"

lemma fold_min_mem: "foldl (\<lambda>b x. if f x < f b then x else b) e es \<in> set (e # es)"
proof (induction es arbitrary: e)
  case (Cons x es)
  then show ?case using Cons.IH [of "if f x < f e then x else e"] by (auto split: if_splits)
qed simp

lemma oldest_id_mem: "oldest_id m = Some i \<Longrightarrow> i \<in> fst ` set m"
proof (cases m)
  case (Cons e es)
  assume "oldest_id m = Some i"
  then show ?thesis
    using Cons fold_min_mem [of "\<lambda>x. tce_created_seq (snd x)" e es] by (auto simp: oldest_id_def)
qed (simp add: oldest_id_def)

lemma length_delete_less: "i \<in> fst ` set m \<Longrightarrow> length (AList.delete i m) < length m"
  by (induction m) (auto simp: AList.delete_eq length_filter_less intro: le_imp_less_Suc length_filter_le)

function enforce_capacity :: "usize \<Rightarrow> tool_cache_store \<Rightarrow> tool_cache_store" where
  "enforce_capacity limit m =
     (if length m > limit
      then case oldest_id m of Some i \<Rightarrow> enforce_capacity limit (AList.delete i m) | None \<Rightarrow> m
      else m)"
  by pat_completeness auto
termination
  by (relation "measure (\<lambda>(limit, m). length m)") (auto intro: length_delete_less oldest_id_mem)

declare enforce_capacity.simps [simp del]

definition capacity_limit :: "tool_cache_config \<Rightarrow> usize" where
  "capacity_limit config = max (tcc_max_entries config) 1"

text \<open>The part of \<^verbatim>\<open>create\<close> under the write lock.\<close>

definition insert_entry :: "instant \<Rightarrow> string \<Rightarrow> tool_cache_entry \<Rightarrow> shared_tool_cache \<Rightarrow> shared_tool_cache" where
  "insert_entry now cache_id entry c =
     (let limit = capacity_limit (stc_config c);
          m = (if length (stc_store c) \<ge> limit then cleanup_expired now (stc_store c) else stc_store c)
      in c\<lparr>stc_store := enforce_capacity limit (AList.update cache_id entry m)\<rparr>)"

definition cache_create ::
  "instant \<Rightarrow> int \<Rightarrow> string \<Rightarrow> json_value \<Rightarrow> u64 option \<Rightarrow> shared_tool_cache \<Rightarrow> (string, string) outcome \<times> shared_tool_cache" where
  "cache_create now time tool_name v ttl_secs c =
     (case prepare_entry now time tool_name v ttl_secs c of
        (Ok (cache_id, entry), c) \<Rightarrow> (Ok cache_id, insert_entry now cache_id entry c)
      | (Err e, c) \<Rightarrow> (Err e, c)
      | (Panic p, c) \<Rightarrow> (Panic p, c))"

section \<open>Reading and deleting a record\<close>

text \<open>
  \<^verbatim>\<open>get\<close> decides under the read lock; an expired record is then removed under the write lock, if it is
  still there and expired.
\<close>

datatype read_decision = Hit json_value | Stale | Miss

definition read_entry :: "instant \<Rightarrow> string \<Rightarrow> string \<Rightarrow> tool_cache_store \<Rightarrow> read_decision" where
  "read_entry now tool_name cache_id m =
     (case map_of m cache_id of
        None \<Rightarrow> Miss
      | Some e \<Rightarrow>
          if tce_tool_name e = tool_name \<and> tce_expires_at e > now then Hit (tce_value e)
          else if tce_expires_at e \<le> now then Stale else Miss)"

definition purge_entry :: "instant \<Rightarrow> string \<Rightarrow> tool_cache_store \<Rightarrow> tool_cache_store" where
  "purge_entry now cache_id m =
     (case map_of m cache_id of
        Some e \<Rightarrow> if tce_expires_at e \<le> now then AList.delete cache_id m else m
      | None \<Rightarrow> m)"

definition cache_get :: "instant \<Rightarrow> string \<Rightarrow> string \<Rightarrow> shared_tool_cache \<Rightarrow> json_value option \<times> shared_tool_cache" where
  "cache_get now tool_name cache_id c =
     (case read_entry now tool_name cache_id (stc_store c) of
        Hit v \<Rightarrow> (Some v, c)
      | Stale \<Rightarrow> (None, c\<lparr>stc_store := purge_entry now cache_id (stc_store c)\<rparr>)
      | Miss \<Rightarrow> (None, c))"

definition cache_delete :: "instant \<Rightarrow> string \<Rightarrow> string \<Rightarrow> shared_tool_cache \<Rightarrow> bool \<times> shared_tool_cache" where
  "cache_delete now tool_name cache_id c =
     (case map_of (stc_store c) cache_id of
        None \<Rightarrow> (False, c)
      | Some e \<Rightarrow>
          if tce_expires_at e \<le> now then (False, c\<lparr>stc_store := AList.delete cache_id (stc_store c)\<rparr>)
          else if tce_tool_name e = tool_name then (True, c\<lparr>stc_store := AList.delete cache_id (stc_store c)\<rparr>)
          else (False, c))"

section \<open>The process-wide cell\<close>

text \<open>
  A \<^verbatim>\<open>OnceLock\<close> is set once and keeps its value. \<open>show_config\<close> is the \<^verbatim>\<open>Debug\<close> rendering that the
  conflict message contains. Between the first look at the cell and \<^verbatim>\<open>OnceLock::set\<close> another thread
  may have set it: \<open>raced\<close> is the cell as \<^verbatim>\<open>set\<close> finds it.
\<close>

definition ensure_config_matches ::
  "(tool_cache_config \<Rightarrow> string) \<Rightarrow> shared_tool_cache \<Rightarrow> tool_cache_config \<Rightarrow> (string, unit) outcome" where
  "ensure_config_matches show_config c requested =
     (if stc_config c = requested then Ok ()
      else Err (''tool cache configuration conflicts with the process-wide configuration: existing='' @
                show_config (stc_config c) @ '', requested='' @ show_config requested))"

definition configure_cell ::
  "(tool_cache_config \<Rightarrow> string) \<Rightarrow> shared_tool_cache option \<Rightarrow> shared_tool_cache option \<Rightarrow> tool_cache_config \<Rightarrow>
   (string, unit) outcome \<times> shared_tool_cache option" where
  "configure_cell show_config cell raced config =
     (case cell of
        Some c \<Rightarrow> (ensure_config_matches show_config c config, Some c)
      | None \<Rightarrow>
          (case raced of
             None \<Rightarrow> (Ok (), Some (cache_new config))
           | Some c \<Rightarrow> (ensure_config_matches show_config c config, Some c)))"

definition configure_cell_legacy ::
  "(tool_cache_config \<Rightarrow> string) \<Rightarrow> shared_tool_cache option \<Rightarrow> shared_tool_cache option \<Rightarrow> tool_cache_config \<Rightarrow>
   (string, unit) outcome \<times> shared_tool_cache option" where
  "configure_cell_legacy show_config cell raced config =
     (case configure_cell show_config cell raced config of
        (Ok _, cell') \<Rightarrow> (Ok (), cell')
      | (Err e, cell') \<Rightarrow> (Panic (''Failed to configure global tool cache: '' @ e), cell')
      | (Panic p, cell') \<Rightarrow> (Panic p, cell'))"

definition cache_from_cell :: "shared_tool_cache option \<Rightarrow> shared_tool_cache \<times> shared_tool_cache option" where
  "cache_from_cell cell =
     (case cell of
        Some c \<Rightarrow> (c, Some c)
      | None \<Rightarrow> (cache_new default_tool_cache_config, Some (cache_new default_tool_cache_config)))"

end
