(* ===== verification/Tool_Cache_Inv.thy ===== *)
theory Tool_Cache_Inv
  imports Tool_Cache
begin

text \<open>
  The tool cache against its specification: a queue in order of creation, from which a full cache
  drops expired records and then the front.
\<close>

section \<open>Sorting by creation\<close>

lemma insort_key_snoc: "f y \<le> f x \<Longrightarrow> insort_key f y (xs @ [x]) = insort_key f y xs @ [x]"
  by (induction xs) auto

lemma sort_key_snoc:
  "(\<And>y. y \<in> set xs \<Longrightarrow> f y \<le> f x) \<Longrightarrow> sort_key f (xs @ [x]) = sort_key f xs @ [x]"
  by (induction xs) (auto simp: insort_key_snoc)

lemma fold_min_le:
  fixes f :: "'a \<Rightarrow> 'b :: linorder"
  assumes "x \<in> set (e # es)"
  shows "f (foldl (\<lambda>b x. if f x < f b then x else b) e es) \<le> f x"
  using assms
proof (induction es arbitrary: e x)
  case (Cons a es)
  show ?case
  proof (cases "x \<in> set es")
    case True
    then show ?thesis using Cons.IH [of x] by auto
  next
    case False
    then have "f (if f a < f e then a else e) \<le> f x" using Cons.prems by auto
    then show ?thesis using Cons.IH [of "if f a < f e then a else e" "if f a < f e then a else e"] by (auto intro: order.trans)
  qed
qed simp

abbreviation seq_of :: "string \<times> tool_cache_entry \<Rightarrow> 64 word" where
  "seq_of x \<equiv> tce_created_seq (snd x)"

definition by_creation :: "tool_cache_store \<Rightarrow> (string \<times> tool_cache_entry) list" where
  "by_creation m = sort_key seq_of m"

definition store_ok :: "tool_cache_store \<Rightarrow> bool" where
  "store_ok m \<longleftrightarrow> distinct (map fst m) \<and> distinct (map seq_of m)"

lemma store_okD:
  assumes "store_ok m" "x \<in> set m" "y \<in> set m"
  shows "fst x = fst y \<longleftrightarrow> x = y" "seq_of x = seq_of y \<longleftrightarrow> x = y"
  using assms by (auto simp: store_ok_def distinct_map inj_on_def)

lemma store_ok_filter [intro]: "store_ok m \<Longrightarrow> store_ok (filter P m)"
  by (simp add: store_ok_def distinct_map_filter)

lemma delete_filter: "AList.delete i m = filter (\<lambda>x. fst x \<noteq> i) m"
  unfolding AList.delete_eq by (rule filter_cong) auto

lemma by_creation_simps [simp]:
  "set (by_creation m) = set m" "length (by_creation m) = length m" "by_creation [] = []"
  "by_creation (filter P m) = filter P (by_creation m)"
  by (simp_all add: by_creation_def filter_sort)

lemma by_creation_strict: "store_ok m \<Longrightarrow> sorted_wrt (<) (map seq_of (by_creation m))"
  by (simp add: by_creation_def store_ok_def strict_sorted_iff distinct_map)

lemma map_of_by_creation:
  assumes "store_ok m"
  shows "map_of (by_creation m) = map_of m"
proof (rule map_of_eqI)
  have "distinct (map fst (by_creation m))" using assms by (simp add: by_creation_def store_ok_def distinct_map)
  then show "\<forall>k \<in> set (map fst (by_creation m)). map_of (by_creation m) k = map_of m k"
    using assms by (auto simp: store_ok_def)
qed simp

section \<open>Eviction\<close>

text \<open>The record the loop evicts is the front of the queue.\<close>

lemma oldest_is_front:
  assumes "store_ok m" "m \<noteq> []"
  shows "oldest_id m = Some (fst (hd (by_creation m)))" "by_creation (AList.delete (fst (hd (by_creation m))) m) = tl (by_creation m)"
proof -
  obtain e es where m: "m = e # es" using assms(2) by (cases m) auto
  let ?x = "foldl (\<lambda>b x. if seq_of x < seq_of b then x else b) e es"
  obtain y ys where b: "by_creation m = y # ys" using assms(2) by_creation_simps(2) [of m] by (cases "by_creation m") auto
  have mem: "?x \<in> set m" "y \<in> set m"
    using fold_min_mem [of seq_of e es] b by_creation_simps(1) [of m] by (auto simp: m)
  have "seq_of ?x \<le> seq_of y" using fold_min_le [of y e es seq_of] mem(2) by (simp add: m)
  moreover have strict: "\<forall>z \<in> set ys. seq_of y < seq_of z" using by_creation_strict [OF assms(1)] by (simp add: b)
  moreover have "?x \<in> insert y (set ys)" using mem(1) b by_creation_simps(1) [of m] by simp
  ultimately have "?x = y" by force
  then show "oldest_id m = Some (fst (hd (by_creation m)))" by (simp add: oldest_id_def m b [unfolded m])
  have "fst z \<noteq> fst y" if "z \<in> set ys" for z
  proof -
    have "z \<in> set m" "z \<noteq> y" using that strict b by_creation_simps(1) [of m] by auto
    then show ?thesis using store_okD(1) [OF assms(1) _ mem(2)] by blast
  qed
  then show "by_creation (AList.delete (fst (hd (by_creation m))) m) = tl (by_creation m)"
    by (simp add: delete_filter b filter_id_conv)
qed

lemma enforce_capacity_queue:
  assumes "store_ok m"
  shows "by_creation (enforce_capacity limit m) = drop (length m - limit) (by_creation m) \<and> store_ok (enforce_capacity limit m)"
  using assms
proof (induction limit m rule: enforce_capacity.induct)
  case (1 limit m)
  show ?case
  proof (cases "length m > limit")
    case True
    then have ne: "m \<noteq> []" by auto
    note o = oldest_is_front [OF "1.prems" ne]
    let ?m = "AList.delete (fst (hd (by_creation m))) m"
    have len: "length ?m = length m - 1" using arg_cong [OF o(2), of length] by simp
    have "store_ok ?m" using "1.prems" by (auto simp: delete_filter)
    with "1.IH" [OF True o(1)] have
      "by_creation (enforce_capacity limit ?m) = drop (length m - 1 - limit) (tl (by_creation m)) \<and> store_ok (enforce_capacity limit ?m)"
      using o(2) len by simp
    moreover have "drop (length m - 1 - limit) (tl (by_creation m)) = drop (length m - limit) (by_creation m)"
    proof -
      have "length m - limit = Suc (length m - 1 - limit)" using True by simp
      then show ?thesis by (simp add: drop_Suc)
    qed
    ultimately show ?thesis using True o(1) by (simp add: enforce_capacity.simps [of limit m])
  next
    case False
    then show ?thesis using "1.prems" by (simp add: enforce_capacity.simps [of limit m])
  qed
qed

lemma enforce_capacity_length:
  assumes "store_ok m"
  shows "length (enforce_capacity limit m) = min (length m) limit"
proof -
  have "length (by_creation (enforce_capacity limit m)) = length m - (length m - limit)"
    using enforce_capacity_queue [OF assms, of limit] by simp
  then show ?thesis by simp
qed

lemma enforce_capacity_subset: "set (enforce_capacity limit m) \<subseteq> set m"
proof (induction limit m rule: enforce_capacity.induct)
  case (1 limit m)
  have "set (AList.delete i m) \<subseteq> set m" for i by (auto simp: delete_filter)
  then show ?case
    using 1 by (auto simp: enforce_capacity.simps [of limit m] split: option.splits if_splits)
qed

end
