(* ===== verification/Tool_Cache_Props.thy ===== *)
theory Tool_Cache_Props
  imports Tool_Cache_Inv
begin

text \<open>
  Properties of the tool cache: it is indistinguishable from a bounded queue, stays within its
  bound and isolates tools under every interleaving of concurrent calls, and its process-wide
  configuration is decided once.
\<close>

section \<open>Specification: a bounded queue\<close>

record fifo_cache =
  fc_queue :: "(string \<times> tool_cache_entry) list"
  fc_config :: tool_cache_config
  fc_drawn :: nat

definition fifo_insert :: "usize \<Rightarrow> instant \<Rightarrow> string \<times> tool_cache_entry \<Rightarrow> (string \<times> tool_cache_entry) list \<Rightarrow> (string \<times> tool_cache_entry) list" where
  "fifo_insert limit now x q =
     (let q = (if limit \<le> length q then filter (\<lambda>y. now < tce_expires_at (snd y)) q else q) @ [x]
      in drop (length q - limit) q)"

definition fifo_remove :: "string \<Rightarrow> fifo_cache \<Rightarrow> fifo_cache" where
  "fifo_remove i s = s\<lparr>fc_queue := filter (\<lambda>x. fst x \<noteq> i) (fc_queue s)\<rparr>"

datatype cache_op =
    Create instant int string json_value "u64 option"
  | Get instant string string
  | Delete instant string string

datatype cache_reply = Created "(string, string) outcome" | Got "json_value option" | Deleted bool

fun cache_call :: "cache_op \<Rightarrow> shared_tool_cache \<Rightarrow> cache_reply \<times> shared_tool_cache" where
  "cache_call (Create now time tool v ttl) c = map_prod Created id (cache_create now time tool v ttl c)"
| "cache_call (Get now tool i) c = map_prod Got id (cache_get now tool i c)"
| "cache_call (Delete now tool i) c = map_prod Deleted id (cache_delete now tool i c)"

fun fifo_call :: "cache_op \<Rightarrow> fifo_cache \<Rightarrow> cache_reply \<times> fifo_cache" where
  "fifo_call (Create now time tool v ttl) s =
     (let expires = now + resolve_ttl (fc_config s) ttl;
          i = ''tc-'' @ show_nat (nat time div nanos_per_milli) @ ''-'' @ show_nat (fc_drawn s);
          e = \<lparr>tce_tool_name = tool, tce_value = v, tce_created_seq = of_nat (fc_drawn s + 1), tce_expires_at = expires\<rparr>
      in if time < 0
         then (Created (Err (''tool cache id timestamp is before Unix epoch and cannot be used for a tool cache id: '' @
                 ''second time provided was later than self'')), s)
         else if instant_max < expires
         then (Created (Panic ''overflow when adding duration to instant''), s\<lparr>fc_drawn := fc_drawn s + 2\<rparr>)
         else (Created (Ok i), s\<lparr>fc_drawn := fc_drawn s + 2,
                 fc_queue := fifo_insert (capacity_limit (fc_config s)) now (i, e) (fc_queue s)\<rparr>))"
| "fifo_call (Get now tool i) s =
     (case map_of (fc_queue s) i of
        None \<Rightarrow> (Got None, s)
      | Some e \<Rightarrow>
          if tce_expires_at e \<le> now then (Got None, fifo_remove i s)
          else (Got (if tce_tool_name e = tool then Some (tce_value e) else None), s))"
| "fifo_call (Delete now tool i) s =
     (case map_of (fc_queue s) i of
        None \<Rightarrow> (Deleted False, s)
      | Some e \<Rightarrow>
          if tce_expires_at e \<le> now then (Deleted False, fifo_remove i s)
          else if tce_tool_name e = tool then (Deleted True, fifo_remove i s)
          else (Deleted False, s))"

definition cache_abs :: "shared_tool_cache \<Rightarrow> fifo_cache" where
  "cache_abs c = \<lparr>fc_queue = by_creation (stc_store c), fc_config = stc_config c, fc_drawn = unat (stc_counter c)\<rparr>"

section \<open>Invariant of the store\<close>

definition cache_key :: "nat \<Rightarrow> nat \<Rightarrow> string" where
  "cache_key ms k = ''tc-'' @ show_nat ms @ ''-'' @ show_nat k"

lemma cache_key_inj: "cache_key a k = cache_key b l \<Longrightarrow> a = b \<and> k = l"
  using show_nat_separator [of a "show_nat k" b "show_nat l"] by (auto simp: cache_key_def)

text \<open>A record was drawn before the counter reached its present value.\<close>

definition drawn :: "64 word \<Rightarrow> string \<times> tool_cache_entry \<Rightarrow> bool" where
  "drawn counter x \<longleftrightarrow> (\<exists>ms k. fst x = cache_key ms k \<and> unat (seq_of x) = k + 1 \<and> k + 1 < unat counter)"

lemma drawn_mono: "drawn a x \<Longrightarrow> unat a \<le> unat b \<Longrightarrow> drawn b x"
  by (auto simp: drawn_def intro: less_le_trans)

lemma drawn_key_eq: "drawn c x \<Longrightarrow> drawn d y \<Longrightarrow> fst x = fst y \<Longrightarrow> seq_of x = seq_of y"
  by (auto simp: drawn_def dest!: cache_key_inj simp: word_unat_eq_iff)

definition cache_ok :: "shared_tool_cache \<Rightarrow> bool" where
  "cache_ok c \<longleftrightarrow> store_ok (stc_store c) \<and> (\<forall>x \<in> set (stc_store c). drawn (stc_counter c) x) \<and>
     length (stc_store c) \<le> capacity_limit (stc_config c)"

definition counter_room :: "cache_op \<Rightarrow> shared_tool_cache \<Rightarrow> bool" where
  "counter_room x c \<longleftrightarrow> unat (stc_counter c) + 2 < 2 ^ 64"

lemma counter_steps:
  fixes w :: "64 word"
  assumes "unat w + 2 < 2 ^ 64"
  shows "unat (w + 1) = unat w + 1" "unat (w + 1 + 1) = unat w + 2"
  using assms by (simp_all add: unat_word_ariths)

lemma prepare_entry_eq:
  assumes "unat (stc_counter c) + 2 < 2 ^ 64"
  shows "prepare_entry now time tool v ttl c =
    (let expires = now + resolve_ttl (stc_config c) ttl; k = unat (stc_counter c) in
     if time < 0 then (Err (''tool cache id timestamp is before Unix epoch and cannot be used for a tool cache id: '' @
                 ''second time provided was later than self''), c)
     else if instant_max < expires then (Panic ''overflow when adding duration to instant'', c\<lparr>stc_counter := stc_counter c + 2\<rparr>)
     else (Ok (cache_key (nat time div nanos_per_milli) k,
                \<lparr>tce_tool_name = tool, tce_value = v, tce_created_seq = of_nat (k + 1), tce_expires_at = expires\<rparr>),
           c\<lparr>stc_counter := stc_counter c + 2\<rparr>))"
  by (auto simp: prepare_entry_def draw_entry_def next_cache_id_def system_time_to_cache_id_unix_millis_def instant_checked_add_def cache_key_def Let_def
      add.assoc split: option.splits)

lemma cleanup_expired_eq: "cleanup_expired now m = filter (\<lambda>y. now < tce_expires_at (snd y)) m"
  unfolding cleanup_expired_def by (rule filter_cong) auto

lemma insert_entry_queue:
  assumes ok: "store_ok (stc_store c)" and fresh: "fst x \<notin> fst ` set (stc_store c)"
    and newest: "\<And>y. y \<in> set (stc_store c) \<Longrightarrow> seq_of y < seq_of x"
  shows "by_creation (stc_store (insert_entry now (fst x) (snd x) c)) =
      fifo_insert (capacity_limit (stc_config c)) now x (by_creation (stc_store c))"
proof -
  let ?limit = "capacity_limit (stc_config c)"
  define m where "m = (if ?limit \<le> length (stc_store c) then cleanup_expired now (stc_store c) else stc_store c)"
  have sub: "set m \<subseteq> set (stc_store c)" by (auto simp: m_def cleanup_expired_def)
  have okm: "store_ok m" using ok by (auto simp: m_def cleanup_expired_def)
  have upd: "AList.update (fst x) (snd x) m = m @ [x]"
  proof -
    have "fst x \<notin> fst ` set m" using fresh sub by blast
    then have "AList.update (fst x) (snd x) m = m @ [(fst x, snd x)]" by (induction m) auto
    then show ?thesis by simp
  qed
  have ok2: "store_ok (m @ [x])" using okm fresh newest sub by (force simp: store_ok_def image_iff)
  have "y \<in> set m \<Longrightarrow> seq_of y \<le> seq_of x" for y using newest [of y, THEN less_imp_le] sub by blast
  then have "by_creation (m @ [x]) = by_creation m @ [x]" unfolding by_creation_def by (rule sort_key_snoc)
  moreover have "by_creation m = (if ?limit \<le> length (by_creation (stc_store c))
      then filter (\<lambda>y. now < tce_expires_at (snd y)) (by_creation (stc_store c)) else by_creation (stc_store c))"
    by (simp add: m_def cleanup_expired_eq)
  moreover have "stc_store (insert_entry now (fst x) (snd x) c) = enforce_capacity ?limit (m @ [x])"
    by (simp add: insert_entry_def m_def [symmetric] upd Let_def)
  moreover have "length (m @ [x]) = length (by_creation m @ [x])" by simp
  ultimately show ?thesis
    using enforce_capacity_queue [OF ok2, of ?limit] by (simp only: fifo_insert_def Let_def)
qed

lemma insert_entry_set:
  "set (stc_store (insert_entry now i e c)) \<subseteq> insert (i, e) (set (stc_store c))"
proof -
  define m where "m = (if capacity_limit (stc_config c) \<le> length (stc_store c) then cleanup_expired now (stc_store c) else stc_store c)"
  have "set m \<subseteq> set (stc_store c)" by (auto simp: m_def cleanup_expired_def)
  moreover have "set (AList.update i e m) \<subseteq> insert (i, e) (set m)" by (induction m) auto
  ultimately show ?thesis
    using enforce_capacity_subset [of "capacity_limit (stc_config c)" "AList.update i e m"]
    by (auto simp: insert_entry_def m_def [symmetric] Let_def)
qed

lemma insert_entry_frame [simp]:
  "stc_counter (insert_entry now i e c) = stc_counter c" "stc_config (insert_entry now i e c) = stc_config c"
  by (simp_all add: insert_entry_def Let_def)

text \<open>Inserting a fresh record into a store keeps it well formed and within the limit.\<close>

lemma insert_entry_store:
  assumes ok: "store_ok (stc_store c)" and fresh: "i \<notin> fst ` set (stc_store c)" "tce_created_seq e \<notin> seq_of ` set (stc_store c)"
  shows "store_ok (stc_store (insert_entry now i e c))"
    "length (stc_store (insert_entry now i e c)) \<le> capacity_limit (stc_config c)"
proof -
  define m where "m = (if capacity_limit (stc_config c) \<le> length (stc_store c) then cleanup_expired now (stc_store c) else stc_store c)"
  have sub: "set m \<subseteq> set (stc_store c)" by (auto simp: m_def cleanup_expired_def)
  have okm: "store_ok m" using ok by (auto simp: m_def cleanup_expired_def)
  have "i \<notin> fst ` set m" using fresh(1) sub by blast
  then have upd: "AList.update i e m = m @ [(i, e)]" by (induction m) auto
  have "store_ok (m @ [(i, e)])" using okm fresh sub \<open>i \<notin> fst ` set m\<close> by (force simp: store_ok_def image_iff)
  then show "store_ok (stc_store (insert_entry now i e c))"
    "length (stc_store (insert_entry now i e c)) \<le> capacity_limit (stc_config c)"
    using enforce_capacity_queue [of "m @ [(i, e)]"] enforce_capacity_length [of "m @ [(i, e)]"]
    by (simp_all add: insert_entry_def m_def [symmetric] upd Let_def)
qed

lemma create_step:
  assumes ok: "cache_ok c" and room: "unat (stc_counter c) + 2 < 2 ^ 64"
  shows "cache_ok (snd (cache_create now time tool v ttl c))"
    "fifo_call (Create now time tool v ttl) (cache_abs c) =
      (Created (fst (cache_create now time tool v ttl c)), cache_abs (snd (cache_create now time tool v ttl c)))"
proof -
  define k where "k = unat (stc_counter c)"
  define i where "i = cache_key (nat time div nanos_per_milli) k"
  define e where "e = \<lparr>tce_tool_name = tool, tce_value = v, tce_created_seq = of_nat (k + 1),
    tce_expires_at = now + resolve_ttl (stc_config c) ttl\<rparr>"
  let ?c = "c\<lparr>stc_counter := stc_counter c + 2\<rparr>"
  have cnt: "unat (stc_counter c + 2) = k + 2" using counter_steps(2) [OF room] by (simp add: k_def add.assoc)
  have "unat (of_nat (k + 1) :: 64 word) = k + 1" using room unfolding unat_of_nat by (intro mod_less) (simp add: k_def)
  then have seq: "unat (tce_created_seq e) = k + 1" by (simp add: e_def)
  note p = prepare_entry_eq [OF room, of now time tool v ttl, unfolded Let_def, folded k_def, folded i_def e_def]
  have old: "drawn (stc_counter c) y" if "y \<in> set (stc_store c)" for y using ok that by (simp add: cache_ok_def)
  have newest: "seq_of y < tce_created_seq e" if "y \<in> set (stc_store c)" for y
    using old [OF that] seq by (auto simp: drawn_def k_def word_less_nat_alt)
  have fresh: "i \<notin> fst ` set (stc_store c)"
  proof
    assume "i \<in> fst ` set (stc_store c)"
    then obtain y where y: "y \<in> set (stc_store c)" "fst y = i" by auto
    then show False using old [OF y(1)] by (auto simp: drawn_def i_def k_def dest!: cache_key_inj)
  qed
  have okc: "store_ok (stc_store c)" using ok by (simp add: cache_ok_def)
  have ins: "store_ok (stc_store (insert_entry now i e ?c))" "length (stc_store (insert_entry now i e ?c)) \<le> capacity_limit (stc_config c)"
    using insert_entry_store [of ?c i e now] okc fresh newest by force+
  have drawn_new: "drawn (stc_counter c + 2) (i, e)" using seq cnt by (auto simp: drawn_def i_def)
  have "drawn (stc_counter c + 2) y" if "y \<in> set (stc_store c)" for y
    using drawn_mono [OF old [OF that]] cnt by (simp add: k_def)
  then have all: "\<forall>y \<in> set (stc_store (insert_entry now i e ?c)). drawn (stc_counter c + 2) y"
    using insert_entry_set [of now i e ?c] drawn_new by auto
  have err: "cache_ok ?c" using ok drawn_mono cnt by (auto simp: cache_ok_def k_def)
  show "cache_ok (snd (cache_create now time tool v ttl c))"
    using ok err ins all by (simp add: cache_create_def p cache_ok_def)
  have "by_creation (stc_store (insert_entry now i e ?c)) = fifo_insert (capacity_limit (stc_config c)) now (i, e) (by_creation (stc_store c))"
    using insert_entry_queue [of ?c "(i, e)" now] okc fresh newest by simp
  then show "fifo_call (Create now time tool v ttl) (cache_abs c) =
      (Created (fst (cache_create now time tool v ttl c)), cache_abs (snd (cache_create now time tool v ttl c)))"
    using cnt by (auto simp: cache_create_def p cache_abs_def Let_def e_def i_def k_def cache_key_def)
qed

lemma delete_ok [simp]: "cache_ok c \<Longrightarrow> cache_ok (c\<lparr>stc_store := AList.delete i (stc_store c)\<rparr>)"
  unfolding cache_ok_def delete_filter by (auto intro: le_trans [OF length_filter_le])

lemma delete_abs [simp]: "cache_abs (c\<lparr>stc_store := AList.delete i (stc_store c)\<rparr>) = fifo_remove i (cache_abs c)"
  by (simp add: cache_abs_def fifo_remove_def delete_filter)

lemma map_of_queue [simp]: "cache_ok c \<Longrightarrow> map_of (fc_queue (cache_abs c)) = map_of (stc_store c)"
  by (simp add: cache_abs_def cache_ok_def map_of_by_creation)

interpretation tc: simulation cache_ok cache_abs counter_room cache_call fifo_call
proof unfold_locales
  fix c x assume ok: "cache_ok c" and room: "counter_room x c"
  have r: "unat (stc_counter c) + 2 < 2 ^ 64" using room by (simp add: counter_room_def)
  show "cache_ok (snd (cache_call x c))"
  proof (cases x)
    case (Create now time tool v ttl)
    then show ?thesis using create_step(1) [OF ok r] by (simp add: map_prod_def case_prod_beta)
  qed (use ok in \<open>auto simp: cache_get_def cache_delete_def purge_entry_def split: read_decision.splits option.splits\<close>)
  show "fifo_call x (cache_abs c) = (fst (cache_call x c), cache_abs (snd (cache_call x c)))"
  proof (cases x)
    case (Create now time tool v ttl)
    then show ?thesis using create_step(2) [OF ok r] by (simp add: map_prod_def case_prod_beta del: fifo_call.simps)
  qed (use ok in \<open>auto simp: cache_get_def read_entry_def cache_delete_def purge_entry_def split: read_decision.splits option.splits\<close>)
qed

end
