(* ===== verification/Tool_Cache_System.thy ===== *)
theory Tool_Cache_System
  imports Tool_Cache_Props
begin

text \<open>
  Concurrent use of the tool cache. A \<^verbatim>\<open>create\<close> draws its identity from the counter, then its sequence
  number, then takes the write lock; a \<^verbatim>\<open>get\<close> removes an expired record after it has released the read
  lock: between these parts other threads run. \<open>cs_drawing\<close> holds the creates that have an identity
  and no sequence number yet, with their arguments, \<open>cs_pending\<close> those that have not inserted yet,
  \<open>cs_created\<close> every create that has returned or will return an identity, with its clock reading. The
  steps stop where the 64 bit counter would wrap.
\<close>

type_synonym creation = "instant \<times> string \<times> tool_cache_entry"

type_synonym drawing = "instant \<times> string \<times> string \<times> json_value \<times> u64 option"

record cache_system =
  cs_cache :: shared_tool_cache
  cs_drawing :: "drawing list"
  cs_pending :: "creation list"
  cs_created :: "creation list"

definition counter_left :: "cache_system \<Rightarrow> bool" where
  "counter_left s \<longleftrightarrow> unat (stc_counter (cs_cache s)) + 1 < 2 ^ 64"

inductive cache_step :: "cache_system \<Rightarrow> cache_system \<Rightarrow> bool" where
  cs_identity:
    "counter_left s \<Longrightarrow> next_cache_id time (cs_cache s) = (Ok i, c) \<Longrightarrow>
     cache_step s (s\<lparr>cs_cache := c, cs_drawing := (now, i, tool, v, ttl) # cs_drawing s\<rparr>)"
| cs_identity_failed:
    "next_cache_id time (cs_cache s) = (r, c) \<Longrightarrow> \<not> is_ok r \<Longrightarrow> cache_step s (s\<lparr>cs_cache := c\<rparr>)"
| cs_draw:
    "counter_left s \<Longrightarrow> cs_drawing s = xs @ (now, i, tool, v, ttl) # ys \<Longrightarrow>
     draw_entry now i tool v ttl (cs_cache s) = (Ok (i', e), c) \<Longrightarrow>
     cache_step s (s\<lparr>cs_cache := c, cs_drawing := xs @ ys, cs_pending := (now, i', e) # cs_pending s,
       cs_created := (now, i', e) # cs_created s\<rparr>)"
| cs_draw_failed:
    "counter_left s \<Longrightarrow> cs_drawing s = xs @ (now, i, tool, v, ttl) # ys \<Longrightarrow>
     draw_entry now i tool v ttl (cs_cache s) = (r, c) \<Longrightarrow> \<not> is_ok r \<Longrightarrow>
     cache_step s (s\<lparr>cs_cache := c, cs_drawing := xs @ ys\<rparr>)"
| cs_insert:
    "cs_pending s = xs @ (now, i, e) # ys \<Longrightarrow>
     cache_step s (s\<lparr>cs_cache := insert_entry now i e (cs_cache s), cs_pending := xs @ ys\<rparr>)"
| cs_purge:
    "cache_step s (s\<lparr>cs_cache := (cs_cache s)\<lparr>stc_store := purge_entry now i (stc_store (cs_cache s))\<rparr>\<rparr>)"
| cs_delete:
    "cache_step s (s\<lparr>cs_cache := snd (cache_delete now tool i (cs_cache s))\<rparr>)"

inductive cache_reachable :: "tool_cache_config \<Rightarrow> cache_system \<Rightarrow> bool" for config where
  cache_start: "cache_reachable config \<lparr>cs_cache = cache_new config, cs_drawing = [], cs_pending = [], cs_created = []\<rparr>"
| cache_next: "cache_reachable config s \<Longrightarrow> cache_step s t \<Longrightarrow> cache_reachable config t"

abbreviation created_id :: "creation \<Rightarrow> string" where
  "created_id x \<equiv> fst (snd x)"

abbreviation created_seq :: "creation \<Rightarrow> 64 word" where
  "created_seq x \<equiv> tce_created_seq (snd (snd x))"

text \<open>The identities that creates have drawn, those without an entry included.\<close>

definition drawn_ids :: "cache_system \<Rightarrow> string list" where
  "drawn_ids s = map (\<lambda>x. fst (snd x)) (cs_drawing s) @ map created_id (cs_created s)"

definition id_drawn :: "64 word \<Rightarrow> string \<Rightarrow> bool" where
  "id_drawn counter i \<longleftrightarrow> (\<exists>ms k. i = cache_key ms k \<and> k < unat counter)"

text \<open>A record never outlives the configured maximum.\<close>

definition creation_ok :: "tool_cache_config \<Rightarrow> 64 word \<Rightarrow> creation \<Rightarrow> bool" where
  "creation_ok config counter x \<longleftrightarrow> created_seq x < counter \<and>
     tce_expires_at (snd (snd x)) \<le> fst x + max (tcc_max_ttl_secs config) 1 * nanos_per_sec"

definition cache_inv :: "tool_cache_config \<Rightarrow> cache_system \<Rightarrow> bool" where
  "cache_inv config s \<longleftrightarrow>
     (let c = cs_cache s; m = stc_store c in
      (stc_config c = config \<and> store_ok m \<and> length m \<le> capacity_limit config) \<and>
      (distinct (drawn_ids s) \<and> list_all (id_drawn (stc_counter c)) (drawn_ids s)) \<and>
      (distinct (map created_seq (cs_created s)) \<and> list_all (creation_ok config (stc_counter c)) (cs_created s)) \<and>
      set m \<subseteq> snd ` set (cs_created s) \<and> set (cs_pending s) \<subseteq> set (cs_created s) \<and>
      (distinct (cs_pending s) \<and> snd ` set (cs_pending s) \<inter> set m = {}))"

lemma cache_invD:
  assumes "cache_inv config s"
  shows "stc_config (cs_cache s) = config" "store_ok (stc_store (cs_cache s))" "length (stc_store (cs_cache s)) \<le> capacity_limit config"
    "distinct (drawn_ids s)" "list_all (id_drawn (stc_counter (cs_cache s))) (drawn_ids s)"
    "distinct (map created_seq (cs_created s))" "list_all (creation_ok config (stc_counter (cs_cache s))) (cs_created s)"
    "set (stc_store (cs_cache s)) \<subseteq> snd ` set (cs_created s)" "set (cs_pending s) \<subseteq> set (cs_created s)"
    "distinct (cs_pending s)" "snd ` set (cs_pending s) \<inter> set (stc_store (cs_cache s)) = {}"
  using assms unfolding cache_inv_def Let_def by blast+

lemma cache_invI:
  assumes "stc_config (cs_cache s) = config" "store_ok (stc_store (cs_cache s))" "length (stc_store (cs_cache s)) \<le> capacity_limit config"
    "distinct (drawn_ids s)" "list_all (id_drawn (stc_counter (cs_cache s))) (drawn_ids s)"
    "distinct (map created_seq (cs_created s))" "list_all (creation_ok config (stc_counter (cs_cache s))) (cs_created s)"
    "set (stc_store (cs_cache s)) \<subseteq> snd ` set (cs_created s)" "set (cs_pending s) \<subseteq> set (cs_created s)"
    "distinct (cs_pending s)" "snd ` set (cs_pending s) \<inter> set (stc_store (cs_cache s)) = {}"
  shows "cache_inv config s"
  using assms unfolding cache_inv_def Let_def by blast

lemma resolve_ttl_le: "resolve_ttl config ttl \<le> max (tcc_max_ttl_secs config) 1 * nanos_per_sec"
  by (simp add: resolve_ttl_def Let_def)

lemma counter_less:
  fixes w :: "64 word"
  assumes "unat w + 1 < 2 ^ 64"
  shows "w < w + 1" "unat (w + 1) = unat w + 1"
  using assms by (simp_all add: word_less_nat_alt unat_word_ariths)

lemma next_cache_id_result:
  assumes "next_cache_id time c = (r, c')"
  shows "r = Ok i \<Longrightarrow> (\<exists>ms. i = cache_key ms (unat (stc_counter c))) \<and> c' = c\<lparr>stc_counter := stc_counter c + 1\<rparr>"
    "\<not> is_ok r \<Longrightarrow> c' = c"
  using assms by (auto simp: next_cache_id_def cache_key_def split: outcome.splits)

lemma draw_entry_result:
  assumes "draw_entry now i tool v ttl c = (r, c')"
  shows "c' = c\<lparr>stc_counter := stc_counter c + 1\<rparr>"
    "r = Ok (j, e) \<Longrightarrow> j = i \<and> tce_created_seq e = stc_counter c \<and> tce_tool_name e = tool \<and> tce_value e = v \<and>
      tce_expires_at e \<le> now + max (tcc_max_ttl_secs (stc_config c)) 1 * nanos_per_sec"
  using assms resolve_ttl_le [of "stc_config c" ttl]
  by (auto simp: draw_entry_def instant_checked_add_def split: option.splits if_splits)

lemma creation_ok_mono: "a \<le> b \<Longrightarrow> list_all (creation_ok config a) xs \<Longrightarrow> list_all (creation_ok config b) xs"
  by (auto simp: creation_ok_def list_all_iff intro: less_le_trans)

lemma id_drawn_mono: "a \<le> b \<Longrightarrow> list_all (id_drawn a) xs \<Longrightarrow> list_all (id_drawn b) xs"
  by (fastforce simp: id_drawn_def list_all_iff word_le_nat_alt)

text \<open>A number that the counter has not given out names no earlier identity and no earlier record.\<close>

lemma id_fresh: "list_all (id_drawn w) xs \<Longrightarrow> cache_key ms (unat w) \<notin> set xs"
  by (auto simp: id_drawn_def list_all_iff dest!: cache_key_inj)

lemma seq_fresh: "list_all (creation_ok config w) xs \<Longrightarrow> w \<notin> created_seq ` set xs"
  by (auto simp: creation_ok_def list_all_iff)

text \<open>Identities and sequence numbers are both one to one, though nothing relates the two.\<close>

lemma same_creation:
  assumes "cache_inv config s" "x \<in> set (cs_created s)" "y \<in> set (cs_created s)" "created_id x = created_id y \<or> created_seq x = created_seq y"
  shows "x = y"
  using cache_invD(4,6) [OF assms(1)] assms(2-4) by (auto simp: drawn_ids_def distinct_map inj_on_def)

lemma pending_fresh:
  assumes inv: "cache_inv config s" and x: "(now, i, e) \<in> set (cs_pending s)"
  shows "i \<notin> fst ` set (stc_store (cs_cache s))" "tce_created_seq e \<notin> seq_of ` set (stc_store (cs_cache s))"
proof -
  note d = cache_invD [OF inv]
  have False if y: "y \<in> set (stc_store (cs_cache s))" "fst y = i \<or> seq_of y = tce_created_seq e" for y
  proof -
    obtain z where "z \<in> set (cs_created s)" "y = snd z" using y(1) d(8) by blast
    then have "z = (now, i, e)" by (intro same_creation [OF inv]) (use y(2) x d(9) in auto)
    then show False using \<open>y = snd z\<close> y(1) x d(11) by force
  qed
  then show "i \<notin> fst ` set (stc_store (cs_cache s))" "tce_created_seq e \<notin> seq_of ` set (stc_store (cs_cache s))"
    by (metis imageE)+
qed

lemma shrink_inv:
  assumes "cache_inv config s" "m = filter P (stc_store (cs_cache s))"
  shows "cache_inv config (s\<lparr>cs_cache := (cs_cache s)\<lparr>stc_store := m\<rparr>\<rparr>)"
proof -
  note d = cache_invD [OF assms(1)]
  have ids: "drawn_ids (s\<lparr>cs_cache := c\<rparr>) = drawn_ids s" for c by (simp add: drawn_ids_def)
  have "set m \<subseteq> set (stc_store (cs_cache s))" using assms(2) by auto
  then have "set m \<subseteq> snd ` set (cs_created s)" "snd ` set (cs_pending s) \<inter> set m = {}" using d(8,11) by blast+
  moreover have "store_ok m" using d(2) assms(2) by auto
  moreover have "length m \<le> capacity_limit config" using d(3) assms(2) le_trans [OF length_filter_le] by blast
  ultimately show ?thesis by (intro cache_invI) (use d in \<open>simp_all add: ids\<close>)
qed

lemma counter_left_le: "counter_left s \<Longrightarrow> stc_counter (cs_cache s) \<le> stc_counter (cs_cache s) + 1"
  using counter_less(1) [of "stc_counter (cs_cache s)"] by (simp add: counter_left_def)

lemma identity_inv:
  assumes inv: "cache_inv config s" and room: "counter_left s" and i: "next_cache_id time (cs_cache s) = (Ok i, c)"
  shows "cache_inv config (s\<lparr>cs_cache := c, cs_drawing := (now, i, tool, v, ttl) # cs_drawing s\<rparr>)" (is "cache_inv config ?t")
proof -
  note d = cache_invD [OF inv] and le = counter_left_le [OF room]
  obtain ms where i: "i = cache_key ms (unat (stc_counter (cs_cache s)))" and c: "c = (cs_cache s)\<lparr>stc_counter := stc_counter (cs_cache s) + 1\<rparr>"
    using next_cache_id_result(1) [OF i] by blast
  have ids: "drawn_ids ?t = i # drawn_ids s" by (simp add: drawn_ids_def)
  have "id_drawn (stc_counter c) i"
    using counter_less(2) [of "stc_counter (cs_cache s)"] room unfolding i id_drawn_def counter_left_def by (auto simp: c)
  then have "list_all (id_drawn (stc_counter c)) (drawn_ids ?t)" using id_drawn_mono [OF le d(5)] unfolding ids by (simp add: c)
  moreover have "distinct (drawn_ids ?t)" using d(4) id_fresh [OF d(5), of ms] unfolding ids by (simp add: i)
  ultimately show ?thesis
    by (intro cache_invI) (use d creation_ok_mono [OF le d(7)] in \<open>simp_all add: c\<close>)
qed

lemma draw_inv:
  assumes inv: "cache_inv config s" and room: "counter_left s" and drawing: "cs_drawing s = xs @ (now, i, tool, v, ttl) # ys"
    and e: "draw_entry now i tool v ttl (cs_cache s) = (Ok (j, e), c)"
  shows "cache_inv config (s\<lparr>cs_cache := c, cs_drawing := xs @ ys, cs_pending := (now, j, e) # cs_pending s,
    cs_created := (now, j, e) # cs_created s\<rparr>)" (is "cache_inv config ?t")
proof -
  note d = cache_invD [OF inv] and le = counter_left_le [OF room]
  have c: "c = (cs_cache s)\<lparr>stc_counter := stc_counter (cs_cache s) + 1\<rparr>" by (rule draw_entry_result(1) [OF e])
  have e: "j = i" "tce_created_seq e = stc_counter (cs_cache s)" "tce_expires_at e \<le> now + max (tcc_max_ttl_secs config) 1 * nanos_per_sec"
    using draw_entry_result(2) [OF e] d(1) by auto
  have fresh: "tce_created_seq e \<notin> created_seq ` set (cs_created s)" using seq_fresh [OF d(7)] by (simp add: e(2))
  have new: "(now, j, e) \<notin> set (cs_created s)" "(j, e) \<notin> set (stc_store (cs_cache s))" using fresh d(8) by force+
  have ids: "set (drawn_ids ?t) = set (drawn_ids s)" by (simp add: drawn_ids_def drawing e(1))
  have "creation_ok config (stc_counter c) (now, j, e)"
    using e(2,3) counter_less(1) [of "stc_counter (cs_cache s)"] room by (simp add: creation_ok_def c counter_left_def)
  moreover have "distinct (drawn_ids ?t)" using d(4) by (auto simp: drawn_ids_def drawing e(1))
  moreover have "list_all (id_drawn (stc_counter c)) (drawn_ids ?t)"
    using id_drawn_mono [OF le d(5)] unfolding list_all_iff ids by (simp add: c)
  ultimately show ?thesis
    by (intro cache_invI) (use d creation_ok_mono [OF le d(7)] fresh new in \<open>auto simp: c\<close>)
qed

lemma draw_failed_inv:
  assumes inv: "cache_inv config s" and room: "counter_left s" and drawing: "cs_drawing s = xs @ x # ys"
  shows "cache_inv config (s\<lparr>cs_cache := (cs_cache s)\<lparr>stc_counter := stc_counter (cs_cache s) + 1\<rparr>, cs_drawing := xs @ ys\<rparr>)"
    (is "cache_inv config ?t")
proof -
  note d = cache_invD [OF inv] and le = counter_left_le [OF room]
  have "distinct (drawn_ids ?t)" using d(4) by (auto simp: drawn_ids_def drawing)
  moreover have "list_all (id_drawn (stc_counter (cs_cache s) + 1)) (drawn_ids ?t)"
    using id_drawn_mono [OF le d(5)] by (auto simp: drawn_ids_def drawing)
  ultimately show ?thesis by (intro cache_invI) (use d creation_ok_mono [OF le d(7)] in simp_all)
qed

lemma apart_insert: "A \<subseteq> insert a B \<Longrightarrow> C \<inter> B = {} \<Longrightarrow> a \<notin> C \<Longrightarrow> C \<inter> A = {}"
  by blast

lemma insertion_inv:
  assumes inv: "cache_inv config s" and pending: "cs_pending s = xs @ (now, i, e) # ys"
  shows "cache_inv config (s\<lparr>cs_cache := insert_entry now i e (cs_cache s), cs_pending := xs @ ys\<rparr>)"
proof -
  let ?c = "cs_cache s"
  note d = cache_invD [OF inv]
  have x: "(now, i, e) \<in> set (cs_pending s)" by (simp add: pending)
  note ins = insert_entry_store [OF d(2) pending_fresh [OF inv x], of now]
  have sub: "set (stc_store (insert_entry now i e ?c)) \<subseteq> insert (i, e) (set (stc_store ?c))" by (rule insert_entry_set)
  have "(i, e) \<in> snd ` set (cs_created s)" using x d(9) by force
  then have known: "set (stc_store (insert_entry now i e ?c)) \<subseteq> snd ` set (cs_created s)" using sub d(8) by blast
  have "(i, e) \<notin> snd ` set (xs @ ys)"
  proof
    assume "(i, e) \<in> snd ` set (xs @ ys)"
    then obtain y where y: "y \<in> set (xs @ ys)" "snd y = (i, e)" by force
    then have "y = (now, i, e)" by (intro same_creation [OF inv]) (use x d(9) pending in auto)
    then show False using y(1) d(10) pending by auto
  qed
  moreover have "snd ` set (xs @ ys) \<inter> set (stc_store ?c) = {}" using d(11) pending by auto
  ultimately have apart: "snd ` set (xs @ ys) \<inter> set (stc_store (insert_entry now i e ?c)) = {}"
    by (rule apart_insert [OF sub, rotated])
  have ids: "drawn_ids (s\<lparr>cs_cache := c, cs_pending := p\<rparr>) = drawn_ids s" for c p by (simp add: drawn_ids_def)
  have "set (xs @ ys) \<subseteq> set (cs_created s)" "distinct (xs @ ys)" using d(9,10) pending by auto
  then show ?thesis by (intro cache_invI) (use d(1,4-7) ins apart known in \<open>simp_all add: ids\<close>)
qed

lemma cache_step_inv:
  assumes "cache_step s t" "cache_inv config s"
  shows "cache_inv config t"
  using assms
proof (induction rule: cache_step.induct)
  case (cs_identity_failed time s r c)
  then show ?case using next_cache_id_result(2) [OF cs_identity_failed(1,2)] by simp
next
  case (cs_draw_failed s xs now i tool v ttl ys r c)
  then show ?case using draw_entry_result(1) [OF cs_draw_failed(3)] draw_failed_inv by simp
next
  case (cs_purge s now i)
  show ?case
    by (rule shrink_inv [OF cs_purge, of _ "\<lambda>x. \<not> (fst x = i \<and> (\<exists>e. map_of (stc_store (cs_cache s)) i = Some e \<and> tce_expires_at e \<le> now))"])
      (auto simp: purge_entry_def delete_filter split: option.splits)
next
  case (cs_delete s now tool i)
  have "cache_inv config (s\<lparr>cs_cache := (cs_cache s)\<lparr>stc_store := AList.delete i (stc_store (cs_cache s))\<rparr>\<rparr>)"
    by (rule shrink_inv [OF cs_delete delete_filter])
  then show ?case using cs_delete by (auto simp: cache_delete_def split: option.splits)
qed (blast intro: identity_inv draw_inv insertion_inv)+

lemma cache_reachable_inv: "cache_reachable config s \<Longrightarrow> cache_inv config s"
proof (induction rule: cache_reachable.induct)
  case cache_start
  show ?case by (rule cache_invI) (simp_all add: cache_new_def store_ok_def drawn_ids_def)
qed (rule cache_step_inv)

end
