(* ===== verification/Tool_Cache_Theorems.thy ===== *)
theory Tool_Cache_Theorems
  imports Tool_Cache_System
begin

text \<open>Properties of the tool cache, each with an instance.\<close>

section \<open>Refinement\<close>

lemma cache_counter_growth:
  assumes "unat (stc_counter c) + 2 < 2 ^ 64"
  shows "unat (stc_counter (snd (cache_call x c))) \<le> unat (stc_counter c) + 2"
proof (cases x)
  case (Create now time tool v ttl)
  have "unat (stc_counter c + 2) = unat (stc_counter c) + 2" using counter_steps(2) [OF assms] by (simp add: add.assoc)
  then show ?thesis using Create by (simp add: cache_create_def prepare_entry_eq [OF assms] Let_def)
qed (auto simp: cache_get_def cache_delete_def split: read_decision.splits option.splits)

lemma few_calls_admissible:
  assumes "unat (stc_counter c) + 2 * length xs < 2 ^ 64 - 1"
  shows "admissible counter_room cache_call xs c"
  using assms
proof (induction xs arbitrary: c)
  case (Cons x xs)
  then have room: "unat (stc_counter c) + 2 < 2 ^ 64" by simp
  then show ?case using cache_counter_growth [OF room, of x] Cons by (simp add: counter_room_def)
qed simp

text \<open>
  Property C11. The tool cache refines a bounded queue: for any sequence of fewer than \<open>2 ^ 63 - 1\<close>
  calls on a new cache, with any clock readings, every reply (identities, values, deletions, errors
  and panics) is the reply of the queue that appends new records, drops expired records and then the
  front when it is full, and forgets a record when it is read after its expiry or deleted by its tool.
\<close>

theorem cache_refines_queue:
  assumes "length calls < 2 ^ 63 - 1"
  shows "fst (run_ops cache_call calls (cache_new config)) =
    fst (run_ops fifo_call calls \<lparr>fc_queue = [], fc_config = config, fc_drawn = 1\<rparr>)"
proof -
  have "admissible counter_room cache_call calls (cache_new config)"
    by (rule few_calls_admissible) (use assms in \<open>simp add: cache_new_def\<close>)
  moreover have "cache_ok (cache_new config)" by (simp add: cache_ok_def cache_new_def store_ok_def)
  moreover have "cache_abs (cache_new config) = \<lparr>fc_queue = [], fc_config = config, fc_drawn = 1\<rparr>"
    by (simp add: cache_abs_def cache_new_def)
  ultimately show ?thesis using tc.run_simulates [of "cache_new config" calls] by simp
qed

definition demo_cache_config :: tool_cache_config where
  "demo_cache_config = \<lparr>tcc_max_entries = 1, tcc_default_ttl_secs = 5, tcc_max_ttl_secs = 5\<rparr>"

definition demo_calls :: "cache_op list" where
  "demo_calls = [Create 0 7000000 ''a'' (VBool True) None, Create 1 8000000 ''a'' VNull (Some 60),
     Get 2 ''a'' ''tc-7-1'', Get 2 ''a'' ''tc-8-3'', Get 2 ''b'' ''tc-8-3'', Get 5000000001 ''a'' ''tc-8-3'']"

lemma demo_numerals: "show_nat 7 = ''7''" "show_nat (Suc 0) = ''1''" "show_nat 8 = ''8''" "show_nat (Suc (Suc (Suc 0))) = ''3''"
  by code_simp+

theorem cache_refines_queue_witness:
  "fst (run_ops cache_call demo_calls (cache_new demo_cache_config)) =
     [Created (Ok ''tc-7-1''), Created (Ok ''tc-8-3''), Got None, Got (Some VNull), Got None, Got None]"
proof -
  have "length demo_calls < 2 ^ 63 - 1" by (simp add: demo_calls_def)
  from cache_refines_queue [OF this, of demo_cache_config] show ?thesis
    by (simp add: demo_calls_def demo_cache_config_def fifo_insert_def capacity_limit_def resolve_ttl_def instant_max_def nanos_per_sec_def
        nanos_per_milli_def demo_numerals fifo_remove_def Let_def)
qed

section \<open>Bounds and termination\<close>

text \<open>
  Property C40. Eviction ends and removes no more than it must: for every store with distinct keys and
  sequence numbers the loop returns, keeps the lesser of the store's size and the limit, and keeps
  exactly the most recently created records.
\<close>

theorem eviction_terminates:
  assumes "store_ok m"
  shows "length (enforce_capacity limit m) = min (length m) limit \<and>
    set (enforce_capacity limit m) \<subseteq> set m \<and>
    (\<forall>x \<in> set (enforce_capacity limit m). \<forall>y \<in> set m - set (enforce_capacity limit m). seq_of y < seq_of x)"
proof (intro conjI ballI)
  show "length (enforce_capacity limit m) = min (length m) limit" by (rule enforce_capacity_length [OF assms])
  show "set (enforce_capacity limit m) \<subseteq> set m" by (rule enforce_capacity_subset)
  fix x y assume x: "x \<in> set (enforce_capacity limit m)" and y: "y \<in> set m - set (enforce_capacity limit m)"
  let ?q = "by_creation m" and ?n = "length m - limit"
  have kept: "set (enforce_capacity limit m) = set (drop ?n ?q)"
    using enforce_capacity_queue [OF assms, of limit] by (metis by_creation_simps(1))
  have "set m = set (take ?n ?q) \<union> set (drop ?n ?q)" by (metis by_creation_simps(1) append_take_drop_id set_append)
  then have "y \<in> set (take ?n ?q)" "x \<in> set (drop ?n ?q)" using x y kept by auto
  moreover have "sorted_wrt (\<lambda>a b. seq_of a < seq_of b) (take ?n ?q @ drop ?n ?q)"
    using by_creation_strict [OF assms] by (simp add: sorted_wrt_map)
  ultimately show "seq_of y < seq_of x" unfolding sorted_wrt_append by blast
qed

theorem eviction_terminates_witness:
  "length (enforce_capacity 1
     [(''a'', \<lparr>tce_tool_name = ''t'', tce_value = VNull, tce_created_seq = 2, tce_expires_at = 9\<rparr>),
      (''b'', \<lparr>tce_tool_name = ''t'', tce_value = VNull, tce_created_seq = 4, tce_expires_at = 9\<rparr>)]) = 1"
  using eviction_terminates [of "[(''a'', \<lparr>tce_tool_name = ''t'', tce_value = VNull, tce_created_seq = 2, tce_expires_at = 9\<rparr>),
      (''b'', \<lparr>tce_tool_name = ''t'', tce_value = VNull, tce_created_seq = 4, tce_expires_at = 9\<rparr>)]" 1]
  by (simp add: store_ok_def)

section \<open>Concurrent use\<close>

text \<open>
  Property C21. Under every interleaving of concurrent creates, reads and deletes, where a create draws
  its identity, draws its sequence number and inserts in three steps of its own, the cache holds at
  most its configured number of records (at least one), and a value is only ever read under the
  identity and the tool name of the one create call that stored it, before its expiry, which is at
  most the configured maximum after that call. The runs are those in which the 64 bit counter does
  not wrap.
\<close>

theorem cache_isolated:
  assumes "cache_reachable config s"
  shows "length (stc_store (cs_cache s)) \<le> max (tcc_max_entries config) 1 \<and>
    (\<forall>v. fst (cache_get now tool i (cs_cache s)) = Some v \<longrightarrow>
       (\<exists>created e. filter (\<lambda>x. fst (snd x) = i) (cs_created s) = [(created, i, e)] \<and>
          tce_tool_name e = tool \<and> tce_value e = v \<and> now < tce_expires_at e \<and>
          tce_expires_at e \<le> created + max (tcc_max_ttl_secs config) 1 * nanos_per_sec))"
proof (intro conjI allI impI)
  note d = cache_invD [OF cache_reachable_inv [OF assms]]
  show "length (stc_store (cs_cache s)) \<le> max (tcc_max_entries config) 1" using d(3) by (simp add: capacity_limit_def)
  fix v assume "fst (cache_get now tool i (cs_cache s)) = Some v"
  then obtain e where e: "map_of (stc_store (cs_cache s)) i = Some e" "tce_tool_name e = tool" "tce_value e = v" "now < tce_expires_at e"
    by (auto simp: cache_get_def read_entry_def split: option.splits if_splits)
  then have "(i, e) \<in> snd ` set (cs_created s)" using d(8) map_of_SomeD [OF e(1)] by blast
  then obtain created where x: "(created, i, e) \<in> set (cs_created s)" by (auto simp: image_iff)
  have same: "y = (created, i, e)" if "y \<in> set (cs_created s)" "fst (snd y) = i" for y
    by (rule same_creation [OF cache_reachable_inv [OF assms] that(1) x]) (use that(2) in simp)
  have "filter (\<lambda>x. fst (snd x) = i) (cs_created s) = [(created, i, e)]"
  proof -
    have f: "distinct (filter (\<lambda>x. fst (snd x) = i) (cs_created s))" using d(6) by (simp add: distinct_map)
    have "set (filter (\<lambda>x. fst (snd x) = i) (cs_created s)) = {(created, i, e)}"
    proof (intro equalityI subsetI)
      show "y \<in> {(created, i, e)}" if "y \<in> set (filter (\<lambda>x. fst (snd x) = i) (cs_created s))" for y
        using same [of y] that by simp
    qed (use x in simp)
    then show ?thesis using f by (rule distinct_singletonD [rotated])
  qed
  moreover have "tce_expires_at e \<le> created + max (tcc_max_ttl_secs config) 1 * nanos_per_sec"
    using d(7) x by (auto simp: creation_ok_def list_all_iff)
  ultimately show "\<exists>created e. filter (\<lambda>x. fst (snd x) = i) (cs_created s) = [(created, i, e)] \<and>
          tce_tool_name e = tool \<and> tce_value e = v \<and> now < tce_expires_at e \<and>
          tce_expires_at e \<le> created + max (tcc_max_ttl_secs config) 1 * nanos_per_sec"
    using e by blast
qed

definition demo_entry :: "string \<Rightarrow> 64 word \<Rightarrow> tool_cache_entry" where
  "demo_entry tool n = \<lparr>tce_tool_name = tool, tce_value = VNull, tce_created_seq = n, tce_expires_at = 5000000000\<rparr>"

definition demo_cache :: "tool_cache_store \<Rightarrow> 64 word \<Rightarrow> shared_tool_cache" where
  "demo_cache m n = \<lparr>stc_store = m, stc_config = demo_cache_config, stc_counter = n\<rparr>"

lemma demo_draws:
  "next_cache_id 7000000 (demo_cache m 1) = (Ok ''tc-7-1'', demo_cache m 2)"
  "next_cache_id 7000000 (demo_cache m 2) = (Ok ''tc-7-2'', demo_cache m 3)"
  "draw_entry 0 i tool VNull None (demo_cache m 3) = (Ok (i, demo_entry tool 3), demo_cache m 4)"
  "draw_entry 0 i tool VNull None (demo_cache m 4) = (Ok (i, demo_entry tool 4), demo_cache m 5)"
proof -
  have k: "show_nat 7 = ''7''" "show_nat (Suc 0) = ''1''" "show_nat (Suc (Suc 0)) = ''2''" "show_nat 2 = ''2''" by code_simp+
  show "next_cache_id 7000000 (demo_cache m 1) = (Ok ''tc-7-1'', demo_cache m 2)"
    "next_cache_id 7000000 (demo_cache m 2) = (Ok ''tc-7-2'', demo_cache m 3)"
    using k by (simp_all add: next_cache_id_def system_time_to_cache_id_unix_millis_def demo_cache_def nanos_per_milli_def)
  show "draw_entry 0 i tool VNull None (demo_cache m 3) = (Ok (i, demo_entry tool 3), demo_cache m 4)"
    "draw_entry 0 i tool VNull None (demo_cache m 4) = (Ok (i, demo_entry tool 4), demo_cache m 5)"
    by (simp_all add: draw_entry_def instant_checked_add_def resolve_ttl_def demo_cache_def demo_cache_config_def demo_entry_def
        instant_max_def nanos_per_sec_def)
qed

text \<open>
  Two concurrent creates: the first draws its identity, the second draws its identity and its
  sequence number, and the first, which now has the lesser identity and the greater sequence number,
  inserts before the second.
\<close>

definition first_creation :: creation where
  "first_creation = (0, ''tc-7-1'', demo_entry ''a'' 4)"

definition second_creation :: creation where
  "second_creation = (0, ''tc-7-2'', demo_entry ''b'' 3)"

definition demo_race :: "64 word \<Rightarrow> tool_cache_store \<Rightarrow> drawing list \<Rightarrow> creation list \<Rightarrow> creation list \<Rightarrow> cache_system" where
  "demo_race n m drawing pending created =
     \<lparr>cs_cache = demo_cache m n, cs_drawing = drawing, cs_pending = pending, cs_created = created\<rparr>"

lemma demo_race_counter:
  "n < 9 \<Longrightarrow> counter_left \<lparr>cs_cache = demo_cache m n, cs_drawing = d, cs_pending = p, cs_created = cr\<rparr>"
  by (simp add: counter_left_def demo_cache_def word_less_nat_alt)

lemma demo_race_drawn:
  "cache_reachable demo_cache_config (demo_race 3 [] [(0, ''tc-7-2'', ''b'', VNull, None), (0, ''tc-7-1'', ''a'', VNull, None)] [] [])"
proof -
  have s0: "cache_reachable demo_cache_config (demo_race 1 [] [] [] [])"
    using cache_start [of demo_cache_config] by (simp add: cache_new_def demo_cache_def demo_race_def)
  have "cache_step (demo_race 1 [] [] [] []) (demo_race 2 [] [(0, ''tc-7-1'', ''a'', VNull, None)] [] [])" (is "cache_step _ ?s1")
    using cs_identity [of "demo_race 1 [] [] [] []" 7000000] demo_draws(1) by (simp add: demo_race_def demo_race_counter)
  from cache_next [OF s0 this] have s1: "cache_reachable demo_cache_config ?s1" .
  show ?thesis
    by (rule cache_next [OF s1]) (use cs_identity [of ?s1 7000000] demo_draws(2) in \<open>simp add: demo_race_def demo_race_counter\<close>)
qed

lemma demo_race_reachable:
  "cache_reachable demo_cache_config
     (demo_race 5 [(''tc-7-1'', demo_entry ''a'' 4)] [] [second_creation] [first_creation, second_creation])"
proof -
  have "cache_step (demo_race 3 [] [(0, ''tc-7-2'', ''b'', VNull, None), (0, ''tc-7-1'', ''a'', VNull, None)] [] [])
      (demo_race 4 [] [(0, ''tc-7-1'', ''a'', VNull, None)] [second_creation] [second_creation])" (is "cache_step ?s0 ?s1")
    using cs_draw [of ?s0 "[]"] demo_draws(3) by (simp add: demo_race_def demo_race_counter second_creation_def)
  from cache_next [OF demo_race_drawn this] have s1: "cache_reachable demo_cache_config ?s1" .
  have "cache_step ?s1 (demo_race 5 [] [] [first_creation, second_creation] [first_creation, second_creation])" (is "cache_step _ ?s2")
    using cs_draw [of ?s1 "[]"] demo_draws(4) by (simp add: demo_race_def demo_race_counter first_creation_def)
  from cache_next [OF s1 this] have s2: "cache_reachable demo_cache_config ?s2" .
  have "insert_entry 0 ''tc-7-1'' (demo_entry ''a'' 4) (demo_cache [] 5) = demo_cache [(''tc-7-1'', demo_entry ''a'' 4)] 5"
    by (simp add: insert_entry_def demo_cache_def demo_cache_config_def capacity_limit_def enforce_capacity.simps)
  then show ?thesis
    using cache_next [OF s2 cs_insert [of _ "[]"]] by (simp add: demo_race_def first_creation_def)
qed

theorem cache_isolated_witness:
  "\<exists>created e. filter (\<lambda>x. fst (snd x) = ''tc-7-1'')
       (cs_created (demo_race 5 [(''tc-7-1'', demo_entry ''a'' 4)] [] [second_creation] [first_creation, second_creation])) =
     [(created, ''tc-7-1'', e)] \<and> tce_tool_name e = ''a''"
proof -
  have "fst (cache_get 1 ''a'' ''tc-7-1''
      (cs_cache (demo_race 5 [(''tc-7-1'', demo_entry ''a'' 4)] [] [second_creation] [first_creation, second_creation]))) = Some VNull"
    by (simp add: cache_get_def read_entry_def demo_race_def demo_cache_def demo_entry_def)
  then show ?thesis using cache_isolated [OF demo_race_reachable, of 1 "''a''" "''tc-7-1''"] by blast
qed

text \<open>
  A create that loses the race for the lock to a younger one evicts its own record when the cache
  is full: it returns an identity under which nothing is stored.
\<close>

lemma create_can_lose_its_record:
  "\<exists>s t. cache_reachable demo_cache_config s \<and> cache_step s t \<and> second_creation \<in> set (cs_pending s) \<and>
     second_creation \<notin> set (cs_pending t) \<and> fst (cache_get 1 ''b'' ''tc-7-2'' (cs_cache t)) = None"
proof (intro exI conjI)
  let ?s = "demo_race 5 [(''tc-7-1'', demo_entry ''a'' 4)] [] [second_creation] [first_creation, second_creation]"
  let ?t = "?s\<lparr>cs_cache := insert_entry 0 ''tc-7-2'' (demo_entry ''b'' 3) (cs_cache ?s), cs_pending := [] @ []\<rparr>"
  show "cache_reachable demo_cache_config ?s" by (rule demo_race_reachable)
  show "cache_step ?s ?t" by (rule cs_insert) (simp add: demo_race_def second_creation_def)
  show "fst (cache_get 1 ''b'' ''tc-7-2'' (cs_cache ?t)) = None"
    by (simp add: demo_race_def demo_cache_def demo_cache_config_def insert_entry_def capacity_limit_def cleanup_expired_def demo_entry_def
        enforce_capacity.simps oldest_id_def cache_get_def read_entry_def)
qed (simp_all add: demo_race_def)

text \<open>A time to live that the configuration allows can make a create panic instead of returning an error.\<close>

lemma create_overflow_panics:
  assumes "0 \<le> time" "instant_max < now + resolve_ttl (stc_config c) ttl"
  shows "fst (cache_create now time tool v ttl c) = Panic ''overflow when adding duration to instant''"
  using assms by (simp add: cache_create_def prepare_entry_def draw_entry_def next_cache_id_def system_time_to_cache_id_unix_millis_def instant_checked_add_def)

section \<open>The process-wide cell\<close>

text \<open>Uses of the cell: configuring it, fetching the cache (which may install the default one) and calling it.\<close>

inductive cell_step :: "(tool_cache_config \<Rightarrow> string) \<Rightarrow> shared_tool_cache option \<Rightarrow> shared_tool_cache option \<Rightarrow> bool" for show_config where
  cell_configure: "seen = None \<or> seen = cell \<Longrightarrow> cell_step show_config cell (snd (configure_cell show_config seen cell config))"
| cell_fetch: "cell_step show_config cell (snd (cache_from_cell cell))"
| cell_call: "cell_step show_config (Some c) (Some (snd (cache_call x c)))"

lemma cache_call_config: "stc_config (snd (cache_call x c)) = stc_config c"
proof (cases x)
  case (Create now time tool v ttl)
  then show ?thesis
    by (auto simp: cache_create_def prepare_entry_def draw_entry_def next_cache_id_def split: outcome.splits option.splits)
qed (auto simp: cache_get_def cache_delete_def split: read_decision.splits option.splits)

lemma cell_step_config: "cell_step show_config cell cell' \<Longrightarrow> cell = Some c \<Longrightarrow> \<exists>c'. cell' = Some c' \<and> stc_config c' = stc_config c"
  by (induction rule: cell_step.induct) (auto simp: configure_cell_def cache_from_cell_def cache_call_config)

text \<open>
  The process-wide configuration is decided once: after the cell holds a cache, no call
  of any thread changes its configuration, and a call to configure the cell (which may have looked at
  it before another thread filled it) succeeds exactly if the cell then has the requested
  configuration, and otherwise reports the conflict and leaves the cell as it is.
\<close>

theorem cell_configured_once:
  assumes "(cell_step show_config)\<^sup>*\<^sup>* (Some c) cell" "seen = None \<or> seen = cell"
  shows "\<exists>c'. cell = Some c' \<and> stc_config c' = stc_config c \<and>
    snd (configure_cell show_config seen cell config) = cell \<and>
    (fst (configure_cell show_config seen cell config) = Ok () \<longleftrightarrow> config = stc_config c) \<and>
    (config \<noteq> stc_config c \<longrightarrow> is_panic (fst (configure_cell_legacy show_config seen cell config)))"
proof -
  have "\<exists>c'. cell = Some c' \<and> stc_config c' = stc_config c"
    using assms(1) by (induction rule: rtranclp_induct) (auto dest: cell_step_config)
  then show ?thesis
    using assms(2) by (auto simp: configure_cell_def configure_cell_legacy_def ensure_config_matches_def)
qed

end
