(* ===== verification/Capability_Entry.thy ===== *)
theory Capability_Entry
  imports Call_Control Action
begin

text \<open>
  One registered capability (\<^verbatim>\<open>CapabilityEntry\<close>, \<^verbatim>\<open>CapabilityAdmission\<close> and \<^verbatim>\<open>CapabilityPermit\<close> in
  \<^verbatim>\<open>runtime/embedded/capabilities/registry.rs\<close>). Entries are shared through \<^verbatim>\<open>Arc\<close> by the registry,
  by snapshots and by permits, and all of them share the runtime's admission counter: the arena
  holds that counter and every entry ever created, an entry being referred to by its position. A
  host callback is an address; its code is the host's. The two critical sections of \<^verbatim>\<open>close\<close> and of a
  permit's \<^verbatim>\<open>drop\<close>, between which the callback is dropped without a lock, are separate operations.
\<close>

section \<open>State\<close>

type_synonym native_ref = nat
type_synonym entry_ref = nat

record entry_state =
  es_accepting :: bool
  es_finalization_only :: bool
  es_running :: usize
  es_releasing :: bool
  es_native :: "native_ref option"

record capability_entry =
  en_id :: string
  en_descriptor :: capability_descriptor
  en_input :: json_contract
  en_output :: json_contract
  en_state :: "entry_state mutex"

record capability_arena =
  ca_limit :: usize
  ca_running :: "usize mutex"
  ca_entries :: "capability_entry list"

definition entry_poisoned :: embedded_error where
  "entry_poisoned = error_new Internal ''capability state is poisoned''"

definition entry_closed :: embedded_error where
  "entry_closed = error_new Closed ''capability registration is closed''"

text \<open>The state of the entry at a reference, and its replacement.\<close>

definition entry_at :: "capability_arena \<Rightarrow> entry_ref \<Rightarrow> capability_entry" where
  "entry_at a r = ca_entries a ! r"

abbreviation entry_guard :: "capability_arena \<Rightarrow> entry_ref \<Rightarrow> entry_state" where
  "entry_guard a r \<equiv> guarded (en_state (entry_at a r))"

definition set_entry_state :: "entry_ref \<Rightarrow> entry_state mutex \<Rightarrow> capability_arena \<Rightarrow> capability_arena" where
  "set_entry_state r m a = a\<lparr>ca_entries := (ca_entries a)[r := (entry_at a r)\<lparr>en_state := m\<rparr>]\<rparr>"

section \<open>Gate and status\<close>

definition entry_refuses :: "entry_state \<Rightarrow> bool \<Rightarrow> bool" where
  "entry_refuses st finalization = (\<not> es_accepting st \<or> es_finalization_only st \<and> \<not> finalization)"

text \<open>The guard of \<^verbatim>\<open>with_dispatch_gate\<close>; the transition it protects follows under the same locks.\<close>

definition dispatch_gate :: "entry_ref \<Rightarrow> bool \<Rightarrow> (capability_arena, unit) action" where
  "dispatch_gate r finalization =
     try_read (\<lambda>a.
       if poisoned (en_state (entry_at a r)) then Err entry_poisoned
       else if entry_refuses (entry_guard a r) finalization then Err entry_closed
       else Ok ())"

record registration_status =
  st_registration_id :: string
  st_name :: string
  st_accepting :: bool
  st_in_flight :: usize
  st_drained :: bool

definition is_drained :: "entry_state \<Rightarrow> bool" where
  "is_drained st \<longleftrightarrow> \<not> es_accepting st \<and> es_running st = 0 \<and> es_native st = None \<and> \<not> es_releasing st"

definition entry_status :: "capability_arena \<Rightarrow> entry_ref \<Rightarrow> registration_status embedded_result" where
  "entry_status a r =
     (if poisoned (en_state (entry_at a r)) then Err entry_poisoned
      else Ok \<lparr>st_registration_id = en_id (entry_at a r), st_name = cd_name (en_descriptor (entry_at a r)),
               st_accepting = (es_accepting (entry_guard a r) \<and> \<not> es_finalization_only (entry_guard a r)),
               st_in_flight = es_running (entry_guard a r), st_drained = is_drained (entry_guard a r)\<rparr>)"

section \<open>Closing\<close>

text \<open>The callback is taken out when nothing runs any more; \<open>None\<close> means there is nothing to release.\<close>

definition take_callback :: "entry_state \<Rightarrow> native_ref option \<times> entry_state" where
  "take_callback st =
     (if \<not> es_accepting st \<and> es_running st = 0 \<and> es_native st \<noteq> None
      then (es_native st, st\<lparr>es_releasing := True, es_native := None\<rparr>) else (None, st))"

definition close_entry_locked :: "entry_ref \<Rightarrow> (capability_arena, native_ref option) action" where
  "close_entry_locked r a =
     (let st = (entry_guard a r)\<lparr>es_accepting := False\<rparr> in
      (Ok (fst (take_callback st)), set_entry_state r (mutex_recover (en_state (entry_at a r)) (\<lambda>_. snd (take_callback st))) a))"

definition callback_released :: "entry_ref \<Rightarrow> (capability_arena, unit) action" where
  "callback_released r =
     write_state (\<lambda>a. set_entry_state r (mutex_recover (en_state (entry_at a r)) (\<lambda>st. st\<lparr>es_releasing := False\<rparr>)) a)"

definition release_taken :: "entry_ref \<Rightarrow> native_ref option \<Rightarrow> (capability_arena, unit) action" where
  "release_taken r taken = (if taken \<noteq> None then callback_released r else ret ())"

definition entry_close :: "entry_ref \<Rightarrow> (capability_arena, unit) action" where
  "entry_close r = bind_action (close_entry_locked r) (release_taken r)"

section \<open>Admission and its permits\<close>

definition entry_admit :: "entry_ref \<Rightarrow> bool \<Rightarrow> (capability_arena, native_ref option) action" where
  "entry_admit r finalization a =
     (if poisoned (ca_running a) then (Err (error_new Internal ''capability admission is poisoned''), a)
      else if poisoned (en_state (entry_at a r)) then (Err entry_poisoned, a)
      else let st = entry_guard a r; running = guarded (ca_running a) in
        if entry_refuses st finalization then (Err entry_closed, a)
        else if running \<ge> ca_limit a \<or> es_running st \<ge> cd_max_concurrent (en_descriptor (entry_at a r))
        then (Err (error_new CapacityExceeded ''capability execution capacity reached''), a)
        else (Ok (es_native st),
              set_entry_state r (mutex_new (st\<lparr>es_running := es_running st + 1\<rparr>)) (a\<lparr>ca_running := mutex_new (running + 1)\<rparr>)))"

text \<open>
  A permit is the reference of its entry. Its destructor subtracts from the two counters; a counter
  at zero would panic with both locks held.
\<close>

definition drop_permit_locked :: "entry_ref \<Rightarrow> (capability_arena, native_ref option) action" where
  "drop_permit_locked r a =
     (let st = entry_guard a r; running = guarded (ca_running a); m = en_state (entry_at a r) in
      case and_then (expect ''attempt to subtract with overflow'' (checked_sub running 1)) (\<lambda>n.
           and_then (expect ''attempt to subtract with overflow'' (checked_sub (es_running st) 1)) (\<lambda>k. Ok (n, k))) of
        Ok (n, k) \<Rightarrow>
          (case take_callback (st\<lparr>es_running := k\<rparr>) of (taken, st') \<Rightarrow>
            (Ok taken, set_entry_state r (mutex_recover m (\<lambda>_. st')) (a\<lparr>ca_running := mutex_recover (ca_running a) (\<lambda>_. n)\<rparr>)))
      | Err e \<Rightarrow> (Err e, a)
      | Panic p \<Rightarrow>
          (Panic p, set_entry_state r (m\<lparr>poisoned := True\<rparr>)
            (a\<lparr>ca_running := \<lparr>guarded = (if running = 0 then 0 else running - 1), poisoned = True\<rparr>\<rparr>)))"

definition capability_permit_drop :: "entry_ref \<Rightarrow> (capability_arena, unit) action" where
  "capability_permit_drop r = bind_action (drop_permit_locked r) (release_taken r)"

section \<open>Outcomes\<close>

record capability_outcome =
  co_result :: "json_value embedded_result"
  co_effects :: effect_state

text \<open>
  \<open>ser_value\<close> and \<open>ser_error\<close> are the serializations of a value and of an error; the second
  replacement bounds an error text that does not fit its own limit.
\<close>

definition validate_outcome ::
  "schema_library \<Rightarrow> (json_value \<Rightarrow> serialization) \<Rightarrow> (embedded_error \<Rightarrow> serialization) \<Rightarrow> capability_entry \<Rightarrow>
   capability_outcome \<Rightarrow> capability_outcome" where
  "validate_outcome js ser_value ser_error e outcome =
     (let limit = cd_max_output_bytes (en_descriptor e);
          validation = (case co_result outcome of
              Ok v \<Rightarrow> and_then (json_size (ser_value v) limit) (\<lambda>_. contract_validate js (en_output e) v)
            | Err x \<Rightarrow> and_then (json_size (ser_error x) limit) (\<lambda>_. Ok ())
            | Panic p \<Rightarrow> Panic p);
          checked = (case validation of Err x \<Rightarrow> outcome\<lparr>co_result := Err x\<rparr> | _ \<Rightarrow> outcome)
      in case co_result checked of
           Err x \<Rightarrow> if is_ok (json_size (ser_error x) limit) then checked
                    else checked\<lparr>co_result := Err (x\<lparr>err_message := ''host capability result rejected''\<rparr>)\<rparr>
         | _ \<Rightarrow> checked)"

end
