(* ===== verification/Capability_Registry.thy ===== *)
theory Capability_Registry
  imports Capability_Entry
begin

text \<open>
  The capability registry (\<^verbatim>\<open>CapabilityRegistry\<close> in \<^verbatim>\<open>runtime/embedded/capabilities/registry.rs\<close>):
  batches of registrations, the active names, removal and shutdown. The registry is modelled
  together with the arena its entries live in; what it asks of the request broker is composed in
  the theory of the broker.
\<close>

section \<open>State\<close>

record registry_state =
  rg_closing :: bool
  rg_sequence :: u64
  rg_active :: "(string, string) btree"
  rg_entries :: "(string, entry_ref) btree"

record capability_registry =
  cr_broker :: nat
  cr_runtime_id :: string
  cr_config :: embedded_runtime_config
  cr_state :: "registry_state mutex"
  cr_arena :: capability_arena

record capability_registration_request =
  rr_descriptor :: capability_descriptor
  rr_native :: "native_ref option"

record capability_snapshot =
  snap_broker :: nat
  snap_runtime_id :: string
  snap_revision :: u64
  snap_entries :: "(string, entry_ref) btree"

definition capability_registry_poisoned :: embedded_error where
  "capability_registry_poisoned = error_new Internal ''capability registry is poisoned''"

definition capability_not_found :: embedded_error where
  "capability_not_found = error_new NotFound ''capability identity is unknown or expired''"

definition registry_closed :: embedded_error where
  "registry_closed = error_new Closed ''capability registry is closed''"

text \<open>One critical section on the registry state that may also create entries.\<close>

definition with_registry ::
  "capability_registry \<Rightarrow> (registry_state \<times> capability_arena \<Rightarrow> 'a embedded_result \<times> registry_state \<times> capability_arena) \<Rightarrow>
   'a embedded_result \<times> capability_registry" where
  "with_registry g body =
     (if poisoned (cr_state g) then (Err capability_registry_poisoned, g)
      else case body (guarded (cr_state g), cr_arena g) of
        (r, st, a) \<Rightarrow> (r, g\<lparr>cr_state := \<lparr>guarded = st, poisoned = is_panic r\<rparr>, cr_arena := a\<rparr>))"

definition on_arena :: "(capability_arena, 'a) action \<Rightarrow> (capability_registry, 'a) action" where
  "on_arena = lift_action cr_arena (\<lambda>a g. g\<lparr>cr_arena := a\<rparr>)"

section \<open>Creation\<close>

definition capability_registry_new :: "nat \<Rightarrow> string \<Rightarrow> embedded_runtime_config \<Rightarrow> capability_registry embedded_result" where
  "capability_registry_new broker runtime_id config =
     and_then (runtime_config_validate config) (\<lambda>_.
       if bad_name runtime_id then Err (error_invalid ''runtime identity must be nonempty'')
       else Ok \<lparr>cr_broker = broker, cr_runtime_id = runtime_id, cr_config = config,
                cr_state = mutex_new \<lparr>rg_closing = False, rg_sequence = 0, rg_active = [], rg_entries = []\<rparr>,
                cr_arena = \<lparr>ca_limit = max_host_requests config, ca_running = mutex_new 0, ca_entries = []\<rparr>\<rparr>)"

definition validate_snapshot :: "capability_registry \<Rightarrow> capability_snapshot \<Rightarrow> unit embedded_result" where
  "validate_snapshot g snapshot =
     (if cr_broker g \<noteq> snap_broker snapshot
      then Err (error_new PermissionDenied ''module capability binding belongs to another registry'')
      else Ok ())"

section \<open>Registration\<close>

text \<open>Requests are compiled in order; each compilation reads the clock once.\<close>

type_synonym prepared_registration = "capability_registration_request \<times> json_contract \<times> json_contract"

fun prepare_batch ::
  "schema_library \<Rightarrow> (string \<Rightarrow> bool) \<Rightarrow> (nat \<Rightarrow> instant) \<Rightarrow> embedded_runtime_config \<Rightarrow>
   capability_registration_request list \<Rightarrow> prepared_registration list embedded_result" where
  "prepare_batch js is_semver clk config [] = Ok []"
| "prepare_batch js is_semver clk config (q # qs) =
     (if (cd_execution (rr_descriptor q) = Native) \<noteq> (rr_native q \<noteq> None)
      then Err (error_invalid ''capability callback does not match its execution transport'')
      else
        and_then (descriptor_compile is_semver (contract_compile js) (clk 0) config (rr_descriptor q)) (\<lambda>contracts.
        and_then (prepare_batch js is_semver (\<lambda>i. clk (Suc i)) config qs) (\<lambda>rest.
        Ok ((q, contracts) # rest))))"

fun names_free :: "(string, string) btree \<Rightarrow> string list \<Rightarrow> string list \<Rightarrow> bool" where
  "names_free active seen [] = True"
| "names_free active seen (n # ns) =
     (if bt_contains active n \<or> n \<in> set seen then False else names_free active (n # seen) ns)"

definition new_entry :: "string \<Rightarrow> prepared_registration \<Rightarrow> capability_entry" where
  "new_entry ident p =
     (case p of (q, input, output) \<Rightarrow>
       \<lparr>en_id = ident, en_descriptor = rr_descriptor q, en_input = input, en_output = output,
        en_state = mutex_new \<lparr>es_accepting = True, es_finalization_only = False, es_running = 0,
          es_releasing = False, es_native = rr_native q\<rparr>\<rparr>)"

fun register_all ::
  "string \<Rightarrow> prepared_registration list \<Rightarrow> registry_state \<times> capability_arena \<Rightarrow> string list \<times> registry_state \<times> capability_arena" where
  "register_all runtime_id [] (st, a) = ([], st, a)"
| "register_all runtime_id (p # ps) (st, a) =
     (let sequence = rg_sequence st + 1;
          ident = identity_render CapabilityIdentity runtime_id sequence;
          st' = st\<lparr>rg_sequence := sequence,
                   rg_active := bt_insert (cd_name (rr_descriptor (fst p))) ident (rg_active st),
                   rg_entries := bt_insert ident (length (ca_entries a)) (rg_entries st)\<rparr>;
          a' = a\<lparr>ca_entries := ca_entries a @ [new_entry ident p]\<rparr>
      in case register_all runtime_id ps (st', a') of (ids, s) \<Rightarrow> (ident # ids, s))"

definition register_check ::
  "embedded_runtime_config \<Rightarrow> registry_state \<Rightarrow> prepared_registration list \<Rightarrow> unit embedded_result" where
  "register_check config st prepared =
     (if rg_closing st then Err registry_closed
      else if length prepared > saturating_sub (max_registered_capabilities config) (length (rg_entries st))
      then Err (error_new CapacityExceeded ''capability registration capacity reached'')
      else if \<not> names_free (rg_active st) [] (map (\<lambda>p. cd_name (rr_descriptor (fst p))) prepared)
      then Err (error_new Busy ''capability name is already registered'')
      else and_then (ok_or (error_new Internal ''capability identity exhausted'')
        (checked_add (rg_sequence st) (length prepared))) (\<lambda>_. Ok ()))"

definition registry_register ::
  "schema_library \<Rightarrow> (string \<Rightarrow> bool) \<Rightarrow> (nat \<Rightarrow> instant) \<Rightarrow> capability_registration_request list \<Rightarrow>
   (capability_registry, string list) action" where
  "registry_register js is_semver clk requests g =
     (if requests = [] then (Err (error_invalid ''capability registration batch is empty''), g)
      else if length requests > max_registered_capabilities (cr_config g)
      then (Err (error_new CapacityExceeded ''capability registration batch exceeds capacity''), g)
      else case prepare_batch js is_semver clk (cr_config g) requests of
        Err e \<Rightarrow> (Err e, g)
      | Panic p \<Rightarrow> (Panic p, g)
      | Ok prepared \<Rightarrow>
          with_registry g (\<lambda>s. commit (register_check (cr_config g) (fst s) prepared) s
            (\<lambda>_. register_all (cr_runtime_id g) prepared s)))"

section \<open>Snapshots and status\<close>

fun snapshot_entries :: "(string, entry_ref) btree \<Rightarrow> (string, string) btree \<Rightarrow> (string, entry_ref) btree embedded_result" where
  "snapshot_entries entries [] = Ok []"
| "snapshot_entries entries ((name, ident) # active) =
     and_then (expect ''active registration exists'' (bt_get entries ident)) (\<lambda>r.
     and_then (snapshot_entries entries active) (\<lambda>rest. Ok ((name, r) # rest)))"

definition registry_snapshot :: "(capability_registry, capability_snapshot) action" where
  "registry_snapshot g =
     with_registry g (\<lambda>s. commit
       (if rg_closing (fst s) then Err registry_closed
        else snapshot_entries (rg_entries (fst s)) (rg_active (fst s))) s
       (\<lambda>es. (\<lparr>snap_broker = cr_broker g, snap_runtime_id = cr_runtime_id g, snap_revision = rg_sequence (fst s), snap_entries = es\<rparr>, s)))"

definition registry_status :: "capability_registry \<Rightarrow> string \<Rightarrow> registration_status embedded_result" where
  "registry_status g ident =
     (if poisoned (cr_state g) then Err capability_registry_poisoned
      else and_then (ok_or capability_not_found (bt_get (rg_entries (guarded (cr_state g))) ident)) (entry_status (cr_arena g)))"

section \<open>Removal and shutdown\<close>

text \<open>The critical section of \<^verbatim>\<open>unregister\<close>; the caller then closes the entry it returns.\<close>

definition unregister_check :: "registry_state \<Rightarrow> capability_arena \<Rightarrow> string \<Rightarrow> (entry_ref \<times> u64 option) embedded_result" where
  "unregister_check st a ident =
     and_then (ok_or capability_not_found (bt_get (rg_entries st) ident)) (\<lambda>r.
       if bt_get (rg_active st) (cd_name (en_descriptor (entry_at a r))) = Some ident
       then and_then (ok_or (error_new Internal ''capability identity exhausted'') (checked_add (rg_sequence st) 1)) (\<lambda>revision.
            Ok (r, Some revision))
       else Ok (r, None))"

definition unregister_locked :: "string \<Rightarrow> (capability_registry, entry_ref) action" where
  "unregister_locked ident g =
     with_registry g (\<lambda>(st, a). commit (unregister_check st a ident) (st, a)
       (\<lambda>(r, revision). (r, (case revision of
          None \<Rightarrow> st
        | Some v \<Rightarrow> st\<lparr>rg_active := bt_remove (cd_name (en_descriptor (entry_at a r))) (rg_active st), rg_sequence := v\<rparr>), a)))"

text \<open>The section \<^verbatim>\<open>begin_shutdown\<close> and \<^verbatim>\<open>close_and_poll\<close> start with: the entries to visit, in key order.\<close>

definition close_registry_locked :: "(capability_registry, entry_ref list) action" where
  "close_registry_locked g =
     with_registry g (\<lambda>(st, a). (Ok (bt_values (rg_entries st)), st\<lparr>rg_closing := True, rg_active := []\<rparr>, a))"

definition restrict_to_finalization :: "entry_ref \<Rightarrow> (capability_arena, unit) action" where
  "restrict_to_finalization r =
     write_state (\<lambda>a. set_entry_state r (mutex_recover (en_state (entry_at a r)) (\<lambda>st. st\<lparr>es_finalization_only := True\<rparr>)) a)"

fun for_each :: "('x \<Rightarrow> ('s, unit) action) \<Rightarrow> 'x list \<Rightarrow> ('s, unit) action" where
  "for_each f [] = ret ()"
| "for_each f (x # xs) = bind_action (f x) (\<lambda>_. for_each f xs)"

definition begin_shutdown :: "(capability_registry, unit) action" where
  "begin_shutdown = bind_action close_registry_locked (for_each (\<lambda>r. on_arena (restrict_to_finalization r)))"

definition forget_check :: "registry_state \<Rightarrow> capability_arena \<Rightarrow> string \<Rightarrow> unit embedded_result" where
  "forget_check st a ident =
     and_then (ok_or capability_not_found (bt_get (rg_entries st) ident)) (\<lambda>r.
     and_then (entry_status a r) (\<lambda>status.
       if \<not> st_drained status then Err (error_new Busy ''capability registration is not drained'') else Ok ()))"

definition capability_forget :: "string \<Rightarrow> (capability_registry, unit) action" where
  "capability_forget ident g =
     with_registry g (\<lambda>(st, a). commit (forget_check st a ident) (st, a)
       (\<lambda>_. ((), st\<lparr>rg_entries := bt_remove ident (rg_entries st)\<rparr>, a)))"

section \<open>Reading a snapshot\<close>

definition snapshot_revision :: "capability_snapshot \<Rightarrow> string" where
  "snapshot_revision s = snap_runtime_id s @ '':snapshot:'' @ show_nat (snap_revision s)"

definition snapshot_has :: "capability_arena \<Rightarrow> capability_snapshot \<Rightarrow> string \<Rightarrow> capability_permissions \<Rightarrow> bool embedded_result" where
  "snapshot_has a s name permissions =
     (case bt_get (snap_entries s) name of
        None \<Rightarrow> Ok False
      | Some r \<Rightarrow>
          (case permissions_require permissions (cd_permissions (en_descriptor (entry_at a r))) of
             Ok _ \<Rightarrow> and_then (entry_status a r) (\<lambda>status. Ok (st_accepting status))
           | Err e \<Rightarrow> if err_code e = PermissionDenied then Ok False else Err e
           | Panic p \<Rightarrow> Panic p))"

fun snapshot_list_entries :: "capability_arena \<Rightarrow> entry_ref list \<Rightarrow> capability_permissions \<Rightarrow> capability_descriptor list embedded_result" where
  "snapshot_list_entries a [] permissions = Ok []"
| "snapshot_list_entries a (r # rs) permissions =
     (case permissions_require permissions (cd_permissions (en_descriptor (entry_at a r))) of
        Ok _ \<Rightarrow>
          and_then (entry_status a r) (\<lambda>status.
          and_then (snapshot_list_entries a rs permissions) (\<lambda>rest.
          Ok (if st_accepting status then en_descriptor (entry_at a r) # rest else rest)))
      | Err e \<Rightarrow> if err_code e = PermissionDenied then snapshot_list_entries a rs permissions else Err e
      | Panic p \<Rightarrow> Panic p)"

definition snapshot_list :: "capability_arena \<Rightarrow> capability_snapshot \<Rightarrow> capability_permissions \<Rightarrow> capability_descriptor list embedded_result" where
  "snapshot_list a s permissions = snapshot_list_entries a (bt_values (snap_entries s)) permissions"

end
