(* ===== verification/Host_Request_Broker.thy ===== *)
theory Host_Request_Broker
  imports Capability_Registry
begin

text \<open>
  The broker of queued capability calls (\<^verbatim>\<open>HostRequestBroker\<close> in
  \<^verbatim>\<open>runtime/embedded/capabilities/broker.rs\<close> and \<^verbatim>\<open>broker/completion.rs\<close>). A request is admitted,
  delivered to the host once, completed once and read by the handle of its caller. Every function is
  written as the critical sections it takes, in order; \<open>capability_host\<close> holds what the sections
  share: the registry, the broker, and the call controls, effect journals and permission grants
  that requests refer to through \<^verbatim>\<open>Arc\<close>.

  Parameters: \<open>env\<close> holds the serializations \<^verbatim>\<open>serde_json\<close> writes and the schema library; \<open>clk i\<close> is
  the \<open>i\<close>-th clock reading of a section; the answers of a persistent operation to a start or an
  outcome checkpoint are arbitrary values, because the operation settles them with its journal.
\<close>

section \<open>State\<close>

type_synonym control_ref = nat
type_synonym permissions_ref = nat
type_synonym effect_attempt = "(ledger_ref \<times> u64) option"

record host_env =
  env_schemas :: schema_library
  env_value :: "json_value \<Rightarrow> serialization"
  env_error :: "embedded_error \<Rightarrow> serialization"
  env_effect :: "host_effect_record \<Rightarrow> serialization"

record capability_invocation =
  iv_effect_id :: "string option"
  iv_caller :: capability_caller
  iv_arguments :: json_value
  iv_control :: control_ref
  iv_deadline :: instant
  iv_permissions :: permissions_ref
  iv_required :: "string list"

record prepared_capability =
  pp_finalization :: bool
  pp_entry :: entry_ref
  pp_invocation :: capability_invocation
  pp_native :: "native_ref option"
  pp_effect :: effect_attempt

record host_request =
  hr_effect_id :: "string option"
  hr_request_id :: string
  hr_registration_id :: string
  hr_name :: string
  hr_version :: string
  hr_caller :: capability_caller
  hr_arguments :: json_value
  hr_remaining_ms :: u64

datatype host_request_phase = RqQueued | RqDispatched | RqCompleting | RqCompleted

record host_request_status =
  hs_request_id :: string
  hs_phase :: host_request_phase
  hs_cancellation :: "embedded_error option"

record request_record =
  rq_pending_outcome :: "capability_outcome option"
  rq_request :: host_request
  rq_prepared :: "prepared_capability option"
  rq_outcome :: "capability_outcome option"
  rq_phase :: host_request_phase
  rq_cancellation :: "embedded_error option"
  rq_waiter_alive :: bool
  rq_bytes :: usize

record broker_state =
  bk_sequence :: u64
  bk_closing :: bool
  bk_ready :: "string list"
  bk_records :: "(string, request_record) btree"
  bk_tombstones :: "string list"
  bk_bytes :: usize

record host_request_broker =
  hb_runtime_id :: string
  hb_max_records :: usize
  hb_max_bytes :: usize
  hb_state :: "broker_state mutex"

record capability_host =
  ho_registry :: capability_registry
  ho_broker :: host_request_broker
  ho_controls :: "control_ref \<Rightarrow> call_control"
  ho_ledgers :: ledger_store
  ho_permissions :: "permissions_ref \<Rightarrow> capability_permissions"

definition broker_poisoned :: embedded_error where
  "broker_poisoned = error_new Internal ''host request state is inconsistent''"

definition broker_capacity :: embedded_error where
  "broker_capacity = error_new CapacityExceeded ''host request capacity reached''"

definition broker_closed :: embedded_error where
  "broker_closed = error_new Closed ''host request admission is closed''"

definition already_completed :: embedded_error where
  "already_completed = error_new AlreadyCompleted ''host request already has a completion owner''"

definition unknown_request :: "broker_state \<Rightarrow> string \<Rightarrow> embedded_error" where
  "unknown_request st ident =
     (if ident \<in> set (bk_tombstones st) then already_completed
      else error_new NotFound ''host request identity is unknown or expired'')"

section \<open>Sections on the broker\<close>

abbreviation broker_guard :: "capability_host \<Rightarrow> broker_state" where
  "broker_guard h \<equiv> guarded (hb_state (ho_broker h))"

definition put_broker :: "broker_state mutex \<Rightarrow> capability_host \<Rightarrow> capability_host" where
  "put_broker m h = h\<lparr>ho_broker := (ho_broker h)\<lparr>hb_state := m\<rparr>\<rparr>"

text \<open>
  A section under the broker's lock: a panic poisons it. A poisoned lock is an error in \<open>locked\<close> and is
  taken over by the destructors (\<open>recovering\<close>).
\<close>

definition recovering :: "(capability_host, 'a) action \<Rightarrow> (capability_host, 'a) action" where
  "recovering m h =
     (case m h of
        (Panic p, h') \<Rightarrow> (Panic p, put_broker ((hb_state (ho_broker h'))\<lparr>poisoned := True\<rparr>) h')
      | r \<Rightarrow> r)"

definition locked :: "(capability_host, 'a) action \<Rightarrow> (capability_host, 'a) action" where
  "locked m h = (if poisoned (hb_state (ho_broker h)) then (Err broker_poisoned, h) else recovering m h)"

definition read_broker :: "(broker_state \<Rightarrow> 'a) \<Rightarrow> (capability_host, 'a) action" where
  "read_broker f = read_state (\<lambda>h. f (broker_guard h))"

definition write_broker :: "(broker_state \<Rightarrow> broker_state) \<Rightarrow> (capability_host, unit) action" where
  "write_broker f = write_state (\<lambda>h. put_broker (mutex_recover (hb_state (ho_broker h)) f) h)"

definition update_request :: "string \<Rightarrow> (request_record \<Rightarrow> request_record) \<Rightarrow> (capability_host, unit) action" where
  "update_request ident f =
     write_broker (\<lambda>st. case bt_get (bk_records st) ident of
       None \<Rightarrow> st
     | Some r \<Rightarrow> st\<lparr>bk_records := bt_insert ident (f r) (bk_records st)\<rparr>)"

definition on_registry :: "(capability_registry, 'a) action \<Rightarrow> (capability_host, 'a) action" where
  "on_registry = lift_action ho_registry (\<lambda>g h. h\<lparr>ho_registry := g\<rparr>)"

text \<open>An operation of an effect attempt on the journal it belongs to; an untracked attempt has none.\<close>

definition on_attempt ::
  "(effect_ledger \<Rightarrow> u64 option \<Rightarrow> 'a embedded_result \<times> effect_ledger) \<Rightarrow> 'a \<Rightarrow> effect_attempt \<Rightarrow> (capability_host, 'a) action" where
  "on_attempt f d attempt h =
     (case attempt of
        None \<Rightarrow> (Ok d, h)
      | Some (l, k) \<Rightarrow> (case f (ho_ledgers h l) (Some k) of (r, l') \<Rightarrow> (r, h\<lparr>ho_ledgers := (ho_ledgers h)(l := l')\<rparr>)))"

definition bind_request :: "host_env \<Rightarrow> effect_attempt \<Rightarrow> string \<Rightarrow> (capability_host, unit) action" where
  "bind_request env attempt ident = on_attempt (\<lambda>l k. attempt_bind_request (env_effect env) l k ident) () attempt"

definition begin_effect :: "effect_attempt \<Rightarrow> (capability_host, unit) action" where
  "begin_effect attempt = on_attempt attempt_begin () attempt"

definition observe_effect :: "effect_attempt \<Rightarrow> effect_state \<Rightarrow> (capability_host, unit) action" where
  "observe_effect attempt effects = on_attempt (\<lambda>l k. (Ok (), attempt_observe l k effects)) () attempt"

definition drop_effect :: "effect_attempt \<Rightarrow> (capability_host, unit) action" where
  "drop_effect attempt = on_attempt (\<lambda>l k. (Ok (), attempt_drop l k)) () attempt"

text \<open>
  \<^verbatim>\<open>checkpoint_start\<close> and \<^verbatim>\<open>poll_outcome\<close>: only an attempt of a persistent operation asks it.
\<close>

definition checkpoint_answer :: "capability_host \<Rightarrow> effect_attempt \<Rightarrow> bool embedded_result \<Rightarrow> bool embedded_result" where
  "checkpoint_answer h attempt answer =
     (case attempt of None \<Rightarrow> Ok True | Some (l, k) \<Rightarrow> if led_persistent (ho_ledgers h l) then answer else Ok True)"

section \<open>Prepared calls\<close>

definition authorize :: "instant \<Rightarrow> instant \<Rightarrow> capability_invocation \<Rightarrow> capability_host \<Rightarrow> unit embedded_result" where
  "authorize now later i h =
     and_then (budget_check now later \<lparr>bud_control = ho_controls h (iv_control i), bud_deadline = iv_deadline i\<rparr>) (\<lambda>_.
       permissions_require (ho_permissions h (iv_permissions i)) (iv_required i))"

definition prepared_gate :: "prepared_capability \<Rightarrow> (capability_host, unit) action" where
  "prepared_gate p = on_registry (on_arena (dispatch_gate (pp_entry p) (pp_finalization p)))"

text \<open>Dropping a prepared call: the permit, then the effect attempt, in field order.\<close>

definition drop_prepared :: "prepared_capability \<Rightarrow> (capability_host, unit) action" where
  "drop_prepared p =
     bind_action (on_registry (on_arena (capability_permit_drop (pp_entry p)))) (\<lambda>_. drop_effect (pp_effect p))"

definition prepared_entry :: "capability_host \<Rightarrow> prepared_capability \<Rightarrow> capability_entry" where
  "prepared_entry h p = entry_at (cr_arena (ho_registry h)) (pp_entry p)"

text \<open>\<open>on_error c m\<close> runs the destructors \<open>c\<close> when \<open>m\<close> returns early.\<close>

definition on_error :: "('s, unit) action \<Rightarrow> ('s, 'a) action \<Rightarrow> ('s, 'a) action" where
  "on_error c m s = (case m s of (Ok x, t) \<Rightarrow> (Ok x, t) | (r, t) \<Rightarrow> (r, snd (c t)))"

section \<open>Submission\<close>

definition broker_new :: "string \<Rightarrow> embedded_runtime_config \<Rightarrow> host_request_broker" where
  "broker_new runtime_id config =
     \<lparr>hb_runtime_id = runtime_id, hb_max_records = max_host_requests config, hb_max_bytes = max_host_request_bytes config,
      hb_state = mutex_new \<lparr>bk_sequence = 0, bk_closing = False, bk_ready = [], bk_records = [], bk_tombstones = [], bk_bytes = 0\<rparr>\<rparr>"

definition request_id_of :: "string \<Rightarrow> u64 \<Rightarrow> string" where
  "request_id_of runtime_id sequence = runtime_id @ '':host:'' @ show_nat sequence"

definition request_of :: "instant \<Rightarrow> capability_entry \<Rightarrow> prepared_capability \<Rightarrow> call_control \<Rightarrow> string \<Rightarrow> host_request" where
  "request_of now e p control ident =
     (let i = pp_invocation p in
      \<lparr>hr_effect_id = iv_effect_id i, hr_request_id = ident, hr_registration_id = en_id e,
       hr_name = cd_name (en_descriptor e), hr_version = cd_version (en_descriptor e), hr_caller = iv_caller i,
       hr_arguments = iv_arguments i,
       hr_remaining_ms = budget_remaining_ms now \<lparr>bud_control = control, bud_deadline = iv_deadline i\<rparr>\<rparr>)"

definition submit_check ::
  "(host_request \<Rightarrow> serialization) \<Rightarrow> instant \<Rightarrow> prepared_capability \<Rightarrow> capability_host \<Rightarrow> (u64 \<times> host_request \<times> usize \<times> usize) embedded_result" where
  "submit_check ser now p h =
     (let b = ho_broker h; st = broker_guard h; e = prepared_entry h p in
      if bk_closing st then Err broker_closed
      else if length (bk_records st) \<ge> hb_max_records b then Err broker_capacity
      else
        and_then (ok_or broker_capacity (checked_add (bk_sequence st) 1)) (\<lambda>sequence.
        let request = request_of now e p (ho_controls h (iv_control (pp_invocation p))) (request_id_of (hb_runtime_id b) sequence) in
        and_then (json_size (ser request) (hb_max_bytes b)) (\<lambda>size.
        and_then (ok_or broker_capacity (checked_add size (cd_max_output_bytes (en_descriptor e)))) (\<lambda>bytes.
        and_then (ok_or broker_capacity
          (Option.bind (checked_add (bk_bytes st) bytes) (\<lambda>total. if total \<le> hb_max_bytes b then Some total else None))) (\<lambda>total.
        Ok (sequence, request, bytes, total))))))"

definition insert_request :: "prepared_capability \<Rightarrow> host_request \<Rightarrow> usize \<Rightarrow> usize \<Rightarrow> broker_state \<Rightarrow> broker_state" where
  "insert_request p request bytes used st =
     st\<lparr>bk_bytes := used, bk_ready := bk_ready st @ [hr_request_id request],
        bk_records := bt_insert (hr_request_id request)
          \<lparr>rq_pending_outcome = None, rq_request = request, rq_prepared = Some p, rq_outcome = None, rq_phase = RqQueued,
           rq_cancellation = None, rq_waiter_alive = True, rq_bytes = bytes\<rparr> (bk_records st)\<rparr>"

text \<open>The critical section of \<^verbatim>\<open>submit\<close>; the identity is used up even when a later check fails.\<close>

definition submit_section ::
  "host_env \<Rightarrow> (host_request \<Rightarrow> serialization) \<Rightarrow> instant \<Rightarrow> prepared_capability \<Rightarrow> (capability_host, string) action" where
  "submit_section env ser now p =
     locked (bind_action (try_read (submit_check ser now p)) (\<lambda>(sequence, request, bytes, used).
       bind_action (write_broker (\<lambda>st. st\<lparr>bk_sequence := sequence\<rparr>)) (\<lambda>_.
       bind_action (bind_request env (pp_effect p) (hr_request_id request)) (\<lambda>_.
       bind_action (prepared_gate p) (\<lambda>_.
       bind_action (write_broker (insert_request p request bytes used)) (\<lambda>_.
       ret (hr_request_id request)))))))"

definition broker_submit ::
  "host_env \<Rightarrow> (host_request \<Rightarrow> serialization) \<Rightarrow> instant \<Rightarrow> prepared_capability \<Rightarrow> (capability_host, string) action" where
  "broker_submit env ser now p = on_error (drop_prepared p) (submit_section env ser now p)"

section \<open>Publication and cancellation\<close>

fun trim_tombstones :: "usize \<Rightarrow> string list \<Rightarrow> string list" where
  "trim_tombstones limit ts = (if length ts > limit then trim_tombstones limit (tl ts) else ts)"

declare trim_tombstones.simps [simp del]

definition remove_request :: "usize \<Rightarrow> string \<Rightarrow> broker_state \<Rightarrow> broker_state embedded_result" where
  "remove_request limit ident st =
     (case bt_get (bk_records st) ident of
        None \<Rightarrow> Ok st
      | Some r \<Rightarrow>
          and_then (expect ''attempt to subtract with overflow'' (checked_sub (bk_bytes st) (rq_bytes r))) (\<lambda>bytes.
          Ok (st\<lparr>bk_records := bt_remove ident (bk_records st), bk_bytes := bytes,
                 bk_ready := filter (\<lambda>x. x \<noteq> ident) (bk_ready st),
                 bk_tombstones := trim_tombstones limit (bk_tombstones st @ [ident])\<rparr>)))"

definition remove_action :: "string \<Rightarrow> (capability_host, unit) action" where
  "remove_action ident =
     bind_action (try_read (\<lambda>h. remove_request (hb_max_records (ho_broker h)) ident (broker_guard h))) (\<lambda>st. write_broker (\<lambda>_. st))"

definition published :: "request_record \<Rightarrow> capability_outcome \<Rightarrow> request_record" where
  "published r outcome =
     r\<lparr>rq_outcome := Some (case rq_cancellation r of Some e \<Rightarrow> outcome\<lparr>co_result := Err e\<rparr> | None \<Rightarrow> outcome), rq_phase := RqCompleted\<rparr>"

definition publish_section :: "string \<Rightarrow> capability_outcome \<Rightarrow> (capability_host, unit) action" where
  "publish_section ident outcome =
     locked (bind_action (try_read (\<lambda>h. ok_or broker_poisoned (bt_get (bk_records (broker_guard h)) ident))) (\<lambda>r.
       bind_action (update_request ident (\<lambda>r. published r outcome)) (\<lambda>_.
         if rq_waiter_alive r then ret () else remove_action ident)))"

text \<open>
  The first section of \<^verbatim>\<open>cancel\<close>: a queued request loses its prepared call to the canceller, a
  dispatched one only remembers the reason.
\<close>

definition cancel_section :: "string \<Rightarrow> embedded_error \<Rightarrow> (capability_host, prepared_capability option) action" where
  "cancel_section ident err =
     locked (bind_action (try_read (\<lambda>h. ok_or (unknown_request (broker_guard h) ident) (bt_get (bk_records (broker_guard h)) ident))) (\<lambda>r.
       if rq_phase r = RqCompleted then ret None
       else
         bind_action (update_request ident (\<lambda>r. r\<lparr>rq_cancellation := (case rq_cancellation r of None \<Rightarrow> Some err | c \<Rightarrow> c)\<rparr>)) (\<lambda>_.
         if rq_phase r \<noteq> RqQueued then ret None
         else
           bind_action (update_request ident (\<lambda>r. r\<lparr>rq_phase := RqCompleting, rq_prepared := None\<rparr>)) (\<lambda>_.
           bind_action (from_result (ok_or broker_poisoned (rq_prepared r))) (\<lambda>p.
           bind_action (write_broker (\<lambda>st. st\<lparr>bk_ready := filter (\<lambda>x. x \<noteq> ident) (bk_ready st)\<rparr>)) (\<lambda>_.
           ret (Some p)))))))"

definition cancelled_before_dispatch :: capability_outcome where
  "cancelled_before_dispatch =
     \<lparr>co_result = Err (error_new Cancelled ''host request cancelled before dispatch''), co_effects = NotStarted\<rparr>"

definition broker_cancel :: "string \<Rightarrow> embedded_error \<Rightarrow> (capability_host, unit) action" where
  "broker_cancel ident err =
     bind_action (cancel_section ident err) (\<lambda>taken. case taken of
       None \<Rightarrow> ret ()
     | Some p \<Rightarrow> bind_action (drop_prepared p) (\<lambda>_. publish_section ident cancelled_before_dispatch))"

section \<open>Completion\<close>

text \<open>Taking a validated completion out of its record, and putting it back.\<close>

definition take_completion :: "string \<Rightarrow> (capability_host, (prepared_capability \<times> capability_outcome) option) action" where
  "take_completion ident =
     locked (bind_action (read_broker (\<lambda>st. bt_get (bk_records st) ident)) (\<lambda>found. case found of
       None \<Rightarrow> ret None
     | Some r \<Rightarrow>
         if rq_phase r \<noteq> RqCompleting \<or> rq_pending_outcome r = None then ret None
         else
           bind_action (from_result (ok_or broker_poisoned (rq_prepared r))) (\<lambda>p.
           bind_action (update_request ident (\<lambda>r. r\<lparr>rq_prepared := None, rq_pending_outcome := None\<rparr>)) (\<lambda>_.
           bind_action (from_result (expect ''validated original completion'' (rq_pending_outcome r))) (\<lambda>outcome.
           ret (Some (p, outcome)))))))"

definition put_completion :: "string \<Rightarrow> prepared_capability \<Rightarrow> capability_outcome \<Rightarrow> (capability_host, unit) action" where
  "put_completion ident p outcome =
     locked (bind_action (try_read (\<lambda>h. ok_or broker_poisoned (bt_get (bk_records (broker_guard h)) ident))) (\<lambda>_.
       update_request ident (\<lambda>r. r\<lparr>rq_prepared := Some p, rq_pending_outcome := Some outcome\<rparr>)))"

definition put_back :: "string \<Rightarrow> prepared_capability \<Rightarrow> capability_outcome \<Rightarrow> (capability_host, unit) action" where
  "put_back ident p outcome = on_error (drop_prepared p) (put_completion ident p outcome)"

text \<open>An authorization that fails replaces the result and keeps the effects.\<close>

definition override_result :: "unit embedded_result \<Rightarrow> capability_outcome \<Rightarrow> capability_outcome" where
  "override_result auth outcome = (case auth of Err e \<Rightarrow> outcome\<lparr>co_result := Err e\<rparr> | _ \<Rightarrow> outcome)"

definition broker_drive_completion :: "(nat \<Rightarrow> instant) \<Rightarrow> bool embedded_result \<Rightarrow> string \<Rightarrow> (capability_host, unit) action" where
  "broker_drive_completion clk answer ident =
     bind_action (take_completion ident) (\<lambda>retained. case retained of
       None \<Rightarrow> ret ()
     | Some (p, outcome) \<Rightarrow>
         bind_action (read_state (\<lambda>h. (checkpoint_answer h (pp_effect p) answer, authorize (clk 0) (clk 1) (pp_invocation p) h))) (\<lambda>(progress, auth).
         if progress = Ok True
         then bind_action (drop_prepared p) (\<lambda>_. publish_section ident (override_result auth outcome))
         else bind_action (put_back ident p outcome) (\<lambda>_. from_result (and_then progress (\<lambda>_. Ok ())))))"

fun drive_all :: "(nat \<Rightarrow> nat \<Rightarrow> instant) \<Rightarrow> (nat \<Rightarrow> bool embedded_result) \<Rightarrow> string list \<Rightarrow> (capability_host, unit) action" where
  "drive_all clks answers [] = ret ()"
| "drive_all clks answers (i # ids) =
     bind_action (broker_drive_completion (clks 0) (answers 0) i) (\<lambda>_. drive_all (\<lambda>n. clks (Suc n)) (\<lambda>n. answers (Suc n)) ids)"

definition retained_completions :: "broker_state \<Rightarrow> string list" where
  "retained_completions st = map fst (filter (\<lambda>(i, r). rq_phase r = RqCompleting \<and> rq_pending_outcome r \<noteq> None) (bk_records st))"

definition maintain_completions :: "(nat \<Rightarrow> nat \<Rightarrow> instant) \<Rightarrow> (nat \<Rightarrow> bool embedded_result) \<Rightarrow> (capability_host, unit) action" where
  "maintain_completions clks answers = bind_action (locked (read_broker retained_completions)) (drive_all clks answers)"

text \<open>\<^verbatim>\<open>refresh\<close>: drive a retained completion, then cancel a request that has lost its authorization or its registration.\<close>

definition refresh_check :: "(nat \<Rightarrow> instant) \<Rightarrow> string \<Rightarrow> (capability_host, embedded_error option) action" where
  "refresh_check clk ident =
     locked (bind_action (try_read (\<lambda>h. ok_or (unknown_request (broker_guard h) ident) (bt_get (bk_records (broker_guard h)) ident))) (\<lambda>r.
       case rq_prepared r of
         None \<Rightarrow> ret None
       | Some p \<Rightarrow>
           read_state (\<lambda>h.
             case and_then (authorize (clk 0) (clk 1) (pp_invocation p) h) (\<lambda>_.
                    if rq_phase r = RqQueued then fst (prepared_gate p h) else Ok ()) of
               Err e \<Rightarrow> Some e
             | _ \<Rightarrow> None)))"

definition broker_refresh :: "(nat \<Rightarrow> nat \<Rightarrow> instant) \<Rightarrow> bool embedded_result \<Rightarrow> string \<Rightarrow> (capability_host, unit) action" where
  "broker_refresh clks answer ident =
     bind_action (broker_drive_completion (clks 0) answer ident) (\<lambda>_.
     bind_action (refresh_check (clks 1) ident) (\<lambda>err. case err of None \<Rightarrow> ret () | Some e \<Rightarrow> broker_cancel ident e))"

text \<open>The section in which \<^verbatim>\<open>complete\<close> claims a dispatched request.\<close>

definition claim_section :: "string \<Rightarrow> (capability_host, prepared_capability) action" where
  "claim_section ident =
     locked (bind_action (try_read (\<lambda>h. ok_or (unknown_request (broker_guard h) ident) (bt_get (bk_records (broker_guard h)) ident))) (\<lambda>r.
       bind_action (from_result (case rq_phase r of
           RqQueued \<Rightarrow> Err (error_new Busy ''host request has not been dispatched'')
         | RqDispatched \<Rightarrow> Ok ()
         | _ \<Rightarrow> Err already_completed)) (\<lambda>_.
       bind_action (update_request ident (\<lambda>r. r\<lparr>rq_phase := RqCompleting, rq_prepared := None\<rparr>)) (\<lambda>_.
       from_result (ok_or broker_poisoned (rq_prepared r))))))"

definition broker_complete ::
  "host_env \<Rightarrow> (nat \<Rightarrow> nat \<Rightarrow> instant) \<Rightarrow> bool embedded_result \<Rightarrow> bool embedded_result \<Rightarrow> string \<Rightarrow> capability_outcome \<Rightarrow> (capability_host, unit) action" where
  "broker_complete env clks answer answer' ident outcome =
     bind_action (broker_refresh clks answer ident) (\<lambda>_.
     bind_action (claim_section ident) (\<lambda>p.
     bind_action (observe_effect (pp_effect p) (co_effects outcome)) (\<lambda>_.
     bind_action (read_state (\<lambda>h. override_result (authorize (clks 2 0) (clks 2 1) (pp_invocation p) h)
       (validate_outcome (env_schemas env) (env_value env) (env_error env) (prepared_entry h p) outcome))) (\<lambda>validated.
     bind_action (put_back ident p validated) (\<lambda>_.
     broker_drive_completion (clks 3) answer' ident)))))"

end
