(* ===== verification/Host_Delivery.thy ===== *)
theory Host_Delivery
  imports Host_Request_Broker
begin

text \<open>
  Delivery of queued requests to the host and the lifecycle calls of the broker and of its handles
  (\<^verbatim>\<open>take\<close>, \<^verbatim>\<open>take_json\<close>, \<^verbatim>\<open>status\<close>, \<^verbatim>\<open>close\<close>, \<^verbatim>\<open>retire_registration\<close>, \<^verbatim>\<open>is_drained\<close> and
  \<^verbatim>\<open>HostRequestHandle\<close> in \<^verbatim>\<open>runtime/embedded/capabilities/broker.rs\<close>).
\<close>

section \<open>One delivery\<close>

text \<open>What one pass of the delivery loop decides under the lock.\<close>

datatype delivery = Delivered host_request | NothingReady | CancelFirst string embedded_error

text \<open>
  Readings of one pass: \<open>rd_clk\<close> are its clock readings, \<open>rd_start\<close> the persistent operation's answer
  to the start checkpoint.
\<close>

record round =
  rd_clk :: "nat \<Rightarrow> instant"
  rd_start :: "bool embedded_result"

definition with_remaining :: "instant \<Rightarrow> prepared_capability \<Rightarrow> capability_host \<Rightarrow> host_request \<Rightarrow> host_request" where
  "with_remaining now p h request =
     request\<lparr>hr_remaining_ms := budget_remaining_ms now
       \<lparr>bud_control = ho_controls h (iv_control (pp_invocation p)), bud_deadline = iv_deadline (pp_invocation p)\<rparr>\<rparr>"

text \<open>The guarded transition: \<open>False\<close> when the start checkpoint is still on its way.\<close>

definition dispatch :: "round \<Rightarrow> string \<Rightarrow> prepared_capability \<Rightarrow> (capability_host, bool) action" where
  "dispatch rd ident p =
     bind_action (try_read (authorize (rd_clk rd 3) (rd_clk rd 4) (pp_invocation p))) (\<lambda>_.
     bind_action (prepared_gate p) (\<lambda>_.
     bind_action (try_read (\<lambda>h. checkpoint_answer h (pp_effect p) (rd_start rd))) (\<lambda>started.
       if \<not> started then ret False
       else
         bind_action (try_read (authorize (rd_clk rd 5) (rd_clk rd 6) (pp_invocation p))) (\<lambda>_.
         bind_action (begin_effect (pp_effect p)) (\<lambda>_.
         bind_action (update_request ident (\<lambda>r. r\<lparr>rq_phase := RqDispatched\<rparr>)) (\<lambda>_.
         ret True))))))"

text \<open>An internal error is reported; any other one becomes the reason for a cancellation.\<close>

definition cancel_unless_internal :: "string \<Rightarrow> ('a \<Rightarrow> (capability_host, delivery) action) \<Rightarrow> (capability_host, 'a) action \<Rightarrow> (capability_host, delivery) action" where
  "cancel_unless_internal ident k m h =
     (case m h of
        (Ok x, h') \<Rightarrow> k x h'
      | (Err e, h') \<Rightarrow> (if err_code e = Internal then Err e else Ok (CancelFirst ident e), h')
      | (Panic p, h') \<Rightarrow> (Panic p, h'))"

definition deliver_front :: "(host_request \<Rightarrow> unit embedded_result) \<Rightarrow> round \<Rightarrow> string \<Rightarrow> (capability_host, delivery) action" where
  "deliver_front prep rd ident =
     bind_action (try_read (\<lambda>h. ok_or broker_poisoned (bt_get (bk_records (broker_guard h)) ident))) (\<lambda>r.
     bind_action (require (rq_phase r = RqQueued) broker_poisoned) (\<lambda>_.
     bind_action (from_result (ok_or broker_poisoned (rq_prepared r))) (\<lambda>p.
     cancel_unless_internal ident (\<lambda>_.
       bind_action (read_state (\<lambda>h. with_remaining (rd_clk rd 2) p h (rq_request r))) (\<lambda>request.
       bind_action (from_result (prep request)) (\<lambda>_.
       cancel_unless_internal ident (\<lambda>started.
         if started
         then bind_action (write_broker (\<lambda>st. st\<lparr>bk_ready := tl (bk_ready st)\<rparr>)) (\<lambda>_. ret (Delivered request))
         else ret NothingReady) (dispatch rd ident p))))
       (try_read (authorize (rd_clk rd 0) (rd_clk rd 1) (pp_invocation p))))))"

definition take_section :: "(host_request \<Rightarrow> unit embedded_result) \<Rightarrow> round \<Rightarrow> (capability_host, delivery) action" where
  "take_section prep rd =
     locked (bind_action (read_broker (\<lambda>st. st)) (\<lambda>st.
       if bk_closing st then ret NothingReady
       else case bk_ready st of [] \<Rightarrow> ret NothingReady | ident # _ \<Rightarrow> deliver_front prep rd ident))"

section \<open>What leaves the broker alone\<close>

text \<open>\<open>post m P\<close>: the outcome of an action and the state it reaches satisfy \<open>P\<close>, whichever way it ends.\<close>

definition post :: "('s, 'a) action \<Rightarrow> ('a embedded_result \<Rightarrow> 's \<Rightarrow> bool) \<Rightarrow> 's \<Rightarrow> bool" where
  "post m P s = P (fst (m s)) (snd (m s))"

named_theorems post_simps \<open>symbolic execution of actions in all their outcomes\<close>

lemma post_bind [post_simps]:
  "post (bind_action m f) P s =
    post m (\<lambda>r t. case r of Ok x \<Rightarrow> post (f x) P t | Err e \<Rightarrow> P (Err e) t | Panic p \<Rightarrow> P (Panic p) t) s"
  by (auto simp: post_def bind_action_def split: prod.splits outcome.splits)

lemma post_basic [post_simps]:
  "post (ret x) P s = P (Ok x) s"
  "post (from_result r) P s = P r s"
  "post (try_read g) P s = P (g s) s"
  "post (read_state f) P s = P (Ok (f s)) s"
  "post (require b e) P' s = P' (if b then Ok () else Err e) s"
  "post (write_state u) P' s = P' (Ok ()) (u s)"
  by (simp_all add: post_def ret_def from_result_def try_read_def read_state_def require_def write_state_def)

lemma post_branches [post_simps]:
  "post (if b then m else n) P s = (if b then post m P s else post n P s)"
  "post (case z of None \<Rightarrow> m | Some y \<Rightarrow> f y) P s = (case z of None \<Rightarrow> post m P s | Some y \<Rightarrow> post (f y) P s)"
  "post (case pr of (u, v) \<Rightarrow> h u v) P s = (case pr of (u, v) \<Rightarrow> post (h u v) P s)"
  by (auto split: option.splits prod.splits)

lemma post_mono: "post m P s \<Longrightarrow> (\<And>r t. P r t \<Longrightarrow> Q r t) \<Longrightarrow> post m Q s"
  by (simp add: post_def)

lemma post_result: "post m P s \<Longrightarrow> m s = (r, t) \<Longrightarrow> P r t"
  by (simp add: post_def)

lemma post_recovering:
  "post (recovering m) P h = post m (\<lambda>r t. P r (if is_panic r then put_broker ((hb_state (ho_broker t))\<lparr>poisoned := True\<rparr>) t else t)) h"
  by (auto simp: post_def recovering_def split: prod.splits outcome.splits)

lemma post_locked:
  "post (locked m) P h =
    (if poisoned (hb_state (ho_broker h)) then P (Err broker_poisoned) h
     else post m (\<lambda>r t. P r (if is_panic r then put_broker ((hb_state (ho_broker t))\<lparr>poisoned := True\<rparr>) t else t)) h)"
  by (simp add: post_recovering [symmetric]) (simp add: post_def locked_def)

lemma post_broker [post_simps]:
  "post (read_broker f) P h = P (Ok (f (broker_guard h))) h"
  "post (write_broker u) Q h = Q (Ok ()) (put_broker (mutex_recover (hb_state (ho_broker h)) u) h)"
  by (simp_all add: read_broker_def write_broker_def post_basic)

lemma put_broker_simps [simp]:
  "ho_broker (put_broker m h) = (ho_broker h)\<lparr>hb_state := m\<rparr>" "ho_registry (put_broker m h) = ho_registry h"
  "ho_controls (put_broker m h) = ho_controls h" "ho_ledgers (put_broker m h) = ho_ledgers h" "ho_permissions (put_broker m h) = ho_permissions h"
  by (simp_all add: put_broker_def)

lemma frame_registry: "snd (on_registry m h) = h\<lparr>ho_registry := snd (m (ho_registry h))\<rparr>"
  by (simp add: on_registry_def lift_action_def case_prod_beta)

lemma frame_attempt_eq: "\<exists>ls. snd (on_attempt f d attempt h) = h\<lparr>ho_ledgers := ls\<rparr>"
proof (cases attempt)
  case None
  then have "snd (on_attempt f d attempt h) = h\<lparr>ho_ledgers := ho_ledgers h\<rparr>" by (simp add: on_attempt_def)
  then show ?thesis by blast
next
  case (Some a)
  then show ?thesis by (auto simp: on_attempt_def case_prod_beta)
qed

lemma post_attempt:
  assumes "\<And>r ls. P r (h\<lparr>ho_ledgers := ls\<rparr>)"
  shows "post (on_attempt f d attempt) P h"
proof -
  obtain ls where "snd (on_attempt f d attempt h) = h\<lparr>ho_ledgers := ls\<rparr>" using frame_attempt_eq [of f d attempt h] by auto
  then show ?thesis using assms by (simp add: post_def)
qed

text \<open>Dropping a prepared call touches the registry's arena and a journal only.\<close>

lemma post_drop_prepared:
  assumes "\<And>r g ls. P r (h\<lparr>ho_registry := g, ho_ledgers := ls\<rparr>)"
  shows "post (drop_prepared p) P h"
  unfolding drop_prepared_def drop_effect_def post_bind
  using assms by (auto simp: post_def [of "on_registry _"] frame_registry intro!: post_attempt split: outcome.splits) (metis capability_host.surjective capability_host.update_convs(4))+

lemma prepared_gate_state [simp]: "snd (prepared_gate p h) = h"
  by (simp add: prepared_gate_def frame_registry on_arena_def lift_action_def dispatch_gate_def try_read_def)

lemma post_cancel_unless:
  "post (cancel_unless_internal ident k m) P h =
    post m (\<lambda>r t. case r of Ok x \<Rightarrow> post (k x) P t
      | Err e \<Rightarrow> P (if err_code e = Internal then Err e else Ok (CancelFirst ident e)) t
      | Panic p \<Rightarrow> P (Panic p) t) h"
  by (auto simp: post_def cancel_unless_internal_def split: prod.splits outcome.splits)

section \<open>The delivery loop\<close>

text \<open>A pass that cancels the front request returns with that request first in the queue, still prepared.\<close>

lemma dispatch_on_error:
  "post (dispatch rd ident p) (\<lambda>r t. \<forall>e. r = Err e \<longrightarrow> ho_broker t = ho_broker h) h"
  unfolding dispatch_def begin_effect_def prepared_gate_def [symmetric]
  by (auto simp: post_simps post_def [of "prepared_gate p"] update_request_def intro!: post_attempt split: outcome.splits)

lemma take_section_cancels:
  assumes "take_section prep rd h = (Ok (CancelFirst i e), h')"
  shows "ho_broker h' = ho_broker h \<and> \<not> poisoned (hb_state (ho_broker h)) \<and> (\<exists>is. bk_ready (broker_guard h) = i # is) \<and>
    (\<exists>r p. bt_get (bk_records (broker_guard h)) i = Some r \<and> rq_phase r = RqQueued \<and> rq_prepared r = Some p)"
proof -
  have "post (take_section prep rd) (\<lambda>r t. r = Ok (CancelFirst i e) \<longrightarrow> ho_broker t = ho_broker h \<and> \<not> poisoned (hb_state (ho_broker h)) \<and>
     (\<exists>is. bk_ready (broker_guard h) = i # is) \<and>
    (\<exists>r p. bt_get (bk_records (broker_guard h)) i = Some r \<and> rq_phase r = RqQueued \<and> rq_prepared r = Some p)) h"
    unfolding take_section_def deliver_front_def
    by (auto simp: post_simps post_locked post_cancel_unless split: list.splits outcome.splits)
      (rule post_mono [OF dispatch_on_error], auto)
  then show ?thesis using assms by (simp add: post_def)
qed

lemma cancel_shortens:
  assumes "broker_cancel i e h = (Ok (), h')" "bk_ready (broker_guard h) = i # is"
    and "bt_get (bk_records (broker_guard h)) i = Some r" "rq_phase r = RqQueued"
  shows "length (bk_ready (broker_guard h')) < length (bk_ready (broker_guard h))"
proof -
  have "post (broker_cancel i e) (\<lambda>r t. r = Ok () \<longrightarrow> length (bk_ready (broker_guard t)) < length (bk_ready (broker_guard h))) h"
    unfolding broker_cancel_def cancel_section_def publish_section_def remove_action_def update_request_def
    using assms(2-4) length_filter_le [of "\<lambda>x. x \<noteq> i" "is"]
    by (auto simp: post_simps post_locked remove_request_def less_Suc_eq_le intro!: post_drop_prepared split: option.splits outcome.splits)
  then show ?thesis using assms(1) by (simp add: post_def)
qed

lemma pass_shortens:
  assumes "take_section prep rd h = (Ok (CancelFirst i e), h')" "broker_cancel i e h' = (Ok u, h'')"
  shows "length (bk_ready (broker_guard h'')) < length (bk_ready (broker_guard h))"
proof -
  note t = take_section_cancels [OF assms(1)]
  obtain js r where "bk_ready (broker_guard h') = i # js" "bt_get (bk_records (broker_guard h')) i = Some r" "rq_phase r = RqQueued"
    using t by auto
  then show ?thesis using cancel_shortens [of i e h' h'' js r] assms(2) t by auto
qed

function take_next ::
  "(host_request \<Rightarrow> unit embedded_result) \<Rightarrow> (nat \<Rightarrow> round) \<Rightarrow> (capability_host, host_request option) action" where
  "take_next prep rounds h =
     (case take_section prep (rounds 0) h of
        (Ok (Delivered request), h') \<Rightarrow> (Ok (Some request), h')
      | (Ok NothingReady, h') \<Rightarrow> (Ok None, h')
      | (Ok (CancelFirst i e), h') \<Rightarrow>
          (case broker_cancel i e h' of
             (Ok _, h'') \<Rightarrow> take_next prep (\<lambda>n. rounds (Suc n)) h''
           | (Err x, h'') \<Rightarrow> (Err x, h'')
           | (Panic p, h'') \<Rightarrow> (Panic p, h''))
      | (Err x, h') \<Rightarrow> (Err x, h')
      | (Panic p, h') \<Rightarrow> (Panic p, h'))"
  by pat_completeness auto

termination take_next
  by (relation "measure (\<lambda>(prep, rounds, h). length (bk_ready (broker_guard h)))")
    (simp, metis case_prod_conv in_measure pass_shortens)

declare take_next.simps [simp del]

section \<open>Batches\<close>

text \<open>
  \<^verbatim>\<open>take\<close>: \<open>alloc n\<close> says whether room for one more request after \<open>n\<close> can be reserved; \<open>rounds n\<close> are
  the passes of the \<open>n\<close>-th delivery. An error after the first delivery ends the batch instead of
  losing what was already handed over.
\<close>

fun take_loop ::
  "(nat \<Rightarrow> bool) \<Rightarrow> (nat \<Rightarrow> nat \<Rightarrow> round) \<Rightarrow> nat \<Rightarrow> host_request list \<Rightarrow> (capability_host, host_request list) action" where
  "take_loop alloc rounds 0 taken h = (Ok taken, h)"
| "take_loop alloc rounds (Suc n) taken h =
     (case take_next (\<lambda>_. if alloc (length taken) then Ok () else Err broker_capacity) (rounds (length taken)) h of
        (Ok (Some request), h') \<Rightarrow> take_loop alloc rounds n (taken @ [request]) h'
      | (Ok None, h') \<Rightarrow> (Ok taken, h')
      | (Err e, h') \<Rightarrow> (if taken = [] then Err e else Ok taken, h')
      | (Panic p, h') \<Rightarrow> (Panic p, h'))"

definition broker_take ::
  "(nat \<Rightarrow> nat \<Rightarrow> instant) \<Rightarrow> (nat \<Rightarrow> bool embedded_result) \<Rightarrow> (nat \<Rightarrow> bool) \<Rightarrow> (nat \<Rightarrow> nat \<Rightarrow> round) \<Rightarrow> usize \<Rightarrow>
   (capability_host, host_request list) action" where
  "broker_take clks answers alloc rounds limit =
     bind_action (require_state (\<lambda>h. \<not> (limit = 0 \<or> limit > hb_max_records (ho_broker h))) (error_invalid ''invalid host request batch size'')) (\<lambda>_.
     bind_action (maintain_completions clks answers) (\<lambda>_.
     take_loop alloc rounds limit []))"

text \<open>
  \<^verbatim>\<open>take_json\<close>: \<open>encode\<close> writes a request, \<open>ser\<close> is its serialization as the size counter sees it; the
  allocations before a delivery succeed or end it with the capacity error.
\<close>

definition json_prepare ::
  "(host_request \<Rightarrow> serialization) \<Rightarrow> (host_request \<Rightarrow> string option) \<Rightarrow> bool \<Rightarrow> usize \<Rightarrow> host_request \<Rightarrow> unit embedded_result" where
  "json_prepare ser encode alloc remaining request =
     and_then (json_size (ser request) remaining) (\<lambda>_.
       if \<not> alloc then Err broker_capacity
       else and_then (ok_or broker_poisoned (encode request)) (\<lambda>_. Ok ()))"

fun take_json_loop ::
  "(host_request \<Rightarrow> serialization) \<Rightarrow> (host_request \<Rightarrow> string option) \<Rightarrow> (nat \<Rightarrow> bool) \<Rightarrow> (nat \<Rightarrow> nat \<Rightarrow> round) \<Rightarrow> usize \<Rightarrow>
   nat \<Rightarrow> nat \<Rightarrow> string \<Rightarrow> (capability_host, string) action" where
  "take_json_loop ser encode alloc rounds max_bytes 0 count output h = (Ok (output @ '']''), h)"
| "take_json_loop ser encode alloc rounds max_bytes (Suc n) count output h =
     (let separator = (if count \<noteq> 0 then '','' else []);
          remaining = saturating_sub max_bytes (length output + length separator + 1)
      in case take_next (json_prepare ser encode (alloc count) remaining) (rounds count) h of
        (Ok (Some request), h') \<Rightarrow>
          take_json_loop ser encode alloc rounds max_bytes n (Suc count)
            (output @ separator @ (case encode request of None \<Rightarrow> [] | Some bytes \<Rightarrow> bytes)) h'
      | (Ok None, h') \<Rightarrow> (Ok (output @ '']''), h')
      | (Err e, h') \<Rightarrow> (if count = 0 then Err e else Ok (output @ '']''), h')
      | (Panic p, h') \<Rightarrow> (Panic p, h'))"

definition isize_max :: nat where
  "isize_max = 9223372036854775807"

definition broker_take_json ::
  "(host_request \<Rightarrow> serialization) \<Rightarrow> (host_request \<Rightarrow> string option) \<Rightarrow> (nat \<Rightarrow> nat \<Rightarrow> instant) \<Rightarrow> (nat \<Rightarrow> bool embedded_result) \<Rightarrow>
   bool \<Rightarrow> (nat \<Rightarrow> bool) \<Rightarrow> (nat \<Rightarrow> nat \<Rightarrow> round) \<Rightarrow> usize \<Rightarrow> usize \<Rightarrow> (capability_host, string) action" where
  "broker_take_json ser encode clks answers alloc0 alloc rounds limit max_bytes =
     bind_action (require_state (\<lambda>h. \<not> (limit = 0 \<or> limit > hb_max_records (ho_broker h) \<or> max_bytes < 2 \<or> max_bytes > isize_max))
       (error_invalid ''invalid host request JSON batch limits'')) (\<lambda>_.
     bind_action (maintain_completions clks answers) (\<lambda>_.
     bind_action (require alloc0 broker_capacity) (\<lambda>_.
     take_json_loop ser encode alloc rounds max_bytes limit 0 ''['')))"

section \<open>Status, retirement and closing\<close>

definition broker_status ::
  "(nat \<Rightarrow> nat \<Rightarrow> instant) \<Rightarrow> bool embedded_result \<Rightarrow> string \<Rightarrow> (capability_host, host_request_status) action" where
  "broker_status clks answer ident =
     bind_action (broker_refresh clks answer ident) (\<lambda>_.
     locked (bind_action (try_read (\<lambda>h. ok_or (unknown_request (broker_guard h) ident) (bt_get (bk_records (broker_guard h)) ident))) (\<lambda>r.
       ret \<lparr>hs_request_id = ident, hs_phase = rq_phase r, hs_cancellation = rq_cancellation r\<rparr>)))"

text \<open>A cancellation loop; \<open>tolerate\<close> says which errors it passes over.\<close>

fun cancel_each :: "(embedded_error \<Rightarrow> bool) \<Rightarrow> embedded_error \<Rightarrow> string list \<Rightarrow> (capability_host, unit) action" where
  "cancel_each tolerate err [] = ret ()"
| "cancel_each tolerate err (i # ids) =
     (\<lambda>h. case broker_cancel i err h of
        (Ok _, h') \<Rightarrow> cancel_each tolerate err ids h'
      | (Err e, h') \<Rightarrow> if tolerate e then cancel_each tolerate err ids h' else (Err e, h')
      | (Panic p, h') \<Rightarrow> (Panic p, h'))"

definition queued_of_registration :: "string \<Rightarrow> broker_state \<Rightarrow> string list" where
  "queued_of_registration registration_id st =
     map fst (filter (\<lambda>(i, r). hr_registration_id (rq_request r) = registration_id \<and> rq_phase r = RqQueued) (bk_records st))"

definition retire_registration :: "string \<Rightarrow> (capability_host, unit) action" where
  "retire_registration registration_id =
     bind_action (locked (read_broker (queued_of_registration registration_id)))
       (cancel_each (\<lambda>e. err_code e \<in> {AlreadyCompleted, NotFound}) broker_closed)"

definition close_section :: "(capability_host, string list) action" where
  "close_section =
     recovering (bind_action (write_broker (\<lambda>st. st\<lparr>bk_closing := True\<rparr>)) (\<lambda>_. read_broker (\<lambda>st. map fst (bk_records st))))"

definition broker_close :: "(capability_host, unit) action" where
  "broker_close = bind_action close_section (cancel_each (\<lambda>_. True) broker_closed)"

definition broker_is_drained :: "(nat \<Rightarrow> nat \<Rightarrow> instant) \<Rightarrow> (nat \<Rightarrow> bool embedded_result) \<Rightarrow> (capability_host, bool) action" where
  "broker_is_drained clks answers =
     bind_action (maintain_completions clks answers) (\<lambda>_. locked (read_broker (\<lambda>st. bk_records st = [])))"

section \<open>The caller's handle\<close>

definition handle_poll ::
  "(nat \<Rightarrow> nat \<Rightarrow> instant) \<Rightarrow> bool embedded_result \<Rightarrow> string \<Rightarrow> (capability_host, capability_outcome option) action" where
  "handle_poll clks answer ident =
     bind_action (broker_refresh clks answer ident) (\<lambda>_.
     locked (bind_action (try_read (\<lambda>h. ok_or (unknown_request (broker_guard h) ident) (bt_get (bk_records (broker_guard h)) ident))) (\<lambda>r.
       ret (rq_outcome r))))"

definition request_handle_cancel :: "string \<Rightarrow> (capability_host, unit) action" where
  "request_handle_cancel ident = broker_cancel ident (error_new Cancelled ''host request cancelled'')"

text \<open>The destructor's section: \<open>True\<close> when the record is gone and nothing is left to cancel.\<close>

definition abandon_section :: "string \<Rightarrow> (capability_host, bool) action" where
  "abandon_section ident =
     recovering (bind_action (update_request ident (\<lambda>r. r\<lparr>rq_waiter_alive := False\<rparr>)) (\<lambda>_.
     bind_action (read_broker (\<lambda>st. bt_get (bk_records st) ident)) (\<lambda>found. case found of
       Some r \<Rightarrow> if rq_phase r = RqCompleted then bind_action (remove_action ident) (\<lambda>_. ret True) else ret False
     | None \<Rightarrow> ret False)))"

definition handle_drop :: "string \<Rightarrow> (capability_host, unit) action" where
  "handle_drop ident h =
     (case abandon_section ident h of
        (Ok True, h') \<Rightarrow> (Ok (), h')
      | (Ok False, h') \<Rightarrow>
          (case request_handle_cancel ident h' of (Panic p, h'') \<Rightarrow> (Panic p, h'') | (_, h'') \<Rightarrow> (Ok (), h''))
      | (Err e, h') \<Rightarrow> (Err e, h')
      | (Panic p, h') \<Rightarrow> (Panic p, h'))"

end
