(* ===== verification/Capability_Host.thy ===== *)
theory Capability_Host
  imports Host_Delivery
begin

text \<open>
  Calling a capability and closing the registry with its broker: \<^verbatim>\<open>CapabilitySnapshot\<close> and the
  composed operations of \<^verbatim>\<open>CapabilityRegistry\<close> in \<^verbatim>\<open>runtime/embedded/capabilities/registry.rs\<close>, and
  the binding of a module to a snapshot (\<^verbatim>\<open>capabilities/binding.rs\<close>).
\<close>

section \<open>Preparing a call\<close>

definition reserve_effect :: "host_env \<Rightarrow> control_ref \<Rightarrow> capability_caller \<Rightarrow> capability_entry \<Rightarrow> (capability_host, effect_attempt) action" where
  "reserve_effect env control caller e h =
     (case control_reserve_effect (env_effect env) (ho_ledgers h) (ho_controls h control) caller
        (en_id e) (cd_name (en_descriptor e)) (cd_version (en_descriptor e)) of
      (r, ledgers, c) \<Rightarrow> (r, h\<lparr>ho_ledgers := ledgers, ho_controls := (ho_controls h)(control := c)\<rparr>))"

definition attempt_id :: "capability_host \<Rightarrow> effect_attempt \<Rightarrow> string option" where
  "attempt_id h attempt =
     (case attempt of None \<Rightarrow> None | Some (l, k) \<Rightarrow> Some (effect_id_of (led_operation_id (ho_ledgers h l)) k))"

definition permit_drop :: "entry_ref \<Rightarrow> (capability_host, unit) action" where
  "permit_drop r = on_registry (on_arena (capability_permit_drop r))"

text \<open>The checks before admission, in order; the result is the entry and whether the call finalizes.\<close>

definition prepare_checks ::
  "host_env \<Rightarrow> capability_snapshot \<Rightarrow> string \<Rightarrow> capability_caller \<Rightarrow> permissions_ref \<Rightarrow> json_value \<Rightarrow> control_ref \<Rightarrow>
   capability_execution \<Rightarrow> capability_host \<Rightarrow> (entry_ref \<times> bool) embedded_result" where
  "prepare_checks env s name caller permissions arguments control execution h =
     and_then (caller_validate caller (snap_runtime_id s)) (\<lambda>_.
     and_then (ok_or capability_not_found (bt_get (snap_entries s) name)) (\<lambda>r.
     let e = entry_at (cr_arena (ho_registry h)) r; d = en_descriptor e in
     if cd_execution d \<noteq> execution
     then Err (error_new Unsupported ''capability dispatch does not match its declared transport'')
     else if cd_scope d = SessionScope \<and> cc_session_id caller = None
     then Err (error_new PermissionDenied ''capability requires a bound session'')
     else
       and_then (permissions_require (ho_permissions h permissions) (cd_permissions d)) (\<lambda>_.
       and_then (json_size (env_value env arguments) (cd_max_input_bytes d)) (\<lambda>_.
       and_then (contract_validate (env_schemas env) (en_input e) arguments) (\<lambda>_.
       and_then (control_is_finalization (ho_controls h control)) (\<lambda>finalization.
       Ok (r, finalization)))))))"

text \<open>After admission every early return drops what was acquired, the latest first.\<close>

definition snapshot_prepare ::
  "host_env \<Rightarrow> (nat \<Rightarrow> instant) \<Rightarrow> capability_snapshot \<Rightarrow> string \<Rightarrow> capability_caller \<Rightarrow> permissions_ref \<Rightarrow> json_value \<Rightarrow> control_ref \<Rightarrow>
   capability_execution \<Rightarrow> (capability_host, prepared_capability) action" where
  "snapshot_prepare env clk s name caller permissions arguments control execution =
     bind_action (try_read (prepare_checks env s name caller permissions arguments control execution)) (\<lambda>(r, finalization).
     bind_action (on_registry (on_arena (entry_admit r finalization))) (\<lambda>native.
     on_error (permit_drop r)
       (bind_action (read_state (\<lambda>h. entry_at (cr_arena (ho_registry h)) r)) (\<lambda>e.
        bind_action (reserve_effect env control caller e) (\<lambda>attempt.
        on_error (drop_effect attempt)
          (bind_action (try_read (\<lambda>h. budget_new (clk 0) (clk 1) (ho_controls h control) (cd_max_call_ms (en_descriptor e)))) (\<lambda>budget.
           bind_action (read_state (\<lambda>h. \<lparr>iv_effect_id = attempt_id h attempt, iv_caller = caller, iv_arguments = arguments,
             iv_control = control, iv_deadline = bud_deadline budget, iv_permissions = permissions,
             iv_required = cd_permissions (en_descriptor e)\<rparr>)) (\<lambda>i.
           bind_action (try_read (authorize (clk 2) (clk 3) i)) (\<lambda>_.
           ret \<lparr>pp_finalization = finalization, pp_entry = r, pp_invocation = i, pp_native = native, pp_effect = attempt\<rparr>)))))))))"

section \<open>Queued and native calls\<close>

text \<open>
  \<open>active\<close> is the thread's set of runtimes with a callback on its stack; the scope guard of a native
  call removes its runtime on every exit, so the set is an input only.
\<close>

definition capability_reentry :: embedded_error where
  "capability_reentry = error_new Busy ''synchronous capability reentry is forbidden''"

definition submit_queued ::
  "host_env \<Rightarrow> (host_request \<Rightarrow> serialization) \<Rightarrow> (nat \<Rightarrow> instant) \<Rightarrow> string set \<Rightarrow> capability_snapshot \<Rightarrow> string \<Rightarrow> capability_caller \<Rightarrow>
   permissions_ref \<Rightarrow> json_value \<Rightarrow> control_ref \<Rightarrow> (capability_host, string) action" where
  "submit_queued env ser clk active s name caller permissions arguments control =
     bind_action (require (snap_runtime_id s \<notin> active) capability_reentry) (\<lambda>_.
     bind_action (snapshot_prepare env clk s name caller permissions arguments control Queued) (\<lambda>p.
     broker_submit env ser (clk 4) p))"

definition check_submission :: "capability_registry \<Rightarrow> string set \<Rightarrow> unit embedded_result" where
  "check_submission g active =
     (if cr_runtime_id g \<in> active then Err (error_new Busy ''synchronous runtime reentry is forbidden'') else Ok ())"

text \<open>
  The host's callback may change anything it can reach and may panic (\<open>None\<close>), which the runtime catches.
\<close>

type_synonym callback_code =
  "native_ref \<Rightarrow> capability_invocation \<Rightarrow> string set \<Rightarrow> capability_host \<Rightarrow> capability_outcome option \<times> capability_host"

definition run_callback ::
  "callback_code \<Rightarrow> native_ref \<Rightarrow> capability_invocation \<Rightarrow> string set \<Rightarrow> entry_ref \<Rightarrow> (capability_host, capability_outcome) action" where
  "run_callback code native i active r h =
     (case code native i active h of
        (Some outcome, h') \<Rightarrow> (Ok outcome, h')
      | (None, h') \<Rightarrow>
          (Ok \<lparr>co_result = Err (error_new ExecutionFailed ''native capability panicked''),
               co_effects = (if cd_effects (en_descriptor (entry_at (cr_arena (ho_registry h')) r)) = ReadOnly
                             then NotApplicable else UnknownEffect)\<rparr>, h'))"

definition native_body ::
  "host_env \<Rightarrow> (nat \<Rightarrow> instant) \<Rightarrow> bool embedded_result \<Rightarrow> bool embedded_result \<Rightarrow> callback_code \<Rightarrow> string set \<Rightarrow> prepared_capability \<Rightarrow>
   (capability_host, capability_outcome) action" where
  "native_body env clk start confirm code active p =
     bind_action (from_result (expect ''native registration owns its validated callback'' (pp_native p))) (\<lambda>native.
     bind_action (try_read (\<lambda>h. checkpoint_answer h (pp_effect p) start)) (\<lambda>_.
     bind_action (try_read (authorize (clk 4) (clk 5) (pp_invocation p))) (\<lambda>_.
     bind_action (prepared_gate p) (\<lambda>_.
     bind_action (begin_effect (pp_effect p)) (\<lambda>_.
     bind_action (run_callback code native (pp_invocation p) active (pp_entry p)) (\<lambda>outcome.
     bind_action (observe_effect (pp_effect p) (co_effects outcome)) (\<lambda>_.
     bind_action (read_state (\<lambda>h. validate_outcome (env_schemas env) (env_value env) (env_error env) (prepared_entry h p) outcome)) (\<lambda>validated.
     bind_action (try_read (\<lambda>h. checkpoint_answer h (pp_effect p) confirm)) (\<lambda>_.
     read_state (\<lambda>h. override_result (authorize (clk 6) (clk 7) (pp_invocation p) h) validated))))))))))"

definition invoke_native ::
  "host_env \<Rightarrow> (nat \<Rightarrow> instant) \<Rightarrow> bool embedded_result \<Rightarrow> bool embedded_result \<Rightarrow> callback_code \<Rightarrow> string set \<Rightarrow> capability_snapshot \<Rightarrow>
   string \<Rightarrow> capability_caller \<Rightarrow> permissions_ref \<Rightarrow> json_value \<Rightarrow> control_ref \<Rightarrow> (capability_host, capability_outcome) action" where
  "invoke_native env clk start confirm code active s name caller permissions arguments control =
     bind_action (require (snap_runtime_id s \<notin> active) capability_reentry) (\<lambda>_.
     bind_action (snapshot_prepare env clk s name caller permissions arguments control Native) (\<lambda>p.
     bind_action (on_error (bind_action (drop_effect (pp_effect p)) (\<lambda>_. permit_drop (pp_entry p)))
         (native_body env clk start confirm code (insert (snap_runtime_id s) active) p)) (\<lambda>outcome.
     bind_action (drop_prepared p) (\<lambda>_. ret outcome))))"

text \<open>
  A blocking wait polls until an outcome is there; each wake-up has its readings and what other threads
  did in the meantime, and \<open>None\<close> means that the outcome has not arrived within the wake-ups given.
\<close>

record wakeup =
  wk_clks :: "nat \<Rightarrow> nat \<Rightarrow> instant"
  wk_answer :: "bool embedded_result"
  wk_others :: "capability_host \<Rightarrow> capability_host"

fun handle_wait :: "wakeup list \<Rightarrow> string \<Rightarrow> capability_host \<Rightarrow> (capability_outcome embedded_result \<times> capability_host) option" where
  "handle_wait [] ident h = None"
| "handle_wait (w # ws) ident h =
     (case handle_poll (wk_clks w) (wk_answer w) ident h of
        (Ok None, h') \<Rightarrow> handle_wait ws ident (wk_others w h')
      | (Ok (Some outcome), h') \<Rightarrow> Some (Ok outcome, h')
      | (Err e, h') \<Rightarrow> Some (Err e, h')
      | (Panic p, h') \<Rightarrow> Some (Panic p, h'))"

definition wait_outcome :: "capability_outcome embedded_result \<Rightarrow> capability_outcome embedded_result" where
  "wait_outcome r = (case r of Err e \<Rightarrow> Ok \<lparr>co_result = Err e, co_effects = UnknownEffect\<rparr> | _ \<Rightarrow> r)"

definition invoke_queued ::
  "host_env \<Rightarrow> (host_request \<Rightarrow> serialization) \<Rightarrow> (nat \<Rightarrow> instant) \<Rightarrow> wakeup list \<Rightarrow> string set \<Rightarrow> capability_snapshot \<Rightarrow> string \<Rightarrow>
   capability_caller \<Rightarrow> permissions_ref \<Rightarrow> json_value \<Rightarrow> control_ref \<Rightarrow> capability_host \<Rightarrow>
   (capability_outcome embedded_result \<times> capability_host) option" where
  "invoke_queued env ser clk wakeups active s name caller permissions arguments control h =
     (case submit_queued env ser clk active s name caller permissions arguments control h of
        (Ok ident, h') \<Rightarrow>
          (case handle_wait wakeups ident h' of
             None \<Rightarrow> None
           | Some (r, h'') \<Rightarrow> Some (wait_outcome r, snd (handle_drop ident h'')))
      | (Err e, h') \<Rightarrow> Some (Err e, h')
      | (Panic p, h') \<Rightarrow> Some (Panic p, h'))"

text \<open>The diagnostic wait of the call is measured from before the dispatch to after it.\<close>

definition end_measurement :: "instant \<Rightarrow> instant option \<Rightarrow> control_ref \<Rightarrow> capability_host \<Rightarrow> capability_host" where
  "end_measurement now started control h =
     (case started of
        None \<Rightarrow> h
      | Some t \<Rightarrow> h\<lparr>ho_controls := (ho_controls h)(control := drop_host_wait_measurement now t (ho_controls h control))\<rparr>)"

definition snapshot_invoke ::
  "host_env \<Rightarrow> (host_request \<Rightarrow> serialization) \<Rightarrow> (nat \<Rightarrow> instant) \<Rightarrow> bool embedded_result \<Rightarrow> bool embedded_result \<Rightarrow> callback_code \<Rightarrow>
   wakeup list \<Rightarrow> string set \<Rightarrow> capability_snapshot \<Rightarrow> string \<Rightarrow> capability_caller \<Rightarrow> permissions_ref \<Rightarrow> json_value \<Rightarrow> control_ref \<Rightarrow>
   capability_host \<Rightarrow> (capability_outcome embedded_result \<times> capability_host) option" where
  "snapshot_invoke env ser clk start confirm code wakeups active s name caller permissions arguments control h =
     (case bt_get (snap_entries s) name of
        None \<Rightarrow> Some (Err capability_not_found, h)
      | Some r \<Rightarrow>
          let started = measure_diagnostic_host_wait (clk 0) (ho_controls h control);
              called = (case cd_execution (en_descriptor (entry_at (cr_arena (ho_registry h)) r)) of
                  Native \<Rightarrow> Some (invoke_native env (\<lambda>i. clk (2 + i)) start confirm code active s name caller permissions arguments control h)
                | Queued \<Rightarrow> invoke_queued env ser (\<lambda>i. clk (2 + i)) wakeups active s name caller permissions arguments control h)
          in map_option (\<lambda>(outcome, h'). (outcome, end_measurement (clk 1) started control h')) called)"

section \<open>Closing the registry with its broker\<close>

definition host_unregister :: "string \<Rightarrow> (capability_host, registration_status) action" where
  "host_unregister ident =
     bind_action (on_registry (unregister_locked ident)) (\<lambda>r.
     bind_action (on_registry (on_arena (entry_close r))) (\<lambda>_.
     bind_action (retire_registration ident) (\<lambda>_.
     try_read (\<lambda>h. entry_status (cr_arena (ho_registry h)) r))))"

fun close_entries :: "bool \<Rightarrow> entry_ref list \<Rightarrow> (capability_host, bool) action" where
  "close_entries drained [] = ret drained"
| "close_entries drained (r # rs) =
     bind_action (on_registry (on_arena (entry_close r))) (\<lambda>_.
     bind_action (try_read (\<lambda>h. entry_status (cr_arena (ho_registry h)) r)) (\<lambda>status.
     close_entries (drained \<and> st_drained status) rs))"

definition close_and_poll :: "(capability_host, bool) action" where
  "close_and_poll =
     bind_action (on_registry close_registry_locked) (\<lambda>entries.
     bind_action broker_close (\<lambda>_. close_entries True entries))"

definition registry_drop :: "(capability_host, unit) action" where
  "registry_drop =
     bind_action broker_close (\<lambda>_.
     bind_action (read_state (\<lambda>h. bt_values (rg_entries (guarded (cr_state (ho_registry h)))))) (\<lambda>entries.
     for_each (\<lambda>r. on_registry (on_arena (entry_close r))) entries))"

section \<open>Binding a module\<close>

record module_identity =
  mi_plugin_id :: string
  mi_generation :: string
  mi_security_partition :: string
  mi_workspace_root :: "string option"

record module_capabilities =
  mc_snapshot :: capability_snapshot
  mc_permissions :: permissions_ref
  mc_execution_revision :: string
  mc_initialization :: "string list option"

definition module_capabilities_new :: "capability_snapshot \<Rightarrow> permissions_ref \<Rightarrow> string \<Rightarrow> module_capabilities embedded_result" where
  "module_capabilities_new snapshot permissions execution_revision =
     (if bad_name execution_revision then Err (error_invalid ''module execution revision must be nonempty without NUL'')
      else Ok \<lparr>mc_snapshot = snapshot, mc_permissions = permissions, mc_execution_revision = execution_revision, mc_initialization = None\<rparr>)"

fun initialization_check :: "capability_arena \<Rightarrow> capability_snapshot \<Rightarrow> capability_permissions \<Rightarrow> string list \<Rightarrow> unit embedded_result" where
  "initialization_check a s permissions [] = Ok ()"
| "initialization_check a s permissions (n # ns) =
     and_then (snapshot_has a s n permissions) (\<lambda>available.
       if \<not> available then Err (error_new PermissionDenied ''initialization capability is unavailable or unauthorized'')
       else initialization_check a s permissions ns)"

definition with_initialization_capabilities :: "capability_host \<Rightarrow> module_capabilities \<Rightarrow> string list \<Rightarrow> module_capabilities embedded_result" where
  "with_initialization_capabilities h m names =
     and_then (initialization_check (cr_arena (ho_registry h)) (mc_snapshot m) (ho_permissions h (mc_permissions m)) names) (\<lambda>_.
       Ok (m\<lparr>mc_initialization := Some names\<rparr>))"

definition allows_initialization :: "module_capabilities \<Rightarrow> string \<Rightarrow> bool" where
  "allows_initialization m name = (case mc_initialization m of None \<Rightarrow> True | Some names \<Rightarrow> name \<in> set names)"

definition module_caller ::
  "module_capabilities \<Rightarrow> module_identity \<Rightarrow> string \<Rightarrow> string option \<Rightarrow> string option \<Rightarrow> capability_caller embedded_result" where
  "module_caller m d operation_id session_id request_id =
     (let caller = \<lparr>cc_runtime_id = snap_runtime_id (mc_snapshot m), cc_plugin_id = mi_plugin_id d,
          cc_package_generation = mi_generation d, cc_execution_revision = mc_execution_revision m,
          cc_security_partition = mi_security_partition d, cc_operation_id = operation_id, cc_request_id = request_id,
          cc_session_id = session_id, cc_workspace_root = mi_workspace_root d\<rparr>
      in and_then (caller_validate caller (snap_runtime_id (mc_snapshot m))) (\<lambda>_. Ok caller))"

end
