(* ===== verification/Capability_System.thy ===== *)
theory Capability_System
  imports Capability_Registry
begin

text \<open>
  The capability registry under Rust's ownership discipline, as a step relation whose steps are the
  critical sections of all threads in any order. Ghost state lists the live permits (each dropped
  once by its owner) and the threads that have taken a callback out of a closed entry and not yet
  reported its release.
\<close>

record capability_system =
  sy_registry :: capability_registry
  sy_permits :: "entry_ref list"
  sy_releases :: "entry_ref list"

abbreviation sy_arena :: "capability_system \<Rightarrow> capability_arena" where
  "sy_arena s \<equiv> cr_arena (sy_registry s)"

abbreviation sy_state :: "capability_system \<Rightarrow> registry_state" where
  "sy_state s \<equiv> guarded (cr_state (sy_registry s))"

definition put_arena :: "capability_arena \<Rightarrow> capability_system \<Rightarrow> capability_system" where
  "put_arena a s = s\<lparr>sy_registry := (sy_registry s)\<lparr>cr_arena := a\<rparr>\<rparr>"

text \<open>A taken callback makes its taker responsible for reporting the release.\<close>

definition note_taken :: "entry_ref \<Rightarrow> native_ref option \<Rightarrow> capability_system \<Rightarrow> capability_system" where
  "note_taken r taken s = (if taken = None then s else s\<lparr>sy_releases := r # sy_releases s\<rparr>)"

text \<open>An entry is closed only after its name has been taken out of the active names.\<close>

definition inactive :: "capability_system \<Rightarrow> entry_ref \<Rightarrow> bool" where
  "inactive s r \<longleftrightarrow> (\<forall>n i. bt_get (rg_active (sy_state s)) n = Some i \<longrightarrow> i \<noteq> en_id (entry_at (sy_arena s) r))"

inductive capability_step :: "capability_system \<Rightarrow> capability_system \<Rightarrow> bool" where
  cap_register: "capability_step s (s\<lparr>sy_registry := snd (registry_register js is_semver clk requests (sy_registry s))\<rparr>)"
| cap_snapshot: "capability_step s (s\<lparr>sy_registry := snd (registry_snapshot (sy_registry s))\<rparr>)"
| cap_unregister: "capability_step s (s\<lparr>sy_registry := snd (unregister_locked ident (sy_registry s))\<rparr>)"
| cap_shutdown: "capability_step s (s\<lparr>sy_registry := snd (close_registry_locked (sy_registry s))\<rparr>)"
| cap_forget: "capability_step s (s\<lparr>sy_registry := snd (capability_forget ident (sy_registry s))\<rparr>)"
| cap_restrict:
    "r < length (ca_entries (sy_arena s)) \<Longrightarrow> rg_closing (sy_state s) \<Longrightarrow>
     capability_step s (put_arena (snd (restrict_to_finalization r (sy_arena s))) s)"
| cap_close:
    "r < length (ca_entries (sy_arena s)) \<Longrightarrow> inactive s r \<Longrightarrow> close_entry_locked r (sy_arena s) = (Ok taken, a) \<Longrightarrow>
     capability_step s (note_taken r taken (put_arena a s))"
| cap_released:
    "r \<in> set (sy_releases s) \<Longrightarrow>
     capability_step s ((put_arena (snd (callback_released r (sy_arena s))) s)\<lparr>sy_releases := remove1 r (sy_releases s)\<rparr>)"
| cap_admit:
    "r < length (ca_entries (sy_arena s)) \<Longrightarrow> entry_admit r finalization (sy_arena s) = (Ok native, a) \<Longrightarrow>
     capability_step s ((put_arena a s)\<lparr>sy_permits := r # sy_permits s\<rparr>)"
| cap_admit_refused:
    "entry_admit r finalization (sy_arena s) = (Err e, a) \<Longrightarrow> capability_step s (put_arena a s)"
| cap_drop:
    "r \<in> set (sy_permits s) \<Longrightarrow> drop_permit_locked r (sy_arena s) = (Ok taken, a) \<Longrightarrow>
     capability_step s (note_taken r taken ((put_arena a s)\<lparr>sy_permits := remove1 r (sy_permits s)\<rparr>))"
| cap_drop_panic:
    "r \<in> set (sy_permits s) \<Longrightarrow> drop_permit_locked r (sy_arena s) = (Panic p, a) \<Longrightarrow>
     capability_step s ((put_arena a s)\<lparr>sy_permits := remove1 r (sy_permits s)\<rparr>)"

inductive capability_reachable :: "embedded_runtime_config \<Rightarrow> capability_system \<Rightarrow> bool" for config where
  cap_start:
    "capability_registry_new broker runtime_id config = Ok g \<Longrightarrow>
     capability_reachable config \<lparr>sy_registry = g, sy_permits = [], sy_releases = []\<rparr>"
| cap_next: "capability_reachable config s \<Longrightarrow> capability_step s t \<Longrightarrow> capability_reachable config t"

section \<open>The invariant\<close>

text \<open>What holds of one entry, given the number of its permits and whether a release is under way.\<close>

definition entry_ok :: "capability_entry \<Rightarrow> nat \<Rightarrow> bool \<Rightarrow> bool" where
  "entry_ok e permits releasing \<longleftrightarrow>
     \<not> poisoned (en_state e) \<and>
     (let st = guarded (en_state e) in
        es_running st = permits \<and> permits \<le> cd_max_concurrent (en_descriptor e) \<and>
        es_releasing st = releasing \<and> (releasing \<longrightarrow> es_native st = None) \<and>
        (es_accepting st \<or> 0 < es_running st \<longrightarrow> \<not> releasing \<and> (es_native st \<noteq> None \<longleftrightarrow> cd_execution (en_descriptor e) = Native)) \<and>
        (\<not> es_accepting st \<and> es_running st = 0 \<longrightarrow> es_native st = None))"

definition entries_ok :: "capability_arena \<Rightarrow> entry_ref list \<Rightarrow> entry_ref list \<Rightarrow> bool" where
  "entries_ok a permits releases \<longleftrightarrow>
     set permits \<subseteq> {..< length (ca_entries a)} \<and> set releases \<subseteq> {..< length (ca_entries a)} \<and> distinct releases \<and>
     (\<forall>r < length (ca_entries a). entry_ok (entry_at a r) (count_list permits r) (r \<in> set releases))"

definition arena_inv :: "capability_arena \<Rightarrow> entry_ref list \<Rightarrow> entry_ref list \<Rightarrow> bool" where
  "arena_inv a permits releases \<longleftrightarrow>
     \<not> poisoned (ca_running a) \<and> guarded (ca_running a) = length permits \<and> length permits \<le> ca_limit a \<and>
     entries_ok a permits releases"

text \<open>The registry's maps against the arena: identities are issued in order and name one entry each.\<close>

definition issued :: "string \<Rightarrow> u64 \<Rightarrow> string set" where
  "issued runtime_id sequence = identity_render CapabilityIdentity runtime_id ` {1..sequence}"

definition maps_inv :: "capability_registry \<Rightarrow> bool" where
  "maps_inv g \<longleftrightarrow>
     (let st = guarded (cr_state g); es = ca_entries (cr_arena g) in
        \<not> poisoned (cr_state g) \<and> bt_wf (rg_active st) \<and> bt_wf (rg_entries st) \<and>
        length (rg_entries st) \<le> max_registered_capabilities (cr_config g) \<and>
        ca_limit (cr_arena g) = max_host_requests (cr_config g) \<and>
        distinct (map en_id es) \<and> set (map en_id es) \<subseteq> issued (cr_runtime_id g) (rg_sequence st) \<and>
        (\<forall>i r. bt_get (rg_entries st) i = Some r \<longrightarrow> r < length es \<and> en_id (es ! r) = i) \<and>
        (\<forall>n i. bt_get (rg_active st) n = Some i \<longrightarrow>
           (\<exists>r. bt_get (rg_entries st) i = Some r \<and> cd_name (en_descriptor (es ! r)) = n \<and> es_accepting (guarded (en_state (es ! r))))) \<and>
        (rg_closing st \<longrightarrow> rg_active st = []) \<and>
        (\<forall>e \<in> set es. es_finalization_only (guarded (en_state e)) \<longrightarrow> rg_closing st) \<and>
        rg_sequence st \<le> u64_max)"

definition capability_inv :: "capability_system \<Rightarrow> bool" where
  "capability_inv s \<longleftrightarrow> arena_inv (sy_arena s) (sy_permits s) (sy_releases s) \<and> maps_inv (sy_registry s)"

end
