(* ===== verification/Capability_Inv.thy ===== *)
theory Capability_Inv
  imports Capability_System
begin

text \<open>
  Preservation of the registry's invariant by every critical section, and the facts about one
  entry's life that follow from it.
\<close>

section \<open>Updating one entry\<close>

lemma set_entry_simps [simp]:
  "length (ca_entries (set_entry_state r m a)) = length (ca_entries a)"
  "ca_running (set_entry_state r m a) = ca_running a" "ca_limit (set_entry_state r m a) = ca_limit a"
  by (simp_all add: set_entry_state_def)

lemma entry_at_set:
  "r < length (ca_entries a) \<Longrightarrow>
   entry_at (set_entry_state r m a) q = (if q = r then (entry_at a r)\<lparr>en_state := m\<rparr> else entry_at a q)"
  by (simp add: set_entry_state_def entry_at_def nth_list_update)

lemma entry_at_running [simp]: "entry_at (a\<lparr>ca_running := x\<rparr>) r = entry_at a r"
  by (simp add: entry_at_def)

lemma set_entry_ids: "map en_id (ca_entries (set_entry_state r m a)) = map en_id (ca_entries a)"
proof (cases "r < length (ca_entries a)")
  case True
  then show ?thesis by (simp add: set_entry_state_def entry_at_def map_update list_update_same_conv)
qed (simp add: set_entry_state_def list_update_beyond)

lemma entries_okD:
  assumes "entries_ok a P R"
  shows "r \<in> set P \<Longrightarrow> r < length (ca_entries a)" "r \<in> set R \<Longrightarrow> r < length (ca_entries a)" "distinct R"
    "r < length (ca_entries a) \<Longrightarrow> entry_ok (entry_at a r) (count_list P r) (r \<in> set R)"
  using assms by (auto simp: entries_ok_def)

text \<open>A step that touches one entry has to re-establish what holds of that entry only.\<close>

lemma entries_ok_set:
  assumes "entries_ok a P R" "r < length (ca_entries a)"
    and "set P' \<subseteq> insert r (set P)" "set R' \<subseteq> insert r (set R)" "distinct R'"
    and "\<And>q. q \<noteq> r \<Longrightarrow> count_list P' q = count_list P q \<and> (q \<in> set R' \<longleftrightarrow> q \<in> set R)"
    and "entry_ok ((entry_at a r)\<lparr>en_state := m\<rparr>) (count_list P' r) (r \<in> set R')"
  shows "entries_ok (set_entry_state r m (a\<lparr>ca_running := x\<rparr>)) P' R'"
  unfolding entries_ok_def
proof (intro conjI allI impI)
  fix q
  assume "q < length (ca_entries (set_entry_state r m (a\<lparr>ca_running := x\<rparr>)))"
  then show "entry_ok (entry_at (set_entry_state r m (a\<lparr>ca_running := x\<rparr>)) q) (count_list P' q) (q \<in> set R')"
    using assms(2,6,7) entries_okD(4) [OF assms(1), of q] by (cases "q = r") (simp_all add: entry_at_set)
qed (use assms entries_okD(1,2) [OF assms(1)] in \<open>auto 4 3\<close>)

lemma count_list_remove1: "r \<in> set xs \<Longrightarrow> count_list (remove1 r xs) q = (if q = r then count_list xs r - 1 else count_list xs q)"
  by (induction xs) auto

lemma count_list_pos: "r \<in> set xs \<Longrightarrow> 0 < count_list xs r"
  by (induction xs) auto

section \<open>The arena's sections\<close>

lemma arena_invD:
  assumes "arena_inv a P R"
  shows "\<not> poisoned (ca_running a)" "guarded (ca_running a) = length P" "length P \<le> ca_limit a" "entries_ok a P R"
  using assms by (auto simp: arena_inv_def)

lemma take_callback_ok:
  assumes "\<not> poisoned m" "es_running st = k" "k \<le> cd_max_concurrent (en_descriptor e)" "\<not> es_releasing st \<or> \<not> es_accepting st \<and> k = 0 \<and> es_native st = None"
    "es_accepting st \<or> 0 < k \<or> es_native st \<noteq> None \<Longrightarrow> (es_native st \<noteq> None \<longleftrightarrow> cd_execution (en_descriptor e) = Native)"
  shows "entry_ok (e\<lparr>en_state := mutex_recover m (\<lambda>_. snd (take_callback st))\<rparr>) k (es_releasing st \<or> fst (take_callback st) \<noteq> None)"
  using assms by (auto simp: entry_ok_def take_callback_def Let_def)

lemma close_section:
  assumes "arena_inv a P R" "r < length (ca_entries a)" "close_entry_locked r a = (Ok taken, a')"
  shows "arena_inv a' P (if taken = None then R else r # R)"
proof -
  note d = arena_invD [OF assms(1)]
  have e: "entry_ok (entry_at a r) (count_list P r) (r \<in> set R)" by (rule entries_okD(4) [OF d(4) assms(2)])
  let ?st = "(entry_guard a r)\<lparr>es_accepting := False\<rparr>"
  let ?m = "mutex_recover (en_state (entry_at a r)) (\<lambda>_. snd (take_callback ?st))"
  have t: "taken = fst (take_callback ?st)" "a' = set_entry_state r ?m a"
    using assms(3) by (auto simp: close_entry_locked_def Let_def)
  have rel: "es_releasing (entry_guard a r) = (r \<in> set R)" using e by (simp add: entry_ok_def Let_def)
  have new: "taken \<noteq> None \<Longrightarrow> r \<notin> set R" using e by (auto simp: t take_callback_def entry_ok_def Let_def split: if_splits)
  have "entry_ok ((entry_at a r)\<lparr>en_state := ?m\<rparr>) (count_list P r) (es_releasing ?st \<or> fst (take_callback ?st) \<noteq> None)"
    by (rule take_callback_ok) (use e in \<open>auto simp: entry_ok_def Let_def\<close>)
  then have "entries_ok (set_entry_state r ?m (a\<lparr>ca_running := ca_running a\<rparr>)) P (if taken = None then R else r # R)"
    using new rel entries_okD(3) [OF d(4)] t(1) by (intro entries_ok_set [OF d(4) assms(2)]) (auto split: if_splits)
  then show ?thesis using d(1-3) by (simp add: arena_inv_def t(2))
qed

lemma released_section:
  assumes "arena_inv a P R" "r \<in> set R"
  shows "arena_inv (snd (callback_released r a)) P (remove1 r R)"
proof -
  note d = arena_invD [OF assms(1)]
  note l = entries_okD(2) [OF d(4) assms(2)] and dist = entries_okD(3) [OF d(4)]
  have e: "entry_ok (entry_at a r) (count_list P r) True" using entries_okD(4) [OF d(4) l] assms(2) by simp
  let ?m = "mutex_recover (en_state (entry_at a r)) (\<lambda>st. st\<lparr>es_releasing := False\<rparr>)"
  have "entries_ok (set_entry_state r ?m (a\<lparr>ca_running := ca_running a\<rparr>)) P (remove1 r R)"
    using dist e by (intro entries_ok_set [OF d(4) l]) (auto simp: entry_ok_def Let_def)
  then show ?thesis using d(1-3) by (simp add: arena_inv_def callback_released_def write_state_def)
qed

lemma admit_section:
  assumes "arena_inv a P R" "r < length (ca_entries a)" "entry_admit r f a = (Ok native, a')"
  shows "arena_inv a' (r # P) R" "native \<noteq> None \<longleftrightarrow> cd_execution (en_descriptor (entry_at a r)) = Native"
    "\<not> entry_refuses (entry_guard a r) f"
proof -
  note d = arena_invD [OF assms(1)]
  have e: "entry_ok (entry_at a r) (count_list P r) (r \<in> set R)" by (rule entries_okD(4) [OF d(4) assms(2)])
  let ?m = "mutex_new ((entry_guard a r)\<lparr>es_running := es_running (entry_guard a r) + 1\<rparr>)"
  have t: "a' = set_entry_state r ?m (a\<lparr>ca_running := mutex_new (length P + 1)\<rparr>)" "native = es_native (entry_guard a r)"
    "\<not> entry_refuses (entry_guard a r) f" "length P < ca_limit a" "es_running (entry_guard a r) < cd_max_concurrent (en_descriptor (entry_at a r))"
    using assms(3) d(2) by (auto simp: entry_admit_def Let_def split: if_splits)
  have acc: "es_accepting (entry_guard a r)" using t(3) by (simp add: entry_refuses_def)
  show "\<not> entry_refuses (entry_guard a r) f" by (rule t(3))
  show "native \<noteq> None \<longleftrightarrow> cd_execution (en_descriptor (entry_at a r)) = Native" using e acc t(2) by (simp add: entry_ok_def Let_def)
  have "entries_ok (set_entry_state r ?m (a\<lparr>ca_running := mutex_new (length P + 1)\<rparr>)) (r # P) R"
    using e acc t(5) entries_okD(3) [OF d(4)]
    by (intro entries_ok_set [OF d(4) assms(2)]) (auto simp: entry_ok_def Let_def)
  then show "arena_inv a' (r # P) R" using t by (simp add: arena_inv_def)
qed

lemma admit_refused: "entry_admit r f a = (Err e, a') \<Longrightarrow> a' = a"
  by (auto simp: entry_admit_def Let_def split: if_splits)

lemma drop_section:
  assumes "arena_inv a P R" "r \<in> set P"
  shows "\<exists>taken a'. drop_permit_locked r a = (Ok taken, a') \<and> arena_inv a' (remove1 r P) (if taken = None then R else r # R)"
proof -
  note d = arena_invD [OF assms(1)]
  note l = entries_okD(1) [OF d(4) assms(2)]
  have e: "entry_ok (entry_at a r) (count_list P r) (r \<in> set R)" by (rule entries_okD(4) [OF d(4) l])
  have pos: "0 < count_list P r" "0 < length P" using count_list_pos [OF assms(2)] assms(2) by auto
  let ?k = "count_list P r - 1"
  let ?st = "(entry_guard a r)\<lparr>es_running := ?k\<rparr>"
  let ?m = "mutex_recover (en_state (entry_at a r)) (\<lambda>_. snd (take_callback ?st))"
  let ?a = "set_entry_state r ?m (a\<lparr>ca_running := mutex_recover (ca_running a) (\<lambda>_. length P - 1)\<rparr>)"
  have run: "es_running (entry_guard a r) = count_list P r" using e by (simp add: entry_ok_def Let_def)
  have sub: "checked_sub (length P) 1 = Some (length P - 1)" "checked_sub (count_list P r) 1 = Some ?k" using pos by (simp_all add: Suc_leI)
  have t: "drop_permit_locked r a = (Ok (fst (take_callback ?st)), ?a)"
    by (simp only: drop_permit_locked_def Let_def d(2) run sub expect.simps and_then.simps outcome.case prod.case case_prod_beta fst_conv snd_conv)
  have nr: "r \<notin> set R" using e pos(1) by (auto simp: entry_ok_def Let_def)
  have "entry_ok ((entry_at a r)\<lparr>en_state := ?m\<rparr>) ?k (es_releasing ?st \<or> fst (take_callback ?st) \<noteq> None)"
    by (rule take_callback_ok) (use e pos(1) in \<open>auto simp: entry_ok_def Let_def\<close>)
  moreover have "\<not> es_releasing ?st" using e nr by (simp add: entry_ok_def Let_def)
  ultimately have "entries_ok ?a (remove1 r P) (if fst (take_callback ?st) = None then R else r # R)"
    using nr entries_okD(3) [OF d(4)] assms(2)
    by (intro entries_ok_set [OF d(4) l]) (auto simp: count_list_remove1 dest: notin_set_remove1 split: if_splits)
  then show ?thesis using t d(1-3) assms(2) by (auto simp: arena_inv_def length_remove1)
qed

lemma restrict_section:
  assumes "arena_inv a P R" "r < length (ca_entries a)"
  shows "arena_inv (snd (restrict_to_finalization r a)) P R"
proof -
  note d = arena_invD [OF assms(1)]
  have e: "entry_ok (entry_at a r) (count_list P r) (r \<in> set R)" by (rule entries_okD(4) [OF d(4) assms(2)])
  let ?m = "mutex_recover (en_state (entry_at a r)) (\<lambda>st. st\<lparr>es_finalization_only := True\<rparr>)"
  have "entries_ok (set_entry_state r ?m (a\<lparr>ca_running := ca_running a\<rparr>)) P R"
    using e entries_okD(3) [OF d(4)] by (intro entries_ok_set [OF d(4) assms(2)]) (auto simp: entry_ok_def Let_def)
  then show ?thesis using d(1-3) by (simp add: arena_inv_def restrict_to_finalization_def write_state_def)
qed

section \<open>The registry's maps\<close>

lemma maps_invD:
  assumes "maps_inv g"
  shows "\<not> poisoned (cr_state g)" "bt_wf (rg_active (guarded (cr_state g)))" "bt_wf (rg_entries (guarded (cr_state g)))"
    "length (rg_entries (guarded (cr_state g))) \<le> max_registered_capabilities (cr_config g)"
    "ca_limit (cr_arena g) = max_host_requests (cr_config g)"
    "distinct (map en_id (ca_entries (cr_arena g)))"
    "en_id ` set (ca_entries (cr_arena g)) \<subseteq> issued (cr_runtime_id g) (rg_sequence (guarded (cr_state g)))"
    "bt_get (rg_entries (guarded (cr_state g))) i = Some r \<Longrightarrow> r < length (ca_entries (cr_arena g)) \<and> en_id (ca_entries (cr_arena g) ! r) = i"
    "bt_get (rg_active (guarded (cr_state g))) n = Some i \<Longrightarrow>
      \<exists>r. bt_get (rg_entries (guarded (cr_state g))) i = Some r \<and> cd_name (en_descriptor (ca_entries (cr_arena g) ! r)) = n \<and>
        es_accepting (guarded (en_state (ca_entries (cr_arena g) ! r)))"
    "rg_closing (guarded (cr_state g)) \<Longrightarrow> rg_active (guarded (cr_state g)) = []"
    "e \<in> set (ca_entries (cr_arena g)) \<Longrightarrow> es_finalization_only (guarded (en_state e)) \<Longrightarrow> rg_closing (guarded (cr_state g))"
    "rg_sequence (guarded (cr_state g)) \<le> u64_max"
  using assms by (auto simp: maps_inv_def Let_def)

text \<open>A section of one entry keeps the maps if it does not close an active entry.\<close>

lemma maps_inv_entry:
  assumes "maps_inv g" "r < length (ca_entries (cr_arena g))"
    and "es_accepting (entry_guard (cr_arena g) r) \<Longrightarrow> \<not> es_accepting (guarded m) \<Longrightarrow>
      (\<And>n i. bt_get (rg_active (guarded (cr_state g))) n = Some i \<Longrightarrow> i \<noteq> en_id (entry_at (cr_arena g) r))"
    and "es_finalization_only (guarded m) \<Longrightarrow> es_finalization_only (entry_guard (cr_arena g) r) \<or> rg_closing (guarded (cr_state g))"
  shows "maps_inv (g\<lparr>cr_arena := set_entry_state r m ((cr_arena g)\<lparr>ca_running := x\<rparr>)\<rparr>)"
proof -
  let ?a = "set_entry_state r m ((cr_arena g)\<lparr>ca_running := x\<rparr>)"
  note d = maps_invD [OF assms(1)]
  have len: "length (ca_entries ?a) = length (ca_entries (cr_arena g))" by simp
  have at: "ca_entries ?a ! q = (if q = r then (ca_entries (cr_arena g) ! r)\<lparr>en_state := m\<rparr> else ca_entries (cr_arena g) ! q)" for q
    using entry_at_set [of r "(cr_arena g)\<lparr>ca_running := x\<rparr>" m q] assms(2) by (simp add: entry_at_def)
  have ids: "map en_id (ca_entries ?a) = map en_id (ca_entries (cr_arena g))" using set_entry_ids [of r m "(cr_arena g)\<lparr>ca_running := x\<rparr>"] by simp
  then have ids': "en_id ` set (ca_entries ?a) = en_id ` set (ca_entries (cr_arena g))" by (metis list.set_map)
  have active: "\<exists>q. bt_get (rg_entries (guarded (cr_state g))) i = Some q \<and> cd_name (en_descriptor (ca_entries ?a ! q)) = n \<and>
      es_accepting (guarded (en_state (ca_entries ?a ! q)))" if act: "bt_get (rg_active (guarded (cr_state g))) n = Some i" for n i
  proof -
    obtain q where q: "bt_get (rg_entries (guarded (cr_state g))) i = Some q" "cd_name (en_descriptor (ca_entries (cr_arena g) ! q)) = n"
      "es_accepting (guarded (en_state (ca_entries (cr_arena g) ! q)))" using d(9) [OF act] by blast
    then show ?thesis using d(8) [OF q(1)] assms(3) [OF _ _ act] by (intro exI [of _ q]) (auto simp: at entry_at_def)
  qed
  have fin: "rg_closing (guarded (cr_state g))" if e: "e \<in> set (ca_entries ?a)" "es_finalization_only (guarded (en_state e))" for e
  proof -
    obtain q where q: "q < length (ca_entries (cr_arena g))" "e = ca_entries ?a ! q" using e(1) unfolding in_set_conv_nth len by blast
    show ?thesis
    proof (cases "q = r")
      case True
      then show ?thesis using e(2) q(2) assms(4) d(11) [OF nth_mem [OF assms(2)]] by (auto simp: at entry_at_def)
    next
      case False
      then show ?thesis using e(2) q(2) d(11) [OF nth_mem [OF q(1)]] by (simp add: at)
    qed
  qed
  show ?thesis
    unfolding maps_inv_def Let_def
    using d(1-5,10,12) d(6) [folded ids] d(7) [folded ids'] d(8) active fin by (auto simp: at)
qed

text \<open>A critical section of the registry that leaves the arena alone.\<close>

lemma with_registry_maps:
  assumes "maps_inv g" "\<not> is_panic (fst (body (guarded (cr_state g), cr_arena g)))"
    and "\<And>r st a. body (guarded (cr_state g), cr_arena g) = (r, st, a) \<Longrightarrow> maps_inv (g\<lparr>cr_state := mutex_new st, cr_arena := a\<rparr>)"
  shows "maps_inv (snd (with_registry g body))"
proof -
  obtain r st a where b: "body (guarded (cr_state g), cr_arena g) = (r, st, a)" by (metis prod.exhaust)
  have "\<lparr>guarded = st, poisoned = is_panic r\<rparr> = mutex_new st" using assms(2) b by (simp add: mutex_new_def)
  then show ?thesis using assms(3) [OF b] maps_invD(1) [OF assms(1)] b by (simp add: with_registry_def)
qed

lemma capability_issued_mono: "m \<le> n \<Longrightarrow> issued i m \<subseteq> issued i n"
  by (auto simp: issued_def)

lemma capability_issued_fresh: "identity_render CapabilityIdentity i (Suc n) \<notin> issued i n"
  by (auto simp: issued_def)

text \<open>Registering one prepared request keeps the maps and adds exactly its name and identity.\<close>

lemma maps_inv_add:
  assumes "maps_inv g" "\<not> rg_closing (guarded (cr_state g))" "rg_sequence (guarded (cr_state g)) < u64_max"
    and "length (rg_entries (guarded (cr_state g))) < max_registered_capabilities (cr_config g)"
    and "bt_get (rg_active (guarded (cr_state g))) (cd_name (rr_descriptor (fst p))) = None"
    and "ident = identity_render CapabilityIdentity (cr_runtime_id g) (rg_sequence (guarded (cr_state g)) + 1)"
  shows "maps_inv (g\<lparr>cr_state := mutex_new ((guarded (cr_state g))\<lparr>rg_sequence := rg_sequence (guarded (cr_state g)) + 1,
      rg_active := bt_insert (cd_name (rr_descriptor (fst p))) ident (rg_active (guarded (cr_state g))),
      rg_entries := bt_insert ident (length (ca_entries (cr_arena g))) (rg_entries (guarded (cr_state g)))\<rparr>),
    cr_arena := (cr_arena g)\<lparr>ca_entries := ca_entries (cr_arena g) @ [new_entry ident p]\<rparr>\<rparr>)"
proof -
  note d = maps_invD [OF assms(1)]
  have fresh: "ident \<notin> en_id ` set (ca_entries (cr_arena g))" using d(7) capability_issued_fresh assms(6) by auto
  then have new: "bt_get (rg_entries (guarded (cr_state g))) ident = None"
    using d(8) by (metis imageI nth_mem option.exhaust)
  have ids: "ident \<in> issued (cr_runtime_id g) (Suc (rg_sequence (guarded (cr_state g))))" by (auto simp: assms(6) issued_def)
  have e: "en_id (new_entry ident p) = ident" "en_descriptor (new_entry ident p) = rr_descriptor (fst p)"
    "es_accepting (guarded (en_state (new_entry ident p)))" "\<not> es_finalization_only (guarded (en_state (new_entry ident p)))"
    by (simp_all add: new_entry_def case_prod_beta)
  have act: "\<exists>r. ((bt_get (rg_entries (guarded (cr_state g))))(ident \<mapsto> length (ca_entries (cr_arena g)))) i = Some r \<and>
      cd_name (en_descriptor ((ca_entries (cr_arena g) @ [new_entry ident p]) ! r)) = n \<and>
      es_accepting (guarded (en_state ((ca_entries (cr_arena g) @ [new_entry ident p]) ! r)))"
    if "((bt_get (rg_active (guarded (cr_state g))))(cd_name (rr_descriptor (fst p)) \<mapsto> ident)) n = Some i" for n i
  proof (cases "n = cd_name (rr_descriptor (fst p))")
    case False
    then obtain r where r: "bt_get (rg_entries (guarded (cr_state g))) i = Some r" "cd_name (en_descriptor (ca_entries (cr_arena g) ! r)) = n"
      "es_accepting (guarded (en_state (ca_entries (cr_arena g) ! r)))" using d(9) [of n i] \<open>_ n = Some i\<close> by auto
    then show ?thesis using new d(8) [OF r(1)] by (auto simp: nth_append)
  qed (use that e in auto)
  have less: "r < Suc (length (ca_entries (cr_arena g)))" if "bt_get (rg_entries (guarded (cr_state g))) i = Some r" for i r
    using d(8) [OF that] by simp
  show ?thesis
    unfolding maps_inv_def Let_def
    using assms(2-4) d(1-6,8,11) less fresh ids act e new
      subset_trans [OF d(7) capability_issued_mono [of "rg_sequence (guarded (cr_state g))" "Suc (rg_sequence (guarded (cr_state g)))"]]
    by (auto simp: bt.length_put nth_append)
qed

end
