(* ===== verification/Capability_Steps.thy ===== *)
theory Capability_Steps
  imports Capability_Inv
begin

text \<open>
  The registry's own critical sections (registration, removal, shutdown) and the preservation of the
  invariant by every step.
\<close>

section \<open>Registration\<close>

abbreviation request_name :: "prepared_registration \<Rightarrow> string" where
  "request_name p \<equiv> cd_name (rr_descriptor (fst p))"

lemma names_free_iff:
  "names_free active seen ns \<longleftrightarrow> distinct ns \<and> (\<forall>n \<in> set ns. bt_get active n = None \<and> n \<notin> set seen)"
  by (induction ns arbitrary: seen) auto

definition next_ids :: "string \<Rightarrow> u64 \<Rightarrow> nat \<Rightarrow> string list" where
  "next_ids runtime_id sequence n = map (\<lambda>i. identity_render CapabilityIdentity runtime_id (sequence + 1 + i)) [0..<n]"

lemma next_ids_Suc:
  "next_ids i k (Suc n) = identity_render CapabilityIdentity i (k + 1) # next_ids i (k + 1) n"
  unfolding next_ids_def by (subst upt_conv_Cons) (simp_all add: map_Suc_upt [symmetric] del: upt_Suc)

lemma next_ids_props: "length (next_ids i k n) = n" "distinct (next_ids i k n)" "set (next_ids i k n) \<inter> issued i k = {}"
  by (auto simp: next_ids_def distinct_map inj_on_def issued_def)

text \<open>The result of registering a batch, in closed form.\<close>

lemma register_all_result:
  "fst (register_all i ps (st, a)) = next_ids i (rg_sequence st) (length ps) \<and>
   (case snd (register_all i ps (st, a)) of (st', a') \<Rightarrow>
      rg_sequence st' = rg_sequence st + length ps \<and> rg_closing st' = rg_closing st \<and>
      a' = a\<lparr>ca_entries := ca_entries a @ map2 new_entry (next_ids i (rg_sequence st) (length ps)) ps\<rparr> \<and>
      bt_get (rg_active st') = (bt_get (rg_active st))(map request_name ps [\<mapsto>] next_ids i (rg_sequence st) (length ps)) \<and>
      bt_get (rg_entries st') =
        (bt_get (rg_entries st))(next_ids i (rg_sequence st) (length ps) [\<mapsto>] [length (ca_entries a)..<length (ca_entries a) + length ps]))"
proof (induction ps arbitrary: st a)
  case Nil
  then show ?case by (simp add: next_ids_def)
next
  case (Cons p ps)
  let ?id = "identity_render CapabilityIdentity i (rg_sequence st + 1)"
  let ?st = "st\<lparr>rg_sequence := rg_sequence st + 1, rg_active := bt_insert (request_name p) ?id (rg_active st),
    rg_entries := bt_insert ?id (length (ca_entries a)) (rg_entries st)\<rparr>"
  let ?a = "a\<lparr>ca_entries := ca_entries a @ [new_entry ?id p]\<rparr>"
  have u: "[length (ca_entries a)..<Suc (length (ca_entries a) + length ps)] =
    length (ca_entries a) # [Suc (length (ca_entries a))..<Suc (length (ca_entries a) + length ps)]"
    by (subst upt_conv_Cons) simp_all
  show ?case
    using Cons.IH [where st = ?st and a = ?a]
    by (simp add: Let_def next_ids_Suc case_prod_beta u fun_upd_def del: upt_Suc)
qed

lemma register_all_maps:
  assumes "maps_inv (g\<lparr>cr_state := mutex_new st, cr_arena := a\<rparr>)" "\<not> rg_closing st" "rg_sequence st + length ps \<le> u64_max"
    and "length (rg_entries st) + length ps \<le> max_registered_capabilities (cr_config g)"
    and "distinct (map request_name ps)" "\<forall>p \<in> set ps. bt_get (rg_active st) (request_name p) = None"
    and "snd (register_all (cr_runtime_id g) ps (st, a)) = (st', a')"
  shows "maps_inv (g\<lparr>cr_state := mutex_new st', cr_arena := a'\<rparr>)"
  using assms
proof (induction ps arbitrary: st a)
  case Nil
  then show ?case by simp
next
  case (Cons p ps)
  let ?id = "identity_render CapabilityIdentity (cr_runtime_id g) (rg_sequence st + 1)"
  let ?st = "st\<lparr>rg_sequence := rg_sequence st + 1, rg_active := bt_insert (request_name p) ?id (rg_active st),
    rg_entries := bt_insert ?id (length (ca_entries a)) (rg_entries st)\<rparr>"
  let ?a = "a\<lparr>ca_entries := ca_entries a @ [new_entry ?id p]\<rparr>"
  have "maps_inv (g\<lparr>cr_state := mutex_new ?st, cr_arena := ?a\<rparr>)"
    using maps_inv_add [OF Cons.prems(1), of p ?id] Cons.prems by simp
  moreover have "length (rg_entries ?st) \<le> Suc (length (rg_entries st))"
    using maps_invD(3) [OF Cons.prems(1)] by (simp add: bt.length_put)
  moreover have "snd (register_all (cr_runtime_id g) ps (?st, ?a)) = (st', a')"
    using Cons.prems(7) by (simp add: Let_def case_prod_beta)
  moreover have "\<forall>q \<in> set ps. bt_get (rg_active ?st) (request_name q) = None"
    using Cons.prems(5,6) by (auto simp: image_iff)
  ultimately show ?case using Cons.prems(2-5) by (intro Cons.IH [where st = ?st and a = ?a]) auto
qed

text \<open>New entries have no permits: the arena's invariant extends to them.\<close>

lemma entries_ok_append:
  assumes "entries_ok a P R" "\<And>e. e \<in> set es \<Longrightarrow> entry_ok e 0 False"
  shows "entries_ok (a\<lparr>ca_entries := ca_entries a @ es\<rparr>) P R"
proof -
  have "entry_ok (entry_at (a\<lparr>ca_entries := ca_entries a @ es\<rparr>) r) (count_list P r) (r \<in> set R)" if "r < length (ca_entries a @ es)" for r
  proof (cases "r < length (ca_entries a)")
    case True
    then show ?thesis using entries_okD(4) [OF assms(1) True] by (simp add: entry_at_def nth_append)
  next
    case False
    then have "r \<notin> set P" "r \<notin> set R" using entries_okD(1,2) [OF assms(1)] by auto
    moreover have "entry_at (a\<lparr>ca_entries := ca_entries a @ es\<rparr>) r \<in> set es" using False that by (simp add: entry_at_def nth_append)
    ultimately show ?thesis using assms(2) by (simp add: count_list_0_iff)
  qed
  then show ?thesis using assms(1) by (auto simp: entries_ok_def)
qed

lemma new_entry_ok: "(cd_execution (rr_descriptor (fst p)) = Native) = (rr_native (fst p) \<noteq> None) \<Longrightarrow> entry_ok (new_entry ident p) 0 False"
  by (auto simp: entry_ok_def new_entry_def case_prod_beta Let_def)

lemma prepare_batch_Ok:
  assumes "prepare_batch js is_semver clk config qs = Ok ps"
  shows "map fst ps = qs" "p \<in> set ps \<Longrightarrow> (cd_execution (rr_descriptor (fst p)) = Native) = (rr_native (fst p) \<noteq> None)"
  using assms by (induction qs arbitrary: clk ps) (auto split: if_splits)

lemma prepare_batch_not_panic [simp]: "\<not> is_panic (prepare_batch js is_semver clk config qs)"
  by (induction qs arbitrary: clk) (auto simp: descriptor_compile_def)

lemma register_check_Ok:
  assumes "register_check config st ps = Ok ()"
  shows "\<not> rg_closing st" "rg_sequence st + length ps \<le> u64_max"
    "length (rg_entries st) \<le> max_registered_capabilities config \<Longrightarrow> length (rg_entries st) + length ps \<le> max_registered_capabilities config"
    "distinct (map request_name ps)" "\<forall>p \<in> set ps. bt_get (rg_active st) (request_name p) = None"
  using assms by (auto simp: register_check_def saturating_sub_def names_free_iff split: if_splits)

lemma register_check_not_panic [simp]: "\<not> is_panic (register_check config st ps)"
  by (simp add: register_check_def)

text \<open>The two ways a registration ends.\<close>

lemma registry_register_cases:
  assumes "maps_inv g"
  obtains (refused) e where "registry_register js is_semver clk qs g = (Err e, g)"
  | (registered) ps st a where "qs \<noteq> []" "map fst ps = qs" "prepare_batch js is_semver clk (cr_config g) qs = Ok ps"
      "register_check (cr_config g) (guarded (cr_state g)) ps = Ok ()"
      "snd (register_all (cr_runtime_id g) ps (guarded (cr_state g), cr_arena g)) = (st, a)"
      "registry_register js is_semver clk qs g =
        (Ok (next_ids (cr_runtime_id g) (rg_sequence (guarded (cr_state g))) (length ps)), g\<lparr>cr_state := mutex_new st, cr_arena := a\<rparr>)"
proof -
  have h: "\<not> poisoned (cr_state g)" by (rule maps_invD(1) [OF assms])
  have self: "g\<lparr>cr_state := \<lparr>guarded = guarded (cr_state g), poisoned = False\<rparr>, cr_arena := cr_arena g\<rparr> = g"
    using h by (cases g; cases "cr_state g") simp
  show thesis
  proof (cases "qs = [] \<or> length qs > max_registered_capabilities (cr_config g) \<or> \<not> is_ok (prepare_batch js is_semver clk (cr_config g) qs)")
    case True
    then have "\<exists>e. registry_register js is_semver clk qs g = (Err e, g)"
      using prepare_batch_not_panic [of js is_semver clk "cr_config g" qs]
      by (cases "prepare_batch js is_semver clk (cr_config g) qs") (auto simp: registry_register_def)
    then show thesis using refused by blast
  next
    case False
    then obtain ps where ps: "prepare_batch js is_semver clk (cr_config g) qs = Ok ps" by (auto simp: is_ok_iff)
    have eq: "registry_register js is_semver clk qs g =
        with_registry g (\<lambda>s. commit (register_check (cr_config g) (fst s) ps) s (\<lambda>_. register_all (cr_runtime_id g) ps s))"
      using False ps by (simp add: registry_register_def)
    show thesis
    proof (cases "register_check (cr_config g) (guarded (cr_state g)) ps")
      case (Ok u)
      obtain st a where r: "snd (register_all (cr_runtime_id g) ps (guarded (cr_state g), cr_arena g)) = (st, a)" by fastforce
      have "registry_register js is_semver clk qs g =
          (Ok (next_ids (cr_runtime_id g) (rg_sequence (guarded (cr_state g))) (length ps)), g\<lparr>cr_state := mutex_new st, cr_arena := a\<rparr>)"
        using r Ok h register_all_result [of "cr_runtime_id g" ps "guarded (cr_state g)" "cr_arena g"]
        by (simp add: eq with_registry_def mutex_new_def case_prod_beta)
      then show thesis using registered [of ps st a] False ps prepare_batch_Ok(1) [OF ps] Ok r by simp
    next
      case (Err e)
      then show thesis using refused [of e] h self by (simp add: eq with_registry_def)
    qed (use register_check_not_panic [of "cr_config g" "guarded (cr_state g)" ps] in simp)
  qed
qed

lemma registry_register_maps:
  assumes "maps_inv g"
  shows "maps_inv (snd (registry_register js is_semver clk qs g))"
  using assms
proof (cases rule: registry_register_cases [of g js is_semver clk qs])
  case (registered ps st a)
  note c = register_check_Ok [OF registered(4)]
  have g: "maps_inv (g\<lparr>cr_state := mutex_new (guarded (cr_state g)), cr_arena := cr_arena g\<rparr>)"
    using assms maps_invD(1) [OF assms] by (cases g; cases "cr_state g") (simp add: mutex_new_def)
  show ?thesis
    using register_all_maps [OF g c(1,2) c(3) [OF maps_invD(4) [OF assms]] c(4,5) registered(5)] registered(6) by simp
qed (use assms in simp)

lemma registry_register_arena:
  assumes "maps_inv g" "arena_inv (cr_arena g) P R"
  shows "arena_inv (cr_arena (snd (registry_register js is_semver clk qs g))) P R"
  using assms(1)
proof (cases rule: registry_register_cases [of g js is_semver clk qs])
  case (registered ps st a)
  have a: "a = (cr_arena g)\<lparr>ca_entries := ca_entries (cr_arena g) @ map2 new_entry (next_ids (cr_runtime_id g) (rg_sequence (guarded (cr_state g))) (length ps)) ps\<rparr>"
    using registered(5) register_all_result [of "cr_runtime_id g" ps "guarded (cr_state g)" "cr_arena g"] by simp
  have "entry_ok e 0 False" if "e \<in> set (map2 new_entry (next_ids (cr_runtime_id g) (rg_sequence (guarded (cr_state g))) (length ps)) ps)" for e
    using that prepare_batch_Ok(2) [OF registered(3)] by (auto intro!: new_entry_ok dest: set_zip_rightD)
  from entries_ok_append [OF arena_invD(4) [OF assms(2)] this] have "entries_ok a P R" unfolding a .
  then show ?thesis using arena_invD(1-3) [OF assms(2)] registered(6) by (simp add: arena_inv_def a)
qed (use assms in simp)

section \<open>The other sections of the registry\<close>

lemma maps_inv_state:
  assumes "maps_inv g" "bt_wf (rg_active st)" "bt_wf (rg_entries st)" "length (rg_entries st) \<le> length (rg_entries (guarded (cr_state g)))"
    and "rg_sequence (guarded (cr_state g)) \<le> rg_sequence st" "rg_sequence st \<le> u64_max"
    and "bt_get (rg_entries st) \<subseteq>\<^sub>m bt_get (rg_entries (guarded (cr_state g)))"
    and "\<And>n i. bt_get (rg_active st) n = Some i \<Longrightarrow> bt_get (rg_active (guarded (cr_state g))) n = Some i \<and> bt_get (rg_entries st) i \<noteq> None"
    and "rg_closing st \<Longrightarrow> rg_active st = []" "rg_closing (guarded (cr_state g)) \<Longrightarrow> rg_closing st"
  shows "maps_inv (g\<lparr>cr_state := mutex_new st\<rparr>)"
proof -
  note d = maps_invD [OF assms(1)]
  have sub: "bt_get (rg_entries (guarded (cr_state g))) i = Some r" if "bt_get (rg_entries st) i = Some r" for i r
    using assms(7) that by (metis domI map_le_def)
  have act: "\<exists>r. bt_get (rg_entries st) i = Some r \<and> cd_name (en_descriptor (ca_entries (cr_arena g) ! r)) = n \<and>
      es_accepting (guarded (en_state (ca_entries (cr_arena g) ! r)))" if "bt_get (rg_active st) n = Some i" for n i
    using assms(8) [OF that] d(9) [of n i] sub by fastforce
  show ?thesis
    unfolding maps_inv_def Let_def
    using assms(2-6,9,10) d(4-6,11) subset_trans [OF d(7) capability_issued_mono [OF assms(5)]] d(8) [OF sub] act by auto
qed

lemma with_registry_state:
  assumes "maps_inv g" "\<not> is_panic r"
  shows "snd (with_registry g (\<lambda>s. (r, st, snd s))) = g\<lparr>cr_state := mutex_new st\<rparr>"
  using maps_invD(1) [OF assms(1)] assms(2) by (simp add: with_registry_def mutex_new_def)

text \<open>A committed section either leaves the registry alone or installs the new maps.\<close>

lemma with_registry_commit:
  assumes "maps_inv g" "\<not> is_panic (check (guarded (cr_state g), cr_arena g))"
    and "\<And>x. check (guarded (cr_state g), cr_arena g) = Ok x \<Longrightarrow>
      snd (snd (f (guarded (cr_state g), cr_arena g) x)) = cr_arena g \<and>
      maps_inv (g\<lparr>cr_state := mutex_new (fst (snd (f (guarded (cr_state g), cr_arena g) x)))\<rparr>)"
  shows "maps_inv (snd (with_registry g (\<lambda>s. commit (check s) s (f s)))) \<and> cr_arena (snd (with_registry g (\<lambda>s. commit (check s) s (f s)))) = cr_arena g"
proof -
  note h = maps_invD(1) [OF assms(1)]
  have self: "g\<lparr>cr_state := \<lparr>guarded = guarded (cr_state g), poisoned = False\<rparr>\<rparr> = g"
    using h by (cases g; cases "cr_state g") simp
  show ?thesis
  proof (cases "check (guarded (cr_state g), cr_arena g)")
    case (Err e)
    then have "snd (with_registry g (\<lambda>s. commit (check s) s (f s))) = g" using h self by (simp add: with_registry_def)
    then show ?thesis using assms(1) by simp
  qed (use assms h in \<open>auto simp: with_registry_def case_prod_beta mutex_new_def\<close>)
qed

lemma snapshot_entries_result:
  "\<not> is_panic (snapshot_entries es active) \<longleftrightarrow> (\<forall>e \<in> set active. bt_get es (snd e) \<noteq> None)"
  "snapshot_entries es active = Ok xs \<Longrightarrow> map fst xs = map fst active \<and> list_all2 (\<lambda>x e. bt_get es (snd e) = Some (snd x)) xs active"
  by (induction es active arbitrary: xs rule: snapshot_entries.induct) (auto split: option.splits)

lemma snapshot_not_panic:
  assumes "maps_inv g"
  shows "\<not> is_panic (snapshot_entries (rg_entries (guarded (cr_state g))) (rg_active (guarded (cr_state g))))"
  unfolding snapshot_entries_result
proof
  fix e assume "e \<in> set (rg_active (guarded (cr_state g)))"
  then have "bt_get (rg_active (guarded (cr_state g))) (fst e) = Some (snd e)"
    using bt.get_iff [OF maps_invD(2) [OF assms], of "fst e" "snd e"] by simp
  then show "bt_get (rg_entries (guarded (cr_state g))) (snd e) \<noteq> None" using maps_invD(9) [OF assms] by blast
qed

lemma registry_snapshot_keeps:
  assumes "maps_inv g"
  shows "maps_inv (snd (registry_snapshot g)) \<and> cr_arena (snd (registry_snapshot g)) = cr_arena g"
proof -
  have "maps_inv (g\<lparr>cr_state := mutex_new (guarded (cr_state g))\<rparr>)"
    using assms maps_invD(1) [OF assms] by (cases g; cases "cr_state g") (simp add: mutex_new_def)
  then show ?thesis
    unfolding registry_snapshot_def using snapshot_not_panic [OF assms] by (intro with_registry_commit [OF assms]) auto
qed

lemma unregister_keeps:
  assumes "maps_inv g"
  shows "maps_inv (snd (unregister_locked ident g)) \<and> cr_arena (snd (unregister_locked ident g)) = cr_arena g"
proof -
  note d = maps_invD [OF assms]
  have "maps_inv (g\<lparr>cr_state := mutex_new ((guarded (cr_state g))\<lparr>rg_active := bt_remove n (rg_active (guarded (cr_state g))), rg_sequence := v\<rparr>)\<rparr>)"
    if "rg_sequence (guarded (cr_state g)) \<le> v" "v \<le> u64_max" for n v
    using d(2,3,9,10) that by (intro maps_inv_state [OF assms]) (auto simp: bt_get_remove split: if_splits)
  moreover have "maps_inv (g\<lparr>cr_state := mutex_new (guarded (cr_state g))\<rparr>)"
    using assms d(1) by (cases g; cases "cr_state g") (simp add: mutex_new_def)
  ultimately show ?thesis
    unfolding unregister_locked_def case_prod_beta prod.collapse
    by (intro with_registry_commit [OF assms]) (auto simp: unregister_check_def split: if_splits option.splits)
qed

lemma close_registry_keeps:
  assumes "maps_inv g"
  shows "maps_inv (snd (close_registry_locked g)) \<and> cr_arena (snd (close_registry_locked g)) = cr_arena g"
proof -
  note d = maps_invD [OF assms]
  have "maps_inv (g\<lparr>cr_state := mutex_new ((guarded (cr_state g))\<lparr>rg_closing := True, rg_active := []\<rparr>)\<rparr>)"
    using d(3,12) by (intro maps_inv_state [OF assms]) auto
  then show ?thesis using d(1) by (simp add: close_registry_locked_def with_registry_def mutex_new_def)
qed

text \<open>An active registration accepts calls, so it is not drained and cannot be forgotten.\<close>

lemma capability_forget_keeps:
  assumes "maps_inv g"
  shows "maps_inv (snd (capability_forget ident g)) \<and> cr_arena (snd (capability_forget ident g)) = cr_arena g"
proof -
  note d = maps_invD [OF assms]
  have "maps_inv (g\<lparr>cr_state := mutex_new ((guarded (cr_state g))\<lparr>rg_entries := bt_remove ident (rg_entries (guarded (cr_state g)))\<rparr>)\<rparr>)"
    if chk: "forget_check (guarded (cr_state g)) (cr_arena g) ident = Ok ()"
  proof -
    obtain r where r: "bt_get (rg_entries (guarded (cr_state g))) ident = Some r" "is_drained (entry_guard (cr_arena g) r)"
      using chk by (auto simp: forget_check_def entry_status_def split: if_splits)
    have "i \<noteq> ident" if "bt_get (rg_active (guarded (cr_state g))) n = Some i" for n i
      using d(9) [OF that] r by (auto simp: is_drained_def entry_at_def)
    then show ?thesis
      using d(2,3,9,10,12) by (intro maps_inv_state [OF assms]) (auto simp: bt_get_remove bt.length_del map_le_def split: if_splits, fastforce)
  qed
  moreover have "\<not> is_panic (forget_check (guarded (cr_state g)) (cr_arena g) ident)"
    by (auto simp: forget_check_def entry_status_def)
  ultimately show ?thesis
    unfolding capability_forget_def case_prod_beta prod.collapse by (intro with_registry_commit [OF assms]) auto
qed

section \<open>Every step\<close>

lemma put_arena_simps [simp]:
  "sy_registry (put_arena a s) = (sy_registry s)\<lparr>cr_arena := a\<rparr>" "sy_permits (put_arena a s) = sy_permits s"
  "sy_releases (put_arena a s) = sy_releases s"
  by (simp_all add: put_arena_def)

lemma note_taken_simps [simp]:
  "sy_registry (note_taken r t s) = sy_registry s" "sy_permits (note_taken r t s) = sy_permits s"
  "sy_releases (note_taken r t s) = (if t = None then sy_releases s else r # sy_releases s)"
  by (simp_all add: note_taken_def)

text \<open>What each arena section writes, in the form \<open>maps_inv_entry\<close> asks for.\<close>

lemma arena_sections_write:
  "close_entry_locked r a = (Ok taken, a') \<Longrightarrow>
    \<exists>m. a' = set_entry_state r m (a\<lparr>ca_running := ca_running a\<rparr>) \<and> es_finalization_only (guarded m) = es_finalization_only (entry_guard a r)"
  "\<exists>m x. snd (callback_released r a) = set_entry_state r m (a\<lparr>ca_running := x\<rparr>) \<and>
    es_accepting (guarded m) = es_accepting (entry_guard a r) \<and> es_finalization_only (guarded m) = es_finalization_only (entry_guard a r)"
  "\<exists>m. snd (restrict_to_finalization r a) = set_entry_state r m (a\<lparr>ca_running := ca_running a\<rparr>) \<and>
    es_accepting (guarded m) = es_accepting (entry_guard a r)"
  "entry_admit r f a = (Ok native, a') \<Longrightarrow> \<exists>m x. a' = set_entry_state r m (a\<lparr>ca_running := x\<rparr>) \<and>
    es_accepting (guarded m) = es_accepting (entry_guard a r) \<and> es_finalization_only (guarded m) = es_finalization_only (entry_guard a r)"
  "drop_permit_locked r a = (Ok taken, a') \<Longrightarrow> \<exists>m x. a' = set_entry_state r m (a\<lparr>ca_running := x\<rparr>) \<and>
    es_accepting (guarded m) = es_accepting (entry_guard a r) \<and> es_finalization_only (guarded m) = es_finalization_only (entry_guard a r)"
proof (goal_cases)
  case 1
  then show ?case by (auto simp: close_entry_locked_def take_callback_def Let_def split: if_splits)
next
  case 2
  show ?case by (intro exI [where P = "\<lambda>m. \<exists>x. P m x" for P] exI [of _ "ca_running a"]) (auto simp: callback_released_def write_state_def)
next
  case 3
  show ?case by (auto simp: restrict_to_finalization_def write_state_def)
next
  case 4
  then show ?case by (auto simp: entry_admit_def Let_def split: if_splits)
next
  case 5
  then show ?case
    by (auto simp: drop_permit_locked_def take_callback_def Let_def split: outcome.splits prod.splits if_splits)
qed

text \<open>A section that changes neither whether its entry accepts nor its restriction keeps the maps.\<close>

lemma maps_inv_frame:
  assumes "maps_inv g" "r < length (ca_entries (cr_arena g))"
    and "\<exists>m x. a' = set_entry_state r m ((cr_arena g)\<lparr>ca_running := x\<rparr>) \<and>
      es_accepting (guarded m) = es_accepting (entry_guard (cr_arena g) r) \<and>
      es_finalization_only (guarded m) = es_finalization_only (entry_guard (cr_arena g) r)"
  shows "maps_inv (g\<lparr>cr_arena := a'\<rparr>)"
  using assms(3)
proof (elim exE conjE)
  fix m x
  assume m: "a' = set_entry_state r m ((cr_arena g)\<lparr>ca_running := x\<rparr>)" "es_accepting (guarded m) = es_accepting (entry_guard (cr_arena g) r)"
    "es_finalization_only (guarded m) = es_finalization_only (entry_guard (cr_arena g) r)"
  show ?thesis unfolding m(1) by (rule maps_inv_entry [OF assms(1,2)]) (use m(2,3) in auto)
qed

theorem capability_step_inv:
  assumes "capability_step s t" "capability_inv s"
  shows "capability_inv t"
proof -
  have a: "arena_inv (sy_arena s) (sy_permits s) (sy_releases s)" and g: "maps_inv (sy_registry s)"
    using assms(2) by (simp_all add: capability_inv_def)
  note frame = maps_inv_frame [OF g] and frame0 = maps_inv_entry [OF g, where x = "ca_running (sy_arena s)"]
  show ?thesis
    using assms(1)
  proof cases
    case (cap_register js is_semver clk requests)
    then show ?thesis using registry_register_maps [OF g] registry_register_arena [OF g a] by (simp add: capability_inv_def)
  next
    case cap_snapshot
    then show ?thesis using registry_snapshot_keeps [OF g] a by (simp add: capability_inv_def)
  next
    case (cap_unregister ident)
    then show ?thesis using unregister_keeps [OF g] a by (simp add: capability_inv_def)
  next
    case cap_shutdown
    then show ?thesis using close_registry_keeps [OF g] a by (simp add: capability_inv_def)
  next
    case (cap_forget ident)
    then show ?thesis using capability_forget_keeps [OF g] a by (simp add: capability_inv_def)
  next
    case (cap_restrict r)
    obtain m where m: "snd (restrict_to_finalization r (sy_arena s)) = set_entry_state r m (sy_arena s)"
      "es_accepting (guarded m) = es_accepting (entry_guard (sy_arena s) r)" using arena_sections_write(3) [of r "sy_arena s"] by auto
    then have "maps_inv ((sy_registry s)\<lparr>cr_arena := set_entry_state r m (sy_arena s)\<rparr>)"
      using frame0 [OF cap_restrict(2), of m] cap_restrict(3) by simp
    then show ?thesis using restrict_section [OF a cap_restrict(2)] cap_restrict(1) m(1) by (simp add: capability_inv_def)
  next
    case (cap_close r taken b)
    then show ?thesis
      using close_section [OF a cap_close(2,4)] arena_sections_write(1) [OF cap_close(4)] frame0 [OF cap_close(2)]
      by (auto simp: capability_inv_def inactive_def)
  next
    case (cap_released r)
    then show ?thesis
      using released_section [OF a cap_released(2)] frame [OF entries_okD(2) [OF arena_invD(4) [OF a] cap_released(2)] arena_sections_write(2)]
      by (simp add: capability_inv_def)
  next
    case (cap_admit r f native b)
    then show ?thesis
      using admit_section(1) [OF a cap_admit(2,3)] frame [OF cap_admit(2) arena_sections_write(4) [OF cap_admit(3)]]
      by (simp add: capability_inv_def)
  next
    case (cap_admit_refused r f e b)
    then show ?thesis using a g admit_refused [OF cap_admit_refused(2)] by (simp add: capability_inv_def)
  next
    case (cap_drop r taken b)
    then show ?thesis
      using drop_section [OF a cap_drop(2)] frame [OF entries_okD(1) [OF arena_invD(4) [OF a] cap_drop(2)] arena_sections_write(5) [OF cap_drop(3)]]
      by (auto simp: capability_inv_def)
  next
    case (cap_drop_panic r p b)
    then show ?thesis using drop_section [OF a cap_drop_panic(2)] by simp
  qed
qed

lemma capability_step_config: "capability_step s t \<Longrightarrow> cr_config (sy_registry t) = cr_config (sy_registry s)"
  by (induction rule: capability_step.induct)
    (auto simp: registry_register_def registry_snapshot_def unregister_locked_def close_registry_locked_def capability_forget_def
      with_registry_def case_prod_beta split: outcome.splits)

theorem capability_reachable_inv:
  assumes "capability_reachable config s"
  shows "capability_inv s \<and> cr_config (sy_registry s) = config"
  using assms
proof induction
  case (cap_start broker runtime_id g)
  then show ?case
    by (auto simp: capability_inv_def capability_registry_new_def arena_inv_def entries_ok_def maps_inv_def Let_def split: if_splits)
next
  case (cap_next s t)
  then show ?case using capability_step_inv capability_step_config by simp
qed

end
