(* ===== verification/Capability_Theorems.thy ===== *)
theory Capability_Theorems
  imports Capability_Steps
begin

text \<open>The properties of the capability registry under every interleaving of its critical sections.\<close>

section \<open>The life of one entry\<close>

lemma entry_at_register:
  assumes "maps_inv g" "r < length (ca_entries (cr_arena g))"
  shows "r < length (ca_entries (cr_arena (snd (registry_register js is_semver clk qs g)))) \<and>
    entry_at (cr_arena (snd (registry_register js is_semver clk qs g))) r = entry_at (cr_arena g) r"
  using assms(1)
proof (cases rule: registry_register_cases [of g js is_semver clk qs])
  case (registered ps st a)
  have "ca_entries a = ca_entries (cr_arena g) @ map2 new_entry (next_ids (cr_runtime_id g) (rg_sequence (guarded (cr_state g))) (length ps)) ps"
    using registered(5) register_all_result [of "cr_runtime_id g" ps "guarded (cr_state g)" "cr_arena g"] by simp
  then show ?thesis using registered(6) assms(2) by (simp add: entry_at_def nth_append)
qed (use assms in simp)

text \<open>No section reopens a closed entry or gives it a callback back; identity and declaration are fixed.\<close>

definition entry_later :: "capability_entry \<Rightarrow> capability_entry \<Rightarrow> bool" where
  "entry_later e e' \<longleftrightarrow> en_id e' = en_id e \<and> en_descriptor e' = en_descriptor e \<and>
     (\<not> es_accepting (guarded (en_state e)) \<longrightarrow> \<not> es_accepting (guarded (en_state e')) \<and>
       (es_native (guarded (en_state e)) = None \<longrightarrow> es_native (guarded (en_state e')) = None)) \<and>
     (is_drained (guarded (en_state e)) \<longrightarrow> is_drained (guarded (en_state e')))"

lemma entry_later_refl: "entry_later e e"
  by (simp add: entry_later_def)

lemma entry_later_set:
  assumes "r < length (ca_entries a)" "q < length (ca_entries a)"
    and "q = r \<Longrightarrow> entry_later (entry_at a r) ((entry_at a r)\<lparr>en_state := m\<rparr>)"
  shows "entry_later (entry_at a q) (entry_at (set_entry_state r m (a\<lparr>ca_running := x\<rparr>)) q)"
  using assms entry_later_refl by (cases "q = r") (simp_all add: entry_at_set)

lemma step_entry_later:
  assumes "capability_step s t" "capability_inv s" "q < length (ca_entries (sy_arena s))"
  shows "q < length (ca_entries (sy_arena t)) \<and> entry_later (entry_at (sy_arena s) q) (entry_at (sy_arena t) q)"
proof -
  have a: "arena_inv (sy_arena s) (sy_permits s) (sy_releases s)" and g: "maps_inv (sy_registry s)"
    using assms(2) by (simp_all add: capability_inv_def)
  note e = entries_okD(4) [OF arena_invD(4) [OF a]] and later0 = entry_later_set [where x = "ca_running (sy_arena s)" and a = "sy_arena s"]
  show ?thesis
    using assms(1)
  proof cases
    case (cap_register js is_semver clk requests)
    then show ?thesis using entry_at_register [OF g assms(3)] by (simp add: entry_later_refl)
  next
    case cap_snapshot
    then show ?thesis using registry_snapshot_keeps [OF g] assms(3) by (simp add: entry_later_refl)
  next
    case (cap_unregister ident)
    then show ?thesis using unregister_keeps [OF g] assms(3) by (simp add: entry_later_refl)
  next
    case cap_shutdown
    then show ?thesis using close_registry_keeps [OF g] assms(3) by (simp add: entry_later_refl)
  next
    case (cap_forget ident)
    then show ?thesis using capability_forget_keeps [OF g] assms(3) by (simp add: entry_later_refl)
  next
    case (cap_restrict r)
    then show ?thesis
      using later0 [OF cap_restrict(2) assms(3)] assms(3)
      by (auto simp: restrict_to_finalization_def write_state_def entry_later_def is_drained_def)
  next
    case (cap_close r taken b)
    then have b: "b = set_entry_state r (mutex_recover (en_state (entry_at (sy_arena s) r)) (\<lambda>_. snd (take_callback ((entry_guard (sy_arena s) r)\<lparr>es_accepting := False\<rparr>)))) (sy_arena s)"
      by (simp add: close_entry_locked_def Let_def)
    show ?thesis
      using later0 [OF cap_close(2) assms(3)] assms(3) unfolding cap_close(1) b
      by (auto simp: entry_later_def is_drained_def take_callback_def)
  next
    case (cap_released r)
    then show ?thesis
      using later0 [OF entries_okD(2) [OF arena_invD(4) [OF a] cap_released(2)] assms(3)] assms(3)
      by (auto simp: callback_released_def write_state_def entry_later_def is_drained_def)
  next
    case (cap_admit r f native b)
    then have b: "b = set_entry_state r (mutex_new ((entry_guard (sy_arena s) r)\<lparr>es_running := es_running (entry_guard (sy_arena s) r) + 1\<rparr>))
        ((sy_arena s)\<lparr>ca_running := mutex_new (guarded (ca_running (sy_arena s)) + 1)\<rparr>)"
      by (auto simp: entry_admit_def Let_def split: if_splits)
    have acc: "es_accepting (entry_guard (sy_arena s) r)"
      using admit_section(3) [OF a cap_admit(2,3)] by (simp add: entry_refuses_def)
    have "entry_later (entry_at (sy_arena s) r) ((entry_at (sy_arena s) r)\<lparr>en_state := mutex_new ((entry_guard (sy_arena s) r)\<lparr>es_running := n\<rparr>)\<rparr>)" for n
      using acc by (simp add: entry_later_def is_drained_def)
    from entry_later_set [OF cap_admit(2) assms(3) this] show ?thesis using assms(3) by (simp add: cap_admit(1) b)
  next
    case (cap_admit_refused r f e b)
    then show ?thesis using admit_refused [OF cap_admit_refused(2)] assms(3) by (simp add: entry_later_refl)
  next
    case (cap_drop r taken b)
    note l = entries_okD(1) [OF arena_invD(4) [OF a] cap_drop(2)]
    have run: "es_running (entry_guard (sy_arena s) r) \<noteq> 0"
      using e [OF l] count_list_pos [OF cap_drop(2)] by (auto simp: entry_ok_def Let_def)
    obtain k x where b: "b = set_entry_state r (mutex_recover (en_state (entry_at (sy_arena s) r)) (\<lambda>_. snd (take_callback ((entry_guard (sy_arena s) r)\<lparr>es_running := k\<rparr>)))) ((sy_arena s)\<lparr>ca_running := x\<rparr>)"
      using cap_drop(3) by (auto simp: drop_permit_locked_def Let_def case_prod_beta split: outcome.splits)
    have "entry_later (entry_at (sy_arena s) r)
        ((entry_at (sy_arena s) r)\<lparr>en_state := mutex_recover (en_state (entry_at (sy_arena s) r)) (\<lambda>_. snd (take_callback ((entry_guard (sy_arena s) r)\<lparr>es_running := k\<rparr>)))\<rparr>)"
      using run by (simp add: entry_later_def is_drained_def take_callback_def)
    from entry_later_set [OF l assms(3) this] show ?thesis using assms(3) by (simp add: cap_drop(1) b)
  next
    case (cap_drop_panic r p b)
    then show ?thesis using drop_section [OF a cap_drop_panic(2)] by simp
  qed
qed

lemma steps_entry_later:
  assumes "capability_step\<^sup>*\<^sup>* s t" "capability_inv s" "q < length (ca_entries (sy_arena s))"
  shows "capability_inv t \<and> q < length (ca_entries (sy_arena t)) \<and> entry_later (entry_at (sy_arena s) q) (entry_at (sy_arena t) q)"
  using assms(1)
proof (induction rule: rtranclp_induct)
  case base
  then show ?case using assms(2,3) by (simp add: entry_later_refl)
next
  case (step t u)
  then show ?case using step_entry_later [OF step(2), of q] capability_step_inv [OF step(2)] by (auto simp: entry_later_def)
qed

lemma map_upds_nth:
  assumes "distinct xs" "length xs = length ys" "k < length xs"
  shows "(m(xs [\<mapsto>] ys)) (xs ! k) = Some (ys ! k)"
  using assms
proof (induction xs arbitrary: ys m k)
  case (Cons x xs)
  then obtain y zs where "ys = y # zs" by (cases ys) auto
  then show ?case using Cons by (cases k) (auto simp: map_upds_apply_nontin)
qed simp

lemma snapshot_entries_no_err: "snapshot_entries es active \<noteq> Err e"
proof (induction es active arbitrary: e rule: snapshot_entries.induct)
  case (2 es n i active)
  then show ?case by (cases "bt_get es i"; cases "snapshot_entries es active") auto
qed simp

section \<open>A concrete run\<close>

text \<open>One native capability with one slot: registered, called, removed while the call runs.\<close>

definition demo_capability_config :: embedded_runtime_config where
  "demo_capability_config = \<lparr>max_registered_plugins = 1, max_registered_pools = 1, max_sessions = 1,
     max_registered_capabilities = 2, max_resident_vms = 1, max_running_calls = 1, max_queued_calls = 1,
     max_queued_bytes = 10, max_operations = 1, max_effect_records_per_operation = 1,
     max_effect_bytes_per_operation = 10, max_host_requests = 1, max_host_request_bytes = 10, max_value_bytes = 10\<rparr>"

definition demo_descriptor :: "capability_execution \<Rightarrow> capability_descriptor" where
  "demo_descriptor x = \<lparr>cd_name = ''n'', cd_version = ''1.0.0'', cd_description = ''d'', cd_input_schema = VBool True,
     cd_output_schema = VBool True, cd_execution = x, cd_permissions = [], cd_scope = Invocation, cd_max_concurrent = 1,
     cd_max_call_ms = 5, cd_max_input_bytes = 10, cd_max_output_bytes = 10, cd_effects = Mutating, cd_idempotency = NotIdempotent\<rparr>"

definition demo_schemas :: schema_library where
  "demo_schemas = \<lparr>sl_build = (\<lambda>_. None), sl_validate = (\<lambda>_ _. None)\<rparr>"

definition demo_request :: capability_registration_request where
  "demo_request = \<lparr>rr_descriptor = demo_descriptor Native, rr_native = Some 7\<rparr>"

definition demo_entry_state :: "bool \<Rightarrow> usize \<Rightarrow> bool \<Rightarrow> native_ref option \<Rightarrow> entry_state" where
  "demo_entry_state accepting running releasing native =
     \<lparr>es_accepting = accepting, es_finalization_only = False, es_running = running, es_releasing = releasing, es_native = native\<rparr>"

definition demo_registry :: "registry_state \<Rightarrow> usize \<Rightarrow> entry_state list \<Rightarrow> capability_registry" where
  "demo_registry st running es =
     \<lparr>cr_broker = 0, cr_runtime_id = ''r'', cr_config = demo_capability_config, cr_state = mutex_new st,
      cr_arena = \<lparr>ca_limit = 1, ca_running = mutex_new running,
        ca_entries = map (\<lambda>e. \<lparr>en_id = ''r:cap:1'', en_descriptor = demo_descriptor Native, en_input = VBool True,
          en_output = VBool True, en_state = mutex_new e\<rparr>) es\<rparr>\<rparr>"

definition demo_empty_maps :: registry_state where
  "demo_empty_maps = \<lparr>rg_closing = False, rg_sequence = 0, rg_active = [], rg_entries = []\<rparr>"

definition demo_active_maps :: registry_state where
  "demo_active_maps = \<lparr>rg_closing = False, rg_sequence = 1, rg_active = [(''n'', ''r:cap:1'')], rg_entries = [(''r:cap:1'', 0)]\<rparr>"

definition demo_removed_maps :: registry_state where
  "demo_removed_maps = \<lparr>rg_closing = False, rg_sequence = 2, rg_active = [], rg_entries = [(''r:cap:1'', 0)]\<rparr>"

lemmas demo_capability_defs = demo_capability_config_def demo_descriptor_def demo_schemas_def demo_request_def demo_entry_state_def
  demo_registry_def demo_empty_maps_def demo_active_maps_def demo_removed_maps_def

lemma demo_cap_id: "identity_render CapabilityIdentity ''r'' (Suc 0) = ''r:cap:1''"
  by code_simp

lemma demo_registers:
  "registry_register demo_schemas (\<lambda>_. True) (\<lambda>_. 0) [demo_request] (demo_registry demo_empty_maps 0 []) =
     (Ok [''r:cap:1''], demo_registry demo_active_maps 0 [demo_entry_state True 0 False (Some 7)])"
  by (simp add: demo_capability_defs registry_register_def descriptor_compile_def bad_name_def trim_is_empty_def contains_nul_def
      is_whitespace_def contract_compile_def instant_max_def nanos_per_sec_def nanos_per_milli_def with_registry_def register_check_def
      saturating_sub_def new_entry_def demo_cap_id mutex_new_def u64_max_def instant_checked_add_def checked_add_def Let_def)

lemma demo_new: "capability_registry_new 0 ''r'' demo_capability_config = Ok (demo_registry demo_empty_maps 0 [])"
  by (simp add: capability_registry_new_def runtime_config_validate_def demo_capability_defs bad_name_def trim_is_empty_def
      contains_nul_def is_whitespace_def)

text \<open>Registered; called; removed and closed during the call; the call ended; the callback released.\<close>

definition demo_system :: "registry_state \<Rightarrow> entry_state \<Rightarrow> entry_ref list \<Rightarrow> entry_ref list \<Rightarrow> capability_system" where
  "demo_system st e permits releases =
     \<lparr>sy_registry = demo_registry st (length permits) [e], sy_permits = permits, sy_releases = releases\<rparr>"

lemma demo_capability_registered: "capability_reachable demo_capability_config (demo_system demo_active_maps (demo_entry_state True 0 False (Some 7)) [] [])"
proof -
  let ?s = "\<lparr>sy_registry = demo_registry demo_empty_maps 0 [], sy_permits = [], sy_releases = []\<rparr>"
  have "capability_reachable demo_capability_config ?s" by (rule cap_start [OF demo_new])
  from cap_next [OF this cap_register [of ?s demo_schemas "\<lambda>_. True" "\<lambda>_. 0" "[demo_request]"]]
  show ?thesis by (simp add: demo_registers demo_system_def)
qed

lemma demo_called_reachable: "capability_reachable demo_capability_config (demo_system demo_active_maps (demo_entry_state True 1 False (Some 7)) [0] [])"
proof -
  let ?s = "demo_system demo_active_maps (demo_entry_state True 0 False (Some 7)) [] []"
  have "entry_admit 0 False (sy_arena ?s) = (Ok (Some 7), cr_arena (demo_registry demo_active_maps 1 [demo_entry_state True 1 False (Some 7)]))"
    by (simp add: demo_system_def demo_capability_defs entry_admit_def entry_at_def entry_refuses_def set_entry_state_def)
  from cap_next [OF demo_capability_registered cap_admit [OF _ this]]
  show ?thesis by (simp add: demo_system_def put_arena_def demo_registry_def)
qed

lemma demo_removed_reachable: "capability_reachable demo_capability_config (demo_system demo_removed_maps (demo_entry_state False 1 False (Some 7)) [0] [])"
proof -
  let ?s = "demo_system demo_active_maps (demo_entry_state True 1 False (Some 7)) [0] []"
  let ?t = "demo_system demo_removed_maps (demo_entry_state True 1 False (Some 7)) [0] []"
  have "snd (unregister_locked ''r:cap:1'' (sy_registry ?s)) = sy_registry ?t"
    by (simp add: demo_system_def demo_capability_defs unregister_locked_def with_registry_def unregister_check_def entry_at_def mutex_new_def u64_max_def checked_add_def)
  then have t: "capability_reachable demo_capability_config ?t"
    using cap_next [OF demo_called_reachable cap_unregister [of ?s "''r:cap:1''"]] by (simp add: demo_system_def)
  have "close_entry_locked 0 (sy_arena ?t) = (Ok None, cr_arena (demo_registry demo_removed_maps 1 [demo_entry_state False 1 False (Some 7)]))"
    by (simp add: demo_system_def demo_capability_defs close_entry_locked_def entry_at_def take_callback_def set_entry_state_def mutex_recover_def mutex_new_def)
  from cap_next [OF t cap_close [OF _ _ this]]
  show ?thesis by (simp add: demo_system_def put_arena_def note_taken_def demo_registry_def inactive_def demo_removed_maps_def)
qed

lemma demo_drained_reachable: "capability_reachable demo_capability_config (demo_system demo_removed_maps (demo_entry_state False 0 False None) [] [])"
proof -
  let ?s = "demo_system demo_removed_maps (demo_entry_state False 1 False (Some 7)) [0] []"
  let ?t = "demo_system demo_removed_maps (demo_entry_state False 0 True None) [] [0]"
  have "drop_permit_locked 0 (sy_arena ?s) = (Ok (Some 7), sy_arena ?t)"
    by (simp add: demo_system_def demo_capability_defs drop_permit_locked_def entry_at_def take_callback_def set_entry_state_def mutex_recover_def
        mutex_new_def Let_def checked_sub_def)
  from cap_next [OF demo_removed_reachable cap_drop [OF _ this]]
  have t: "capability_reachable demo_capability_config ?t"
    by (simp add: demo_system_def put_arena_def note_taken_def demo_registry_def)
  have "snd (callback_released 0 (sy_arena ?t)) = cr_arena (demo_registry demo_removed_maps 0 [demo_entry_state False 0 False None])"
    by (simp add: demo_system_def demo_capability_defs callback_released_def write_state_def entry_at_def set_entry_state_def mutex_recover_def mutex_new_def)
  then show ?thesis
    using cap_next [OF t cap_released [of 0]] by (simp add: demo_system_def put_arena_def demo_registry_def)
qed

section \<open>Properties\<close>

text \<open>
  Property C19. Capability admission is exact under every interleaving: the runtime-wide counter is the
  number of live permits and stays within the configured number of host requests, every entry counts
  exactly its own permits and stays within its declared concurrency, a native entry that can be called
  or is being called still has its callback, and no permit's destructor panics.
\<close>

theorem capability_admission_exact:
  assumes "capability_reachable config s"
  shows "guarded (ca_running (sy_arena s)) = length (sy_permits s) \<and> length (sy_permits s) \<le> max_host_requests config \<and>
    (\<forall>r < length (ca_entries (sy_arena s)).
       let e = entry_at (sy_arena s) r; st = guarded (en_state e) in
       es_running st = count_list (sy_permits s) r \<and> es_running st \<le> cd_max_concurrent (en_descriptor e) \<and>
       (es_accepting st \<or> r \<in> set (sy_permits s) \<longrightarrow> (es_native st \<noteq> None \<longleftrightarrow> cd_execution (en_descriptor e) = Native))) \<and>
    (\<forall>r \<in> set (sy_permits s). is_ok (fst (drop_permit_locked r (sy_arena s))))"
proof -
  have inv: "capability_inv s" "cr_config (sy_registry s) = config" using capability_reachable_inv [OF assms] by auto
  have a: "arena_inv (sy_arena s) (sy_permits s) (sy_releases s)" and g: "maps_inv (sy_registry s)"
    using inv(1) by (simp_all add: capability_inv_def)
  note d = arena_invD [OF a]
  have "length (sy_permits s) \<le> max_host_requests config" using d(3) maps_invD(5) [OF g] inv(2) by simp
  moreover have "is_ok (fst (drop_permit_locked r (sy_arena s)))" if "r \<in> set (sy_permits s)" for r
    using drop_section [OF a that] by (auto simp: is_ok_iff)
  moreover have "let e = entry_at (sy_arena s) r; st = guarded (en_state e) in
       es_running st = count_list (sy_permits s) r \<and> es_running st \<le> cd_max_concurrent (en_descriptor e) \<and>
       (es_accepting st \<or> r \<in> set (sy_permits s) \<longrightarrow> (es_native st \<noteq> None \<longleftrightarrow> cd_execution (en_descriptor e) = Native))"
    if "r < length (ca_entries (sy_arena s))" for r
    using entries_okD(4) [OF d(4) that] count_list_pos [of r "sy_permits s"] by (auto simp: entry_ok_def Let_def)
  ultimately show ?thesis using d(2) by blast
qed

theorem capability_admission_exact_witness:
  "es_native (guarded (en_state (entry_at (sy_arena (demo_system demo_removed_maps (demo_entry_state False 1 False (Some 7)) [0] [])) 0))) \<noteq> None"
  using capability_admission_exact [OF demo_removed_reachable] by (simp add: demo_system_def demo_capability_defs entry_at_def Let_def)

text \<open>
  The life of a registration ends once and for good: an entry reports that it is drained
  exactly when it is closed, no permit of it is live and no thread is still releasing its callback;
  from then on, whatever any thread does, it stays drained with no permit and no release, every
  admission to it fails, and it keeps its identity. A registration that is still listed under an
  active name is never drained, so forgetting one never hides a callable capability.
\<close>

theorem drained_is_final:
  assumes "capability_reachable config s" "r < length (ca_entries (sy_arena s))"
  shows "(is_drained (entry_guard (sy_arena s) r) \<longleftrightarrow>
      \<not> es_accepting (entry_guard (sy_arena s) r) \<and> r \<notin> set (sy_permits s) \<and> r \<notin> set (sy_releases s)) \<and>
    (\<forall>t. is_drained (entry_guard (sy_arena s) r) \<and> capability_step\<^sup>*\<^sup>* s t \<longrightarrow>
      is_drained (entry_guard (sy_arena t) r) \<and> en_id (entry_at (sy_arena t) r) = en_id (entry_at (sy_arena s) r) \<and>
      r \<notin> set (sy_permits t) \<and> r \<notin> set (sy_releases t) \<and> \<not> is_ok (fst (entry_admit r finalization (sy_arena t)))) \<and>
    (\<forall>n. bt_get (rg_active (sy_state s)) n = Some (en_id (entry_at (sy_arena s) r)) \<longrightarrow> \<not> is_drained (entry_guard (sy_arena s) r))"
proof -
  have exact: "is_drained (entry_guard (sy_arena t) r) \<longleftrightarrow>
      \<not> es_accepting (entry_guard (sy_arena t) r) \<and> r \<notin> set (sy_permits t) \<and> r \<notin> set (sy_releases t)"
    if "capability_inv t" "r < length (ca_entries (sy_arena t))" for t
    using that entries_okD(4) [OF arena_invD(4) that(2)] count_list_pos [of r "sy_permits t"]
    by (auto simp: capability_inv_def is_drained_def entry_ok_def Let_def count_list_0_iff)
  have inv: "capability_inv s" using capability_reachable_inv [OF assms(1)] by simp
  have final: "is_drained (entry_guard (sy_arena t) r) \<and> en_id (entry_at (sy_arena t) r) = en_id (entry_at (sy_arena s) r) \<and>
      r \<notin> set (sy_permits t) \<and> r \<notin> set (sy_releases t) \<and> \<not> is_ok (fst (entry_admit r finalization (sy_arena t)))"
    if "is_drained (entry_guard (sy_arena s) r)" "capability_step\<^sup>*\<^sup>* s t" for t
  proof -
    have t: "capability_inv t" "r < length (ca_entries (sy_arena t))" "entry_later (entry_at (sy_arena s) r) (entry_at (sy_arena t) r)"
      using steps_entry_later [OF that(2) inv assms(2)] by auto
    then have dr: "is_drained (entry_guard (sy_arena t) r)" using that(1) by (simp add: entry_later_def)
    then show ?thesis using exact [OF t(1,2)] t(3) by (auto simp: entry_later_def entry_admit_def entry_refuses_def Let_def)
  qed
  have active: "\<not> is_drained (entry_guard (sy_arena s) r)" if act: "bt_get (rg_active (sy_state s)) n = Some (en_id (entry_at (sy_arena s) r))" for n
  proof -
    have g: "maps_inv (sy_registry s)" using inv by (simp add: capability_inv_def)
    obtain q where q: "bt_get (rg_entries (sy_state s)) (en_id (entry_at (sy_arena s) r)) = Some q" "es_accepting (entry_guard (sy_arena s) q)"
      using maps_invD(9) [OF g act] by (auto simp: entry_at_def)
    have "q < length (ca_entries (sy_arena s))" "map en_id (ca_entries (sy_arena s)) ! q = map en_id (ca_entries (sy_arena s)) ! r"
      using maps_invD(8) [OF g q(1)] assms(2) by (simp_all add: entry_at_def)
    then have "q = r" using nth_eq_iff_index_eq [OF maps_invD(6) [OF g]] assms(2) by simp
    then show ?thesis using q(2) by (simp add: is_drained_def)
  qed
  show ?thesis using exact [OF inv assms(2)] final active by blast
qed

theorem drained_is_final_witness:
  "\<not> is_ok (fst (entry_admit 0 True (sy_arena (demo_system demo_removed_maps (demo_entry_state False 0 False None) [] []))))"
proof -
  let ?s = "demo_system demo_removed_maps (demo_entry_state False 0 False None) [] []"
  have "is_drained (entry_guard (sy_arena ?s) 0)" "0 < length (ca_entries (sy_arena ?s))"
    by (simp_all add: demo_system_def demo_capability_defs entry_at_def is_drained_def)
  then show ?thesis using drained_is_final [OF demo_drained_reachable, of 0 True] by blast
qed

text \<open>
  Property C36. Registration is all or nothing: in every reachable state a batch is either refused with
  the registry exactly as before, or every request gets an identity no entry of the registry has or
  ever had, each listed as accepting with nothing in flight, every other identity keeps its status, and
  the number of registrations stays within its limit. A registration never panics.
\<close>

theorem registration_atomic:
  assumes "capability_reachable config s"
  shows "case registry_register js is_semver clk requests (sy_registry s) of
      (Ok ids, g) \<Rightarrow>
        length ids = length requests \<and> distinct ids \<and> (\<forall>e \<in> set (ca_entries (sy_arena s)). en_id e \<notin> set ids) \<and>
        (\<forall>k < length requests. registry_status g (ids ! k) =
           Ok \<lparr>st_registration_id = ids ! k, st_name = cd_name (rr_descriptor (requests ! k)), st_accepting = True,
               st_in_flight = 0, st_drained = False\<rparr>) \<and>
        (\<forall>i. i \<notin> set ids \<longrightarrow> registry_status g i = registry_status (sy_registry s) i) \<and>
        length (rg_entries (guarded (cr_state g))) \<le> max_registered_capabilities config
    | (Err e, g) \<Rightarrow> g = sy_registry s
    | (Panic p, g) \<Rightarrow> False"
proof -
  have g: "maps_inv (sy_registry s)" and c: "cr_config (sy_registry s) = config"
    using capability_reachable_inv [OF assms] by (auto simp: capability_inv_def)
  show ?thesis
    using g
  proof (cases rule: registry_register_cases [of "sy_registry s" js is_semver clk requests])
    case (registered ps st a)
    let ?ids = "next_ids (cr_runtime_id (sy_registry s)) (rg_sequence (sy_state s)) (length ps)"
    let ?n = "length (ca_entries (sy_arena s))"
    have len: "length ps = length requests" using registered(2) by auto
    have r: "ca_entries a = ca_entries (sy_arena s) @ map2 new_entry ?ids ps"
      "bt_get (rg_entries st) = (bt_get (rg_entries (sy_state s)))(?ids [\<mapsto>] [?n..<?n + length ps])"
      using registered(5) register_all_result [of "cr_runtime_id (sy_registry s)" ps "sy_state s" "sy_arena s"] by simp_all
    have new: "registry_status ((sy_registry s)\<lparr>cr_state := mutex_new st, cr_arena := a\<rparr>) (?ids ! k) =
        Ok \<lparr>st_registration_id = ?ids ! k, st_name = cd_name (rr_descriptor (requests ! k)), st_accepting = True, st_in_flight = 0, st_drained = False\<rparr>"
      if "k < length requests" for k
    proof -
      have "bt_get (rg_entries st) (?ids ! k) = Some (?n + k)"
        using that len next_ids_props(1,2) by (simp add: r(2) map_upds_nth)
      moreover have "entry_at a (?n + k) = new_entry (?ids ! k) (ps ! k)"
        using that len next_ids_props(1) by (simp add: entry_at_def r(1) nth_append)
      moreover have "fst (ps ! k) = requests ! k" using registered(2) that len by (metis nth_map)
      ultimately show ?thesis
        by (simp add: registry_status_def entry_status_def new_entry_def is_drained_def case_prod_beta)
    qed
    have old: "registry_status ((sy_registry s)\<lparr>cr_state := mutex_new st, cr_arena := a\<rparr>) i = registry_status (sy_registry s) i"
      if "i \<notin> set ?ids" for i
    proof -
      have "bt_get (rg_entries st) i = bt_get (rg_entries (sy_state s)) i" using that by (simp add: r(2))
      moreover have "entry_at a q = entry_at (sy_arena s) q" if "bt_get (rg_entries (sy_state s)) i = Some q" for q
        using maps_invD(8) [OF g that] by (simp add: entry_at_def r(1) nth_append)
      ultimately show ?thesis
        using maps_invD(1) [OF g] by (cases "bt_get (rg_entries (sy_state s)) i") (simp_all add: registry_status_def entry_status_def)
    qed
    have fresh: "en_id e \<notin> set ?ids" if "e \<in> set (ca_entries (sy_arena s))" for e
      using maps_invD(7) [OF g] that next_ids_props(3) by blast
    have "length (rg_entries st) \<le> max_registered_capabilities config"
      using registry_register_maps [OF g, of js is_semver clk requests] maps_invD(4) registered(6) c by fastforce
    then show ?thesis using registered(6) new old fresh next_ids_props(1,2) len by simp
  qed simp
qed

theorem registration_atomic_witness:
  "registry_status (demo_registry demo_active_maps 0 [demo_entry_state True 0 False (Some 7)]) ''r:cap:1'' =
     Ok \<lparr>st_registration_id = ''r:cap:1'', st_name = cd_name (rr_descriptor demo_request), st_accepting = True, st_in_flight = 0, st_drained = False\<rparr>"
  using registration_atomic [OF cap_start [OF demo_new], of "[demo_request]" demo_schemas "\<lambda>_. True" "\<lambda>_. 0"]
  by (simp add: demo_registers)

text \<open>
  A snapshot is sound: in every reachable state taking one does not panic, it is refused
  exactly when the registry is closing, and otherwise it binds every active name, and nothing else, to
  an entry that is registered under that name, accepts calls and is not restricted to finalization.
\<close>

theorem snapshot_sound:
  assumes "capability_reachable config s"
  shows "case registry_snapshot (sy_registry s) of
      (Ok snap, g) \<Rightarrow>
        \<not> rg_closing (sy_state s) \<and> snap_revision snap = rg_sequence (sy_state s) \<and>
        map fst (snap_entries snap) = map fst (rg_active (sy_state s)) \<and>
        (\<forall>(n, r) \<in> set (snap_entries snap). r < length (ca_entries (sy_arena s)) \<and> cd_name (en_descriptor (entry_at (sy_arena s) r)) = n \<and>
           registry_status (sy_registry s) (en_id (entry_at (sy_arena s) r)) = entry_status (sy_arena s) r \<and>
           es_accepting (entry_guard (sy_arena s) r) \<and> \<not> es_finalization_only (entry_guard (sy_arena s) r))
    | (Err e, g) \<Rightarrow> rg_closing (sy_state s)
    | (Panic p, g) \<Rightarrow> False"
proof -
  have g: "maps_inv (sy_registry s)" using capability_reachable_inv [OF assms] by (simp add: capability_inv_def)
  note h = maps_invD(1) [OF g]
  show ?thesis
  proof (cases "rg_closing (sy_state s)")
    case True
    then show ?thesis using h by (simp add: registry_snapshot_def with_registry_def)
  next
    case False
    then obtain es where es: "snapshot_entries (rg_entries (sy_state s)) (rg_active (sy_state s)) = Ok es"
      using snapshot_not_panic [OF g]
      by (cases "snapshot_entries (rg_entries (sy_state s)) (rg_active (sy_state s))") (auto simp: snapshot_entries_no_err)
    note p = snapshot_entries_result(2) [OF es]
    have "r < length (ca_entries (sy_arena s)) \<and> cd_name (en_descriptor (entry_at (sy_arena s) r)) = n \<and>
           registry_status (sy_registry s) (en_id (entry_at (sy_arena s) r)) = entry_status (sy_arena s) r \<and>
           es_accepting (entry_guard (sy_arena s) r) \<and> \<not> es_finalization_only (entry_guard (sy_arena s) r)"
      if "(n, r) \<in> set es" for n r
    proof -
      obtain k where k: "k < length es" "es ! k = (n, r)" using \<open>(n, r) \<in> set es\<close> by (metis in_set_conv_nth)
      have "length es = length (rg_active (sy_state s))" using p by (metis length_map)
      then have act: "fst (rg_active (sy_state s) ! k) = n" "bt_get (rg_entries (sy_state s)) (snd (rg_active (sy_state s) ! k)) = Some r"
        "rg_active (sy_state s) ! k \<in> set (rg_active (sy_state s))"
        using p k list_all2_nthD [of _ es _ k] by (metis fst_conv nth_map, force, simp)
      then have "bt_get (rg_active (sy_state s)) n = Some (snd (rg_active (sy_state s) ! k))"
        using bt.get_iff [OF maps_invD(2) [OF g]] by (metis prod.collapse)
      then obtain q where q: "bt_get (rg_entries (sy_state s)) (snd (rg_active (sy_state s) ! k)) = Some q"
        "cd_name (en_descriptor (ca_entries (sy_arena s) ! q)) = n" "es_accepting (guarded (en_state (ca_entries (sy_arena s) ! q)))"
        using maps_invD(9) [OF g] by blast
      have "q = r" using q(1) act(2) by simp
      then show ?thesis
        using q maps_invD(8) [OF g q(1)] maps_invD(11) [OF g nth_mem [of r]] False h by (auto simp: registry_status_def entry_at_def)
    qed
    then show ?thesis using h False es p by (auto simp: registry_snapshot_def with_registry_def)
  qed
qed

end
