(* ===== verification/Host_System.thy ===== *)
theory Host_System
  imports Capability_Host Capability_Theorems "HOL-Library.Multiset"
begin

text \<open>
  The broker and the registry under Rust's ownership discipline: the steps are the critical sections
  of all threads in any order. A prepared call is owned by exactly one place: the thread that holds
  it before submission, the record of its request, or the thread that has taken it out of the record.
  Ghost lists record the identities delivered to the host, claimed by a completion and published.
\<close>

section \<open>Steps\<close>

text \<open>A thread between two sections, with what it owns.\<close>

datatype host_task =
    Holding prepared_capability
  | Cancelling string prepared_capability
  | Claimed string prepared_capability capability_outcome
  | Driving string prepared_capability capability_outcome
  | Publishing string capability_outcome

record host_system =
  hx_host :: capability_host
  hx_permits :: "entry_ref list"
  hx_releases :: "entry_ref list"
  hx_tasks :: "host_task list"
  hx_delivered :: "string list"
  hx_claimed :: "string list"
  hx_published :: "string list"

abbreviation hx_broker :: "host_system \<Rightarrow> broker_state" where
  "hx_broker x \<equiv> broker_guard (hx_host x)"

definition registry_view :: "host_system \<Rightarrow> capability_system" where
  "registry_view x = \<lparr>sy_registry = ho_registry (hx_host x), sy_permits = hx_permits x, sy_releases = hx_releases x\<rparr>"

fun task_prepared :: "host_task \<Rightarrow> prepared_capability option" where
  "task_prepared (Holding p) = Some p"
| "task_prepared (Cancelling i p) = Some p"
| "task_prepared (Claimed i p out) = Some p"
| "task_prepared (Driving i p out) = Some p"
| "task_prepared (Publishing i out) = None"

fun task_id :: "host_task \<Rightarrow> string option" where
  "task_id (Holding p) = None"
| "task_id (Cancelling i p) = Some i"
| "task_id (Claimed i p out) = Some i"
| "task_id (Driving i p out) = Some i"
| "task_id (Publishing i out) = Some i"

text \<open>The permits owned by tasks and by request records.\<close>

definition option_mset :: "'a option \<Rightarrow> 'a multiset" where
  "option_mset z = (case z of None \<Rightarrow> {#} | Some a \<Rightarrow> {#a#})"

definition owned_by_tasks :: "host_task list \<Rightarrow> entry_ref multiset" where
  "owned_by_tasks ts = (\<Sum>t \<leftarrow> ts. image_mset pp_entry (option_mset (task_prepared t)))"

definition owned_by_records :: "(string, request_record) btree \<Rightarrow> entry_ref multiset" where
  "owned_by_records rs = (\<Sum>e \<leftarrow> rs. image_mset pp_entry (option_mset (rq_prepared (snd e))))"

definition owned_permits :: "host_system \<Rightarrow> entry_ref multiset" where
  "owned_permits x = owned_by_tasks (hx_tasks x) + owned_by_records (bk_records (hx_broker x))"

inductive host_step :: "host_system \<Rightarrow> host_system \<Rightarrow> bool" where
  hx_registry:
    "capability_step (registry_view x) y \<Longrightarrow> owned_permits x \<subseteq># mset (sy_permits y) \<Longrightarrow>
     host_step x (x\<lparr>hx_host := (hx_host x)\<lparr>ho_registry := sy_registry y\<rparr>, hx_permits := sy_permits y, hx_releases := sy_releases y\<rparr>)"
| hx_environment:
    "host_step x (x\<lparr>hx_host := (hx_host x)\<lparr>ho_controls := cs, ho_ledgers := ls, ho_permissions := ps\<rparr>\<rparr>)"
| hx_prepared:
    "add_mset (pp_entry p) (owned_permits x) \<subseteq># mset (hx_permits x) \<Longrightarrow> host_step x (x\<lparr>hx_tasks := Holding p # hx_tasks x\<rparr>)"
| hx_discarded:
    "Holding p \<in> set (hx_tasks x) \<Longrightarrow> host_step x (x\<lparr>hx_tasks := remove1 (Holding p) (hx_tasks x)\<rparr>)"
| hx_submit:
    "Holding p \<in> set (hx_tasks x) \<Longrightarrow> submit_section env ser now p (hx_host x) = (r, h) \<Longrightarrow>
     host_step x (x\<lparr>hx_host := h, hx_tasks := (if is_ok r then remove1 (Holding p) (hx_tasks x) else hx_tasks x)\<rparr>)"
| hx_take:
    "(\<And>q. \<not> is_panic (prep q)) \<Longrightarrow> \<not> is_panic (rd_start rd) \<Longrightarrow> take_section prep rd (hx_host x) = (r, h) \<Longrightarrow>
     host_step x (x\<lparr>hx_host := h, hx_delivered := (case r of Ok (Delivered q) \<Rightarrow> hx_delivered x @ [hr_request_id q] | _ \<Rightarrow> hx_delivered x)\<rparr>)"
| hx_cancel:
    "cancel_section i e (hx_host x) = (r, h) \<Longrightarrow>
     host_step x (x\<lparr>hx_host := h, hx_tasks := (case r of Ok (Some p) \<Rightarrow> Cancelling i p # hx_tasks x | _ \<Rightarrow> hx_tasks x)\<rparr>)"
| hx_cancelled:
    "Cancelling i p \<in> set (hx_tasks x) \<Longrightarrow>
     host_step x (x\<lparr>hx_tasks := Publishing i cancelled_before_dispatch # remove1 (Cancelling i p) (hx_tasks x)\<rparr>)"
| hx_claim:
    "claim_section i (hx_host x) = (r, h) \<Longrightarrow>
     host_step x (x\<lparr>hx_host := h, hx_tasks := (case r of Ok p \<Rightarrow> Claimed i p out # hx_tasks x | _ \<Rightarrow> hx_tasks x),
       hx_claimed := (case r of Ok p \<Rightarrow> hx_claimed x @ [i] | _ \<Rightarrow> hx_claimed x)\<rparr>)"
| hx_validated:
    "Claimed i p out \<in> set (hx_tasks x) \<Longrightarrow>
     put_completion i p (override_result auth (validate_outcome js sv se (prepared_entry (hx_host x) p) out)) (hx_host x) = (r, h) \<Longrightarrow>
     host_step x (x\<lparr>hx_host := h, hx_tasks := remove1 (Claimed i p out) (hx_tasks x)\<rparr>)"
| hx_drive:
    "take_completion i (hx_host x) = (r, h) \<Longrightarrow>
     host_step x (x\<lparr>hx_host := h, hx_tasks := (case r of Ok (Some (p, out)) \<Rightarrow> Driving i p out # hx_tasks x | _ \<Rightarrow> hx_tasks x)\<rparr>)"
| hx_settled:
    "Driving i p out \<in> set (hx_tasks x) \<Longrightarrow>
     host_step x (x\<lparr>hx_tasks := Publishing i (override_result auth out) # remove1 (Driving i p out) (hx_tasks x)\<rparr>)"
| hx_unsettled:
    "Driving i p out \<in> set (hx_tasks x) \<Longrightarrow> put_completion i p out (hx_host x) = (r, h) \<Longrightarrow>
     host_step x (x\<lparr>hx_host := h, hx_tasks := remove1 (Driving i p out) (hx_tasks x)\<rparr>)"
| hx_publish:
    "Publishing i out \<in> set (hx_tasks x) \<Longrightarrow> publish_section i out (hx_host x) = (r, h) \<Longrightarrow>
     host_step x (x\<lparr>hx_host := h, hx_tasks := remove1 (Publishing i out) (hx_tasks x), hx_published := hx_published x @ [i]\<rparr>)"
| hx_abandon:
    "abandon_section i (hx_host x) = (r, h) \<Longrightarrow> host_step x (x\<lparr>hx_host := h\<rparr>)"
| hx_close:
    "close_section (hx_host x) = (r, h) \<Longrightarrow> host_step x (x\<lparr>hx_host := h\<rparr>)"

inductive host_reachable :: "embedded_runtime_config \<Rightarrow> host_system \<Rightarrow> bool" for config where
  hx_start:
    "capability_registry_new address runtime_id config = Ok g \<Longrightarrow>
     host_reachable config
       \<lparr>hx_host = \<lparr>ho_registry = g, ho_broker = broker_new runtime_id config, ho_controls = cs, ho_ledgers = ls, ho_permissions = ps\<rparr>,
        hx_permits = [], hx_releases = [], hx_tasks = [], hx_delivered = [], hx_claimed = [], hx_published = []\<rparr>"
| hx_next: "host_reachable config x \<Longrightarrow> host_step x y \<Longrightarrow> host_reachable config y"

section \<open>The invariant of the broker\<close>

definition count_task :: "string \<Rightarrow> host_task list \<Rightarrow> nat" where
  "count_task i ts = length (filter (\<lambda>t. task_id t = Some i) ts)"

text \<open>The shape of a record in each phase, given the number of threads that hold its call.\<close>

fun record_shape :: "host_request_phase \<Rightarrow> request_record \<Rightarrow> nat \<Rightarrow> bool" where
  "record_shape RqQueued r n = (n = 0 \<and> rq_prepared r \<noteq> None \<and> rq_pending_outcome r = None \<and> rq_outcome r = None)"
| "record_shape RqDispatched r n = (n = 0 \<and> rq_prepared r \<noteq> None \<and> rq_pending_outcome r = None \<and> rq_outcome r = None)"
| "record_shape RqCompleting r n =
     (rq_outcome r = None \<and> (n = 0 \<and> rq_prepared r \<noteq> None \<and> rq_pending_outcome r \<noteq> None \<or>
        n = 1 \<and> rq_prepared r = None \<and> rq_pending_outcome r = None))"
| "record_shape RqCompleted r n =
     (n = 0 \<and> rq_prepared r = None \<and> rq_pending_outcome r = None \<and> rq_outcome r \<noteq> None \<and> rq_waiter_alive r)"

text \<open>
  The parts of the invariant speak about a broker state with the limits of its broker, the threads'
  tasks and the ghost lists.
\<close>

definition request_ids :: "string \<Rightarrow> broker_state \<Rightarrow> string set" where
  "request_ids rid st = request_id_of rid ` {1..bk_sequence st}"

definition bounds_ok :: "string \<Rightarrow> usize \<Rightarrow> usize \<Rightarrow> broker_state \<Rightarrow> bool" where
  "bounds_ok rid max_records max_bytes st \<longleftrightarrow>
     bt_wf (bk_records st) \<and> bk_sequence st \<le> u64_max \<and>
     length (bk_records st) \<le> max_records \<and> length (bk_tombstones st) \<le> max_records \<and>
     bk_bytes st = sum_list (map (\<lambda>e. rq_bytes (snd e)) (bk_records st)) \<and> bk_bytes st \<le> max_bytes \<and>
     (\<forall>i r. bt_get (bk_records st) i = Some r \<longrightarrow> hr_request_id (rq_request r) = i \<and> i \<in> request_ids rid st)"

definition queue_ok :: "string \<Rightarrow> string list \<Rightarrow> broker_state \<Rightarrow> bool" where
  "queue_ok rid delivered st \<longleftrightarrow>
     (\<exists>ks. delivered @ bk_ready st = map (request_id_of rid) ks \<and> sorted_wrt (<) ks \<and> set ks \<subseteq> {1..bk_sequence st}) \<and>
     (\<forall>i. i \<in> set (bk_ready st) \<longleftrightarrow> (\<exists>r. bt_get (bk_records st) i = Some r \<and> rq_phase r = RqQueued))"

definition shapes_ok :: "host_task list \<Rightarrow> broker_state \<Rightarrow> bool" where
  "shapes_ok ts st \<longleftrightarrow>
     (\<forall>i. case bt_get (bk_records st) i of
        None \<Rightarrow> count_task i ts = 0
      | Some r \<Rightarrow> record_shape (rq_phase r) r (count_task i ts))"

text \<open>What the ghost lists say about a record.\<close>

definition record_history :: "string list \<Rightarrow> string list \<Rightarrow> string list \<Rightarrow> string \<Rightarrow> request_record \<Rightarrow> bool" where
  "record_history dl cl pb i r \<longleftrightarrow>
     (i \<in> set pb \<longleftrightarrow> rq_phase r = RqCompleted) \<and> (rq_phase r = RqDispatched \<longrightarrow> i \<in> set dl) \<and>
     (rq_phase r \<in> {RqQueued, RqDispatched} \<longrightarrow> i \<notin> set cl)"

definition history_ok :: "string \<Rightarrow> string list \<Rightarrow> string list \<Rightarrow> string list \<Rightarrow> broker_state \<Rightarrow> bool" where
  "history_ok rid dl cl pb st \<longleftrightarrow>
     distinct pb \<and> distinct cl \<and> set cl \<subseteq> set dl \<and> set pb \<subseteq> request_ids rid st \<and>
     (\<forall>i r. bt_get (bk_records st) i = Some r \<longrightarrow> record_history dl cl pb i r)"

text \<open>Owned permits are live, and a request names the registration its prepared call was admitted to.\<close>

definition owners :: "host_task list \<Rightarrow> broker_state \<Rightarrow> (string \<times> prepared_capability) set" where
  "owners ts st =
     {(i, p). \<exists>r. bt_get (bk_records st) i = Some r \<and> rq_prepared r = Some p} \<union>
     {(i, p). \<exists>t \<in> set ts. task_id t = Some i \<and> task_prepared t = Some p}"

definition ownership_ok :: "(entry_ref \<Rightarrow> string) \<Rightarrow> entry_ref list \<Rightarrow> host_task list \<Rightarrow> broker_state \<Rightarrow> bool" where
  "ownership_ok names permits ts st \<longleftrightarrow>
     owned_by_tasks ts + owned_by_records (bk_records st) \<subseteq># mset permits \<and>
     (\<forall>(i, p) \<in> owners ts st. \<forall>r. bt_get (bk_records st) i = Some r \<longrightarrow> hr_registration_id (rq_request r) = names (pp_entry p))"

definition entry_name :: "capability_host \<Rightarrow> entry_ref \<Rightarrow> string" where
  "entry_name h r = en_id (entry_at (cr_arena (ho_registry h)) r)"

definition host_inv :: "host_system \<Rightarrow> bool" where
  "host_inv x \<longleftrightarrow>
     (let b = ho_broker (hx_host x); st = hx_broker x; rid = hb_runtime_id b in
        capability_inv (registry_view x) \<and> \<not> poisoned (hb_state b) \<and>
        bounds_ok rid (hb_max_records b) (hb_max_bytes b) st \<and> queue_ok rid (hx_delivered x) st \<and>
        shapes_ok (hx_tasks x) st \<and> history_ok rid (hx_delivered x) (hx_claimed x) (hx_published x) st \<and>
        ownership_ok (entry_name (hx_host x)) (hx_permits x) (hx_tasks x) st)"

end
