(* ===== verification/Host_Inv.thy ===== *)
theory Host_Inv
  imports Host_System
begin

text \<open>
  Preservation of the broker's invariant, by kind of transition: an update of one record, the removal of
  a completed record, the insertion of a new request, and changes of the tasks alone.
\<close>

section \<open>Small facts\<close>

lemma request_id_inj [simp]: "request_id_of rid m = request_id_of rid n \<longleftrightarrow> m = n"
  by (simp add: request_id_of_def)

lemma request_ids_mono: "bk_sequence st \<le> bk_sequence st' \<Longrightarrow> request_ids rid st \<subseteq> request_ids rid st'"
  by (auto simp: request_ids_def)

lemma boundsD:
  assumes "bounds_ok rid m n st"
  shows "bt_wf (bk_records st)" "bk_sequence st \<le> u64_max" "length (bk_records st) \<le> m" "length (bk_tombstones st) \<le> m"
    "bk_bytes st = sum_list (map (\<lambda>e. rq_bytes (snd e)) (bk_records st))" "bk_bytes st \<le> n"
    "bt_get (bk_records st) i = Some r \<Longrightarrow> hr_request_id (rq_request r) = i"
    "bt_get (bk_records st) i = Some r \<Longrightarrow> i \<in> request_ids rid st"
  using assms by (auto simp: bounds_ok_def)

lemma queueD:
  assumes "queue_ok rid dl st"
  shows "i \<in> set (bk_ready st) \<longleftrightarrow> (\<exists>r. bt_get (bk_records st) i = Some r \<and> rq_phase r = RqQueued)"
    "distinct (dl @ bk_ready st)" "set (dl @ bk_ready st) \<subseteq> request_ids rid st"
proof -
  obtain ks where ks: "dl @ bk_ready st = map (request_id_of rid) ks" "sorted_wrt (<) ks" "set ks \<subseteq> {1..bk_sequence st}"
    using assms by (auto simp: queue_ok_def)
  show "set (dl @ bk_ready st) \<subseteq> request_ids rid st" using ks(3) unfolding ks(1) by (auto simp: request_ids_def)
  have "distinct ks" using ks(2) by (simp add: strict_sorted_iff)
  then show "distinct (dl @ bk_ready st)" unfolding ks(1) by (simp add: distinct_map inj_on_def)
  show "i \<in> set (bk_ready st) \<longleftrightarrow> (\<exists>r. bt_get (bk_records st) i = Some r \<and> rq_phase r = RqQueued)"
    using assms by (simp add: queue_ok_def)
qed

lemma shapesD: "shapes_ok ts st \<Longrightarrow> bt_get (bk_records st) i = Some r \<Longrightarrow> record_shape (rq_phase r) r (count_task i ts)"
  "shapes_ok ts st \<Longrightarrow> bt_get (bk_records st) i = None \<Longrightarrow> count_task i ts = 0"
  by (auto simp: shapes_ok_def dest!: spec [of _ i])

lemma count_task_pos: "t \<in> set ts \<Longrightarrow> task_id t = Some i \<Longrightarrow> 0 < count_task i ts"
  by (auto simp: count_task_def filter_empty_conv)

lemma count_task_Cons [simp]: "count_task i (t # ts) = (if task_id t = Some i then Suc (count_task i ts) else count_task i ts)"
  by (simp add: count_task_def)

lemma count_task_remove1: "t \<in> set ts \<Longrightarrow> count_task i (remove1 t ts) = (if task_id t = Some i then count_task i ts - 1 else count_task i ts)"
proof (induction ts)
  case (Cons a ts)
  then show ?case using count_task_pos [of t ts i] by (cases "a = t") auto
qed simp

lemma owned_by_tasks_Cons [simp]: "owned_by_tasks (t # ts) = image_mset pp_entry (option_mset (task_prepared t)) + owned_by_tasks ts"
  by (simp add: owned_by_tasks_def)

lemma owned_by_tasks_remove1:
  "t \<in> set ts \<Longrightarrow> owned_by_tasks ts = image_mset pp_entry (option_mset (task_prepared t)) + owned_by_tasks (remove1 t ts)"
  by (induction ts) (auto simp: ac_simps)

lemma owned_by_records_Cons [simp]: "owned_by_records (e # rs) = image_mset pp_entry (option_mset (rq_prepared (snd e))) + owned_by_records rs"
  by (simp add: owned_by_records_def)

lemma owned_by_records_Nil [simp]: "owned_by_records [] = {#}"
  by (simp add: owned_by_records_def)

lemma owned_by_records_insert:
  assumes "bt_wf rs"
  shows "owned_by_records (bt_insert i r' rs) + (case bt_get rs i of None \<Rightarrow> {#} | Some r \<Rightarrow> image_mset pp_entry (option_mset (rq_prepared r))) =
    owned_by_records rs + image_mset pp_entry (option_mset (rq_prepared r'))"
  using assms
proof (induction rs)
  case (Cons e rs)
  obtain a b where e: "e = (a, b)" by (cases e)
  have wf: "bt_wf rs" "\<forall>k \<in> fst ` set rs. a < k" using Cons.prems by (simp_all add: bt_wf_Cons e)
  have "i < a \<Longrightarrow> bt_get rs i = None" using wf(2) by (intro bt_get_notin) auto
  then show ?case using Cons.IH [OF wf(1)] by (auto simp: e ac_simps split: option.splits)
qed simp

lemma owned_by_records_remove:
  assumes "bt_wf rs" "bt_get rs i = Some r"
  shows "owned_by_records rs = owned_by_records (bt_remove i rs) + image_mset pp_entry (option_mset (rq_prepared r))"
  using assms
proof (induction rs)
  case (Cons e rs)
  then show ?case by (cases e) (auto simp: bt_wf_Cons ac_simps split: if_splits)
qed simp

lemma option_mset_simps [simp]: "option_mset None = {#}" "option_mset (Some a) = {#a#}"
  by (simp_all add: option_mset_def)

section \<open>Updating one record\<close>

lemma bounds_update:
  assumes "bounds_ok rid m n st" "bt_get (bk_records st) i = Some r" "rq_bytes r' = rq_bytes r" "rq_request r' = rq_request r"
  shows "bounds_ok rid m n (st\<lparr>bk_records := bt_insert i r' (bk_records st), bk_ready := ready\<rparr>)"
proof -
  note d = boundsD [OF assms(1)]
  have "sum_list (map (\<lambda>e. rq_bytes (snd e)) (bt_insert i r' (bk_records st))) = sum_list (map (\<lambda>e. rq_bytes (snd e)) (bk_records st))"
    using bt.sum_put_old [OF d(1) assms(2), of "\<lambda>e. rq_bytes (snd e)" r'] assms(3) by simp
  then show ?thesis
    using d assms(2,4) by (auto simp: bounds_ok_def bt.length_put request_ids_def split: if_splits)
qed

lemma queue_update:
  assumes "queue_ok rid dl st" "bt_get (bk_records st) i = Some r" "rq_phase r' = RqQueued \<longleftrightarrow> rq_phase r = RqQueued"
  shows "queue_ok rid dl (st\<lparr>bk_records := bt_insert i r' (bk_records st)\<rparr>)"
  using assms by (auto simp: queue_ok_def)

lemma sorted_wrt_filter_map:
  assumes "xs @ ys = map f ks" "sorted_wrt (<) ks" "set ks \<subseteq> A"
  shows "\<exists>ls. xs @ filter P ys = map f ls \<and> sorted_wrt (<) (ls :: nat list) \<and> set ls \<subseteq> A"
proof -
  obtain us vs where k: "ks = us @ vs" "xs = map f us" "ys = map f vs" using assms(1) by (metis append_eq_map_conv)
  have "xs @ filter P ys = map f (us @ filter (P \<circ> f) vs)" by (simp add: k filter_map)
  moreover have "sorted_wrt (<) (us @ filter (P \<circ> f) vs)" using assms(2) by (simp add: k sorted_wrt_append sorted_wrt_filter)
  ultimately show ?thesis using assms(3) k(1) by (intro exI [of _ "us @ filter (P \<circ> f) vs"]) auto
qed

text \<open>A queued request leaves the queue without being delivered.\<close>

lemma queue_unqueue:
  assumes "queue_ok rid dl st" "bt_get (bk_records st) i = Some r" "rq_phase r' \<noteq> RqQueued"
  shows "queue_ok rid dl (st\<lparr>bk_records := bt_insert i r' (bk_records st), bk_ready := filter (\<lambda>x. x \<noteq> i) (bk_ready st)\<rparr>)"
proof -
  obtain ks where "dl @ bk_ready st = map (request_id_of rid) ks" "sorted_wrt (<) ks" "set ks \<subseteq> {1..bk_sequence st}"
    using assms(1) by (auto simp: queue_ok_def)
  from sorted_wrt_filter_map [OF this] show ?thesis using assms by (auto simp: queue_ok_def)
qed

text \<open>The front of the queue is delivered.\<close>

lemma queue_deliver:
  assumes "queue_ok rid dl st" "bk_ready st = i # is" "rq_phase r' \<noteq> RqQueued"
  shows "queue_ok rid (dl @ [i]) (st\<lparr>bk_records := bt_insert i r' (bk_records st), bk_ready := is\<rparr>)"
proof -
  have "i \<notin> set is" using queueD(2) [OF assms(1)] assms(2) by simp
  then show ?thesis using assms by (auto simp: queue_ok_def)
qed

lemma shapes_update:
  assumes "shapes_ok ts st" "record_shape (rq_phase r') r' (count_task i ts')" "\<And>j. j \<noteq> i \<Longrightarrow> count_task j ts' = count_task j ts"
  shows "shapes_ok ts' (st\<lparr>bk_records := bt_insert i r' (bk_records st), bk_ready := ready\<rparr>)"
  unfolding shapes_ok_def
proof
  fix j
  show "case bt_get (bk_records (st\<lparr>bk_records := bt_insert i r' (bk_records st), bk_ready := ready\<rparr>)) j of
      None \<Rightarrow> count_task j ts' = 0 | Some r \<Rightarrow> record_shape (rq_phase r) r (count_task j ts')"
    using assms(2,3) shapesD [OF assms(1), of j] by (cases "j = i") (auto split: option.split)
qed

lemma history_update:
  assumes "history_ok rid dl cl pb st" "record_history dl' cl' pb' i r'"
    and "set dl \<subseteq> set dl'" "set dl' \<subseteq> insert i (set dl)" "set cl' \<subseteq> insert i (set cl)" "set cl \<subseteq> set cl'" "set pb' \<subseteq> insert i (set pb)" "set pb \<subseteq> set pb'"
    and "distinct cl'" "distinct pb'" "set cl' \<subseteq> set dl'" "set pb' \<subseteq> request_ids rid st"
  shows "history_ok rid dl' cl' pb' (st\<lparr>bk_records := bt_insert i r' (bk_records st), bk_ready := ready\<rparr>)"
proof -
  have "record_history dl' cl' pb' j r" if "j \<noteq> i" "bt_get (bk_records st) j = Some r" for j r
  proof -
    have "j \<in> set dl' \<longleftrightarrow> j \<in> set dl" "j \<in> set cl' \<longleftrightarrow> j \<in> set cl" "j \<in> set pb' \<longleftrightarrow> j \<in> set pb" using that(1) assms(3-8) by auto
    moreover have "record_history dl cl pb j r" using assms(1) that(2) by (simp add: history_ok_def)
    ultimately show ?thesis by (simp add: record_history_def)
  qed
  then show ?thesis using assms(2,9-12) by (simp add: history_ok_def request_ids_def)
qed

lemma ownership_update:
  assumes "ownership_ok names permits ts st" "bt_wf (bk_records st)" "bt_get (bk_records st) i = Some r" "rq_request r' = rq_request r"
    and "owned_by_tasks ts' + image_mset pp_entry (option_mset (rq_prepared r')) \<subseteq># owned_by_tasks ts + image_mset pp_entry (option_mset (rq_prepared r))"
    and "\<And>p. rq_prepared r' = Some p \<Longrightarrow> (i, p) \<in> owners ts st"
    and "\<And>t j p. t \<in> set ts' \<Longrightarrow> task_id t = Some j \<Longrightarrow> task_prepared t = Some p \<Longrightarrow> (j, p) \<in> owners ts st"
  shows "ownership_ok names permits ts' (st\<lparr>bk_records := bt_insert i r' (bk_records st), bk_ready := ready\<rparr>)"
proof -
  let ?o = "\<lambda>r. image_mset pp_entry (option_mset (rq_prepared r))"
  have o: "owned_by_tasks ts + owned_by_records (bk_records st) \<subseteq># mset permits"
    and n: "\<And>j p q. (j, p) \<in> owners ts st \<Longrightarrow> bt_get (bk_records st) j = Some q \<Longrightarrow> hr_registration_id (rq_request q) = names (pp_entry p)"
    using assms(1) by (auto simp: ownership_ok_def)
  let ?R = "owned_by_records (bk_records st)" and ?R' = "owned_by_records (bt_insert i r' (bk_records st))"
  have ins: "?R' + ?o r = ?R + ?o r'" using owned_by_records_insert [OF assms(2), of i r'] assms(3) by simp
  have "owned_by_tasks ts' + ?R' + ?o r = owned_by_tasks ts' + ?o r' + ?R" using ins by (simp add: add.assoc add.commute [of "?o r'"])
  also have "\<dots> \<subseteq># owned_by_tasks ts + ?o r + ?R" by (rule subset_mset.add_mono [OF assms(5) subset_mset.order_refl])
  also have "\<dots> = owned_by_tasks ts + ?R + ?o r" by (simp add: ac_simps)
  finally have "owned_by_tasks ts' + owned_by_records (bt_insert i r' (bk_records st)) \<subseteq># owned_by_tasks ts + owned_by_records (bk_records st)"
    by (simp only: subset_mset.add_le_cancel_right)
  then have "owned_by_tasks ts' + owned_by_records (bt_insert i r' (bk_records st)) \<subseteq># mset permits" using o by (rule subset_mset.order_trans)
  moreover have "hr_registration_id (rq_request q) = names (pp_entry p)"
    if own: "(j, p) \<in> owners ts' (st\<lparr>bk_records := bt_insert i r' (bk_records st), bk_ready := ready\<rparr>)"
      and q: "bt_get (bt_insert i r' (bk_records st)) j = Some q" for j p q
  proof -
    have "(j, p) \<in> owners ts st"
    proof (cases "\<exists>t \<in> set ts'. task_id t = Some j \<and> task_prepared t = Some p")
      case True
      then show ?thesis using assms(7) by blast
    next
      case False
      then obtain z where "bt_get (bt_insert i r' (bk_records st)) j = Some z" "rq_prepared z = Some p" using own by (auto simp: owners_def)
      then show ?thesis using assms(6) by (cases "j = i") (auto simp: owners_def)
    qed
    then show ?thesis using n [of j p] q assms(3,4) by (auto split: if_splits)
  qed
  ultimately show ?thesis by (auto simp: ownership_ok_def)
qed

section \<open>The parts together\<close>

definition broker_inv ::
  "string \<Rightarrow> usize \<Rightarrow> usize \<Rightarrow> (entry_ref \<Rightarrow> string) \<Rightarrow> entry_ref list \<Rightarrow> host_task list \<Rightarrow> string list \<Rightarrow> string list \<Rightarrow> string list \<Rightarrow> broker_state \<Rightarrow> bool" where
  "broker_inv rid m n names permits ts dl cl pb st \<longleftrightarrow>
     bounds_ok rid m n st \<and> queue_ok rid dl st \<and> shapes_ok ts st \<and> history_ok rid dl cl pb st \<and> ownership_ok names permits ts st"

lemma broker_invD:
  assumes "broker_inv rid m n names permits ts dl cl pb st"
  shows "bounds_ok rid m n st" "queue_ok rid dl st" "shapes_ok ts st" "history_ok rid dl cl pb st" "ownership_ok names permits ts st"
  using assms by (simp_all add: broker_inv_def)

text \<open>Only the tasks change: identified tasks are replaced one for one, ownership can only shrink.\<close>

lemma broker_inv_tasks:
  assumes "broker_inv rid m n names permits ts dl cl pb st" "\<And>i. count_task i ts' = count_task i ts"
    and "owned_by_tasks ts' + owned_by_records (bk_records st) \<subseteq># mset permits"
    and "\<And>t j p. t \<in> set ts' \<Longrightarrow> task_id t = Some j \<Longrightarrow> task_prepared t = Some p \<Longrightarrow> (j, p) \<in> owners ts st"
  shows "broker_inv rid m n names permits ts' dl cl pb st"
proof -
  note d = broker_invD [OF assms(1)]
  have "owners ts' st \<subseteq> owners ts st" using assms(4) by (auto simp: owners_def)
  then have "ownership_ok names permits ts' st" using d(5) assms(3) unfolding ownership_ok_def by blast
  moreover have "shapes_ok ts' st" using d(3) unfolding shapes_ok_def assms(2) .
  ultimately show ?thesis using d by (simp add: broker_inv_def)
qed

lemma trim_tombstones_length: "length (trim_tombstones limit ts) \<le> limit"
  by (induction limit ts rule: trim_tombstones.induct) (simp add: trim_tombstones.simps)

text \<open>A record whose call nobody holds any more is removed.\<close>

lemma broker_inv_remove:
  assumes "broker_inv rid m n names permits ts dl cl pb st" "bt_get (bk_records st) i = Some r" "rq_phase r \<noteq> RqQueued" "rq_prepared r = None"
    and "count_task i ts' = 0" "\<And>j. j \<noteq> i \<Longrightarrow> count_task j ts' = count_task j ts" "owned_by_tasks ts' \<subseteq># owned_by_tasks ts" "set ts' \<subseteq> set ts"
    and "set pb' = insert i (set pb)" "distinct pb'"
  obtains st' where "remove_request m i st = Ok st'" "broker_inv rid m n names permits ts' dl cl pb' st'"
    "bk_records st' = bt_remove i (bk_records st)"
proof -
  note d = broker_invD [OF assms(1)] and b = boundsD [OF broker_invD(1) [OF assms(1)]]
  let ?st = "st\<lparr>bk_records := bt_remove i (bk_records st), bk_bytes := bk_bytes st - rq_bytes r,
    bk_ready := filter (\<lambda>x. x \<noteq> i) (bk_ready st), bk_tombstones := trim_tombstones m (bk_tombstones st @ [i])\<rparr>"
  have sum: "sum_list (map (\<lambda>e. rq_bytes (snd e)) (bt_remove i (bk_records st))) + rq_bytes r = bk_bytes st"
    using bt.sum_del_old [OF b(1) assms(2), of "\<lambda>e. rq_bytes (snd e)"] b(5) by simp
  have get: "bt_get (bk_records ?st) = (bt_get (bk_records st))(i := None)" by (simp add: bt_get_remove [OF b(1)])
  have "remove_request m i st = Ok ?st" using assms(2) sum by (simp add: remove_request_def checked_sub_def)
  moreover have "bounds_ok rid m n ?st"
    using b sum trim_tombstones_length [of m "bk_tombstones st @ [i]"]
    by (auto simp: bounds_ok_def bt_get_remove bt.length_del request_ids_def split: if_splits)
  moreover have "queue_ok rid dl ?st"
  proof -
    obtain ks where "dl @ bk_ready st = map (request_id_of rid) ks" "sorted_wrt (<) ks" "set ks \<subseteq> {1..bk_sequence st}"
      using d(2) by (auto simp: queue_ok_def)
    from sorted_wrt_filter_map [OF this] show ?thesis using d(2) get by (auto simp: queue_ok_def)
  qed
  moreover have "shapes_ok ts' ?st"
    unfolding shapes_ok_def get using assms(5,6) shapesD [OF d(3)] by (auto split: option.split)
  moreover have "history_ok rid dl cl pb' ?st"
  proof -
    have "record_history dl cl pb' j q" if "j \<noteq> i" "bt_get (bk_records st) j = Some q" for j q
      using that d(4) assms(9) by (auto simp: history_ok_def record_history_def)
    moreover have "set pb' \<subseteq> request_ids rid ?st" using d(4) assms(9) b(8) [OF assms(2)] by (auto simp: history_ok_def request_ids_def)
    ultimately show ?thesis using d(4) assms(10) unfolding history_ok_def get by (auto split: if_splits)
  qed
  moreover have "ownership_ok names permits ts' ?st"
  proof -
    have own: "owned_by_tasks ts + owned_by_records (bk_records st) \<subseteq># mset permits" using d(5) by (simp add: ownership_ok_def)
    have "owned_by_records (bk_records st) = owned_by_records (bt_remove i (bk_records st))"
      using owned_by_records_remove [OF b(1) assms(2)] assms(4) by simp
    then have "owned_by_tasks ts' + owned_by_records (bt_remove i (bk_records st)) \<subseteq># mset permits"
      using subset_mset.add_mono [OF assms(7) subset_mset.order_refl] own by (metis subset_mset.order_trans)
    moreover have "owners ts' ?st \<subseteq> owners ts st" using assms(8) get by (auto simp: owners_def split: if_splits)
    ultimately show ?thesis using d(5) unfolding ownership_ok_def get by (fastforce split: if_splits)
  qed
  ultimately show thesis using that [of ?st] by (simp add: broker_inv_def)
qed

text \<open>One record changes, and with it the queue, the tasks and the history.\<close>

lemma broker_inv_update:
  assumes "broker_inv rid m n names permits ts dl cl pb st" "bt_get (bk_records st) i = Some r"
    and "rq_bytes r' = rq_bytes r" "rq_request r' = rq_request r"
    and "queue_ok rid dl' (st\<lparr>bk_records := bt_insert i r' (bk_records st), bk_ready := ready\<rparr>)"
    and "record_shape (rq_phase r') r' (count_task i ts')" "\<And>j. j \<noteq> i \<Longrightarrow> count_task j ts' = count_task j ts"
    and "record_history dl' cl' pb' i r'"
    and "dl' = dl \<or> dl' = dl @ [i]" "cl' = cl \<or> cl' = cl @ [i] \<and> i \<notin> set cl \<and> i \<in> set dl" "pb' = pb \<or> pb' = pb @ [i] \<and> i \<notin> set pb"
    and "owned_by_tasks ts' + image_mset pp_entry (option_mset (rq_prepared r')) \<subseteq># owned_by_tasks ts + image_mset pp_entry (option_mset (rq_prepared r))"
    and "\<And>p. rq_prepared r' = Some p \<Longrightarrow> (i, p) \<in> owners ts st"
    and "\<And>t j p. t \<in> set ts' \<Longrightarrow> task_id t = Some j \<Longrightarrow> task_prepared t = Some p \<Longrightarrow> (j, p) \<in> owners ts st"
  shows "broker_inv rid m n names permits ts' dl' cl' pb' (st\<lparr>bk_records := bt_insert i r' (bk_records st), bk_ready := ready\<rparr>)"
proof -
  note d = broker_invD [OF assms(1)]
  have h: "distinct pb" "distinct cl" "set cl \<subseteq> set dl" "set pb \<subseteq> request_ids rid st" using d(4) by (simp_all add: history_ok_def)
  have "history_ok rid dl' cl' pb' (st\<lparr>bk_records := bt_insert i r' (bk_records st), bk_ready := ready\<rparr>)"
    by (rule history_update [OF d(4) assms(8)]) (use assms(9-11) h boundsD(8) [OF d(1) assms(2)] in auto)
  moreover have "ownership_ok names permits ts' (st\<lparr>bk_records := bt_insert i r' (bk_records st), bk_ready := ready\<rparr>)"
    by (rule ownership_update [OF d(5) boundsD(1) [OF d(1)] assms(2,4,12-14)])
  ultimately show ?thesis
    unfolding broker_inv_def
    using bounds_update [OF d(1) assms(2-4)] shapes_update [OF d(3) assms(6,7)] assms(5) by blast
qed

text \<open>The identity of a refused submission is used up.\<close>

lemma broker_inv_sequence:
  assumes "broker_inv rid m n names permits ts dl cl pb st" "bk_sequence st \<le> k" "k \<le> u64_max"
  shows "broker_inv rid m n names permits ts dl cl pb (st\<lparr>bk_sequence := k\<rparr>)"
proof -
  note d = broker_invD [OF assms(1)]
  have mono: "request_ids rid st \<subseteq> request_ids rid (st\<lparr>bk_sequence := k\<rparr>)" using assms(2) by (intro request_ids_mono) simp
  have "bounds_ok rid m n (st\<lparr>bk_sequence := k\<rparr>)" using d(1) assms(3) mono by (auto simp: bounds_ok_def)
  moreover have "queue_ok rid dl (st\<lparr>bk_sequence := k\<rparr>)"
  proof -
    obtain ks where "dl @ bk_ready st = map (request_id_of rid) ks" "sorted_wrt (<) ks" "set ks \<subseteq> {1..bk_sequence st}"
      using d(2) by (auto simp: queue_ok_def)
    moreover from this(3) have "set ks \<subseteq> {1..k}" using assms(2) by auto
    ultimately show ?thesis using d(2) unfolding queue_ok_def by auto
  qed
  moreover have "history_ok rid dl cl pb (st\<lparr>bk_sequence := k\<rparr>)" using d(4) mono by (auto simp: history_ok_def)
  moreover have "ownership_ok names permits ts (st\<lparr>bk_sequence := k\<rparr>)" using d(5) by (simp add: ownership_ok_def owners_def)
  ultimately show ?thesis using d(3) by (simp add: broker_inv_def shapes_ok_def)
qed

lemma broker_inv_closing:
  "broker_inv rid m n names permits ts dl cl pb (st\<lparr>bk_closing := c\<rparr>) = broker_inv rid m n names permits ts dl cl pb st"
  by (simp add: broker_inv_def bounds_ok_def queue_ok_def shapes_ok_def history_ok_def ownership_ok_def owners_def request_ids_def)

text \<open>A new request joins the end of the queue.\<close>

lemma broker_inv_insert:
  assumes "broker_inv rid m n names permits ts dl cl pb st" "Holding p \<in> set ts"
    and "length (bk_records st) < m" "bk_sequence st < u64_max" "bk_bytes st + bytes \<le> n"
    and "hr_request_id q = request_id_of rid (Suc (bk_sequence st))" "hr_registration_id q = names (pp_entry p)"
  shows "broker_inv rid m n names permits (remove1 (Holding p) ts) dl cl pb
    (insert_request p q bytes (bk_bytes st + bytes) (st\<lparr>bk_sequence := Suc (bk_sequence st)\<rparr>))"
proof -
  note d = broker_invD [OF assms(1)] and b = boundsD [OF broker_invD(1) [OF assms(1)]]
  let ?i = "request_id_of rid (Suc (bk_sequence st))"
  let ?st = "insert_request p q bytes (bk_bytes st + bytes) (st\<lparr>bk_sequence := Suc (bk_sequence st)\<rparr>)"
  let ?r = "\<lparr>rq_pending_outcome = None, rq_request = q, rq_prepared = Some p, rq_outcome = None, rq_phase = RqQueued,
           rq_cancellation = None, rq_waiter_alive = True, rq_bytes = bytes\<rparr>"
  have fresh: "?i \<notin> request_ids rid st" by (auto simp: request_ids_def)
  then have none: "bt_get (bk_records st) ?i = None" using b(8) by (metis option.exhaust)
  have st: "bk_records ?st = bt_insert ?i ?r (bk_records st)" "bk_ready ?st = bk_ready st @ [?i]" "bk_sequence ?st = Suc (bk_sequence st)"
    "bk_bytes ?st = bk_bytes st + bytes" "bk_tombstones ?st = bk_tombstones st" by (simp_all add: insert_request_def assms(6))
  have get: "bt_get (bk_records ?st) = (bt_get (bk_records st))(?i \<mapsto> ?r)" by (simp add: st)
  have ids: "request_ids rid st \<subseteq> request_ids rid ?st" "?i \<in> request_ids rid ?st" by (auto simp: request_ids_def st)
  have "bounds_ok rid m n ?st"
    using b assms(3-6) ids bt.sum_put_new [OF b(1) none, of "\<lambda>e. rq_bytes (snd e)" ?r] none
    unfolding bounds_ok_def get st by (auto simp: bt.length_put split: if_splits)
  moreover have "queue_ok rid dl ?st"
  proof -
    obtain ks where "dl @ bk_ready st = map (request_id_of rid) ks" "sorted_wrt (<) ks" "set ks \<subseteq> {1..bk_sequence st}"
      using d(2) by (auto simp: queue_ok_def)
    then have "\<exists>ks. dl @ bk_ready ?st = map (request_id_of rid) ks \<and> sorted_wrt (<) ks \<and> set ks \<subseteq> {1..bk_sequence ?st}"
      by (intro exI [of _ "ks @ [Suc (bk_sequence st)]"]) (auto simp: st sorted_wrt_append)
    moreover have "?i \<notin> set (bk_ready st)" using queueD(1) [OF d(2)] none by simp
    ultimately show ?thesis using d(2) unfolding queue_ok_def get by (auto simp: st)
  qed
  moreover have "count_task j (remove1 (Holding p) ts) = count_task j ts" for j using count_task_remove1 [OF assms(2), of j] by simp
  then have "shapes_ok (remove1 (Holding p) ts) ?st"
    unfolding shapes_ok_def get using shapesD [OF d(3)] none by (auto split: option.split)
  moreover have "history_ok rid dl cl pb ?st"
  proof -
    have "?i \<notin> set pb" using d(4) fresh by (auto simp: history_ok_def)
    moreover have "?i \<notin> set dl" using queueD(3) [OF d(2)] fresh by auto
    then have "?i \<notin> set cl" using d(4) by (auto simp: history_ok_def)
    ultimately show ?thesis using d(4) ids(1) unfolding history_ok_def get by (auto simp: record_history_def)
  qed
  moreover have "ownership_ok names permits (remove1 (Holding p) ts) ?st"
  proof -
    have "owned_by_tasks (remove1 (Holding p) ts) + owned_by_records (bk_records ?st) = owned_by_tasks ts + owned_by_records (bk_records st)"
      using owned_by_records_insert [OF b(1), of ?i ?r] none owned_by_tasks_remove1 [OF assms(2)] by (simp add: st)
    moreover have "owners (remove1 (Holding p) ts) ?st \<subseteq> insert (?i, p) (owners ts st)"
      unfolding owners_def get using set_remove1_subset [of "Holding p" ts] by (auto split: if_splits)
    moreover have "count_task ?i ts = 0" using shapesD(2) [OF d(3) none] .
    then have "(?i, p') \<notin> owners ts st" for p' using none count_task_pos [of _ ts ?i] by (fastforce simp: owners_def)
    ultimately show ?thesis using d(5) assms(7) unfolding ownership_ok_def get by (fastforce split: if_splits)
  qed
  ultimately show ?thesis by (simp add: broker_inv_def)
qed

end
