(* ===== verification/Host_Steps.thy ===== *)
theory Host_Steps
  imports Host_Inv
begin

text \<open>
  What each critical section of the broker does to a state that satisfies the invariant, and the
  preservation of the invariant by every step.
\<close>

section \<open>Sections in closed form\<close>

abbreviation stored :: "broker_state \<Rightarrow> capability_host \<Rightarrow> capability_host" where
  "stored st h \<equiv> put_broker (mutex_new st) h"

abbreviation broker_healthy :: "capability_host \<Rightarrow> bool" where
  "broker_healthy h \<equiv> \<not> poisoned (hb_state (ho_broker h))"

lemma recover_healthy [simp]: "\<not> poisoned m \<Longrightarrow> mutex_recover m f = mutex_new (f (guarded m))"
  by (cases m) (simp add: mutex_recover_def mutex_new_def)

lemma put_broker_put [simp]: "put_broker m (put_broker m' h) = put_broker m h"
  by (simp add: put_broker_def)

lemma stored_self: "broker_healthy h \<Longrightarrow> stored (broker_guard h) h = h"
  by (cases h; cases "ho_broker h"; cases "hb_state (ho_broker h)") (simp add: put_broker_def mutex_new_def)

lemmas action_simps = bind_action_def ret_def from_result_def try_read_def read_state_def require_def write_state_def
  read_broker_def write_broker_def update_request_def locked_def recovering_def

definition set_record :: "string \<Rightarrow> request_record \<Rightarrow> broker_state \<Rightarrow> broker_state" where
  "set_record i r st = st\<lparr>bk_records := bt_insert i r (bk_records st)\<rparr>"

lemma ok_or_not_Panic [simp]: "ok_or e z \<noteq> Panic p"
  by (cases z) auto

lemma cancel_section_result:
  assumes "broker_healthy h"
  shows "cancel_section i e h =
    (case bt_get (bk_records (broker_guard h)) i of
       None \<Rightarrow> (Err (unknown_request (broker_guard h) i), h)
     | Some r \<Rightarrow>
         let r' = r\<lparr>rq_cancellation := (case rq_cancellation r of None \<Rightarrow> Some e | c \<Rightarrow> c)\<rparr> in
         if rq_phase r = RqCompleted then (Ok None, h)
         else if rq_phase r \<noteq> RqQueued then (Ok None, stored (set_record i r' (broker_guard h)) h)
         else case rq_prepared r of
           None \<Rightarrow> (Err broker_poisoned, stored (set_record i (r'\<lparr>rq_phase := RqCompleting, rq_prepared := None\<rparr>) (broker_guard h)) h)
         | Some p \<Rightarrow> (Ok (Some p), stored ((set_record i (r'\<lparr>rq_phase := RqCompleting, rq_prepared := None\<rparr>) (broker_guard h))
               \<lparr>bk_ready := filter (\<lambda>x. x \<noteq> i) (bk_ready (broker_guard h))\<rparr>) h))"
  using assms by (auto simp: cancel_section_def action_simps set_record_def Let_def split: option.split)

lemma claim_section_result:
  assumes "broker_healthy h"
  shows "claim_section i h =
    (case bt_get (bk_records (broker_guard h)) i of
       None \<Rightarrow> (Err (unknown_request (broker_guard h) i), h)
     | Some r \<Rightarrow>
         (case rq_phase r of
            RqQueued \<Rightarrow> (Err (error_new Busy ''host request has not been dispatched''), h)
          | RqDispatched \<Rightarrow> (ok_or broker_poisoned (rq_prepared r), stored (set_record i (r\<lparr>rq_phase := RqCompleting, rq_prepared := None\<rparr>) (broker_guard h)) h)
          | _ \<Rightarrow> (Err already_completed, h)))"
  using assms by (auto simp: claim_section_def action_simps set_record_def split: option.split host_request_phase.split outcome.split)

lemma take_completion_result:
  assumes "broker_healthy h" "shapes_ok ts (broker_guard h)"
  shows "take_completion i h =
    (case bt_get (bk_records (broker_guard h)) i of
       None \<Rightarrow> (Ok None, h)
     | Some r \<Rightarrow>
         (case (rq_phase r, rq_pending_outcome r, rq_prepared r) of
            (RqCompleting, Some out, Some p) \<Rightarrow>
              (Ok (Some (p, out)), stored (set_record i (r\<lparr>rq_prepared := None, rq_pending_outcome := None\<rparr>) (broker_guard h)) h)
          | _ \<Rightarrow> (Ok None, h)))"
proof (cases "bt_get (bk_records (broker_guard h)) i")
  case None
  then show ?thesis using assms(1) by (simp add: take_completion_def action_simps)
next
  case (Some r)
  then show ?thesis
    using assms(1) shapesD(1) [OF assms(2) Some]
    by (cases "rq_phase r"; cases "rq_pending_outcome r"; cases "rq_prepared r") (simp_all add: take_completion_def action_simps set_record_def)
qed

lemma put_completion_result:
  assumes "broker_healthy h"
  shows "put_completion i p out h =
    (case bt_get (bk_records (broker_guard h)) i of
       None \<Rightarrow> (Err broker_poisoned, h)
     | Some r \<Rightarrow> (Ok (), stored (set_record i (r\<lparr>rq_prepared := Some p, rq_pending_outcome := Some out\<rparr>) (broker_guard h)) h))"
  using assms by (auto simp: put_completion_def action_simps set_record_def split: option.split)

lemma publish_section_result:
  assumes "broker_healthy h" "bt_get (bk_records (broker_guard h)) i = Some r"
  shows "publish_section i out h =
    (if rq_waiter_alive r then (Ok (), stored (set_record i (published r out) (broker_guard h)) h)
     else case remove_request (hb_max_records (ho_broker h)) i (set_record i (published r out) (broker_guard h)) of
       Ok st \<Rightarrow> (Ok (), stored st h)
     | Err e \<Rightarrow> (Err e, stored (set_record i (published r out) (broker_guard h)) h)
     | Panic p \<Rightarrow> (Panic p, put_broker \<lparr>guarded = set_record i (published r out) (broker_guard h), poisoned = True\<rparr> h))"
  using assms by (auto simp: publish_section_def remove_action_def action_simps set_record_def mutex_new_def split: outcome.split)

lemma abandon_section_result:
  assumes "broker_healthy h"
  shows "abandon_section i h =
    (case bt_get (bk_records (broker_guard h)) i of
       None \<Rightarrow> (Ok False, h)
     | Some r \<Rightarrow>
         let st = set_record i (r\<lparr>rq_waiter_alive := False\<rparr>) (broker_guard h) in
         if rq_phase r = RqCompleted
         then (case remove_request (hb_max_records (ho_broker h)) i st of
             Ok st' \<Rightarrow> (Ok True, stored st' h)
           | Err e \<Rightarrow> (Err e, stored st h)
           | Panic p \<Rightarrow> (Panic p, put_broker \<lparr>guarded = st, poisoned = True\<rparr> h))
         else (Ok False, stored st h))"
  using assms stored_self [OF assms]
  by (auto simp: abandon_section_def remove_action_def action_simps set_record_def Let_def mutex_new_def split: option.split outcome.split)

lemma close_section_result:
  "broker_healthy h \<Longrightarrow> close_section h = (Ok (map fst (bk_records (broker_guard h))), stored ((broker_guard h)\<lparr>bk_closing := True\<rparr>) h)"
  by (simp add: close_section_def action_simps)

section \<open>Submission and delivery\<close>

lemma attempt_not_panic:
  "\<not> is_panic (fst (attempt_bind_request ser l k i))" "\<not> is_panic (fst (attempt_begin l k))"
  by (auto simp: attempt_bind_request_def attempt_begin_def bind_request_check_def reserved_bytes_def ledger_with_def mutex_with_def Let_def
      case_prod_beta split: option.split)

lemma post_attempt_quiet:
  assumes "\<And>l k. \<not> is_panic (fst (f l k))" "\<And>r ls. \<not> is_panic r \<Longrightarrow> P r (h\<lparr>ho_ledgers := ls\<rparr>)"
  shows "post (on_attempt f d attempt) P h"
proof -
  have "\<not> is_panic (fst (on_attempt f d attempt h))" using assms(1) by (auto simp: on_attempt_def case_prod_beta split: option.split)
  then show ?thesis using frame_attempt_eq [of f d attempt h] assms(2) by (auto simp: post_def)
qed

lemma checks_not_panic [simp]:
  "\<not> is_panic (authorize a b i h)" "\<not> is_panic (fst (prepared_gate p h))"
  by (auto simp: authorize_def budget_check_def control_check_def permissions_require_def prepared_gate_def on_registry_def on_arena_def
      lift_action_def dispatch_gate_def try_read_def)

lemma post_gate:
  "post (prepared_gate p) P h =
    (if poisoned (en_state (entry_at (cr_arena (ho_registry h)) (pp_entry p))) then P (Err entry_poisoned) h
     else if entry_refuses (entry_guard (cr_arena (ho_registry h)) (pp_entry p)) (pp_finalization p) then P (Err entry_closed) h
     else P (Ok ()) h)"
  by (simp add: post_def) (simp add: prepared_gate_def on_registry_def on_arena_def lift_action_def dispatch_gate_def try_read_def)

lemma put_broker_ledgers [simp]: "(put_broker m h)\<lparr>ho_ledgers := ls\<rparr> = put_broker m (h\<lparr>ho_ledgers := ls\<rparr>)"
  by (simp add: put_broker_def)

lemma not_panic_iff: "\<not> is_panic z \<longleftrightarrow> (\<forall>x. z \<noteq> Panic x)"
  by (cases z) auto

lemma authorize_ne_Panic [simp]: "authorize a b i h \<noteq> Panic x"
  using checks_not_panic(1) [of a b i h] unfolding not_panic_iff by blast

lemma same_ledgers [simp]: "\<exists>ls. h = h\<lparr>ho_ledgers := ls\<rparr>"
  by (rule exI [of _ "ho_ledgers h"]) simp

lemma submit_check_Ok:
  assumes "submit_check ser now p h = Ok (k, q, bytes, used)"
  shows "\<not> bk_closing (broker_guard h)" "length (bk_records (broker_guard h)) < hb_max_records (ho_broker h)"
    "k = Suc (bk_sequence (broker_guard h))" "bk_sequence (broker_guard h) < u64_max" "used = bk_bytes (broker_guard h) + bytes"
    "used \<le> hb_max_bytes (ho_broker h)" "hr_request_id q = request_id_of (hb_runtime_id (ho_broker h)) k"
    "hr_registration_id q = entry_name h (pp_entry p)"
  using assms
  by (auto simp: submit_check_def Let_def request_of_def prepared_entry_def entry_name_def bind_eq_Some_conv split: if_splits)

lemma submit_check_not_panic [simp]: "\<not> is_panic (submit_check ser now p h)"
  by (simp add: submit_check_def Let_def)

lemma submit_section_result:
  assumes "broker_healthy h" "submit_section env ser now p h = (r, h')"
  obtains (refused) "\<not> is_ok r" "\<not> is_panic r" "h' = h"
  | (spent) ls where "\<not> is_ok r" "\<not> is_panic r" "bk_sequence (broker_guard h) < u64_max"
      "h' = stored ((broker_guard h)\<lparr>bk_sequence := Suc (bk_sequence (broker_guard h))\<rparr>) (h\<lparr>ho_ledgers := ls\<rparr>)"
  | (queued) q bytes ls where "r = Ok (hr_request_id q)" "submit_check ser now p h = Ok (Suc (bk_sequence (broker_guard h)), q, bytes, bk_bytes (broker_guard h) + bytes)"
      "h' = stored (insert_request p q bytes (bk_bytes (broker_guard h) + bytes) ((broker_guard h)\<lparr>bk_sequence := Suc (bk_sequence (broker_guard h))\<rparr>))
        (h\<lparr>ho_ledgers := ls\<rparr>)"
      "\<not> entry_refuses (entry_guard (cr_arena (ho_registry h)) (pp_entry p)) (pp_finalization p)"
proof (cases "submit_check ser now p h")
  case (Ok z)
  obtain k q bytes used where z: "z = (k, q, bytes, used)" by (metis prod.exhaust)
  note c = submit_check_Ok [OF Ok [unfolded z]]
  let ?st = "(broker_guard h)\<lparr>bk_sequence := Suc (bk_sequence (broker_guard h))\<rparr>"
  have "post (submit_section env ser now p) (\<lambda>r t.
      (\<exists>ls. \<not> is_ok r \<and> \<not> is_panic r \<and> t = stored ?st (h\<lparr>ho_ledgers := ls\<rparr>)) \<or>
      (\<exists>ls. r = Ok (hr_request_id q) \<and> t = stored (insert_request p q bytes used ?st) (h\<lparr>ho_ledgers := ls\<rparr>) \<and>
        \<not> entry_refuses (entry_guard (cr_arena (ho_registry h)) (pp_entry p)) (pp_finalization p))) h"
    unfolding submit_section_def bind_request_def post_locked
    using assms(1) Ok z c(3)
    by (simp add: post_simps, intro post_attempt_quiet [OF attempt_not_panic(1)])
      (auto simp: post_simps post_gate split: outcome.split)
  then show thesis using assms(2) spent queued Ok z c(3-5) by (auto simp: post_def)
next
  case (Err e)
  then have "submit_section env ser now p h = (Err e, h)" using assms(1) by (simp add: submit_section_def action_simps)
  then show thesis using assms(2) refused by simp
next
  case (Panic x)
  then show thesis using submit_check_not_panic [of ser now p h] by simp
qed

text \<open>A delivery takes the front of the queue; any other result leaves the broker as it was.\<close>

lemma dispatch_result:
  assumes "broker_healthy h" "\<not> is_panic (rd_start rd)" "bt_get (bk_records (broker_guard h)) i = Some r"
  shows "post (dispatch rd i p) (\<lambda>z t. \<exists>ls.
      if z = Ok True
      then t = stored (set_record i (r\<lparr>rq_phase := RqDispatched\<rparr>) (broker_guard h)) (h\<lparr>ho_ledgers := ls\<rparr>) \<and>
        authorize (rd_clk rd 5) (rd_clk rd 6) (pp_invocation p) h = Ok () \<and>
        \<not> entry_refuses (entry_guard (cr_arena (ho_registry h)) (pp_entry p)) (pp_finalization p)
      else \<not> is_panic z \<and> t = h\<lparr>ho_ledgers := ls\<rparr>) h"
proof -
  have ans: "checkpoint_answer h (pp_effect p) (rd_start rd) \<noteq> Panic x" for x
    using assms(2) by (auto simp: checkpoint_answer_def not_panic_iff split: option.split)
  show ?thesis
    unfolding dispatch_def begin_effect_def
    using assms(1,3)
    by (auto simp: post_simps post_gate update_request_def set_record_def ans
        intro!: post_attempt_quiet [OF attempt_not_panic(2)] split: outcome.split)
qed

lemma take_section_result:
  assumes "broker_healthy h" "\<And>q. \<not> is_panic (prep q)" "\<not> is_panic (rd_start rd)" "take_section prep rd h = (z, h')"
  obtains (kept) ls where "\<And>q. z \<noteq> Ok (Delivered q)" "\<not> is_panic z" "h' = h\<lparr>ho_ledgers := ls\<rparr>"
  | (delivered) i js r p q ls where "bk_ready (broker_guard h) = i # js" "bt_get (bk_records (broker_guard h)) i = Some r" "rq_phase r = RqQueued"
      "rq_prepared r = Some p" "z = Ok (Delivered q)" "q = with_remaining (rd_clk rd 2) p h (rq_request r)"
      "h' = stored ((set_record i (r\<lparr>rq_phase := RqDispatched\<rparr>) (broker_guard h))\<lparr>bk_ready := js\<rparr>) (h\<lparr>ho_ledgers := ls\<rparr>)"
      "authorize (rd_clk rd 5) (rd_clk rd 6) (pp_invocation p) h = Ok ()"
      "\<not> entry_refuses (entry_guard (cr_arena (ho_registry h)) (pp_entry p)) (pp_finalization p)"
proof -
  have prep: "prep q \<noteq> Panic x" for q x using assms(2) [of q] by (simp add: not_panic_iff)
  have "post (take_section prep rd) (\<lambda>z t.
      (\<exists>ls. (\<forall>q. z \<noteq> Ok (Delivered q)) \<and> \<not> is_panic z \<and> t = h\<lparr>ho_ledgers := ls\<rparr>) \<or>
      (\<exists>i js r p q ls. bk_ready (broker_guard h) = i # js \<and> bt_get (bk_records (broker_guard h)) i = Some r \<and> rq_phase r = RqQueued \<and>
        rq_prepared r = Some p \<and> z = Ok (Delivered q) \<and> q = with_remaining (rd_clk rd 2) p h (rq_request r) \<and>
        t = stored ((set_record i (r\<lparr>rq_phase := RqDispatched\<rparr>) (broker_guard h))\<lparr>bk_ready := js\<rparr>) (h\<lparr>ho_ledgers := ls\<rparr>) \<and>
        authorize (rd_clk rd 5) (rd_clk rd 6) (pp_invocation p) h = Ok () \<and>
        \<not> entry_refuses (entry_guard (cr_arena (ho_registry h)) (pp_entry p)) (pp_finalization p))) h"
    unfolding take_section_def deliver_front_def
    using assms(1)
    by (auto simp: post_simps post_locked post_cancel_unless prep split: list.splits outcome.splits)
      (rule post_mono [OF dispatch_result [OF assms(1,3)]], assumption, auto simp: set_record_def not_panic_iff split: if_splits)
  then show thesis
    unfolding post_def assms(4) fst_conv snd_conv
  proof (elim disjE exE conjE, goal_cases)
    case (1 ls)
    then show ?case using kept [of ls] by simp
  next
    case (2 i js r p q ls)
    then show ?case by (rule delivered)
  qed
qed

section \<open>Every step\<close>

lemma host_inv_iff:
  "host_inv x \<longleftrightarrow> capability_inv (registry_view x) \<and> broker_healthy (hx_host x) \<and>
     broker_inv (hb_runtime_id (ho_broker (hx_host x))) (hb_max_records (ho_broker (hx_host x))) (hb_max_bytes (ho_broker (hx_host x)))
       (entry_name (hx_host x)) (hx_permits x) (hx_tasks x) (hx_delivered x) (hx_claimed x) (hx_published x) (hx_broker x)"
  by (simp add: host_inv_def broker_inv_def Let_def)

text \<open>A step that writes the broker and perhaps journals keeps the registry and the limits.\<close>

lemma host_inv_stored:
  assumes "host_inv x" "hx_permits y = hx_permits x" "hx_releases y = hx_releases x" "hx_host y = stored st ((hx_host x)\<lparr>ho_ledgers := ls\<rparr>)"
    and "broker_inv (hb_runtime_id (ho_broker (hx_host x))) (hb_max_records (ho_broker (hx_host x))) (hb_max_bytes (ho_broker (hx_host x)))
       (entry_name (hx_host x)) (hx_permits x) (hx_tasks y) (hx_delivered y) (hx_claimed y) (hx_published y) st"
  shows "host_inv y"
proof -
  have "entry_name (hx_host y) = entry_name (hx_host x)" "registry_view y = registry_view x"
    using assms(2-4) by (simp_all add: entry_name_def [abs_def] registry_view_def)
  then show ?thesis using assms by (simp add: host_inv_iff)
qed

lemma host_inv_same:
  assumes "host_inv x" "hx_permits y = hx_permits x" "hx_releases y = hx_releases x" "hx_host y = (hx_host x)\<lparr>ho_ledgers := ls\<rparr>"
    and "hx_tasks y = hx_tasks x" "hx_delivered y = hx_delivered x" "hx_claimed y = hx_claimed x" "hx_published y = hx_published x"
  shows "host_inv y"
proof -
  have "entry_name (hx_host y) = entry_name (hx_host x)" "registry_view y = registry_view x"
    using assms(2-4) by (simp_all add: entry_name_def [abs_def] registry_view_def)
  then show ?thesis using assms by (simp add: host_inv_iff)
qed

lemma owner_owned: "(i, p) \<in> owners ts st \<Longrightarrow> pp_entry p \<in># owned_by_tasks ts + owned_by_records (bk_records st)"
proof -
  have t: "t \<in> set ts \<Longrightarrow> task_prepared t = Some p \<Longrightarrow> pp_entry p \<in># owned_by_tasks ts" for t ts
    by (induction ts) auto
  have r: "bt_get rs i = Some r \<Longrightarrow> rq_prepared r = Some p \<Longrightarrow> pp_entry p \<in># owned_by_records rs" for r rs
    by (induction rs) (auto split: if_splits)
  show "(i, p) \<in> owners ts st \<Longrightarrow> ?thesis" using t r by (auto simp: owners_def)
qed

lemma step_registry:
  assumes "host_inv x" "capability_step (registry_view x) y" "owned_permits x \<subseteq># mset (sy_permits y)"
  shows "host_inv (x\<lparr>hx_host := (hx_host x)\<lparr>ho_registry := sy_registry y\<rparr>, hx_permits := sy_permits y, hx_releases := sy_releases y\<rparr>)"
proof -
  let ?y = "x\<lparr>hx_host := (hx_host x)\<lparr>ho_registry := sy_registry y\<rparr>, hx_permits := sy_permits y, hx_releases := sy_releases y\<rparr>"
  have c: "capability_inv (registry_view x)" and b: "broker_inv (hb_runtime_id (ho_broker (hx_host x))) (hb_max_records (ho_broker (hx_host x)))
      (hb_max_bytes (ho_broker (hx_host x))) (entry_name (hx_host x)) (hx_permits x) (hx_tasks x) (hx_delivered x) (hx_claimed x) (hx_published x) (hx_broker x)"
    using assms(1) by (simp_all add: host_inv_iff)
  note d = broker_invD [OF b]
  have name: "entry_name (hx_host ?y) (pp_entry p) = entry_name (hx_host x) (pp_entry p)" if "(i, p) \<in> owners (hx_tasks x) (hx_broker x)" for i p
  proof -
    have "pp_entry p \<in># mset (hx_permits x)" using owner_owned [OF that] d(5) by (auto simp: ownership_ok_def dest: mset_subset_eqD)
    then have "pp_entry p < length (ca_entries (sy_arena (registry_view x)))"
      using c entries_okD(1) [OF arena_invD(4)] by (fastforce simp: capability_inv_def registry_view_def)
    from step_entry_later [OF assms(2) c this] show ?thesis by (simp add: entry_later_def entry_name_def registry_view_def)
  qed
  have "ownership_ok (entry_name (hx_host ?y)) (sy_permits y) (hx_tasks x) (hx_broker x)"
    using d(5) assms(3) name unfolding ownership_ok_def owned_permits_def by fastforce
  moreover have "registry_view ?y = y" by (cases y) (simp add: registry_view_def)
  ultimately show ?thesis
    using assms(1) d capability_step_inv [OF assms(2) c] by (simp add: host_inv_iff broker_inv_def)
qed

lemma step_submit:
  assumes "host_inv x" "Holding p \<in> set (hx_tasks x)" "submit_section env ser now p (hx_host x) = (r, h)"
  shows "host_inv (x\<lparr>hx_host := h, hx_tasks := (if is_ok r then remove1 (Holding p) (hx_tasks x) else hx_tasks x)\<rparr>)"
proof -
  have ok: "broker_healthy (hx_host x)" and b: "broker_inv (hb_runtime_id (ho_broker (hx_host x))) (hb_max_records (ho_broker (hx_host x)))
      (hb_max_bytes (ho_broker (hx_host x))) (entry_name (hx_host x)) (hx_permits x) (hx_tasks x) (hx_delivered x) (hx_claimed x) (hx_published x) (hx_broker x)"
    using assms(1) by (simp_all add: host_inv_iff)
  from ok assms(3) show ?thesis
  proof (cases rule: submit_section_result)
    case refused
    then show ?thesis by (intro host_inv_same [OF assms(1), where ls = "ho_ledgers (hx_host x)"]) simp_all
  next
    case (spent ls)
    then show ?thesis
      using broker_inv_sequence [OF b, of "Suc (bk_sequence (hx_broker x))"] by (intro host_inv_stored [OF assms(1), where ls = ls]) simp_all
  next
    case (queued q bytes ls)
    note c = submit_check_Ok [OF queued(2)]
    show ?thesis
      using broker_inv_insert [OF b assms(2) c(2,4) c(6) c(7) c(8)] queued(1,3)
      by (intro host_inv_stored [OF assms(1), where ls = ls]) simp_all
  qed
qed

abbreviation hx_inv :: "host_system \<Rightarrow> host_task list \<Rightarrow> string list \<Rightarrow> string list \<Rightarrow> string list \<Rightarrow> broker_state \<Rightarrow> bool" where
  "hx_inv x \<equiv> broker_inv (hb_runtime_id (ho_broker (hx_host x))) (hb_max_records (ho_broker (hx_host x))) (hb_max_bytes (ho_broker (hx_host x)))
     (entry_name (hx_host x)) (hx_permits x)"

lemma host_invD:
  assumes "host_inv x"
  shows "broker_healthy (hx_host x)" "hx_inv x (hx_tasks x) (hx_delivered x) (hx_claimed x) (hx_published x) (hx_broker x)"
    "capability_inv (registry_view x)"
  using assms by (simp_all add: host_inv_iff)

text \<open>The record a task is about is being completed, and its call is with the task.\<close>

lemma task_record:
  assumes "shapes_ok ts st" "t \<in> set ts" "task_id t = Some i"
  obtains r where "bt_get (bk_records st) i = Some r" "rq_phase r = RqCompleting" "rq_prepared r = None" "rq_pending_outcome r = None"
    "rq_outcome r = None" "count_task i ts = 1"
proof -
  have "0 < count_task i ts" by (rule count_task_pos [OF assms(2,3)])
  then obtain r where r: "bt_get (bk_records st) i = Some r" using shapesD(2) [OF assms(1), of i] by (cases "bt_get (bk_records st) i") auto
  show thesis
    using shapesD(1) [OF assms(1) r] \<open>0 < count_task i ts\<close> that [OF r] by (cases "rq_phase r") auto
qed

lemma history_of: "broker_inv rid m n names permits ts dl cl pb st \<Longrightarrow> bt_get (bk_records st) i = Some r \<Longrightarrow> record_history dl cl pb i r"
  by (simp add: broker_inv_def history_ok_def)

lemma set_record_ready: "set_record i r st = st\<lparr>bk_records := bt_insert i r (bk_records st), bk_ready := bk_ready st\<rparr>"
  by (simp add: set_record_def)

lemma step_take:
  assumes "host_inv x" "\<And>q. \<not> is_panic (prep q)" "\<not> is_panic (rd_start rd)" "take_section prep rd (hx_host x) = (z, h)"
  shows "host_inv (x\<lparr>hx_host := h, hx_delivered := (case z of Ok (Delivered q) \<Rightarrow> hx_delivered x @ [hr_request_id q] | _ \<Rightarrow> hx_delivered x)\<rparr>)"
  using host_invD(1) [OF assms(1)] assms(2-4)
proof (cases rule: take_section_result)
  case (kept ls)
  then show ?thesis
    by (intro host_inv_same [OF assms(1), where ls = ls]) (auto split: outcome.split delivery.split)
next
  case (delivered i js r p q ls)
  note b = host_invD(2) [OF assms(1)]
  note d = broker_invD [OF b]
  have "hr_request_id q = i" using delivered(6) boundsD(7) [OF d(1) delivered(2)] by (simp add: with_remaining_def)
  moreover have "hx_inv x (hx_tasks x) (hx_delivered x @ [i]) (hx_claimed x) (hx_published x)
      ((hx_broker x)\<lparr>bk_records := bt_insert i (r\<lparr>rq_phase := RqDispatched\<rparr>) (bk_records (hx_broker x)), bk_ready := js\<rparr>)"
    using shapesD(1) [OF d(3) delivered(2)] delivered(2-4) history_of [OF b delivered(2)]
    by (intro broker_inv_update [OF b delivered(2)] queue_deliver [OF d(2) delivered(1)])
      (auto simp: record_history_def owners_def)
  ultimately show ?thesis
    using delivered(5,7) by (intro host_inv_stored [OF assms(1), where ls = ls]) (simp_all add: set_record_def)
qed

lemma step_cancel:
  assumes "host_inv x" "cancel_section i e (hx_host x) = (z, h)"
  shows "host_inv (x\<lparr>hx_host := h, hx_tasks := (case z of Ok (Some p) \<Rightarrow> Cancelling i p # hx_tasks x | _ \<Rightarrow> hx_tasks x)\<rparr>)"
proof -
  note b = host_invD(2) [OF assms(1)] and res = cancel_section_result [OF host_invD(1) [OF assms(1)], of i e]
  note d = broker_invD [OF b]
  note same = host_inv_same [OF assms(1), where ls = "ho_ledgers (hx_host x)"] and new = host_inv_stored [OF assms(1), where ls = "ho_ledgers (hx_host x)"]
  show ?thesis
  proof (cases "bt_get (bk_records (hx_broker x)) i")
    case None
    then show ?thesis using assms(2) res by (intro same) auto
  next
    case (Some r)
    note shape = shapesD(1) [OF d(3) Some] and hist = history_of [OF b Some]
    let ?r = "r\<lparr>rq_cancellation := (case rq_cancellation r of None \<Rightarrow> Some e | c \<Rightarrow> c)\<rparr>"
    consider "rq_phase r = RqCompleted" | "rq_phase r \<in> {RqDispatched, RqCompleting}" | p where "rq_phase r = RqQueued" "rq_prepared r = Some p"
      using shape by (cases "rq_phase r") auto
    then show ?thesis
    proof cases
      case 1
      then show ?thesis using assms(2) res Some by (intro same) (auto simp: Let_def)
    next
      case 2
      have "hx_inv x (hx_tasks x) (hx_delivered x) (hx_claimed x) (hx_published x) (set_record i ?r (hx_broker x))"
        using 2 shape hist Some queue_update [OF d(2) Some, of ?r] unfolding set_record_ready
        by (intro broker_inv_update [OF b Some]) (auto simp: record_history_def owners_def)
      then show ?thesis using 2 assms(2) res Some by (intro new) (auto simp: Let_def)
    next
      case 3
      let ?q = "?r\<lparr>rq_phase := RqCompleting, rq_prepared := None\<rparr>"
      have "hx_inv x (Cancelling i p # hx_tasks x) (hx_delivered x) (hx_claimed x) (hx_published x)
          ((set_record i ?q (hx_broker x))\<lparr>bk_ready := filter (\<lambda>y. y \<noteq> i) (bk_ready (hx_broker x))\<rparr>)"
        using 3 shape hist Some queue_unqueue [OF d(2) Some, of ?q] unfolding set_record_def
        by (simp, intro broker_inv_update [OF b Some]) (auto simp: record_history_def owners_def)
      then show ?thesis using 3 assms(2) res Some by (intro new) (auto simp: Let_def)
    qed
  qed
qed

lemma step_claim:
  assumes "host_inv x" "claim_section i (hx_host x) = (z, h)"
  shows "host_inv (x\<lparr>hx_host := h, hx_tasks := (case z of Ok p \<Rightarrow> Claimed i p out # hx_tasks x | _ \<Rightarrow> hx_tasks x),
    hx_claimed := (case z of Ok p \<Rightarrow> hx_claimed x @ [i] | _ \<Rightarrow> hx_claimed x)\<rparr>)"
proof -
  note b = host_invD(2) [OF assms(1)] and res = claim_section_result [OF host_invD(1) [OF assms(1)], of i]
  note d = broker_invD [OF b]
  note same = host_inv_same [OF assms(1), where ls = "ho_ledgers (hx_host x)"] and new = host_inv_stored [OF assms(1), where ls = "ho_ledgers (hx_host x)"]
  show ?thesis
  proof (cases "\<exists>r. bt_get (bk_records (hx_broker x)) i = Some r \<and> rq_phase r = RqDispatched")
    case False
    then have "h = hx_host x \<and> (\<forall>p. z \<noteq> Ok p)"
      using assms(2) res by (auto split: option.splits host_request_phase.splits)
    then show ?thesis by (intro same) (auto split: outcome.split)
  next
    case True
    then obtain r where r: "bt_get (bk_records (hx_broker x)) i = Some r" "rq_phase r = RqDispatched" by blast
    note shape = shapesD(1) [OF d(3) r(1)] and hist = history_of [OF b r(1)]
    obtain p where p: "rq_prepared r = Some p" using shape r(2) by auto
    let ?q = "r\<lparr>rq_phase := RqCompleting, rq_prepared := None\<rparr>"
    have "hx_inv x (Claimed i p out # hx_tasks x) (hx_delivered x) (hx_claimed x @ [i]) (hx_published x) (set_record i ?q (hx_broker x))"
      using r p shape hist queue_update [OF d(2) r(1), of ?q] unfolding set_record_ready
      by (intro broker_inv_update [OF b r(1)]) (auto simp: record_history_def owners_def)
    then show ?thesis using r p assms(2) res by (intro new) auto
  qed
qed

text \<open>A thread gives the prepared call back to its record together with an outcome.\<close>

lemma step_put:
  assumes "host_inv x" "t \<in> set (hx_tasks x)" "task_id t = Some i" "task_prepared t = Some p" "put_completion i p out (hx_host x) = (z, h)"
  shows "host_inv (x\<lparr>hx_host := h, hx_tasks := remove1 t (hx_tasks x)\<rparr>)"
proof -
  note b = host_invD(2) [OF assms(1)]
  note d = broker_invD [OF b]
  obtain r where r: "bt_get (bk_records (hx_broker x)) i = Some r" "rq_phase r = RqCompleting" "rq_prepared r = None" "rq_pending_outcome r = None"
    "rq_outcome r = None" "count_task i (hx_tasks x) = 1" by (rule task_record [OF d(3) assms(2,3)])
  let ?q = "r\<lparr>rq_prepared := Some p, rq_pending_outcome := Some out\<rparr>"
  note count = count_task_remove1 [OF assms(2)] and own = owned_by_tasks_remove1 [OF assms(2)]
  have "hx_inv x (remove1 t (hx_tasks x)) (hx_delivered x) (hx_claimed x) (hx_published x) (set_record i ?q (hx_broker x))"
    using r assms(2-4) history_of [OF b r(1)] queue_update [OF d(2) r(1), of ?q] set_remove1_subset [of t "hx_tasks x"] own unfolding set_record_ready
    by (intro broker_inv_update [OF b r(1)]) (auto simp: record_history_def owners_def count)
  then show ?thesis
    using r(1) assms(5) put_completion_result [OF host_invD(1) [OF assms(1)], of i p out]
    by (intro host_inv_stored [OF assms(1), where ls = "ho_ledgers (hx_host x)"]) auto
qed

lemma step_drive:
  assumes "host_inv x" "take_completion i (hx_host x) = (z, h)"
  shows "host_inv (x\<lparr>hx_host := h, hx_tasks := (case z of Ok (Some (p, out)) \<Rightarrow> Driving i p out # hx_tasks x | _ \<Rightarrow> hx_tasks x)\<rparr>)"
proof -
  note b = host_invD(2) [OF assms(1)]
  note d = broker_invD [OF b]
  note res = take_completion_result [OF host_invD(1) [OF assms(1)] d(3), of i]
  note same = host_inv_same [OF assms(1), where ls = "ho_ledgers (hx_host x)"] and new = host_inv_stored [OF assms(1), where ls = "ho_ledgers (hx_host x)"]
  show ?thesis
  proof (cases "\<exists>r p out. bt_get (bk_records (hx_broker x)) i = Some r \<and> rq_phase r = RqCompleting \<and> rq_pending_outcome r = Some out \<and> rq_prepared r = Some p")
    case False
    then have "h = hx_host x \<and> z = Ok None"
      using assms(2) res by (auto split: option.splits host_request_phase.splits)
    then show ?thesis by (intro same) auto
  next
    case True
    then obtain r p out where r: "bt_get (bk_records (hx_broker x)) i = Some r" "rq_phase r = RqCompleting" "rq_pending_outcome r = Some out"
      "rq_prepared r = Some p" by blast
    note shape = shapesD(1) [OF d(3) r(1)] and hist = history_of [OF b r(1)]
    let ?q = "r\<lparr>rq_prepared := None, rq_pending_outcome := None\<rparr>"
    have "hx_inv x (Driving i p out # hx_tasks x) (hx_delivered x) (hx_claimed x) (hx_published x) (set_record i ?q (hx_broker x))"
      using r shape hist queue_update [OF d(2) r(1), of ?q] unfolding set_record_ready
      by (intro broker_inv_update [OF b r(1)]) (auto simp: record_history_def owners_def)
    then show ?thesis using r assms(2) res by (intro new) auto
  qed
qed

text \<open>A thread drops the prepared call and goes on to publish.\<close>

lemma step_to_publish:
  assumes "host_inv x" "t \<in> set (hx_tasks x)" "task_id t = Some i"
  shows "host_inv (x\<lparr>hx_tasks := Publishing i out # remove1 t (hx_tasks x)\<rparr>)"
proof -
  note b = host_invD(2) [OF assms(1)]
  have "owned_by_tasks (Publishing i out # remove1 t (hx_tasks x)) + owned_by_records (bk_records (hx_broker x)) \<subseteq># mset (hx_permits x)"
    using broker_invD(5) [OF b] owned_by_tasks_remove1 [OF assms(2)]
    by (auto simp: ownership_ok_def) (metis (no_types, lifting) add.assoc mset_subset_eq_add_right subset_mset.order_trans)
  then have "hx_inv x (Publishing i out # remove1 t (hx_tasks x)) (hx_delivered x) (hx_claimed x) (hx_published x) (hx_broker x)"
    using assms(3) count_task_pos [OF assms(2,3)] set_remove1_subset [of t "hx_tasks x"]
    by (intro broker_inv_tasks [OF b]) (auto simp: count_task_remove1 [OF assms(2)] owners_def)
  then show ?thesis using assms(1) by (simp add: host_inv_iff registry_view_def)
qed

lemma step_publish:
  assumes "host_inv x" "Publishing i out \<in> set (hx_tasks x)" "publish_section i out (hx_host x) = (z, h)"
  shows "host_inv (x\<lparr>hx_host := h, hx_tasks := remove1 (Publishing i out) (hx_tasks x), hx_published := hx_published x @ [i]\<rparr>) \<and> z = Ok ()"
proof -
  let ?ts = "remove1 (Publishing i out) (hx_tasks x)"
  note b = host_invD(2) [OF assms(1)] and ok = host_invD(1) [OF assms(1)]
  note d = broker_invD [OF b]
  obtain r where r: "bt_get (bk_records (hx_broker x)) i = Some r" "rq_phase r = RqCompleting" "rq_prepared r = None" "rq_pending_outcome r = None"
    "rq_outcome r = None" "count_task i (hx_tasks x) = 1" by (rule task_record [OF d(3) assms(2)]) simp
  have count: "count_task j ?ts = (if j = i then 0 else count_task j (hx_tasks x))" for j
    using count_task_remove1 [OF assms(2), of j] r(6) by auto
  have own: "owned_by_tasks ?ts = owned_by_tasks (hx_tasks x)" using owned_by_tasks_remove1 [OF assms(2)] by simp
  have fresh: "i \<notin> set (hx_published x)" using history_of [OF b r(1)] r(2) by (simp add: record_history_def)
  have dist: "distinct (hx_published x)" using d(4) by (simp add: history_ok_def)
  note new = host_inv_stored [OF assms(1), where ls = "ho_ledgers (hx_host x)"]
  let ?q = "published r out"
  have q: "rq_phase ?q = RqCompleted" "rq_prepared ?q = None" "rq_bytes ?q = rq_bytes r" "rq_waiter_alive ?q = rq_waiter_alive r" "rq_request ?q = rq_request r"
    "rq_outcome ?q \<noteq> None" "rq_pending_outcome ?q = None" using r(3,4) by (simp_all add: published_def)
  show ?thesis
  proof (cases "rq_waiter_alive r")
    case True
    have "hx_inv x ?ts (hx_delivered x) (hx_claimed x) (hx_published x @ [i]) (set_record i ?q (hx_broker x))"
      using r q True fresh own history_of [OF b r(1)] queue_update [OF d(2) r(1), of ?q] set_remove1_subset [of "Publishing i out" "hx_tasks x"]
      unfolding set_record_ready
      by (intro broker_inv_update [OF b r(1)]) (auto simp: record_history_def owners_def count)
    then show ?thesis
      using publish_section_result [OF ok r(1), of out] True assms(3) new [of "x\<lparr>hx_host := h, hx_tasks := ?ts, hx_published := hx_published x @ [i]\<rparr>"] by simp
  next
    case False
    obtain st where st: "remove_request (hb_max_records (ho_broker (hx_host x))) i (hx_broker x) = Ok st"
      "hx_inv x ?ts (hx_delivered x) (hx_claimed x) (hx_published x @ [i]) st"
      by (rule broker_inv_remove [OF b r(1), of ?ts "hx_published x @ [i]"])
        (use r fresh dist own count set_remove1_subset [of "Publishing i out" "hx_tasks x"] in auto)
    have "remove_request (hb_max_records (ho_broker (hx_host x))) i (set_record i ?q (hx_broker x)) = Ok st"
      using st(1) r(1) q(3) boundsD(1) [OF d(1)] by (auto simp: remove_request_def set_record_def)
    then show ?thesis
      using publish_section_result [OF ok r(1), of out] False assms(3) st(2) new [of "x\<lparr>hx_host := h, hx_tasks := ?ts, hx_published := hx_published x @ [i]\<rparr>" st]
      by simp
  qed
qed

lemma step_abandon:
  assumes "host_inv x" "abandon_section i (hx_host x) = (z, h)"
  shows "host_inv (x\<lparr>hx_host := h\<rparr>) \<and> \<not> is_panic z"
proof -
  note b = host_invD(2) [OF assms(1)] and ok = host_invD(1) [OF assms(1)]
  note d = broker_invD [OF b]
  note res = abandon_section_result [OF ok, of i]
  note new = host_inv_stored [OF assms(1), where ls = "ho_ledgers (hx_host x)"]
  show ?thesis
  proof (cases "bt_get (bk_records (hx_broker x)) i")
    case None
    then show ?thesis using assms res host_inv_same [OF assms(1), of "x\<lparr>hx_host := h\<rparr>" "ho_ledgers (hx_host x)"] by auto
  next
    case (Some r)
    note shape = shapesD(1) [OF d(3) Some] and hist = history_of [OF b Some]
    let ?q = "r\<lparr>rq_waiter_alive := False\<rparr>"
    show ?thesis
    proof (cases "rq_phase r = RqCompleted")
      case True
      then have p: "i \<in> set (hx_published x)" "rq_prepared r = None" "count_task i (hx_tasks x) = 0"
        using hist shape by (auto simp: record_history_def)
      have dist: "distinct (hx_published x)" using d(4) by (simp add: history_ok_def)
      obtain st where st: "remove_request (hb_max_records (ho_broker (hx_host x))) i (hx_broker x) = Ok st"
        "hx_inv x (hx_tasks x) (hx_delivered x) (hx_claimed x) (hx_published x) st"
        by (rule broker_inv_remove [OF b Some, of "hx_tasks x" "hx_published x"]) (use True p dist in auto)
      have "remove_request (hb_max_records (ho_broker (hx_host x))) i (set_record i ?q (hx_broker x)) = Ok st"
        using st(1) Some boundsD(1) [OF d(1)] by (auto simp: remove_request_def set_record_def)
      then show ?thesis using res Some True assms(2) st(2) new [of "x\<lparr>hx_host := h\<rparr>" st] by (simp add: Let_def)
    next
      case False
      then have "record_shape (rq_phase r) ?q (count_task i (hx_tasks x))" using shape by (cases "rq_phase r") auto
      then have "hx_inv x (hx_tasks x) (hx_delivered x) (hx_claimed x) (hx_published x) (set_record i ?q (hx_broker x))"
        using shape hist Some queue_update [OF d(2) Some, of ?q] unfolding set_record_ready
        by (intro broker_inv_update [OF b Some]) (auto simp: record_history_def owners_def)
      then show ?thesis using res Some False assms(2) new [of "x\<lparr>hx_host := h\<rparr>" "set_record i ?q (hx_broker x)"] by (simp add: Let_def)
    qed
  qed
qed

lemma step_holding:
  assumes "host_inv x"
  shows "add_mset (pp_entry p) (owned_permits x) \<subseteq># mset (hx_permits x) \<Longrightarrow> host_inv (x\<lparr>hx_tasks := Holding p # hx_tasks x\<rparr>)"
    "Holding p \<in> set (hx_tasks x) \<Longrightarrow> host_inv (x\<lparr>hx_tasks := remove1 (Holding p) (hx_tasks x)\<rparr>)"
proof -
  note b = host_invD(2) [OF assms]
  have wrap: "hx_inv x ts (hx_delivered x) (hx_claimed x) (hx_published x) (hx_broker x) \<Longrightarrow> host_inv (x\<lparr>hx_tasks := ts\<rparr>)" for ts
    using assms by (simp add: host_inv_iff registry_view_def)
  show "host_inv (x\<lparr>hx_tasks := Holding p # hx_tasks x\<rparr>)" if "add_mset (pp_entry p) (owned_permits x) \<subseteq># mset (hx_permits x)"
    using that by (intro wrap broker_inv_tasks [OF b]) (auto simp: owned_permits_def owners_def)
  show "host_inv (x\<lparr>hx_tasks := remove1 (Holding p) (hx_tasks x)\<rparr>)" if t: "Holding p \<in> set (hx_tasks x)"
  proof -
    have "owned_by_tasks (remove1 (Holding p) (hx_tasks x)) + owned_by_records (bk_records (hx_broker x)) \<subseteq># mset (hx_permits x)"
      using broker_invD(5) [OF b] owned_by_tasks_remove1 [OF t]
      by (auto simp: ownership_ok_def dest: mset_subset_eq_insertD subset_mset.less_imp_le)
    then show ?thesis
      using set_remove1_subset [of "Holding p" "hx_tasks x"]
      by (intro wrap broker_inv_tasks [OF b]) (auto simp: count_task_remove1 [OF t] owners_def)
  qed
qed

theorem host_step_inv:
  assumes "host_step x y" "host_inv x"
  shows "host_inv y"
  using assms(1)
proof cases
  case (hx_registry z)
  then show ?thesis using step_registry [OF assms(2)] by simp
next
  case (hx_environment cs ls ps)
  then show ?thesis using assms(2) by (simp add: host_inv_iff registry_view_def entry_name_def [abs_def])
next
  case (hx_prepared p)
  then show ?thesis using step_holding(1) [OF assms(2)] by simp
next
  case (hx_discarded p)
  then show ?thesis using step_holding(2) [OF assms(2)] by simp
next
  case (hx_submit p env ser now r h)
  then show ?thesis using step_submit [OF assms(2)] by simp
next
  case (hx_take prep rd r h)
  then show ?thesis using step_take [OF assms(2), of prep rd r h] by simp
next
  case (hx_cancel i e r h)
  then show ?thesis using step_cancel [OF assms(2)] by simp
next
  case (hx_cancelled i p)
  then show ?thesis using step_to_publish [OF assms(2) hx_cancelled(2)] by simp
next
  case (hx_claim i r h out)
  then show ?thesis using step_claim [OF assms(2)] by simp
next
  case (hx_validated i p out auth js sv se r h)
  then show ?thesis using step_put [OF assms(2) hx_validated(2) _ _ hx_validated(3)] by simp
next
  case (hx_drive i r h)
  then show ?thesis using step_drive [OF assms(2)] by simp
next
  case (hx_settled i p out auth)
  then show ?thesis using step_to_publish [OF assms(2) hx_settled(2)] by simp
next
  case (hx_unsettled i p out r h)
  then show ?thesis using step_put [OF assms(2) hx_unsettled(2) _ _ hx_unsettled(3)] by simp
next
  case (hx_publish i out r h)
  then show ?thesis using step_publish [OF assms(2)] by simp
next
  case (hx_abandon i r h)
  then show ?thesis using step_abandon [OF assms(2)] by simp
next
  case (hx_close r h)
  have "hx_inv x (hx_tasks x) (hx_delivered x) (hx_claimed x) (hx_published x) ((hx_broker x)\<lparr>bk_closing := True\<rparr>)"
    using host_invD(2) [OF assms(2)] by (simp add: broker_inv_closing)
  then show ?thesis
    using hx_close close_section_result [OF host_invD(1) [OF assms(2)]]
    by (intro host_inv_stored [OF assms(2), where ls = "ho_ledgers (hx_host x)"]) auto
qed

text \<open>No section of the broker changes the broker's limits or the registry.\<close>

definition host_limits :: "capability_host \<Rightarrow> string \<times> usize \<times> usize \<times> capability_registry" where
  "host_limits h = (hb_runtime_id (ho_broker h), hb_max_records (ho_broker h), hb_max_bytes (ho_broker h), ho_registry h)"

definition keeps_limits :: "(capability_host, 'a) action \<Rightarrow> bool" where
  "keeps_limits m \<longleftrightarrow> (\<forall>h. host_limits (snd (m h)) = host_limits h)"

lemma host_limits_simps [simp]:
  "host_limits (put_broker m h) = host_limits h" "host_limits (h\<lparr>ho_ledgers := ls\<rparr>) = host_limits h"
  by (simp_all add: host_limits_def)

lemma keeps_limits_basic:
  "keeps_limits (ret a)" "keeps_limits (from_result r)" "keeps_limits (try_read g)" "keeps_limits (read_state f)" "keeps_limits (require c e)"
  "keeps_limits (read_broker f')" "keeps_limits (write_broker u)" "keeps_limits (update_request i v)" "keeps_limits (prepared_gate p)"
  by (simp_all add: keeps_limits_def ret_def from_result_def try_read_def read_state_def require_def read_broker_def write_broker_def
      update_request_def write_state_def)

lemma keeps_limits_attempt: "keeps_limits (on_attempt f d attempt)"
  unfolding keeps_limits_def
proof
  fix h
  show "host_limits (snd (on_attempt f d attempt h)) = host_limits h" using frame_attempt_eq [of f d attempt h] by auto
qed

lemma keeps_limits_bind: "keeps_limits m \<Longrightarrow> (\<And>a. keeps_limits (f a)) \<Longrightarrow> keeps_limits (bind_action m f)"
  unfolding keeps_limits_def bind_action_def by (auto split: prod.split outcome.split) (metis snd_conv)+

lemma keeps_limits_cancel: "keeps_limits m \<Longrightarrow> (\<And>a. keeps_limits (k a)) \<Longrightarrow> keeps_limits (cancel_unless_internal i k m)"
  unfolding keeps_limits_def cancel_unless_internal_def by (auto split: prod.split outcome.split) (metis snd_conv)+

lemma keeps_limits_locked: "keeps_limits m \<Longrightarrow> keeps_limits (recovering m)" "keeps_limits m \<Longrightarrow> keeps_limits (locked m)"
  unfolding keeps_limits_def locked_def recovering_def by (auto split: prod.split outcome.split) (metis snd_conv)+

lemma keeps_limits_branches:
  "keeps_limits m \<Longrightarrow> keeps_limits m' \<Longrightarrow> keeps_limits (if c then m else m')"
  "keeps_limits m \<Longrightarrow> (\<And>a. keeps_limits (f a)) \<Longrightarrow> keeps_limits (case z of None \<Rightarrow> m | Some a \<Rightarrow> f a)"
  "keeps_limits m \<Longrightarrow> (\<And>a as. keeps_limits (g a as)) \<Longrightarrow> keeps_limits (case zs of [] \<Rightarrow> m | a # as \<Rightarrow> g a as)"
  "(\<And>a b. keeps_limits (q a b)) \<Longrightarrow> keeps_limits (case w of (a, b) \<Rightarrow> q a b)"
  by (auto split: option.split list.split prod.split)

lemmas keeps_limits_intros = keeps_limits_basic keeps_limits_attempt keeps_limits_bind keeps_limits_cancel keeps_limits_locked keeps_limits_branches

lemma sections_keep_limits:
  "keeps_limits (submit_section env ser now p)" "keeps_limits (take_section prep rd)" "keeps_limits (cancel_section i e)"
  "keeps_limits (claim_section i)" "keeps_limits (put_completion i p out)" "keeps_limits (take_completion i)" "keeps_limits (publish_section i out)"
  "keeps_limits (abandon_section i)" "keeps_limits close_section"
  unfolding submit_section_def bind_request_def take_section_def deliver_front_def dispatch_def begin_effect_def cancel_section_def
    claim_section_def put_completion_def take_completion_def publish_section_def remove_action_def abandon_section_def close_section_def
  by (intro keeps_limits_intros)+

lemma keeps_limitsD: "keeps_limits m \<Longrightarrow> m h = (r, h') \<Longrightarrow> host_limits h' = host_limits h"
  unfolding keeps_limits_def by (metis snd_conv)

lemmas section_limits = sections_keep_limits [THEN keeps_limitsD]

lemma host_step_limits:
  assumes "host_step x y"
  shows "hb_runtime_id (ho_broker (hx_host y)) = hb_runtime_id (ho_broker (hx_host x)) \<and> hb_max_records (ho_broker (hx_host y)) = hb_max_records (ho_broker (hx_host x)) \<and>
    hb_max_bytes (ho_broker (hx_host y)) = hb_max_bytes (ho_broker (hx_host x)) \<and> cr_config (ho_registry (hx_host y)) = cr_config (ho_registry (hx_host x))"
  using assms
proof cases
  case (hx_registry z)
  then show ?thesis using capability_step_config [OF hx_registry(2)] by (simp add: registry_view_def)
qed (auto simp: host_limits_def dest!: section_limits)

theorem host_reachable_inv:
  assumes "host_reachable config x"
  shows "host_inv x \<and> hb_max_records (ho_broker (hx_host x)) = max_host_requests config \<and>
    hb_max_bytes (ho_broker (hx_host x)) = max_host_request_bytes config \<and> cr_config (ho_registry (hx_host x)) = config"
  using assms
proof induction
  case (hx_start address runtime_id g cs ls ps)
  have "capability_inv \<lparr>sy_registry = g, sy_permits = [], sy_releases = []\<rparr>" "cr_config g = config"
    using capability_reachable_inv [OF cap_start [OF hx_start]] by simp_all
  then show ?case
    by (simp add: host_inv_def registry_view_def broker_new_def bounds_ok_def queue_ok_def shapes_ok_def history_ok_def ownership_ok_def
        owned_by_tasks_def owners_def count_task_def request_ids_def)
next
  case (hx_next x y)
  then show ?case using host_step_inv [OF hx_next(2)] host_step_limits [OF hx_next(2)] by simp
qed

end
