(* ===== verification/Host_Runs.thy ===== *)
theory Host_Runs
  imports Host_Steps
begin

text \<open>
  The functions of the broker as runs of the step system: each call, executed from a state that
  satisfies the invariant, is a sequence of critical sections of one thread, so what holds of every
  reachable state holds before, during and after each call. The claims are stated with \<open>runs\<close>, which
  follows the structure of the functions.
\<close>

section \<open>Runs\<close>

definition runs :: "(capability_host, 'a) action \<Rightarrow> host_system \<Rightarrow> ('a embedded_result \<Rightarrow> host_system \<Rightarrow> bool) \<Rightarrow> bool" where
  "runs m x P \<longleftrightarrow> (\<exists>y. host_step\<^sup>*\<^sup>* x y \<and> host_inv y \<and> hx_host y = snd (m (hx_host x)) \<and> P (fst (m (hx_host x))) y)"

lemma host_steps_inv: "host_step\<^sup>*\<^sup>* x y \<Longrightarrow> host_inv x \<Longrightarrow> host_inv y"
  by (induction rule: rtranclp_induct) (auto intro: host_step_inv)

lemma runs_step: "host_step x y \<Longrightarrow> host_inv x \<Longrightarrow> m (hx_host x) = (r, hx_host y) \<Longrightarrow> P r y \<Longrightarrow> runs m x P"
  unfolding runs_def by (intro exI [of _ y]) (auto intro: host_step_inv)

lemma runs_to: "host_step\<^sup>*\<^sup>* x y \<Longrightarrow> host_inv y \<Longrightarrow> m (hx_host x) = (r, hx_host y) \<Longrightarrow> P r y \<Longrightarrow> runs m x P"
  unfolding runs_def by auto

lemma runs_read: "host_inv x \<Longrightarrow> snd (m (hx_host x)) = hx_host x \<Longrightarrow> P (fst (m (hx_host x))) x \<Longrightarrow> runs m x P"
  unfolding runs_def by (intro exI [of _ x]) auto

lemma runs_after: "host_step\<^sup>*\<^sup>* x y \<Longrightarrow> hx_host y = hx_host x \<Longrightarrow> runs m y P \<Longrightarrow> runs m x P"
  unfolding runs_def by (metis rtranclp_trans)

lemma runs_mono: "runs m x P \<Longrightarrow> (\<And>r y. host_inv y \<Longrightarrow> P r y \<Longrightarrow> Q r y) \<Longrightarrow> runs m x Q"
  unfolding runs_def by blast

lemma runs_bind:
  assumes "runs m x Q" "\<And>a y. host_inv y \<Longrightarrow> Q (Ok a) y \<Longrightarrow> runs (f a) y P"
    and "\<And>e y. host_inv y \<Longrightarrow> Q (Err e) y \<Longrightarrow> P (Err e) y" "\<And>p y. host_inv y \<Longrightarrow> Q (Panic p) y \<Longrightarrow> P (Panic p) y"
  shows "runs (bind_action m f) x P"
proof -
  obtain y where y: "host_step\<^sup>*\<^sup>* x y" "host_inv y" "hx_host y = snd (m (hx_host x))" "Q (fst (m (hx_host x))) y"
    using assms(1) by (auto simp: runs_def)
  show ?thesis
  proof (cases "fst (m (hx_host x))")
    case (Ok a)
    then have m: "m (hx_host x) = (Ok a, hx_host y)" using y(3) by (metis prod.collapse)
    then have "bind_action m f (hx_host x) = f a (hx_host y)" by (simp add: bind_action_def)
    then show ?thesis using assms(2) [of y a] y Ok unfolding runs_def by (metis rtranclp_trans)
  next
    case (Err e)
    then have "bind_action m f (hx_host x) = (Err e, hx_host y)" using y(3) by (cases "m (hx_host x)") (simp add: bind_action_def)
    then show ?thesis using assms(3) [of y e] y Err unfolding runs_def by auto
  next
    case (Panic p)
    then have "bind_action m f (hx_host x) = (Panic p, hx_host y)" using y(3) by (cases "m (hx_host x)") (simp add: bind_action_def)
    then show ?thesis using assms(4) [of y p] y Panic unfolding runs_def by auto
  qed
qed

lemma runs_reads:
  "runs (bind_action (read_state f) k) x P = runs (k (f (hx_host x))) x P"
  by (simp add: runs_def bind_action_def read_state_def)

text \<open>Between calls a thread owns the same calls as before, and the ghost lists record the rest.\<close>

definition quiet :: "host_system \<Rightarrow> host_system \<Rightarrow> bool" where
  "quiet x y \<longleftrightarrow> hx_tasks y = hx_tasks x \<and> hx_delivered y = hx_delivered x \<and> hx_claimed y = hx_claimed x"

lemma quiet_refl [simp]: "quiet x x"
  by (simp add: quiet_def)

lemma quiet_trans: "quiet x y \<Longrightarrow> quiet y z \<Longrightarrow> quiet x z"
  by (simp add: quiet_def)

definition quietly :: "host_system \<Rightarrow> 'a embedded_result \<Rightarrow> host_system \<Rightarrow> bool" where
  "quietly x r y \<longleftrightarrow> quiet x y \<and> \<not> is_panic r"

lemma quietly_bind:
  fixes m :: "(capability_host, 'a) action" and f :: "'a \<Rightarrow> (capability_host, 'b) action"
  assumes "runs m x (quietly x)" "\<And>a y. host_inv y \<Longrightarrow> quiet x y \<Longrightarrow> runs (f a) y (quietly y)"
  shows "runs (bind_action m f) x (quietly x)"
proof (rule runs_bind [OF assms(1)])
  fix a :: 'a and y assume "host_inv y" "quietly x (Ok a :: 'a embedded_result) y"
  then show "runs (f a) y (quietly x)"
    using assms(2) [of y a] by (auto simp: quietly_def intro: quiet_trans elim!: runs_mono)
qed (auto simp: quietly_def)

lemma quietly_read: "host_inv x \<Longrightarrow> snd (m (hx_host x)) = hx_host x \<Longrightarrow> \<not> is_panic (fst (m (hx_host x))) \<Longrightarrow> runs m x (quietly x)"
  by (rule runs_read) (auto simp: quietly_def)

lemma quietly_ret [simp]: "host_inv x \<Longrightarrow> runs (ret a) x (quietly x)"
  by (rule quietly_read) (simp_all add: ret_def)

section \<open>Dropping a prepared call\<close>

definition with_view :: "host_system \<Rightarrow> capability_system \<Rightarrow> host_system" where
  "with_view x s = x\<lparr>hx_host := (hx_host x)\<lparr>ho_registry := sy_registry s\<rparr>, hx_permits := sy_permits s, hx_releases := sy_releases s\<rparr>"

lemma with_view_simps [simp]:
  "registry_view (with_view x s) = s" "owned_permits (with_view x s) = owned_permits x" "hx_permits (with_view x s) = sy_permits s"
  "with_view (with_view x s) t = with_view x t" "hx_host (with_view x s) = (hx_host x)\<lparr>ho_registry := sy_registry s\<rparr>" "quiet x (with_view x s)"
  by (simp_all add: with_view_def registry_view_def owned_permits_def quiet_def)

lemma hx_registry_view:
  "capability_step (registry_view x) s \<Longrightarrow> owned_permits x \<subseteq># mset (sy_permits s) \<Longrightarrow> host_step x (with_view x s)"
  unfolding with_view_def by (rule hx_registry)

lemma permit_drop_run:
  assumes "host_inv x" "add_mset r (owned_permits x) \<subseteq># mset (hx_permits x)"
  shows "runs (on_registry (on_arena (capability_permit_drop r))) x (\<lambda>z y. z = Ok () \<and> quiet x y)"
proof -
  let ?s = "registry_view x"
  have a: "arena_inv (sy_arena ?s) (sy_permits ?s) (sy_releases ?s)" using host_invD(3) [OF assms(1)] by (simp add: capability_inv_def)
  have r: "r \<in> set (sy_permits ?s)" using assms(2) by (auto simp: registry_view_def dest: mset_subset_eq_insertD)
  obtain taken b where b: "drop_permit_locked r (sy_arena ?s) = (Ok taken, b)" using drop_section [OF a r] by auto
  let ?t = "note_taken r taken ((put_arena b ?s)\<lparr>sy_permits := remove1 r (sy_permits ?s)\<rparr>)"
  have own: "owned_permits x \<subseteq># mset (sy_permits ?t)"
    using assms(2) by (simp add: registry_view_def note_taken_def put_arena_def insert_subset_eq_iff)
  have one: "host_step x (with_view x ?t)" by (rule hx_registry_view [OF cap_drop [OF r b] own])
  have reg: "hx_host x = (hx_host x)\<lparr>ho_registry := sy_registry ?s\<rparr>" "sy_registry ?s = ho_registry (hx_host x)" by (simp_all add: registry_view_def)
  show ?thesis
  proof (cases taken)
    case None
    then show ?thesis
      using b one assms(1)
      by (intro runs_step [OF one assms(1)])
        (simp_all add: on_registry_def on_arena_def lift_action_def capability_permit_drop_def bind_action_def release_taken_def ret_def
          note_taken_def put_arena_def registry_view_def)
  next
    case (Some n)
    then have rel: "r \<in> set (sy_releases ?t)" by (auto simp: note_taken_def)
    let ?u = "(put_arena (snd (callback_released r (sy_arena ?t))) ?t)\<lparr>sy_releases := remove1 r (sy_releases ?t)\<rparr>"
    have two: "host_step (with_view x ?t) (with_view x ?u)"
      using hx_registry_view [of "with_view x ?t" ?u] cap_released [OF rel] own by (simp add: put_arena_def)
    have "host_step\<^sup>*\<^sup>* x (with_view x ?u)" using one two by auto
    then show ?thesis
      using b Some host_steps_inv [OF _ assms(1)]
      unfolding runs_def by (intro exI [of _ "with_view x ?u"])
        (simp add: on_registry_def on_arena_def lift_action_def capability_permit_drop_def bind_action_def release_taken_def
          note_taken_def put_arena_def registry_view_def callback_released_def write_state_def)
  qed
qed

lemma environment_run:
  assumes "host_inv x" "m (hx_host x) = (r, (hx_host x)\<lparr>ho_ledgers := ls\<rparr>)" "P r (x\<lparr>hx_host := (hx_host x)\<lparr>ho_ledgers := ls\<rparr>\<rparr>)"
  shows "runs m x P"
  by (rule runs_step [OF hx_environment [where x = x and cs = "ho_controls (hx_host x)" and ls = ls and ps = "ho_permissions (hx_host x)"] assms(1)]) (use assms(2,3) in simp_all)

lemma attempt_run:
  assumes "host_inv x" "\<And>l k. \<not> is_panic (fst (f l k))"
  shows "runs (on_attempt f d attempt) x (quietly x)"
proof -
  obtain ls where ls: "snd (on_attempt f d attempt (hx_host x)) = (hx_host x)\<lparr>ho_ledgers := ls\<rparr>" using frame_attempt_eq [of f d attempt "hx_host x"] by blast
  have "\<not> is_panic (fst (on_attempt f d attempt (hx_host x)))" using assms(2) by (auto simp: on_attempt_def case_prod_beta split: option.split)
  then show ?thesis
    using ls by (intro environment_run [OF assms(1), of _ "fst (on_attempt f d attempt (hx_host x))" ls])
      (simp_all add: prod_eq_iff quietly_def quiet_def)
qed

lemma attempt_unit_run:
  assumes "host_inv x"
  shows "runs (on_attempt (\<lambda>l k. (Ok (), f l k)) () attempt) x (\<lambda>z y. z = Ok () \<and> quiet x y)"
proof -
  have "fst (on_attempt (\<lambda>l k. (Ok (), f l k)) () attempt (hx_host x)) = Ok ()" by (auto simp: on_attempt_def split: option.split)
  then show ?thesis
    using attempt_run [OF assms, of "\<lambda>l k. (Ok (), f l k)" "()" attempt] unfolding runs_def quietly_def by auto
qed

lemma drop_prepared_run:
  assumes "host_inv x" "add_mset (pp_entry p) (owned_permits x) \<subseteq># mset (hx_permits x)"
  shows "runs (drop_prepared p) x (\<lambda>z y. z = Ok () \<and> quiet x y)"
  unfolding drop_prepared_def drop_effect_def
  by (rule runs_bind [OF permit_drop_run [OF assms]]) (auto intro: quiet_trans runs_mono [OF attempt_unit_run])

section \<open>Settling a request\<close>

lemma owned_live: "host_inv x \<Longrightarrow> owned_permits x \<subseteq># mset (hx_permits x)"
  using host_invD(2) by (simp add: broker_inv_def ownership_ok_def owned_permits_def)

definition task_done :: "host_system \<Rightarrow> host_task list \<Rightarrow> host_system \<Rightarrow> bool" where
  "task_done x ts y \<longleftrightarrow> hx_tasks y = ts \<and> hx_delivered y = hx_delivered x \<and> hx_claimed y = hx_claimed x"

lemma publish_run:
  assumes "host_inv x" "hx_tasks x = Publishing i out # ts"
  shows "runs (publish_section i out) x (\<lambda>z y. z = Ok () \<and> task_done x ts y)"
proof -
  obtain z h where z: "publish_section i out (hx_host x) = (z, h)" by fastforce
  have t: "Publishing i out \<in> set (hx_tasks x)" using assms(2) by simp
  show ?thesis
    by (rule runs_step [OF hx_publish [OF t z] assms(1)]) (use z step_publish [OF assms(1) t z] assms(2) in \<open>simp_all add: task_done_def\<close>)
qed

text \<open>A thread that owns the call of a request drops it and publishes the outcome.\<close>

lemma settle_run:
  assumes "host_inv x" "hx_tasks x = t # ts" "task_id t = Some i" "task_prepared t = Some p"
    and "host_step x (x\<lparr>hx_tasks := Publishing i out # ts\<rparr>)"
  shows "runs (bind_action (drop_prepared p) (\<lambda>_. publish_section i out)) x (\<lambda>z y. z = Ok () \<and> task_done x ts y)"
proof -
  let ?x = "x\<lparr>hx_tasks := Publishing i out # ts\<rparr>"
  have inv: "host_inv ?x" by (rule host_step_inv [OF assms(5,1)])
  have "add_mset (pp_entry p) (owned_permits ?x) \<subseteq># mset (hx_permits ?x)"
    using owned_live [OF assms(1)] assms(2,4) by (simp add: owned_permits_def)
  from drop_prepared_run [OF inv this]
  have "runs (bind_action (drop_prepared p) (\<lambda>_. publish_section i out)) ?x (\<lambda>z y. z = Ok () \<and> task_done x ts y)"
  proof (rule runs_bind)
    fix a y assume "host_inv y" "Ok a = Ok () \<and> quiet ?x y"
    then show "runs (publish_section i out) y (\<lambda>z y. z = Ok () \<and> task_done x ts y)"
      by (intro runs_mono [OF publish_run [of y i out ts]]) (auto simp: quiet_def task_done_def)
  qed auto
  then show ?thesis by (rule runs_after [rotated 2]) (use assms(5) in auto)
qed

lemma cancel_run:
  assumes "host_inv x"
  shows "runs (broker_cancel i e) x (quietly x)"
proof -
  obtain z h where z: "cancel_section i e (hx_host x) = (z, h)" by fastforce
  let ?x = "x\<lparr>hx_host := h, hx_tasks := (case z of Ok (Some p) \<Rightarrow> Cancelling i p # hx_tasks x | _ \<Rightarrow> hx_tasks x)\<rparr>"
  have quiet: "\<not> is_panic z"
    using z cancel_section_result [OF host_invD(1) [OF assms], of i e] by (auto simp: Let_def split: option.splits if_splits)
  have "runs (cancel_section i e) x (\<lambda>r y. r = z \<and> y = ?x)"
    by (rule runs_step [OF hx_cancel [OF z] assms]) (use z in simp_all)
  then show ?thesis
    unfolding broker_cancel_def
  proof (rule runs_bind)
    fix taken y assume y: "host_inv y" "Ok taken = z \<and> y = ?x"
    show "runs (case taken of None \<Rightarrow> ret () | Some p \<Rightarrow> bind_action (drop_prepared p) (\<lambda>_. publish_section i cancelled_before_dispatch)) y (quietly x)"
    proof (cases taken)
      case None
      then have "quiet x y" using y(2) by (auto simp: quiet_def)
      then show ?thesis using y(1) None by (intro runs_read) (auto simp: quietly_def ret_def)
    next
      case (Some p)
      then have t: "hx_tasks y = Cancelling i p # hx_tasks x" using y(2) by auto
      have "runs (bind_action (drop_prepared p) (\<lambda>_. publish_section i cancelled_before_dispatch)) y (\<lambda>z u. z = Ok () \<and> task_done y (hx_tasks x) u)"
        by (rule settle_run [OF y(1) t]) (use hx_cancelled [of i p y] t in simp_all)
      then show ?thesis using Some y(2) by (auto simp: task_done_def quietly_def quiet_def elim!: runs_mono)
    qed
  qed (use quiet in \<open>auto simp: quietly_def quiet_def\<close>)
qed

lemma put_back_run:
  assumes "host_inv x" "hx_tasks x = t # ts" "task_id t = Some i" "task_prepared t = Some p"
    and "\<And>r h. put_completion i p out (hx_host x) = (r, h) \<Longrightarrow> host_step x (x\<lparr>hx_host := h, hx_tasks := ts\<rparr>)"
  shows "runs (put_back i p out) x (\<lambda>z y. z = Ok () \<and> task_done x ts y)"
proof -
  obtain r where r: "bt_get (bk_records (hx_broker x)) i = Some r"
    using task_record [OF broker_invD(3) [OF host_invD(2) [OF assms(1)]], of t i] assms(2,3) by auto
  obtain h where h: "put_completion i p out (hx_host x) = (Ok (), h)"
    using put_completion_result [OF host_invD(1) [OF assms(1)], of i p out] r by auto
  show ?thesis
    by (rule runs_step [OF assms(5) [OF h] assms(1)]) (simp_all add: put_back_def on_error_def h task_done_def)
qed

lemma drive_run:
  assumes "host_inv x" "\<not> is_panic answer"
  shows "runs (broker_drive_completion clk answer i) x (quietly x)"
proof -
  obtain z h where z: "take_completion i (hx_host x) = (z, h)" by fastforce
  let ?x = "x\<lparr>hx_host := h, hx_tasks := (case z of Ok (Some (p, out)) \<Rightarrow> Driving i p out # hx_tasks x | _ \<Rightarrow> hx_tasks x)\<rparr>"
  have quiet: "\<not> is_panic z"
    using z take_completion_result [OF host_invD(1) [OF assms(1)] broker_invD(3) [OF host_invD(2) [OF assms(1)]], of i]
    by (auto split: option.splits host_request_phase.splits)
  have "runs (take_completion i) x (\<lambda>r y. r = z \<and> y = ?x)"
    by (rule runs_step [OF hx_drive [OF z] assms(1)]) (use z in simp_all)
  then show ?thesis
    unfolding broker_drive_completion_def
  proof (rule runs_bind)
    fix taken y assume y: "host_inv y" "Ok taken = z \<and> y = ?x"
    show "runs (case taken of None \<Rightarrow> ret () | Some (p, outcome) \<Rightarrow>
         bind_action (read_state (\<lambda>h. (checkpoint_answer h (pp_effect p) answer, authorize (clk 0) (clk 1) (pp_invocation p) h))) (\<lambda>(progress, auth).
         if progress = Ok True
         then bind_action (drop_prepared p) (\<lambda>_. publish_section i (override_result auth outcome))
         else bind_action (put_back i p outcome) (\<lambda>_. from_result (and_then progress (\<lambda>_. Ok ()))))) y (quietly x)"
    proof (cases taken)
      case None
      then have "quiet x y" using y(2) by (auto simp: quiet_def)
      then show ?thesis using y(1) None by (intro runs_read) (auto simp: quietly_def ret_def)
    next
      case (Some w)
      obtain p out where w: "w = (p, out)" by fastforce
      then have t: "hx_tasks y = Driving i p out # hx_tasks x" using y(2) Some by auto
      let ?g = "checkpoint_answer (hx_host y) (pp_effect p) answer" and ?auth = "authorize (clk 0) (clk 1) (pp_invocation p) (hx_host y)"
      have g: "\<not> is_panic ?g" using assms(2) by (auto simp: checkpoint_answer_def split: option.split)
      have "runs (if ?g = Ok True then bind_action (drop_prepared p) (\<lambda>_. publish_section i (override_result ?auth out))
         else bind_action (put_back i p out) (\<lambda>_. from_result (and_then ?g (\<lambda>_. Ok ())))) y (quietly x)"
      proof (cases "?g = Ok True")
        case True
        have "runs (bind_action (drop_prepared p) (\<lambda>_. publish_section i (override_result ?auth out))) y (\<lambda>z u. z = Ok () \<and> task_done y (hx_tasks x) u)"
          by (rule settle_run [OF y(1) t]) (use hx_settled [of i p out y ?auth] t in simp_all)
        then show ?thesis using True y(2) by (auto simp: task_done_def quietly_def quiet_def elim!: runs_mono)
      next
        case False
        have "runs (put_back i p out) y (\<lambda>z u. z = Ok () \<and> task_done y (hx_tasks x) u)"
          by (rule put_back_run [OF y(1) t]) (use hx_unsettled [of i p out y] t in auto)
        then have "runs (bind_action (put_back i p out) (\<lambda>_. from_result (and_then ?g (\<lambda>_. Ok ())))) y (quietly x)"
        proof (rule runs_bind)
          fix a u assume u: "host_inv u" "Ok a = Ok () \<and> task_done y (hx_tasks x) u"
          then show "runs (from_result (and_then ?g (\<lambda>_. Ok ()))) u (quietly x)"
            using y(2) g by (intro runs_read) (auto simp: from_result_def quietly_def quiet_def task_done_def)
        qed auto
        then show ?thesis using False by simp
      qed
      then show ?thesis by (simp add: Some w runs_reads split: if_splits)
    qed
  qed (use quiet in \<open>auto simp: quietly_def quiet_def\<close>)
qed

section \<open>Completing a request\<close>

lemma locked_reads:
  assumes "broker_healthy h" "snd (m h) = h" "\<not> is_panic (fst (m h))"
  shows "snd (locked m h) = h" "\<not> is_panic (fst (locked m h))"
  using assms by (auto simp: locked_def recovering_def split: prod.splits outcome.splits)

lemma found_reads:
  assumes "\<And>r. snd (k r h) = h" "\<And>r. \<not> is_panic (fst (k r h))"
  shows "snd (bind_action (try_read (\<lambda>h. ok_or (unknown_request (broker_guard h) i) (bt_get (bk_records (broker_guard h)) i))) k h) = h"
    "\<not> is_panic (fst (bind_action (try_read (\<lambda>h. ok_or (unknown_request (broker_guard h) i) (bt_get (bk_records (broker_guard h)) i))) k h))"
  using assms by (cases "bt_get (bk_records (broker_guard h)) i"; simp add: bind_action_def try_read_def)+

text \<open>A section that looks up a request and only reads.\<close>

lemma lookup_run:
  assumes "host_inv x" "\<And>r. snd (k r (hx_host x)) = hx_host x" "\<And>r. \<not> is_panic (fst (k r (hx_host x)))"
  shows "runs (locked (bind_action (try_read (\<lambda>h. ok_or (unknown_request (broker_guard h) i) (bt_get (bk_records (broker_guard h)) i))) k)) x (quietly x)"
  by (intro quietly_read [OF assms(1)] locked_reads [OF host_invD(1) [OF assms(1)]] found_reads assms(2,3))

lemma refresh_run:
  assumes "host_inv x" "\<not> is_panic answer"
  shows "runs (broker_refresh clks answer i) x (quietly x)"
  unfolding broker_refresh_def
proof (rule quietly_bind [OF drive_run [OF assms]])
  fix a y assume y: "host_inv y" "quiet x y"
  show "runs (bind_action (refresh_check (clks 1) i) (\<lambda>err. case err of None \<Rightarrow> ret () | Some e \<Rightarrow> broker_cancel i e)) y (quietly y)"
  proof (rule quietly_bind)
    show "runs (refresh_check (clks 1) i) y (quietly y)"
      unfolding refresh_check_def by (rule lookup_run [OF y(1)]) (auto simp: ret_def read_state_def split: option.split)
    show "runs (case err of None \<Rightarrow> ret () | Some e \<Rightarrow> broker_cancel i e) u (quietly u)" if "host_inv u" for err u
      using that cancel_run by (auto split: option.split)
  qed
qed

lemma claim_run:
  assumes "host_inv x"
  shows "runs (claim_section i) x (\<lambda>z y. \<not> is_panic z \<and>
    (case z of Ok p \<Rightarrow> hx_tasks y = Claimed i p out # hx_tasks x \<and> hx_delivered y = hx_delivered x \<and> hx_claimed y = hx_claimed x @ [i] | _ \<Rightarrow> quiet x y))"
proof -
  obtain z h where z: "claim_section i (hx_host x) = (z, h)" by fastforce
  have "\<not> is_panic z"
    using z claim_section_result [OF host_invD(1) [OF assms], of i] by (auto simp: not_panic_iff split: option.splits host_request_phase.splits)
  then show ?thesis
    by (intro runs_step [OF hx_claim [OF z, of out] assms]) (auto simp: z quiet_def split: outcome.split)
qed

text \<open>\<open>complete\<close> claims the request once; it returns an error or goes on to settle the request.\<close>

definition claims_once :: "host_system \<Rightarrow> string \<Rightarrow> 'a embedded_result \<Rightarrow> host_system \<Rightarrow> bool" where
  "claims_once x i z y \<longleftrightarrow> \<not> is_panic z \<and> hx_tasks y = hx_tasks x \<and> hx_delivered y = hx_delivered x \<and>
     (hx_claimed y = hx_claimed x @ [i] \<or> \<not> is_ok z \<and> hx_claimed y = hx_claimed x)"

lemma complete_run:
  assumes "host_inv x" "\<not> is_panic answer" "\<not> is_panic answer'"
  shows "runs (broker_complete env clks answer answer' i out) x (claims_once x i)"
  unfolding broker_complete_def
proof (rule runs_bind [OF refresh_run [OF assms(1,2)]])
  fix u :: unit and y assume y: "host_inv y" "quietly x (Ok u) y"
  let ?put = "\<lambda>p validated. bind_action (put_back i p validated) (\<lambda>_. broker_drive_completion (clks 3) answer' i)"
  let ?validated = "\<lambda>p h. override_result (authorize (clks 2 0) (clks 2 1) (pp_invocation p) h)
       (validate_outcome (env_schemas env) (env_value env) (env_error env) (prepared_entry h p) out)"
  show "runs (bind_action (claim_section i) (\<lambda>p. bind_action (observe_effect (pp_effect p) (co_effects out)) (\<lambda>_.
     bind_action (read_state (?validated p)) (?put p)))) y (claims_once x i)"
  proof (rule runs_bind [OF claim_run [OF y(1), of i out]])
    fix p z assume z: "host_inv z" "\<not> is_panic (Ok p :: prepared_capability embedded_result) \<and>
      (case (Ok p :: prepared_capability embedded_result) of Ok p \<Rightarrow> hx_tasks z = Claimed i p out # hx_tasks y \<and> hx_delivered z = hx_delivered y \<and> hx_claimed z = hx_claimed y @ [i] | _ \<Rightarrow> quiet y z)"
    have "runs (observe_effect (pp_effect p) (co_effects out)) z (\<lambda>r w. r = Ok () \<and> quiet z w)"
      unfolding observe_effect_def by (rule attempt_unit_run [OF z(1)])
    then show "runs (bind_action (observe_effect (pp_effect p) (co_effects out)) (\<lambda>_. bind_action (read_state (?validated p)) (?put p))) z (claims_once x i)"
    proof (rule runs_bind)
      fix b :: unit and w assume w: "host_inv w" "Ok b = Ok () \<and> quiet z w"
      then have t: "hx_tasks w = Claimed i p out # hx_tasks x" "hx_delivered w = hx_delivered x" "hx_claimed w = hx_claimed x @ [i]"
        using z(2) y(2) by (auto simp: quietly_def quiet_def)
      have "runs (put_back i p (?validated p (hx_host w))) w (\<lambda>z u. z = Ok () \<and> task_done w (hx_tasks x) u)"
        by (rule put_back_run [OF w(1) t(1)]) (use hx_validated [of i p out w] t(1) in auto)
      then have "runs (?put p (?validated p (hx_host w))) w (claims_once x i)"
      proof (rule runs_bind)
        fix c v assume v: "host_inv v" "Ok c = Ok () \<and> task_done w (hx_tasks x) v"
        then show "runs (broker_drive_completion (clks 3) answer' i) v (claims_once x i)"
          using t by (intro runs_mono [OF drive_run [OF v(1) assms(3)]]) (auto simp: quietly_def quiet_def task_done_def claims_once_def)
      qed auto
      then show "runs (bind_action (read_state (?validated p)) (?put p)) w (claims_once x i)" by (simp add: runs_reads)
    qed auto
  qed (use y(2) in \<open>auto simp: quietly_def quiet_def claims_once_def\<close>)
qed (auto simp: quietly_def quiet_def claims_once_def)

section \<open>Delivering requests\<close>

lemma drive_all_run:
  assumes "host_inv x" "\<And>n. \<not> is_panic (answers n)"
  shows "runs (drive_all clks answers is) x (quietly x)"
  using assms
proof (induction "is" arbitrary: x clks answers)
  case (Cons i "is")
  show ?case
    unfolding drive_all.simps by (rule quietly_bind [OF drive_run [OF Cons.prems]]) (use Cons in simp)
qed simp

lemma locked_read_run: "host_inv x \<Longrightarrow> runs (locked (read_broker f)) x (quietly x)"
  using host_invD(1) by (intro quietly_read locked_reads) (simp_all add: read_broker_def read_state_def)

lemma maintain_run:
  assumes "host_inv x" "\<And>n. \<not> is_panic (answers n)"
  shows "runs (maintain_completions clks answers) x (quietly x)"
  unfolding maintain_completions_def
  by (rule quietly_bind [OF locked_read_run [OF assms(1)]]) (use assms(2) in \<open>auto intro: drive_all_run\<close>)

definition delivers :: "host_system \<Rightarrow> host_request list \<Rightarrow> host_system \<Rightarrow> bool" where
  "delivers x qs y \<longleftrightarrow> hx_tasks y = hx_tasks x \<and> hx_claimed y = hx_claimed x \<and> hx_delivered y = hx_delivered x @ map hr_request_id qs"

lemma quiet_delivers: "quiet x y = delivers x [] y" "quiet x y \<Longrightarrow> delivers y qs z \<Longrightarrow> delivers x qs z"
  "delivers x qs y \<Longrightarrow> delivers y rs z \<Longrightarrow> delivers x (qs @ rs) z"
  by (auto simp: quiet_def delivers_def)

lemma take_next_run:
  assumes "host_inv x" "\<And>q. \<not> is_panic (prep q)" "\<And>n. \<not> is_panic (rd_start (rounds n))"
  shows "runs (take_next prep rounds) x (\<lambda>z y. \<not> is_panic z \<and> delivers x (case z of Ok (Some q) \<Rightarrow> [q] | _ \<Rightarrow> []) y)"
  using assms(1,3)
proof (induction "length (bk_ready (hx_broker x))" arbitrary: x rounds rule: less_induct)
  case less
  obtain z h where z: "take_section prep (rounds 0) (hx_host x) = (z, h)" by fastforce
  let ?x = "x\<lparr>hx_host := h, hx_delivered := (case z of Ok (Delivered q) \<Rightarrow> hx_delivered x @ [hr_request_id q] | _ \<Rightarrow> hx_delivered x)\<rparr>"
  have step: "host_step x ?x" by (rule hx_take [OF assms(2) less.prems(2) z])
  have inv: "host_inv ?x" by (rule host_step_inv [OF step less.prems(1)])
  have np: "\<not> is_panic z"
    using host_invD(1) [OF less.prems(1)] assms(2) less.prems(2) z by (rule take_section_result) auto
  note next_eq = take_next.simps [of prep rounds "hx_host x", unfolded z, simplified]
  let ?P = "\<lambda>z y. \<not> is_panic z \<and> delivers x (case z of Ok (Some q) \<Rightarrow> [q] | _ \<Rightarrow> []) y"
  have at: "runs (take_next prep rounds) x ?P" if "take_next prep rounds (hx_host x) = (r, h)" "?P r ?x" for r
    by (rule runs_step [OF step less.prems(1)]) (use that in simp_all)
  consider q where "z = Ok (Delivered q)" | "z = Ok NothingReady" | i e where "z = Ok (CancelFirst i e)" | e where "z = Err e"
    using np by (cases z) (auto elim: delivery.exhaust)
  then show ?case
  proof cases
    case 1
    then show ?thesis using next_eq by (intro at [of "Ok (Some q)"]) (simp_all add: delivers_def)
  next
    case 2
    then show ?thesis using next_eq by (intro at [of "Ok None"]) (simp_all add: delivers_def)
  next
    case 4
    then show ?thesis using next_eq by (intro at [of "Err e"]) (simp_all add: delivers_def)
  next
    case 3
    obtain y where y: "host_step\<^sup>*\<^sup>* ?x y" "host_inv y" "hx_host y = snd (broker_cancel i e h)" "quietly ?x (fst (broker_cancel i e h)) y"
      using cancel_run [OF inv, of i e] by (auto simp: runs_def)
    have xy: "host_step\<^sup>*\<^sup>* x y" "quiet x y" using step y(1,4) 3 by (auto simp: quietly_def quiet_def)
    show ?thesis
    proof (cases "fst (broker_cancel i e h)")
      case (Ok u)
      then have c: "broker_cancel i e h = (Ok u, hx_host y)" using y(3) by (metis prod.collapse)
      have "length (bk_ready (hx_broker y)) < length (bk_ready (hx_broker x))" using pass_shortens [OF _ c] z 3 by simp
      from less.hyps [OF this y(2), of "\<lambda>n. rounds (Suc n)"] less.prems(2)
      have "runs (take_next prep (\<lambda>n. rounds (Suc n))) y (\<lambda>z u. \<not> is_panic z \<and> delivers y (case z of Ok (Some q) \<Rightarrow> [q] | _ \<Rightarrow> []) u)" by simp
      moreover have "take_next prep rounds (hx_host x) = take_next prep (\<lambda>n. rounds (Suc n)) (hx_host y)" using next_eq 3 c by simp
      ultimately show ?thesis using xy unfolding runs_def by (auto intro: rtranclp_trans quiet_delivers(2))
    next
      case (Err e')
      then have "broker_cancel i e h = (Err e', hx_host y)" using y(3) by (metis prod.collapse)
      then have "take_next prep rounds (hx_host x) = (Err e', hx_host y)" using next_eq 3 by simp
      then show ?thesis using xy y(2) by (auto simp: runs_def quiet_delivers(1))
    next
      case (Panic p)
      then show ?thesis using y(4) by (simp add: quietly_def)
    qed
  qed
qed

lemma take_loop_run:
  assumes "host_inv x" "\<And>m n. \<not> is_panic (rd_start (rounds m n))"
  shows "runs (take_loop alloc rounds k taken) x (\<lambda>z y. \<not> is_panic z \<and>
    (\<exists>qs. length qs \<le> k \<and> delivers x qs y \<and> (z = Ok (taken @ qs) \<or> taken = [] \<and> qs = [] \<and> \<not> is_ok z)))"
  using assms(1)
proof (induction k arbitrary: x taken)
  case 0
  then show ?case by (intro runs_read) (auto simp: delivers_def)
next
  case (Suc k)
  let ?m = "take_next (\<lambda>_. if alloc (length taken) then Ok () else Err broker_capacity) (rounds (length taken))"
  let ?P = "\<lambda>z y. \<not> is_panic z \<and> (\<exists>qs. length qs \<le> Suc k \<and> delivers x qs y \<and> (z = Ok (taken @ qs) \<or> taken = [] \<and> qs = [] \<and> \<not> is_ok z))"
  have "runs ?m x (\<lambda>z y. \<not> is_panic z \<and> delivers x (case z of Ok (Some q) \<Rightarrow> [q] | _ \<Rightarrow> []) y)"
    by (rule take_next_run [OF Suc.prems]) (use assms(2) in auto)
  then obtain y where y: "host_step\<^sup>*\<^sup>* x y" "host_inv y" "hx_host y = snd (?m (hx_host x))" "\<not> is_panic (fst (?m (hx_host x)))"
    "delivers x (case fst (?m (hx_host x)) of Ok (Some q) \<Rightarrow> [q] | _ \<Rightarrow> []) y"
    unfolding runs_def by blast
  consider q where "?m (hx_host x) = (Ok (Some q), hx_host y)" | "?m (hx_host x) = (Ok None, hx_host y)" | e where "?m (hx_host x) = (Err e, hx_host y)"
  proof -
    have m: "?m (hx_host x) = (fst (?m (hx_host x)), hx_host y)" using y(3) by (metis prod.collapse)
    show thesis if t: "\<And>q. ?m (hx_host x) = (Ok (Some q), hx_host y) \<Longrightarrow> thesis" "?m (hx_host x) = (Ok None, hx_host y) \<Longrightarrow> thesis"
      "\<And>e. ?m (hx_host x) = (Err e, hx_host y) \<Longrightarrow> thesis" for thesis
      using m y(4) t by (cases "fst (?m (hx_host x))") (metis option.exhaust, metis, metis is_panic.simps(3))
  qed
  then show ?case
  proof cases
    case 1
    from Suc.IH [OF y(2), of "taken @ [q]"]
    have "runs (take_loop alloc rounds k (taken @ [q])) y (\<lambda>z u. ?P z u)"
    proof (rule runs_mono, elim conjE exE)
      fix r u qs
      assume "\<not> is_panic r" "length qs \<le> k" "delivers y qs u" "r = Ok ((taken @ [q]) @ qs) \<or> taken @ [q] = [] \<and> qs = [] \<and> \<not> is_ok r"
      then show "?P r u" using y(5) 1 quiet_delivers(3) [of x "[q]" y qs u] by (intro conjI exI [of _ "q # qs"]) auto
    qed
    moreover have "take_loop alloc rounds (Suc k) taken (hx_host x) = take_loop alloc rounds k (taken @ [q]) (hx_host y)" using 1 by simp
    ultimately show ?thesis using y(1) by (simp only: runs_def) (blast intro: rtranclp_trans)
  next
    case 2
    then have "take_loop alloc rounds (Suc k) taken (hx_host x) = (Ok taken, hx_host y)" by simp
    from runs_to [where P = ?P and m = "take_loop alloc rounds (Suc k) taken", OF y(1,2) this] show ?thesis using y(5) 2 by (simp del: take_loop.simps)
  next
    case 3
    then have "take_loop alloc rounds (Suc k) taken (hx_host x) = (if taken = [] then Err e else Ok taken, hx_host y)" by simp
    from runs_to [where P = ?P and m = "take_loop alloc rounds (Suc k) taken", OF y(1,2) this] show ?thesis using y(5) 3 by (simp del: take_loop.simps split: if_splits)
  qed
qed

lemma require_run: "host_inv x \<Longrightarrow> runs (require_state b e) x (quietly x)"
  by (rule quietly_read) (simp_all add: require_state_def)

lemma take_run:
  assumes "host_inv x" "\<And>n. \<not> is_panic (answers n)" "\<And>m n. \<not> is_panic (rd_start (rounds m n))"
  shows "runs (broker_take clks answers alloc rounds limit) x (\<lambda>z y. \<not> is_panic z \<and>
    (\<exists>qs. length qs \<le> limit \<and> delivers x qs y \<and> (z = Ok qs \<or> qs = [] \<and> \<not> is_ok z)))"
  unfolding broker_take_def
proof (rule runs_bind [OF require_run [OF assms(1)]])
  fix u :: unit and y assume y: "host_inv y" "quietly x (Ok u) y"
  show "runs (bind_action (maintain_completions clks answers) (\<lambda>_. take_loop alloc rounds limit [])) y
    (\<lambda>z y. \<not> is_panic z \<and> (\<exists>qs. length qs \<le> limit \<and> delivers x qs y \<and> (z = Ok qs \<or> qs = [] \<and> \<not> is_ok z)))"
  proof (rule runs_bind [OF maintain_run [OF y(1) assms(2)]])
    fix v :: unit and w assume w: "host_inv w" "quietly y (Ok v) w"
    have q: "quiet x w" using y(2) w(2) by (auto simp: quietly_def intro: quiet_trans)
    show "runs (take_loop alloc rounds limit []) w
      (\<lambda>z y. \<not> is_panic z \<and> (\<exists>qs. length qs \<le> limit \<and> delivers x qs y \<and> (z = Ok qs \<or> qs = [] \<and> \<not> is_ok z)))"
      by (rule runs_mono [OF take_loop_run [OF w(1) assms(3)]]) (use quiet_delivers(2) [OF q] in fastforce)
  qed (use y(2) in \<open>auto simp: quietly_def quiet_delivers(1) [symmetric] intro!: exI [of _ "[]"] intro: quiet_trans\<close>)
qed (auto simp: quietly_def quiet_delivers(1) intro!: exI [of _ "[]"])

section \<open>Submitting, retiring and closing\<close>

lemma submit_run:
  assumes "host_inv x" "hx_tasks x = Holding p # ts"
  shows "runs (broker_submit env ser now p) x (\<lambda>z y. \<not> is_panic z \<and> task_done x ts y)"
proof -
  obtain z h where z: "submit_section env ser now p (hx_host x) = (z, h)" by fastforce
  let ?x = "x\<lparr>hx_host := h, hx_tasks := (if is_ok z then remove1 (Holding p) (hx_tasks x) else hx_tasks x)\<rparr>"
  have step: "host_step x ?x" using hx_submit [OF _ z] assms(2) by simp
  have inv: "host_inv ?x" by (rule host_step_inv [OF step assms(1)])
  have np: "\<not> is_panic z" using host_invD(1) [OF assms(1)] z by (rule submit_section_result) auto
  show ?thesis
  proof (cases z)
    case (Ok i)
    then show ?thesis
      using z assms(2) by (intro runs_step [OF step assms(1), where r = "Ok i"]) (simp_all add: broker_submit_def on_error_def task_done_def)
  next
    case (Err e)
    let ?y = "?x\<lparr>hx_tasks := ts\<rparr>"
    have step': "host_step ?x ?y" using hx_discarded [of p ?x] Err assms(2) by simp
    have inv': "host_inv ?y" by (rule host_step_inv [OF step' inv])
    have "add_mset (pp_entry p) (owned_permits ?y) \<subseteq># mset (hx_permits ?y)"
      using owned_live [OF inv] Err assms(2) by (simp add: owned_permits_def)
    from drop_prepared_run [OF inv' this] obtain u where u: "host_step\<^sup>*\<^sup>* ?y u" "host_inv u" "hx_host u = snd (drop_prepared p h)" "quiet ?y u"
      by (auto simp: runs_def)
    have "broker_submit env ser now p (hx_host x) = (Err e, hx_host u)" by (simp add: broker_submit_def on_error_def z Err u(3))
    moreover have "host_step\<^sup>*\<^sup>* x u" using step step' u(1) by (meson converse_rtranclp_into_rtranclp)
    ultimately show ?thesis using u(2,4) by (auto simp: runs_def task_done_def quiet_def)
  qed (use np in simp)
qed

lemma cancel_each_run:
  assumes "host_inv x"
  shows "runs (cancel_each tolerate e is) x (quietly x)"
  using assms
proof (induction "is" arbitrary: x)
  case (Cons i "is")
  obtain y where y: "host_step\<^sup>*\<^sup>* x y" "host_inv y" "hx_host y = snd (broker_cancel i e (hx_host x))" "quietly x (fst (broker_cancel i e (hx_host x))) y"
    using cancel_run [OF Cons.prems, of i e] by (auto simp: runs_def)
  obtain u where u: "host_step\<^sup>*\<^sup>* y u" "host_inv u" "hx_host u = snd (cancel_each tolerate e is (hx_host y))" "quietly y (fst (cancel_each tolerate e is (hx_host y))) u"
    using Cons.IH [OF y(2)] by (auto simp: runs_def)
  have xu: "host_step\<^sup>*\<^sup>* x u" using y(1) u(1) by simp
  obtain r h where r: "broker_cancel i e (hx_host x) = (r, h)" by fastforce
  show ?case
    using y(1-4) u(2-4) xu unfolding runs_def
    by (cases r) (auto simp: r quietly_def intro: quiet_trans)
qed simp

lemma retire_run: "host_inv x \<Longrightarrow> runs (retire_registration i) x (quietly x)"
  unfolding retire_registration_def by (rule quietly_bind [OF locked_read_run]) (auto intro: cancel_each_run)

lemma close_run:
  assumes "host_inv x"
  shows "runs broker_close x (quietly x)"
  unfolding broker_close_def
proof (rule quietly_bind)
  obtain z h where z: "close_section (hx_host x) = (z, h)" by fastforce
  have "\<not> is_panic z" using close_section_result [OF host_invD(1) [OF assms]] z by auto
  then show "runs close_section x (quietly x)"
    by (intro runs_step [OF hx_close [OF z] assms]) (simp_all add: z quietly_def quiet_def)
qed (rule cancel_each_run)

lemma handle_drop_run:
  assumes "host_inv x"
  shows "runs (handle_drop i) x (quietly x)"
proof -
  obtain z h where z: "abandon_section i (hx_host x) = (z, h)" by fastforce
  let ?x = "x\<lparr>hx_host := h\<rparr>"
  have step: "host_step x ?x" by (rule hx_abandon [OF z])
  have inv: "host_inv ?x" and np: "\<not> is_panic z" using step_abandon [OF assms z] by simp_all
  obtain y where y: "host_step\<^sup>*\<^sup>* ?x y" "host_inv y" "hx_host y = snd (request_handle_cancel i h)" "quietly ?x (fst (request_handle_cancel i h)) y"
    using cancel_run [OF inv, of i] by (auto simp: runs_def request_handle_cancel_def)
  have xy: "host_step\<^sup>*\<^sup>* x y" "quiet x y" using step y(1,4) by (auto simp: quietly_def quiet_def)
  consider "z = Ok True" | "z = Ok False" | e where "z = Err e" using np by (cases z) auto
  then show ?thesis
  proof cases
    case 1
    then show ?thesis
      by (intro runs_step [OF step assms, where r = "Ok ()"]) (simp_all add: handle_drop_def z quietly_def quiet_def)
  next
    case 2
    have "handle_drop i (hx_host x) = (Ok (), hx_host y)"
      using y(3,4) by (cases "request_handle_cancel i h"; cases "fst (request_handle_cancel i h)") (auto simp: handle_drop_def z 2 quietly_def)
    then show ?thesis using xy y(2) by (auto simp: runs_def quietly_def)
  next
    case 3
    then show ?thesis
      by (intro runs_step [OF step assms, where r = "Err e"]) (simp_all add: handle_drop_def z quietly_def quiet_def)
  qed
qed

end
