(* ===== verification/Host_Theorems.thy ===== *)
theory Host_Theorems
  imports Host_Runs
begin

text \<open>The properties of the host request broker under every interleaving of its critical sections.\<close>

section \<open>Passes of the delivery loop\<close>

lemma take_next_passes:
  assumes "\<And>n. n \<le> length (bk_ready (broker_guard h)) \<Longrightarrow> rounds n = rounds' n"
  shows "take_next prep rounds h = take_next prep rounds' h"
  using assms
proof (induction "length (bk_ready (broker_guard h))" arbitrary: h rounds rounds' rule: less_induct)
  case less
  obtain z h' where z: "take_section prep (rounds 0) h = (z, h')" by fastforce
  have 0: "rounds' 0 = rounds 0" using less.prems [of 0] by simp
  show ?case
  proof (cases "\<exists>i e u h''. z = Ok (CancelFirst i e) \<and> broker_cancel i e h' = (Ok u, h'')")
    case True
    then obtain i e u h'' where c: "z = Ok (CancelFirst i e)" "broker_cancel i e h' = (Ok u, h'')" by blast
    have "length (bk_ready (broker_guard h'')) < length (bk_ready (broker_guard h))" using pass_shortens [OF _ c(2)] z c(1) by simp
    then have "take_next prep (\<lambda>n. rounds (Suc n)) h'' = take_next prep (\<lambda>n. rounds' (Suc n)) h''" by (intro less) (auto intro: less.prems)
    then show ?thesis using z c 0 by (simp add: take_next.simps [of prep _ h])
  next
    case False
    then show ?thesis
      by (auto simp: take_next.simps [of prep _ h] 0 z split: outcome.split delivery.split prod.split)
  qed
qed

text \<open>A delivered request has passed the preparation.\<close>

lemma take_section_prepared:
  assumes "take_section prep rd h = (Ok (Delivered q), h')"
  shows "prep q = Ok ()"
proof -
  have "post (take_section prep rd) (\<lambda>r t. r = Ok (Delivered q) \<longrightarrow> prep q = Ok ()) h"
    unfolding take_section_def deliver_front_def
    by (auto simp: post_simps post_locked post_cancel_unless split: list.splits outcome.splits) (auto simp: post_def split: outcome.splits)
  then show ?thesis using assms by (simp add: post_def)
qed

lemma take_next_prepared: "take_next prep rounds h = (Ok (Some q), h') \<Longrightarrow> prep q = Ok ()"
proof (induction prep rounds h rule: take_next.induct)
  case (1 prep rounds h)
  obtain z t where z: "take_section prep (rounds 0) h = (z, t)" by fastforce
  show ?case
  proof (cases "\<exists>i e u w. z = Ok (CancelFirst i e) \<and> broker_cancel i e t = (Ok u, w)")
    case True
    then show ?thesis using 1 z by (auto simp: take_next.simps [of prep rounds h])
  next
    case False
    then show ?thesis
      using 1(2) z take_section_prepared [of prep "rounds 0" h q h']
      by (auto simp: take_next.simps [of prep rounds h] split: outcome.splits delivery.splits prod.splits)
  qed
qed

section \<open>The JSON batch\<close>

fun json_elements :: "string list \<Rightarrow> string" where
  "json_elements [] = []"
| "json_elements (s # ss) = (case ss of [] \<Rightarrow> s | _ \<Rightarrow> s @ '','' @ json_elements ss)"

lemma json_elements_snoc: "json_elements (ss @ [s]) = json_elements ss @ (if ss = [] then [] else '','') @ s"
proof (induction ss)
  case (Cons t ss)
  then show ?case by (cases ss) simp_all
qed simp

definition encoded :: "(host_request \<Rightarrow> string option) \<Rightarrow> host_request list \<Rightarrow> string" where
  "encoded encode qs = ''['' @ json_elements (map (\<lambda>q. case encode q of None \<Rightarrow> [] | Some b \<Rightarrow> b) qs)"

lemma take_json_loop_bound:
  assumes ser: "\<And>q b. encode q = Some b \<Longrightarrow> length b = ser_length (ser q) \<and> b \<noteq> []"
    and "take_json_loop ser encode alloc rounds max_bytes n (length qs) (encoded encode qs) h = (Ok out, h')"
    and "length (encoded encode qs) < max_bytes"
  shows "\<exists>rs. length rs \<le> n \<and> out = encoded encode (qs @ rs) @ '']'' \<and> length out \<le> max_bytes \<and> (\<forall>r \<in> set rs. encode r \<noteq> None)"
  using assms(2,3)
proof (induction n arbitrary: qs h)
  case 0
  then show ?case by auto
next
  case (Suc n)
  let ?sep = "if length qs \<noteq> 0 then '','' else []"
  let ?room = "saturating_sub max_bytes (length (encoded encode qs) + length ?sep + 1)"
  let ?m = "take_next (json_prepare ser encode (alloc (length qs)) ?room) (rounds (length qs)) h"
  show ?case
  proof (cases "\<exists>q t. ?m = (Ok (Some q), t)")
    case True
    then obtain q t where q: "?m = (Ok (Some q), t)" by blast
    note prep = take_next_prepared [OF q]
    obtain b where b: "encode q = Some b" "ser_length (ser q) \<le> ?room"
      using prep by (cases "encode q") (auto simp: json_prepare_def json_size_eq split: if_splits)
    note len = ser [OF b(1)]
    have next_out: "encoded encode qs @ ?sep @ b = encoded encode (qs @ [q])" using b(1) by (simp add: encoded_def json_elements_snoc)
    have "length (encoded encode qs @ ?sep @ b) < max_bytes"
      using len b(2) by (cases b) (auto simp: saturating_sub_def)
    moreover have "take_json_loop ser encode alloc rounds max_bytes n (length (qs @ [q])) (encoded encode (qs @ [q])) t = (Ok out, h')"
      using Suc.prems(1) q b(1) unfolding next_out [symmetric] by (simp add: Let_def)
    ultimately obtain rs where "length rs \<le> n" "out = encoded encode ((qs @ [q]) @ rs) @ '']''" "length out \<le> max_bytes" "\<forall>r \<in> set rs. encode r \<noteq> None"
      using Suc.IH [of "qs @ [q]" t] unfolding next_out by blast
    then show ?thesis using b(1) by (intro exI [of _ "q # rs"]) auto
  next
    case False
    then have "out = encoded encode qs @ '']''"
      using Suc.prems(1) by (auto simp: Let_def split: prod.splits outcome.splits option.splits if_splits)
    then show ?thesis using Suc.prems(2) by (intro exI [of _ "[]"]) auto
  qed
qed

section \<open>Reachable states\<close>

lemma reachable_runs: "host_step\<^sup>*\<^sup>* x y \<Longrightarrow> host_reachable config x \<Longrightarrow> host_reachable config y"
  by (induction rule: rtranclp_induct) (auto intro: hx_next)

lemma host_reachableD:
  assumes "host_reachable config x"
  shows "host_inv x" "hb_max_records (ho_broker (hx_host x)) = max_host_requests config"
    "hb_max_bytes (ho_broker (hx_host x)) = max_host_request_bytes config"
    "hx_inv x (hx_tasks x) (hx_delivered x) (hx_claimed x) (hx_published x) (hx_broker x)"
  using host_reachable_inv [OF assms] host_invD(2) [of x] by simp_all

text \<open>The permits the requests of an entry own are live permits of that entry.\<close>

lemma count_owned_by_records:
  "count (owned_by_records rs) r = length (filter (\<lambda>e. map_option pp_entry (rq_prepared (snd e)) = Some r) rs)"
  by (induction rs) (auto simp: option_mset_def split: option.split)

lemma requests_within_running:
  assumes "host_inv x" "r < length (ca_entries (cr_arena (ho_registry (hx_host x))))"
  shows "length (filter (\<lambda>e. map_option pp_entry (rq_prepared (snd e)) = Some r) (bk_records (hx_broker x))) \<le>
    es_running (entry_guard (cr_arena (ho_registry (hx_host x))) r)"
proof -
  have "count (owned_by_records (bk_records (hx_broker x))) r \<le> count (mset (hx_permits x)) r"
    using owned_live [OF assms(1)] mset_subset_eq_count [of "owned_permits x" "mset (hx_permits x)" r] by (simp add: owned_permits_def)
  moreover have "es_running (entry_guard (cr_arena (ho_registry (hx_host x))) r) = count_list (hx_permits x) r"
    using entries_okD(4) [OF arena_invD(4)] host_invD(3) [OF assms(1)] assms(2)
    by (fastforce simp: capability_inv_def registry_view_def entry_ok_def Let_def)
  ultimately show ?thesis by (simp add: count_owned_by_records count_mset count_list_eq_length_filter)
qed

section \<open>A concrete run\<close>

text \<open>One queued capability: registered, called, submitted, delivered and claimed.\<close>

definition demo_host_config :: embedded_runtime_config where
  "demo_host_config = demo_capability_config\<lparr>max_host_request_bytes := 100\<rparr>"

definition demo_queued_entry :: "usize \<Rightarrow> capability_entry" where
  "demo_queued_entry n = \<lparr>en_id = ''r:cap:1'', en_descriptor = demo_descriptor Queued, en_input = VBool True, en_output = VBool True,
     en_state = mutex_new (demo_entry_state True n False None)\<rparr>"

definition demo_queued_registry :: "registry_state \<Rightarrow> usize \<Rightarrow> capability_entry list \<Rightarrow> capability_registry" where
  "demo_queued_registry st n es =
     \<lparr>cr_broker = 0, cr_runtime_id = ''r'', cr_config = demo_host_config, cr_state = mutex_new st,
      cr_arena = \<lparr>ca_limit = 1, ca_running = mutex_new n, ca_entries = es\<rparr>\<rparr>"

definition demo_control :: call_control where
  "demo_control = \<lparr>ctl_host_wait_enabled = False, ctl_host_wait_ns = 0, ctl_host_wait_calls = 0, ctl_effects = mutex_new Untracked,
     ctl_deadline = 1000, ctl_cancelled = False\<rparr>"

definition demo_caller :: capability_caller where
  "demo_caller = \<lparr>cc_runtime_id = ''r'', cc_plugin_id = ''p'', cc_package_generation = ''g'', cc_execution_revision = ''e'',
     cc_security_partition = ''s'', cc_operation_id = ''o'', cc_request_id = None, cc_session_id = None, cc_workspace_root = None\<rparr>"

definition demo_call :: prepared_capability where
  "demo_call = \<lparr>pp_finalization = False, pp_entry = 0,
     pp_invocation = \<lparr>iv_effect_id = None, iv_caller = demo_caller, iv_arguments = VNull, iv_control = 0, iv_deadline = 500, iv_permissions = 0,
       iv_required = []\<rparr>,
     pp_native = None, pp_effect = None\<rparr>"

definition demo_host_ser :: "host_request \<Rightarrow> serialization" where
  "demo_host_ser q = \<lparr>ser_chunks = [3], ser_failed = False\<rparr>"

definition demo_request_record :: "host_request_phase \<Rightarrow> prepared_capability option \<Rightarrow> request_record" where
  "demo_request_record phase prepared =
     \<lparr>rq_pending_outcome = None, rq_request = request_of 0 (demo_queued_entry 1) demo_call demo_control ''r:host:1'', rq_prepared = prepared,
      rq_outcome = None, rq_phase = phase, rq_cancellation = None, rq_waiter_alive = True, rq_bytes = 13\<rparr>"

definition demo_host :: "capability_registry \<Rightarrow> broker_state \<Rightarrow> ledger_store \<Rightarrow> capability_host" where
  "demo_host g st ls =
     \<lparr>ho_registry = g, ho_broker = \<lparr>hb_runtime_id = ''r'', hb_max_records = 1, hb_max_bytes = 100, hb_state = mutex_new st\<rparr>,
      ho_controls = (\<lambda>_. demo_control), ho_ledgers = ls, ho_permissions = (\<lambda>_. mutex_new [])\<rparr>"

definition demo_broker :: "u64 \<Rightarrow> string list \<Rightarrow> (string, request_record) btree \<Rightarrow> broker_state" where
  "demo_broker n ready records =
     \<lparr>bk_sequence = n, bk_closing = False, bk_ready = ready, bk_records = records, bk_tombstones = [], bk_bytes = 13 * length records\<rparr>"

definition demo_ledgers :: ledger_store where
  "demo_ledgers l = ledger_new ''r'' ''o'' 1 10 False None 0"

lemmas demo_host_defs = demo_host_config_def demo_queued_entry_def demo_queued_registry_def demo_control_def demo_caller_def demo_call_def
  demo_host_ser_def demo_request_record_def demo_host_def demo_broker_def demo_capability_defs

definition demo_called :: "host_task list \<Rightarrow> string list \<Rightarrow> string list \<Rightarrow> broker_state \<Rightarrow> host_system" where
  "demo_called ts dl cl st =
     \<lparr>hx_host = demo_host (demo_queued_registry demo_active_maps 1 [demo_queued_entry 1]) st demo_ledgers, hx_permits = [0], hx_releases = [],
      hx_tasks = ts, hx_delivered = dl, hx_claimed = cl, hx_published = []\<rparr>"

lemma demo_host_new: "capability_registry_new 0 ''r'' demo_host_config = Ok (demo_queued_registry demo_empty_maps 0 [])"
  by (simp add: capability_registry_new_def runtime_config_validate_def demo_host_defs bad_name_def trim_is_empty_def
      contains_nul_def is_whitespace_def)

lemma demo_host_registers:
  "snd (registry_register demo_schemas (\<lambda>_. True) (\<lambda>_. 0) [\<lparr>rr_descriptor = demo_descriptor Queued, rr_native = None\<rparr>] (demo_queued_registry demo_empty_maps 0 [])) =
     demo_queued_registry demo_active_maps 0 [demo_queued_entry 0]"
  by (simp add: demo_host_defs registry_register_def descriptor_compile_def bad_name_def trim_is_empty_def contains_nul_def
      is_whitespace_def contract_compile_def instant_max_def nanos_per_sec_def nanos_per_milli_def with_registry_def register_check_def
      saturating_sub_def new_entry_def demo_cap_id mutex_new_def u64_max_def instant_checked_add_def checked_add_def Let_def)

lemma demo_called_host: "host_reachable demo_host_config (demo_called [] [] [] (demo_broker 0 [] []))"
proof -
  let ?h = "\<lambda>n es st. demo_host (demo_queued_registry st n es) (demo_broker 0 [] []) demo_ledgers"
  let ?x = "\<lambda>n es st ps. \<lparr>hx_host = ?h n es st, hx_permits = ps, hx_releases = [], hx_tasks = [], hx_delivered = [], hx_claimed = [], hx_published = []\<rparr>"
  have "broker_new ''r'' demo_host_config = ho_broker (?h 0 [] demo_empty_maps)"
    by (simp add: broker_new_def demo_host_defs mutex_new_def)
  then have start: "host_reachable demo_host_config (?x 0 [] demo_empty_maps [])"
    using hx_start [OF demo_host_new, of "\<lambda>_. demo_control" demo_ledgers "\<lambda>_. mutex_new []"] by (simp add: demo_host_def)
  let ?s = "\<lambda>n es st ps. \<lparr>sy_registry = demo_queued_registry st n es, sy_permits = ps, sy_releases = []\<rparr>"
  have view: "registry_view (?x n es st ps) = ?s n es st ps" "with_view (?x n es st ps) (?s m fs st' qs) = ?x m fs st' qs" for n m es fs st st' ps qs
    by (simp_all add: registry_view_def with_view_def demo_host_def)
  have none: "owned_permits (?x n es st ps) = {#}" for n es st ps by (simp add: owned_permits_def owned_by_tasks_def demo_host_def demo_broker_def)
  have "capability_step (?s 0 [] demo_empty_maps []) (?s 0 [demo_queued_entry 0] demo_active_maps [])"
    using cap_register [of "?s 0 [] demo_empty_maps []" demo_schemas "\<lambda>_. True" "\<lambda>_. 0" "[\<lparr>rr_descriptor = demo_descriptor Queued, rr_native = None\<rparr>]"]
    by (simp add: demo_host_registers)
  with hx_registry_view [of "?x 0 [] demo_empty_maps []"] have "host_step (?x 0 [] demo_empty_maps []) (?x 0 [demo_queued_entry 0] demo_active_maps [])"
    by (metis view none subset_mset.bot_least)
  with start have reg: "host_reachable demo_host_config (?x 0 [demo_queued_entry 0] demo_active_maps [])" by (rule hx_next)
  have "entry_admit 0 False (sy_arena (?s 0 [demo_queued_entry 0] demo_active_maps [])) = (Ok None, cr_arena (demo_queued_registry demo_active_maps 1 [demo_queued_entry 1]))"
    by (simp add: demo_host_defs entry_admit_def entry_at_def entry_refuses_def set_entry_state_def)
  from cap_admit [OF _ this] have "capability_step (?s 0 [demo_queued_entry 0] demo_active_maps []) (?s 1 [demo_queued_entry 1] demo_active_maps [0])"
    by (simp add: put_arena_def demo_queued_registry_def)
  with hx_registry_view [of "?x 0 [demo_queued_entry 0] demo_active_maps []"]
  have "host_step (?x 0 [demo_queued_entry 0] demo_active_maps []) (?x 1 [demo_queued_entry 1] demo_active_maps [0])"
    by (metis view none subset_mset.bot_least)
  with reg show ?thesis unfolding demo_called_def by (rule hx_next)
qed

lemma demo_holding: "host_reachable demo_host_config (demo_called [Holding demo_call] [] [] (demo_broker 0 [] []))"
proof -
  have "add_mset (pp_entry demo_call) (owned_permits (demo_called [] [] [] (demo_broker 0 [] []))) \<subseteq># mset (hx_permits (demo_called [] [] [] (demo_broker 0 [] [])))"
    by (simp add: demo_called_def owned_permits_def owned_by_tasks_def demo_host_defs)
  from hx_next [OF demo_called_host hx_prepared [OF this]] show ?thesis by (simp add: demo_called_def)
qed

definition demo_env :: host_env where
  "demo_env = \<lparr>env_schemas = demo_schemas, env_value = (\<lambda>_. \<lparr>ser_chunks = [1], ser_failed = False\<rparr>),
     env_error = (\<lambda>_. \<lparr>ser_chunks = [1], ser_failed = False\<rparr>), env_effect = (\<lambda>_. \<lparr>ser_chunks = [1], ser_failed = False\<rparr>)\<rparr>"

abbreviation demo_queue :: broker_state where
  "demo_queue \<equiv> demo_broker 1 [''r:host:1''] [(''r:host:1'', demo_request_record RqQueued (Some demo_call))]"

lemma demo_request_id: "request_id_of ''r'' (Suc 0) = ''r:host:1''"
  by code_simp

lemma demo_submits:
  "submit_section demo_env demo_host_ser 0 demo_call (hx_host (demo_called ts dl cl (demo_broker 0 [] []))) =
     (Ok ''r:host:1'', hx_host (demo_called ts dl cl demo_queue))"
  by (simp add: submit_section_def submit_check_def action_simps bind_request_def on_attempt_def prepared_gate_def on_registry_def on_arena_def lift_action_def
      dispatch_gate_def demo_called_def put_broker_def insert_request_def demo_host_defs entry_at_def entry_refuses_def request_of_def mutex_new_def
      mutex_recover_def checked_add_def u64_max_def prepared_entry_def demo_request_id json_size_eq ser_length_def Let_def)

lemma demo_queued_reachable: "host_reachable demo_host_config (demo_called [] [] [] demo_queue)"
proof -
  have "Holding demo_call \<in> set (hx_tasks (demo_called [Holding demo_call] [] [] (demo_broker 0 [] [])))" by (simp add: demo_called_def)
  from hx_next [OF demo_holding hx_submit [OF this demo_submits]] show ?thesis by (simp add: demo_called_def)
qed

definition demo_round :: round where
  "demo_round = \<lparr>rd_clk = (\<lambda>_. 0), rd_start = Ok True\<rparr>"

abbreviation demo_dispatched :: broker_state where
  "demo_dispatched \<equiv> demo_broker 1 [] [(''r:host:1'', demo_request_record RqDispatched (Some demo_call))]"

lemma demo_takes:
  "take_section (\<lambda>_. Ok ()) demo_round (hx_host (demo_called ts dl cl demo_queue)) =
     (Ok (Delivered (rq_request (demo_request_record RqQueued None))), hx_host (demo_called ts dl cl demo_dispatched))"
  by (simp add: take_section_def deliver_front_def cancel_unless_internal_def dispatch_def begin_effect_def on_attempt_def checkpoint_answer_def action_simps
      prepared_gate_def on_registry_def on_arena_def lift_action_def dispatch_gate_def demo_called_def put_broker_def authorize_def budget_check_def
      control_check_def permissions_require_def demo_round_def with_remaining_def
      demo_host_defs entry_at_def entry_refuses_def request_of_def mutex_new_def mutex_recover_def)

lemma demo_dispatched_reachable: "host_reachable demo_host_config (demo_called [] [''r:host:1''] [] demo_dispatched)"
proof -
  have "hr_request_id (rq_request (demo_request_record RqQueued None)) = ''r:host:1''" by (simp add: demo_request_record_def request_of_def Let_def)
  with hx_next [OF demo_queued_reachable hx_take [OF _ _ demo_takes]] show ?thesis by (simp add: demo_called_def demo_round_def)
qed

lemma demo_takes_json:
  "broker_take_json demo_host_ser (\<lambda>_. Some ''q:1'') (\<lambda>_ _. 0) (\<lambda>_. Ok True) True (\<lambda>_. True) (\<lambda>_ _. demo_round) 1 5
     (hx_host (demo_called [] [] [] demo_queue)) = (Ok ''[q:1]'', hx_host (demo_called [] [] [] demo_dispatched))"
proof -
  let ?h = "hx_host (demo_called [] [] [] demo_queue)"
  have ok: "\<not> poisoned (hb_state (ho_broker ?h))" "retained_completions (broker_guard ?h) = []"
    by (simp_all add: demo_called_def demo_host_def demo_broker_def retained_completions_def demo_request_record_def)
  have "json_prepare demo_host_ser (\<lambda>_. Some ''q:1'') True 3 = (\<lambda>_. Ok ())"
    by (simp add: fun_eq_iff json_prepare_def demo_host_ser_def json_size_eq ser_length_def)
  then have "take_next (json_prepare demo_host_ser (\<lambda>_. Some ''q:1'') True 3) (\<lambda>_. demo_round) ?h =
      (Ok (Some (rq_request (demo_request_record RqQueued None))), hx_host (demo_called [] [] [] demo_dispatched))"
    using demo_takes [of "[]" "[]" "[]"] by (simp add: take_next.simps)
  then show ?thesis
    using ok by (simp add: broker_take_json_def maintain_completions_def action_simps require_state_def Let_def saturating_sub_def isize_max_def)
      (simp add: demo_called_def demo_host_def)
qed

section \<open>Properties\<close>

text \<open>
  Property C22. The broker stays within its limits under every interleaving: it retains at most the
  configured number of requests and of tombstones, its byte counter is exactly the sum over the
  retained requests and stays within the configured bytes, its lock is never poisoned, and every
  retained request carries an identity the broker has issued.
\<close>

theorem broker_within_limits:
  assumes "host_reachable config x"
  shows "length (bk_records (hx_broker x)) \<le> max_host_requests config \<and> length (bk_tombstones (hx_broker x)) \<le> max_host_requests config \<and>
    bk_bytes (hx_broker x) = sum_list (map (\<lambda>e. rq_bytes (snd e)) (bk_records (hx_broker x))) \<and>
    bk_bytes (hx_broker x) \<le> max_host_request_bytes config \<and> \<not> poisoned (hb_state (ho_broker (hx_host x))) \<and>
    (\<forall>i r. bt_get (bk_records (hx_broker x)) i = Some r \<longrightarrow> hr_request_id (rq_request r) = i \<and>
      i \<in> request_ids (hb_runtime_id (ho_broker (hx_host x))) (hx_broker x))"
  using broker_invD(1) [OF host_reachableD(4) [OF assms]] host_reachableD(2,3) [OF assms] host_invD(1) [OF host_reachableD(1) [OF assms]]
  by (simp add: bounds_ok_def)

theorem broker_within_limits_witness:
  "bk_bytes (hx_broker (demo_called [] [] [] demo_queue)) = 13 \<and> bk_bytes (hx_broker (demo_called [] [] [] demo_queue)) \<le> max_host_request_bytes demo_host_config"
  using broker_within_limits [OF demo_queued_reachable] by (simp add: demo_called_def demo_host_def demo_broker_def demo_request_record_def)

text \<open>
  Submission is atomic: it never panics; a refused submission leaves the queue, the
  retained requests and the byte counter as they were; an accepted one happens only while the broker
  is open and the registration of its call still accepts it, and appends exactly one queued request
  under an identity that was never used before.
\<close>

theorem submission_atomic:
  assumes "host_reachable config x"
  shows "case submit_section env ser now p (hx_host x) of
      (Ok i, h) \<Rightarrow>
        \<not> bk_closing (hx_broker x) \<and> \<not> entry_refuses (entry_guard (cr_arena (ho_registry (hx_host x))) (pp_entry p)) (pp_finalization p) \<and>
        i \<notin> request_ids (hb_runtime_id (ho_broker (hx_host x))) (hx_broker x) \<and> bt_get (bk_records (hx_broker x)) i = None \<and>
        bk_ready (broker_guard h) = bk_ready (hx_broker x) @ [i] \<and>
        (\<exists>r. bt_get (bk_records (broker_guard h)) i = Some r \<and> rq_phase r = RqQueued \<and> rq_prepared r = Some p \<and>
          hr_registration_id (rq_request r) = entry_name (hx_host x) (pp_entry p) \<and> bk_bytes (broker_guard h) = bk_bytes (hx_broker x) + rq_bytes r) \<and>
        (\<forall>j. j \<noteq> i \<longrightarrow> bt_get (bk_records (broker_guard h)) j = bt_get (bk_records (hx_broker x)) j)
    | (Err e, h) \<Rightarrow> bk_ready (broker_guard h) = bk_ready (hx_broker x) \<and> bk_records (broker_guard h) = bk_records (hx_broker x) \<and>
        bk_bytes (broker_guard h) = bk_bytes (hx_broker x)
    | (Panic s, h) \<Rightarrow> False"
proof -
  obtain z h where z: "submit_section env ser now p (hx_host x) = (z, h)" by fastforce
  note d = broker_invD(1) [OF host_reachableD(4) [OF assms]]
  have "host_inv x" by (rule host_reachableD(1) [OF assms])
  from host_invD(1) [OF this] z show ?thesis
  proof (cases rule: submit_section_result)
    case (queued q bytes ls)
    note c = submit_check_Ok [OF queued(2)]
    have fresh: "hr_request_id q \<notin> request_ids (hb_runtime_id (ho_broker (hx_host x))) (hx_broker x)" using c(7) by (auto simp: request_ids_def)
    then have "bt_get (bk_records (hx_broker x)) (hr_request_id q) = None" using boundsD(8) [OF d] by (cases "bt_get (bk_records (hx_broker x)) (hr_request_id q)") auto
    then show ?thesis using queued c fresh by (simp add: z insert_request_def)
  qed (use z in \<open>auto split: outcome.split\<close>)
qed

text \<open>
  Property C9. A request is settled once: whatever the threads do, no request is delivered, claimed or
  published twice and only a delivered request is claimed; a completion claims a request exactly when
  it is dispatched, and a completion or a cancellation that finds the request published changes nothing.
\<close>

theorem requests_settle_once:
  assumes "host_reachable config x"
  shows "distinct (hx_delivered x) \<and> distinct (hx_claimed x) \<and> distinct (hx_published x) \<and> set (hx_claimed x) \<subseteq> set (hx_delivered x) \<and>
    (\<forall>i p h. claim_section i (hx_host x) = (Ok p, h) \<longrightarrow> i \<in> set (hx_delivered x) \<and> i \<notin> set (hx_claimed x) \<and> i \<notin> set (hx_published x)) \<and>
    (\<forall>i r. bt_get (bk_records (hx_broker x)) i = Some r \<and> rq_phase r = RqDispatched \<longrightarrow> is_ok (fst (claim_section i (hx_host x)))) \<and>
    (\<forall>i e. i \<in> set (hx_published x) \<longrightarrow> \<not> is_ok (fst (claim_section i (hx_host x))) \<and> snd (claim_section i (hx_host x)) = hx_host x \<and>
      snd (cancel_section i e (hx_host x)) = hx_host x)"
proof -
  note b = host_reachableD(4) [OF assms]
  note d = broker_invD [OF b]
  have inv: "broker_healthy (hx_host x)" using host_invD(1) [OF host_reachableD(1) [OF assms]] .
  have hist: "distinct (hx_claimed x)" "distinct (hx_published x)" "set (hx_claimed x) \<subseteq> set (hx_delivered x)" "distinct (hx_delivered x)"
    using d(4) queueD(2) [OF d(2)] by (auto simp: history_ok_def)
  note claim = claim_section_result [OF inv]
  have once: "i \<in> set (hx_delivered x) \<and> i \<notin> set (hx_claimed x) \<and> i \<notin> set (hx_published x)" if "claim_section i (hx_host x) = (Ok p, h)" for i p h
    using that claim [of i] history_of [OF b, of i] by (auto simp: record_history_def split: option.splits host_request_phase.splits)
  have dispatched: "is_ok (fst (claim_section i (hx_host x)))" if "bt_get (bk_records (hx_broker x)) i = Some r" "rq_phase r = RqDispatched" for i r
    using that claim [of i] shapesD(1) [OF d(3) that(1)] by auto
  have late: "\<not> is_ok (fst (claim_section i (hx_host x)))" "snd (claim_section i (hx_host x)) = hx_host x" "snd (cancel_section i e (hx_host x)) = hx_host x"
    if "i \<in> set (hx_published x)" for i e
    using that claim [of i] cancel_section_result [OF inv, of i e] history_of [OF b, of i]
    by (auto simp: record_history_def split: option.split)
  show ?thesis using hist once dispatched late by blast
qed

theorem requests_settle_once_witness:
  "is_ok (fst (claim_section ''r:host:1'' (hx_host (demo_called [] [''r:host:1''] [] demo_dispatched))))"
proof -
  have "bt_get (bk_records (hx_broker (demo_called [] [''r:host:1''] [] demo_dispatched))) ''r:host:1'' = Some (demo_request_record RqDispatched (Some demo_call)) \<and>
    rq_phase (demo_request_record RqDispatched (Some demo_call)) = RqDispatched"
    by (simp add: demo_called_def demo_host_def demo_broker_def demo_request_record_def)
  then show ?thesis using requests_settle_once [OF demo_dispatched_reachable] by blast
qed

text \<open>
  Property C32. Delivery is in order of submission and checked at the last moment: the requests
  delivered so far followed by those waiting are strictly ordered by their sequence numbers, the
  waiting ones are exactly the queued ones, and a delivery hands out the first of them, only while the
  broker is open, its authorization holds and its registration still accepts it.
\<close>

theorem delivery_in_order:
  assumes "host_reachable config x" "\<And>q. \<not> is_panic (prep q)" "\<not> is_panic (rd_start rd)"
  shows "(\<exists>ks. hx_delivered x @ bk_ready (hx_broker x) = map (request_id_of (hb_runtime_id (ho_broker (hx_host x)))) ks \<and> sorted_wrt (<) ks) \<and>
    (\<forall>i. i \<in> set (bk_ready (hx_broker x)) \<longleftrightarrow> (\<exists>r. bt_get (bk_records (hx_broker x)) i = Some r \<and> rq_phase r = RqQueued)) \<and>
    (case take_section prep rd (hx_host x) of
       (Ok (Delivered q), h) \<Rightarrow> bk_ready (hx_broker x) = hr_request_id q # bk_ready (broker_guard h) \<and> prep q = Ok () \<and>
         (\<exists>r p. bt_get (bk_records (hx_broker x)) (hr_request_id q) = Some r \<and> rq_prepared r = Some p \<and>
           authorize (rd_clk rd 5) (rd_clk rd 6) (pp_invocation p) (hx_host x) = Ok () \<and>
           \<not> entry_refuses (entry_guard (cr_arena (ho_registry (hx_host x))) (pp_entry p)) (pp_finalization p))
     | (r, h) \<Rightarrow> \<not> is_panic r \<and> broker_guard h = hx_broker x)"
proof -
  note d = broker_invD [OF host_reachableD(4) [OF assms(1)]]
  obtain z h where z: "take_section prep rd (hx_host x) = (z, h)" by fastforce
  have ord: "\<exists>ks. hx_delivered x @ bk_ready (hx_broker x) = map (request_id_of (hb_runtime_id (ho_broker (hx_host x)))) ks \<and> sorted_wrt (<) ks"
    using d(2) by (auto simp: queue_ok_def)
  have "broker_healthy (hx_host x)" using host_invD(1) [OF host_reachableD(1) [OF assms(1)]] .
  from this assms(2,3) z have "case (z, h) of
       (Ok (Delivered q), h) \<Rightarrow> bk_ready (hx_broker x) = hr_request_id q # bk_ready (broker_guard h) \<and> prep q = Ok () \<and>
         (\<exists>r p. bt_get (bk_records (hx_broker x)) (hr_request_id q) = Some r \<and> rq_prepared r = Some p \<and>
           authorize (rd_clk rd 5) (rd_clk rd 6) (pp_invocation p) (hx_host x) = Ok () \<and>
           \<not> entry_refuses (entry_guard (cr_arena (ho_registry (hx_host x))) (pp_entry p)) (pp_finalization p))
     | (r, h) \<Rightarrow> \<not> is_panic r \<and> broker_guard h = hx_broker x"
  proof (cases rule: take_section_result)
    case (kept ls)
    then show ?thesis by (auto split: outcome.split delivery.split)
  next
    case (delivered i js r p q ls)
    have "hr_request_id q = i" using delivered(6) boundsD(7) [OF d(1) delivered(2)] by (simp add: with_remaining_def)
    moreover have "prep q = Ok ()" using take_section_prepared z delivered(5) by simp
    ultimately show ?thesis using delivered by simp
  qed
  then show ?thesis using ord queueD(1) [OF d(2)] by (simp add: z)
qed

theorem delivery_in_order_witness:
  "\<exists>p. rq_prepared (demo_request_record RqQueued (Some demo_call)) = Some p \<and>
     authorize 0 0 (pp_invocation p) (hx_host (demo_called [] [] [] demo_queue)) = Ok ()"
proof -
  let ?x = "demo_called [] [] [] demo_queue" and ?q = "rq_request (demo_request_record RqQueued None)"
  have clk: "rd_clk demo_round n = 0" for n by (simp add: demo_round_def)
  have get: "bt_get (bk_records (hx_broker ?x)) (hr_request_id ?q) = Some (demo_request_record RqQueued (Some demo_call))"
    by (simp add: demo_called_def demo_host_def demo_broker_def demo_request_record_def request_of_def Let_def)
  have "\<exists>r p. bt_get (bk_records (hx_broker ?x)) (hr_request_id ?q) = Some r \<and> rq_prepared r = Some p \<and> authorize 0 0 (pp_invocation p) (hx_host ?x) = Ok ()"
    using delivery_in_order [where prep = "\<lambda>_. Ok ()" and rd = demo_round, OF demo_queued_reachable] unfolding demo_takes clk
    by (simp add: demo_round_def) blast
  then show ?thesis unfolding get by auto
qed

text \<open>
  A request holds its capability slot until it is settled: the requests of an entry whose
  call is still in the broker never outnumber the calls the entry counts as running, which stay within
  its declared concurrency; each names the entry's registration; and an entry that reports it is
  drained has none of them left.
\<close>

theorem requests_hold_slots:
  assumes "host_reachable config x" "r < length (ca_entries (cr_arena (ho_registry (hx_host x))))"
  shows "let e = entry_at (cr_arena (ho_registry (hx_host x))) r;
             own = filter (\<lambda>(i, q). map_option pp_entry (rq_prepared q) = Some r) (bk_records (hx_broker x)) in
    length own \<le> es_running (guarded (en_state e)) \<and> es_running (guarded (en_state e)) \<le> cd_max_concurrent (en_descriptor e) \<and>
    (\<forall>(i, q) \<in> set own. hr_registration_id (rq_request q) = en_id e) \<and> (is_drained (guarded (en_state e)) \<longrightarrow> own = [])"
proof -
  note b = host_reachableD(4) [OF assms(1)]
  have run: "es_running (entry_guard (cr_arena (ho_registry (hx_host x))) r) \<le> cd_max_concurrent (en_descriptor (entry_at (cr_arena (ho_registry (hx_host x))) r))"
    using entries_okD(4) [OF arena_invD(4)] host_invD(3) [OF host_reachableD(1) [OF assms(1)]] assms(2)
    by (fastforce simp: capability_inv_def registry_view_def entry_ok_def Let_def)
  have "hr_registration_id (rq_request q) = en_id (entry_at (cr_arena (ho_registry (hx_host x))) r)"
    if q: "(i, q) \<in> set (bk_records (hx_broker x))" "map_option pp_entry (rq_prepared q) = Some r" for i q
  proof -
    obtain p where p: "rq_prepared q = Some p" "pp_entry p = r" using q(2) by auto
    have "bt_get (bk_records (hx_broker x)) i = Some q" using q(1) boundsD(1) [OF broker_invD(1) [OF b]] by (simp add: bt.get_iff)
    then show ?thesis using broker_invD(5) [OF b] p by (fastforce simp: ownership_ok_def owners_def entry_name_def)
  qed
  then show ?thesis
    using requests_within_running [OF host_reachableD(1) [OF assms(1)] assms(2)] run
    by (auto simp: Let_def case_prod_unfold is_drained_def)
qed

theorem requests_hold_slots_witness:
  "hr_registration_id (rq_request (demo_request_record RqDispatched (Some demo_call))) = ''r:cap:1''"
proof -
  have "0 < length (ca_entries (cr_arena (ho_registry (hx_host (demo_called [] [''r:host:1''] [] demo_dispatched)))))"
    by (simp add: demo_called_def demo_host_def demo_queued_registry_def)
  from requests_hold_slots [OF demo_dispatched_reachable this] show ?thesis
    by (simp add: Let_def demo_called_def demo_host_def demo_broker_def demo_request_record_def demo_call_def demo_queued_registry_def
        demo_queued_entry_def entry_at_def)
qed

text \<open>
  One delivery ends after at most one pass per waiting request: a pass that cancels the
  front request shortens the queue, so the result depends on no clock reading and no checkpoint
  answer beyond the first \<open>n + 1\<close> passes, \<open>n\<close> being the number of waiting requests.
\<close>

theorem delivery_passes_bounded:
  assumes "\<forall>n \<le> length (bk_ready (broker_guard h)). rounds n = rounds' n"
  shows "take_next prep rounds h = take_next prep rounds' h"
  using assms take_next_passes by blast

text \<open>
  A JSON batch is the array of at most \<open>limit\<close> encoded requests and never exceeds the
  caller's byte limit, brackets and separators included, provided an encoding has the length the
  size counter sees and is not empty.
\<close>

theorem json_batch_within_limit:
  assumes "\<And>q b. encode q = Some b \<Longrightarrow> length b = ser_length (ser q) \<and> b \<noteq> []"
    and "broker_take_json ser encode clks answers alloc0 alloc rounds limit max_bytes h = (Ok out, h')"
  shows "\<exists>qs. length qs \<le> limit \<and> out = encoded encode qs @ '']'' \<and> length out \<le> max_bytes \<and> (\<forall>q \<in> set qs. encode q \<noteq> None)"
proof -
  obtain t where "take_json_loop ser encode alloc rounds max_bytes limit 0 ''['' t = (Ok out, h')" "2 \<le> max_bytes"
    using assms(2) by (auto simp: broker_take_json_def bind_action_def require_state_def require_def split: prod.splits outcome.splits if_splits)
  then show ?thesis
    using take_json_loop_bound [of encode ser alloc rounds max_bytes limit "[]" t out h'] assms(1) by (auto simp: encoded_def)
qed

text \<open>
  Property C31. The broker's functions are runs of its critical sections: from a reachable state a
  delivery batch, a completion, a cancellation, the retirement of a registration, closing the broker
  and dropping a handle end in a reachable state without a panic; the batch returns exactly the
  requests delivered by it, and only a completion claims, at most once and always when it succeeds.
\<close>

theorem broker_calls_are_runs:
  assumes "host_reachable config x" "\<And>n. \<not> is_panic (answers n)" "\<And>m n. \<not> is_panic (rd_start (rounds m n))"
  shows "(\<exists>y qs. host_reachable config y \<and> hx_host y = snd (broker_take clks answers alloc rounds limit (hx_host x)) \<and> delivers x qs y \<and> length qs \<le> limit \<and>
      (let r = fst (broker_take clks answers alloc rounds limit (hx_host x)) in r = Ok qs \<or> qs = [] \<and> \<not> is_ok r \<and> \<not> is_panic r)) \<and>
    (\<exists>y. host_reachable config y \<and> hx_host y = snd (broker_complete env clks (answers 0) (answers 1) i out (hx_host x)) \<and>
      claims_once x i (fst (broker_complete env clks (answers 0) (answers 1) i out (hx_host x))) y) \<and>
    (\<forall>m \<in> {broker_cancel i e, retire_registration reg, broker_close, handle_drop i}.
      \<exists>y. host_reachable config y \<and> hx_host y = snd (m (hx_host x)) \<and> quietly x (fst (m (hx_host x))) y)"
proof -
  note inv = host_reachableD(1) [OF assms(1)] and reach = reachable_runs [OF _ assms(1)]
  have calls: "\<exists>y. host_reachable config y \<and> hx_host y = snd (m (hx_host x)) \<and> quietly x (fst (m (hx_host x))) y"
    if "m \<in> {broker_cancel i e, retire_registration reg, broker_close, handle_drop i}" for m
  proof -
    have "runs m x (quietly x)" using that cancel_run [OF inv] retire_run [OF inv] close_run [OF inv] handle_drop_run [OF inv] by auto
    then show ?thesis using reach unfolding runs_def by blast
  qed
  have "runs (broker_complete env clks (answers 0) (answers 1) i out) x (claims_once x i)" by (rule complete_run [OF inv assms(2,2)])
  then have complete: "\<exists>y. host_reachable config y \<and> hx_host y = snd (broker_complete env clks (answers 0) (answers 1) i out (hx_host x)) \<and>
      claims_once x i (fst (broker_complete env clks (answers 0) (answers 1) i out (hx_host x))) y"
    using reach unfolding runs_def by blast
  obtain y qs where y: "host_step\<^sup>*\<^sup>* x y" "hx_host y = snd (broker_take clks answers alloc rounds limit (hx_host x))" "delivers x qs y" "length qs \<le> limit"
    "\<not> is_panic (fst (broker_take clks answers alloc rounds limit (hx_host x)))"
    "fst (broker_take clks answers alloc rounds limit (hx_host x)) = Ok qs \<or> qs = [] \<and> \<not> is_ok (fst (broker_take clks answers alloc rounds limit (hx_host x)))"
    using take_run [where clks = clks and answers = answers and alloc = alloc and rounds = rounds and limit = limit, OF inv assms(2,3)] unfolding runs_def by blast
  have "\<exists>y qs. host_reachable config y \<and> hx_host y = snd (broker_take clks answers alloc rounds limit (hx_host x)) \<and> delivers x qs y \<and> length qs \<le> limit \<and>
      (let r = fst (broker_take clks answers alloc rounds limit (hx_host x)) in r = Ok qs \<or> qs = [] \<and> \<not> is_ok r \<and> \<not> is_panic r)"
    unfolding Let_def using reach [OF y(1)] y(2-6) by (intro exI [of _ y] exI [of _ qs] conjI) auto
  then show ?thesis using complete calls by blast
qed

theorem broker_calls_are_runs_witness:
  "\<exists>y. host_reachable demo_host_config y \<and> hx_host y = snd (broker_close (hx_host (demo_called [] [] [] demo_queue)))"
proof -
  note runs = broker_calls_are_runs [where answers = "\<lambda>_. Ok True" and rounds = "\<lambda>_ _. demo_round" and i = "[]" and reg = "[]" and e = broker_closed, OF demo_queued_reachable]
  show ?thesis using runs [THEN conjunct2, THEN conjunct2] by (simp add: demo_round_def) blast
qed

end
