(* ===== verification/Journal_Data.thy ===== *)
theory Journal_Data
  imports Operation_Data "HOL-Library.Product_Lexorder"
begin

text \<open>
  The records of the operation history (\<^verbatim>\<open>runtime/embedded/journal.rs\<close>) and the reconciliation of an
  operation whose effects stayed unknown (\<^verbatim>\<open>journal/reconciliation.rs\<close>).
\<close>

section \<open>Reconciliation\<close>

datatype resolved_effect_state = ResolvedNotStarted | ResolvedNotApplicable | ResolvedCommitted | ResolvedRolledBack

fun effect_of_resolved :: "resolved_effect_state \<Rightarrow> effect_state" where
  "effect_of_resolved ResolvedNotStarted = NotStarted"
| "effect_of_resolved ResolvedNotApplicable = NotApplicable"
| "effect_of_resolved ResolvedCommitted = Committed"
| "effect_of_resolved ResolvedRolledBack = RolledBack"

datatype reconciled_execution = ObservedTerminal | StoppedWithoutResult

record host_effect_reconciliation =
  hc_effect_id :: string
  hc_effects :: resolved_effect_state
  hc_evidence :: string

record operation_reconciliation =
  oc_resolution_id :: string
  oc_resolver :: string
  oc_evidence :: string
  oc_execution :: reconciled_execution
  oc_effects :: resolved_effect_state
  oc_host_effects :: "host_effect_reconciliation list"

text \<open>
  The loop over the recorded effects and their resolutions, which stops at the shorter list;
  \<open>seen\<close> are the identities inserted so far.
\<close>

fun project_effects ::
  "string list \<Rightarrow> host_effect_record list \<Rightarrow> host_effect_reconciliation list \<Rightarrow> host_effect_record list embedded_result" where
  "project_effects seen (original # os) (resolution # rs) =
     (if he_effect_id original = [] \<or> he_effect_id original \<noteq> hc_effect_id resolution \<or> he_effect_id original \<in> set seen
        \<or> trim_is_empty (hc_evidence resolution)
        \<or> (he_effects original \<noteq> UnknownEffect \<and> he_effects original \<noteq> effect_of_resolved (hc_effects resolution))
      then Err (error_invalid ''reconciliation must preserve every original effect identity and known outcome'')
      else
        and_then (project_effects (he_effect_id original # seen) os rs) (\<lambda>projected.
        Ok (original\<lparr>he_effects := effect_of_resolved (hc_effects resolution), he_phase := Completed\<rparr> # projected)))"
| "project_effects seen os rs = Ok os"

definition reconciliation_validate :: "operation_reconciliation \<Rightarrow> operation_snapshot \<Rightarrow> unit embedded_result" where
  "reconciliation_validate self snapshot =
     (if trim_is_empty (oc_resolution_id self) \<or> trim_is_empty (oc_resolver self) \<or> trim_is_empty (oc_evidence self)
        \<or> (oc_execution self = ObservedTerminal) \<noteq> is_terminal (sn_phase snapshot)
        \<or> length (oc_host_effects self) \<noteq> length (sn_host_effects snapshot)
      then Err (error_invalid ''reconciliation requires complete evidence and matching original execution closure'')
      else
        let resolved = effect_of_resolved (oc_effects self) in
        if sn_effects snapshot \<noteq> UnknownEffect \<and> sn_effects snapshot \<noteq> resolved
        then Err (error_invalid ''reconciliation contradicts known operation effects'')
        else
          and_then (project_effects [] (sn_host_effects snapshot) (oc_host_effects self)) (\<lambda>projected.
            if merge_effects resolved projected \<noteq> resolved
            then Err (error_invalid ''reconciliation aggregate contradicts its resolved host effects'')
            else Ok ()))"

section \<open>Records\<close>

record operation_journal_config =
  jc_max_records :: usize
  jc_max_record_bytes :: usize
  jc_max_database_bytes :: u64

record journal_operation =
  jo_runtime_id :: string
  jo_revision :: u64
  jo_snapshot :: operation_snapshot
  jo_reconciliation :: "operation_reconciliation option"

text \<open>An operation is identified by its runtime and its own identity; SQLite compares such pairs component-wise.\<close>

type_synonym journal_key = "string \<times> string"

abbreviation journal_key :: "journal_operation \<Rightarrow> journal_key" where
  "journal_key r \<equiv> (jo_runtime_id r, sn_operation_id (jo_snapshot r))"

section \<open>Lemmas\<close>

lemma project_effects_not_panic [simp]: "\<not> is_panic (project_effects seen os rs)"
  by (induction seen os rs rule: project_effects.induct) auto

lemma reconciliation_not_panic [simp]: "\<not> is_panic (reconciliation_validate r s)"
  by (auto simp: reconciliation_validate_def Let_def)

text \<open>
  A reconciliation that is accepted resolves every effect: one resolution per recorded effect, in
  order and under its identity, identities distinct, no known outcome changed, and the aggregate is
  the most severe of the resolved effects.
\<close>

lemma project_effects_Ok:
  assumes "project_effects seen os rs = Ok ps" "length rs = length os"
  shows "map he_effect_id os = map hc_effect_id rs \<and> distinct (map he_effect_id os) \<and> set (map he_effect_id os) \<inter> set seen = {} \<and>
    length ps = length os \<and>
    (\<forall>k < length os. he_phase (ps ! k) = Completed \<and> he_effects (ps ! k) = effect_of_resolved (hc_effects (rs ! k)) \<and>
       (he_effects (os ! k) \<noteq> UnknownEffect \<longrightarrow> he_effects (ps ! k) = he_effects (os ! k)))"
  using assms
proof (induction seen os rs arbitrary: ps rule: project_effects.induct)
  case (1 seen original os resolution rs)
  then obtain qs where qs: "project_effects (he_effect_id original # seen) os rs = Ok qs"
    "ps = original\<lparr>he_effects := effect_of_resolved (hc_effects resolution), he_phase := Completed\<rparr> # qs"
    by (auto split: if_splits)
  note ih = 1(1) [OF _ qs(1)]
  show ?case using ih 1(2,3) qs(2) by (auto simp: less_Suc_eq_0_disj split: if_splits)
qed auto

end
