(* ===== verification/Journal_Store.thy ===== *)
theory Journal_Store
  imports Journal_Data Action
begin

text \<open>
  The durable operation history (\<^verbatim>\<open>OperationJournal\<close> in \<^verbatim>\<open>runtime/embedded/journal/sqlite.rs\<close> and
  \<^verbatim>\<open>journal/recovery.rs\<close>). The table \<^verbatim>\<open>operations\<close> is a map from identities to rows in the order of its
  primary key; \<open>oj_rows\<close> is what the database file holds after the last transaction that landed.

  Parameters: \<open>journal_codec\<close> is what \<^verbatim>\<open>serde_json\<close> writes and reads and what \<^verbatim>\<open>Sha256\<close> computes;
  \<open>sql_answers\<close> are SQLite's answers to the statements of one call, any of which may fail. A commit
  that fails may have landed or not; nothing reads the table between such a commit and the reopening
  of the file, so the answer says at once which of the two happened. The \<^verbatim>\<open>STRICT\<close> table guarantees the
  column types, so the accessors of a row cannot fail.
\<close>

section \<open>Errors\<close>

datatype sql_failure = SqlBusy | SqlLocked | SqlDiskFull | SqlTooBig | SqlOther

definition storage_error :: "sql_failure \<Rightarrow> embedded_error" where
  "storage_error f =
     error_new (case f of SqlBusy \<Rightarrow> Busy | SqlLocked \<Rightarrow> Busy | SqlDiskFull \<Rightarrow> CapacityExceeded | SqlTooBig \<Rightarrow> CapacityExceeded | SqlOther \<Rightarrow> Internal)
       ''operation history database operation failed''"

definition history_capacity :: embedded_error where
  "history_capacity = error_new CapacityExceeded ''operation history exceeds configured retention limits''"

definition history_corrupt :: embedded_error where
  "history_corrupt = error_new Internal ''operation history record is corrupt''"

definition history_uncertain :: embedded_error where
  "history_uncertain = error_new Internal ''operation history commit is uncertain; close and reconcile before further mutations''"

definition history_lock_poisoned :: embedded_error where
  "history_lock_poisoned = error_new Internal ''operation history lock is poisoned''"

definition history_not_found :: embedded_error where
  "history_not_found = error_new NotFound ''operation history was not found''"

definition history_stale :: embedded_error where
  "history_stale = error_new StaleGeneration ''operation history revision changed''"

text \<open>A statement's answer as the \<^verbatim>\<open>map_err(storage::error)?\<close> after it sees it.\<close>

definition sql_check :: "sql_failure option \<Rightarrow> unit embedded_result" where
  "sql_check f = (case f of None \<Rightarrow> Ok () | Some x \<Rightarrow> Err (storage_error x))"

fun replace_error :: "embedded_error \<Rightarrow> 'a embedded_result \<Rightarrow> 'a embedded_result" where
  "replace_error e (Ok x) = Ok x"
| "replace_error e (Err _) = Err e"
| "replace_error e (Panic p) = Panic p"

section \<open>State\<close>

record journal_codec =
  jk_snapshot :: "operation_snapshot \<Rightarrow> serialization"
  jk_resolution :: "operation_reconciliation \<Rightarrow> serialization"
  jk_record :: "journal_operation \<Rightarrow> serialization"
  jk_to_vec :: "journal_operation \<Rightarrow> string option"
  jk_from_slice :: "string \<Rightarrow> journal_operation option"
  jk_digest :: "string \<Rightarrow> string"

record journal_row =
  row_revision :: int
  row_document :: string
  row_digest :: string

type_synonym journal_table = "(journal_key, journal_row) btree"

record journal_state =
  js_connection :: bool
  js_failure :: "embedded_error option"

record operation_journal =
  oj_config :: operation_journal_config
  oj_state :: "journal_state mutex"
  oj_rows :: journal_table

datatype commit_answer = CommitOk | CommitUncertain bool

record sql_answers =
  sa_begin :: "sql_failure option"
  sa_read :: "sql_failure option"
  sa_count :: "sql_failure option"
  sa_write :: "sql_failure option"
  sa_commit :: commit_answer
  sa_autocommit :: bool
  sa_rollback :: bool

definition i64_max :: nat where
  "i64_max = 9223372036854775807"

section \<open>Reading rows\<close>

text \<open>Effects carry the caller of their operation.\<close>

fun check_effect_callers :: "string \<Rightarrow> operation_snapshot \<Rightarrow> host_effect_record list \<Rightarrow> unit embedded_result" where
  "check_effect_callers runtime_id snapshot [] = Ok ()"
| "check_effect_callers runtime_id snapshot (e # es) =
     and_then (caller_validate (he_caller e) runtime_id) (\<lambda>_.
       if (case context_caller (sn_context snapshot) of None \<Rightarrow> False | Some c \<Rightarrow> c \<noteq> he_caller e)
       then Err (error_invalid ''historical effect caller contradicts its operation context'')
       else if cc_operation_id (he_caller e) \<noteq> sn_operation_id snapshot
       then Err (error_invalid ''historical effect caller does not match its operation'')
       else check_effect_callers runtime_id snapshot es)"

definition validate_callers :: "string \<Rightarrow> operation_snapshot \<Rightarrow> unit embedded_result" where
  "validate_callers runtime_id snapshot =
     and_then (validate_finalization snapshot) (\<lambda>_.
     and_then (context_validate (sn_context snapshot) runtime_id (sn_operation_id snapshot)) (\<lambda>_.
     check_effect_callers runtime_id snapshot (sn_host_effects snapshot)))"

text \<open>\<^verbatim>\<open>String::len\<close>: the bytes of the UTF-8 encoding; the scalar values below 256 take one byte or two.\<close>

definition utf8_length :: "string \<Rightarrow> nat" where
  "utf8_length s = sum_list (map (\<lambda>c. if of_char c < (128 :: nat) then 1 else 2) s)"

definition journal_validate_key :: "operation_journal_config \<Rightarrow> string \<Rightarrow> string \<Rightarrow> unit embedded_result" where
  "journal_validate_key cfg runtime_id operation_id =
     (if runtime_id = [] \<or> operation_id = [] then Err (error_invalid ''operation history identities must not be empty'')
      else if utf8_length runtime_id > jc_max_record_bytes cfg \<or> utf8_length operation_id > jc_max_record_bytes cfg then Err history_capacity
      else Ok ())"

definition journal_encode :: "journal_codec \<Rightarrow> operation_journal_config \<Rightarrow> journal_operation \<Rightarrow> string embedded_result" where
  "journal_encode c cfg r =
     and_then (journal_validate_key cfg (jo_runtime_id r) (sn_operation_id (jo_snapshot r))) (\<lambda>_.
     and_then (json_size (jk_record c r) (jc_max_record_bytes cfg)) (\<lambda>_.
     ok_or (error_invalid ''operation history serialization failed'') (jk_to_vec c r)))"

definition journal_decode :: "journal_codec \<Rightarrow> operation_journal_config \<Rightarrow> journal_key \<Rightarrow> journal_row \<Rightarrow> journal_operation embedded_result" where
  "journal_decode c cfg key row =
     (if length (row_document row) > jc_max_record_bytes cfg then Err history_capacity
      else if jk_digest c (row_document row) \<noteq> row_digest row then Err history_corrupt
      else
        and_then (ok_or history_corrupt (jk_from_slice c (row_document row))) (\<lambda>r.
          if fst key = [] \<or> snd key = [] \<or> jo_runtime_id r \<noteq> fst key \<or> sn_operation_id (jo_snapshot r) \<noteq> snd key
            \<or> row_revision row \<le> 0 \<or> int (jo_revision r) \<noteq> row_revision row
          then Err history_corrupt
          else
            and_then (replace_error history_corrupt (validate_callers (fst key) (jo_snapshot r))) (\<lambda>_.
              case jo_reconciliation r of
                None \<Rightarrow> Ok r
              | Some resolution \<Rightarrow>
                  if jo_revision r < 2 then Err history_corrupt
                  else
                    and_then (replace_error history_corrupt (reconciliation_validate resolution (jo_snapshot r))) (\<lambda>_. Ok r))))"

definition journal_read ::
  "journal_codec \<Rightarrow> operation_journal_config \<Rightarrow> sql_answers \<Rightarrow> journal_key \<Rightarrow> journal_table \<Rightarrow> journal_operation option embedded_result" where
  "journal_read c cfg q key rows =
     and_then (sql_check (sa_read q)) (\<lambda>_.
       case bt_get rows key of
         None \<Rightarrow> Ok None
       | Some row \<Rightarrow> and_then (journal_decode c cfg key row) (\<lambda>r. Ok (Some r)))"

definition journal_expect ::
  "journal_codec \<Rightarrow> operation_journal_config \<Rightarrow> sql_answers \<Rightarrow> journal_key \<Rightarrow> u64 \<Rightarrow> journal_table \<Rightarrow> journal_operation embedded_result" where
  "journal_expect c cfg q key revision rows =
     and_then (journal_read c cfg q key rows) (\<lambda>found.
     and_then (ok_or history_not_found found) (\<lambda>r.
       if jo_revision r \<noteq> revision then Err history_stale else Ok r))"

section \<open>The connection\<close>

text \<open>\<^verbatim>\<open>lock\<close>: the guard of every call but the recovery.\<close>

definition journal_ready :: "operation_journal \<Rightarrow> unit embedded_result" where
  "journal_ready j =
     (if poisoned (oj_state j) then Err history_lock_poisoned
      else case js_failure (guarded (oj_state j)) of
        Some e \<Rightarrow> Err e
      | None \<Rightarrow> if \<not> js_connection (guarded (oj_state j)) then Err history_uncertain else Ok ())"

definition journal_connection :: "operation_journal \<Rightarrow> unit embedded_result" where
  "journal_connection j =
     expect ''healthy journal retains its exclusive connection'' (if js_connection (guarded (oj_state j)) then Some () else None)"

definition journal_failed :: "operation_journal \<Rightarrow> operation_journal" where
  "journal_failed j = j\<lparr>oj_state := mutex_recover (oj_state j) (\<lambda>s. s\<lparr>js_failure := Some history_uncertain\<rparr>)\<rparr>"

definition journal_poison :: "operation_journal \<Rightarrow> operation_journal" where
  "journal_poison j = j\<lparr>oj_state := (oj_state j)\<lparr>poisoned := True\<rparr>\<rparr>"

definition journal_transaction :: "sql_answers \<Rightarrow> (journal_table \<Rightarrow> journal_table embedded_result) \<Rightarrow> (operation_journal, unit) action" where
  "journal_transaction q mutation j =
     (case journal_ready j of
        Ok _ \<Rightarrow>
          (case and_then (journal_connection j) (\<lambda>_. and_then (sql_check (sa_begin q)) (\<lambda>_. Ok (mutation (oj_rows j)))) of
             Ok (Ok rows) \<Rightarrow>
               (case sa_commit q of
                  CommitOk \<Rightarrow> (Ok (), j\<lparr>oj_rows := rows\<rparr>)
                | CommitUncertain landed \<Rightarrow> (Err history_uncertain, journal_failed (if landed then j\<lparr>oj_rows := rows\<rparr> else j)))
           | Ok (Err e) \<Rightarrow>
               if sa_autocommit q \<or> sa_rollback q then (Err e, j) else (Err history_uncertain, journal_failed j)
           | Ok (Panic p) \<Rightarrow> (Panic p, journal_poison j)
           | Err e \<Rightarrow> (Err e, j)
           | Panic p \<Rightarrow> (Panic p, journal_poison j))
      | Err e \<Rightarrow> (Err e, j)
      | Panic p \<Rightarrow> (Panic p, j))"

section \<open>Writing\<close>

definition row_of :: "journal_codec \<Rightarrow> u64 \<Rightarrow> string \<Rightarrow> journal_row" where
  "row_of c revision document = \<lparr>row_revision = int revision, row_document = document, row_digest = jk_digest c document\<rparr>"

text \<open>What is decided before the transaction: the record and its encoding.\<close>

definition checkpoint_record ::
  "journal_codec \<Rightarrow> operation_journal_config \<Rightarrow> string \<Rightarrow> u64 option \<Rightarrow> operation_snapshot \<Rightarrow> (journal_operation \<times> string) embedded_result" where
  "checkpoint_record c cfg runtime_id previous snapshot =
     and_then (journal_validate_key cfg runtime_id (sn_operation_id snapshot)) (\<lambda>_.
     and_then (validate_callers runtime_id snapshot) (\<lambda>_.
     and_then (json_size (jk_snapshot c snapshot) (jc_max_record_bytes cfg)) (\<lambda>_.
     and_then (case previous of
         None \<Rightarrow> Ok 1
       | Some p \<Rightarrow> if 0 < p \<and> p < i64_max then Ok (p + 1) else Err (error_invalid ''operation history revision is exhausted or invalid'')) (\<lambda>revision.
     let r = \<lparr>jo_runtime_id = runtime_id, jo_revision = revision, jo_snapshot = snapshot, jo_reconciliation = None\<rparr> in
     and_then (journal_encode c cfg r) (\<lambda>document. Ok (r, document))))))"

definition same_checkpoint ::
  "journal_codec \<Rightarrow> operation_journal_config \<Rightarrow> bool \<Rightarrow> u64 \<Rightarrow> string \<Rightarrow> journal_operation option \<Rightarrow> bool embedded_result" where
  "same_checkpoint c cfg reconcile revision document current =
     (case current of
        None \<Rightarrow> Ok False
      | Some r \<Rightarrow>
          if reconcile \<and> jo_revision r = revision then and_then (journal_encode c cfg r) (\<lambda>d. Ok (d = document)) else Ok False)"

definition checkpoint_mutation ::
  "journal_codec \<Rightarrow> operation_journal_config \<Rightarrow> sql_answers \<Rightarrow> string \<Rightarrow> u64 option \<Rightarrow> operation_snapshot \<Rightarrow> bool \<Rightarrow> u64 \<Rightarrow> string \<Rightarrow>
   journal_table \<Rightarrow> journal_table embedded_result" where
  "checkpoint_mutation c cfg q runtime_id previous snapshot reconcile revision document rows =
     (let key = (runtime_id, sn_operation_id snapshot); written = bt_insert key (row_of c revision document) rows in
      and_then (journal_read c cfg q key rows) (\<lambda>current.
      and_then (same_checkpoint c cfg reconcile revision document current) (\<lambda>same.
        if same then Ok rows
        else case previous of
          None \<Rightarrow>
            if current \<noteq> None then Err (error_new AlreadyCompleted ''operation history identity already exists'')
            else
              and_then (sql_check (sa_count q)) (\<lambda>_.
                if length rows \<ge> jc_max_records cfg then Err history_capacity
                else and_then (sql_check (sa_write q)) (\<lambda>_. Ok written))
        | Some p \<Rightarrow>
            and_then (ok_or history_not_found current) (\<lambda>r.
              if jo_revision r \<noteq> p then Err history_stale
              else if sn_context (jo_snapshot r) \<noteq> sn_context snapshot
              then Err (error_invalid ''operation history context is immutable'')
              else
                and_then (validate_finalization_successor snapshot (jo_snapshot r)) (\<lambda>_.
                  if jo_reconciliation r \<noteq> None
                  then Err (error_new AlreadyCompleted ''reconciled operation history is immutable'')
                  else and_then (sql_check (sa_write q)) (\<lambda>_. Ok written))))))"

definition write_checkpoint ::
  "journal_codec \<Rightarrow> sql_answers \<Rightarrow> string \<Rightarrow> u64 option \<Rightarrow> operation_snapshot \<Rightarrow> bool \<Rightarrow> (operation_journal, journal_operation) action" where
  "write_checkpoint c q runtime_id previous snapshot reconcile =
     bind_action (try_read (\<lambda>j. checkpoint_record c (oj_config j) runtime_id previous snapshot)) (\<lambda>(r, document).
     bind_action (\<lambda>j. journal_transaction q
       (checkpoint_mutation c (oj_config j) q runtime_id previous snapshot reconcile (jo_revision r) document) j) (\<lambda>_.
     ret r))"

text \<open>The public entry points of \<^verbatim>\<open>journal.rs\<close>.\<close>

definition journal_insert :: "journal_codec \<Rightarrow> sql_answers \<Rightarrow> string \<Rightarrow> operation_snapshot \<Rightarrow> (operation_journal, journal_operation) action" where
  "journal_insert c q runtime_id snapshot = write_checkpoint c q runtime_id None snapshot False"

definition journal_replace :: "journal_codec \<Rightarrow> sql_answers \<Rightarrow> string \<Rightarrow> u64 \<Rightarrow> operation_snapshot \<Rightarrow> (operation_journal, journal_operation) action" where
  "journal_replace c q runtime_id expected snapshot = write_checkpoint c q runtime_id (Some expected) snapshot False"

definition journal_checkpoint ::
  "journal_codec \<Rightarrow> sql_answers \<Rightarrow> string \<Rightarrow> u64 option \<Rightarrow> operation_snapshot \<Rightarrow> (operation_journal, journal_operation) action" where
  "journal_checkpoint c q runtime_id previous snapshot = write_checkpoint c q runtime_id previous snapshot True"

section \<open>Forgetting and reconciling\<close>

definition unresolved :: "operation_snapshot \<Rightarrow> bool" where
  "unresolved s \<longleftrightarrow>
     \<not> is_terminal (sn_phase s) \<or> sn_effects s = UnknownEffect \<or>
     list_ex (\<lambda>e. he_phase e \<noteq> Completed \<or> he_effects e = UnknownEffect) (sn_host_effects s)"

definition forget_mutation ::
  "journal_codec \<Rightarrow> operation_journal_config \<Rightarrow> sql_answers \<Rightarrow> journal_key \<Rightarrow> u64 \<Rightarrow> journal_table \<Rightarrow> journal_table embedded_result" where
  "forget_mutation c cfg q key expected rows =
     and_then (journal_expect c cfg q key expected rows) (\<lambda>r.
       if jo_reconciliation r = None \<and> unresolved (jo_snapshot r)
       then Err (error_new Busy ''unresolved operation history cannot be forgotten'')
       else and_then (sql_check (sa_write q)) (\<lambda>_. Ok (bt_remove key rows)))"

definition journal_forget :: "journal_codec \<Rightarrow> sql_answers \<Rightarrow> string \<Rightarrow> string \<Rightarrow> u64 \<Rightarrow> (operation_journal, unit) action" where
  "journal_forget c q runtime_id operation_id expected =
     bind_action (try_read (\<lambda>j. journal_validate_key (oj_config j) runtime_id operation_id)) (\<lambda>_ j.
       journal_transaction q (forget_mutation c (oj_config j) q (runtime_id, operation_id) expected) j)"

definition reconcile_mutation ::
  "journal_codec \<Rightarrow> operation_journal_config \<Rightarrow> sql_answers \<Rightarrow> journal_key \<Rightarrow> u64 \<Rightarrow> operation_reconciliation \<Rightarrow> journal_table \<Rightarrow>
   journal_table embedded_result" where
  "reconcile_mutation c cfg q key expected resolution rows =
     and_then (journal_read c cfg q key rows) (\<lambda>found.
     and_then (ok_or history_not_found found) (\<lambda>r.
       if jo_revision r = expected + 1 \<and> jo_reconciliation r = Some resolution then Ok rows
       else if jo_revision r \<noteq> expected then Err history_stale
       else if jo_reconciliation r \<noteq> None
       then Err (error_new AlreadyCompleted ''operation history already has a final reconciliation'')
       else
         and_then (reconciliation_validate resolution (jo_snapshot r)) (\<lambda>_.
         and_then (journal_encode c cfg (r\<lparr>jo_revision := expected + 1, jo_reconciliation := Some resolution\<rparr>)) (\<lambda>document.
         and_then (sql_check (sa_write q)) (\<lambda>_. Ok (bt_insert key (row_of c (expected + 1) document) rows))))))"

definition journal_reconcile ::
  "journal_codec \<Rightarrow> sql_answers \<Rightarrow> string \<Rightarrow> string \<Rightarrow> u64 \<Rightarrow> operation_reconciliation \<Rightarrow> (operation_journal, u64) action" where
  "journal_reconcile c q runtime_id operation_id expected resolution =
     bind_action (try_read (\<lambda>j.
       and_then (journal_validate_key (oj_config j) runtime_id operation_id) (\<lambda>_.
       and_then (json_size (jk_resolution c resolution) (jc_max_record_bytes (oj_config j))) (\<lambda>_.
         if expected = 0 \<or> expected \<ge> i64_max then Err (error_invalid ''operation history revision is exhausted or invalid'') else Ok ())))) (\<lambda>_.
     bind_action (\<lambda>j. journal_transaction q (reconcile_mutation c (oj_config j) q (runtime_id, operation_id) expected resolution) j) (\<lambda>_.
     ret (expected + 1)))"

section \<open>Queries\<close>

definition journal_get :: "journal_codec \<Rightarrow> sql_answers \<Rightarrow> string \<Rightarrow> string \<Rightarrow> operation_journal \<Rightarrow> journal_operation option embedded_result" where
  "journal_get c q runtime_id operation_id j =
     and_then (journal_validate_key (oj_config j) runtime_id operation_id) (\<lambda>_.
     and_then (journal_ready j) (\<lambda>_.
     and_then (journal_connection j) (\<lambda>_.
     journal_read c (oj_config j) q (runtime_id, operation_id) (oj_rows j))))"

definition row_after :: "journal_key option \<Rightarrow> journal_table \<Rightarrow> (journal_key \<times> journal_row) option" where
  "row_after after rows = find (\<lambda>e. case after of None \<Rightarrow> True | Some k \<Rightarrow> k < fst e) rows"

definition journal_next :: "journal_codec \<Rightarrow> sql_answers \<Rightarrow> journal_key option \<Rightarrow> operation_journal \<Rightarrow> journal_operation option embedded_result" where
  "journal_next c q after j =
     and_then (case after of None \<Rightarrow> Ok () | Some k \<Rightarrow> journal_validate_key (oj_config j) (fst k) (snd k)) (\<lambda>_.
     and_then (journal_ready j) (\<lambda>_.
     and_then (journal_connection j) (\<lambda>_.
     and_then (sql_check (sa_read q)) (\<lambda>_.
       case row_after after (oj_rows j) of
         None \<Rightarrow> Ok None
       | Some (key, row) \<Rightarrow> and_then (journal_decode c (oj_config j) key row) (\<lambda>r. Ok (Some r))))))"

section \<open>Opening and recovery\<close>

text \<open>The statements of \<^verbatim>\<open>validate_contents\<close> are numbered in the order it runs them.\<close>

fun decode_rows :: "journal_codec \<Rightarrow> operation_journal_config \<Rightarrow> (nat \<Rightarrow> sql_failure option) \<Rightarrow> journal_table \<Rightarrow> unit embedded_result" where
  "decode_rows c cfg q [] = sql_check (q 0)"
| "decode_rows c cfg q ((key, row) # rows) =
     and_then (sql_check (q 0)) (\<lambda>_.
     and_then (journal_decode c cfg key row) (\<lambda>_. decode_rows c cfg (\<lambda>n. q (Suc n)) rows))"

definition validate_contents ::
  "journal_codec \<Rightarrow> operation_journal_config \<Rightarrow> (nat \<Rightarrow> sql_failure option) \<Rightarrow> journal_table \<Rightarrow> unit embedded_result" where
  "validate_contents c cfg q rows =
     and_then (sql_check (q 0)) (\<lambda>_.
       if length rows > jc_max_records cfg then Err history_capacity
       else
         and_then (sql_check (q 1)) (\<lambda>_.
         and_then (sql_check (q 2)) (\<lambda>_. decode_rows c cfg (\<lambda>n. q (n + 3)) rows)))"

text \<open>\<open>opened\<close> is the outcome of opening the file and \<open>rows\<close> what it holds.\<close>

definition journal_open ::
  "journal_codec \<Rightarrow> unit embedded_result \<Rightarrow> (nat \<Rightarrow> sql_failure option) \<Rightarrow> operation_journal_config \<Rightarrow> journal_table \<Rightarrow>
   operation_journal embedded_result" where
  "journal_open c opened q cfg rows =
     and_then opened (\<lambda>_.
     let j = \<lparr>oj_config = cfg, oj_state = mutex_new \<lparr>js_connection = True, js_failure = None\<rparr>, oj_rows = rows\<rparr> in
     and_then (journal_ready j) (\<lambda>_.
     and_then (journal_connection j) (\<lambda>_.
     and_then (validate_contents c cfg q rows) (\<lambda>_. Ok j))))"

definition recover_storage ::
  "journal_codec \<Rightarrow> sql_failure option \<Rightarrow> unit embedded_result \<Rightarrow> (nat \<Rightarrow> sql_failure option) \<Rightarrow> (operation_journal, bool) action" where
  "recover_storage c closed opened q j =
     (if poisoned (oj_state j) then (Err history_lock_poisoned, j)
      else if js_failure (guarded (oj_state j)) = None then (Ok False, j)
      else if js_connection (guarded (oj_state j)) \<and> closed \<noteq> None then (Err (storage_error (the closed)), j)
      else
        let j' = j\<lparr>oj_state := mutex_recover (oj_state j) (\<lambda>s. s\<lparr>js_connection := False\<rparr>)\<rparr> in
        case and_then opened (\<lambda>_. validate_contents c (oj_config j) q (oj_rows j)) of
          Ok _ \<Rightarrow> (Ok True, j\<lparr>oj_state := mutex_new \<lparr>js_connection = True, js_failure = None\<rparr>\<rparr>)
        | Err e \<Rightarrow> (Err e, j')
        | Panic p \<Rightarrow> (Panic p, journal_poison j'))"

end
