(* ===== verification/Journal_Inv.thy ===== *)
theory Journal_Inv
  imports Journal_Store
begin

text \<open>
  What the durable history means: the table is a map from identities to entries, a row that decodes to a
  record under its own identity or one that does not decode. Each call changes that map by one step of
  an abstract history, or not at all.
\<close>

section \<open>The contract of the codec\<close>

text \<open>
  \<^verbatim>\<open>serde_json\<close> as the crate is configured writes a number that is no integer so that reading it back is
  only approximate, and it refuses to read documents nested 128 deep or more. What it reads back exactly
  are values whose numbers are integers of 64 bits, whose objects are in the order of \<^verbatim>\<open>BTreeMap\<close>, and
  whose nesting, with the four objects a record puts around them, stays below that limit.
\<close>

definition integer_text :: "string \<Rightarrow> bool" where
  "integer_text t =
     (let negative = (take 1 t = ''-''); digits = (if negative then drop 1 t else t);
          value = foldl (\<lambda>n c. 10 * n + (of_char c - 48)) (0 :: nat) digits
      in list_all (\<lambda>c. c \<in> set ''0123456789'') digits \<and>
         (if negative then digits \<noteq> [] \<and> hd digits \<noteq> CHR ''0'' \<and> value \<le> 9223372036854775808
          else digits = ''0'' \<or> digits \<noteq> [] \<and> hd digits \<noteq> CHR ''0'' \<and> value \<le> 18446744073709551615))"

fun json_exact :: "json_value \<Rightarrow> bool" where
  "json_exact (VNumber t) = integer_text t"
| "json_exact (VArray vs) = list_all json_exact vs"
| "json_exact (VObject kvs) = (sorted_wrt (<) (map fst kvs) \<and> list_all (\<lambda>(_, v). json_exact v) kvs)"
| "json_exact _ = True"

fun json_depth :: "json_value \<Rightarrow> nat" where
  "json_depth (VArray vs) = Suc (foldr (\<lambda>v n. max (json_depth v) n) vs 0)"
| "json_depth (VObject kvs) = Suc (foldr (\<lambda>(_, v) n. max (json_depth v) n) kvs 0)"
| "json_depth _ = 0"

fun outcome_values :: "operation_outcome \<Rightarrow> json_value list" where
  "outcome_values (Succeeded v) = [v]"
| "outcome_values (Failed e) = []"

definition snapshot_values :: "operation_snapshot \<Rightarrow> json_value list" where
  "snapshot_values s =
     (case sn_value s of None \<Rightarrow> [] | Some v \<Rightarrow> [v]) @
     (case sn_finalization s of None \<Rightarrow> []
      | Some f \<Rightarrow> outcome_values (fin_business f) @ (case fin_outcome f of None \<Rightarrow> [] | Some x \<Rightarrow> outcome_values x))"

definition snapshot_exact :: "operation_snapshot \<Rightarrow> bool" where
  "snapshot_exact s = list_all (\<lambda>v. json_exact v \<and> json_depth v + 4 < 128) (snapshot_values s)"

abbreviation record_exact :: "journal_operation \<Rightarrow> bool" where
  "record_exact r \<equiv> snapshot_exact (jo_snapshot r)"

text \<open>Everything of a snapshot but its JSON values.\<close>

fun outcome_shape :: "operation_outcome \<Rightarrow> operation_outcome" where
  "outcome_shape (Succeeded v) = Succeeded VNull"
| "outcome_shape (Failed e) = Failed e"

definition snapshot_shape :: "operation_snapshot \<Rightarrow> operation_snapshot" where
  "snapshot_shape s = s\<lparr>sn_value := map_option (\<lambda>_. VNull) (sn_value s),
     sn_finalization := map_option (\<lambda>f. f\<lparr>fin_business := outcome_shape (fin_business f), fin_outcome := map_option outcome_shape (fin_outcome f)\<rparr>)
       (sn_finalization s)\<rparr>"

definition record_shape :: "journal_operation \<Rightarrow> journal_operation" where
  "record_shape r = r\<lparr>jo_snapshot := snapshot_shape (jo_snapshot r)\<rparr>"

lemma same_shape:
  assumes "record_shape r = record_shape p"
  shows "jo_runtime_id r = jo_runtime_id p" "jo_revision r = jo_revision p" "jo_reconciliation r = jo_reconciliation p"
    "sn_operation_id (jo_snapshot r) = sn_operation_id (jo_snapshot p)" "sn_context (jo_snapshot r) = sn_context (jo_snapshot p)"
    "sn_phase (jo_snapshot r) = sn_phase (jo_snapshot p)" "sn_effects (jo_snapshot r) = sn_effects (jo_snapshot p)"
    "sn_host_effects (jo_snapshot r) = sn_host_effects (jo_snapshot p)" "sn_error (jo_snapshot r) = sn_error (jo_snapshot p)"
proof -
  have s: "snapshot_shape (jo_snapshot r) = snapshot_shape (jo_snapshot p)" using arg_cong [OF assms, of jo_snapshot] by (simp add: record_shape_def)
  show "jo_runtime_id r = jo_runtime_id p" "jo_revision r = jo_revision p" "jo_reconciliation r = jo_reconciliation p"
    using arg_cong [OF assms, of jo_runtime_id] arg_cong [OF assms, of jo_revision] arg_cong [OF assms, of jo_reconciliation]
    by (simp_all add: record_shape_def)
  show "sn_operation_id (jo_snapshot r) = sn_operation_id (jo_snapshot p)" "sn_context (jo_snapshot r) = sn_context (jo_snapshot p)"
    "sn_phase (jo_snapshot r) = sn_phase (jo_snapshot p)" "sn_effects (jo_snapshot r) = sn_effects (jo_snapshot p)"
    "sn_host_effects (jo_snapshot r) = sn_host_effects (jo_snapshot p)" "sn_error (jo_snapshot r) = sn_error (jo_snapshot p)"
    using arg_cong [OF s, of sn_operation_id] arg_cong [OF s, of sn_context] arg_cong [OF s, of sn_phase] arg_cong [OF s, of sn_effects]
      arg_cong [OF s, of sn_host_effects] arg_cong [OF s, of sn_error] by (simp_all add: snapshot_shape_def)
qed

text \<open>
  What is relied on: the size counter sees as many bytes as are written; no two records are written
  alike; what a document reads back as differs from what was written in JSON values at most; and a
  record with exact values is read back as it was.
\<close>

definition codec_ok :: "journal_codec \<Rightarrow> bool" where
  "codec_ok c \<longleftrightarrow>
     (\<forall>r d. jk_to_vec c r = Some d \<longrightarrow> length d = ser_length (jk_record c r)) \<and>
     (\<forall>r p d. jk_to_vec c r = Some d \<and> jk_to_vec c p = Some d \<longrightarrow> r = p) \<and>
     (\<forall>r p d. jk_to_vec c r = Some d \<and> jk_from_slice c d = Some p \<longrightarrow> record_shape p = record_shape r) \<and>
     (\<forall>r d. jk_to_vec c r = Some d \<and> record_exact r \<longrightarrow> jk_from_slice c d = Some r)"

lemma codec_okD:
  assumes "codec_ok c" "jk_to_vec c r = Some d"
  shows "length d = ser_length (jk_record c r)" "jk_to_vec c p = Some d \<Longrightarrow> r = p"
    "jk_from_slice c d = Some p \<Longrightarrow> record_shape p = record_shape r" "record_exact r \<Longrightarrow> jk_from_slice c d = Some r"
  using assms unfolding codec_ok_def by blast+

section \<open>Records and rows\<close>

text \<open>A record a row may hold.\<close>

definition record_valid :: "journal_operation \<Rightarrow> bool" where
  "record_valid r \<longleftrightarrow>
     jo_runtime_id r \<noteq> [] \<and> sn_operation_id (jo_snapshot r) \<noteq> [] \<and>
     validate_callers (jo_runtime_id r) (jo_snapshot r) = Ok () \<and> 0 < jo_revision r \<and> jo_revision r \<le> i64_max \<and>
     (case jo_reconciliation r of None \<Rightarrow> True
      | Some x \<Rightarrow> 2 \<le> jo_revision r \<and> reconciliation_validate x (jo_snapshot r) = Ok ())"

lemma replace_error_Ok [simp]: "replace_error e z = Ok x \<longleftrightarrow> z = Ok x"
  by (cases z) auto

lemma replace_error_panic [simp]: "is_panic (replace_error e z) = is_panic z"
  by (cases z) auto

lemma validate_key_nonempty: "journal_validate_key cfg a b = Ok () \<Longrightarrow> a \<noteq> [] \<and> b \<noteq> []"
  by (auto simp: journal_validate_key_def split: if_splits)

lemma encode_Ok:
  "journal_encode c cfg r = Ok d \<longleftrightarrow>
     journal_validate_key cfg (jo_runtime_id r) (sn_operation_id (jo_snapshot r)) = Ok () \<and>
     ser_length (jk_record c r) \<le> jc_max_record_bytes cfg \<and> \<not> ser_failed (jk_record c r) \<and> jk_to_vec c r = Some d"
  by (auto simp: journal_encode_def)

lemma decode_Ok:
  assumes "journal_decode c cfg key row = Ok r"
  shows "journal_key r = key" "jk_from_slice c (row_document row) = Some r" "validate_callers (fst key) (jo_snapshot r) = Ok ()"
    "0 < jo_revision r" "fst key \<noteq> []" "snd key \<noteq> []"
    "jo_reconciliation r = Some x \<Longrightarrow> 2 \<le> jo_revision r \<and> reconciliation_validate x (jo_snapshot r) = Ok ()"
  using assms by (auto simp: journal_decode_def prod_eq_iff split: if_splits option.splits)

lemma caller_validate_not_panic [simp]: "\<not> is_panic (caller_validate c r)"
  by (auto simp: caller_validate_def)

lemma finalization_not_panic [simp]: "\<not> is_panic (validate_finalization s)"
  by (auto simp: validate_finalization_def Let_def split: option.split)

lemma successor_not_panic [simp]: "\<not> is_panic (validate_finalization_successor s p)"
  by (auto simp: validate_finalization_successor_def split: option.split)

lemma context_validate_quiet [simp]: "\<not> is_panic (context_validate x a b)"
  by (auto simp: context_validate_def split: operation_context.split)

lemma callers_not_panic [simp]: "\<not> is_panic (check_effect_callers a s es)" "\<not> is_panic (validate_callers a s)"
proof -
  show c: "\<not> is_panic (check_effect_callers a s es)" for es by (induction es) auto
  show "\<not> is_panic (validate_callers a s)" using c by (simp add: validate_callers_def)
qed

lemma reading_not_panic [simp]:
  "\<not> is_panic (journal_validate_key cfg a b)" "\<not> is_panic (journal_encode c cfg r)" "\<not> is_panic (journal_decode c cfg key row)"
  "\<not> is_panic (sql_check f)" "\<not> is_panic (journal_read c cfg q key rows)" "\<not> is_panic (journal_expect c cfg q key n rows)"
  by (auto simp: journal_validate_key_def journal_encode_def journal_decode_def sql_check_def journal_read_def journal_expect_def split: option.split)

section \<open>The history a table holds\<close>

datatype history_entry = NoEntry | Unreadable | Entry journal_operation

type_synonym journal_history = "journal_key \<Rightarrow> history_entry"

definition entry_of :: "journal_operation embedded_result \<Rightarrow> history_entry" where
  "entry_of z = (case z of Ok r \<Rightarrow> Entry r | _ \<Rightarrow> Unreadable)"

definition history_in :: "journal_codec \<Rightarrow> operation_journal_config \<Rightarrow> journal_table \<Rightarrow> journal_history" where
  "history_in c cfg rows key = (case bt_get rows key of None \<Rightarrow> NoEntry | Some row \<Rightarrow> entry_of (journal_decode c cfg key row))"

text \<open>
  What is found where \<open>r\<close> was written: a record that differs from it in JSON values at most, or a row
  that cannot be read; with exact values \<open>r\<close> itself.
\<close>

definition written_as :: "journal_operation \<Rightarrow> history_entry \<Rightarrow> bool" where
  "written_as r e =
     (case e of
        NoEntry \<Rightarrow> False
      | Unreadable \<Rightarrow> \<not> record_exact r
      | Entry p \<Rightarrow> record_shape p = record_shape r \<and> (record_exact r \<longrightarrow> p = r))"

lemma written_as_simps [simp]:
  "\<not> written_as r NoEntry" "written_as r Unreadable \<longleftrightarrow> \<not> record_exact r" "written_as r (Entry r)"
  "written_as r (Entry p) \<longleftrightarrow> record_shape p = record_shape r \<and> (record_exact r \<longrightarrow> p = r)"
  by (simp_all add: written_as_def)

lemma written_exact: "written_as r e \<Longrightarrow> record_exact r \<Longrightarrow> e = Entry r"
  by (cases e) simp_all

lemma decode_written:
  assumes "codec_ok c" "record_valid r" "journal_encode c cfg r = Ok d"
  shows "written_as r (entry_of (journal_decode c cfg (journal_key r) (row_of c (jo_revision r) d)))"
proof -
  have w: "jk_to_vec c r = Some d" using assms(3) by (simp add: encode_Ok)
  have len: "length d \<le> jc_max_record_bytes cfg" using assms(3) codec_okD(1) [OF assms(1) w] by (simp add: encode_Ok)
  have exact: "journal_decode c cfg (journal_key r) (row_of c (jo_revision r) d) = Ok r" if "record_exact r"
    using assms(2) len codec_okD(4) [OF assms(1) w that] validate_key_nonempty
    by (auto simp: journal_decode_def row_of_def record_valid_def split: option.splits)
  show ?thesis
  proof (cases "journal_decode c cfg (journal_key r) (row_of c (jo_revision r) d)")
    case (Ok p)
    then have "jk_from_slice c d = Some p" using decode_Ok(2) [OF Ok] by (simp add: row_of_def)
    then show ?thesis using codec_okD(3) [OF assms(1) w] exact Ok by (auto simp: entry_of_def)
  qed (use exact in \<open>auto simp: entry_of_def\<close>)
qed

definition table_inv :: "operation_journal_config \<Rightarrow> journal_table \<Rightarrow> bool" where
  "table_inv cfg rows \<longleftrightarrow>
     bt_wf rows \<and> length rows \<le> jc_max_records cfg \<and> (\<forall>key row. bt_get rows key = Some row \<longrightarrow> row_revision row \<le> int i64_max)"

lemma table_invD:
  assumes "table_inv cfg rows"
  shows "bt_wf rows" "length rows \<le> jc_max_records cfg" "bt_get rows key = Some row \<Longrightarrow> row_revision row \<le> int i64_max"
  using assms unfolding table_inv_def by blast+

lemma history_NoEntry: "history_in c cfg rows key = NoEntry \<longleftrightarrow> bt_get rows key = None"
  by (auto simp: history_in_def entry_of_def split: option.splits outcome.splits)

lemma history_valid:
  assumes "table_inv cfg rows" "history_in c cfg rows key = Entry r"
  shows "record_valid r \<and> journal_key r = key"
proof -
  obtain row where row: "bt_get rows key = Some row" "journal_decode c cfg key row = Ok r"
    using assms(2) by (auto simp: history_in_def entry_of_def split: option.splits outcome.splits)
  have "int (jo_revision r) = row_revision row" using row(2) by (auto simp: journal_decode_def split: if_splits option.splits)
  then show ?thesis using decode_Ok [OF row(2)] table_invD(3) [OF assms(1) row(1)] by (auto simp: record_valid_def split: option.split)
qed

lemma read_history:
  "journal_read c cfg q key rows = Ok found \<longleftrightarrow>
     sa_read q = None \<and> history_in c cfg rows key = (case found of None \<Rightarrow> NoEntry | Some r \<Rightarrow> Entry r)"
  by (cases "bt_get rows key"; cases "sa_read q")
    (auto simp: journal_read_def sql_check_def history_in_def entry_of_def split: option.splits outcome.splits)

lemma history_write:
  assumes "codec_ok c" "table_inv cfg rows" "record_valid r" "journal_encode c cfg r = Ok d"
    and "history_in c cfg rows (journal_key r) \<noteq> NoEntry \<or> length rows < jc_max_records cfg"
  shows "table_inv cfg (bt_insert (journal_key r) (row_of c (jo_revision r) d) rows) \<and>
    (\<exists>e. written_as r e \<and> history_in c cfg (bt_insert (journal_key r) (row_of c (jo_revision r) d) rows) = (history_in c cfg rows)(journal_key r := e))"
proof -
  note w = decode_written [OF assms(1,3,4)] and t = table_invD [OF assms(2)]
  have "length (bt_insert (journal_key r) (row_of c (jo_revision r) d) rows) \<le> jc_max_records cfg"
    using bt.length_put [OF t(1), of "journal_key r" "row_of c (jo_revision r) d"] t(2) assms(5) by (auto simp: history_NoEntry)
  moreover have "row_revision (row_of c (jo_revision r) d) \<le> int i64_max" using assms(3) by (simp add: row_of_def record_valid_def)
  ultimately show ?thesis
    using t(1) assms(2) w by (auto simp: table_inv_def history_in_def fun_eq_iff simp del: split_paired_All split_paired_Ex)
qed

lemma history_remove:
  assumes "table_inv cfg rows"
  shows "table_inv cfg (bt_remove key rows) \<and> history_in c cfg (bt_remove key rows) = (history_in c cfg rows)(key := NoEntry)"
proof -
  note t = table_invD [OF assms]
  have "length (bt_remove key rows) \<le> length rows" using bt.length_del [OF t(1), of key] by auto
  then show ?thesis using t(1,2) assms by (auto simp: table_inv_def history_in_def fun_eq_iff bt_get_remove simp del: split_paired_All split_paired_Ex split: if_splits)
qed

section \<open>The abstract history\<close>

text \<open>
  What may happen to the history of one operation: it is created with revision 1, a checkpoint
  succeeds its predecessor with the next revision and the same context, a reconciliation closes it,
  and only a resolved one is forgotten. A row that cannot be read is never changed again.
\<close>

inductive history_step :: "journal_history \<Rightarrow> journal_history \<Rightarrow> bool" where
  history_created:
    "h (journal_key r) = NoEntry \<Longrightarrow> jo_revision r = 1 \<Longrightarrow> jo_reconciliation r = None \<Longrightarrow> written_as r e \<Longrightarrow> history_step h (h(journal_key r := e))"
| history_succeeded:
    "h (journal_key r) = Entry p \<Longrightarrow> jo_revision r = Suc (jo_revision p) \<Longrightarrow> sn_context (jo_snapshot r) = sn_context (jo_snapshot p) \<Longrightarrow>
     validate_finalization_successor (jo_snapshot r) (jo_snapshot p) = Ok () \<Longrightarrow> jo_reconciliation p = None \<Longrightarrow> jo_reconciliation r = None \<Longrightarrow>
     written_as r e \<Longrightarrow> history_step h (h(journal_key r := e))"
| history_reconciled:
    "h key = Entry p \<Longrightarrow> jo_reconciliation p = None \<Longrightarrow> reconciliation_validate x (jo_snapshot p) = Ok () \<Longrightarrow>
     written_as (p\<lparr>jo_revision := Suc (jo_revision p), jo_reconciliation := Some x\<rparr>) e \<Longrightarrow> history_step h (h(key := e))"
| history_forgotten:
    "h key = Entry p \<Longrightarrow> jo_reconciliation p \<noteq> None \<or> \<not> unresolved (jo_snapshot p) \<Longrightarrow> history_step h (h(key := NoEntry))"

end
