(* ===== verification/Journal_Worker.thy ===== *)
theory Journal_Worker
  imports Operation_Owner Journal_Inv
begin

text \<open>
  The journal worker (\<^verbatim>\<open>runtime/embedded/journal/worker.rs\<close>, \<^verbatim>\<open>worker/recovery.rs\<close>): a bounded queue of
  checkpoints, one thread that writes them, and receipts that observe each write to its end.

  A receipt is an \<^verbatim>\<open>Arc<ReceiptState>\<close>: its number in the order of submission. \<open>wk_handles\<close> are the
  receipts clients hold; the queue, the active slot and the thread hold the others. The destructor of
  a receipt runs when the last of them lets go. The thread is modelled by the place in \<^verbatim>\<open>run\<close> and
  \<^verbatim>\<open>fail\<close> it has reached; each place is left by one section under one lock. The journal is the trait
  object \<^verbatim>\<open>OperationJournalBackend\<close>: \<open>write\<close> is its \<^verbatim>\<open>write_checkpoint\<close>, with what the storage
  answers as its first argument, and \<open>validate\<close> its \<^verbatim>\<open>validate_key\<close>. Condition variables only wake
  the thread; a wait is a step that changes nothing.
\<close>

section \<open>State\<close>

record operation_journal_worker_config =
  wf_max_pending_writes :: usize
  wf_max_pending_bytes :: usize

definition worker_config_validate :: "operation_journal_worker_config \<Rightarrow> unit embedded_result" where
  "worker_config_validate cfg =
     (if wf_max_pending_writes cfg = 0 \<or> wf_max_pending_bytes cfg = 0
      then Err (error_invalid ''journal worker limits must be positive'') else Ok ())"

record write_request =
  wq_reconcile :: bool
  wq_runtime_id :: string
  wq_expected_revision :: "u64 option"
  wq_snapshot :: operation_snapshot

record receipt_state =
  rc_request :: write_request
  rc_bytes :: usize
  rc_snapshot :: "journal_write_snapshot mutex"

record writer_state =
  ws_close_requested :: bool
  ws_queued :: "nat list"
  ws_active :: "nat option"
  ws_pending_writes :: usize
  ws_pending_bytes :: usize
  ws_failure :: "embedded_error option"

datatype writer_thread =
    ThreadIdle
  | ThreadPopped nat
  | ThreadWriting nat
  | ThreadWritten nat "embedded_error + u64"
  | ThreadPublished nat
  | ThreadCleared nat
  | ThreadUnwound embedded_error
  | ThreadFailing embedded_error "nat list"
  | ThreadDropping embedded_error nat "nat list"
  | ThreadFinished
  | ThreadPanicked

record thread_owner =
  to_handle :: bool
  to_unproven_exit :: bool

record 'j journal_worker =
  wk_config :: operation_journal_worker_config
  wk_journal :: 'j
  wk_state :: "writer_state mutex"
  wk_receipts :: "receipt_state list"
  wk_handles :: "nat list"
  wk_thread :: writer_thread
  wk_owner :: "thread_owner mutex"

record operation_journal_worker_status =
  wt_pending_writes :: usize
  wt_pending_bytes :: usize
  wt_queued_writes :: usize
  wt_writing :: bool
  wt_closing :: bool
  wt_worker_exited :: bool
  wt_failure :: "embedded_error option"

definition worker_poisoned :: embedded_error where
  "worker_poisoned = error_new Internal ''journal worker ownership lock is poisoned''"

definition admission_closed :: "writer_state \<Rightarrow> bool" where
  "admission_closed st \<longleftrightarrow> ws_close_requested st \<or> ws_failure st \<noteq> None"

abbreviation wk_st :: "'j journal_worker \<Rightarrow> writer_state" where
  "wk_st w \<equiv> guarded (wk_state w)"

definition update_state :: "(writer_state \<Rightarrow> writer_state) \<Rightarrow> 'j journal_worker \<Rightarrow> 'j journal_worker" where
  "update_state f w = w\<lparr>wk_state := mutex_recover (wk_state w) f\<rparr>"

section \<open>Receipts\<close>

definition receipt_complete :: "embedded_error + u64 \<Rightarrow> receipt_state \<Rightarrow> receipt_state" where
  "receipt_complete result rc =
     rc\<lparr>rc_snapshot := mutex_recover (rc_snapshot rc) (\<lambda>s.
       if jw_phase s = WriteCompleted then s
       else case result of
         Inr revision \<Rightarrow> s\<lparr>jw_phase := WriteCompleted, jw_revision := Some revision\<rparr>
       | Inl e \<Rightarrow> s\<lparr>jw_phase := WriteCompleted, jw_error := Some e\<rparr>)\<rparr>"

definition update_receipt :: "nat \<Rightarrow> (receipt_state \<Rightarrow> receipt_state) \<Rightarrow> 'j journal_worker \<Rightarrow> 'j journal_worker" where
  "update_receipt r f w = w\<lparr>wk_receipts := (wk_receipts w)[r := f (wk_receipts w ! r)]\<rparr>"

fun thread_holds :: "writer_thread \<Rightarrow> nat list" where
  "thread_holds (ThreadPopped r) = [r]"
| "thread_holds (ThreadWriting r) = [r]"
| "thread_holds (ThreadWritten r _) = [r]"
| "thread_holds (ThreadPublished r) = [r]"
| "thread_holds (ThreadCleared r) = [r]"
| "thread_holds (ThreadFailing _ rs) = rs"
| "thread_holds (ThreadDropping _ r rs) = r # rs"
| "thread_holds _ = []"

definition receipt_owned :: "'j journal_worker \<Rightarrow> nat \<Rightarrow> bool" where
  "receipt_owned w r \<longleftrightarrow>
     r \<in> set (ws_queued (wk_st w)) \<or> ws_active (wk_st w) = Some r \<or> r \<in> set (thread_holds (wk_thread w)) \<or> r \<in> set (wk_handles w)"

text \<open>\<^verbatim>\<open>ReceiptState::drop\<close>; an unchecked decrement below zero panics and poisons the lock it holds.\<close>

definition receipt_drop :: "nat \<Rightarrow> 'j journal_worker \<Rightarrow> 'j journal_worker" where
  "receipt_drop r w =
     (case (checked_sub (ws_pending_writes (wk_st w)) 1, checked_sub (ws_pending_bytes (wk_st w)) (rc_bytes (wk_receipts w ! r))) of
        (Some writes, Some bytes) \<Rightarrow> update_state (\<lambda>st. st\<lparr>ws_pending_writes := writes, ws_pending_bytes := bytes\<rparr>) w
      | _ \<Rightarrow> w\<lparr>wk_state := (wk_state w)\<lparr>poisoned := True\<rparr>\<rparr>)"

text \<open>
  One holder lets go of the receipt. When it was the last one, its destructor locks the state and
  releases what the receipt counted; until then nobody else can see that the handle is gone, so the
  two are one step, at the moment of that lock.
\<close>

definition release_receipt :: "nat \<Rightarrow> 'j journal_worker \<Rightarrow> 'j journal_worker" where
  "release_receipt r w = (if receipt_owned w r then w else receipt_drop r w)"

definition receipt_clone :: "nat \<Rightarrow> 'j journal_worker \<Rightarrow> 'j journal_worker" where
  "receipt_clone r w = w\<lparr>wk_handles := r # wk_handles w\<rparr>"

definition receipt_handle_drop :: "nat \<Rightarrow> 'j journal_worker \<Rightarrow> 'j journal_worker" where
  "receipt_handle_drop r w = release_receipt r (w\<lparr>wk_handles := remove1 r (wk_handles w)\<rparr>)"

definition receipt_snapshot :: "nat \<Rightarrow> 'j journal_worker \<Rightarrow> journal_write_snapshot embedded_result" where
  "receipt_snapshot r w =
     (if poisoned (rc_snapshot (wk_receipts w ! r)) then Err worker_poisoned else Ok (guarded (rc_snapshot (wk_receipts w ! r))))"

section \<open>Admission\<close>

definition worker_new :: "'j \<Rightarrow> operation_journal_worker_config \<Rightarrow> bool \<Rightarrow> 'j journal_worker embedded_result" where
  "worker_new journal cfg spawned =
     and_then (worker_config_validate cfg) (\<lambda>_.
       if \<not> spawned then Err (error_new Internal ''journal worker creation failed'')
       else Ok \<lparr>wk_config = cfg, wk_journal = journal,
         wk_state = mutex_new \<lparr>ws_close_requested = False, ws_queued = [], ws_active = None, ws_pending_writes = 0, ws_pending_bytes = 0, ws_failure = None\<rparr>,
         wk_receipts = [], wk_handles = [], wk_thread = ThreadIdle, wk_owner = mutex_new \<lparr>to_handle = True, to_unproven_exit = False\<rparr>\<rparr>)"

definition submit_request ::
  "('j \<Rightarrow> string \<Rightarrow> string \<Rightarrow> unit embedded_result) \<Rightarrow> (write_request \<Rightarrow> serialization) \<Rightarrow> string \<Rightarrow> u64 option \<Rightarrow> operation_snapshot \<Rightarrow> bool \<Rightarrow>
   ('j journal_worker, nat) action" where
  "submit_request validate ser runtime_id expected snapshot reconcile w =
     (let request = \<lparr>wq_reconcile = reconcile, wq_runtime_id = runtime_id, wq_expected_revision = expected, wq_snapshot = snapshot\<rparr> in
      case
        and_then (validate (wk_journal w) runtime_id (sn_operation_id snapshot)) (\<lambda>_.
        if (case expected of None \<Rightarrow> False | Some n \<Rightarrow> n = 0 \<or> n \<ge> i64_max)
        then Err (error_invalid ''journal write revision is invalid or exhausted'')
        else
          and_then (json_size (ser request) (wf_max_pending_bytes (wk_config w))) (\<lambda>bytes.
            if poisoned (wk_state w) then Err worker_poisoned
            else if admission_closed (wk_st w) then Err (error_new Closed ''journal worker is closing'')
            else if ws_pending_writes (wk_st w) \<ge> wf_max_pending_writes (wk_config w)
              \<or> bytes > saturating_sub (wf_max_pending_bytes (wk_config w)) (ws_pending_bytes (wk_st w))
            then Err (error_new CapacityExceeded ''journal worker receipt capacity reached'')
            else Ok bytes))
      of
        Ok bytes \<Rightarrow>
          (let r = length (wk_receipts w) in
           (Ok r,
            (update_state (\<lambda>st. st\<lparr>ws_pending_writes := ws_pending_writes st + 1, ws_pending_bytes := ws_pending_bytes st + bytes,
               ws_queued := ws_queued st @ [r]\<rparr>) w)
            \<lparr>wk_receipts := wk_receipts w @
               [\<lparr>rc_request = request, rc_bytes = bytes,
                 rc_snapshot = mutex_new \<lparr>jw_phase = WriteQueued, jw_revision = None, jw_error = None\<rparr>\<rparr>],
             wk_handles := r # wk_handles w\<rparr>))
      | Err e \<Rightarrow> (Err e, w)
      | Panic p \<Rightarrow> (Panic p, w))"

definition request_close :: "'j journal_worker \<Rightarrow> 'j journal_worker" where
  "request_close = update_state (\<lambda>st. st\<lparr>ws_close_requested := True\<rparr>)"

section \<open>The thread\<close>

definition goto :: "writer_thread \<Rightarrow> 'j journal_worker \<Rightarrow> 'j journal_worker" where
  "goto t w = w\<lparr>wk_thread := t\<rparr>"

text \<open>\<^verbatim>\<open>run\<close>: the next request, the end of the loop, or another wait.\<close>

definition run_pop :: "'j journal_worker \<Rightarrow> 'j journal_worker" where
  "run_pop w =
     (if poisoned (wk_state w) then goto (ThreadUnwound worker_poisoned) w
      else case ws_queued (wk_st w) of
        r # rs \<Rightarrow> goto (ThreadPopped r) (update_state (\<lambda>st. st\<lparr>ws_queued := rs, ws_active := Some r\<rparr>) w)
      | [] \<Rightarrow> if admission_closed (wk_st w) then goto ThreadFinished w else w)"

definition run_mark :: "nat \<Rightarrow> 'j journal_worker \<Rightarrow> 'j journal_worker" where
  "run_mark r w =
     (if poisoned (rc_snapshot (wk_receipts w ! r)) then goto (ThreadUnwound worker_poisoned) w
      else goto (ThreadWriting r)
        (update_receipt r (\<lambda>rc. rc\<lparr>rc_snapshot := mutex_recover (rc_snapshot rc) (\<lambda>s. s\<lparr>jw_phase := WriteWriting\<rparr>)\<rparr>) w))"

definition run_write ::
  "(string \<Rightarrow> u64 option \<Rightarrow> operation_snapshot \<Rightarrow> bool \<Rightarrow> ('j, journal_operation) action) \<Rightarrow> nat \<Rightarrow> 'j journal_worker \<Rightarrow> 'j journal_worker" where
  "run_write write r w =
     (let request = rc_request (wk_receipts w ! r) in
      case write (wq_runtime_id request) (wq_expected_revision request) (wq_snapshot request) (wq_reconcile request) (wk_journal w) of
        (Ok rec, j) \<Rightarrow> goto (ThreadWritten r (Inr (jo_revision rec))) (w\<lparr>wk_journal := j\<rparr>)
      | (Err e, j) \<Rightarrow> goto (ThreadWritten r (Inl e)) (w\<lparr>wk_journal := j\<rparr>)
      | (Panic p, j) \<Rightarrow>
          goto (ThreadUnwound (error_new Internal ''journal worker panicked; reconcile the active write before retrying'')) (w\<lparr>wk_journal := j\<rparr>))"

definition run_publish :: "nat \<Rightarrow> embedded_error + u64 \<Rightarrow> 'j journal_worker \<Rightarrow> 'j journal_worker" where
  "run_publish r result w = goto (ThreadPublished r) (update_receipt r (receipt_complete result) w)"

definition run_clear :: "nat \<Rightarrow> 'j journal_worker \<Rightarrow> 'j journal_worker" where
  "run_clear r w =
     (if poisoned (wk_state w) then goto (ThreadUnwound worker_poisoned) w
      else goto (ThreadCleared r) (update_state (\<lambda>st. st\<lparr>ws_active := None\<rparr>) w))"

definition run_release :: "nat \<Rightarrow> 'j journal_worker \<Rightarrow> 'j journal_worker" where
  "run_release r w = release_receipt r (goto ThreadIdle w)"

text \<open>\<^verbatim>\<open>fail\<close>: its section under the lock, then one receipt at a time.\<close>

definition fail_take :: "embedded_error \<Rightarrow> 'j journal_worker \<Rightarrow> 'j journal_worker" where
  "fail_take e w =
     goto (ThreadFailing e ((case ws_active (wk_st w) of None \<Rightarrow> [] | Some r \<Rightarrow> [r]) @ ws_queued (wk_st w)))
       (update_state (\<lambda>st. st\<lparr>ws_failure := (case ws_failure st of None \<Rightarrow> Some e | Some f \<Rightarrow> Some f), ws_active := None, ws_queued := []\<rparr>) w)"

definition fail_next :: "embedded_error \<Rightarrow> nat list \<Rightarrow> 'j journal_worker \<Rightarrow> 'j journal_worker" where
  "fail_next e rs w =
     (case rs of
        [] \<Rightarrow> goto ThreadFinished w
      | r # rs \<Rightarrow> goto (ThreadDropping e r rs) (update_receipt r (receipt_complete (Inl e)) w))"

definition fail_release :: "embedded_error \<Rightarrow> nat \<Rightarrow> nat list \<Rightarrow> 'j journal_worker \<Rightarrow> 'j journal_worker" where
  "fail_release e r rs w = release_receipt r (goto (ThreadFailing e rs) w)"

fun thread_step ::
  "(string \<Rightarrow> u64 option \<Rightarrow> operation_snapshot \<Rightarrow> bool \<Rightarrow> ('j, journal_operation) action) \<Rightarrow> 'j journal_worker \<Rightarrow> 'j journal_worker" where
  "thread_step write w =
     (case wk_thread w of
        ThreadIdle \<Rightarrow> run_pop w
      | ThreadPopped r \<Rightarrow> run_mark r w
      | ThreadWriting r \<Rightarrow> run_write write r w
      | ThreadWritten r result \<Rightarrow> run_publish r result w
      | ThreadPublished r \<Rightarrow> run_clear r w
      | ThreadCleared r \<Rightarrow> run_release r w
      | ThreadUnwound e \<Rightarrow> fail_take e w
      | ThreadFailing e rs \<Rightarrow> fail_next e rs w
      | ThreadDropping e r rs \<Rightarrow> fail_release e r rs w
      | ThreadFinished \<Rightarrow> w
      | ThreadPanicked \<Rightarrow> w)"

section \<open>Observation and recovery\<close>

definition thread_exited :: "'j journal_worker \<Rightarrow> bool" where
  "thread_exited w \<longleftrightarrow> \<not> to_handle (guarded (wk_owner w)) \<or> wk_thread w = ThreadFinished \<or> wk_thread w = ThreadPanicked"

definition worker_status :: "'j journal_worker \<Rightarrow> operation_journal_worker_status embedded_result" where
  "worker_status w =
     (if poisoned (wk_owner w) \<or> poisoned (wk_state w) then Err worker_poisoned
      else Ok \<lparr>wt_pending_writes = ws_pending_writes (wk_st w), wt_pending_bytes = ws_pending_bytes (wk_st w),
        wt_queued_writes = length (ws_queued (wk_st w)), wt_writing = (ws_active (wk_st w) \<noteq> None),
        wt_closing = admission_closed (wk_st w), wt_worker_exited = thread_exited w, wt_failure = ws_failure (wk_st w)\<rparr>)"

definition join_finished :: "('j journal_worker, bool) action" where
  "join_finished w =
     (if \<not> thread_exited w then (Ok False, w)
      else
        let owner = guarded (wk_owner w);
            unproven = (to_unproven_exit owner \<or> to_handle owner \<and> wk_thread w = ThreadPanicked);
            w' = w\<lparr>wk_owner := mutex_recover (wk_owner w) (\<lambda>_. \<lparr>to_handle = False, to_unproven_exit = unproven\<rparr>)\<rparr> in
        if unproven then (Err (error_new Internal ''journal worker terminated outside its supervisor; recovery is unavailable''), w')
        else (Ok True, w'))"

text \<open>\<^verbatim>\<open>fail\<close> on the calling thread: \<open>taken\<close> are its local receipts.\<close>

fun fail_all :: "embedded_error \<Rightarrow> nat list \<Rightarrow> 'j journal_worker \<Rightarrow> 'j journal_worker" where
  "fail_all e [] w = w"
| "fail_all e (r # rs) w = fail_all e rs (release_receipt r (update_receipt r (receipt_complete (Inl e)) w))"

definition worker_fail :: "embedded_error \<Rightarrow> 'j journal_worker \<Rightarrow> 'j journal_worker" where
  "worker_fail e w =
     fail_all e ((case ws_active (wk_st w) of None \<Rightarrow> [] | Some r \<Rightarrow> [r]) @ ws_queued (wk_st w))
       (update_state (\<lambda>st. st\<lparr>ws_failure := (case ws_failure st of None \<Rightarrow> Some e | Some f \<Rightarrow> Some f), ws_active := None, ws_queued := []\<rparr>) w)"

definition poll_closed :: "('j journal_worker, bool) action" where
  "poll_closed w =
     (if poisoned (wk_owner w) then (Err worker_poisoned, w)
      else case join_finished w of
        (Ok False, w') \<Rightarrow> (Ok False, w')
      | (r, w') \<Rightarrow>
          let w'' = (case r of Err e \<Rightarrow> worker_fail e w' | _ \<Rightarrow> w') in
          if poisoned (wk_state w'') then (Err worker_poisoned, w'')
          else (Ok (admission_closed (wk_st w'') \<and> ws_pending_writes (wk_st w'') = 0 \<and> ws_active (wk_st w'') = None \<and> ws_queued (wk_st w'') = []), w''))"

definition recover_worker :: "bool \<Rightarrow> ('j journal_worker, bool) action" where
  "recover_worker spawned w =
     (if poisoned (wk_owner w) \<or> poisoned (wk_state w) then (Err worker_poisoned, w)
      else if ws_close_requested (wk_st w) then (Err (error_new Closed ''journal worker was explicitly closed''), w)
      else if ws_failure (wk_st w) = None
      then (if thread_exited w then Err (error_new Internal ''journal worker exited without retained supervised failure'') else Ok False, w)
      else case join_finished w of
        (Ok True, w') \<Rightarrow>
          if ws_active (wk_st w') \<noteq> None \<or> ws_queued (wk_st w') \<noteq> []
          then (Err (error_new Internal ''journal worker recovery requires supervised completion of every admitted attempt''), w')
          else if \<not> spawned then (Err (error_new Internal ''journal worker creation failed''), w')
          else
            (Ok True,
             goto ThreadIdle (update_state (\<lambda>st. st\<lparr>ws_failure := None\<rparr>)
               (w'\<lparr>wk_owner := mutex_recover (wk_owner w') (\<lambda>ow. ow\<lparr>to_handle := True\<rparr>)\<rparr>)))
      | (Ok False, w') \<Rightarrow> (Err (error_new Busy ''journal worker has not actually exited''), w')
      | (Err e, w') \<Rightarrow> (Err e, w')
      | (Panic p, w') \<Rightarrow> (Panic p, w'))"

end
