(* ===== verification/Journal_Worker_Inv.thy ===== *)
theory Journal_Worker_Inv
  imports Journal_Worker
begin

text \<open>
  The invariant of the journal worker: the places its thread can be in, the phases of the receipts, and
  the two counters that bound them. Every call and every step of the thread keeps it.
\<close>

section \<open>The invariant\<close>

definition owned_set :: "'j journal_worker \<Rightarrow> nat set" where
  "owned_set w = {r. receipt_owned w r}"

lemma owned_set_eq:
  "owned_set w = set (ws_queued (wk_st w)) \<union> set_option (ws_active (wk_st w)) \<union> set (thread_holds (wk_thread w)) \<union> set (wk_handles w)"
  by (auto simp: owned_set_def receipt_owned_def)

text \<open>The counters hold what the receipts of a set \<open>A\<close> cost.\<close>

definition counts :: "nat set \<Rightarrow> 'j journal_worker \<Rightarrow> bool" where
  "counts A w \<longleftrightarrow>
     A \<subseteq> {..<length (wk_receipts w)} \<and> ws_pending_writes (wk_st w) = card A \<and>
     ws_pending_bytes (wk_st w) = (\<Sum>r \<in> A. rc_bytes (wk_receipts w ! r)) \<and>
     ws_pending_writes (wk_st w) \<le> wf_max_pending_writes (wk_config w) \<and> ws_pending_bytes (wk_st w) \<le> wf_max_pending_bytes (wk_config w)"

definition locks_healthy :: "'j journal_worker \<Rightarrow> bool" where
  "locks_healthy w \<longleftrightarrow> \<not> poisoned (wk_state w) \<and> \<not> poisoned (wk_owner w) \<and> (\<forall>rc \<in> set (wk_receipts w). \<not> poisoned (rc_snapshot rc))"

text \<open>Receipts the thread has still to complete, besides the queue.\<close>

fun thread_pending :: "writer_thread \<Rightarrow> nat option \<Rightarrow> nat list" where
  "thread_pending (ThreadPopped r) a = [r]"
| "thread_pending (ThreadWriting r) a = [r]"
| "thread_pending (ThreadWritten r _) a = [r]"
| "thread_pending (ThreadUnwound e) a = (case a of None \<Rightarrow> [] | Some r \<Rightarrow> [r])"
| "thread_pending (ThreadFailing e rs) a = rs"
| "thread_pending (ThreadDropping e r rs) a = rs"
| "thread_pending _ a = []"

abbreviation pending :: "'j journal_worker \<Rightarrow> nat list" where
  "pending w \<equiv> thread_pending (wk_thread w) (ws_active (wk_st w)) @ ws_queued (wk_st w)"

fun place_ok :: "writer_thread \<Rightarrow> writer_state \<Rightarrow> bool" where
  "place_ok ThreadIdle st = (ws_active st = None \<and> ws_failure st = None)"
| "place_ok (ThreadPopped r) st = (ws_active st = Some r \<and> ws_failure st = None)"
| "place_ok (ThreadWriting r) st = (ws_active st = Some r \<and> ws_failure st = None)"
| "place_ok (ThreadWritten r _) st = (ws_active st = Some r \<and> ws_failure st = None)"
| "place_ok (ThreadPublished r) st = (ws_active st = Some r \<and> ws_failure st = None)"
| "place_ok (ThreadCleared r) st = (ws_active st = None \<and> ws_failure st = None)"
| "place_ok (ThreadUnwound e) st = (ws_active st \<noteq> None \<and> ws_failure st = None)"
| "place_ok (ThreadFailing e rs) st = (ws_active st = None \<and> ws_queued st = [] \<and> ws_failure st \<noteq> None)"
| "place_ok (ThreadDropping e r rs) st = (ws_active st = None \<and> ws_queued st = [] \<and> ws_failure st \<noteq> None)"
| "place_ok ThreadFinished st = (ws_active st = None \<and> ws_queued st = [] \<and> admission_closed st)"
| "place_ok ThreadPanicked st = False"

definition shape_ok :: "'j journal_worker \<Rightarrow> bool" where
  "shape_ok w \<longleftrightarrow>
     (\<exists>k \<le> length (wk_receipts w). ws_queued (wk_st w) = [k..<length (wk_receipts w)]) \<and>
     sorted_wrt (<) (pending w) \<and> (\<forall>r \<in> set (pending w). r < length (wk_receipts w)) \<and> place_ok (wk_thread w) (wk_st w) \<and>
     (to_handle (guarded (wk_owner w)) \<or> wk_thread w = ThreadFinished) \<and> \<not> to_unproven_exit (guarded (wk_owner w))"

text \<open>A pending receipt has no result; every other one has exactly one.\<close>

definition result_ok :: "bool \<Rightarrow> journal_write_snapshot \<Rightarrow> bool" where
  "result_ok unfinished s \<longleftrightarrow>
     (if unfinished then jw_phase s \<noteq> WriteCompleted \<and> jw_revision s = None \<and> jw_error s = None
      else jw_phase s = WriteCompleted \<and> (jw_revision s = None) \<noteq> (jw_error s = None))"

definition phases_ok :: "'j journal_worker \<Rightarrow> bool" where
  "phases_ok w \<longleftrightarrow>
     (\<forall>r < length (wk_receipts w). result_ok (r \<in> set (pending w)) (guarded (rc_snapshot (wk_receipts w ! r)))) \<and>
     (\<forall>r \<in> set (ws_queued (wk_st w)). jw_phase (guarded (rc_snapshot (wk_receipts w ! r))) = WriteQueued)"

definition worker_inv :: "'j journal_worker \<Rightarrow> bool" where
  "worker_inv w \<longleftrightarrow> locks_healthy w \<and> shape_ok w \<and> phases_ok w \<and> counts (owned_set w) w"

lemma worker_invD:
  assumes "worker_inv w"
  shows "locks_healthy w" "shape_ok w" "phases_ok w" "counts (owned_set w) w"
  using assms by (simp_all add: worker_inv_def)

section \<open>Updates\<close>

lemma update_simps [simp]:
  "wk_st (update_state f w) = f (wk_st w)" "poisoned (wk_state (update_state f w)) = poisoned (wk_state w)"
  "wk_receipts (update_state f w) = wk_receipts w" "wk_handles (update_state f w) = wk_handles w" "wk_thread (update_state f w) = wk_thread w"
  "wk_owner (update_state f w) = wk_owner w" "wk_config (update_state f w) = wk_config w" "wk_journal (update_state f w) = wk_journal w"
  "wk_state (update_receipt r g w) = wk_state w" "wk_receipts (update_receipt r g w) = (wk_receipts w)[r := g (wk_receipts w ! r)]"
  "wk_handles (update_receipt r g w) = wk_handles w" "wk_thread (update_receipt r g w) = wk_thread w"
  "wk_owner (update_receipt r g w) = wk_owner w" "wk_config (update_receipt r g w) = wk_config w" "wk_journal (update_receipt r g w) = wk_journal w"
  "wk_state (goto t w) = wk_state w" "wk_receipts (goto t w) = wk_receipts w" "wk_handles (goto t w) = wk_handles w" "wk_thread (goto t w) = t"
  "wk_owner (goto t w) = wk_owner w" "wk_config (goto t w) = wk_config w" "wk_journal (goto t w) = wk_journal w"
  by (simp_all add: update_state_def update_receipt_def goto_def)

lemma receipt_complete_simps [simp]:
  "rc_bytes (receipt_complete z rc) = rc_bytes rc" "rc_request (receipt_complete z rc) = rc_request rc"
  "poisoned (rc_snapshot (receipt_complete z rc)) = poisoned (rc_snapshot rc)"
  by (simp_all add: receipt_complete_def)

lemma receipt_complete_result:
  assumes "result_ok True (guarded (rc_snapshot rc))"
  shows "result_ok False (guarded (rc_snapshot (receipt_complete z rc)))"
    "z = Inr n \<Longrightarrow> guarded (rc_snapshot (receipt_complete z rc)) = \<lparr>jw_phase = WriteCompleted, jw_revision = Some n, jw_error = None\<rparr>"
    "z = Inl e \<Longrightarrow> guarded (rc_snapshot (receipt_complete z rc)) = \<lparr>jw_phase = WriteCompleted, jw_revision = None, jw_error = Some e\<rparr>"
  using assms by (auto simp: receipt_complete_def result_ok_def split: sum.split)

text \<open>Destructors: the last holder gives the receipt's cost back.\<close>

lemma release_counts:
  assumes "counts (insert r (owned_set w)) w" "locks_healthy w"
  shows "counts (owned_set (release_receipt r w)) (release_receipt r w) \<and> locks_healthy (release_receipt r w) \<and>
    (\<exists>a b. release_receipt r w = w \<or> release_receipt r w = update_state (\<lambda>st. st\<lparr>ws_pending_writes := a, ws_pending_bytes := b\<rparr>) w)"
proof (cases "receipt_owned w r")
  case True
  then have "insert r (owned_set w) = owned_set w" by (auto simp: owned_set_def)
  then show ?thesis using assms True by (auto simp: release_receipt_def)
next
  case False
  let ?A = "owned_set w"
  have fin: "finite ?A" "r \<notin> ?A" using assms(1) False finite_subset [of _ "{..<length (wk_receipts w)}"] by (auto simp: counts_def owned_set_def)
  have c: "ws_pending_writes (wk_st w) = Suc (card ?A)" "ws_pending_bytes (wk_st w) = rc_bytes (wk_receipts w ! r) + (\<Sum>r \<in> ?A. rc_bytes (wk_receipts w ! r))"
    using assms(1) fin by (simp_all add: counts_def)
  then have d: "release_receipt r w = update_state (\<lambda>st. st\<lparr>ws_pending_writes := card ?A, ws_pending_bytes := \<Sum>r \<in> ?A. rc_bytes (wk_receipts w ! r)\<rparr>) w"
    using False by (simp add: release_receipt_def receipt_drop_def checked_sub_def)
  have "owned_set (release_receipt r w) = ?A" unfolding d by (simp add: owned_set_eq)
  then show ?thesis using assms c d by (auto simp: counts_def locks_healthy_def)
qed

lemma counters_keep_shape [simp]:
  "shape_ok (update_state (\<lambda>st. st\<lparr>ws_pending_writes := a, ws_pending_bytes := b\<rparr>) w) = shape_ok w"
  "phases_ok (update_state (\<lambda>st. st\<lparr>ws_pending_writes := a, ws_pending_bytes := b\<rparr>) w) = phases_ok w"
proof -
  have "place_ok t (st\<lparr>ws_pending_writes := a, ws_pending_bytes := b\<rparr>) = place_ok t st" for t st by (cases t) (simp_all add: admission_closed_def)
  then show "shape_ok (update_state (\<lambda>st. st\<lparr>ws_pending_writes := a, ws_pending_bytes := b\<rparr>) w) = shape_ok w"
    "phases_ok (update_state (\<lambda>st. st\<lparr>ws_pending_writes := a, ws_pending_bytes := b\<rparr>) w) = phases_ok w"
    by (simp_all add: shape_ok_def phases_ok_def)
qed

lemma release_parts:
  assumes "counts (insert r (owned_set w)) w" "locks_healthy w" "shape_ok w" "phases_ok w"
  shows "worker_inv (release_receipt r w)"
proof -
  note rel = release_counts [OF assms(1,2)]
  then have "shape_ok (release_receipt r w) \<and> phases_ok (release_receipt r w)" using assms(3,4) by (metis counters_keep_shape)
  then show ?thesis using rel by (simp add: worker_inv_def)
qed

lemma counts_same:
  assumes "counts A w" "A = B" "length (wk_receipts w') = length (wk_receipts w)" "\<And>r. r < length (wk_receipts w) \<Longrightarrow> rc_bytes (wk_receipts w' ! r) = rc_bytes (wk_receipts w ! r)"
    and "ws_pending_writes (wk_st w') = ws_pending_writes (wk_st w)" "ws_pending_bytes (wk_st w') = ws_pending_bytes (wk_st w)" "wk_config w' = wk_config w"
  shows "counts B w'"
proof -
  have "(\<Sum>r \<in> B. rc_bytes (wk_receipts w' ! r)) = (\<Sum>r \<in> B. rc_bytes (wk_receipts w ! r))"
    using assms(1,2,4) by (intro sum.cong) (auto simp: counts_def)
  then show ?thesis using assms by (simp add: counts_def)
qed

section \<open>The thread\<close>

lemma empty_suffix [simp]: "\<exists>k \<le> n. [] = [k..<n]"
  by (intro exI [of _ n]) simp

lemma set_remove1_insert: "r \<in> set xs \<Longrightarrow> insert r (set (remove1 r xs)) = set xs"
  by (induction xs) auto

lemma in_range: "shape_ok w \<Longrightarrow> r \<in> set (pending w) \<Longrightarrow> r < length (wk_receipts w)"
  by (auto simp: shape_ok_def)

text \<open>A move of the thread that keeps what is owned and what is pending.\<close>

lemma goto_parts:
  assumes "worker_inv w" "owned_set (goto t w) = owned_set w" "pending (goto t w) = pending w" "place_ok t (wk_st w)"
    "to_handle (guarded (wk_owner w)) \<or> t = ThreadFinished"
  shows "worker_inv (goto t w)"
  using worker_invD [OF assms(1)] assms(2-) by (simp add: worker_inv_def locks_healthy_def shape_ok_def phases_ok_def counts_def)

lemma run_pop_inv:
  assumes "worker_inv w" "wk_thread w = ThreadIdle"
  shows "worker_inv (run_pop w)"
proof -
  note inv = worker_invD [OF assms(1)]
  have a: "ws_active (wk_st w) = None" "to_handle (guarded (wk_owner w))" "ws_failure (wk_st w) = None" using inv(2) assms(2) by (auto simp: shape_ok_def)
  show ?thesis
  proof (cases "ws_queued (wk_st w)")
    case Nil
    have "worker_inv (goto ThreadFinished w)" if "admission_closed (wk_st w)"
      using that a Nil assms by (intro goto_parts) (simp_all add: owned_set_eq)
    then show ?thesis using Nil assms(1) inv(1) by (simp add: run_pop_def locks_healthy_def)
  next
    case (Cons r rs)
    let ?w = "goto (ThreadPopped r) (update_state (\<lambda>st. st\<lparr>ws_queued := rs, ws_active := Some r\<rparr>) w)"
    obtain k where k: "k \<le> length (wk_receipts w)" "[k..<length (wk_receipts w)] = r # rs" using inv(2) Cons by (auto simp: shape_ok_def)
    then have rs: "r = k" "rs = [Suc k..<length (wk_receipts w)]" "Suc k \<le> length (wk_receipts w)"
      by (auto simp: upt_eq_Cons_conv)
    have pend: "pending ?w = pending w" using Cons assms(2) by simp
    have "shape_ok ?w" using inv(2) a pend rs by (auto simp: shape_ok_def)
    moreover have "phases_ok ?w" using inv(3) pend Cons by (auto simp: phases_ok_def)
    moreover have "counts (owned_set ?w) ?w"
      by (rule counts_same [OF inv(4)]) (use Cons a assms(2) in \<open>auto simp: owned_set_eq\<close>)
    moreover have "locks_healthy ?w" using inv(1) by (simp add: locks_healthy_def)
    ultimately have "worker_inv ?w" by (simp add: worker_inv_def)
    then show ?thesis using Cons inv(1) by (simp add: run_pop_def locks_healthy_def)
  qed
qed

text \<open>One receipt is updated and the thread moves on.\<close>

lemma receipt_parts:
  assumes "worker_inv w" "r < length (wk_receipts w)" "\<And>rc. rc_bytes (g rc) = rc_bytes rc" "\<And>rc. poisoned (rc_snapshot (g rc)) = poisoned (rc_snapshot rc)"
    and "owned_set (goto t w) = owned_set w" "place_ok t (wk_st w)" "to_handle (guarded (wk_owner w)) \<or> t = ThreadFinished"
    and "r \<notin> set (ws_queued (wk_st w))" "sorted_wrt (<) (pending (goto t w))" "insert r (set (pending (goto t w))) = insert r (set (pending w))"
    and "result_ok (r \<in> set (pending (goto t w))) (guarded (rc_snapshot (g (wk_receipts w ! r))))"
  shows "worker_inv (goto t (update_receipt r g w))"
proof -
  note inv = worker_invD [OF assms(1)]
  let ?w = "goto t (update_receipt r g w)"
  have "locks_healthy ?w" using inv(1) assms(2,4) by (auto simp: locks_healthy_def set_conv_nth nth_list_update)
  moreover have "\<forall>q \<in> set (pending (goto t w)). q < length (wk_receipts w)"
    using inv(2) assms(2) equalityD1 [OF assms(10)] unfolding shape_ok_def by blast
  then have "shape_ok ?w" using inv(2) assms(6,7,9) by (simp add: shape_ok_def)
  moreover have "phases_ok ?w"
    unfolding phases_ok_def
  proof (intro conjI allI ballI impI)
    fix q assume q: "q < length (wk_receipts ?w)"
    have "q \<in> set (pending ?w) \<longleftrightarrow> q \<in> set (pending w)" if "q \<noteq> r" using assms(10) that by auto
    then show "result_ok (q \<in> set (pending ?w)) (guarded (rc_snapshot (wk_receipts ?w ! q)))"
      using inv(3) assms(2,11) q by (cases "q = r") (auto simp: phases_ok_def)
  next
    fix q assume "q \<in> set (ws_queued (wk_st ?w))"
    then show "jw_phase (guarded (rc_snapshot (wk_receipts ?w ! q))) = WriteQueued" using inv(3) assms(8) by (cases "q = r") (auto simp: phases_ok_def)
  qed
  moreover have "counts (owned_set ?w) ?w"
    by (rule counts_same [OF inv(4)]) (use assms(2,3,5) in \<open>auto simp: owned_set_eq nth_list_update\<close>)
  ultimately show ?thesis by (simp add: worker_inv_def)
qed

lemma thread_facts:
  assumes "worker_inv w"
  shows "\<not> poisoned (wk_state w)" "\<And>r. r < length (wk_receipts w) \<Longrightarrow> \<not> poisoned (rc_snapshot (wk_receipts w ! r))"
    "place_ok (wk_thread w) (wk_st w)" "wk_thread w \<noteq> ThreadFinished \<Longrightarrow> to_handle (guarded (wk_owner w))"
    "sorted_wrt (<) (pending w)" "\<And>r. r \<in> set (pending w) \<Longrightarrow> r < length (wk_receipts w)"
    "\<And>r. r < length (wk_receipts w) \<Longrightarrow> result_ok (r \<in> set (pending w)) (guarded (rc_snapshot (wk_receipts w ! r)))"
  using worker_invD [OF assms] by (auto simp: locks_healthy_def shape_ok_def phases_ok_def)

lemma run_mark_inv:
  assumes "worker_inv w" "wk_thread w = ThreadPopped r"
  shows "worker_inv (run_mark r w)"
proof -
  note f = thread_facts [OF assms(1)]
  have r: "r < length (wk_receipts w)" using f(6) assms(2) by simp
  have "worker_inv (goto (ThreadWriting r)
      (update_receipt r (\<lambda>rc. rc\<lparr>rc_snapshot := mutex_recover (rc_snapshot rc) (\<lambda>s. s\<lparr>jw_phase := WriteWriting\<rparr>)\<rparr>) w))"
    by (rule receipt_parts) (use assms f(3,4,5) f(7) [OF r] r in \<open>auto simp: owned_set_eq result_ok_def\<close>)
  then show ?thesis using f(2) [OF r] by (simp add: run_mark_def)
qed

lemma journal_inv_irrelevant [simp]: "worker_inv (w\<lparr>wk_journal := j\<rparr>) = worker_inv w"
  by (simp add: worker_inv_def locks_healthy_def shape_ok_def phases_ok_def counts_def owned_set_eq)

lemma run_write_inv:
  assumes "worker_inv w" "wk_thread w = ThreadWriting r"
  shows "worker_inv (run_write write r w)"
proof -
  note f = thread_facts [OF assms(1)]
  let ?w = "w\<lparr>wk_journal := j\<rparr>"
  have "worker_inv (goto (ThreadWritten r z) (w\<lparr>wk_journal := j\<rparr>))" "worker_inv (goto (ThreadUnwound e) (w\<lparr>wk_journal := j\<rparr>))" for z e j
    by (rule goto_parts; use assms f(3,4) in \<open>simp add: owned_set_eq\<close>)+
  then show ?thesis by (auto simp: run_write_def Let_def split: prod.split outcome.split)
qed

lemma run_publish_inv:
  assumes "worker_inv w" "wk_thread w = ThreadWritten r z"
  shows "worker_inv (run_publish r z w)"
proof -
  note f = thread_facts [OF assms(1)]
  have r: "r < length (wk_receipts w)" using f(6) assms(2) by simp
  have "result_ok True (guarded (rc_snapshot (wk_receipts w ! r)))" using f(7) [OF r] assms(2) by simp
  note c = receipt_complete_result(1) [OF this, of z]
  show ?thesis unfolding run_publish_def
    by (rule receipt_parts) (use assms f(3,4,5) c r in \<open>auto simp: owned_set_eq\<close>)
qed

lemma run_clear_inv:
  assumes "worker_inv w" "wk_thread w = ThreadPublished r"
  shows "worker_inv (run_clear r w)"
proof -
  note inv = worker_invD [OF assms(1)] and f = thread_facts [OF assms(1)]
  let ?w = "goto (ThreadCleared r) (update_state (\<lambda>st. st\<lparr>ws_active := None\<rparr>) w)"
  have "counts (owned_set ?w) ?w" by (rule counts_same [OF inv(4)]) (use assms(2) f(3) in \<open>auto simp: owned_set_eq\<close>)
  moreover have "locks_healthy ?w" "shape_ok ?w" "phases_ok ?w" using inv(1-3) assms(2) by (auto simp: locks_healthy_def shape_ok_def phases_ok_def)
  ultimately show ?thesis using f(1) by (simp add: run_clear_def worker_inv_def)
qed

lemma run_release_inv:
  assumes "worker_inv w" "wk_thread w = ThreadCleared r"
  shows "worker_inv (run_release r w)"
proof -
  note inv = worker_invD [OF assms(1)]
  show ?thesis unfolding run_release_def
  proof (rule release_parts)
    show "counts (insert r (owned_set (goto ThreadIdle w))) (goto ThreadIdle w)"
      by (rule counts_same [OF inv(4)]) (use assms(2) in \<open>auto simp: owned_set_eq\<close>)
  qed (use inv assms(2) in \<open>auto simp: locks_healthy_def shape_ok_def phases_ok_def\<close>)
qed

lemma fail_take_inv:
  assumes "worker_inv w" "wk_thread w = ThreadUnwound e"
  shows "worker_inv (fail_take e w)"
proof -
  note inv = worker_invD [OF assms(1)]
  let ?w = "fail_take e w"
  have "counts (owned_set ?w) ?w" by (rule counts_same [OF inv(4)]) (use assms(2) in \<open>auto simp: owned_set_eq fail_take_def split: option.split\<close>)
  moreover have "locks_healthy ?w" using inv(1) by (simp add: fail_take_def locks_healthy_def)
  moreover have p: "pending ?w = pending w" using assms(2) by (simp add: fail_take_def)
  have "shape_ok ?w" using inv(2) p assms(2) by (auto simp: shape_ok_def fail_take_def split: option.splits)
  moreover have "phases_ok ?w" using inv(3) p by (auto simp: phases_ok_def fail_take_def)
  ultimately show ?thesis by (simp add: worker_inv_def)
qed

lemma fail_next_inv:
  assumes "worker_inv w" "wk_thread w = ThreadFailing e rs"
  shows "worker_inv (fail_next e rs w)"
proof (cases rs)
  case Nil
  then show ?thesis using assms thread_facts(3) [OF assms(1)]
    by (auto simp: fail_next_def owned_set_eq admission_closed_def intro!: goto_parts)
next
  case (Cons r qs)
  note f = thread_facts [OF assms(1)]
  have r: "r < length (wk_receipts w)" "r \<notin> set qs" using f(5,6) assms(2) Cons by auto
  have "result_ok True (guarded (rc_snapshot (wk_receipts w ! r)))" using f(7) [OF r(1)] assms(2) Cons by simp
  note c = receipt_complete_result(1) [OF this, of "Inl e"]
  have "worker_inv (goto (ThreadDropping e r qs) (update_receipt r (receipt_complete (Inl e)) w))"
    by (rule receipt_parts) (use assms f(3,4,5) c r Cons in \<open>auto simp: owned_set_eq\<close>)
  then show ?thesis using Cons by (simp add: fail_next_def)
qed

lemma fail_release_inv:
  assumes "worker_inv w" "wk_thread w = ThreadDropping e r rs"
  shows "worker_inv (fail_release e r rs w)"
proof -
  note inv = worker_invD [OF assms(1)]
  show ?thesis unfolding fail_release_def
  proof (rule release_parts)
    show "counts (insert r (owned_set (goto (ThreadFailing e rs) w))) (goto (ThreadFailing e rs) w)"
      by (rule counts_same [OF inv(4)]) (use assms(2) in \<open>auto simp: owned_set_eq\<close>)
  qed (use inv assms(2) in \<open>auto simp: locks_healthy_def shape_ok_def phases_ok_def\<close>)
qed

lemma thread_step_inv [inv_intros]: "worker_inv w \<Longrightarrow> worker_inv (thread_step write w)"
  by (cases "wk_thread w")
    (auto intro: run_pop_inv run_mark_inv run_write_inv run_publish_inv run_clear_inv run_release_inv fail_take_inv fail_next_inv fail_release_inv)

section \<open>Calls\<close>

lemma worker_new_inv [inv_intros]: "worker_new j cfg spawned = Ok w \<Longrightarrow> worker_inv w"
  by (auto simp: worker_new_def worker_inv_def locks_healthy_def shape_ok_def phases_ok_def counts_def owned_set_eq split: if_splits)

text \<open>An admitted request in full: every field of the state after it.\<close>

lemma submit_cases:
  assumes "submit_request validate ser rid expected s b w = (z, w')"
  obtains (refused) "w' = w" "\<not> is_ok z"
  | (admitted) bytes where "z = Ok (length (wk_receipts w))" "\<not> admission_closed (wk_st w)"
      "ws_pending_writes (wk_st w) < wf_max_pending_writes (wk_config w)" "bytes \<le> wf_max_pending_bytes (wk_config w) - ws_pending_bytes (wk_st w)"
      "w' = (update_state (\<lambda>st. st\<lparr>ws_pending_writes := ws_pending_writes st + 1, ws_pending_bytes := ws_pending_bytes st + bytes,
               ws_queued := ws_queued st @ [length (wk_receipts w)]\<rparr>) w)
            \<lparr>wk_receipts := wk_receipts w @
               [\<lparr>rc_request = \<lparr>wq_reconcile = b, wq_runtime_id = rid, wq_expected_revision = expected, wq_snapshot = s\<rparr>, rc_bytes = bytes,
                 rc_snapshot = mutex_new \<lparr>jw_phase = WriteQueued, jw_revision = None, jw_error = None\<rparr>\<rparr>],
             wk_handles := length (wk_receipts w) # wk_handles w\<rparr>"
proof -
  define g where "g = and_then (validate (wk_journal w) rid (sn_operation_id s)) (\<lambda>_.
        if (case expected of None \<Rightarrow> False | Some n \<Rightarrow> n = 0 \<or> n \<ge> i64_max)
        then Err (error_invalid ''journal write revision is invalid or exhausted'')
        else
          and_then (json_size (ser \<lparr>wq_reconcile = b, wq_runtime_id = rid, wq_expected_revision = expected, wq_snapshot = s\<rparr>) (wf_max_pending_bytes (wk_config w))) (\<lambda>bytes.
            if poisoned (wk_state w) then Err worker_poisoned
            else if admission_closed (wk_st w) then Err (error_new Closed ''journal worker is closing'')
            else if ws_pending_writes (wk_st w) \<ge> wf_max_pending_writes (wk_config w)
              \<or> bytes > saturating_sub (wf_max_pending_bytes (wk_config w)) (ws_pending_bytes (wk_st w))
            then Err (error_new CapacityExceeded ''journal worker receipt capacity reached'')
            else Ok bytes))"
  show thesis
  proof (cases g)
    case (Ok bytes)
    have "\<not> admission_closed (wk_st w)" "ws_pending_writes (wk_st w) < wf_max_pending_writes (wk_config w)"
      "bytes \<le> wf_max_pending_bytes (wk_config w) - ws_pending_bytes (wk_st w)"
      using Ok by (auto simp: g_def saturating_sub_def split: if_splits)
    then show thesis using admitted [of bytes] Ok assms unfolding submit_request_def Let_def g_def [symmetric] by simp
  qed (use refused assms in \<open>auto simp: submit_request_def Let_def g_def [symmetric]\<close>)
qed

lemma submit_inv [inv_intros]:
  assumes "worker_inv w" "submit_request validate ser rid expected s b w = (z, w')"
  shows "worker_inv w'"
  using assms(2)
proof (cases rule: submit_cases)
  case (admitted bytes)
  note inv = worker_invD [OF assms(1)]
  let ?n = "length (wk_receipts w)"
  have fields [simp]: "wk_receipts w' = wk_receipts w @ [\<lparr>rc_request = \<lparr>wq_reconcile = b, wq_runtime_id = rid, wq_expected_revision = expected, wq_snapshot = s\<rparr>,
      rc_bytes = bytes, rc_snapshot = mutex_new \<lparr>jw_phase = WriteQueued, jw_revision = None, jw_error = None\<rparr>\<rparr>]"
    "wk_handles w' = ?n # wk_handles w" "wk_thread w' = wk_thread w" "wk_owner w' = wk_owner w" "wk_config w' = wk_config w"
    "poisoned (wk_state w') = poisoned (wk_state w)"
    "wk_st w' = (wk_st w)\<lparr>ws_pending_writes := ws_pending_writes (wk_st w) + 1, ws_pending_bytes := ws_pending_bytes (wk_st w) + bytes,
       ws_queued := ws_queued (wk_st w) @ [?n]\<rparr>"
    unfolding admitted(5) by simp_all
  have running: "place_ok (wk_thread w) (wk_st w')"
    using inv(2) admitted(2) by (cases "wk_thread w") (auto simp: shape_ok_def admission_closed_def)
  have "sorted_wrt (<) (pending w @ [?n])" using inv(2) by (simp add: sorted_wrt_append shape_ok_def)
  moreover obtain k where "k \<le> ?n" "ws_queued (wk_st w) = [k..<?n]" using inv(2) by (auto simp: shape_ok_def)
  then have "\<exists>k \<le> Suc ?n. ws_queued (wk_st w) @ [?n] = [k..<Suc ?n]" by (intro exI [of _ k]) simp
  moreover have "\<forall>r \<in> set (pending w @ [?n]). r < Suc ?n" using in_range [OF inv(2)] less_Suc_eq by auto
  ultimately have "shape_ok w'" using inv(2) running by (simp add: shape_ok_def)
  moreover have "phases_ok w'" using inv(3) in_range [OF inv(2)] by (auto simp: phases_ok_def nth_append result_ok_def less_Suc_eq)
  moreover have "counts (owned_set w') w'"
  proof -
    let ?A = "owned_set w"
    have A: "?A \<subseteq> {..<?n}" "finite ?A" "?n \<notin> ?A" using inv(4) finite_subset [of ?A "{..<?n}"] by (auto simp: counts_def)
    have o: "owned_set w' = insert ?n ?A" by (auto simp: owned_set_eq)
    have "(\<Sum>r \<in> ?A. rc_bytes (wk_receipts w' ! r)) = (\<Sum>r \<in> ?A. rc_bytes (wk_receipts w ! r))"
      using A(1) by (intro sum.cong) (auto simp: nth_append)
    then show ?thesis unfolding o using A inv(4) admitted(3,4) by (auto simp: counts_def)
  qed
  moreover have "locks_healthy w'" using inv(1) by (auto simp: locks_healthy_def)
  ultimately show ?thesis by (simp add: worker_inv_def)
qed (use assms(1) in simp)

lemma request_close_inv [inv_intros]:
  assumes "worker_inv w"
  shows "worker_inv (request_close w)"
proof -
  note inv = worker_invD [OF assms]
  have "place_ok t (st\<lparr>ws_close_requested := True\<rparr>)" if "place_ok t st" for t st using that by (cases t) (auto simp: admission_closed_def)
  then show ?thesis using inv by (simp add: worker_inv_def request_close_def locks_healthy_def shape_ok_def phases_ok_def counts_def owned_set_eq)
qed

lemma receipt_clone_inv [inv_intros]:
  assumes "worker_inv w" "receipt_owned w r"
  shows "worker_inv (receipt_clone r w)"
proof -
  have "owned_set (receipt_clone r w) = owned_set w" using assms(2) by (auto simp: owned_set_eq receipt_clone_def receipt_owned_def)
  then show ?thesis using worker_invD [OF assms(1)] by (simp add: worker_inv_def receipt_clone_def locks_healthy_def shape_ok_def phases_ok_def counts_def)
qed

lemma receipt_handle_drop_inv [inv_intros]:
  assumes "worker_inv w" "r \<in> set (wk_handles w)"
  shows "worker_inv (receipt_handle_drop r w)"
proof -
  note inv = worker_invD [OF assms(1)]
  let ?w = "w\<lparr>wk_handles := remove1 r (wk_handles w)\<rparr>"
  show ?thesis unfolding receipt_handle_drop_def
  proof (rule release_parts)
    have "insert r (set (remove1 r (wk_handles w))) = set (wk_handles w)" by (rule set_remove1_insert [OF assms(2)])
    then show "counts (insert r (owned_set ?w)) ?w" by (intro counts_same [OF inv(4)]) (use assms(2) in \<open>auto simp: owned_set_eq\<close>)
  qed (use inv in \<open>auto simp: locks_healthy_def shape_ok_def phases_ok_def\<close>)
qed

lemma join_finished_inv:
  assumes "worker_inv w" "join_finished w = (z, w')"
  shows "worker_inv w' \<and> wk_state w' = wk_state w \<and> wk_thread w' = wk_thread w \<and> wk_receipts w' = wk_receipts w \<and>
    (z = Ok False \<and> w' = w \<or> z = Ok True \<and> wk_thread w = ThreadFinished)"
proof -
  note inv = worker_invD [OF assms(1)]
  have t: "thread_exited w \<longleftrightarrow> wk_thread w = ThreadFinished" "\<not> to_unproven_exit (guarded (wk_owner w))"
    using inv(2) by (auto simp: thread_exited_def shape_ok_def)
  show ?thesis
  proof (cases "wk_thread w = ThreadFinished")
    case True
    have "worker_inv (w\<lparr>wk_owner := mutex_recover (wk_owner w) (\<lambda>_. \<lparr>to_handle = False, to_unproven_exit = False\<rparr>)\<rparr>)"
      using inv True by (simp add: worker_inv_def locks_healthy_def shape_ok_def phases_ok_def counts_def owned_set_eq)
    then show ?thesis using assms(2) t True by (auto simp: join_finished_def Let_def)
  qed (use assms t in \<open>auto simp: join_finished_def\<close>)
qed

lemma poll_closed_inv [inv_intros]:
  assumes "worker_inv w" "poll_closed w = (z, w')"
  shows "worker_inv w' \<and> (z = Ok False \<or> z = Ok True \<and> ws_pending_writes (wk_st w) = 0 \<and> wk_thread w = ThreadFinished)"
proof -
  obtain y w1 where j: "join_finished w = (y, w1)" by fastforce
  note k = join_finished_inv [OF assms(1) j]
  have "\<not> poisoned (wk_owner w)" "\<not> poisoned (wk_state w)" using worker_invD(1) [OF assms(1)] by (simp_all add: locks_healthy_def)
  then show ?thesis using k j assms(2) by (auto simp: poll_closed_def Let_def split: if_splits)
qed

lemma recover_worker_inv [inv_intros]:
  assumes "worker_inv w" "recover_worker spawned w = (z, w')"
  shows "worker_inv w' \<and> \<not> is_panic z \<and>
    (z = Ok True \<longrightarrow> wk_thread w = ThreadFinished \<and> pending w = [] \<and> wk_receipts w' = wk_receipts w \<and> \<not> admission_closed (wk_st w') \<and> wk_thread w' = ThreadIdle)"
proof -
  note inv = worker_invD [OF assms(1)]
  obtain y w1 where j: "join_finished w = (y, w1)" by fastforce
  note k = join_finished_inv [OF assms(1) j]
  let ?w = "goto ThreadIdle (update_state (\<lambda>st. st\<lparr>ws_failure := None\<rparr>) (w1\<lparr>wk_owner := mutex_recover (wk_owner w1) (\<lambda>ow. ow\<lparr>to_handle := True\<rparr>)\<rparr>))"
  have healthy: "\<not> poisoned (wk_owner w)" "\<not> poisoned (wk_state w)" using inv(1) by (simp_all add: locks_healthy_def)
  have new: "worker_inv ?w" if "wk_thread w = ThreadFinished"
  proof -
    have t1: "wk_thread w1 = ThreadFinished" and i1: "worker_inv w1" using k that by simp_all
    show ?thesis using worker_invD [OF i1] t1 by (simp add: worker_inv_def locks_healthy_def shape_ok_def phases_ok_def counts_def owned_set_eq)
  qed
  have p: "wk_thread w = ThreadFinished \<Longrightarrow> pending w = []" using inv(2) by (simp add: shape_ok_def)
  show ?thesis using k j assms healthy new p by (auto simp: recover_worker_def admission_closed_def split: if_splits)
qed

end
