(* ===== verification/Journal_Worker_System.thy ===== *)
theory Journal_Worker_System
  imports Journal_Worker_Inv
begin

text \<open>
  The worker in use: clients submit, hold, clone and drop receipts, poll, close and recover the worker
  while its thread runs and the host calls the journal directly. \<open>journal_backend\<close> is the contract of the
  trait \<^verbatim>\<open>OperationJournalBackend\<close> as far as the worker relies on it.
\<close>

section \<open>Steps\<close>

inductive worker_step ::
  "('q \<Rightarrow> string \<Rightarrow> u64 option \<Rightarrow> operation_snapshot \<Rightarrow> bool \<Rightarrow> ('j, journal_operation) action) \<Rightarrow> ('j \<Rightarrow> 'j \<Rightarrow> bool) \<Rightarrow>
   'j journal_worker \<Rightarrow> 'j journal_worker \<Rightarrow> bool" for store other where
  worker_submit: "submit_request validate ser rid expected s b w = (z, w') \<Longrightarrow> worker_step store other w w'"
| worker_clone: "r \<in> set (wk_handles w) \<Longrightarrow> worker_step store other w (receipt_clone r w)"
| worker_drop: "r \<in> set (wk_handles w) \<Longrightarrow> worker_step store other w (receipt_handle_drop r w)"
| worker_thread: "worker_step store other w (thread_step (store q) w)"
| worker_close: "worker_step store other w (request_close w)"
| worker_poll: "poll_closed w = (z, w') \<Longrightarrow> worker_step store other w w'"
| worker_recover: "recover_worker spawned w = (z, w') \<Longrightarrow> worker_step store other w w'"
| worker_other: "other (wk_journal w) j \<Longrightarrow> worker_step store other w (w\<lparr>wk_journal := j\<rparr>)"

lemma worker_step_inv:
  assumes "worker_step store other w w'" "worker_inv w"
  shows "worker_inv w'"
  using assms
proof (cases rule: worker_step.cases)
  case (worker_clone r)
  then show ?thesis using receipt_clone_inv [OF assms(2), of r] by (simp add: receipt_owned_def)
qed (auto intro: inv_intros dest: poll_closed_inv recover_worker_inv simp del: thread_step.simps)

lemma worker_run_inv: "(worker_step store other)\<^sup>*\<^sup>* w w' \<Longrightarrow> worker_inv w \<Longrightarrow> worker_inv w'"
  by (induction rule: rtranclp_induct) (auto dest: worker_step_inv)

section \<open>Receipts\<close>

abbreviation write_seen :: "'j journal_worker \<Rightarrow> nat \<Rightarrow> journal_write_snapshot" where
  "write_seen w r \<equiv> guarded (rc_snapshot (wk_receipts w ! r))"

text \<open>Receipts only gain results, and a revision only from the thread's own write.\<close>

definition receipts_evolve :: "'j journal_worker \<Rightarrow> 'j journal_worker \<Rightarrow> bool" where
  "receipts_evolve w w' \<longleftrightarrow>
     length (wk_receipts w) \<le> length (wk_receipts w') \<and>
     (\<forall>r < length (wk_receipts w). rc_request (wk_receipts w' ! r) = rc_request (wk_receipts w ! r) \<and>
        (jw_phase (write_seen w r) = WriteCompleted \<longrightarrow> write_seen w' r = write_seen w r) \<and>
        (\<forall>n. jw_revision (write_seen w' r) = Some n \<longrightarrow> jw_revision (write_seen w r) = Some n \<or> wk_thread w = ThreadWritten r (Inr n))) \<and>
     (\<forall>r < length (wk_receipts w'). length (wk_receipts w) \<le> r \<longrightarrow> jw_revision (write_seen w' r) = None)"

lemma same_receipts_evolve [simp]: "wk_receipts w' = wk_receipts w \<Longrightarrow> receipts_evolve w w'"
  by (simp add: receipts_evolve_def)

lemma release_fields [simp]:
  "wk_receipts (release_receipt r w) = wk_receipts w" "wk_thread (release_receipt r w) = wk_thread w" "wk_journal (release_receipt r w) = wk_journal w"
  "ws_queued (wk_st (release_receipt r w)) = ws_queued (wk_st w)" "admission_closed (wk_st (release_receipt r w)) = admission_closed (wk_st w)"
  by (auto simp: release_receipt_def receipt_drop_def admission_closed_def split: option.split)

lemma complete_revision:
  "jw_revision (guarded (rc_snapshot (receipt_complete z rc))) = Some n \<Longrightarrow> jw_revision (guarded (rc_snapshot rc)) = Some n \<or> z = Inr n"
  by (auto simp: receipt_complete_def split: if_splits sum.splits)

lemma complete_completed: "jw_phase (guarded (rc_snapshot rc)) = WriteCompleted \<Longrightarrow> receipt_complete z rc = rc"
  by (simp add: receipt_complete_def mutex_recover_def)

lemma complete_evolves:
  assumes "wk_receipts w' = (wk_receipts w)[r := receipt_complete z (wk_receipts w ! r)]" "\<And>n. z = Inr n \<Longrightarrow> wk_thread w = ThreadWritten r z"
  shows "receipts_evolve w w'"
  using assms by (cases "r < length (wk_receipts w)") (auto simp: receipts_evolve_def nth_list_update complete_completed dest: complete_revision)

lemma thread_step_evolves:
  assumes "worker_inv w"
  shows "receipts_evolve w (thread_step write w)"
proof (cases "wk_thread w")
  case (ThreadPopped r)
  have "r < length (wk_receipts w)" "jw_phase (write_seen w r) \<noteq> WriteCompleted"
    using thread_facts(6,7) [OF assms, of r] ThreadPopped by (auto simp: result_ok_def)
  then show ?thesis using ThreadPopped by (auto simp: run_mark_def receipts_evolve_def nth_list_update)
next
  case (ThreadWritten r z)
  then show ?thesis by (auto simp: run_publish_def intro!: complete_evolves [of _ w r z])
next
  case (ThreadFailing e rs)
  then show ?thesis by (cases rs) (auto simp: fail_next_def intro: complete_evolves [of _ w _ "Inl e"])
qed (auto simp: run_pop_def run_write_def run_clear_def run_release_def fail_take_def fail_release_def Let_def split: list.split prod.split outcome.split)

lemma worker_step_evolves:
  assumes "worker_step store other w w'" "worker_inv w"
  shows "receipts_evolve w w'"
  using assms(1)
proof (cases rule: worker_step.cases)
  case (worker_submit validate ser rid expected s b z)
  then show ?thesis by (cases rule: submit_cases) (auto simp: receipts_evolve_def nth_append)
next
  case (worker_poll z)
  obtain y w1 where j: "join_finished w = (y, w1)" by fastforce
  show ?thesis using worker_poll j join_finished_inv [OF assms(2) j] by (auto simp: poll_closed_def Let_def split: if_splits)
next
  case (worker_recover spawned z)
  obtain y w1 where j: "join_finished w = (y, w1)" by fastforce
  show ?thesis using worker_recover j join_finished_inv [OF assms(2) j] by (auto simp: recover_worker_def split: if_splits)
next
  case (worker_thread q)
  show ?thesis unfolding worker_thread by (rule thread_step_evolves [OF assms(2)])
qed (auto simp: receipt_clone_def receipt_handle_drop_def request_close_def)

end
