(* ===== verification/Journal_Calls.thy ===== *)
theory Journal_Calls
  imports Journal_Inv
begin

text \<open>
  Every call of the durable history as a step of the abstract one, whatever SQLite answers.
\<close>

section \<open>Transactions\<close>

definition journal_inv :: "operation_journal \<Rightarrow> bool" where
  "journal_inv j \<longleftrightarrow>
     \<not> poisoned (oj_state j) \<and> table_inv (oj_config j) (oj_rows j) \<and>
     (js_failure (guarded (oj_state j)) = None \<longrightarrow> js_connection (guarded (oj_state j)))"

abbreviation history :: "journal_codec \<Rightarrow> operation_journal \<Rightarrow> journal_history" where
  "history c j \<equiv> history_in c (oj_config j) (oj_rows j)"

lemma journal_invD:
  assumes "journal_inv j"
  shows "\<not> poisoned (oj_state j)" "table_inv (oj_config j) (oj_rows j)"
    "js_failure (guarded (oj_state j)) = None \<Longrightarrow> js_connection (guarded (oj_state j))"
  using assms by (simp_all add: journal_inv_def)

lemma failed_simps [simp]:
  "oj_rows (journal_failed j) = oj_rows j" "oj_config (journal_failed j) = oj_config j" "poisoned (oj_state (journal_failed j)) = poisoned (oj_state j)"
  "js_failure (guarded (oj_state (journal_failed j))) = Some history_uncertain"
  by (simp_all add: journal_failed_def)

lemma ready_cases:
  assumes "journal_inv j"
  obtains "journal_ready j = Ok ()" "journal_connection j = Ok ()" | e where "journal_ready j = Err e" "js_failure (guarded (oj_state j)) = Some e"
  using journal_invD [OF assms]
  by (cases "js_failure (guarded (oj_state j))") (auto simp: journal_ready_def journal_connection_def)

text \<open>A transaction keeps the table or stores what its mutation made of it; then the call succeeds or is uncertain.\<close>

lemma transaction_cases [consumes 4, case_names kept landed]:
  assumes "journal_inv j" "\<not> is_panic (f (oj_rows j))" "journal_transaction q f j = (z, j')"
    and "\<forall>rows. f (oj_rows j) = Ok rows \<longrightarrow> table_inv (oj_config j) rows"
  obtains (kept) e where "z = Err e" "oj_rows j' = oj_rows j" "oj_config j' = oj_config j" "journal_inv j'"
  | (landed) rows where "f (oj_rows j) = Ok rows" "oj_rows j' = rows" "oj_config j' = oj_config j" "journal_inv j'"
      "z = Ok () \<or> z = Err history_uncertain"
  using assms(1)
proof (cases rule: ready_cases)
  case 1
  note inv = journal_invD [OF assms(1)]
  show ?thesis
  proof (cases "sql_check (sa_begin q)")
    case (Ok u)
    show ?thesis
    proof (cases "f (oj_rows j)")
      case f: (Ok rows)
      then have t: "table_inv (oj_config j) rows" using assms(4) by simp
      show ?thesis
      proof (cases "sa_commit q")
        case CommitOk
        then show ?thesis using landed [OF f] t inv assms(3) 1 Ok f by (auto simp: journal_transaction_def journal_inv_def)
      next
        case (CommitUncertain b)
        then have res: "z = Err history_uncertain" "j' = journal_failed (if b then j\<lparr>oj_rows := rows\<rparr> else j)"
          using assms(3) 1 Ok f by (simp_all add: journal_transaction_def)
        show ?thesis using landed [OF f] kept t inv res by (cases b) (simp_all add: journal_inv_def)
      qed
    next
      case (Err e)
      then show ?thesis using kept inv assms(1,3) 1 Ok by (auto simp: journal_transaction_def journal_inv_def split: if_splits)
    qed (use assms(2) in simp)
  next
    case (Err e)
    then have "z = Err e" "j' = j" using assms(3) 1 by (simp_all add: journal_transaction_def)
    then show ?thesis using kept assms(1) by simp
  qed (use reading_not_panic(4) [of "sa_begin q"] in simp)
next
  case (2 e)
  then have "z = Err e" "j' = j" using assms(3) by (simp_all add: journal_transaction_def)
  then show ?thesis using kept assms(1) by simp
qed

section \<open>Mutations\<close>

lemma checkpoint_record_Ok:
  assumes "checkpoint_record c cfg rid previous s = Ok (r, d)"
  shows "r = \<lparr>jo_runtime_id = rid, jo_revision = (case previous of None \<Rightarrow> 1 | Some p \<Rightarrow> p + 1), jo_snapshot = s, jo_reconciliation = None\<rparr>"
    "journal_encode c cfg r = Ok d" "record_valid r" "journal_key r = (rid, sn_operation_id s)"
proof -
  show r: "r = \<lparr>jo_runtime_id = rid, jo_revision = (case previous of None \<Rightarrow> 1 | Some p \<Rightarrow> p + 1), jo_snapshot = s, jo_reconciliation = None\<rparr>"
    and "journal_encode c cfg r = Ok d"
    using assms by (auto simp: checkpoint_record_def Let_def split: option.splits if_splits)
  show "record_valid r"
    using assms unfolding r by (auto dest: validate_key_nonempty simp: checkpoint_record_def record_valid_def i64_max_def Let_def split: option.splits if_splits)
  show "journal_key r = (rid, sn_operation_id s)" by (simp add: r)
qed

lemma records_not_panic [simp]:
  "\<not> is_panic (checkpoint_record c cfg rid previous s)" "\<not> is_panic (same_checkpoint c cfg b n d current)"
  "\<not> is_panic (checkpoint_mutation c cfg q rid previous s b n d rows)" "\<not> is_panic (forget_mutation c cfg q key n rows)"
  "\<not> is_panic (reconcile_mutation c cfg q key n x rows)"
  by (auto simp: checkpoint_record_def same_checkpoint_def checkpoint_mutation_def forget_mutation_def reconcile_mutation_def Let_def split: option.split)

text \<open>A checkpoint that finds its own record already there leaves the table alone.\<close>

lemma same_checkpoint_True:
  assumes "codec_ok c" "journal_encode c cfg r = Ok d" "same_checkpoint c cfg b n d (Some p) = Ok True"
  shows "p = r"
proof -
  have "journal_encode c cfg p = Ok d" using assms(3) by (auto simp: same_checkpoint_def split: if_splits)
  then have "jk_to_vec c p = Some d" "jk_to_vec c r = Some d" using assms(2) by (simp_all add: encode_Ok)
  then show ?thesis using codec_okD(2) [OF assms(1)] by blast
qed

lemma checkpoint_mutation_Ok:
  assumes "codec_ok c" "table_inv cfg rows" "checkpoint_record c cfg rid previous s = Ok (r, d)"
    and "checkpoint_mutation c cfg q rid previous s b (jo_revision r) d rows = Ok rows'"
  shows "table_inv cfg rows' \<and> written_as r (history_in c cfg rows' (journal_key r)) \<and>
    (rows' = rows \<and> history_in c cfg rows (journal_key r) = Entry r \<or>
     rows' = bt_insert (journal_key r) (row_of c (jo_revision r) d) rows \<and> history_step (history_in c cfg rows) (history_in c cfg rows')) \<and>
    (\<forall>key. key \<noteq> journal_key r \<longrightarrow> history_in c cfg rows' key = history_in c cfg rows key)"
proof -
  note r = checkpoint_record_Ok [OF assms(3)]
  let ?h = "history_in c cfg rows" and ?new = "bt_insert (journal_key r) (row_of c (jo_revision r) d) rows"
  obtain current where read: "journal_read c cfg q (rid, sn_operation_id s) rows = Ok current"
    using assms(4) by (auto simp: checkpoint_mutation_def Let_def)
  have cur: "?h (journal_key r) = (case current of None \<Rightarrow> NoEntry | Some p \<Rightarrow> Entry p)" using read r(4) by (simp add: read_history)
  obtain same where same: "same_checkpoint c cfg b (jo_revision r) d current = Ok same"
    using assms(4) read by (auto simp: checkpoint_mutation_def Let_def)
  note wrote = history_write [OF assms(1,2) r(3,2)]
  show ?thesis
  proof (cases same)
    case True
    then obtain p where p: "current = Some p" using same by (cases current) (auto simp: same_checkpoint_def)
    then have "p = r" using same_checkpoint_True [OF assms(1) r(2)] same True by simp
    then show ?thesis using assms(2,4) read same True p cur by (auto simp: checkpoint_mutation_def Let_def)
  next
    case False
    show ?thesis
    proof (cases previous)
      case None
      then have new: "rows' = ?new" "?h (journal_key r) = NoEntry" "length rows < jc_max_records cfg"
        using assms(4) read same False r(4) cur by (auto simp: checkpoint_mutation_def Let_def split: if_splits)
      obtain e where e: "written_as r e" "history_in c cfg ?new = ?h(journal_key r := e)" "table_inv cfg ?new" using wrote new(3) by blast
      have "history_step ?h (?h(journal_key r := e))" using new(2) None r(1) e(1) by (intro history_created) simp_all
      then show ?thesis using e new by simp
    next
      case (Some p)
      then obtain p' where old: "?h (journal_key r) = Entry p'" "jo_revision p' = p" "sn_context (jo_snapshot p') = sn_context s"
        "validate_finalization_successor s (jo_snapshot p') = Ok ()" "jo_reconciliation p' = None" "rows' = ?new"
        using assms(4) read same False r(4) cur by (auto simp: checkpoint_mutation_def Let_def split: if_splits)
      obtain e where e: "written_as r e" "history_in c cfg ?new = ?h(journal_key r := e)" "table_inv cfg ?new" using wrote old(1) by auto
      have "jo_snapshot r = s" "jo_revision r = Suc p" "jo_reconciliation r = None" using r(1) Some by simp_all
      then have "history_step ?h (?h(journal_key r := e))" using old e(1) by (intro history_succeeded [where p = p']) simp_all
      then show ?thesis using e old by simp
    qed
  qed
qed

lemma forget_mutation_Ok:
  assumes "table_inv cfg rows" "forget_mutation c cfg q key n rows = Ok rows'"
  shows "table_inv cfg rows' \<and> history_in c cfg rows' = (history_in c cfg rows)(key := NoEntry) \<and>
    history_step (history_in c cfg rows) (history_in c cfg rows')"
proof -
  obtain p where p: "history_in c cfg rows key = Entry p" "jo_reconciliation p \<noteq> None \<or> \<not> unresolved (jo_snapshot p)" "rows' = bt_remove key rows"
    using assms(2) by (auto simp: forget_mutation_def journal_expect_def read_history split: if_splits)
  then show ?thesis using history_remove [OF assms(1), of key c] history_forgotten [where h = "history_in c cfg rows" and key = key, OF p(1,2)] by simp
qed

text \<open>An accepted reconciliation is written into the record it resolves, unless it is there already.\<close>

lemma reconcile_mutation_Ok:
  assumes "codec_ok c" "table_inv cfg rows" "reconcile_mutation c cfg q key n x rows = Ok rows'" "n < i64_max"
  shows "table_inv cfg rows' \<and> (\<exists>r. record_valid r \<and> jo_revision r = Suc n \<and> jo_reconciliation r = Some x \<and> written_as r (history_in c cfg rows' key)) \<and>
    (rows' = rows \<or> history_step (history_in c cfg rows) (history_in c cfg rows'))"
proof -
  let ?h = "history_in c cfg rows"
  obtain p where p: "?h key = Entry p" and read: "journal_read c cfg q key rows = Ok (Some p)"
    using assms(3) by (auto simp: reconcile_mutation_def read_history split: option.splits)
  note key = history_valid [OF assms(2) p]
  show ?thesis
  proof (cases "jo_revision p = n + 1 \<and> jo_reconciliation p = Some x")
    case True
    then have "rows' = rows" using assms(3) read by (simp add: reconcile_mutation_def)
    then show ?thesis using True p assms(2) key by (auto intro!: exI [of _ p])
  next
    case False
    let ?r = "p\<lparr>jo_revision := Suc n, jo_reconciliation := Some x\<rparr>"
    obtain d where d: "jo_revision p = n" "jo_reconciliation p = None" "reconciliation_validate x (jo_snapshot p) = Ok ()"
      "journal_encode c cfg ?r = Ok d" "rows' = bt_insert key (row_of c (Suc n) d) rows"
      using assms(3) read False by (auto simp: reconcile_mutation_def split: if_splits)
    have v: "record_valid ?r" using key d assms(4) by (auto simp: record_valid_def)
    then obtain e where e: "written_as ?r e" "history_in c cfg rows' = ?h(key := e)" "table_inv cfg rows'"
      using history_write [OF assms(1,2) v d(4)] d(5) key p by auto
    have "history_step ?h (?h(key := e))" using history_reconciled [where h = ?h and key = key, OF p d(2,3)] d(1) e(1) by simp
    then show ?thesis using e v by (intro conjI exI [of _ ?r]) auto
  qed
qed

section \<open>Calls\<close>

lemmas call_defs = bind_action_def try_read_def

text \<open>The outcome of one call on the abstract history, \<open>done\<close> saying when the call was acknowledged with the given answer.\<close>

definition history_move :: "journal_codec \<Rightarrow> operation_journal \<Rightarrow> operation_journal \<Rightarrow> bool" where
  "history_move c j j' \<longleftrightarrow>
     journal_inv j' \<and> oj_config j' = oj_config j \<and> (history c j' = history c j \<or> history_step (history c j) (history c j'))"

lemma history_move_same: "journal_inv j' \<Longrightarrow> oj_config j' = oj_config j \<Longrightarrow> oj_rows j' = oj_rows j \<Longrightarrow> history_move c j j'"
  by (simp add: history_move_def)

lemma write_checkpoint_move:
  assumes "codec_ok c" "journal_inv j" "write_checkpoint c q rid previous s b j = (z, j')"
  shows "\<not> is_panic z \<and> history_move c j j' \<and>
    (\<forall>r. z = Ok r \<longrightarrow> written_as r (history c j' (rid, sn_operation_id s)) \<and> jo_runtime_id r = rid \<and> jo_snapshot r = s \<and>
       jo_revision r = (case previous of None \<Rightarrow> 1 | Some p \<Rightarrow> p + 1) \<and> jo_reconciliation r = None)"
proof (cases "checkpoint_record c (oj_config j) rid previous s")
  case (Ok p)
  obtain r d where p: "p = (r, d)" by fastforce
  note r = checkpoint_record_Ok [OF Ok [unfolded p]]
  let ?f = "checkpoint_mutation c (oj_config j) q rid previous s b (jo_revision r) d"
  obtain y where y: "journal_transaction q ?f j = (y, j')" "z = and_then y (\<lambda>_. Ok r)"
    using assms(3) Ok p by (cases "journal_transaction q ?f j") (auto simp: write_checkpoint_def call_defs ret_def split: outcome.splits)
  note m = checkpoint_mutation_Ok [OF assms(1) journal_invD(2) [OF assms(2)] Ok [unfolded p]]
  have t: "\<forall>rows. ?f (oj_rows j) = Ok rows \<longrightarrow> table_inv (oj_config j) rows" using m by auto
  from assms(2) records_not_panic(3) y(1) t show ?thesis
  proof (cases rule: transaction_cases)
    case (landed rows)
    then show ?thesis using m [OF landed(1)] y(2) r by (auto simp: history_move_def)
  qed (use m y(2) in \<open>auto intro: history_move_same\<close>)
next
  case (Panic w)
  from records_not_panic(1) [of c "oj_config j" rid previous s, unfolded Panic] show ?thesis by simp
qed (use assms in \<open>auto simp: write_checkpoint_def call_defs history_move_def\<close>)

lemma forget_move:
  assumes "journal_inv j" "journal_forget c q rid oid n j = (z, j')"
  shows "\<not> is_panic z \<and> history_move c j j' \<and> (z = Ok () \<longrightarrow> history c j' (rid, oid) = NoEntry)"
proof (cases "journal_validate_key (oj_config j) rid oid")
  case (Ok u)
  let ?f = "forget_mutation c (oj_config j) q (rid, oid) n"
  have y: "journal_transaction q ?f j = (z, j')" using assms(2) Ok by (simp add: journal_forget_def call_defs)
  note m = forget_mutation_Ok [OF journal_invD(2) [OF assms(1)]]
  have t: "\<forall>rows. ?f (oj_rows j) = Ok rows \<longrightarrow> table_inv (oj_config j) rows" using m by auto
  from assms(1) records_not_panic(4) y t show ?thesis
  proof (cases rule: transaction_cases)
    case (landed rows)
    then show ?thesis using m [OF landed(1)] by (auto simp: history_move_def)
  qed (use m in \<open>auto intro: history_move_same\<close>)
next
  case (Panic w)
  from reading_not_panic(1) [of "oj_config j" rid oid, unfolded Panic] show ?thesis by simp
qed (use assms in \<open>auto simp: journal_forget_def call_defs history_move_def\<close>)

lemma reconcile_move:
  assumes "codec_ok c" "journal_inv j" "journal_reconcile c q rid oid n x j = (z, j')"
  shows "\<not> is_panic z \<and> history_move c j j' \<and>
    (\<forall>m. z = Ok m \<longrightarrow> m = Suc n \<and> 
      (\<exists>r. record_valid r \<and> jo_revision r = m \<and> jo_reconciliation r = Some x \<and> written_as r (history c j' (rid, oid))))"
proof -
  let ?g = "and_then (journal_validate_key (oj_config j) rid oid) (\<lambda>_.
       and_then (json_size (jk_resolution c x) (jc_max_record_bytes (oj_config j))) (\<lambda>_.
         if n = 0 \<or> n \<ge> i64_max then Err (error_invalid ''operation history revision is exhausted or invalid'') else Ok ()))"
  have quiet: "\<not> is_panic ?g" by simp
  show ?thesis
  proof (cases ?g)
    case (Ok u)
    then have n: "n < i64_max" by (auto split: if_splits)
    let ?f = "reconcile_mutation c (oj_config j) q (rid, oid) n x"
    obtain y where y: "journal_transaction q ?f j = (y, j')" "z = and_then y (\<lambda>_. Ok (n + 1))"
      using assms(3) Ok by (cases "journal_transaction q ?f j") (auto simp: journal_reconcile_def call_defs ret_def split: outcome.splits)
    note m = reconcile_mutation_Ok [OF assms(1) journal_invD(2) [OF assms(2)] _ n]
    have t: "\<forall>rows. ?f (oj_rows j) = Ok rows \<longrightarrow> table_inv (oj_config j) rows" using m by auto
    from assms(2) records_not_panic(5) y(1) t show ?thesis
    proof (cases rule: transaction_cases)
      case (landed rows)
      then show ?thesis using m [OF landed(1)] y(2) by (auto simp: history_move_def)
    qed (use m y(2) in \<open>auto intro: history_move_same\<close>)
  next
    case (Panic w)
    from quiet [unfolded Panic] show ?thesis by simp
  qed (use assms in \<open>auto simp: journal_reconcile_def call_defs history_move_def\<close>)
qed

lemma contents_not_panic [simp]: "\<not> is_panic (decode_rows c cfg f rows)" "\<not> is_panic (validate_contents c cfg f rows)"
proof -
  show d: "\<not> is_panic (decode_rows c cfg f rows)" for f by (induction c cfg f rows rule: decode_rows.induct) auto
  show "\<not> is_panic (validate_contents c cfg f rows)" using d by (simp add: validate_contents_def)
qed

lemma recover_move:
  assumes "journal_inv j" "\<not> is_panic opened" "recover_storage c closed opened q j = (z, j')"
  shows "\<not> is_panic z \<and> history_move c j j' \<and> (\<forall>b. z = Ok b \<longrightarrow> js_failure (guarded (oj_state j')) = None \<and> journal_ready j' = Ok ())"
proof -
  have "\<not> is_panic (and_then opened (\<lambda>_. validate_contents c (oj_config j) q (oj_rows j)))" using assms(2) by simp
  then show ?thesis
    using assms(3) journal_invD [OF assms(1)] assms(1)
    by (cases "js_failure (guarded (oj_state j))"; cases "and_then opened (\<lambda>_. validate_contents c (oj_config j) q (oj_rows j))")
      (auto simp: recover_storage_def journal_inv_def journal_ready_def Let_def intro!: history_move_same split: if_splits)
qed

end
