(* ===== verification/Journal_Theorems.thy ===== *)
theory Journal_Theorems
  imports Journal_Calls
begin

text \<open>
  Theorems of the durable history: an opened journal refines the abstract history over any sequence
  of calls, an uncertain checkpoint can be retried exactly, and a reconciled history can be forgotten.
\<close>

section \<open>Opening\<close>

text \<open>What SQLite guarantees of the table: unique ordered identities, and a 64-bit revision column.\<close>

definition table_stored :: "journal_table \<Rightarrow> bool" where
  "table_stored rows \<longleftrightarrow> bt_wf rows \<and> (\<forall>(key, row) \<in> set rows. row_revision row \<le> int i64_max)"

lemma decode_rows_Ok: "decode_rows c cfg f rows = Ok () \<Longrightarrow> (key, row) \<in> set rows \<Longrightarrow> \<exists>r. journal_decode c cfg key row = Ok r"
  by (induction c cfg f rows rule: decode_rows.induct) auto

lemma journal_open_inv:
  assumes "journal_open c opened q cfg rows = Ok j" "table_stored rows"
  shows "journal_inv j \<and> oj_config j = cfg \<and> oj_rows j = rows \<and> (\<forall>key. history_in c cfg rows key \<noteq> Unreadable)"
proof -
  have j: "j = \<lparr>oj_config = cfg, oj_state = mutex_new \<lparr>js_connection = True, js_failure = None\<rparr>, oj_rows = rows\<rparr>"
    and v: "validate_contents c cfg q rows = Ok ()"
    using assms(1) by (auto simp: journal_open_def Let_def)
  have len: "length rows \<le> jc_max_records cfg" and dec: "decode_rows c cfg (\<lambda>n. q (n + 3)) rows = Ok ()"
    using v by (auto simp: validate_contents_def split: if_splits)
  have row: "row_revision row \<le> int i64_max" "\<exists>r. journal_decode c cfg key row = Ok r" if g: "bt_get rows key = Some row" for key row
  proof -
    have e: "(key, row) \<in> set rows" using g by (simp add: bt_get_eq_map_of map_of_SomeD)
    show "row_revision row \<le> int i64_max" using assms(2) e by (auto simp: table_stored_def)
    show "\<exists>r. journal_decode c cfg key row = Ok r" by (rule decode_rows_Ok [OF dec e])
  qed
  have "history_in c cfg rows key \<noteq> Unreadable" for key
    using row(2) by (cases "bt_get rows key") (fastforce simp: history_in_def entry_of_def)+
  moreover have "table_inv cfg rows" using assms(2) len row(1) unfolding table_inv_def table_stored_def by blast
  ultimately show ?thesis using j by (auto simp: journal_inv_def)
qed

section \<open>Refinement\<close>

inductive journal_step :: "journal_codec \<Rightarrow> operation_journal \<Rightarrow> operation_journal \<Rightarrow> bool" for c where
  step_checkpoint: "write_checkpoint c q rid previous s b j = (z, j') \<Longrightarrow> journal_step c j j'"
| step_forget: "journal_forget c q rid oid n j = (z, j') \<Longrightarrow> journal_step c j j'"
| step_reconcile: "journal_reconcile c q rid oid n x j = (z, j') \<Longrightarrow> journal_step c j j'"
| step_recover: "recover_storage c closed opened f j = (z, j') \<Longrightarrow> \<not> is_panic opened \<Longrightarrow> journal_step c j j'"

lemma journal_step_move:
  assumes "journal_step c j j'" "codec_ok c" "journal_inv j"
  shows "history_move c j j'"
  using assms
  by (induction rule: journal_step.induct) (auto dest: write_checkpoint_move forget_move reconcile_move recover_move)

lemma journal_run_moves:
  assumes "(journal_step c)\<^sup>*\<^sup>* j j'" "codec_ok c" "journal_inv j"
  shows "journal_inv j' \<and> oj_config j' = oj_config j \<and> history_step\<^sup>*\<^sup>* (history c j) (history c j')"
  using assms(1)
proof (induction rule: rtranclp_induct)
  case (step y z)
  then have "history_move c y z" using journal_step_move assms(2) by blast
  then show ?case using step.IH by (auto simp: history_move_def intro: rtranclp.rtrancl_into_rtrancl)
qed (use assms(3) in simp)

text \<open>Along steps that keep an identity, its record only moves forward.\<close>

definition record_later :: "journal_operation \<Rightarrow> journal_operation \<Rightarrow> bool" where
  "record_later a b \<longleftrightarrow>
     jo_revision a \<le> jo_revision b \<and> (jo_revision a = jo_revision b \<longrightarrow> a = b) \<and> (jo_reconciliation a \<noteq> None \<longrightarrow> a = b) \<and>
     sn_context (jo_snapshot a) = sn_context (jo_snapshot b)"

lemma record_later_refl [simp]: "record_later a a"
  by (simp add: record_later_def)

lemma record_later_trans: "record_later a b \<Longrightarrow> record_later b d \<Longrightarrow> record_later a d"
  by (auto simp: record_later_def)

lemma written_later:
  assumes "written_as r (Entry b)" "jo_revision r = Suc (jo_revision a)" "jo_reconciliation a = None" "sn_context (jo_snapshot r) = sn_context (jo_snapshot a)"
  shows "record_later a b"
  using assms same_shape(2,5) [of b r] by (simp add: record_later_def)

lemma history_step_later:
  assumes "history_step h h'" "h key = Entry a" "h' key = Entry b"
  shows "record_later a b"
  using assms
proof (induction rule: history_step.induct)
  case (history_reconciled h k p x e)
  show ?case
  proof (cases "k = key")
    case True
    then have w: "written_as (a\<lparr>jo_revision := Suc (jo_revision a), jo_reconciliation := Some x\<rparr>) (Entry b)" "jo_reconciliation a = None"
      using history_reconciled by simp_all
    show ?thesis by (rule written_later [OF w(1) _ w(2)]) simp_all
  qed (use history_reconciled in simp)
next
  case (history_succeeded h r p e)
  then show ?case by (cases "key = journal_key r") (auto simp del: written_as_simps intro: written_later)
qed (auto split: if_splits)

text \<open>A row that cannot be read stays as it is.\<close>

lemma history_step_unreadable: "history_step h h' \<Longrightarrow> h key = Unreadable \<Longrightarrow> h' key = Unreadable"
  by (induction rule: history_step.induct) auto

section \<open>Retrying an uncertain commit\<close>

definition all_readable :: "journal_codec \<Rightarrow> operation_journal_config \<Rightarrow> journal_table \<Rightarrow> bool" where
  "all_readable c cfg rows \<longleftrightarrow> (\<forall>key. history_in c cfg rows key \<noteq> Unreadable)"

lemma readable_table_accepted:
  assumes "table_inv cfg rows" "all_readable c cfg rows"
  shows "validate_contents c cfg (\<lambda>_. None) rows = Ok ()"
proof -
  have "decode_rows c cfg (\<lambda>_. None) xs = Ok ()" if "\<forall>(key, row) \<in> set xs. \<exists>r. journal_decode c cfg key row = Ok r" for xs
    using that by (induction xs) (auto simp: sql_check_def)
  moreover have "case e of (key, row) \<Rightarrow> \<exists>r. journal_decode c cfg key row = Ok r" if e: "e \<in> set rows" for e
  proof -
    obtain key row where k: "e = (key, row)" by (cases e)
    have g: "bt_get rows key = Some row" using e k table_invD(1) [OF assms(1)] by (simp add: bt.get_iff)
    have "history_in c cfg rows key \<noteq> Unreadable" using assms(2) unfolding all_readable_def by blast
    then have "entry_of (journal_decode c cfg key row) \<noteq> Unreadable" using g by (simp add: history_in_def)
    then show ?thesis using k by (cases "journal_decode c cfg key row") (simp_all add: entry_of_def)
  qed
  ultimately show ?thesis using table_invD(2) [OF assms(1)] by (simp add: validate_contents_def sql_check_def)
qed

text \<open>A transaction whose confirmation is lost: the uncertainty is reported, and reopening finds the table before or after it.\<close>

lemma transaction_lost:
  assumes inv: "journal_inv j" and run: "journal_transaction (q\<lparr>sa_commit := CommitOk\<rparr>) f j = (Ok (), j0)"
    and t: "table_inv (oj_config j) (oj_rows j0)" "all_readable c (oj_config j) (if landed then oj_rows j0 else oj_rows j)"
  obtains j1 j2 where "journal_transaction (q\<lparr>sa_commit := CommitUncertain landed\<rparr>) f j = (Err history_uncertain, j1)"
    "recover_storage c None (Ok ()) (\<lambda>_. None) j1 = (Ok True, j2)" "oj_config j2 = oj_config j"
    "oj_rows j2 = (if landed then oj_rows j0 else oj_rows j)" "journal_inv j2" "journal_ready j2 = Ok ()" "journal_connection j2 = Ok ()"
    "sql_check (sa_begin q) = Ok ()" "f (oj_rows j) = Ok (oj_rows j0)"
proof -
  obtain rows where ready: "journal_ready j = Ok ()" "journal_connection j = Ok ()" "sql_check (sa_begin q) = Ok ()" "f (oj_rows j) = Ok rows"
      and j0: "oj_rows j0 = rows"
    using run by (auto simp: journal_transaction_def split: outcome.splits if_splits)
  let ?j1 = "journal_failed (if landed then j\<lparr>oj_rows := rows\<rparr> else j)"
  let ?j2 = "?j1\<lparr>oj_state := mutex_new \<lparr>js_connection = True, js_failure = None\<rparr>\<rparr>"
  have lost: "journal_transaction (q\<lparr>sa_commit := CommitUncertain landed\<rparr>) f j = (Err history_uncertain, ?j1)"
    using ready by (simp add: journal_transaction_def)
  have valid: "table_inv (oj_config j) (oj_rows ?j1)" "all_readable c (oj_config j) (oj_rows ?j1)"
    using t j0 journal_invD(2) [OF inv] by (simp_all split: if_splits)
  have rec: "recover_storage c None (Ok ()) (\<lambda>_. None) ?j1 = (Ok True, ?j2)"
    using journal_invD(1) [OF inv] readable_table_accepted [OF valid] by (auto simp: recover_storage_def Let_def)
  show thesis
    by (rule that [OF lost rec])
      (use ready valid(1) j0 in \<open>simp_all add: journal_inv_def journal_ready_def journal_connection_def split: if_splits\<close>)
qed

lemma read_commit [simp]: "journal_read c cfg (q\<lparr>sa_commit := a\<rparr>) key rows = journal_read c cfg q key rows"
  by (simp add: journal_read_def)

lemma mutation_commit [simp]:
  "checkpoint_mutation c cfg (q\<lparr>sa_commit := a\<rparr>) = checkpoint_mutation c cfg q"
  "reconcile_mutation c cfg (q\<lparr>sa_commit := a\<rparr>) = reconcile_mutation c cfg q"
  by (intro ext, simp add: checkpoint_mutation_def reconcile_mutation_def Let_def cong: option.case_cong if_cong)+

lemma checkpoint_mutation_again:
  assumes "codec_ok c" "table_inv cfg rows" "checkpoint_record c cfg rid previous s = Ok (r, d)"
    and "checkpoint_mutation c cfg q rid previous s True (jo_revision r) d rows = Ok rows'" "record_exact r"
  shows "checkpoint_mutation c cfg q rid previous s True (jo_revision r) d rows' = Ok rows'"
proof -
  note m = checkpoint_mutation_Ok [OF assms(1-4)] and r = checkpoint_record_Ok [OF assms(3)]
  have "sa_read q = None" using assms(4) by (auto simp: checkpoint_mutation_def journal_read_def sql_check_def Let_def split: option.splits)
  then have "journal_read c cfg q (rid, sn_operation_id s) rows' = Ok (Some r)"
    using m r(4) written_exact [OF _ assms(5)] by (simp add: read_history)
  then show ?thesis using r(2) by (simp add: checkpoint_mutation_def same_checkpoint_def Let_def)
qed

lemma checkpoint_answered:
  assumes "journal_checkpoint c (q\<lparr>sa_commit := CommitOk\<rparr>) rid previous s j = (Ok r, j0)"
  obtains d where "checkpoint_record c (oj_config j) rid previous s = Ok (r, d)"
    "journal_transaction (q\<lparr>sa_commit := CommitOk\<rparr>) (checkpoint_mutation c (oj_config j) q rid previous s True (jo_revision r) d) j = (Ok (), j0)"
  using assms that by (auto simp: journal_checkpoint_def write_checkpoint_def call_defs ret_def split: outcome.splits prod.splits)

lemma checkpoint_call:
  assumes "checkpoint_record c (oj_config j) rid previous s = Ok (r, d)" "oj_config i = oj_config j"
  shows "journal_checkpoint c (q\<lparr>sa_commit := a\<rparr>) rid previous s i =
    (case journal_transaction (q\<lparr>sa_commit := a\<rparr>) (checkpoint_mutation c (oj_config j) q rid previous s True (jo_revision r) d) i of
       (z, i') \<Rightarrow> (and_then z (\<lambda>_. Ok r), i'))"
  using assms by (auto simp: journal_checkpoint_def write_checkpoint_def call_defs ret_def split: outcome.splits prod.splits)

text \<open>A record that reads back differently is not recognised as the one written before.\<close>

lemma checkpoint_mutation_refused:
  assumes "codec_ok c" "checkpoint_record c cfg rid previous s = Ok (r, d)" "history_in c cfg rows (journal_key r) = Entry p" "p \<noteq> r"
    and "jo_revision p = jo_revision r"
  shows "\<exists>e. checkpoint_mutation c cfg q rid previous s True (jo_revision r) d rows = Err e"
proof (cases "journal_read c cfg q (rid, sn_operation_id s) rows")
  case (Ok current)
  note r = checkpoint_record_Ok [OF assms(2)]
  then have cur: "current = Some p" using Ok assms(3) by (simp add: read_history split: option.splits)
  show ?thesis
  proof (cases "same_checkpoint c cfg True (jo_revision r) d (Some p)")
    case same: (Ok b)
    then have "\<not> b" using same_checkpoint_True [OF assms(1) r(2), of True "jo_revision r" p] assms(4) by auto
    moreover have "jo_revision p = (case previous of None \<Rightarrow> 1 | Some n \<Rightarrow> n + 1)" using r(1) assms(5) by simp
    ultimately show ?thesis
      using Ok cur same by (auto simp: checkpoint_mutation_def Let_def split: option.split)
  next
    case (Panic w)
    then show ?thesis using records_not_panic(2) [of c cfg True "jo_revision r" d "Some p"] by simp
  qed (use Ok cur in \<open>simp add: checkpoint_mutation_def Let_def\<close>)
next
  case (Panic w)
  then show ?thesis using reading_not_panic(5) [of c cfg q "(rid, sn_operation_id s)" rows] by simp
qed (simp add: checkpoint_mutation_def Let_def)

section \<open>Properties\<close>

text \<open>
  Property C6. The durable history refines the abstract one: after the file was opened, whatever
  sequence of checkpoints, forgettings, reconciliations and recoveries follows and whichever SQLite
  statements and commits fail on the way, the table stays within the configured number of records,
  every row that decodes holds a valid record of its own identity, and the history went from the one
  found in the file, all of it readable, by abstract steps only: created with revision 1, succeeded by
  the next revision with the same context, closed by an accepted reconciliation, or forgotten once
  resolved. Each step leaves the record that was written, up to JSON values that are not exact.
\<close>

theorem journal_refines_history:
  assumes "codec_ok c" "table_stored rows" "journal_open c opened q cfg rows = Ok j" "(journal_step c)\<^sup>*\<^sup>* j j'"
  shows "length (oj_rows j') \<le> jc_max_records cfg \<and> \<not> poisoned (oj_state j') \<and> all_readable c cfg rows \<and>
    (\<forall>key r. history_in c cfg (oj_rows j') key = Entry r \<longrightarrow> record_valid r \<and> journal_key r = key) \<and>
    history_step\<^sup>*\<^sup>* (history_in c cfg rows) (history_in c cfg (oj_rows j'))"
proof -
  note o = journal_open_inv [OF assms(3,2)]
  have run: "journal_inv j' \<and> oj_config j' = oj_config j \<and> history_step\<^sup>*\<^sup>* (history c j) (history c j')"
    by (rule journal_run_moves [OF assms(4,1)]) (use o in simp)
  then have t: "table_inv cfg (oj_rows j')" "\<not> poisoned (oj_state j')" using journal_invD(1,2) [of j'] o by simp_all
  show ?thesis using t run o table_invD(2) [OF t(1)] history_valid [OF t(1)] unfolding all_readable_def by metis
qed

text \<open>
  What a call answers is what the history holds: an acknowledged checkpoint is the stored
  record, with the revision after the expected one; an acknowledged reconciliation is stored under the
  next revision; a forgotten identity is gone; and no call panics.
\<close>

lemma acknowledged_calls_are_durable:
  assumes "codec_ok c" "journal_inv j"
  shows "(case write_checkpoint c q rid previous s b j of (z, j') \<Rightarrow> \<not> is_panic z \<and>
      (\<forall>r. z = Ok r \<longrightarrow> written_as r (history c j' (rid, sn_operation_id s)) \<and> jo_snapshot r = s \<and>
         jo_revision r = (case previous of None \<Rightarrow> 1 | Some p \<Rightarrow> p + 1) \<and> jo_reconciliation r = None)) \<and>
    (case journal_reconcile c q rid oid n x j of (z, j') \<Rightarrow> \<not> is_panic z \<and>
      (\<forall>m. z = Ok m \<longrightarrow> m = Suc n \<and> (\<exists>r. jo_revision r = m \<and> jo_reconciliation r = Some x \<and> written_as r (history c j' (rid, oid))))) \<and>
    (case journal_forget c q rid oid n j of (z, j') \<Rightarrow> \<not> is_panic z \<and> (z = Ok () \<longrightarrow> history c j' (rid, oid) = NoEntry))"
  using write_checkpoint_move [OF assms] reconcile_move [OF assms] forget_move [OF assms(2)] by (fastforce split: prod.splits)

text \<open>
  Property C27. Histories are append-only: as long as an identity is not forgotten, its revision never
  decreases, one revision names one record, its context never changes, and a reconciled record never
  changes again.
\<close>

theorem history_is_append_only:
  assumes "codec_ok c" "journal_inv j" "(\<lambda>a b. journal_step c a b \<and> history c b key \<noteq> NoEntry)\<^sup>*\<^sup>* j j'"
    and "history c j key = Entry a" "history c j' key = Entry b"
  shows "jo_revision a \<le> jo_revision b \<and> (jo_revision a = jo_revision b \<longrightarrow> a = b) \<and> (jo_reconciliation a \<noteq> None \<longrightarrow> a = b) \<and>
    sn_context (jo_snapshot a) = sn_context (jo_snapshot b)"
proof -
  have "journal_inv j' \<and> (history c j' key = Unreadable \<or> (\<exists>b. history c j' key = Entry b \<and> record_later a b))" using assms(3)
  proof (induction rule: rtranclp_induct)
    case (step y z)
    have m: "history_move c y z" using journal_step_move assms(1) step by blast
    show ?case
    proof (cases "history c z key")
      case (Entry d)
      then obtain b where "history c y key = Entry b" "record_later a b" using step m history_step_unreadable [of "history c y" "history c z" key] by (auto simp: history_move_def)
      then show ?thesis using m Entry history_step_later [of "history c y" "history c z" key b d] record_later_trans by (auto simp: history_move_def)
    qed (use step m in \<open>simp_all add: history_move_def\<close>)
  qed (use assms(2,4) in simp)
  then show ?thesis using assms(5) by (auto simp: record_later_def)
qed

text \<open>
  Property C14. A checkpoint with exact JSON values whose commit is uncertain is completed exactly by
  recovery and retry: when the confirmed call would answer \<open>r\<close> and the table can be read, then losing the
  confirmation reports the uncertainty, reopening the file finds it valid, and the same call again
  answers \<open>r\<close> with the table of the confirmed call, whether or not the lost commit had landed.
\<close>

theorem checkpoint_retry_exact:
  assumes "codec_ok c" "journal_inv j" "all_readable c (oj_config j) (oj_rows j)" "snapshot_exact s"
    and "journal_checkpoint c (q\<lparr>sa_commit := CommitOk\<rparr>) rid previous s j = (Ok r, j0)"
  shows "\<exists>j1 j2 j3. journal_checkpoint c (q\<lparr>sa_commit := CommitUncertain landed\<rparr>) rid previous s j = (Err history_uncertain, j1) \<and>
    recover_storage c None (Ok ()) (\<lambda>_. None) j1 = (Ok True, j2) \<and>
    journal_checkpoint c (q\<lparr>sa_commit := CommitOk\<rparr>) rid previous s j2 = (Ok r, j3) \<and> oj_rows j3 = oj_rows j0"
proof -
  obtain d where d: "checkpoint_record c (oj_config j) rid previous s = Ok (r, d)"
    and run: "journal_transaction (q\<lparr>sa_commit := CommitOk\<rparr>) (checkpoint_mutation c (oj_config j) q rid previous s True (jo_revision r) d) j = (Ok (), j0)"
    using assms(5) by (rule checkpoint_answered)
  let ?f = "checkpoint_mutation c (oj_config j) q rid previous s True (jo_revision r) d"
  have f: "?f (oj_rows j) = Ok (oj_rows j0)" using run by (auto simp: journal_transaction_def split: outcome.splits if_splits)
  note t = journal_invD(2) [OF assms(2)]
  have exact: "record_exact r" using checkpoint_record_Ok(1) [OF d] assms(4) by simp
  note m = checkpoint_mutation_Ok [OF assms(1) t d f]
  have t0: "table_inv (oj_config j) (oj_rows j0)" using m by simp
  have read: "all_readable c (oj_config j) (oj_rows j0)"
    unfolding all_readable_def using m assms(3) written_exact [OF _ exact] by (metis all_readable_def history_entry.distinct(5))
  have ok: "all_readable c (oj_config j) (if landed then oj_rows j0 else oj_rows j)" using read assms(3) by simp
  obtain j1 j2 where z: "journal_transaction (q\<lparr>sa_commit := CommitUncertain landed\<rparr>) ?f j = (Err history_uncertain, j1)"
    "recover_storage c None (Ok ()) (\<lambda>_. None) j1 = (Ok True, j2)" "oj_config j2 = oj_config j"
    "oj_rows j2 = (if landed then oj_rows j0 else oj_rows j)" "journal_ready j2 = Ok ()" "journal_connection j2 = Ok ()" "sql_check (sa_begin q) = Ok ()"
    by (rule transaction_lost [OF assms(2) run t0 ok])
  have "?f (oj_rows j2) = Ok (oj_rows j0)" using z(4) f checkpoint_mutation_again [OF assms(1) t d f exact] by simp
  then have "journal_transaction (q\<lparr>sa_commit := CommitOk\<rparr>) ?f j2 = (Ok (), j2\<lparr>oj_rows := oj_rows j0\<rparr>)"
    using z(5-7) by (simp add: journal_transaction_def)
  then show ?thesis using z(1-3) checkpoint_call [OF d] by auto
qed

text \<open>
  The retry recognises its own checkpoint by its bytes: when a checkpoint landed but what
  it stored reads back as another record, as JSON numbers that are no integers may, then recovery
  succeeds and the original call is refused from then on, whatever SQLite answers; the table keeps the
  record.
\<close>

theorem inexact_retry_refused:
  assumes "codec_ok c" "journal_inv j" "journal_checkpoint c (q\<lparr>sa_commit := CommitOk\<rparr>) rid previous s j = (Ok r, j0)"
    and "history c j0 (rid, sn_operation_id s) = Entry p" "p \<noteq> r" "all_readable c (oj_config j) (oj_rows j0)"
  shows "\<exists>j1 j2. journal_checkpoint c (q\<lparr>sa_commit := CommitUncertain True\<rparr>) rid previous s j = (Err history_uncertain, j1) \<and>
    recover_storage c None (Ok ()) (\<lambda>_. None) j1 = (Ok True, j2) \<and> oj_rows j2 = oj_rows j0 \<and>
    (\<forall>q'. \<exists>e j3. journal_checkpoint c q' rid previous s j2 = (Err e, j3) \<and> oj_rows j3 = oj_rows j0)"
proof -
  obtain d where d: "checkpoint_record c (oj_config j) rid previous s = Ok (r, d)"
    and run: "journal_transaction (q\<lparr>sa_commit := CommitOk\<rparr>) (checkpoint_mutation c (oj_config j) q rid previous s True (jo_revision r) d) j = (Ok (), j0)"
    using assms(3) by (rule checkpoint_answered)
  let ?f = "\<lambda>q. checkpoint_mutation c (oj_config j) q rid previous s True (jo_revision r) d"
  note r = checkpoint_record_Ok [OF d]
  have f: "?f q (oj_rows j) = Ok (oj_rows j0)" using run by (auto simp: journal_transaction_def split: outcome.splits if_splits)
  note m = checkpoint_mutation_Ok [OF assms(1) journal_invD(2) [OF assms(2)] d f]
  have cfg: "oj_config j0 = oj_config j" using run by (auto simp: journal_transaction_def split: outcome.splits if_splits)
  have entry: "history_in c (oj_config j) (oj_rows j0) (journal_key r) = Entry p" using assms(4) cfg r(4) by simp
  then have rev: "jo_revision p = jo_revision r" using m same_shape(2) [of p r] by simp
  have t0: "table_inv (oj_config j) (oj_rows j0)" using m by simp
  have ok: "all_readable c (oj_config j) (if True then oj_rows j0 else oj_rows j)" using assms(6) by simp
  obtain j1 j2 where z: "journal_transaction (q\<lparr>sa_commit := CommitUncertain True\<rparr>) (?f q) j = (Err history_uncertain, j1)"
    "recover_storage c None (Ok ()) (\<lambda>_. None) j1 = (Ok True, j2)" "oj_config j2 = oj_config j"
    "oj_rows j2 = (if True then oj_rows j0 else oj_rows j)" "journal_ready j2 = Ok ()" "journal_connection j2 = Ok ()"
    by (rule transaction_lost [OF assms(2) run t0 ok])
  have "\<exists>e j3. journal_checkpoint c q' rid previous s j2 = (Err e, j3) \<and> oj_rows j3 = oj_rows j0" for q'
  proof -
    obtain e where e: "?f q' (oj_rows j2) = Err e"
      using checkpoint_mutation_refused [OF assms(1) d entry assms(5) rev, of q'] z(4) by auto
    have "\<exists>e j3. journal_transaction q' (?f q') j2 = (Err e, j3) \<and> oj_rows j3 = oj_rows j2"
      using e z(5,6) by (cases "sa_begin q'") (auto simp: journal_transaction_def sql_check_def)
    then show ?thesis using checkpoint_call [OF d z(3), where q = q' and a = "sa_commit q'"] z(4) by auto
  qed
  then show ?thesis using z(1,2,4) checkpoint_call [OF d refl, where q = q and a = "CommitUncertain True"] by auto
qed

text \<open>
  Property C30. Reconciliation ends an operation: an accepted resolution names every recorded effect
  once, in order, under its own identity, changes no known outcome, and is written under the next
  revision; unless the row cannot be read, which exact JSON values rule out, the history can then be
  forgotten under that revision, however unresolved the operation was.
\<close>

theorem reconciliation_resolves_history:
  assumes "codec_ok c" "journal_inv j" "journal_reconcile c q rid oid n x j = (Ok m, j')"
  shows "\<exists>r. m = Suc n \<and> jo_revision r = m \<and> jo_reconciliation r = Some x \<and> written_as r (history c j' (rid, oid)) \<and>
    map he_effect_id (sn_host_effects (jo_snapshot r)) = map hc_effect_id (oc_host_effects x) \<and> distinct (map hc_effect_id (oc_host_effects x)) \<and>
    list_all2 (\<lambda>e w. he_effects e = UnknownEffect \<or> he_effects e = effect_of_resolved (hc_effects w)) (sn_host_effects (jo_snapshot r)) (oc_host_effects x) \<and>
    (sn_effects (jo_snapshot r) = UnknownEffect \<or> sn_effects (jo_snapshot r) = effect_of_resolved (oc_effects x)) \<and>
    (history c j' (rid, oid) \<noteq> Unreadable \<longrightarrow>
      (\<exists>j''. journal_forget c \<lparr>sa_begin = None, sa_read = None, sa_count = None, sa_write = None, sa_commit = CommitOk, sa_autocommit = True, sa_rollback = True\<rparr>
         rid oid m j' = (Ok (), j'')))"
proof -
  obtain r where r: "record_valid r" "m = Suc n" "jo_revision r = m" "jo_reconciliation r = Some x" "written_as r (history c j' (rid, oid))"
    using reconcile_move [OF assms] by auto
  have v: "reconciliation_validate x (jo_snapshot r) = Ok ()" using r(1,4) by (simp add: record_valid_def)
  then obtain ps where ps: "project_effects [] (sn_host_effects (jo_snapshot r)) (oc_host_effects x) = Ok ps"
    and len: "length (oc_host_effects x) = length (sn_host_effects (jo_snapshot r))"
    and agg: "sn_effects (jo_snapshot r) = UnknownEffect \<or> sn_effects (jo_snapshot r) = effect_of_resolved (oc_effects x)"
    by (auto simp: reconciliation_validate_def Let_def split: if_splits)
  note proj = project_effects_Ok [OF ps len]
  have "journal_ready j' = Ok () \<and> journal_connection j' = Ok () \<and> journal_validate_key (oj_config j') rid oid = Ok ()"
    using assms(3) by (auto simp: journal_reconcile_def call_defs ret_def journal_transaction_def journal_ready_def journal_connection_def
        split: outcome.splits prod.splits if_splits commit_answer.splits option.splits)
  moreover have "\<exists>p. journal_read c (oj_config j') \<lparr>sa_begin = None, sa_read = None, sa_count = None, sa_write = None, sa_commit = CommitOk,
      sa_autocommit = True, sa_rollback = True\<rparr> (rid, oid) (oj_rows j') = Ok (Some p) \<and> jo_revision p = m \<and> jo_reconciliation p = Some x"
    if "history c j' (rid, oid) \<noteq> Unreadable"
  proof (cases "history c j' (rid, oid)")
    case (Entry p)
    then have "jo_revision p = m" "jo_reconciliation p = Some x" using r(3-5) same_shape(2,3) [of p r] by simp_all
    then show ?thesis using Entry by (intro exI [of _ p]) (simp add: read_history)
  qed (use that r(5) in simp_all)
  ultimately have "\<exists>j''. journal_forget c \<lparr>sa_begin = None, sa_read = None, sa_count = None, sa_write = None, sa_commit = CommitOk, sa_autocommit = True,
      sa_rollback = True\<rparr> rid oid m j' = (Ok (), j'')" if "history c j' (rid, oid) \<noteq> Unreadable"
    using that by (auto simp: journal_forget_def call_defs journal_transaction_def forget_mutation_def journal_expect_def sql_check_def)
  then show ?thesis using r(2-5) proj agg len by (intro exI [of _ r]) (auto simp: list_all2_conv_all_nth)
qed

end
