(* ===== verification/Journal_Demo.thy ===== *)
theory Journal_Demo
  imports Journal_Theorems
begin

text \<open>
  A concrete history: two rows of one operation and a codec for its three documents. Each property of
  \<open>Journal_Theorems\<close> is applied to it.
\<close>

definition demo_history :: operation_journal_config where
  "demo_history = \<lparr>jc_max_records = 2, jc_max_record_bytes = 10, jc_max_database_bytes = 65536\<rparr>"

definition demo_state :: "operation_phase \<Rightarrow> operation_snapshot" where
  "demo_state phase = \<lparr>sn_finalization = None, sn_context = Unbound, sn_host_effects = [], sn_operation_id = ''op'', sn_phase = phase,
     sn_cancellation_requested = False, sn_effects = NotStarted, sn_value = None, sn_error = None\<rparr>"

definition demo_stored :: "u64 \<Rightarrow> operation_phase \<Rightarrow> operation_reconciliation option \<Rightarrow> journal_operation" where
  "demo_stored n phase x = \<lparr>jo_runtime_id = ''r'', jo_revision = n, jo_snapshot = demo_state phase, jo_reconciliation = x\<rparr>"

definition demo_resolution :: operation_reconciliation where
  "demo_resolution = \<lparr>oc_resolution_id = ''i'', oc_resolver = ''h'', oc_evidence = ''e'', oc_execution = StoppedWithoutResult,
     oc_effects = ResolvedNotStarted, oc_host_effects = []\<rparr>"

text \<open>A codec for five documents; the last two hold a number that is no integer, and the first of them is not read back as it was.\<close>

definition demo_rounded :: "string \<Rightarrow> journal_operation" where
  "demo_rounded t = \<lparr>jo_runtime_id = ''r'', jo_revision = 1, jo_snapshot = (demo_state OpSucceeded)\<lparr>sn_value := Some (VNumber t)\<rparr>, jo_reconciliation = None\<rparr>"

definition demo_codec :: journal_codec where
  "demo_codec = \<lparr>jk_snapshot = \<lambda>_. \<lparr>ser_chunks = [1], ser_failed = False\<rparr>, jk_resolution = \<lambda>_. \<lparr>ser_chunks = [1], ser_failed = False\<rparr>,
     jk_record = \<lambda>_. \<lparr>ser_chunks = [1], ser_failed = False\<rparr>,
     jk_to_vec = \<lambda>r. if r = demo_stored 1 OpQueued None then Some ''a'' else if r = demo_stored 2 OpRunning None then Some ''b''
       else if r = demo_stored 2 OpQueued (Some demo_resolution) then Some ''c''
       else if r = demo_rounded ''0.1'' then Some ''f'' else if r = demo_rounded ''0.2'' then Some ''g'' else None,
     jk_from_slice = \<lambda>d. if d = ''a'' then Some (demo_stored 1 OpQueued None) else if d = ''b'' then Some (demo_stored 2 OpRunning None)
       else if d = ''c'' then Some (demo_stored 2 OpQueued (Some demo_resolution))
       else if d \<in> {''f'', ''g''} then Some (demo_rounded ''0.2'') else None,
     jk_digest = \<lambda>d. d\<rparr>"

definition demo_sql :: sql_answers where
  "demo_sql = \<lparr>sa_begin = None, sa_read = None, sa_count = None, sa_write = None, sa_commit = CommitOk, sa_autocommit = True, sa_rollback = True\<rparr>"

lemma demo_distinct [simp]:
  "demo_rounded t \<noteq> demo_stored n p x" "demo_stored n p x \<noteq> demo_rounded t" "demo_rounded t = demo_rounded u \<longleftrightarrow> t = u"
  "demo_stored n p x = demo_stored m q y \<longleftrightarrow> n = m \<and> p = q \<and> x = y"
  by (auto simp: demo_rounded_def demo_stored_def demo_state_def)

lemma demo_shape: "record_shape (demo_rounded t) = record_shape (demo_rounded u)" "\<not> record_exact (demo_rounded ''0.1'')"
  by (simp_all add: record_shape_def snapshot_shape_def demo_rounded_def demo_state_def snapshot_exact_def snapshot_values_def integer_text_def)

lemma demo_codec_ok: "codec_ok demo_codec"
  using demo_shape by (auto simp: codec_ok_def demo_codec_def ser_length_def split: if_splits)

definition demo_table :: "journal_table \<Rightarrow> operation_journal" where
  "demo_table rows = \<lparr>oj_config = demo_history, oj_state = mutex_new \<lparr>js_connection = True, js_failure = None\<rparr>, oj_rows = rows\<rparr>"

definition demo_row :: "u64 \<Rightarrow> string \<Rightarrow> journal_table" where
  "demo_row n d = [((''r'', ''op''), \<lparr>row_revision = int n, row_document = d, row_digest = d\<rparr>)]"

lemma demo_table_fields [simp]: "oj_config (demo_table rows) = demo_history" "oj_rows (demo_table rows) = rows"
  by (simp_all add: demo_table_def)

lemma demo_codec_simps [simp]:
  "jk_digest demo_codec d = d" "jk_snapshot demo_codec s = \<lparr>ser_chunks = [1], ser_failed = False\<rparr>"
  "jk_resolution demo_codec x = \<lparr>ser_chunks = [1], ser_failed = False\<rparr>" "jk_record demo_codec r = \<lparr>ser_chunks = [1], ser_failed = False\<rparr>"
  "jk_to_vec demo_codec (demo_stored 1 OpQueued None) = Some ''a''" "jk_to_vec demo_codec (demo_stored 2 OpRunning None) = Some ''b''"
  "jk_to_vec demo_codec (demo_stored 2 OpQueued (Some demo_resolution)) = Some ''c''"
  "jk_from_slice demo_codec ''a'' = Some (demo_stored 1 OpQueued None)" "jk_from_slice demo_codec ''b'' = Some (demo_stored 2 OpRunning None)"
  "jk_from_slice demo_codec ''c'' = Some (demo_stored 2 OpQueued (Some demo_resolution))"
  by (simp_all add: demo_codec_def demo_stored_def demo_state_def)

lemma demo_open: "journal_open demo_codec (Ok ()) (\<lambda>_. None) demo_history [] = Ok (demo_table [])"
  by (simp add: journal_open_def validate_contents_def sql_check_def journal_ready_def journal_connection_def demo_table_def)

lemma demo_record_fields [simp]:
  "jo_runtime_id (demo_stored n p x) = ''r''" "jo_revision (demo_stored n p x) = n" "jo_snapshot (demo_stored n p x) = demo_state p"
  "jo_reconciliation (demo_stored n p x) = x" "sn_operation_id (demo_state p) = ''op''" "sn_context (demo_state p) = Unbound"
  "sn_finalization (demo_state p) = None" "sn_host_effects (demo_state p) = []" "sn_phase (demo_state p) = p"
  by (simp_all add: demo_stored_def demo_state_def)

lemma demo_validate [simp]: "validate_callers ''r'' (demo_state p) = Ok ()" "journal_validate_key demo_history ''r'' ''op'' = Ok ()"
  "json_size \<lparr>ser_chunks = [1], ser_failed = False\<rparr> (jc_max_record_bytes demo_history) = Ok 1"
  by (simp_all add: validate_callers_def validate_finalization_def context_validate_def journal_validate_key_def utf8_length_def demo_history_def json_size_def counter_write_def saturating_sub_def)

lemma demo_encode:
  "checkpoint_record demo_codec demo_history ''r'' None (demo_state OpQueued) = Ok (demo_stored 1 OpQueued None, ''a'')"
  "checkpoint_record demo_codec demo_history ''r'' (Some 1) (demo_state OpRunning) = Ok (demo_stored 2 OpRunning None, ''b'')"
  by (simp_all add: checkpoint_record_def journal_encode_def i64_max_def Let_def flip: demo_stored_def del: One_nat_def)

lemma demo_decode:
  "journal_decode demo_codec demo_history (''r'', ''op'') \<lparr>row_revision = 1, row_document = ''a'', row_digest = ''a''\<rparr> = Ok (demo_stored 1 OpQueued None)"
  "journal_decode demo_codec demo_history (''r'', ''op'') \<lparr>row_revision = 2, row_document = ''b'', row_digest = ''b''\<rparr> = Ok (demo_stored 2 OpRunning None)"
  by (simp_all add: journal_decode_def) (simp_all add: demo_history_def)

lemma demo_commit: "f rows = Ok rows' \<Longrightarrow> journal_transaction demo_sql f (demo_table rows) = (Ok (), demo_table rows')"
  by (simp add: journal_transaction_def journal_ready_def journal_connection_def demo_table_def demo_sql_def sql_check_def)

lemma demo_insert: "write_checkpoint demo_codec demo_sql ''r'' None (demo_state OpQueued) b (demo_table []) =
    (Ok (demo_stored 1 OpQueued None), demo_table (demo_row 1 ''a''))"
proof -
  have "checkpoint_mutation demo_codec demo_history demo_sql ''r'' None (demo_state OpQueued) b 1 ''a'' [] = Ok (demo_row 1 ''a'')"
    by (simp add: checkpoint_mutation_def journal_read_def same_checkpoint_def sql_check_def demo_sql_def demo_history_def demo_row_def row_of_def Let_def)
  then show ?thesis by (simp add: write_checkpoint_def call_defs demo_encode demo_commit ret_def del: One_nat_def)
qed

lemma demo_replace: "write_checkpoint demo_codec demo_sql ''r'' (Some 1) (demo_state OpRunning) b (demo_table (demo_row 1 ''a'')) =
    (Ok (demo_stored 2 OpRunning None), demo_table (demo_row 2 ''b''))"
proof -
  have "checkpoint_mutation demo_codec demo_history demo_sql ''r'' (Some 1) (demo_state OpRunning) b 2 ''b'' (demo_row 1 ''a'') = Ok (demo_row 2 ''b'')"
    by (simp add: checkpoint_mutation_def journal_read_def same_checkpoint_def sql_check_def demo_sql_def demo_row_def row_of_def demo_decode
        validate_finalization_successor_def Let_def)
  then show ?thesis by (simp add: write_checkpoint_def call_defs demo_encode demo_commit ret_def del: One_nat_def)
qed

lemma demo_inv: "journal_inv (demo_table [])" "history_in demo_codec demo_history (demo_row 1 ''a'') (''r'', ''op'') = Entry (demo_stored 1 OpQueued None)"
  "history_in demo_codec demo_history (demo_row 2 ''b'') (''r'', ''op'') = Entry (demo_stored 2 OpRunning None)"
  "all_readable demo_codec demo_history []"
  by (simp_all add: journal_inv_def demo_table_def table_inv_def history_in_def demo_row_def demo_decode entry_of_def all_readable_def)

lemma demo_journal_steps: "journal_step demo_codec (demo_table []) (demo_table (demo_row 1 ''a''))" "journal_step demo_codec (demo_table (demo_row 1 ''a'')) (demo_table (demo_row 2 ''b''))"
  by (rule step_checkpoint, rule demo_insert, rule step_checkpoint, rule demo_replace)

theorem journal_refines_history_witness:
  "history_step\<^sup>*\<^sup>* (history_in demo_codec demo_history []) (history_in demo_codec demo_history (demo_row 2 ''b'')) \<and>
   record_valid (demo_stored 2 OpRunning None)"
proof -
  have "(journal_step demo_codec)\<^sup>*\<^sup>* (demo_table []) (demo_table (demo_row 2 ''b''))"
    using demo_journal_steps by (meson converse_rtranclp_into_rtranclp r_into_rtranclp)
  from journal_refines_history [OF demo_codec_ok _ demo_open this] demo_inv(3) show ?thesis by (simp add: table_stored_def)
qed

theorem history_is_append_only_witness:
  "jo_revision (demo_stored 1 OpQueued None) \<le> jo_revision (demo_stored 2 OpRunning None)"
proof -
  let ?j = "demo_table (demo_row 1 ''a'')"
  have inv: "journal_inv ?j"
    using journal_step_move [OF demo_journal_steps(1) demo_codec_ok demo_inv(1)] by (simp add: history_move_def)
  have "(\<lambda>a b. journal_step demo_codec a b \<and> history demo_codec b (''r'', ''op'') \<noteq> NoEntry)\<^sup>*\<^sup>* ?j (demo_table (demo_row 2 ''b''))"
    using demo_journal_steps(2) demo_inv(3) by (intro r_into_rtranclp) simp
  from history_is_append_only [OF demo_codec_ok inv this] demo_inv(2,3) show ?thesis by simp
qed

theorem checkpoint_retry_exact_witness:
  "\<exists>j1 j2 j3. journal_checkpoint demo_codec (demo_sql\<lparr>sa_commit := CommitUncertain True\<rparr>) ''r'' None (demo_state OpQueued) (demo_table []) =
     (Err history_uncertain, j1) \<and> recover_storage demo_codec None (Ok ()) (\<lambda>_. None) j1 = (Ok True, j2) \<and>
     journal_checkpoint demo_codec (demo_sql\<lparr>sa_commit := CommitOk\<rparr>) ''r'' None (demo_state OpQueued) j2 = (Ok (demo_stored 1 OpQueued None), j3) \<and>
     oj_rows j3 = demo_row 1 ''a''"
proof -
  have sql: "demo_sql\<lparr>sa_commit := CommitOk\<rparr> = demo_sql" by (simp add: demo_sql_def)
  have "journal_checkpoint demo_codec (demo_sql\<lparr>sa_commit := CommitOk\<rparr>) ''r'' None (demo_state OpQueued) (demo_table []) =
      (Ok (demo_stored 1 OpQueued None), demo_table (demo_row 1 ''a''))"
    unfolding sql journal_checkpoint_def by (rule demo_insert)
  moreover have "snapshot_exact (demo_state OpQueued)" by (simp add: snapshot_exact_def snapshot_values_def demo_state_def)
  ultimately show ?thesis using checkpoint_retry_exact [OF demo_codec_ok demo_inv(1), of "demo_state OpQueued"] demo_inv(4) by fastforce
qed

theorem inexact_retry_refused_witness:
  "\<exists>j e i. oj_rows j = demo_row 1 ''f'' \<and> journal_checkpoint demo_codec demo_sql ''r'' None (jo_snapshot (demo_rounded ''0.1'')) j = (Err e, i)"
proof -
  let ?s = "jo_snapshot (demo_rounded ''0.1'')"
  have s: "sn_operation_id ?s = ''op''" "\<lparr>jo_runtime_id = ''r'', jo_revision = 1, jo_snapshot = ?s, jo_reconciliation = None\<rparr> = demo_rounded ''0.1''"
    "jo_runtime_id (demo_rounded t) = ''r''" "sn_operation_id (jo_snapshot (demo_rounded t)) = ''op''" "jo_revision (demo_rounded t) = 1"
    "jo_reconciliation (demo_rounded t) = None" "validate_callers ''r'' (jo_snapshot (demo_rounded t)) = Ok ()" for t
    by (simp_all add: demo_rounded_def demo_state_def validate_callers_def validate_finalization_def context_validate_def)
  have codec: "jk_to_vec demo_codec (demo_rounded ''0.1'') = Some ''f''" "jk_from_slice demo_codec ''f'' = Some (demo_rounded ''0.2'')"
    by (simp_all add: demo_codec_def)
  have rec: "checkpoint_record demo_codec demo_history ''r'' None ?s = Ok (demo_rounded ''0.1'', ''f'')"
    using s(7) [of "''0.1''"] by (simp add: checkpoint_record_def journal_encode_def s codec Let_def del: One_nat_def)
  have "checkpoint_mutation demo_codec demo_history demo_sql ''r'' None ?s True 1 ''f'' [] = Ok (demo_row 1 ''f'')"
    by (simp add: checkpoint_mutation_def journal_read_def same_checkpoint_def sql_check_def demo_sql_def demo_history_def demo_row_def row_of_def s Let_def)
  moreover have sql: "demo_sql\<lparr>sa_commit := CommitOk\<rparr> = demo_sql" by (simp add: demo_sql_def)
  ultimately have call: "journal_checkpoint demo_codec (demo_sql\<lparr>sa_commit := CommitOk\<rparr>) ''r'' None ?s (demo_table []) = (Ok (demo_rounded ''0.1''), demo_table (demo_row 1 ''f''))"
    by (simp add: journal_checkpoint_def write_checkpoint_def call_defs rec demo_commit ret_def s del: One_nat_def)
  have dec: "journal_decode demo_codec demo_history (''r'', ''op'') \<lparr>row_revision = 1, row_document = ''f'', row_digest = ''f''\<rparr> = Ok (demo_rounded ''0.2'')"
    by (simp add: journal_decode_def s codec) (simp add: demo_history_def)
  have entry: "history_in demo_codec demo_history (demo_row 1 ''f'') key = (if key = (''r'', ''op'') then Entry (demo_rounded ''0.2'') else NoEntry)" for key
    using dec by (auto simp: history_in_def demo_row_def entry_of_def)
  then have "all_readable demo_codec demo_history (demo_row 1 ''f'')" by (simp add: all_readable_def)
  then obtain j2 where j2: "oj_rows j2 = demo_row 1 ''f''" "\<forall>q. \<exists>e j3. journal_checkpoint demo_codec q ''r'' None ?s j2 = (Err e, j3) \<and> oj_rows j3 = demo_row 1 ''f''"
    using inexact_retry_refused [OF demo_codec_ok demo_inv(1) call, of "demo_rounded ''0.2''"] entry s(1) by auto
  then show ?thesis by blast
qed

lemma demo_reconcile: "journal_reconcile demo_codec demo_sql ''r'' ''op'' 1 demo_resolution (demo_table (demo_row 1 ''a'')) = (Ok 2, demo_table (demo_row 2 ''c''))"
proof -
  have valid: "reconciliation_validate demo_resolution (demo_state OpQueued) = Ok ()"
    by (simp add: reconciliation_validate_def demo_resolution_def trim_is_empty_def is_whitespace_def demo_state_def merge_effects_def)
  have stored: "(demo_stored 1 OpQueued None)\<lparr>jo_revision := 2, jo_reconciliation := Some demo_resolution\<rparr> = demo_stored 2 OpQueued (Some demo_resolution)"
    by (simp add: demo_stored_def)
  have "reconcile_mutation demo_codec demo_history demo_sql (''r'', ''op'') 1 demo_resolution (demo_row 1 ''a'') = Ok (demo_row 2 ''c'')"
    by (simp add: reconcile_mutation_def journal_read_def sql_check_def demo_sql_def demo_row_def row_of_def demo_decode journal_encode_def stored valid del: One_nat_def)
  then show ?thesis by (simp add: journal_reconcile_def call_defs demo_commit ret_def i64_max_def del: One_nat_def)
qed

lemma demo_resolved:
  "journal_decode demo_codec demo_history (''r'', ''op'') \<lparr>row_revision = 2, row_document = ''c'', row_digest = ''c''\<rparr> =
     Ok (demo_stored 2 OpQueued (Some demo_resolution))"
proof -
  have "reconciliation_validate demo_resolution (demo_state OpQueued) = Ok ()"
    by (simp add: reconciliation_validate_def demo_resolution_def trim_is_empty_def is_whitespace_def demo_state_def merge_effects_def)
  then show ?thesis by (simp add: journal_decode_def) (simp add: demo_history_def)
qed

theorem reconciliation_resolves_history_witness:
  "\<exists>j. journal_forget demo_codec \<lparr>sa_begin = None, sa_read = None, sa_count = None, sa_write = None, sa_commit = CommitOk, sa_autocommit = True, sa_rollback = True\<rparr>
     ''r'' ''op'' 2 (demo_table (demo_row 2 ''c'')) = (Ok (), j)"
proof -
  have inv: "journal_inv (demo_table (demo_row 1 ''a''))"
    using journal_step_move [OF demo_journal_steps(1) demo_codec_ok demo_inv(1)] by (simp add: history_move_def)
  have "history_in demo_codec demo_history (demo_row 2 ''c'') (''r'', ''op'') \<noteq> Unreadable"
    using demo_resolved by (simp add: history_in_def demo_row_def entry_of_def)
  then show ?thesis using reconciliation_resolves_history [OF demo_codec_ok inv demo_reconcile] by auto
qed

end
