(* ===== verification/Journal_Worker_Theorems.thy ===== *)
theory Journal_Worker_Theorems
  imports Journal_Worker_System Journal_Demo
begin

text \<open>
  Theorems of the journal worker: bounded receipts, writes in order, an acknowledged revision is one
  the journal stored, and closing ends.
\<close>

section \<open>The contract of the journal\<close>

locale journal_backend =
  fixes good :: "'j \<Rightarrow> bool" and hist :: "'j \<Rightarrow> journal_history"
    and store :: "'q \<Rightarrow> string \<Rightarrow> u64 option \<Rightarrow> operation_snapshot \<Rightarrow> bool \<Rightarrow> ('j, journal_operation) action"
    and other :: "'j \<Rightarrow> 'j \<Rightarrow> bool"
  assumes store_good: "good j \<Longrightarrow> store q rid previous s b j = (z, j') \<Longrightarrow> good j'"
    and store_durable: "good j \<Longrightarrow> store q rid previous s b j = (Ok r, j') \<Longrightarrow>
      written_as r (hist j' (rid, sn_operation_id s)) \<and> jo_runtime_id r = rid \<and> jo_snapshot r = s \<and>
      jo_revision r = (case previous of None \<Rightarrow> 1 | Some p \<Rightarrow> p + 1)"
    and other_good: "good j \<Longrightarrow> other j j' \<Longrightarrow> good j'"
begin

text \<open>The journal of a worker holds what a request asked to store, under the revision \<open>n\<close>.\<close>

definition stored_as :: "write_request \<Rightarrow> u64 \<Rightarrow> 'j journal_worker \<Rightarrow> bool" where
  "stored_as q n w \<longleftrightarrow>
     (\<exists>r. written_as r (hist (wk_journal w) (wq_runtime_id q, sn_operation_id (wq_snapshot q))) \<and>
        jo_runtime_id r = wq_runtime_id q \<and> jo_snapshot r = wq_snapshot q \<and> jo_revision r = n \<and>
        n = (case wq_expected_revision q of None \<Rightarrow> 1 | Some p \<Rightarrow> p + 1))"

lemma thread_step_good:
  assumes "good (wk_journal w)"
  shows "good (wk_journal (thread_step (store q) w)) \<and>
    (wk_thread (thread_step (store q) w) = ThreadWritten r (Inr n) \<longrightarrow> stored_as (rc_request (wk_receipts (thread_step (store q) w) ! r)) n (thread_step (store q) w))"
proof (cases "wk_thread w")
  case (ThreadWriting i)
  let ?rq = "rc_request (wk_receipts w ! i)"
  obtain z j where z: "store q (wq_runtime_id ?rq) (wq_expected_revision ?rq) (wq_snapshot ?rq) (wq_reconcile ?rq) (wk_journal w) = (z, j)" by fastforce
  show ?thesis
  proof (cases z)
    case (Ok x)
    note d = store_durable [OF assms z [unfolded Ok]]
    then show ?thesis using z ThreadWriting Ok store_good [OF assms z] by (auto simp: run_write_def Let_def stored_as_def intro!: exI [of _ x])
  qed (use z ThreadWriting store_good [OF assms z] in \<open>auto simp: run_write_def Let_def\<close>)
qed (use assms in \<open>auto simp: run_pop_def run_mark_def run_publish_def run_clear_def run_release_def fail_take_def fail_next_def fail_release_def split: list.splits\<close>)

lemma worker_step_good:
  assumes "worker_step store other w w'" "worker_inv w" "good (wk_journal w)"
  shows "good (wk_journal w') \<and> (wk_thread w' = ThreadWritten r (Inr n) \<longrightarrow>
    wk_thread w = ThreadWritten r (Inr n) \<or> stored_as (rc_request (wk_receipts w' ! r)) n w')"
  using assms(1)
proof (cases rule: worker_step.cases)
  case (worker_submit validate ser rid expected s b z)
  then show ?thesis using assms(3) by (cases rule: submit_cases) auto
next
  case (worker_thread q)
  then show ?thesis using thread_step_good [OF assms(3), of q r n] by simp
next
  case (worker_poll z)
  obtain y w1 where j: "join_finished w = (y, w1)" by fastforce
  have "wk_journal w1 = wk_journal w" using j by (auto simp: join_finished_def Let_def split: if_splits)
  then show ?thesis using worker_poll j join_finished_inv [OF assms(2) j] assms(3) by (auto simp: poll_closed_def Let_def split: if_splits)
next
  case (worker_recover spawned z)
  obtain y w1 where j: "join_finished w = (y, w1)" by fastforce
  have "wk_journal w1 = wk_journal w" using j by (auto simp: join_finished_def Let_def split: if_splits)
  then show ?thesis using worker_recover j join_finished_inv [OF assms(2) j] assms(3) by (auto simp: recover_worker_def split: if_splits)
next
  case (worker_other j)
  then show ?thesis using other_good [OF assms(3)] by simp
qed (use assms(3) in \<open>auto simp: receipt_clone_def receipt_handle_drop_def request_close_def\<close>)

text \<open>Every revision a receipt shows was in the journal at a moment of the run.\<close>

lemma acknowledged_was_stored:
  assumes "(worker_step store other)\<^sup>*\<^sup>* w0 w" "worker_inv w0" "good (wk_journal w0)" "wk_receipts w0 = []" "wk_thread w0 = ThreadIdle"
  shows "good (wk_journal w) \<and> (\<forall>r < length (wk_receipts w). \<forall>n. jw_revision (write_seen w r) = Some n \<or> wk_thread w = ThreadWritten r (Inr n) \<longrightarrow>
    (\<exists>w1. (worker_step store other)\<^sup>*\<^sup>* w0 w1 \<and> (worker_step store other)\<^sup>*\<^sup>* w1 w \<and> stored_as (rc_request (wk_receipts w ! r)) n w1))"
  using assms(1)
proof (induction rule: rtranclp_induct)
  case (step w w')
  note inv = worker_run_inv [OF step(1) assms(2)]
  note ev = worker_step_evolves [OF step(2) inv]
  have g: "good (wk_journal w)" using step.IH by simp
  note gd = worker_step_good [OF step(2) inv g]
  have "\<exists>w1. (worker_step store other)\<^sup>*\<^sup>* w0 w1 \<and> (worker_step store other)\<^sup>*\<^sup>* w1 w' \<and> stored_as (rc_request (wk_receipts w' ! r)) n w1"
    if r: "r < length (wk_receipts w')" and n: "jw_revision (write_seen w' r) = Some n \<or> wk_thread w' = ThreadWritten r (Inr n)" for r n
  proof -
    show ?thesis
    proof (cases "jw_revision (write_seen w r) = Some n \<and> r < length (wk_receipts w) \<or> wk_thread w = ThreadWritten r (Inr n)")
      case True
      then have len: "r < length (wk_receipts w)" using thread_facts(6) [OF inv, of r] by auto
      then obtain w1 where w1: "(worker_step store other)\<^sup>*\<^sup>* w0 w1" "(worker_step store other)\<^sup>*\<^sup>* w1 w" "stored_as (rc_request (wk_receipts w ! r)) n w1"
        using step.IH True by blast
      have same: "rc_request (wk_receipts w' ! r) = rc_request (wk_receipts w ! r)" using ev len by (simp add: receipts_evolve_def)
      show ?thesis using w1 same step(2) by (auto intro: rtranclp.rtrancl_into_rtrancl)
    next
      case False
      then have "jw_revision (write_seen w' r) \<noteq> Some n" using ev r by (cases "r < length (wk_receipts w)") (auto simp: receipts_evolve_def)
      then have "stored_as (rc_request (wk_receipts w' ! r)) n w'" using n gd [of r n] False by simp
      then show ?thesis using step(1,2) by (auto intro: rtranclp.rtrancl_into_rtrancl)
    qed
  qed
  then show ?case using gd by blast
qed (use assms(3-) in simp)

end

interpretation sqlite: journal_backend "\<lambda>j. codec_ok c \<and> journal_inv j" "history c" "write_checkpoint c" "journal_step c" for c
proof unfold_locales
  show "codec_ok c \<and> journal_inv j'" if "codec_ok c \<and> journal_inv j" "write_checkpoint c q rid previous s b j = (z, j')" for j j' q rid previous s b z
    using that write_checkpoint_move [of c j q rid previous s b z j'] by (simp add: history_move_def)
  show "written_as r (history c j' (rid, sn_operation_id s)) \<and> jo_runtime_id r = rid \<and> jo_snapshot r = s \<and>
      jo_revision r = (case previous of None \<Rightarrow> 1 | Some p \<Rightarrow> p + 1)"
    if "codec_ok c \<and> journal_inv j" "write_checkpoint c q rid previous s b j = (Ok r, j')" for j j' q rid previous s b r
    using that write_checkpoint_move [of c j q rid previous s b "Ok r" j'] by simp
  show "codec_ok c \<and> journal_inv j'" if "codec_ok c \<and> journal_inv j" "journal_step c j j'" for j j'
    using that journal_step_move [of c j j'] by (simp add: history_move_def)
qed

section \<open>Closing\<close>

text \<open>The thread alone, for \<open>n\<close> steps; \<open>store k\<close> is the journal's write at the \<open>k\<close>-th of them.\<close>

fun thread_run ::
  "(nat \<Rightarrow> string \<Rightarrow> u64 option \<Rightarrow> operation_snapshot \<Rightarrow> bool \<Rightarrow> ('j, journal_operation) action) \<Rightarrow> nat \<Rightarrow> 'j journal_worker \<Rightarrow> 'j journal_worker" where
  "thread_run store 0 w = w"
| "thread_run store (Suc n) w = thread_run (\<lambda>k. store (Suc k)) n (thread_step (store 0) w)"

fun thread_work :: "writer_thread \<Rightarrow> nat" where
  "thread_work ThreadIdle = 1"
| "thread_work (ThreadPopped r) = 6"
| "thread_work (ThreadWriting r) = 5"
| "thread_work (ThreadWritten r z) = 4"
| "thread_work (ThreadPublished r) = 3"
| "thread_work (ThreadCleared r) = 2"
| "thread_work (ThreadUnwound e) = 4"
| "thread_work (ThreadFailing e rs) = 2 * length rs + 1"
| "thread_work (ThreadDropping e r rs) = 2 * length rs + 2"
| "thread_work ThreadFinished = 0"
| "thread_work ThreadPanicked = 0"

definition work_left :: "'j journal_worker \<Rightarrow> nat" where
  "work_left w = thread_work (wk_thread w) + 6 * length (ws_queued (wk_st w))"

lemma admission_simps [simp]:
  "admission_closed (st\<lparr>ws_active := a\<rparr>) = admission_closed st" "admission_closed (st\<lparr>ws_queued := q\<rparr>) = admission_closed st"
  "admission_closed (st\<lparr>ws_failure := Some e\<rparr>)"
  by (auto simp: admission_closed_def)

lemma thread_step_progress:
  assumes "worker_inv w" "admission_closed (wk_st w)" "wk_thread w \<noteq> ThreadFinished"
  shows "work_left (thread_step store w) < work_left w \<and> admission_closed (wk_st (thread_step store w))"
proof (cases "wk_thread w")
  case ThreadIdle
  then show ?thesis using assms(2) thread_facts(1) [OF assms(1)] by (auto simp: run_pop_def work_left_def split: list.split)
next
  case (ThreadFailing e rs)
  then show ?thesis using assms(2) by (cases rs) (auto simp: fail_next_def work_left_def)
next
  case ThreadPanicked
  then show ?thesis using thread_facts(3) [OF assms(1)] by simp
qed (use assms(2,3) thread_facts(1) [OF assms(1)] in \<open>auto simp: run_mark_def run_write_def run_publish_def run_clear_def run_release_def fail_take_def fail_release_def
    work_left_def Let_def split: prod.split outcome.split option.split list.split\<close>)

lemma thread_run_finishes:
  assumes "worker_inv w" "admission_closed (wk_st w)" "work_left w \<le> n"
  shows "worker_inv (thread_run store n w) \<and> wk_thread (thread_run store n w) = ThreadFinished"
  using assms
proof (induction n arbitrary: w store)
  case 0
  then show ?case using thread_facts(3) [OF 0(1)] by (cases "wk_thread w") (auto simp: work_left_def)
next
  case (Suc n)
  have fin: "thread_step (store 0) w = w" if "wk_thread w = ThreadFinished" using that by simp
  have "work_left (thread_step (store 0) w) \<le> n \<and> admission_closed (wk_st (thread_step (store 0) w))"
  proof (cases "wk_thread w = ThreadFinished")
    case True
    then have "ws_queued (wk_st w) = []" using thread_facts(3) [OF Suc.prems(1)] by simp
    then show ?thesis using fin [OF True] True Suc.prems by (simp add: work_left_def)
  qed (use thread_step_progress [OF Suc.prems(1,2), of "store 0"] Suc.prems(3) in \<open>auto simp del: thread_step.simps\<close>)
  then show ?case using Suc.IH [OF thread_step_inv [OF Suc.prems(1)]] by simp
qed

section \<open>Properties\<close>

text \<open>
  Property C26. The worker's memory is bounded: at every moment of any use, the counter of pending
  writes is the number of receipts somebody still holds and the counter of bytes is their size, both
  within the configured limits; no lock is poisoned, so no counter ever went below zero.
\<close>

theorem worker_receipts_bounded:
  assumes "worker_new j cfg spawned = Ok w0" "(worker_step store other)\<^sup>*\<^sup>* w0 w"
  shows "ws_pending_writes (wk_st w) = card {r. receipt_owned w r} \<and> card {r. receipt_owned w r} \<le> wf_max_pending_writes (wk_config w) \<and>
    ws_pending_bytes (wk_st w) = (\<Sum>r | receipt_owned w r. rc_bytes (wk_receipts w ! r)) \<and>
    ws_pending_bytes (wk_st w) \<le> wf_max_pending_bytes (wk_config w) \<and> \<not> poisoned (wk_state w)"
  using worker_invD(1,4) [OF worker_run_inv [OF assms(2) worker_new_inv [OF assms(1)]]]
  by (simp add: counts_def owned_set_def locks_healthy_def)

text \<open>
  Property C29. Writes are taken in the order of submission and end once: the queue is always the most
  recent submissions in order, everything older is completed or in the hands of the thread, which
  writes one at a time; a completed receipt has exactly one result and never changes again.
\<close>

theorem worker_writes_in_order:
  assumes "worker_new j cfg spawned = Ok w0" "(worker_step store other)\<^sup>*\<^sup>* w0 w" "worker_step store other w w'"
  shows "(\<exists>k \<le> length (wk_receipts w). ws_queued (wk_st w) = [k..<length (wk_receipts w)] \<and>
      (\<forall>r < k. jw_phase (write_seen w r) = WriteCompleted \<or> r \<in> set (thread_pending (wk_thread w) (ws_active (wk_st w))))) \<and>
    (\<forall>r < length (wk_receipts w). jw_phase (write_seen w r) = WriteCompleted \<longrightarrow>
      (jw_revision (write_seen w r) = None) \<noteq> (jw_error (write_seen w r) = None) \<and> write_seen w' r = write_seen w r)"
proof -
  note inv = worker_run_inv [OF assms(2) worker_new_inv [OF assms(1)]]
  obtain k where k: "k \<le> length (wk_receipts w)" "ws_queued (wk_st w) = [k..<length (wk_receipts w)]" using worker_invD(2) [OF inv] by (auto simp: shape_ok_def)
  have ok: "result_ok (r \<in> set (pending w)) (write_seen w r)" if "r < length (wk_receipts w)" for r by (rule thread_facts(7) [OF inv that])
  have "jw_phase (write_seen w r) = WriteCompleted \<or> r \<in> set (thread_pending (wk_thread w) (ws_active (wk_st w)))" if "r < k" for r
    using ok [of r] that k by (auto simp: result_ok_def split: if_splits)
  moreover have "(jw_revision (write_seen w r) = None) \<noteq> (jw_error (write_seen w r) = None) \<and> write_seen w' r = write_seen w r"
    if "r < length (wk_receipts w)" "jw_phase (write_seen w r) = WriteCompleted" for r
    using ok [of r] that worker_step_evolves [OF assms(3) inv] by (auto simp: result_ok_def receipts_evolve_def split: if_splits)
  ultimately show ?thesis using k by blast
qed

text \<open>
  Property C10. An acknowledgement is true: when a receipt of a worker over the SQLite journal shows the
  revision \<open>n\<close>, then at a moment of the run the journal held, under the identity the request named, the
  record with the request's snapshot and that revision, the successor of the revision it expected;
  whatever the host did to the journal meanwhile and whatever failed. Where the snapshot's JSON values
  are exact the journal reads back that very record; otherwise one that differs in those values at
  most, or an unreadable row.
\<close>

theorem acknowledged_write_was_durable:
  assumes "codec_ok c" "journal_inv j" "worker_new j cfg spawned = Ok w0" "(worker_step (write_checkpoint c) (journal_step c))\<^sup>*\<^sup>* w0 w"
    and "r < length (wk_receipts w)" "acknowledged (write_seen w r) = Inr n"
  shows "\<exists>w1 rec. (worker_step (write_checkpoint c) (journal_step c))\<^sup>*\<^sup>* w0 w1 \<and> (worker_step (write_checkpoint c) (journal_step c))\<^sup>*\<^sup>* w1 w \<and>
    written_as rec (history c (wk_journal w1) (wq_runtime_id (rc_request (wk_receipts w ! r)), sn_operation_id (wq_snapshot (rc_request (wk_receipts w ! r))))) \<and>
    jo_runtime_id rec = wq_runtime_id (rc_request (wk_receipts w ! r)) \<and> jo_snapshot rec = wq_snapshot (rc_request (wk_receipts w ! r)) \<and>
    jo_revision rec = n \<and> n = (case wq_expected_revision (rc_request (wk_receipts w ! r)) of None \<Rightarrow> 1 | Some p \<Rightarrow> p + 1)"
proof -
  have w0: "wk_receipts w0 = []" "wk_thread w0 = ThreadIdle" "wk_journal w0 = j" using assms(3) by (auto simp: worker_new_def split: if_splits)
  have "jw_revision (write_seen w r) = Some n" using assms(6) by (auto simp: acknowledged_def split: journal_write_phase.splits option.splits)
  then show ?thesis
    using sqlite.acknowledged_was_stored [OF assms(4) worker_new_inv [OF assms(3)] _ w0(1,2)] w0(3) assms(1,2,5)
    unfolding sqlite.stored_as_def by blast
qed

text \<open>
  Property C28. Closing ends: once the worker is closed, its thread alone finishes within six steps per
  queued request and a constant more, whatever the journal answers at each of them, panics included;
  every submitted write then has its result, and a poll answers true as soon as no receipt is held.
\<close>

theorem closing_drains_every_write:
  assumes "worker_new j cfg spawned = Ok w0" "(worker_step store other)\<^sup>*\<^sup>* w0 w"
    and "6 * length (ws_queued (wk_st w)) + thread_work (wk_thread w) \<le> n"
  shows "let v = thread_run answers n (request_close w) in
    wk_thread v = ThreadFinished \<and> (\<forall>r < length (wk_receipts v). jw_phase (write_seen v r) = WriteCompleted) \<and>
    (wk_handles v = [] \<longrightarrow> fst (poll_closed v) = Ok True)"
proof -
  let ?v = "thread_run answers n (request_close w)"
  note inv = worker_run_inv [OF assms(2) worker_new_inv [OF assms(1)]]
  have "work_left (request_close w) \<le> n" "admission_closed (wk_st (request_close w))"
    using assms(3) by (simp_all add: work_left_def request_close_def admission_closed_def)
  from thread_run_finishes [OF request_close_inv [OF inv] this(2,1)]
  have v: "worker_inv ?v" "wk_thread ?v = ThreadFinished" by blast+
  note f = thread_facts [OF v(1)] and i = worker_invD [OF v(1)]
  have empty: "ws_active (wk_st ?v) = None" "ws_queued (wk_st ?v) = []" "admission_closed (wk_st ?v)" using f(3) v(2) by simp_all
  have "jw_phase (write_seen ?v r) = WriteCompleted" if "r < length (wk_receipts ?v)" for r using f(7) [OF that] v(2) empty by (simp add: result_ok_def)
  moreover have "fst (poll_closed ?v) = Ok True" if "wk_handles ?v = []"
  proof -
    obtain y w1 where j: "join_finished ?v = (y, w1)" by fastforce
    have "y = Ok True" using join_finished_inv [OF v(1) j] v(2) j by (auto simp: join_finished_def thread_exited_def Let_def split: if_splits)
    moreover have "ws_pending_writes (wk_st ?v) = 0" using i(4) that empty v(2) by (simp add: counts_def owned_set_eq)
    ultimately show ?thesis using join_finished_inv [OF v(1) j] j empty f(1) i(1) by (simp add: poll_closed_def locks_healthy_def)
  qed
  ultimately show ?thesis using v(2) by (simp add: Let_def)
qed

section \<open>A run\<close>

text \<open>One checkpoint through the queue of an empty worker over the empty demonstration journal.\<close>

definition demo_limits :: operation_journal_worker_config where
  "demo_limits = \<lparr>wf_max_pending_writes = 2, wf_max_pending_bytes = 10\<rparr>"

definition demo_write_request :: write_request where
  "demo_write_request = \<lparr>wq_reconcile = True, wq_runtime_id = ''r'', wq_expected_revision = None, wq_snapshot = demo_state OpQueued\<rparr>"

definition demo_receipt :: "journal_write_phase \<Rightarrow> u64 option \<Rightarrow> receipt_state" where
  "demo_receipt phase n = \<lparr>rc_request = demo_write_request, rc_bytes = 1, rc_snapshot = mutex_new \<lparr>jw_phase = phase, jw_revision = n, jw_error = None\<rparr>\<rparr>"

definition demo_worker :: "journal_table \<Rightarrow> nat list \<Rightarrow> nat option \<Rightarrow> usize \<Rightarrow> receipt_state list \<Rightarrow> writer_thread \<Rightarrow> operation_journal journal_worker" where
  "demo_worker rows queued active n receipts thread = \<lparr>wk_config = demo_limits, wk_journal = demo_table rows,
     wk_state = mutex_new \<lparr>ws_close_requested = False, ws_queued = queued, ws_active = active, ws_pending_writes = n, ws_pending_bytes = n, ws_failure = None\<rparr>,
     wk_receipts = receipts, wk_handles = [0..<n], wk_thread = thread, wk_owner = mutex_new \<lparr>to_handle = True, to_unproven_exit = False\<rparr>\<rparr>"

abbreviation demo_ready :: "operation_journal journal_worker" where
  "demo_ready \<equiv> demo_worker [] [] None 0 [] ThreadIdle"

abbreviation demo_submitted :: "operation_journal journal_worker" where
  "demo_submitted \<equiv> demo_worker [] [0] None 1 [demo_receipt WriteQueued None] ThreadIdle"

abbreviation demo_done :: "operation_journal journal_worker" where
  "demo_done \<equiv> demo_worker (demo_row 1 ''a'') [] (Some 0) 1 [demo_receipt WriteCompleted (Some 1)] (ThreadPublished 0)"

lemma demo_worker_new: "worker_new (demo_table []) demo_limits True = Ok demo_ready"
  by (simp add: worker_new_def worker_config_validate_def demo_worker_def demo_limits_def)

lemma demo_submit:
  "submit_request (\<lambda>_ _ _. Ok ()) (\<lambda>_. \<lparr>ser_chunks = [1], ser_failed = False\<rparr>) ''r'' None (demo_state OpQueued) True demo_ready = (Ok 0, demo_submitted)"
  by (simp add: submit_request_def json_size_def counter_write_def saturating_sub_def demo_worker_def demo_limits_def demo_receipt_def demo_write_request_def
      admission_closed_def update_state_def mutex_recover_def mutex_new_def Let_def)

lemmas demo_thread_defs = demo_worker_def demo_receipt_def goto_def update_state_def update_receipt_def mutex_recover_def mutex_new_def

lemma demo_thread:
  "thread_step write demo_submitted = demo_worker [] [] (Some 0) 1 [demo_receipt WriteQueued None] (ThreadPopped 0)"
  "thread_step write (demo_worker [] [] (Some 0) 1 [demo_receipt WriteQueued None] (ThreadPopped 0)) =
     demo_worker [] [] (Some 0) 1 [demo_receipt WriteWriting None] (ThreadWriting 0)"
  "thread_step (write_checkpoint demo_codec demo_sql) (demo_worker [] [] (Some 0) 1 [demo_receipt WriteWriting None] (ThreadWriting 0)) =
     demo_worker (demo_row 1 ''a'') [] (Some 0) 1 [demo_receipt WriteWriting None] (ThreadWritten 0 (Inr 1))"
  "thread_step write (demo_worker (demo_row 1 ''a'') [] (Some 0) 1 [demo_receipt WriteWriting None] (ThreadWritten 0 (Inr 1))) = demo_done"
proof -
  show "thread_step write demo_submitted = demo_worker [] [] (Some 0) 1 [demo_receipt WriteQueued None] (ThreadPopped 0)"
    by (simp add: run_pop_def demo_thread_defs)
  show "thread_step write (demo_worker [] [] (Some 0) 1 [demo_receipt WriteQueued None] (ThreadPopped 0)) =
     demo_worker [] [] (Some 0) 1 [demo_receipt WriteWriting None] (ThreadWriting 0)"
    by (simp add: run_mark_def demo_thread_defs)
  show "thread_step (write_checkpoint demo_codec demo_sql) (demo_worker [] [] (Some 0) 1 [demo_receipt WriteWriting None] (ThreadWriting 0)) =
     demo_worker (demo_row 1 ''a'') [] (Some 0) 1 [demo_receipt WriteWriting None] (ThreadWritten 0 (Inr 1))"
    by (simp add: run_write_def demo_thread_defs demo_write_request_def demo_insert del: One_nat_def)
  show "thread_step write (demo_worker (demo_row 1 ''a'') [] (Some 0) 1 [demo_receipt WriteWriting None] (ThreadWritten 0 (Inr 1))) = demo_done"
    by (simp add: run_publish_def receipt_complete_def demo_thread_defs)
qed

lemma demo_worker_run:
  "(worker_step (write_checkpoint demo_codec) (journal_step demo_codec))\<^sup>*\<^sup>* demo_ready demo_submitted"
  "(worker_step (write_checkpoint demo_codec) (journal_step demo_codec))\<^sup>*\<^sup>* demo_ready demo_done"
proof -
  let ?step = "worker_step (write_checkpoint demo_codec) (journal_step demo_codec)"
  have s: "?step demo_ready demo_submitted" by (rule worker_submit [OF demo_submit])
  then show "?step\<^sup>*\<^sup>* demo_ready demo_submitted" by (rule r_into_rtranclp)
  have t: "?step w (thread_step (write_checkpoint demo_codec demo_sql) w)" for w by (rule worker_thread)
  show "?step\<^sup>*\<^sup>* demo_ready demo_done"
    using s t [of demo_submitted, unfolded demo_thread(1)] t [of "demo_worker [] [] (Some 0) 1 [demo_receipt WriteQueued None] (ThreadPopped 0)", unfolded demo_thread(2)]
      t [of "demo_worker [] [] (Some 0) 1 [demo_receipt WriteWriting None] (ThreadWriting 0)", unfolded demo_thread(3)]
      t [of "demo_worker (demo_row 1 ''a'') [] (Some 0) 1 [demo_receipt WriteWriting None] (ThreadWritten 0 (Inr 1))", unfolded demo_thread(4)]
    by (meson converse_rtranclp_into_rtranclp r_into_rtranclp)
qed

theorem worker_receipts_bounded_witness:
  "ws_pending_writes (wk_st demo_done) = card {r. receipt_owned demo_done r} \<and> ws_pending_writes (wk_st demo_done) = 1"
  using worker_receipts_bounded [OF demo_worker_new demo_worker_run(2)] by (simp add: demo_worker_def)

theorem worker_writes_in_order_witness:
  "(jw_revision (write_seen demo_done 0) = None) \<noteq> (jw_error (write_seen demo_done 0) = None)"
  using worker_writes_in_order [OF demo_worker_new demo_worker_run(2) worker_close] by (simp add: demo_worker_def demo_receipt_def)

theorem acknowledged_write_was_durable_witness:
  "\<exists>w1 rec. (worker_step (write_checkpoint demo_codec) (journal_step demo_codec))\<^sup>*\<^sup>* demo_ready w1 \<and>
     history demo_codec (wk_journal w1) (''r'', ''op'') = Entry rec \<and> jo_snapshot rec = demo_state OpQueued \<and> jo_revision rec = 1"
proof -
  have "snapshot_exact (demo_state OpQueued)" by (simp add: snapshot_exact_def snapshot_values_def demo_state_def)
  then show ?thesis
    using acknowledged_write_was_durable [OF demo_codec_ok demo_inv(1) demo_worker_new demo_worker_run(2), of 0 1] written_exact
    by (fastforce simp: demo_worker_def demo_receipt_def demo_write_request_def acknowledged_def)
qed

theorem closing_drains_every_write_witness:
  "wk_thread (thread_run (\<lambda>_ _ _ _ _ j. (Panic ''disk'', j)) 7 (request_close demo_submitted)) = ThreadFinished"
  using closing_drains_every_write [OF demo_worker_new demo_worker_run(1), of 7 "\<lambda>_ _ _ _ _ j. (Panic ''disk'', j)"]
  by (simp add: demo_worker_def Let_def)

end
