(* ===== verification/Journal_File.thy ===== *)
theory Journal_File
  imports Journal_Theorems
begin

text \<open>
  Opening the database file (\<^verbatim>\<open>runtime/embedded/journal/storage.rs\<close>): the limits derived from the
  configuration, the checks on the path and on an existing file, the connection settings, and the
  identity and schema of the database.

  Parameters: \<open>file_facts\<close> is what the file system says of the path, \<open>sqlite_facts\<close> what SQLite answers;
  the first argument of its queries counts the places of the function that ask.
\<close>

section \<open>Constants\<close>

definition application_id :: int where
  "application_id = 0x4c534f4a"

definition schema_version :: int where
  "schema_version = 4"

definition page_bytes :: u64 where
  "page_bytes = 4096"

definition row_overhead :: usize where
  "row_overhead = 128"

definition i32_max :: nat where
  "i32_max = 2147483647"

definition journal_schema :: string where
  "journal_schema = ''CREATE TABLE operations(runtime_id TEXT NOT NULL, operation_id TEXT NOT NULL, revision INTEGER NOT NULL CHECK(revision > 0), document BLOB NOT NULL, digest BLOB NOT NULL CHECK(length(digest) = 32), PRIMARY KEY(runtime_id, operation_id)) STRICT, WITHOUT ROWID''"

section \<open>What the system answers\<close>

datatype file_metadata = MetadataMissing | MetadataFailed | MetadataFound bool bool bool u64

text \<open>\<open>MetadataFound regular symlink reparse len\<close>; \<open>reparse\<close> is false outside Windows.\<close>

record file_facts =
  ff_absolute :: bool
  ff_file_name :: bool
  ff_parent :: "bool option"
  ff_metadata :: file_metadata
  ff_header :: "nat list option"

record sqlite_facts =
  sq_run :: "string \<Rightarrow> sql_failure option"
  sq_number :: "nat \<Rightarrow> string \<Rightarrow> sql_failure + int"
  sq_text :: "nat \<Rightarrow> string \<Rightarrow> sql_failure + string"

definition sql_value :: "sql_failure + 'a \<Rightarrow> 'a embedded_result" where
  "sql_value v = (case v of Inl f \<Rightarrow> Err (storage_error f) | Inr x \<Rightarrow> Ok x)"

section \<open>Checks\<close>

definition history_unsupported :: embedded_error where
  "history_unsupported = error_new Unsupported ''operation history identity or schema version is unsupported''"

fun from_be_bytes :: "nat list \<Rightarrow> nat" where
  "from_be_bytes [] = 0"
| "from_be_bytes (b # bs) = b * 256 ^ length bs + from_be_bytes bs"

definition validate_header :: "file_facts \<Rightarrow> unit embedded_result" where
  "validate_header ff =
     and_then (ok_or history_corrupt (ff_header ff)) (\<lambda>h.
       let version = from_be_bytes (take 4 (drop 60 h)); ident = from_be_bytes (take 4 (drop 68 h)) in
       if take 16 h \<noteq> map of_char (''SQLite format 3'') @ [0] \<or> int version \<noteq> schema_version \<or> int ident \<noteq> application_id
       then Err history_unsupported
       else Ok ())"

definition verify_number :: "sqlite_facts \<Rightarrow> string \<Rightarrow> int \<Rightarrow> unit embedded_result" where
  "verify_number sq name expected =
     and_then (sql_value (sq_number sq 0 name)) (\<lambda>actual.
       if actual \<noteq> expected then Err (error_new Unsupported ''operation history SQLite settings do not match required limits'') else Ok ())"

definition validate_identity :: "sqlite_facts \<Rightarrow> nat \<Rightarrow> unit embedded_result" where
  "validate_identity sq place =
     and_then (sql_value (sq_number sq place ''application_id'')) (\<lambda>ident.
     and_then (sql_value (sq_number sq place ''user_version'')) (\<lambda>version.
       if ident \<noteq> application_id \<or> version \<noteq> schema_version then Err history_unsupported
       else
         and_then (sql_value (sq_number sq place ''count'')) (\<lambda>count.
           if count \<noteq> 1 then Err history_corrupt
           else
             and_then (sql_value (sq_text sq place ''schema'')) (\<lambda>schema.
               if schema \<noteq> journal_schema then Err history_corrupt else Ok ()))))"

text \<open>The length limit of a row, derived from the configured size of a record.\<close>

definition row_limit :: "operation_journal_config \<Rightarrow> nat embedded_result" where
  "row_limit cfg =
     and_then (ok_or history_capacity
       (if jc_max_record_bytes cfg * 3 \<le> usize_max
        then Option.bind (checked_add (jc_max_record_bytes cfg * 3) row_overhead) (\<lambda>v. if v \<le> i32_max then Some v else None)
        else None)) (\<lambda>limit.
     Ok (max limit page_bytes))"

text \<open>The path, before SQLite is asked: whether the file exists.\<close>

definition check_path :: "file_facts \<Rightarrow> u64 \<Rightarrow> bool \<Rightarrow> bool embedded_result" where
  "check_path ff max_pages allow_create =
     and_then (ok_or (error_invalid ''operation history parent is missing'') (ff_parent ff)) (\<lambda>is_dir.
       if \<not> is_dir then Err (error_invalid ''operation history parent directory must already exist'')
       else
         and_then (case ff_metadata ff of
             MetadataFound regular symlink reparse len \<Rightarrow>
               if \<not> regular \<or> symlink then Err (error_invalid ''operation history path must be a regular file'')
               else if reparse then Err (error_invalid ''operation history path must not be a reparse point'')
               else if len > max_pages * page_bytes then Err history_capacity
               else Ok True
           | MetadataMissing \<Rightarrow> Ok False
           | MetadataFailed \<Rightarrow> Err (error_new Internal ''operation history metadata cannot be read'')) (\<lambda>existing.
           if \<not> existing \<and> \<not> allow_create
           then Err (error_new NotFound ''operation history recovery requires the original database'')
           else if existing then and_then (validate_header ff) (\<lambda>_. Ok True)
           else Ok False))"

text \<open>One setting: the pragma and, where it has one, its verification.\<close>

definition sql_setting :: "sqlite_facts \<Rightarrow> string \<Rightarrow> int \<Rightarrow> unit embedded_result" where
  "sql_setting sq name expected = and_then (sql_check (sq_run sq name)) (\<lambda>_. verify_number sq name expected)"

definition sql_mode :: "sqlite_facts \<Rightarrow> string \<Rightarrow> string \<Rightarrow> string \<Rightarrow> unit embedded_result" where
  "sql_mode sq name expected message =
     and_then (sql_value (sq_text sq 0 name)) (\<lambda>mode. if mode \<noteq> expected then Err (error_new Unsupported message) else Ok ())"

definition configure_connection :: "sqlite_facts \<Rightarrow> nat \<Rightarrow> u64 \<Rightarrow> bool \<Rightarrow> unit embedded_result" where
  "configure_connection sq limit max_pages existing =
     and_then (sql_check (sq_run sq ''open'')) (\<lambda>_.
     and_then (sql_check (sq_run sq ''busy_timeout'')) (\<lambda>_.
     and_then (sql_check (sq_run sq ''set_limit'')) (\<lambda>_.
     and_then (sql_value (sq_number sq 0 ''limit'')) (\<lambda>l.
     if l \<noteq> int limit then Err history_capacity
     else
       and_then (sql_setting sq ''trusted_schema'' 0) (\<lambda>_.
       and_then (if existing then validate_identity sq 1 else Ok ()) (\<lambda>_.
       and_then (sql_setting sq ''page_size'' (int page_bytes)) (\<lambda>_.
       and_then (sql_setting sq ''max_page_count'' (int max_pages)) (\<lambda>_.
       and_then (sql_mode sq ''journal_mode'' ''delete'' ''operation history requires SQLite DELETE journal mode'') (\<lambda>_.
       and_then (sql_setting sq ''synchronous'' 3) (\<lambda>_.
       and_then (sql_setting sq ''journal_size_limit'' 0) (\<lambda>_.
       and_then (sql_setting sq ''fullfsync'' 1) (\<lambda>_.
       sql_mode sq ''locking_mode'' ''exclusive'' ''operation history requires exclusive SQLite ownership''))))))))))))"

text \<open>The schema: written into a fresh file only. The result says whether it was.\<close>

definition prepare_schema :: "sqlite_facts \<Rightarrow> bool \<Rightarrow> bool embedded_result" where
  "prepare_schema sq existing =
     and_then (sql_check (sq_run sq ''begin'')) (\<lambda>_.
     and_then (sql_value (sq_number sq 2 ''application_id'')) (\<lambda>ident.
     and_then (sql_value (sq_number sq 2 ''user_version'')) (\<lambda>version.
     and_then (sql_value (sq_number sq 2 ''count'')) (\<lambda>tables.
       let fresh = (\<not> existing \<and> ident = 0 \<and> version = 0 \<and> tables = 0) in
       and_then (if fresh
         then and_then (sql_check (sq_run sq ''schema'')) (\<lambda>_.
              and_then (sql_check (sq_run sq ''application_id'')) (\<lambda>_. sql_check (sq_run sq ''user_version'')))
         else validate_identity sq 3) (\<lambda>_.
       and_then (sql_check (sq_run sq ''commit'')) (\<lambda>_. Ok fresh))))))"

definition open_controlled :: "file_facts \<Rightarrow> sqlite_facts \<Rightarrow> operation_journal_config \<Rightarrow> bool \<Rightarrow> bool embedded_result" where
  "open_controlled ff sq cfg allow_create =
     (if \<not> ff_absolute ff \<or> \<not> ff_file_name ff \<or> jc_max_records cfg = 0 \<or> jc_max_record_bytes cfg = 0 \<or> jc_max_records cfg > i64_max
      then Err (error_invalid ''operation history requires an absolute file path and positive bounded limits'')
      else
        and_then (row_limit cfg) (\<lambda>limit.
        let max_pages = jc_max_database_bytes cfg div page_bytes in
        if max_pages < 2 \<or> max_pages > i32_max then Err history_capacity
        else
          and_then (check_path ff max_pages allow_create) (\<lambda>existing.
          and_then (configure_connection sq limit max_pages existing) (\<lambda>_.
          and_then (prepare_schema sq existing) (\<lambda>fresh.
          and_then (validate_identity sq 4) (\<lambda>_.
          and_then (sql_value (sq_text sq 0 ''quick_check'')) (\<lambda>integrity.
            if integrity \<noteq> ''ok'' then Err history_corrupt else Ok fresh)))))))"

definition storage_open :: "file_facts \<Rightarrow> sqlite_facts \<Rightarrow> operation_journal_config \<Rightarrow> bool embedded_result" where
  "storage_open ff sq cfg = open_controlled ff sq cfg True"

definition storage_reopen :: "file_facts \<Rightarrow> sqlite_facts \<Rightarrow> operation_journal_config \<Rightarrow> bool embedded_result" where
  "storage_reopen ff sq cfg = open_controlled ff sq cfg False"

section \<open>Lemmas\<close>

lemma sql_value_Ok [simp]: "sql_value v = Ok x \<longleftrightarrow> v = Inr x"
  by (cases v) (auto simp: sql_value_def)

lemma file_checks_not_panic [simp]:
  "\<not> is_panic (sql_value v)" "\<not> is_panic (validate_header ff)" "\<not> is_panic (verify_number sq s n)" "\<not> is_panic (validate_identity sq k)"
  "\<not> is_panic (row_limit cfg)" "\<not> is_panic (check_path ff m b)" "\<not> is_panic (sql_setting sq s n)" "\<not> is_panic (sql_mode sq s t u)"
  by (auto simp: sql_value_def validate_header_def verify_number_def validate_identity_def row_limit_def check_path_def sql_setting_def sql_mode_def Let_def
      split: sum.split file_metadata.split)

lemma opening_not_panic: "\<not> is_panic (open_controlled ff sq cfg b)"
  by (auto simp: open_controlled_def configure_connection_def prepare_schema_def Let_def)

lemma open_controlled_Ok:
  assumes "open_controlled ff sq cfg b = Ok fresh"
  obtains limit existing where "row_limit cfg = Ok limit" "check_path ff (jc_max_database_bytes cfg div page_bytes) b = Ok existing"
    "configure_connection sq limit (jc_max_database_bytes cfg div page_bytes) existing = Ok ()" "prepare_schema sq existing = Ok fresh"
    "validate_identity sq 4 = Ok ()" "0 < jc_max_records cfg" "jc_max_records cfg \<le> i64_max" "0 < jc_max_record_bytes cfg"
  using assms by (auto simp: open_controlled_def Let_def split: if_splits)

end
