(* ===== verification/Journal_Composition.thy ===== *)
theory Journal_Composition
  imports Journal_File Journal_Demo Operation_Write_Ahead
begin

text \<open>
  The journal behind the operations and above the file: what an operation publishes is what the
  journal stores, the rows the journal writes fit the limits the file was opened with, and recovery
  reopens the original file.
\<close>

section \<open>Operations over the journal\<close>

text \<open>\<^verbatim>\<open>HistoryBackend::Direct\<close> over the SQLite journal in the state \<open>j\<close>, with the answers \<open>q\<close> to the call at hand.\<close>

definition direct_journal :: "journal_codec \<Rightarrow> sql_answers \<Rightarrow> operation_journal \<Rightarrow> journal_responses \<Rightarrow> journal_responses" where
  "direct_journal c q j resp = resp\<lparr>jr_direct := \<lambda>runtime_id previous snapshot.
     (case fst (journal_checkpoint c q runtime_id previous snapshot j) of
        Ok r \<Rightarrow> Inr (jo_revision r) | Err e \<Rightarrow> Inl e | Panic p \<Rightarrow> Inl (error_new Internal p))\<rparr>"

lemma direct_answer:
  assumes "codec_ok c" "journal_inv j" "jr_direct (direct_journal c q j resp) rid previous x = Inr n"
  shows "\<exists>r. written_as r (history c (snd (journal_checkpoint c q rid previous x j)) (rid, sn_operation_id x)) \<and>
    jo_runtime_id r = rid \<and> jo_snapshot r = x \<and> jo_revision r = n"
proof -
  obtain z j' where z: "journal_checkpoint c q rid previous x j = (z, j')" by fastforce
  obtain r where r: "z = Ok r" "jo_revision r = n" using assms(3) z by (cases z) (auto simp: direct_journal_def)
  then show ?thesis using write_checkpoint_move [OF assms(1,2) z [unfolded journal_checkpoint_def]] z by (intro exI [of _ r]) simp
qed

text \<open>
  Property C12. What an operation publishes is in the database: for an operation with a direct history
  over the SQLite journal, at every point of every run, each call of its owner leaves the published
  snapshot alone, or publishes a snapshot that the journal holds when the checkpoint of that call
  returns, under the operation's own runtime and identity and the revision the operation then records;
  the record is read back exactly when its JSON values are exact.
\<close>

theorem published_snapshot_is_durable:
  assumes "codec_ok c" "journal_inv j"
    and "\<not> poisoned (reg_state g)" "admit_with_reservation ser now g control reservation make_context = (Ok (w, x), g')"
    and "(logged_step z)\<^sup>*\<^sup>* ((w, {}), []) ((s, live), log)"
    and "op_history (own_operation s) = Some h" "hs_backend h = DirectBackend" "set (call_responses call) \<subseteq> {direct_journal c q j resp}"
  shows "cur (run_call z call s) = cur s \<or>
    (\<exists>r. written_as r (history c (snd (journal_checkpoint c q (hs_runtime_id h) (guarded (hs_revision h)) (cur (run_call z call s)) j))
            (hs_runtime_id h, sn_operation_id (cur (run_call z call s)))) \<and>
       jo_runtime_id r = hs_runtime_id h \<and> jo_snapshot r = cur (run_call z call s) \<and> revision_of (run_call z call s) = Some (jo_revision r))"
proof -
  let ?t = "run_call z call s"
  obtain ctx where "op_inv (sz_effect z) ctx {} w" using admitted_owner(1) [OF assms(3,4)] by blast
  from logged_run [OF assms(5) this admitted_owner(2) [OF assms(3,4)]] have inv: "op_inv (sz_effect z) ctx live s" by simp
  have "\<not> history_is_queued h" using assms(7) by (simp add: history_is_queued_def)
  note d = direct_history(2,3) [OF inv assms(6) this]
  have "retained_logged [] s" using d by (simp add: retained_logged_def)
  from run_call_write_ahead [OF inv this, of call] have w: "write_ahead (call_responses call) s ?t" by simp
  show ?thesis
  proof (cases "op_snapshot (own_operation ?t) = op_snapshot (own_operation s)")
    case False
    have rec: "recorder_of ?t = Some (DirectBackend, hs_runtime_id h)" using w assms(6,7) by (simp add: write_ahead_def)
    then have "op_history (own_operation ?t) \<noteq> None" by auto
    then have "accepted (call_responses call) s ?t" using w False by (auto simp: write_ahead_def)
    then obtain k n where k: "op_history (own_operation ?t) = Some k" "guarded (hs_revision k) = Some n"
      "journal_accepted (call_responses call) k (revision_of s) (cur ?t) n"
      unfolding accepted_def by blast
    have same: "hs_backend k = DirectBackend" "hs_runtime_id k = hs_runtime_id h" using rec k(1) by simp_all
    have "call_responses call \<noteq> []" "jr_direct (last (call_responses call)) (hs_runtime_id h) (guarded (hs_revision h)) (cur ?t) = Inr n"
      using k(3) same assms(6) by (simp_all add: journal_accepted_def revision_of_def)
    moreover from this have "last (call_responses call) = direct_journal c q j resp" using assms(8) last_in_set by blast
    ultimately show ?thesis using direct_answer [OF assms(1,2)] k(1,2) by (fastforce simp: revision_of_def)
  qed simp
qed

section \<open>The journal over its file\<close>

text \<open>
  Whatever the journal may encode fits the database it opened: the length limit set on
  the connection exceeds the two identities, the document, the digest and the revision of every
  record together, so no checkpoint within the configured record size is refused by SQLite for its
  length.
\<close>

theorem every_record_fits_its_row:
  assumes "codec_ok c" "open_controlled ff sq cfg allow = Ok fresh" "journal_encode c cfg r = Ok d"
  shows "\<exists>limit. sq_number sq 0 ''limit'' = Inr (int limit) \<and> limit \<le> i32_max \<and>
    utf8_length (jo_runtime_id r) + utf8_length (sn_operation_id (jo_snapshot r)) + length d + 32 + 8 \<le> limit"
proof -
  obtain limit existing where o: "row_limit cfg = Ok limit" "configure_connection sq limit (jc_max_database_bytes cfg div page_bytes) existing = Ok ()"
    by (rule open_controlled_Ok [OF assms(2)])
  have "sq_number sq 0 ''limit'' = Inr (int limit)" using o(2) by (auto simp: configure_connection_def split: if_splits)
  moreover have "limit \<le> i32_max" "jc_max_record_bytes cfg * 3 + 128 \<le> limit"
    using o(1) by (auto simp: row_limit_def row_overhead_def i32_max_def page_bytes_def bind_eq_Some_conv split: if_splits)
  moreover have "utf8_length (jo_runtime_id r) \<le> jc_max_record_bytes cfg" "utf8_length (sn_operation_id (jo_snapshot r)) \<le> jc_max_record_bytes cfg"
    "length d \<le> jc_max_record_bytes cfg"
    using assms(3) codec_okD(1) [OF assms(1), of r d] by (auto simp: encode_Ok journal_validate_key_def split: if_splits)
  ultimately show ?thesis by (intro exI [of _ limit]) simp
qed

text \<open>
  Recovery only ever reopens the original database: it writes no schema, and it succeeds
  only on an existing regular file within the configured size whose header, application identity,
  version and schema are the journal's.
\<close>

theorem recovery_reopens_original:
  assumes "storage_reopen ff sq cfg = Ok fresh"
  shows "\<not> fresh \<and> (\<exists>len. ff_metadata ff = MetadataFound True False False len \<and> len \<le> jc_max_database_bytes cfg) \<and>
    validate_header ff = Ok () \<and> validate_identity sq 1 = Ok () \<and> validate_identity sq 3 = Ok () \<and> validate_identity sq 4 = Ok ()"
proof -
  obtain limit existing where o: "check_path ff (jc_max_database_bytes cfg div page_bytes) False = Ok existing"
    "configure_connection sq limit (jc_max_database_bytes cfg div page_bytes) existing = Ok ()" "prepare_schema sq existing = Ok fresh" "validate_identity sq 4 = Ok ()"
    by (rule open_controlled_Ok [OF assms [unfolded storage_reopen_def]])
  have path: "existing" "validate_header ff = Ok ()" "\<exists>len. ff_metadata ff = MetadataFound True False False len \<and> len \<le> jc_max_database_bytes cfg div page_bytes * page_bytes"
    using o(1) by (auto simp: check_path_def split: if_splits file_metadata.splits)
  have "\<not> fresh" "validate_identity sq 3 = Ok ()" using o(3) path(1) by (auto simp: prepare_schema_def Let_def split: if_splits)
  moreover have "validate_identity sq 1 = Ok ()" using o(2) path(1) by (auto simp: configure_connection_def split: if_splits)
  ultimately show ?thesis
    using path(2,3) o(4) order_trans [OF _ div_times_less_eq_dividend [of "jc_max_database_bytes cfg" page_bytes]] by auto
qed

section \<open>A database\<close>

definition demo_file :: "file_metadata \<Rightarrow> file_facts" where
  "demo_file m = \<lparr>ff_absolute = True, ff_file_name = True, ff_parent = Some True, ff_metadata = m,
     ff_header = Some (map of_char ''SQLite format 3'' @ [0] @ replicate 44 0 @ [0, 0, 0, 4] @ replicate 4 0 @ [76, 83, 79, 74] @ replicate 28 0)\<rparr>"

definition demo_sqlite :: sqlite_facts where
  "demo_sqlite = \<lparr>sq_run = \<lambda>_. None,
     sq_number = \<lambda>_ n. Inr (if n = ''application_id'' then application_id else if n = ''user_version'' then 4 else if n = ''count'' then 1
       else if n = ''limit'' then 4096 else if n = ''page_size'' then 4096 else if n = ''max_page_count'' then 16 else if n = ''synchronous'' then 3
       else if n = ''fullfsync'' then 1 else 0),
     sq_text = \<lambda>_ n. Inr (if n = ''journal_mode'' then ''delete'' else if n = ''locking_mode'' then ''exclusive'' else if n = ''schema'' then journal_schema else ''ok'')\<rparr>"

lemma demo_identity: "validate_identity demo_sqlite k = Ok ()"
  by (simp add: validate_identity_def demo_sqlite_def application_id_def schema_version_def)

lemma demo_header: "validate_header (demo_file m) = Ok ()"
proof -
  let ?h = "the (ff_header (demo_file m))"
  have "take 16 ?h = map of_char ''SQLite format 3'' @ [0]" "take 4 (drop 60 ?h) = [0, 0, 0, 4]" "take 4 (drop 68 ?h) = [76, 83, 79, 74]"
    by (simp_all add: demo_file_def)
  then show ?thesis by (simp add: validate_header_def demo_file_def application_id_def schema_version_def Let_def)
qed

lemma demo_reopen: "storage_reopen (demo_file (MetadataFound True False False 8192)) demo_sqlite demo_history = Ok False"
proof -
  have "row_limit demo_history = Ok 4096" by (simp add: row_limit_def demo_history_def row_overhead_def i32_max_def page_bytes_def u64_max_def checked_add_def)
  moreover have "check_path (demo_file (MetadataFound True False False 8192)) 16 False = Ok True"
    using demo_header [of "MetadataFound True False False 8192"] by (simp add: check_path_def page_bytes_def demo_file_def)
  moreover have "configure_connection demo_sqlite 4096 16 True = Ok ()"
    using demo_identity [of 1] by (simp add: configure_connection_def sql_setting_def sql_mode_def verify_number_def page_bytes_def) (simp add: demo_sqlite_def sql_check_def)
  moreover have "prepare_schema demo_sqlite True = Ok False"
    using demo_identity [of 3] by (simp add: prepare_schema_def) (simp add: demo_sqlite_def sql_check_def)
  ultimately show ?thesis
    using demo_identity [of 4]
    by (simp add: storage_reopen_def open_controlled_def demo_file_def demo_history_def page_bytes_def i32_max_def i64_max_def) (simp add: demo_sqlite_def)
qed

theorem recovery_reopens_original_witness:
  "\<exists>len. ff_metadata (demo_file (MetadataFound True False False 8192)) = MetadataFound True False False len \<and> len \<le> jc_max_database_bytes demo_history"
  using recovery_reopens_original [OF demo_reopen] by simp

theorem every_record_fits_its_row_witness:
  "\<exists>limit. sq_number demo_sqlite 0 ''limit'' = Inr (int limit) \<and> utf8_length ''r'' + utf8_length ''op'' + length ''a'' + 32 + 8 \<le> limit"
proof -
  have "journal_encode demo_codec demo_history (demo_stored 1 OpQueued None) = Ok ''a''" by (simp add: journal_encode_def del: One_nat_def)
  from every_record_fits_its_row [OF demo_codec_ok demo_reopen [unfolded storage_reopen_def] this] show ?thesis by auto
qed

section \<open>A direct history\<close>

definition demo_direct :: operation_registry where
  "demo_direct = demo_recording\<lparr>reg_journal := Some DirectBackend\<rparr>"

definition demo_direct_owner :: owned where
  "demo_direct_owner = new_owner (new_operation demo_direct 1 (identity_render OperationIdentity ''r'' 1) Unbound 0
     (demo_control\<lparr>ctl_effects := mutex_new (Registered 1 Business)\<rparr>))"

definition demo_running :: journal_operation where
  "demo_running = \<lparr>jo_runtime_id = ''r'', jo_revision = 1, jo_snapshot = (demo_state OpRunning)\<lparr>sn_operation_id := ''r:op:1'', sn_effects := UnknownEffect\<rparr>,
     jo_reconciliation = None\<rparr>"

definition demo_single_codec :: journal_codec where
  "demo_single_codec = demo_codec\<lparr>jk_to_vec := \<lambda>r. if r = demo_running then Some ''d'' else None,
     jk_from_slice := \<lambda>d. if d = ''d'' then Some demo_running else None\<rparr>"

definition demo_direct_answers :: journal_responses where
  "demo_direct_answers = direct_journal demo_single_codec demo_sql (demo_table []) demo_journal"

lemma demo_single_codec_ok: "codec_ok demo_single_codec"
  by (auto simp: codec_ok_def demo_single_codec_def ser_length_def split: if_splits)

lemma demo_direct_admitted: "\<exists>g. admit_with_reservation ser 0 demo_direct demo_control None (\<lambda>_. Ok Unbound) = (Ok (demo_direct_owner, None), g)"
  by (simp add: admit_with_reservation_def admit_locked_def admission_check_def admission_identity_def registry_with_def mutex_with_def
      mutex_new_def demo_recording_def demo_direct_def demo_direct_owner_def retention_full_def checked_add_def checked_sub_def
      u64_max_def context_validate_def control_check_def control_attach_effects_def demo_control_def Let_def)

lemma demo_direct_answer: "jr_direct demo_direct_answers ''r'' None (jo_snapshot demo_running) = Inr 1"
proof -
  have id: "sn_operation_id (jo_snapshot demo_running) = ''r:op:1''" "jo_runtime_id demo_running = ''r''" "jo_revision demo_running = 1"
    "\<lparr>jo_runtime_id = ''r'', jo_revision = 1, jo_snapshot = jo_snapshot demo_running, jo_reconciliation = None\<rparr> = demo_running"
    "validate_callers ''r'' (jo_snapshot demo_running) = Ok ()"
    by (simp_all add: demo_running_def validate_callers_def validate_finalization_def context_validate_def)
  have key: "journal_validate_key demo_history ''r'' ''r:op:1'' = Ok ()" by (simp add: journal_validate_key_def utf8_length_def demo_history_def)
  have codec: "jk_snapshot demo_single_codec s = \<lparr>ser_chunks = [1], ser_failed = False\<rparr>" "jk_record demo_single_codec r = \<lparr>ser_chunks = [1], ser_failed = False\<rparr>"
    "jk_to_vec demo_single_codec demo_running = Some ''d''" for s r
    by (simp_all add: demo_single_codec_def)
  have rec: "checkpoint_record demo_single_codec demo_history ''r'' None (jo_snapshot demo_running) = Ok (demo_running, ''d'')"
    by (simp add: checkpoint_record_def journal_encode_def id key codec Let_def del: One_nat_def)
  have "\<exists>rows. checkpoint_mutation demo_single_codec demo_history demo_sql ''r'' None (jo_snapshot demo_running) True 1 ''d'' [] = Ok rows"
    by (simp add: checkpoint_mutation_def journal_read_def same_checkpoint_def sql_check_def demo_sql_def demo_history_def id Let_def)
  then have "fst (journal_checkpoint demo_single_codec demo_sql ''r'' None (jo_snapshot demo_running) (demo_table [])) = Ok demo_running"
    by (auto simp: journal_checkpoint_def write_checkpoint_def call_defs rec demo_commit ret_def id simp del: One_nat_def)
  then show ?thesis by (simp add: demo_direct_answers_def direct_journal_def id)
qed

lemma demo_direct_published:
  "sn_phase (cur (run_call demo_encoding (Advance demo_direct_answers OpRunning) demo_direct_owner)) = OpRunning"
  "sn_phase (cur demo_direct_owner) = OpQueued"
proof -
  have i: "identity_render OperationIdentity ''r'' 1 = ''r:op:1''" by code_simp
  have x: "advance_candidate OpRunning demo_direct_owner = (Ok (jo_snapshot demo_running), demo_direct_owner)"
    by (simp add: advance_candidate_def read_snapshot_def op_lock_def bind_action_def try_read_def from_result_def ret_def advance_snapshot_def op_project_def
        demo_direct_owner_def demo_direct_def demo_recording_def demo_running_def demo_state_def demo_control_def new_owner_def new_operation_def
        ledger_new_def ledger_snapshot_def bt_values_def i merge_effects_def Let_def del: One_nat_def)
  have h: "op_history (own_operation demo_direct_owner) = Some \<lparr>hs_backend = DirectBackend, hs_runtime_id = ''r'', hs_revision = mutex_new None\<rparr>"
    "own_pending demo_direct_owner = None" "\<not> poisoned (op_transition (own_operation demo_direct_owner))" "\<not> poisoned (op_snapshot (own_operation demo_direct_owner))"
    by (simp_all add: demo_direct_owner_def demo_direct_def demo_recording_def new_owner_def new_operation_def)
  show "sn_phase (cur (run_call demo_encoding (Advance demo_direct_answers OpRunning) demo_direct_owner)) = OpRunning"
    using demo_direct_answer
    by (simp add: owner_advance_def no_pending_completion_def require_state_def bind_action_def hold_transition_def read_state_def queued_history_def
        history_is_queued_def x h operation_checkpoint_def history_checkpoint_def backend_checkpoint_def publish_snapshot_def read_snapshot_def
        op_lock_def try_read_def write_state_def) (simp add: demo_running_def demo_state_def)
  show "sn_phase (cur demo_direct_owner) = OpQueued" by (simp add: demo_direct_owner_def new_owner_def new_operation_def)
qed

theorem published_snapshot_is_durable_witness:
  "\<exists>r. written_as r (history demo_single_codec (snd (journal_checkpoint demo_single_codec demo_sql ''r'' None
        (cur (run_call demo_encoding (Advance demo_direct_answers OpRunning) demo_direct_owner)) (demo_table [])))
      (''r'', sn_operation_id (cur (run_call demo_encoding (Advance demo_direct_answers OpRunning) demo_direct_owner)))) \<and>
     sn_phase (jo_snapshot r) = OpRunning"
proof -
  obtain g where g: "admit_with_reservation (sz_context demo_encoding) 0 demo_direct demo_control None (\<lambda>_. Ok Unbound) = (Ok (demo_direct_owner, None), g)"
    using demo_direct_admitted by blast
  have h: "op_history (own_operation demo_direct_owner) = Some \<lparr>hs_backend = DirectBackend, hs_runtime_id = ''r'', hs_revision = mutex_new None\<rparr>"
    "\<not> poisoned (reg_state demo_direct)"
    by (simp_all add: demo_direct_owner_def demo_direct_def demo_recording_def new_owner_def new_operation_def)
  obtain t where t: "run_call demo_encoding (Advance demo_direct_answers OpRunning) demo_direct_owner = t" by blast
  have "set (call_responses (Advance demo_direct_answers OpRunning)) \<subseteq> {direct_journal demo_single_codec demo_sql (demo_table []) demo_journal}"
    by (simp add: demo_direct_answers_def)
  note p = published_snapshot_is_durable [OF demo_single_codec_ok demo_inv(1) h(2) g rtranclp.rtrancl_refl h(1) _ this, where z = demo_encoding]
  have "cur t \<noteq> cur demo_direct_owner" "sn_phase (cur t) = OpRunning" using demo_direct_published unfolding t by force+
  then show ?thesis using p unfolding t by auto
qed

end
