(* ===== verification/Scheduler_Data.thy ===== *)
theory Scheduler_Data
  imports Operation_Lifecycle Governor
begin

text \<open>
  The state of the embedded runtime's scheduler (\<^verbatim>\<open>runtime/embedded/scheduler.rs\<close> and
  \<^verbatim>\<open>scheduler/{plugins,capacities,sessions,reusable,finalization}.rs\<close>): pools, plugins and capacities with
  their counters, sessions and reusable instances, the queues of calls per plugin and their rotation,
  and the completions that wait for cleaning or finalization.

  References to what other components own are numbers: controls, leases of VMs and retirement
  receipts. A retained reservation of an operation slot is the fact that there is one. Diagnostics and
  condition variables are left out.
\<close>

section \<open>Requests\<close>

type_synonym sched_control = nat
type_synonym module_lease = nat
type_synonym retirement_ref = nat

record runtime_client_info =
  ci_kind :: "string option"
  ci_name :: "string option"
  ci_version :: "string option"

record runtime_request_context =
  rx_request_id :: "string option"
  rx_client_name :: "string option"
  rx_transport_name :: "string option"
  rx_session_id :: "string option"
  rx_client_info :: "runtime_client_info option"
  rx_client_capabilities :: json_value

record invocation_context =
  ic_request_context :: "runtime_request_context option"
  ic_client_budget :: json_value
  ic_tool_config :: json_value

definition context_default :: invocation_context where
  "context_default = \<lparr>ic_request_context = None, ic_client_budget = VNull, ic_tool_config = VNull\<rparr>"

record embedded_call =
  ec_pool_id :: string
  ec_export :: string
  ec_arguments :: json_value
  ec_context :: invocation_context

record embedded_prewarm =
  ep_pool_id :: string
  ep_context :: invocation_context

datatype scheduled_request =
    CloseInstance string invocation_context
  | CloseSession string string invocation_context
  | Invoke embedded_call
  | Prewarm embedded_prewarm
  | OpenSession string string
  | InvokeSession string embedded_call

fun request_pool :: "scheduled_request \<Rightarrow> string" where
  "request_pool (Invoke call) = ec_pool_id call"
| "request_pool (InvokeSession _ call) = ec_pool_id call"
| "request_pool (Prewarm request) = ep_pool_id request"
| "request_pool (OpenSession pool _) = pool"
| "request_pool (CloseSession pool _ _) = pool"
| "request_pool (CloseInstance pool _) = pool"

fun request_session :: "scheduled_request \<Rightarrow> string option" where
  "request_session (OpenSession _ session) = Some session"
| "request_session (InvokeSession session _) = Some session"
| "request_session (CloseSession _ session _) = Some session"
| "request_session _ = None"

fun request_invocation :: "scheduled_request \<Rightarrow> embedded_call option" where
  "request_invocation (Invoke call) = Some call"
| "request_invocation (InvokeSession _ call) = Some call"
| "request_invocation _ = None"

fun request_context :: "scheduled_request \<Rightarrow> invocation_context option" where
  "request_context (Invoke call) = Some (ec_context call)"
| "request_context (InvokeSession _ call) = Some (ec_context call)"
| "request_context (Prewarm request) = Some (ep_context request)"
| "request_context (CloseSession _ _ context) = Some context"
| "request_context (CloseInstance _ context) = Some context"
| "request_context (OpenSession _ _) = None"

fun release_values :: "scheduled_request \<Rightarrow> scheduled_request" where
  "release_values (Invoke call) = Invoke (call\<lparr>ec_arguments := VNull, ec_context := context_default\<rparr>)"
| "release_values (InvokeSession session call) = InvokeSession session (call\<lparr>ec_arguments := VNull, ec_context := context_default\<rparr>)"
| "release_values (OpenSession pool session) = OpenSession pool session"
| "release_values (Prewarm request) = Prewarm (request\<lparr>ep_context := context_default\<rparr>)"
| "release_values (CloseSession pool session _) = CloseSession pool session context_default"
| "release_values (CloseInstance pool _) = CloseInstance pool context_default"

record scheduled_call =
  sc_reusable_instance :: "string option"
  sc_id :: string
  sc_control :: sched_control
  sc_request :: scheduled_request
  sc_bytes :: usize

abbreviation sc_pool :: "scheduled_call \<Rightarrow> string" where
  "sc_pool c \<equiv> request_pool (sc_request c)"

abbreviation sc_session :: "scheduled_call \<Rightarrow> string option" where
  "sc_session c \<equiv> request_session (sc_request c)"

section \<open>Completions\<close>

record pending_finalization =
  pz_lease :: module_lease
  pz_intent_prepared :: bool
  pz_outcome :: "(embedded_error + json_value) option"
  pz_outcome_prepared :: bool

record pending_completion =
  pn_finalization :: "pending_finalization option"
  pn_retained_lease :: "module_lease option"
  pn_cleaning_started :: bool
  pn_call :: scheduled_call
  pn_result :: "embedded_error + json_value"
  pn_retirement :: "retirement_ref option"
  pn_effects :: effect_state
  pn_dispatched :: bool

section \<open>Registered owners\<close>

record embedded_capacity_config =
  ccf_resources :: vm_capacity_config
  ccf_max_queued_calls :: usize
  ccf_max_queued_bytes :: usize

record scheduled_pool =
  sp_inputs :: "(string, json_contract) btree"
  sp_policy :: plugin_pool_config
  sp_finalizer :: bool
  sp_plugin_id :: string
  sp_capacity_id :: "string option"
  sp_queued :: usize
  sp_active :: usize
  sp_closed :: bool

record scheduled_plugin =
  sg_config :: embedded_plugin_config
  sg_queued :: usize
  sg_bytes :: usize
  sg_operations :: usize
  sg_reserved_operations :: usize
  sg_closing :: bool

record scheduled_capacity =
  sk_plugin_id :: string
  sk_config :: embedded_capacity_config
  sk_policy_revision :: u64
  sk_closing :: bool

record scheduled_session =
  ss_finalization_reservation :: bool
  ss_finalization_operation :: "string option"
  ss_finalization_context :: invocation_context
  ss_pool_id :: string
  ss_lease :: "module_lease option"
  ss_active :: "string option"
  ss_queued :: usize
  ss_unfinished :: usize
  ss_opened :: bool
  ss_closing :: bool
  ss_closed :: bool
  ss_retiring :: bool
  ss_retirement :: "retirement_ref option"
  ss_error :: "embedded_error option"

datatype embedded_session_phase = SessionOpening | SessionReady | SessionRunning | SessionClosing | SessionClosed

definition session_phase :: "scheduled_session \<Rightarrow> embedded_session_phase" where
  "session_phase s =
     (if ss_closed s then SessionClosed
      else if ss_closing s then SessionClosing
      else if \<not> ss_opened s then SessionOpening
      else if ss_active s \<noteq> None then SessionRunning
      else SessionReady)"

record scheduled_reusable =
  su_finalization_reservation :: bool
  su_finalization_context :: invocation_context
  su_pool_id :: string
  su_lease :: "module_lease option"
  su_active :: "string option"
  su_closing :: bool
  su_idle_since :: instant
  su_retirement :: "retirement_ref option"
  su_retiring :: bool

section \<open>The scheduler\<close>

record scheduler_state =
  sd_reusable_instances :: "(string, scheduled_reusable) btree"
  sd_finalizing :: "pending_completion list"
  sd_shared_checkpoint_failed :: bool
  sd_persistence_failures :: "(string, operation_persistence_failure) btree"
  sd_cleaning_count :: usize
  sd_closing :: bool
  sd_failure :: "embedded_error option"
  sd_sequence :: u64
  sd_pools :: "(string, scheduled_pool) btree"
  sd_plugins :: "(string, scheduled_plugin) btree"
  sd_capacities :: "(string, scheduled_capacity) btree"
  sd_operation_plugins :: "(string, string) btree"
  sd_sessions :: "(string, scheduled_session) btree"
  sd_queues :: "(string, scheduled_call list) btree"
  sd_rotation :: "string list"
  sd_queued :: usize
  sd_bytes :: usize
  sd_live :: "(string, sched_control) btree"
  sd_cleaning :: "pending_completion list"

definition scheduler_empty :: scheduler_state where
  "scheduler_empty = \<lparr>sd_reusable_instances = [], sd_finalizing = [], sd_shared_checkpoint_failed = False, sd_persistence_failures = [],
     sd_cleaning_count = 0, sd_closing = False, sd_failure = None, sd_sequence = 0, sd_pools = [], sd_plugins = [], sd_capacities = [],
     sd_operation_plugins = [], sd_sessions = [], sd_queues = [], sd_rotation = [], sd_queued = 0, sd_bytes = 0, sd_live = [], sd_cleaning = []\<rparr>"

text \<open>
  What the scheduler asks of other components during one call: controls, the Lua engine's checks of
  values, the operation registry, the physical pools and their leases, retirement receipts and the
  clock. All answers are arbitrary.
\<close>

record scheduler_env =
  ev_now :: instant
  ev_check :: "sched_control \<Rightarrow> unit embedded_result"
  ev_schema :: schema_library
  ev_json :: "json_value \<Rightarrow> unit embedded_result"
  ev_context :: "invocation_context \<Rightarrow> unit embedded_result"
  ev_admit :: "scheduled_request \<Rightarrow> string embedded_result"
  ev_admit_reserved :: "string \<Rightarrow> (string \<times> sched_control) embedded_result"
  ev_reserve :: "string \<Rightarrow> string option \<Rightarrow> string \<Rightarrow> unit embedded_result"
  ev_usage :: "string \<Rightarrow> pool_usage embedded_result"
  ev_accounting :: "string \<Rightarrow> (pool_usage \<times> usize) embedded_result"
  ev_prepare :: "string \<Rightarrow> bool \<Rightarrow> bool \<Rightarrow> module_lease embedded_result"
  ev_allocation_id :: "module_lease \<Rightarrow> string embedded_result"
  ev_plan :: "module_lease \<Rightarrow> bool"
  ev_can_retain :: "module_lease \<Rightarrow> bool"
  ev_retired :: "retirement_ref \<Rightarrow> bool embedded_result"

section \<open>Errors\<close>

definition sched_closed :: embedded_error where
  "sched_closed = error_new Closed ''embedded runtime or pool is closed''"

definition sched_not_found :: embedded_error where
  "sched_not_found = error_new NotFound ''embedded pool identity is unknown''"

definition sched_internal :: "string \<Rightarrow> embedded_error" where
  "sched_internal message = error_new Internal message"

definition plugin_not_found :: embedded_error where
  "plugin_not_found = error_new NotFound ''embedded plugin is not registered''"

definition sched_capacity :: "string \<Rightarrow> embedded_error" where
  "sched_capacity message = error_new CapacityExceeded message"

definition session_not_found :: embedded_error where
  "session_not_found = error_new NotFound ''embedded session not found''"

section \<open>Updates of owned entries\<close>

text \<open>\<^verbatim>\<open>get_mut(key).expect(message)\<close> followed by an update of the entry; unchecked decrements panic at zero.\<close>

definition modify_at ::
  "('s \<Rightarrow> (string, 'v) btree) \<Rightarrow> ((string, 'v) btree \<Rightarrow> 's \<Rightarrow> 's) \<Rightarrow> string \<Rightarrow> string \<Rightarrow> ('v \<Rightarrow> 'v embedded_result) \<Rightarrow> ('s, unit) action" where
  "modify_at get put message key f s =
     (case and_then (expect message (bt_get (get s) key)) f of
        Ok v \<Rightarrow> (Ok (), put (bt_insert key v (get s)) s)
      | Err e \<Rightarrow> (Err e, s)
      | Panic p \<Rightarrow> (Panic p, s))"

definition decrease :: "usize \<Rightarrow> usize \<Rightarrow> usize embedded_result" where
  "decrease n k = expect ''attempt to subtract with overflow'' (checked_sub n k)"

abbreviation modify_pool :: "string \<Rightarrow> string \<Rightarrow> (scheduled_pool \<Rightarrow> scheduled_pool embedded_result) \<Rightarrow> (scheduler_state, unit) action" where
  "modify_pool \<equiv> modify_at sd_pools (\<lambda>m. sd_pools_update (\<lambda>_. m))"

abbreviation modify_plugin :: "string \<Rightarrow> string \<Rightarrow> (scheduled_plugin \<Rightarrow> scheduled_plugin embedded_result) \<Rightarrow> (scheduler_state, unit) action" where
  "modify_plugin \<equiv> modify_at sd_plugins (\<lambda>m. sd_plugins_update (\<lambda>_. m))"

abbreviation modify_session :: "string \<Rightarrow> string \<Rightarrow> (scheduled_session \<Rightarrow> scheduled_session embedded_result) \<Rightarrow> (scheduler_state, unit) action" where
  "modify_session \<equiv> modify_at sd_sessions (\<lambda>m. sd_sessions_update (\<lambda>_. m))"

abbreviation modify_reusable :: "string \<Rightarrow> string \<Rightarrow> (scheduled_reusable \<Rightarrow> scheduled_reusable embedded_result) \<Rightarrow> (scheduler_state, unit) action" where
  "modify_reusable \<equiv> modify_at sd_reusable_instances (\<lambda>m. sd_reusable_instances_update (\<lambda>_. m))"

lemma decrease_Ok [simp]: "decrease n k = Ok m \<longleftrightarrow> k \<le> n \<and> m = n - k"
  by (auto simp: decrease_def)

lemma decrease_enough: "k \<le> n \<Longrightarrow> decrease n k = Ok (n - k)"
  by simp

lemma modify_at_Ok:
  assumes "bt_get (get s) key = Some v" "f v = Ok v'"
  shows "modify_at get put message key f s = (Ok (), put (bt_insert key v' (get s)) s)"
  using assms by (simp add: modify_at_def)


text \<open>
  Admission into the queues and removal from them (\<^verbatim>\<open>scheduler/sessions.rs\<close>: \<^verbatim>\<open>enqueue\<close>;
  \<^verbatim>\<open>scheduler/workers.rs\<close>: \<^verbatim>\<open>take_call\<close>, \<^verbatim>\<open>reject_expired\<close>; the queue limits of
  \<^verbatim>\<open>scheduler/capacities.rs\<close>), and the persistence gate of \<^verbatim>\<open>scheduler/persistence.rs\<close>.
\<close>

section \<open>Checks\<close>

definition check_persistence_admission :: "scheduler_state \<Rightarrow> unit embedded_result" where
  "check_persistence_admission s =
     (if sd_persistence_failures s = [] \<and> \<not> sd_shared_checkpoint_failed s then Ok ()
      else Err (error_new Busy ''runtime persistence requires explicit checkpoint recovery''))"

definition plugin_active :: "scheduler_state \<Rightarrow> string \<Rightarrow> usize" where
  "plugin_active s plugin = sum_list (map sp_active (filter (\<lambda>p. sp_plugin_id p = plugin) (bt_values (sd_pools s))))"

definition capacity_active :: "scheduler_state \<Rightarrow> string \<Rightarrow> usize" where
  "capacity_active s capacity = sum_list (map sp_active (filter (\<lambda>p. sp_capacity_id p = Some capacity) (bt_values (sd_pools s))))"

text \<open>The calls queued for the pools of a capacity and their bytes.\<close>

definition pool_capacity_of :: "scheduler_state \<Rightarrow> string \<Rightarrow> string option embedded_result" where
  "pool_capacity_of s pool = and_then (expect ''queued pool retained'' (bt_get (sd_pools s) pool)) (\<lambda>p. Ok (sp_capacity_id p))"

fun capacity_fold :: "scheduler_state \<Rightarrow> string \<Rightarrow> scheduled_call list \<Rightarrow> usize \<times> usize \<Rightarrow> (usize \<times> usize) embedded_result" where
  "capacity_fold s capacity [] acc = Ok acc"
| "capacity_fold s capacity (c # cs) acc =
     and_then (pool_capacity_of s (sc_pool c)) (\<lambda>owner.
     capacity_fold s capacity cs (if owner = Some capacity then (fst acc + 1, snd acc + sc_bytes c) else acc))"

definition queued_calls :: "scheduler_state \<Rightarrow> scheduled_call list" where
  "queued_calls s = concat (bt_values (sd_queues s))"

definition capacity_queue :: "scheduler_state \<Rightarrow> string \<Rightarrow> (usize \<times> usize) embedded_result" where
  "capacity_queue s capacity = capacity_fold s capacity (queued_calls s) (0, 0)"

definition validate_capacity_queue :: "scheduler_state \<Rightarrow> string \<Rightarrow> usize \<Rightarrow> unit embedded_result" where
  "validate_capacity_queue s pool_id bytes =
     and_then (ok_or sched_not_found (bt_get (sd_pools s) pool_id)) (\<lambda>p.
       case sp_capacity_id p of
         None \<Rightarrow> Ok ()
       | Some capacity \<Rightarrow>
           and_then (expect ''member retains capacity'' (bt_get (sd_capacities s) capacity)) (\<lambda>k.
             if sk_closing k then Err sched_closed
             else
               and_then (capacity_queue s capacity) (\<lambda>(queued, retained).
                 if queued \<ge> ccf_max_queued_calls (sk_config k) \<or> bytes > saturating_sub (ccf_max_queued_bytes (sk_config k)) retained
                 then Err (sched_capacity ''capacity request queue limit reached'')
                 else Ok ())))"

definition capacity_allows_execution :: "scheduler_state \<Rightarrow> string \<Rightarrow> bool embedded_result" where
  "capacity_allows_execution s pool_id =
     and_then (ok_or sched_not_found (bt_get (sd_pools s) pool_id)) (\<lambda>p.
       case sp_capacity_id p of
         None \<Rightarrow> Ok True
       | Some capacity \<Rightarrow>
           and_then (expect ''member retains capacity'' (bt_get (sd_capacities s) capacity)) (\<lambda>k.
             Ok (capacity_active s capacity < cap_max_running_calls (ccf_resources (sk_config k)))))"

section \<open>Enqueueing\<close>

text \<open>Everything \<^verbatim>\<open>enqueue\<close> decides before it changes the state: the plugin and the admitted identity.\<close>

definition enqueue_check ::
  "scheduler_env \<Rightarrow> embedded_runtime_config \<Rightarrow> scheduled_request \<Rightarrow> sched_control \<Rightarrow> usize \<Rightarrow> scheduler_state \<Rightarrow> (string \<times> string) embedded_result" where
  "enqueue_check ev cfg request control bytes s =
     and_then (ev_check ev control) (\<lambda>_.
     if sd_closing s then Err sched_closed
     else
       and_then (check_persistence_admission s) (\<lambda>_.
       and_then (ok_or sched_not_found (bt_get (sd_pools s) (request_pool request))) (\<lambda>p.
       if sp_closed p then Err sched_closed
       else
         and_then (case request_invocation request of
             None \<Rightarrow> Ok ()
           | Some call \<Rightarrow>
               and_then (ok_or (error_invalid ''module export is not declared'') (bt_get (sp_inputs p) (ec_export call))) (\<lambda>contract.
               and_then (contract_validate (ev_schema ev) contract (ec_arguments call)) (\<lambda>_. ev_json ev (ec_arguments call)))) (\<lambda>_.
         and_then (case request_context request of None \<Rightarrow> Ok () | Some context \<Rightarrow> ev_context ev context) (\<lambda>_.
         if sp_queued p \<ge> pool_max_queued_calls (sp_policy p) \<or> sd_queued s \<ge> max_queued_calls cfg
           \<or> bytes > saturating_sub (max_queued_bytes cfg) (sd_bytes s)
         then Err (sched_capacity ''embedded request queue capacity reached'')
         else
           and_then (expect ''registered pool owns plugin policy'' (bt_get (sd_plugins s) (sp_plugin_id p))) (\<lambda>g.
           if sg_closing g then Err sched_closed
           else
             and_then (decrease (plg_max_operations (sg_config g)) (sg_reserved_operations g)) (\<lambda>free.
             if sg_queued g \<ge> plg_max_queued_calls (sg_config g)
               \<or> bytes > saturating_sub (plg_max_queued_bytes (sg_config g)) (sg_bytes g)
               \<or> sg_operations g \<ge> free
             then Err (sched_capacity ''plugin queue or retained operation capacity reached'')
             else
               and_then (validate_capacity_queue s (request_pool request) bytes) (\<lambda>_.
               and_then (ev_admit ev request) (\<lambda>ident. Ok (sp_plugin_id p, ident))))))))))"

definition push_call :: "string \<Rightarrow> scheduled_call \<Rightarrow> scheduler_state \<Rightarrow> scheduler_state" where
  "push_call plugin call s =
     s\<lparr>sd_queued := sd_queued s + 1, sd_bytes := sd_bytes s + sc_bytes call,
       sd_live := bt_insert (sc_id call) (sc_control call) (sd_live s),
       sd_rotation := (if bt_get (sd_queues s) plugin = None then sd_rotation s @ [plugin] else sd_rotation s),
       sd_queues := bt_insert plugin ((case bt_get (sd_queues s) plugin of None \<Rightarrow> [] | Some q \<Rightarrow> q) @ [call]) (sd_queues s)\<rparr>"

definition sched_enqueue ::
  "scheduler_env \<Rightarrow> embedded_runtime_config \<Rightarrow> scheduled_request \<Rightarrow> sched_control \<Rightarrow> usize \<Rightarrow> (scheduler_state, string) action" where
  "sched_enqueue ev cfg request control bytes =
     bind_action (try_read (enqueue_check ev cfg request control bytes)) (\<lambda>(plugin, ident).
     bind_action (modify_plugin ''validated plugin exists'' plugin (\<lambda>g.
       Ok (g\<lparr>sg_queued := sg_queued g + 1, sg_bytes := sg_bytes g + bytes, sg_operations := sg_operations g + 1\<rparr>))) (\<lambda>_.
     bind_action (write_state (\<lambda>s. s\<lparr>sd_operation_plugins := bt_insert ident plugin (sd_operation_plugins s)\<rparr>)) (\<lambda>_.
     bind_action (modify_pool ''validated pool exists'' (request_pool request) (\<lambda>p. Ok (p\<lparr>sp_queued := sp_queued p + 1\<rparr>))) (\<lambda>_.
     bind_action (case request_session request of
         None \<Rightarrow> ret ()
       | Some session \<Rightarrow> modify_session ''validated session exists'' session (\<lambda>ss.
           Ok (ss\<lparr>ss_queued := ss_queued ss + 1, ss_unfinished := ss_unfinished ss + 1\<rparr>))) (\<lambda>_.
     bind_action (write_state (push_call plugin
       \<lparr>sc_reusable_instance = None, sc_id = ident, sc_control = control, sc_request = request, sc_bytes = bytes\<rparr>)) (\<lambda>_.
     ret ident))))))"

section \<open>Taking a call\<close>

definition pull_call :: "string \<Rightarrow> nat \<Rightarrow> (scheduler_state, scheduled_call) action" where
  "pull_call plugin index =
     bind_action (try_read (\<lambda>s. expect ''selected plugin queue exists'' (bt_get (sd_queues s) plugin))) (\<lambda>queue.
     bind_action (from_result (expect ''selected request exists'' (if index < length queue then Some (queue ! index) else None))) (\<lambda>call.
     let rest = take index queue @ drop (Suc index) queue in
     bind_action (write_state (\<lambda>s.
       if rest = [] then s\<lparr>sd_queues := bt_remove plugin (sd_queues s), sd_rotation := filter (\<lambda>c. c \<noteq> plugin) (sd_rotation s)\<rparr>
       else s\<lparr>sd_queues := bt_insert plugin rest (sd_queues s)\<rparr>)) (\<lambda>_.
     ret call)))"

definition take_call :: "string \<Rightarrow> nat \<Rightarrow> (scheduler_state, scheduled_call) action" where
  "take_call plugin index =
     bind_action (pull_call plugin index) (\<lambda>call.
     bind_action (try_read (\<lambda>s. decrease (sd_queued s) 1)) (\<lambda>n.
     bind_action (write_state (\<lambda>s. s\<lparr>sd_queued := n\<rparr>)) (\<lambda>_.
     bind_action (try_read (\<lambda>s. decrease (sd_bytes s) (sc_bytes call))) (\<lambda>n.
     bind_action (write_state (\<lambda>s. s\<lparr>sd_bytes := n\<rparr>)) (\<lambda>_.
     bind_action (modify_plugin ''queued plugin remains registered'' plugin (\<lambda>g.
       and_then (decrease (sg_queued g) 1) (\<lambda>n. and_then (decrease (sg_bytes g) (sc_bytes call)) (\<lambda>b. Ok (g\<lparr>sg_queued := n, sg_bytes := b\<rparr>))))) (\<lambda>_.
     bind_action (modify_pool ''queued pool is retained'' (sc_pool call) (\<lambda>p. and_then (decrease (sp_queued p) 1) (\<lambda>n. Ok (p\<lparr>sp_queued := n\<rparr>)))) (\<lambda>_.
     bind_action (case sc_session call of
         None \<Rightarrow> ret ()
       | Some session \<Rightarrow> modify_session ''queued session exists'' session (\<lambda>ss. and_then (decrease (ss_queued ss) 1) (\<lambda>n. Ok (ss\<lparr>ss_queued := n\<rparr>)))) (\<lambda>_.
     ret call))))))))"

section \<open>Expired calls\<close>

text \<open>Why a queued call cannot be dispatched any more.\<close>

definition reject_reason :: "scheduler_env \<Rightarrow> scheduler_state \<Rightarrow> scheduled_call \<Rightarrow> embedded_error option embedded_result" where
  "reject_reason ev s call =
     (case ev_check ev (sc_control call) of
        Err e \<Rightarrow> Ok (Some e)
      | Panic p \<Rightarrow> Panic p
      | Ok _ \<Rightarrow>
          if sd_closing s then Ok (Some sched_closed)
          else
            and_then (expect ''queued pool exists'' (bt_get (sd_pools s) (sc_pool call))) (\<lambda>p.
              if sp_closed p then Ok (Some sched_closed)
              else case sc_session call of
                None \<Rightarrow> Ok None
              | Some session \<Rightarrow>
                  and_then (expect ''queued session exists'' (bt_get (sd_sessions s) session)) (\<lambda>ss.
                    Ok (if ss_closing ss then Some sched_closed else None))))"

text \<open>The rejected call leaves the queue; the lease of a session that was to be opened goes with it.\<close>

definition reject_call :: "string \<Rightarrow> nat \<Rightarrow> embedded_error \<Rightarrow> (scheduler_state, unit) action" where
  "reject_call plugin index e =
     bind_action (take_call plugin index) (\<lambda>call.
     bind_action (case sc_request call of
         OpenSession _ session \<Rightarrow>
           bind_action (try_read (\<lambda>s. expect ''opening session exists'' (bt_get (sd_sessions s) session))) (\<lambda>ss.
           bind_action (modify_session ''opening session exists'' session (\<lambda>ss.
             Ok (ss\<lparr>ss_closing := True, ss_error := (case ss_error ss of None \<Rightarrow> Some e | Some x \<Rightarrow> Some x), ss_lease := None\<rparr>))) (\<lambda>_.
           ret (ss_lease ss)))
       | _ \<Rightarrow> ret None) (\<lambda>lease.
     write_state (\<lambda>s. s\<lparr>sd_cleaning_count := sd_cleaning_count s + 1,
       sd_cleaning := sd_cleaning s @ [\<lparr>pn_finalization = None, pn_retained_lease = lease, pn_cleaning_started = False, pn_call = call,
         pn_result = Inl e, pn_retirement = None, pn_effects = NotStarted, pn_dispatched = False\<rparr>]\<rparr>)))"

text \<open>
  The scan of one queue: it ends at the end of the queue, and a rejected call makes the queue shorter,
  so as many rounds as there are calls suffice.
\<close>

primrec reject_queue :: "nat \<Rightarrow> scheduler_env \<Rightarrow> string \<Rightarrow> nat \<Rightarrow> (scheduler_state, unit) action" where
  "reject_queue 0 ev plugin index = ret ()"
| "reject_queue (Suc fuel) ev plugin index =
     bind_action (read_state (\<lambda>s. case bt_get (sd_queues s) plugin of None \<Rightarrow> None | Some q \<Rightarrow> if index < length q then Some (q ! index) else None)) (\<lambda>found.
       case found of
         None \<Rightarrow> ret ()
       | Some call \<Rightarrow>
           bind_action (try_read (\<lambda>s. reject_reason ev s call)) (\<lambda>reason.
             case reason of
               None \<Rightarrow> reject_queue fuel ev plugin (Suc index)
             | Some e \<Rightarrow> bind_action (reject_call plugin index e) (\<lambda>_. reject_queue fuel ev plugin index)))"

fun reject_plugins :: "scheduler_env \<Rightarrow> string list \<Rightarrow> (scheduler_state, unit) action" where
  "reject_plugins ev [] = ret ()"
| "reject_plugins ev (p # ps) =
     bind_action (read_state (\<lambda>s. case bt_get (sd_queues s) p of None \<Rightarrow> 0 | Some q \<Rightarrow> length q)) (\<lambda>n.
     bind_action (reject_queue n ev p 0) (\<lambda>_. reject_plugins ev ps))"

definition reject_expired :: "scheduler_env \<Rightarrow> (scheduler_state, unit) action" where
  "reject_expired ev = bind_action (read_state sd_rotation) (reject_plugins ev)"

end
