(* ===== verification/Scheduler_Dispatch.thy ===== *)
theory Scheduler_Dispatch
  imports Scheduler_Data
begin

text \<open>
  Choosing the next call (\<^verbatim>\<open>scheduler/workers.rs\<close>: \<^verbatim>\<open>select\<close>), with the reusable instances it draws on
  (\<^verbatim>\<open>scheduler/reusable.rs\<close>: \<^verbatim>\<open>prepare\<close>, \<^verbatim>\<open>expire\<close>, \<^verbatim>\<open>reclaim\<close>, \<^verbatim>\<open>remove\<close>) and the commitments of a plugin
  (\<^verbatim>\<open>scheduler/capacity_policy.rs\<close>, \<^verbatim>\<open>scheduler/plugins.rs\<close>).
\<close>

section \<open>Commitments\<close>

definition add_charge :: "usize \<Rightarrow> usize \<Rightarrow> usize embedded_result" where
  "add_charge committed charge = ok_or (sched_internal ''plugin commitment overflow'') (checked_add committed charge)"

fun commit_pools :: "scheduler_env \<Rightarrow> string \<Rightarrow> string option \<Rightarrow> (string \<times> scheduled_pool) list \<Rightarrow> usize \<Rightarrow> usize embedded_result" where
  "commit_pools ev plugin requesting [] committed = Ok committed"
| "commit_pools ev plugin requesting ((ident, p) # ps) committed =
     (if sp_plugin_id p = plugin \<and> sp_capacity_id p = None
      then
        and_then (ev_accounting ev ident) (\<lambda>(usage, guarantee).
        and_then (add_charge committed (if requesting = Some ident then resident usage else guarantee)) (\<lambda>n.
        commit_pools ev plugin requesting ps n))
      else commit_pools ev plugin requesting ps committed)"

fun resident_fold :: "scheduler_env \<Rightarrow> string \<Rightarrow> (string \<times> scheduled_pool) list \<Rightarrow> usize \<Rightarrow> usize embedded_result" where
  "resident_fold ev capacity [] n = Ok n"
| "resident_fold ev capacity ((ident, p) # ps) n =
     (if sp_capacity_id p = Some capacity
      then
        and_then (ev_usage ev ident) (\<lambda>usage.
        and_then (ok_or (sched_internal ''capacity residency overflow'') (checked_add n (resident usage))) (resident_fold ev capacity ps))
      else resident_fold ev capacity ps n)"

definition capacity_residents :: "scheduler_env \<Rightarrow> scheduler_state \<Rightarrow> string \<Rightarrow> usize embedded_result" where
  "capacity_residents ev s capacity = resident_fold ev capacity (sd_pools s) 0"

fun commit_owners ::
  "scheduler_env \<Rightarrow> scheduler_state \<Rightarrow> string \<Rightarrow> string option \<Rightarrow> (string \<times> usize) option \<Rightarrow> (string \<times> scheduled_capacity) list \<Rightarrow> usize \<Rightarrow> usize embedded_result" where
  "commit_owners ev s plugin requesting replacement [] committed = Ok committed"
| "commit_owners ev s plugin requesting replacement ((ident, k) # ks) committed =
     (if sk_plugin_id k = plugin
      then
        and_then (capacity_residents ev s ident) (\<lambda>n.
        let minimum = (case replacement of
              Some (replaced, m) \<Rightarrow> if replaced = ident then m else cap_min_resident_vms (ccf_resources (sk_config k))
            | None \<Rightarrow> cap_min_resident_vms (ccf_resources (sk_config k))) in
        and_then (add_charge committed (if requesting = Some ident then n else max n minimum)) (\<lambda>total'.
        commit_owners ev s plugin requesting replacement ks total'))
      else commit_owners ev s plugin requesting replacement ks committed)"

definition plugin_commitment_with_capacity ::
  "scheduler_env \<Rightarrow> scheduler_state \<Rightarrow> string \<Rightarrow> string option \<Rightarrow> (string \<times> usize) option \<Rightarrow> usize embedded_result" where
  "plugin_commitment_with_capacity ev s plugin requesting replacement =
     (let owner = Option.bind (Option.bind requesting (bt_get (sd_pools s))) sp_capacity_id in
      and_then (commit_pools ev plugin requesting (sd_pools s) 0) (\<lambda>n.
      commit_owners ev s plugin owner replacement (sd_capacities s) n))"

definition plugin_commitment :: "scheduler_env \<Rightarrow> scheduler_state \<Rightarrow> string \<Rightarrow> string option \<Rightarrow> usize embedded_result" where
  "plugin_commitment ev s plugin requesting = plugin_commitment_with_capacity ev s plugin requesting None"

definition plugin_allows_allocation :: "scheduler_env \<Rightarrow> scheduler_state \<Rightarrow> string \<Rightarrow> bool embedded_result" where
  "plugin_allows_allocation ev s pool_id =
     and_then (ok_or sched_not_found (bt_get (sd_pools s) pool_id)) (\<lambda>p.
     and_then (ok_or plugin_not_found (bt_get (sd_plugins s) (sp_plugin_id p))) (\<lambda>g.
       if sg_closing g then Ok False
       else
         and_then (plugin_commitment ev s (sp_plugin_id p) (Some pool_id)) (\<lambda>n.
         Ok (n < plg_max_resident_vms (sg_config g)))))"

section \<open>Reusable instances\<close>

definition reusable_idle :: "scheduled_reusable \<Rightarrow> bool" where
  "reusable_idle u \<longleftrightarrow> \<not> su_closing u \<and> su_active u = None \<and> su_lease u \<noteq> None"

definition idle_in_pool :: "scheduler_state \<Rightarrow> string \<Rightarrow> usize" where
  "idle_in_pool s pool_id = length (filter (\<lambda>u. su_pool_id u = pool_id \<and> reusable_idle u) (bt_values (sd_reusable_instances s)))"

fun count_capacity_idle :: "scheduler_state \<Rightarrow> string \<Rightarrow> scheduled_reusable list \<Rightarrow> usize embedded_result" where
  "count_capacity_idle s capacity [] = Ok 0"
| "count_capacity_idle s capacity (u # us) =
     (if reusable_idle u
      then
        and_then (expect ''reusable pool retained'' (bt_get (sd_pools s) (su_pool_id u))) (\<lambda>p.
        and_then (count_capacity_idle s capacity us) (\<lambda>n. Ok (if sp_capacity_id p = Some capacity then n + 1 else n)))
      else count_capacity_idle s capacity us)"

definition capacity_idle :: "scheduler_state \<Rightarrow> string \<Rightarrow> usize embedded_result" where
  "capacity_idle s capacity = count_capacity_idle s capacity (bt_values (sd_reusable_instances s))"

fun expire_entries :: "instant \<Rightarrow> nat \<Rightarrow> string \<Rightarrow> usize \<Rightarrow> (string, scheduled_reusable) btree \<Rightarrow> (string, scheduled_reusable) btree" where
  "expire_entries now ttl pool_id removable [] = []"
| "expire_entries now ttl pool_id removable ((ident, u) # us) =
     (if su_pool_id u = pool_id \<and> removable \<noteq> 0 \<and> reusable_idle u \<and> ttl \<le> saturating_sub now (su_idle_since u)
      then (ident, u\<lparr>su_closing := True\<rparr>) # expire_entries now ttl pool_id (removable - 1) us
      else (ident, u) # expire_entries now ttl pool_id removable us)"

definition reusable_expire :: "scheduler_env \<Rightarrow> string \<Rightarrow> (scheduler_state, unit) action" where
  "reusable_expire ev pool_id =
     bind_action (try_read (\<lambda>s. expect ''reusable pool retained'' (bt_get (sd_pools s) pool_id))) (\<lambda>p.
       case pool_idle_ttl_ms (sp_policy p) of
         None \<Rightarrow> ret ()
       | Some ttl \<Rightarrow>
           bind_action (try_read (\<lambda>s.
             let removable = saturating_sub (idle_in_pool s pool_id) (pool_min_resident_vms (sp_policy p)) in
             case sp_capacity_id p of
               None \<Rightarrow> Ok removable
             | Some capacity \<Rightarrow>
                 and_then (expect ''member retains capacity'' (bt_get (sd_capacities s) capacity)) (\<lambda>k.
                 and_then (capacity_idle s capacity) (\<lambda>n.
                 Ok (min removable (saturating_sub n (cap_min_resident_vms (ccf_resources (sk_config k)))))))
           )) (\<lambda>removable.
           write_state (\<lambda>s. s\<lparr>sd_reusable_instances := expire_entries (ev_now ev) (ttl * nanos_per_milli) pool_id removable (sd_reusable_instances s)\<rparr>)))"

definition find_idle :: "string \<Rightarrow> (string, scheduled_reusable) btree \<Rightarrow> (string \<times> scheduled_reusable) option" where
  "find_idle pool_id us = find (\<lambda>e. su_pool_id (snd e) = pool_id \<and> reusable_idle (snd e)) us"

text \<open>A new instance of a reusable pool; \<open>None\<close> waits for capacity.\<close>

definition reusable_allocate ::
  "scheduler_env \<Rightarrow> string \<Rightarrow> string \<Rightarrow> invocation_context \<Rightarrow> (scheduler_state, (module_lease \<times> string) option) action" where
  "reusable_allocate ev pool_id operation_id context =
     bind_action (try_read (\<lambda>s. plugin_allows_allocation ev s pool_id)) (\<lambda>allow_new.
     bind_action (try_read (\<lambda>s. expect ''registered reusable pool'' (bt_get (sd_pools s) pool_id))) (\<lambda>p.
     bind_action (try_read (\<lambda>s. expect ''registered reusable plugin'' (bt_get (sd_plugins s) (sp_plugin_id p)))) (\<lambda>g.
     bind_action (from_result (
       if sp_finalizer p
       then and_then (decrease (plg_max_operations (sg_config g)) (sg_reserved_operations g)) (\<lambda>free.
         if sg_operations g \<ge> free then Err (sched_capacity ''plugin operation capacity cannot reserve reusable finalization'') else Ok ())
       else Ok ())) (\<lambda>_.
       case ev_prepare ev pool_id True allow_new of
         Panic m \<Rightarrow> from_result (Panic m)
       | Err e \<Rightarrow> if err_code e = CapacityExceeded then ret None else fail e
       | Ok lease \<Rightarrow>
           bind_action (from_result (ev_allocation_id ev lease)) (\<lambda>ident.
           bind_action (from_result (if sp_finalizer p then ev_reserve ev pool_id None ident else Ok ())) (\<lambda>_.
           bind_action (if sp_finalizer p
             then modify_plugin ''registered reusable plugin'' (sp_plugin_id p) (\<lambda>g. Ok (g\<lparr>sg_reserved_operations := sg_reserved_operations g + 1\<rparr>))
             else ret ()) (\<lambda>_.
           bind_action (write_state (\<lambda>s. s\<lparr>sd_reusable_instances := bt_insert ident
             \<lparr>su_finalization_reservation = sp_finalizer p, su_finalization_context = (if sp_finalizer p then context else context_default),
              su_pool_id = pool_id, su_lease = None, su_active = Some operation_id, su_closing = False, su_idle_since = ev_now ev,
              su_retirement = None, su_retiring = False\<rparr> (sd_reusable_instances s)\<rparr>)) (\<lambda>_.
           ret (Some (lease, ident))))))))))"

text \<open>The first idle instance of the pool where a cached one will do, and a new one otherwise.\<close>

definition reusable_obtain ::
  "scheduler_env \<Rightarrow> string \<Rightarrow> string \<Rightarrow> invocation_context \<Rightarrow> bool \<Rightarrow> (scheduler_state, (module_lease \<times> string) option) action" where
  "reusable_obtain ev pool_id operation_id context allow_cached =
     bind_action (read_state (\<lambda>s. if allow_cached then find_idle pool_id (sd_reusable_instances s) else None)) (\<lambda>cached.
       case cached of
         Some (ident, u) \<Rightarrow>
           bind_action (from_result (expect ''idle reusable lease'' (su_lease u))) (\<lambda>lease.
           bind_action (modify_reusable ''idle reusable lease'' ident (\<lambda>u.
             Ok (u\<lparr>su_finalization_context := (if su_finalization_reservation u then context else su_finalization_context u),
               su_active := Some operation_id, su_lease := None\<rparr>))) (\<lambda>_.
           ret (Some (lease, ident))))
       | None \<Rightarrow> reusable_allocate ev pool_id operation_id context)"

definition reusable_prepare ::
  "scheduler_env \<Rightarrow> string \<Rightarrow> string \<Rightarrow> invocation_context \<Rightarrow> sched_control \<Rightarrow> bool \<Rightarrow> (scheduler_state, (module_lease \<times> string) option) action" where
  "reusable_prepare ev pool_id operation_id context control allow_cached =
     bind_action (from_result (ev_check ev control)) (\<lambda>_.
     bind_action (reusable_expire ev pool_id) (\<lambda>_.
     reusable_obtain ev pool_id operation_id context allow_cached))"

text \<open>The instance that makes room for a pool.\<close>

fun reclaim_pools ::
  "scheduler_state \<Rightarrow> string \<Rightarrow> string option \<Rightarrow> bool \<Rightarrow> bool \<Rightarrow> (string \<times> scheduled_pool) list \<Rightarrow> string option embedded_result" where
  "reclaim_pools s plugin capacity plugin_limited capacity_limited [] = Ok None"
| "reclaim_pools s plugin capacity plugin_limited capacity_limited ((pool_id, p) # ps) =
     (let continue_here = reclaim_pools s plugin capacity plugin_limited capacity_limited ps in
      if (plugin_limited \<and> sp_plugin_id p \<noteq> plugin) \<or> (capacity_limited \<and> sp_capacity_id p \<noteq> capacity)
        \<or> idle_in_pool s pool_id \<le> pool_min_resident_vms (sp_policy p)
      then continue_here
      else
        and_then (case sp_capacity_id p of
            None \<Rightarrow> Ok False
          | Some owner \<Rightarrow>
              if capacity = Some owner then Ok False
              else
                and_then (expect ''member retains capacity'' (bt_get (sd_capacities s) owner)) (\<lambda>k.
                and_then (capacity_idle s owner) (\<lambda>n. Ok (n \<le> cap_min_resident_vms (ccf_resources (sk_config k)))))) (\<lambda>kept.
          if kept then continue_here
          else case find_idle pool_id (sd_reusable_instances s) of
            Some (ident, _) \<Rightarrow> Ok (Some ident)
          | None \<Rightarrow> continue_here))"

definition reclaim_choice :: "scheduler_env \<Rightarrow> string \<Rightarrow> scheduler_state \<Rightarrow> string option embedded_result" where
  "reclaim_choice ev pool_id s =
     and_then (ok_or sched_not_found (bt_get (sd_pools s) pool_id)) (\<lambda>p.
     and_then (plugin_allows_allocation ev s pool_id) (\<lambda>allowed.
     and_then (case sp_capacity_id p of
         None \<Rightarrow> Ok False
       | Some capacity \<Rightarrow>
           and_then (capacity_residents ev s capacity) (\<lambda>n.
           and_then (expect ''member retains capacity'' (bt_get (sd_capacities s) capacity)) (\<lambda>k.
           Ok (cap_max_resident_vms (ccf_resources (sk_config k)) \<le> n)))) (\<lambda>capacity_limited.
     reclaim_pools s (sp_plugin_id p) (sp_capacity_id p) (\<not> allowed) capacity_limited (sd_pools s))))"

definition reusable_reclaim :: "scheduler_env \<Rightarrow> string \<Rightarrow> (scheduler_state, bool) action" where
  "reusable_reclaim ev pool_id =
     bind_action (try_read (reclaim_choice ev pool_id)) (\<lambda>found.
       case found of
         None \<Rightarrow> ret False
       | Some ident \<Rightarrow> bind_action (modify_reusable ''reclaimed instance'' ident (\<lambda>u. Ok (u\<lparr>su_closing := True\<rparr>))) (\<lambda>_. ret True))"

definition reusable_remove :: "string \<Rightarrow> (scheduler_state, unit) action" where
  "reusable_remove ident =
     bind_action (try_read (\<lambda>s. expect ''drained reusable instance retained'' (bt_get (sd_reusable_instances s) ident))) (\<lambda>u.
     bind_action (write_state (\<lambda>s. s\<lparr>sd_reusable_instances := bt_remove ident (sd_reusable_instances s)\<rparr>)) (\<lambda>_.
       if su_finalization_reservation u
       then
         bind_action (try_read (\<lambda>s. expect ''reusable pool retained'' (bt_get (sd_pools s) (su_pool_id u)))) (\<lambda>p.
         modify_plugin ''reusable plugin retained'' (sp_plugin_id p) (\<lambda>g.
           and_then (decrease (sg_reserved_operations g) 1) (\<lambda>n. Ok (g\<lparr>sg_reserved_operations := n\<rparr>))))
       else ret ()))"

section \<open>Selection\<close>

datatype worker_dispatch = Ready scheduled_call module_lease | Rejected scheduled_call embedded_error | FinalizingCall pending_completion

text \<open>A result kept as a value: the state it reached stays.\<close>

definition catch_action :: "('s, 'a) action \<Rightarrow> ('s, embedded_error + 'a) action" where
  "catch_action m s = (case m s of (Ok x, s') \<Rightarrow> (Ok (Inr x), s') | (Err e, s') \<Rightarrow> (Ok (Inl e), s') | (Panic p, s') \<Rightarrow> (Panic p, s'))"

definition dispatchable :: "scheduler_env \<Rightarrow> scheduler_state \<Rightarrow> scheduled_call \<Rightarrow> bool embedded_result" where
  "dispatchable ev s call =
     and_then (expect ''queued pool is retained'' (bt_get (sd_pools s) (sc_pool call))) (\<lambda>p.
       if sp_closed p then Ok False
       else case ev_check ev (sc_control call) of
         Err _ \<Rightarrow> Ok False
       | Panic m \<Rightarrow> Panic m
       | Ok _ \<Rightarrow>
           if sp_active p \<ge> pool_max_running_calls (sp_policy p) then Ok False
           else capacity_allows_execution s (sc_pool call))"

text \<open>\<open>Inr None\<close> waits for physical capacity.\<close>

definition prepare_call ::
  "scheduler_env \<Rightarrow> scheduled_call \<Rightarrow> (scheduler_state, embedded_error + (module_lease \<times> string option) option) action" where
  "prepare_call ev call =
     bind_action (from_result (expect ''queued invocation or explicit prewarm'' (request_context (sc_request call)))) (\<lambda>context.
     bind_action (try_read (\<lambda>s. plugin_allows_allocation ev s (sc_pool call))) (\<lambda>allow_new.
     bind_action (try_read (\<lambda>s. expect ''queued pool is retained'' (bt_get (sd_pools s) (sc_pool call)))) (\<lambda>p.
       let prewarm = (case sc_request call of Prewarm _ \<Rightarrow> True | _ \<Rightarrow> False) in
       if pool_reuse (sp_policy p) = Reusable
       then
         bind_action (if prewarm then bind_action (from_result (ev_usage ev (sc_pool call))) (\<lambda>u. ret (resident u \<ge> pool_max_resident_vms (sp_policy p))) else ret False) (\<lambda>full.
           if full then ret (Inl (sched_capacity ''prewarm cannot add a resident to a full pool''))
           else
             bind_action (catch_action (reusable_prepare ev (sc_pool call) (sc_id call) context (sc_control call) (\<not> prewarm))) (\<lambda>r.
             ret (case r of Inl e \<Rightarrow> Inl e | Inr None \<Rightarrow> Inr None | Inr (Some (lease, ident)) \<Rightarrow> Inr (Some (lease, Some ident)))))
       else (case ev_prepare ev (sc_pool call) False allow_new of
           Ok lease \<Rightarrow> ret (Inr (Some (lease, None)))
         | Err e \<Rightarrow> ret (if err_code e = CapacityExceeded then Inr None else Inl e)
         | Panic m \<Rightarrow> from_result (Panic m)))))"

text \<open>The call leaves the queue and its plugin goes to the end of the rotation.\<close>

definition dispatch_session :: "scheduled_call \<Rightarrow> string \<Rightarrow> (scheduler_state, module_lease) action" where
  "dispatch_session call session =
     bind_action (try_read (\<lambda>s. and_then (expect ''selected session is retained'' (bt_get (sd_sessions s) session)) (\<lambda>ss.
       ok_or (sched_internal ''idle session lost its lease'') (ss_lease ss)))) (\<lambda>lease.
     bind_action (modify_session ''selected session is retained'' session (\<lambda>ss.
       Ok (ss\<lparr>ss_lease := None, ss_active := Some (sc_id call),
         ss_finalization_context := (case request_invocation (sc_request call) of
             None \<Rightarrow> ss_finalization_context ss
           | Some request \<Rightarrow> if ss_finalization_reservation ss then ec_context request else ss_finalization_context ss)\<rparr>))) (\<lambda>_.
     ret lease))"

definition activate_pool :: "string \<Rightarrow> (scheduler_state, unit) action" where
  "activate_pool pool_id = modify_pool ''prepared pool exists'' pool_id (\<lambda>p. Ok (p\<lparr>sp_active := sp_active p + 1\<rparr>))"

definition dispatch_call ::
  "nat \<Rightarrow> string \<Rightarrow> nat \<Rightarrow> (embedded_error + module_lease \<times> string option) option \<Rightarrow> (scheduler_state, worker_dispatch) action" where
  "dispatch_call rotation_index plugin index prepared =
     bind_action (write_state (\<lambda>s. s\<lparr>sd_rotation := rotate (Suc rotation_index) (sd_rotation s)\<rparr>)) (\<lambda>_.
     bind_action (take_call plugin index) (\<lambda>call.
       case prepared of
         Some (Inl e) \<Rightarrow> ret (Rejected call e)
       | Some (Inr (lease, ident)) \<Rightarrow>
           bind_action (activate_pool (sc_pool call)) (\<lambda>_. ret (Ready (call\<lparr>sc_reusable_instance := ident\<rparr>) lease))
       | None \<Rightarrow>
           bind_action (from_result (expect ''session dispatch has identity'' (sc_session call))) (\<lambda>session.
           bind_action (dispatch_session call session) (\<lambda>lease.
           bind_action (activate_pool (sc_pool call)) (\<lambda>_. ret (Ready call lease))))))"

definition scanned_call :: "string \<Rightarrow> nat \<Rightarrow> scheduler_state \<Rightarrow> scheduled_call embedded_result" where
  "scanned_call plugin index s =
     and_then (expect ''scanned queue retained'' (bt_get (sd_queues s) plugin)) (\<lambda>queue.
     expect ''index out of bounds'' (if index < length queue then Some (queue ! index) else None))"

text \<open>A call that waits for a VM: at most one scan of all queues makes an idle instance give way.\<close>

definition await_capacity :: "scheduler_env \<Rightarrow> scheduled_call \<Rightarrow> bool \<Rightarrow> (scheduler_state, bool) action" where
  "await_capacity ev call reclaimed =
     bind_action (try_read (\<lambda>s. expect ''queued pool is retained'' (bt_get (sd_pools s) (sc_pool call)))) (\<lambda>p.
     bind_action (from_result (ev_usage ev (sc_pool call))) (\<lambda>u.
       if resident u \<ge> pool_max_resident_vms (sp_policy p) \<or> reclaimed then ret reclaimed
       else reusable_reclaim ev (sc_pool call)))"

fun scan_queue ::
  "scheduler_env \<Rightarrow> nat \<Rightarrow> string \<Rightarrow> nat list \<Rightarrow> (string \<times> string option) list \<Rightarrow> bool \<Rightarrow> (scheduler_state, worker_dispatch option \<times> bool) action" where
  "scan_queue ev rotation_index plugin [] visited reclaimed = ret (None, reclaimed)"
| "scan_queue ev rotation_index plugin (i # is') visited reclaimed =
     bind_action (try_read (scanned_call plugin i)) (\<lambda>call.
       let slot = (sc_pool call, sc_session call) in
       if slot \<in> set visited then scan_queue ev rotation_index plugin is' visited reclaimed
       else
         bind_action (try_read (\<lambda>s. dispatchable ev s call)) (\<lambda>free.
           if \<not> free then scan_queue ev rotation_index plugin is' (slot # visited) reclaimed
           else case sc_session call of
             Some session \<Rightarrow>
               bind_action (try_read (\<lambda>s. expect ''queued session is retained'' (bt_get (sd_sessions s) session))) (\<lambda>ss.
                 if ss_closing ss \<or> ss_active ss \<noteq> None then scan_queue ev rotation_index plugin is' (slot # visited) reclaimed
                 else bind_action (dispatch_call rotation_index plugin i None) (\<lambda>d. ret (Some d, reclaimed)))
           | None \<Rightarrow>
               bind_action (prepare_call ev call) (\<lambda>prepared.
                 case prepared of
                   Inr None \<Rightarrow> bind_action (await_capacity ev call reclaimed) (scan_queue ev rotation_index plugin is' (slot # visited))
                 | Inr (Some lease) \<Rightarrow> bind_action (dispatch_call rotation_index plugin i (Some (Inr lease))) (\<lambda>d. ret (Some d, reclaimed))
                 | Inl e \<Rightarrow> bind_action (dispatch_call rotation_index plugin i (Some (Inl e))) (\<lambda>d. ret (Some d, reclaimed)))))"

fun scan_rotation :: "scheduler_env \<Rightarrow> nat \<Rightarrow> string list \<Rightarrow> bool \<Rightarrow> (scheduler_state, worker_dispatch option) action" where
  "scan_rotation ev rotation_index [] reclaimed = ret None"
| "scan_rotation ev rotation_index (plugin # plugins) reclaimed =
     bind_action (try_read (\<lambda>s. expect ''queued plugin remains registered'' (bt_get (sd_plugins s) plugin))) (\<lambda>g.
     bind_action (read_state (\<lambda>s. sg_closing g \<or> plugin_active s plugin \<ge> plg_max_running_calls (sg_config g))) (\<lambda>busy.
       if busy then scan_rotation ev (Suc rotation_index) plugins reclaimed
       else
         bind_action (try_read (\<lambda>s. and_then (expect ''rotation references a live queue'' (bt_get (sd_queues s) plugin)) (\<lambda>q. Ok (length q)))) (\<lambda>n.
         bind_action (scan_queue ev rotation_index plugin [0..<n] [] reclaimed) (\<lambda>(found, reclaimed').
           case found of
             Some d \<Rightarrow> ret (Some d)
           | None \<Rightarrow> scan_rotation ev (Suc rotation_index) plugins reclaimed'))))"

definition sched_select :: "scheduler_env \<Rightarrow> (scheduler_state, worker_dispatch option) action" where
  "sched_select ev = bind_action (read_state sd_rotation) (\<lambda>plugins. scan_rotation ev 0 plugins False)"

end
