(* ===== verification/Scheduler_Completion.thy ===== *)
theory Scheduler_Completion
  imports Scheduler_Dispatch
begin

text \<open>
  Execution and completion (\<^verbatim>\<open>scheduler/workers.rs\<close>: \<^verbatim>\<open>execute\<close>, \<^verbatim>\<open>invoke\<close>, \<^verbatim>\<open>complete\<close>, \<^verbatim>\<open>retirement_ready\<close>;
  \<^verbatim>\<open>scheduler/persistence.rs\<close>; the automatic closing calls of \<^verbatim>\<open>scheduler/sessions_finalization.rs\<close> and
  \<^verbatim>\<open>scheduler/reusable_finalization.rs\<close>; the maintenance of sessions and reusable instances). Each
  definition is one section under the scheduler's lock; what happens between two sections of one
  function (Lua, checkpoints of the operation, physical release) only decides which section follows.
\<close>

section \<open>Workers\<close>

datatype exec_step = WorkerExit | WorkerWait | WorkerRun worker_dispatch

definition fully_drained :: "scheduler_state \<Rightarrow> bool" where
  "fully_drained s \<longleftrightarrow>
     sd_closing s \<and> sd_live s = [] \<and> list_all ss_closed (bt_values (sd_sessions s)) \<and> sd_reusable_instances s = []"

definition exec_next :: "scheduler_env \<Rightarrow> (scheduler_state, exec_step) action" where
  "exec_next ev s =
     (if fully_drained s then (Ok WorkerExit, s)
      else if sd_persistence_failures s = [] \<and> \<not> sd_shared_checkpoint_failed s
      then (case sd_finalizing s of
          c # cs \<Rightarrow> (Ok (WorkerRun (FinalizingCall c)), s\<lparr>sd_finalizing := cs\<rparr>)
        | [] \<Rightarrow>
            if sd_closing s then (Ok WorkerWait, s)
            else bind_action (sched_select ev) (\<lambda>d. ret (case d of None \<Rightarrow> WorkerWait | Some x \<Rightarrow> WorkerRun x)) s)
      else (Ok WorkerWait, s))"

datatype module_release = NoInstance | ReturnedToPool | RetiringModule retirement_ref

text \<open>
  The completion of an invoked call, from its result (already replaced when it is too large), and from
  what releasing the lease answers where it is released.
\<close>

definition invoke_completion ::
  "scheduler_env \<Rightarrow> (embedded_error + module_release) \<Rightarrow> scheduled_call \<Rightarrow> module_lease \<Rightarrow> embedded_error + json_value \<Rightarrow> pending_completion" where
  "invoke_completion ev release call lease result =
     (let base = \<lparr>pn_finalization = None, pn_retained_lease = None, pn_cleaning_started = False,
            pn_call = call\<lparr>sc_request := release_values (sc_request call)\<rparr>, pn_result = result, pn_retirement = None,
            pn_effects = UnknownEffect, pn_dispatched = True\<rparr> in
      if sc_session call = None \<and> sc_reusable_instance call = None \<and> ev_plan ev lease
      then base\<lparr>pn_call := call,
        pn_finalization := Some \<lparr>pz_lease = lease, pz_intent_prepared = False, pz_outcome = None, pz_outcome_prepared = False\<rparr>\<rparr>
      else if (sc_session call \<noteq> None \<or> sc_reusable_instance call \<noteq> None)
        \<and> ((\<not> isl result \<and> ev_can_retain ev lease) \<or> ev_plan ev lease)
      then base\<lparr>pn_retained_lease := Some lease\<rparr>
      else case release of
        Inr (RetiringModule r) \<Rightarrow> base\<lparr>pn_retirement := Some r\<rparr>
      | Inr ReturnedToPool \<Rightarrow> base
      | Inr NoInstance \<Rightarrow> base\<lparr>pn_effects := NotStarted\<rparr>
      | Inl e \<Rightarrow> base\<lparr>pn_result := Inl e\<rparr>)"

definition rejected_completion :: "scheduled_call \<Rightarrow> embedded_error \<Rightarrow> pending_completion" where
  "rejected_completion call e = \<lparr>pn_finalization = None, pn_retained_lease = None, pn_cleaning_started = False, pn_call = call,
     pn_result = Inl e, pn_retirement = None, pn_effects = NotStarted, pn_dispatched = False\<rparr>"

text \<open>The executed call goes to the supervisor; an owner that cannot be kept is marked closing.\<close>

definition unusable :: "scheduler_env \<Rightarrow> pending_completion \<Rightarrow> bool" where
  "unusable ev c \<longleftrightarrow> (case pn_retained_lease c of None \<Rightarrow> True | Some lease \<Rightarrow> isl (pn_result c) \<or> \<not> ev_can_retain ev lease)"

definition exec_finish :: "scheduler_env \<Rightarrow> pending_completion \<Rightarrow> bool \<Rightarrow> (scheduler_state, unit) action" where
  "exec_finish ev c newly =
     bind_action (case sc_session (pn_call c) of
         None \<Rightarrow> ret ()
       | Some session \<Rightarrow>
           if unusable ev c
           then modify_session ''dispatched session retained'' session (\<lambda>ss.
             Ok (ss\<lparr>ss_closing := True, ss_error := (case pn_result c of Inl e \<Rightarrow> (case ss_error ss of None \<Rightarrow> Some e | Some x \<Rightarrow> Some x) | Inr _ \<Rightarrow> ss_error ss)\<rparr>))
           else ret ()) (\<lambda>_.
     bind_action (case sc_reusable_instance (pn_call c) of
         None \<Rightarrow> ret ()
       | Some ident \<Rightarrow> if unusable ev c then modify_reusable ''active reusable instance'' ident (\<lambda>u. Ok (u\<lparr>su_closing := True\<rparr>)) else ret ()) (\<lambda>_.
     write_state (\<lambda>s. s\<lparr>sd_cleaning_count := (if newly then sd_cleaning_count s + 1 else sd_cleaning_count s), sd_cleaning := sd_cleaning s @ [c]\<rparr>)))"

section \<open>Completion\<close>

text \<open>
  The first section: a retained lease whose owner closes is released outside the lock; a failed
  checkpoint waits for an explicit retry.
\<close>

datatype completion_route = ReleaseLease module_lease | HoldCompletion | DriveCompletion bool

definition must_close :: "pending_completion \<Rightarrow> scheduler_state \<Rightarrow> bool embedded_result" where
  "must_close c s =
     (if sd_closing s then Ok True
      else
        and_then (expect ''retained pool exists'' (bt_get (sd_pools s) (sc_pool (pn_call c)))) (\<lambda>p.
        if sp_closed p then Ok True
        else
          and_then (case sc_session (pn_call c) of
              None \<Rightarrow> Ok False
            | Some session \<Rightarrow> and_then (expect ''retained session'' (bt_get (sd_sessions s) session)) (\<lambda>ss. Ok (ss_closing ss))) (\<lambda>b.
          if b then Ok True
          else case sc_reusable_instance (pn_call c) of
            None \<Rightarrow> Ok False
          | Some ident \<Rightarrow> and_then (expect ''retained reusable instance'' (bt_get (sd_reusable_instances s) ident)) (\<lambda>u. Ok (su_closing u)))))"

definition mark_owner_closing :: "pending_completion \<Rightarrow> (scheduler_state, unit) action" where
  "mark_owner_closing c =
     bind_action (case sc_session (pn_call c) of
         None \<Rightarrow> ret ()
       | Some session \<Rightarrow> modify_session ''retained session'' session (\<lambda>ss. Ok (ss\<lparr>ss_closing := True\<rparr>))) (\<lambda>_.
     case sc_reusable_instance (pn_call c) of
       None \<Rightarrow> ret ()
     | Some ident \<Rightarrow> modify_reusable ''retained reusable instance'' ident (\<lambda>u. Ok (u\<lparr>su_closing := True\<rparr>)))"

definition retry_route :: "pending_completion \<Rightarrow> (scheduler_state, completion_route) action" where
  "retry_route c s =
     (case bt_get (sd_persistence_failures s) (sc_id (pn_call c)) of
        None \<Rightarrow> (Ok (DriveCompletion False), s)
      | Some f \<Rightarrow>
          (case pf_retry f of
             RetryWaiting \<Rightarrow> (Ok HoldCompletion, s)
           | RetryRequested \<Rightarrow>
               (Ok (DriveCompletion True),
                s\<lparr>sd_persistence_failures := bt_insert (sc_id (pn_call c)) (f\<lparr>pf_retry := Retrying\<rparr>) (sd_persistence_failures s)\<rparr>)
           | Retrying \<Rightarrow> (Ok (DriveCompletion False), s)))"

definition complete_begin :: "scheduler_env \<Rightarrow> bool \<Rightarrow> pending_completion \<Rightarrow> (scheduler_state, completion_route) action" where
  "complete_begin ev candidate c =
     (case pn_retained_lease c of
        None \<Rightarrow> retry_route c
      | Some lease \<Rightarrow>
          if candidate then retry_route c
          else
            bind_action (try_read (must_close c)) (\<lambda>closing.
              if closing \<and> \<not> ev_plan ev lease
              then bind_action (mark_owner_closing c) (\<lambda>_. ret (ReleaseLease lease))
              else retry_route c))"

text \<open>A completion whose closing call may start now.\<close>

definition push_finalizing :: "pending_completion \<Rightarrow> scheduler_state \<Rightarrow> scheduler_state" where
  "push_finalizing c s = s\<lparr>sd_finalizing := sd_finalizing s @ [c]\<rparr>"

text \<open>The last section: the terminal snapshot is published and every count gives the call back.\<close>

definition return_session :: "scheduler_env \<Rightarrow> embedded_error option \<Rightarrow> pending_completion \<Rightarrow> module_lease option \<Rightarrow> scheduled_session \<Rightarrow> scheduled_session embedded_result" where
  "return_session ev closing_error c lease ss =
     and_then (decrease (ss_unfinished ss) 1) (\<lambda>n.
       let base = ss\<lparr>ss_unfinished := n\<rparr>;
           settled =
             (if pn_dispatched c
              then (case lease of
                  Some l \<Rightarrow> base\<lparr>ss_active := None, ss_lease := Some l, ss_opened := True\<rparr>
                | None \<Rightarrow> base\<lparr>ss_active := None, ss_closing := True\<rparr>)
              else (case sc_request (pn_call c) of OpenSession _ _ \<Rightarrow> base\<lparr>ss_closing := True\<rparr> | _ \<Rightarrow> base)) in
       Ok (case closing_error of
           Some e \<Rightarrow> if ss_closing settled then settled\<lparr>ss_error := (case ss_error settled of None \<Rightarrow> Some e | Some x \<Rightarrow> Some x)\<rparr> else settled
         | None \<Rightarrow> settled))"

definition complete_publish :: "scheduler_env \<Rightarrow> embedded_error option \<Rightarrow> pending_completion \<Rightarrow> (scheduler_state, unit) action" where
  "complete_publish ev closing_error c =
     bind_action (write_state (\<lambda>s. s\<lparr>sd_persistence_failures := bt_remove (sc_id (pn_call c)) (sd_persistence_failures s),
       sd_live := bt_remove (sc_id (pn_call c)) (sd_live s)\<rparr>)) (\<lambda>_.
     bind_action (try_read (\<lambda>s. decrease (sd_cleaning_count s) 1)) (\<lambda>n.
     bind_action (write_state (\<lambda>s. s\<lparr>sd_cleaning_count := n\<rparr>)) (\<lambda>_.
     bind_action (if pn_dispatched c
       then modify_pool ''active pool retained'' (sc_pool (pn_call c)) (\<lambda>p. and_then (decrease (sp_active p) 1) (\<lambda>n. Ok (p\<lparr>sp_active := n\<rparr>)))
       else ret ()) (\<lambda>_.
     bind_action (case sc_reusable_instance (pn_call c) of
         None \<Rightarrow> ret (pn_retained_lease c)
       | Some ident \<Rightarrow>
           (case pn_retained_lease c of
              Some lease \<Rightarrow>
                bind_action (modify_reusable ''unfinished reusable instance retained'' ident (\<lambda>u.
                  Ok (u\<lparr>su_active := None, su_lease := Some lease, su_idle_since := ev_now ev\<rparr>))) (\<lambda>_. ret None)
            | None \<Rightarrow> bind_action (reusable_remove ident) (\<lambda>_. ret None))) (\<lambda>lease.
     case sc_session (pn_call c) of
       None \<Rightarrow> ret ()
     | Some session \<Rightarrow> modify_session ''unfinished session retained'' session (return_session ev closing_error c lease))))))"

fun any_retired :: "scheduler_env \<Rightarrow> scheduler_state \<Rightarrow> pending_completion list \<Rightarrow> bool embedded_result" where
  "any_retired ev s [] = Ok False"
| "any_retired ev s (c # cs) =
     (if \<not> pn_cleaning_started c \<or> pn_finalization c \<noteq> None \<or> bt_contains (sd_persistence_failures s) (sc_id (pn_call c))
      then any_retired ev s cs
      else case pn_retirement c of
        None \<Rightarrow> any_retired ev s cs
      | Some r \<Rightarrow> and_then (ev_retired ev r) (\<lambda>b. if b then Ok True else any_retired ev s cs))"

definition retirement_ready :: "scheduler_env \<Rightarrow> scheduler_state \<Rightarrow> bool embedded_result" where
  "retirement_ready ev s = any_retired ev s (sd_cleaning s)"

section \<open>Persistence failures\<close>

definition sched_fail :: "embedded_error \<Rightarrow> scheduler_state \<Rightarrow> scheduler_state \<times> sched_control list" where
  "sched_fail e s = (s\<lparr>sd_failure := (case sd_failure s of None \<Rightarrow> Some e | Some x \<Rightarrow> Some x), sd_closing := True\<rparr>, bt_values (sd_live s))"

definition checkpoint_failed :: "bool \<Rightarrow> string \<Rightarrow> operation_phase \<Rightarrow> embedded_error \<Rightarrow> scheduler_state \<Rightarrow> scheduler_state" where
  "checkpoint_failed has_queue ident phase e s =
     (if \<not> has_queue then fst (sched_fail e s)
      else s\<lparr>sd_persistence_failures := bt_insert ident
        \<lparr>pf_operation_id = ident, pf_phase = phase, pf_error = e, pf_retry = RetryWaiting\<rparr> (sd_persistence_failures s)\<rparr>)"

definition checkpoint_recovered :: "string \<Rightarrow> scheduler_state \<Rightarrow> scheduler_state" where
  "checkpoint_recovered ident s = s\<lparr>sd_persistence_failures := bt_remove ident (sd_persistence_failures s)\<rparr>"

text \<open>\<open>observe ident\<close> is what asking the operation for its failed checkpoint answers.\<close>

fun observe_failures :: "(string \<Rightarrow> operation_persistence_failure option embedded_result) \<Rightarrow> string list \<Rightarrow> bool \<Rightarrow> (bool \<times> bool) embedded_result" where
  "observe_failures observe [] incomplete = Ok (False, incomplete)"
| "observe_failures observe (ident # idents) incomplete =
     (case observe ident of
        Ok (Some _) \<Rightarrow> Ok (True, incomplete)
      | Ok None \<Rightarrow> observe_failures observe idents incomplete
      | Err e \<Rightarrow> if err_code e = Busy then observe_failures observe idents True else Err e
      | Panic p \<Rightarrow> Panic p)"

definition observe_shared_checkpoint_failures ::
  "bool \<Rightarrow> (string \<Rightarrow> operation_persistence_failure option embedded_result) \<Rightarrow> (scheduler_state, unit) action" where
  "observe_shared_checkpoint_failures has_queue observe s =
     (if \<not> has_queue then (Ok (), s)
      else case observe_failures observe (map fst (sd_live s)) False of
        Ok (failed, incomplete) \<Rightarrow>
          (Ok (), if failed then s\<lparr>sd_shared_checkpoint_failed := True\<rparr> else if incomplete then s else s\<lparr>sd_shared_checkpoint_failed := False\<rparr>)
      | Err e \<Rightarrow> (Err e, s)
      | Panic p \<Rightarrow> (Panic p, s))"

definition operation_not_retained :: embedded_error where
  "operation_not_retained = error_new NotFound ''embedded operation is not retained''"

definition persistence_failure ::
  "(string \<Rightarrow> operation_persistence_failure option embedded_result) \<Rightarrow> string \<Rightarrow> (scheduler_state, operation_persistence_failure option) action" where
  "persistence_failure observe ident s =
     (if \<not> bt_contains (sd_operation_plugins s) ident then (Err operation_not_retained, s)
      else case bt_get (sd_persistence_failures s) ident of
        Some f \<Rightarrow> (Ok (Some f), s)
      | None \<Rightarrow>
          (case observe ident of
             Ok f \<Rightarrow> (Ok f, if f = None then s else s\<lparr>sd_shared_checkpoint_failed := True\<rparr>)
           | Err e \<Rightarrow> (Err e, s)
           | Panic p \<Rightarrow> (Panic p, s)))"

definition retry_checkpoint :: "(string \<Rightarrow> bool option embedded_result) \<Rightarrow> string \<Rightarrow> (scheduler_state, bool) action" where
  "retry_checkpoint request_retry ident s =
     (if \<not> bt_contains (sd_operation_plugins s) ident then (Err operation_not_retained, s)
      else case bt_get (sd_persistence_failures s) ident of
        Some f \<Rightarrow>
          if pf_retry f \<noteq> RetryWaiting then (Ok False, s)
          else (Ok True, s\<lparr>sd_persistence_failures := bt_insert ident (f\<lparr>pf_retry := RetryRequested\<rparr>) (sd_persistence_failures s)\<rparr>)
      | None \<Rightarrow>
          (and_then (request_retry ident) (ok_or (error_new Busy ''operation has no failed checkpoint'')), s))"

section \<open>Automatic closing calls\<close>

text \<open>A closing call needs a free slot of its pool, its plugin and its capacity.\<close>

definition closing_slot :: "string \<Rightarrow> scheduler_state \<Rightarrow> string \<Rightarrow> (string \<times> bool) embedded_result" where
  "closing_slot owner s pool_id =
     and_then (expect (owner @ '' pool retained'') (bt_get (sd_pools s) pool_id)) (\<lambda>p.
     and_then (expect (owner @ '' plugin retained'') (bt_get (sd_plugins s) (sp_plugin_id p))) (\<lambda>g.
       if sp_active p \<ge> pool_max_running_calls (sp_policy p) \<or> plugin_active s (sp_plugin_id p) \<ge> plg_max_running_calls (sg_config g)
       then Ok (sp_plugin_id p, False)
       else and_then (capacity_allows_execution s pool_id) (\<lambda>b. Ok (sp_plugin_id p, b))))"

definition push_closing :: "string \<Rightarrow> string \<Rightarrow> string \<Rightarrow> scheduled_call \<Rightarrow> module_lease \<Rightarrow> (scheduler_state, unit) action" where
  "push_closing owner plugin pool_id call lease =
     bind_action (modify_plugin (owner @ '' plugin retained'') plugin (\<lambda>g.
       and_then (decrease (sg_reserved_operations g) 1) (\<lambda>n. Ok (g\<lparr>sg_reserved_operations := n, sg_operations := sg_operations g + 1\<rparr>)))) (\<lambda>_.
     bind_action (write_state (\<lambda>s. s\<lparr>sd_operation_plugins := bt_insert (sc_id call) plugin (sd_operation_plugins s),
       sd_live := bt_insert (sc_id call) (sc_control call) (sd_live s)\<rparr>)) (\<lambda>_.
     bind_action (modify_pool (owner @ '' pool retained'') pool_id (\<lambda>p. Ok (p\<lparr>sp_active := sp_active p + 1\<rparr>))) (\<lambda>_.
     write_state (\<lambda>s. s\<lparr>sd_cleaning_count := sd_cleaning_count s + 1,
       sd_cleaning := sd_cleaning s @ [\<lparr>pn_finalization = Some \<lparr>pz_lease = lease, pz_intent_prepared = False, pz_outcome = None, pz_outcome_prepared = False\<rparr>,
         pn_retained_lease = None, pn_cleaning_started = False, pn_call = call, pn_result = Inr VNull, pn_retirement = None,
         pn_effects = UnknownEffect, pn_dispatched = True\<rparr>]\<rparr>))))"

definition schedule_session_closing :: "scheduler_env \<Rightarrow> string \<Rightarrow> (scheduler_state, bool) action" where
  "schedule_session_closing ev session =
     bind_action (try_read (\<lambda>s. expect ''closing session retained'' (bt_get (sd_sessions s) session))) (\<lambda>ss.
     bind_action (try_read (\<lambda>s. closing_slot ''session'' s (ss_pool_id ss))) (\<lambda>(plugin, free).
       if \<not> free then ret False
       else
         bind_action (from_result (expect ''closing lease retained'' (ss_lease ss))) (\<lambda>lease.
         bind_action (from_result (expect ''closing lease is eligible'' (if ev_plan ev lease then Some () else None))) (\<lambda>_.
         bind_action (from_result (and_then (expect ''closing capacity reserved'' (if ss_finalization_reservation ss then Some () else None)) (\<lambda>_.
           ev_admit_reserved ev session))) (\<lambda>(ident, control).
         bind_action (modify_session ''closing session retained'' session (\<lambda>ss.
           Ok (ss\<lparr>ss_finalization_reservation := False, ss_finalization_context := context_default, ss_lease := None,
             ss_finalization_operation := Some ident, ss_active := Some ident, ss_unfinished := ss_unfinished ss + 1\<rparr>))) (\<lambda>_.
         bind_action (push_closing ''session'' plugin (ss_pool_id ss) \<lparr>sc_reusable_instance = None, sc_id = ident, sc_control = control,
           sc_request = CloseSession (ss_pool_id ss) session (ss_finalization_context ss), sc_bytes = 0\<rparr> lease) (\<lambda>_.
         ret True)))))))"

definition schedule_reusable_closing :: "scheduler_env \<Rightarrow> string \<Rightarrow> (scheduler_state, bool) action" where
  "schedule_reusable_closing ev instance_id =
     bind_action (try_read (\<lambda>s. expect ''closing reusable instance retained'' (bt_get (sd_reusable_instances s) instance_id))) (\<lambda>u.
     bind_action (try_read (\<lambda>s. closing_slot ''reusable'' s (su_pool_id u))) (\<lambda>(plugin, free).
       if \<not> free then ret False
       else
         bind_action (from_result (expect ''closing reusable lease'' (su_lease u))) (\<lambda>lease.
         bind_action (from_result (expect ''eligible reusable closing'' (if ev_plan ev lease then Some () else None))) (\<lambda>_.
         bind_action (from_result (and_then (expect ''reusable closing capacity reserved'' (if su_finalization_reservation u then Some () else None)) (\<lambda>_.
           ev_admit_reserved ev instance_id))) (\<lambda>(ident, control).
         bind_action (modify_reusable ''closing reusable instance retained'' instance_id (\<lambda>u.
           Ok (u\<lparr>su_finalization_reservation := False, su_finalization_context := context_default, su_lease := None, su_active := Some ident\<rparr>))) (\<lambda>_.
         bind_action (push_closing ''reusable'' plugin (su_pool_id u) \<lparr>sc_reusable_instance = Some instance_id, sc_id = ident, sc_control = control,
           sc_request = CloseInstance (su_pool_id u) (su_finalization_context u), sc_bytes = 0\<rparr> lease) (\<lambda>_.
         ret True)))))))"

fun schedule_all :: "(string \<Rightarrow> (scheduler_state, bool) action) \<Rightarrow> string list \<Rightarrow> (scheduler_state, unit) action" where
  "schedule_all schedule [] = ret ()"
| "schedule_all schedule (ident # idents) = bind_action (schedule ident) (\<lambda>_. schedule_all schedule idents)"

section \<open>Maintenance\<close>

definition closed_pools :: "scheduler_state \<Rightarrow> string list" where
  "closed_pools s = map fst (filter (\<lambda>e. sp_closed (snd e)) (sd_pools s))"

text \<open>The first section over all sessions: what to cancel, to finalize and to retire.\<close>

definition sweep_session :: "scheduler_env \<Rightarrow> scheduler_state \<Rightarrow> scheduled_session \<Rightarrow> scheduled_session" where
  "sweep_session ev s ss =
     (let ss = ss\<lparr>ss_closing := (ss_closing ss \<or> sd_closing s \<or> ss_pool_id ss \<in> set (closed_pools s))\<rparr> in
      if ss_closing ss \<and> ss_active ss = None \<and> ss_unfinished ss = 0 \<and> (case ss_lease ss of None \<Rightarrow> False | Some l \<Rightarrow> \<not> ev_plan ev l)
      then ss\<lparr>ss_retiring := True, ss_lease := None\<rparr> else ss)"

definition sessions_to_cancel :: "scheduler_state \<Rightarrow> string list" where
  "sessions_to_cancel s = concat (map (\<lambda>ss.
     if (ss_closing ss \<or> sd_closing s \<or> ss_pool_id ss \<in> set (closed_pools s))
     then (case ss_active ss of None \<Rightarrow> [] | Some a \<Rightarrow> if ss_finalization_operation ss = Some a then [] else [a]) else []) (bt_values (sd_sessions s)))"

definition sessions_to_finalize :: "scheduler_env \<Rightarrow> scheduler_state \<Rightarrow> string list" where
  "sessions_to_finalize ev s = map fst (filter (\<lambda>e. case snd e of ss \<Rightarrow>
     (ss_closing ss \<or> sd_closing s \<or> ss_pool_id ss \<in> set (closed_pools s)) \<and> ss_active ss = None \<and> ss_unfinished ss = 0 \<and>
     (case ss_lease ss of None \<Rightarrow> False | Some l \<Rightarrow> ev_plan ev l)) (sd_sessions s))"

definition maintain_sessions :: "scheduler_env \<Rightarrow> (scheduler_state, sched_control list) action" where
  "maintain_sessions ev =
     bind_action (read_state (\<lambda>s. (sessions_to_cancel s, sessions_to_finalize ev s))) (\<lambda>(cancel, finalizing).
     bind_action (write_state (\<lambda>s. s\<lparr>sd_sessions := map (\<lambda>(ident, ss). (ident, sweep_session ev s ss)) (sd_sessions s)\<rparr>)) (\<lambda>_.
     bind_action (read_state (\<lambda>s. concat (map (\<lambda>a. case bt_get (sd_live s) a of None \<Rightarrow> [] | Some c \<Rightarrow> [c]) cancel))) (\<lambda>controls.
     bind_action (schedule_all (schedule_session_closing ev) finalizing) (\<lambda>_.
     ret controls))))"

definition retired_session :: "string \<Rightarrow> module_release \<Rightarrow> (scheduler_state, unit) action" where
  "retired_session session release =
     (case release of
        ReturnedToPool \<Rightarrow> fail (sched_internal ''pinned session returned to ordinary reuse'')
      | NoInstance \<Rightarrow> modify_session ''retiring session cannot be forgotten'' session (\<lambda>ss. Ok (ss\<lparr>ss_retirement := None, ss_retiring := False\<rparr>))
      | RetiringModule r \<Rightarrow> modify_session ''retiring session cannot be forgotten'' session (\<lambda>ss. Ok (ss\<lparr>ss_retirement := Some r, ss_retiring := False\<rparr>)))"

definition session_idle :: "scheduled_session \<Rightarrow> bool" where
  "session_idle ss \<longleftrightarrow> ss_closing ss \<and> ss_active ss = None \<and> ss_unfinished ss = 0 \<and> ss_lease ss = None \<and> \<not> ss_retiring ss"

text \<open>The last section: drained sessions close, and unused reservations of a closing call are given back.\<close>

fun settle_sessions :: "scheduler_env \<Rightarrow> string list \<Rightarrow> (scheduler_state, string list) action" where
  "settle_sessions ev [] = ret []"
| "settle_sessions ev (ident # idents) =
     bind_action (try_read (\<lambda>s. expect ''listed session'' (bt_get (sd_sessions s) ident))) (\<lambda>ss.
       if session_idle ss
       then
         bind_action (from_result (case ss_retirement ss of None \<Rightarrow> Ok True | Some r \<Rightarrow> ev_retired ev r)) (\<lambda>drained.
         bind_action (modify_session ''listed session'' ident (\<lambda>ss.
           Ok (if drained then ss\<lparr>ss_closed := True, ss_finalization_context := context_default, ss_finalization_reservation := False\<rparr>
               else ss\<lparr>ss_closed := False\<rparr>))) (\<lambda>_.
         bind_action (settle_sessions ev idents) (\<lambda>unused.
         ret (if drained \<and> ss_finalization_reservation ss then ss_pool_id ss # unused else unused))))
       else settle_sessions ev idents)"

fun release_reserved :: "string list \<Rightarrow> (scheduler_state, unit) action" where
  "release_reserved [] = ret ()"
| "release_reserved (pool_id # pools) =
     bind_action (try_read (\<lambda>s. expect ''session pool retained'' (bt_get (sd_pools s) pool_id))) (\<lambda>p.
     bind_action (modify_plugin ''session plugin retained'' (sp_plugin_id p) (\<lambda>g.
       and_then (decrease (sg_reserved_operations g) 1) (\<lambda>n. Ok (g\<lparr>sg_reserved_operations := n\<rparr>)))) (\<lambda>_.
     release_reserved pools))"

definition close_sessions :: "scheduler_env \<Rightarrow> (scheduler_state, unit) action" where
  "close_sessions ev =
     bind_action (read_state (\<lambda>s. map fst (sd_sessions s))) (\<lambda>idents.
     bind_action (settle_sessions ev idents) release_reserved)"

definition sweep_reusable :: "scheduler_env \<Rightarrow> scheduler_state \<Rightarrow> scheduled_reusable \<Rightarrow> scheduled_reusable" where
  "sweep_reusable ev s u =
     (let u = u\<lparr>su_closing := (su_closing u \<or> sd_closing s \<or> su_pool_id u \<in> set (closed_pools s))\<rparr> in
      if su_closing u \<and> su_active u = None \<and> (case su_lease u of None \<Rightarrow> False | Some l \<Rightarrow> \<not> ev_plan ev l)
      then u\<lparr>su_retiring := True, su_lease := None\<rparr> else u)"

definition reusable_to_finalize :: "scheduler_env \<Rightarrow> scheduler_state \<Rightarrow> string list" where
  "reusable_to_finalize ev s = map fst (filter (\<lambda>e. case snd e of u \<Rightarrow>
     (su_closing u \<or> sd_closing s \<or> su_pool_id u \<in> set (closed_pools s)) \<and> su_active u = None \<and>
     (case su_lease u of None \<Rightarrow> False | Some l \<Rightarrow> ev_plan ev l)) (sd_reusable_instances s))"

fun expire_all :: "scheduler_env \<Rightarrow> string list \<Rightarrow> (scheduler_state, unit) action" where
  "expire_all ev [] = ret ()"
| "expire_all ev (pool_id # pools) = bind_action (reusable_expire ev pool_id) (\<lambda>_. expire_all ev pools)"

definition maintain_reusable :: "scheduler_env \<Rightarrow> (scheduler_state, unit) action" where
  "maintain_reusable ev =
     bind_action (read_state (\<lambda>s. map fst (sd_pools s))) (\<lambda>pools.
     bind_action (expire_all ev pools) (\<lambda>_.
     bind_action (read_state (reusable_to_finalize ev)) (\<lambda>finalizing.
     bind_action (write_state (\<lambda>s. s\<lparr>sd_reusable_instances := map (\<lambda>(ident, u). (ident, sweep_reusable ev s u)) (sd_reusable_instances s)\<rparr>)) (\<lambda>_.
     schedule_all (schedule_reusable_closing ev) finalizing))))"

definition retired_reusable :: "string \<Rightarrow> module_release \<Rightarrow> (scheduler_state, unit) action" where
  "retired_reusable ident release =
     (case release of
        ReturnedToPool \<Rightarrow> fail (sched_internal ''scheduler-owned reusable lease returned to physical cache'')
      | NoInstance \<Rightarrow> modify_reusable ''retiring reusable instance'' ident (\<lambda>u. Ok (u\<lparr>su_retirement := None, su_retiring := False\<rparr>))
      | RetiringModule r \<Rightarrow> modify_reusable ''retiring reusable instance'' ident (\<lambda>u. Ok (u\<lparr>su_retirement := Some r, su_retiring := False\<rparr>)))"

definition reusable_drained :: "scheduler_env \<Rightarrow> scheduled_reusable \<Rightarrow> bool embedded_result" where
  "reusable_drained ev u =
     (if su_closing u \<and> su_active u = None \<and> su_lease u = None \<and> \<not> su_retiring u
      then (case su_retirement u of None \<Rightarrow> Ok True | Some r \<Rightarrow> ev_retired ev r) else Ok False)"

fun drained_instances :: "scheduler_env \<Rightarrow> (string, scheduled_reusable) btree \<Rightarrow> string list embedded_result" where
  "drained_instances ev [] = Ok []"
| "drained_instances ev ((ident, u) # us) =
     and_then (reusable_drained ev u) (\<lambda>b. and_then (drained_instances ev us) (\<lambda>rest. Ok (if b then ident # rest else rest)))"

fun remove_all_reusable :: "string list \<Rightarrow> (scheduler_state, unit) action" where
  "remove_all_reusable [] = ret ()"
| "remove_all_reusable (ident # idents) = bind_action (reusable_remove ident) (\<lambda>_. remove_all_reusable idents)"

definition reusable_prune :: "scheduler_env \<Rightarrow> (scheduler_state, unit) action" where
  "reusable_prune ev = bind_action (try_read (\<lambda>s. drained_instances ev (sd_reusable_instances s))) remove_all_reusable"

end
