(* ===== verification/Scheduler_Api.thy ===== *)
theory Scheduler_Api
  imports Scheduler_Completion
begin

text \<open>
  The calls of the embedded runtime's host (\<^verbatim>\<open>runtime/embedded/scheduler.rs\<close>,
  \<^verbatim>\<open>scheduler/{plugins,capacities,capacity_policy,sessions,reusable_status}.rs\<close>): registration of
  plugins, capacities and pools, submission, sessions, closing, forgetting and the status queries.
  Their answers from other components (the pool manager, the operation registry, prepared modules,
  serializers, controls) are arguments.
\<close>

section \<open>Plugins\<close>

definition register_plugin ::
  "embedded_runtime_config \<Rightarrow> serialization \<Rightarrow> string \<Rightarrow> embedded_plugin_config \<Rightarrow> (scheduler_state, unit) action" where
  "register_plugin cfg ident_json plugin config =
     bind_action (from_result (plugin_config_validate config cfg)) (\<lambda>_.
     bind_action (require (\<not> trim_is_empty plugin) (error_invalid ''plugin identity must be nonempty'')) (\<lambda>_.
     bind_action (from_result (json_size ident_json (max_value_bytes cfg))) (\<lambda>_.
     bind_action (require_state (\<lambda>s. \<not> sd_closing s) sched_closed) (\<lambda>_.
     bind_action (require_state (\<lambda>s. \<not> bt_contains (sd_plugins s) plugin) (error_new Busy ''plugin is already registered'')) (\<lambda>_.
     bind_action (require_state (\<lambda>s. length (sd_plugins s) < max_registered_plugins cfg) (sched_capacity ''retained plugin capacity reached'')) (\<lambda>_.
     write_state (\<lambda>s. s\<lparr>sd_plugins := bt_insert plugin
       \<lparr>sg_config = config, sg_queued = 0, sg_bytes = 0, sg_operations = 0, sg_reserved_operations = 0, sg_closing = False\<rparr> (sd_plugins s)\<rparr>)))))))"

text \<open>\<open>close_members\<close> marks the pools that satisfy a predicate as closed; closing the physical pools follows outside the lock.\<close>

definition close_members :: "(scheduled_pool \<Rightarrow> bool) \<Rightarrow> scheduler_state \<Rightarrow> scheduler_state" where
  "close_members P s = s\<lparr>sd_pools := map (\<lambda>(ident, p). (ident, if P p then p\<lparr>sp_closed := True\<rparr> else p)) (sd_pools s)\<rparr>"

fun first_failure :: "unit embedded_result list \<Rightarrow> unit embedded_result" where
  "first_failure [] = Ok ()"
| "first_failure (Err e # rs) = (case first_failure rs of Panic p \<Rightarrow> Panic p | _ \<Rightarrow> Err e)"
| "first_failure (Panic p # rs) = Panic p"
| "first_failure (Ok _ # rs) = first_failure rs"

definition members :: "(scheduled_pool \<Rightarrow> bool) \<Rightarrow> scheduler_state \<Rightarrow> string list" where
  "members P s = map fst (filter (\<lambda>e. P (snd e)) (sd_pools s))"

definition close_plugin :: "(string \<Rightarrow> unit embedded_result) \<Rightarrow> string \<Rightarrow> (scheduler_state, unit) action" where
  "close_plugin close plugin =
     bind_action (try_read (\<lambda>s. ok_or plugin_not_found (bt_get (sd_plugins s) plugin))) (\<lambda>g.
     bind_action (write_state (\<lambda>s. s\<lparr>sd_plugins := bt_insert plugin (g\<lparr>sg_closing := True\<rparr>) (sd_plugins s)\<rparr>)) (\<lambda>_.
     bind_action (write_state (close_members (\<lambda>p. sp_plugin_id p = plugin))) (\<lambda>_.
     try_read (\<lambda>s. first_failure (map close (members (\<lambda>p. sp_plugin_id p = plugin) s))))))"

definition forget_plugin :: "string \<Rightarrow> (scheduler_state, unit) action" where
  "forget_plugin plugin =
     bind_action (try_read (\<lambda>s. ok_or plugin_not_found (bt_get (sd_plugins s) plugin))) (\<lambda>g.
     bind_action (require_state (\<lambda>s. (sg_closing g \<or> sd_closing s) \<and> sg_operations g = 0 \<and> sg_reserved_operations g = 0
         \<and> list_all (\<lambda>p. sp_plugin_id p \<noteq> plugin) (bt_values (sd_pools s))
         \<and> list_all (\<lambda>k. sk_plugin_id k \<noteq> plugin) (bt_values (sd_capacities s)))
       (error_new Busy ''plugin ownership or retained records have not drained'')) (\<lambda>_.
     write_state (\<lambda>s. s\<lparr>sd_plugins := bt_remove plugin (sd_plugins s)\<rparr>)))"

fun count_sessions :: "scheduler_state \<Rightarrow> string \<Rightarrow> scheduled_session list \<Rightarrow> usize embedded_result" where
  "count_sessions s plugin [] = Ok 0"
| "count_sessions s plugin (ss # rest) =
     and_then (expect ''retained session owns a retained pool'' (bt_get (sd_pools s) (ss_pool_id ss))) (\<lambda>p.
     and_then (count_sessions s plugin rest) (\<lambda>n. Ok (if sp_plugin_id p = plugin then n + 1 else n)))"

definition plugin_sessions :: "scheduler_state \<Rightarrow> string \<Rightarrow> usize embedded_result" where
  "plugin_sessions s plugin = count_sessions s plugin (bt_values (sd_sessions s))"

record embedded_plugin_snapshot =
  gs_plugin_id :: string
  gs_config :: embedded_plugin_config
  gs_resources :: pool_usage
  gs_committed_resident_vms :: usize
  gs_active_operations :: usize
  gs_queued_calls :: usize
  gs_queued_bytes :: usize
  gs_retained_pools :: usize
  gs_retained_sessions :: usize
  gs_retained_operations :: usize
  gs_reserved_operations :: usize
  gs_closing :: bool

definition add_resource :: "usize \<Rightarrow> usize \<Rightarrow> usize embedded_result" where
  "add_resource n k = ok_or (sched_internal ''plugin resource count overflow'') (checked_add n k)"

fun sum_usage :: "scheduler_env \<Rightarrow> string list \<Rightarrow> pool_usage \<Rightarrow> pool_usage embedded_result" where
  "sum_usage ev [] acc = Ok acc"
| "sum_usage ev (ident # idents) acc =
     and_then (ev_usage ev ident) (\<lambda>u.
     and_then (add_resource (resident acc) (resident u)) (\<lambda>r.
     and_then (add_resource (creating acc) (creating u)) (\<lambda>c.
     and_then (add_resource (idle acc) (idle u)) (\<lambda>i.
     and_then (add_resource (running acc) (running u)) (\<lambda>x.
     and_then (add_resource (retiring acc) (retiring u)) (\<lambda>t.
     sum_usage ev idents \<lparr>resident = r, creating = c, idle = i, running = x, retiring = t\<rparr>))))))"

definition plugin_snapshot :: "scheduler_env \<Rightarrow> string \<Rightarrow> scheduler_state \<Rightarrow> embedded_plugin_snapshot embedded_result" where
  "plugin_snapshot ev plugin s =
     and_then (ok_or plugin_not_found (bt_get (sd_plugins s) plugin)) (\<lambda>g.
     and_then (sum_usage ev (members (\<lambda>p. sp_plugin_id p = plugin) s) pool_usage_default) (\<lambda>resources.
     and_then (plugin_commitment ev s plugin None) (\<lambda>committed.
     and_then (plugin_sessions s plugin) (\<lambda>sessions.
     Ok \<lparr>gs_plugin_id = plugin, gs_config = sg_config g, gs_resources = resources, gs_committed_resident_vms = committed,
       gs_active_operations = plugin_active s plugin, gs_queued_calls = sg_queued g, gs_queued_bytes = sg_bytes g,
       gs_retained_pools = length (members (\<lambda>p. sp_plugin_id p = plugin) s), gs_retained_sessions = sessions,
       gs_retained_operations = sg_operations g, gs_reserved_operations = sg_reserved_operations g,
       gs_closing = (sg_closing g \<or> sd_closing s)\<rparr>))))"

section \<open>Capacities\<close>

definition embedded_capacity_validate ::
  "embedded_capacity_config \<Rightarrow> embedded_runtime_config \<Rightarrow> embedded_plugin_config \<Rightarrow> unit embedded_result" where
  "embedded_capacity_validate c parent plugin =
     and_then (plugin_config_validate plugin parent) (\<lambda>_.
     and_then (capacity_config_validate (ccf_resources c) parent) (\<lambda>_.
       if cap_max_resident_vms (ccf_resources c) > plg_max_resident_vms plugin
         \<or> cap_max_running_calls (ccf_resources c) > plg_max_running_calls plugin
         \<or> ccf_max_queued_calls c = 0 \<or> ccf_max_queued_calls c > plg_max_queued_calls plugin
         \<or> ccf_max_queued_bytes c = 0 \<or> ccf_max_queued_bytes c > plg_max_queued_bytes plugin
       then Err (error_invalid ''capacity limits are outside the plugin budget'')
       else Ok ()))"

definition next_sequence :: "string \<Rightarrow> scheduler_state \<Rightarrow> u64 embedded_result" where
  "next_sequence message s = ok_or (sched_internal message) (checked_add (sd_sequence s) 1)"

definition sched_register_capacity_check ::
  "scheduler_env \<Rightarrow> embedded_runtime_config \<Rightarrow> string \<Rightarrow> embedded_capacity_config \<Rightarrow> scheduler_state \<Rightarrow> u64 embedded_result" where
  "sched_register_capacity_check ev cfg plugin config s =
     (if sd_closing s then Err sched_closed
      else
        and_then (ok_or sched_not_found (bt_get (sd_plugins s) plugin)) (\<lambda>g.
        if sg_closing g then Err sched_closed
        else
          and_then (embedded_capacity_validate config cfg (sg_config g)) (\<lambda>_.
          if length (sd_capacities s) \<ge> max_registered_pools cfg
            \<or> length (filter (\<lambda>k. sk_plugin_id k = plugin) (bt_values (sd_capacities s))) \<ge> plg_max_registered_pools (sg_config g)
          then Err (sched_capacity ''retained capacity registration limit reached'')
          else
            and_then (plugin_commitment ev s plugin None) (\<lambda>committed.
            if cap_min_resident_vms (ccf_resources config) > saturating_sub (plg_max_resident_vms (sg_config g)) committed
            then Err (sched_capacity ''capacity reservations exceed plugin resident budget'')
            else next_sequence ''capacity identity exhausted'' s))))"

definition sched_register_capacity ::
  "scheduler_env \<Rightarrow> embedded_runtime_config \<Rightarrow> string \<Rightarrow> (string \<Rightarrow> vm_capacity_config \<Rightarrow> unit embedded_result) \<Rightarrow> string \<Rightarrow> embedded_capacity_config \<Rightarrow> (scheduler_state, string) action" where
  "sched_register_capacity ev cfg runtime physical plugin config =
     bind_action (try_read (sched_register_capacity_check ev cfg plugin config)) (\<lambda>sequence.
     let ident = identity_render CapacityIdentity runtime sequence in
     bind_action (from_result (physical ident (ccf_resources config))) (\<lambda>_.
     bind_action (write_state (\<lambda>s. s\<lparr>sd_sequence := sequence, sd_capacities := bt_insert ident
       \<lparr>sk_plugin_id = plugin, sk_config = config, sk_policy_revision = sequence, sk_closing = False\<rparr> (sd_capacities s)\<rparr>)) (\<lambda>_.
     ret ident)))"

definition close_capacity :: "(string \<Rightarrow> unit embedded_result) \<Rightarrow> string \<Rightarrow> (scheduler_state, unit) action" where
  "close_capacity close capacity =
     bind_action (try_read (\<lambda>s. ok_or sched_not_found (bt_get (sd_capacities s) capacity))) (\<lambda>k.
     bind_action (write_state (\<lambda>s. s\<lparr>sd_capacities := bt_insert capacity (k\<lparr>sk_closing := True\<rparr>) (sd_capacities s)\<rparr>)) (\<lambda>_.
     bind_action (write_state (close_members (\<lambda>p. sp_capacity_id p = Some capacity))) (\<lambda>_.
     try_read (\<lambda>s. first_failure (map close (members (\<lambda>p. sp_capacity_id p = Some capacity) s))))))"

definition capacity_owner_closing :: "scheduler_state \<Rightarrow> scheduled_capacity \<Rightarrow> bool embedded_result" where
  "capacity_owner_closing s k =
     (if sk_closing k \<or> sd_closing s then Ok True
      else and_then (expect ''capacity retains plugin'' (bt_get (sd_plugins s) (sk_plugin_id k))) (\<lambda>g. Ok (sg_closing g)))"

definition forget_capacity :: "(string \<Rightarrow> unit embedded_result) \<Rightarrow> string \<Rightarrow> (scheduler_state, unit) action" where
  "forget_capacity unregister capacity =
     bind_action (try_read (\<lambda>s. ok_or sched_not_found (bt_get (sd_capacities s) capacity))) (\<lambda>k.
     bind_action (try_read (\<lambda>s. capacity_owner_closing s k)) (\<lambda>closing.
     bind_action (require_state (\<lambda>s. closing \<and> list_all (\<lambda>p. sp_capacity_id p \<noteq> Some capacity) (bt_values (sd_pools s)))
       (error_new Busy ''capacity ownership has not drained'')) (\<lambda>_.
     bind_action (from_result (unregister capacity)) (\<lambda>_.
     write_state (\<lambda>s. s\<lparr>sd_capacities := bt_remove capacity (sd_capacities s)\<rparr>)))))"

definition validate_capacity_member :: "string \<Rightarrow> string \<Rightarrow> plugin_pool_config \<Rightarrow> scheduler_state \<Rightarrow> unit embedded_result" where
  "validate_capacity_member capacity plugin policy s =
     and_then (ok_or sched_not_found (bt_get (sd_capacities s) capacity)) (\<lambda>k.
       let c = sk_config k in
       if sk_plugin_id k \<noteq> plugin then Err (error_invalid ''capacity and module plugin ownership differ'')
       else if sk_closing k then Err sched_closed
       else if pool_kind_of policy \<noteq> cap_kind (ccf_resources c) \<or> pool_min_resident_vms policy \<noteq> 0
         \<or> pool_max_resident_vms policy > cap_max_resident_vms (ccf_resources c)
         \<or> pool_max_running_calls policy > cap_max_running_calls (ccf_resources c)
         \<or> pool_max_queued_calls policy > ccf_max_queued_calls c
       then Err (error_invalid ''module policy conflicts with its capacity owner'')
       else Ok ())"

record embedded_capacity_snapshot =
  ks_capacity_id :: string
  ks_plugin_id :: string
  ks_config :: embedded_capacity_config
  ks_resources :: pool_usage
  ks_committed_resident_vms :: usize
  ks_active_operations :: usize
  ks_queued_calls :: usize
  ks_queued_bytes :: usize
  ks_retained_pools :: usize
  ks_closing :: bool

definition sched_capacity_snapshot ::
  "(string \<Rightarrow> vm_capacity_snapshot embedded_result) \<Rightarrow> string \<Rightarrow> scheduler_state \<Rightarrow> embedded_capacity_snapshot embedded_result" where
  "sched_capacity_snapshot physical capacity s =
     and_then (ok_or sched_not_found (bt_get (sd_capacities s) capacity)) (\<lambda>k.
     and_then (physical capacity) (\<lambda>ph.
     and_then (capacity_queue s capacity) (\<lambda>(queued, bytes).
     and_then (capacity_owner_closing s k) (\<lambda>closing.
     Ok \<lparr>ks_capacity_id = capacity, ks_plugin_id = sk_plugin_id k, ks_config = sk_config k, ks_resources = snap_resources ph,
       ks_committed_resident_vms = snap_committed_resident_vms ph, ks_active_operations = capacity_active s capacity,
       ks_queued_calls = queued, ks_queued_bytes = bytes,
       ks_retained_pools = length (members (\<lambda>p. sp_capacity_id p = Some capacity) s), ks_closing = closing\<rparr>))))"

record embedded_capacity_policy_snapshot =
  cps_revision :: string
  cps_capacity :: embedded_capacity_snapshot
  cps_pending_convergence :: bool

definition capacity_policy ::
  "(string \<Rightarrow> vm_capacity_snapshot embedded_result) \<Rightarrow> string \<Rightarrow> scheduler_state \<Rightarrow> embedded_capacity_policy_snapshot embedded_result" where
  "capacity_policy physical capacity s =
     and_then (sched_capacity_snapshot physical capacity s) (\<lambda>snap.
     and_then (expect ''snapshot retains capacity'' (bt_get (sd_capacities s) capacity)) (\<lambda>k.
     let r = ccf_resources (ks_config snap) in
     Ok \<lparr>cps_revision = show_nat (sk_policy_revision k), cps_capacity = snap,
       cps_pending_convergence = (resident (ks_resources snap) > cap_max_resident_vms r \<or> running (ks_resources snap) > cap_max_running_calls r
         \<or> ks_active_operations snap > cap_max_running_calls r \<or> ks_queued_calls snap > ccf_max_queued_calls (ks_config snap)
         \<or> ks_queued_bytes snap > ccf_max_queued_bytes (ks_config snap))\<rparr>))"

text \<open>\<open>None\<close> answers the current revision: nothing changes.\<close>

definition revise_check ::
  "scheduler_env \<Rightarrow> embedded_runtime_config \<Rightarrow> string \<Rightarrow> string \<Rightarrow> embedded_capacity_config \<Rightarrow> scheduler_state \<Rightarrow> (scheduled_capacity \<times> u64 option) embedded_result" where
  "revise_check ev cfg capacity expected config s =
     and_then (ok_or sched_not_found (bt_get (sd_capacities s) capacity)) (\<lambda>k.
     and_then (expect ''capacity retains plugin'' (bt_get (sd_plugins s) (sk_plugin_id k))) (\<lambda>g.
       if sd_closing s \<or> sk_closing k \<or> sg_closing g then Err sched_closed
       else if show_nat (sk_policy_revision k) \<noteq> expected then Err (error_new Busy ''capacity policy revision conflict'')
       else
         and_then (embedded_capacity_validate config cfg (sg_config g)) (\<lambda>_.
         if sk_config k = config then Ok (k, None)
         else if cap_max_running_calls (ccf_resources config) < cap_max_running_calls (ccf_resources (sk_config k))
           \<and> capacity_active s capacity > cap_max_running_calls (ccf_resources config)
         then Err (error_new Busy ''dispatched operations must drain before lowering the execution limit'')
         else
           and_then (plugin_commitment_with_capacity ev s (sk_plugin_id k) None (Some (capacity, cap_min_resident_vms (ccf_resources config)))) (\<lambda>committed.
           if committed > plg_max_resident_vms (sg_config g) then Err (sched_capacity ''revised reservations exceed plugin resident budget'')
           else and_then (next_sequence ''capacity policy revision exhausted'' s) (\<lambda>n. Ok (k, Some n))))))"

definition retire_members :: "string \<Rightarrow> scheduler_state \<Rightarrow> scheduler_state" where
  "retire_members capacity s = s\<lparr>sd_reusable_instances :=
     map (\<lambda>(ident, u). (ident, if su_pool_id u \<in> set (members (\<lambda>p. sp_capacity_id p = Some capacity) s) then u\<lparr>su_closing := True\<rparr> else u)) (sd_reusable_instances s)\<rparr>"

definition sched_revise_capacity ::
  "scheduler_env \<Rightarrow> embedded_runtime_config \<Rightarrow> (string \<Rightarrow> vm_capacity_config \<Rightarrow> unit embedded_result) \<Rightarrow> string \<Rightarrow> string \<Rightarrow> embedded_capacity_config \<Rightarrow> (scheduler_state, string) action" where
  "sched_revise_capacity ev cfg physical capacity expected config =
     bind_action (try_read (revise_check ev cfg capacity expected config)) (\<lambda>(k, revision).
       case revision of
         None \<Rightarrow> ret (show_nat (sk_policy_revision k))
       | Some sequence \<Rightarrow>
           bind_action (from_result (physical capacity (ccf_resources config))) (\<lambda>_.
           bind_action (write_state (\<lambda>s. s\<lparr>sd_sequence := sequence,
             sd_capacities := bt_insert capacity (k\<lparr>sk_config := config, sk_policy_revision := sequence\<rparr>) (sd_capacities s)\<rparr>)) (\<lambda>_.
           bind_action (write_state (\<lambda>s.
             if cap_max_resident_vms (ccf_resources config) < cap_max_resident_vms (ccf_resources (sk_config k)) then retire_members capacity s else s)) (\<lambda>_.
           ret (show_nat sequence)))))"


text \<open>
  Registration of pools, submission, sessions and shutdown (\<^verbatim>\<open>runtime/embedded/scheduler.rs\<close>,
  \<^verbatim>\<open>scheduler/sessions.rs\<close>, \<^verbatim>\<open>scheduler/reusable_status.rs\<close>).
\<close>

section \<open>Pools\<close>

definition validate_plugin_pool :: "scheduler_env \<Rightarrow> string \<Rightarrow> plugin_pool_config \<Rightarrow> scheduler_state \<Rightarrow> unit embedded_result" where
  "validate_plugin_pool ev plugin policy s =
     and_then (ok_or plugin_not_found (bt_get (sd_plugins s) plugin)) (\<lambda>g.
       if sg_closing g then Err sched_closed
       else
         and_then (plugin_validate_pool (sg_config g) policy) (\<lambda>_.
         if length (members (\<lambda>p. sp_plugin_id p = plugin) s) \<ge> plg_max_registered_pools (sg_config g)
         then Err (sched_capacity ''plugin retained pool capacity reached'')
         else
           and_then (plugin_commitment ev s plugin None) (\<lambda>committed.
           if pool_min_resident_vms policy > saturating_sub (plg_max_resident_vms (sg_config g)) committed
           then Err (sched_capacity ''dedicated reservations exceed plugin resident capacity'')
           else Ok ())))"

text \<open>
  What registration takes from the module: the plugin it names, the input contracts of its exports
  and its finalizer; \<open>prepared\<close> is what preparing the definition answers.
\<close>

record prepared_module =
  pm_plugin_id :: string
  pm_inputs :: "(string, json_contract) btree"
  pm_finalizer :: bool

datatype pool_placement = IndependentPlacement string | CapacityPlacement string string

definition register_pool_check ::
  "scheduler_env \<Rightarrow> embedded_runtime_config \<Rightarrow> prepared_module \<Rightarrow> plugin_pool_config \<Rightarrow> string option \<Rightarrow> scheduler_state \<Rightarrow> u64 embedded_result" where
  "register_pool_check ev cfg module policy capacity s =
     (if sd_closing s then Err sched_closed
      else
        and_then (case capacity of None \<Rightarrow> Ok () | Some k \<Rightarrow> validate_capacity_member k (pm_plugin_id module) policy s) (\<lambda>_.
        and_then (validate_plugin_pool ev (pm_plugin_id module) policy s) (\<lambda>_.
        if length (sd_pools s) \<ge> max_registered_pools cfg then Err (sched_capacity ''retained pool capacity reached'')
        else next_sequence ''pool identity exhausted'' s)))"

definition register_pool_with_binding ::
  "scheduler_env \<Rightarrow> embedded_runtime_config \<Rightarrow> string \<Rightarrow> serialization option \<Rightarrow> unit embedded_result \<Rightarrow> prepared_module embedded_result
    \<Rightarrow> (pool_placement \<Rightarrow> unit embedded_result) \<Rightarrow> plugin_pool_config \<Rightarrow> string option \<Rightarrow> (scheduler_state, string) action" where
  "register_pool_with_binding ev cfg runtime finalizer_json snapshot_valid prepared create policy capacity =
     bind_action (from_result (pool_config_validate policy cfg)) (\<lambda>_.
     bind_action (from_result (case finalizer_json of None \<Rightarrow> Ok 0 | Some json \<Rightarrow> json_size json (max_value_bytes cfg))) (\<lambda>_.
     bind_action (from_result snapshot_valid) (\<lambda>_.
     bind_action (from_result prepared) (\<lambda>module.
     bind_action (try_read (register_pool_check ev cfg module policy capacity)) (\<lambda>sequence.
     let ident = identity_render PoolIdentity runtime sequence in
     bind_action (from_result (create (case capacity of None \<Rightarrow> IndependentPlacement ident | Some k \<Rightarrow> CapacityPlacement ident k))) (\<lambda>_.
     bind_action (write_state (\<lambda>s. s\<lparr>sd_sequence := sequence, sd_pools := bt_insert ident
       \<lparr>sp_inputs = pm_inputs module, sp_policy = policy, sp_finalizer = pm_finalizer module, sp_plugin_id = pm_plugin_id module,
        sp_capacity_id = capacity, sp_queued = 0, sp_active = 0, sp_closed = False\<rparr> (sd_pools s)\<rparr>)) (\<lambda>_.
     ret ident)))))))"

definition close_pool :: "(string \<Rightarrow> unit embedded_result) \<Rightarrow> string \<Rightarrow> (scheduler_state, unit) action" where
  "close_pool close pool_id =
     bind_action (try_read (\<lambda>s. ok_or sched_not_found (bt_get (sd_pools s) pool_id))) (\<lambda>p.
     bind_action (write_state (\<lambda>s. s\<lparr>sd_pools := bt_insert pool_id (p\<lparr>sp_closed := True\<rparr>) (sd_pools s)\<rparr>)) (\<lambda>_.
     from_result (close pool_id)))"

definition pool_undrained :: "scheduler_env \<Rightarrow> string \<Rightarrow> scheduler_state \<Rightarrow> bool embedded_result" where
  "pool_undrained ev pool_id s =
     and_then (ok_or sched_not_found (bt_get (sd_pools s) pool_id)) (\<lambda>p.
       if \<not> sp_closed p \<or> sp_queued p \<noteq> 0 \<or> sp_active p \<noteq> 0 then Ok True
       else
         and_then (ev_usage ev pool_id) (\<lambda>u.
         Ok (resident u \<noteq> 0 \<or> list_ex (\<lambda>ss. ss_pool_id ss = pool_id) (bt_values (sd_sessions s))
           \<or> list_ex (\<lambda>i. su_pool_id i = pool_id) (bt_values (sd_reusable_instances s)))))"

definition forget_pool :: "scheduler_env \<Rightarrow> string \<Rightarrow> (scheduler_state, unit) action" where
  "forget_pool ev pool_id =
     bind_action (reusable_prune ev) (\<lambda>_.
     bind_action (try_read (pool_undrained ev pool_id)) (\<lambda>busy.
     bind_action (require (\<not> busy) (error_new Busy ''pool ownership has not drained'')) (\<lambda>_.
     write_state (\<lambda>s. s\<lparr>sd_pools := bt_remove pool_id (sd_pools s)\<rparr>))))"

record embedded_reusable_pool_snapshot =
  rs_pool_id :: string
  rs_ready :: usize
  rs_unavailable :: usize
  rs_physical :: pool_usage
  rs_max_resident_vms :: usize
  rs_closing :: bool
  rs_admission_blocked :: bool

definition reusable_pool_status :: "scheduler_env \<Rightarrow> string \<Rightarrow> (scheduler_state, embedded_reusable_pool_snapshot) action" where
  "reusable_pool_status ev pool_id =
     bind_action (try_read (\<lambda>s. ok_or sched_not_found (bt_get (sd_pools s) pool_id))) (\<lambda>p.
     bind_action (require (pool_reuse (sp_policy p) = Reusable) (error_invalid ''reusable status requires an explicitly reusable pool'')) (\<lambda>_.
     bind_action (reusable_expire ev pool_id) (\<lambda>_.
     bind_action (try_read (\<lambda>s. expect ''validated reusable pool'' (bt_get (sd_pools s) pool_id))) (\<lambda>p.
     try_read (\<lambda>s.
       let closing = (sd_closing s \<or> sp_closed p);
           blocked = (sd_failure s \<noteq> None \<or> sd_shared_checkpoint_failed s \<or> sd_persistence_failures s \<noteq> []);
           ready = (if closing \<or> blocked then 0 else idle_in_pool s pool_id);
           retained = length (filter (\<lambda>u. su_pool_id u = pool_id) (bt_values (sd_reusable_instances s))) in
       and_then (decrease retained ready) (\<lambda>unavailable.
       and_then (ev_usage ev pool_id) (\<lambda>u.
       Ok \<lparr>rs_pool_id = pool_id, rs_ready = ready, rs_unavailable = unavailable, rs_physical = u,
         rs_max_resident_vms = pool_max_resident_vms (sp_policy p), rs_closing = closing, rs_admission_blocked = blocked\<rparr>)))))))"

section \<open>Submission\<close>

text \<open>What a submission takes from other components: the shutdown gate, its control and the serializers.\<close>

record submission_env =
  sv_submission :: "unit embedded_result"
  sv_control :: "sched_control embedded_result"
  sv_value :: "json_value \<Rightarrow> serialization"
  sv_call :: "embedded_call \<Rightarrow> serialization"
  sv_prewarm :: "embedded_prewarm \<Rightarrow> serialization"
  sv_request :: "scheduled_request \<Rightarrow> serialization"

definition sched_submit :: "submission_env \<Rightarrow> scheduler_env \<Rightarrow> embedded_runtime_config \<Rightarrow> embedded_call \<Rightarrow> (scheduler_state, string) action" where
  "sched_submit sv ev cfg request =
     bind_action (from_result (sv_submission sv)) (\<lambda>_.
     bind_action (from_result (sv_control sv)) (\<lambda>control.
     bind_action (from_result (json_size (sv_value sv (ec_arguments request)) (max_value_bytes cfg))) (\<lambda>_.
     bind_action (from_result (json_size (sv_call sv request) (max_queued_bytes cfg))) (\<lambda>bytes.
     bind_action (try_read (\<lambda>s. ok_or sched_not_found (bt_get (sd_pools s) (ec_pool_id request)))) (\<lambda>p.
     bind_action (require (pool_reuse (sp_policy p) \<noteq> Session) (error_invalid ''session pools require an explicit session'')) (\<lambda>_.
     sched_enqueue ev cfg (Invoke request) control bytes))))))"

definition prewarm_instance :: "submission_env \<Rightarrow> scheduler_env \<Rightarrow> embedded_runtime_config \<Rightarrow> embedded_prewarm \<Rightarrow> (scheduler_state, string) action" where
  "prewarm_instance sv ev cfg request =
     bind_action (from_result (sv_submission sv)) (\<lambda>_.
     bind_action (from_result (sv_control sv)) (\<lambda>control.
     bind_action (from_result (json_size (sv_prewarm sv request) (max_queued_bytes cfg))) (\<lambda>bytes.
     bind_action (try_read (\<lambda>s. ok_or sched_not_found (bt_get (sd_pools s) (ep_pool_id request)))) (\<lambda>p.
     bind_action (require (pool_reuse (sp_policy p) = Reusable) (error_invalid ''prewarm requires an explicitly reusable pool'')) (\<lambda>_.
     sched_enqueue ev cfg (Prewarm request) control bytes)))))"

definition sched_forget_operation :: "(string \<Rightarrow> unit embedded_result) \<Rightarrow> string \<Rightarrow> (scheduler_state, unit) action" where
  "sched_forget_operation forget ident =
     bind_action (try_read (\<lambda>s. ok_or operation_not_retained (bt_get (sd_operation_plugins s) ident))) (\<lambda>plugin.
     bind_action (from_result (forget ident)) (\<lambda>_.
     bind_action (write_state (\<lambda>s. s\<lparr>sd_operation_plugins := bt_remove ident (sd_operation_plugins s)\<rparr>)) (\<lambda>_.
     modify_plugin ''retained operation owns a registered plugin'' plugin (\<lambda>g.
       and_then (decrease (sg_operations g) 1) (\<lambda>n. Ok (g\<lparr>sg_operations := n\<rparr>))))))"

section \<open>Sessions\<close>

definition open_check :: "embedded_runtime_config \<Rightarrow> string \<Rightarrow> scheduler_state \<Rightarrow> (scheduled_pool \<times> scheduled_plugin) embedded_result" where
  "open_check cfg pool_id s =
     (if sd_closing s then Err sched_closed
      else
        and_then (check_persistence_admission s) (\<lambda>_.
        if length (sd_sessions s) \<ge> max_sessions cfg then Err (sched_capacity ''retained session capacity reached'')
        else
          and_then (ok_or sched_not_found (bt_get (sd_pools s) pool_id)) (\<lambda>p.
          if sp_closed p then Err sched_closed
          else if pool_reuse (sp_policy p) \<noteq> Session then Err (error_invalid ''pool does not declare session reuse'')
          else
            and_then (expect ''registered pool owns plugin policy'' (bt_get (sd_plugins s) (sp_plugin_id p))) (\<lambda>g.
            if sg_closing g then Err sched_closed
            else
              and_then (plugin_sessions s (sp_plugin_id p)) (\<lambda>n.
              if n \<ge> plg_max_sessions (sg_config g) then Err (sched_capacity ''plugin retained session capacity reached'')
              else
                and_then (if sp_finalizer p
                    then and_then (decrease (plg_max_operations (sg_config g)) (sg_reserved_operations g)) (\<lambda>free. Ok (sg_operations g \<ge> free))
                    else Ok False) (\<lambda>full.
                if full then Err (sched_capacity ''plugin operation retention capacity reached'') else Ok (p, g)))))))"

definition change_reserved :: "string \<Rightarrow> (usize \<Rightarrow> usize embedded_result) \<Rightarrow> (scheduler_state, unit) action" where
  "change_reserved plugin f = modify_plugin ''registered plugin'' plugin (\<lambda>g. and_then (f (sg_reserved_operations g)) (\<lambda>n. Ok (g\<lparr>sg_reserved_operations := n\<rparr>)))"

definition new_session :: "bool \<Rightarrow> string \<Rightarrow> module_lease \<Rightarrow> scheduled_session" where
  "new_session reserved pool_id lease =
     \<lparr>ss_finalization_reservation = reserved, ss_finalization_operation = None, ss_finalization_context = context_default, ss_pool_id = pool_id,
      ss_lease = Some lease, ss_active = None, ss_queued = 0, ss_unfinished = 0, ss_opened = False, ss_closing = False, ss_closed = False,
      ss_retiring = False, ss_retirement = None, ss_error = None\<rparr>"

text \<open>A rejected opening gives back its reservation and its session.\<close>

definition enqueue_opening ::
  "scheduler_env \<Rightarrow> embedded_runtime_config \<Rightarrow> bool \<Rightarrow> string \<Rightarrow> string \<Rightarrow> string \<Rightarrow> sched_control \<Rightarrow> usize \<Rightarrow> (scheduler_state, string) action" where
  "enqueue_opening ev cfg reserved plugin pool_id session control bytes =
     bind_action (catch_action (sched_enqueue ev cfg (OpenSession pool_id session) control bytes)) (\<lambda>r.
       case r of
         Inr operation \<Rightarrow> ret operation
       | Inl e \<Rightarrow>
           bind_action (if reserved then change_reserved plugin (\<lambda>n. decrease n 1) else ret ()) (\<lambda>_.
           bind_action (write_state (\<lambda>s. s\<lparr>sd_sessions := bt_remove session (sd_sessions s)\<rparr>)) (\<lambda>_.
           fail e)))"

definition open_session ::
  "submission_env \<Rightarrow> scheduler_env \<Rightarrow> embedded_runtime_config \<Rightarrow> string \<Rightarrow> string \<Rightarrow> (scheduler_state, string \<times> string) action" where
  "open_session sv ev cfg runtime pool_id =
     bind_action (from_result (sv_submission sv)) (\<lambda>_.
     bind_action (from_result (sv_control sv)) (\<lambda>control.
     bind_action (try_read (open_check cfg pool_id)) (\<lambda>(p, g).
     bind_action (try_read (\<lambda>s. plugin_allows_allocation ev s pool_id)) (\<lambda>allow_new.
     bind_action (from_result (ev_prepare ev pool_id True allow_new)) (\<lambda>lease.
     bind_action (try_read (next_sequence ''session identity exhausted'')) (\<lambda>sequence.
     bind_action (write_state (\<lambda>s. s\<lparr>sd_sequence := sequence\<rparr>)) (\<lambda>_.
     let session = identity_render SessionIdentity runtime sequence in
     bind_action (from_result (json_size (sv_request sv (OpenSession pool_id session)) (max_queued_bytes cfg))) (\<lambda>bytes.
     bind_action (if sp_finalizer p
       then
         bind_action (from_result (and_then (ev_allocation_id ev lease) (ev_reserve ev pool_id (Some session)))) (\<lambda>_.
         change_reserved (sp_plugin_id p) (\<lambda>n. Ok (n + 1)))
       else ret ()) (\<lambda>_.
     bind_action (write_state (\<lambda>s. s\<lparr>sd_sessions := bt_insert session (new_session (sp_finalizer p) pool_id lease) (sd_sessions s)\<rparr>)) (\<lambda>_.
     bind_action (enqueue_opening ev cfg (sp_finalizer p) (sp_plugin_id p) pool_id session control bytes) (\<lambda>operation.
     ret (session, operation))))))))))))"

definition submit_session ::
  "submission_env \<Rightarrow> scheduler_env \<Rightarrow> embedded_runtime_config \<Rightarrow> string \<Rightarrow> string \<Rightarrow> json_value \<Rightarrow> invocation_context \<Rightarrow> (scheduler_state, string) action" where
  "submit_session sv ev cfg session export arguments context =
     bind_action (from_result (sv_submission sv)) (\<lambda>_.
     bind_action (from_result (sv_control sv)) (\<lambda>control.
     bind_action (from_result (json_size (sv_value sv arguments) (max_value_bytes cfg))) (\<lambda>_.
     bind_action (try_read (\<lambda>s. ok_or session_not_found (bt_get (sd_sessions s) session))) (\<lambda>ss.
     bind_action (require (\<not> ss_closing ss \<and> \<not> ss_closed ss) sched_closed) (\<lambda>_.
     bind_action (require (ss_opened ss) (error_new Busy ''session initialization is unfinished'')) (\<lambda>_.
     let request = InvokeSession session \<lparr>ec_pool_id = ss_pool_id ss, ec_export = export, ec_arguments = arguments, ec_context = context\<rparr> in
     bind_action (from_result (json_size (sv_request sv request) (max_queued_bytes cfg))) (\<lambda>bytes.
     sched_enqueue ev cfg request control bytes)))))))"

text \<open>Answers the control that is cancelled.\<close>

definition close_session :: "string \<Rightarrow> (scheduler_state, sched_control option) action" where
  "close_session session =
     bind_action (try_read (\<lambda>s. ok_or session_not_found (bt_get (sd_sessions s) session))) (\<lambda>ss.
     bind_action (write_state (\<lambda>s. s\<lparr>sd_sessions := bt_insert session (ss\<lparr>ss_closing := True\<rparr>) (sd_sessions s)\<rparr>)) (\<lambda>_.
     read_state (\<lambda>s. Option.bind (ss_active ss) (bt_get (sd_live s)))))"

record embedded_session_snapshot =
  es_session_id :: string
  es_pool_id :: string
  es_phase :: embedded_session_phase
  es_active_operation :: "string option"
  es_finalization_operation :: "string option"
  es_queued_calls :: usize
  es_error :: "embedded_error option"

definition session_snapshot :: "string \<Rightarrow> scheduler_state \<Rightarrow> embedded_session_snapshot embedded_result" where
  "session_snapshot session s =
     and_then (ok_or session_not_found (bt_get (sd_sessions s) session)) (\<lambda>ss.
     Ok \<lparr>es_session_id = session, es_pool_id = ss_pool_id ss, es_phase = session_phase ss, es_active_operation = ss_active ss,
       es_finalization_operation = ss_finalization_operation ss, es_queued_calls = ss_queued ss, es_error = ss_error ss\<rparr>)"

definition forget_session :: "string \<Rightarrow> (scheduler_state, unit) action" where
  "forget_session session =
     bind_action (try_read (\<lambda>s. ok_or session_not_found (bt_get (sd_sessions s) session))) (\<lambda>ss.
     bind_action (require (ss_closed ss) (error_new Busy ''session ownership has not drained'')) (\<lambda>_.
     write_state (\<lambda>s. s\<lparr>sd_sessions := bt_remove session (sd_sessions s)\<rparr>)))"

section \<open>Usage and shutdown\<close>

record embedded_runtime_usage =
  us_queued_calls :: usize
  us_queued_bytes :: usize
  us_active_operations :: usize
  us_cleaning_operations :: usize
  us_closing :: bool

definition sched_usage :: "scheduler_state \<Rightarrow> embedded_runtime_usage embedded_result" where
  "sched_usage s =
     and_then (decrease (length (sd_live s)) (sd_queued s)) (\<lambda>n.
     Ok \<lparr>us_queued_calls = sd_queued s, us_queued_bytes = sd_bytes s, us_active_operations = n,
       us_cleaning_operations = sd_cleaning_count s, us_closing = sd_closing s\<rparr>)"

text \<open>Shutdown begins: every live control is cancelled.\<close>

definition sched_request_close :: "scheduler_state \<Rightarrow> scheduler_state \<times> sched_control list" where
  "sched_request_close s = (s\<lparr>sd_closing := True\<rparr>, bt_values (sd_live s))"

text \<open>\<open>finished\<close> and \<open>joined\<close> are what the worker handles answer, \<open>pools\<close> what the pool manager does.\<close>

definition sched_poll_closed :: "bool \<Rightarrow> bool list \<Rightarrow> bool embedded_result \<Rightarrow> (scheduler_state, bool) action" where
  "sched_poll_closed finished joined pools s =
     (case sd_failure s of
        Some e \<Rightarrow> (Err e, s)
      | None \<Rightarrow>
          if \<not> sd_closing s \<or> sd_live s \<noteq> [] then (Ok False, s)
          else if \<not> finished then (Ok False, s)
          else if \<not> list_all (\<lambda>b. b) joined
          then (Err (sched_internal ''embedded worker panicked''), fst (sched_fail (sched_internal ''embedded worker panicked'') s))
          else (pools, s))"

end
