(* ===== verification/Scheduler_Inv.thy ===== *)
theory Scheduler_Inv
  imports Scheduler_Api "HOL-Library.Multiset"
begin

text \<open>
  The invariant of the scheduler. \<open>Q\<close> is the multiset of queued calls and \<open>F\<close> the multiset of calls in
  flight: with a worker, waiting for cleaning or finalization, or in the supervisor's hand. Every
  counter of the state is a function of the two.
\<close>

section \<open>Counting\<close>

definition cnt :: "('a \<Rightarrow> bool) \<Rightarrow> 'a multiset \<Rightarrow> nat" where
  "cnt P M = size (filter_mset P M)"

lemma cnt_simps [simp]:
  "cnt P {#} = 0"
  "cnt P (add_mset x M) = (if P x then Suc (cnt P M) else cnt P M)"
  "cnt P (M + N) = cnt P M + cnt P N"
  by (auto simp: cnt_def)

lemma cnt_image [simp]: "cnt P (image_mset f M) = cnt (\<lambda>x. P (f x)) M"
  by (induction M) auto

lemma cnt_zero_iff: "cnt P M = 0 \<longleftrightarrow> (\<forall>x \<in># M. \<not> P x)"
  by (auto simp: cnt_def filter_mset_eq_conv)

lemma cnt_pos: "x \<in># M \<Longrightarrow> P x \<Longrightarrow> 0 < cnt P M"
  using cnt_zero_iff [of P M] by auto

lemma cnt_cong: "(\<And>x. x \<in># M \<Longrightarrow> P x = R x) \<Longrightarrow> cnt P M = cnt R M"
  by (induction M) auto

section \<open>Updates of one entry\<close>

definition bt_update :: "('v \<Rightarrow> 'v) \<Rightarrow> 'k :: linorder \<Rightarrow> ('k, 'v) btree \<Rightarrow> ('k, 'v) btree" where
  "bt_update f k m = (case bt_get m k of None \<Rightarrow> m | Some v \<Rightarrow> bt_insert k (f v) m)"

lemma bt_get_update [simp]: "bt_get (bt_update f k m) j = (if j = k then map_option f (bt_get m k) else bt_get m j)"
  by (auto simp: bt_update_def split: option.splits)

lemma bt_wf_update [simp, intro]: "bt_wf m \<Longrightarrow> bt_wf (bt_update f k m)"
  by (auto simp: bt_update_def split: option.splits)

lemma sum_bt_update:
  fixes w :: "'k :: linorder \<times> 'v \<Rightarrow> nat"
  assumes "bt_wf m" "bt_get m k = Some v"
  shows "sum_list (map w (bt_update f k m)) + w (k, v) = sum_list (map w m) + w (k, f v)"
  using bt.sum_put_old [OF assms, of w "f v"] assms(2) by (simp add: bt_update_def)

lemma sum_bt_update_same:
  fixes w :: "'k :: linorder \<times> 'v \<Rightarrow> nat"
  assumes "bt_wf m" "\<And>v. bt_get m k = Some v \<Longrightarrow> w (k, f v) = w (k, v)"
  shows "sum_list (map w (bt_update f k m)) = sum_list (map w m)"
proof (cases "bt_get m k")
  case None
  then show ?thesis by (simp add: bt_update_def)
next
  case (Some v)
  then show ?thesis using sum_bt_update [OF assms(1) Some, of w f] assms(2) [OF Some] by simp
qed

lemma modify_at_update:
  assumes "bt_get (get s) key = Some v" "f v = Ok (g v)"
  shows "modify_at get put message key f s = (Ok (), put (bt_update g key (get s)) s)"
  using assms by (simp add: modify_at_def bt_update_def)

lemma bt_get_map_values: "bt_get (map (\<lambda>(k, v). (k, f k v)) m) j = map_option (f j) (bt_get m j)"
  by (induction m) auto

lemma bt_wf_map_values: "bt_wf m \<Longrightarrow> bt_wf (map (\<lambda>(k, v). (k, f k v)) m)"
  by (simp add: bt_wf_def comp_def case_prod_beta)

lemma mset_concat_insert:
  assumes "bt_wf m"
  shows "mset (concat (bt_values (bt_insert k v m))) + mset (case bt_get m k of None \<Rightarrow> [] | Some q \<Rightarrow> q)
    = mset (concat (bt_values m)) + mset v"
  using assms
proof (induction m)
  case (Cons e m)
  have "k \<notin> fst ` set m" if "k < fst e" using that Cons.prems by (auto simp: bt_wf_Cons)
  then show ?case
    using Cons by (cases e) (auto simp: bt_values_def bt_wf_Cons bt_get_notin ac_simps)
qed (simp add: bt_values_def)

lemma mset_concat_remove:
  assumes "bt_wf m"
  shows "mset (concat (bt_values (bt_remove k m))) + mset (case bt_get m k of None \<Rightarrow> [] | Some q \<Rightarrow> q)
    = mset (concat (bt_values m))"
  using assms
proof (induction m)
  case (Cons e m)
  then show ?case by (cases e) (auto simp: bt_values_def bt_wf_Cons ac_simps)
qed (simp add: bt_values_def)

section \<open>Queues\<close>

type_synonym flight = "scheduled_call \<times> bool \<times> module_lease option"

abbreviation fl_call :: "flight \<Rightarrow> scheduled_call" where
  "fl_call \<equiv> fst"

abbreviation fl_dispatched :: "flight \<Rightarrow> bool" where
  "fl_dispatched f \<equiv> fst (snd f)"

abbreviation fl_retained :: "flight \<Rightarrow> module_lease option" where
  "fl_retained f \<equiv> snd (snd f)"

definition plugin_queue :: "scheduler_state \<Rightarrow> string \<Rightarrow> scheduled_call list" where
  "plugin_queue s k = (case bt_get (sd_queues s) k of None \<Rightarrow> [] | Some q \<Rightarrow> q)"

definition pool_plugin :: "(string, scheduled_pool) btree \<Rightarrow> string \<Rightarrow> string option" where
  "pool_plugin pools ident = map_option sp_plugin_id (bt_get pools ident)"

definition queue_inv :: "scheduler_state \<Rightarrow> bool" where
  "queue_inv s \<longleftrightarrow>
     bt_wf (sd_queues s) \<and> bt_wf (sd_plugins s) \<and> distinct (sd_rotation s) \<and> set (sd_rotation s) = dom (bt_get (sd_queues s)) \<and>
     (\<forall>k q. bt_get (sd_queues s) k = Some q \<longrightarrow> q \<noteq> [] \<and>
        (\<forall>c \<in> set q. sc_reusable_instance c = None \<and> pool_plugin (sd_pools s) (sc_pool c) = Some k)) \<and>
     (\<forall>k g. bt_get (sd_plugins s) k = Some g \<longrightarrow>
        sg_queued g = length (plugin_queue s k) \<and> sg_bytes g = sum_list (map sc_bytes (plugin_queue s k))) \<and>
     sd_queued s = length (queued_calls s) \<and> sd_bytes s = sum_list (map sc_bytes (queued_calls s))"

section \<open>Calls\<close>

text \<open>The counters of pools and sessions, and the identities of the calls that are not finished.\<close>

definition pool_counts :: "(string, scheduled_pool) btree \<Rightarrow> scheduled_call multiset \<Rightarrow> flight multiset \<Rightarrow> bool" where
  "pool_counts pools Q F \<longleftrightarrow> (\<forall>k p. bt_get pools k = Some p \<longrightarrow>
     sp_queued p = cnt (\<lambda>c. sc_pool c = k) Q \<and> sp_active p = cnt (\<lambda>f. fl_dispatched f \<and> sc_pool (fl_call f) = k) F)"

definition session_counts :: "(string, scheduled_session) btree \<Rightarrow> scheduled_call multiset \<Rightarrow> flight multiset \<Rightarrow> bool" where
  "session_counts sessions Q F \<longleftrightarrow> (\<forall>k ss. bt_get sessions k = Some ss \<longrightarrow>
     ss_queued ss = cnt (\<lambda>c. sc_session c = Some k) Q \<and>
     ss_unfinished ss = cnt (\<lambda>c. sc_session c = Some k) Q + cnt (\<lambda>f. sc_session (fl_call f) = Some k) F)"

text \<open>A rejected call may outlive its pool, but no other call does.\<close>

definition call_owned :: "scheduler_state \<Rightarrow> bool \<Rightarrow> scheduled_call \<Rightarrow> bool" where
  "call_owned s held c \<longleftrightarrow> (held \<longrightarrow> bt_get (sd_pools s) (sc_pool c) \<noteq> None) \<and>
     (\<forall>k. sc_session c = Some k \<longrightarrow> (\<exists>ss. bt_get (sd_sessions s) k = Some ss \<and> ss_pool_id ss = sc_pool c))"

definition live_exact :: "(string, sched_control) btree \<Rightarrow> scheduled_call multiset \<Rightarrow> flight multiset \<Rightarrow> bool" where
  "live_exact live Q F \<longleftrightarrow>
     (\<forall>k. cnt (\<lambda>c. sc_id c = k) Q + cnt (\<lambda>f. sc_id (fl_call f) = k) F = (if bt_get live k = None then 0 else 1))"

definition call_inv :: "scheduler_state \<Rightarrow> scheduled_call multiset \<Rightarrow> flight multiset \<Rightarrow> bool" where
  "call_inv s Q F \<longleftrightarrow>
     bt_wf (sd_pools s) \<and> bt_wf (sd_sessions s) \<and> bt_wf (sd_live s) \<and>
     pool_counts (sd_pools s) Q F \<and> session_counts (sd_sessions s) Q F \<and>
     (\<forall>c \<in># Q. call_owned s True c) \<and> (\<forall>f \<in># F. call_owned s (fl_dispatched f) (fl_call f)) \<and> live_exact (sd_live s) Q F"

section \<open>Leases\<close>

fun closing_request :: "scheduled_request \<Rightarrow> bool" where
  "closing_request (CloseSession _ _ _) = True"
| "closing_request (CloseInstance _ _) = True"
| "closing_request _ = False"

definition finalizes :: "(string, scheduled_pool) btree \<Rightarrow> string \<Rightarrow> bool" where
  "finalizes pools ident \<longleftrightarrow> (case bt_get pools ident of None \<Rightarrow> False | Some p \<Rightarrow> sp_finalizer p)"

text \<open>
  A VM of a session or a reusable instance has one holder: the owner while it is idle, and the one
  dispatched call the owner names as active otherwise.
\<close>

definition session_ok :: "(string, scheduled_pool) btree \<Rightarrow> scheduled_session \<Rightarrow> bool" where
  "session_ok pools ss \<longleftrightarrow>
     (ss_closed ss \<longrightarrow> ss_closing ss \<and> ss_unfinished ss = 0 \<and> \<not> ss_finalization_reservation ss \<and> \<not> ss_retiring ss \<and> ss_lease ss = None) \<and>
     (ss_retiring ss \<longrightarrow> ss_closing ss \<and> ss_lease ss = None \<and> ss_active ss = None \<and> ss_unfinished ss = 0) \<and>
     (\<not> ss_closing ss \<and> ss_active ss = None \<longrightarrow> ss_lease ss \<noteq> None) \<and>
     (ss_active ss \<noteq> None \<longrightarrow> ss_lease ss = None) \<and>
     (ss_lease ss \<noteq> None \<and> finalizes pools (ss_pool_id ss) \<longrightarrow> ss_finalization_reservation ss)"

definition reusable_ok :: "(string, scheduled_pool) btree \<Rightarrow> scheduled_reusable \<Rightarrow> bool" where
  "reusable_ok pools u \<longleftrightarrow>
     (su_retiring u \<longrightarrow> su_closing u \<and> su_lease u = None \<and> su_active u = None) \<and>
     (su_active u \<noteq> None \<longrightarrow> su_lease u = None) \<and>
     (su_lease u \<noteq> None \<and> finalizes pools (su_pool_id u) \<longrightarrow> su_finalization_reservation u)"

definition flight_ok :: "scheduler_state \<Rightarrow> flight \<Rightarrow> bool" where
  "flight_ok s f \<longleftrightarrow>
     (fl_retained f \<noteq> None \<longrightarrow> \<not> closing_request (sc_request (fl_call f)) \<and> (fl_dispatched f \<or> sc_session (fl_call f) \<noteq> None)) \<and>
     (\<forall>k ss. fl_dispatched f \<and> sc_session (fl_call f) = Some k \<and> bt_get (sd_sessions s) k = Some ss \<longrightarrow>
        ss_active ss = Some (sc_id (fl_call f)) \<and>
        (\<not> closing_request (sc_request (fl_call f)) \<and> finalizes (sd_pools s) (ss_pool_id ss) \<longrightarrow> ss_finalization_reservation ss)) \<and>
     (\<forall>k. sc_reusable_instance (fl_call f) = Some k \<longrightarrow> fl_dispatched f \<and>
        (\<exists>u. bt_get (sd_reusable_instances s) k = Some u \<and> su_active u = Some (sc_id (fl_call f)) \<and> su_pool_id u = sc_pool (fl_call f) \<and>
           (\<not> closing_request (sc_request (fl_call f)) \<and> finalizes (sd_pools s) (su_pool_id u) \<longrightarrow> su_finalization_reservation u)))"

definition lease_inv :: "scheduler_state \<Rightarrow> flight multiset \<Rightarrow> bool" where
  "lease_inv s F \<longleftrightarrow>
     bt_wf (sd_reusable_instances s) \<and>
     (\<forall>k ss. bt_get (sd_sessions s) k = Some ss \<longrightarrow> session_ok (sd_pools s) ss) \<and>
     (\<forall>k u. bt_get (sd_reusable_instances s) k = Some u \<longrightarrow> reusable_ok (sd_pools s) u) \<and>
     (\<forall>f \<in># F. flight_ok s f)"

section \<open>Owners\<close>

definition owner_inv :: "scheduler_state \<Rightarrow> bool" where
  "owner_inv s \<longleftrightarrow>
     bt_wf (sd_capacities s) \<and>
     (\<forall>k p. bt_get (sd_pools s) k = Some p \<longrightarrow> bt_get (sd_plugins s) (sp_plugin_id p) \<noteq> None \<and>
        (\<forall>c. sp_capacity_id p = Some c \<longrightarrow> (\<exists>kk. bt_get (sd_capacities s) c = Some kk \<and> sk_plugin_id kk = sp_plugin_id p))) \<and>
     (\<forall>k c. bt_get (sd_capacities s) k = Some c \<longrightarrow> bt_get (sd_plugins s) (sk_plugin_id c) \<noteq> None) \<and>
     (\<forall>k ss. bt_get (sd_sessions s) k = Some ss \<longrightarrow> bt_get (sd_pools s) (ss_pool_id ss) \<noteq> None) \<and>
     (\<forall>k u. bt_get (sd_reusable_instances s) k = Some u \<longrightarrow> bt_get (sd_pools s) (su_pool_id u) \<noteq> None)"

section \<open>Operation slots\<close>

text \<open>
  The retained operations of a plugin are counted exactly, and every reservation of a closing call
  is covered by the plugin's reserved slots.
\<close>

definition session_slot :: "(string, scheduled_pool) btree \<Rightarrow> string \<Rightarrow> scheduled_session \<Rightarrow> nat" where
  "session_slot pools k ss = of_bool (ss_finalization_reservation ss \<and> pool_plugin pools (ss_pool_id ss) = Some k)"

definition reusable_slot :: "(string, scheduled_pool) btree \<Rightarrow> string \<Rightarrow> scheduled_reusable \<Rightarrow> nat" where
  "reusable_slot pools k u = of_bool (su_finalization_reservation u \<and> pool_plugin pools (su_pool_id u) = Some k)"

definition reserved_of :: "scheduler_state \<Rightarrow> string \<Rightarrow> nat" where
  "reserved_of s k =
     sum_list (map (\<lambda>e. session_slot (sd_pools s) k (snd e)) (sd_sessions s)) +
     sum_list (map (\<lambda>e. reusable_slot (sd_pools s) k (snd e)) (sd_reusable_instances s))"

definition retained_of :: "scheduler_state \<Rightarrow> string \<Rightarrow> nat" where
  "retained_of s k = sum_list (map (\<lambda>e. of_bool (snd e = k)) (sd_operation_plugins s))"

definition slot_inv :: "scheduler_state \<Rightarrow> bool" where
  "slot_inv s \<longleftrightarrow>
     bt_wf (sd_operation_plugins s) \<and>
     (\<forall>k g. bt_get (sd_plugins s) k = Some g \<longrightarrow>
        sg_operations g = retained_of s k \<and> reserved_of s k \<le> sg_reserved_operations g \<and>
        retained_of s k + sg_reserved_operations g \<le> plg_max_operations (sg_config g)) \<and>
     (\<forall>i k. bt_get (sd_operation_plugins s) i = Some k \<longrightarrow> bt_get (sd_plugins s) k \<noteq> None)"

section \<open>Limits\<close>

definition active_of :: "(string, scheduled_pool) btree \<Rightarrow> (scheduled_pool \<Rightarrow> bool) \<Rightarrow> nat" where
  "active_of pools P = sum_list (map (\<lambda>e. if P (snd e) then sp_active (snd e) else 0) pools)"

lemma plugin_active_eq: "plugin_active s k = active_of (sd_pools s) (\<lambda>p. sp_plugin_id p = k)"
  by (simp add: plugin_active_def active_of_def bt_values_def sum_list_map_filter' filter_map comp_def)

lemma capacity_active_eq: "capacity_active s k = active_of (sd_pools s) (\<lambda>p. sp_capacity_id p = Some k)"
  by (simp add: capacity_active_def active_of_def bt_values_def sum_list_map_filter' filter_map comp_def)

definition limit_inv :: "embedded_runtime_config \<Rightarrow> scheduler_state \<Rightarrow> bool" where
  "limit_inv cfg s \<longleftrightarrow>
     sd_queued s \<le> max_queued_calls cfg \<and> sd_bytes s \<le> max_queued_bytes cfg \<and>
     (\<forall>k p. bt_get (sd_pools s) k = Some p \<longrightarrow>
        sp_queued p \<le> pool_max_queued_calls (sp_policy p) \<and> sp_active p \<le> pool_max_running_calls (sp_policy p)) \<and>
     (\<forall>k g. bt_get (sd_plugins s) k = Some g \<longrightarrow>
        sg_queued g \<le> plg_max_queued_calls (sg_config g) \<and> sg_bytes g \<le> plg_max_queued_bytes (sg_config g) \<and>
        plugin_active s k \<le> plg_max_running_calls (sg_config g)) \<and>
     (\<forall>k c. bt_get (sd_capacities s) k = Some c \<longrightarrow> capacity_active s k \<le> cap_max_running_calls (ccf_resources (sk_config c)))"

abbreviation queued_mset :: "scheduler_state \<Rightarrow> scheduled_call multiset" where
  "queued_mset s \<equiv> mset (queued_calls s)"

definition sched_inv :: "embedded_runtime_config \<Rightarrow> scheduler_state \<Rightarrow> flight multiset \<Rightarrow> bool" where
  "sched_inv cfg s F \<longleftrightarrow>
     queue_inv s \<and> call_inv s (queued_mset s) F \<and> lease_inv s F \<and> owner_inv s \<and> slot_inv s \<and> limit_inv cfg s"

lemma sched_invI:
  assumes "queue_inv s" "call_inv s (queued_mset s) F" "lease_inv s F" "owner_inv s" "slot_inv s" "limit_inv cfg s"
  shows "sched_inv cfg s F"
  using assms by (simp add: sched_inv_def)

lemma sched_inv_parts:
  assumes "sched_inv cfg s F"
  shows "queue_inv s" "call_inv s (queued_mset s) F" "lease_inv s F" "owner_inv s" "slot_inv s" "limit_inv cfg s"
  using assms by (simp_all add: sched_inv_def)

lemma sched_inv_empty: "sched_inv cfg scheduler_empty {#}"
  by (simp add: sched_inv_def queue_inv_def call_inv_def lease_inv_def owner_inv_def slot_inv_def limit_inv_def scheduler_empty_def
      pool_counts_def session_counts_def live_exact_def queued_calls_def bt_values_def dom_def)

section \<open>What the invariant does not read\<close>

lemmas inv_defs = queue_inv_def call_inv_def lease_inv_def owner_inv_def slot_inv_def limit_inv_def

lemma queued_calls_frame [simp]:
  "queued_calls (sd_finalizing_update a s) = queued_calls s" "queued_calls (sd_cleaning_update b s) = queued_calls s"
  "queued_calls (sd_cleaning_count_update n s) = queued_calls s" "queued_calls (sd_closing_update c s) = queued_calls s"
  "queued_calls (sd_failure_update e s) = queued_calls s" "queued_calls (sd_sequence_update n s) = queued_calls s"
  "queued_calls (sd_persistence_failures_update m s) = queued_calls s" "queued_calls (sd_shared_checkpoint_failed_update c s) = queued_calls s"
  "queued_calls (sd_pools_update p s) = queued_calls s" "queued_calls (sd_plugins_update g s) = queued_calls s"
  "queued_calls (sd_sessions_update ss s) = queued_calls s" "queued_calls (sd_reusable_instances_update u s) = queued_calls s"
  "queued_calls (sd_capacities_update k s) = queued_calls s" "queued_calls (sd_operation_plugins_update ops s) = queued_calls s"
  "queued_calls (sd_live_update l s) = queued_calls s" "queued_calls (sd_rotation_update r s) = queued_calls s"
  "queued_calls (sd_queued_update n s) = queued_calls s" "queued_calls (sd_bytes_update n s) = queued_calls s"
  by (simp_all add: queued_calls_def)

lemma sched_inv_frame [simp]:
  "sched_inv cfg (sd_finalizing_update a s) F = sched_inv cfg s F" "sched_inv cfg (sd_cleaning_update b s) F = sched_inv cfg s F"
  "sched_inv cfg (sd_cleaning_count_update n s) F = sched_inv cfg s F" "sched_inv cfg (sd_closing_update c s) F = sched_inv cfg s F"
  "sched_inv cfg (sd_failure_update e s) F = sched_inv cfg s F" "sched_inv cfg (sd_sequence_update n s) F = sched_inv cfg s F"
  "sched_inv cfg (sd_persistence_failures_update m s) F = sched_inv cfg s F"
  "sched_inv cfg (sd_shared_checkpoint_failed_update c s) F = sched_inv cfg s F"
  by (simp_all add: sched_inv_def inv_defs flight_ok_def call_owned_def plugin_queue_def reserved_of_def retained_of_def plugin_active_eq capacity_active_eq)

end
