(* ===== verification/Scheduler_Moves.thy ===== *)
theory Scheduler_Moves
  imports Scheduler_Inv
begin

text \<open>
  The moves of a call between the queue and its flight, as functions on states, and that each of them
  keeps the invariant. Every part of the invariant reads few fields; the frame rules say which.
\<close>

section \<open>Frames\<close>

lemma queue_inv_frame [simp]:
  "queue_inv (sd_sessions_update ss s) = queue_inv s" "queue_inv (sd_reusable_instances_update u s) = queue_inv s"
  "queue_inv (sd_capacities_update k s) = queue_inv s" "queue_inv (sd_live_update l s) = queue_inv s"
  "queue_inv (sd_operation_plugins_update ops s) = queue_inv s"
  by (simp_all add: queue_inv_def plugin_queue_def)

lemma call_inv_frame [simp]:
  "call_inv (sd_reusable_instances_update u s) Q F = call_inv s Q F" "call_inv (sd_capacities_update k s) Q F = call_inv s Q F"
  "call_inv (sd_plugins_update g s) Q F = call_inv s Q F" "call_inv (sd_operation_plugins_update ops s) Q F = call_inv s Q F"
  "call_inv (sd_queues_update q s) Q F = call_inv s Q F" "call_inv (sd_rotation_update r s) Q F = call_inv s Q F"
  "call_inv (sd_queued_update n s) Q F = call_inv s Q F" "call_inv (sd_bytes_update n s) Q F = call_inv s Q F"
  by (simp_all add: call_inv_def call_owned_def)

lemma flight_ok_frame [simp]:
  "flight_ok (sd_capacities_update k s) f = flight_ok s f" "flight_ok (sd_plugins_update g s) f = flight_ok s f"
  "flight_ok (sd_operation_plugins_update ops s) f = flight_ok s f" "flight_ok (sd_live_update l s) f = flight_ok s f"
  "flight_ok (sd_queues_update q s) f = flight_ok s f" "flight_ok (sd_rotation_update r s) f = flight_ok s f"
  "flight_ok (sd_queued_update n s) f = flight_ok s f" "flight_ok (sd_bytes_update n s) f = flight_ok s f"
  by (simp_all add: flight_ok_def)

lemma lease_inv_frame [simp]:
  "lease_inv (sd_capacities_update k s) F = lease_inv s F" "lease_inv (sd_plugins_update g s) F = lease_inv s F"
  "lease_inv (sd_operation_plugins_update ops s) F = lease_inv s F" "lease_inv (sd_live_update l s) F = lease_inv s F"
  "lease_inv (sd_queues_update q s) F = lease_inv s F" "lease_inv (sd_rotation_update r s) F = lease_inv s F"
  "lease_inv (sd_queued_update n s) F = lease_inv s F" "lease_inv (sd_bytes_update n s) F = lease_inv s F"
  by (simp_all add: lease_inv_def)

lemma owner_inv_frame [simp]:
  "owner_inv (sd_operation_plugins_update ops s) = owner_inv s" "owner_inv (sd_live_update l s) = owner_inv s"
  "owner_inv (sd_queues_update q s) = owner_inv s" "owner_inv (sd_rotation_update r s) = owner_inv s"
  "owner_inv (sd_queued_update n s) = owner_inv s" "owner_inv (sd_bytes_update n s) = owner_inv s"
  by (simp_all add: owner_inv_def)

lemma slot_inv_frame [simp]:
  "slot_inv (sd_capacities_update k s) = slot_inv s" "slot_inv (sd_live_update l s) = slot_inv s"
  "slot_inv (sd_queues_update q s) = slot_inv s" "slot_inv (sd_rotation_update r s) = slot_inv s"
  "slot_inv (sd_queued_update n s) = slot_inv s" "slot_inv (sd_bytes_update n s) = slot_inv s"
  by (simp_all add: slot_inv_def reserved_of_def retained_of_def)

lemma limit_inv_frame [simp]:
  "limit_inv cfg (sd_sessions_update ss s) = limit_inv cfg s" "limit_inv cfg (sd_reusable_instances_update u s) = limit_inv cfg s"
  "limit_inv cfg (sd_live_update l s) = limit_inv cfg s" "limit_inv cfg (sd_operation_plugins_update ops s) = limit_inv cfg s"
  "limit_inv cfg (sd_queues_update q s) = limit_inv cfg s" "limit_inv cfg (sd_rotation_update r s) = limit_inv cfg s"
  by (simp_all add: limit_inv_def plugin_active_eq capacity_active_eq)

section \<open>Updates that keep the identity of a pool\<close>

definition keeps_pool :: "(scheduled_pool \<Rightarrow> scheduled_pool) \<Rightarrow> bool" where
  "keeps_pool f \<longleftrightarrow> (\<forall>p. sp_plugin_id (f p) = sp_plugin_id p \<and> sp_capacity_id (f p) = sp_capacity_id p \<and>
     sp_finalizer (f p) = sp_finalizer p \<and> sp_policy (f p) = sp_policy p)"

lemma keeps_pool_intros [simp]:
  "keeps_pool (\<lambda>p. p\<lparr>sp_queued := a p\<rparr>)" "keeps_pool (\<lambda>p. p\<lparr>sp_active := b p\<rparr>)" "keeps_pool (\<lambda>p. p\<lparr>sp_closed := c p\<rparr>)"
  by (simp_all add: keeps_pool_def)

lemma keeps_pool_fields:
  assumes "keeps_pool f"
  shows "sp_plugin_id (f p) = sp_plugin_id p" "sp_capacity_id (f p) = sp_capacity_id p"
    "sp_finalizer (f p) = sp_finalizer p" "sp_policy (f p) = sp_policy p"
  using assms by (simp_all add: keeps_pool_def)

lemma pool_plugin_update [simp]: "keeps_pool f \<Longrightarrow> pool_plugin (bt_update f k m) = pool_plugin m"
  by (auto simp: pool_plugin_def keeps_pool_def fun_eq_iff option.map_comp comp_def)

lemma finalizes_update [simp]: "keeps_pool f \<Longrightarrow> finalizes (bt_update f k m) = finalizes m"
  by (auto simp: finalizes_def keeps_pool_def fun_eq_iff split: option.splits)

lemma session_ok_pool [simp]: "keeps_pool f \<Longrightarrow> session_ok (bt_update f k m) ss = session_ok m ss"
  by (simp add: session_ok_def)

lemma reusable_ok_pool [simp]: "keeps_pool f \<Longrightarrow> reusable_ok (bt_update f k m) u = reusable_ok m u"
  by (simp add: reusable_ok_def)

lemma queue_inv_pool [simp]: "keeps_pool f \<Longrightarrow> queue_inv (s\<lparr>sd_pools := bt_update f k (sd_pools s)\<rparr>) = queue_inv s"
  by (simp add: queue_inv_def plugin_queue_def)

lemma lease_inv_pool [simp]: "keeps_pool f \<Longrightarrow> lease_inv (s\<lparr>sd_pools := bt_update f k (sd_pools s)\<rparr>) F = lease_inv s F"
  by (simp add: lease_inv_def flight_ok_def)

lemma slot_pool [simp]:
  assumes "keeps_pool f"
  shows "session_slot (bt_update f k m) = session_slot m" "reusable_slot (bt_update f k m) = reusable_slot m"
  using assms by (simp_all add: session_slot_def reusable_slot_def fun_eq_iff)

lemma slot_inv_pool [simp]: "keeps_pool f \<Longrightarrow> slot_inv (s\<lparr>sd_pools := bt_update f k (sd_pools s)\<rparr>) = slot_inv s"
  by (simp add: slot_inv_def reserved_of_def retained_of_def)

lemma owner_inv_pool: "keeps_pool f \<Longrightarrow> owner_inv s \<Longrightarrow> owner_inv (s\<lparr>sd_pools := bt_update f k (sd_pools s)\<rparr>)"
  by (fastforce simp: owner_inv_def keeps_pool_fields split: if_splits)

lemma active_of_update:
  assumes "bt_wf m" "bt_get m k = Some p" "keeps_pool f" "\<And>p f. keeps_pool f \<Longrightarrow> P (f p) = P p"
  shows "active_of (bt_update f k m) P + (if P p then sp_active p else 0) = active_of m P + (if P p then sp_active (f p) else 0)"
  using sum_bt_update [OF assms(1,2), of "\<lambda>e. if P (snd e) then sp_active (snd e) else 0" f] assms(3,4)
  by (auto simp: active_of_def)

lemma active_of_update_same:
  assumes "bt_wf m" "keeps_pool f" "\<And>p. sp_active (f p) = sp_active p" "\<And>p f. keeps_pool f \<Longrightarrow> P (f p) = P p"
  shows "active_of (bt_update f k m) P = active_of m P"
  unfolding active_of_def using assms by (intro sum_bt_update_same) auto

section \<open>Updates that keep the budget of a plugin\<close>

definition keeps_plugin :: "(scheduled_plugin \<Rightarrow> scheduled_plugin) \<Rightarrow> bool" where
  "keeps_plugin f \<longleftrightarrow> (\<forall>g. sg_config (f g) = sg_config g)"

lemma owner_inv_plugin: "owner_inv s \<Longrightarrow> owner_inv (s\<lparr>sd_plugins := bt_update f k (sd_plugins s)\<rparr>)"
  by (fastforce simp: owner_inv_def)

section \<open>Admission\<close>

definition session_update :: "(scheduled_session \<Rightarrow> scheduled_session) \<Rightarrow> string option \<Rightarrow> (string, scheduled_session) btree \<Rightarrow> (string, scheduled_session) btree" where
  "session_update f k m = (case k of None \<Rightarrow> m | Some i \<Rightarrow> bt_update f i m)"

lemma bt_get_session_update [simp]:
  "bt_get (session_update f k m) j = (if k = Some j then map_option f (bt_get m j) else bt_get m j)"
  by (auto simp: session_update_def split: option.splits)

lemma bt_wf_session_update [simp, intro]: "bt_wf m \<Longrightarrow> bt_wf (session_update f k m)"
  by (auto simp: session_update_def split: option.splits)

definition admit_call :: "string \<Rightarrow> scheduled_call \<Rightarrow> scheduler_state \<Rightarrow> scheduler_state" where
  "admit_call plugin call s = push_call plugin call (s\<lparr>
     sd_plugins := bt_update (\<lambda>g. g\<lparr>sg_queued := sg_queued g + 1, sg_bytes := sg_bytes g + sc_bytes call, sg_operations := sg_operations g + 1\<rparr>) plugin (sd_plugins s),
     sd_operation_plugins := bt_insert (sc_id call) plugin (sd_operation_plugins s),
     sd_pools := bt_update (\<lambda>p. p\<lparr>sp_queued := sp_queued p + 1\<rparr>) (sc_pool call) (sd_pools s),
     sd_sessions := session_update (\<lambda>ss. ss\<lparr>ss_queued := ss_queued ss + 1, ss_unfinished := ss_unfinished ss + 1\<rparr>) (sc_session call) (sd_sessions s)\<rparr>)"

text \<open>What admission has checked.\<close>

definition admissible :: "embedded_runtime_config \<Rightarrow> string \<Rightarrow> scheduled_call \<Rightarrow> scheduler_state \<Rightarrow> bool" where
  "admissible cfg plugin call s \<longleftrightarrow>
     sc_reusable_instance call = None \<and> bt_get (sd_live s) (sc_id call) = None \<and> bt_get (sd_operation_plugins s) (sc_id call) = None \<and>
     (\<exists>p g. bt_get (sd_pools s) (sc_pool call) = Some p \<and> sp_plugin_id p = plugin \<and> bt_get (sd_plugins s) plugin = Some g \<and>
        sp_queued p < pool_max_queued_calls (sp_policy p) \<and>
        sg_queued g < plg_max_queued_calls (sg_config g) \<and> sg_bytes g + sc_bytes call \<le> plg_max_queued_bytes (sg_config g) \<and>
        sg_operations g + sg_reserved_operations g < plg_max_operations (sg_config g)) \<and>
     sd_queued s < max_queued_calls cfg \<and> sd_bytes s + sc_bytes call \<le> max_queued_bytes cfg \<and>
     (\<forall>k. sc_session call = Some k \<longrightarrow> (\<exists>ss. bt_get (sd_sessions s) k = Some ss \<and> ss_pool_id ss = sc_pool call \<and> \<not> ss_closed ss \<and> \<not> ss_retiring ss))"

lemma queued_push:
  assumes "bt_wf (sd_queues s)"
  shows "mset (queued_calls (push_call plugin call s)) = add_mset call (mset (queued_calls s))"
  using mset_concat_insert [OF assms, of plugin "plugin_queue s plugin @ [call]"]
  by (simp add: queued_calls_def push_call_def plugin_queue_def)

lemma queued_admit: "bt_wf (sd_queues s) \<Longrightarrow> queued_mset (admit_call plugin call s) = add_mset call (queued_mset s)"
  by (simp add: admit_call_def queued_push)

lemma sum_bytes_mset: "sum_list (map sc_bytes xs) = sum_mset (image_mset sc_bytes (mset xs))"
  by (metis mset_map sum_mset_sum_list)

lemma queue_inv_admit:
  assumes "queue_inv s" "admissible cfg plugin call s"
  shows "queue_inv (admit_call plugin call s)"
proof -
  have m: "queued_mset (admit_call plugin call s) = add_mset call (queued_mset s)"
    using assms(1) by (simp add: queued_admit queue_inv_def)
  have "length (queued_calls (admit_call plugin call s)) = Suc (length (queued_calls s))"
    "sum_list (map sc_bytes (queued_calls (admit_call plugin call s))) = sc_bytes call + sum_list (map sc_bytes (queued_calls s))"
    using m by (simp_all add: sum_bytes_mset flip: size_mset)
  then show ?thesis
    using assms
    by (auto simp: queue_inv_def admissible_def admit_call_def push_call_def plugin_queue_def pool_plugin_def split: if_splits option.splits)
qed

lemma live_exact_add:
  assumes "live_exact live Q F" "bt_get live (sc_id c) = None"
  shows "live_exact (bt_insert (sc_id c) v live) (add_mset c Q) F"
  unfolding live_exact_def
proof
  fix k
  show "cnt (\<lambda>c. sc_id c = k) (add_mset c Q) + cnt (\<lambda>f. sc_id (fl_call f) = k) F
    = (if bt_get (bt_insert (sc_id c) v live) k = None then 0 else 1)"
    using assms(1) [unfolded live_exact_def, rule_format, of k] assms(2) by (cases "sc_id c = k") auto
qed

lemma call_inv_admit:
  assumes "call_inv s Q F" "admissible cfg plugin call s"
  shows "call_inv (admit_call plugin call s) (add_mset call Q) F"
proof -
  let ?t = "admit_call plugin call s"
  have "pool_counts (sd_pools ?t) (add_mset call Q) F" "session_counts (sd_sessions ?t) (add_mset call Q) F"
    using assms by (auto simp: call_inv_def pool_counts_def session_counts_def admit_call_def push_call_def)
  moreover have "call_owned ?t True call" "call_owned s d c \<Longrightarrow> call_owned ?t d c" for c d
    using assms(2) by (auto simp: call_owned_def admissible_def admit_call_def push_call_def)
  moreover have "live_exact (sd_live ?t) (add_mset call Q) F"
    using assms by (simp add: call_inv_def admissible_def admit_call_def push_call_def live_exact_add)
  moreover have "bt_wf (sd_pools ?t)" "bt_wf (sd_sessions ?t)" "bt_wf (sd_live ?t)"
    using assms(1) by (auto simp: call_inv_def admit_call_def push_call_def)
  ultimately show ?thesis using assms(1) by (simp add: call_inv_def)
qed

lemma lease_inv_admit:
  assumes "lease_inv s F" "admissible cfg plugin call s"
  shows "lease_inv (admit_call plugin call s) F"
  using assms
  by (auto simp: lease_inv_def flight_ok_def admissible_def admit_call_def push_call_def session_ok_def split: if_splits)

lemma owner_inv_admit:
  assumes "owner_inv s"
  shows "owner_inv (admit_call plugin call s)"
  using assms
  by (fastforce simp: owner_inv_def admit_call_def push_call_def split: if_splits)

lemma reserved_of_session_update:
  assumes "bt_wf (sd_sessions s)" "\<And>ss. ss_finalization_reservation (f ss) = ss_finalization_reservation ss" "\<And>ss. ss_pool_id (f ss) = ss_pool_id ss"
  shows "reserved_of (s\<lparr>sd_sessions := session_update f k (sd_sessions s)\<rparr>) = reserved_of s"
  using assms
  by (cases k) (simp_all add: reserved_of_def session_update_def fun_eq_iff sum_bt_update_same session_slot_def)

lemma slot_inv_admit:
  assumes "slot_inv s" "admissible cfg plugin call s" "bt_wf (sd_sessions s)"
  shows "slot_inv (admit_call plugin call s)"
proof -
  have r: "reserved_of (admit_call plugin call s) = reserved_of s"
    using reserved_of_session_update [OF assms(3), of "\<lambda>ss. ss\<lparr>ss_queued := ss_queued ss + 1, ss_unfinished := ss_unfinished ss + 1\<rparr>" "sc_session call"]
    by (simp add: admit_call_def push_call_def reserved_of_def fun_eq_iff)
  have o: "retained_of (admit_call plugin call s) k = retained_of s k + of_bool (k = plugin)" for k
    using assms(1,2) bt.sum_put_new [of "sd_operation_plugins s" "sc_id call" "\<lambda>e. of_bool (snd e = k)" plugin]
    by (auto simp: retained_of_def admit_call_def push_call_def slot_inv_def admissible_def)
  show ?thesis
    using assms(1,2) unfolding slot_inv_def r o
    by (auto simp: admissible_def admit_call_def push_call_def split: if_splits)
qed

lemma limit_inv_admit:
  assumes "limit_inv cfg s" "admissible cfg plugin call s" "bt_wf (sd_pools s)"
  shows "limit_inv cfg (admit_call plugin call s)"
proof -
  have "active_of (sd_pools (admit_call plugin call s)) P = active_of (sd_pools s) P" if "\<And>p f. keeps_pool f \<Longrightarrow> P (f p) = P p" for P
    using that assms(3) by (auto simp: admit_call_def push_call_def intro!: active_of_update_same)
  then have a: "plugin_active (admit_call plugin call s) = plugin_active s" "capacity_active (admit_call plugin call s) = capacity_active s"
    by (simp_all add: plugin_active_eq capacity_active_eq keeps_pool_fields fun_eq_iff)
  show ?thesis
    using assms(1,2) unfolding limit_inv_def a
    by (auto simp: admissible_def admit_call_def push_call_def split: if_splits)
qed

theorem sched_inv_admit:
  assumes "sched_inv cfg s F" "admissible cfg plugin call s"
  shows "sched_inv cfg (admit_call plugin call s) F"
proof -
  note parts = sched_inv_parts [OF assms(1)]
  have "bt_wf (sd_queues s)" "bt_wf (sd_sessions s)" "bt_wf (sd_pools s)" using parts by (simp_all add: queue_inv_def call_inv_def)
  then show ?thesis
    using parts assms(2)
    by (intro sched_invI) (auto simp: queued_admit intro: queue_inv_admit call_inv_admit lease_inv_admit owner_inv_admit slot_inv_admit limit_inv_admit)
qed

section \<open>Leaving the queue\<close>

definition drop_index :: "nat \<Rightarrow> 'a list \<Rightarrow> 'a list" where
  "drop_index i xs = take i xs @ drop (Suc i) xs"

lemma mset_drop_index: "i < length xs \<Longrightarrow> mset xs = add_mset (xs ! i) (mset (drop_index i xs))"
  by (metis drop_index_def id_take_nth_drop mset_append mset.simps(2) union_mset_add_mset_right)

lemma length_drop_index: "i < length xs \<Longrightarrow> length (drop_index i xs) = length xs - 1"
  by (simp add: drop_index_def)

lemma set_drop_index: "set (drop_index i xs) \<subseteq> set xs"
  by (auto simp: drop_index_def dest: in_set_takeD in_set_dropD)

lemma sum_drop_index:
  assumes "i < length xs"
  shows "sum_list (map sc_bytes xs) = sc_bytes (xs ! i) + sum_list (map sc_bytes (drop_index i xs))"
  using mset_drop_index [OF assms] by (simp add: sum_bytes_mset)

definition leave_queue :: "string \<Rightarrow> nat \<Rightarrow> scheduler_state \<Rightarrow> scheduler_state" where
  "leave_queue plugin i s =
     (let rest = drop_index i (plugin_queue s plugin) in
      if rest = [] then s\<lparr>sd_queues := bt_remove plugin (sd_queues s), sd_rotation := filter (\<lambda>c. c \<noteq> plugin) (sd_rotation s)\<rparr>
      else s\<lparr>sd_queues := bt_insert plugin rest (sd_queues s)\<rparr>)"

definition queued_at :: "scheduler_state \<Rightarrow> string \<Rightarrow> nat \<Rightarrow> scheduled_call" where
  "queued_at s plugin i = plugin_queue s plugin ! i"

definition take_move :: "string \<Rightarrow> nat \<Rightarrow> scheduler_state \<Rightarrow> scheduler_state" where
  "take_move plugin i s =
     (let call = queued_at s plugin i; t = leave_queue plugin i s in
      t\<lparr>sd_queued := sd_queued s - 1, sd_bytes := sd_bytes s - sc_bytes call,
        sd_plugins := bt_update (\<lambda>g. g\<lparr>sg_queued := sg_queued g - 1, sg_bytes := sg_bytes g - sc_bytes call\<rparr>) plugin (sd_plugins s),
        sd_pools := bt_update (\<lambda>p. p\<lparr>sp_queued := sp_queued p - 1\<rparr>) (sc_pool call) (sd_pools s),
        sd_sessions := session_update (\<lambda>ss. ss\<lparr>ss_queued := ss_queued ss - 1\<rparr>) (sc_session call) (sd_sessions s)\<rparr>)"

lemma leave_queue_other [simp]:
  "sd_plugins (leave_queue plugin i s) = sd_plugins s" "sd_pools (leave_queue plugin i s) = sd_pools s"
  "sd_sessions (leave_queue plugin i s) = sd_sessions s" "sd_live (leave_queue plugin i s) = sd_live s"
  "sd_reusable_instances (leave_queue plugin i s) = sd_reusable_instances s" "sd_capacities (leave_queue plugin i s) = sd_capacities s"
  "sd_operation_plugins (leave_queue plugin i s) = sd_operation_plugins s" "sd_queued (leave_queue plugin i s) = sd_queued s"
  "sd_bytes (leave_queue plugin i s) = sd_bytes s" "sd_cleaning (leave_queue plugin i s) = sd_cleaning s"
  "sd_cleaning_count (leave_queue plugin i s) = sd_cleaning_count s" "sd_finalizing (leave_queue plugin i s) = sd_finalizing s"
  "sd_closing (leave_queue plugin i s) = sd_closing s"
  by (simp_all add: leave_queue_def Let_def)

lemma queued_leave:
  assumes "bt_wf (sd_queues s)" "i < length (plugin_queue s plugin)"
  shows "queued_mset s = add_mset (queued_at s plugin i) (queued_mset (leave_queue plugin i s))"
proof -
  obtain q where q: "bt_get (sd_queues s) plugin = Some q" "plugin_queue s plugin = q"
    using assms(2) by (auto simp: plugin_queue_def split: option.splits)
  show ?thesis
  proof (cases "drop_index i q = []")
    case True
    then obtain x where "q = [x]" "i = 0" using length_drop_index [of i q] assms(2) q by (cases q) auto
    then show ?thesis
      using True mset_concat_remove [OF assms(1), of plugin] q
      by (simp add: queued_calls_def leave_queue_def queued_at_def)
  next
    case False
    then show ?thesis
      using mset_concat_insert [OF assms(1), of plugin "drop_index i q"] mset_drop_index [of i q] assms(2) q
      by (simp add: queued_calls_def leave_queue_def queued_at_def)
  qed
qed

lemma plugin_queue_leave:
  assumes "bt_wf (sd_queues s)"
  shows "plugin_queue (leave_queue plugin i s) k = (if k = plugin then drop_index i (plugin_queue s plugin) else plugin_queue s k)"
  using assms by (auto simp: leave_queue_def plugin_queue_def Let_def bt_get_remove)

lemma queued_take: "queued_calls (take_move plugin i s) = queued_calls (leave_queue plugin i s)"
  by (simp add: take_move_def Let_def queued_calls_def)

lemma queue_inv_take:
  assumes inv: "queue_inv s" and i: "i < length (plugin_queue s plugin)"
  shows "queue_inv (take_move plugin i s)"
proof -
  let ?t = "take_move plugin i s" and ?c = "queued_at s plugin i"
  have wf: "bt_wf (sd_queues s)" using inv by (simp add: queue_inv_def)
  note m = queued_leave [OF wf i]
  have len: "length (queued_calls s) = Suc (length (queued_calls ?t))"
    using arg_cong [OF m, of size] by (simp add: queued_take)
  have bytes: "sum_list (map sc_bytes (queued_calls s)) = sc_bytes ?c + sum_list (map sc_bytes (queued_calls ?t))"
    using m by (simp add: queued_take sum_bytes_mset)
  have pq: "plugin_queue ?t k = (if k = plugin then drop_index i (plugin_queue s plugin) else plugin_queue s k)" for k
    using plugin_queue_leave [OF wf, of plugin i k] by (simp add: take_move_def Let_def plugin_queue_def)
  have shape: "bt_wf (sd_queues ?t)" "distinct (sd_rotation ?t)" "set (sd_rotation ?t) = dom (bt_get (sd_queues ?t))"
    using inv i by (auto simp: queue_inv_def take_move_def leave_queue_def Let_def bt_get_remove plugin_queue_def split: option.splits)
  have calls: "q \<noteq> [] \<and> (\<forall>c \<in> set q. sc_reusable_instance c = None \<and> pool_plugin (sd_pools ?t) (sc_pool c) = Some k)"
    if "bt_get (sd_queues ?t) k = Some q" for k q
    using that inv i set_drop_index [of i "plugin_queue s plugin"]
    by (auto simp: queue_inv_def take_move_def leave_queue_def Let_def bt_get_remove plugin_queue_def split: option.splits if_splits)
  have plugins: "sg_queued g = length (plugin_queue ?t k) \<and> sg_bytes g = sum_list (map sc_bytes (plugin_queue ?t k))"
    if "bt_get (sd_plugins ?t) k = Some g" for k g
    using that inv i length_drop_index [OF i] sum_drop_index [OF i] unfolding pq
    by (auto simp: queue_inv_def take_move_def Let_def queued_at_def split: if_splits)
  have totals: "sd_queued ?t = length (queued_calls ?t)" "sd_bytes ?t = sum_list (map sc_bytes (queued_calls ?t))"
    using inv len bytes by (simp_all add: queue_inv_def take_move_def Let_def)
  have "bt_wf (sd_plugins ?t)" using inv by (auto simp: queue_inv_def take_move_def Let_def)
  then show ?thesis
    unfolding queue_inv_def using shape calls plugins totals by blast
qed

lemma live_exact_take: "live_exact live (add_mset c Q) F \<Longrightarrow> live_exact live Q (add_mset (c, d, r) F)"
  unfolding live_exact_def by (erule all_forward) (auto split: if_splits)

lemma call_inv_take:
  assumes "call_inv s (add_mset c Q) F" "c = queued_at s plugin i"
  shows "call_inv (take_move plugin i s) Q (add_mset (c, False, r) F)"
proof -
  let ?t = "take_move plugin i s"
  have "pool_counts (sd_pools ?t) Q (add_mset (c, False, r) F)" "session_counts (sd_sessions ?t) Q (add_mset (c, False, r) F)"
    using assms by (auto simp: call_inv_def pool_counts_def session_counts_def take_move_def Let_def)
  moreover have "call_owned s d c \<Longrightarrow> call_owned ?t d c" "call_owned s True c \<Longrightarrow> call_owned ?t False c" for c d
    by (auto simp: call_owned_def take_move_def Let_def)
  moreover have "live_exact (sd_live ?t) Q (add_mset (c, False, r) F)"
    using assms by (simp add: call_inv_def take_move_def Let_def live_exact_take)
  moreover have "bt_wf (sd_pools ?t)" "bt_wf (sd_sessions ?t)" "bt_wf (sd_live ?t)"
    using assms(1) by (auto simp: call_inv_def take_move_def Let_def)
  ultimately show ?thesis using assms(1) by (simp add: call_inv_def)
qed

lemma lease_inv_take:
  assumes "lease_inv s F" "sc_reusable_instance c = None" "r \<noteq> None \<longrightarrow> \<not> closing_request (sc_request c) \<and> sc_session c \<noteq> None"
  shows "lease_inv (take_move plugin i s) (add_mset (c, False, r) F)"
  using assms by (auto simp: lease_inv_def flight_ok_def take_move_def Let_def session_ok_def split: if_splits)

lemma owner_inv_take:
  assumes "owner_inv s"
  shows "owner_inv (take_move plugin i s)"
  using assms by (fastforce simp: owner_inv_def take_move_def Let_def split: if_splits)

lemma slot_inv_take:
  assumes "slot_inv s" "bt_wf (sd_sessions s)"
  shows "slot_inv (take_move plugin i s)"
proof -
  have r: "reserved_of (take_move plugin i s) = reserved_of s"
    using reserved_of_session_update [OF assms(2), of "\<lambda>ss. ss\<lparr>ss_queued := ss_queued ss - 1\<rparr>" "sc_session (queued_at s plugin i)"]
    by (simp add: take_move_def Let_def reserved_of_def fun_eq_iff)
  have o: "retained_of (take_move plugin i s) = retained_of s" by (simp add: retained_of_def take_move_def Let_def fun_eq_iff)
  show ?thesis
    using assms(1) unfolding slot_inv_def r o by (auto simp: take_move_def Let_def split: if_splits)
qed

lemma nat_diff_le: "a \<le> b \<Longrightarrow> a - c \<le> (b :: nat)"
  by simp

lemma limit_inv_take:
  assumes "limit_inv cfg s" "bt_wf (sd_pools s)"
  shows "limit_inv cfg (take_move plugin i s)"
proof -
  have "active_of (sd_pools (take_move plugin i s)) P = active_of (sd_pools s) P" if "\<And>p f. keeps_pool f \<Longrightarrow> P (f p) = P p" for P
    using that assms(2) by (auto simp: take_move_def Let_def intro!: active_of_update_same)
  then have a: "plugin_active (take_move plugin i s) = plugin_active s" "capacity_active (take_move plugin i s) = capacity_active s"
    by (simp_all add: plugin_active_eq capacity_active_eq keeps_pool_fields fun_eq_iff)
  show ?thesis
    using assms(1) unfolding limit_inv_def a by (auto simp: take_move_def Let_def intro!: nat_diff_le split: if_splits)
qed

lemma queued_at_call:
  assumes "queue_inv s" "i < length (plugin_queue s plugin)"
  shows "sc_reusable_instance (queued_at s plugin i) = None" "pool_plugin (sd_pools s) (sc_pool (queued_at s plugin i)) = Some plugin"
    "queued_at s plugin i \<in># queued_mset s"
proof -
  show "sc_reusable_instance (queued_at s plugin i) = None" "pool_plugin (sd_pools s) (sc_pool (queued_at s plugin i)) = Some plugin"
    using assms by (auto simp: queue_inv_def queued_at_def plugin_queue_def split: option.splits)
  have "bt_wf (sd_queues s)" using assms(1) by (simp add: queue_inv_def)
  then have "queued_mset s = add_mset (queued_at s plugin i) (queued_mset (leave_queue plugin i s))" by (rule queued_leave [OF _ assms(2)])
  then show "queued_at s plugin i \<in># queued_mset s" by (metis union_single_eq_member)
qed

theorem sched_inv_take:
  assumes "sched_inv cfg s F" "i < length (plugin_queue s plugin)" "r \<noteq> None \<longrightarrow> \<not> closing_request (sc_request (queued_at s plugin i)) \<and> sc_session (queued_at s plugin i) \<noteq> None"
  shows "sched_inv cfg (take_move plugin i s) (add_mset (queued_at s plugin i, False, r) F)"
proof -
  note parts = sched_inv_parts [OF assms(1)]
  have wf: "bt_wf (sd_queues s)" "bt_wf (sd_sessions s)" "bt_wf (sd_pools s)" using parts by (simp_all add: queue_inv_def call_inv_def)
  have "call_inv s (add_mset (queued_at s plugin i) (queued_mset (take_move plugin i s))) F"
    using parts(2) queued_leave [OF wf(1) assms(2)] by (simp add: queued_take)
  then have c: "call_inv (take_move plugin i s) (queued_mset (take_move plugin i s)) (add_mset (queued_at s plugin i, False, r) F)"
    by (rule call_inv_take) simp
  show ?thesis
    using parts wf assms(2,3) queued_at_call [OF parts(1) assms(2)]
    by (intro sched_invI c) (auto intro: queue_inv_take lease_inv_take owner_inv_take slot_inv_take limit_inv_take)
qed

end
