(* ===== verification/Scheduler_Leases.thy ===== *)
theory Scheduler_Leases
  imports Scheduler_Moves
begin

text \<open>
  Moves that change sessions, reusable instances, pools or one call in flight, and that each of them
  keeps the invariant.
\<close>

section \<open>Replacing a whole map\<close>

lemma sum_dom:
  fixes w :: "'v \<Rightarrow> nat"
  assumes "bt_wf m"
  shows "sum_list (map (\<lambda>e. w (snd e)) m) = (\<Sum>k \<in> dom (bt_get m). w (the (bt_get m k)))"
proof -
  have inj: "inj_on fst (set m)" using bt.distinct_keys [OF assms] by (simp add: distinct_map)
  have dom: "dom (bt_get m) = fst ` set m" using bt.get_iff [OF assms] by (force simp: dom_def)
  have "(\<Sum>k \<in> fst ` set m. w (the (bt_get m k))) = (\<Sum>e \<in> set m. w (the (bt_get m (fst e))))"
    using inj by (simp add: sum.reindex)
  also have "\<dots> = (\<Sum>e \<in> set m. w (snd e))"
    using bt.get_iff [OF assms] by (intro sum.cong) (auto, metis option.sel)
  finally show ?thesis using bt.sum_entries [OF assms, of "\<lambda>e. w (snd e)"] by (simp add: dom)
qed

lemma sum_same:
  fixes w :: "'v \<Rightarrow> nat"
  assumes "bt_wf m" "bt_wf m'" "\<And>k. map_option w (bt_get m' k) = map_option w (bt_get m k)"
  shows "sum_list (map (\<lambda>e. w (snd e)) m') = sum_list (map (\<lambda>e. w (snd e)) m)"
proof -
  have "bt_get m' k = None \<longleftrightarrow> bt_get m k = None" for k
    using assms(3) [of k] by (metis map_option_is_None)
  then have "dom (bt_get m') = dom (bt_get m)" by (auto simp: dom_def)
  moreover have "w (the (bt_get m' k)) = w (the (bt_get m k))" if "k \<in> dom (bt_get m)" for k
    using assms(3) [of k] that by (cases "bt_get m' k"; cases "bt_get m k") auto
  ultimately show ?thesis using sum_dom [OF assms(1), of w] sum_dom [OF assms(2), of w] by simp
qed

text \<open>Two maps agree on a projection of their entries.\<close>

definition same_on :: "('v \<Rightarrow> 'a) \<Rightarrow> ('k :: linorder, 'v) btree \<Rightarrow> ('k, 'v) btree \<Rightarrow> bool" where
  "same_on w m m' \<longleftrightarrow> bt_wf m' \<and> (\<forall>k. map_option w (bt_get m' k) = map_option w (bt_get m k))"

lemma same_on_old: "same_on w m m' \<Longrightarrow> bt_get m k = Some v \<Longrightarrow> \<exists>v'. bt_get m' k = Some v' \<and> w v' = w v"
  unfolding same_on_def by (metis map_option_eq_Some option.simps(9))

lemma same_on_new: "same_on w m m' \<Longrightarrow> bt_get m' k = Some v' \<Longrightarrow> \<exists>v. bt_get m k = Some v \<and> w v' = w v"
  unfolding same_on_def by (metis map_option_eq_Some option.simps(9))

lemma same_on_sub: "same_on w m m' \<Longrightarrow> same_on (\<lambda>v. h (w v)) m m'"
  unfolding same_on_def by (metis (no_types, lifting) map_option_cong option.map_comp comp_apply)

lemma same_on_update: "bt_wf m \<Longrightarrow> (\<And>v. bt_get m k = Some v \<Longrightarrow> w (f v) = w v) \<Longrightarrow> same_on w m (bt_update f k m)"
  by (auto simp: same_on_def option.map_comp comp_def intro!: option.map_cong0 map_option_cong)

lemma same_on_map: "bt_wf m \<Longrightarrow> (\<And>k v. bt_get m k = Some v \<Longrightarrow> w (f k v) = w v) \<Longrightarrow> same_on w m (map (\<lambda>(k, v). (k, f k v)) m)"
  by (auto simp: same_on_def bt_get_map_values bt_wf_map_values option.map_comp comp_def intro!: map_option_cong)

section \<open>Sessions\<close>

definition session_core :: "scheduled_session \<Rightarrow> string \<times> usize \<times> usize \<times> bool \<times> string option" where
  "session_core ss = (ss_pool_id ss, ss_queued ss, ss_unfinished ss, ss_finalization_reservation ss, ss_active ss)"

lemma call_inv_sessions:
  assumes "call_inv s Q F" "same_on (\<lambda>ss. (ss_pool_id ss, ss_queued ss, ss_unfinished ss)) (sd_sessions s) m"
  shows "call_inv (s\<lparr>sd_sessions := m\<rparr>) Q F"
proof -
  have "session_counts m Q F"
    using assms same_on_new [OF assms(2)] by (fastforce simp: call_inv_def session_counts_def)
  moreover have "call_owned (s\<lparr>sd_sessions := m\<rparr>) d c" if "call_owned s d c" for d c
    using that same_on_old [OF assms(2)] by (fastforce simp: call_owned_def)
  ultimately show ?thesis using assms by (auto simp: call_inv_def same_on_def)
qed

lemma owner_inv_sessions:
  assumes "owner_inv s" "same_on ss_pool_id (sd_sessions s) m"
  shows "owner_inv (s\<lparr>sd_sessions := m\<rparr>)"
  using assms same_on_new [OF assms(2)] by (fastforce simp: owner_inv_def)

lemma lease_inv_sessions:
  assumes "lease_inv s F" "same_on (\<lambda>ss. (ss_pool_id ss, ss_finalization_reservation ss, ss_active ss)) (sd_sessions s) m"
    and "\<And>k ss. bt_get m k = Some ss \<Longrightarrow> session_ok (sd_pools s) ss"
  shows "lease_inv (s\<lparr>sd_sessions := m\<rparr>) F"
proof -
  have "flight_ok (s\<lparr>sd_sessions := m\<rparr>) f" if "flight_ok s f" for f
    using that same_on_new [OF assms(2)] by (fastforce simp: flight_ok_def)
  then show ?thesis using assms by (auto simp: lease_inv_def)
qed

lemma slot_inv_sessions:
  assumes "slot_inv s" "bt_wf (sd_sessions s)" "same_on (\<lambda>ss. (ss_pool_id ss, ss_finalization_reservation ss)) (sd_sessions s) m"
  shows "slot_inv (s\<lparr>sd_sessions := m\<rparr>)"
proof -
  have "map_option (session_slot (sd_pools s) k) (bt_get m i) = map_option (session_slot (sd_pools s) k) (bt_get (sd_sessions s) i)" for k i
    using same_on_old [OF assms(3), of i] same_on_new [OF assms(3), of i]
    by (cases "bt_get m i"; cases "bt_get (sd_sessions s) i") (auto simp: session_slot_def)
  then have "reserved_of (s\<lparr>sd_sessions := m\<rparr>) k = reserved_of s k" for k
    using sum_same [OF assms(2), of m "session_slot (sd_pools s) k"] assms(3) by (simp add: reserved_of_def same_on_def)
  then show ?thesis using assms(1) by (simp add: slot_inv_def retained_of_def)
qed

theorem sched_inv_sessions:
  assumes "sched_inv cfg s F" "same_on session_core (sd_sessions s) m"
    and "\<And>k ss. bt_get m k = Some ss \<Longrightarrow> session_ok (sd_pools s) ss"
  shows "sched_inv cfg (s\<lparr>sd_sessions := m\<rparr>) F"
proof -
  note parts = sched_inv_parts [OF assms(1)]
  have wf: "bt_wf (sd_sessions s)" using parts(2) by (simp add: call_inv_def)
  have sub: "same_on (\<lambda>ss. h (session_core ss)) (sd_sessions s) m" for h :: "_ \<Rightarrow> 'x"
    by (rule same_on_sub [OF assms(2)])
  have 1: "same_on (\<lambda>ss. (ss_pool_id ss, ss_queued ss, ss_unfinished ss)) (sd_sessions s) m"
    using same_on_sub [OF assms(2), of "\<lambda>(a, b, c, d, e). (a, b, c)"] by (simp add: session_core_def)
  have 2: "same_on ss_pool_id (sd_sessions s) m" using same_on_sub [OF assms(2), of fst] by (simp add: session_core_def)
  have 3: "same_on (\<lambda>ss. (ss_pool_id ss, ss_finalization_reservation ss, ss_active ss)) (sd_sessions s) m"
    using same_on_sub [OF assms(2), of "\<lambda>(a, b, c, d, e). (a, d, e)"] by (simp add: session_core_def)
  have 4: "same_on (\<lambda>ss. (ss_pool_id ss, ss_finalization_reservation ss)) (sd_sessions s) m"
    using same_on_sub [OF assms(2), of "\<lambda>(a, b, c, d, e). (a, d)"] by (simp add: session_core_def)
  show ?thesis
    using parts call_inv_sessions [OF parts(2) 1] owner_inv_sessions [OF parts(4) 2] lease_inv_sessions [OF parts(3) 3 assms(3)]
      slot_inv_sessions [OF parts(5) wf 4]
    by (intro sched_invI) auto
qed

text \<open>Marking a session as closing.\<close>

lemma session_ok_closing: "session_ok pools ss \<Longrightarrow> session_ok pools (ss\<lparr>ss_closing := True, ss_error := e\<rparr>)"
  by (auto simp: session_ok_def)

section \<open>Reusable instances\<close>

definition reusable_core :: "scheduled_reusable \<Rightarrow> string \<times> bool \<times> string option" where
  "reusable_core u = (su_pool_id u, su_finalization_reservation u, su_active u)"

theorem sched_inv_reusables:
  assumes "sched_inv cfg s F" "same_on reusable_core (sd_reusable_instances s) m"
    and "\<And>k u. bt_get m k = Some u \<Longrightarrow> reusable_ok (sd_pools s) u"
  shows "sched_inv cfg (s\<lparr>sd_reusable_instances := m\<rparr>) F"
proof -
  note parts = sched_inv_parts [OF assms(1)]
  have wf: "bt_wf (sd_reusable_instances s)" using parts(3) by (simp add: lease_inv_def)
  note old = same_on_old [OF assms(2)] and new = same_on_new [OF assms(2)]
  have "flight_ok (s\<lparr>sd_reusable_instances := m\<rparr>) f" if "flight_ok s f" for f
    using that old by (fastforce simp: flight_ok_def reusable_core_def)
  then have l: "lease_inv (s\<lparr>sd_reusable_instances := m\<rparr>) F"
    using parts(3) assms(2,3) by (auto simp: lease_inv_def same_on_def)
  have o: "owner_inv (s\<lparr>sd_reusable_instances := m\<rparr>)"
    using parts(4) new by (fastforce simp: owner_inv_def reusable_core_def)
  have "map_option (reusable_slot (sd_pools s) k) (bt_get m i) = map_option (reusable_slot (sd_pools s) k) (bt_get (sd_reusable_instances s) i)" for k i
    using old [of i] new [of i]
    by (cases "bt_get m i"; cases "bt_get (sd_reusable_instances s) i") (auto simp: reusable_slot_def reusable_core_def)
  then have "reserved_of (s\<lparr>sd_reusable_instances := m\<rparr>) k = reserved_of s k" for k
    using sum_same [OF wf, of m "reusable_slot (sd_pools s) k"] assms(2) by (simp add: reserved_of_def same_on_def)
  then have "slot_inv (s\<lparr>sd_reusable_instances := m\<rparr>)" using parts(5) by (simp add: slot_inv_def retained_of_def)
  then show ?thesis using parts l o by (intro sched_invI) auto
qed

lemma reusable_ok_closing: "reusable_ok pools u \<Longrightarrow> reusable_ok pools (u\<lparr>su_closing := True\<rparr>)"
  by (auto simp: reusable_ok_def)

section \<open>Closing pools\<close>

definition pool_core :: "scheduled_pool \<Rightarrow> string \<times> string option \<times> bool \<times> plugin_pool_config \<times> usize \<times> usize" where
  "pool_core p = (sp_plugin_id p, sp_capacity_id p, sp_finalizer p, sp_policy p, sp_queued p, sp_active p)"

theorem sched_inv_pools:
  assumes "sched_inv cfg s F" "same_on pool_core (sd_pools s) m"
  shows "sched_inv cfg (s\<lparr>sd_pools := m\<rparr>) F"
proof -
  note parts = sched_inv_parts [OF assms(1)]
  have wf: "bt_wf (sd_pools s)" using parts(2) by (simp add: call_inv_def)
  note old = same_on_old [OF assms(2)] and new = same_on_new [OF assms(2)]
  have plugin: "pool_plugin m = pool_plugin (sd_pools s)"
  proof
    fix i show "pool_plugin m i = pool_plugin (sd_pools s) i"
      using old [of i] new [of i] by (cases "bt_get m i"; cases "bt_get (sd_pools s) i") (auto simp: pool_plugin_def pool_core_def)
  qed
  have fin: "finalizes m = finalizes (sd_pools s)"
  proof
    fix i show "finalizes m i = finalizes (sd_pools s) i"
      using old [of i] new [of i] by (cases "bt_get m i"; cases "bt_get (sd_pools s) i") (auto simp: finalizes_def pool_core_def)
  qed
  have active: "active_of m P = active_of (sd_pools s) P" if P: "\<And>p p'. pool_core p = pool_core p' \<Longrightarrow> P p = P p'" for P
  proof -
    have "map_option (\<lambda>p. if P p then sp_active p else 0) (bt_get m i) = map_option (\<lambda>p. if P p then sp_active p else 0) (bt_get (sd_pools s) i)" for i
    proof (cases "bt_get (sd_pools s) i")
      case None
      then show ?thesis using new [of i] by (cases "bt_get m i") auto
    next
      case (Some p)
      then obtain p' where p': "bt_get m i = Some p'" "pool_core p' = pool_core p" using old by blast
      then show ?thesis using Some P [OF p'(2)] by (simp add: pool_core_def)
    qed
    then show ?thesis using sum_same [OF wf, of m "\<lambda>p. if P p then sp_active p else 0"] assms(2) by (simp add: active_of_def same_on_def)
  qed
  have "queue_inv (s\<lparr>sd_pools := m\<rparr>)" using parts(1) by (simp add: queue_inv_def plugin_queue_def plugin)
  moreover have "slot_inv (s\<lparr>sd_pools := m\<rparr>)"
    using parts(5) by (simp add: slot_inv_def reserved_of_def retained_of_def session_slot_def reusable_slot_def plugin)
  moreover have "session_ok m = session_ok (sd_pools s)" "reusable_ok m = reusable_ok (sd_pools s)" "flight_ok (s\<lparr>sd_pools := m\<rparr>) = flight_ok s"
    by (simp_all add: fun_eq_iff session_ok_def reusable_ok_def flight_ok_def fin)
  then have "lease_inv (s\<lparr>sd_pools := m\<rparr>) F" using parts(3) by (simp add: lease_inv_def)
  moreover have "call_inv (s\<lparr>sd_pools := m\<rparr>) (queued_mset s) F"
    using parts(2) new old assms(2) by (fastforce simp: call_inv_def pool_counts_def call_owned_def pool_core_def same_on_def)
  moreover have "owner_inv (s\<lparr>sd_pools := m\<rparr>)"
    using parts(4) new old by (fastforce simp: owner_inv_def pool_core_def)
  moreover have "plugin_active (s\<lparr>sd_pools := m\<rparr>) = plugin_active s" "capacity_active (s\<lparr>sd_pools := m\<rparr>) = capacity_active s"
    using active by (simp_all add: plugin_active_eq capacity_active_eq fun_eq_iff pool_core_def)
  then have "limit_inv cfg (s\<lparr>sd_pools := m\<rparr>)"
    using parts(6) new unfolding limit_inv_def by (fastforce simp: pool_core_def)
  ultimately show ?thesis by (intro sched_invI) auto
qed


text \<open>
  Moves of the one holder of a VM: claiming a session or an instance for a dispatched call, running
  calls, closing calls and the return of a finished call.
\<close>

section \<open>Calls in flight\<close>

definition same_call :: "scheduled_call \<Rightarrow> scheduled_call \<Rightarrow> bool" where
  "same_call c c' \<longleftrightarrow> sc_id c' = sc_id c \<and> sc_pool c' = sc_pool c \<and> sc_session c' = sc_session c"

lemma flight_unique:
  assumes "call_inv s Q (add_mset f F)" "f' \<in># F"
  shows "sc_id (fl_call f') \<noteq> sc_id (fl_call f)"
proof
  assume "sc_id (fl_call f') = sc_id (fl_call f)"
  then have "0 < cnt (\<lambda>x. sc_id (fl_call x) = sc_id (fl_call f)) F" using assms(2) by (auto intro: cnt_pos)
  moreover have "cnt (\<lambda>c. sc_id c = sc_id (fl_call f)) Q + cnt (\<lambda>x. sc_id (fl_call x) = sc_id (fl_call f)) (add_mset f F) \<le> 1"
    using assms(1) by (simp only: call_inv_def live_exact_def) (simp split: if_splits)
  ultimately show False by simp
qed

lemma live_exact_replace: "same_call c c' \<Longrightarrow> live_exact live Q (add_mset (c, d, r) F) = live_exact live Q (add_mset (c', d', r') F)"
  by (simp add: live_exact_def same_call_def)

lemma call_inv_replace:
  assumes "call_inv s Q (add_mset (c, d, r) F)" "same_call c c'"
  shows "call_inv s Q (add_mset (c', d, r') F)"
  using assms live_exact_replace [OF assms(2), of "sd_live s" Q d r F d r']
  by (auto simp: call_inv_def pool_counts_def session_counts_def call_owned_def same_call_def)

theorem sched_inv_replace:
  assumes "sched_inv cfg s (add_mset (c, d, r) F)" "same_call c c'" "flight_ok s (c', d, r')"
  shows "sched_inv cfg s (add_mset (c', d, r') F)"
  using sched_inv_parts [OF assms(1)] assms(2,3) by (intro sched_invI) (auto simp: lease_inv_def intro: call_inv_replace)

section \<open>Running\<close>

definition activate_move :: "string \<Rightarrow> scheduler_state \<Rightarrow> scheduler_state" where
  "activate_move pool s = s\<lparr>sd_pools := bt_update (\<lambda>p. p\<lparr>sp_active := sp_active p + 1\<rparr>) pool (sd_pools s)\<rparr>"

text \<open>There is room for one more running call in the pool, its plugin and its capacity.\<close>

definition room :: "string \<Rightarrow> scheduler_state \<Rightarrow> bool" where
  "room pool s \<longleftrightarrow> (\<exists>p. bt_get (sd_pools s) pool = Some p \<and> sp_active p < pool_max_running_calls (sp_policy p) \<and>
     (\<forall>g. bt_get (sd_plugins s) (sp_plugin_id p) = Some g \<longrightarrow> plugin_active s (sp_plugin_id p) < plg_max_running_calls (sg_config g)) \<and>
     (\<forall>k kk. sp_capacity_id p = Some k \<and> bt_get (sd_capacities s) k = Some kk \<longrightarrow>
        capacity_active s k < cap_max_running_calls (ccf_resources (sk_config kk))))"

lemma activate_counts:
  assumes "bt_wf (sd_pools s)" "bt_get (sd_pools s) pool = Some p"
  shows "plugin_active (activate_move pool s) k = plugin_active s k + of_bool (sp_plugin_id p = k)"
    "capacity_active (activate_move pool s) k = capacity_active s k + of_bool (sp_capacity_id p = Some k)"
  using active_of_update [OF assms, of "\<lambda>p. p\<lparr>sp_active := sp_active p + 1\<rparr>" "\<lambda>p. sp_plugin_id p = k"]
    active_of_update [OF assms, of "\<lambda>p. p\<lparr>sp_active := sp_active p + 1\<rparr>" "\<lambda>p. sp_capacity_id p = Some k"]
  by (auto simp: plugin_active_eq capacity_active_eq activate_move_def keeps_pool_fields)

lemma limit_inv_activate:
  assumes "limit_inv cfg s" "bt_wf (sd_pools s)" "room pool s"
  shows "limit_inv cfg (activate_move pool s)"
proof -
  obtain p where p: "bt_get (sd_pools s) pool = Some p" using assms(3) by (auto simp: room_def)
  show ?thesis
    using assms(1,3) p unfolding limit_inv_def activate_counts [OF assms(2) p]
    by (auto simp: activate_move_def room_def Suc_le_eq split: if_splits)
qed

lemma call_inv_activate:
  assumes "call_inv s Q (add_mset (c, False, r) F)" "same_call c c'" "bt_get (sd_pools s) (sc_pool c) \<noteq> None"
  shows "call_inv (activate_move (sc_pool c) s) Q (add_mset (c', True, r') F)"
proof -
  have "pool_counts (sd_pools (activate_move (sc_pool c) s)) Q (add_mset (c', True, r') F)"
    "session_counts (sd_sessions s) Q (add_mset (c', True, r') F)"
    using assms by (auto simp: call_inv_def pool_counts_def session_counts_def activate_move_def same_call_def)
  moreover have "call_owned (activate_move (sc_pool c) s) d x" if "call_owned s d x" for d x
    using that by (auto simp: call_owned_def activate_move_def)
  moreover have "call_owned (activate_move (sc_pool c) s) True c'"
    using assms by (auto simp: call_inv_def call_owned_def activate_move_def same_call_def)
  ultimately show ?thesis
    using assms live_exact_replace [OF assms(2), of "sd_live s" Q False r F True r']
    by (auto simp: call_inv_def activate_move_def)
qed

theorem sched_inv_activate:
  assumes "sched_inv cfg s (add_mset (c, False, r) F)" "same_call c c'" "room (sc_pool c) s" "flight_ok s (c', True, r')"
  shows "sched_inv cfg (activate_move (sc_pool c) s) (add_mset (c', True, r') F)"
proof -
  note parts = sched_inv_parts [OF assms(1)]
  have wf: "bt_wf (sd_pools s)" using parts(2) by (simp add: call_inv_def)
  have "bt_get (sd_pools s) (sc_pool c) \<noteq> None" using assms(3) by (auto simp: room_def)
  then have "call_inv (activate_move (sc_pool c) s) (queued_mset s) (add_mset (c', True, r') F)"
    by (rule call_inv_activate [OF parts(2) assms(2)])
  moreover have "lease_inv s (add_mset (c', True, r') F)" using parts(3) assms(4) by (auto simp: lease_inv_def)
  ultimately show ?thesis
    using parts(1,4,5) limit_inv_activate [OF parts(6) wf assms(3)]
    by (intro sched_invI) (simp_all add: activate_move_def owner_inv_pool)
qed

section \<open>Claiming a session\<close>

definition claim_session :: "string \<Rightarrow> string \<Rightarrow> (scheduled_session \<Rightarrow> invocation_context) \<Rightarrow> scheduler_state \<Rightarrow> scheduler_state" where
  "claim_session k ident x s =
     s\<lparr>sd_sessions := bt_update (\<lambda>ss. ss\<lparr>ss_lease := None, ss_active := Some ident, ss_finalization_context := x ss\<rparr>) k (sd_sessions s)\<rparr>"

lemma idle_session_unheld:
  assumes "lease_inv s F" "bt_get (sd_sessions s) k = Some ss" "ss_active ss = None" "f \<in># F"
  shows "\<not> (fl_dispatched f \<and> sc_session (fl_call f) = Some k)"
  using assms by (auto simp: lease_inv_def flight_ok_def)

lemma lease_inv_claim_session:
  assumes "lease_inv s F" "bt_get (sd_sessions s) k = Some ss" "ss_active ss = None" "\<not> ss_closing ss"
  shows "lease_inv (claim_session k ident x s) F"
proof -
  have "flight_ok (claim_session k ident x s) f" if "f \<in># F" for f
    using assms(1) that idle_session_unheld [OF assms(1,2,3) that] by (auto simp: lease_inv_def flight_ok_def claim_session_def split: if_splits)
  moreover have "session_ok (sd_pools s) ss" using assms(1,2) by (simp add: lease_inv_def)
  ultimately show ?thesis
    using assms by (auto simp: lease_inv_def claim_session_def session_ok_def split: if_splits)
qed

theorem sched_inv_claim_session:
  assumes "sched_inv cfg s F" "bt_get (sd_sessions s) k = Some ss" "ss_active ss = None" "\<not> ss_closing ss"
  shows "sched_inv cfg (claim_session k ident x s) F"
proof -
  note parts = sched_inv_parts [OF assms(1)]
  have wf: "bt_wf (sd_sessions s)" using parts(2) by (simp add: call_inv_def)
  have same: "same_on (\<lambda>ss. (ss_pool_id ss, ss_queued ss, ss_unfinished ss, ss_finalization_reservation ss)) (sd_sessions s)
      (bt_update (\<lambda>ss. ss\<lparr>ss_lease := None, ss_active := Some ident, ss_finalization_context := x ss\<rparr>) k (sd_sessions s))"
    by (rule same_on_update [OF wf]) simp
  have c: "call_inv (claim_session k ident x s) (queued_mset s) F"
    unfolding claim_session_def
    by (rule call_inv_sessions [OF parts(2)]) (use same_on_sub [OF same, of "\<lambda>(a, b, c, d). (a, b, c)"] in simp)
  have o: "owner_inv (claim_session k ident x s)"
    unfolding claim_session_def by (rule owner_inv_sessions [OF parts(4)]) (use same_on_sub [OF same, of fst] in simp)
  have "slot_inv (claim_session k ident x s)"
    unfolding claim_session_def
    by (rule slot_inv_sessions [OF parts(5) wf]) (use same_on_sub [OF same, of "\<lambda>(a, b, c, d). (a, d)"] in simp)
  then show ?thesis
    using c o parts(1,6) lease_inv_claim_session [OF parts(3) assms(2,3,4), of ident x]
    by (intro sched_invI) (simp_all add: claim_session_def)
qed

section \<open>Claiming an instance\<close>

definition claim_reusable :: "string \<Rightarrow> string \<Rightarrow> (scheduled_reusable \<Rightarrow> invocation_context) \<Rightarrow> scheduler_state \<Rightarrow> scheduler_state" where
  "claim_reusable k ident x s =
     s\<lparr>sd_reusable_instances := bt_update (\<lambda>u. u\<lparr>su_finalization_context := x u, su_active := Some ident, su_lease := None\<rparr>) k (sd_reusable_instances s)\<rparr>"

lemma idle_instance_unheld:
  assumes "lease_inv s F" "bt_get (sd_reusable_instances s) k = Some u" "su_active u = None" "f \<in># F"
  shows "sc_reusable_instance (fl_call f) \<noteq> Some k"
  using assms by (auto simp: lease_inv_def flight_ok_def)

lemma lease_inv_reusables:
  assumes "lease_inv s F" "bt_wf m" "\<And>i u. bt_get m i = Some u \<Longrightarrow> reusable_ok (sd_pools s) u"
    and "\<And>f i. f \<in># F \<Longrightarrow> sc_reusable_instance (fl_call f) = Some i \<Longrightarrow> bt_get m i = bt_get (sd_reusable_instances s) i"
  shows "lease_inv (s\<lparr>sd_reusable_instances := m\<rparr>) F"
proof -
  have "flight_ok (s\<lparr>sd_reusable_instances := m\<rparr>) f" if f: "f \<in># F" for f
  proof -
    have ok: "flight_ok s f" using assms(1) f by (simp add: lease_inv_def)
    show ?thesis
    proof (cases "sc_reusable_instance (fl_call f)")
      case None
      then show ?thesis using ok by (auto simp: flight_ok_def)
    next
      case (Some i)
      then show ?thesis using ok assms(4) [OF f Some] by (auto simp: flight_ok_def)
    qed
  qed
  then show ?thesis using assms by (auto simp: lease_inv_def)
qed

theorem sched_inv_claim_reusable:
  assumes "sched_inv cfg s F" "bt_get (sd_reusable_instances s) k = Some u" "reusable_idle u"
  shows "sched_inv cfg (claim_reusable k ident x s) F"
proof -
  note parts = sched_inv_parts [OF assms(1)]
  have wf: "bt_wf (sd_reusable_instances s)" using parts(3) by (simp add: lease_inv_def)
  have ok: "reusable_ok (sd_pools s) u" using parts(3) assms(2) by (simp add: lease_inv_def)
  have unheld: "sc_reusable_instance (fl_call f) \<noteq> Some k" if "f \<in># F" for f
    using idle_instance_unheld [OF parts(3) assms(2) _ that] assms(3) by (simp add: reusable_idle_def)
  have l: "lease_inv (claim_reusable k ident x s) F"
    unfolding claim_reusable_def
    using parts(3) wf ok unheld assms(2,3)
    by (intro lease_inv_reusables) (auto simp: lease_inv_def reusable_ok_def reusable_idle_def split: if_splits)
  have "owner_inv (claim_reusable k ident x s)"
    using parts(4) assms(2) by (fastforce simp: owner_inv_def claim_reusable_def split: if_splits)
  moreover have "reserved_of (claim_reusable k ident x s) = reserved_of s"
    using wf by (simp add: reserved_of_def claim_reusable_def fun_eq_iff sum_bt_update_same reusable_slot_def)
  then have "slot_inv (claim_reusable k ident x s)"
    using parts(5) unfolding slot_inv_def by (simp add: retained_of_def claim_reusable_def)
  ultimately show ?thesis using parts(1,2,6) l by (intro sched_invI) (simp_all add: claim_reusable_def)
qed

end
