(* ===== verification/Scheduler_Returns.thy ===== *)
theory Scheduler_Returns
  imports Scheduler_Leases
begin

text \<open>
  Moves that change the operation slots of a plugin: new and removed instances, closing calls, drained
  sessions, forgotten operations, and the return of a finished call.
\<close>

section \<open>Plugins\<close>

definition keeps_queue :: "(scheduled_plugin \<Rightarrow> scheduled_plugin) \<Rightarrow> bool" where
  "keeps_queue f \<longleftrightarrow> (\<forall>g. sg_config (f g) = sg_config g \<and> sg_queued (f g) = sg_queued g \<and> sg_bytes (f g) = sg_bytes g)"

lemma keeps_queue_intros [simp]:
  "keeps_queue (\<lambda>g. g\<lparr>sg_reserved_operations := a g\<rparr>)" "keeps_queue (\<lambda>g. g\<lparr>sg_operations := b g\<rparr>)" "keeps_queue (\<lambda>g. g\<lparr>sg_closing := c g\<rparr>)"
  "keeps_queue (\<lambda>g. g\<lparr>sg_operations := b g, sg_reserved_operations := a g\<rparr>)"
  by (simp_all add: keeps_queue_def)

lemma queue_inv_plugin:
  assumes "keeps_queue f" "queue_inv s"
  shows "queue_inv (s\<lparr>sd_plugins := bt_update f k (sd_plugins s)\<rparr>)"
  using assms by (auto simp: queue_inv_def plugin_queue_def keeps_queue_def split: if_splits)

lemma limit_inv_plugin:
  assumes "keeps_queue f" "limit_inv cfg s"
  shows "limit_inv cfg (s\<lparr>sd_plugins := bt_update f k (sd_plugins s)\<rparr>)"
  using assms by (auto simp: limit_inv_def keeps_queue_def plugin_active_eq capacity_active_eq split: if_splits)

text \<open>The slots of a plugin, apart from how the sums are computed.\<close>

lemma slot_inv_change:
  assumes "slot_inv s" "bt_wf (sd_operation_plugins t)" "same_on sg_config (sd_plugins s) (sd_plugins t)"
    and "\<And>k g g'. bt_get (sd_plugins s) k = Some g \<Longrightarrow> bt_get (sd_plugins t) k = Some g' \<Longrightarrow> sg_operations g = retained_of s k \<Longrightarrow>
      reserved_of s k \<le> sg_reserved_operations g \<Longrightarrow> retained_of s k + sg_reserved_operations g \<le> plg_max_operations (sg_config g) \<Longrightarrow>
      sg_operations g' = retained_of t k \<and> reserved_of t k \<le> sg_reserved_operations g' \<and> retained_of t k + sg_reserved_operations g' \<le> plg_max_operations (sg_config g)"
    and "\<And>i k. bt_get (sd_operation_plugins t) i = Some k \<Longrightarrow> bt_get (sd_plugins t) k \<noteq> None"
  shows "slot_inv t"
proof -
  have "sg_operations g' = retained_of t k \<and> reserved_of t k \<le> sg_reserved_operations g' \<and> retained_of t k + sg_reserved_operations g' \<le> plg_max_operations (sg_config g')"
    if g': "bt_get (sd_plugins t) k = Some g'" for k g'
  proof -
    obtain g where g: "bt_get (sd_plugins s) k = Some g" "sg_config g' = sg_config g" using same_on_new [OF assms(3) g'] by blast
    then show ?thesis using assms(1) assms(4) [OF g(1) g'] by (simp add: slot_inv_def)
  qed
  then show ?thesis using assms(2,5) by (simp add: slot_inv_def)
qed

section \<open>Instances\<close>

definition add_reusable :: "string \<Rightarrow> string \<Rightarrow> scheduled_reusable \<Rightarrow> scheduler_state \<Rightarrow> scheduler_state" where
  "add_reusable plugin i u s = s\<lparr>
     sd_plugins := (if su_finalization_reservation u then bt_update (\<lambda>g. g\<lparr>sg_reserved_operations := sg_reserved_operations g + 1\<rparr>) plugin (sd_plugins s) else sd_plugins s),
     sd_reusable_instances := bt_insert i u (sd_reusable_instances s)\<rparr>"

lemma same_on_refl: "bt_wf m \<Longrightarrow> same_on w m m"
  by (simp add: same_on_def)

theorem sched_inv_add_reusable:
  assumes "sched_inv cfg s F" "bt_get (sd_reusable_instances s) i = None" "reusable_ok (sd_pools s) u"
    and "pool_plugin (sd_pools s) (su_pool_id u) = Some plugin" "bt_get (sd_plugins s) plugin = Some g"
    and "su_finalization_reservation u \<longrightarrow> sg_operations g + sg_reserved_operations g < plg_max_operations (sg_config g)"
  shows "sched_inv cfg (add_reusable plugin i u s) F"
proof -
  note parts = sched_inv_parts [OF assms(1)]
  let ?t = "add_reusable plugin i u s"
  have wf: "bt_wf (sd_reusable_instances s)" "bt_wf (sd_plugins s)" using parts by (simp_all add: lease_inv_def queue_inv_def)
  have "lease_inv (s\<lparr>sd_reusable_instances := bt_insert i u (sd_reusable_instances s)\<rparr>) F"
    using parts(3) wf assms(2,3) by (intro lease_inv_reusables) (auto simp: lease_inv_def flight_ok_def split: if_splits)
  then have l: "lease_inv ?t F" by (auto simp: add_reusable_def lease_inv_def flight_ok_def)
  have o: "owner_inv ?t"
    using parts(4) assms(4) by (fastforce simp: owner_inv_def add_reusable_def pool_plugin_def split: if_splits)
  have r: "reserved_of ?t k = reserved_of s k + of_bool (su_finalization_reservation u \<and> k = plugin)" for k
    using bt.sum_put_new [OF wf(1) assms(2), of "\<lambda>e. reusable_slot (sd_pools s) k (snd e)" u] assms(4)
    by (auto simp: reserved_of_def add_reusable_def reusable_slot_def)
  have "slot_inv ?t"
  proof (rule slot_inv_change [OF parts(5)])
    show "same_on sg_config (sd_plugins s) (sd_plugins ?t)"
      using wf(2) by (auto simp: add_reusable_def intro!: same_on_update same_on_refl)
    show "bt_get (sd_operation_plugins ?t) j = Some k \<Longrightarrow> bt_get (sd_plugins ?t) k \<noteq> None" for j k
      using parts(5) by (auto simp: slot_inv_def add_reusable_def)
  qed (use parts(5) assms(5,6) r in \<open>auto simp: slot_inv_def add_reusable_def retained_of_def split: if_splits\<close>)
  moreover have "queue_inv ?t" "limit_inv cfg ?t"
    using parts(1,6) queue_inv_plugin [of "\<lambda>g. g\<lparr>sg_reserved_operations := sg_reserved_operations g + 1\<rparr>" s plugin]
      limit_inv_plugin [of "\<lambda>g. g\<lparr>sg_reserved_operations := sg_reserved_operations g + 1\<rparr>" cfg s plugin]
    by (simp_all add: add_reusable_def)
  ultimately show ?thesis using parts(2) l o by (intro sched_invI) (simp_all add: add_reusable_def)
qed

text \<open>Removing an instance no call holds.\<close>

definition remove_reusable :: "string \<Rightarrow> string \<Rightarrow> scheduled_reusable \<Rightarrow> scheduler_state \<Rightarrow> scheduler_state" where
  "remove_reusable plugin i u s = s\<lparr>
     sd_plugins := (if su_finalization_reservation u then bt_update (\<lambda>g. g\<lparr>sg_reserved_operations := sg_reserved_operations g - 1\<rparr>) plugin (sd_plugins s) else sd_plugins s),
     sd_reusable_instances := bt_remove i (sd_reusable_instances s)\<rparr>"

lemma reserved_remove:
  assumes "bt_wf (sd_reusable_instances s)" "bt_get (sd_reusable_instances s) i = Some u" "pool_plugin (sd_pools s) (su_pool_id u) = Some plugin"
  shows "reserved_of (remove_reusable plugin i u s) k + of_bool (su_finalization_reservation u \<and> k = plugin) = reserved_of s k"
  using bt.sum_del_old [OF assms(1,2), of "\<lambda>e. reusable_slot (sd_pools s) k (snd e)"] assms(3)
  by (auto simp: reserved_of_def remove_reusable_def reusable_slot_def)

theorem sched_inv_remove_reusable:
  assumes "sched_inv cfg s F" "bt_get (sd_reusable_instances s) i = Some u" "pool_plugin (sd_pools s) (su_pool_id u) = Some plugin"
    and "\<And>f. f \<in># F \<Longrightarrow> sc_reusable_instance (fl_call f) \<noteq> Some i"
  shows "sched_inv cfg (remove_reusable plugin i u s) F"
proof -
  note parts = sched_inv_parts [OF assms(1)]
  let ?t = "remove_reusable plugin i u s"
  have wf: "bt_wf (sd_reusable_instances s)" "bt_wf (sd_plugins s)" using parts by (simp_all add: lease_inv_def queue_inv_def)
  have "lease_inv (s\<lparr>sd_reusable_instances := bt_remove i (sd_reusable_instances s)\<rparr>) F"
    using parts(3) wf assms(4) by (intro lease_inv_reusables) (auto simp: lease_inv_def bt_get_remove split: if_splits)
  then have l: "lease_inv ?t F" by (auto simp: remove_reusable_def lease_inv_def flight_ok_def)
  have o: "owner_inv ?t"
    using parts(4) wf by (fastforce simp: owner_inv_def remove_reusable_def bt_get_remove split: if_splits)
  note r = reserved_remove [OF wf(1) assms(2,3)]
  have "slot_inv ?t"
  proof (rule slot_inv_change [OF parts(5)])
    show "same_on sg_config (sd_plugins s) (sd_plugins ?t)"
      using wf(2) by (auto simp: remove_reusable_def intro!: same_on_update same_on_refl)
    show "bt_get (sd_operation_plugins ?t) j = Some k \<Longrightarrow> bt_get (sd_plugins ?t) k \<noteq> None" for j k
      using parts(5) by (auto simp: slot_inv_def remove_reusable_def)
    show "sg_operations g' = retained_of ?t k \<and> reserved_of ?t k \<le> sg_reserved_operations g' \<and> retained_of ?t k + sg_reserved_operations g' \<le> plg_max_operations (sg_config g)"
      if "bt_get (sd_plugins s) k = Some g" "bt_get (sd_plugins ?t) k = Some g'" "sg_operations g = retained_of s k"
        "reserved_of s k \<le> sg_reserved_operations g" "retained_of s k + sg_reserved_operations g \<le> plg_max_operations (sg_config g)" for k g g'
      using that r [of k] by (auto simp: remove_reusable_def retained_of_def split: if_splits)
  qed (use parts(5) in \<open>simp add: slot_inv_def remove_reusable_def\<close>)
  moreover have "queue_inv ?t" "limit_inv cfg ?t"
    using parts(1,6) queue_inv_plugin [of "\<lambda>g. g\<lparr>sg_reserved_operations := sg_reserved_operations g - 1\<rparr>" s plugin]
      limit_inv_plugin [of "\<lambda>g. g\<lparr>sg_reserved_operations := sg_reserved_operations g - 1\<rparr>" cfg s plugin]
    by (simp_all add: remove_reusable_def)
  ultimately show ?thesis using parts(2) l o by (intro sched_invI) (simp_all add: remove_reusable_def)
qed

section \<open>Closing calls\<close>

text \<open>A closing call trades a reserved slot for a retained operation and runs at once.\<close>

definition closing_move :: "string \<Rightarrow> scheduled_call \<Rightarrow> scheduler_state \<Rightarrow> scheduler_state" where
  "closing_move plugin call s = s\<lparr>
     sd_plugins := bt_update (\<lambda>g. g\<lparr>sg_reserved_operations := sg_reserved_operations g - 1, sg_operations := sg_operations g + 1\<rparr>) plugin (sd_plugins s),
     sd_operation_plugins := bt_insert (sc_id call) plugin (sd_operation_plugins s),
     sd_live := bt_insert (sc_id call) (sc_control call) (sd_live s),
     sd_pools := bt_update (\<lambda>p. p\<lparr>sp_active := sp_active p + 1\<rparr>) (sc_pool call) (sd_pools s)\<rparr>"

definition claim_closing_session :: "string \<Rightarrow> string \<Rightarrow> scheduler_state \<Rightarrow> scheduler_state" where
  "claim_closing_session k ident s = s\<lparr>sd_sessions := bt_update (\<lambda>ss. ss\<lparr>ss_finalization_reservation := False,
     ss_finalization_context := context_default, ss_lease := None, ss_finalization_operation := Some ident, ss_active := Some ident,
     ss_unfinished := ss_unfinished ss + 1\<rparr>) k (sd_sessions s)\<rparr>"

definition claim_closing_reusable :: "string \<Rightarrow> string \<Rightarrow> scheduler_state \<Rightarrow> scheduler_state" where
  "claim_closing_reusable i ident s = s\<lparr>sd_reusable_instances := bt_update (\<lambda>u. u\<lparr>su_finalization_reservation := False,
     su_finalization_context := context_default, su_lease := None, su_active := Some ident\<rparr>) i (sd_reusable_instances s)\<rparr>"

lemma live_exact_start:
  assumes "live_exact live Q F" "bt_get live (sc_id c) = None"
  shows "live_exact (bt_insert (sc_id c) v live) Q (add_mset (c, d, r) F)"
  by (rule live_exact_take [OF live_exact_add [OF assms]])

text \<open>What both kinds of closing call share: every slot of the plugin moves from reserved to retained.\<close>

lemma slot_inv_closing:
  assumes "slot_inv s" "bt_wf (sd_plugins s)" "bt_get (sd_plugins s) plugin \<noteq> None" "bt_get (sd_operation_plugins s) (sc_id call) = None"
    and "sd_plugins t = sd_plugins s" "sd_operation_plugins t = sd_operation_plugins s"
    and "\<And>k. reserved_of (closing_move plugin call t) k + of_bool (k = plugin) = reserved_of s k"
  shows "slot_inv (closing_move plugin call t)"
proof (rule slot_inv_change [OF assms(1)])
  let ?t = "closing_move plugin call t"
  have wf: "bt_wf (sd_operation_plugins s)" using assms(1) by (simp add: slot_inv_def)
  then show "bt_wf (sd_operation_plugins ?t)" by (simp add: closing_move_def assms(6))
  show "same_on sg_config (sd_plugins s) (sd_plugins ?t)"
    using assms(2) by (auto simp: closing_move_def assms(5) intro!: same_on_update)
  show "bt_get (sd_operation_plugins ?t) j = Some k \<Longrightarrow> bt_get (sd_plugins ?t) k \<noteq> None" for j k
    using assms(1,3) by (auto simp: slot_inv_def closing_move_def assms(5,6) split: if_splits)
  have o: "retained_of ?t k = retained_of s k + of_bool (k = plugin)" for k
    using bt.sum_put_new [OF wf assms(4), of "\<lambda>e. of_bool (snd e = k)" plugin] by (auto simp: retained_of_def closing_move_def assms(6))
  show "sg_operations g' = retained_of ?t k \<and> reserved_of ?t k \<le> sg_reserved_operations g' \<and> retained_of ?t k + sg_reserved_operations g' \<le> plg_max_operations (sg_config g)"
    if "bt_get (sd_plugins s) k = Some g" "bt_get (sd_plugins ?t) k = Some g'" "sg_operations g = retained_of s k"
      "reserved_of s k \<le> sg_reserved_operations g" "retained_of s k + sg_reserved_operations g \<le> plg_max_operations (sg_config g)" for k g g'
    using that assms(7) [of k] o [of k] by (auto simp: closing_move_def assms(5) split: if_splits)
qed

lemma limit_inv_closing:
  assumes "limit_inv cfg s" "bt_wf (sd_pools s)" "room (sc_pool call) s"
  shows "limit_inv cfg (closing_move plugin call s)"
proof -
  have "limit_inv cfg (activate_move (sc_pool call) s)" by (rule limit_inv_activate [OF assms])
  then have "limit_inv cfg ((activate_move (sc_pool call) s)\<lparr>sd_plugins := bt_update (\<lambda>g. g\<lparr>sg_reserved_operations := sg_reserved_operations g - 1, sg_operations := sg_operations g + 1\<rparr>)
      plugin (sd_plugins (activate_move (sc_pool call) s))\<rparr>)"
    by (rule limit_inv_plugin [rotated]) (simp add: keeps_queue_def)
  then show ?thesis by (simp add: closing_move_def activate_move_def limit_inv_def plugin_active_eq capacity_active_eq)
qed

lemma queue_inv_closing:
  assumes "queue_inv s"
  shows "queue_inv (closing_move plugin call s)"
proof -
  have "queue_inv (s\<lparr>sd_plugins := bt_update (\<lambda>g. g\<lparr>sg_reserved_operations := sg_reserved_operations g - 1, sg_operations := sg_operations g + 1\<rparr>) plugin (sd_plugins s)\<rparr>)"
    by (rule queue_inv_plugin [OF _ assms]) (simp add: keeps_queue_def)
  then show ?thesis by (simp add: closing_move_def queue_inv_def plugin_queue_def)
qed

lemma owner_inv_closing: "owner_inv s \<Longrightarrow> owner_inv (closing_move plugin call s)"
  by (fastforce simp: owner_inv_def closing_move_def split: if_splits)

lemma lease_inv_closing: "lease_inv (closing_move plugin call s) F = lease_inv s F"
  by (auto simp: lease_inv_def flight_ok_def closing_move_def)

lemma closing_move_others [simp]:
  "sd_sessions (closing_move plugin call s) = sd_sessions s" "sd_reusable_instances (closing_move plugin call s) = sd_reusable_instances s"
  "queued_calls (closing_move plugin call s) = queued_calls s"
  by (simp_all add: closing_move_def)

lemma call_inv_closing:
  assumes "call_inv s Q F" "bt_get (sd_live s) (sc_id call) = None" "bt_get (sd_pools s) (sc_pool call) \<noteq> None" "bt_wf m"
    and "session_counts m Q (add_mset (call, True, None) F)" "\<And>d c. call_owned s d c \<Longrightarrow> call_owned (s\<lparr>sd_sessions := m\<rparr>) d c"
    and "call_owned (s\<lparr>sd_sessions := m\<rparr>) True call"
  shows "call_inv (closing_move plugin call (s\<lparr>sd_sessions := m\<rparr>)) Q (add_mset (call, True, None) F)"
proof -
  let ?t = "closing_move plugin call (s\<lparr>sd_sessions := m\<rparr>)"
  have "pool_counts (sd_pools ?t) Q (add_mset (call, True, None) F)"
    using assms(1) by (auto simp: call_inv_def pool_counts_def closing_move_def)
  moreover have "live_exact (sd_live ?t) Q (add_mset (call, True, None) F)"
    using assms(1,2) by (simp add: call_inv_def closing_move_def live_exact_start)
  moreover have "call_owned ?t d c" if "call_owned (s\<lparr>sd_sessions := m\<rparr>) d c" for d c
    using that by (auto simp: call_owned_def closing_move_def)
  moreover have "bt_wf (sd_pools ?t)" "bt_wf (sd_live ?t)" using assms(1) by (auto simp: call_inv_def closing_move_def)
  ultimately show ?thesis using assms by (auto simp: call_inv_def)
qed

theorem sched_inv_closing_session:
  assumes "sched_inv cfg s F" "bt_get (sd_sessions s) k = Some ss" "ss_active ss = None" "ss_lease ss \<noteq> None" "ss_finalization_reservation ss"
    and "sc_request call = CloseSession (ss_pool_id ss) k x" "sc_reusable_instance call = None"
    and "pool_plugin (sd_pools s) (ss_pool_id ss) = Some plugin" "room (ss_pool_id ss) s"
    and "bt_get (sd_live s) (sc_id call) = None" "bt_get (sd_operation_plugins s) (sc_id call) = None"
  shows "sched_inv cfg (closing_move plugin call (claim_closing_session k (sc_id call) s)) (add_mset (call, True, None) F)"
proof -
  note parts = sched_inv_parts [OF assms(1)]
  let ?m = "claim_closing_session k (sc_id call) s" and ?f = "(call, True, None)"
  let ?t = "closing_move plugin call ?m"
  have wf: "bt_wf (sd_sessions s)" "bt_wf (sd_pools s)" "bt_wf (sd_plugins s)" using parts by (simp_all add: call_inv_def queue_inv_def)
  obtain p where p: "bt_get (sd_pools s) (ss_pool_id ss) = Some p" "sp_plugin_id p = plugin" using assms(8) by (auto simp: pool_plugin_def)
  have g: "bt_get (sd_plugins s) plugin \<noteq> None" using parts(4) p by (auto simp: owner_inv_def)
  have unheld: "\<not> (fl_dispatched f \<and> sc_session (fl_call f) = Some k)" if "f \<in># F" for f
    by (rule idle_session_unheld [OF parts(3) assms(2,3) that])
  have "session_ok (sd_pools s) ss" using parts(3) assms(2) by (simp add: lease_inv_def)
  moreover have "flight_ok ?m f" if "f \<in># F" for f
    using parts(3) that unheld [OF that] by (auto simp: lease_inv_def flight_ok_def claim_closing_session_def split: if_splits)
  moreover have "flight_ok ?m ?f" using assms(6,7) by (auto simp: flight_ok_def claim_closing_session_def)
  ultimately have l: "lease_inv ?m (add_mset ?f F)"
    using parts(3) assms(2,3,4) by (auto simp: lease_inv_def claim_closing_session_def session_ok_def split: if_splits)
  have o: "owner_inv ?m" using parts(4) assms(2) by (fastforce simp: owner_inv_def claim_closing_session_def split: if_splits)
  have c: "call_inv ?t (queued_mset s) (add_mset ?f F)"
    unfolding claim_closing_session_def
  proof (rule call_inv_closing [OF parts(2)])
    show "session_counts (bt_update (\<lambda>ss. ss\<lparr>ss_finalization_reservation := False, ss_finalization_context := context_default, ss_lease := None,
        ss_finalization_operation := Some (sc_id call), ss_active := Some (sc_id call), ss_unfinished := ss_unfinished ss + 1\<rparr>) k (sd_sessions s))
      (queued_mset s) (add_mset ?f F)"
      using parts(2) assms(6) by (auto simp: call_inv_def session_counts_def)
  qed (use assms p wf in \<open>auto simp: call_owned_def\<close>)
  have "reserved_of ?t j + of_bool (j = plugin) = reserved_of s j" for j
    using sum_bt_update [OF wf(1) assms(2), of "\<lambda>e. session_slot (sd_pools s) j (snd e)"] assms(5,8)
    by (auto simp: reserved_of_def closing_move_def claim_closing_session_def session_slot_def)
  then have "slot_inv ?t"
    using parts(5) wf g assms(11) by (intro slot_inv_closing) (simp_all add: claim_closing_session_def)
  moreover have "limit_inv cfg ?m" "bt_wf (sd_pools ?m)" "room (sc_pool call) ?m"
    using parts(6) wf assms(6,9) by (simp_all add: claim_closing_session_def room_def plugin_active_eq capacity_active_eq)
  then have "limit_inv cfg ?t" by (rule limit_inv_closing)
  moreover have "queue_inv ?t" using parts(1) by (intro queue_inv_closing) (simp add: claim_closing_session_def)
  ultimately show ?thesis
    using c l o by (intro sched_invI) (simp_all add: lease_inv_closing owner_inv_closing claim_closing_session_def)
qed


text \<open>The closing calls of reusable instances, drained sessions and the return of a finished call.\<close>

section \<open>Closing instances\<close>

theorem sched_inv_closing_reusable:
  assumes "sched_inv cfg s F" "bt_get (sd_reusable_instances s) i = Some u" "su_active u = None" "su_lease u \<noteq> None" "su_finalization_reservation u"
    and "sc_request call = CloseInstance (su_pool_id u) x" "sc_reusable_instance call = Some i"
    and "pool_plugin (sd_pools s) (su_pool_id u) = Some plugin" "room (su_pool_id u) s"
    and "bt_get (sd_live s) (sc_id call) = None" "bt_get (sd_operation_plugins s) (sc_id call) = None"
  shows "sched_inv cfg (closing_move plugin call (claim_closing_reusable i (sc_id call) s)) (add_mset (call, True, None) F)"
proof -
  note parts = sched_inv_parts [OF assms(1)]
  let ?m = "claim_closing_reusable i (sc_id call) s" and ?f = "(call, True, None)"
  let ?t = "closing_move plugin call ?m"
  have wf: "bt_wf (sd_reusable_instances s)" "bt_wf (sd_pools s)" "bt_wf (sd_plugins s)" using parts by (simp_all add: call_inv_def queue_inv_def lease_inv_def)
  obtain p where p: "bt_get (sd_pools s) (su_pool_id u) = Some p" "sp_plugin_id p = plugin" using assms(8) by (auto simp: pool_plugin_def)
  have g: "bt_get (sd_plugins s) plugin \<noteq> None" using parts(4) p by (auto simp: owner_inv_def)
  have "reusable_ok (sd_pools s) u" using parts(3) assms(2) by (simp add: lease_inv_def)
  then have "lease_inv ?m F"
    unfolding claim_closing_reusable_def using parts(3) wf idle_instance_unheld [OF parts(3) assms(2,3)] assms(2,4)
    by (intro lease_inv_reusables) (auto simp: lease_inv_def reusable_ok_def split: if_splits)
  moreover have "flight_ok ?m ?f" using assms(2,6,7) by (auto simp: flight_ok_def claim_closing_reusable_def)
  ultimately have l: "lease_inv ?m (add_mset ?f F)" by (auto simp: lease_inv_def)
  have o: "owner_inv ?m" using parts(4) assms(2) by (fastforce simp: owner_inv_def claim_closing_reusable_def split: if_splits)
  have "call_inv (closing_move plugin call (s\<lparr>sd_sessions := sd_sessions s\<rparr>)) (queued_mset s) (add_mset ?f F)"
    using parts(2) assms(6,10) p by (intro call_inv_closing) (auto simp: call_inv_def session_counts_def call_owned_def)
  then have c: "call_inv ?t (queued_mset s) (add_mset ?f F)" by (auto simp: call_inv_def call_owned_def closing_move_def claim_closing_reusable_def)
  have "reserved_of ?t j + of_bool (j = plugin) = reserved_of s j" for j
    using sum_bt_update [OF wf(1) assms(2), of "\<lambda>e. reusable_slot (sd_pools s) j (snd e)"] assms(5,8)
    by (auto simp: reserved_of_def closing_move_def claim_closing_reusable_def reusable_slot_def)
  then have "slot_inv ?t"
    using parts(5) wf g assms(11) by (intro slot_inv_closing) (simp_all add: claim_closing_reusable_def)
  moreover have "limit_inv cfg ?m" "bt_wf (sd_pools ?m)" "room (sc_pool call) ?m"
    using parts(6) wf assms(6,9) by (simp_all add: claim_closing_reusable_def room_def plugin_active_eq capacity_active_eq)
  then have "limit_inv cfg ?t" by (rule limit_inv_closing)
  moreover have "queue_inv ?t" using parts(1) by (intro queue_inv_closing) (simp add: claim_closing_reusable_def)
  ultimately show ?thesis
    using c l o by (intro sched_invI) (simp_all add: lease_inv_closing owner_inv_closing claim_closing_reusable_def)
qed

section \<open>Drained sessions\<close>

text \<open>
  A drained session drops its reservation before the plugin's slot is given back; \<open>pend\<close> are the pools
  of the reservations in between.
\<close>

definition slot_slack :: "scheduler_state \<Rightarrow> string list \<Rightarrow> bool" where
  "slot_slack s pend \<longleftrightarrow> (\<forall>k g. bt_get (sd_plugins s) k = Some g \<longrightarrow>
     reserved_of s k + length (filter (\<lambda>i. pool_plugin (sd_pools s) i = Some k) pend) \<le> sg_reserved_operations g)"

definition drain_session :: "string \<Rightarrow> scheduler_state \<Rightarrow> scheduler_state" where
  "drain_session k s = s\<lparr>sd_sessions := bt_update (\<lambda>ss. ss\<lparr>ss_closed := True, ss_finalization_context := context_default,
     ss_finalization_reservation := False\<rparr>) k (sd_sessions s)\<rparr>"

lemma slot_slack_Nil: "slot_inv s \<Longrightarrow> slot_slack s []"
  by (simp add: slot_slack_def slot_inv_def)

lemma reserved_drain:
  assumes "bt_wf (sd_sessions s)" "bt_get (sd_sessions s) k = Some ss"
  shows "reserved_of (drain_session k s) j + session_slot (sd_pools s) j ss = reserved_of s j"
  using sum_bt_update [OF assms, of "\<lambda>e. session_slot (sd_pools s) j (snd e)"]
  by (simp add: reserved_of_def drain_session_def session_slot_def)

lemma drain_slack:
  assumes "bt_wf (sd_sessions s)" "bt_get (sd_sessions s) k = Some ss" "slot_slack s pend"
  shows "slot_slack (drain_session k s) (if ss_finalization_reservation ss then ss_pool_id ss # pend else pend)"
  unfolding slot_slack_def
proof (intro allI impI)
  fix j g
  assume "bt_get (sd_plugins (drain_session k s)) j = Some g"
  then have "reserved_of s j + length (filter (\<lambda>i. pool_plugin (sd_pools s) i = Some j) pend) \<le> sg_reserved_operations g"
    using assms(3) by (simp add: slot_slack_def drain_session_def)
  then show "reserved_of (drain_session k s) j + length (filter (\<lambda>i. pool_plugin (sd_pools (drain_session k s)) i = Some j)
      (if ss_finalization_reservation ss then ss_pool_id ss # pend else pend)) \<le> sg_reserved_operations g"
    using reserved_drain [OF assms(1,2), of j] by (auto simp: drain_session_def session_slot_def)
qed

lemma session_without_calls:
  assumes "call_inv s Q F" "bt_get (sd_sessions s) k = Some ss" "ss_unfinished ss = 0"
  shows "f \<in># F \<Longrightarrow> sc_session (fl_call f) \<noteq> Some k" "c \<in># Q \<Longrightarrow> sc_session c \<noteq> Some k"
proof -
  have "cnt (\<lambda>c. sc_session c = Some k) Q = 0" "cnt (\<lambda>f. sc_session (fl_call f) = Some k) F = 0"
    using assms by (auto simp: call_inv_def session_counts_def)
  then show "f \<in># F \<Longrightarrow> sc_session (fl_call f) \<noteq> Some k" "c \<in># Q \<Longrightarrow> sc_session c \<noteq> Some k"
    unfolding cnt_zero_iff by blast+
qed

theorem sched_inv_drain:
  assumes "sched_inv cfg s F" "bt_get (sd_sessions s) k = Some ss" "session_idle ss"
  shows "sched_inv cfg (drain_session k s) F"
proof -
  note parts = sched_inv_parts [OF assms(1)]
  have wf: "bt_wf (sd_sessions s)" using parts(2) by (simp add: call_inv_def)
  have idle: "ss_unfinished ss = 0" using assms(3) by (simp add: session_idle_def)
  have same: "same_on (\<lambda>ss. (ss_pool_id ss, ss_queued ss, ss_unfinished ss)) (sd_sessions s) (sd_sessions (drain_session k s))"
    unfolding drain_session_def by simp (rule same_on_update [OF wf], simp)
  have "call_inv (s\<lparr>sd_sessions := sd_sessions (drain_session k s)\<rparr>) (queued_mset s) F" by (rule call_inv_sessions [OF parts(2) same])
  moreover have "owner_inv (s\<lparr>sd_sessions := sd_sessions (drain_session k s)\<rparr>)"
    using same_on_sub [OF same, of fst] by (intro owner_inv_sessions [OF parts(4)]) simp
  moreover have "flight_ok (drain_session k s) f" if "f \<in># F" for f
    using parts(3) that session_without_calls(1) [OF parts(2) assms(2) idle that]
    by (auto simp: lease_inv_def flight_ok_def drain_session_def split: if_splits)
  then have "lease_inv (drain_session k s) F"
    using parts(3) assms(2,3) by (auto simp: lease_inv_def drain_session_def session_ok_def session_idle_def split: if_splits)
  moreover have "reserved_of (drain_session k s) j \<le> reserved_of s j" for j using reserved_drain [OF wf assms(2), of j] by simp
  then have "slot_inv (drain_session k s)"
    using parts(5) by (fastforce simp: slot_inv_def drain_session_def retained_of_def intro: le_trans)
  ultimately show ?thesis using parts(1,6) by (intro sched_invI) (simp_all add: drain_session_def)
qed

text \<open>Giving back one reserved slot.\<close>

definition release_slot :: "string \<Rightarrow> scheduler_state \<Rightarrow> scheduler_state" where
  "release_slot plugin s = s\<lparr>sd_plugins := bt_update (\<lambda>g. g\<lparr>sg_reserved_operations := sg_reserved_operations g - 1\<rparr>) plugin (sd_plugins s)\<rparr>"

lemma reserved_release [simp]: "reserved_of (release_slot plugin s) = reserved_of s"
  by (simp add: reserved_of_def release_slot_def fun_eq_iff)

theorem sched_inv_release_slot:
  assumes "sched_inv cfg s F" "slot_slack s (i # pend)" "pool_plugin (sd_pools s) i = Some plugin"
  shows "sched_inv cfg (release_slot plugin s) F" "slot_slack (release_slot plugin s) pend"
proof -
  note parts = sched_inv_parts [OF assms(1)]
  have wf: "bt_wf (sd_plugins s)" using parts(1) by (simp add: queue_inv_def)
  have slack: "reserved_of s k + of_bool (k = plugin) + length (filter (\<lambda>i. pool_plugin (sd_pools s) i = Some k) pend) \<le> sg_reserved_operations g"
    if "bt_get (sd_plugins s) k = Some g" for k g
    using assms(2) [unfolded slot_slack_def, rule_format, OF that] assms(3) by (auto split: if_splits)
  show "slot_slack (release_slot plugin s) pend"
    unfolding slot_slack_def reserved_release
  proof (intro allI impI)
    fix k g'
    assume "bt_get (sd_plugins (release_slot plugin s)) k = Some g'"
    then obtain g where "bt_get (sd_plugins s) k = Some g" "sg_reserved_operations g' = sg_reserved_operations g - of_bool (k = plugin)"
      by (auto simp: release_slot_def split: if_splits)
    then show "reserved_of s k + length (filter (\<lambda>i. pool_plugin (sd_pools (release_slot plugin s)) i = Some k) pend) \<le> sg_reserved_operations g'"
      using slack [of k g] by (simp add: release_slot_def)
  qed
  have "slot_inv (release_slot plugin s)"
  proof (rule slot_inv_change [OF parts(5)])
    show "same_on sg_config (sd_plugins s) (sd_plugins (release_slot plugin s))"
      using wf by (auto simp: release_slot_def intro!: same_on_update)
    show "bt_get (sd_operation_plugins (release_slot plugin s)) j = Some k \<Longrightarrow> bt_get (sd_plugins (release_slot plugin s)) k \<noteq> None" for j k
      using parts(5) by (auto simp: slot_inv_def release_slot_def)
    show "sg_operations g' = retained_of (release_slot plugin s) k \<and> reserved_of (release_slot plugin s) k \<le> sg_reserved_operations g' \<and>
        retained_of (release_slot plugin s) k + sg_reserved_operations g' \<le> plg_max_operations (sg_config g)"
      if "bt_get (sd_plugins s) k = Some g" "bt_get (sd_plugins (release_slot plugin s)) k = Some g'" "sg_operations g = retained_of s k"
        "reserved_of s k \<le> sg_reserved_operations g" "retained_of s k + sg_reserved_operations g \<le> plg_max_operations (sg_config g)" for k g g'
      using that slack [of k g] unfolding reserved_release by (auto simp: release_slot_def retained_of_def split: if_splits)
  qed (use parts(5) in \<open>simp add: slot_inv_def release_slot_def\<close>)
  then show "sched_inv cfg (release_slot plugin s) F"
    using parts queue_inv_plugin [of "\<lambda>g. g\<lparr>sg_reserved_operations := sg_reserved_operations g - 1\<rparr>" s plugin]
      limit_inv_plugin [of "\<lambda>g. g\<lparr>sg_reserved_operations := sg_reserved_operations g - 1\<rparr>" cfg s plugin]
    by (intro sched_invI) (simp_all add: release_slot_def owner_inv_plugin)
qed

section \<open>The return of a call\<close>

text \<open>
  \<open>depart\<close> takes a finished call out of the counts; its instance and its session are returned after it.
\<close>

definition depart :: "bool \<Rightarrow> scheduled_call \<Rightarrow> scheduler_state \<Rightarrow> scheduler_state" where
  "depart d c s = s\<lparr>
     sd_pools := (if d then bt_update (\<lambda>p. p\<lparr>sp_active := sp_active p - 1\<rparr>) (sc_pool c) (sd_pools s) else sd_pools s),
     sd_live := bt_remove (sc_id c) (sd_live s)\<rparr>"

lemma live_exact_depart:
  assumes "live_exact live Q (add_mset (c, d, r) F)" "bt_wf live"
  shows "live_exact (bt_remove (sc_id c) live) Q F"
  unfolding live_exact_def
proof
  fix k
  show "cnt (\<lambda>c. sc_id c = k) Q + cnt (\<lambda>f. sc_id (fl_call f) = k) F = (if bt_get (bt_remove (sc_id c) live) k = None then 0 else 1)"
    using assms(1) [unfolded live_exact_def, rule_format, of k] assms(2) by (auto simp: bt_get_remove split: if_splits)
qed

lemma limit_inv_depart:
  assumes "limit_inv cfg s" "bt_wf (sd_pools s)"
  shows "limit_inv cfg (depart d c s)"
proof (cases "bt_get (sd_pools s) (sc_pool c)")
  case None
  then show ?thesis using assms by (simp add: depart_def bt_update_def)
next
  case (Some p)
  have "active_of (sd_pools (depart d c s)) P \<le> active_of (sd_pools s) P" if "\<And>p f. keeps_pool f \<Longrightarrow> P (f p) = P p" for P
    using active_of_update [OF assms(2) Some, of "\<lambda>p. p\<lparr>sp_active := sp_active p - 1\<rparr>" P] that by (auto simp: depart_def split: if_splits)
  then have le: "plugin_active (depart d c s) k \<le> plugin_active s k" "capacity_active (depart d c s) k \<le> capacity_active s k" for k
    by (simp_all add: plugin_active_eq capacity_active_eq keeps_pool_fields)
  have "sp_queued q \<le> pool_max_queued_calls (sp_policy q) \<and> sp_active q \<le> pool_max_running_calls (sp_policy q)"
    if "bt_get (sd_pools (depart d c s)) k = Some q" for k q
    using that assms(1) by (auto simp: limit_inv_def depart_def intro!: nat_diff_le split: if_splits)
  moreover have "plugin_active (depart d c s) k \<le> plg_max_running_calls (sg_config g)" if "bt_get (sd_plugins s) k = Some g" for k g
    using that assms(1) le(1) [of k] by (auto simp: limit_inv_def intro: le_trans)
  moreover have "capacity_active (depart d c s) k \<le> cap_max_running_calls (ccf_resources (sk_config kk))" if "bt_get (sd_capacities s) k = Some kk" for k kk
    using that assms(1) le(2) [of k] by (auto simp: limit_inv_def intro: le_trans)
  moreover have "sd_plugins (depart d c s) = sd_plugins s" "sd_capacities (depart d c s) = sd_capacities s"
    "sd_queued (depart d c s) = sd_queued s" "sd_bytes (depart d c s) = sd_bytes s" by (simp_all add: depart_def)
  ultimately show ?thesis using assms(1) by (simp add: limit_inv_def)
qed

text \<open>The session of the call, if it has one, with one unfinished call less.\<close>

definition depart_session :: "(scheduled_session \<Rightarrow> scheduled_session) \<Rightarrow> scheduled_call \<Rightarrow> scheduler_state \<Rightarrow> scheduler_state" where
  "depart_session h c s = s\<lparr>sd_sessions := session_update h (sc_session c) (sd_sessions s)\<rparr>"

lemma call_inv_depart:
  assumes "call_inv s Q (add_mset (c, d, r) F)"
    and "\<And>ss. ss_pool_id (h ss) = ss_pool_id ss \<and> ss_queued (h ss) = ss_queued ss \<and> ss_unfinished (h ss) = ss_unfinished ss - 1"
  shows "call_inv (depart_session h c (depart d c s)) Q F"
proof -
  let ?t = "depart_session h c (depart d c s)"
  have "pool_counts (sd_pools ?t) Q F" "session_counts (sd_sessions ?t) Q F"
    using assms by (auto simp: call_inv_def pool_counts_def session_counts_def depart_def depart_session_def)
  moreover have "call_owned ?t e x" if "call_owned s e x" for e x
    using that assms(2) by (auto simp: call_owned_def depart_def depart_session_def)
  moreover have "live_exact (sd_live ?t) Q F"
    using assms(1) live_exact_depart [of "sd_live s" Q c d r F] by (simp add: call_inv_def depart_def depart_session_def)
  moreover have "bt_wf (sd_pools ?t)" "bt_wf (sd_sessions ?t)" "bt_wf (sd_live ?t)"
    using assms(1) by (auto simp: call_inv_def depart_def depart_session_def)
  ultimately show ?thesis using assms(1) by (simp add: call_inv_def)
qed

text \<open>The session after its call: idle again, or as it was when the call never ran.\<close>

definition returned_ok :: "(string, scheduled_pool) btree \<Rightarrow> bool \<Rightarrow> scheduled_session \<Rightarrow> scheduled_session \<Rightarrow> bool" where
  "returned_ok pools d ss ss' \<longleftrightarrow>
     session_ok pools ss' \<and> ss_pool_id ss' = ss_pool_id ss \<and> ss_finalization_reservation ss' = ss_finalization_reservation ss \<and>
     (\<not> d \<longrightarrow> ss_active ss' = ss_active ss)"

lemma lease_inv_depart:
  assumes "lease_inv s (add_mset (c, d, r) F)" "\<And>f. f \<in># F \<Longrightarrow> sc_id (fl_call f) \<noteq> sc_id c"
    and "\<And>k ss. sc_session c = Some k \<Longrightarrow> bt_get (sd_sessions s) k = Some ss \<Longrightarrow> returned_ok (sd_pools s) d ss (h ss)"
  shows "lease_inv (depart_session h c (depart d c s)) F"
proof -
  have pools: "finalizes (sd_pools (depart d c s)) = finalizes (sd_pools s)" by (simp add: depart_def)
  have ok: "session_ok (sd_pools (depart d c s)) = session_ok (sd_pools s)" "reusable_ok (sd_pools (depart d c s)) = reusable_ok (sd_pools s)"
    by (simp_all add: fun_eq_iff session_ok_def reusable_ok_def pools)
  have "flight_ok (depart_session h c (depart d c s)) f" if f: "f \<in># F" for f
  proof -
    have fo: "flight_ok s f" and co: "flight_ok s (c, d, r)" using assms(1) f by (simp_all add: lease_inv_def)
    have "ss_active (h ss) = ss_active ss"
      if "sc_session c = Some k" "sc_session (fl_call f) = Some k" "fl_dispatched f" "bt_get (sd_sessions s) k = Some ss" for k ss
      using that fo co assms(2) [OF f] assms(3) [OF that(1,4)] by (auto simp: flight_ok_def returned_ok_def)
    then show ?thesis
      using fo assms(3) by (fastforce simp: flight_ok_def depart_session_def pools returned_ok_def depart_def split: if_splits)
  qed
  then show ?thesis
    using assms(1,3) ok by (auto simp: lease_inv_def depart_session_def returned_ok_def depart_def split: if_splits)
qed

theorem sched_inv_depart:
  assumes "sched_inv cfg s (add_mset (c, d, r) F)"
    and "\<And>ss. ss_pool_id (h ss) = ss_pool_id ss \<and> ss_queued (h ss) = ss_queued ss \<and> ss_unfinished (h ss) = ss_unfinished ss - 1"
    and "\<And>k ss. sc_session c = Some k \<Longrightarrow> bt_get (sd_sessions s) k = Some ss \<Longrightarrow> returned_ok (sd_pools s) d ss (h ss)"
  shows "sched_inv cfg (depart_session h c (depart d c s)) F"
proof -
  note parts = sched_inv_parts [OF assms(1)]
  let ?t = "depart_session h c (depart d c s)"
  have wf: "bt_wf (sd_sessions s)" "bt_wf (sd_pools s)" using parts(2) by (simp_all add: call_inv_def)
  have uniq: "sc_id (fl_call f) \<noteq> sc_id c" if "f \<in># F" for f using flight_unique [OF parts(2) that] by simp
  have same: "same_on (\<lambda>ss. (ss_pool_id ss, ss_finalization_reservation ss)) (sd_sessions s) (session_update h (sc_session c) (sd_sessions s))"
    using assms(3) wf(1) by (cases "sc_session c") (auto simp: session_update_def returned_ok_def intro!: same_on_update same_on_refl)
  have "owner_inv (depart d c s)" using parts(4) by (auto simp: depart_def owner_inv_pool)
  then have "owner_inv ?t"
    using owner_inv_sessions [of "depart d c s" "session_update h (sc_session c) (sd_sessions s)"] same_on_sub [OF same, of fst]
    by (simp add: depart_session_def depart_def)
  moreover have "slot_inv (depart d c s)" using parts(5) by (simp add: depart_def)
  then have "slot_inv ?t"
    using slot_inv_sessions [of "depart d c s" "session_update h (sc_session c) (sd_sessions s)"] same wf(1)
    by (simp add: depart_session_def depart_def)
  moreover have "limit_inv cfg ?t" using limit_inv_depart [OF parts(6) wf(2), of d c] by (simp add: depart_session_def)
  moreover have "queue_inv ?t" using parts(1) by (simp add: depart_session_def depart_def)
  ultimately show ?thesis
    using call_inv_depart [OF parts(2) assms(2)] lease_inv_depart [OF parts(3) uniq assms(3)]
    by (intro sched_invI) (simp_all add: depart_session_def depart_def)
qed

text \<open>The instance of a finished call has no other holder.\<close>

lemma departed_unheld:
  assumes "sched_inv cfg s (add_mset (c, d, r) F)" "sc_reusable_instance c = Some i" "f \<in># F"
  shows "sc_reusable_instance (fl_call f) \<noteq> Some i"
proof
  assume "sc_reusable_instance (fl_call f) = Some i"
  then have "sc_id (fl_call f) = sc_id c"
    using sched_inv_parts(3) [OF assms(1)] assms(2,3) by (fastforce simp: lease_inv_def flight_ok_def)
  then show False using flight_unique [OF sched_inv_parts(2) [OF assms(1)] assms(3)] by simp
qed

theorem sched_inv_return_reusable:
  assumes "sched_inv cfg s F" "bt_get (sd_reusable_instances s) i = Some u" "\<And>f. f \<in># F \<Longrightarrow> sc_reusable_instance (fl_call f) \<noteq> Some i"
    and "\<not> su_retiring u" "finalizes (sd_pools s) (su_pool_id u) \<longrightarrow> su_finalization_reservation u"
  shows "sched_inv cfg (s\<lparr>sd_reusable_instances := bt_update (\<lambda>u. u\<lparr>su_active := None, su_lease := Some l, su_idle_since := n\<rparr>) i (sd_reusable_instances s)\<rparr>) F"
proof -
  note parts = sched_inv_parts [OF assms(1)]
  let ?t = "s\<lparr>sd_reusable_instances := bt_update (\<lambda>u. u\<lparr>su_active := None, su_lease := Some l, su_idle_since := n\<rparr>) i (sd_reusable_instances s)\<rparr>"
  have wf: "bt_wf (sd_reusable_instances s)" using parts(3) by (simp add: lease_inv_def)
  have "lease_inv ?t F"
    using parts(3) wf assms(2-5) by (intro lease_inv_reusables) (auto simp: lease_inv_def reusable_ok_def split: if_splits)
  moreover have "owner_inv ?t" using parts(4) assms(2) by (fastforce simp: owner_inv_def split: if_splits)
  moreover have "reserved_of ?t = reserved_of s"
    using wf by (simp add: reserved_of_def fun_eq_iff sum_bt_update_same reusable_slot_def)
  then have "slot_inv ?t" using parts(5) unfolding slot_inv_def by (simp add: retained_of_def)
  ultimately show ?thesis using parts(1,2,6) by (intro sched_invI) simp_all
qed

end
