(* ===== verification/Scheduler_Runs.thy ===== *)
theory Scheduler_Runs
  imports Scheduler_Returns
begin

text \<open>
  Every operation on the queues keeps the invariant and none of its expectations fails, for any answers
  of the other components that do not panic and name fresh operations and instances.
\<close>

section \<open>The environment\<close>

definition env_safe :: "scheduler_env \<Rightarrow> bool" where
  "env_safe ev \<longleftrightarrow>
     (\<forall>c. \<not> is_panic (ev_check ev c)) \<and> (\<forall>v. \<not> is_panic (ev_json ev v)) \<and>
     (\<forall>x. \<not> is_panic (ev_context ev x)) \<and> (\<forall>r. \<not> is_panic (ev_admit ev r)) \<and> (\<forall>i. \<not> is_panic (ev_admit_reserved ev i)) \<and>
     (\<forall>p k i. \<not> is_panic (ev_reserve ev p k i)) \<and> (\<forall>p. \<not> is_panic (ev_usage ev p)) \<and> (\<forall>p. \<not> is_panic (ev_accounting ev p)) \<and>
     (\<forall>p c a. \<not> is_panic (ev_prepare ev p c a)) \<and> (\<forall>l. \<not> is_panic (ev_allocation_id ev l)) \<and> (\<forall>r. \<not> is_panic (ev_retired ev r))"

definition env_fresh :: "scheduler_env \<Rightarrow> scheduler_state \<Rightarrow> bool" where
  "env_fresh ev s \<longleftrightarrow>
     (\<forall>r i. ev_admit ev r = Ok i \<longrightarrow> bt_get (sd_live s) i = None \<and> bt_get (sd_operation_plugins s) i = None) \<and>
     (\<forall>l i. ev_allocation_id ev l = Ok i \<longrightarrow> bt_get (sd_reusable_instances s) i = None)"

lemma not_panic_cases: "\<not> is_panic r \<Longrightarrow> (\<exists>x. r = Ok x) \<or> (\<exists>e. r = Err e)"
  by (cases r) auto

lemma env_safe_case:
  assumes "env_safe ev"
  shows "ev_check ev c \<noteq> Panic m" "ev_json ev v \<noteq> Panic m" "ev_context ev x \<noteq> Panic m"
    "ev_admit ev r \<noteq> Panic m" "ev_admit_reserved ev i \<noteq> Panic m" "ev_reserve ev p ses i \<noteq> Panic m" "ev_usage ev p \<noteq> Panic m"
    "ev_accounting ev p \<noteq> Panic m" "ev_prepare ev p ca a \<noteq> Panic m" "ev_allocation_id ev l \<noteq> Panic m" "ev_retired ev rt \<noteq> Panic m"
  using assms unfolding env_safe_def by (metis is_panic.simps(3))+

section \<open>Queue limits of a capacity\<close>

lemma capacity_fold_safe:
  assumes "\<And>c. c \<in> set cs \<Longrightarrow> bt_get (sd_pools s) (sc_pool c) \<noteq> None"
  shows "\<exists>x. capacity_fold s k cs acc = Ok x"
  using assms
proof (induction cs arbitrary: acc)
  case (Cons c cs)
  obtain p where "bt_get (sd_pools s) (sc_pool c) = Some p" using Cons.prems [of c] by auto
  then show ?case using Cons by (simp add: pool_capacity_of_def)
qed simp

lemma queued_pool:
  assumes "sched_inv cfg s F" "c \<in># queued_mset s"
  shows "bt_get (sd_pools s) (sc_pool c) \<noteq> None"
  using sched_inv_parts(2) [OF assms(1)] assms(2) by (auto simp: call_inv_def call_owned_def)

lemma pool_owner:
  assumes "sched_inv cfg s F" "bt_get (sd_pools s) k = Some p"
  obtains g where "bt_get (sd_plugins s) (sp_plugin_id p) = Some g"
    "sg_reserved_operations g \<le> plg_max_operations (sg_config g)"
proof -
  obtain g where "bt_get (sd_plugins s) (sp_plugin_id p) = Some g"
    using sched_inv_parts(4) [OF assms(1)] assms(2) by (fastforce simp: owner_inv_def)
  moreover from this have "sg_reserved_operations g \<le> plg_max_operations (sg_config g)"
    using sched_inv_parts(5) [OF assms(1)] by (fastforce simp: slot_inv_def)
  ultimately show thesis by (rule that)
qed

lemma pool_capacity:
  assumes "sched_inv cfg s F" "bt_get (sd_pools s) k = Some p" "sp_capacity_id p = Some c"
  obtains kk where "bt_get (sd_capacities s) c = Some kk"
  using sched_inv_parts(4) [OF assms(1)] assms(2,3) by (fastforce simp: owner_inv_def)

lemma validate_capacity_queue_safe:
  assumes "sched_inv cfg s F"
  shows "\<not> is_panic (validate_capacity_queue s pool bytes)"
proof -
  have "\<exists>x. capacity_queue s k = Ok x" for k
    unfolding capacity_queue_def using queued_pool [OF assms] by (intro capacity_fold_safe) simp
  then have q: "capacity_queue s k \<noteq> Panic m" for k m by (metis outcome.distinct(3))
  show ?thesis
  proof (cases "bt_get (sd_pools s) pool")
    case (Some p)
    then show ?thesis
    proof (cases "sp_capacity_id p")
      case (Some c)
      obtain kk where "bt_get (sd_capacities s) c = Some kk" by (rule pool_capacity [OF assms \<open>bt_get (sd_pools s) pool = Some p\<close> Some])
      then show ?thesis using Some \<open>bt_get (sd_pools s) pool = Some p\<close> q [of c]
        by (cases "capacity_queue s c") (auto simp: validate_capacity_queue_def split: if_splits)
    qed (simp add: validate_capacity_queue_def)
  qed (simp add: validate_capacity_queue_def)
qed

lemma capacity_allows_safe:
  assumes "sched_inv cfg s F" "bt_get (sd_pools s) pool = Some p"
  obtains b where "capacity_allows_execution s pool = Ok b"
    "b \<longleftrightarrow> (\<forall>k kk. sp_capacity_id p = Some k \<and> bt_get (sd_capacities s) k = Some kk \<longrightarrow>
        capacity_active s k < cap_max_running_calls (ccf_resources (sk_config kk)))"
proof (cases "sp_capacity_id p")
  case None
  then show thesis using assms(2) that [of True] by (simp add: capacity_allows_execution_def)
next
  case (Some c)
  obtain kk where "bt_get (sd_capacities s) c = Some kk" by (rule pool_capacity [OF assms Some])
  then show thesis using Some assms(2) that by (simp add: capacity_allows_execution_def)
qed

section \<open>Admission\<close>

text \<open>The owner of a session call is open.\<close>

definition session_ready :: "scheduled_request \<Rightarrow> scheduler_state \<Rightarrow> bool" where
  "session_ready r s \<longleftrightarrow> (\<forall>k. request_session r = Some k \<longrightarrow>
     (\<exists>ss. bt_get (sd_sessions s) k = Some ss \<and> ss_pool_id ss = request_pool r \<and> \<not> ss_closed ss \<and> \<not> ss_retiring ss))"

lemma is_panic_decrease [simp]: "is_panic (decrease n k) = (n < k)"
  by (auto simp: decrease_def checked_sub_def)

lemma enqueue_check_safe:
  assumes "sched_inv cfg s F" "env_safe ev"
  shows "\<not> is_panic (enqueue_check ev cfg r control bytes s)"
proof -
  have owner: "bt_get (sd_plugins s) (sp_plugin_id p) \<noteq> None" "bt_get (sd_plugins s) (sp_plugin_id p) = Some g \<Longrightarrow> sg_reserved_operations g \<le> plg_max_operations (sg_config g)"
    if "bt_get (sd_pools s) k = Some p" for k p g
    using pool_owner [OF assms(1) that] by auto
  show ?thesis
    unfolding enqueue_check_def check_persistence_admission_def
    using assms(2) validate_capacity_queue_safe [OF assms(1)]
    by (auto simp: env_safe_def not_less dest: owner split: option.splits if_splits)
qed

lemma enqueue_check_Ok:
  assumes "sched_inv cfg s F" "env_fresh ev s" "session_ready r s" "enqueue_check ev cfg r control bytes s = Ok (plugin, ident)"
  shows "admissible cfg plugin \<lparr>sc_reusable_instance = None, sc_id = ident, sc_control = control, sc_request = r, sc_bytes = bytes\<rparr> s"
    "ev_admit ev r = Ok ident"
proof -
  show admit: "ev_admit ev r = Ok ident" using assms(4) by (auto simp: enqueue_check_def split: if_splits)
  obtain p g where pg: "bt_get (sd_pools s) (request_pool r) = Some p" "bt_get (sd_plugins s) (sp_plugin_id p) = Some g" "plugin = sp_plugin_id p"
    and guards: "sp_queued p < pool_max_queued_calls (sp_policy p)" "sd_queued s < max_queued_calls cfg" "bytes \<le> max_queued_bytes cfg - sd_bytes s"
      "sg_queued g < plg_max_queued_calls (sg_config g)" "bytes \<le> plg_max_queued_bytes (sg_config g) - sg_bytes g"
      "sg_operations g < plg_max_operations (sg_config g) - sg_reserved_operations g"
    using assms(4) by (auto simp: enqueue_check_def saturating_sub_def not_le not_less split: if_splits)
  have "sd_bytes s \<le> max_queued_bytes cfg" "sg_bytes g \<le> plg_max_queued_bytes (sg_config g)"
    using sched_inv_parts(6) [OF assms(1)] pg(2) by (auto simp: limit_inv_def)
  then show "admissible cfg plugin \<lparr>sc_reusable_instance = None, sc_id = ident, sc_control = control, sc_request = r, sc_bytes = bytes\<rparr> s"
    using admit pg guards assms(2,3) by (auto simp: admissible_def env_fresh_def session_ready_def)
qed

lemma enqueue_eq:
  assumes "enqueue_check ev cfg r control bytes s = Ok (plugin, ident)"
    and "admissible cfg plugin call s" "call = \<lparr>sc_reusable_instance = None, sc_id = ident, sc_control = control, sc_request = r, sc_bytes = bytes\<rparr>"
  shows "sched_enqueue ev cfg r control bytes s = (Ok ident, admit_call plugin call s)"
  using assms(1,2)
  by (cases "request_session r")
    (auto simp: assms(3) sched_enqueue_def admit_call_def bind_action_def try_read_def write_state_def ret_def admissible_def modify_at_def bt_update_def session_update_def)

theorem wp_enqueue:
  assumes "sched_inv cfg s F" "env_safe ev" "env_fresh ev s" "session_ready r s"
  shows "wp (sched_enqueue ev cfg r control bytes) (\<lambda>_ t. sched_inv cfg t F) (\<lambda>t. t = s) s"
proof (cases "enqueue_check ev cfg r control bytes s")
  case (Ok x)
  obtain plugin ident where x: "x = (plugin, ident)" by (cases x)
  note check = Ok [unfolded x]
  show ?thesis
    using enqueue_eq [OF check enqueue_check_Ok(1) [OF assms(1,3,4) check] refl] sched_inv_admit [OF assms(1) enqueue_check_Ok(1) [OF assms(1,3,4) check]]
    by (simp add: wp_def)
next
  case (Err e)
  then show ?thesis by (simp add: wp_def sched_enqueue_def bind_action_def try_read_def)
next
  case (Panic m)
  then show ?thesis using enqueue_check_safe [OF assms(1,2), of r control bytes] by simp
qed

section \<open>Leaving the queue\<close>

lemma call_counts:
  assumes "sched_inv cfg s F" "i < length (plugin_queue s plugin)" "call = queued_at s plugin i"
  obtains p g where "bt_get (sd_pools s) (sc_pool call) = Some p" "0 < sp_queued p" "bt_get (sd_plugins s) plugin = Some g"
    "sp_plugin_id p = plugin" "0 < sg_queued g" "sc_bytes call \<le> sg_bytes g" "0 < sd_queued s" "sc_bytes call \<le> sd_bytes s"
    "\<And>k. sc_session call = Some k \<Longrightarrow> \<exists>ss. bt_get (sd_sessions s) k = Some ss \<and> 0 < ss_queued ss \<and> ss_pool_id ss = sc_pool call"
proof -
  note parts = sched_inv_parts [OF assms(1)]
  note q = queued_at_call [OF parts(1) assms(2), folded assms(3)]
  obtain p where p: "bt_get (sd_pools s) (sc_pool call) = Some p" "sp_plugin_id p = plugin" using q(2) by (auto simp: pool_plugin_def)
  obtain g where g: "bt_get (sd_plugins s) plugin = Some g" using pool_owner [OF assms(1) p(1)] p(2) by metis
  have "0 < sp_queued p" using parts(2) p(1) q(3) by (auto simp: call_inv_def pool_counts_def intro!: cnt_pos)
  moreover have "0 < sg_queued g" "sc_bytes call \<le> sg_bytes g"
    using parts(1) g assms(2,3) sum_drop_index [OF assms(2)] by (auto simp: queue_inv_def queued_at_def)
  moreover have "0 < sd_queued s" "sc_bytes call \<le> sd_bytes s"
  proof -
    show "0 < sd_queued s" using parts(1) q(3) by (auto simp: queue_inv_def)
    show "sc_bytes call \<le> sd_bytes s" using parts(1) q(3) member_le_sum_list [of "sc_bytes call" "map sc_bytes (queued_calls s)"] by (auto simp: queue_inv_def)
  qed
  moreover have "\<exists>ss. bt_get (sd_sessions s) k = Some ss \<and> 0 < ss_queued ss \<and> ss_pool_id ss = sc_pool call" if k: "sc_session call = Some k" for k
  proof -
    obtain ss where ss: "bt_get (sd_sessions s) k = Some ss" "ss_pool_id ss = sc_pool call"
      using parts(2) q(3) k by (fastforce simp: call_inv_def call_owned_def)
    moreover have "0 < ss_queued ss" using parts(2) ss(1) q(3) k by (auto simp: call_inv_def session_counts_def intro!: cnt_pos)
    ultimately show ?thesis by blast
  qed
  ultimately show thesis using p g that by blast
qed

lemma take_call_eq:
  assumes "sched_inv cfg s F" "i < length (plugin_queue s plugin)"
  shows "take_call plugin i s = (Ok (queued_at s plugin i), take_move plugin i s)"
proof -
  obtain q where q: "bt_get (sd_queues s) plugin = Some q" "i < length q" "queued_at s plugin i = q ! i"
    using assms(2) by (auto simp: plugin_queue_def queued_at_def split: option.splits)
  have leave: "leave_queue plugin i s = (if take i q @ drop (Suc i) q = []
      then s\<lparr>sd_queues := bt_remove plugin (sd_queues s), sd_rotation := filter (\<lambda>c. c \<noteq> plugin) (sd_rotation s)\<rparr>
      else s\<lparr>sd_queues := bt_insert plugin (take i q @ drop (Suc i) q) (sd_queues s)\<rparr>)"
    using q by (simp add: leave_queue_def drop_index_def plugin_queue_def)
  have pull: "pull_call plugin i s = (Ok (q ! i), leave_queue plugin i s)"
    using q by (simp add: pull_call_def leave bind_action_def try_read_def from_result_def write_state_def ret_def)
  obtain p g where "bt_get (sd_pools s) (sc_pool (q ! i)) = Some p" "0 < sp_queued p" "bt_get (sd_plugins s) plugin = Some g"
    "0 < sg_queued g" "sc_bytes (q ! i) \<le> sg_bytes g" "0 < sd_queued s" "sc_bytes (q ! i) \<le> sd_bytes s"
    "\<And>k. sc_session (q ! i) = Some k \<Longrightarrow> \<exists>ss. bt_get (sd_sessions s) k = Some ss \<and> 0 < ss_queued ss"
    by (rule call_counts [OF assms q(3) [symmetric]]) blast
  then show ?thesis
    by (cases "sc_session (q ! i)")
      (auto simp: take_call_def bind_action_def pull try_read_def write_state_def ret_def modify_at_def take_move_def q(3) Let_def bt_update_def
        session_update_def decrease_enough Suc_le_eq)
qed


text \<open>
  Calls outside the scheduler's state: \<open>R\<close> are the calls a worker runs or is about to report as
  rejected, \<open>P\<close> the completions a worker finalizes or the supervisor holds. Rejection of expired calls
  keeps the invariant.
\<close>

lemma wp_modify [wp_simps]:
  "wp (modify_at get put message key f) Q E =
     (\<lambda>s. case bt_get (get s) key of None \<Rightarrow> False
        | Some v \<Rightarrow> (case f v of Ok v' \<Rightarrow> Q () (put (bt_insert key v' (get s)) s) | Err e \<Rightarrow> E s | Panic p \<Rightarrow> False))"
  by (auto simp: wp_def modify_at_def fun_eq_iff split: option.splits outcome.splits)

section \<open>The invariant with what workers and the supervisor hold\<close>

definition pend_flight :: "pending_completion \<Rightarrow> flight" where
  "pend_flight c = (pn_call c, pn_dispatched c, pn_retained_lease c)"

definition state_flights :: "scheduler_state \<Rightarrow> flight multiset" where
  "state_flights s = image_mset pend_flight (mset (sd_cleaning s) + mset (sd_finalizing s))"

definition center_inv :: "embedded_runtime_config \<Rightarrow> flight multiset \<Rightarrow> pending_completion multiset \<Rightarrow> scheduler_state \<Rightarrow> bool" where
  "center_inv cfg R P s \<longleftrightarrow>
     sched_inv cfg s (R + image_mset pend_flight P + state_flights s) \<and>
     sd_cleaning_count s = size P + length (sd_cleaning s) + length (sd_finalizing s)"

abbreviation all_flights :: "flight multiset \<Rightarrow> pending_completion multiset \<Rightarrow> scheduler_state \<Rightarrow> flight multiset" where
  "all_flights R P s \<equiv> R + image_mset pend_flight P + state_flights s"

lemma center_invD: "center_inv cfg R P s \<Longrightarrow> sched_inv cfg s (all_flights R P s)"
  by (simp add: center_inv_def)

text \<open>An operation that leaves the completions of the state alone.\<close>

lemma center_inv_keep:
  assumes "center_inv cfg R P s" "sched_inv cfg t (all_flights R' P s)" "sd_cleaning t = sd_cleaning s" "sd_finalizing t = sd_finalizing s"
    "sd_cleaning_count t = sd_cleaning_count s"
  shows "center_inv cfg R' P t"
  using assms by (simp add: center_inv_def state_flights_def)

lemma center_inv_push:
  assumes "center_inv cfg R P s" "sched_inv cfg t (add_mset (pend_flight c) (all_flights R P s))" "sd_cleaning t = sd_cleaning s" "sd_finalizing t = sd_finalizing s"
    "sd_cleaning_count t = sd_cleaning_count s"
  shows "center_inv cfg R P (t\<lparr>sd_cleaning_count := sd_cleaning_count t + 1, sd_cleaning := sd_cleaning t @ [c]\<rparr>)"
  using assms by (simp add: center_inv_def state_flights_def)

section \<open>Rejection\<close>

lemma take_move_others [simp]:
  "sd_cleaning (take_move plugin i s) = sd_cleaning s" "sd_finalizing (take_move plugin i s) = sd_finalizing s"
  "sd_cleaning_count (take_move plugin i s) = sd_cleaning_count s" "sd_reusable_instances (take_move plugin i s) = sd_reusable_instances s"
  "sd_capacities (take_move plugin i s) = sd_capacities s" "sd_live (take_move plugin i s) = sd_live s"
  "sd_operation_plugins (take_move plugin i s) = sd_operation_plugins s" "sd_closing (take_move plugin i s) = sd_closing s"
  by (simp_all add: take_move_def Let_def)

lemma reject_reason_safe:
  assumes "sched_inv cfg s F" "env_safe ev" "c \<in># queued_mset s"
  shows "\<not> is_panic (reject_reason ev s c)"
proof -
  have "call_owned s True c" using sched_inv_parts(2) [OF assms(1)] assms(3) by (simp add: call_inv_def)
  then show ?thesis
    using env_safe_case(1) [OF assms(2), of "sc_control c"]
    by (auto simp: reject_reason_def call_owned_def split: outcome.splits option.splits)
qed

lemma wp_reject_call:
  assumes inv: "center_inv cfg R P s" and i: "i < length (plugin_queue s plugin)"
  shows "wp (reject_call plugin i e) (\<lambda>_ t. center_inv cfg R P t \<and> length (plugin_queue t plugin) < length (plugin_queue s plugin)) (\<lambda>_. False) s"
proof -
  let ?c = "queued_at s plugin i" and ?t = "take_move plugin i s"
  note si = center_invD [OF inv]
  have wfq: "bt_wf (sd_queues s)" using sched_inv_parts(1) [OF si] by (simp add: queue_inv_def)
  have "plugin_queue ?t plugin = drop_index i (plugin_queue s plugin)"
    using plugin_queue_leave [OF wfq, of plugin i plugin] by (simp add: take_move_def Let_def plugin_queue_def)
  then have shorter: "length (plugin_queue ?t plugin) < length (plugin_queue s plugin)" using i by (simp add: length_drop_index)
  note owned = call_counts [OF si i refl]
  show ?thesis
  proof (cases "\<exists>pool k. sc_request ?c = OpenSession pool k")
    case True
    then obtain pool k where r: "sc_request ?c = OpenSession pool k" by blast
    obtain ss where ss: "bt_get (sd_sessions s) k = Some ss" using owned r by (metis request_session.simps(1))
    define m where "m = bt_update (\<lambda>ss. ss\<lparr>ss_closing := True, ss_error := (case ss_error ss of None \<Rightarrow> Some e | Some x \<Rightarrow> Some x), ss_lease := None\<rparr>) k (sd_sessions ?t)"
    have ss': "bt_get (sd_sessions ?t) k = Some (ss\<lparr>ss_queued := ss_queued ss - 1\<rparr>)"
      using ss r by (simp add: take_move_def Let_def)
    have ti: "sched_inv cfg ?t (add_mset (?c, False, ss_lease ss) (all_flights R P s))"
      using r by (intro sched_inv_take [OF si i]) simp
    have wf: "bt_wf (sd_sessions ?t)" using sched_inv_parts(2) [OF ti] by (simp add: call_inv_def)
    have "sched_inv cfg (?t\<lparr>sd_sessions := m\<rparr>) (add_mset (?c, False, ss_lease ss) (all_flights R P s))"
    proof (rule sched_inv_sessions [OF ti])
      show "same_on session_core (sd_sessions ?t) m" unfolding m_def using wf by (intro same_on_update) (simp_all add: session_core_def)
      show "session_ok (sd_pools ?t) x" if "bt_get m j = Some x" for j x
        using that sched_inv_parts(3) [OF ti] unfolding m_def lease_inv_def by (auto simp: session_ok_def split: if_splits)
    qed
    then show ?thesis
      using center_inv_push [OF inv, of "?t\<lparr>sd_sessions := m\<rparr>" "\<lparr>pn_finalization = None, pn_retained_lease = ss_lease ss, pn_cleaning_started = False,
          pn_call = ?c, pn_result = Inl e, pn_retirement = None, pn_effects = NotStarted, pn_dispatched = False\<rparr>"] shorter ss' take_call_eq [OF si i] r
      by (simp add: wp_def reject_call_def bind_action_def try_read_def ret_def write_state_def modify_at_def m_def bt_update_def pend_flight_def plugin_queue_def)
  next
    case False
    have "sched_inv cfg ?t (add_mset (?c, False, None) (all_flights R P s))" by (rule sched_inv_take [OF si i]) simp
    then show ?thesis
      using center_inv_push [OF inv, of ?t "\<lparr>pn_finalization = None, pn_retained_lease = None, pn_cleaning_started = False,
          pn_call = ?c, pn_result = Inl e, pn_retirement = None, pn_effects = NotStarted, pn_dispatched = False\<rparr>"] shorter take_call_eq [OF si i] False
      by (cases "sc_request ?c") (simp_all add: wp_def reject_call_def bind_action_def ret_def write_state_def pend_flight_def plugin_queue_def)
  qed
qed

lemma wp_reject_queue:
  assumes "env_safe ev" "center_inv cfg R P s"
  shows "wp (reject_queue n ev plugin i) (\<lambda>_. center_inv cfg R P) (\<lambda>_. False) s"
  using assms(2)
proof (induction n arbitrary: i s)
  case 0
  then show ?case by (simp add: wp_simps)
next
  case (Suc n)
  show ?case
  proof (cases "i < length (plugin_queue s plugin)")
    case False
    then show ?thesis using Suc.prems by (auto simp: wp_simps plugin_queue_def split: option.splits)
  next
    case True
    then have found: "(case bt_get (sd_queues s) plugin of None \<Rightarrow> None | Some q \<Rightarrow> if i < length q then Some (q ! i) else None) = Some (queued_at s plugin i)"
      by (auto simp: plugin_queue_def queued_at_def split: option.splits)
    note si = center_invD [OF Suc.prems]
    have safe: "\<not> is_panic (reject_reason ev s (queued_at s plugin i))"
      by (rule reject_reason_safe [OF si assms(1)]) (rule queued_at_call(3) [OF sched_inv_parts(1) [OF si] True])
    have err: "reject_reason ev s c \<noteq> Err e" for c e
      by (cases "bt_get (sd_pools s) (sc_pool c)"; cases "sc_session c"; cases "bt_get (sd_sessions s) (the (sc_session c))")
        (auto simp: reject_reason_def split: outcome.splits if_splits)
    show ?thesis
      using safe err [of "queued_at s plugin i"] Suc.IH Suc.prems wp_reject_call [OF Suc.prems True]
      by (auto simp: wp_simps found split: outcome.splits option.splits intro!: wp_mono [OF wp_reject_call [OF Suc.prems True]])
  qed
qed

theorem wp_reject_expired:
  assumes "env_safe ev" "center_inv cfg R P s"
  shows "wp (reject_expired ev) (\<lambda>_. center_inv cfg R P) (\<lambda>_. False) s"
proof -
  have "wp (reject_plugins ev ps) (\<lambda>_. center_inv cfg R P) (\<lambda>_. False) s" if "center_inv cfg R P s" for ps s
    using that
  proof (induction ps arbitrary: s)
    case (Cons p ps)
    then show ?case by (auto simp: wp_simps intro!: wp_mono [OF wp_reject_queue [OF assms(1) Cons.prems]])
  qed (simp add: wp_simps)
  then show ?thesis using assms(2) by (simp add: reject_expired_def wp_simps)
qed

end
