(* ===== verification/Scheduler_Select.thy ===== *)
theory Scheduler_Select
  imports Scheduler_Runs
begin

text \<open>
  Selection keeps the invariant, never panics, and dispatches the first call of its pool and session in
  the queue of its plugin; the plugin moves to the end of the rotation.
\<close>

section \<open>Commitments never panic\<close>

lemma commit_pools_safe: "env_safe ev \<Longrightarrow> \<not> is_panic (commit_pools ev plugin requesting ps n)"
  by (induction ev plugin requesting ps n rule: commit_pools.induct) (auto simp: env_safe_def add_charge_def split: if_splits)

lemma resident_fold_safe: "env_safe ev \<Longrightarrow> \<not> is_panic (resident_fold ev c ps n)"
  by (induction ev c ps n rule: resident_fold.induct) (auto simp: env_safe_def split: if_splits)

lemma commit_owners_safe: "env_safe ev \<Longrightarrow> \<not> is_panic (commit_owners ev s plugin requesting replacement ks n)"
  by (induction ev s plugin requesting replacement ks n rule: commit_owners.induct)
    (auto simp: capacity_residents_def resident_fold_safe add_charge_def Let_def split: if_splits)

lemma plugin_commitment_safe: "env_safe ev \<Longrightarrow> \<not> is_panic (plugin_commitment_with_capacity ev s plugin requesting replacement)"
  by (simp add: plugin_commitment_with_capacity_def commit_pools_safe commit_owners_safe Let_def)

lemma plugin_allows_safe: "env_safe ev \<Longrightarrow> \<not> is_panic (plugin_allows_allocation ev s pool)"
  by (simp add: plugin_allows_allocation_def plugin_commitment_def plugin_commitment_safe)

section \<open>Idle instances\<close>

lemma count_capacity_idle_safe:
  assumes "\<And>u. u \<in> set us \<Longrightarrow> bt_get (sd_pools s) (su_pool_id u) \<noteq> None"
  shows "\<exists>n. count_capacity_idle s c us = Ok n"
  using assms
proof (induction us)
  case (Cons u us)
  then obtain n where "count_capacity_idle s c us = Ok n" by auto
  moreover obtain p where "bt_get (sd_pools s) (su_pool_id u) = Some p" using Cons.prems [of u] by auto
  ultimately show ?case by simp
qed simp

lemma capacity_idle_safe:
  assumes "sched_inv cfg s F"
  shows "\<exists>n. capacity_idle s c = Ok n"
proof -
  have wf: "bt_wf (sd_reusable_instances s)" using sched_inv_parts(3) [OF assms] by (simp add: lease_inv_def)
  show ?thesis
    unfolding capacity_idle_def
    using sched_inv_parts(4) [OF assms] by (intro count_capacity_idle_safe) (auto simp: bt_values_iff [OF wf] owner_inv_def)
qed

lemma expire_entries_get:
  "bt_get (expire_entries now ttl pool n us) k = (case bt_get us k of None \<Rightarrow> None
     | Some u \<Rightarrow> Some u) \<or> (\<exists>u. bt_get us k = Some u \<and> bt_get (expire_entries now ttl pool n us) k = Some (u\<lparr>su_closing := True\<rparr>))"
  by (induction now ttl pool n us rule: expire_entries.induct) auto

lemma expire_entries_keys: "map fst (expire_entries now ttl pool n us) = map fst us"
  by (induction now ttl pool n us rule: expire_entries.induct) auto

lemma expire_entries_wf: "bt_wf us \<Longrightarrow> bt_wf (expire_entries now ttl pool n us)"
  by (simp add: bt_wf_def expire_entries_keys)

lemma expire_entries_same: "bt_wf us \<Longrightarrow> same_on reusable_core us (expire_entries now ttl pool n us)"
  unfolding same_on_def
proof (intro conjI allI)
  show "map_option reusable_core (bt_get (expire_entries now ttl pool n us) k) = map_option reusable_core (bt_get us k)" for k
    using expire_entries_get [of now ttl pool n us k] by (auto simp: reusable_core_def split: option.splits)
qed (rule expire_entries_wf)

section \<open>What a scan keeps\<close>

text \<open>\<open>scan_frame s t\<close>: only reusable instances, and the reserved slots of plugins, changed.\<close>

definition scan_frame :: "scheduler_state \<Rightarrow> scheduler_state \<Rightarrow> bool" where
  "scan_frame s t \<longleftrightarrow>
     sd_pools t = sd_pools s \<and> sd_capacities t = sd_capacities s \<and> sd_sessions t = sd_sessions s \<and> sd_queues t = sd_queues s \<and>
     sd_rotation t = sd_rotation s \<and> sd_live t = sd_live s \<and> sd_operation_plugins t = sd_operation_plugins s \<and>
     sd_cleaning t = sd_cleaning s \<and> sd_finalizing t = sd_finalizing s \<and> sd_cleaning_count t = sd_cleaning_count s \<and>
     same_on (\<lambda>g. (sg_config g, sg_closing g)) (sd_plugins s) (sd_plugins t)"

lemma scan_frame_refl: "center_inv cfg R P s \<Longrightarrow> scan_frame s s"
  using sched_inv_parts(1) [OF center_invD] by (auto simp: scan_frame_def queue_inv_def intro!: same_on_refl)

lemma scan_frame_reusables: "bt_wf (sd_plugins s) \<Longrightarrow> scan_frame s (s\<lparr>sd_reusable_instances := m\<rparr>)"
  by (simp add: scan_frame_def same_on_refl)

lemma scan_frame_trans: "scan_frame s t \<Longrightarrow> scan_frame t u \<Longrightarrow> scan_frame s u"
  by (auto simp: scan_frame_def same_on_def)

lemma center_inv_frame:
  assumes "center_inv cfg R P s" "sched_inv cfg t (all_flights R P s)" "scan_frame s t"
  shows "center_inv cfg R P t"
  using assms by (intro center_inv_keep [OF assms(1)]) (auto simp: scan_frame_def)

lemma wp_reusable_expire:
  assumes inv: "center_inv cfg R P s" and p: "bt_get (sd_pools s) pool = Some p"
  shows "wp (reusable_expire ev pool) (\<lambda>_ t. center_inv cfg R P t \<and> scan_frame s t \<and> map fst (sd_reusable_instances t) = map fst (sd_reusable_instances s)) (\<lambda>_. False) s"
proof -
  note si = center_invD [OF inv]
  have wf: "bt_wf (sd_reusable_instances s)" "bt_wf (sd_plugins s)" using sched_inv_parts(1,3) [OF si] by (simp_all add: lease_inv_def queue_inv_def)
  have "center_inv cfg R P (s\<lparr>sd_reusable_instances := expire_entries now ttl pool n (sd_reusable_instances s)\<rparr>)" for now ttl n
  proof (rule center_inv_frame [OF inv _ scan_frame_reusables [OF wf(2)]], rule sched_inv_reusables [OF si expire_entries_same [OF wf(1)]])
    fix k u assume "bt_get (expire_entries now ttl pool n (sd_reusable_instances s)) k = Some u"
    then show "reusable_ok (sd_pools s) u"
      using expire_entries_get [of now ttl pool n "sd_reusable_instances s" k] sched_inv_parts(3) [OF si] reusable_ok_closing
      by (auto simp: lease_inv_def split: option.splits)
  qed
  note step = this scan_frame_refl [OF inv] scan_frame_reusables [OF wf(2)] inv
  show ?thesis
  proof (cases "sp_capacity_id p")
    case None
    then show ?thesis using p step by (auto simp: reusable_expire_def wp_simps expire_entries_keys Let_def split: option.splits)
  next
    case (Some c)
    obtain kk where "bt_get (sd_capacities s) c = Some kk" by (rule pool_capacity [OF si p Some])
    moreover obtain n where "capacity_idle s c = Ok n" using capacity_idle_safe [OF si] by blast
    ultimately show ?thesis using p Some step by (auto simp: reusable_expire_def wp_simps expire_entries_keys Let_def split: option.splits)
  qed
qed

section \<open>Preparing a reusable instance\<close>

lemma find_idle_Some:
  assumes "bt_wf us" "find_idle pool us = Some (k, u)"
  shows "bt_get us k = Some u" "su_pool_id u = pool" "reusable_idle u"
proof -
  obtain i where i: "i < length us" "su_pool_id (snd (us ! i)) = pool \<and> reusable_idle (snd (us ! i))" "(k, u) = us ! i"
    using assms(2) unfolding find_idle_def find_Some_iff by blast
  then show "bt_get us k = Some u" using bt.get_iff [OF assms(1)] nth_mem [of i us] by simp
  show "su_pool_id u = pool" "reusable_idle u" using i(2) by (simp_all flip: i(3))
qed

text \<open>A prepared instance waits for the call that was chosen for it.\<close>

definition prepared_for :: "scheduler_state \<Rightarrow> string \<Rightarrow> string \<Rightarrow> string \<Rightarrow> bool" where
  "prepared_for t pool operation k \<longleftrightarrow> (\<exists>u. bt_get (sd_reusable_instances t) k = Some u \<and> su_active u = Some operation \<and> su_pool_id u = pool \<and>
     (finalizes (sd_pools t) pool \<longrightarrow> su_finalization_reservation u))"

definition keys_fresh :: "scheduler_env \<Rightarrow> scheduler_state \<Rightarrow> bool" where
  "keys_fresh ev s \<longleftrightarrow> (\<forall>l i. ev_allocation_id ev l = Ok i \<longrightarrow> bt_get (sd_reusable_instances s) i = None)"

lemma bt_get_keys: "bt_wf m \<Longrightarrow> bt_get m k = None \<longleftrightarrow> k \<notin> set (map fst m)"
  using bt.get_None_iff [of m k] by (simp add: image_def)

lemma keys_fresh_same:
  assumes "keys_fresh ev s" "bt_wf (sd_reusable_instances s)" "bt_wf (sd_reusable_instances t)"
    "map fst (sd_reusable_instances t) = map fst (sd_reusable_instances s)"
  shows "keys_fresh ev t"
  using assms by (simp add: keys_fresh_def bt_get_keys)

lemma wp_reusable_allocate:
  assumes inv: "center_inv cfg R P s" and p: "bt_get (sd_pools s) pool = Some p" and ev: "env_safe ev" "keys_fresh ev s"
  shows "wp (reusable_allocate ev pool operation context)
    (\<lambda>r t. center_inv cfg R P t \<and> scan_frame s t \<and> (case r of None \<Rightarrow> t = s | Some (l, k) \<Rightarrow> prepared_for t pool operation k)) (\<lambda>t. t = s) s"
proof -
  note si = center_invD [OF inv]
  have wf: "bt_wf (sd_reusable_instances s)" "bt_wf (sd_plugins s)" using sched_inv_parts(1,3) [OF si] by (simp_all add: lease_inv_def queue_inv_def)
  obtain g where g: "bt_get (sd_plugins s) (sp_plugin_id p) = Some g" "sg_reserved_operations g \<le> plg_max_operations (sg_config g)"
    by (rule pool_owner [OF si p])
  define u where "u = \<lparr>su_finalization_reservation = sp_finalizer p, su_finalization_context = (if sp_finalizer p then context else context_default),
    su_pool_id = pool, su_lease = None, su_active = Some operation, su_closing = False, su_idle_since = ev_now ev, su_retirement = None, su_retiring = False\<rparr>"
  have added: "center_inv cfg R P (add_reusable (sp_plugin_id p) k u s) \<and> scan_frame s (add_reusable (sp_plugin_id p) k u s) \<and>
      prepared_for (add_reusable (sp_plugin_id p) k u s) pool operation k"
    if "ev_allocation_id ev l = Ok k" "sp_finalizer p \<longrightarrow> sg_operations g < plg_max_operations (sg_config g) - sg_reserved_operations g" for k l
  proof -
    have frame: "scan_frame s (add_reusable (sp_plugin_id p) k u s)"
      using wf by (auto simp: scan_frame_def add_reusable_def intro!: same_on_update same_on_refl)
    have "sched_inv cfg (add_reusable (sp_plugin_id p) k u s) (all_flights R P s)"
      using that ev(2) p g by (intro sched_inv_add_reusable [OF si]) (auto simp: keys_fresh_def u_def reusable_ok_def pool_plugin_def)
    then show ?thesis
      using center_inv_frame [OF inv _ frame] frame p by (auto simp: prepared_for_def add_reusable_def u_def finalizes_def)
  qed
  have eq: "s\<lparr>sd_plugins := bt_insert (sp_plugin_id p) (g\<lparr>sg_reserved_operations := Suc (sg_reserved_operations g)\<rparr>) (sd_plugins s), sd_reusable_instances := bt_insert k u (sd_reusable_instances s)\<rparr>
      = add_reusable (sp_plugin_id p) k u s" if "sp_finalizer p" for k
    using that g by (simp add: add_reusable_def bt_update_def u_def)
  have eq': "s\<lparr>sd_reusable_instances := bt_insert k u (sd_reusable_instances s)\<rparr> = add_reusable (sp_plugin_id p) k u s" if "\<not> sp_finalizer p" for k
    using that by (simp add: add_reusable_def u_def)
  show ?thesis
  proof (cases "sp_finalizer p")
    case True
    then show ?thesis
      using p g ev(1) added plugin_allows_safe [OF ev(1), of s pool] inv scan_frame_refl [OF inv] eq [OF True]
      unfolding reusable_allocate_def u_def
      by (auto simp: wp_simps modify_at_def env_safe_case not_le Let_def decrease_enough [OF g(2)] split: outcome.splits)
  next
    case False
    then show ?thesis
      using p g ev(1) added plugin_allows_safe [OF ev(1), of s pool] inv scan_frame_refl [OF inv] eq' [OF False]
      unfolding reusable_allocate_def u_def
      by (auto simp: wp_simps modify_at_def env_safe_case not_le Let_def split: outcome.splits)
  qed
qed

definition scan_inv :: "embedded_runtime_config \<Rightarrow> flight multiset \<Rightarrow> pending_completion multiset \<Rightarrow> scheduler_env \<Rightarrow> scheduler_state \<Rightarrow> scheduler_state \<Rightarrow> bool" where
  "scan_inv cfg R P ev s t \<longleftrightarrow> center_inv cfg R P t \<and> scan_frame s t \<and> keys_fresh ev t"

lemma instances_wf: "center_inv cfg R P s \<Longrightarrow> bt_wf (sd_reusable_instances s)"
  using sched_inv_parts(3) [OF center_invD] by (auto simp: lease_inv_def)

lemma wp_reusable_prepare:
  assumes inv: "center_inv cfg R P s" and p: "bt_get (sd_pools s) pool = Some p" and ev: "env_safe ev" "keys_fresh ev s"
  shows "wp (reusable_prepare ev pool operation context control cached)
    (\<lambda>r t. case r of None \<Rightarrow> scan_inv cfg R P ev s t | Some (l, k) \<Rightarrow> center_inv cfg R P t \<and> scan_frame s t \<and> prepared_for t pool operation k)
    (scan_inv cfg R P ev s) s"
proof -
  have claimed: "center_inv cfg R P (claim_reusable k operation x t) \<and> scan_frame s (claim_reusable k operation x t) \<and>
      prepared_for (claim_reusable k operation x t) pool operation k"
    if t: "center_inv cfg R P t" "scan_frame s t" and f: "find_idle pool (sd_reusable_instances t) = Some (k, u)" for t k u x
  proof -
    note found = find_idle_Some [OF instances_wf [OF t(1)] f]
    note si = center_invD [OF t(1)]
    have wf: "bt_wf (sd_plugins t)" using sched_inv_parts(1) [OF si] by (simp add: queue_inv_def)
    have frame: "scan_frame t (claim_reusable k operation x t)" unfolding claim_reusable_def by (rule scan_frame_reusables [OF wf])
    have "finalizes (sd_pools t) pool \<longrightarrow> su_finalization_reservation u"
      using sched_inv_parts(3) [OF si] found by (auto simp: lease_inv_def reusable_ok_def reusable_idle_def)
    then show ?thesis
      using center_inv_frame [OF t(1) sched_inv_claim_reusable [OF si found(1,3)] frame] scan_frame_trans [OF t(2) frame] found
      by (auto simp: prepared_for_def claim_reusable_def)
  qed
  have rest: "wp (reusable_obtain ev pool operation context cached)
     (\<lambda>r t. case r of None \<Rightarrow> scan_inv cfg R P ev s t | Some (l, k) \<Rightarrow> center_inv cfg R P t \<and> scan_frame s t \<and> prepared_for t pool operation k)
     (scan_inv cfg R P ev s) t"
    if t: "center_inv cfg R P t" "scan_frame s t" "keys_fresh ev t" for t
  proof (cases "if cached then find_idle pool (sd_reusable_instances t) else None")
    case None
    have "bt_get (sd_pools t) pool = Some p" using p t(2) by (simp add: scan_frame_def)
    then show ?thesis
      using None t
      by (simp add: wp_simps reusable_obtain_def) (rule wp_mono [OF wp_reusable_allocate [OF t(1) _ ev(1) t(3)]],
        auto simp: scan_inv_def intro: scan_frame_trans split: option.splits)
  next
    case (Some e)
    obtain k u where e: "e = (k, u)" by (cases e)
    have f: "find_idle pool (sd_reusable_instances t) = Some (k, u)" using Some e by (simp split: if_splits)
    obtain l where "su_lease u = Some l" using find_idle_Some(3) [OF instances_wf [OF t(1)] f] by (auto simp: reusable_idle_def)
    then show ?thesis
      using Some e claimed [OF t(1,2) f, of "\<lambda>u. if su_finalization_reservation u then context else su_finalization_context u"]
        find_idle_Some(1) [OF instances_wf [OF t(1)] f]
      by (simp add: wp_simps reusable_obtain_def claim_reusable_def bt_update_def)
  qed
  have expire: "wp (reusable_expire ev pool) (\<lambda>_ t. center_inv cfg R P t \<and> scan_frame s t \<and> keys_fresh ev t) (\<lambda>_. False) s"
    by (rule wp_mono [OF wp_reusable_expire [OF inv p]]) (use keys_fresh_same [OF ev(2) instances_wf [OF inv]] instances_wf in blast)+
  have "scan_inv cfg R P ev s s" using inv ev scan_frame_refl [OF inv] by (simp add: scan_inv_def)
  moreover have "wp (reusable_expire ev pool) (\<lambda>_. wp (reusable_obtain ev pool operation context cached)
     (\<lambda>r t. case r of None \<Rightarrow> scan_inv cfg R P ev s t | Some (l, k) \<Rightarrow> center_inv cfg R P t \<and> scan_frame s t \<and> prepared_for t pool operation k)
     (scan_inv cfg R P ev s)) (scan_inv cfg R P ev s) s"
    by (rule wp_mono [OF expire]) (use rest in blast)+
  ultimately show ?thesis
    unfolding reusable_prepare_def wp_bind wp_values using env_safe_case(1) [OF ev(1)] by (auto split: outcome.splits)
qed


text \<open>
  The scan of the queues (\<^verbatim>\<open>workers.rs\<close>: \<^verbatim>\<open>select\<close>): it keeps the invariant, never panics, and dispatches the
  first call of its pool and session in the queue of its plugin; the plugin moves to the end of the
  rotation.
\<close>

section \<open>Reclaiming an idle instance\<close>

lemma reclaim_pools_safe:
  assumes inv: "sched_inv cfg s F"
    and ps: "\<And>k p. (k, p) \<in> set ps \<Longrightarrow> bt_get (sd_pools s) k = Some p"
  shows "\<not> is_panic (reclaim_pools s plugin c pl cl ps)"
    "reclaim_pools s plugin c pl cl ps = Ok (Some i) \<Longrightarrow> bt_get (sd_reusable_instances s) i \<noteq> None"
proof -
  have wf: "bt_wf (sd_reusable_instances s)" using sched_inv_parts(3) [OF inv] by (simp add: lease_inv_def)
  have idle: "\<not> is_panic (capacity_idle s k)" for k using capacity_idle_safe [OF inv, of k] by auto
  have "\<not> is_panic (reclaim_pools s plugin c pl cl ps) \<and> (reclaim_pools s plugin c pl cl ps = Ok (Some i) \<longrightarrow> bt_get (sd_reusable_instances s) i \<noteq> None)"
    using ps
  proof (induction ps)
    case (Cons e ps)
    obtain k p where e: "e = (k, p)" by (cases e)
    then have p: "bt_get (sd_pools s) k = Some p" using Cons.prems by simp
    have ih: "\<not> is_panic (reclaim_pools s plugin c pl cl ps) \<and> (reclaim_pools s plugin c pl cl ps = Ok (Some i) \<longrightarrow> bt_get (sd_reusable_instances s) i \<noteq> None)"
      using Cons by simp
    have cap: "bt_get (sd_capacities s) o' \<noteq> None" if "sp_capacity_id p = Some o'" for o' using pool_capacity [OF inv p that] by auto
    show ?case
      using ih cap idle find_idle_Some(1) [OF wf, of k] unfolding e
      by (cases "find_idle k (sd_reusable_instances s)") (auto simp: Let_def split: option.splits)
  qed simp
  then show "\<not> is_panic (reclaim_pools s plugin c pl cl ps)"
    "reclaim_pools s plugin c pl cl ps = Ok (Some i) \<Longrightarrow> bt_get (sd_reusable_instances s) i \<noteq> None" by auto
qed

lemma sched_inv_mark_reusable:
  assumes "sched_inv cfg s F" "bt_get (sd_reusable_instances s) i = Some u"
  shows "sched_inv cfg (s\<lparr>sd_reusable_instances := bt_insert i (u\<lparr>su_closing := True\<rparr>) (sd_reusable_instances s)\<rparr>) F"
proof -
  have wf: "bt_wf (sd_reusable_instances s)" using sched_inv_parts(3) [OF assms(1)] by (simp add: lease_inv_def)
  have "sched_inv cfg (s\<lparr>sd_reusable_instances := bt_update (\<lambda>u. u\<lparr>su_closing := True\<rparr>) i (sd_reusable_instances s)\<rparr>) F"
  proof (rule sched_inv_reusables [OF assms(1)])
    show "same_on reusable_core (sd_reusable_instances s) (bt_update (\<lambda>u. u\<lparr>su_closing := True\<rparr>) i (sd_reusable_instances s))"
      by (rule same_on_update [OF wf]) (simp add: reusable_core_def)
    show "reusable_ok (sd_pools s) v" if "bt_get (bt_update (\<lambda>u. u\<lparr>su_closing := True\<rparr>) i (sd_reusable_instances s)) k = Some v" for k v
      using that sched_inv_parts(3) [OF assms(1)] by (auto simp: lease_inv_def reusable_ok_def split: if_splits)
  qed
  then show ?thesis using assms(2) by (simp add: bt_update_def)
qed

lemma scan_inv_mark:
  assumes "scan_inv cfg R P ev s t" "bt_get (sd_reusable_instances t) i = Some u"
  shows "scan_inv cfg R P ev s (t\<lparr>sd_reusable_instances := bt_insert i (u\<lparr>su_closing := True\<rparr>) (sd_reusable_instances t)\<rparr>)"
proof -
  have t: "center_inv cfg R P t" "scan_frame s t" "keys_fresh ev t" using assms(1) by (simp_all add: scan_inv_def)
  have wf: "bt_wf (sd_plugins t)" using sched_inv_parts(1) [OF center_invD [OF t(1)]] by (simp add: queue_inv_def)
  note frame = scan_frame_reusables [OF wf, of "bt_insert i (u\<lparr>su_closing := True\<rparr>) (sd_reusable_instances t)"]
  show ?thesis
    using center_inv_frame [OF t(1) sched_inv_mark_reusable [OF center_invD [OF t(1)] assms(2)] frame] scan_frame_trans [OF t(2) frame] t(3) assms(2)
    by (auto simp: scan_inv_def keys_fresh_def)
qed

lemma wp_reclaim:
  assumes "scan_inv cfg R P ev s t" "env_safe ev"
  shows "wp (reusable_reclaim ev pool) (\<lambda>_. scan_inv cfg R P ev s) (scan_inv cfg R P ev s) t"
proof -
  have si: "sched_inv cfg t (all_flights R P t)" using assms(1) by (auto simp: scan_inv_def dest: center_invD)
  have "bt_wf (sd_pools t)" using sched_inv_parts(2) [OF si] by (simp add: call_inv_def)
  then have pools: "(k, p) \<in> set (sd_pools t) \<Longrightarrow> bt_get (sd_pools t) k = Some p" for k p by (simp add: bt.get_iff)
  have found: "bt_get (sd_reusable_instances t) i \<noteq> None" if "reclaim_pools t pl c a b (sd_pools t) = Ok (Some i)" for pl c a b i
    using reclaim_pools_safe(2) [OF si pools that] by blast
  have safe: "\<not> is_panic (reclaim_pools t pl c a b (sd_pools t))" for pl c a b using reclaim_pools_safe(1) [OF si pools] by blast
  have "\<not> is_panic (reclaim_choice ev pool t)"
    using plugin_allows_safe [OF assms(2)] resident_fold_safe [OF assms(2)] safe pool_capacity [OF si]
    by (fastforce simp: reclaim_choice_def capacity_residents_def split: option.splits)
  moreover have "bt_get (sd_reusable_instances t) i \<noteq> None" if "reclaim_choice ev pool t = Ok (Some i)" for i
    using that found by (auto simp: reclaim_choice_def split: option.splits)
  ultimately show ?thesis
    using assms(1) scan_inv_mark [OF assms(1)] unfolding reusable_reclaim_def
    by (auto simp: wp_simps split: outcome.splits option.splits)
qed

section \<open>Preparing a call\<close>

lemma wp_catch:
  assumes "wp m (\<lambda>x. Q (Inr x)) (\<lambda>t. \<forall>e. Q (Inl e) t) s"
  shows "wp (catch_action m) Q E s"
  using assms by (auto simp: wp_def catch_action_def split: prod.splits outcome.splits)

definition prepared_ok ::
  "embedded_runtime_config \<Rightarrow> flight multiset \<Rightarrow> pending_completion multiset \<Rightarrow> scheduler_env \<Rightarrow> scheduler_state \<Rightarrow> scheduled_call
    \<Rightarrow> embedded_error + (module_lease \<times> string option) option \<Rightarrow> scheduler_state \<Rightarrow> bool" where
  "prepared_ok cfg R P ev s call r t \<longleftrightarrow>
     (case r of
        Inr (Some (l, Some k)) \<Rightarrow> center_inv cfg R P t \<and> scan_frame s t \<and> prepared_for t (sc_pool call) (sc_id call) k
      | _ \<Rightarrow> scan_inv cfg R P ev s t)"

lemma prepared_ok_waiting [simp]:
  "prepared_ok cfg R P ev s call (Inl e) = scan_inv cfg R P ev s" "prepared_ok cfg R P ev s call (Inr None) = scan_inv cfg R P ev s"
  "prepared_ok cfg R P ev s call (Inr (Some (l, None))) = scan_inv cfg R P ev s"
  by (simp_all add: prepared_ok_def fun_eq_iff)

lemma wp_prepare_call:
  assumes inv: "center_inv cfg R P s" and ev: "env_safe ev" "keys_fresh ev s"
    and call: "call_owned s True call" "sc_session call = None"
  shows "wp (prepare_call ev call) (prepared_ok cfg R P ev s call) (scan_inv cfg R P ev s) s"
proof -
  obtain p where p: "bt_get (sd_pools s) (sc_pool call) = Some p" using call(1) by (auto simp: call_owned_def)
  obtain x where x: "request_context (sc_request call) = Some x" using call(2) by (cases "sc_request call") auto
  have here: "scan_inv cfg R P ev s s" using inv ev scan_frame_refl [OF inv] by (simp add: scan_inv_def)
  have "wp (reusable_prepare ev (sc_pool call) (sc_id call) x (sc_control call) (\<not> prewarm))
      (\<lambda>r. prepared_ok cfg R P ev s call (case Inr r of Inl e \<Rightarrow> Inl e | Inr None \<Rightarrow> Inr None | Inr (Some (lease, ident)) \<Rightarrow> Inr (Some (lease, Some ident))))
      (\<lambda>t. \<forall>e :: embedded_error. prepared_ok cfg R P ev s call (Inl e) t) s" for prewarm
    by (rule wp_mono [OF wp_reusable_prepare [OF inv p ev]]) (auto simp: prepared_ok_def split: option.splits)
  then have caught: "wp (catch_action (reusable_prepare ev (sc_pool call) (sc_id call) x (sc_control call) (\<not> prewarm)))
      (\<lambda>r. prepared_ok cfg R P ev s call (case r of Inl e \<Rightarrow> Inl e | Inr None \<Rightarrow> Inr None | Inr (Some (lease, ident)) \<Rightarrow> Inr (Some (lease, Some ident))))
      (scan_inv cfg R P ev s) s" for prewarm
    by (intro wp_catch) simp
  show ?thesis
    using p x here plugin_allows_safe [OF ev(1), of s "sc_pool call"] env_safe_case(7) [OF ev(1)] env_safe_case(9) [OF ev(1)] caught [of True] caught [of False]
    unfolding prepare_call_def
    by (auto simp: wp_simps Let_def split: outcome.splits)
qed

section \<open>Dispatch\<close>

lemma center_inv_rotate:
  assumes "center_inv cfg R P s" "distinct xs" "set xs = set (sd_rotation s)"
  shows "center_inv cfg R P (s\<lparr>sd_rotation := xs\<rparr>)"
proof -
  note parts = sched_inv_parts [OF center_invD [OF assms(1)]]
  have "queue_inv (s\<lparr>sd_rotation := xs\<rparr>)" using parts(1) assms(2,3) by (simp add: queue_inv_def plugin_queue_def)
  then have "sched_inv cfg (s\<lparr>sd_rotation := xs\<rparr>) (all_flights R P s)" using parts by (intro sched_invI) simp_all
  then show ?thesis by (rule center_inv_keep [OF assms(1)]) simp_all
qed

lemma room_take:
  assumes "room pool s" "bt_wf (sd_pools s)"
  shows "room pool (take_move plugin i s)"
proof -
  have "active_of (sd_pools (take_move plugin i s)) P = active_of (sd_pools s) P" if "\<And>p f. keeps_pool f \<Longrightarrow> P (f p) = P p" for P
    using that assms(2) by (auto simp: take_move_def Let_def intro!: active_of_update_same)
  then have "plugin_active (take_move plugin i s) = plugin_active s" "capacity_active (take_move plugin i s) = capacity_active s"
    by (simp_all add: plugin_active_eq capacity_active_eq keeps_pool_fields fun_eq_iff)
  then show ?thesis using assms(1) by (auto simp: room_def take_move_def Let_def split: if_splits)
qed

lemma rotate_to_end:
  assumes "n < length xs" "distinct xs"
  shows "rotate (Suc n) xs = drop (Suc n) xs @ take n xs @ [xs ! n]"
    "filter (\<lambda>c. c \<noteq> xs ! n) (drop (Suc n) xs @ take n xs @ [xs ! n]) = drop (Suc n) xs @ take n xs"
proof -
  have "rotate (Suc n) xs = drop (Suc n) xs @ take (Suc n) xs"
    by (metis Suc_leI assms(1) append_take_drop_id length_take min_absorb2 rotate_append)
  then show "rotate (Suc n) xs = drop (Suc n) xs @ take n xs @ [xs ! n]" using assms(1) by (simp add: take_Suc_conv_app_nth)
  have "distinct (take n xs @ xs ! n # drop (Suc n) xs)" using assms by (simp add: id_take_nth_drop [symmetric])
  then have "c \<noteq> xs ! n" if "c \<in> set (drop (Suc n) xs @ take n xs)" for c using that by auto
  then show "filter (\<lambda>c. c \<noteq> xs ! n) (drop (Suc n) xs @ take n xs @ [xs ! n]) = drop (Suc n) xs @ take n xs"
    by (simp add: filter_id_conv)
qed

definition dispatched ::
  "embedded_runtime_config \<Rightarrow> flight multiset \<Rightarrow> pending_completion multiset \<Rightarrow> scheduler_state \<Rightarrow> nat \<Rightarrow> string \<Rightarrow> nat \<Rightarrow> worker_dispatch \<Rightarrow> scheduler_state \<Rightarrow> bool" where
  "dispatched cfg R P s n plugin i d t \<longleftrightarrow>
     sd_rotation t = drop (Suc n) (sd_rotation s) @ take n (sd_rotation s) @ (if length (plugin_queue s plugin) = 1 then [] else [plugin]) \<and>
     (case d of
        Ready c l \<Rightarrow> (\<exists>k. c = (queued_at s plugin i)\<lparr>sc_reusable_instance := k\<rparr>) \<and> center_inv cfg (add_mset (c, True, None) R) P t
      | Rejected c e \<Rightarrow> c = queued_at s plugin i \<and> center_inv cfg (add_mset (c, False, None) R) P t
      | FinalizingCall _ \<Rightarrow> False)"

text \<open>The state in which the call has left the queue.\<close>

definition dequeued :: "nat \<Rightarrow> string \<Rightarrow> nat \<Rightarrow> scheduler_state \<Rightarrow> scheduler_state" where
  "dequeued n plugin i s = take_move plugin i (s\<lparr>sd_rotation := rotate (Suc n) (sd_rotation s)\<rparr>)"

lemma dequeued_facts:
  assumes inv: "center_inv cfg R P s" and n: "n < length (sd_rotation s)" "sd_rotation s ! n = plugin" and i: "i < length (plugin_queue s plugin)"
  shows "take_call plugin i (s\<lparr>sd_rotation := rotate (Suc n) (sd_rotation s)\<rparr>) = (Ok (queued_at s plugin i), dequeued n plugin i s)"
    "sched_inv cfg (dequeued n plugin i s) (add_mset (queued_at s plugin i, False, None) (all_flights R P s))"
    "sd_rotation (dequeued n plugin i s) = drop (Suc n) (sd_rotation s) @ take n (sd_rotation s) @ (if length (plugin_queue s plugin) = 1 then [] else [plugin])"
    "room pool s \<Longrightarrow> room pool (dequeued n plugin i s)"
proof -
  let ?r = "s\<lparr>sd_rotation := rotate (Suc n) (sd_rotation s)\<rparr>"
  have q: "queue_inv s" using sched_inv_parts(1) [OF center_invD [OF inv]] .
  then have d: "distinct (sd_rotation s)" by (simp add: queue_inv_def)
  have ri: "center_inv cfg R P ?r" using d by (intro center_inv_rotate [OF inv]) simp_all
  have same: "plugin_queue ?r plugin = plugin_queue s plugin" "queued_at ?r plugin i = queued_at s plugin i" "all_flights R P ?r = all_flights R P s"
    by (simp_all add: plugin_queue_def queued_at_def state_flights_def)
  note si = center_invD [OF ri]
  have i': "i < length (plugin_queue ?r plugin)" using i same by simp
  show "take_call plugin i ?r = (Ok (queued_at s plugin i), dequeued n plugin i s)"
    using take_call_eq [OF si i'] same by (simp add: dequeued_def)
  show "sched_inv cfg (dequeued n plugin i s) (add_mset (queued_at s plugin i, False, None) (all_flights R P s))"
    using sched_inv_take [OF si i', of None] same by (simp add: dequeued_def)
  have "drop_index i (plugin_queue s plugin) = [] \<longleftrightarrow> length (plugin_queue s plugin) = 1"
    using length_drop_index [OF i] i by (cases "drop_index i (plugin_queue s plugin)") auto
  then show "sd_rotation (dequeued n plugin i s) = drop (Suc n) (sd_rotation s) @ take n (sd_rotation s) @ (if length (plugin_queue s plugin) = 1 then [] else [plugin])"
    using rotate_to_end [OF n(1) d] n(2) same by (simp add: dequeued_def take_move_def leave_queue_def Let_def)
  have "bt_wf (sd_pools s)" using sched_inv_parts(2) [OF center_invD [OF inv]] by (simp add: call_inv_def)
  then show "room pool s \<Longrightarrow> room pool (dequeued n plugin i s)"
    unfolding dequeued_def by (intro room_take) (simp_all add: room_def plugin_active_eq capacity_active_eq)
qed

lemma dequeued_others [simp]:
  "sd_cleaning (dequeued n plugin i s) = sd_cleaning s" "sd_finalizing (dequeued n plugin i s) = sd_finalizing s"
  "sd_cleaning_count (dequeued n plugin i s) = sd_cleaning_count s" "sd_reusable_instances (dequeued n plugin i s) = sd_reusable_instances s"
  by (simp_all add: dequeued_def)

end
