(* ===== verification/Scheduler_Choose.thy ===== *)
theory Scheduler_Choose
  imports Scheduler_Select
begin

text \<open>Dispatch of the chosen call, and the scan of all queues.\<close>

section \<open>Dispatch\<close>

lemma activate_others [simp]:
  "sd_cleaning (activate_move k s) = sd_cleaning s" "sd_finalizing (activate_move k s) = sd_finalizing s"
  "sd_cleaning_count (activate_move k s) = sd_cleaning_count s" "sd_rotation (activate_move k s) = sd_rotation s"
  by (simp_all add: activate_move_def)

lemma activate_pool_eq: "bt_get (sd_pools s) k = Some p \<Longrightarrow> activate_pool k s = (Ok (), activate_move k s)"
  by (simp add: activate_pool_def activate_move_def modify_at_def bt_update_def)


lemma wp_dispatch_rejected:
  assumes "center_inv cfg R P s" "n < length (sd_rotation s)" "sd_rotation s ! n = plugin" "i < length (plugin_queue s plugin)"
  shows "wp (dispatch_call n plugin i (Some (Inl e))) (dispatched cfg R P s n plugin i) (\<lambda>_. False) s"
proof -
  note facts = dequeued_facts [OF assms]
  have "center_inv cfg (add_mset (queued_at s plugin i, False, None) R) P (dequeued n plugin i s)"
    using facts(2) by (intro center_inv_keep [OF assms(1)]) simp_all
  then show ?thesis
    using facts(1,3) by (simp add: dispatch_call_def wp_def bind_action_def write_state_def ret_def dispatched_def)
qed

lemma wp_dispatch_ready:
  assumes "center_inv cfg R P s" "n < length (sd_rotation s)" "sd_rotation s ! n = plugin" "i < length (plugin_queue s plugin)"
    and call: "sc_session (queued_at s plugin i) = None" "room (sc_pool (queued_at s plugin i)) s"
    and prepared: "\<And>k. ident = Some k \<Longrightarrow> prepared_for s (sc_pool (queued_at s plugin i)) (sc_id (queued_at s plugin i)) k"
  shows "wp (dispatch_call n plugin i (Some (Inr (l, ident)))) (dispatched cfg R P s n plugin i) (\<lambda>_. False) s"
proof -
  let ?c = "queued_at s plugin i" and ?t = "dequeued n plugin i s"
  let ?d = "?c\<lparr>sc_reusable_instance := ident\<rparr>"
  note facts = dequeued_facts [OF assms(1-4)]
  have pools: "finalizes (sd_pools ?t) = finalizes (sd_pools s)" by (simp add: dequeued_def take_move_def Let_def)
  have "flight_ok ?t (?d, True, None)"
    using call(1) prepared by (auto simp: flight_ok_def prepared_for_def pools)
  then have "sched_inv cfg (activate_move (sc_pool ?c) ?t) (add_mset (?d, True, None) (all_flights R P s))"
    using facts(4) [OF call(2)] by (intro sched_inv_activate [OF facts(2)]) (simp_all add: same_call_def)
  then have c: "center_inv cfg (add_mset (?d, True, None) R) P (activate_move (sc_pool ?c) ?t)"
    by (intro center_inv_keep [OF assms(1)]) simp_all
  obtain p where "bt_get (sd_pools ?t) (sc_pool ?c) = Some p" using facts(4) [OF call(2)] by (auto simp: room_def)
  then show ?thesis
    using facts(1,3) c activate_pool_eq [of ?t "sc_pool ?c" p]
    by (simp add: dispatch_call_def wp_def bind_action_def write_state_def ret_def dispatched_def) (metis)
qed

lemma wp_dispatch_session:
  assumes "center_inv cfg R P s" "n < length (sd_rotation s)" "sd_rotation s ! n = plugin" "i < length (plugin_queue s plugin)"
    and call: "sc_session (queued_at s plugin i) = Some k" "room (sc_pool (queued_at s plugin i)) s"
    and ss: "bt_get (sd_sessions s) k = Some ss" "\<not> ss_closing ss" "ss_active ss = None"
  shows "wp (dispatch_call n plugin i None) (dispatched cfg R P s n plugin i) (\<lambda>_. False) s"
proof -
  let ?c = "queued_at s plugin i" and ?t = "dequeued n plugin i s"
  note facts = dequeued_facts [OF assms(1-4)]
  have ss': "bt_get (sd_sessions ?t) k = Some (ss\<lparr>ss_queued := ss_queued ss - 1\<rparr>)"
    using ss(1) call(1) by (simp add: dequeued_def take_move_def Let_def queued_at_def plugin_queue_def)
  have ok: "session_ok (sd_pools s) ss" using sched_inv_parts(3) [OF center_invD [OF assms(1)]] ss(1) by (simp add: lease_inv_def)
  then obtain l where l: "ss_lease ss = Some l" using ss(2,3) by (auto simp: session_ok_def)
  define x where "x = (\<lambda>ss :: scheduled_session. case request_invocation (sc_request ?c) of None \<Rightarrow> ss_finalization_context ss
      | Some request \<Rightarrow> if ss_finalization_reservation ss then ec_context request else ss_finalization_context ss)"
  let ?u = "claim_session k (sc_id ?c) x ?t"
  have ui: "sched_inv cfg ?u (add_mset (?c, False, None) (all_flights R P s))"
    using ss by (intro sched_inv_claim_session [OF facts(2) ss']) simp_all
  have q: "sc_reusable_instance ?c = None"
    by (rule queued_at_call(1) [OF sched_inv_parts(1) [OF center_invD [OF assms(1)]] assms(4)])
  then have self: "\<exists>k. ?c = ?c\<lparr>sc_reusable_instance := k\<rparr>" by (metis scheduled_call.surjective scheduled_call.update_convs(1))
  have pools: "finalizes (sd_pools ?t) = finalizes (sd_pools s)" by (simp add: dequeued_def take_move_def Let_def)
  have "flight_ok ?u (?c, True, None)"
    using call(1) ss' ok l q pools by (auto simp: flight_ok_def claim_session_def session_ok_def)
  moreover have "room (sc_pool ?c) ?u"
    using facts(4) [OF call(2)] by (simp add: claim_session_def room_def plugin_active_eq capacity_active_eq)
  ultimately have "sched_inv cfg (activate_move (sc_pool ?c) ?u) (add_mset (?c, True, None) (all_flights R P s))"
    by (intro sched_inv_activate [OF ui]) (simp_all add: same_call_def)
  then have c: "center_inv cfg (add_mset (?c, True, None) R) P (activate_move (sc_pool ?c) ?u)"
    by (intro center_inv_keep [OF assms(1)]) (simp_all add: claim_session_def)
  obtain p where p: "bt_get (sd_pools ?u) (sc_pool ?c) = Some p" using facts(4) [OF call(2)] by (auto simp: room_def claim_session_def)
  have "dispatch_session ?c k ?t = (Ok l, ?u)"
    using ss' l by (simp add: dispatch_session_def bind_action_def try_read_def ret_def modify_at_def claim_session_def bt_update_def x_def)
  then show ?thesis
    using facts(1,3) call(1) c self activate_pool_eq [OF p]
    by (simp add: dispatch_call_def wp_def bind_action_def write_state_def from_result_def ret_def dispatched_def) (simp add: claim_session_def)
qed

section \<open>One queue\<close>

definition call_slot :: "scheduled_call \<Rightarrow> string \<times> string option" where
  "call_slot c = (sc_pool c, sc_session c)"

definition first_of_slot :: "scheduled_call list \<Rightarrow> nat \<Rightarrow> bool" where
  "first_of_slot q i \<longleftrightarrow> i < length q \<and> (\<forall>j < i. call_slot (q ! j) \<noteq> call_slot (q ! i))"

lemma scan_frame_queue:
  assumes "scan_frame s t"
  shows "plugin_queue t = plugin_queue s" "queued_at t = queued_at s" "sd_rotation t = sd_rotation s" "sd_pools t = sd_pools s"
    "plugin_active t = plugin_active s" "capacity_active t = capacity_active s" "sd_capacities t = sd_capacities s" "sd_sessions t = sd_sessions s"
  using assms by (auto simp: scan_frame_def plugin_queue_def queued_at_def fun_eq_iff plugin_active_eq capacity_active_eq)

lemma dispatched_frame:
  assumes "scan_frame s t"
  shows "dispatched cfg R P t n plugin i = dispatched cfg R P s n plugin i"
  unfolding fun_eq_iff dispatched_def scan_frame_queue(1-3) [OF assms] by blast

lemma plugin_frame:
  assumes "scan_frame s t" "bt_get (sd_plugins t) k = Some g"
  shows "\<exists>g'. bt_get (sd_plugins s) k = Some g' \<and> sg_config g = sg_config g' \<and> sg_closing g = sg_closing g'"
  using same_on_new [of "\<lambda>g. (sg_config g, sg_closing g)" "sd_plugins s" "sd_plugins t" k g] assms by (auto simp: scan_frame_def)

lemma room_frame:
  assumes "scan_frame s t" "room pool s"
  shows "room pool t"
  using assms(2) plugin_frame [OF assms(1)] scan_frame_queue(4-7) [OF assms(1)] by (fastforce simp: room_def)

text \<open>The plugin may run one more call.\<close>

definition plugin_ready :: "scheduler_state \<Rightarrow> string \<Rightarrow> bool" where
  "plugin_ready s plugin \<longleftrightarrow> (\<forall>g. bt_get (sd_plugins s) plugin = Some g \<longrightarrow> plugin_active s plugin < plg_max_running_calls (sg_config g))"

lemma plugin_ready_frame:
  assumes "scan_frame s t" "plugin_ready s plugin"
  shows "plugin_ready t plugin"
  using assms(2) plugin_frame [OF assms(1)] scan_frame_queue(5) [OF assms(1)] by (fastforce simp: plugin_ready_def)

lemma dispatchable_safe:
  assumes "sched_inv cfg s F" "env_safe ev" "call_owned s True c"
  shows "\<exists>b. dispatchable ev s c = Ok b"
proof -
  obtain p where p: "bt_get (sd_pools s) (sc_pool c) = Some p" using assms(3) by (auto simp: call_owned_def)
  obtain b where "capacity_allows_execution s (sc_pool c) = Ok b" by (rule capacity_allows_safe [OF assms(1) p])
  then show ?thesis using p env_safe_case(1) [OF assms(2), of "sc_control c"] by (auto simp: dispatchable_def split: outcome.splits)
qed

lemma dispatchable_room:
  assumes "sched_inv cfg s F" "dispatchable ev s c = Ok True" "pool_plugin (sd_pools s) (sc_pool c) = Some plugin" "plugin_ready s plugin"
  shows "room (sc_pool c) s"
proof -
  obtain p where p: "bt_get (sd_pools s) (sc_pool c) = Some p" "sp_plugin_id p = plugin" using assms(3) by (auto simp: pool_plugin_def)
  obtain b where b: "capacity_allows_execution s (sc_pool c) = Ok b"
    "b \<longleftrightarrow> (\<forall>k kk. sp_capacity_id p = Some k \<and> bt_get (sd_capacities s) k = Some kk \<longrightarrow>
        capacity_active s k < cap_max_running_calls (ccf_resources (sk_config kk)))"
    by (rule capacity_allows_safe [OF assms(1) p(1)])
  show ?thesis
    using assms(2,4) p b by (auto simp: dispatchable_def room_def plugin_ready_def split: outcome.splits if_splits)
qed

lemma wp_await:
  assumes "scan_inv cfg R P ev s t" "env_safe ev" "call_owned t True c"
  shows "wp (await_capacity ev c reclaimed) (\<lambda>_. scan_inv cfg R P ev s) (scan_inv cfg R P ev s) t"
proof -
  obtain p where "bt_get (sd_pools t) (sc_pool c) = Some p" using assms(3) by (auto simp: call_owned_def)
  then show ?thesis
    using assms(1) wp_reclaim [OF assms(1,2), of "sc_pool c"] env_safe_case(7) [OF assms(2), of "sc_pool c"]
    by (auto simp: await_capacity_def wp_simps split: outcome.splits)
qed

definition scan_result ::
  "embedded_runtime_config \<Rightarrow> flight multiset \<Rightarrow> pending_completion multiset \<Rightarrow> scheduler_env \<Rightarrow> scheduler_state \<Rightarrow> nat \<Rightarrow> string \<Rightarrow> worker_dispatch option \<Rightarrow> scheduler_state \<Rightarrow> bool" where
  "scan_result cfg R P ev s n plugin found t \<longleftrightarrow>
     (case found of None \<Rightarrow> scan_inv cfg R P ev s t
      | Some d \<Rightarrow> \<exists>i. first_of_slot (plugin_queue s plugin) i \<and> dispatched cfg R P s n plugin i d t)"

lemma scan_inv_trans: "scan_frame s t \<Longrightarrow> scan_inv cfg R P ev t u \<Longrightarrow> scan_inv cfg R P ev s u"
  by (auto simp: scan_inv_def intro: scan_frame_trans)

text \<open>The chosen call is dispatched, whatever preparing it answered.\<close>

lemma wp_scan_plain:
  assumes inv: "scan_inv cfg R P ev s t" and ev: "env_safe ev"
    and n: "n < length (sd_rotation s)" "sd_rotation s ! n = plugin"
    and first: "first_of_slot (plugin_queue s plugin) m" and c: "c = queued_at s plugin m"
    and call: "call_owned t True c" "sc_session c = None" "room (sc_pool c) t"
    and next_: "\<And>u r. scan_inv cfg R P ev s u \<Longrightarrow> wp (next r) (\<lambda>x. scan_result cfg R P ev s n plugin (fst x)) (scan_inv cfg R P ev s) u"
  shows "wp (bind_action (prepare_call ev c) (\<lambda>prepared. case prepared of
        Inr None \<Rightarrow> bind_action (await_capacity ev c reclaimed) next
      | Inr (Some lease) \<Rightarrow> bind_action (dispatch_call n plugin m (Some (Inr lease))) (\<lambda>d. ret (Some d, reclaimed))
      | Inl e \<Rightarrow> bind_action (dispatch_call n plugin m (Some (Inl e))) (\<lambda>d. ret (Some d, reclaimed))))
    (\<lambda>x. scan_result cfg R P ev s n plugin (fst x)) (scan_inv cfg R P ev s) t"
proof -
  have t: "center_inv cfg R P t" "scan_frame s t" "keys_fresh ev t" using inv by (simp_all add: scan_inv_def)
  have m: "m < length (plugin_queue s plugin)" using first by (simp add: first_of_slot_def)
  have go: "wp (bind_action (dispatch_call n plugin m (Some r)) (\<lambda>d. ret (Some d, reclaimed))) (\<lambda>x. scan_result cfg R P ev s n plugin (fst x)) (scan_inv cfg R P ev s) u"
    if "wp (dispatch_call n plugin m (Some r)) (dispatched cfg R P u n plugin m) (\<lambda>_. False) u" "scan_frame s u" for r u
    unfolding wp_bind by (rule wp_mono [OF that(1)]) (use first dispatched_frame [OF that(2)] in \<open>auto simp: wp_simps scan_result_def\<close>)
  have at: "queued_at u plugin m = c" "n < length (sd_rotation u)" "sd_rotation u ! n = plugin" "m < length (plugin_queue u plugin)" if "scan_frame s u" for u
    using scan_frame_queue [OF that] c n m by simp_all
  have step: "wp (case r of
        Inr None \<Rightarrow> bind_action (await_capacity ev c reclaimed) next
      | Inr (Some lease) \<Rightarrow> bind_action (dispatch_call n plugin m (Some (Inr lease))) (\<lambda>d. ret (Some d, reclaimed))
      | Inl e \<Rightarrow> bind_action (dispatch_call n plugin m (Some (Inl e))) (\<lambda>d. ret (Some d, reclaimed)))
      (\<lambda>x. scan_result cfg R P ev s n plugin (fst x)) (scan_inv cfg R P ev s) u" if u: "prepared_ok cfg R P ev t c r u" for r u
  proof -
    have frame: "scan_frame t u" and ci: "center_inv cfg R P u"
      using u by (auto simp: prepared_ok_def scan_inv_def split: sum.splits option.splits prod.splits)
    note sf = scan_frame_trans [OF t(2) frame]
    have room: "room (sc_pool c) u" by (rule room_frame [OF frame call(3)])
    consider e where "r = Inl e" | "r = Inr None" | l k where "r = Inr (Some (l, k))" by (cases r) (auto, metis not_None_eq surj_pair)
    then show ?thesis
    proof cases
      case 1
      then show ?thesis using go [OF wp_dispatch_rejected [OF ci at(2-4) [OF sf]] sf] by simp
    next
      case 2
      have si: "scan_inv cfg R P ev s u" using u 2 scan_inv_trans [OF t(2)] by simp
      have "call_owned u True c" using call(1) scan_frame_queue [OF frame] by (simp add: call_owned_def)
      then show ?thesis using 2 by (simp add: wp_bind) (rule wp_mono [OF wp_await [OF si ev]], auto intro: next_)
    next
      case 3
      have "prepared_for u (sc_pool c) (sc_id c) i" if "k = Some i" for i using u 3 that by (simp add: prepared_ok_def)
      then show ?thesis
        using 3 go [OF wp_dispatch_ready [OF ci at(2-4) [OF sf], of k l] sf] call(2) room at(1) [OF sf] by simp
    qed
  qed
  show ?thesis
    unfolding wp_bind by (rule wp_mono [OF wp_prepare_call [OF t(1) ev t(3) call(1,2)]]) (use step scan_inv_trans [OF t(2)] in blast)+
qed

lemma wp_scan_session:
  assumes inv: "scan_inv cfg R P ev s t"
    and n: "n < length (sd_rotation s)" "sd_rotation s ! n = plugin"
    and first: "first_of_slot (plugin_queue s plugin) m" and c: "c = queued_at s plugin m"
    and call: "sc_session c = Some k" "room (sc_pool c) t" "bt_get (sd_sessions t) k = Some ss" "\<not> ss_closing ss" "ss_active ss = None"
  shows "wp (bind_action (dispatch_call n plugin m None) (\<lambda>d. ret (Some d, reclaimed))) (\<lambda>x. scan_result cfg R P ev s n plugin (fst x)) (scan_inv cfg R P ev s) t"
proof -
  have t: "center_inv cfg R P t" "scan_frame s t" using inv by (simp_all add: scan_inv_def)
  have m: "m < length (plugin_queue t plugin)" using first scan_frame_queue(1) [OF t(2)] by (simp add: first_of_slot_def)
  have "wp (dispatch_call n plugin m None) (dispatched cfg R P t n plugin m) (\<lambda>_. False) t"
    using scan_frame_queue(2,3) [OF t(2)] n c call by (intro wp_dispatch_session [OF t(1) _ _ m]) simp_all
  then show ?thesis
    unfolding wp_bind by (rule wp_mono) (use first dispatched_frame [OF t(2)] in \<open>auto simp: wp_simps scan_result_def\<close>)
qed

lemma wp_scan_queue:
  assumes ev: "env_safe ev" and n: "n < length (sd_rotation s)" "sd_rotation s ! n = plugin" and ready: "plugin_ready s plugin"
    and q: "q = plugin_queue s plugin"
    and "scan_inv cfg R P ev s t" "m \<le> length q" "\<And>j. j < m \<Longrightarrow> call_slot (q ! j) \<in> set visited"
  shows "wp (scan_queue ev n plugin [m..<length q] visited reclaimed) (\<lambda>x. scan_result cfg R P ev s n plugin (fst x)) (scan_inv cfg R P ev s) t"
  using assms(6-)
proof (induction "length q - m" arbitrary: m visited reclaimed t)
  case 0
  then show ?case by (simp add: wp_simps scan_result_def)
next
  case (Suc x)
  have m: "m < length q" using Suc.hyps(2) by simp
  have t: "center_inv cfg R P t" "scan_frame s t" using Suc.prems(1) by (simp_all add: scan_inv_def)
  note si = center_invD [OF t(1)]
  let ?c = "queued_at s plugin m"
  have qt: "plugin_queue t plugin = q" "queued_at t plugin m = ?c" "q ! m = ?c" using scan_frame_queue [OF t(2)] q by (simp_all add: queued_at_def)
  have m': "m < length (plugin_queue t plugin)" using m qt by simp
  note c = queued_at_call [OF sched_inv_parts(1) [OF si] m', unfolded qt(2)]
  have owned: "call_owned t True ?c" using sched_inv_parts(2) [OF si] c(3) by (simp add: call_inv_def)
  have scanned: "scanned_call plugin m t = Ok ?c"
    using qt m by (auto simp: scanned_call_def plugin_queue_def split: option.splits)
  obtain b where b: "dispatchable ev t ?c = Ok b" using dispatchable_safe [OF si ev owned] by blast
  have go: "wp (scan_queue ev n plugin [Suc m..<length q] vs r) (\<lambda>x. scan_result cfg R P ev s n plugin (fst x)) (scan_inv cfg R P ev s) u"
    if "scan_inv cfg R P ev s u" "vs = visited \<and> call_slot ?c \<in> set visited \<or> vs = call_slot ?c # visited" for vs r u
  proof (rule Suc.hyps(1))
    show "call_slot (q ! j) \<in> set vs" if "j < Suc m" for j
      using Suc.prems(3) [of j] \<open>vs = visited \<and> _ \<or> _\<close> that qt(3) by (cases "j = m") auto
  qed (use Suc.hyps(2) m that in simp_all)
  have first: "first_of_slot (plugin_queue s plugin) m" if "call_slot ?c \<notin> set visited"
    using Suc.prems(3) that m qt(3) q by (simp add: first_of_slot_def) metis
  have room: "room (sc_pool ?c) t" if "b"
    using dispatchable_room [OF si _ c(2) plugin_ready_frame [OF t(2) ready]] b that by simp
  show ?case
  proof (cases "call_slot ?c \<in> set visited \<or> \<not> b")
    case True
    then show ?thesis
      using go [OF Suc.prems(1)] scanned b m by (auto simp: upt_conv_Cons wp_simps Let_def call_slot_def)
  next
    case False
    show ?thesis
    proof (cases "sc_session ?c")
      case None
      have "wp (bind_action (prepare_call ev ?c) (\<lambda>prepared. case prepared of
            Inr None \<Rightarrow> bind_action (await_capacity ev ?c reclaimed) (scan_queue ev n plugin [Suc m..<length q] (call_slot ?c # visited))
          | Inr (Some lease) \<Rightarrow> bind_action (dispatch_call n plugin m (Some (Inr lease))) (\<lambda>d. ret (Some d, reclaimed))
          | Inl e \<Rightarrow> bind_action (dispatch_call n plugin m (Some (Inl e))) (\<lambda>d. ret (Some d, reclaimed))))
        (\<lambda>x. scan_result cfg R P ev s n plugin (fst x)) (scan_inv cfg R P ev s) t"
        using False first room owned None go by (intro wp_scan_plain [OF Suc.prems(1) ev n]) auto
      from this [unfolded call_slot_def None] show ?thesis
        using False None scanned b m by (simp add: upt_conv_Cons wp_bind wp_values Let_def call_slot_def)
    next
      case (Some k)
      obtain ss where ss: "bt_get (sd_sessions t) k = Some ss" using owned Some by (auto simp: call_owned_def)
      have "wp (bind_action (dispatch_call n plugin m None) (\<lambda>d. ret (Some d, reclaimed))) (\<lambda>x. scan_result cfg R P ev s n plugin (fst x)) (scan_inv cfg R P ev s) t"
        if "\<not> ss_closing ss" "ss_active ss = None"
        using that False first room Some ss by (intro wp_scan_session [OF Suc.prems(1) n]) auto
      then show ?thesis
        using False Some ss scanned b m go [OF Suc.prems(1)] by (auto simp: upt_conv_Cons wp_bind wp_values Let_def call_slot_def)
    qed
  qed
qed

section \<open>All queues\<close>

definition selected ::
  "embedded_runtime_config \<Rightarrow> flight multiset \<Rightarrow> pending_completion multiset \<Rightarrow> scheduler_state \<Rightarrow> worker_dispatch option \<Rightarrow> scheduler_state \<Rightarrow> bool" where
  "selected cfg R P s found t \<longleftrightarrow>
     (case found of None \<Rightarrow> center_inv cfg R P t \<and> scan_frame s t
      | Some d \<Rightarrow> \<exists>n i. n < length (sd_rotation s) \<and> first_of_slot (plugin_queue s (sd_rotation s ! n)) i \<and> dispatched cfg R P s n (sd_rotation s ! n) i d t)"

lemma wp_scan_rotation:
  assumes ev: "env_safe ev" and "scan_inv cfg R P ev s t" "n \<le> length (sd_rotation s)"
  shows "wp (scan_rotation ev n (drop n (sd_rotation s)) reclaimed) (selected cfg R P s) (\<lambda>u. center_inv cfg R P u) t"
  using assms(2-)
proof (induction "length (sd_rotation s) - n" arbitrary: n reclaimed t)
  case 0
  then show ?case by (auto simp: wp_simps selected_def scan_inv_def)
next
  case (Suc x)
  have n: "n < length (sd_rotation s)" using Suc.hyps(2) by simp
  let ?p = "sd_rotation s ! n"
  have drop: "drop n (sd_rotation s) = ?p # drop (Suc n) (sd_rotation s)" using n by (simp add: Cons_nth_drop_Suc)
  have t: "center_inv cfg R P t" "scan_frame s t" using Suc.prems(1) by (simp_all add: scan_inv_def)
  note si = center_invD [OF t(1)]
  have rot: "?p \<in> set (sd_rotation t)" using n scan_frame_queue(3) [OF t(2)] by simp
  then obtain q where q: "bt_get (sd_queues t) ?p = Some q" "q \<noteq> []" using sched_inv_parts(1) [OF si] by (force simp: queue_inv_def)
  then have "pool_plugin (sd_pools t) (sc_pool (hd q)) = Some ?p" using sched_inv_parts(1) [OF si] by (auto simp: queue_inv_def)
  then obtain p where p: "bt_get (sd_pools t) (sc_pool (hd q)) = Some p" "sp_plugin_id p = ?p" by (auto simp: pool_plugin_def)
  obtain g where g: "bt_get (sd_plugins t) ?p = Some g" by (rule pool_owner [OF si p(1)]) (simp add: p(2))
  have len: "length q = length (plugin_queue s ?p)" using q(1) by (simp add: plugin_queue_def flip: scan_frame_queue(1) [OF t(2)])
  have go: "wp (scan_rotation ev (Suc n) (drop (Suc n) (sd_rotation s)) r) (selected cfg R P s) (\<lambda>u. center_inv cfg R P u) u" if "scan_inv cfg R P ev s u" for r u
    using Suc.hyps that n by (intro Suc.hyps(1)) auto
  have "wp (scan_queue ev n ?p [0..<length q] [] reclaimed) (\<lambda>x. wp (case x of (found, reclaimed') \<Rightarrow> (case found of
       Some d \<Rightarrow> ret (Some d) | None \<Rightarrow> scan_rotation ev (Suc n) (drop (Suc n) (sd_rotation s)) reclaimed')) (selected cfg R P s) (\<lambda>u. center_inv cfg R P u))
     (\<lambda>u. center_inv cfg R P u) t" if "plugin_active t ?p < plg_max_running_calls (sg_config g)"
  proof -
    have ready: "plugin_ready s ?p"
      using that plugin_frame [OF t(2) g] scan_frame_queue(5) [OF t(2)] g by (auto simp: plugin_ready_def)
    show ?thesis
      unfolding len
    proof (rule wp_mono [OF wp_scan_queue [OF ev n refl ready refl Suc.prems(1)]])
      fix x :: "worker_dispatch option \<times> bool" and u
      assume r: "scan_result cfg R P ev s n ?p (fst x) u"
      show "wp (case x of (found, reclaimed') \<Rightarrow> (case found of Some d \<Rightarrow> ret (Some d)
          | None \<Rightarrow> scan_rotation ev (Suc n) (drop (Suc n) (sd_rotation s)) reclaimed')) (selected cfg R P s) (\<lambda>u. center_inv cfg R P u) u"
        using r n go by (cases x; cases "fst x") (auto simp: wp_simps scan_result_def selected_def)
    qed (auto simp: scan_inv_def)
  qed
  note scan = this
  show ?case
  proof (cases "sg_closing g \<or> plugin_active t ?p \<ge> plg_max_running_calls (sg_config g)")
    case True
    then have busy: "(sg_closing g \<or> plugin_active t ?p \<ge> plg_max_running_calls (sg_config g)) = True" by simp
    show ?thesis using go [OF Suc.prems(1)] unfolding drop scan_rotation.simps wp_bind wp_values g expect.simps outcome.case busy if_True .
  next
    case False
    then have busy: "(sg_closing g \<or> plugin_active t ?p \<ge> plg_max_running_calls (sg_config g)) = False" by simp
    have "plugin_active t ?p < plg_max_running_calls (sg_config g)" using False by simp
    from scan [OF this] show ?thesis unfolding drop scan_rotation.simps wp_bind wp_values g q(1) expect.simps outcome.case busy if_False and_then.simps by simp
  qed
qed

theorem wp_select:
  assumes "center_inv cfg R P s" "env_safe ev" "keys_fresh ev s"
  shows "wp (sched_select ev) (selected cfg R P s) (center_inv cfg R P) s"
  using wp_scan_rotation [OF assms(2), of cfg R P s s 0 False] scan_frame_refl [OF assms(1)] assms
  by (simp add: sched_select_def wp_simps scan_inv_def)

end
