(* ===== verification/Scheduler_Finish.thy ===== *)
theory Scheduler_Finish
  imports Scheduler_Choose
begin

text \<open>Execution and completion keep the invariant and never panic.\<close>

section \<open>Workers\<close>

definition exec_result :: "embedded_runtime_config \<Rightarrow> flight multiset \<Rightarrow> pending_completion multiset \<Rightarrow> exec_step \<Rightarrow> scheduler_state \<Rightarrow> bool" where
  "exec_result cfg R P r t \<longleftrightarrow>
     (case r of
        WorkerRun (Ready c l) \<Rightarrow> center_inv cfg (add_mset (c, True, None) R) P t
      | WorkerRun (Rejected c e) \<Rightarrow> center_inv cfg (add_mset (c, False, None) R) P t
      | WorkerRun (FinalizingCall c) \<Rightarrow> center_inv cfg R (add_mset c P) t
      | _ \<Rightarrow> center_inv cfg R P t)"

theorem wp_exec_next:
  assumes "center_inv cfg R P s" "env_safe ev" "keys_fresh ev s"
  shows "wp (exec_next ev) (exec_result cfg R P) (center_inv cfg R P) s"
proof -
  have "wp (bind_action (sched_select ev) (\<lambda>d. ret (case d of None \<Rightarrow> WorkerWait | Some x \<Rightarrow> WorkerRun x))) (exec_result cfg R P) (center_inv cfg R P) s"
    unfolding wp_bind
    by (rule wp_mono [OF wp_select [OF assms]])
      (auto simp: wp_simps selected_def exec_result_def dispatched_def split: option.splits worker_dispatch.splits)
  moreover have "center_inv cfg R (add_mset c P) (s\<lparr>sd_finalizing := cs\<rparr>)" if "sd_finalizing s = c # cs" for c cs
    using assms(1) that by (simp add: center_inv_def state_flights_def)
  ultimately show ?thesis
    using assms(1) by (auto simp: wp_def exec_next_def exec_result_def split: list.splits)
qed

section \<open>Completions of one flight\<close>

definition refine_flight :: "flight \<Rightarrow> flight \<Rightarrow> bool" where
  "refine_flight f g \<longleftrightarrow>
     same_call (fl_call f) (fl_call g) \<and> sc_reusable_instance (fl_call g) = sc_reusable_instance (fl_call f) \<and>
     closing_request (sc_request (fl_call g)) = closing_request (sc_request (fl_call f)) \<and> fl_dispatched g = fl_dispatched f \<and>
     (fl_retained g \<noteq> None \<longrightarrow> \<not> closing_request (sc_request (fl_call f)) \<and> (fl_dispatched f \<or> sc_session (fl_call f) \<noteq> None))"

lemma refine_flight_ok: "flight_ok s f \<Longrightarrow> refine_flight f g \<Longrightarrow> flight_ok s g"
  unfolding flight_ok_def refine_flight_def same_call_def by (metis (no_types, lifting))

lemma sched_inv_refine:
  assumes "sched_inv cfg s (add_mset f F)" "refine_flight f g"
  shows "sched_inv cfg s (add_mset g F)"
proof -
  obtain c d r c' r' where fg: "f = (c, d, r)" "g = (c', d, r')" using assms(2) by (cases f; cases g) (auto simp: refine_flight_def)
  have "flight_ok s g" using refine_flight_ok [OF _ assms(2)] sched_inv_parts(3) [OF assms(1)] by (simp add: lease_inv_def)
  then show ?thesis using sched_inv_replace [of cfg s c d r F c' r'] assms fg by (simp add: refine_flight_def)
qed

lemma release_values_fields [simp]:
  "request_pool (release_values r) = request_pool r" "request_session (release_values r) = request_session r"
  "closing_request (release_values r) = closing_request r"
  by (cases r; simp)+

text \<open>An invoked call, a rejected one and a finalized one complete the flight they come from.\<close>

lemma invoke_completion_refines: "refine_flight (call, True, None) (pend_flight (invoke_completion ev release call lease result))"
  if "\<not> closing_request (sc_request call)"
  using that by (auto simp: refine_flight_def pend_flight_def invoke_completion_def same_call_def Let_def split: sum.splits module_release.splits)

lemma rejected_completion_refines: "refine_flight (call, False, None) (pend_flight (rejected_completion call e))"
  by (simp add: refine_flight_def pend_flight_def rejected_completion_def same_call_def)

section \<open>Marking owners\<close>

lemma sched_inv_mark_session:
  assumes "sched_inv cfg s F" "bt_get (sd_sessions s) k = Some ss"
  shows "sched_inv cfg (s\<lparr>sd_sessions := bt_insert k (ss\<lparr>ss_closing := True, ss_error := e\<rparr>) (sd_sessions s)\<rparr>) F"
proof -
  have wf: "bt_wf (sd_sessions s)" using sched_inv_parts(2) [OF assms(1)] by (simp add: call_inv_def)
  have "sched_inv cfg (s\<lparr>sd_sessions := bt_update (\<lambda>ss. ss\<lparr>ss_closing := True, ss_error := e\<rparr>) k (sd_sessions s)\<rparr>) F"
  proof (rule sched_inv_sessions [OF assms(1)])
    show "same_on session_core (sd_sessions s) (bt_update (\<lambda>ss. ss\<lparr>ss_closing := True, ss_error := e\<rparr>) k (sd_sessions s))"
      by (rule same_on_update [OF wf]) (simp add: session_core_def)
    show "session_ok (sd_pools s) x" if "bt_get (bt_update (\<lambda>ss. ss\<lparr>ss_closing := True, ss_error := e\<rparr>) k (sd_sessions s)) j = Some x" for j x
      using that sched_inv_parts(3) [OF assms(1)] by (auto simp: lease_inv_def session_ok_def split: if_splits)
  qed
  then show ?thesis using assms(2) by (simp add: bt_update_def)
qed

lemma sched_inv_close_session:
  assumes "sched_inv cfg s F" "bt_get (sd_sessions s) k = Some ss"
  shows "sched_inv cfg (s\<lparr>sd_sessions := bt_insert k (ss\<lparr>ss_closing := True\<rparr>) (sd_sessions s)\<rparr>) F"
  using sched_inv_mark_session [OF assms, of "ss_error ss"] by simp

lemma flight_session:
  assumes "sched_inv cfg s F" "f \<in># F" "sc_session (fl_call f) = Some k"
  obtains ss where "bt_get (sd_sessions s) k = Some ss" "ss_pool_id ss = sc_pool (fl_call f)"
  using sched_inv_parts(2) [OF assms(1)] assms(2,3) by (fastforce simp: call_inv_def call_owned_def)

lemma flight_instance:
  assumes "sched_inv cfg s F" "f \<in># F" "sc_reusable_instance (fl_call f) = Some k"
  obtains u where "bt_get (sd_reusable_instances s) k = Some u" "su_active u = Some (sc_id (fl_call f))" "su_pool_id u = sc_pool (fl_call f)" "fl_dispatched f"
  using sched_inv_parts(3) [OF assms(1)] assms(2,3) by (fastforce simp: lease_inv_def flight_ok_def)

text \<open>Both owners of a call may be marked as closing, with any error for the session.\<close>

definition marks :: "scheduler_state \<Rightarrow> scheduler_state \<Rightarrow> bool" where
  "marks s t \<longleftrightarrow> t\<lparr>sd_sessions := [], sd_reusable_instances := []\<rparr> = s\<lparr>sd_sessions := [], sd_reusable_instances := []\<rparr>"

lemma marks_fields:
  assumes "marks s t"
  shows "sd_cleaning t = sd_cleaning s" "sd_finalizing t = sd_finalizing s" "sd_cleaning_count t = sd_cleaning_count s" "sd_closing t = sd_closing s"
    "sd_persistence_failures t = sd_persistence_failures s" "sd_pools t = sd_pools s" "sd_live t = sd_live s"
  using arg_cong [OF assms [unfolded marks_def], of sd_cleaning]
    arg_cong [OF assms [unfolded marks_def], of sd_finalizing]
    arg_cong [OF assms [unfolded marks_def], of sd_cleaning_count]
    arg_cong [OF assms [unfolded marks_def], of sd_closing]
    arg_cong [OF assms [unfolded marks_def], of sd_persistence_failures]
    arg_cong [OF assms [unfolded marks_def], of sd_pools]
    arg_cong [OF assms [unfolded marks_def], of sd_live]
  by simp_all

lemma wp_mark_owner:
  assumes "sched_inv cfg s F" "pend_flight c \<in># F"
  shows "wp (mark_owner_closing c) (\<lambda>_ t. sched_inv cfg t F \<and> marks s t) (\<lambda>_. False) s"
proof -
  have i: "wp (case sc_reusable_instance (pn_call c) of None \<Rightarrow> ret ()
       | Some ident \<Rightarrow> modify_reusable ''retained reusable instance'' ident (\<lambda>u. Ok (u\<lparr>su_closing := True\<rparr>))) (\<lambda>_ t. sched_inv cfg t F \<and> marks s t) (\<lambda>_. False) t"
    if t: "sched_inv cfg t F" "marks s t" for t
  proof (cases "sc_reusable_instance (pn_call c)")
    case None
    then show ?thesis using t by (simp add: wp_simps)
  next
    case (Some k)
    obtain u where "bt_get (sd_reusable_instances t) k = Some u" using flight_instance [OF t(1) assms(2)] Some by (auto simp: pend_flight_def)
    then show ?thesis using Some t sched_inv_mark_reusable [OF t(1)] by (auto simp: wp_simps marks_def)
  qed
  show ?thesis
  proof (cases "sc_session (pn_call c)")
    case None
    then show ?thesis using i [OF assms(1)] unfolding mark_owner_closing_def by (simp add: wp_simps marks_def)
  next
    case (Some k)
    obtain ss where "bt_get (sd_sessions s) k = Some ss" using flight_session [OF assms] Some by (auto simp: pend_flight_def)
    then show ?thesis using Some i [OF sched_inv_close_session [OF assms(1)]] unfolding mark_owner_closing_def by (simp add: wp_simps marks_def)
  qed
qed

section \<open>Handing a completion to the supervisor\<close>

lemma wp_exec_finish_marks:
  assumes "sched_inv cfg s F" "pend_flight c \<in># F"
    and "\<And>t. sched_inv cfg t F \<Longrightarrow> marks s t \<Longrightarrow> Q () (t\<lparr>sd_cleaning_count := (if newly then sd_cleaning_count t + 1 else sd_cleaning_count t), sd_cleaning := sd_cleaning t @ [c]\<rparr>)"
  shows "wp (exec_finish ev c newly) Q E s"
proof -
  have i: "wp (case sc_reusable_instance (pn_call c) of None \<Rightarrow> ret ()
       | Some ident \<Rightarrow> if unusable ev c then modify_reusable ''active reusable instance'' ident (\<lambda>u. Ok (u\<lparr>su_closing := True\<rparr>)) else ret ())
     (\<lambda>_ t. Q () (t\<lparr>sd_cleaning_count := (if newly then sd_cleaning_count t + 1 else sd_cleaning_count t), sd_cleaning := sd_cleaning t @ [c]\<rparr>)) E t"
    if t: "sched_inv cfg t F" "marks s t" for t
  proof (cases "sc_reusable_instance (pn_call c)")
    case None
    then show ?thesis using assms(3) [OF t] by (simp add: wp_simps)
  next
    case (Some k)
    obtain u where u: "bt_get (sd_reusable_instances t) k = Some u" using flight_instance [OF t(1) assms(2)] Some by (auto simp: pend_flight_def)
    have "marks s (t\<lparr>sd_reusable_instances := bt_insert k (u\<lparr>su_closing := True\<rparr>) (sd_reusable_instances t)\<rparr>)" using t(2) by (simp add: marks_def)
    then show ?thesis using Some u assms(3) [OF t] assms(3) [OF sched_inv_mark_reusable [OF t(1) u]] by (simp add: wp_simps)
  qed
  show ?thesis
  proof (cases "sc_session (pn_call c)")
    case None
    then show ?thesis using i [OF assms(1)] by (simp add: exec_finish_def wp_bind wp_values wp_effects marks_def)
  next
    case (Some k)
    obtain ss where ss: "bt_get (sd_sessions s) k = Some ss" using flight_session [OF assms(1,2)] Some by (auto simp: pend_flight_def)
    then show ?thesis
      using Some i [OF assms(1)] i [OF sched_inv_mark_session [OF assms(1) ss]]
      by (simp add: exec_finish_def wp_bind wp_values wp_effects wp_modify wp_branches(1) marks_def)
  qed
qed

theorem wp_exec_finish_new:
  assumes "center_inv cfg (add_mset f R) P s" "refine_flight f (pend_flight c)"
  shows "wp (exec_finish ev c True) (\<lambda>_. center_inv cfg R P) (\<lambda>_. False) s"
proof -
  have "sched_inv cfg s (add_mset f (all_flights R P s))" using center_invD [OF assms(1)] by simp
  then have si: "sched_inv cfg s (add_mset (pend_flight c) (all_flights R P s))" by (rule sched_inv_refine [OF _ assms(2)])
  show ?thesis
    by (rule wp_exec_finish_marks [OF si]) (use assms(1) in \<open>auto simp: center_inv_def state_flights_def marks_fields\<close>)
qed

theorem wp_exec_finish_final:
  assumes "center_inv cfg R (add_mset c0 P) s" "refine_flight (pend_flight c0) (pend_flight c)"
  shows "wp (exec_finish ev c False) (\<lambda>_. center_inv cfg R P) (\<lambda>_. False) s"
proof -
  have "sched_inv cfg s (add_mset (pend_flight c0) (all_flights R P s))" using center_invD [OF assms(1)] by simp
  then have si: "sched_inv cfg s (add_mset (pend_flight c) (all_flights R P s))" by (rule sched_inv_refine [OF _ assms(2)])
  show ?thesis
    by (rule wp_exec_finish_marks [OF si]) (use assms(1) in \<open>auto simp: center_inv_def state_flights_def marks_fields\<close>)
qed

section \<open>The supervisor\<close>

text \<open>The supervisor takes all completions, works on each, and puts back those that are not finished.\<close>

definition take_cleaning :: "scheduler_state \<Rightarrow> pending_completion list \<times> scheduler_state" where
  "take_cleaning s = (sd_cleaning s, s\<lparr>sd_cleaning := []\<rparr>)"

definition put_cleaning :: "pending_completion list \<Rightarrow> scheduler_state \<Rightarrow> scheduler_state" where
  "put_cleaning cs s = s\<lparr>sd_cleaning := sd_cleaning s @ cs\<rparr>"

lemma center_inv_take_cleaning:
  assumes "center_inv cfg R P s"
  shows "center_inv cfg R (P + mset (sd_cleaning s)) (snd (take_cleaning s))"
  using assms by (simp add: center_inv_def take_cleaning_def state_flights_def ac_simps)

lemma center_inv_put_cleaning:
  assumes "center_inv cfg R (P + mset cs) s"
  shows "center_inv cfg R P (put_cleaning cs s)"
  using assms by (simp add: center_inv_def put_cleaning_def state_flights_def ac_simps)

lemma center_inv_push_finalizing:
  assumes "center_inv cfg R (add_mset c P) s"
  shows "center_inv cfg R P (push_finalizing c s)"
  using assms by (simp add: center_inv_def push_finalizing_def state_flights_def ac_simps)

lemma center_inv_refine:
  assumes "center_inv cfg R (add_mset c P) s" "refine_flight (pend_flight c) (pend_flight c')"
  shows "center_inv cfg R (add_mset c' P) s"
  using sched_inv_refine [of cfg s "pend_flight c" "all_flights R P s" "pend_flight c'"] assms by (simp add: center_inv_def)

lemma must_close_safe:
  assumes "sched_inv cfg s F" "pend_flight c \<in># F" "pn_retained_lease c \<noteq> None"
  shows "\<exists>b. must_close c s = Ok b"
proof -
  have "flight_ok s (pend_flight c)" using sched_inv_parts(3) [OF assms(1)] assms(2) by (simp add: lease_inv_def)
  then have "pn_dispatched c \<or> sc_session (pn_call c) \<noteq> None" using assms(3) by (simp add: flight_ok_def pend_flight_def)
  then have "bt_get (sd_pools s) (sc_pool (pn_call c)) \<noteq> None"
  proof
    assume "pn_dispatched c"
    then show ?thesis using sched_inv_parts(2) [OF assms(1)] assms(2) by (auto simp: call_inv_def call_owned_def pend_flight_def)
  next
    assume "sc_session (pn_call c) \<noteq> None"
    then obtain k where "sc_session (fl_call (pend_flight c)) = Some k" by (auto simp: pend_flight_def)
    then obtain ss where "bt_get (sd_sessions s) k = Some ss" "ss_pool_id ss = sc_pool (fl_call (pend_flight c))" by (rule flight_session [OF assms(1,2)])
    then show ?thesis using sched_inv_parts(4) [OF assms(1)] by (fastforce simp: owner_inv_def pend_flight_def)
  qed
  then obtain p where p: "bt_get (sd_pools s) (sc_pool (pn_call c)) = Some p" by blast
  obtain b1 where b1: "(case sc_session (pn_call c) of None \<Rightarrow> Ok False
      | Some session \<Rightarrow> and_then (expect ''retained session'' (bt_get (sd_sessions s) session)) (\<lambda>ss. Ok (ss_closing ss))) = (Ok b1 :: bool embedded_result)"
  proof (cases "sc_session (pn_call c)")
    case (Some k)
    then obtain ss where "bt_get (sd_sessions s) k = Some ss" using flight_session [OF assms(1,2), of k] by (auto simp: pend_flight_def)
    then show thesis using Some by (intro that [of "ss_closing ss"]) simp
  qed (use that [of False] in simp)
  obtain b2 where b2: "(case sc_reusable_instance (pn_call c) of None \<Rightarrow> Ok False
      | Some ident \<Rightarrow> and_then (expect ''retained reusable instance'' (bt_get (sd_reusable_instances s) ident)) (\<lambda>u. Ok (su_closing u))) = (Ok b2 :: bool embedded_result)"
  proof (cases "sc_reusable_instance (pn_call c)")
    case (Some k)
    then obtain u where "bt_get (sd_reusable_instances s) k = Some u" using flight_instance [OF assms(1,2), of k] by (auto simp: pend_flight_def)
    then show thesis using Some by (intro that [of "su_closing u"]) simp
  qed (use that [of False] in simp)
  show ?thesis unfolding must_close_def p expect.simps b1 b2 and_then.simps by auto
qed

theorem wp_complete_begin:
  assumes "center_inv cfg R (add_mset c P) s"
  shows "wp (complete_begin ev candidate c) (\<lambda>_. center_inv cfg R (add_mset c P)) (\<lambda>_. False) s"
proof -
  have retry: "wp (retry_route c) (\<lambda>_. center_inv cfg R (add_mset c P)) (\<lambda>_. False) s"
    using assms by (auto simp: wp_def retry_route_def center_inv_def state_flights_def split: option.splits checkpoint_retry_state.splits)
  note si = center_invD [OF assms]
  have c: "pend_flight c \<in># all_flights R (add_mset c P) s" by simp
  have mark: "wp (mark_owner_closing c) (\<lambda>_. center_inv cfg R (add_mset c P)) (\<lambda>_. False) s"
    by (rule wp_mono [OF wp_mark_owner [OF si c]]) (use assms in \<open>auto simp: center_inv_def state_flights_def marks_fields\<close>)
  show ?thesis
  proof (cases "pn_retained_lease c")
    case None
    then show ?thesis using retry by (simp add: complete_begin_def)
  next
    case (Some l)
    then obtain b where "must_close c s = Ok b" using must_close_safe [OF si c] by auto
    then show ?thesis using Some retry mark by (simp add: complete_begin_def wp_bind wp_values wp_branches(1))
  qed
qed


text \<open>Publishing a terminal result gives back every count, the VM's owner and the live identity.\<close>

definition returned :: "embedded_error option \<Rightarrow> pending_completion \<Rightarrow> module_lease option \<Rightarrow> scheduled_session \<Rightarrow> scheduled_session" where
  "returned closing_error c lease ss =
     (let base = ss\<lparr>ss_unfinished := ss_unfinished ss - 1\<rparr>;
          settled =
            (if pn_dispatched c
             then (case lease of
                 Some l \<Rightarrow> base\<lparr>ss_active := None, ss_lease := Some l, ss_opened := True\<rparr>
               | None \<Rightarrow> base\<lparr>ss_active := None, ss_closing := True\<rparr>)
             else (case sc_request (pn_call c) of OpenSession _ _ \<Rightarrow> base\<lparr>ss_closing := True\<rparr> | _ \<Rightarrow> base)) in
      case closing_error of
          Some e \<Rightarrow> if ss_closing settled then settled\<lparr>ss_error := (case ss_error settled of None \<Rightarrow> Some e | Some x \<Rightarrow> Some x)\<rparr> else settled
        | None \<Rightarrow> settled)"

lemma return_session_eq: "0 < ss_unfinished ss \<Longrightarrow> return_session ev closing_error c lease ss = Ok (returned closing_error c lease ss)"
  by (simp add: return_session_def returned_def Let_def decrease_enough Suc_le_eq)

lemma returned_core:
  "ss_pool_id (returned e c l ss) = ss_pool_id ss" "ss_queued (returned e c l ss) = ss_queued ss" "ss_unfinished (returned e c l ss) = ss_unfinished ss - 1"
  "ss_finalization_reservation (returned e c l ss) = ss_finalization_reservation ss" "\<not> pn_dispatched c \<Longrightarrow> ss_active (returned e c l ss) = ss_active ss"
  by (auto simp: returned_def Let_def split: option.splits scheduled_request.splits)

lemma returned_session_ok:
  assumes "session_ok pools ss" "0 < ss_unfinished ss" "pn_dispatched c \<longrightarrow> ss_active ss \<noteq> None"
    and "pn_dispatched c \<and> l \<noteq> None \<and> finalizes pools (ss_pool_id ss) \<longrightarrow> ss_finalization_reservation ss"
  shows "session_ok pools (returned e c l ss)"
  using assms by (auto simp: returned_def Let_def session_ok_def split: option.splits scheduled_request.splits)

lemma depart_fields [simp]:
  "sd_reusable_instances (depart_session h c s) = sd_reusable_instances s" "sd_reusable_instances (depart d c s) = sd_reusable_instances s"
  "sd_plugins (depart_session h c s) = sd_plugins s" "sd_plugins (depart d c s) = sd_plugins s"
  "sd_pools (depart_session h c s) = sd_pools s" "pool_plugin (sd_pools (depart d c s)) = pool_plugin (sd_pools s)"
  "finalizes (sd_pools (depart d c s)) = finalizes (sd_pools s)"
  "sd_cleaning (depart_session h c s) = sd_cleaning s" "sd_cleaning (depart d c s) = sd_cleaning s"
  "sd_finalizing (depart_session h c s) = sd_finalizing s" "sd_finalizing (depart d c s) = sd_finalizing s"
  "sd_cleaning_count (depart_session h c s) = sd_cleaning_count s" "sd_cleaning_count (depart d c s) = sd_cleaning_count s"
  by (simp_all add: depart_session_def depart_def)

lemma remove_fields [simp]:
  "sd_cleaning (remove_reusable p i u s) = sd_cleaning s" "sd_finalizing (remove_reusable p i u s) = sd_finalizing s"
  "sd_cleaning_count (remove_reusable p i u s) = sd_cleaning_count s" "sd_sessions (remove_reusable p i u s) = sd_sessions s"
  by (simp_all add: remove_reusable_def)

lemma published_departs:
  assumes "sched_inv cfg s (add_mset (pend_flight c) F)" "lease = pn_retained_lease c \<or> lease = None"
  shows "sched_inv cfg (depart_session (returned e c lease) (pn_call c) (depart (pn_dispatched c) (pn_call c) s)) F"
proof (rule sched_inv_depart)
  show "sched_inv cfg s (add_mset (pn_call c, pn_dispatched c, pn_retained_lease c) F)" using assms(1) by (simp add: pend_flight_def)
  show "ss_pool_id (returned e c lease ss) = ss_pool_id ss \<and> ss_queued (returned e c lease ss) = ss_queued ss \<and> ss_unfinished (returned e c lease ss) = ss_unfinished ss - 1" for ss
    by (simp add: returned_core)
  show "returned_ok (sd_pools s) (pn_dispatched c) ss (returned e c lease ss)" if k: "sc_session (pn_call c) = Some k" "bt_get (sd_sessions s) k = Some ss" for k ss
  proof -
    note parts = sched_inv_parts [OF assms(1)]
    have "0 < ss_unfinished ss" using parts(2) k by (auto simp: call_inv_def session_counts_def pend_flight_def)
    moreover have "session_ok (sd_pools s) ss" using parts(3) k(2) by (simp add: lease_inv_def)
    moreover have "flight_ok s (pend_flight c)" using parts(3) by (simp add: lease_inv_def)
    ultimately have "session_ok (sd_pools s) (returned e c lease ss)"
      using k assms(2) by (intro returned_session_ok) (auto simp: flight_ok_def pend_flight_def)
    then show ?thesis by (simp add: returned_ok_def returned_core)
  qed
qed

lemma sched_inv_published: "sched_inv cfg (t\<lparr>sd_persistence_failures := m, sd_cleaning_count := n\<rparr>) F = sched_inv cfg t F"
  by simp

text \<open>The state after the first part of the section.\<close>

definition opened_publish :: "pending_completion \<Rightarrow> scheduler_state \<Rightarrow> scheduler_state" where
  "opened_publish c s = s\<lparr>sd_persistence_failures := bt_remove (sc_id (pn_call c)) (sd_persistence_failures s),
     sd_live := bt_remove (sc_id (pn_call c)) (sd_live s), sd_cleaning_count := sd_cleaning_count s - 1,
     sd_pools := (if pn_dispatched c then bt_update (\<lambda>p. p\<lparr>sp_active := sp_active p - 1\<rparr>) (sc_pool (pn_call c)) (sd_pools s) else sd_pools s)\<rparr>"

lemma opened_publish_eq:
  "opened_publish c s = (depart (pn_dispatched c) (pn_call c) s)\<lparr>sd_persistence_failures := bt_remove (sc_id (pn_call c)) (sd_persistence_failures s),
     sd_cleaning_count := sd_cleaning_count s - 1\<rparr>"
  by (rule scheduler_state.equality) (simp_all add: opened_publish_def depart_def)

definition close_publish :: "scheduler_env \<Rightarrow> embedded_error option \<Rightarrow> pending_completion \<Rightarrow> (scheduler_state, unit) action" where
  "close_publish ev closing_error c =
     bind_action (case sc_reusable_instance (pn_call c) of
         None \<Rightarrow> ret (pn_retained_lease c)
       | Some ident \<Rightarrow>
           (case pn_retained_lease c of
              Some lease \<Rightarrow>
                bind_action (modify_reusable ''unfinished reusable instance retained'' ident (\<lambda>u.
                  Ok (u\<lparr>su_active := None, su_lease := Some lease, su_idle_since := ev_now ev\<rparr>))) (\<lambda>_. ret None)
            | None \<Rightarrow> bind_action (reusable_remove ident) (\<lambda>_. ret None))) (\<lambda>lease.
     case sc_session (pn_call c) of
       None \<Rightarrow> ret ()
     | Some session \<Rightarrow> modify_session ''unfinished session retained'' session (return_session ev closing_error c lease))"

lemma publish_split:
  assumes "center_inv cfg R (add_mset c P) s"
  shows "complete_publish ev e c s = close_publish ev e c (opened_publish c s)"
proof -
  have n: "0 < sd_cleaning_count s" using assms by (simp add: center_inv_def)
  have si: "sched_inv cfg s (add_mset (pend_flight c) (all_flights R P s))" using center_invD [OF assms] by simp
  have "\<exists>p. bt_get (sd_pools s) (sc_pool (pn_call c)) = Some p \<and> 0 < sp_active p" if "pn_dispatched c"
    using sched_inv_parts(2) [OF si] that by (fastforce simp: call_inv_def call_owned_def pool_counts_def pend_flight_def)
  then show ?thesis
    using n unfolding complete_publish_def close_publish_def
    by (auto simp: opened_publish_def bind_action_def write_state_def try_read_def ret_def modify_at_def bt_update_def decrease_enough Suc_le_eq)
qed

lemma reusable_remove_eq:
  assumes inv: "owner_inv s" "slot_inv s" "bt_wf (sd_reusable_instances s)" and u: "bt_get (sd_reusable_instances s) i = Some u"
  obtains plugin where "pool_plugin (sd_pools s) (su_pool_id u) = Some plugin" "reusable_remove i s = (Ok (), remove_reusable plugin i u s)"
proof -
  obtain p where p: "bt_get (sd_pools s) (su_pool_id u) = Some p" using inv(1) u by (fastforce simp: owner_inv_def)
  obtain g where g: "bt_get (sd_plugins s) (sp_plugin_id p) = Some g" using inv(1) p by (fastforce simp: owner_inv_def)
  have plugin: "pool_plugin (sd_pools s) (su_pool_id u) = Some (sp_plugin_id p)" using p by (simp add: pool_plugin_def)
  have "0 < sg_reserved_operations g" if "su_finalization_reservation u"
  proof -
    have "0 < reserved_of s (sp_plugin_id p)" using reserved_remove [OF inv(3) u plugin, of "sp_plugin_id p"] that by simp
    then show ?thesis using inv(2) g by (fastforce simp: slot_inv_def)
  qed
  then have "reusable_remove i s = (Ok (), remove_reusable (sp_plugin_id p) i u s)"
    using u p g
    by (auto simp: reusable_remove_def bind_action_def try_read_def write_state_def ret_def modify_at_def remove_reusable_def bt_update_def decrease_enough Suc_le_eq)
  then show thesis using plugin that by blast
qed

section \<open>Publishing\<close>

lemma session_part:
  assumes "\<And>k. sc_session (pn_call c) = Some k \<Longrightarrow> \<exists>ss. bt_get (sd_sessions x) k = Some ss \<and> 0 < ss_unfinished ss"
  shows "(case sc_session (pn_call c) of None \<Rightarrow> ret ()
     | Some session \<Rightarrow> modify_session ''unfinished session retained'' session (return_session ev e c lease)) x
    = (Ok (), depart_session (returned e c lease) (pn_call c) x)"
proof (cases "sc_session (pn_call c)")
  case None
  then show ?thesis by (simp add: ret_def depart_session_def session_update_def)
next
  case (Some k)
  obtain ss where "bt_get (sd_sessions x) k = Some ss" "0 < ss_unfinished ss" using assms Some by blast
  then show ?thesis using Some by (simp add: modify_at_def return_session_eq depart_session_def session_update_def bt_update_def)
qed

theorem wp_complete_publish:
  assumes inv: "center_inv cfg R (add_mset c P) s"
  shows "wp (complete_publish ev e c) (\<lambda>_. center_inv cfg R P) (\<lambda>_. False) s"
proof -
  let ?t = "opened_publish c s" and ?F = "all_flights R P s"
  have si: "sched_inv cfg s (add_mset (pend_flight c) ?F)" using center_invD [OF inv] by simp
  note parts = sched_inv_parts [OF si]
  have flight: "flight_ok s (pend_flight c)" using parts(3) by (simp add: lease_inv_def)
  have departed: "sched_inv cfg (depart_session (returned e c lease) (pn_call c) ?t) ?F" if "lease = pn_retained_lease c \<or> lease = None" for lease
  proof -
    have "depart_session (returned e c lease) (pn_call c) ?t = (depart_session (returned e c lease) (pn_call c) (depart (pn_dispatched c) (pn_call c) s))
        \<lparr>sd_persistence_failures := bt_remove (sc_id (pn_call c)) (sd_persistence_failures s), sd_cleaning_count := sd_cleaning_count s - 1\<rparr>"
      unfolding opened_publish_eq by (rule scheduler_state.equality) (simp_all add: depart_session_def)
    then show ?thesis using published_departs [OF si that, of e] by simp
  qed
  have fields: "sd_cleaning ?t = sd_cleaning s" "sd_finalizing ?t = sd_finalizing s" "sd_cleaning_count ?t = sd_cleaning_count s - 1"
    "sd_sessions ?t = sd_sessions s" "sd_reusable_instances ?t = sd_reusable_instances s" "pool_plugin (sd_pools ?t) = pool_plugin (sd_pools s)"
    "finalizes (sd_pools ?t) = finalizes (sd_pools s)" by (simp_all add: opened_publish_def)
  have done_: "center_inv cfg R P x" if "sched_inv cfg x ?F" "sd_cleaning x = sd_cleaning s" "sd_finalizing x = sd_finalizing s" "sd_cleaning_count x = sd_cleaning_count s - 1" for x
    using inv that by (simp add: center_inv_def state_flights_def)
  have sess: "\<exists>ss. bt_get (sd_sessions s) k = Some ss \<and> 0 < ss_unfinished ss" if k: "sc_session (pn_call c) = Some k" for k
  proof -
    obtain ss where "bt_get (sd_sessions s) k = Some ss" using flight_session [OF si, of "pend_flight c" k] k by (auto simp: pend_flight_def)
    then show ?thesis using parts(2) k by (auto simp: call_inv_def session_counts_def pend_flight_def)
  qed
  have "wp (close_publish ev e c) (\<lambda>_. center_inv cfg R P) (\<lambda>_. False) ?t"
  proof (cases "sc_reusable_instance (pn_call c)")
    case None
    then have "close_publish ev e c ?t = (Ok (), depart_session (returned e c (pn_retained_lease c)) (pn_call c) ?t)"
      using session_part [of c ?t] sess fields(4) by (simp add: close_publish_def bind_action_def ret_def)
    moreover have "center_inv cfg R P (depart_session (returned e c (pn_retained_lease c)) (pn_call c) ?t)"
      by (rule done_ [OF departed]) (simp_all add: fields)
    ultimately show ?thesis by (simp add: wp_def)
  next
    case (Some i)
    have f: "pend_flight c \<in># add_mset (pend_flight c) ?F" by simp
    obtain u where u: "bt_get (sd_reusable_instances s) i = Some u" "su_active u = Some (sc_id (pn_call c))" "su_pool_id u = sc_pool (pn_call c)"
      using flight_instance [OF si f, of i] Some by (auto simp: pend_flight_def)
    have ok: "reusable_ok (sd_pools s) u" using parts(3) u(1) by (simp add: lease_inv_def)
    have unheld: "sc_reusable_instance (fl_call x) \<noteq> Some i" if "x \<in># ?F" for x
      using departed_unheld [of cfg s "pn_call c" "pn_dispatched c" "pn_retained_lease c" ?F i x] si Some that by (simp add: pend_flight_def)
    let ?T = "depart_session (returned e c None) (pn_call c) ?t"
    have T: "sched_inv cfg ?T ?F" "sd_reusable_instances ?T = sd_reusable_instances s" "pool_plugin (sd_pools ?T) = pool_plugin (sd_pools s)" "finalizes (sd_pools ?T) = finalizes (sd_pools s)"
      using departed fields by simp_all
    show ?thesis
    proof (cases "pn_retained_lease c")
      case (Some l)
      let ?m = "bt_update (\<lambda>u. u\<lparr>su_active := None, su_lease := Some l, su_idle_since := ev_now ev\<rparr>) i (sd_reusable_instances s)"
      have eq: "depart_session (returned e c None) (pn_call c) (?t\<lparr>sd_reusable_instances := ?m\<rparr>) = ?T\<lparr>sd_reusable_instances := ?m\<rparr>"
        by (rule scheduler_state.equality) (simp_all add: depart_session_def)
      have "finalizes (sd_pools s) (su_pool_id u) \<longrightarrow> su_finalization_reservation u" "\<not> su_retiring u"
        using flight \<open>sc_reusable_instance (pn_call c) = Some i\<close> Some u ok by (auto simp: flight_ok_def pend_flight_def reusable_ok_def)
      then have "sched_inv cfg (?T\<lparr>sd_reusable_instances := ?m\<rparr>) ?F"
        using sched_inv_return_reusable [OF T(1), of i u "ev_now ev" l] u(1) unheld T by simp
      then have "center_inv cfg R P (?T\<lparr>sd_reusable_instances := ?m\<rparr>)" by (rule done_) (simp_all add: fields)
      moreover have "close_publish ev e c ?t = (Ok (), ?T\<lparr>sd_reusable_instances := ?m\<rparr>)"
        using Some \<open>sc_reusable_instance (pn_call c) = Some i\<close> u(1) session_part [of c "?t\<lparr>sd_reusable_instances := ?m\<rparr>" ev e None] sess fields(4,5) eq
        by (simp add: close_publish_def bind_action_def ret_def modify_at_update)
      ultimately show ?thesis by (simp add: wp_def)
    next
      case None
      have "owner_inv (depart (pn_dispatched c) (pn_call c) s)" "slot_inv (depart (pn_dispatched c) (pn_call c) s)"
        using parts(4,5) by (auto simp: depart_def owner_inv_pool)
      then have "owner_inv ?t" "slot_inv ?t" unfolding opened_publish_eq by (simp_all add: owner_inv_def slot_inv_def reserved_of_def retained_of_def)
      then obtain plugin where plugin: "pool_plugin (sd_pools ?t) (su_pool_id u) = Some plugin" "reusable_remove i ?t = (Ok (), remove_reusable plugin i u ?t)"
        using reusable_remove_eq [of ?t i u] u(1) parts(3) by (auto simp: fields lease_inv_def)
      have eq: "depart_session (returned e c None) (pn_call c) (remove_reusable plugin i u ?t) = remove_reusable plugin i u ?T"
        by (rule scheduler_state.equality) (simp_all add: depart_session_def remove_reusable_def)
      have "sched_inv cfg (remove_reusable plugin i u ?T) ?F"
        using sched_inv_remove_reusable [OF T(1), of i u plugin] u(1) unheld T plugin(1) fields by simp
      then have "center_inv cfg R P (remove_reusable plugin i u ?T)" by (rule done_) (simp_all add: fields)
      moreover have "close_publish ev e c ?t = (Ok (), remove_reusable plugin i u ?T)"
        using None \<open>sc_reusable_instance (pn_call c) = Some i\<close> session_part [of c "remove_reusable plugin i u ?t" ev e None] sess fields(4) eq plugin(2)
        by (simp add: close_publish_def bind_action_def ret_def)
      ultimately show ?thesis by (simp add: wp_def)
    qed
  qed
  then show ?thesis unfolding wp_def publish_split [OF inv] .
qed

end
