(* ===== verification/Scheduler_Closing.thy ===== *)
theory Scheduler_Closing
  imports Scheduler_Finish
begin

text \<open>
  The automatic closing calls: every session and reusable instance whose VM still has a finalizer gets
  one closing call, in a slot its plugin had reserved for it.
\<close>

section \<open>The slot\<close>

lemma closing_slot_facts:
  assumes "sched_inv cfg s F" "bt_get (sd_pools s) pool = Some p"
  obtains free where "closing_slot owner s pool = Ok (sp_plugin_id p, free)" "free \<longrightarrow> room pool s"
proof -
  obtain g where g: "bt_get (sd_plugins s) (sp_plugin_id p) = Some g" by (rule pool_owner [OF assms])
  obtain b where b: "capacity_allows_execution s pool = Ok b"
    "b \<longleftrightarrow> (\<forall>k kk. sp_capacity_id p = Some k \<and> bt_get (sd_capacities s) k = Some kk \<longrightarrow>
        capacity_active s k < cap_max_running_calls (ccf_resources (sk_config kk)))"
    by (rule capacity_allows_safe [OF assms])
  show thesis
  proof (cases "sp_active p \<ge> pool_max_running_calls (sp_policy p) \<or> plugin_active s (sp_plugin_id p) \<ge> plg_max_running_calls (sg_config g)")
    case True
    then show thesis using assms(2) g that [of False] by (simp add: closing_slot_def)
  next
    case False
    then have "closing_slot owner s pool = Ok (sp_plugin_id p, b)" using assms(2) g b(1) by (simp add: closing_slot_def)
    moreover have "room pool s" if "b" using False assms(2) g b(2) that by (auto simp: room_def)
    ultimately show thesis using that by blast
  qed
qed

definition closing_completion :: "scheduled_call \<Rightarrow> module_lease \<Rightarrow> pending_completion" where
  "closing_completion call lease = \<lparr>pn_finalization = Some \<lparr>pz_lease = lease, pz_intent_prepared = False, pz_outcome = None, pz_outcome_prepared = False\<rparr>,
     pn_retained_lease = None, pn_cleaning_started = False, pn_call = call, pn_result = Inr VNull, pn_retirement = None,
     pn_effects = UnknownEffect, pn_dispatched = True\<rparr>"

lemma push_closing_eq:
  assumes "bt_get (sd_plugins s) plugin = Some g" "0 < sg_reserved_operations g" "bt_get (sd_pools s) (sc_pool call) = Some p"
  shows "push_closing owner plugin (sc_pool call) call lease s =
    (Ok (), (closing_move plugin call s)\<lparr>sd_cleaning_count := sd_cleaning_count (closing_move plugin call s) + 1, sd_cleaning := sd_cleaning (closing_move plugin call s) @ [closing_completion call lease]\<rparr>)"
  using assms
  by (simp add: push_closing_def bind_action_def modify_at_def write_state_def closing_move_def bt_update_def closing_completion_def decrease_enough Suc_le_eq)

text \<open>What a closing call of owner \<open>k\<close> may change of the identities.\<close>

definition admits :: "scheduler_env \<Rightarrow> string \<Rightarrow> scheduler_state \<Rightarrow> scheduler_state \<Rightarrow> bool" where
  "admits ev k s t \<longleftrightarrow>
     (\<forall>i. (bt_get (sd_live t) i \<noteq> None \<longrightarrow> bt_get (sd_live s) i \<noteq> None \<or> (\<exists>c. ev_admit_reserved ev k = Ok (i, c))) \<and>
          (bt_get (sd_operation_plugins t) i \<noteq> None \<longrightarrow> bt_get (sd_operation_plugins s) i \<noteq> None \<or> (\<exists>c. ev_admit_reserved ev k = Ok (i, c)))) \<and>
     finalizes (sd_pools t) = finalizes (sd_pools s)"

definition reserved_fresh :: "scheduler_env \<Rightarrow> scheduler_state \<Rightarrow> string list \<Rightarrow> bool" where
  "reserved_fresh ev s ks \<longleftrightarrow>
     distinct ks \<and>
     (\<forall>k \<in> set ks. \<forall>i c. ev_admit_reserved ev k = Ok (i, c) \<longrightarrow> bt_get (sd_live s) i = None \<and> bt_get (sd_operation_plugins s) i = None) \<and>
     (\<forall>k \<in> set ks. \<forall>k' \<in> set ks. k \<noteq> k' \<longrightarrow> (\<forall>i c i' c'. ev_admit_reserved ev k = Ok (i, c) \<longrightarrow> ev_admit_reserved ev k' = Ok (i', c') \<longrightarrow> i \<noteq> i'))"

lemma reserved_fresh_step:
  assumes "reserved_fresh ev s (k # ks)" "admits ev k s t"
  shows "reserved_fresh ev t ks"
  unfolding reserved_fresh_def
proof (intro conjI ballI allI impI)
  fix j i c assume j: "j \<in> set ks" "ev_admit_reserved ev j = Ok (i, c)"
  have "distinct (k # ks)" using assms(1) unfolding reserved_fresh_def by (elim conjE)
  then have k: "j \<noteq> k" using j(1) by auto
  have "\<not> (\<exists>c. ev_admit_reserved ev k = Ok (i, c))" using assms(1) j k unfolding reserved_fresh_def by (metis list.set_intros(1,2))
  moreover have "bt_get (sd_live s) i = None" "bt_get (sd_operation_plugins s) i = None"
    using assms(1) j unfolding reserved_fresh_def by (metis list.set_intros(2))+
  ultimately show "bt_get (sd_live t) i = None" "bt_get (sd_operation_plugins t) i = None" using assms(2) unfolding admits_def by metis+
next
  fix j j' i c i' c'
  assume "j \<in> set ks" "j' \<in> set ks" "j \<noteq> j'" "ev_admit_reserved ev j = Ok (i, c)" "ev_admit_reserved ev j' = Ok (i', c')"
  then show "i \<noteq> i'" using assms(1) unfolding reserved_fresh_def by (metis list.set_intros(2))
qed (use assms(1) in \<open>simp add: reserved_fresh_def\<close>)

section \<open>Sessions\<close>

definition closable_session :: "scheduler_env \<Rightarrow> scheduler_state \<Rightarrow> string \<Rightarrow> bool" where
  "closable_session ev s k \<longleftrightarrow> (\<exists>ss l. bt_get (sd_sessions s) k = Some ss \<and> ss_active ss = None \<and> ss_lease ss = Some l \<and> ev_plan ev l \<and> ss_finalization_reservation ss)"

lemma reserved_positive:
  assumes "sched_inv cfg s F" "bt_get (sd_sessions s) k = Some ss" "ss_finalization_reservation ss" "pool_plugin (sd_pools s) (ss_pool_id ss) = Some plugin"
    "bt_get (sd_plugins s) plugin = Some g"
  shows "0 < sg_reserved_operations g"
proof -
  have wf: "bt_wf (sd_sessions s)" using sched_inv_parts(2) [OF assms(1)] by (simp add: call_inv_def)
  have "0 < reserved_of s plugin" using bt.le_sum_entry [OF wf assms(2), of "\<lambda>e. session_slot (sd_pools s) plugin (snd e)"] assms(3,4)
    by (simp add: reserved_of_def session_slot_def)
  then show ?thesis using sched_inv_parts(5) [OF assms(1)] assms(5) by (fastforce simp: slot_inv_def)
qed

lemma reserved_positive_reusable:
  assumes "sched_inv cfg s F" "bt_get (sd_reusable_instances s) k = Some u" "su_finalization_reservation u" "pool_plugin (sd_pools s) (su_pool_id u) = Some plugin"
    "bt_get (sd_plugins s) plugin = Some g"
  shows "0 < sg_reserved_operations g"
proof -
  have wf: "bt_wf (sd_reusable_instances s)" using sched_inv_parts(3) [OF assms(1)] by (simp add: lease_inv_def)
  have "0 < reserved_of s plugin" using bt.le_sum_entry [OF wf assms(2), of "\<lambda>e. reusable_slot (sd_pools s) plugin (snd e)"] assms(3,4)
    by (simp add: reserved_of_def reusable_slot_def)
  then show ?thesis using sched_inv_parts(5) [OF assms(1)] assms(5) by (fastforce simp: slot_inv_def)
qed

lemma closing_move_fields [simp]:
  "sd_cleaning (closing_move plugin call s) = sd_cleaning s" "sd_finalizing (closing_move plugin call s) = sd_finalizing s"
  "sd_cleaning_count (closing_move plugin call s) = sd_cleaning_count s"
  "sd_cleaning (claim_closing_session k i s) = sd_cleaning s" "sd_finalizing (claim_closing_session k i s) = sd_finalizing s"
  "sd_cleaning_count (claim_closing_session k i s) = sd_cleaning_count s" "sd_plugins (claim_closing_session k i s) = sd_plugins s"
  "sd_pools (claim_closing_session k i s) = sd_pools s"
  "sd_cleaning (claim_closing_reusable k i s) = sd_cleaning s" "sd_finalizing (claim_closing_reusable k i s) = sd_finalizing s"
  "sd_cleaning_count (claim_closing_reusable k i s) = sd_cleaning_count s" "sd_plugins (claim_closing_reusable k i s) = sd_plugins s"
  "sd_pools (claim_closing_reusable k i s) = sd_pools s"
  by (simp_all add: closing_move_def claim_closing_session_def claim_closing_reusable_def)

lemma closing_admits:
  assumes "ev_admit_reserved ev k = Ok (sc_id call, c)" "sd_live x = sd_live s" "sd_operation_plugins x = sd_operation_plugins s" "sd_pools x = sd_pools s"
  shows "admits ev k s ((closing_move plugin call x)\<lparr>sd_cleaning_count := n, sd_cleaning := cs\<rparr>)"
  using assms by (auto simp: admits_def closing_move_def)

lemma wp_schedule_session:
  assumes inv: "center_inv cfg R P s" and k: "closable_session ev s k" and fresh: "reserved_fresh ev s (k # ks)" and ev: "env_safe ev"
  shows "wp (schedule_session_closing ev k)
    (\<lambda>_ t. center_inv cfg R P t \<and> admits ev k s t \<and> (\<forall>j. j \<noteq> k \<longrightarrow> bt_get (sd_sessions t) j = bt_get (sd_sessions s) j)) (\<lambda>t. t = s) s"
proof -
  note si = center_invD [OF inv]
  obtain ss l where ss: "bt_get (sd_sessions s) k = Some ss" "ss_active ss = None" "ss_lease ss = Some l" "ev_plan ev l" "ss_finalization_reservation ss"
    using k by (auto simp: closable_session_def)
  obtain p where p: "bt_get (sd_pools s) (ss_pool_id ss) = Some p" using sched_inv_parts(4) [OF si] ss(1) by (fastforce simp: owner_inv_def)
  have plugin: "pool_plugin (sd_pools s) (ss_pool_id ss) = Some (sp_plugin_id p)" using p by (simp add: pool_plugin_def)
  obtain g where g: "bt_get (sd_plugins s) (sp_plugin_id p) = Some g" by (rule pool_owner [OF si p])
  obtain free where free: "closing_slot ''session'' s (ss_pool_id ss) = Ok (sp_plugin_id p, free)" "free \<longrightarrow> room (ss_pool_id ss) s"
    by (rule closing_slot_facts [OF si p, of "''session''"])
  have here: "admits ev k s s" by (simp add: admits_def)
  show ?thesis
  proof (cases "free \<and> (\<exists>i c. ev_admit_reserved ev k = Ok (i, c))")
    case False
    then show ?thesis
      using ss free(1) here inv env_safe_case(5) [OF ev, of k]
      by (cases "ev_admit_reserved ev k") (auto simp: schedule_session_closing_def wp_simps)
  next
    case True
    then obtain i c where ic: "ev_admit_reserved ev k = Ok (i, c)" and "free" by blast
    let ?call = "\<lparr>sc_reusable_instance = None, sc_id = i, sc_control = c, sc_request = CloseSession (ss_pool_id ss) k (ss_finalization_context ss), sc_bytes = 0\<rparr>"
    let ?m = "claim_closing_session k i s"
    let ?t = "closing_move (sp_plugin_id p) ?call ?m"
    have new: "bt_get (sd_live s) i = None" "bt_get (sd_operation_plugins s) i = None" using fresh ic by (auto simp: reserved_fresh_def)
    have "sched_inv cfg ?t (add_mset (?call, True, None) (all_flights R P s))"
      using sched_inv_closing_session [OF si ss(1,2) _ ss(5), of ?call "ss_finalization_context ss" "sp_plugin_id p"] ss plugin free(2) \<open>free\<close> new by simp
    then have "center_inv cfg R P (?t\<lparr>sd_cleaning_count := sd_cleaning_count ?t + 1, sd_cleaning := sd_cleaning ?t @ [closing_completion ?call l]\<rparr>)"
      by (intro center_inv_push [OF inv]) (simp_all add: closing_completion_def pend_flight_def)
    moreover have "admits ev k s (?t\<lparr>sd_cleaning_count := sd_cleaning_count ?t + 1, sd_cleaning := sd_cleaning ?t @ [closing_completion ?call l]\<rparr>)"
      by (rule closing_admits [of _ _ _ c]) (simp_all add: ic claim_closing_session_def)
    moreover have "schedule_session_closing ev k s = (Ok True, ?t\<lparr>sd_cleaning_count := sd_cleaning_count ?t + 1, sd_cleaning := sd_cleaning ?t @ [closing_completion ?call l]\<rparr>)"
      using ss free(1) \<open>free\<close> ic push_closing_eq [of ?m "sp_plugin_id p" g ?call p "''session''" l] g p reserved_positive [OF si ss(1,5) plugin g]
      by (simp add: schedule_session_closing_def bind_action_def try_read_def from_result_def ret_def modify_at_def claim_closing_session_def bt_update_def)
    ultimately show ?thesis by (simp add: wp_def claim_closing_session_def)
  qed
qed

section \<open>Instances\<close>

definition closable_reusable :: "scheduler_env \<Rightarrow> scheduler_state \<Rightarrow> string \<Rightarrow> bool" where
  "closable_reusable ev s k \<longleftrightarrow> (\<exists>u l. bt_get (sd_reusable_instances s) k = Some u \<and> su_active u = None \<and> su_lease u = Some l \<and> ev_plan ev l \<and> su_finalization_reservation u)"

lemma wp_schedule_reusable:
  assumes inv: "center_inv cfg R P s" and k: "closable_reusable ev s k" and fresh: "reserved_fresh ev s (k # ks)" and ev: "env_safe ev"
  shows "wp (schedule_reusable_closing ev k)
    (\<lambda>_ t. center_inv cfg R P t \<and> admits ev k s t \<and> (\<forall>j. j \<noteq> k \<longrightarrow> bt_get (sd_reusable_instances t) j = bt_get (sd_reusable_instances s) j)) (\<lambda>t. t = s) s"
proof -
  note si = center_invD [OF inv]
  obtain u l where u: "bt_get (sd_reusable_instances s) k = Some u" "su_active u = None" "su_lease u = Some l" "ev_plan ev l" "su_finalization_reservation u"
    using k by (auto simp: closable_reusable_def)
  obtain p where p: "bt_get (sd_pools s) (su_pool_id u) = Some p" using sched_inv_parts(4) [OF si] u(1) by (fastforce simp: owner_inv_def)
  have plugin: "pool_plugin (sd_pools s) (su_pool_id u) = Some (sp_plugin_id p)" using p by (simp add: pool_plugin_def)
  obtain g where g: "bt_get (sd_plugins s) (sp_plugin_id p) = Some g" by (rule pool_owner [OF si p])
  obtain free where free: "closing_slot ''reusable'' s (su_pool_id u) = Ok (sp_plugin_id p, free)" "free \<longrightarrow> room (su_pool_id u) s"
    by (rule closing_slot_facts [OF si p, of "''reusable''"])
  have here: "admits ev k s s" by (simp add: admits_def)
  show ?thesis
  proof (cases "free \<and> (\<exists>i c. ev_admit_reserved ev k = Ok (i, c))")
    case False
    then show ?thesis
      using u free(1) here inv env_safe_case(5) [OF ev, of k]
      by (cases "ev_admit_reserved ev k") (auto simp: schedule_reusable_closing_def wp_simps)
  next
    case True
    then obtain i c where ic: "ev_admit_reserved ev k = Ok (i, c)" and "free" by blast
    let ?call = "\<lparr>sc_reusable_instance = Some k, sc_id = i, sc_control = c, sc_request = CloseInstance (su_pool_id u) (su_finalization_context u), sc_bytes = 0\<rparr>"
    let ?m = "claim_closing_reusable k i s"
    let ?t = "closing_move (sp_plugin_id p) ?call ?m"
    have new: "bt_get (sd_live s) i = None" "bt_get (sd_operation_plugins s) i = None" using fresh ic by (auto simp: reserved_fresh_def)
    have "sched_inv cfg ?t (add_mset (?call, True, None) (all_flights R P s))"
      using sched_inv_closing_reusable [OF si u(1,2) _ u(5), of ?call "su_finalization_context u" "sp_plugin_id p"] u plugin free(2) \<open>free\<close> new by simp
    then have "center_inv cfg R P (?t\<lparr>sd_cleaning_count := sd_cleaning_count ?t + 1, sd_cleaning := sd_cleaning ?t @ [closing_completion ?call l]\<rparr>)"
      by (intro center_inv_push [OF inv]) (simp_all add: closing_completion_def pend_flight_def)
    moreover have "admits ev k s (?t\<lparr>sd_cleaning_count := sd_cleaning_count ?t + 1, sd_cleaning := sd_cleaning ?t @ [closing_completion ?call l]\<rparr>)"
      by (rule closing_admits [of _ _ _ c]) (simp_all add: ic claim_closing_reusable_def)
    moreover have "schedule_reusable_closing ev k s = (Ok True, ?t\<lparr>sd_cleaning_count := sd_cleaning_count ?t + 1, sd_cleaning := sd_cleaning ?t @ [closing_completion ?call l]\<rparr>)"
      using u free(1) \<open>free\<close> ic push_closing_eq [of ?m "sp_plugin_id p" g ?call p "''reusable''" l] g p reserved_positive_reusable [OF si u(1,5) plugin g]
      by (simp add: schedule_reusable_closing_def bind_action_def try_read_def from_result_def ret_def modify_at_def claim_closing_reusable_def bt_update_def)
    ultimately show ?thesis by (simp add: wp_def claim_closing_reusable_def)
  qed
qed

section \<open>The loops\<close>

lemma wp_schedule_all:
  assumes step: "\<And>k ks s. center_inv cfg R P s \<Longrightarrow> ok s k \<Longrightarrow> reserved_fresh ev s (k # ks) \<Longrightarrow>
      wp (schedule k) (\<lambda>_ t. center_inv cfg R P t \<and> admits ev k s t \<and> keeps k s t) (\<lambda>t. t = s) s"
    and keeps: "\<And>j k s t. keeps k s t \<Longrightarrow> j \<noteq> k \<Longrightarrow> ok s j \<Longrightarrow> ok t j"
    and start: "center_inv cfg R P s" "list_all (ok s) ks" "reserved_fresh ev s ks"
  shows "wp (schedule_all schedule ks) (\<lambda>_. center_inv cfg R P) (center_inv cfg R P) s"
  using start
proof (induction ks arbitrary: s)
  case (Cons k ks)
  have "list_all (ok t) ks" if "keeps k s t" for t
  proof -
    have "k \<notin> set ks" using Cons.prems(3) unfolding reserved_fresh_def by auto
    then show ?thesis using Cons.prems(2) keeps [OF that] unfolding list_all_iff by (metis list.set_intros(2))
  qed
  moreover have "wp (schedule k) (\<lambda>_ t. center_inv cfg R P t \<and> admits ev k s t \<and> keeps k s t) (\<lambda>t. t = s) s"
    by (rule step [OF Cons.prems(1) _ Cons.prems(3)]) (use Cons.prems(2) in simp)
  ultimately show ?case
    unfolding schedule_all.simps wp_bind
    using Cons.prems(1) by (elim wp_mono) (use Cons.IH reserved_fresh_step [OF Cons.prems(3)] in blast)+
qed (simp add: wp_simps)

text \<open>
  The operation registry gives different owners different new identities, and a VM has a closing plan
  only where its pool's module declares a finalizer.
\<close>

definition admissions_fresh :: "scheduler_env \<Rightarrow> scheduler_state \<Rightarrow> bool" where
  "admissions_fresh ev s \<longleftrightarrow>
     (\<forall>k i c. ev_admit_reserved ev k = Ok (i, c) \<longrightarrow> bt_get (sd_live s) i = None \<and> bt_get (sd_operation_plugins s) i = None) \<and>
     (\<forall>k k' i c c'. ev_admit_reserved ev k = Ok (i, c) \<longrightarrow> ev_admit_reserved ev k' = Ok (i, c') \<longrightarrow> k = k')"

lemma admissions_reserved: "admissions_fresh ev s \<Longrightarrow> distinct ks \<Longrightarrow> reserved_fresh ev s ks"
  unfolding admissions_fresh_def reserved_fresh_def by metis

definition plans_owned :: "scheduler_env \<Rightarrow> scheduler_state \<Rightarrow> bool" where
  "plans_owned ev s \<longleftrightarrow>
     (\<forall>k ss l. bt_get (sd_sessions s) k = Some ss \<and> ss_lease ss = Some l \<and> ev_plan ev l \<longrightarrow> finalizes (sd_pools s) (ss_pool_id ss)) \<and>
     (\<forall>k u l. bt_get (sd_reusable_instances s) k = Some u \<and> su_lease u = Some l \<and> ev_plan ev l \<longrightarrow> finalizes (sd_pools s) (su_pool_id u))"

section \<open>Maintenance of sessions\<close>

lemma sweep_sessions_inv:
  assumes "center_inv cfg R P s"
  shows "center_inv cfg R P (s\<lparr>sd_sessions := map (\<lambda>(k, ss). (k, sweep_session ev s ss)) (sd_sessions s)\<rparr>)"
proof -
  note si = center_invD [OF assms] and parts = sched_inv_parts [OF center_invD [OF assms]]
  let ?m = "map (\<lambda>(k, ss). (k, sweep_session ev s ss)) (sd_sessions s)"
  have wf: "bt_wf (sd_sessions s)" using parts(2) by (simp add: call_inv_def)
  have "sched_inv cfg (s\<lparr>sd_sessions := ?m\<rparr>) (all_flights R P s)"
  proof (rule sched_inv_sessions [OF si])
    show "same_on session_core (sd_sessions s) ?m"
      by (rule same_on_map [OF wf]) (simp add: session_core_def sweep_session_def Let_def)
    show "session_ok (sd_pools s) x" if x: "bt_get ?m k = Some x" for k x
    proof -
      obtain ss where ss: "bt_get (sd_sessions s) k = Some ss" "x = sweep_session ev s ss"
        using x bt_get_map_values [of "\<lambda>_. sweep_session ev s" "sd_sessions s" k] by auto
      then have "session_ok (sd_pools s) ss" using parts(3) by (auto simp: lease_inv_def)
      then show ?thesis unfolding ss(2) sweep_session_def Let_def by (auto simp: session_ok_def)
    qed
  qed
  then show ?thesis by (rule center_inv_keep [OF assms]) simp_all
qed

lemma sweep_closable:
  assumes "center_inv cfg R P s" "plans_owned ev s"
  shows "list_all (closable_session ev (s\<lparr>sd_sessions := map (\<lambda>(k, ss). (k, sweep_session ev s ss)) (sd_sessions s)\<rparr>)) (sessions_to_finalize ev s)"
  unfolding list_all_iff
proof
  note parts = sched_inv_parts [OF center_invD [OF assms(1)]]
  have wf: "bt_wf (sd_sessions s)" using parts(2) by (simp add: call_inv_def)
  fix k assume "k \<in> set (sessions_to_finalize ev s)"
  then obtain ss l where ss: "(k, ss) \<in> set (sd_sessions s)" "ss_active ss = None" "ss_lease ss = Some l" "ev_plan ev l"
    by (auto simp: sessions_to_finalize_def split: option.splits)
  have get: "bt_get (sd_sessions s) k = Some ss" using bt.get_iff [OF wf] ss(1) by simp
  moreover have "ss_finalization_reservation ss"
    using parts(3) assms(2) get ss unfolding lease_inv_def session_ok_def plans_owned_def by (metis option.distinct(1))
  ultimately show "closable_session ev (s\<lparr>sd_sessions := map (\<lambda>(k, ss). (k, sweep_session ev s ss)) (sd_sessions s)\<rparr>) k"
    using ss(2-4) bt_get_map_values [of "\<lambda>_. sweep_session ev s" "sd_sessions s" k]
    by (simp add: closable_session_def sweep_session_def Let_def)
qed

theorem wp_maintain_sessions:
  assumes "center_inv cfg R P s" "env_safe ev" "plans_owned ev s" "admissions_fresh ev s"
  shows "wp (maintain_sessions ev) (\<lambda>_. center_inv cfg R P) (center_inv cfg R P) s"
proof -
  let ?t = "s\<lparr>sd_sessions := map (\<lambda>(k, ss). (k, sweep_session ev s ss)) (sd_sessions s)\<rparr>"
  have wf: "bt_wf (sd_sessions s)" using sched_inv_parts(2) [OF center_invD [OF assms(1)]] by (simp add: call_inv_def)
  have "distinct (sessions_to_finalize ev s)"
    using wf unfolding sessions_to_finalize_def by (intro distinct_map_filter) (rule bt_wf_distinct)
  then have "reserved_fresh ev ?t (sessions_to_finalize ev s)"
    by (intro admissions_reserved) (use assms(4) in \<open>simp_all add: admissions_fresh_def\<close>)
  then have "wp (schedule_all (schedule_session_closing ev) (sessions_to_finalize ev s)) (\<lambda>_. center_inv cfg R P) (center_inv cfg R P) ?t"
    using wp_schedule_all [where schedule = "schedule_session_closing ev" and ok = "closable_session ev"
        and keeps = "\<lambda>k s t. \<forall>j. j \<noteq> k \<longrightarrow> bt_get (sd_sessions t) j = bt_get (sd_sessions s) j",
        OF wp_schedule_session [OF _ _ _ assms(2)] _ sweep_sessions_inv [OF assms(1)] sweep_closable [OF assms(1,3)]]
    by (auto simp: closable_session_def)
  then show ?thesis unfolding maintain_sessions_def wp_bind wp_values wp_effects by (simp add: wp_simps)
qed

text \<open>The retired VM of a session has been given back, or waits for its receipt.\<close>

theorem wp_retired_session:
  assumes "center_inv cfg R P s" "bt_get (sd_sessions s) k = Some ss" "ss_retiring ss"
  shows "wp (retired_session k release) (\<lambda>_. center_inv cfg R P) (center_inv cfg R P) s"
proof -
  note si = center_invD [OF assms(1)] and parts = sched_inv_parts [OF center_invD [OF assms(1)]]
  have wf: "bt_wf (sd_sessions s)" using parts(2) by (simp add: call_inv_def)
  have ok: "session_ok (sd_pools s) ss" using parts(3) assms(2) by (simp add: lease_inv_def)
  have "center_inv cfg R P (s\<lparr>sd_sessions := bt_insert k (ss\<lparr>ss_retirement := r, ss_retiring := False\<rparr>) (sd_sessions s)\<rparr>)" for r
  proof (rule center_inv_keep [OF assms(1) sched_inv_sessions [OF si]])
    show "same_on session_core (sd_sessions s) (bt_insert k (ss\<lparr>ss_retirement := r, ss_retiring := False\<rparr>) (sd_sessions s))"
      using wf assms(2) by (auto simp: same_on_def session_core_def)
    show "session_ok (sd_pools s) x" if "bt_get (bt_insert k (ss\<lparr>ss_retirement := r, ss_retiring := False\<rparr>) (sd_sessions s)) j = Some x" for j x
      using that ok assms(3) parts(3) by (auto simp: lease_inv_def session_ok_def split: if_splits)
  qed simp_all
  then show ?thesis using assms by (auto simp: retired_session_def wp_simps split: module_release.splits)
qed

lemma slot_slack_perm: "mset a = mset b \<Longrightarrow> slot_slack s a \<Longrightarrow> slot_slack s b"
  unfolding slot_slack_def by (metis mset_filter size_mset)

lemma reopen_session_inv:
  assumes "center_inv cfg R P s" "bt_get (sd_sessions s) k = Some ss"
  shows "center_inv cfg R P (s\<lparr>sd_sessions := bt_insert k (ss\<lparr>ss_closed := False\<rparr>) (sd_sessions s)\<rparr>)"
proof (rule center_inv_keep [OF assms(1) sched_inv_sessions [OF center_invD [OF assms(1)]]])
  note parts = sched_inv_parts [OF center_invD [OF assms(1)]]
  have wf: "bt_wf (sd_sessions s)" using parts(2) by (simp add: call_inv_def)
  show "same_on session_core (sd_sessions s) (bt_insert k (ss\<lparr>ss_closed := False\<rparr>) (sd_sessions s))"
    using wf assms(2) by (auto simp: same_on_def session_core_def)
  show "session_ok (sd_pools s) x" if "bt_get (bt_insert k (ss\<lparr>ss_closed := False\<rparr>) (sd_sessions s)) j = Some x" for j x
    using that assms(2) parts(3) by (auto simp: lease_inv_def session_ok_def split: if_splits)
qed simp_all

definition settled :: "embedded_runtime_config \<Rightarrow> flight multiset \<Rightarrow> pending_completion multiset \<Rightarrow> string list \<Rightarrow> string list \<Rightarrow> scheduler_state \<Rightarrow> bool" where
  "settled cfg R P pend unused t \<longleftrightarrow> center_inv cfg R P t \<and> slot_slack t (unused @ pend) \<and> list_all (\<lambda>i. bt_get (sd_pools t) i \<noteq> None) unused"

lemma settled_more:
  assumes "settled cfg R P (if b then i # pend else pend) unused t" "bt_get (sd_pools t) i \<noteq> None"
  shows "settled cfg R P pend (if b then i # unused else unused) t"
  using assms slot_slack_perm [of "unused @ i # pend" "i # unused @ pend" t] by (auto simp: settled_def split: if_splits)

lemma wp_settle_sessions:
  assumes "env_safe ev" "center_inv cfg R P s" "slot_slack s pend" "set idents \<subseteq> dom (bt_get (sd_sessions s))"
  shows "wp (settle_sessions ev idents) (\<lambda>unused t. settled cfg R P pend unused t \<and> sd_pools t = sd_pools s) (center_inv cfg R P) s"
  using assms(2-4)
proof (induction idents arbitrary: s pend)
  case (Cons k ks)
  note si = center_invD [OF Cons.prems(1)]
  have wf: "bt_wf (sd_sessions s)" using sched_inv_parts(2) [OF si] by (simp add: call_inv_def)
  obtain ss where ss: "bt_get (sd_sessions s) k = Some ss" using Cons.prems(3) by auto
  have pool: "bt_get (sd_pools s) (ss_pool_id ss) \<noteq> None" using sched_inv_parts(4) [OF si] ss by (simp add: owner_inv_def)
  let ?drained = "drain_session k s" and ?reopened = "s\<lparr>sd_sessions := bt_insert k (ss\<lparr>ss_closed := False\<rparr>) (sd_sessions s)\<rparr>"
  have skip: "wp (settle_sessions ev ks) (\<lambda>unused t. settled cfg R P pend unused t \<and> sd_pools t = sd_pools s) (center_inv cfg R P) s"
    using Cons by (intro Cons.IH) auto
  have reopened: "wp (settle_sessions ev ks) (\<lambda>unused t. settled cfg R P pend unused t \<and> sd_pools t = sd_pools s) (center_inv cfg R P) ?reopened"
  proof -
    have "slot_slack ?reopened pend"
      using Cons.prems(2) bt.sum_put_old [OF wf ss, of "\<lambda>e. session_slot (sd_pools s) j (snd e)" "ss\<lparr>ss_closed := False\<rparr>" for j]
      by (simp add: slot_slack_def reserved_of_def session_slot_def)
    moreover have "set ks \<subseteq> dom (bt_get (sd_sessions ?reopened))" using Cons.prems(3) by auto
    ultimately show ?thesis using Cons.IH [OF reopen_session_inv [OF Cons.prems(1) ss], of pend] by (simp del: bt_get_insert)
  qed
  have drained: "wp (settle_sessions ev ks) (\<lambda>unused t. settled cfg R P pend (if ss_finalization_reservation ss then ss_pool_id ss # unused else unused) t \<and>
      sd_pools t = sd_pools s) (center_inv cfg R P) ?drained" if "session_idle ss"
  proof (rule wp_mono [OF Cons.IH [OF _ drain_slack [OF wf ss Cons.prems(2)]]])
    show "center_inv cfg R P ?drained"
      by (rule center_inv_keep [OF Cons.prems(1) sched_inv_drain [OF si ss that]]) (simp_all add: drain_session_def)
    show "set ks \<subseteq> dom (bt_get (sd_sessions ?drained))" using Cons.prems(3) by (auto simp: drain_session_def)
  qed (use pool settled_more in \<open>auto simp: drain_session_def\<close>)
  have eq: "?drained = s\<lparr>sd_sessions := bt_insert k (ss\<lparr>ss_closed := True, ss_finalization_context := context_default, ss_finalization_reservation := False\<rparr>) (sd_sessions s)\<rparr>"
    using ss by (simp add: drain_session_def bt_update_def)
  show ?case
    using ss skip reopened drained env_safe_case(11) [OF assms(1)] Cons.prems(1) unfolding eq
    by (auto simp: wp_simps split: option.splits outcome.splits)
qed (simp add: wp_simps settled_def)

lemma wp_release_reserved:
  assumes "center_inv cfg R P s" "slot_slack s pools" "list_all (\<lambda>i. bt_get (sd_pools s) i \<noteq> None) pools"
  shows "wp (release_reserved pools) (\<lambda>_. center_inv cfg R P) (\<lambda>_. False) s"
  using assms
proof (induction pools arbitrary: s)
  case (Cons i is')
  note si = center_invD [OF Cons.prems(1)]
  obtain p where p: "bt_get (sd_pools s) i = Some p" using Cons.prems(3) by auto
  then have plugin: "pool_plugin (sd_pools s) i = Some (sp_plugin_id p)" by (simp add: pool_plugin_def)
  obtain g where g: "bt_get (sd_plugins s) (sp_plugin_id p) = Some g" by (rule pool_owner [OF si p])
  let ?t = "release_slot (sp_plugin_id p) s"
  note released = sched_inv_release_slot [OF si Cons.prems(2) plugin]
  have "0 < sg_reserved_operations g" using Cons.prems(2) g plugin by (fastforce simp: slot_slack_def)
  moreover have "wp (release_reserved is') (\<lambda>_. center_inv cfg R P) (\<lambda>_. False) ?t"
    by (rule Cons.IH [OF center_inv_keep [OF Cons.prems(1) released(1)] released(2)]) (use Cons.prems(3) in \<open>simp_all add: release_slot_def\<close>)
  moreover have "?t = s\<lparr>sd_plugins := bt_insert (sp_plugin_id p) (g\<lparr>sg_reserved_operations := sg_reserved_operations g - 1\<rparr>) (sd_plugins s)\<rparr>"
    using g by (simp add: release_slot_def bt_update_def)
  ultimately show ?case using p g by (simp add: wp_simps decrease_enough Suc_le_eq)
qed (simp add: wp_simps)

theorem wp_close_sessions:
  assumes "center_inv cfg R P s" "env_safe ev"
  shows "wp (close_sessions ev) (\<lambda>_. center_inv cfg R P) (center_inv cfg R P) s"
proof -
  note parts = sched_inv_parts [OF center_invD [OF assms(1)]]
  have "set (map fst (sd_sessions s)) \<subseteq> dom (bt_get (sd_sessions s))"
    using parts(2) bt.get_iff [of "sd_sessions s"] by (force simp: call_inv_def)
  then have "wp (settle_sessions ev (map fst (sd_sessions s))) (\<lambda>unused. settled cfg R P [] unused) (center_inv cfg R P) s"
    by (intro wp_mono [OF wp_settle_sessions [OF assms(2,1) slot_slack_Nil [OF parts(5)]]]) simp_all
  moreover have "wp (release_reserved unused) (\<lambda>_. center_inv cfg R P) (center_inv cfg R P) t" if "settled cfg R P [] unused t" for unused t
    using wp_release_reserved [of cfg R P t unused] that by (auto simp: settled_def elim: wp_mono)
  ultimately show ?thesis unfolding close_sessions_def wp_bind wp_values by (auto elim: wp_mono)
qed

section \<open>Maintenance of instances\<close>

definition same_leases :: "scheduler_state \<Rightarrow> scheduler_state \<Rightarrow> bool" where
  "same_leases s t \<longleftrightarrow> (\<forall>k. map_option (\<lambda>u. (su_pool_id u, su_lease u)) (bt_get (sd_reusable_instances t) k) =
     map_option (\<lambda>u. (su_pool_id u, su_lease u)) (bt_get (sd_reusable_instances s) k))"

lemma expire_leases:
  assumes "reusable_expire ev pool s = (Ok x, t)"
  shows "same_leases s t"
proof -
  have "map_option (\<lambda>u. (su_pool_id u, su_lease u)) (bt_get (expire_entries now ttl pool n us) k) = map_option (\<lambda>u. (su_pool_id u, su_lease u)) (bt_get us k)" for now ttl n us k
    using expire_entries_get [of now ttl pool n us k] by (auto split: option.splits)
  then show ?thesis
    using assms by (auto simp: reusable_expire_def bind_action_def try_read_def ret_def write_state_def same_leases_def Let_def split: option.splits outcome.splits)
qed

lemma plans_owned_same:
  assumes "plans_owned ev s" "same_leases s t" "scan_frame s t"
  shows "plans_owned ev t"
proof -
  have "sd_pools t = sd_pools s" "sd_sessions t = sd_sessions s" using assms(3) by (simp_all add: scan_frame_def)
  moreover have "\<exists>u'. bt_get (sd_reusable_instances s) k = Some u' \<and> su_pool_id u' = su_pool_id u \<and> su_lease u' = su_lease u"
    if "bt_get (sd_reusable_instances t) k = Some u" for k u
    using assms(2) [unfolded same_leases_def, rule_format, of k] that by (auto simp: map_option_case split: option.splits)
  ultimately show ?thesis using assms(1) unfolding plans_owned_def by metis
qed

lemma wp_expire_all:
  assumes "center_inv cfg R P s" "plans_owned ev s" "set pools \<subseteq> dom (bt_get (sd_pools s))"
  shows "wp (expire_all ev pools) (\<lambda>_ t. center_inv cfg R P t \<and> plans_owned ev t \<and> scan_frame s t) (\<lambda>_. False) s"
  using assms
proof (induction pools arbitrary: s)
  case Nil
  then show ?case using scan_frame_refl [OF Nil.prems(1)] by (simp add: wp_simps)
next
  case (Cons pool pools)
  obtain p where p: "bt_get (sd_pools s) pool = Some p" using Cons.prems(3) by auto
  have "wp (reusable_expire ev pool) (\<lambda>_ t. center_inv cfg R P t \<and> scan_frame s t \<and> same_leases s t) (\<lambda>_. False) s"
    using wp_result [OF wp_reusable_expire [OF Cons.prems(1) p, of ev]] expire_leases [of ev pool s] by (intro wp_of_result) blast+
  then show ?case
    unfolding expire_all.simps wp_bind
  proof (rule wp_mono)
    fix x t assume t: "center_inv cfg R P t \<and> scan_frame s t \<and> same_leases s t"
    then have "sd_pools t = sd_pools s" by (simp add: scan_frame_def)
    then have "wp (expire_all ev pools) (\<lambda>_ u. center_inv cfg R P u \<and> plans_owned ev u \<and> scan_frame t u) (\<lambda>_. False) t"
      using t plans_owned_same [OF Cons.prems(2)] Cons.prems(3) by (intro Cons.IH) auto
    then show "wp (expire_all ev pools) (\<lambda>_ t. center_inv cfg R P t \<and> plans_owned ev t \<and> scan_frame s t) (\<lambda>_. False) t"
      by (rule wp_mono) (use t scan_frame_trans in blast)+
  qed
qed

lemma sweep_reusables_inv:
  assumes "center_inv cfg R P s"
  shows "center_inv cfg R P (s\<lparr>sd_reusable_instances := map (\<lambda>(k, u). (k, sweep_reusable ev s u)) (sd_reusable_instances s)\<rparr>)"
proof -
  note si = center_invD [OF assms] and parts = sched_inv_parts [OF center_invD [OF assms]]
  let ?m = "map (\<lambda>(k, u). (k, sweep_reusable ev s u)) (sd_reusable_instances s)"
  have wf: "bt_wf (sd_reusable_instances s)" using parts(3) by (simp add: lease_inv_def)
  have "sched_inv cfg (s\<lparr>sd_reusable_instances := ?m\<rparr>) (all_flights R P s)"
  proof (rule sched_inv_reusables [OF si])
    show "same_on reusable_core (sd_reusable_instances s) ?m"
      by (rule same_on_map [OF wf]) (simp add: reusable_core_def sweep_reusable_def Let_def)
    show "reusable_ok (sd_pools s) x" if x: "bt_get ?m k = Some x" for k x
    proof -
      obtain u where u: "bt_get (sd_reusable_instances s) k = Some u" "x = sweep_reusable ev s u"
        using x bt_get_map_values [of "\<lambda>_. sweep_reusable ev s" "sd_reusable_instances s" k] by auto
      then have "reusable_ok (sd_pools s) u" using parts(3) by (auto simp: lease_inv_def)
      then show ?thesis unfolding u(2) sweep_reusable_def Let_def by (auto simp: reusable_ok_def)
    qed
  qed
  then show ?thesis by (rule center_inv_keep [OF assms]) simp_all
qed

lemma sweep_closable_reusables:
  assumes "center_inv cfg R P s" "plans_owned ev s"
  shows "list_all (closable_reusable ev (s\<lparr>sd_reusable_instances := map (\<lambda>(k, u). (k, sweep_reusable ev s u)) (sd_reusable_instances s)\<rparr>)) (reusable_to_finalize ev s)"
  unfolding list_all_iff
proof
  note parts = sched_inv_parts [OF center_invD [OF assms(1)]]
  have wf: "bt_wf (sd_reusable_instances s)" using parts(3) by (simp add: lease_inv_def)
  fix k assume "k \<in> set (reusable_to_finalize ev s)"
  then obtain u l where u: "(k, u) \<in> set (sd_reusable_instances s)" "su_active u = None" "su_lease u = Some l" "ev_plan ev l"
    by (auto simp: reusable_to_finalize_def split: option.splits)
  have get: "bt_get (sd_reusable_instances s) k = Some u" using bt.get_iff [OF wf] u(1) by simp
  moreover have "su_finalization_reservation u"
    using parts(3) assms(2) get u unfolding lease_inv_def reusable_ok_def plans_owned_def by (metis option.distinct(1))
  ultimately show "closable_reusable ev (s\<lparr>sd_reusable_instances := map (\<lambda>(k, u). (k, sweep_reusable ev s u)) (sd_reusable_instances s)\<rparr>) k"
    using u(2-4) bt_get_map_values [of "\<lambda>_. sweep_reusable ev s" "sd_reusable_instances s" k]
    by (simp add: closable_reusable_def sweep_reusable_def Let_def)
qed

theorem wp_maintain_reusable:
  assumes "center_inv cfg R P s" "env_safe ev" "plans_owned ev s" "admissions_fresh ev s"
  shows "wp (maintain_reusable ev) (\<lambda>_. center_inv cfg R P) (center_inv cfg R P) s"
proof -
  have "wp (schedule_all (schedule_reusable_closing ev) (reusable_to_finalize ev t)) (\<lambda>_. center_inv cfg R P) (center_inv cfg R P)
      (t\<lparr>sd_reusable_instances := map (\<lambda>(k, u). (k, sweep_reusable ev t u)) (sd_reusable_instances t)\<rparr>)"
    if t: "center_inv cfg R P t" "plans_owned ev t" "scan_frame s t" for t
  proof -
    let ?t = "t\<lparr>sd_reusable_instances := map (\<lambda>(k, u). (k, sweep_reusable ev t u)) (sd_reusable_instances t)\<rparr>"
    have wf: "bt_wf (sd_reusable_instances t)" using sched_inv_parts(3) [OF center_invD [OF t(1)]] by (simp add: lease_inv_def)
    have "distinct (reusable_to_finalize ev t)"
      using wf unfolding reusable_to_finalize_def by (intro distinct_map_filter) (rule bt_wf_distinct)
    then have "reserved_fresh ev ?t (reusable_to_finalize ev t)"
      by (intro admissions_reserved) (use assms(4) t(3) in \<open>simp_all add: admissions_fresh_def scan_frame_def\<close>)
    then show ?thesis
      using wp_schedule_all [where schedule = "schedule_reusable_closing ev" and ok = "closable_reusable ev"
          and keeps = "\<lambda>k s t. \<forall>j. j \<noteq> k \<longrightarrow> bt_get (sd_reusable_instances t) j = bt_get (sd_reusable_instances s) j",
          OF wp_schedule_reusable [OF _ _ _ assms(2)] _ sweep_reusables_inv [OF t(1)] sweep_closable_reusables [OF t(1,2)]]
      by (auto simp: closable_reusable_def)
  qed
  moreover have "set (map fst (sd_pools s)) \<subseteq> dom (bt_get (sd_pools s))"
    using sched_inv_parts(2) [OF center_invD [OF assms(1)]] bt.get_iff [of "sd_pools s"] by (force simp: call_inv_def)
  ultimately show ?thesis
    unfolding maintain_reusable_def wp_bind wp_values wp_effects
    by (intro wp_mono [OF wp_expire_all [OF assms(1,3)]]) auto
qed

theorem wp_retired_reusable:
  assumes "center_inv cfg R P s" "bt_get (sd_reusable_instances s) k = Some u" "su_retiring u"
  shows "wp (retired_reusable k release) (\<lambda>_. center_inv cfg R P) (center_inv cfg R P) s"
proof -
  note si = center_invD [OF assms(1)] and parts = sched_inv_parts [OF center_invD [OF assms(1)]]
  have wf: "bt_wf (sd_reusable_instances s)" using parts(3) by (simp add: lease_inv_def)
  have ok: "reusable_ok (sd_pools s) u" using parts(3) assms(2) by (simp add: lease_inv_def)
  have "center_inv cfg R P (s\<lparr>sd_reusable_instances := bt_insert k (u\<lparr>su_retirement := r, su_retiring := False\<rparr>) (sd_reusable_instances s)\<rparr>)" for r
  proof (rule center_inv_keep [OF assms(1) sched_inv_reusables [OF si]])
    show "same_on reusable_core (sd_reusable_instances s) (bt_insert k (u\<lparr>su_retirement := r, su_retiring := False\<rparr>) (sd_reusable_instances s))"
      using wf assms(2) by (auto simp: same_on_def reusable_core_def)
    show "reusable_ok (sd_pools s) x" if "bt_get (bt_insert k (u\<lparr>su_retirement := r, su_retiring := False\<rparr>) (sd_reusable_instances s)) j = Some x" for j x
      using that ok parts(3) by (auto simp: lease_inv_def reusable_ok_def split: if_splits)
  qed simp_all
  then show ?thesis using assms by (auto simp: retired_reusable_def wp_simps split: module_release.splits)
qed

lemma wp_reusable_remove:
  assumes inv: "center_inv cfg R P s" and u: "bt_get (sd_reusable_instances s) k = Some u" "su_active u = None"
  shows "wp (reusable_remove k) (\<lambda>_ t. center_inv cfg R P t \<and> sd_reusable_instances t = bt_remove k (sd_reusable_instances s)) (\<lambda>_. False) s"
proof -
  note si = center_invD [OF inv] and parts = sched_inv_parts [OF center_invD [OF inv]]
  obtain plugin where plugin: "pool_plugin (sd_pools s) (su_pool_id u) = Some plugin" "reusable_remove k s = (Ok (), remove_reusable plugin k u s)"
    using reusable_remove_eq [of s k u] u(1) parts by (auto simp: lease_inv_def)
  have "sched_inv cfg (remove_reusable plugin k u s) (all_flights R P s)"
    by (rule sched_inv_remove_reusable [OF si u(1) plugin(1)]) (rule idle_instance_unheld [OF parts(3) u])
  then have "center_inv cfg R P (remove_reusable plugin k u s)" by (rule center_inv_keep [OF inv]) simp_all
  then show ?thesis using plugin(2) by (simp add: wp_def remove_reusable_def)
qed

lemma drained_instances_safe:
  assumes "env_safe ev"
  shows "\<not> is_panic (drained_instances ev us)"
proof (induction us)
  case (Cons e us)
  have "\<not> is_panic (reusable_drained ev (snd e))" using assms by (auto simp: reusable_drained_def env_safe_def split: option.splits)
  then show ?case using Cons by (cases e) auto
qed simp

lemma drained_instances_idle:
  assumes "drained_instances ev us = Ok ks" "bt_wf us"
  shows "distinct ks \<and> list_all (\<lambda>k. \<exists>u. (k, u) \<in> set us \<and> su_active u = None) ks"
  using assms
proof (induction us arbitrary: ks)
  case (Cons e us)
  obtain k u where e: "e = (k, u)" by (cases e)
  have wf: "bt_wf us" "k \<notin> fst ` set us" using Cons.prems e by (auto simp: bt_wf_Cons)
  obtain b rest where rest: "reusable_drained ev u = Ok b" "drained_instances ev us = Ok rest" "ks = (if b then k # rest else rest)"
    using Cons.prems(1) e by auto
  note IH = Cons.IH [OF rest(2) wf(1)]
  have "b \<Longrightarrow> su_active u = None" using rest(1) by (auto simp: reusable_drained_def split: if_splits)
  moreover have "k \<notin> set rest"
  proof
    assume "k \<in> set rest"
    then obtain u where "(k, u) \<in> set us" using IH by (auto simp: list_all_iff)
    then show False using wf(2) by force
  qed
  ultimately show ?case using IH rest(3) e by (auto simp: list_all_iff)
qed simp

lemma wp_remove_all:
  assumes "center_inv cfg R P s" "distinct ks" "list_all (\<lambda>k. \<exists>u. bt_get (sd_reusable_instances s) k = Some u \<and> su_active u = None) ks"
  shows "wp (remove_all_reusable ks) (\<lambda>_. center_inv cfg R P) (\<lambda>_. False) s"
  using assms
proof (induction ks arbitrary: s)
  case (Cons k ks)
  obtain u where u: "bt_get (sd_reusable_instances s) k = Some u" "su_active u = None" using Cons.prems(3) by auto
  have wf: "bt_wf (sd_reusable_instances s)" using sched_inv_parts(3) [OF center_invD [OF Cons.prems(1)]] by (simp add: lease_inv_def)
  show ?case
    unfolding remove_all_reusable.simps wp_bind
    by (rule wp_mono [OF wp_reusable_remove [OF Cons.prems(1) u]])
      (use Cons.prems(2,3) in \<open>auto simp: list_all_iff bt_get_remove [OF wf] intro!: Cons.IH\<close>)
qed (simp add: wp_simps)

theorem wp_reusable_prune:
  assumes "center_inv cfg R P s" "env_safe ev"
  shows "wp (reusable_prune ev) (\<lambda>_. center_inv cfg R P) (center_inv cfg R P) s"
proof -
  have wf: "bt_wf (sd_reusable_instances s)" using sched_inv_parts(3) [OF center_invD [OF assms(1)]] by (simp add: lease_inv_def)
  show ?thesis
  proof (cases "drained_instances ev (sd_reusable_instances s)")
    case (Ok ks)
    have "wp (remove_all_reusable ks) (\<lambda>_. center_inv cfg R P) (\<lambda>_. False) s"
      by (rule wp_remove_all [OF assms(1)]) (use drained_instances_idle [OF Ok wf] bt.get_iff [OF wf] in auto)
    then show ?thesis using Ok by (auto simp: reusable_prune_def wp_simps elim: wp_mono)
  qed (use drained_instances_safe [OF assms(2), of "sd_reusable_instances s"] assms(1) in \<open>simp_all add: reusable_prune_def wp_simps\<close>)
qed

end
