(* ===== verification/Scheduler_Owners.thy ===== *)
theory Scheduler_Owners
  imports Scheduler_Closing
begin

text \<open>
  Moves that add, change or remove a plugin, a capacity, a pool, a session or a retained operation, and
  that each of them keeps the invariant.
\<close>

section \<open>Plugins\<close>

lemma slots_frame [simp]:
  "reserved_of (sd_plugins_update f s) = reserved_of s" "retained_of (sd_plugins_update f s) = retained_of s"
  "reserved_of (sd_capacities_update h s) = reserved_of s" "retained_of (sd_capacities_update h s) = retained_of s"
  by (simp_all add: fun_eq_iff reserved_of_def retained_of_def)

lemma unknown_plugin:
  assumes "sched_inv cfg s F" "bt_get (sd_plugins s) k = None"
  shows "\<And>i p. bt_get (sd_pools s) i = Some p \<Longrightarrow> sp_plugin_id p \<noteq> k" "plugin_queue s k = []" "reserved_of s k = 0" "retained_of s k = 0"
    "plugin_active s k = 0"
proof -
  note parts = sched_inv_parts [OF assms(1)]
  show pools: "sp_plugin_id p \<noteq> k" if "bt_get (sd_pools s) i = Some p" for i p
    using parts(4) that assms(2) unfolding owner_inv_def by metis
  have unowned: "pool_plugin (sd_pools s) i \<noteq> Some k" for i using pools by (auto simp: pool_plugin_def)
  show "plugin_queue s k = []"
  proof (rule ccontr)
    assume "plugin_queue s k \<noteq> []"
    then obtain q c where "bt_get (sd_queues s) k = Some q" "c \<in> set q" using list.set_sel(1) by (fastforce simp: plugin_queue_def split: option.splits)
    then show False using parts(1) unowned by (fastforce simp: queue_inv_def)
  qed
  show "reserved_of s k = 0" using unowned by (simp add: reserved_of_def session_slot_def reusable_slot_def)
  have wf: "bt_wf (sd_operation_plugins s)" "bt_wf (sd_pools s)" using parts(2,5) by (simp_all add: slot_inv_def call_inv_def)
  show "retained_of s k = 0"
    using parts(5) assms(2) bt.get_iff [OF wf(1)] by (fastforce simp: retained_of_def sum_list_eq_0_iff slot_inv_def)
  show "plugin_active s k = 0"
    unfolding plugin_active_eq active_of_def using pools bt.get_iff [OF wf(2)] by (fastforce simp: sum_list_eq_0_iff)
qed

definition new_plugin :: "embedded_plugin_config \<Rightarrow> scheduled_plugin" where
  "new_plugin config = \<lparr>sg_config = config, sg_queued = 0, sg_bytes = 0, sg_operations = 0, sg_reserved_operations = 0, sg_closing = False\<rparr>"

lemma sched_inv_add_plugin:
  assumes "sched_inv cfg s F" "bt_get (sd_plugins s) k = None"
  shows "sched_inv cfg (s\<lparr>sd_plugins := bt_insert k (new_plugin config) (sd_plugins s)\<rparr>) F"
proof -
  let ?t = "s\<lparr>sd_plugins := bt_insert k (new_plugin config) (sd_plugins s)\<rparr>"
  note parts = sched_inv_parts [OF assms(1)] and unknown = unknown_plugin [OF assms]
  have "queue_inv ?t" using parts(1) unknown(2) by (auto simp: queue_inv_def plugin_queue_def new_plugin_def)
  moreover have "slot_inv ?t" using parts(5) unknown(3,4) by (auto simp: slot_inv_def new_plugin_def)
  moreover have "limit_inv cfg ?t" using parts(6) unknown(5) by (auto simp: limit_inv_def plugin_active_eq capacity_active_eq new_plugin_def)
  moreover have "owner_inv ?t" using parts(4) by (auto simp: owner_inv_def)
  ultimately show ?thesis using parts by (intro sched_invI) simp_all
qed

lemma sched_inv_close_plugin:
  assumes "sched_inv cfg s F"
  shows "sched_inv cfg (s\<lparr>sd_plugins := bt_update (\<lambda>g. g\<lparr>sg_closing := True\<rparr>) k (sd_plugins s)\<rparr>) F"
proof -
  let ?t = "s\<lparr>sd_plugins := bt_update (\<lambda>g. g\<lparr>sg_closing := True\<rparr>) k (sd_plugins s)\<rparr>"
  note parts = sched_inv_parts [OF assms]
  have "slot_inv ?t" using parts(5) by (auto simp: slot_inv_def)
  then show ?thesis
    using parts queue_inv_plugin [of "\<lambda>g. g\<lparr>sg_closing := True\<rparr>" s k] limit_inv_plugin [of "\<lambda>g. g\<lparr>sg_closing := True\<rparr>" cfg s k]
    by (intro sched_invI) (simp_all add: owner_inv_plugin)
qed

lemma sched_inv_drop_plugin:
  assumes "sched_inv cfg s F" "bt_get (sd_plugins s) k = Some g" "sg_operations g = 0"
    and "\<And>i p. bt_get (sd_pools s) i = Some p \<Longrightarrow> sp_plugin_id p \<noteq> k" "\<And>i c. bt_get (sd_capacities s) i = Some c \<Longrightarrow> sk_plugin_id c \<noteq> k"
  shows "sched_inv cfg (s\<lparr>sd_plugins := bt_remove k (sd_plugins s)\<rparr>) F"
proof -
  let ?t = "s\<lparr>sd_plugins := bt_remove k (sd_plugins s)\<rparr>"
  note parts = sched_inv_parts [OF assms(1)]
  have wf: "bt_wf (sd_plugins s)" "bt_wf (sd_operation_plugins s)" using parts by (simp_all add: queue_inv_def slot_inv_def)
  note get = bt_get_remove [OF wf(1)]
  have "retained_of s k = 0" using parts(5) assms(2,3) by (simp add: slot_inv_def)
  then have "bt_get (sd_operation_plugins s) i \<noteq> Some k" for i
    using bt.get_iff [OF wf(2)] by (fastforce simp: retained_of_def sum_list_eq_0_iff)
  then have "slot_inv ?t" using parts(5) by (auto simp: slot_inv_def get)
  moreover have "queue_inv ?t" using parts(1) wf by (auto simp: queue_inv_def plugin_queue_def get)
  moreover have "limit_inv cfg ?t" using parts(6) by (auto simp: limit_inv_def plugin_active_eq capacity_active_eq get)
  moreover have "owner_inv ?t" using parts(4) assms(4,5) by (auto simp: owner_inv_def get)
  ultimately show ?thesis using parts by (intro sched_invI) simp_all
qed

section \<open>Capacities\<close>

lemma parts_capacity_frame:
  "queue_inv (s\<lparr>sd_capacities := m\<rparr>) = queue_inv s" "call_inv (s\<lparr>sd_capacities := m\<rparr>) Q F = call_inv s Q F"
  "lease_inv (s\<lparr>sd_capacities := m\<rparr>) F = lease_inv s F" "slot_inv (s\<lparr>sd_capacities := m\<rparr>) = slot_inv s"
  by (simp_all add: queue_inv_def plugin_queue_def slot_inv_def call_inv_def call_owned_def lease_inv_def flight_ok_def)

lemma sched_inv_capacities:
  assumes "sched_inv cfg s F" "bt_wf m"
    and "\<And>i p c. bt_get (sd_pools s) i = Some p \<Longrightarrow> sp_capacity_id p = Some c \<Longrightarrow> \<exists>kk. bt_get m c = Some kk \<and> sk_plugin_id kk = sp_plugin_id p"
    and "\<And>i c. bt_get m i = Some c \<Longrightarrow> bt_get (sd_plugins s) (sk_plugin_id c) \<noteq> None \<and> capacity_active s i \<le> cap_max_running_calls (ccf_resources (sk_config c))"
  shows "sched_inv cfg (s\<lparr>sd_capacities := m\<rparr>) F"
proof -
  let ?t = "s\<lparr>sd_capacities := m\<rparr>"
  note parts = sched_inv_parts [OF assms(1)]
  have "owner_inv ?t" using parts(4) assms(2-4) unfolding owner_inv_def by simp
  moreover have "limit_inv cfg ?t" using parts(6) assms(4) by (auto simp: limit_inv_def plugin_active_eq capacity_active_eq)
  ultimately show ?thesis
    using parts by (intro sched_invI) (simp_all add: parts_capacity_frame)
qed

lemma unknown_capacity:
  assumes "sched_inv cfg s F" "\<And>i p. bt_get (sd_pools s) i = Some p \<Longrightarrow> sp_capacity_id p \<noteq> Some k"
  shows "capacity_active s k = 0"
proof -
  have "bt_wf (sd_pools s)" using sched_inv_parts(2) [OF assms(1)] by (simp add: call_inv_def)
  then show ?thesis unfolding capacity_active_eq active_of_def using assms(2) bt.get_iff [of "sd_pools s"] by (fastforce simp: sum_list_eq_0_iff)
qed

lemma sched_inv_add_capacity:
  assumes "sched_inv cfg s F" "bt_get (sd_capacities s) k = None" "bt_get (sd_plugins s) (sk_plugin_id c) \<noteq> None"
  shows "sched_inv cfg (s\<lparr>sd_capacities := bt_insert k c (sd_capacities s)\<rparr>) F"
proof (rule sched_inv_capacities [OF assms(1)])
  note parts = sched_inv_parts [OF assms(1)]
  show "bt_wf (bt_insert k c (sd_capacities s))" using parts(4) by (auto simp: owner_inv_def)
  have unused: "sp_capacity_id p \<noteq> Some k" if "bt_get (sd_pools s) i = Some p" for i p
    using parts(4) that assms(2) by (fastforce simp: owner_inv_def)
  show "\<exists>kk. bt_get (bt_insert k c (sd_capacities s)) j = Some kk \<and> sk_plugin_id kk = sp_plugin_id p"
    if "bt_get (sd_pools s) i = Some p" "sp_capacity_id p = Some j" for i p j
    using parts(4) that unused [OF that(1)] by (auto simp: owner_inv_def)
  show "bt_get (sd_plugins s) (sk_plugin_id x) \<noteq> None \<and> capacity_active s i \<le> cap_max_running_calls (ccf_resources (sk_config x))"
    if "bt_get (bt_insert k c (sd_capacities s)) i = Some x" for i x
    using that parts(4,6) assms(3) unknown_capacity [OF assms(1) unused] by (auto simp: owner_inv_def limit_inv_def split: if_splits)
qed

lemma sched_inv_drop_capacity:
  assumes "sched_inv cfg s F" "\<And>i p. bt_get (sd_pools s) i = Some p \<Longrightarrow> sp_capacity_id p \<noteq> Some k"
  shows "sched_inv cfg (s\<lparr>sd_capacities := bt_remove k (sd_capacities s)\<rparr>) F"
proof (rule sched_inv_capacities [OF assms(1)])
  note parts = sched_inv_parts [OF assms(1)]
  have wf: "bt_wf (sd_capacities s)" using parts(4) by (simp add: owner_inv_def)
  then show "bt_wf (bt_remove k (sd_capacities s))" by simp
  show "\<exists>kk. bt_get (bt_remove k (sd_capacities s)) j = Some kk \<and> sk_plugin_id kk = sp_plugin_id p"
    if "bt_get (sd_pools s) i = Some p" "sp_capacity_id p = Some j" for i p j
    using parts(4) that assms(2) [OF that(1)] by (auto simp: owner_inv_def bt_get_remove [OF wf])
  show "bt_get (sd_plugins s) (sk_plugin_id x) \<noteq> None \<and> capacity_active s i \<le> cap_max_running_calls (ccf_resources (sk_config x))"
    if "bt_get (bt_remove k (sd_capacities s)) i = Some x" for i x
    using that parts(4,6) by (auto simp: owner_inv_def limit_inv_def bt_get_remove [OF wf] split: if_splits)
qed

lemma sched_inv_change_capacity:
  assumes "sched_inv cfg s F" "bt_get (sd_capacities s) k = Some c" "sk_plugin_id c' = sk_plugin_id c"
    and "capacity_active s k \<le> cap_max_running_calls (ccf_resources (sk_config c'))"
  shows "sched_inv cfg (s\<lparr>sd_capacities := bt_insert k c' (sd_capacities s)\<rparr>) F"
proof (rule sched_inv_capacities [OF assms(1)])
  note parts = sched_inv_parts [OF assms(1)]
  show "bt_wf (bt_insert k c' (sd_capacities s))" using parts(4) by (auto simp: owner_inv_def)
  show "\<exists>kk. bt_get (bt_insert k c' (sd_capacities s)) j = Some kk \<and> sk_plugin_id kk = sp_plugin_id p"
    if "bt_get (sd_pools s) i = Some p" "sp_capacity_id p = Some j" for i p j
    using parts(4) that assms(2,3) by (fastforce simp: owner_inv_def)
  show "bt_get (sd_plugins s) (sk_plugin_id x) \<noteq> None \<and> capacity_active s i \<le> cap_max_running_calls (ccf_resources (sk_config x))"
    if "bt_get (bt_insert k c' (sd_capacities s)) i = Some x" for i x
    using that parts(4,6) assms(2-4) by (auto simp: owner_inv_def limit_inv_def split: if_splits)
qed

section \<open>Pools\<close>

lemma pool_frame_insert [simp]:
  "finalizes (bt_insert i p m) x = (if x = i then sp_finalizer p else finalizes m x)"
  "pool_plugin (bt_insert i p m) x = (if x = i then Some (sp_plugin_id p) else pool_plugin m x)"
  by (simp_all add: finalizes_def pool_plugin_def)

lemma pool_frame_remove [simp]:
  assumes "bt_wf m"
  shows "finalizes (bt_remove i m) x = (if x = i then False else finalizes m x)"
    "pool_plugin (bt_remove i m) x = (if x = i then None else pool_plugin m x)"
  using assms by (simp_all add: finalizes_def pool_plugin_def bt_get_remove)

text \<open>A change of one pool that no call, session or instance belongs to.\<close>

definition other_pools :: "string \<Rightarrow> (string, scheduled_pool) btree \<Rightarrow> (string, scheduled_pool) btree \<Rightarrow> bool" where
  "other_pools i m m' \<longleftrightarrow> bt_wf m' \<and> (\<forall>j. j \<noteq> i \<longrightarrow> bt_get m' j = bt_get m j)"

lemma other_pools_frame:
  assumes "other_pools i m m'" "x \<noteq> i"
  shows "finalizes m' x = finalizes m x" "pool_plugin m' x = pool_plugin m x" "bt_get m' x = bt_get m x"
  using assms by (simp_all add: other_pools_def finalizes_def pool_plugin_def)

definition unused_pool :: "string \<Rightarrow> scheduler_state \<Rightarrow> flight multiset \<Rightarrow> bool" where
  "unused_pool i s F \<longleftrightarrow>
     (\<forall>c \<in># queued_mset s. sc_pool c \<noteq> i) \<and> (\<forall>f \<in># F. fl_dispatched f \<longrightarrow> sc_pool (fl_call f) \<noteq> i) \<and>
     (\<forall>k ss. bt_get (sd_sessions s) k = Some ss \<longrightarrow> ss_pool_id ss \<noteq> i) \<and>
     (\<forall>k u. bt_get (sd_reusable_instances s) k = Some u \<longrightarrow> su_pool_id u \<noteq> i)"

lemma call_inv_unused_pool:
  assumes "call_inv s (queued_mset s) F" "other_pools i (sd_pools s) m" "unused_pool i s F"
    and "\<And>p. bt_get m i = Some p \<Longrightarrow> sp_queued p = 0 \<and> sp_active p = 0"
  shows "call_inv (s\<lparr>sd_pools := m\<rparr>) (queued_mset s) F"
proof -
  note other = other_pools_frame(3) [OF assms(2)]
  have zero: "cnt (\<lambda>c. sc_pool c = i) (queued_mset s) = 0" "cnt (\<lambda>f. fl_dispatched f \<and> sc_pool (fl_call f) = i) F = 0"
    using assms(3) unfolding cnt_zero_iff unused_pool_def by blast+
  have "pool_counts m (queued_mset s) F"
    unfolding pool_counts_def
  proof (intro allI impI)
    fix k p assume p: "bt_get m k = Some p"
    show "sp_queued p = cnt (\<lambda>c. sc_pool c = k) (queued_mset s) \<and> sp_active p = cnt (\<lambda>f. fl_dispatched f \<and> sc_pool (fl_call f) = k) F"
    proof (cases "k = i")
      case True
      then show ?thesis using assms(4) p zero by simp
    next
      case False
      then show ?thesis using assms(1) p other [OF False] by (simp add: call_inv_def pool_counts_def)
    qed
  qed
  moreover have "call_owned (s\<lparr>sd_pools := m\<rparr>) b c" if "call_owned s b c" "b \<longrightarrow> sc_pool c \<noteq> i" for b c
    using that other by (auto simp: call_owned_def)
  ultimately show ?thesis using assms(1-3) by (auto simp: call_inv_def other_pools_def unused_pool_def)
qed

lemma reserved_unused_pool:
  assumes "sched_inv cfg s F" "other_pools i (sd_pools s) m" "unused_pool i s F"
  shows "reserved_of (s\<lparr>sd_pools := m\<rparr>) k = reserved_of s k"
proof -
  note parts = sched_inv_parts [OF assms(1)]
  have wf: "bt_wf (sd_sessions s)" "bt_wf (sd_reusable_instances s)" using parts by (simp_all add: call_inv_def lease_inv_def)
  have "session_slot m k ss = session_slot (sd_pools s) k ss" if "(j, ss) \<in> set (sd_sessions s)" for j ss
    using that bt.get_iff [OF wf(1)] assms(3) other_pools_frame(2) [OF assms(2)] by (auto simp: unused_pool_def session_slot_def)
  moreover have "reusable_slot m k u = reusable_slot (sd_pools s) k u" if "(j, u) \<in> set (sd_reusable_instances s)" for j u
    using that bt.get_iff [OF wf(2)] assms(3) other_pools_frame(2) [OF assms(2)] by (auto simp: unused_pool_def reusable_slot_def)
  ultimately show ?thesis
    unfolding reserved_of_def by (intro arg_cong2 [where f = "(+)"] arg_cong [where f = sum_list] map_cong) auto
qed

lemma flight_ok_pools:
  assumes "flight_ok s f" "\<And>k ss. bt_get (sd_sessions s) k = Some ss \<Longrightarrow> finalizes m (ss_pool_id ss) = finalizes (sd_pools s) (ss_pool_id ss)"
    and "\<And>k u. bt_get (sd_reusable_instances s) k = Some u \<Longrightarrow> finalizes m (su_pool_id u) = finalizes (sd_pools s) (su_pool_id u)"
  shows "flight_ok (s\<lparr>sd_pools := m\<rparr>) f"
proof -
  note f = assms(1) [unfolded flight_ok_def]
  let ?t = "s\<lparr>sd_pools := m\<rparr>"
  show ?thesis
    unfolding flight_ok_def
  proof (intro conjI allI impI)
    fix k assume "sc_reusable_instance (fl_call f) = Some k"
    with f obtain u where u: "fl_dispatched f" "bt_get (sd_reusable_instances s) k = Some u" "su_active u = Some (sc_id (fl_call f))" "su_pool_id u = sc_pool (fl_call f)"
      "\<not> closing_request (sc_request (fl_call f)) \<and> finalizes (sd_pools s) (su_pool_id u) \<longrightarrow> su_finalization_reservation u" by blast
    show "fl_dispatched f" by (rule u(1))
    show "\<exists>u. bt_get (sd_reusable_instances ?t) k = Some u \<and> su_active u = Some (sc_id (fl_call f)) \<and> su_pool_id u = sc_pool (fl_call f) \<and>
        (\<not> closing_request (sc_request (fl_call f)) \<and> finalizes (sd_pools ?t) (su_pool_id u) \<longrightarrow> su_finalization_reservation u)"
      using u(2-5) assms(3) [OF u(2)] by (intro exI [of _ u]) simp
  next
    fix k ss assume h: "fl_dispatched f \<and> sc_session (fl_call f) = Some k \<and> bt_get (sd_sessions ?t) k = Some ss"
    then show "ss_active ss = Some (sc_id (fl_call f))" using f by simp
    assume "\<not> closing_request (sc_request (fl_call f)) \<and> finalizes (sd_pools ?t) (ss_pool_id ss)"
    then show "ss_finalization_reservation ss" using f h assms(2) [of k ss] by simp
  qed (use f in blast)+
qed

lemma lease_inv_unused_pool:
  assumes "lease_inv s F" "other_pools i (sd_pools s) m" "unused_pool i s F"
  shows "lease_inv (s\<lparr>sd_pools := m\<rparr>) F"
proof -
  note other = other_pools_frame(1) [OF assms(2)]
  have "session_ok m ss" if "bt_get (sd_sessions s) k = Some ss" for k ss
    using that assms(1,3) other [of "ss_pool_id ss"] by (simp add: lease_inv_def session_ok_def unused_pool_def)
  moreover have "reusable_ok m u" if "bt_get (sd_reusable_instances s) k = Some u" for k u
    using that assms(1,3) other [of "su_pool_id u"] by (simp add: lease_inv_def reusable_ok_def unused_pool_def)
  moreover have "flight_ok (s\<lparr>sd_pools := m\<rparr>) f" if "f \<in># F" for f
  proof -
    have "flight_ok s f" using assms(1) that by (simp add: lease_inv_def)
    moreover have "finalizes m (ss_pool_id ss) = finalizes (sd_pools s) (ss_pool_id ss)" if "bt_get (sd_sessions s) k = Some ss" for k ss
      using that assms(3) by (intro other) (simp add: unused_pool_def)
    moreover have "finalizes m (su_pool_id u) = finalizes (sd_pools s) (su_pool_id u)" if "bt_get (sd_reusable_instances s) k = Some u" for k u
      using that assms(3) by (intro other) (simp add: unused_pool_def)
    ultimately show ?thesis by (rule flight_ok_pools)
  qed
  ultimately show ?thesis using assms(1) by (simp add: lease_inv_def)
qed

lemma sched_inv_unused_pool:
  assumes inv: "sched_inv cfg s F" and other: "other_pools i (sd_pools s) m" and unused: "unused_pool i s F"
    and new: "\<And>p. bt_get m i = Some p \<Longrightarrow> sp_queued p = 0 \<and> sp_active p = 0 \<and> bt_get (sd_plugins s) (sp_plugin_id p) \<noteq> None \<and>
      (\<forall>c. sp_capacity_id p = Some c \<longrightarrow> (\<exists>kk. bt_get (sd_capacities s) c = Some kk \<and> sk_plugin_id kk = sp_plugin_id p))"
    and active: "\<And>Q. active_of m Q = active_of (sd_pools s) Q"
  shows "sched_inv cfg (s\<lparr>sd_pools := m\<rparr>) F"
proof -
  let ?t = "s\<lparr>sd_pools := m\<rparr>"
  note parts = sched_inv_parts [OF inv] and frame = other_pools_frame [OF other]
  have "pool_plugin m (sc_pool c) = pool_plugin (sd_pools s) (sc_pool c)" if "bt_get (sd_queues s) k = Some q" "c \<in> set q" for k q c
  proof (rule frame(2))
    have "bt_wf (sd_queues s)" using parts(1) by (simp add: queue_inv_def)
    then have "c \<in># queued_mset s" using that by (force simp: queued_calls_def bt_values_iff)
    then show "sc_pool c \<noteq> i" using unused by (simp add: unused_pool_def)
  qed
  then have "queue_inv ?t" using parts(1) by (auto simp: queue_inv_def plugin_queue_def)
  moreover have "call_inv ?t (queued_mset ?t) F" using call_inv_unused_pool [OF parts(2) other unused] new by simp
  moreover have "lease_inv ?t F" by (rule lease_inv_unused_pool [OF parts(3) other unused])
  moreover have "slot_inv ?t" using parts(5) reserved_unused_pool [OF inv other unused] by (simp add: slot_inv_def retained_of_def)
  moreover have "limit_inv cfg ?t"
  proof -
    have "sp_queued p \<le> pool_max_queued_calls (sp_policy p) \<and> sp_active p \<le> pool_max_running_calls (sp_policy p)" if "bt_get m k = Some p" for k p
      using that new frame(3) [of k] parts(6) by (cases "k = i") (auto simp: limit_inv_def)
    then show ?thesis using parts(6) by (simp add: limit_inv_def plugin_active_eq capacity_active_eq active)
  qed
  moreover have "owner_inv ?t"
  proof -
    have "bt_get (sd_plugins s) (sp_plugin_id p) \<noteq> None \<and> (\<forall>c. sp_capacity_id p = Some c \<longrightarrow> (\<exists>kk. bt_get (sd_capacities s) c = Some kk \<and> sk_plugin_id kk = sp_plugin_id p))"
      if "bt_get m k = Some p" for k p
      using that new frame(3) [of k] parts(4) by (cases "k = i") (auto simp: owner_inv_def)
    moreover have "bt_get m (ss_pool_id ss) \<noteq> None" if "bt_get (sd_sessions s) k = Some ss" for k ss
      using that unused frame(3) [of "ss_pool_id ss"] parts(4) by (simp add: owner_inv_def unused_pool_def)
    moreover have "bt_get m (su_pool_id u) \<noteq> None" if "bt_get (sd_reusable_instances s) k = Some u" for k u
      using that unused frame(3) [of "su_pool_id u"] parts(4) by (simp add: owner_inv_def unused_pool_def)
    ultimately show ?thesis using parts(4) unfolding owner_inv_def by simp
  qed
  ultimately show ?thesis by (intro sched_invI)
qed

lemma fresh_pool_unused:
  assumes "sched_inv cfg s F" "bt_get (sd_pools s) i = None"
  shows "unused_pool i s F"
  using sched_inv_parts(2,4) [OF assms(1)] assms(2) unfolding unused_pool_def call_inv_def call_owned_def owner_inv_def by metis

lemma sched_inv_add_pool:
  assumes "sched_inv cfg s F" "bt_get (sd_pools s) i = None" "sp_queued p = 0" "sp_active p = 0" "bt_get (sd_plugins s) (sp_plugin_id p) \<noteq> None"
    and "\<And>c. sp_capacity_id p = Some c \<Longrightarrow> \<exists>kk. bt_get (sd_capacities s) c = Some kk \<and> sk_plugin_id kk = sp_plugin_id p"
  shows "sched_inv cfg (s\<lparr>sd_pools := bt_insert i p (sd_pools s)\<rparr>) F"
proof (rule sched_inv_unused_pool [OF assms(1) _ fresh_pool_unused [OF assms(1,2)]])
  have wf: "bt_wf (sd_pools s)" using sched_inv_parts(2) [OF assms(1)] by (simp add: call_inv_def)
  then show "other_pools i (sd_pools s) (bt_insert i p (sd_pools s))" by (auto simp: other_pools_def)
  show "active_of (bt_insert i p (sd_pools s)) Q = active_of (sd_pools s) Q" for Q
    unfolding active_of_def using bt.sum_put_new [OF wf assms(2), of "\<lambda>e. if Q (snd e) then sp_active (snd e) else 0" p] assms(4) by simp
qed (use assms(3-6) in auto)

lemma drained_pool_unused:
  assumes "sched_inv cfg s F" "bt_get (sd_pools s) i = Some p" "sp_queued p = 0" "sp_active p = 0"
    and "\<And>k ss. bt_get (sd_sessions s) k = Some ss \<Longrightarrow> ss_pool_id ss \<noteq> i" "\<And>k u. bt_get (sd_reusable_instances s) k = Some u \<Longrightarrow> su_pool_id u \<noteq> i"
  shows "unused_pool i s F"
proof -
  have "cnt (\<lambda>c. sc_pool c = i) (queued_mset s) = 0" "cnt (\<lambda>f. fl_dispatched f \<and> sc_pool (fl_call f) = i) F = 0"
    using sched_inv_parts(2) [OF assms(1)] assms(2-4) by (auto simp: call_inv_def pool_counts_def)
  then show ?thesis using assms(5,6) unfolding unused_pool_def cnt_zero_iff by blast
qed

lemma sched_inv_drop_pool:
  assumes "sched_inv cfg s F" "bt_get (sd_pools s) i = Some p" "sp_queued p = 0" "sp_active p = 0"
    and "\<And>k ss. bt_get (sd_sessions s) k = Some ss \<Longrightarrow> ss_pool_id ss \<noteq> i" "\<And>k u. bt_get (sd_reusable_instances s) k = Some u \<Longrightarrow> su_pool_id u \<noteq> i"
  shows "sched_inv cfg (s\<lparr>sd_pools := bt_remove i (sd_pools s)\<rparr>) F"
proof (rule sched_inv_unused_pool [OF assms(1) _ drained_pool_unused [OF assms]])
  have wf: "bt_wf (sd_pools s)" using sched_inv_parts(2) [OF assms(1)] by (simp add: call_inv_def)
  then show "other_pools i (sd_pools s) (bt_remove i (sd_pools s))" by (auto simp: other_pools_def bt_get_remove)
  show "active_of (bt_remove i (sd_pools s)) Q = active_of (sd_pools s) Q" for Q
    unfolding active_of_def using bt.sum_del [OF wf, of "\<lambda>e. if Q (snd e) then sp_active (snd e) else 0" i] assms(2,4) by (auto split: if_splits)
  show "sp_queued q = 0 \<and> sp_active q = 0 \<and> bt_get (sd_plugins s) (sp_plugin_id q) \<noteq> None \<and>
      (\<forall>c. sp_capacity_id q = Some c \<longrightarrow> (\<exists>kk. bt_get (sd_capacities s) c = Some kk \<and> sk_plugin_id kk = sp_plugin_id q))"
    if "bt_get (bt_remove i (sd_pools s)) i = Some q" for q
    using that wf by (simp add: bt_get_remove)
qed

section \<open>Sessions\<close>

text \<open>A session without calls may appear and disappear, with the slot it reserves.\<close>

definition add_session :: "string \<Rightarrow> string \<Rightarrow> scheduled_session \<Rightarrow> scheduler_state \<Rightarrow> scheduler_state" where
  "add_session plugin k ss s = s\<lparr>
     sd_plugins := (if ss_finalization_reservation ss then bt_update (\<lambda>g. g\<lparr>sg_reserved_operations := sg_reserved_operations g + 1\<rparr>) plugin (sd_plugins s) else sd_plugins s),
     sd_sessions := bt_insert k ss (sd_sessions s)\<rparr>"

definition drop_session :: "string \<Rightarrow> string \<Rightarrow> scheduled_session \<Rightarrow> scheduler_state \<Rightarrow> scheduler_state" where
  "drop_session plugin k ss s = s\<lparr>
     sd_plugins := (if ss_finalization_reservation ss then bt_update (\<lambda>g. g\<lparr>sg_reserved_operations := sg_reserved_operations g - 1\<rparr>) plugin (sd_plugins s) else sd_plugins s),
     sd_sessions := bt_remove k (sd_sessions s)\<rparr>"

definition no_calls :: "string \<Rightarrow> scheduled_call multiset \<Rightarrow> flight multiset \<Rightarrow> bool" where
  "no_calls k Q F \<longleftrightarrow> (\<forall>c \<in># Q. sc_session c \<noteq> Some k) \<and> (\<forall>f \<in># F. sc_session (fl_call f) \<noteq> Some k)"

lemma fresh_session_no_calls: "call_inv s Q F \<Longrightarrow> bt_get (sd_sessions s) k = None \<Longrightarrow> no_calls k Q F"
  unfolding call_inv_def call_owned_def no_calls_def by (metis option.distinct(1))

lemma idle_session_no_calls: "call_inv s Q F \<Longrightarrow> bt_get (sd_sessions s) k = Some ss \<Longrightarrow> ss_unfinished ss = 0 \<Longrightarrow> no_calls k Q F"
  using session_without_calls [of s Q F k ss] by (auto simp: no_calls_def)

lemma call_inv_change_session:
  assumes "call_inv s Q F" "no_calls k Q F" "bt_wf m" "\<And>j. j \<noteq> k \<Longrightarrow> bt_get m j = bt_get (sd_sessions s) j"
    and "\<And>ss. bt_get m k = Some ss \<Longrightarrow> ss_queued ss = 0 \<and> ss_unfinished ss = 0"
  shows "call_inv (s\<lparr>sd_sessions := m\<rparr>) Q F"
proof -
  have zero: "cnt (\<lambda>c. sc_session c = Some k) Q = 0" "cnt (\<lambda>f. sc_session (fl_call f) = Some k) F = 0"
    using assms(2) unfolding cnt_zero_iff no_calls_def by blast+
  have "session_counts m Q F"
    unfolding session_counts_def
  proof (intro allI impI)
    fix j ss assume ss: "bt_get m j = Some ss"
    show "ss_queued ss = cnt (\<lambda>c. sc_session c = Some j) Q \<and> ss_unfinished ss = cnt (\<lambda>c. sc_session c = Some j) Q + cnt (\<lambda>f. sc_session (fl_call f) = Some j) F"
      using ss assms(1,4,5) zero by (cases "j = k") (auto simp: call_inv_def session_counts_def)
  qed
  moreover have "call_owned (s\<lparr>sd_sessions := m\<rparr>) b c" if "call_owned s b c" "sc_session c \<noteq> Some k" for b c
    using that assms(4) by (auto simp: call_owned_def)
  ultimately show ?thesis using assms(1,2,3) by (auto simp: call_inv_def no_calls_def)
qed

lemma lease_inv_change_session:
  assumes "lease_inv s F" "no_calls k Q F" "\<And>j. j \<noteq> k \<Longrightarrow> bt_get m j = bt_get (sd_sessions s) j" "\<And>ss. bt_get m k = Some ss \<Longrightarrow> session_ok (sd_pools s) ss"
  shows "lease_inv (s\<lparr>sd_sessions := m\<rparr>) F"
proof -
  have "flight_ok (s\<lparr>sd_sessions := m\<rparr>) f" if "f \<in># F" for f
  proof -
    have ok: "flight_ok s f" "sc_session (fl_call f) \<noteq> Some k" using assms(1,2) that by (simp_all add: lease_inv_def no_calls_def)
    show ?thesis
    proof (cases "sc_session (fl_call f)")
      case None
      then show ?thesis using ok(1) by (simp add: flight_ok_def)
    next
      case (Some j)
      then have "bt_get m j = bt_get (sd_sessions s) j" using ok(2) by (intro assms(3)) simp
      then show ?thesis using ok(1) Some by (simp add: flight_ok_def)
    qed
  qed
  moreover have "session_ok (sd_pools s) ss" if "bt_get m j = Some ss" for j ss
    using that assms(1,3,4) by (cases "j = k") (auto simp: lease_inv_def)
  ultimately show ?thesis using assms(1) by (simp add: lease_inv_def)
qed

text \<open>What a change of one session and of the reserved slots of its plugin leaves to show.\<close>

lemma sched_inv_session_slot:
  assumes "sched_inv cfg s F" "call_inv (s\<lparr>sd_sessions := m\<rparr>) (queued_mset s) F" "lease_inv (s\<lparr>sd_sessions := m\<rparr>) F"
    and "\<And>j ss. bt_get m j = Some ss \<Longrightarrow> bt_get (sd_pools s) (ss_pool_id ss) \<noteq> None"
    and "\<And>k g. bt_get (sd_plugins s) k = Some g \<Longrightarrow> reserved_of s k \<le> sg_reserved_operations g \<Longrightarrow>
      reserved_of (s\<lparr>sd_sessions := m\<rparr>) k \<le> (if k = plugin then h g else sg_reserved_operations g) \<and>
      (k = plugin \<longrightarrow> h g \<le> sg_reserved_operations g \<or> sg_operations g + h g \<le> plg_max_operations (sg_config g))"
  shows "sched_inv cfg (s\<lparr>sd_plugins := bt_update (\<lambda>g. g\<lparr>sg_reserved_operations := h g\<rparr>) plugin (sd_plugins s), sd_sessions := m\<rparr>) F"
proof -
  let ?t = "s\<lparr>sd_plugins := bt_update (\<lambda>g. g\<lparr>sg_reserved_operations := h g\<rparr>) plugin (sd_plugins s), sd_sessions := m\<rparr>"
  note parts = sched_inv_parts [OF assms(1)]
  have wf: "bt_wf (sd_plugins s)" using parts(1) by (simp add: queue_inv_def)
  have r: "reserved_of ?t = reserved_of (s\<lparr>sd_sessions := m\<rparr>)" by (simp add: fun_eq_iff reserved_of_def)
  have "slot_inv ?t"
  proof (rule slot_inv_change [OF parts(5)])
    show "same_on sg_config (sd_plugins s) (sd_plugins ?t)" using wf by (auto intro!: same_on_update)
    show "bt_get (sd_operation_plugins ?t) j = Some k \<Longrightarrow> bt_get (sd_plugins ?t) k \<noteq> None" for j k
      using parts(5) by (auto simp: slot_inv_def)
    show "sg_operations g' = retained_of ?t k \<and> reserved_of ?t k \<le> sg_reserved_operations g' \<and> retained_of ?t k + sg_reserved_operations g' \<le> plg_max_operations (sg_config g)"
      if "bt_get (sd_plugins s) k = Some g" "bt_get (sd_plugins ?t) k = Some g'" "sg_operations g = retained_of s k" "reserved_of s k \<le> sg_reserved_operations g"
        "retained_of s k + sg_reserved_operations g \<le> plg_max_operations (sg_config g)" for k g g'
      using that assms(5) [OF that(1,4)] unfolding r by (auto simp: retained_of_def split: if_splits)
  qed (use parts(5) in \<open>simp add: slot_inv_def\<close>)
  moreover have "queue_inv ?t" "limit_inv cfg ?t"
    using queue_inv_plugin [OF _ parts(1), of "\<lambda>g. g\<lparr>sg_reserved_operations := h g\<rparr>" plugin]
      limit_inv_plugin [OF _ parts(6), of "\<lambda>g. g\<lparr>sg_reserved_operations := h g\<rparr>" plugin]
    by (simp_all add: queue_inv_def plugin_queue_def limit_inv_def plugin_active_eq capacity_active_eq)
  moreover have "owner_inv ?t" using parts(4) assms(4) by (auto simp: owner_inv_def)
  moreover have "?t = (s\<lparr>sd_sessions := m\<rparr>)\<lparr>sd_plugins := bt_update (\<lambda>g. g\<lparr>sg_reserved_operations := h g\<rparr>) plugin (sd_plugins s)\<rparr>" by simp
  then have "call_inv ?t (queued_mset ?t) F" "lease_inv ?t F" using assms(2,3) by (simp_all only:) simp_all
  ultimately show ?thesis by (intro sched_invI)
qed

lemma bt_insert_same: "bt_wf m \<Longrightarrow> bt_get m k = Some v \<Longrightarrow> bt_insert k v m = m"
proof (induction m)
  case (Cons e m)
  have "k \<notin> fst ` set m" if "k < fst e" using that Cons.prems(1) by (auto simp: bt_wf_Cons)
  then show ?case using Cons by (cases e) (auto simp: bt_wf_Cons bt_get_notin split: if_splits)
qed simp

lemma sched_inv_add_session:
  assumes "sched_inv cfg s F" "bt_get (sd_sessions s) k = None" "session_ok (sd_pools s) ss" "ss_queued ss = 0" "ss_unfinished ss = 0"
    and "pool_plugin (sd_pools s) (ss_pool_id ss) = Some plugin" "bt_get (sd_plugins s) plugin = Some g"
    and "ss_finalization_reservation ss \<longrightarrow> sg_operations g + sg_reserved_operations g < plg_max_operations (sg_config g)"
  shows "sched_inv cfg (add_session plugin k ss s) F"
proof -
  note parts = sched_inv_parts [OF assms(1)]
  let ?m = "bt_insert k ss (sd_sessions s)" and ?h = "\<lambda>g. sg_reserved_operations g + of_bool (ss_finalization_reservation ss)"
  have wf: "bt_wf (sd_sessions s)" "bt_wf (sd_plugins s)" using parts by (simp_all add: call_inv_def queue_inv_def)
  note unused = fresh_session_no_calls [OF parts(2) assms(2)]
  have r: "reserved_of (s\<lparr>sd_sessions := ?m\<rparr>) j = reserved_of s j + of_bool (ss_finalization_reservation ss \<and> j = plugin)" for j
    using bt.sum_put_new [OF wf(1) assms(2), of "\<lambda>e. session_slot (sd_pools s) j (snd e)" ss] assms(6)
    by (auto simp: reserved_of_def session_slot_def)
  have "sched_inv cfg (s\<lparr>sd_plugins := bt_update (\<lambda>g. g\<lparr>sg_reserved_operations := ?h g\<rparr>) plugin (sd_plugins s), sd_sessions := ?m\<rparr>) F"
  proof (rule sched_inv_session_slot [OF assms(1)])
    show "call_inv (s\<lparr>sd_sessions := ?m\<rparr>) (queued_mset s) F"
      by (rule call_inv_change_session [OF parts(2) unused]) (use wf assms(4,5) in auto)
    show "lease_inv (s\<lparr>sd_sessions := ?m\<rparr>) F"
      by (rule lease_inv_change_session [OF parts(3) unused]) (use assms(3) in auto)
    show "bt_get (sd_pools s) (ss_pool_id x) \<noteq> None" if "bt_get ?m j = Some x" for j x
      using that parts(4) assms(6) by (auto simp: owner_inv_def pool_plugin_def split: if_splits)
  qed (use r assms(7,8) in auto)
  moreover have "bt_update (\<lambda>g. g) plugin (sd_plugins s) = sd_plugins s"
    using wf(2) assms(7) by (simp add: bt_update_def bt_insert_same)
  ultimately show ?thesis by (cases "ss_finalization_reservation ss") (simp_all add: add_session_def)
qed

lemma sched_inv_drop_session:
  assumes "sched_inv cfg s F" "bt_get (sd_sessions s) k = Some ss" "ss_unfinished ss = 0" "pool_plugin (sd_pools s) (ss_pool_id ss) = Some plugin"
  shows "sched_inv cfg (drop_session plugin k ss s) F"
proof -
  note parts = sched_inv_parts [OF assms(1)]
  let ?m = "bt_remove k (sd_sessions s)" and ?h = "\<lambda>g. sg_reserved_operations g - of_bool (ss_finalization_reservation ss)"
  have wf: "bt_wf (sd_sessions s)" "bt_wf (sd_plugins s)" using parts by (simp_all add: call_inv_def queue_inv_def)
  obtain p where p: "bt_get (sd_pools s) (ss_pool_id ss) = Some p" "sp_plugin_id p = plugin" using assms(4) by (auto simp: pool_plugin_def)
  obtain g where g: "bt_get (sd_plugins s) plugin = Some g" using pool_owner [OF assms(1) p(1)] p(2) by metis
  note unused = idle_session_no_calls [OF parts(2) assms(2,3)]
  have r: "reserved_of (s\<lparr>sd_sessions := ?m\<rparr>) j + of_bool (ss_finalization_reservation ss \<and> j = plugin) = reserved_of s j" for j
    using bt.sum_del_old [OF wf(1) assms(2), of "\<lambda>e. session_slot (sd_pools s) j (snd e)"] assms(4)
    by (auto simp: reserved_of_def session_slot_def)
  have "sched_inv cfg (s\<lparr>sd_plugins := bt_update (\<lambda>g. g\<lparr>sg_reserved_operations := ?h g\<rparr>) plugin (sd_plugins s), sd_sessions := ?m\<rparr>) F"
  proof (rule sched_inv_session_slot [OF assms(1)])
    show "call_inv (s\<lparr>sd_sessions := ?m\<rparr>) (queued_mset s) F"
      by (rule call_inv_change_session [OF parts(2) unused]) (use wf in \<open>auto simp: bt_get_remove\<close>)
    show "lease_inv (s\<lparr>sd_sessions := ?m\<rparr>) F"
      by (rule lease_inv_change_session [OF parts(3) unused]) (use wf in \<open>auto simp: bt_get_remove\<close>)
    show "bt_get (sd_pools s) (ss_pool_id x) \<noteq> None" if "bt_get ?m j = Some x" for j x
      using that parts(4) wf by (auto simp: owner_inv_def bt_get_remove split: if_splits)
    show "reserved_of (s\<lparr>sd_sessions := ?m\<rparr>) j \<le> (if j = plugin then ?h x else sg_reserved_operations x) \<and>
        (j = plugin \<longrightarrow> ?h x \<le> sg_reserved_operations x \<or> sg_operations x + ?h x \<le> plg_max_operations (sg_config x))"
      if "reserved_of s j \<le> sg_reserved_operations x" for j x
      using that r [of j] by (cases "j = plugin"; cases "ss_finalization_reservation ss") simp_all
  qed
  moreover have "bt_update (\<lambda>g. g) plugin (sd_plugins s) = sd_plugins s"
    using wf(2) g by (simp add: bt_update_def bt_insert_same)
  ultimately show ?thesis by (cases "ss_finalization_reservation ss") (simp_all add: drop_session_def)
qed

section \<open>Operations\<close>

definition drop_operation :: "string \<Rightarrow> string \<Rightarrow> scheduler_state \<Rightarrow> scheduler_state" where
  "drop_operation ident plugin s = s\<lparr>sd_operation_plugins := bt_remove ident (sd_operation_plugins s),
     sd_plugins := bt_update (\<lambda>g. g\<lparr>sg_operations := sg_operations g - 1\<rparr>) plugin (sd_plugins s)\<rparr>"

lemma sched_inv_drop_operation:
  assumes "sched_inv cfg s F" "bt_get (sd_operation_plugins s) ident = Some plugin"
  shows "sched_inv cfg (drop_operation ident plugin s) F"
proof -
  let ?t = "drop_operation ident plugin s"
  note parts = sched_inv_parts [OF assms(1)]
  have wf: "bt_wf (sd_operation_plugins s)" "bt_wf (sd_plugins s)" using parts by (simp_all add: slot_inv_def queue_inv_def)
  have r: "retained_of ?t k + of_bool (k = plugin) = retained_of s k" for k
    using bt.sum_del_old [OF wf(1) assms(2), of "\<lambda>e. of_bool (snd e = k)"] by (auto simp: retained_of_def drop_operation_def)
  have e: "reserved_of ?t = reserved_of s" by (simp add: fun_eq_iff reserved_of_def drop_operation_def)
  have "slot_inv ?t"
  proof (rule slot_inv_change [OF parts(5)])
    show "same_on sg_config (sd_plugins s) (sd_plugins ?t)" using wf by (auto simp: drop_operation_def intro!: same_on_update)
    show "bt_get (sd_operation_plugins ?t) j = Some k \<Longrightarrow> bt_get (sd_plugins ?t) k \<noteq> None" for j k
      using parts(5) wf by (auto simp: slot_inv_def drop_operation_def bt_get_remove split: if_splits)
    show "sg_operations g' = retained_of ?t k \<and> reserved_of ?t k \<le> sg_reserved_operations g' \<and> retained_of ?t k + sg_reserved_operations g' \<le> plg_max_operations (sg_config g)"
      if "bt_get (sd_plugins s) k = Some g" "bt_get (sd_plugins ?t) k = Some g'" "sg_operations g = retained_of s k" "reserved_of s k \<le> sg_reserved_operations g"
        "retained_of s k + sg_reserved_operations g \<le> plg_max_operations (sg_config g)" for k g g'
      using that r [of k] unfolding e by (auto simp: drop_operation_def split: if_splits)
  qed (use wf in \<open>simp add: drop_operation_def\<close>)
  moreover have "queue_inv ?t" "limit_inv cfg ?t"
    using queue_inv_plugin [OF _ parts(1), of "\<lambda>g. g\<lparr>sg_operations := sg_operations g - 1\<rparr>" plugin]
      limit_inv_plugin [OF _ parts(6), of "\<lambda>g. g\<lparr>sg_operations := sg_operations g - 1\<rparr>" plugin]
    by (simp_all add: queue_inv_def plugin_queue_def limit_inv_def plugin_active_eq capacity_active_eq drop_operation_def)
  moreover have "owner_inv ?t" using parts(4) by (auto simp: owner_inv_def drop_operation_def)
  moreover have "call_inv ?t (queued_mset ?t) F = call_inv s (queued_mset s) F" "lease_inv ?t F = lease_inv s F"
    by (simp_all add: call_inv_def call_owned_def lease_inv_def flight_ok_def drop_operation_def)
  ultimately show ?thesis using parts(2,3) by (intro sched_invI) simp_all
qed

end
