(* ===== verification/Scheduler_Calls.thy ===== *)
theory Scheduler_Calls
  imports Scheduler_Owners
begin

text \<open>
  Registration, closing and forgetting of plugins, capacities, pools, sessions and operations keep the
  invariant and never panic, and submission reaches the queues only for owners that are open.
\<close>

section \<open>Registration and closing of plugins and capacities\<close>

lemma wp_from: "\<not> is_panic r \<Longrightarrow> (\<And>x. r = Ok x \<Longrightarrow> Q x s) \<Longrightarrow> E s \<Longrightarrow> wp (from_result r) Q E s"
  by (cases r) (simp_all add: wp_simps)

lemma case_result: "\<not> is_panic r \<Longrightarrow> (\<And>x. r = Ok x \<Longrightarrow> A x) \<Longrightarrow> B \<Longrightarrow> (case r of Ok x \<Rightarrow> A x | Err e \<Rightarrow> B | Panic p \<Rightarrow> False)"
  by (cases r) simp_all

lemma wp_try: "\<not> is_panic (f s) \<Longrightarrow> (\<And>x. f s = Ok x \<Longrightarrow> Q x s) \<Longrightarrow> E s \<Longrightarrow> wp (try_read f) Q E s"
  by (cases "f s") (simp_all add: wp_simps)

lemma plugin_config_not_panic [simp]: "\<not> is_panic (plugin_config_validate c p)" "\<not> is_panic (plugin_validate_pool c q)"
  "\<not> is_panic (embedded_capacity_validate k p c)"
proof -
  have "\<not> is_panic (plugin_limits_check ls)" for ls by (induction ls rule: plugin_limits_check.induct) auto
  then show 1: "\<not> is_panic (plugin_config_validate c p)" by (simp add: plugin_config_validate_def)
  show "\<not> is_panic (plugin_validate_pool c q)" by (simp add: plugin_validate_pool_def)
  show "\<not> is_panic (embedded_capacity_validate k p c)" using 1 by (simp add: embedded_capacity_validate_def)
qed

lemma center_inv_move:
  assumes "center_inv cfg R P s" "\<And>F. sched_inv cfg s F \<Longrightarrow> sched_inv cfg t F" "sd_cleaning t = sd_cleaning s" "sd_finalizing t = sd_finalizing s"
    "sd_cleaning_count t = sd_cleaning_count s"
  shows "center_inv cfg R P t"
  by (rule center_inv_keep [OF assms(1) assms(2) [OF center_invD [OF assms(1)]] assms(3-5)])

theorem wp_register_plugin:
  assumes "center_inv cfg R P s"
  shows "wp (register_plugin cfg' json k config) (\<lambda>_. center_inv cfg R P) (\<lambda>t. t = s) s"
proof -
  have "center_inv cfg R P (s\<lparr>sd_plugins := bt_insert k (new_plugin config) (sd_plugins s)\<rparr>)" if "bt_get (sd_plugins s) k = None"
    using that by (intro center_inv_move [OF assms] sched_inv_add_plugin) simp_all
  then show ?thesis
    unfolding register_plugin_def wp_bind
    by (intro wp_from) (auto simp: wp_effects new_plugin_def intro!: wp_from)
qed

lemma close_members_inv: "center_inv cfg R P s \<Longrightarrow> center_inv cfg R P (close_members C s)"
proof (rule center_inv_move)
  show "sched_inv cfg (close_members C s) F" if "sched_inv cfg s F" for F
  proof -
    have "bt_wf (sd_pools s)" using sched_inv_parts(2) [OF that] by (simp add: call_inv_def)
    then have "same_on pool_core (sd_pools s) (map (\<lambda>(ident, p). (ident, if C p then p\<lparr>sp_closed := True\<rparr> else p)) (sd_pools s))"
      by (rule same_on_map) (simp add: pool_core_def)
    then show ?thesis unfolding close_members_def by (rule sched_inv_pools [OF that])
  qed
qed (simp_all add: close_members_def)

lemma first_failure_safe: "list_all (\<lambda>r. \<not> is_panic r) rs \<Longrightarrow> \<not> is_panic (first_failure rs)"
  by (induction rs rule: first_failure.induct) (auto split: outcome.splits)

theorem wp_close_plugin:
  assumes "center_inv cfg R P s" "\<And>i. \<not> is_panic (close i)"
  shows "wp (close_plugin close k) (\<lambda>_. center_inv cfg R P) (center_inv cfg R P) s"
proof (cases "bt_get (sd_plugins s) k")
  case (Some g)
  have "center_inv cfg R P (s\<lparr>sd_plugins := bt_update (\<lambda>g. g\<lparr>sg_closing := True\<rparr>) k (sd_plugins s)\<rparr>)"
    by (intro center_inv_move [OF assms(1)] sched_inv_close_plugin) simp_all
  then have "center_inv cfg R P (close_members C (s\<lparr>sd_plugins := bt_insert k (g\<lparr>sg_closing := True\<rparr>) (sd_plugins s)\<rparr>))" for C
    using Some by (intro close_members_inv) (simp add: bt_update_def)
  moreover have "\<not> is_panic (first_failure (map close xs))" for xs using assms(2) by (intro first_failure_safe) (simp add: list_all_iff)
  ultimately show ?thesis using Some by (auto simp: close_plugin_def wp_simps split: outcome.splits) (metis is_panic.simps(3))
qed (use assms in \<open>simp add: close_plugin_def wp_simps\<close>)

theorem wp_forget_plugin:
  assumes "center_inv cfg R P s"
  shows "wp (forget_plugin k) (\<lambda>_. center_inv cfg R P) (\<lambda>t. t = s) s"
proof (cases "bt_get (sd_plugins s) k")
  case (Some g)
  show ?thesis
  proof (cases "sg_operations g = 0 \<and> list_all (\<lambda>p. sp_plugin_id p \<noteq> k) (bt_values (sd_pools s)) \<and> list_all (\<lambda>c. sk_plugin_id c \<noteq> k) (bt_values (sd_capacities s))")
    case True
    have "center_inv cfg R P (s\<lparr>sd_plugins := bt_remove k (sd_plugins s)\<rparr>)"
      using True Some by (intro center_inv_move [OF assms] sched_inv_drop_plugin [where g = g]) (auto simp: list_all_iff dest: bt_get_value)
    then show ?thesis using Some by (simp add: forget_plugin_def wp_simps)
  qed (use Some in \<open>auto simp: forget_plugin_def wp_simps\<close>)
qed (simp add: forget_plugin_def wp_simps)

text \<open>The identities the scheduler has issued: none is above its sequence.\<close>

definition issued_ids :: "identity_kind \<Rightarrow> string \<Rightarrow> scheduler_state \<Rightarrow> string set" where
  "issued_ids kind runtime s = {identity_render kind runtime n | n. n \<le> sd_sequence s}"

definition ids_inv :: "string \<Rightarrow> scheduler_state \<Rightarrow> bool" where
  "ids_inv runtime s \<longleftrightarrow>
     dom (bt_get (sd_pools s)) \<subseteq> issued_ids PoolIdentity runtime s \<and> dom (bt_get (sd_capacities s)) \<subseteq> issued_ids CapacityIdentity runtime s \<and>
     dom (bt_get (sd_sessions s)) \<subseteq> issued_ids SessionIdentity runtime s"

lemma next_sequence_facts:
  shows "\<not> is_panic (next_sequence message s)" "next_sequence message s = Ok n \<Longrightarrow> n = sd_sequence s + 1"
  by (auto simp: next_sequence_def checked_add_def split: if_splits)

lemma next_unissued: "identity_render kind runtime (sd_sequence s + 1) \<notin> issued_ids kind runtime s"
  by (auto simp: issued_ids_def)

lemma ids_fresh:
  assumes "ids_inv runtime s" "next_sequence message s = Ok n"
  shows "bt_get (sd_pools s) (identity_render PoolIdentity runtime n) = None" "bt_get (sd_capacities s) (identity_render CapacityIdentity runtime n) = None"
    "bt_get (sd_sessions s) (identity_render SessionIdentity runtime n) = None"
  using assms(1) next_unissued next_sequence_facts(2) [OF assms(2)] by (force simp: ids_inv_def dom_def)+

lemma capacity_check_safe: "env_safe ev \<Longrightarrow> \<not> is_panic (sched_register_capacity_check ev cfg plugin config s)"
  using plugin_commitment_safe [of ev s plugin None None] next_sequence_facts(1) [of _ s]
  by (auto simp: sched_register_capacity_check_def plugin_commitment_def split: option.splits)

theorem wp_register_capacity:
  assumes "center_inv cfg R P s" "ids_inv runtime s" "env_safe ev" "\<And>i r. \<not> is_panic (physical i r)"
  shows "wp (sched_register_capacity ev cfg' runtime physical plugin config) (\<lambda>_. center_inv cfg R P) (center_inv cfg R P) s"
proof -
  have "center_inv cfg R P (s\<lparr>sd_sequence := n, sd_capacities := bt_insert (identity_render CapacityIdentity runtime n) c (sd_capacities s)\<rparr>)"
    if ok: "sched_register_capacity_check ev cfg' plugin config s = Ok n" and c: "sk_plugin_id c = plugin" for n c
  proof -
    have n: "next_sequence ''capacity identity exhausted'' s = Ok n" and g: "bt_get (sd_plugins s) plugin \<noteq> None"
      using ok by (auto simp: sched_register_capacity_check_def split: if_splits)
    show ?thesis
      using ids_fresh(2) [OF assms(2) n] g c sched_inv_add_capacity [of cfg "s\<lparr>sd_sequence := n\<rparr>" _ "identity_render CapacityIdentity runtime n" c]
      by (intro center_inv_move [OF assms(1)]) simp_all
  qed
  then show ?thesis
    unfolding sched_register_capacity_def wp_bind Let_def
    using assms(1,4) capacity_check_safe [OF assms(3)]
    by (intro wp_try) (auto simp: wp_simps intro!: case_result)
qed

theorem wp_close_capacity:
  assumes "center_inv cfg R P s" "\<And>i. \<not> is_panic (close i)"
  shows "wp (close_capacity close k) (\<lambda>_. center_inv cfg R P) (center_inv cfg R P) s"
proof (cases "bt_get (sd_capacities s) k")
  case (Some c)
  have "center_inv cfg R P (s\<lparr>sd_capacities := bt_insert k (c\<lparr>sk_closing := True\<rparr>) (sd_capacities s)\<rparr>)"
  proof (intro center_inv_move [OF assms(1)])
    show "sched_inv cfg (s\<lparr>sd_capacities := bt_insert k (c\<lparr>sk_closing := True\<rparr>) (sd_capacities s)\<rparr>) F" if "sched_inv cfg s F" for F
      using sched_inv_parts(6) [OF that] Some by (intro sched_inv_change_capacity [OF that Some]) (auto simp: limit_inv_def)
  qed simp_all
  then have "center_inv cfg R P (close_members C (s\<lparr>sd_capacities := bt_insert k (c\<lparr>sk_closing := True\<rparr>) (sd_capacities s)\<rparr>))" for C
    by (rule close_members_inv)
  moreover have "\<not> is_panic (first_failure (map close xs))" for xs using assms(2) by (intro first_failure_safe) (simp add: list_all_iff)
  ultimately show ?thesis using Some by (auto simp: close_capacity_def wp_simps split: outcome.splits) (metis is_panic.simps(3))
qed (use assms in \<open>simp add: close_capacity_def wp_simps\<close>)

lemma capacity_owner_closing_safe:
  assumes "sched_inv cfg s F" "bt_get (sd_capacities s) k = Some c"
  shows "\<exists>b. capacity_owner_closing s c = Ok b"
proof -
  obtain g where "bt_get (sd_plugins s) (sk_plugin_id c) = Some g" using sched_inv_parts(4) [OF assms(1)] assms(2) by (fastforce simp: owner_inv_def)
  then show ?thesis by (auto simp: capacity_owner_closing_def)
qed

theorem wp_forget_capacity:
  assumes "center_inv cfg R P s" "\<And>i. \<not> is_panic (unregister i)"
  shows "wp (forget_capacity unregister k) (\<lambda>_. center_inv cfg R P) (\<lambda>t. t = s) s"
proof (cases "bt_get (sd_capacities s) k")
  case (Some c)
  obtain b where b: "capacity_owner_closing s c = Ok b" using capacity_owner_closing_safe [OF center_invD [OF assms(1)] Some] by blast
  have "center_inv cfg R P (s\<lparr>sd_capacities := bt_remove k (sd_capacities s)\<rparr>)" if "list_all (\<lambda>p. sp_capacity_id p \<noteq> Some k) (bt_values (sd_pools s))"
    using that by (intro center_inv_move [OF assms(1)] sched_inv_drop_capacity) (auto simp: list_all_iff dest: bt_get_value)
  then show ?thesis using Some b assms(2) [of k] by (auto simp: forget_capacity_def wp_simps split: outcome.splits)
qed (simp add: forget_capacity_def wp_simps)

text \<open>A revision keeps the running calls within the new limit; instances of a smaller capacity retire.\<close>

lemma retire_members_inv: "center_inv cfg R P s \<Longrightarrow> center_inv cfg R P (retire_members k s)"
proof (rule center_inv_move)
  show "sched_inv cfg (retire_members k s) F" if "sched_inv cfg s F" for F
    unfolding retire_members_def
  proof (rule sched_inv_reusables [OF that])
    note parts = sched_inv_parts [OF that]
    let ?f = "\<lambda>u. if su_pool_id u \<in> set (members (\<lambda>p. sp_capacity_id p = Some k) s) then u\<lparr>su_closing := True\<rparr> else u"
    show "same_on reusable_core (sd_reusable_instances s) (map (\<lambda>(ident, u). (ident, ?f u)) (sd_reusable_instances s))"
      using parts(3) by (intro same_on_map) (simp_all add: lease_inv_def reusable_core_def)
    show "reusable_ok (sd_pools s) x" if x: "bt_get (map (\<lambda>(ident, u). (ident, ?f u)) (sd_reusable_instances s)) j = Some x" for j x
    proof -
      obtain u where "bt_get (sd_reusable_instances s) j = Some u" "x = ?f u"
        using x bt_get_map_values [of "\<lambda>_. ?f" "sd_reusable_instances s" j] by auto
      then show ?thesis using parts(3) by (auto simp: lease_inv_def reusable_ok_def)
    qed
  qed
qed (simp_all add: retire_members_def)

lemma revise_check_safe:
  assumes "sched_inv cfg s F" "env_safe ev"
  shows "\<not> is_panic (revise_check ev cfg' k expected config s)"
proof (cases "bt_get (sd_capacities s) k")
  case (Some c)
  obtain g where g: "bt_get (sd_plugins s) (sk_plugin_id c) = Some g" using sched_inv_parts(4) [OF assms(1)] Some by (fastforce simp: owner_inv_def)
  show ?thesis
    using Some g plugin_commitment_safe [OF assms(2)] next_sequence_facts(1) [of _ s] by (simp add: revise_check_def)
qed (simp add: revise_check_def)

theorem wp_revise_capacity:
  assumes "center_inv cfg R P s" "env_safe ev" "\<And>i r. \<not> is_panic (physical i r)"
  shows "wp (sched_revise_capacity ev cfg' physical k expected config) (\<lambda>_. center_inv cfg R P) (center_inv cfg R P) s"
proof -
  note si = center_invD [OF assms(1)]
  have revised: "center_inv cfg R P (s\<lparr>sd_sequence := n, sd_capacities := bt_insert k (c\<lparr>sk_config := config, sk_policy_revision := n\<rparr>) (sd_capacities s)\<rparr>)"
    if ok: "revise_check ev cfg' k expected config s = Ok (c, Some n)" for c n
  proof -
    have c: "bt_get (sd_capacities s) k = Some c"
      and limit: "cap_max_running_calls (ccf_resources config) < cap_max_running_calls (ccf_resources (sk_config c)) \<longrightarrow>
        capacity_active s k \<le> cap_max_running_calls (ccf_resources config)"
      using ok by (auto simp: revise_check_def split: if_splits)
    have "capacity_active s k \<le> cap_max_running_calls (ccf_resources (sk_config c))" using sched_inv_parts(6) [OF si] c by (simp add: limit_inv_def)
    then have "capacity_active s k \<le> cap_max_running_calls (ccf_resources config)" using limit by linarith
    moreover have "capacity_active (s\<lparr>sd_sequence := n\<rparr>) k = capacity_active s k" by (simp add: capacity_active_eq)
    ultimately show ?thesis
      using c sched_inv_change_capacity [of cfg "s\<lparr>sd_sequence := n\<rparr>" _ k c "c\<lparr>sk_config := config, sk_policy_revision := n\<rparr>"]
      by (intro center_inv_move [OF assms(1)]) simp_all
  qed
  show ?thesis
    unfolding sched_revise_capacity_def wp_bind
    by (intro wp_try revise_check_safe [OF si assms(2)])
      (use assms(1,3) revised retire_members_inv in \<open>auto simp: wp_simps split: option.splits intro!: case_result\<close>)
qed

section \<open>Pools\<close>

lemma validate_plugin_pool_facts:
  assumes "env_safe ev"
  shows "\<not> is_panic (validate_plugin_pool ev plugin policy s)" "validate_plugin_pool ev plugin policy s = Ok () \<Longrightarrow> bt_get (sd_plugins s) plugin \<noteq> None"
  using plugin_commitment_safe [OF assms, of s plugin None None]
  by (auto simp: validate_plugin_pool_def plugin_commitment_def)

lemma validate_member_facts:
  shows "\<not> is_panic (validate_capacity_member k plugin policy s)"
    "validate_capacity_member k plugin policy s = Ok () \<Longrightarrow> \<exists>c. bt_get (sd_capacities s) k = Some c \<and> sk_plugin_id c = plugin"
  by (auto simp: validate_capacity_member_def Let_def split: if_splits)

lemma register_pool_check_facts:
  assumes "env_safe ev"
  shows "\<not> is_panic (register_pool_check ev cfg module policy capacity s)"
    "register_pool_check ev cfg module policy capacity s = Ok n \<Longrightarrow> next_sequence ''pool identity exhausted'' s = Ok n \<and>
      bt_get (sd_plugins s) (pm_plugin_id module) \<noteq> None \<and>
      (\<forall>k. capacity = Some k \<longrightarrow> (\<exists>c. bt_get (sd_capacities s) k = Some c \<and> sk_plugin_id c = pm_plugin_id module))"
  using validate_plugin_pool_facts [OF assms, of "pm_plugin_id module" policy s] validate_member_facts [of _ "pm_plugin_id module" policy s] next_sequence_facts(1) [of _ s]
  by (auto simp: register_pool_check_def split: option.splits if_splits)

theorem wp_register_pool:
  assumes "center_inv cfg R P s" "ids_inv runtime s" "env_safe ev" "\<not> is_panic snapshot_valid" "\<not> is_panic prepared" "\<And>x. \<not> is_panic (create x)"
  shows "wp (register_pool_with_binding ev cfg' runtime json snapshot_valid prepared create policy capacity) (\<lambda>_. center_inv cfg R P) (center_inv cfg R P) s"
proof -
  have added: "center_inv cfg R P (s\<lparr>sd_sequence := n, sd_pools := bt_insert (identity_render PoolIdentity runtime n)
      \<lparr>sp_inputs = pm_inputs module, sp_policy = policy, sp_finalizer = pm_finalizer module, sp_plugin_id = pm_plugin_id module,
        sp_capacity_id = capacity, sp_queued = 0, sp_active = 0, sp_closed = False\<rparr> (sd_pools s)\<rparr>)"
    if ok: "register_pool_check ev cfg' module policy capacity s = Ok n" for module n
    using register_pool_check_facts(2) [OF assms(3) ok] ids_fresh(1) [OF assms(2)]
    by (intro center_inv_move [OF assms(1)] sched_inv_add_pool [of cfg "s\<lparr>sd_sequence := n\<rparr>", simplified]) auto
  show ?thesis
    unfolding register_pool_with_binding_def wp_bind Let_def
    by (intro wp_from wp_try register_pool_check_facts(1) [OF assms(3)])
      (use assms(1,4-6) added in \<open>auto simp: wp_simps split: option.splits intro!: case_result\<close>)
qed

theorem wp_close_pool:
  assumes "center_inv cfg R P s" "\<And>i. \<not> is_panic (close i)"
  shows "wp (close_pool close k) (\<lambda>_. center_inv cfg R P) (center_inv cfg R P) s"
proof (cases "bt_get (sd_pools s) k")
  case (Some p)
  have "center_inv cfg R P (s\<lparr>sd_pools := bt_insert k (p\<lparr>sp_closed := True\<rparr>) (sd_pools s)\<rparr>)"
  proof (rule center_inv_move [OF assms(1)])
    show "sched_inv cfg (s\<lparr>sd_pools := bt_insert k (p\<lparr>sp_closed := True\<rparr>) (sd_pools s)\<rparr>) F" if "sched_inv cfg s F" for F
      using sched_inv_parts(2) [OF that] Some by (intro sched_inv_pools [OF that]) (auto simp: same_on_def pool_core_def call_inv_def)
  qed simp_all
  then show ?thesis using Some assms(2) by (auto simp: close_pool_def wp_simps intro!: case_result)
qed (use assms in \<open>simp add: close_pool_def wp_simps\<close>)

theorem wp_forget_pool:
  assumes "center_inv cfg R P s" "env_safe ev"
  shows "wp (forget_pool ev k) (\<lambda>_. center_inv cfg R P) (center_inv cfg R P) s"
proof -
  have "center_inv cfg R P (t\<lparr>sd_pools := bt_remove k (sd_pools t)\<rparr>)" if t: "center_inv cfg R P t" "pool_undrained ev k t = Ok False" for t
  proof -
    obtain p where p: "bt_get (sd_pools t) k = Some p" "sp_queued p = 0" "sp_active p = 0"
      and empty: "\<not> list_ex (\<lambda>ss. ss_pool_id ss = k) (bt_values (sd_sessions t))" "\<not> list_ex (\<lambda>u. su_pool_id u = k) (bt_values (sd_reusable_instances t))"
      using t(2) by (auto simp: pool_undrained_def split: if_splits)
    have "sched_inv cfg (t\<lparr>sd_pools := bt_remove k (sd_pools t)\<rparr>) F" if "sched_inv cfg t F" for F
      by (rule sched_inv_drop_pool [OF that p]) (use empty in \<open>auto simp: list_ex_iff dest: bt_get_value\<close>)
    then show ?thesis by (rule center_inv_move [OF t(1)]) simp_all
  qed
  moreover have "\<not> is_panic (pool_undrained ev k t)" for t using assms(2) by (auto simp: pool_undrained_def env_safe_def)
  ultimately show ?thesis
    unfolding forget_pool_def wp_bind
    by (intro wp_mono [OF wp_reusable_prune [OF assms]]) (auto simp: wp_simps intro!: case_result)
qed

theorem wp_reusable_pool_status:
  assumes "center_inv cfg R P s" "env_safe ev"
  shows "wp (reusable_pool_status ev k) (\<lambda>_. center_inv cfg R P) (center_inv cfg R P) s"
proof (cases "bt_get (sd_pools s) k")
  case (Some p)
  have count: "idle_in_pool t k \<le> length (filter (\<lambda>u. su_pool_id u = k) (bt_values (sd_reusable_instances t)))" for t
  proof -
    have "idle_in_pool t k = length (filter reusable_idle (filter (\<lambda>u. su_pool_id u = k) (bt_values (sd_reusable_instances t))))"
      by (simp add: idle_in_pool_def conj_commute)
    then show ?thesis by (simp only: length_filter_le)
  qed
  have "wp (reusable_expire ev k) (\<lambda>_ t. center_inv cfg R P t \<and> bt_get (sd_pools t) k = Some p) (\<lambda>_. False) s"
    by (rule wp_mono [OF wp_reusable_expire [OF assms(1) Some]]) (use Some in \<open>auto simp: scan_frame_def\<close>)
  then show ?thesis
    using Some assms(1) unfolding reusable_pool_status_def wp_bind
    by (auto simp: wp_simps Let_def count decrease_enough assms(2) [unfolded env_safe_def] elim!: wp_mono intro!: case_result)
qed (use assms in \<open>simp add: reusable_pool_status_def wp_simps\<close>)

section \<open>Submission\<close>

theorem wp_admit:
  assumes "center_inv cfg R P s" "env_safe ev" "env_fresh ev s" "session_ready r s"
  shows "wp (sched_enqueue ev cfg r control bytes) (\<lambda>_. center_inv cfg R P) (\<lambda>t. t = s) s"
proof (cases "enqueue_check ev cfg r control bytes s")
  case (Ok x)
  obtain plugin ident where x: "x = (plugin, ident)" by (cases x)
  note si = center_invD [OF assms(1)] and check = Ok [unfolded x]
  note ok = enqueue_check_Ok(1) [OF si assms(3,4) check]
  have "center_inv cfg R P (admit_call plugin \<lparr>sc_reusable_instance = None, sc_id = ident, sc_control = control, sc_request = r, sc_bytes = bytes\<rparr> s)"
    by (rule center_inv_keep [OF assms(1) sched_inv_admit [OF si ok]]) (simp_all add: admit_call_def push_call_def)
  then show ?thesis using enqueue_eq [OF check ok refl] by (simp add: wp_def)
next
  case (Err e)
  then show ?thesis by (simp add: wp_def sched_enqueue_def bind_action_def try_read_def)
next
  case (Panic m)
  then show ?thesis using enqueue_check_safe [OF center_invD [OF assms(1)] assms(2), of r control bytes] by simp
qed

lemma wp_admit_inv:
  assumes "center_inv cfg R P s" "env_safe ev" "env_fresh ev s" "session_ready r s"
  shows "wp (sched_enqueue ev cfg r control bytes) (\<lambda>_. center_inv cfg R P) (center_inv cfg R P) s"
  by (rule wp_mono [OF wp_admit [OF assms]]) (use assms(1) in simp_all)

definition submission_safe :: "submission_env \<Rightarrow> bool" where
  "submission_safe sv \<longleftrightarrow> \<not> is_panic (sv_submission sv) \<and> \<not> is_panic (sv_control sv)"

theorem wp_submit:
  assumes "center_inv cfg R P s" "env_safe ev" "env_fresh ev s" "submission_safe sv"
  shows "wp (sched_submit sv ev cfg request) (\<lambda>_. center_inv cfg R P) (center_inv cfg R P) s"
    "wp (prewarm_instance sv ev cfg warm) (\<lambda>_. center_inv cfg R P) (center_inv cfg R P) s"
proof -
  have admit: "wp (sched_enqueue ev cfg (Invoke request) control bytes) (\<lambda>_. center_inv cfg R P) (center_inv cfg R P) s"
    "wp (sched_enqueue ev cfg (Prewarm warm) control bytes) (\<lambda>_. center_inv cfg R P) (center_inv cfg R P) s" for control bytes
    by (rule wp_admit_inv [OF assms(1-3)], simp add: session_ready_def)+
  show "wp (sched_submit sv ev cfg request) (\<lambda>_. center_inv cfg R P) (center_inv cfg R P) s"
    unfolding sched_submit_def wp_bind
    by (intro wp_from) (use assms(1,4) admit in \<open>auto simp: wp_simps submission_safe_def intro!: case_result split: option.splits\<close>)
  show "wp (prewarm_instance sv ev cfg warm) (\<lambda>_. center_inv cfg R P) (center_inv cfg R P) s"
    unfolding prewarm_instance_def wp_bind
    by (intro wp_from) (use assms(1,4) admit in \<open>auto simp: wp_simps submission_safe_def intro!: case_result split: option.splits\<close>)
qed

theorem wp_submit_session:
  assumes "center_inv cfg R P s" "env_safe ev" "env_fresh ev s" "submission_safe sv"
  shows "wp (submit_session sv ev cfg k export arguments context) (\<lambda>_. center_inv cfg R P) (center_inv cfg R P) s"
proof -
  have admit: "wp (sched_enqueue ev cfg (InvokeSession k \<lparr>ec_pool_id = ss_pool_id ss, ec_export = export, ec_arguments = arguments, ec_context = context\<rparr>) control bytes)
      (\<lambda>_. center_inv cfg R P) (center_inv cfg R P) s" if "bt_get (sd_sessions s) k = Some ss" "\<not> ss_closing ss" "\<not> ss_closed ss" for ss control bytes
  proof -
    have "session_ok (sd_pools s) ss" using sched_inv_parts(3) [OF center_invD [OF assms(1)]] that(1) by (simp add: lease_inv_def)
    then have "session_ready (InvokeSession k \<lparr>ec_pool_id = ss_pool_id ss, ec_export = export, ec_arguments = arguments, ec_context = context\<rparr>) s"
      using that by (auto simp: session_ready_def session_ok_def)
    then show ?thesis by (rule wp_admit_inv [OF assms(1-3)])
  qed
  show ?thesis
    unfolding submit_session_def wp_bind Let_def
    by (intro wp_from) (use assms(1,4) admit in \<open>auto simp: wp_simps submission_safe_def intro!: case_result split: option.splits\<close>)
qed

theorem wp_forget_operation:
  assumes "center_inv cfg R P s" "\<And>i. \<not> is_panic (forget i)"
  shows "wp (sched_forget_operation forget ident) (\<lambda>_. center_inv cfg R P) (\<lambda>t. t = s) s"
proof (cases "bt_get (sd_operation_plugins s) ident")
  case (Some plugin)
  note parts = sched_inv_parts [OF center_invD [OF assms(1)]]
  obtain g where g: "bt_get (sd_plugins s) plugin = Some g" using parts(5) Some by (fastforce simp: slot_inv_def)
  have wf: "bt_wf (sd_operation_plugins s)" using parts(5) by (simp add: slot_inv_def)
  have "0 < sg_operations g"
    using parts(5) g bt.le_sum_entry [OF wf Some, of "\<lambda>e. of_bool (snd e = plugin)"] by (simp add: slot_inv_def retained_of_def)
  moreover have "center_inv cfg R P (drop_operation ident plugin s)"
    using Some by (intro center_inv_move [OF assms(1)] sched_inv_drop_operation) (simp_all add: drop_operation_def)
  ultimately show ?thesis
    using Some g assms(2) [of ident]
    by (auto simp: sched_forget_operation_def wp_simps drop_operation_def bt_update_def decrease_enough Suc_le_eq intro!: case_result)
qed (simp add: sched_forget_operation_def wp_simps)

section \<open>Opening and closing sessions\<close>

lemma plugin_sessions_safe:
  assumes "sched_inv cfg s F"
  shows "\<exists>n. plugin_sessions s plugin = Ok n"
proof -
  have "\<exists>n. count_sessions s plugin xs = Ok n" if "\<And>ss. ss \<in> set xs \<Longrightarrow> bt_get (sd_pools s) (ss_pool_id ss) \<noteq> None" for xs
    using that
  proof (induction xs)
    case (Cons ss xs)
    obtain p where "bt_get (sd_pools s) (ss_pool_id ss) = Some p" using Cons.prems [of ss] by auto
    moreover obtain n where "count_sessions s plugin xs = Ok n" using Cons by auto
    ultimately show ?case by simp
  qed simp
  moreover have "bt_get (sd_pools s) (ss_pool_id ss) \<noteq> None" if "ss \<in> set (bt_values (sd_sessions s))" for ss
    using that sched_inv_parts(2,4) [OF assms] by (auto simp: call_inv_def owner_inv_def bt_values_iff)
  ultimately show ?thesis unfolding plugin_sessions_def by blast
qed

lemma open_check_facts:
  assumes "sched_inv cfg s F"
  shows "\<not> is_panic (open_check cfg' pool s)"
    "open_check cfg' pool s = Ok (p, g) \<Longrightarrow> bt_get (sd_pools s) pool = Some p \<and> bt_get (sd_plugins s) (sp_plugin_id p) = Some g \<and>
      (sp_finalizer p \<longrightarrow> sg_operations g + sg_reserved_operations g < plg_max_operations (sg_config g))"
proof -
  show "\<not> is_panic (open_check cfg' pool s)"
  proof (cases "bt_get (sd_pools s) pool")
    case (Some p)
    obtain g where g: "bt_get (sd_plugins s) (sp_plugin_id p) = Some g" "sg_reserved_operations g \<le> plg_max_operations (sg_config g)"
      by (rule pool_owner [OF assms Some])
    obtain n where "plugin_sessions s (sp_plugin_id p) = Ok n" using plugin_sessions_safe [OF assms] by blast
    then show ?thesis using Some g by (simp add: open_check_def check_persistence_admission_def decrease_enough)
  qed (simp add: open_check_def check_persistence_admission_def)
  show "bt_get (sd_pools s) pool = Some p \<and> bt_get (sd_plugins s) (sp_plugin_id p) = Some g \<and>
      (sp_finalizer p \<longrightarrow> sg_operations g + sg_reserved_operations g < plg_max_operations (sg_config g))" if "open_check cfg' pool s = Ok (p, g)"
    using that by (auto simp: open_check_def check_persistence_admission_def split: if_splits)
qed

lemma new_session_ok: "session_ok pools (new_session (finalizes pools pool) pool lease)"
  by (simp add: session_ok_def new_session_def)

lemma wp_enqueue_opening:
  assumes inv: "center_inv cfg R P s" and ev: "env_safe ev" "env_fresh ev s"
    and ss: "bt_get (sd_sessions s) k = Some ss" "ss_pool_id ss = pool" "ss_unfinished ss = 0" "\<not> ss_closed ss" "\<not> ss_retiring ss"
    and p: "bt_get (sd_pools s) pool = Some p"
  shows "wp (enqueue_opening ev cfg (ss_finalization_reservation ss) (sp_plugin_id p) pool k control bytes) (\<lambda>_. center_inv cfg R P) (center_inv cfg R P) s"
proof -
  note si = center_invD [OF inv]
  have plugin: "pool_plugin (sd_pools s) (ss_pool_id ss) = Some (sp_plugin_id p)" using p ss(2) by (simp add: pool_plugin_def)
  obtain g where g: "bt_get (sd_plugins s) (sp_plugin_id p) = Some g" by (rule pool_owner [OF si p])
  have ready: "session_ready (OpenSession pool k) s" using ss by (simp add: session_ready_def)
  let ?t = "drop_session (sp_plugin_id p) k ss s"
  have dropped: "center_inv cfg R P ?t"
    using ss(1,3) plugin by (intro center_inv_keep [OF inv sched_inv_drop_session [OF si]]) (simp_all add: drop_session_def)
  have undo: "wp (bind_action (if ss_finalization_reservation ss then change_reserved (sp_plugin_id p) (\<lambda>n. decrease n 1) else ret ()) (\<lambda>_.
      bind_action (write_state (\<lambda>s. s\<lparr>sd_sessions := bt_remove k (sd_sessions s)\<rparr>)) (\<lambda>_. fail e))) (\<lambda>_. center_inv cfg R P) (center_inv cfg R P) s" for e
    using dropped g reserved_positive [OF si ss(1) _ plugin g]
    by (auto simp: wp_simps change_reserved_def drop_session_def bt_update_def decrease_enough Suc_le_eq)
  show ?thesis
    unfolding enqueue_opening_def wp_bind
    by (rule wp_catch, rule wp_mono [OF wp_admit [OF inv ev ready]]) (use undo in \<open>auto simp: wp_values wp_bind\<close>)
qed

text \<open>The part of \<^verbatim>\<open>open_session\<close> after the identity has been drawn.\<close>

definition open_with ::
  "submission_env \<Rightarrow> scheduler_env \<Rightarrow> embedded_runtime_config \<Rightarrow> string \<Rightarrow> scheduled_pool \<Rightarrow> module_lease \<Rightarrow> sched_control \<Rightarrow> string \<Rightarrow> (scheduler_state, string \<times> string) action" where
  "open_with sv ev cfg pool p lease control session =
     bind_action (from_result (json_size (sv_request sv (OpenSession pool session)) (max_queued_bytes cfg))) (\<lambda>bytes.
     bind_action (if sp_finalizer p
       then
         bind_action (from_result (and_then (ev_allocation_id ev lease) (ev_reserve ev pool (Some session)))) (\<lambda>_.
         change_reserved (sp_plugin_id p) (\<lambda>n. Ok (n + 1)))
       else ret ()) (\<lambda>_.
     bind_action (write_state (\<lambda>s. s\<lparr>sd_sessions := bt_insert session (new_session (sp_finalizer p) pool lease) (sd_sessions s)\<rparr>)) (\<lambda>_.
     bind_action (enqueue_opening ev cfg (sp_finalizer p) (sp_plugin_id p) pool session control bytes) (\<lambda>operation.
     ret (session, operation)))))"

lemma open_session_eq:
  "open_session sv ev cfg runtime pool =
     bind_action (from_result (sv_submission sv)) (\<lambda>_.
     bind_action (from_result (sv_control sv)) (\<lambda>control.
     bind_action (try_read (open_check cfg pool)) (\<lambda>(p, g).
     bind_action (try_read (\<lambda>s. plugin_allows_allocation ev s pool)) (\<lambda>allow_new.
     bind_action (from_result (ev_prepare ev pool True allow_new)) (\<lambda>lease.
     bind_action (try_read (next_sequence ''session identity exhausted'')) (\<lambda>sequence.
     bind_action (write_state (\<lambda>s. s\<lparr>sd_sequence := sequence\<rparr>)) (\<lambda>_.
     open_with sv ev cfg pool p lease control (identity_render SessionIdentity runtime sequence))))))))"
  by (simp add: open_session_def open_with_def Let_def)

lemma wp_open_with:
  assumes inv: "center_inv cfg R P s" and ev: "env_safe ev" "env_fresh ev s" and k: "bt_get (sd_sessions s) k = None"
    and p: "bt_get (sd_pools s) pool = Some p" "bt_get (sd_plugins s) (sp_plugin_id p) = Some g"
      "sp_finalizer p \<longrightarrow> sg_operations g + sg_reserved_operations g < plg_max_operations (sg_config g)"
  shows "wp (open_with sv ev cfg pool p lease control k) (\<lambda>_. center_inv cfg R P) (center_inv cfg R P) s"
proof -
  note si = center_invD [OF inv]
  let ?ss = "new_session (sp_finalizer p) pool lease"
  let ?t = "add_session (sp_plugin_id p) k ?ss s"
  have fin: "finalizes (sd_pools s) pool = sp_finalizer p" using p by (simp add: finalizes_def)
  have "sched_inv cfg ?t (all_flights R P s)"
    using sched_inv_add_session [OF si k, of ?ss "sp_plugin_id p" g] p new_session_ok [of "sd_pools s" pool lease] fin
    by (simp add: new_session_def pool_plugin_def)
  then have t: "center_inv cfg R P ?t" by (intro center_inv_keep [OF inv]) (simp_all add: add_session_def)
  have fresh: "env_fresh ev ?t" using ev(2) by (simp add: env_fresh_def add_session_def)
  have enq: "wp (enqueue_opening ev cfg (sp_finalizer p) (sp_plugin_id p) pool k control bytes) (\<lambda>_. center_inv cfg R P) (center_inv cfg R P) ?t" for bytes
    using wp_enqueue_opening [OF t ev(1) fresh, of k ?ss pool p control bytes] p by (simp add: add_session_def new_session_def)
  have safe: "\<not> is_panic (and_then (ev_allocation_id ev lease) (ev_reserve ev pool (Some k)))" using ev(1) by (auto simp: env_safe_def)
  have eq: "?t = (if sp_finalizer p then s\<lparr>sd_plugins := bt_insert (sp_plugin_id p) (g\<lparr>sg_reserved_operations := sg_reserved_operations g + 1\<rparr>) (sd_plugins s),
      sd_sessions := bt_insert k ?ss (sd_sessions s)\<rparr> else s\<lparr>sd_sessions := bt_insert k ?ss (sd_sessions s)\<rparr>)"
    using p by (simp add: add_session_def new_session_def bt_update_def)
  show ?thesis
    unfolding open_with_def wp_bind
    by (intro wp_from) (use inv safe enq p in \<open>auto simp: wp_simps change_reserved_def eq intro!: case_result\<close>)
qed

theorem wp_open_session:
  assumes inv: "center_inv cfg R P s" and ids: "ids_inv runtime s" and ev: "env_safe ev" "env_fresh ev s" and sv: "submission_safe sv"
  shows "wp (open_session sv ev cfg runtime pool) (\<lambda>_. center_inv cfg R P) (center_inv cfg R P) s"
proof -
  note si = center_invD [OF inv]
  have tail: "wp (open_with sv ev cfg pool p lease control (identity_render SessionIdentity runtime n)) (\<lambda>_. center_inv cfg R P) (center_inv cfg R P) (s\<lparr>sd_sequence := n\<rparr>)"
    if n: "next_sequence ''session identity exhausted'' s = Ok n" and open': "open_check cfg pool s = Ok (p, g)" for n p g lease control
    using open_check_facts(2) [OF si open'] ids_fresh(3) [OF ids n] ev inv
    by (intro wp_open_with [where g = g]) (simp_all add: env_fresh_def center_inv_def state_flights_def)
  have allow: "\<not> is_panic (plugin_allows_allocation ev s pool)" by (rule plugin_allows_safe [OF ev(1)])
  show ?thesis
    unfolding open_session_eq wp_bind wp_effects
    by (intro wp_from)
      (use sv inv allow open_check_facts(1) [OF si] next_sequence_facts(1) ev(1) tail in
        \<open>auto simp: submission_safe_def env_safe_def wp_bind wp_effects(3) intro!: wp_from wp_try\<close>)
qed

theorem wp_close_session:
  assumes "center_inv cfg R P s"
  shows "wp (close_session k) (\<lambda>_. center_inv cfg R P) (\<lambda>t. t = s) s"
proof (cases "bt_get (sd_sessions s) k")
  case (Some ss)
  have "center_inv cfg R P (s\<lparr>sd_sessions := bt_insert k (ss\<lparr>ss_closing := True\<rparr>) (sd_sessions s)\<rparr>)"
  proof (rule center_inv_keep [OF assms sched_inv_sessions [OF center_invD [OF assms]]])
    note parts = sched_inv_parts [OF center_invD [OF assms]]
    show "same_on session_core (sd_sessions s) (bt_insert k (ss\<lparr>ss_closing := True\<rparr>) (sd_sessions s))"
      using parts(2) Some by (auto simp: same_on_def session_core_def call_inv_def)
    show "session_ok (sd_pools s) x" if "bt_get (bt_insert k (ss\<lparr>ss_closing := True\<rparr>) (sd_sessions s)) j = Some x" for j x
      using that Some parts(3) by (auto simp: lease_inv_def session_ok_def split: if_splits)
  qed simp_all
  then show ?thesis using Some by (simp add: close_session_def wp_simps)
qed (simp add: close_session_def wp_simps)

theorem wp_forget_session:
  assumes "center_inv cfg R P s"
  shows "wp (forget_session k) (\<lambda>_. center_inv cfg R P) (\<lambda>t. t = s) s"
proof (cases "bt_get (sd_sessions s) k")
  case (Some ss)
  note si = center_invD [OF assms] and parts = sched_inv_parts [OF center_invD [OF assms]]
  obtain p where p: "bt_get (sd_pools s) (ss_pool_id ss) = Some p" using parts(4) Some by (fastforce simp: owner_inv_def)
  have "center_inv cfg R P (s\<lparr>sd_sessions := bt_remove k (sd_sessions s)\<rparr>)" if "ss_closed ss"
  proof -
    have ok: "ss_unfinished ss = 0" "\<not> ss_finalization_reservation ss" using parts(3) Some that by (auto simp: lease_inv_def session_ok_def)
    have "sched_inv cfg (drop_session (sp_plugin_id p) k ss s) (all_flights R P s)"
      by (rule sched_inv_drop_session [OF si Some ok(1)]) (use p in \<open>simp add: pool_plugin_def\<close>)
    then show ?thesis using ok(2) by (intro center_inv_keep [OF assms]) (simp_all add: drop_session_def)
  qed
  then show ?thesis using Some by (simp add: forget_session_def wp_simps)
qed (simp add: forget_session_def wp_simps)

end
