(* ===== verification/Scheduler_Static.thy ===== *)
theory Scheduler_Static
  imports Scheduler_Calls
begin

text \<open>
  Two invariants that every action keeps whatever it answers: the scheduler's identities are numbered
  by its sequence, and only requests of the host are queued.
\<close>

section \<open>Actions that keep a predicate\<close>

definition keeps :: "('s \<Rightarrow> bool) \<Rightarrow> ('s, 'a) action \<Rightarrow> bool" where
  "keeps I m \<longleftrightarrow> (\<forall>s. I s \<longrightarrow> I (snd (m s)))"

named_theorems keeps_intros \<open>actions that keep a predicate\<close>

lemma keeps_bind_action [keeps_intros]: "keeps I m \<Longrightarrow> (\<And>x. keeps I (f x)) \<Longrightarrow> keeps I (bind_action m f)"
  by (auto simp: keeps_def bind_action_def split: prod.splits outcome.splits)

lemma keeps_values [keeps_intros]:
  "keeps I (ret x)" "keeps I (fail e)" "keeps I (from_result r)" "keeps I (try_read g)" "keeps I (read_state f)" "keeps I (require b e)" "keeps I (require_state p e)"
  by (simp_all add: keeps_def ret_def fail_def from_result_def try_read_def read_state_def require_def require_state_def)

lemma keeps_write: "(\<And>s. I s \<Longrightarrow> I (f s)) \<Longrightarrow> keeps I (write_state f)"
  by (simp add: keeps_def write_state_def)

lemma keeps_catch [keeps_intros]: "keeps I m \<Longrightarrow> keeps I (catch_action m)"
  by (auto simp: keeps_def catch_action_def split: prod.splits outcome.splits)

lemma keeps_cases [keeps_intros]:
  "keeps I m \<Longrightarrow> keeps I n \<Longrightarrow> keeps I (if b then m else n)"
  "keeps I m \<Longrightarrow> (\<And>y. keeps I (f y)) \<Longrightarrow> keeps I (case t of None \<Rightarrow> m | Some y \<Rightarrow> f y)"
  "(\<And>u v. keeps I (h u v)) \<Longrightarrow> keeps I (case pr of (u, v) \<Rightarrow> h u v)"
  "(\<And>a. keeps I (l a)) \<Longrightarrow> (\<And>b. keeps I (r b)) \<Longrightarrow> keeps I (case x of Inl a \<Rightarrow> l a | Inr b \<Rightarrow> r b)"
  "(\<And>a. keeps I (l a)) \<Longrightarrow> (\<And>e. keeps I (e' e)) \<Longrightarrow> (\<And>p. keeps I (p' p)) \<Longrightarrow> keeps I (case o' of Ok a \<Rightarrow> l a | Err e \<Rightarrow> e' e | Panic p \<Rightarrow> p' p)"
  by (auto split: option.splits prod.splits sum.splits outcome.splits)

section \<open>Identities and queued requests\<close>

definition keys :: "('k \<times> 'v) list \<Rightarrow> 'k set" where
  "keys m = fst ` set m"

definition host_request :: "scheduled_call \<Rightarrow> bool" where
  "host_request c \<longleftrightarrow> \<not> closing_request (sc_request c)"

definition static_inv :: "string \<Rightarrow> scheduler_state \<Rightarrow> bool" where
  "static_inv runtime s \<longleftrightarrow>
     keys (sd_pools s) \<subseteq> issued_ids PoolIdentity runtime s \<and> keys (sd_capacities s) \<subseteq> issued_ids CapacityIdentity runtime s \<and>
     keys (sd_sessions s) \<subseteq> issued_ids SessionIdentity runtime s \<and> list_all (\<lambda>e. list_all host_request (snd e)) (sd_queues s)"

lemma get_key: "bt_get m k = Some v \<Longrightarrow> k \<in> keys m"
  unfolding keys_def by (metis bt_get_notin option.distinct(1))

lemma dom_keys: "dom (bt_get m) \<subseteq> keys m"
  by (auto dest: get_key)

lemma static_ids: "static_inv runtime s \<Longrightarrow> ids_inv runtime s"
  unfolding static_inv_def ids_inv_def
  using dom_keys [of "sd_pools s"] dom_keys [of "sd_capacities s"] dom_keys [of "sd_sessions s"] by auto

lemma keys_insert_old: "bt_get m k = Some v \<Longrightarrow> keys (bt_insert k w m) \<subseteq> keys m"
  using get_key [of m k v] by (simp add: keys_def fst_set_bt_insert)

lemma keys_remove: "keys (bt_remove k m) \<subseteq> keys m"
  unfolding keys_def using set_bt_remove by (rule image_mono)

lemma static_frame [simp]:
  "static_inv r (sd_reusable_instances_update a s) = static_inv r s" "static_inv r (sd_finalizing_update b s) = static_inv r s"
  "static_inv r (sd_shared_checkpoint_failed_update c s) = static_inv r s" "static_inv r (sd_persistence_failures_update d s) = static_inv r s"
  "static_inv r (sd_cleaning_count_update e s) = static_inv r s" "static_inv r (sd_closing_update f s) = static_inv r s"
  "static_inv r (sd_failure_update g s) = static_inv r s" "static_inv r (sd_plugins_update h s) = static_inv r s"
  "static_inv r (sd_operation_plugins_update i s) = static_inv r s" "static_inv r (sd_rotation_update j s) = static_inv r s"
  "static_inv r (sd_queued_update k s) = static_inv r s" "static_inv r (sd_bytes_update l s) = static_inv r s"
  "static_inv r (sd_live_update m s) = static_inv r s" "static_inv r (sd_cleaning_update n s) = static_inv r s"
  by (simp_all add: static_inv_def issued_ids_def)

lemma static_members:
  "static_inv r s \<Longrightarrow> keys m \<subseteq> keys (sd_pools s) \<Longrightarrow> static_inv r (s\<lparr>sd_pools := m\<rparr>)"
  "static_inv r s \<Longrightarrow> keys m' \<subseteq> keys (sd_capacities s) \<Longrightarrow> static_inv r (s\<lparr>sd_capacities := m'\<rparr>)"
  "static_inv r s \<Longrightarrow> keys m'' \<subseteq> keys (sd_sessions s) \<Longrightarrow> static_inv r (s\<lparr>sd_sessions := m''\<rparr>)"
  by (simp_all add: static_inv_def issued_ids_def) blast+

lemma keeps_modify [keeps_intros]:
  "keeps (static_inv r) (modify_pool e k f)" "keeps (static_inv r) (modify_plugin e k f')"
  "keeps (static_inv r) (modify_session e k f'')" "keeps (static_inv r) (modify_reusable e k f''')"
  by (auto simp: keeps_def modify_at_def split: outcome.splits intro!: static_members keys_insert_old)

lemma keeps_write_frame [keeps_intros]:
  "keeps (static_inv r) (write_state (\<lambda>s. s\<lparr>sd_reusable_instances := a s\<rparr>))" "keeps (static_inv r) (write_state (\<lambda>s. s\<lparr>sd_plugins := c s\<rparr>))"
  "keeps (static_inv r) (write_state (\<lambda>s. s\<lparr>sd_operation_plugins := d s\<rparr>))" "keeps (static_inv r) (write_state (\<lambda>s. s\<lparr>sd_rotation := e s\<rparr>))"
  "keeps (static_inv r) (write_state (\<lambda>s. s\<lparr>sd_queued := f s\<rparr>))" "keeps (static_inv r) (write_state (\<lambda>s. s\<lparr>sd_bytes := g s\<rparr>))"
  "keeps (static_inv r) (write_state (\<lambda>s. s\<lparr>sd_cleaning_count := h s\<rparr>))"
  "keeps (static_inv r) (write_state (\<lambda>s. s\<lparr>sd_cleaning_count := i s, sd_cleaning := j s\<rparr>))"
  "keeps (static_inv r) (write_state (\<lambda>s. s\<lparr>sd_operation_plugins := k s, sd_live := l s\<rparr>))"
  "keeps (static_inv r) (write_state (\<lambda>s. s\<lparr>sd_persistence_failures := m s, sd_live := n s\<rparr>))"
  by (simp_all add: keeps_def write_state_def)

section \<open>Queues\<close>

lemma list_all_insert: "list_all P m \<Longrightarrow> P (k, v) \<Longrightarrow> list_all P (bt_insert k v m)"
  by (induction k v m rule: bt_insert.induct) auto

lemma list_all_remove: "list_all P m \<Longrightarrow> list_all P (bt_remove k m)"
  by (induction k m rule: bt_remove.induct) auto

lemma queue_requests: "static_inv r s \<Longrightarrow> bt_get (sd_queues s) k = Some q \<Longrightarrow> list_all host_request q"
  by (auto simp: static_inv_def list_all_iff bt_get_eq_map_of dest!: map_of_SomeD)

lemma keeps_push: "host_request call \<Longrightarrow> keeps (static_inv r) (write_state (push_call plugin call))"
proof (rule keeps_write)
  fix s assume "host_request call" "static_inv r s"
  then show "static_inv r (push_call plugin call s)"
    using queue_requests [of r s plugin]
    by (auto simp: push_call_def static_inv_def issued_ids_def split: option.splits intro!: list_all_insert)
qed

lemma keeps_enqueue:
  assumes "\<not> closing_request request"
  shows "keeps (static_inv r) (sched_enqueue ev cfg request control bytes)"
  unfolding sched_enqueue_def using assms by (intro keeps_intros keeps_push) (simp add: host_request_def)

lemma keeps_pull [keeps_intros]: "keeps (static_inv r) (pull_call plugin i)"
  unfolding keeps_def
proof (intro allI impI)
  fix s assume s: "static_inv r s"
  show "static_inv r (snd (pull_call plugin i s))"
  proof (cases "bt_get (sd_queues s) plugin")
    case None
    then show ?thesis using s by (simp add: pull_call_def bind_action_def try_read_def)
  next
    case (Some q)
    have "list_all host_request (take i q @ drop (Suc i) q)"
      using queue_requests [OF s Some] by (auto simp: list_all_iff dest: in_set_takeD in_set_dropD)
    then have "static_inv r (s\<lparr>sd_queues := bt_insert plugin (take i q @ drop (Suc i) q) (sd_queues s)\<rparr>)"
      "static_inv r (s\<lparr>sd_queues := bt_remove plugin (sd_queues s)\<rparr>)"
      using s by (auto simp: static_inv_def issued_ids_def intro!: list_all_insert list_all_remove)
    then show ?thesis using s Some by (simp add: pull_call_def bind_action_def try_read_def from_result_def write_state_def ret_def Let_def)
  qed
qed

lemma keeps_take [keeps_intros]: "keeps (static_inv r) (take_call plugin i)"
  unfolding take_call_def by (intro keeps_intros)

lemma keeps_reject_call [keeps_intros]: "keeps (static_inv r) (reject_call plugin i e)"
  unfolding reject_call_def by (intro keeps_intros) (auto split: scheduled_request.splits intro!: keeps_intros)

lemma keeps_reject [keeps_intros]: "keeps (static_inv r) (reject_expired ev)"
proof -
  have 1: "keeps (static_inv r) (reject_queue n ev plugin i)" for n plugin i
    by (induction n arbitrary: i) (auto intro!: keeps_intros)
  have "keeps (static_inv r) (reject_plugins ev ps)" for ps
    by (induction ps) (auto intro!: keeps_intros 1)
  then show ?thesis unfolding reject_expired_def by (intro keeps_intros)
qed

section \<open>Selection and completion\<close>

lemma keeps_expire [keeps_intros]: "keeps (static_inv r) (reusable_expire ev pool)"
  unfolding reusable_expire_def Let_def by (intro keeps_intros)

lemma keeps_obtain [keeps_intros]: "keeps (static_inv r) (reusable_prepare ev pool operation context control cached)"
  unfolding reusable_prepare_def reusable_obtain_def reusable_allocate_def Let_def by (intro keeps_intros)

lemma keeps_prepare_call [keeps_intros]: "keeps (static_inv r) (prepare_call ev call)"
  unfolding prepare_call_def Let_def by (intro keeps_intros)

lemma keeps_await [keeps_intros]: "keeps (static_inv r) (await_capacity ev call b)"
  unfolding await_capacity_def reusable_reclaim_def by (intro keeps_intros)

lemma keeps_dispatch [keeps_intros]: "keeps (static_inv r) (dispatch_call n plugin i prepared)"
  unfolding dispatch_call_def dispatch_session_def activate_pool_def by (intro keeps_intros)

lemma keeps_select [keeps_intros]: "keeps (static_inv r) (sched_select ev)"
proof -
  have 1: "keeps (static_inv r) (scan_queue ev n plugin ns visited b)" for n plugin ns visited b
    by (induction ns arbitrary: visited b) (auto simp: Let_def intro!: keeps_intros)
  have "keeps (static_inv r) (scan_rotation ev n ps b)" for n ps b
    by (induction ps arbitrary: n b) (auto intro!: keeps_intros 1)
  then show ?thesis unfolding sched_select_def by (intro keeps_intros)
qed

lemma keeps_exec_next [keeps_intros]: "keeps (static_inv r) (exec_next ev)"
proof -
  have "keeps (static_inv r) (bind_action (sched_select ev) (\<lambda>d. ret (case d of None \<Rightarrow> WorkerWait | Some x \<Rightarrow> WorkerRun x)))"
    by (intro keeps_intros)
  then show ?thesis by (auto simp: keeps_def exec_next_def split: list.splits)
qed

lemma keeps_exec_finish [keeps_intros]: "keeps (static_inv r) (exec_finish ev c newly)"
  unfolding exec_finish_def by (intro keeps_intros)

lemma keeps_complete_begin [keeps_intros]: "keeps (static_inv r) (complete_begin ev candidate c)"
proof -
  have "keeps (static_inv r) (retry_route c)" by (auto simp: keeps_def retry_route_def split: option.splits checkpoint_retry_state.splits)
  then show ?thesis unfolding complete_begin_def mark_owner_closing_def by (intro keeps_intros)
qed

lemma keeps_reusable_remove [keeps_intros]: "keeps (static_inv r) (reusable_remove k)"
  unfolding reusable_remove_def by (intro keeps_intros)

lemma keeps_complete_publish [keeps_intros]: "keeps (static_inv r) (complete_publish ev e c)"
  unfolding complete_publish_def by (intro keeps_intros)

section \<open>Maintenance\<close>

lemma keeps_schedule_all [keeps_intros]: "(\<And>k. keeps I (f k)) \<Longrightarrow> keeps I (schedule_all f ks)"
  by (induction ks) (auto intro!: keeps_intros)

lemma keeps_schedule [keeps_intros]: "keeps (static_inv r) (schedule_session_closing ev k)" "keeps (static_inv r) (schedule_reusable_closing ev k)"
  unfolding schedule_session_closing_def schedule_reusable_closing_def push_closing_def by (intro keeps_intros)+

lemma keeps_maintain_sessions [keeps_intros]: "keeps (static_inv r) (maintain_sessions ev)"
proof -
  have "static_inv r (s\<lparr>sd_sessions := map (\<lambda>(k, ss). (k, sweep_session ev s ss)) (sd_sessions s)\<rparr>)" if "static_inv r s" for s
    by (rule static_members(3) [OF that]) (force simp: keys_def)
  then show ?thesis unfolding maintain_sessions_def by (intro keeps_intros keeps_write)
qed

lemma keeps_maintain_reusable [keeps_intros]: "keeps (static_inv r) (maintain_reusable ev)"
proof -
  have "keeps (static_inv r) (expire_all ev pools)" for pools by (induction pools) (auto intro!: keeps_intros)
  then show ?thesis unfolding maintain_reusable_def by (intro keeps_intros)
qed

lemma keeps_retired [keeps_intros]: "keeps (static_inv r) (retired_session k release)" "keeps (static_inv r) (retired_reusable k release)"
  by (auto simp: retired_session_def retired_reusable_def split: module_release.splits intro!: keeps_intros)

lemma keeps_close_sessions [keeps_intros]: "keeps (static_inv r) (close_sessions ev)"
proof -
  have "keeps (static_inv r) (settle_sessions ev ks)" for ks by (induction ks) (auto intro!: keeps_intros)
  moreover have "keeps (static_inv r) (release_reserved pools)" for pools by (induction pools) (auto intro!: keeps_intros)
  ultimately show ?thesis unfolding close_sessions_def by (intro keeps_intros)
qed

lemma keeps_prune [keeps_intros]: "keeps (static_inv r) (reusable_prune ev)"
proof -
  have "keeps (static_inv r) (remove_all_reusable ks)" for ks by (induction ks) (auto intro!: keeps_intros)
  then show ?thesis unfolding reusable_prune_def by (intro keeps_intros)
qed

section \<open>The calls of the host\<close>

lemma keeps_plugin_calls [keeps_intros]:
  "keeps (static_inv r) (register_plugin cfg json k config)" "keeps (static_inv r) (forget_plugin k)" "keeps (static_inv r) (sched_forget_operation forget k)"
  unfolding register_plugin_def forget_plugin_def sched_forget_operation_def by (intro keeps_intros)+

lemma static_close_members: "static_inv r s \<Longrightarrow> static_inv r (close_members C s)"
  unfolding close_members_def by (erule static_members(1)) (force simp: keys_def)

lemma keeps_close_plugin [keeps_intros]: "keeps (static_inv r) (close_plugin close k)"
  unfolding close_plugin_def by (intro keeps_intros keeps_write static_close_members)

lemma issued_later:
  assumes "sd_sequence s \<le> sd_sequence t"
  shows "issued_ids kind r s \<subseteq> issued_ids kind r t" "identity_render kind r (sd_sequence t) \<in> issued_ids kind r t"
  using assms by (auto simp: issued_ids_def)

lemma keys_insert: "keys (bt_insert k v m) = insert k (keys m)"
  by (simp add: keys_def fst_set_bt_insert)

lemma static_issue:
  assumes "static_inv r s" "sd_sequence s \<le> n"
  shows "static_inv r (s\<lparr>sd_sequence := n\<rparr>)"
    "static_inv r (s\<lparr>sd_sequence := n, sd_pools := bt_insert (identity_render PoolIdentity r n) p (sd_pools s)\<rparr>)"
    "static_inv r (s\<lparr>sd_sequence := n, sd_capacities := bt_insert (identity_render CapacityIdentity r n) c (sd_capacities s)\<rparr>)"
proof -
  have up: "K \<subseteq> issued_ids kind r t" if "K \<subseteq> issued_ids kind r s" "sd_sequence t = n" for kind t K
    using that issued_later [of s t kind r] assms(2) by auto
  have new: "identity_render kind r n \<in> issued_ids kind r t" if "sd_sequence t = n" for kind t
    using that by (auto simp: issued_ids_def)
  note old = assms(1) [unfolded static_inv_def]
  show "static_inv r (s\<lparr>sd_sequence := n\<rparr>)"
    "static_inv r (s\<lparr>sd_sequence := n, sd_pools := bt_insert (identity_render PoolIdentity r n) p (sd_pools s)\<rparr>)"
    "static_inv r (s\<lparr>sd_sequence := n, sd_capacities := bt_insert (identity_render CapacityIdentity r n) c (sd_capacities s)\<rparr>)"
    using old unfolding static_inv_def by (simp_all add: keys_insert up new)
qed

lemma keeps_member_calls [keeps_intros]:
  "keeps (static_inv r) (close_capacity close k)" "keeps (static_inv r) (forget_capacity unregister k)" "keeps (static_inv r) (close_pool close k)"
  "keeps (static_inv r) (close_session k)" "keeps (static_inv r) (forget_session k)"
proof -
  show "keeps (static_inv r) (close_capacity close k)"
    by (auto simp: keeps_def close_capacity_def bind_action_def try_read_def write_state_def split: outcome.splits
        intro!: static_close_members static_members(2) keys_insert_old)
  show "keeps (static_inv r) (forget_capacity unregister k)"
    unfolding forget_capacity_def by (intro keeps_intros keeps_write static_members(2) keys_remove)
  show "keeps (static_inv r) (close_pool close k)"
    by (auto simp: keeps_def close_pool_def bind_action_def try_read_def write_state_def from_result_def split: outcome.splits
        intro!: static_members(1) keys_insert_old)
  show "keeps (static_inv r) (close_session k)"
    by (auto simp: keeps_def close_session_def bind_action_def try_read_def write_state_def read_state_def split: outcome.splits
        intro!: static_members(3) keys_insert_old)
  show "keeps (static_inv r) (forget_session k)"
    unfolding forget_session_def by (intro keeps_intros keeps_write static_members(3) keys_remove)
qed

lemma keeps_forget_pool [keeps_intros]: "keeps (static_inv r) (forget_pool ev k)"
  unfolding forget_pool_def by (intro keeps_intros keeps_write static_members(1) keys_remove)

lemma keeps_status [keeps_intros]: "keeps (static_inv r) (reusable_pool_status ev k)"
  unfolding reusable_pool_status_def by (intro keeps_intros)

lemma keeps_submissions [keeps_intros]:
  "keeps (static_inv r) (sched_submit sv ev cfg request)" "keeps (static_inv r) (prewarm_instance sv ev cfg warm)"
  "keeps (static_inv r) (submit_session sv ev cfg k export arguments context)"
  unfolding sched_submit_def prewarm_instance_def submit_session_def Let_def by (intro keeps_intros keeps_enqueue; simp)+

text \<open>Registration and the opening of a session draw the next number.\<close>

lemma drawn_numbers:
  "sched_register_capacity_check ev cfg plugin config s = Ok n \<Longrightarrow> sd_sequence s \<le> n"
  "register_pool_check ev cfg module policy capacity s = Ok n \<Longrightarrow> sd_sequence s \<le> n"
  "revise_check ev cfg k expected config' s = Ok (c, Some n) \<Longrightarrow> sd_sequence s \<le> n \<and> bt_get (sd_capacities s) k = Some c"
  by (auto simp: sched_register_capacity_check_def register_pool_check_def revise_check_def dest!: next_sequence_facts(2) split: if_splits)

lemma keeps_registrations [keeps_intros]:
  "keeps (static_inv r) (sched_register_capacity ev cfg r physical plugin config)"
  "keeps (static_inv r) (register_pool_with_binding ev cfg r json valid prepared create policy capacity)"
  "keeps (static_inv r) (sched_revise_capacity ev cfg physical k expected config)"
proof -
  show "keeps (static_inv r) (sched_register_capacity ev cfg r physical plugin config)"
    by (auto simp: keeps_def sched_register_capacity_def bind_action_def try_read_def from_result_def write_state_def ret_def Let_def
        split: outcome.splits dest: drawn_numbers intro!: static_issue)
  show "keeps (static_inv r) (register_pool_with_binding ev cfg r json valid prepared create policy capacity)"
    by (auto simp: keeps_def register_pool_with_binding_def bind_action_def try_read_def from_result_def write_state_def ret_def Let_def
        split: outcome.splits dest: drawn_numbers intro!: static_issue)
  have "static_inv r (s\<lparr>sd_sequence := n, sd_capacities := bt_insert k c' (sd_capacities s)\<rparr>)"
    if "static_inv r s" "sd_sequence s \<le> n" "bt_get (sd_capacities s) k = Some c" for s n c c'
    using static_members(2) [OF static_issue(1) [OF that(1,2)], of "bt_insert k c' (sd_capacities s)"] keys_insert_old [OF that(3), of c'] by simp
  then show "keeps (static_inv r) (sched_revise_capacity ev cfg physical k expected config)"
    by (auto simp: keeps_def sched_revise_capacity_def bind_action_def try_read_def from_result_def write_state_def ret_def retire_members_def
        split: outcome.splits option.splits dest!: drawn_numbers(3))
qed

lemma keeps_sequence_modify [keeps_intros]:
  "keeps (\<lambda>s. sd_sequence s = n) (modify_pool e k f)" "keeps (\<lambda>s. sd_sequence s = n) (modify_plugin e k f')" "keeps (\<lambda>s. sd_sequence s = n) (modify_session e k f'')"
  by (auto simp: keeps_def modify_at_def split: outcome.splits)

lemma keeps_sequence_enqueue [keeps_intros]: "keeps (\<lambda>s. sd_sequence s = n) (sched_enqueue ev cfg request control bytes)"
  unfolding sched_enqueue_def by (intro keeps_intros keeps_write) (simp_all add: push_call_def)

definition opening_inv :: "string \<Rightarrow> u64 \<Rightarrow> scheduler_state \<Rightarrow> bool" where
  "opening_inv r n s \<longleftrightarrow> static_inv r s \<and> sd_sequence s = n"

lemma keeps_opening_both: "keeps (static_inv r) m \<Longrightarrow> keeps (\<lambda>s. sd_sequence s = n) m \<Longrightarrow> keeps (opening_inv r n) m"
  by (simp add: keeps_def opening_inv_def)

lemma keeps_open_with: "keeps (opening_inv r n) (open_with sv ev cfg pool p lease control (identity_render SessionIdentity r n))"
proof -
  have modify: "keeps (opening_inv r n) (change_reserved plugin f)" for plugin f
    unfolding change_reserved_def by (intro keeps_opening_both keeps_intros)
  have enqueue: "keeps (opening_inv r n) (sched_enqueue ev cfg (OpenSession pool k) control bytes)" for k bytes
    by (intro keeps_opening_both keeps_intros keeps_enqueue) simp
  have remove: "keeps (opening_inv r n) (write_state (\<lambda>s. s\<lparr>sd_sessions := bt_remove k (sd_sessions s)\<rparr>))" for k
    by (intro keeps_write) (auto simp: opening_inv_def intro!: static_members(3) keys_remove)
  have insert: "keeps (opening_inv r n) (write_state (\<lambda>s. s\<lparr>sd_sessions := bt_insert (identity_render SessionIdentity r n) ss (sd_sessions s)\<rparr>))" for ss
    by (intro keeps_write) (auto simp: opening_inv_def static_inv_def keys_insert issued_ids_def)
  show ?thesis
    unfolding open_with_def enqueue_opening_def by (intro keeps_intros modify enqueue remove insert)
qed

lemma keeps_open_session [keeps_intros]: "keeps (static_inv r) (open_session sv ev cfg r pool)"
proof -
  have "static_inv r (snd (bind_action (try_read (next_sequence m)) (\<lambda>n. bind_action (write_state (\<lambda>s. s\<lparr>sd_sequence := n\<rparr>)) (\<lambda>_.
      open_with sv ev cfg pool p lease control (identity_render SessionIdentity r n))) s))" if "static_inv r s" for m p lease control s
  proof (cases "next_sequence m s")
    case (Ok n)
    then have "opening_inv r n (s\<lparr>sd_sequence := n\<rparr>)"
      using static_issue(1) [OF that] next_sequence_facts(2) [OF Ok] by (simp add: opening_inv_def)
    then show ?thesis
      using keeps_open_with [of r n sv ev cfg pool p lease control] Ok
      by (simp add: keeps_def bind_action_def try_read_def write_state_def) (simp add: opening_inv_def)
  qed (use that in \<open>simp_all add: bind_action_def try_read_def\<close>)
  then have tail: "keeps (static_inv r) (bind_action (try_read (next_sequence m)) (\<lambda>n. bind_action (write_state (\<lambda>s. s\<lparr>sd_sequence := n\<rparr>)) (\<lambda>_.
      open_with sv ev cfg pool p lease control (identity_render SessionIdentity r n))))" for m p lease control
    by (simp add: keeps_def)
  show ?thesis unfolding open_session_eq by (intro tail keeps_intros)
qed

end
