(* ===== verification/Scheduler_Theorems.thy ===== *)
theory Scheduler_Theorems
  imports Scheduler_Static
begin

text \<open>
  The scheduler as a system: its state, the calls the workers run and the completions that workers and
  the supervisor hold. Hosts, workers and the supervisor take turns at the lock in any order. The
  invariant holds in every reachable state, and the properties follow from it.
\<close>

section \<open>The system\<close>

record sched_system =
  sy_state :: scheduler_state
  sy_running :: "flight multiset"
  sy_held :: "pending_completion multiset"

definition sched_start :: sched_system where
  "sched_start = \<lparr>sy_state = scheduler_empty, sy_running = {#}, sy_held = {#}\<rparr>"

definition discard :: "('s, 'a) action \<Rightarrow> ('s, unit) action" where
  "discard m = bind_action m (\<lambda>_. ret ())"

text \<open>
  What the scheduler relies on of the components it asks: they do not panic, the operation registry
  and the pools give out identities that are not in use, and a VM has a closing plan only where its
  module declares a finalizer.
\<close>

definition env_ok :: "scheduler_env \<Rightarrow> scheduler_state \<Rightarrow> bool" where
  "env_ok ev s \<longleftrightarrow> env_safe ev \<and> env_fresh ev s \<and> plans_owned ev s \<and> admissions_fresh ev s"

text \<open>Sections that leave the calls in flight where they are: calls of the host and the supervisor's passes.\<close>

inductive sched_call :: "embedded_runtime_config \<Rightarrow> string \<Rightarrow> scheduler_env \<Rightarrow> submission_env \<Rightarrow> (scheduler_state, unit) action \<Rightarrow> bool"
  for cfg runtime ev sv where
  call_register_plugin: "sched_call cfg runtime ev sv (register_plugin cfg json k config)"
| call_close_plugin: "(\<And>i. \<not> is_panic (close i)) \<Longrightarrow> sched_call cfg runtime ev sv (close_plugin close k)"
| call_forget_plugin: "sched_call cfg runtime ev sv (forget_plugin k)"
| call_register_capacity: "(\<And>i c. \<not> is_panic (physical i c)) \<Longrightarrow> sched_call cfg runtime ev sv (discard (sched_register_capacity ev cfg runtime physical plugin capacity))"
| call_close_capacity: "(\<And>i. \<not> is_panic (close i)) \<Longrightarrow> sched_call cfg runtime ev sv (close_capacity close k)"
| call_forget_capacity: "(\<And>i. \<not> is_panic (unregister i)) \<Longrightarrow> sched_call cfg runtime ev sv (forget_capacity unregister k)"
| call_revise_capacity: "(\<And>i c. \<not> is_panic (physical i c)) \<Longrightarrow> sched_call cfg runtime ev sv (discard (sched_revise_capacity ev cfg physical k expected capacity))"
| call_register_pool: "\<not> is_panic valid \<Longrightarrow> \<not> is_panic prepared \<Longrightarrow> (\<And>x. \<not> is_panic (create x)) \<Longrightarrow>
    sched_call cfg runtime ev sv (discard (register_pool_with_binding ev cfg runtime fin_json valid prepared create policy owner))"
| call_close_pool: "(\<And>i. \<not> is_panic (close i)) \<Longrightarrow> sched_call cfg runtime ev sv (close_pool close k)"
| call_forget_pool: "sched_call cfg runtime ev sv (forget_pool ev k)"
| call_pool_status: "sched_call cfg runtime ev sv (discard (reusable_pool_status ev k))"
| call_submit: "sched_call cfg runtime ev sv (discard (sched_submit sv ev cfg request))"
| call_prewarm: "sched_call cfg runtime ev sv (discard (prewarm_instance sv ev cfg warm))"
| call_forget_operation: "(\<And>i. \<not> is_panic (forget i)) \<Longrightarrow> sched_call cfg runtime ev sv (sched_forget_operation forget k)"
| call_open_session: "sched_call cfg runtime ev sv (discard (open_session sv ev cfg runtime k))"
| call_submit_session: "sched_call cfg runtime ev sv (discard (submit_session sv ev cfg k export arguments context))"
| call_close_session: "sched_call cfg runtime ev sv (discard (close_session k))"
| call_forget_session: "sched_call cfg runtime ev sv (forget_session k)"
| call_request_close: "sched_call cfg runtime ev sv (write_state (\<lambda>s. fst (sched_request_close s)))"
| call_poll_closed: "\<not> is_panic pools \<Longrightarrow> sched_call cfg runtime ev sv (discard (sched_poll_closed finished joined pools))"
| call_fail: "sched_call cfg runtime ev sv (write_state (\<lambda>s. fst (sched_fail e s)))"
| call_checkpoint_failed: "sched_call cfg runtime ev sv (write_state (checkpoint_failed has_queue k phase e))"
| call_checkpoint_recovered: "sched_call cfg runtime ev sv (write_state (checkpoint_recovered k))"
| call_observe: "(\<And>i. \<not> is_panic (observe i)) \<Longrightarrow> sched_call cfg runtime ev sv (observe_shared_checkpoint_failures has_queue observe)"
| call_persistence_failure: "(\<And>i. \<not> is_panic (observe i)) \<Longrightarrow> sched_call cfg runtime ev sv (discard (persistence_failure observe k))"
| call_retry: "(\<And>i. \<not> is_panic (request_retry i)) \<Longrightarrow> sched_call cfg runtime ev sv (discard (retry_checkpoint request_retry k))"
| call_reject: "sched_call cfg runtime ev sv (reject_expired ev)"
| call_maintain_sessions: "sched_call cfg runtime ev sv (discard (maintain_sessions ev))"
| call_maintain_reusable: "sched_call cfg runtime ev sv (maintain_reusable ev)"
| call_close_sessions: "sched_call cfg runtime ev sv (close_sessions ev)"
| call_prune: "sched_call cfg runtime ev sv (reusable_prune ev)"

text \<open>Where a worker's next piece of work goes.\<close>

fun worker_takes :: "exec_step embedded_result \<Rightarrow> scheduler_state \<Rightarrow> flight multiset \<Rightarrow> pending_completion multiset \<Rightarrow> sched_system" where
  "worker_takes (Ok (WorkerRun (Ready c l))) t R P = \<lparr>sy_state = t, sy_running = add_mset (c, True, None) R, sy_held = P\<rparr>"
| "worker_takes (Ok (WorkerRun (Rejected c e))) t R P = \<lparr>sy_state = t, sy_running = add_mset (c, False, None) R, sy_held = P\<rparr>"
| "worker_takes (Ok (WorkerRun (FinalizingCall c))) t R P = \<lparr>sy_state = t, sy_running = R, sy_held = add_mset c P\<rparr>"
| "worker_takes _ t R P = \<lparr>sy_state = t, sy_running = R, sy_held = P\<rparr>"

text \<open>
  A step says whether it panicked. The supervisor reports the release of the sessions and instances its
  sweep has marked as retiring; between two sections it may change a completion it holds, within what
  \<open>refine_flight\<close> allows.
\<close>

inductive sched_step :: "embedded_runtime_config \<Rightarrow> string \<Rightarrow> sched_system \<Rightarrow> bool \<Rightarrow> sched_system \<Rightarrow> bool" for cfg runtime where
  step_call: "env_ok ev (sy_state y) \<Longrightarrow> submission_safe sv \<Longrightarrow> sched_call cfg runtime ev sv m \<Longrightarrow> m (sy_state y) = (r, t) \<Longrightarrow>
    sched_step cfg runtime y (is_panic r) (y\<lparr>sy_state := t\<rparr>)"
| step_retired_session: "bt_get (sd_sessions (sy_state y)) k = Some ss \<Longrightarrow> ss_retiring ss \<Longrightarrow> retired_session k release (sy_state y) = (r, t) \<Longrightarrow>
    sched_step cfg runtime y (is_panic r) (y\<lparr>sy_state := t\<rparr>)"
| step_retired_reusable: "bt_get (sd_reusable_instances (sy_state y)) k = Some u \<Longrightarrow> su_retiring u \<Longrightarrow> retired_reusable k release (sy_state y) = (r, t) \<Longrightarrow>
    sched_step cfg runtime y (is_panic r) (y\<lparr>sy_state := t\<rparr>)"
| step_next: "env_ok ev (sy_state y) \<Longrightarrow> exec_next ev (sy_state y) = (w, t) \<Longrightarrow>
    sched_step cfg runtime y (is_panic w) (worker_takes w t (sy_running y) (sy_held y))"
| step_invoked: "sy_running y = add_mset (call, True, None) R \<Longrightarrow> exec_finish ev (invoke_completion ev release' call lease result) True (sy_state y) = (r, t) \<Longrightarrow>
    sched_step cfg runtime y (is_panic r) (y\<lparr>sy_state := t, sy_running := R\<rparr>)"
| step_rejected: "sy_running y = add_mset (call, False, None) R \<Longrightarrow> exec_finish ev (rejected_completion call e) True (sy_state y) = (r, t) \<Longrightarrow>
    sched_step cfg runtime y (is_panic r) (y\<lparr>sy_state := t, sy_running := R\<rparr>)"
| step_finalized: "sy_held y = add_mset c P \<Longrightarrow> refine_flight (pend_flight c) (pend_flight c') \<Longrightarrow> exec_finish ev c' False (sy_state y) = (r, t) \<Longrightarrow>
    sched_step cfg runtime y (is_panic r) (y\<lparr>sy_state := t, sy_held := P\<rparr>)"
| step_take: "take_cleaning (sy_state y) = (cs, t) \<Longrightarrow> sched_step cfg runtime y False (y\<lparr>sy_state := t, sy_held := sy_held y + mset cs\<rparr>)"
| step_put: "sy_held y = P + mset cs \<Longrightarrow> sched_step cfg runtime y False (y\<lparr>sy_state := put_cleaning cs (sy_state y), sy_held := P\<rparr>)"
| step_work: "sy_held y = add_mset c P \<Longrightarrow> refine_flight (pend_flight c) (pend_flight c') \<Longrightarrow> sched_step cfg runtime y False (y\<lparr>sy_held := add_mset c' P\<rparr>)"
| step_begin: "c \<in># sy_held y \<Longrightarrow> complete_begin ev candidate c (sy_state y) = (route, t) \<Longrightarrow>
    sched_step cfg runtime y (is_panic route) (y\<lparr>sy_state := t\<rparr>)"
| step_finalizing: "sy_held y = add_mset c P \<Longrightarrow> sched_step cfg runtime y False (y\<lparr>sy_state := push_finalizing c (sy_state y), sy_held := P\<rparr>)"
| step_publish: "sy_held y = add_mset c P \<Longrightarrow> complete_publish ev closing_error c (sy_state y) = (r, t) \<Longrightarrow>
    sched_step cfg runtime y (is_panic r) (y\<lparr>sy_state := t, sy_held := P\<rparr>)"

inductive sched_reach :: "embedded_runtime_config \<Rightarrow> string \<Rightarrow> sched_system \<Rightarrow> bool" for cfg runtime where
  reach_start: "sched_reach cfg runtime sched_start"
| reach_step: "sched_reach cfg runtime y \<Longrightarrow> sched_step cfg runtime y b y' \<Longrightarrow> sched_reach cfg runtime y'"

definition system_inv :: "embedded_runtime_config \<Rightarrow> string \<Rightarrow> sched_system \<Rightarrow> bool" where
  "system_inv cfg runtime y \<longleftrightarrow> center_inv cfg (sy_running y) (sy_held y) (sy_state y) \<and> static_inv runtime (sy_state y) \<and>
     (\<forall>f \<in># sy_running y. host_request (fl_call f))"

section \<open>Every section keeps the invariant\<close>

lemma wp_discard: "wp m (\<lambda>_. I) I s \<Longrightarrow> wp (discard m) (\<lambda>_. I) I s"
  by (simp add: discard_def wp_simps)

lemma keeps_discard [keeps_intros]: "keeps I m \<Longrightarrow> keeps I (discard m)"
  unfolding discard_def by (intro keeps_intros)

lemma center_inv_frame_simps:
  "center_inv cfg R P (s\<lparr>sd_closing := c\<rparr>) = center_inv cfg R P s" "center_inv cfg R P (s\<lparr>sd_failure := e\<rparr>) = center_inv cfg R P s"
  "center_inv cfg R P (s\<lparr>sd_failure := e, sd_closing := c\<rparr>) = center_inv cfg R P s"
  "center_inv cfg R P (s\<lparr>sd_persistence_failures := f\<rparr>) = center_inv cfg R P s" "center_inv cfg R P (s\<lparr>sd_shared_checkpoint_failed := b\<rparr>) = center_inv cfg R P s"
  by (simp_all add: center_inv_def state_flights_def)

lemma wp_refl: "wp m (\<lambda>_. I) (\<lambda>t. t = s) s \<Longrightarrow> I s \<Longrightarrow> wp m (\<lambda>_. I) I s"
  by (erule wp_mono) simp_all

lemma observe_failures_safe: "(\<And>i. \<not> is_panic (observe i)) \<Longrightarrow> \<not> is_panic (observe_failures observe ks b)"
proof (induction ks arbitrary: b)
  case (Cons k ks)
  then show ?case using Cons.prems [of k] by (cases "observe k") (auto split: option.splits)
qed simp

lemma wp_persistence:
  assumes "center_inv cfg R P s"
  shows "(\<And>i. \<not> is_panic (observe i)) \<Longrightarrow> wp (observe_shared_checkpoint_failures has_queue observe) (\<lambda>_. center_inv cfg R P) (center_inv cfg R P) s"
    "(\<And>i. \<not> is_panic (observe i)) \<Longrightarrow> wp (persistence_failure observe k) (\<lambda>_. center_inv cfg R P) (center_inv cfg R P) s"
    "(\<And>i. \<not> is_panic (request_retry i)) \<Longrightarrow> wp (retry_checkpoint request_retry k) (\<lambda>_. center_inv cfg R P) (center_inv cfg R P) s"
    "\<not> is_panic pools \<Longrightarrow> wp (sched_poll_closed finished joined pools) (\<lambda>_. center_inv cfg R P) (center_inv cfg R P) s"
proof -
  assume o: "\<not> is_panic (observe i)" for i
  show "wp (observe_shared_checkpoint_failures has_queue observe) (\<lambda>_. center_inv cfg R P) (center_inv cfg R P) s"
    using observe_failures_safe [where observe = observe and ks = "map fst (sd_live s)" and b = False] o assms
    by (auto simp: wp_def observe_shared_checkpoint_failures_def center_inv_frame_simps split: outcome.splits)
  show "wp (persistence_failure observe k) (\<lambda>_. center_inv cfg R P) (center_inv cfg R P) s"
    using o [of k] assms by (auto simp: wp_def persistence_failure_def center_inv_frame_simps split: outcome.splits option.splits)
next
  assume o: "\<not> is_panic (request_retry i)" for i
  show "wp (retry_checkpoint request_retry k) (\<lambda>_. center_inv cfg R P) (center_inv cfg R P) s"
  proof (cases "request_retry k")
    case (Ok x)
    then show ?thesis using assms by (cases x) (auto simp: wp_def retry_checkpoint_def center_inv_frame_simps split: option.splits)
  qed (use o [of k] assms in \<open>auto simp: wp_def retry_checkpoint_def center_inv_frame_simps split: option.splits\<close>)
next
  assume "\<not> is_panic pools"
  then show "wp (sched_poll_closed finished joined pools) (\<lambda>_. center_inv cfg R P) (center_inv cfg R P) s"
    using assms by (auto simp: wp_def sched_poll_closed_def sched_fail_def center_inv_frame_simps split: outcome.splits option.splits)
qed

lemma wp_call:
  assumes inv: "center_inv cfg R P s" and ids: "static_inv runtime s" and ev: "env_ok ev s" and sv: "submission_safe sv" and call: "sched_call cfg runtime ev sv m"
  shows "wp m (\<lambda>_. center_inv cfg R P) (center_inv cfg R P) s"
proof -
  have e: "env_safe ev" "env_fresh ev s" "plans_owned ev s" "admissions_fresh ev s" using ev by (simp_all add: env_ok_def)
  note i = static_ids [OF ids]
  show ?thesis
    using call
  proof cases
    case call_reject
    then show ?thesis using wp_mono [OF wp_reject_expired [OF e(1) inv]] by simp
  next
    case call_fail
    then show ?thesis using inv by (simp add: wp_simps sched_fail_def center_inv_frame_simps)
  next
    case call_request_close
    then show ?thesis using inv by (simp add: wp_simps sched_request_close_def center_inv_frame_simps)
  next
    case call_checkpoint_failed
    then show ?thesis using inv by (simp add: wp_simps checkpoint_failed_def sched_fail_def center_inv_frame_simps)
  next
    case call_checkpoint_recovered
    then show ?thesis using inv by (simp add: wp_simps checkpoint_recovered_def center_inv_frame_simps)
  qed (auto intro!: wp_discard wp_refl [OF wp_register_plugin [OF inv]] wp_close_plugin [OF inv] wp_refl [OF wp_forget_plugin [OF inv]]
      wp_register_capacity [OF inv i e(1)] wp_close_capacity [OF inv] wp_refl [OF wp_forget_capacity [OF inv]] wp_revise_capacity [OF inv e(1)]
      wp_register_pool [OF inv i e(1)] wp_close_pool [OF inv] wp_forget_pool [OF inv e(1)] wp_reusable_pool_status [OF inv e(1)]
      wp_submit [OF inv e(1,2) sv] wp_submit_session [OF inv e(1,2) sv] wp_refl [OF wp_forget_operation [OF inv]] wp_open_session [OF inv i e(1,2) sv]
      wp_refl [OF wp_close_session [OF inv]] wp_refl [OF wp_forget_session [OF inv]] wp_persistence [OF inv] wp_maintain_sessions [OF inv e(1,3,4)]
      wp_maintain_reusable [OF inv e(1,3,4)] wp_close_sessions [OF inv e(1)] wp_reusable_prune [OF inv e(1)] inv)
qed

lemma keeps_call:
  assumes "sched_call cfg runtime ev sv m"
  shows "keeps (static_inv runtime) m"
proof -
  have p: "keeps (static_inv runtime) (sched_poll_closed finished joined pools)"
    "keeps (static_inv runtime) (observe_shared_checkpoint_failures has_queue observe)" "keeps (static_inv runtime) (persistence_failure observe k)"
    "keeps (static_inv runtime) (retry_checkpoint request_retry k)" for finished joined pools has_queue observe k request_retry
    by (auto simp: keeps_def sched_poll_closed_def sched_fail_def observe_shared_checkpoint_failures_def persistence_failure_def retry_checkpoint_def
        split: outcome.splits option.splits)
  show ?thesis
    using assms
    by cases (auto simp: sched_fail_def sched_request_close_def checkpoint_failed_def checkpoint_recovered_def intro!: keeps_intros keeps_write p)
qed

text \<open>The calls a worker takes from the queues are calls of the host.\<close>

lemma exec_next_host:
  assumes inv: "center_inv cfg R P s" and ids: "static_inv runtime s" and ev: "env_ok ev s" and run: "exec_next ev s = (Ok (WorkerRun d), t)"
  shows "case d of Ready c l \<Rightarrow> host_request c | Rejected c e \<Rightarrow> host_request c | FinalizingCall c \<Rightarrow> True"
proof -
  have queued: "host_request (queued_at s plugin i)" if "first_of_slot (plugin_queue s plugin) i" for plugin i
  proof -
    have i: "i < length (plugin_queue s plugin)" using that by (simp add: first_of_slot_def)
    then obtain q where q: "bt_get (sd_queues s) plugin = Some q" "i < length q" by (auto simp: plugin_queue_def split: option.splits)
    then show ?thesis using queue_requests [OF ids q(1)] by (simp add: queued_at_def plugin_queue_def list_all_length)
  qed
  show ?thesis
  proof (cases "\<exists>c. d = FinalizingCall c")
    case False
    then have "sched_select ev s = (Ok (Some d), t)"
      using run by (auto simp: exec_next_def bind_action_def ret_def split: if_splits list.splits prod.splits outcome.splits option.splits)
    then have "selected cfg R P s (Some d) t"
      using wp_select [OF inv, of ev] ev by (simp add: wp_def env_ok_def env_fresh_def keys_fresh_def)
    then show ?thesis using queued by (auto simp: selected_def dispatched_def host_request_def split: worker_dispatch.splits)
  qed auto
qed

lemma wp_step:
  assumes "wp m (\<lambda>_. I) E s" "m s = (r, t)"
  shows "\<not> is_panic r" "(\<And>t. E t \<Longrightarrow> I t) \<Longrightarrow> I t"
  using assms by (cases r; simp add: wp_def)+

lemma keeps_step: "keeps I m \<Longrightarrow> m s = (r, t) \<Longrightarrow> I s \<Longrightarrow> I t"
  by (metis keeps_def snd_conv)

lemma next_step:
  assumes inv: "system_inv cfg runtime y" and ev: "env_ok ev (sy_state y)" and run: "exec_next ev (sy_state y) = (w, t)"
  shows "\<not> is_panic w \<and> system_inv cfg runtime (worker_takes w t (sy_running y) (sy_held y))"
proof -
  have i: "center_inv cfg (sy_running y) (sy_held y) (sy_state y)" "static_inv runtime (sy_state y)" "\<forall>f \<in># sy_running y. host_request (fl_call f)"
    using inv by (simp_all add: system_inv_def)
  have t: "static_inv runtime t" by (rule keeps_step [OF keeps_exec_next run i(2)])
  have "keys_fresh ev (sy_state y)" "env_safe ev" using ev by (simp_all add: env_ok_def env_fresh_def keys_fresh_def)
  then have "wp (exec_next ev) (exec_result cfg (sy_running y) (sy_held y)) (center_inv cfg (sy_running y) (sy_held y)) (sy_state y)"
    by (intro wp_exec_next [OF i(1)])
  then have w: "case w of Ok x \<Rightarrow> exec_result cfg (sy_running y) (sy_held y) x t | Err e \<Rightarrow> center_inv cfg (sy_running y) (sy_held y) t | Panic p \<Rightarrow> False"
    using run by (simp add: wp_def)
  show ?thesis
  proof (cases w)
    case (Ok x)
    then show ?thesis
      using w t i(3) run exec_next_host [OF i(1,2) ev]
      by (cases x) (auto simp: system_inv_def exec_result_def split: worker_dispatch.splits)
  qed (use w t i(3) in \<open>auto simp: system_inv_def\<close>)
qed

theorem step_inv:
  assumes "sched_step cfg runtime y b y'" "system_inv cfg runtime y"
  shows "\<not> b \<and> system_inv cfg runtime y'"
proof -
  have i: "center_inv cfg (sy_running y) (sy_held y) (sy_state y)" "static_inv runtime (sy_state y)" "\<forall>f \<in># sy_running y. host_request (fl_call f)"
    using assms(2) by (simp_all add: system_inv_def)
  show ?thesis
    using assms(1)
  proof cases
    case (step_call ev sv m r t)
    note w = wp_step [OF wp_call [OF i(1,2) step_call(3-5)] step_call(6)]
    then show ?thesis using i(3) keeps_step [OF keeps_call [OF step_call(5)] step_call(6) i(2)] step_call(1,2) by (simp add: system_inv_def)
  next
    case (step_retired_session k ss release r t)
    note w = wp_step [OF wp_retired_session [OF i(1) step_retired_session(3,4)] step_retired_session(5)]
    then show ?thesis using i(3) keeps_step [OF keeps_retired(1) step_retired_session(5) i(2)] step_retired_session(1,2) by (simp add: system_inv_def)
  next
    case (step_retired_reusable k u release r t)
    note w = wp_step [OF wp_retired_reusable [OF i(1) step_retired_reusable(3,4)] step_retired_reusable(5)]
    then show ?thesis using i(3) keeps_step [OF keeps_retired(2) step_retired_reusable(5) i(2)] step_retired_reusable(1,2) by (simp add: system_inv_def)
  next
    case (step_next ev w t)
    then show ?thesis using next_step [OF assms(2) step_next(3,4)] by simp
  next
    case (step_invoked call R ev release lease result r t)
    let ?c = "invoke_completion ev release call lease result"
    have "refine_flight (call, True, None) (pend_flight ?c)"
      using i(3) step_invoked(3) by (intro invoke_completion_refines) (simp add: host_request_def)
    note w = wp_step [OF wp_exec_finish_new [OF _ this] step_invoked(4)]
    then show ?thesis using i step_invoked keeps_step [OF keeps_exec_finish step_invoked(4) i(2)] by (simp add: system_inv_def)
  next
    case (step_rejected call R ev e r t)
    have "refine_flight (call, False, None) (pend_flight (rejected_completion call e))"
      by (simp add: refine_flight_def pend_flight_def rejected_completion_def same_call_def)
    note w = wp_step [OF wp_exec_finish_new [OF _ this] step_rejected(4)]
    then show ?thesis using i step_rejected keeps_step [OF keeps_exec_finish step_rejected(4) i(2)] by (simp add: system_inv_def)
  next
    case (step_finalized c P c' ev r t)
    note w = wp_step [OF wp_exec_finish_final [OF _ step_finalized(4)] step_finalized(5)]
    then show ?thesis using i step_finalized keeps_step [OF keeps_exec_finish step_finalized(5) i(2)] by (simp add: system_inv_def)
  next
    case (step_take cs t)
    then show ?thesis using center_inv_take_cleaning [OF i(1)] i by (auto simp: system_inv_def take_cleaning_def)
  next
    case (step_put P cs)
    then show ?thesis using center_inv_put_cleaning [of cfg "sy_running y" P cs "sy_state y"] i by (auto simp: system_inv_def put_cleaning_def)
  next
    case (step_work c P c')
    then show ?thesis using center_inv_refine [of cfg "sy_running y" c P "sy_state y" c'] i by (auto simp: system_inv_def)
  next
    case (step_begin c ev candidate route t)
    obtain P where "sy_held y = add_mset c P" using step_begin(3) by (rule mset_add)
    then have "wp (complete_begin ev candidate c) (\<lambda>_. center_inv cfg (sy_running y) (sy_held y)) (\<lambda>_. False) (sy_state y)"
      using wp_complete_begin [of cfg "sy_running y" c P "sy_state y" ev candidate] i(1) by simp
    note w = wp_step [OF this step_begin(4)]
    then show ?thesis using i(3) step_begin keeps_step [OF keeps_complete_begin step_begin(4) i(2)] by (simp add: system_inv_def)
  next
    case (step_finalizing c P)
    then show ?thesis using center_inv_push_finalizing [of cfg "sy_running y" c P "sy_state y"] i by (auto simp: system_inv_def push_finalizing_def)
  next
    case (step_publish c P ev closing_error r t)
    note w = wp_step [OF wp_complete_publish step_publish(4)]
    then show ?thesis using i step_publish keeps_step [OF keeps_complete_publish step_publish(4) i(2)] by (simp add: system_inv_def)
  qed
qed

theorem reach_inv: "sched_reach cfg runtime y \<Longrightarrow> system_inv cfg runtime y"
proof (induction rule: sched_reach.induct)
  case reach_start
  show ?case
    using sched_inv_empty [of cfg]
    by (simp add: system_inv_def sched_start_def center_inv_def state_flights_def static_inv_def scheduler_empty_def keys_def)
qed (use step_inv in blast)

section \<open>Reading the invariant\<close>

definition in_flight :: "sched_system \<Rightarrow> flight multiset" where
  "in_flight y = sy_running y + image_mset pend_flight (sy_held y) + state_flights (sy_state y)"

definition dispatched_calls :: "(scheduled_call \<Rightarrow> bool) \<Rightarrow> sched_system \<Rightarrow> nat" where
  "dispatched_calls Q y = size (filter_mset (\<lambda>f. fl_dispatched f \<and> Q (fl_call f)) (in_flight y))"

lemma reach_sched_inv: "sched_reach cfg runtime y \<Longrightarrow> sched_inv cfg (sy_state y) (in_flight y)"
  using reach_inv [of cfg runtime y] by (simp add: system_inv_def center_inv_def in_flight_def)

lemma count_ids: "count (image_mset g M) k = cnt (\<lambda>x. g x = k) M"
  by (induction M) auto

lemma live_is_mset:
  assumes "live_exact live Q F" "bt_wf live"
  shows "mset (map fst live) = image_mset sc_id Q + image_mset (\<lambda>f. sc_id (fl_call f)) F"
proof (rule multiset_eqI)
  fix k
  have "count (mset (map fst live)) k = (if bt_get live k = None then 0 else 1)"
    using bt_wf_distinct [OF assms(2)] bt.get_None_iff [OF assms(2), of k] by (auto simp: distinct_count_atmost_1)
  then show "count (mset (map fst live)) k = count (image_mset sc_id Q + image_mset (\<lambda>f. sc_id (fl_call f)) F) k"
    using assms(1) by (simp add: live_exact_def count_ids)
qed

lemma cnt_disjoint: "(\<And>x. \<not> (A x \<and> B x)) \<Longrightarrow> cnt (\<lambda>x. A x \<or> B x) F = cnt A F + cnt B F"
  by (induction F) auto

lemma cnt_sum: "finite K \<Longrightarrow> (\<Sum>k \<in> K. cnt (\<lambda>f. Q f \<and> g f = k) F) = cnt (\<lambda>f. Q f \<and> g f \<in> K) F"
proof (induction K rule: finite_induct)
  case (insert k K)
  have "cnt (\<lambda>f. Q f \<and> g f \<in> insert k K) F = cnt (\<lambda>f. (Q f \<and> g f = k) \<or> (Q f \<and> g f \<in> K)) F" by (rule cnt_cong) auto
  also have "\<dots> = cnt (\<lambda>f. Q f \<and> g f = k) F + cnt (\<lambda>f. Q f \<and> g f \<in> K) F" using insert.hyps by (intro cnt_disjoint) auto
  finally show ?case using insert by simp
qed (simp add: cnt_zero_iff)

text \<open>The running calls of all pools with a property, counted call by call.\<close>

lemma active_of_calls:
  assumes "sched_inv cfg s F"
  shows "active_of (sd_pools s) Q = cnt (\<lambda>f. fl_dispatched f \<and> (\<exists>p. bt_get (sd_pools s) (sc_pool (fl_call f)) = Some p \<and> Q p)) F"
proof -
  let ?m = "bt_get (sd_pools s)" and ?K = "{k. \<exists>p. bt_get (sd_pools s) k = Some p \<and> Q p}"
  have wf: "bt_wf (sd_pools s)" and counts: "pool_counts (sd_pools s) (queued_mset s) F"
    using sched_inv_parts(2) [OF assms] by (simp_all add: call_inv_def)
  have "dom ?m \<subseteq> keys (sd_pools s)" by (rule dom_keys)
  then have fin: "finite (dom ?m)" unfolding keys_def by (rule finite_subset) simp
  have K: "?K \<subseteq> dom ?m" by auto
  have "active_of (sd_pools s) Q = (\<Sum>k \<in> dom ?m. if Q (the (?m k)) then sp_active (the (?m k)) else 0)"
    unfolding active_of_def by (rule sum_dom [OF wf, of "\<lambda>p. if Q p then sp_active p else 0"])
  also have "\<dots> = (\<Sum>k \<in> ?K. sp_active (the (?m k)))"
    using fin by (intro sum.mono_neutral_cong_right K) auto
  also have "\<dots> = (\<Sum>k \<in> ?K. cnt (\<lambda>f. fl_dispatched f \<and> sc_pool (fl_call f) = k) F)"
    using counts by (intro sum.cong) (auto simp: pool_counts_def)
  also have "\<dots> = cnt (\<lambda>f. fl_dispatched f \<and> sc_pool (fl_call f) \<in> ?K) F"
    by (rule cnt_sum) (rule finite_subset [OF K fin])
  finally show ?thesis by simp
qed

lemma cnt_dispatched: "dispatched_calls Q y = cnt (\<lambda>f. fl_dispatched f \<and> Q (fl_call f)) (in_flight y)"
  by (simp add: dispatched_calls_def cnt_def)

lemma cnt_mono: "(\<And>x. x \<in># F \<Longrightarrow> A x \<Longrightarrow> B x) \<Longrightarrow> cnt A F \<le> cnt B F"
proof (induction F)
  case (add x F)
  have "cnt A F \<le> cnt B F" by (rule add.IH) (use add.prems in simp)
  then show ?case using add.prems [of x] by simp
qed simp

lemma cnt_at_most_one:
  assumes "live_exact live C F" "\<And>f. f \<in># F \<Longrightarrow> Q f \<Longrightarrow> sc_id (fl_call f) = i"
  shows "cnt Q F \<le> 1"
proof -
  have "cnt Q F \<le> cnt (\<lambda>f. sc_id (fl_call f) = i) F" using assms(2) by (rule cnt_mono)
  also have "\<dots> \<le> 1" using assms(1) [unfolded live_exact_def, rule_format, of i] by (simp split: if_splits)
  finally show ?thesis .
qed

section \<open>Shutdown\<close>

lemma reject_call_queue:
  assumes "center_inv cfg R P s" "i < length (plugin_queue s plugin)" "reject_call plugin i e s = (Ok (), t)"
  shows "sd_queues t = sd_queues (take_move plugin i s)" "sd_closing t = sd_closing s"
  using assms(3) take_call_eq [OF center_invD [OF assms(1)] assms(2)]
  by (auto simp: reject_call_def bind_action_def ret_def write_state_def try_read_def modify_at_def take_move_others
      split: scheduled_request.splits outcome.splits option.splits)

lemma reject_all_of_queue:
  assumes "env_safe ev" "center_inv cfg R P s" "sd_closing s" "length (plugin_queue s plugin) \<le> n"
  shows "wp (reject_queue n ev plugin 0) (\<lambda>_ t. center_inv cfg R P t \<and> sd_closing t \<and> plugin_queue t plugin = [] \<and>
    (\<forall>k. k \<noteq> plugin \<longrightarrow> plugin_queue t k = plugin_queue s k)) (\<lambda>_. False) s"
  using assms(2-4)
proof (induction n arbitrary: s)
  case 0
  then show ?case by (simp add: wp_simps)
next
  case (Suc n)
  show ?case
  proof (cases "plugin_queue s plugin")
    case Nil
    then show ?thesis using Suc.prems by (auto simp: wp_simps plugin_queue_def split: option.splits)
  next
    case (Cons c q)
    then have i: "0 < length (plugin_queue s plugin)" by simp
    have found: "(case bt_get (sd_queues s) plugin of None \<Rightarrow> None | Some q \<Rightarrow> if 0 < length q then Some (q ! 0) else None) = Some c"
      using Cons by (auto simp: plugin_queue_def split: option.splits)
    obtain e where e: "reject_reason ev s c = Ok (Some e)"
      using Suc.prems(2) env_safe_case(1) [OF assms(1), of "sc_control c"] by (cases "ev_check ev (sc_control c)") (auto simp: reject_reason_def)
    have wfq: "bt_wf (sd_queues s)" using sched_inv_parts(1) [OF center_invD [OF Suc.prems(1)]] by (simp add: queue_inv_def)
    have rejected: "wp (reject_call plugin 0 e) (\<lambda>_ t. center_inv cfg R P t \<and> length (plugin_queue t plugin) < length (plugin_queue s plugin) \<and> sd_closing t \<and>
        (\<forall>k. k \<noteq> plugin \<longrightarrow> plugin_queue t k = plugin_queue s k)) (\<lambda>_. False) s"
    proof (rule wp_of_result)
      note w = wp_result [OF wp_reject_call [OF Suc.prems(1) i, of e]]
      fix x t assume run: "reject_call plugin 0 e s = (Ok x, t)"
      then have "sd_queues t = sd_queues (take_move plugin 0 s)" "sd_closing t = sd_closing s"
        using reject_call_queue [OF Suc.prems(1) i] by simp_all
      moreover have "plugin_queue (take_move plugin 0 s) k = plugin_queue s k" if "k \<noteq> plugin" for k
        using plugin_queue_leave [OF wfq, of plugin 0 k] that by (simp add: take_move_def Let_def plugin_queue_def)
      ultimately show "center_inv cfg R P t \<and> length (plugin_queue t plugin) < length (plugin_queue s plugin) \<and> sd_closing t \<and>
          (\<forall>k. k \<noteq> plugin \<longrightarrow> plugin_queue t k = plugin_queue s k)"
        using w(1) [OF run] Suc.prems(2) by (simp add: plugin_queue_def)
    qed (use wp_result [OF wp_reject_call [OF Suc.prems(1) i, of e]] in auto)
    have "wp (bind_action (reject_call plugin 0 e) (\<lambda>_. reject_queue n ev plugin 0)) (\<lambda>_ t. center_inv cfg R P t \<and> sd_closing t \<and> plugin_queue t plugin = [] \<and>
        (\<forall>k. k \<noteq> plugin \<longrightarrow> plugin_queue t k = plugin_queue s k)) (\<lambda>_. False) s"
      unfolding wp_bind
    proof (rule wp_mono [OF rejected])
      fix x t assume t: "center_inv cfg R P t \<and> length (plugin_queue t plugin) < length (plugin_queue s plugin) \<and> sd_closing t \<and>
        (\<forall>k. k \<noteq> plugin \<longrightarrow> plugin_queue t k = plugin_queue s k)"
      show "wp (reject_queue n ev plugin 0) (\<lambda>_ t. center_inv cfg R P t \<and> sd_closing t \<and> plugin_queue t plugin = [] \<and>
        (\<forall>k. k \<noteq> plugin \<longrightarrow> plugin_queue t k = plugin_queue s k)) (\<lambda>_. False) t"
        by (rule wp_mono [OF Suc.IH [of t]]) (use t Suc.prems(3) in auto)
    qed simp
    then show ?thesis using e by (simp add: wp_simps found)
  qed
qed

lemma reject_all_plugins:
  assumes "env_safe ev" "center_inv cfg R P s" "sd_closing s"
  shows "wp (reject_plugins ev ps) (\<lambda>_ t. center_inv cfg R P t \<and> (\<forall>k. plugin_queue t k = (if k \<in> set ps then [] else plugin_queue s k))) (\<lambda>_. False) s"
  using assms(2,3)
proof (induction ps arbitrary: s)
  case (Cons p ps)
  have n: "(case bt_get (sd_queues s) p of None \<Rightarrow> 0 | Some q \<Rightarrow> length q) = length (plugin_queue s p)" by (simp add: plugin_queue_def split: option.splits)
  have "wp (bind_action (reject_queue (length (plugin_queue s p)) ev p 0) (\<lambda>_. reject_plugins ev ps))
    (\<lambda>_ t. center_inv cfg R P t \<and> (\<forall>k. plugin_queue t k = (if k \<in> set (p # ps) then [] else plugin_queue s k))) (\<lambda>_. False) s"
    unfolding wp_bind
    by (rule wp_mono [OF reject_all_of_queue [OF assms(1) Cons.prems order_refl]]) (auto intro!: wp_mono [OF Cons.IH])
  then show ?case by (simp add: wp_simps n)
qed (simp add: wp_simps)

lemma count_filter: "sum_list (map (\<lambda>e. of_bool (Q e)) xs) = length (filter Q xs)"
  by (induction xs) auto

section \<open>A run\<close>

text \<open>
  A plugin with a capacity, a pool of sessions in it and a session whose opening is queued, then
  dispatched; \<open>srun_closing\<close> is the queued state after shutdown was requested.
\<close>

definition srun_config :: embedded_runtime_config where
  "srun_config = \<lparr>max_registered_plugins = 4, max_registered_pools = 4, max_sessions = 4,
     max_registered_capabilities = 4, max_resident_vms = 3, max_running_calls = 2, max_queued_calls = 4,
     max_queued_bytes = 1000, max_operations = 8, max_effect_records_per_operation = 4,
     max_effect_bytes_per_operation = 1000, max_host_requests = 4, max_host_request_bytes = 1000,
     max_value_bytes = 100\<rparr>"

definition srun_plugin :: embedded_plugin_config where
  "srun_plugin = \<lparr>plg_max_registered_pools = 2, plg_max_sessions = 2, plg_max_resident_vms = 3, plg_max_running_calls = 2,
     plg_max_queued_calls = 4, plg_max_queued_bytes = 1000, plg_max_operations = 4\<rparr>"

definition srun_capacity :: embedded_capacity_config where
  "srun_capacity = \<lparr>ccf_resources = \<lparr>cap_kind = Dedicated, cap_min_resident_vms = 1, cap_max_resident_vms = 2, cap_max_running_calls = 1\<rparr>,
     ccf_max_queued_calls = 4, ccf_max_queued_bytes = 1000\<rparr>"

definition srun_policy :: plugin_pool_config where
  "srun_policy = \<lparr>pool_kind_of = Dedicated, pool_min_resident_vms = 0, pool_max_resident_vms = 2,
     pool_max_running_calls = 1, pool_max_queued_calls = 2, pool_reuse = Session, pool_serial = True,
     pool_backend = InProcess, pool_idle_ttl_ms = None, pool_max_uses = None\<rparr>"

definition srun_env :: "string \<Rightarrow> scheduler_env" where
  "srun_env ident = \<lparr>ev_now = 0, ev_check = \<lambda>_. Ok (), ev_schema = \<lparr>sl_build = \<lambda>_. None, sl_validate = \<lambda>_ _. None\<rparr>, ev_json = \<lambda>_. Ok (), ev_context = \<lambda>_. Ok (), ev_admit = \<lambda>_. Ok ident,
     ev_admit_reserved = \<lambda>_. Err sched_closed, ev_reserve = \<lambda>_ _ _. Ok (), ev_usage = \<lambda>_. Ok pool_usage_default, ev_accounting = \<lambda>_. Ok (pool_usage_default, 0),
     ev_prepare = \<lambda>_ _ _. Ok 5, ev_allocation_id = \<lambda>_. Ok ''vm'', ev_plan = \<lambda>_. False, ev_can_retain = \<lambda>_. True, ev_retired = \<lambda>_. Ok True\<rparr>"

definition srun_submission :: submission_env where
  "srun_submission = \<lparr>sv_submission = Ok (), sv_control = Ok 7, sv_value = \<lambda>_. \<lparr>ser_chunks = [10], ser_failed = False\<rparr>,
     sv_call = \<lambda>_. \<lparr>ser_chunks = [20], ser_failed = False\<rparr>, sv_prewarm = \<lambda>_. \<lparr>ser_chunks = [20], ser_failed = False\<rparr>,
     sv_request = \<lambda>_. \<lparr>ser_chunks = [20], ser_failed = False\<rparr>\<rparr>"

definition srun_module :: prepared_module where
  "srun_module = \<lparr>pm_plugin_id = ''p'', pm_inputs = [], pm_finalizer = True\<rparr>"

definition srun_plugin_entry :: "nat \<Rightarrow> nat \<Rightarrow> nat \<Rightarrow> scheduled_plugin" where
  "srun_plugin_entry q n r = \<lparr>sg_config = srun_plugin, sg_queued = q, sg_bytes = 20 * q, sg_operations = n, sg_reserved_operations = r, sg_closing = False\<rparr>"

definition srun_pool_entry :: "nat \<Rightarrow> nat \<Rightarrow> scheduled_pool" where
  "srun_pool_entry q a = \<lparr>sp_inputs = [], sp_policy = srun_policy, sp_finalizer = True, sp_plugin_id = ''p'', sp_capacity_id = Some ''r:capacity:1'',
     sp_queued = q, sp_active = a, sp_closed = False\<rparr>"

definition srun_capacity_entry :: scheduled_capacity where
  "srun_capacity_entry = \<lparr>sk_plugin_id = ''p'', sk_config = srun_capacity, sk_policy_revision = 1, sk_closing = False\<rparr>"

definition srun_call :: scheduled_call where
  "srun_call = \<lparr>sc_reusable_instance = None, sc_id = ''r:op:2'', sc_control = 7, sc_request = OpenSession ''r:pool:2'' ''r:session:3'', sc_bytes = 20\<rparr>"

definition srun_session :: "nat \<Rightarrow> scheduled_session" where
  "srun_session q = (new_session True ''r:pool:2'' 5)\<lparr>ss_queued := q, ss_unfinished := 1\<rparr>"

definition srun_registered :: scheduler_state where
  "srun_registered = scheduler_empty\<lparr>sd_plugins := [(''p'', srun_plugin_entry 0 0 0)], sd_capacities := [(''r:capacity:1'', srun_capacity_entry)],
     sd_pools := [(''r:pool:2'', srun_pool_entry 0 0)], sd_sequence := 2\<rparr>"

definition srun_queued :: scheduler_state where
  "srun_queued = srun_registered\<lparr>sd_plugins := [(''p'', srun_plugin_entry 1 1 1)], sd_pools := [(''r:pool:2'', srun_pool_entry 1 0)], sd_sequence := 3,
     sd_sessions := [(''r:session:3'', srun_session 1)], sd_operation_plugins := [(''r:op:2'', ''p'')], sd_queues := [(''p'', [srun_call])],
     sd_rotation := [''p''], sd_queued := 1, sd_bytes := 20, sd_live := [(''r:op:2'', 7)]\<rparr>"

definition srun_dispatched :: scheduler_state where
  "srun_dispatched = srun_queued\<lparr>sd_plugins := [(''p'', srun_plugin_entry 0 1 1)], sd_pools := [(''r:pool:2'', srun_pool_entry 0 1)],
     sd_sessions := [(''r:session:3'', (srun_session 0)\<lparr>ss_lease := None, ss_active := Some ''r:op:2''\<rparr>)],
     sd_queues := [], sd_rotation := [], sd_queued := 0, sd_bytes := 0\<rparr>"

lemmas srun_entries = srun_config_def srun_plugin_def srun_capacity_def srun_policy_def srun_env_def srun_submission_def srun_module_def
  srun_plugin_entry_def srun_pool_entry_def srun_capacity_entry_def srun_call_def srun_session_def

lemmas srun_states = srun_registered_def srun_queued_def srun_dispatched_def scheduler_empty_def

lemmas srun_base = bind_action_def ret_def fail_def write_state_def read_state_def try_read_def from_result_def require_def require_state_def modify_at_def
  catch_action_def discard_def decrease_def checked_sub_def checked_add_def saturating_sub_def u64_max_def bt_values_def Let_def

lemmas srun_checks = plugin_config_validate_def runtime_config_validate_def capacity_config_validate_def pool_config_validate_def pool_capacity_def
  embedded_capacity_validate_def trim_is_empty_def is_whitespace_def json_size_eq ser_length_def pool_usage_default_def add_charge_def
  plugin_commitment_def plugin_commitment_with_capacity_def capacity_residents_def plugin_validate_pool_def members_def plugin_allows_allocation_def next_sequence_def

lemma srun_ids: "identity_render CapacityIdentity ''r'' (Suc 0) = ''r:capacity:1''" "identity_render PoolIdentity ''r'' (Suc (Suc 0)) = ''r:pool:2''"
  "identity_render SessionIdentity ''r'' (Suc (Suc (Suc 0))) = ''r:session:3''"
  by code_simp+

lemma srun_registers_plugin:
  "register_plugin srun_config \<lparr>ser_chunks = [3], ser_failed = False\<rparr> ''p'' srun_plugin scheduler_empty =
     (Ok (), scheduler_empty\<lparr>sd_plugins := [(''p'', srun_plugin_entry 0 0 0)]\<rparr>)"
  by (simp add: register_plugin_def srun_base srun_checks srun_entries scheduler_empty_def)

lemma srun_registers_capacity:
  "sched_register_capacity (srun_env ''r:op:2'') srun_config ''r'' (\<lambda>_ _. Ok ()) ''p'' srun_capacity (scheduler_empty\<lparr>sd_plugins := [(''p'', srun_plugin_entry 0 0 0)]\<rparr>) =
     (Ok ''r:capacity:1'', scheduler_empty\<lparr>sd_plugins := [(''p'', srun_plugin_entry 0 0 0)], sd_capacities := [(''r:capacity:1'', srun_capacity_entry)], sd_sequence := 1\<rparr>)"
  by (simp add: sched_register_capacity_def sched_register_capacity_check_def srun_base srun_checks srun_entries scheduler_empty_def srun_ids)

lemma srun_registers_pool:
  "register_pool_with_binding (srun_env ''r:op:2'') srun_config ''r'' None (Ok ()) (Ok srun_module) (\<lambda>_. Ok ()) srun_policy (Some ''r:capacity:1'')
     (scheduler_empty\<lparr>sd_plugins := [(''p'', srun_plugin_entry 0 0 0)], sd_capacities := [(''r:capacity:1'', srun_capacity_entry)], sd_sequence := 1\<rparr>) =
     (Ok ''r:pool:2'', srun_registered)"
  by (simp add: register_pool_with_binding_def register_pool_check_def validate_capacity_member_def validate_plugin_pool_def srun_base srun_checks srun_entries srun_states srun_ids numeral_2_eq_2)

lemma srun_opens_session:
  "open_session srun_submission (srun_env ''r:op:2'') srun_config ''r'' ''r:pool:2'' srun_registered = (Ok (''r:session:3'', ''r:op:2''), srun_queued)"
  by (simp add: open_session_def open_check_def check_persistence_admission_def plugin_sessions_def change_reserved_def new_session_def enqueue_opening_def
      sched_enqueue_def enqueue_check_def validate_capacity_queue_def capacity_queue_def queued_calls_def push_call_def
      srun_base srun_checks srun_entries srun_states srun_ids numeral_3_eq_3 numeral_2_eq_2)

lemma srun_selects:
  "sched_select (srun_env ''r:op:3'') srun_queued = (Ok (Some (Ready srun_call 5)), srun_dispatched)"
  by (simp add: sched_select_def scanned_call_def dispatchable_def capacity_allows_execution_def capacity_active_def plugin_active_def
      dispatch_call_def take_call_def pull_call_def dispatch_session_def activate_pool_def new_session_def srun_base srun_entries srun_states)

lemma srun_dispatches:
  "exec_next (srun_env ''r:op:3'') srun_queued = (Ok (WorkerRun (Ready srun_call 5)), srun_dispatched)"
  using srun_selects by (simp add: exec_next_def fully_drained_def bind_action_def ret_def srun_states)

lemma srun_env_safe: "env_safe (srun_env ident)"
  by (simp add: env_safe_def srun_env_def)

lemma srun_env_ok:
  assumes "bt_get (sd_live s) ident = None" "bt_get (sd_operation_plugins s) ident = None" "sd_reusable_instances s = []"
  shows "env_ok (srun_env ident) s"
  using assms srun_env_safe by (simp add: env_ok_def env_fresh_def plans_owned_def admissions_fresh_def srun_env_def)

lemma srun_step:
  assumes "env_ok ev s" "sched_call cfg runtime ev srun_submission m" "m s = (Ok (), t)" "sched_reach cfg runtime \<lparr>sy_state = s, sy_running = {#}, sy_held = {#}\<rparr>"
  shows "sched_reach cfg runtime \<lparr>sy_state = t, sy_running = {#}, sy_held = {#}\<rparr>"
proof -
  have "submission_safe srun_submission" by (simp add: submission_safe_def srun_submission_def)
  from reach_step [OF assms(4) step_call [OF _ this assms(2)], of "Ok ()" t] show ?thesis using assms(1,3) by simp
qed

lemma srun_call_step:
  assumes "env_ok ev s" "sched_call cfg runtime ev srun_submission (discard m)" "m s = (Ok x, t)" "sched_reach cfg runtime \<lparr>sy_state = s, sy_running = {#}, sy_held = {#}\<rparr>"
  shows "sched_reach cfg runtime \<lparr>sy_state = t, sy_running = {#}, sy_held = {#}\<rparr>"
  using assms(1,2) _ assms(4) by (rule srun_step) (simp add: assms(3) discard_def bind_action_def ret_def)

lemma srun_queued_reach: "sched_reach srun_config ''r'' \<lparr>sy_state = srun_queued, sy_running = {#}, sy_held = {#}\<rparr>"
proof -
  have "sched_reach srun_config ''r'' \<lparr>sy_state = scheduler_empty, sy_running = {#}, sy_held = {#}\<rparr>"
    using reach_start [of srun_config "''r''"] by (simp add: sched_start_def)
  then have "sched_reach srun_config ''r'' \<lparr>sy_state = scheduler_empty\<lparr>sd_plugins := [(''p'', srun_plugin_entry 0 0 0)]\<rparr>, sy_running = {#}, sy_held = {#}\<rparr>"
    by (rule srun_step [OF srun_env_ok [of _ "''r:op:2''"] call_register_plugin srun_registers_plugin, rotated -1]) (simp_all add: srun_states)
  then have "sched_reach srun_config ''r'' \<lparr>sy_state = scheduler_empty\<lparr>sd_plugins := [(''p'', srun_plugin_entry 0 0 0)],
      sd_capacities := [(''r:capacity:1'', srun_capacity_entry)], sd_sequence := 1\<rparr>, sy_running = {#}, sy_held = {#}\<rparr>"
    by (rule srun_call_step [where m = "sched_register_capacity (srun_env ''r:op:2'') srun_config ''r'' (\<lambda>_ _. Ok ()) ''p'' srun_capacity", rotated 2, OF srun_registers_capacity]) (auto intro!: srun_env_ok call_register_capacity simp: srun_states)
  then have "sched_reach srun_config ''r'' \<lparr>sy_state = srun_registered, sy_running = {#}, sy_held = {#}\<rparr>"
    by (rule srun_call_step [where m = "register_pool_with_binding (srun_env ''r:op:2'') srun_config ''r'' None (Ok ()) (Ok srun_module) (\<lambda>_. Ok ()) srun_policy (Some ''r:capacity:1'')", rotated 2, OF srun_registers_pool]) (auto intro!: srun_env_ok call_register_pool simp: srun_states)
  then show ?thesis
    by (rule srun_call_step [where m = "open_session srun_submission (srun_env ''r:op:2'') srun_config ''r'' ''r:pool:2''", rotated 2, OF srun_opens_session]) (auto intro!: srun_env_ok call_open_session simp: srun_states)
qed

lemma srun_dispatched_step: "sched_step srun_config ''r'' \<lparr>sy_state = srun_queued, sy_running = {#}, sy_held = {#}\<rparr> False
    \<lparr>sy_state = srun_dispatched, sy_running = {#(srun_call, True, None)#}, sy_held = {#}\<rparr>"
  using step_next [of "srun_env ''r:op:3''" "\<lparr>sy_state = srun_queued, sy_running = {#}, sy_held = {#}\<rparr>", OF srun_env_ok, of _ _ srun_config "''r''"] srun_dispatches
  by (simp add: srun_states)

lemma srun_dispatched_reach: "sched_reach srun_config ''r'' \<lparr>sy_state = srun_dispatched, sy_running = {#(srun_call, True, None)#}, sy_held = {#}\<rparr>"
  by (rule reach_step [OF srun_queued_reach srun_dispatched_step])

lemma srun_closing_reach: "sched_reach srun_config ''r'' \<lparr>sy_state = srun_queued\<lparr>sd_closing := True\<rparr>, sy_running = {#}, sy_held = {#}\<rparr>"
  by (rule srun_step [OF srun_env_ok call_request_close _ srun_queued_reach, of "''r:op:3''"])
    (simp_all add: srun_states write_state_def sched_request_close_def)

section \<open>Properties\<close>

text \<open>
  Property C2. Every admitted call is in exactly one place: in every reachable state the identities
  the scheduler keeps as live are, with their multiplicities, those of the queued calls, of the calls
  workers run and of the completions that wait or are being finished.
\<close>

theorem calls_in_one_place:
  assumes "sched_reach cfg runtime y"
  shows "mset (map fst (sd_live (sy_state y))) = image_mset sc_id (mset (queued_calls (sy_state y))) + image_mset (\<lambda>f. sc_id (fl_call f)) (in_flight y)"
proof -
  have "call_inv (sy_state y) (queued_mset (sy_state y)) (in_flight y)" by (rule sched_inv_parts(2) [OF reach_sched_inv [OF assms]])
  then show ?thesis unfolding call_inv_def by (intro live_is_mset) simp_all
qed

lemma calls_in_one_place_witness:
  "{#''r:op:2''#} = image_mset sc_id (mset (queued_calls srun_dispatched)) + image_mset (\<lambda>f. sc_id (fl_call f)) (in_flight \<lparr>sy_state = srun_dispatched, sy_running = {#(srun_call, True, None)#}, sy_held = {#}\<rparr>)"
  using calls_in_one_place [OF srun_dispatched_reach] by (simp add: srun_states)

text \<open>
  Property C18. The counters the scheduler reports are exact: asking for its usage never underflows, and
  the answer counts the queued calls, their bytes, the calls in flight and the completions not yet published.
\<close>

theorem usage_exact:
  assumes "sched_reach cfg runtime y"
  shows "sched_usage (sy_state y) = Ok \<lparr>us_queued_calls = length (queued_calls (sy_state y)), us_queued_bytes = sum_list (map sc_bytes (queued_calls (sy_state y))),
    us_active_operations = size (in_flight y),
    us_cleaning_operations = size (sy_held y) + length (sd_cleaning (sy_state y)) + length (sd_finalizing (sy_state y)), us_closing = sd_closing (sy_state y)\<rparr>"
proof -
  note si = reach_sched_inv [OF assms]
  have queue: "sd_queued (sy_state y) = length (queued_calls (sy_state y))" "sd_bytes (sy_state y) = sum_list (map sc_bytes (queued_calls (sy_state y)))"
    using sched_inv_parts(1) [OF si] by (simp_all add: queue_inv_def)
  have "mset (map fst (sd_live (sy_state y))) = image_mset sc_id (queued_mset (sy_state y)) + image_mset (\<lambda>f. sc_id (fl_call f)) (in_flight y)"
    using sched_inv_parts(2) [OF si] unfolding call_inv_def by (intro live_is_mset) simp_all
  then have "size (mset (map fst (sd_live (sy_state y)))) = length (queued_calls (sy_state y)) + size (in_flight y)" by simp
  then have "length (sd_live (sy_state y)) = length (queued_calls (sy_state y)) + size (in_flight y)" by simp
  moreover have "sd_cleaning_count (sy_state y) = size (sy_held y) + length (sd_cleaning (sy_state y)) + length (sd_finalizing (sy_state y))"
    using reach_inv [OF assms] by (simp add: system_inv_def center_inv_def)
  ultimately show ?thesis using queue by (simp add: sched_usage_def decrease_enough)
qed

lemma usage_exact_witness:
  "sched_usage srun_dispatched = Ok \<lparr>us_queued_calls = 0, us_queued_bytes = 0, us_active_operations = 1, us_cleaning_operations = 0, us_closing = False\<rparr>"
  using usage_exact [OF srun_dispatched_reach] by (simp add: srun_states queued_calls_def in_flight_def state_flights_def bt_values_def)

text \<open>
  Property C3. Running calls stay within every budget: a pool, its plugin and its capacity never have
  more dispatched calls than they allow, counted call by call over the whole system.
\<close>

theorem running_within_limits:
  assumes "sched_reach cfg runtime y"
  shows "(\<forall>k p. bt_get (sd_pools (sy_state y)) k = Some p \<longrightarrow> dispatched_calls (\<lambda>c. sc_pool c = k) y \<le> pool_max_running_calls (sp_policy p)) \<and>
    (\<forall>k g. bt_get (sd_plugins (sy_state y)) k = Some g \<longrightarrow>
       dispatched_calls (\<lambda>c. \<exists>p. bt_get (sd_pools (sy_state y)) (sc_pool c) = Some p \<and> sp_plugin_id p = k) y \<le> plg_max_running_calls (sg_config g)) \<and>
    (\<forall>k c. bt_get (sd_capacities (sy_state y)) k = Some c \<longrightarrow>
       dispatched_calls (\<lambda>x. \<exists>p. bt_get (sd_pools (sy_state y)) (sc_pool x) = Some p \<and> sp_capacity_id p = Some k) y \<le> cap_max_running_calls (ccf_resources (sk_config c)))"
proof -
  note si = reach_sched_inv [OF assms]
  have "pool_counts (sd_pools (sy_state y)) (queued_mset (sy_state y)) (in_flight y)" using sched_inv_parts(2) [OF si] by (simp add: call_inv_def)
  then have pool: "sp_active p = dispatched_calls (\<lambda>c. sc_pool c = k) y" if "bt_get (sd_pools (sy_state y)) k = Some p" for k p
    using that unfolding pool_counts_def cnt_dispatched by simp
  have shared: "active_of (sd_pools (sy_state y)) Q = dispatched_calls (\<lambda>c. \<exists>p. bt_get (sd_pools (sy_state y)) (sc_pool c) = Some p \<and> Q p) y" for Q
    by (simp add: active_of_calls [OF si] cnt_dispatched)
  have limits: "limit_inv cfg (sy_state y)" by (rule sched_inv_parts(6) [OF si])
  have "dispatched_calls (\<lambda>c. sc_pool c = k) y \<le> pool_max_running_calls (sp_policy p)" if "bt_get (sd_pools (sy_state y)) k = Some p" for k p
    using limits that unfolding limit_inv_def pool [OF that, symmetric] by blast
  moreover have "plugin_active (sy_state y) k \<le> plg_max_running_calls (sg_config g)" if "bt_get (sd_plugins (sy_state y)) k = Some g" for k g
    using limits that unfolding limit_inv_def by blast
  moreover have "capacity_active (sy_state y) k \<le> cap_max_running_calls (ccf_resources (sk_config c))" if "bt_get (sd_capacities (sy_state y)) k = Some c" for k c
    using limits that unfolding limit_inv_def by blast
  ultimately show ?thesis unfolding plugin_active_eq capacity_active_eq shared by blast
qed

lemma running_within_limits_witness:
  "dispatched_calls (\<lambda>c. sc_pool c = ''r:pool:2'') \<lparr>sy_state = srun_dispatched, sy_running = {#(srun_call, True, None)#}, sy_held = {#}\<rparr> \<le> 1 \<and>
   dispatched_calls (\<lambda>c. \<exists>p. bt_get (sd_pools srun_dispatched) (sc_pool c) = Some p \<and> sp_plugin_id p = ''p'') \<lparr>sy_state = srun_dispatched, sy_running = {#(srun_call, True, None)#}, sy_held = {#}\<rparr> \<le> 2 \<and>
   dispatched_calls (\<lambda>x. \<exists>p. bt_get (sd_pools srun_dispatched) (sc_pool x) = Some p \<and> sp_capacity_id p = Some ''r:capacity:1'') \<lparr>sy_state = srun_dispatched, sy_running = {#(srun_call, True, None)#}, sy_held = {#}\<rparr> \<le> 1"
proof -
  have e: "bt_get (sd_pools srun_dispatched) ''r:pool:2'' = Some (srun_pool_entry 0 1)" "bt_get (sd_plugins srun_dispatched) ''p'' = Some (srun_plugin_entry 0 1 1)"
    "bt_get (sd_capacities srun_dispatched) ''r:capacity:1'' = Some srun_capacity_entry" by (simp_all add: srun_states)
  have n: "pool_max_running_calls (sp_policy (srun_pool_entry 0 1)) = 1" "plg_max_running_calls (sg_config (srun_plugin_entry 0 1 1)) = 2"
    "cap_max_running_calls (ccf_resources (sk_config srun_capacity_entry)) = 1" by (simp_all add: srun_entries)
  note l = running_within_limits [OF srun_dispatched_reach, unfolded sched_system.simps]
  show ?thesis
    using l [THEN conjunct1, rule_format, OF e(1)] l [THEN conjunct2, THEN conjunct1, rule_format, OF e(2)] l [THEN conjunct2, THEN conjunct2, rule_format, OF e(3)]
    unfolding n by (intro conjI)
qed

text \<open>
  Property C7. A VM has one user: at most one dispatched call uses a session, at most one uses a reusable
  instance, and while one does the owner itself holds no lease to give to another.
\<close>

theorem vm_used_by_one_call:
  assumes "sched_reach cfg runtime y"
  shows "(\<forall>k. dispatched_calls (\<lambda>c. sc_session c = Some k) y \<le> 1) \<and> (\<forall>k. dispatched_calls (\<lambda>c. sc_reusable_instance c = Some k) y \<le> 1) \<and>
    (\<forall>k ss. bt_get (sd_sessions (sy_state y)) k = Some ss \<longrightarrow> 0 < dispatched_calls (\<lambda>c. sc_session c = Some k) y \<longrightarrow> ss_lease ss = None) \<and>
    (\<forall>k u. bt_get (sd_reusable_instances (sy_state y)) k = Some u \<longrightarrow> 0 < dispatched_calls (\<lambda>c. sc_reusable_instance c = Some k) y \<longrightarrow> su_lease u = None)"
proof -
  note si = reach_sched_inv [OF assms]
  note parts = sched_inv_parts(2,3) [OF si]
  have live: "live_exact (sd_live (sy_state y)) (queued_mset (sy_state y)) (in_flight y)" using parts(1) by (simp add: call_inv_def)
  have ok: "flight_ok (sy_state y) f" if "f \<in># in_flight y" for f
    using parts(2) that by (simp add: lease_inv_def)
  have owned: "\<exists>ss. bt_get (sd_sessions (sy_state y)) k = Some ss" if "f \<in># in_flight y" "sc_session (fl_call f) = Some k" for f k
    using parts(1) that unfolding call_inv_def call_owned_def by blast
  have session: "ss_active ss = Some (sc_id (fl_call f))"
    if "f \<in># in_flight y" "fl_dispatched f \<and> sc_session (fl_call f) = Some k" "bt_get (sd_sessions (sy_state y)) k = Some ss" for f k ss
    using ok [OF that(1)] that(2,3) by (auto simp: flight_ok_def)
  have reusable: "\<exists>u. bt_get (sd_reusable_instances (sy_state y)) k = Some u \<and> su_active u = Some (sc_id (fl_call f))"
    if "f \<in># in_flight y" "fl_dispatched f \<and> sc_reusable_instance (fl_call f) = Some k" for f k
    using ok [OF that(1)] that(2) by (auto simp: flight_ok_def)
  have one: "dispatched_calls (\<lambda>c. sc_session c = Some k) y \<le> 1" for k
    unfolding cnt_dispatched
  proof (rule cnt_at_most_one [OF live, where i = "the (ss_active (the (bt_get (sd_sessions (sy_state y)) k)))"])
    fix f assume f: "f \<in># in_flight y" "fl_dispatched f \<and> sc_session (fl_call f) = Some k"
    then obtain ss where ss: "bt_get (sd_sessions (sy_state y)) k = Some ss" using owned by blast
    show "sc_id (fl_call f) = the (ss_active (the (bt_get (sd_sessions (sy_state y)) k)))" using session [OF f ss] ss by simp
  qed
  have two: "dispatched_calls (\<lambda>c. sc_reusable_instance c = Some k) y \<le> 1" for k
    unfolding cnt_dispatched
  proof (rule cnt_at_most_one [OF live, where i = "the (su_active (the (bt_get (sd_reusable_instances (sy_state y)) k)))"])
    fix f assume "f \<in># in_flight y" "fl_dispatched f \<and> sc_reusable_instance (fl_call f) = Some k"
    from reusable [OF this] show "sc_id (fl_call f) = the (su_active (the (bt_get (sd_reusable_instances (sy_state y)) k)))" by auto
  qed
  have used: "\<exists>f. f \<in># in_flight y \<and> fl_dispatched f \<and> Q (fl_call f)" if "0 < dispatched_calls Q y" for Q
    using that cnt_zero_iff [of "\<lambda>f. fl_dispatched f \<and> Q (fl_call f)" "in_flight y"] unfolding cnt_dispatched by (metis less_not_refl)
  have three: "ss_lease ss = None" if ss: "bt_get (sd_sessions (sy_state y)) k = Some ss" and u: "0 < dispatched_calls (\<lambda>c. sc_session c = Some k) y" for k ss
  proof -
    obtain f where f: "f \<in># in_flight y" "fl_dispatched f \<and> sc_session (fl_call f) = Some k" using used [OF u] by blast
    have "session_ok (sd_pools (sy_state y)) ss" using parts(2) ss unfolding lease_inv_def by blast
    then show ?thesis using session [OF f ss] by (auto simp: session_ok_def)
  qed
  have four: "su_lease v = None" if v: "bt_get (sd_reusable_instances (sy_state y)) k = Some v" and u: "0 < dispatched_calls (\<lambda>c. sc_reusable_instance c = Some k) y" for k v
  proof -
    obtain f where f: "f \<in># in_flight y" "fl_dispatched f \<and> sc_reusable_instance (fl_call f) = Some k" using used [OF u] by blast
    have "reusable_ok (sd_pools (sy_state y)) v" using parts(2) v unfolding lease_inv_def by blast
    then show ?thesis using reusable [OF f] v by (auto simp: reusable_ok_def)
  qed
  show ?thesis using one two three four by blast
qed

lemma vm_used_by_one_call_witness:
  "dispatched_calls (\<lambda>c. sc_session c = Some ''r:session:3'') \<lparr>sy_state = srun_dispatched, sy_running = {#(srun_call, True, None)#}, sy_held = {#}\<rparr> = 1 \<and> map_option ss_lease (bt_get (sd_sessions srun_dispatched) ''r:session:3'') = Some None"
proof -
  have "dispatched_calls (\<lambda>c. sc_session c = Some ''r:session:3'') \<lparr>sy_state = srun_dispatched, sy_running = {#(srun_call, True, None)#}, sy_held = {#}\<rparr> = 1"
    by (simp add: dispatched_calls_def in_flight_def state_flights_def srun_call_def srun_states)
  moreover have "bt_get (sd_sessions srun_dispatched) ''r:session:3'' = Some ((srun_session 0)\<lparr>ss_lease := None, ss_active := Some ''r:op:2''\<rparr>)"
    by (simp add: srun_states)
  ultimately show ?thesis using vm_used_by_one_call [OF srun_dispatched_reach] by simp
qed

text \<open>
  Property C5. No section of the scheduler panics: in every reachable state none of its expectations
  fails and none of its counters underflows, whichever host call, worker or supervisor section runs next.
\<close>

theorem scheduler_never_panics:
  assumes "sched_reach cfg runtime y" "sched_step cfg runtime y b y'"
  shows "\<not> b"
  using step_inv [OF assms(2) reach_inv [OF assms(1)]] by simp

lemma scheduler_never_panics_witness: "\<not> is_panic (fst (exec_next (srun_env ''r:op:3'') srun_queued))"
proof -
  have "env_ok (srun_env ''r:op:3'') srun_queued" by (rule srun_env_ok) (simp_all add: srun_states)
  from scheduler_never_panics [OF srun_queued_reach step_next [of "srun_env ''r:op:3''"]] this show ?thesis by (simp add: srun_dispatches)
qed

text \<open>
  Property C15. Selection is first in, first out for every pool and session, and takes plugins in turn:
  the dispatched call is the first of its pool and session in the queue of its plugin, and that plugin goes
  to the end of the rotation, or leaves it with its last call.
\<close>

theorem selection_is_fair:
  assumes "sched_reach cfg runtime y" "env_ok ev (sy_state y)" "sched_select ev (sy_state y) = (Ok (Some d), t)"
  shows "\<exists>n plugin q i. n < length (sd_rotation (sy_state y)) \<and> sd_rotation (sy_state y) ! n = plugin \<and> bt_get (sd_queues (sy_state y)) plugin = Some q \<and> i < length q \<and>
    (\<forall>j < i. (sc_pool (q ! j), sc_session (q ! j)) \<noteq> (sc_pool (q ! i), sc_session (q ! i))) \<and>
    (case d of Ready c l \<Rightarrow> sc_id c = sc_id (q ! i) | Rejected c e \<Rightarrow> c = q ! i | FinalizingCall c \<Rightarrow> False) \<and>
    sd_rotation t = drop (Suc n) (sd_rotation (sy_state y)) @ take n (sd_rotation (sy_state y)) @ (if length q = 1 then [] else [plugin])"
proof -
  have inv: "center_inv cfg (sy_running y) (sy_held y) (sy_state y)" using reach_inv [OF assms(1)] by (simp add: system_inv_def)
  have "selected cfg (sy_running y) (sy_held y) (sy_state y) (Some d) t"
    using wp_select [OF inv, of ev] assms(2,3) by (simp add: wp_def env_ok_def env_fresh_def keys_fresh_def)
  then obtain n i where n: "n < length (sd_rotation (sy_state y))" and i: "first_of_slot (plugin_queue (sy_state y) (sd_rotation (sy_state y) ! n)) i"
    and d: "dispatched cfg (sy_running y) (sy_held y) (sy_state y) n (sd_rotation (sy_state y) ! n) i d t"
    by (auto simp: selected_def)
  obtain q where q: "bt_get (sd_queues (sy_state y)) (sd_rotation (sy_state y) ! n) = Some q" "plugin_queue (sy_state y) (sd_rotation (sy_state y) ! n) = q"
    using i by (auto simp: first_of_slot_def plugin_queue_def split: option.splits)
  show ?thesis
    using n q i d
    by (intro exI [of _ n] exI [of _ "sd_rotation (sy_state y) ! n"] exI [of _ q] exI [of _ i])
      (auto simp: first_of_slot_def call_slot_def dispatched_def queued_at_def split: worker_dispatch.splits)
qed

lemma selection_is_fair_witness:
  "sched_select (srun_env ''r:op:3'') srun_queued = (Ok (Some (Ready srun_call 5)), srun_dispatched) \<and>
   (\<exists>n plugin q i. n < length (sd_rotation srun_queued) \<and> sd_rotation srun_queued ! n = plugin \<and> bt_get (sd_queues srun_queued) plugin = Some q \<and> i < length q \<and>
      sc_id srun_call = sc_id (q ! i))"
proof -
  have "env_ok (srun_env ''r:op:3'') srun_queued" by (rule srun_env_ok) (simp_all add: srun_states)
  then show ?thesis using selection_is_fair [OF srun_queued_reach, of "srun_env ''r:op:3''"] srun_selects by fastforce
qed

text \<open>
  Property C16. Retained operations are bounded and closing calls keep their place: a plugin's retained
  operations are counted exactly, and together with the slots reserved for the closing calls of its sessions and
  instances they stay within its limit.
\<close>

theorem operation_slots_bounded:
  assumes "sched_reach cfg runtime y" "bt_get (sd_plugins (sy_state y)) k = Some g"
  shows "sg_operations g = length (filter (\<lambda>e. snd e = k) (sd_operation_plugins (sy_state y))) \<and>
    reserved_of (sy_state y) k \<le> sg_reserved_operations g \<and>
    length (filter (\<lambda>e. snd e = k) (sd_operation_plugins (sy_state y))) + sg_reserved_operations g \<le> plg_max_operations (sg_config g)"
proof -
  have "slot_inv (sy_state y)" by (rule sched_inv_parts(5) [OF reach_sched_inv [OF assms(1)]])
  then have "sg_operations g = retained_of (sy_state y) k \<and> reserved_of (sy_state y) k \<le> sg_reserved_operations g \<and>
    retained_of (sy_state y) k + sg_reserved_operations g \<le> plg_max_operations (sg_config g)"
    using assms(2) unfolding slot_inv_def by (metis order_refl)
  then show ?thesis unfolding retained_of_def count_filter .
qed

lemma operation_slots_bounded_witness:
  "reserved_of srun_dispatched ''p'' \<le> 1 \<and> length (filter (\<lambda>e. snd e = ''p'') (sd_operation_plugins srun_dispatched)) = 1"
  using operation_slots_bounded [OF srun_dispatched_reach, of "''p''" "srun_plugin_entry 0 1 1"] by (simp add: srun_states srun_plugin_entry_def)

text \<open>
  Property C17. Shutdown empties the queues: once closing has begun, one pass of the supervisor over
  the queued calls succeeds and rejects every one of them.
\<close>

theorem closing_rejects_every_queued_call:
  assumes "sched_reach cfg runtime y" "env_safe ev" "sd_closing (sy_state y)"
  shows "\<exists>t. reject_expired ev (sy_state y) = (Ok (), t) \<and> sd_queues t = [] \<and> sd_rotation t = [] \<and> sd_queued t = 0 \<and> sd_bytes t = 0 \<and>
    length (sd_live t) = size (sy_running y) + size (sy_held y) + length (sd_cleaning t) + length (sd_finalizing t)"
proof -
  let ?s = "sy_state y"
  have inv: "center_inv cfg (sy_running y) (sy_held y) ?s" using reach_inv [OF assms(1)] by (simp add: system_inv_def)
  have rot: "set (sd_rotation ?s) = dom (bt_get (sd_queues ?s))" using sched_inv_parts(1) [OF center_invD [OF inv]] by (simp add: queue_inv_def)
  obtain t where run: "reject_expired ev ?s = (Ok (), t)" and t: "center_inv cfg (sy_running y) (sy_held y) t"
    and q: "plugin_queue t k = (if k \<in> set (sd_rotation ?s) then [] else plugin_queue ?s k)" for k
    using reject_all_plugins [OF assms(2) inv assms(3), of "sd_rotation ?s"]
    by (auto simp: wp_def reject_expired_def bind_action_def read_state_def split: prod.splits outcome.splits)
  have empty: "plugin_queue t k = []" for k using q [of k] rot by (auto simp: plugin_queue_def)
  note parts = sched_inv_parts [OF center_invD [OF t]]
  have none: "bt_get (sd_queues t) k = None" for k using empty [of k] parts(1) by (auto simp: queue_inv_def plugin_queue_def split: option.splits)
  then have queues: "sd_queues t = []" by (cases "sd_queues t") (auto split: if_splits, metis fst_conv option.distinct(1))
  moreover have "queued_calls t = []" using queues by (simp add: queued_calls_def bt_values_def)
  moreover have "sd_rotation t = []" using parts(1) none by (auto simp: queue_inv_def dom_def)
  moreover have "mset (map fst (sd_live t)) = image_mset sc_id (queued_mset t) + image_mset (\<lambda>f. sc_id (fl_call f)) (all_flights (sy_running y) (sy_held y) t)"
    using parts(2) unfolding call_inv_def by (intro live_is_mset) simp_all
  then have "size (mset (map fst (sd_live t))) = size (image_mset sc_id (queued_mset t) + image_mset (\<lambda>f. sc_id (fl_call f)) (all_flights (sy_running y) (sy_held y) t))" by simp
  ultimately show ?thesis using run parts(1) by (simp add: queue_inv_def state_flights_def)
qed

lemma closing_rejects_every_queued_call_witness:
  "\<exists>t. reject_expired (srun_env ''r:op:3'') (srun_queued\<lparr>sd_closing := True\<rparr>) = (Ok (), t) \<and> sd_queues t = [] \<and> length (sd_live t) = length (sd_cleaning t) + length (sd_finalizing t)"
  using closing_rejects_every_queued_call [OF srun_closing_reach srun_env_safe, of "''r:op:3''"] by auto

end
