(* ===== verification/Scheduler_Supervisor.thy ===== *)
theory Scheduler_Supervisor
  imports Scheduler_Theorems Operation_Theorems
begin

text \<open>
  The supervisor's work on one completion (\<^verbatim>\<open>scheduler/workers.rs\<close>: \<^verbatim>\<open>complete\<close>, \<^verbatim>\<open>supervise\<close>;
  \<^verbatim>\<open>scheduler/finalization.rs\<close>) with the operation it finishes: a job is a completion, the owner of its operation and
  the place the function has reached. One section of a job is at most one section under the scheduler lock,
  so that other threads run between any two. The sections are steps of the scheduler and of the operation.
\<close>

section \<open>Jobs\<close>

datatype completion_place =
    AtWatch
  | AtBegin
  | AtRelease module_lease
  | AtAdvance bool
  | AtHandOver
  | AtPhase bool
  | AtRecovered completion_place
  | AtCheckpoint bool operation_phase
  | AtPublish
  | AtCheckpointFailed operation_phase embedded_error
  | AtFailure embedded_error

record completion_job =
  jb_completion :: pending_completion
  jb_owner :: owned
  jb_place :: completion_place

text \<open>\<open>Kept\<close> is the completion that \<^verbatim>\<open>complete\<close> returns; \<open>HandedOver\<close> waits for a worker.\<close>

datatype completion_progress =
    Working completion_job
  | Kept pending_completion owned
  | HandedOver owned
  | Published owned

text \<open>
  What a section asks: the scheduler's environment, whether the history has a queue, wake-ups on a
  retirement, the journal, contention of the transition lock, the clock, the closing declaration of a module
  and the release of a lease.
\<close>

record completion_env =
  ce_env :: scheduler_env
  ce_has_queue :: bool
  ce_watch :: "retirement_ref \<Rightarrow> unit embedded_result"
  ce_responses :: journal_responses
  ce_contended :: bool
  ce_now :: instant
  ce_plan :: "module_lease \<Rightarrow> string \<times> duration"
  ce_finish :: "module_lease \<Rightarrow> module_release embedded_result"

fun stored_of :: "embedded_error + json_value \<Rightarrow> stored_result" where
  "stored_of (Inl e) = Error e"
| "stored_of (Inr v) = Value v"

abbreviation at_place :: "completion_job \<Rightarrow> pending_completion \<Rightarrow> owned \<Rightarrow> completion_place \<Rightarrow> completion_progress embedded_result" where
  "at_place j c w p \<equiv> Ok (Working (j\<lparr>jb_completion := c, jb_owner := w, jb_place := p\<rparr>))"

text \<open>\<^verbatim>\<open>Busy\<close> keeps the completion for the next pass; any other error fails the runtime.\<close>

definition give_up :: "completion_job \<Rightarrow> pending_completion \<Rightarrow> owned \<Rightarrow> embedded_error \<Rightarrow> completion_progress embedded_result" where
  "give_up j c w e = (if err_code e = Busy then Ok (Kept c w) else at_place j c w (AtFailure e))"

section \<open>Finalization\<close>

text \<open>One round of \<^verbatim>\<open>finalization::advance\<close>.\<close>

definition advance_pending ::
  "completion_env \<Rightarrow> completion_job \<Rightarrow> bool \<Rightarrow> operation_phase \<Rightarrow> completion_place \<Rightarrow> pending_completion \<Rightarrow> owned \<Rightarrow> completion_progress embedded_result" where
  "advance_pending ce j retry phase resume advanced w =
     (case (if retry then owner_retry_advance (ce_responses ce) (ce_contended ce) w
            else owner_poll_advance (ce_responses ce) (ce_contended ce) phase w) of
        (Ok True, w') \<Rightarrow> at_place j advanced w' (AtRecovered resume)
      | (Ok False, w') \<Rightarrow> Ok (Kept (jb_completion j) w')
      | (Err e, w') \<Rightarrow> at_place j (jb_completion j) w' (AtCheckpointFailed phase e)
      | (Panic m, w') \<Rightarrow> Panic m)"

definition release_closing :: "completion_env \<Rightarrow> completion_job \<Rightarrow> module_lease \<Rightarrow> pending_completion \<Rightarrow> owned \<Rightarrow> completion_progress embedded_result" where
  "release_closing ce j lease c w =
     (case ce_finish ce lease of
        Ok ReturnedToPool \<Rightarrow> at_place j c w (AtFailure (sched_internal ''finalized VM returned to reuse''))
      | Ok release \<Rightarrow>
          at_place j (c\<lparr>pn_retirement := (case release of RetiringModule r \<Rightarrow> Some r | _ \<Rightarrow> None),
            pn_call := (pn_call c)\<lparr>sc_request := release_values (sc_request (pn_call c))\<rparr>\<rparr>) w AtWatch
      | Err e \<Rightarrow> give_up j c w e
      | Panic m \<Rightarrow> Panic m)"

definition advance_closing :: "serializers \<Rightarrow> completion_env \<Rightarrow> completion_job \<Rightarrow> pending_completion \<Rightarrow> owned \<Rightarrow> completion_progress embedded_result" where
  "advance_closing z ce j c w =
     and_then (expect ''closing continuation exists'' (pn_finalization c)) (\<lambda>closing.
       if \<not> pz_intent_prepared closing
       then (case prepare_finalization (sz_value z) (sz_error z) (sz_string z) (ce_now ce) (ce_contended ce)
               (fst (ce_plan ce (pz_lease closing))) (stored_of (pn_result c)) (snd (ce_plan ce (pz_lease closing))) w of
           (Ok _, w') \<Rightarrow> at_place j (c\<lparr>pn_finalization := Some (closing\<lparr>pz_intent_prepared := True\<rparr>), pn_cleaning_started := True\<rparr>) w' (AtAdvance False)
         | (Err e, w') \<Rightarrow> give_up j c w' e
         | (Panic m, w') \<Rightarrow> Panic m)
       else case pz_outcome closing of
         None \<Rightarrow> at_place j c w AtHandOver
       | Some outcome \<Rightarrow>
           if \<not> pz_outcome_prepared closing
           then (case prepare_finalization_outcome (sz_value z) (sz_error z) (ce_contended ce) (stored_of outcome) w of
               (Ok _, w') \<Rightarrow> at_place j (c\<lparr>pn_finalization := Some (closing\<lparr>pz_outcome_prepared := True\<rparr>)\<rparr>) w' (AtAdvance False)
             | (Err e, w') \<Rightarrow> give_up j c w' e
             | (Panic m, w') \<Rightarrow> Panic m)
           else release_closing ce j (pz_lease closing) (c\<lparr>pn_finalization := None\<rparr>) w)"

definition advance_round :: "serializers \<Rightarrow> completion_env \<Rightarrow> completion_job \<Rightarrow> bool \<Rightarrow> completion_progress embedded_result" where
  "advance_round z ce j retry =
     (case pending_phase (ce_contended ce) (jb_owner j) of
        (Ok (Some phase), w) \<Rightarrow> advance_pending ce j retry phase (AtAdvance False) (jb_completion j) w
      | (Ok None, w) \<Rightarrow> advance_closing z ce j (jb_completion j) w
      | (Err e, w) \<Rightarrow> give_up j (jb_completion j) w e
      | (Panic m, w) \<Rightarrow> Panic m)"

section \<open>Completion\<close>

text \<open>Entering the cleaning phase.\<close>

definition phase_round :: "completion_env \<Rightarrow> completion_job \<Rightarrow> bool \<Rightarrow> completion_progress embedded_result" where
  "phase_round ce j retry =
     (case pending_phase (ce_contended ce) (jb_owner j) of
        (Ok pending, w) \<Rightarrow>
          (let phase = (case pending of Some p \<Rightarrow> p | None \<Rightarrow> OpCleaning) in
           advance_pending ce j retry phase AtWatch ((jb_completion j)\<lparr>pn_cleaning_started := phase = OpCleaning\<rparr>) w)
      | (Err e, w) \<Rightarrow> give_up j (jb_completion j) w e
      | (Panic m, w) \<Rightarrow> Panic m)"

text \<open>The terminal candidate, prepared once the VM is retired.\<close>

definition settle_candidate :: "serializers \<Rightarrow> completion_env \<Rightarrow> completion_job \<Rightarrow> bool \<Rightarrow> pending_completion \<Rightarrow> completion_progress embedded_result" where
  "settle_candidate z ce j retry c =
     (case (if own_pending (jb_owner j) = None
            then prepare_completion (sz_value z) (sz_error z) (ce_contended ce) (stored_of (pn_result c)) (pn_effects c) (jb_owner j)
            else (Ok (), jb_owner j)) of
        (Ok _, w) \<Rightarrow> and_then (expect ''prepared terminal candidate'' (own_pending w)) (\<lambda>x. at_place j c w (AtCheckpoint retry (sn_phase x)))
      | (Err e, w) \<Rightarrow> give_up j c w e
      | (Panic m, w) \<Rightarrow> Panic m)"

definition settle_retirement :: "serializers \<Rightarrow> completion_env \<Rightarrow> completion_job \<Rightarrow> bool \<Rightarrow> completion_progress embedded_result" where
  "settle_retirement z ce j retry =
     (let c = jb_completion j in
      case pn_retirement c of
        None \<Rightarrow> settle_candidate z ce j retry c
      | Some r \<Rightarrow>
          (case ev_retired (ce_env ce) r of
             Ok False \<Rightarrow> Ok (Kept c (jb_owner j))
           | Ok True \<Rightarrow> settle_candidate z ce j retry (c\<lparr>pn_retirement := None\<rparr>)
           | Err e \<Rightarrow> at_place j c (jb_owner j) (AtFailure e)
           | Panic m \<Rightarrow> Panic m))"

definition after_begin :: "serializers \<Rightarrow> completion_env \<Rightarrow> completion_job \<Rightarrow> completion_route \<Rightarrow> completion_progress embedded_result" where
  "after_begin z ce j route =
     (let c = jb_completion j; w = jb_owner j in
      case route of
        ReleaseLease lease \<Rightarrow> at_place j (c\<lparr>pn_retained_lease := None\<rparr>) w (AtRelease lease)
      | HoldCompletion \<Rightarrow> Ok (Kept c w)
      | DriveCompletion retry \<Rightarrow>
          if pn_finalization c \<noteq> None then at_place j c w (AtAdvance retry)
          else if \<not> pn_cleaning_started c then at_place j c w (AtPhase retry)
          else settle_retirement z ce j retry)"

definition release_round :: "completion_env \<Rightarrow> completion_job \<Rightarrow> module_lease \<Rightarrow> completion_progress embedded_result" where
  "release_round ce j lease =
     (let c = jb_completion j; w = jb_owner j in
      case ce_finish ce lease of
        Ok (RetiringModule r) \<Rightarrow> Ok (Kept (c\<lparr>pn_retirement := Some r\<rparr>) w)
      | Ok NoInstance \<Rightarrow> Ok (Kept c w)
      | Ok ReturnedToPool \<Rightarrow> at_place j c w (AtFailure (sched_internal ''scheduler-owned VM returned to physical cache''))
      | Err e \<Rightarrow> at_place j c w (AtFailure e)
      | Panic m \<Rightarrow> Panic m)"

definition checkpoint_round :: "completion_env \<Rightarrow> completion_job \<Rightarrow> bool \<Rightarrow> operation_phase \<Rightarrow> completion_progress embedded_result" where
  "checkpoint_round ce j retry phase =
     (let c = jb_completion j in
      case drive_completion_checkpoint (ce_responses ce) False retry (jb_owner j) of
        (Ok True, w) \<Rightarrow> at_place j c w AtPublish
      | (Ok False, w) \<Rightarrow> Ok (Kept c w)
      | (Err e, w) \<Rightarrow> at_place j c w (AtCheckpointFailed phase e)
      | (Panic m, w) \<Rightarrow> Panic m)"

definition publish_round :: "completion_env \<Rightarrow> completion_job \<Rightarrow> (scheduler_state, completion_progress) action" where
  "publish_round ce j s =
     (let c = jb_completion j; closing_error = Option.bind (own_pending (jb_owner j)) sn_error in
      case publish_completion (jb_owner j) of
        (Ok _, w) \<Rightarrow> bind_action (complete_publish (ce_env ce) closing_error c) (\<lambda>_. ret (Published w)) s
      | (Err e, w) \<Rightarrow> (at_place j c w (AtFailure e), s)
      | (Panic m, w) \<Rightarrow> (Panic m, s))"

fun complete_section :: "serializers \<Rightarrow> completion_env \<Rightarrow> completion_job \<Rightarrow> (scheduler_state, completion_progress) action" where
  "complete_section z ce j s =
     (let c = jb_completion j; w = jb_owner j; ident = sc_id (pn_call c) in
      case jb_place j of
        AtWatch \<Rightarrow>
          (case pn_retirement c of
             None \<Rightarrow> (at_place j c w AtBegin, s)
           | Some r \<Rightarrow>
               (case ce_watch ce r of
                  Ok _ \<Rightarrow> (at_place j c w AtBegin, s)
                | Err e \<Rightarrow> (at_place j c w (AtFailure e), s)
                | Panic m \<Rightarrow> (Panic m, s)))
      | AtBegin \<Rightarrow> bind_action (complete_begin (ce_env ce) (own_pending w \<noteq> None) c) (\<lambda>route. from_result (after_begin z ce j route)) s
      | AtRelease lease \<Rightarrow> (release_round ce j lease, s)
      | AtAdvance retry \<Rightarrow> (advance_round z ce j retry, s)
      | AtHandOver \<Rightarrow> (Ok (HandedOver w), push_finalizing c s)
      | AtPhase retry \<Rightarrow> (phase_round ce j retry, s)
      | AtRecovered resume \<Rightarrow> (at_place j c w resume, checkpoint_recovered ident s)
      | AtCheckpoint retry phase \<Rightarrow> (checkpoint_round ce j retry phase, s)
      | AtPublish \<Rightarrow> publish_round ce j s
      | AtCheckpointFailed phase e \<Rightarrow> (Ok (Kept c w), checkpoint_failed (ce_has_queue ce) ident phase e s)
      | AtFailure e \<Rightarrow> (Ok (Kept c w), fst (sched_fail e s)))"

section \<open>Execution of a closing call\<close>

text \<open>
  \<^verbatim>\<open>finalization::execute\<close>: \<open>run\<close> is what the module's closing export answers; a panic inside is caught, and a
  result that is too large is replaced.
\<close>

fun closing_context :: "scheduled_request \<Rightarrow> invocation_context option" where
  "closing_context (Invoke call) = Some (ec_context call)"
| "closing_context (CloseSession _ _ context) = Some context"
| "closing_context (CloseInstance _ context) = Some context"
| "closing_context _ = None"

definition closing_answer ::
  "(module_lease \<Rightarrow> invocation_context \<Rightarrow> json_value embedded_result) \<Rightarrow> instant \<Rightarrow> bool \<Rightarrow> ledger_ref \<Rightarrow> pending_completion \<Rightarrow> owned \<Rightarrow> json_value embedded_result \<times> owned" where
  "closing_answer run now contended journal c w =
     (case take_finalization_control now contended journal w of
        (Ok _, w') \<Rightarrow>
          (and_then (expect ''worker owns closing VM'' (pn_finalization c)) (\<lambda>closing.
           and_then (ok_or (sched_internal ''unsupported automatic finalization request'') (closing_context (sc_request (pn_call c)))) (\<lambda>context.
           run (pz_lease closing) context)), w')
      | (Err e, w') \<Rightarrow> (Err e, w')
      | (Panic m, w') \<Rightarrow> (Panic m, w'))"

definition bounded_answer :: "serializers \<Rightarrow> usize \<Rightarrow> json_value embedded_result \<Rightarrow> embedded_error + json_value" where
  "bounded_answer z limit answer =
     (case answer of
        Ok v \<Rightarrow> (case json_size (sz_value z v) limit of Err e \<Rightarrow> Inl e | _ \<Rightarrow> Inr v)
      | Err e \<Rightarrow> (case json_size (sz_error z e) limit of Err e' \<Rightarrow> Inl e' | _ \<Rightarrow> Inl e)
      | Panic _ \<Rightarrow>
          (let e = sched_internal ''embedded finalization panicked'' in
           case json_size (sz_error z e) limit of Err e' \<Rightarrow> Inl e' | _ \<Rightarrow> Inl e))"

definition execute_closing ::
  "serializers \<Rightarrow> (module_lease \<Rightarrow> invocation_context \<Rightarrow> json_value embedded_result) \<Rightarrow> instant \<Rightarrow> bool \<Rightarrow> ledger_ref \<Rightarrow> usize \<Rightarrow> pending_completion \<Rightarrow> owned
    \<Rightarrow> pending_completion embedded_result \<times> owned" where
  "execute_closing z run now contended journal limit c w =
     (case closing_answer run now contended journal c w of (answer, w') \<Rightarrow>
       (and_then (expect ''worker retains closing owner'' (pn_finalization c)) (\<lambda>closing.
        Ok (c\<lparr>pn_finalization := Some (closing\<lparr>pz_outcome := Some (bounded_answer z limit answer)\<rparr>)\<rparr>)), w'))"

section \<open>The supervisor's round\<close>

definition supervise_begin :: "scheduler_env \<Rightarrow> (scheduler_state, pending_completion list) action" where
  "supervise_begin ev = bind_action (reject_expired ev) (\<lambda>_ s. case take_cleaning s of (cs, t) \<Rightarrow> (Ok cs, t))"

datatype supervisor_next = CloseOwners bool | SuperviseAgain | SuperviseWait

text \<open>
  After all completions: they go back behind those that arrived meanwhile. A drained runtime closes the pools and
  the capability registry outside the lock (\<open>CloseOwners\<close>) and returns once both are closed.
\<close>

definition supervise_decide :: "scheduler_env \<Rightarrow> bool \<Rightarrow> scheduler_state \<Rightarrow> supervisor_next embedded_result" where
  "supervise_decide ev arrived s =
     (if arrived then Ok SuperviseAgain
      else and_then (retirement_ready ev s) (\<lambda>b. Ok (if b then SuperviseAgain else SuperviseWait)))"

definition supervise_end :: "scheduler_env \<Rightarrow> pending_completion list \<Rightarrow> (scheduler_state, supervisor_next) action" where
  "supervise_end ev pending s =
     (let arrived = sd_cleaning s \<noteq> []; t = put_cleaning pending s in
      if fully_drained t then (Ok (CloseOwners arrived), t) else (supervise_decide ev arrived t, t))"

section \<open>Steps of the scheduler\<close>

definition silent_env :: scheduler_env where
  "silent_env = \<lparr>ev_now = 0, ev_check = \<lambda>_. Ok (), ev_schema = \<lparr>sl_build = \<lambda>_. None, sl_validate = \<lambda>_ _. None\<rparr>, ev_json = \<lambda>_. Ok (), ev_context = \<lambda>_. Ok (),
     ev_admit = \<lambda>_. Err sched_closed, ev_admit_reserved = \<lambda>_. Err sched_closed, ev_reserve = \<lambda>_ _ _. Err sched_closed, ev_usage = \<lambda>_. Ok pool_usage_default,
     ev_accounting = \<lambda>_. Ok (pool_usage_default, 0), ev_prepare = \<lambda>_ _ _. Err sched_closed, ev_allocation_id = \<lambda>_. Err sched_closed, ev_plan = \<lambda>_. False,
     ev_can_retain = \<lambda>_. False, ev_retired = \<lambda>_. Ok False\<rparr>"

definition silent_submission :: submission_env where
  "silent_submission = \<lparr>sv_submission = Err sched_closed, sv_control = Err sched_closed, sv_value = \<lambda>_. \<lparr>ser_chunks = [], ser_failed = False\<rparr>,
     sv_call = \<lambda>_. \<lparr>ser_chunks = [], ser_failed = False\<rparr>, sv_prewarm = \<lambda>_. \<lparr>ser_chunks = [], ser_failed = False\<rparr>,
     sv_request = \<lambda>_. \<lparr>ser_chunks = [], ser_failed = False\<rparr>\<rparr>"

lemma silent_ok: "env_ok silent_env s" "submission_safe silent_submission"
  by (simp_all add: env_ok_def env_safe_def env_fresh_def plans_owned_def admissions_fresh_def submission_safe_def silent_env_def silent_submission_def)

lemma reach_write:
  assumes "sched_reach cfg runtime y" "sched_call cfg runtime silent_env silent_submission (write_state f)"
  shows "sched_reach cfg runtime (y\<lparr>sy_state := f (sy_state y)\<rparr>)"
  by (rule reach_step [OF assms(1) step_call [OF silent_ok assms(2)]]) (simp add: write_state_def)

lemma held_refines:
  assumes "sched_reach cfg runtime y" "sy_held y = add_mset c P"
  shows "refine_flight (pend_flight c) (pend_flight c)"
proof -
  have "pend_flight c \<in># in_flight y" using assms(2) by (simp add: in_flight_def)
  then have "flight_ok (sy_state y) (pend_flight c)"
    using sched_inv_parts(3) [OF reach_sched_inv [OF assms(1)]] by (simp add: lease_inv_def)
  then show ?thesis by (auto simp: flight_ok_def refine_flight_def same_call_def)
qed

lemma reach_work:
  assumes "sched_reach cfg runtime y" "sy_held y = add_mset c P" "refine_flight (pend_flight c) (pend_flight c')"
  shows "sched_reach cfg runtime (y\<lparr>sy_held := add_mset c' P\<rparr>)"
  by (rule reach_step [OF assms(1) step_work [OF assms(2,3)]])

lemma reach_same:
  assumes "sched_reach cfg runtime y" "sy_held y = add_mset c P" "pend_flight c' = pend_flight c"
  shows "sched_reach cfg runtime (y\<lparr>sy_held := add_mset c' P\<rparr>)"
  using reach_work [OF assms(1,2)] held_refines [OF assms(1,2)] assms(3) by simp

lemma release_refines:
  "refine_flight (pend_flight c) (pend_flight c) \<Longrightarrow>
   refine_flight (pend_flight c) (pend_flight (c\<lparr>pn_finalization := f, pn_retirement := r, pn_call := (pn_call c)\<lparr>sc_request := release_values (sc_request (pn_call c))\<rparr>\<rparr>))"
  by (cases "sc_request (pn_call c)") (auto simp: refine_flight_def pend_flight_def same_call_def)

section \<open>Steps of the operation\<close>

text \<open>One section calls the owner at most once.\<close>

definition one_call :: "serializers \<Rightarrow> owned \<Rightarrow> owned \<Rightarrow> bool" where
  "one_call z w w' \<longleftrightarrow> w' = w \<or> (\<exists>c. w' = run_call z c w)"

lemma one_call_refl [simp, intro]: "one_call z w w"
  by (simp add: one_call_def)

lemma one_callI: "run_call z c w = w' \<Longrightarrow> one_call z w w'"
  by (auto simp: one_call_def)

lemma no_panic:
  assumes "wp m (\<lambda>_. good ser ctx live w) (good ser ctx live w) w" "m w = (r, w')"
  shows "\<not> is_panic r"
  using assms by (cases r) (auto simp: wp_def)

section \<open>Refinement\<close>

fun place_ok :: "completion_place \<Rightarrow> pending_completion \<Rightarrow> bool" where
  "place_ok (AtAdvance _) c \<longleftrightarrow> pn_finalization c \<noteq> None"
| "place_ok (AtRecovered p) c \<longleftrightarrow> place_ok p c"
| "place_ok _ c \<longleftrightarrow> True"

definition completion_env_ok :: "completion_env \<Rightarrow> bool" where
  "completion_env_ok ce \<longleftrightarrow>
     (\<forall>r. \<not> is_panic (ce_watch ce r)) \<and> (\<forall>l. \<not> is_panic (ce_finish ce l)) \<and> (\<forall>r. \<not> is_panic (ev_retired (ce_env ce) r))"

text \<open>What a section leaves behind: a reachable system in which the job's completion is held or gone, and a legal state of the operation.\<close>

definition leaves :: "embedded_runtime_config \<Rightarrow> string \<Rightarrow> sched_system \<Rightarrow> pending_completion multiset \<Rightarrow> (owned \<Rightarrow> bool) \<Rightarrow> scheduler_state \<Rightarrow> completion_progress \<Rightarrow> bool" where
  "leaves cfg runtime y P G t p =
     (case p of
        Working j \<Rightarrow> sched_reach cfg runtime (y\<lparr>sy_state := t, sy_held := add_mset (jb_completion j) P\<rparr>) \<and> place_ok (jb_place j) (jb_completion j) \<and> G (jb_owner j)
      | Kept c w \<Rightarrow> sched_reach cfg runtime (y\<lparr>sy_state := t, sy_held := add_mset c P\<rparr>) \<and> G w
      | HandedOver w \<Rightarrow> sched_reach cfg runtime (y\<lparr>sy_state := t, sy_held := P\<rparr>) \<and> G w
      | Published w \<Rightarrow> sched_reach cfg runtime (y\<lparr>sy_state := t, sy_held := P\<rparr>) \<and> G w \<and> is_terminal (sn_phase (cur w)))"

text \<open>A job on a completion that is held in a reachable state, with a legal operation.\<close>

definition held_job :: "embedded_runtime_config \<Rightarrow> string \<Rightarrow> sched_system \<Rightarrow> pending_completion multiset \<Rightarrow> serializers \<Rightarrow> usize \<Rightarrow> u64 set \<Rightarrow> completion_job \<Rightarrow> bool" where
  "held_job cfg runtime y P z ctx live j \<longleftrightarrow>
     sched_reach cfg runtime y \<and> sy_held y = add_mset (jb_completion j) P \<and> op_inv (sz_effect z) ctx live (jb_owner j)"

abbreviation fine :: "embedded_runtime_config \<Rightarrow> string \<Rightarrow> sched_system \<Rightarrow> pending_completion multiset \<Rightarrow> serializers \<Rightarrow> usize \<Rightarrow> u64 set \<Rightarrow> completion_job \<Rightarrow> completion_progress embedded_result \<Rightarrow> bool" where
  "fine cfg runtime y P z ctx live j r \<equiv> \<exists>p. r = Ok p \<and> leaves cfg runtime y P (one_call z (jb_owner j)) (sy_state y) p"

lemma unchanged:
  assumes "held_job cfg runtime y P z ctx live j" "refine_flight (pend_flight (jb_completion j)) (pend_flight (jb_completion j)) \<Longrightarrow> refine_flight (pend_flight (jb_completion j)) (pend_flight c)"
  shows "sched_reach cfg runtime (y\<lparr>sy_state := sy_state y, sy_held := add_mset c P\<rparr>)"
proof -
  have h: "sched_reach cfg runtime y" "sy_held y = add_mset (jb_completion j) P" using assms(1) by (simp_all add: held_job_def)
  show ?thesis using reach_work [OF h assms(2) [OF held_refines [OF h]]] by simp
qed

lemma fine_kept:
  assumes "held_job cfg runtime y P z ctx live j" "pend_flight c = pend_flight (jb_completion j)" "one_call z (jb_owner j) w"
  shows "fine cfg runtime y P z ctx live j (Ok (Kept c w))"
  using unchanged [OF assms(1), of c] assms(2,3) by (simp add: leaves_def)

lemma fine_working:
  assumes "held_job cfg runtime y P z ctx live j" "pend_flight c = pend_flight (jb_completion j)" "one_call z (jb_owner j) w" "place_ok p c"
  shows "fine cfg runtime y P z ctx live j (at_place j c w p)"
  using unchanged [OF assms(1), of c] assms(2-4) by (simp add: leaves_def)

lemma fine_give_up:
  assumes "held_job cfg runtime y P z ctx live j" "pend_flight c = pend_flight (jb_completion j)" "one_call z (jb_owner j) w"
  shows "fine cfg runtime y P z ctx live j (give_up j c w e)"
  using fine_kept [OF assms] fine_working [OF assms, of "AtFailure e"] by (simp add: give_up_def)

lemma pending_phase_same: "pending_phase contended w = (r, w') \<Longrightarrow> \<not> is_panic r \<Longrightarrow> w' = w"
  by (auto simp: pending_phase_def bind_action_def try_transition_error_def require_def hold_transition_def read_state_def ret_def fail_def
      split: if_splits option.splits checkpoint_effect.splits prod.splits outcome.splits)

lemma fine_advance:
  assumes h: "held_job cfg runtime y P z ctx live j" and c: "pend_flight c = pend_flight (jb_completion j)" and p: "place_ok p c"
  shows "fine cfg runtime y P z ctx live j (advance_pending ce j retry phase p c (jb_owner j))"
proof -
  let ?call = "if retry then owner_retry_advance (ce_responses ce) (ce_contended ce) (jb_owner j) else owner_poll_advance (ce_responses ce) (ce_contended ce) phase (jb_owner j)"
  have inv: "op_inv (sz_effect z) ctx live (jb_owner j)" using h by (simp add: held_job_def)
  obtain r w where run: "?call = (r, w)" by (cases ?call)
  then have "\<not> is_panic r" using no_panic [OF wp_advance_calls(1) [OF inv]] no_panic [OF wp_advance_calls(2) [OF inv]] by (simp split: if_splits)
  moreover have "one_call z (jb_owner j) w"
    using run one_callI [of z "RetryAdvance (ce_responses ce) (ce_contended ce)" "jb_owner j" w] one_callI [of z "PollAdvance (ce_responses ce) (ce_contended ce) phase" "jb_owner j" w]
    by (simp split: if_splits)
  ultimately show ?thesis
    using run fine_kept [OF h, of "jb_completion j" w] fine_working [OF h, of "jb_completion j" w "AtCheckpointFailed phase _"] fine_working [OF h c, of w "AtRecovered p"] p
    by (cases r) (auto simp: advance_pending_def split: bool.splits)
qed

lemma fine_release_closing:
  assumes h: "held_job cfg runtime y P z ctx live j" and "\<not> is_panic (ce_finish ce l)"
  shows "fine cfg runtime y P z ctx live j (release_closing ce j l ((jb_completion j)\<lparr>pn_finalization := None\<rparr>) (jb_owner j))"
proof -
  let ?c = "(jb_completion j)\<lparr>pn_finalization := None\<rparr>"
  note g = one_call_refl [of z "jb_owner j"]
  have same: "pend_flight ?c = pend_flight (jb_completion j)" by (simp add: pend_flight_def)
  have released: "fine cfg runtime y P z ctx live j (at_place j (?c\<lparr>pn_retirement := r, pn_call := (pn_call ?c)\<lparr>sc_request := release_values (sc_request (pn_call ?c))\<rparr>\<rparr>) (jb_owner j) AtWatch)" for r
    using unchanged [OF h release_refines] g by (simp add: leaves_def)
  show ?thesis
  proof (cases "ce_finish ce l")
    case (Ok release)
    then show ?thesis using released [of None] released [of "Some _"] fine_working [OF h same g, of "AtFailure _"] by (cases release) (simp_all add: release_closing_def)
  next
    case (Err e)
    then show ?thesis using fine_give_up [OF h same g] by (simp add: release_closing_def)
  qed (use assms(2) in simp)
qed

lemma held_op: "held_job cfg runtime y P z ctx live j \<Longrightarrow> op_inv (sz_effect z) ctx live (jb_owner j)"
  by (simp add: held_job_def)

text \<open>A call of the owner followed by one of three ways on.\<close>

lemma fine_call:
  assumes h: "held_job cfg runtime y P z ctx live j" and call: "wp m (\<lambda>_. good (sz_effect z) ctx live (jb_owner j)) (good (sz_effect z) ctx live (jb_owner j)) (jb_owner j)"
    and is_call: "one_call z (jb_owner j) (snd (m (jb_owner j)))"
    and ok: "\<And>x w. m (jb_owner j) = (Ok x, w) \<Longrightarrow> one_call z (jb_owner j) w \<Longrightarrow> fine cfg runtime y P z ctx live j (f x w)"
    and err: "\<And>e w. one_call z (jb_owner j) w \<Longrightarrow> fine cfg runtime y P z ctx live j (g e w)"
  shows "fine cfg runtime y P z ctx live j (case m (jb_owner j) of (Ok x, w) \<Rightarrow> f x w | (Err e, w) \<Rightarrow> g e w | (Panic q, w) \<Rightarrow> Panic q)"
proof -
  obtain r w where run: "m (jb_owner j) = (r, w)" by (cases "m (jb_owner j)")
  have "\<not> is_panic r" by (rule no_panic [OF call run])
  moreover have "one_call z (jb_owner j) w" using is_call run by simp
  ultimately show ?thesis using run ok [of _ w] err [of w] by (cases r) simp_all
qed

lemma fine_advance_closing:
  assumes h: "held_job cfg runtime y P z ctx live j" and f: "pn_finalization (jb_completion j) \<noteq> None" and ce: "\<And>l. \<not> is_panic (ce_finish ce l)"
  shows "fine cfg runtime y P z ctx live j (advance_closing z ce j (jb_completion j) (jb_owner j))"
proof -
  let ?c = "jb_completion j"
  obtain closing where closing: "pn_finalization ?c = Some closing" using f by blast
  have same: "pend_flight (?c\<lparr>pn_finalization := x, pn_cleaning_started := b\<rparr>) = pend_flight ?c" "pend_flight (?c\<lparr>pn_finalization := x\<rparr>) = pend_flight ?c" for x b
    by (simp_all add: pend_flight_def)
  have intent: "fine cfg runtime y P z ctx live j (case prepare_finalization (sz_value z) (sz_error z) (sz_string z) (ce_now ce) (ce_contended ce)
      (fst (ce_plan ce (pz_lease closing))) (stored_of (pn_result ?c)) (snd (ce_plan ce (pz_lease closing))) (jb_owner j) of
      (Ok x, w) \<Rightarrow> at_place j (?c\<lparr>pn_finalization := Some (closing\<lparr>pz_intent_prepared := True\<rparr>), pn_cleaning_started := True\<rparr>) w (AtAdvance False)
    | (Err e, w) \<Rightarrow> give_up j ?c w e | (Panic q, w) \<Rightarrow> Panic q)"
    by (rule fine_call [OF h wp_prepare_finalization [OF held_op [OF h]] one_callI [OF run_call.simps(8)]]) ((rule fine_working [OF h same(1)] fine_give_up [OF h refl]; simp)+)
  have outcome: "fine cfg runtime y P z ctx live j (case prepare_finalization_outcome (sz_value z) (sz_error z) (ce_contended ce) (stored_of x) (jb_owner j) of
      (Ok u, w) \<Rightarrow> at_place j (?c\<lparr>pn_finalization := Some (closing\<lparr>pz_outcome_prepared := True\<rparr>)\<rparr>) w (AtAdvance False)
    | (Err e, w) \<Rightarrow> give_up j ?c w e | (Panic q, w) \<Rightarrow> Panic q)" for x
    by (rule fine_call [OF h wp_prepare_finalization_outcome [OF held_op [OF h]] one_callI [OF run_call.simps(11)]]) ((rule fine_working [OF h same(2)] fine_give_up [OF h refl]; simp)+)
  show ?thesis
    using intent outcome fine_release_closing [OF h ce] fine_working [OF h refl one_call_refl, of AtHandOver] closing
    by (cases "pz_outcome closing") (simp_all add: advance_closing_def)
qed

lemma pending_phase_cases:
  assumes h: "held_job cfg runtime y P z ctx live j"
    and ok: "\<And>x. fine cfg runtime y P z ctx live j (f x (jb_owner j))"
  shows "fine cfg runtime y P z ctx live j (case pending_phase contended (jb_owner j) of (Ok x, w) \<Rightarrow> f x w | (Err e, w) \<Rightarrow> give_up j (jb_completion j) w e | (Panic q, w) \<Rightarrow> Panic q)"
proof (rule fine_call [OF h wp_observation_calls(1) [OF held_op [OF h]]])
  show "one_call z (jb_owner j) (snd (pending_phase contended (jb_owner j)))"
  proof -
    obtain r w where run: "pending_phase contended (jb_owner j) = (r, w)" by (cases "pending_phase contended (jb_owner j)")
    then show ?thesis using pending_phase_same [OF run no_panic [OF wp_observation_calls(1) [OF held_op [OF h]] run]] by simp
  qed
  show "fine cfg runtime y P z ctx live j (f x w)" if "pending_phase contended (jb_owner j) = (Ok x, w)" for x w
    using pending_phase_same [OF that] ok by simp
qed (auto intro: fine_give_up [OF h refl])

lemma fine_advance_round:
  assumes h: "held_job cfg runtime y P z ctx live j" and f: "pn_finalization (jb_completion j) \<noteq> None" and ce: "\<And>l. \<not> is_panic (ce_finish ce l)"
  shows "fine cfg runtime y P z ctx live j (advance_round z ce j retry)"
proof -
  have "advance_round z ce j retry = (case pending_phase (ce_contended ce) (jb_owner j) of
      (Ok x, w) \<Rightarrow> (case x of Some phase \<Rightarrow> advance_pending ce j retry phase (AtAdvance False) (jb_completion j) w | None \<Rightarrow> advance_closing z ce j (jb_completion j) w)
    | (Err e, w) \<Rightarrow> give_up j (jb_completion j) w e | (Panic q, w) \<Rightarrow> Panic q)"
    by (simp add: advance_round_def split: prod.splits outcome.splits option.splits)
  also have "fine cfg runtime y P z ctx live j \<dots>"
    by (rule pending_phase_cases [OF h]) (use fine_advance [OF h refl] fine_advance_closing [OF h f ce] f in \<open>auto split: option.splits\<close>)
  finally show ?thesis .
qed

lemma fine_phase_round:
  assumes h: "held_job cfg runtime y P z ctx live j"
  shows "fine cfg runtime y P z ctx live j (phase_round ce j retry)"
  unfolding phase_round_def Let_def
  by (rule pending_phase_cases [OF h]) (rule fine_advance [OF h], simp_all add: pend_flight_def)

lemma prepare_completion_pending: "prepare_completion ser_value ser_error contended result effects w = (Ok x, w') \<Longrightarrow> own_pending w' \<noteq> None"
  by (auto simp: prepare_completion_def bind_action_def require_def require_state_def try_transition_error_def hold_transition_def write_state_def
      split: if_splits outcome.splits prod.splits)

lemma fine_settle_candidate:
  assumes h: "held_job cfg runtime y P z ctx live j" and c: "pend_flight c = pend_flight (jb_completion j)"
  shows "fine cfg runtime y P z ctx live j (settle_candidate z ce j retry c)"
proof (cases "own_pending (jb_owner j)")
  case None
  have "fine cfg runtime y P z ctx live j (case prepare_completion (sz_value z) (sz_error z) (ce_contended ce) (stored_of (pn_result c)) (pn_effects c) (jb_owner j) of
      (Ok x, w) \<Rightarrow> and_then (expect ''prepared terminal candidate'' (own_pending w)) (\<lambda>x. at_place j c w (AtCheckpoint retry (sn_phase x)))
    | (Err e, w) \<Rightarrow> give_up j c w e | (Panic q, w) \<Rightarrow> Panic q)"
  proof (rule fine_call [OF h wp_prepare_completion [OF held_op [OF h]] one_callI [OF run_call.simps(4)]])
    fix x w assume run: "prepare_completion (sz_value z) (sz_error z) (ce_contended ce) (stored_of (pn_result c)) (pn_effects c) (jb_owner j) = (Ok x, w)"
      and g: "one_call z (jb_owner j) w"
    obtain p where "own_pending w = Some p" using prepare_completion_pending [OF run] by blast
    then show "fine cfg runtime y P z ctx live j (and_then (expect ''prepared terminal candidate'' (own_pending w)) (\<lambda>x. at_place j c w (AtCheckpoint retry (sn_phase x))))"
      using fine_working [OF h c g, of "AtCheckpoint retry (sn_phase p)"] by simp
  qed (rule fine_give_up [OF h c])
  then show ?thesis using None by (simp add: settle_candidate_def)
next
  case (Some p)
  then show ?thesis using fine_working [OF h c one_call_refl, of "AtCheckpoint retry (sn_phase p)"] by (simp add: settle_candidate_def)
qed

lemma fine_settle_retirement:
  assumes h: "held_job cfg runtime y P z ctx live j" and ce: "\<And>r. \<not> is_panic (ev_retired (ce_env ce) r)"
  shows "fine cfg runtime y P z ctx live j (settle_retirement z ce j retry)"
proof (cases "pn_retirement (jb_completion j)")
  case None
  then show ?thesis using fine_settle_candidate [OF h refl] by (simp add: settle_retirement_def)
next
  case (Some r)
  have same: "pend_flight ((jb_completion j)\<lparr>pn_retirement := None\<rparr>) = pend_flight (jb_completion j)" by (simp add: pend_flight_def)
  note g = one_call_refl
  show ?thesis
    using Some ce [of r] fine_settle_candidate [OF h same] fine_kept [OF h refl g] fine_working [OF h refl g, of "AtFailure _"]
    by (cases "ev_retired (ce_env ce) r") (simp_all add: settle_retirement_def Let_def split: bool.splits)
qed

lemma fine_release_round:
  assumes h: "held_job cfg runtime y P z ctx live j" and ce: "\<not> is_panic (ce_finish ce l)"
  shows "fine cfg runtime y P z ctx live j (release_round ce j l)"
proof -
  have same: "pend_flight ((jb_completion j)\<lparr>pn_retirement := r\<rparr>) = pend_flight (jb_completion j)" for r by (simp add: pend_flight_def)
  note g = one_call_refl
  show ?thesis
  proof (cases "ce_finish ce l")
    case (Ok release)
    then show ?thesis using fine_kept [OF h same g] fine_kept [OF h refl g] fine_working [OF h refl g, of "AtFailure _"]
      by (cases release) (simp_all add: release_round_def)
  qed (use ce fine_working [OF h refl g, of "AtFailure _"] in \<open>simp_all add: release_round_def\<close>)
qed

lemma fine_checkpoint_round:
  assumes h: "held_job cfg runtime y P z ctx live j"
  shows "fine cfg runtime y P z ctx live j (checkpoint_round ce j retry phase)"
proof -
  have call: "wp (drive_completion_checkpoint (ce_responses ce) False retry) (\<lambda>_. good (sz_effect z) ctx live (jb_owner j)) (good (sz_effect z) ctx live (jb_owner j)) (jb_owner j)"
    by (rule wp_drive_completion_checkpoint [OF held_op [OF h]]) (simp add: good_same)
  have "checkpoint_round ce j retry phase = (case drive_completion_checkpoint (ce_responses ce) False retry (jb_owner j) of
      (Ok b, w) \<Rightarrow> if b then at_place j (jb_completion j) w AtPublish else Ok (Kept (jb_completion j) w)
    | (Err e, w) \<Rightarrow> at_place j (jb_completion j) w (AtCheckpointFailed phase e) | (Panic q, w) \<Rightarrow> Panic q)"
    by (simp add: checkpoint_round_def Let_def split: prod.splits outcome.splits bool.splits)
  also have "fine cfg runtime y P z ctx live j \<dots>"
    by (rule fine_call [OF h call one_callI [of z "PollCompletionCheckpoint (ce_responses ce) retry"]]) (use fine_working [OF h refl] fine_kept [OF h refl] in \<open>auto split: if_splits\<close>)
  finally show ?thesis .
qed

lemma begin_section:
  assumes h: "held_job cfg runtime y P z ctx live j" and ce: "completion_env_ok ce"
  shows "\<exists>p t. bind_action (complete_begin (ce_env ce) candidate (jb_completion j)) (\<lambda>route. from_result (after_begin z ce j route)) (sy_state y) = (Ok p, t) \<and>
    leaves cfg runtime y P (one_call z (jb_owner j)) t p"
proof -
  let ?c = "jb_completion j"
  have r: "sched_reach cfg runtime y" "sy_held y = add_mset ?c P" using h by (simp_all add: held_job_def)
  have "center_inv cfg (sy_running y) (add_mset ?c P) (sy_state y)" using reach_inv [OF r(1)] r(2) by (simp add: system_inv_def)
  then have "wp (complete_begin (ce_env ce) candidate ?c) (\<lambda>_. center_inv cfg (sy_running y) (add_mset ?c P)) (\<lambda>_. False) (sy_state y)"
    by (rule wp_complete_begin)
  then obtain route t where run: "complete_begin (ce_env ce) candidate ?c (sy_state y) = (Ok route, t)"
    by (auto simp: wp_def split: prod.splits outcome.splits)
  have "sched_reach cfg runtime (y\<lparr>sy_state := t\<rparr>)"
    by (rule reach_step [OF r(1) step_begin [OF _ run]]) (simp add: r(2))
  then have h': "held_job cfg runtime (y\<lparr>sy_state := t\<rparr>) P z ctx live j" using h by (simp add: held_job_def)
  note g = one_call_refl
  have released: "refine_flight (pend_flight ?c) (pend_flight (?c\<lparr>pn_retained_lease := None\<rparr>))"
    if "refine_flight (pend_flight ?c) (pend_flight ?c)" using that by (simp add: refine_flight_def pend_flight_def)
  have "fine cfg runtime (y\<lparr>sy_state := t\<rparr>) P z ctx live j (after_begin z ce j route)"
  proof (cases route)
    case (ReleaseLease l)
    then show ?thesis using unchanged [OF h' released] g by (simp add: after_begin_def leaves_def)
  next
    case HoldCompletion
    then show ?thesis using fine_kept [OF h' refl g] by (simp add: after_begin_def)
  next
    case (DriveCompletion retry)
    have "\<not> is_panic (ev_retired (ce_env ce) q)" for q using ce by (simp add: completion_env_ok_def)
    note settle = fine_settle_retirement [OF h' this]
    show ?thesis
      using DriveCompletion fine_working [OF h' refl g, of "AtAdvance retry"] fine_working [OF h' refl g, of "AtPhase retry"] settle
      by (simp add: after_begin_def Let_def)
  qed
  then show ?thesis using run by (auto simp: bind_action_def from_result_def leaves_def split: completion_progress.splits)
qed

lemma publish_completion_terminal:
  assumes "op_inv ser ctx live w" "publish_completion w = (Ok x, w')"
  shows "is_terminal (sn_phase (cur w'))"
proof -
  obtain p where "own_pending w = Some p" "cur w' = p"
    using assms(2) op_invD(1) [OF assms(1)]
    by (auto simp: publish_completion_def bind_action_def require_state_def read_snapshot_def try_read_def op_lock_def write_state_def set_snapshot_def mutex_new_def
        split: if_splits outcome.splits prod.splits)
  then show ?thesis using op_invD(7) [OF assms(1)] by (simp add: terminal_ok_def)
qed

lemma publish_section:
  assumes h: "held_job cfg runtime y P z ctx live j"
  shows "\<exists>p t. publish_round ce j (sy_state y) = (Ok p, t) \<and> leaves cfg runtime y P (one_call z (jb_owner j)) t p"
proof -
  let ?c = "jb_completion j" and ?e = "Option.bind (own_pending (jb_owner j)) sn_error"
  have r: "sched_reach cfg runtime y" "sy_held y = add_mset ?c P" using h by (simp_all add: held_job_def)
  obtain q w where run: "publish_completion (jb_owner j) = (q, w)" by (cases "publish_completion (jb_owner j)")
  have g: "one_call z (jb_owner j) w \<and> \<not> is_panic q"
    using run no_panic [OF wp_publish_completion [OF held_op [OF h]] run] one_callI [of z PublishCompletion "jb_owner j" w] by simp
  show ?thesis
  proof (cases q)
    case (Ok x)
    have "center_inv cfg (sy_running y) (add_mset ?c P) (sy_state y)" using reach_inv [OF r(1)] r(2) by (simp add: system_inv_def)
    then obtain t where t: "complete_publish (ce_env ce) ?e ?c (sy_state y) = (Ok (), t)"
      using wp_complete_publish [of cfg "sy_running y" ?c P "sy_state y" "ce_env ce" ?e] by (auto simp: wp_def split: prod.splits outcome.splits)
    have "sched_reach cfg runtime (y\<lparr>sy_state := t, sy_held := P\<rparr>)" by (rule reach_step [OF r(1) step_publish [OF r(2) t]])
    then show ?thesis
      using g run Ok t publish_completion_terminal [OF held_op [OF h], of x w]
      by (simp add: publish_round_def Let_def bind_action_def ret_def leaves_def)
  next
    case (Err e)
    then show ?thesis using run fine_working [OF h refl conjunct1 [OF g], of "AtFailure e"] by (simp add: publish_round_def Let_def)
  qed (use g in simp)
qed

section \<open>Live calls\<close>

lemma modify_live:
  "sd_live (snd (modify_session message k f s)) = sd_live s" "sd_live (snd (modify_reusable message k g s)) = sd_live s"
  "sd_live (snd (modify_pool message k h s)) = sd_live s" "sd_live (snd (modify_plugin message k q s)) = sd_live s"
  by (simp_all add: modify_at_def split: outcome.splits)

lemma bind_live: "(\<And>s. sd_live (snd (m s)) = sd_live s) \<Longrightarrow> (\<And>x s. sd_live (snd (f x s)) = sd_live s) \<Longrightarrow> sd_live (snd (bind_action m f s)) = sd_live s"
  by (auto simp: bind_action_def split: prod.splits outcome.splits) (metis snd_conv)+

lemma plain_live: "sd_live (snd (ret x s)) = sd_live s" "sd_live (snd (try_read g s)) = sd_live s" "sd_live (snd (from_result r s)) = sd_live s"
  by (simp_all add: ret_def try_read_def from_result_def)

lemma complete_begin_live: "sd_live (snd (complete_begin ev candidate c s)) = sd_live s"
proof -
  have retry: "sd_live (snd (retry_route c s)) = sd_live s" for s by (simp add: retry_route_def split: option.splits checkpoint_retry_state.splits)
  have mark: "sd_live (snd (mark_owner_closing c s)) = sd_live s" for s
    unfolding mark_owner_closing_def by (rule bind_live) (simp_all add: modify_live plain_live split: option.splits)
  show ?thesis
    unfolding complete_begin_def
    by (cases "pn_retained_lease c") (auto simp: retry intro!: bind_live simp: plain_live mark)
qed

lemma write_live: "(\<And>x s. sd_live (snd (f x s)) = sd_live s) \<Longrightarrow> sd_live (snd (bind_action (write_state g) f s)) = sd_live (g s)"
  by (simp add: bind_action_def write_state_def)

lemma complete_publish_live: "sd_live (snd (complete_publish ev e c s)) = bt_remove (sc_id (pn_call c)) (sd_live s)"
proof -
  have remove: "sd_live (snd (reusable_remove k s)) = sd_live s" for k s
    unfolding reusable_remove_def by (intro bind_live) (auto simp: modify_live plain_live write_state_def intro!: bind_live)
  show ?thesis
    unfolding complete_publish_def
    by (subst write_live) (auto simp: modify_live plain_live remove write_state_def intro!: bind_live split: option.splits)
qed

section \<open>Every section of a job\<close>

theorem complete_section_refines:
  assumes h: "held_job cfg runtime y P z ctx live j" and place: "place_ok (jb_place j) (jb_completion j)" and ce: "completion_env_ok ce"
  shows "\<exists>p t. complete_section z ce j (sy_state y) = (Ok p, t) \<and> leaves cfg runtime y P (one_call z (jb_owner j)) t p"
proof -
  have r: "sched_reach cfg runtime y" "sy_held y = add_mset (jb_completion j) P" using h by (simp_all add: held_job_def)
  note g = one_call_refl and work = fine_working [OF h refl one_call_refl]
  have ok: "\<not> is_panic (ce_finish ce l)" "\<not> is_panic (ce_watch ce q)" for l q using ce by (simp_all add: completion_env_ok_def)
  have wrote: "sched_reach cfg runtime (y\<lparr>sy_state := f (sy_state y), sy_held := add_mset (jb_completion j) P\<rparr>)"
    if "sched_call cfg runtime silent_env silent_submission (write_state f)" for f
    using reach_write [OF r(1) that] r(2) by (simp add: r(2) [symmetric])
  show ?thesis
  proof (cases "jb_place j")
    case AtWatch
    then show ?thesis
      using work [of AtBegin] work [of "AtFailure _"] ok(2)
      by (cases "pn_retirement (jb_completion j)"; cases "ce_watch ce (the (pn_retirement (jb_completion j)))") (auto, metis is_panic.simps(3))
  next
    case AtBegin
    then show ?thesis using begin_section [OF h ce] by simp
  next
    case (AtRelease l)
    then show ?thesis using fine_release_round [OF h ok(1)] by simp
  next
    case (AtAdvance retry)
    then show ?thesis using fine_advance_round [OF h _ ok(1)] place by simp
  next
    case AtHandOver
    have "sched_reach cfg runtime (y\<lparr>sy_state := push_finalizing (jb_completion j) (sy_state y), sy_held := P\<rparr>)"
      by (rule reach_step [OF r(1) step_finalizing [OF r(2)]])
    then show ?thesis using AtHandOver g by (simp add: leaves_def)
  next
    case (AtPhase retry)
    then show ?thesis using fine_phase_round [OF h] by simp
  next
    case (AtRecovered p)
    then show ?thesis using wrote [OF call_checkpoint_recovered] place g by (simp add: leaves_def)
  next
    case (AtCheckpoint retry phase)
    then show ?thesis using fine_checkpoint_round [OF h] by simp
  next
    case AtPublish
    then show ?thesis using publish_section [OF h] by simp
  next
    case (AtCheckpointFailed phase e)
    then show ?thesis using wrote [OF call_checkpoint_failed] g by (simp add: leaves_def Let_def)
  next
    case (AtFailure e)
    then show ?thesis using wrote [OF call_fail] g by (simp add: leaves_def)
  qed
qed

lemma not_published:
  "after_begin z ce j route \<noteq> Ok (Published w)" "release_round ce j l \<noteq> Ok (Published w)" "advance_round z ce j b \<noteq> Ok (Published w)"
  "phase_round ce j b \<noteq> Ok (Published w)" "checkpoint_round ce j b phase \<noteq> Ok (Published w)"
proof -
  have g: "give_up j c o' e \<noteq> Ok (Published w)" for c o' e by (simp add: give_up_def)
  have a: "advance_pending ce j b phase p c o' \<noteq> Ok (Published w)" for b phase p c o'
    by (auto simp: advance_pending_def split: prod.splits outcome.splits bool.splits)
  have r: "release_closing ce j l c o' \<noteq> Ok (Published w)" for l c o'
    by (auto simp: release_closing_def g split: outcome.splits module_release.splits)
  have ac: "advance_closing z ce j c o' \<noteq> Ok (Published w)" for c o'
    by (auto simp: advance_closing_def g r split: prod.splits outcome.splits option.splits)
  have sc: "settle_candidate z ce j b c \<noteq> Ok (Published w)" for b c
    by (auto simp: settle_candidate_def g split: prod.splits outcome.splits)
  have sr: "settle_retirement z ce j b \<noteq> Ok (Published w)" for b
    by (auto simp: settle_retirement_def sc Let_def split: outcome.splits option.splits bool.splits)
  show "after_begin z ce j route \<noteq> Ok (Published w)" by (auto simp: after_begin_def sr Let_def split: completion_route.splits)
  show "release_round ce j l \<noteq> Ok (Published w)" by (auto simp: release_round_def Let_def split: outcome.splits module_release.splits)
  show "advance_round z ce j b \<noteq> Ok (Published w)" by (auto simp: advance_round_def g a ac split: prod.splits outcome.splits option.splits)
  show "phase_round ce j b \<noteq> Ok (Published w)" by (auto simp: phase_round_def g a Let_def split: prod.splits outcome.splits option.splits)
  show "checkpoint_round ce j b phase \<noteq> Ok (Published w)" by (auto simp: checkpoint_round_def Let_def split: prod.splits outcome.splits bool.splits)
qed

lemma complete_section_live:
  assumes run: "complete_section z ce j s = (Ok p, t)" and wf: "bt_wf (sd_live s)"
  shows "case p of Published w \<Rightarrow> bt_get (sd_live t) (sc_id (pn_call (jb_completion j))) = None | _ \<Rightarrow> sd_live t = sd_live s"
proof -
  have other: ?thesis if "sd_live t = sd_live s" "\<And>w. p \<noteq> Published w" using that(1) that(2) by (cases p) auto
  show ?thesis
  proof (cases "jb_place j")
    case AtBegin
    obtain r u where u: "complete_begin (ce_env ce) (own_pending (jb_owner j) \<noteq> None) (jb_completion j) s = (r, u)" by fastforce
    have "sd_live u = sd_live s" using complete_begin_live [of "ce_env ce" _ "jb_completion j" s] u by (metis snd_conv)
    moreover have "t = u" "r = Ok route \<Longrightarrow> after_begin z ce j route = Ok p" for route
      using run u AtBegin by (auto simp: bind_action_def from_result_def split: outcome.splits)
    ultimately show ?thesis using run u AtBegin not_published(1)
      by (intro other) (auto simp: bind_action_def from_result_def split: outcome.splits)
  next
    case AtPublish
    obtain r w where w: "publish_completion (jb_owner j) = (r, w)" by fastforce
    then show ?thesis
      using run AtPublish complete_publish_live [of "ce_env ce" "Option.bind (own_pending (jb_owner j)) sn_error" "jb_completion j" s] wf
      by (cases r) (auto simp: publish_round_def bind_action_def ret_def Let_def bt_get_remove split: prod.splits outcome.splits)
  qed (use run in \<open>auto simp: not_published push_finalizing_def checkpoint_recovered_def checkpoint_failed_def sched_fail_def Let_def
      split: option.splits outcome.splits if_splits completion_progress.splits\<close>)
qed

section \<open>The worker's closing call and the supervisor's round\<close>

lemma execute_closing_refines:
  assumes "pn_finalization c \<noteq> None" "refine_flight (pend_flight c) (pend_flight c)"
  shows "\<exists>c' w'. execute_closing z run now contended journal limit c w = (Ok c', w') \<and> refine_flight (pend_flight c) (pend_flight c') \<and> one_call z w w'"
proof -
  obtain closing where closing: "pn_finalization c = Some closing" using assms(1) by blast
  obtain answer w' where answer: "closing_answer run now contended journal c w = (answer, w')" by (cases "closing_answer run now contended journal c w")
  then have "w' = run_call z (TakeFinalizationControl now contended journal) w"
    by (simp add: closing_answer_def split: prod.splits outcome.splits)
  then have "one_call z w w'" by (metis one_callI)
  moreover have "pend_flight (c\<lparr>pn_finalization := x\<rparr>) = pend_flight c" for x by (simp add: pend_flight_def)
  ultimately show ?thesis using closing answer assms(2) by (simp add: execute_closing_def)
qed

lemma supervise_begin_reach:
  assumes "sched_reach cfg runtime y" "env_ok ev (sy_state y)" "supervise_begin ev (sy_state y) = (Ok cs, t)"
  shows "sched_reach cfg runtime (y\<lparr>sy_state := t, sy_held := sy_held y + mset cs\<rparr>)"
proof -
  obtain x u where u: "reject_expired ev (sy_state y) = (Ok x, u)" "take_cleaning u = (cs, t)"
    using assms(3) by (auto simp: supervise_begin_def bind_action_def split: prod.splits outcome.splits)
  have "sched_reach cfg runtime (y\<lparr>sy_state := u\<rparr>)"
    by (rule reach_step [OF assms(1) step_call [OF assms(2) silent_ok(2) call_reject u(1)]])
  from reach_step [OF this step_take] show ?thesis using u(2) by simp
qed

lemma supervise_end_reach:
  assumes "sched_reach cfg runtime y" "sy_held y = P + mset cs" "\<And>r. \<not> is_panic (ev_retired ev r)"
  shows "sched_reach cfg runtime (y\<lparr>sy_state := snd (supervise_end ev cs (sy_state y)), sy_held := P\<rparr>) \<and> \<not> is_panic (fst (supervise_end ev cs (sy_state y)))"
proof -
  have ready: "\<not> is_panic (any_retired ev s ds)" for s ds
  proof (induction ds)
    case (Cons d ds)
    then show ?case using assms(3) by (auto simp: is_panic_and_then split: option.splits)
  qed simp
  have "sched_reach cfg runtime (y\<lparr>sy_state := put_cleaning cs (sy_state y), sy_held := P\<rparr>)"
    by (rule reach_step [OF assms(1) step_put [OF assms(2)]])
  then show ?thesis using ready by (simp add: supervise_end_def supervise_decide_def retirement_ready_def Let_def is_panic_and_then)
qed

section \<open>Operations in the registry\<close>

fun progress_owner :: "completion_progress \<Rightarrow> owned" where
  "progress_owner (Working j) = jb_owner j"
| "progress_owner (Kept c w) = w"
| "progress_owner (HandedOver w) = w"
| "progress_owner (Published w) = w"

text \<open>The owner of an operation that the registry retains.\<close>

definition owns :: "registry_system \<Rightarrow> string \<Rightarrow> owned \<Rightarrow> bool" where
  "owns rs i w \<longleftrightarrow> (\<exists>op. bt_get (ors_records (guarded (reg_state (rs_registry rs)))) i = Some op \<and> fst (whole_operation op (rs_private rs i)) = w)"

lemma owns_inv:
  assumes "registry_reachable z rs" "owns rs i w"
  shows "\<exists>ctx live. op_inv (sz_effect z) ctx live w"
proof -
  obtain op where op: "bt_get (ors_records (reg_st (rs_registry rs))) i = Some op" "fst (whole_operation op (rs_private rs i)) = w"
    using assms(2) by (auto simp: owns_def)
  have "record_ok z (rs_registry rs) (rs_private rs) i op" by (rule registry_invD(7) [OF registry_reachable_inv [OF assms(1)] op(1)])
  then show ?thesis using op(2) by (auto simp: record_ok_def healthy_def)
qed

lemma owns_call:
  assumes "registry_reachable z rs" "owns rs i w" "one_call z w w'"
  shows "\<exists>rs'. registry_reachable z rs' \<and> owns rs' i w'"
proof -
  obtain op where op: "bt_get (ors_records (guarded (reg_state (rs_registry rs)))) i = Some op" "fst (whole_operation op (rs_private rs i)) = w"
    using assms(2) by (auto simp: owns_def)
  have wf: "bt_wf (ors_records (reg_st (rs_registry rs)))" by (rule registry_invD(2) [OF registry_reachable_inv [OF assms(1)]])
  consider "w' = w" | c where "w' = run_call z c w" using assms(3) by (auto simp: one_call_def)
  then show ?thesis
  proof cases
    case 1
    then show ?thesis using assms by blast
  next
    case (2 c)
    let ?live = "snd (whole_operation op (rs_private rs i))"
    have "operation_step z (whole_operation op (rs_private rs i)) (w', ?live)"
      using op_call [of z w ?live c] op(2) 2 by (metis prod.collapse)
    note reach = registry_next [OF assms(1) rs_operation [OF op(1) this]]
    show ?thesis
      by (rule exI, rule conjI, rule reach) (simp add: owns_def replace_operation_def bt.get_put whole_operation_def private_part_def wf)
  qed
qed

section \<open>A run\<close>

text \<open>The call of the scheduler's run has returned; its completion is with the supervisor, and its operation is the one the registry's run admits.\<close>

definition srun_completion :: pending_completion where
  "srun_completion = \<lparr>pn_finalization = None, pn_retained_lease = Some 5, pn_cleaning_started = False, pn_call = srun_call, pn_result = Inr VNull,
     pn_retirement = None, pn_effects = UnknownEffect, pn_dispatched = True\<rparr>"

definition srun_held :: sched_system where
  "srun_held = \<lparr>sy_state = srun_dispatched\<lparr>sd_cleaning_count := 1\<rparr>, sy_running = {#}, sy_held = {#srun_completion#}\<rparr>"

definition srun_job :: completion_job where
  "srun_job = \<lparr>jb_completion = srun_completion, jb_owner = new_owner demo_operation, jb_place = AtPhase False\<rparr>"

definition srun_answers :: completion_env where
  "srun_answers = \<lparr>ce_env = silent_env, ce_has_queue = False, ce_watch = \<lambda>_. Ok (), ce_responses = demo_journal, ce_contended = False, ce_now = 0,
     ce_plan = \<lambda>_. (''close'', 1000), ce_finish = \<lambda>_. Ok NoInstance\<rparr>"

lemma srun_held_reach: "sched_reach srun_config ''r'' srun_held"
proof -
  let ?y = "\<lparr>sy_state = srun_dispatched, sy_running = {#(srun_call, True, None)#}, sy_held = {#}\<rparr>" and ?ev = "srun_env ''r:op:3''"
  let ?t = "srun_dispatched\<lparr>sd_cleaning_count := 1, sd_cleaning := [srun_completion]\<rparr>"
  have "invoke_completion ?ev (Inr NoInstance) srun_call 5 (Inr VNull) = srun_completion"
    by (simp add: invoke_completion_def srun_completion_def srun_call_def srun_env_def Let_def)
  moreover have "exec_finish ?ev srun_completion True srun_dispatched = (Ok (), ?t)"
    by (simp add: exec_finish_def unusable_def srun_completion_def srun_call_def srun_env_def bind_action_def ret_def write_state_def srun_states)
  ultimately have "sched_reach srun_config ''r'' (?y\<lparr>sy_state := ?t, sy_running := {#}\<rparr>)"
    using reach_step [OF srun_dispatched_reach step_invoked [where R = "{#}" and ev = ?ev and release' = "Inr NoInstance" and lease = 5 and result = "Inr VNull"]] by simp
  from reach_step [OF this step_take] show ?thesis
    by (simp add: take_cleaning_def srun_held_def srun_states)
qed

lemma srun_owns: "owns (demo_with demo_operation demo_private) ''r:op:2'' (jb_owner srun_job)"
  by (simp add: owns_def demo_with_def demo_private_def srun_job_def whole_operation_def private_part_def new_owner_def)

section \<open>Properties\<close>

text \<open>
  Property C8. Finishing a call follows both the scheduler and its operation: every section of the supervisor's work on a completion
  succeeds without panic, ends in a reachable state of the scheduler that holds the completion or has handed it on, and acts
  on the operation by at most one legal call. Its identity stops being live exactly in the section that publishes the terminal snapshot.
\<close>

theorem completion_follows_both:
  assumes "sched_reach cfg runtime y" "sy_held y = add_mset (jb_completion j) P" "place_ok (jb_place j) (jb_completion j)" "completion_env_ok ce"
    and "registry_reachable z rs" "owns rs (sc_id (pn_call (jb_completion j))) (jb_owner j)"
  shows "\<exists>p t. complete_section z ce j (sy_state y) = (Ok p, t) \<and> leaves cfg runtime y P (one_call z (jb_owner j)) t p \<and>
    (\<exists>rs'. registry_reachable z rs' \<and> owns rs' (sc_id (pn_call (jb_completion j))) (progress_owner p)) \<and>
    (case p of Published w \<Rightarrow> bt_get (sd_live t) (sc_id (pn_call (jb_completion j))) = None | _ \<Rightarrow> sd_live t = sd_live (sy_state y))"
proof -
  let ?c = "jb_completion j"
  obtain ctx live where "op_inv (sz_effect z) ctx live (jb_owner j)" using owns_inv [OF assms(5,6)] by blast
  then have h: "held_job cfg runtime y P z ctx live j" using assms(1,2) by (simp add: held_job_def)
  obtain p t where run: "complete_section z ce j (sy_state y) = (Ok p, t)" and l: "leaves cfg runtime y P (one_call z (jb_owner j)) t p"
    using complete_section_refines [OF h assms(3,4)] by blast
  have "one_call z (jb_owner j) (progress_owner p)" using l by (cases p) (simp_all add: leaves_def)
  then have "\<exists>rs'. registry_reachable z rs' \<and> owns rs' (sc_id (pn_call ?c)) (progress_owner p)" by (rule owns_call [OF assms(5,6)])
  moreover have "bt_wf (sd_live (sy_state y))" using sched_inv_parts(2) [OF reach_sched_inv [OF assms(1)]] by (simp add: call_inv_def)
  then have "case p of Published w \<Rightarrow> bt_get (sd_live t) (sc_id (pn_call ?c)) = None | _ \<Rightarrow> sd_live t = sd_live (sy_state y)"
    by (rule complete_section_live [OF run])
  ultimately show ?thesis using run l by blast
qed

lemma completion_follows_both_witness:
  "\<exists>p t. complete_section demo_serializers srun_answers srun_job (sy_state srun_held) = (Ok p, t) \<and>
    (\<exists>rs'. registry_reachable demo_serializers rs' \<and> owns rs' ''r:op:2'' (progress_owner p))"
proof -
  have "place_ok (jb_place srun_job) (jb_completion srun_job)" "completion_env_ok srun_answers"
    by (simp_all add: srun_job_def completion_env_ok_def srun_answers_def silent_env_def)
  moreover have "sy_held srun_held = add_mset (jb_completion srun_job) {#}" "sc_id (pn_call (jb_completion srun_job)) = ''r:op:2''"
    by (simp_all add: srun_held_def srun_job_def srun_completion_def srun_call_def)
  ultimately show ?thesis
    using completion_follows_both [OF srun_held_reach, of srun_job "{#}" srun_answers demo_serializers "demo_with demo_operation demo_private"]
      demo_admitted_reachable srun_owns by auto
qed

end
