(* ===== verification/Spec2Isabelle.thy ===== *)
theory Spec2Isabelle
  imports Governor_Props Call_Control Operation_Theorems Tool_Cache_Theorems Host_Theorems
    Journal_Worker_Theorems Journal_Composition Scheduler_Supervisor
begin

text \<open>
  A verification development of the embedded plugin runtime of LuaSkills
  (\<^verbatim>\<open>src/src/runtime/embedded\<close>) and of its tool cache (\<^verbatim>\<open>src/src/runtime/cache.rs\<close>).

  \<^bold>\<open>The program.\<close> A host process embeds one runtime per tenant. The runtime keeps Lua VMs in pools
  that a \<^emph>\<open>governor\<close> admits against one parent budget and the budgets of groups and capacity owners.
  A call runs under a \<^emph>\<open>call control\<close> (deadline, cancellation) and belongs to an \<^emph>\<open>operation\<close>, whose
  snapshots are published to clients and, when a history is configured, written to the \<^emph>\<open>operation
  journal\<close> first: directly, or through a worker with a bounded queue.
  What a call does to the outside is recorded in the operation's \<^emph>\<open>effect journal\<close>. Calls reach the
  host through the \<^emph>\<open>capability registry\<close>: a module binds an immutable snapshot of it, every call
  acquires a permit of its entry, and queued capabilities go through the \<^emph>\<open>host request broker\<close>, which
  the host polls. The \<^emph>\<open>scheduler\<close> queues the calls of every plugin, gives them to workers within the limits of
  pools, plugins and capacities, keeps sessions and reusable instances, and finishes calls in a supervisor. The \<^emph>\<open>tool cache\<close> is the process-wide store of large tool results.

  \<^bold>\<open>Theories and sources.\<close>
    \<^item> Prelude, Keyed_Store, Action: Rust's results, checked and saturating
      arithmetic, \<^verbatim>\<open>BTreeMap\<close> as a sorted association list (a locale of keyed stores, interpreted on
      it), mutexes with poisoning, actions that fail and change state part-way, with a calculus of
      weakest preconditions, and a locale of forward simulations.
    \<^item> Embedded_Base (\<^verbatim>\<open>error.rs\<close>, \<^verbatim>\<open>identity.rs\<close>, \<^verbatim>\<open>value_size.rs\<close>, \<^verbatim>\<open>schema.rs\<close>), Embedded_Config (\<^verbatim>\<open>config.rs\<close>,
      \<^verbatim>\<open>capacity.rs\<close>, \<^verbatim>\<open>plugin_config.rs\<close>).
    \<^item> Governor (\<^verbatim>\<open>governor.rs\<close>, \<^verbatim>\<open>governor/capacity.rs\<close>); Governor_Inv, Governor_Steps,
      Governor_Safety: its accounting invariant and the ownership of reservations and permits as a
      step relation; Governor_Props: budgets, guaranteed minima, absence of panics, error atomicity.
    \<^item> Capability_Types (\<^verbatim>\<open>capabilities/types.rs\<close>), Effect_Ledger and Effect_Ledger_Props
      (\<^verbatim>\<open>effects.rs\<close>): budgets, sealing and freezing of evidence, severity order; Call_Control
      (\<^verbatim>\<open>control.rs\<close>): deadlines, cancellation and the final binding of a control.
    \<^item> Operation_Data, Operation_Lifecycle, Operation_Registry, Operation_Owner (\<^verbatim>\<open>operations.rs\<close> and
      \<^verbatim>\<open>operations/*\<close>): snapshots, checkpoints, finalization, admission, reservations, listing;
      Operation_Inv, Operation_Steps, Operation_Completion, Operation_Finalization, Operation_Safety,
      Operation_System, Operation_History, Operation_Registry_Inv, Operation_Listing: invariants per
      function and per step; Operation_Write_Ahead: the runs of an owner with a
      log of every request the journal took and answered, and that a snapshot is published only after
      the journal accepted it, in the same call or a later poll; Operation_Props, Operation_Theorems: terminal
      snapshots are final, the lifecycle is followed, bounded retention,
      identities are never reused, pages are complete, nothing panics.
    \<^item> Capability_Entry and Capability_Registry
      (\<^verbatim>\<open>capabilities/registry.rs\<close>); Capability_System, Capability_Inv, Capability_Steps: the sections of
      all threads as a step relation with ghost lists of permits and releases;
      Capability_Theorems: exact admission, final draining, atomic registration, sound snapshots.
    \<^item> Host_Request_Broker and Host_Delivery (\<^verbatim>\<open>capabilities/broker.rs\<close>, \<^verbatim>\<open>broker/completion.rs\<close>),
      Capability_Host (calls, shutdown and \<^verbatim>\<open>capabilities/binding.rs\<close>); Host_System, Host_Inv,
      Host_Steps: broker and registry together, with the prepared call of a request owned by exactly
      one place; Host_Runs: the functions of the broker as runs of those sections; Host_Theorems:
      limits, atomic submission, settlement at most once, order of delivery, slots, termination of
      the delivery loop, size of JSON batches.
    \<^item> Journal_Data (\<^verbatim>\<open>journal.rs\<close>, \<^verbatim>\<open>journal/reconciliation.rs\<close>), Journal_Store (\<^verbatim>\<open>journal/sqlite.rs\<close>,
      \<^verbatim>\<open>journal/recovery.rs\<close>), Journal_File (\<^verbatim>\<open>journal/storage.rs\<close>); Journal_Inv: the contract of
      the codec, the abstract history a table stands for (a readable record, an unreadable row or
      nothing under each identity) and its steps; Journal_Calls, Journal_Theorems, Journal_Demo: every call, whatever
      SQLite answers, is such a step or none, revisions only grow, an uncertain commit of exact
      JSON values is retried exactly (and one of other values may be refused), a reconciliation ends a
      history.
    \<^item> Journal_Worker (\<^verbatim>\<open>journal/worker.rs\<close>, \<^verbatim>\<open>journal/worker/recovery.rs\<close>), Journal_Worker_Inv,
      Journal_Worker_System, Journal_Worker_Theorems: the thread by the place it has reached, clients
      and the host as steps; the contract of the journal backend is a locale, interpreted on the
      SQLite journal. Receipts are bounded, writes are in order, acknowledgements are true, closing
      ends. Journal_Composition: operations over the journal and the journal over its file.
    \<^item> Tool_Cache, Tool_Cache_Inv, Tool_Cache_Props, Tool_Cache_System, Tool_Cache_Theorems
      (\<^verbatim>\<open>runtime/cache.rs\<close>): refinement of a bounded queue with expiry, isolation of tools under
      interleaving, where a create draws its identity, draws its sequence number and inserts in three
      steps, termination of eviction, the configure-once cell.
    \<^item> Scheduler_Data, Scheduler_Dispatch, Scheduler_Completion, Scheduler_Api (\<^verbatim>\<open>scheduler.rs\<close> and
      \<^verbatim>\<open>scheduler/*\<close>): the state and its queues, selection of the next call, execution, completion and
      maintenance, the calls of the host; Scheduler_Inv: the invariant over the state and the calls in
      flight; Scheduler_Moves, Scheduler_Leases, Scheduler_Returns, Scheduler_Owners: each change of the
      state keeps it; Scheduler_Runs, Scheduler_Select, Scheduler_Choose, Scheduler_Finish,
      Scheduler_Closing, Scheduler_Calls, Scheduler_Static: so does every section; Scheduler_Theorems: hosts,
      workers and the supervisor as a step relation, and what holds in every reachable state: each
      call is in one place, limits hold, a VM has one user, counters are exact, nothing panics,
      selection is first in, first out and in turn, shutdown empties the queues. Scheduler_Supervisor: \<^verbatim>\<open>complete\<close>
      and \<^verbatim>\<open>finalization.rs\<close> by the place they have reached, with the owner of the operation; each section is
      a run of the scheduler's steps and at most one call of the operation registry's step relation.

  \<^bold>\<open>How code is read.\<close> A function that takes a lock is a section on the guarded state; a panic inside
  poisons the lock, and destructors take a poisoned lock over, as the code does. Where several threads
  meet, the sections are the rules of an inductive step relation and the properties hold in every
  reachable state. Machine integers are natural numbers with the checked, saturating or wrapping
  operation of the source written out (\<open>u64_max\<close>, \<open>checked_add\<close>, \<open>saturating_sub\<close>); clock readings,
  allocation failures, serializations and the answers of the journal are arguments, so a theorem holds
  for all of them. Loops are total functions with termination proofs; \<open>handle_wait\<close>, the only
  blocking wait, runs over the list of its wake-ups and returns \<open>None\<close> when they do not suffice.

  \<^bold>\<open>Parameters.\<close> \<^verbatim>\<open>serde_json\<close> (the chunks a value serializes to; for the journal \<open>codec_ok\<close>: distinct
  records are written differently, what is read back differs from what was written in JSON values at
  most, and it is the same when these are exact, that is integers of 64 bits, ordered objects and nesting
  below the decoder's 128 levels; of other values, which the crate's configuration reads back only
  approximately or not at all, nothing more is assumed), SHA-256, \<^verbatim>\<open>jsonschema\<close> and \<^verbatim>\<open>semver\<close> (what they accept), the answers
  of SQLite and of the file system, host callbacks. The operations see the journal through the
  responses to their requests; Journal_Composition puts the SQLite journal in that place. The scheduler
  asks controls, the operation registry, the pools and leases through \<open>scheduler_env\<close> and
  \<open>submission_env\<close>; \<open>env_ok\<close> and \<open>submission_safe\<close> say what it relies on: no answer is a panic, new identities
  are not in use, and only modules with a finalizer have a closing plan.

  \<^bold>\<open>Not modelled.\<close> The VM pool, cleanup and retirement drive Lua VMs through \<^verbatim>\<open>mlua\<close>: what a VM answers to
  a call or a closing call, and what releasing a lease answers, are arguments. The Lua engine and its bridges,
  managed processes, skill packages, downloads, dependency installation and configuration services do file
  system, network and process input and output; the C interface marshals pointers. Threads are not
  started: their sections are steps in any order.
\<close>

end
